(* ===== verification/Prelude.thy ===== *)
theory Prelude
  imports Complex_Main "HOL-Library.Word" "HOL-Library.List_Lexorder"
begin

text \<open>
  Shared vocabulary of the development: JavaScript strings as sequences of UTF-16 code units,
  the insertion-ordered \<open>Map\<close> and \<open>Set\<close> of the language, plain objects used as dictionaries
  (with the property order of the language and the names every object inherits), the result type
  of fallible code, and the lemma collections the component theories use.

  A JavaScript \<open>Map\<close> enumerates its entries in insertion order, and overwriting a key keeps its
  place. The bounded caches of the program rely on exactly this: they delete a key and set it
  again to move it to the end, and evict from the front. Hence maps are association lists with
  distinct keys rather than functions.
\<close>

named_theorems jmap_simps \<open>equations of the JavaScript Map operations\<close>
named_theorems wf_intros \<open>the operations keep the well-formedness of the maps\<close>

section \<open>Strings\<close>

type_synonym jstring = "16 word list"

text \<open>String literals of the source are written \<open>js ''...''\<close>.\<close>

definition js :: "string \<Rightarrow> jstring" where
  "js s = map of_char s"

lemma unat_of_char16: "unat (of_char c :: 16 word) = (of_char c :: nat)"
proof -
  have "(of_char c :: nat) < 2 ^ LENGTH(16)"
    using nat_of_char_less_256 [of c] by (rule order_less_trans) simp
  then show ?thesis
    by (metis of_nat_inverse of_nat_of_char)
qed

lemma of_char_word16_inject [simp]: "(of_char c :: 16 word) = of_char d \<longleftrightarrow> c = d"
proof
  assume "(of_char c :: 16 word) = of_char d"
  then have "unat (of_char c :: 16 word) = unat (of_char d :: 16 word)" by simp
  then show "c = d" by (simp add: unat_of_char16)
qed simp

lemma js_inject [simp]: "js s = js t \<longleftrightarrow> s = t"
  by (simp add: js_def inj_map_eq_map inj_def)

lemma js_Nil [simp]: "js [] = []"
  by (simp add: js_def)

lemma js_eq_Nil_iff [simp]: "js s = [] \<longleftrightarrow> s = []"
  by (simp add: js_def)

lemma js_append: "js (s @ t) = js s @ js t"
  by (simp add: js_def)

lemma length_js [simp]: "length (js s) = length s"
  by (simp add: js_def)

section \<open>Results of fallible code\<close>

text \<open>
  A thrown exception is \<open>Inl\<close>, a normal return is \<open>Inr\<close>. \<open>check c e\<close> is the statement
  \<open>if (c) throw e\<close>; \<open>seq_check\<close> runs the next statement when the first did not throw.
\<close>

type_synonym ('e, 'a) result = "'e + 'a"

definition throw_if :: "bool \<Rightarrow> 'e \<Rightarrow> ('e, unit) result" where
  "throw_if c e = (if c then Inl e else Inr ())"

definition andThen :: "('e, 'a) result \<Rightarrow> ('a \<Rightarrow> ('e, 'b) result) \<Rightarrow> ('e, 'b) result" where
  "andThen r f = (case r of Inl e \<Rightarrow> Inl e | Inr a \<Rightarrow> f a)"

text \<open>A \<open>for ... of\<close> loop whose body may throw.\<close>

fun for_each :: "('a \<Rightarrow> ('e, unit) result) \<Rightarrow> 'a list \<Rightarrow> ('e, unit) result" where
  "for_each f [] = Inr ()"
| "for_each f (x # xs) = andThen (f x) (\<lambda>_. for_each f xs)"

lemma throw_if_simps [simp]:
  "throw_if c e = Inr u \<longleftrightarrow> \<not> c"
  "throw_if c e = Inl e' \<longleftrightarrow> c \<and> e' = e"
  by (auto simp: throw_if_def)

lemma andThen_Inr_iff [simp]: "andThen r f = Inr b \<longleftrightarrow> (\<exists>a. r = Inr a \<and> f a = Inr b)"
  by (cases r) (auto simp: andThen_def)

lemma andThen_Inl_iff: "andThen r f = Inl e \<longleftrightarrow> r = Inl e \<or> (\<exists>a. r = Inr a \<and> f a = Inl e)"
  by (cases r) (auto simp: andThen_def)

lemma andThen_simps [simp]: "andThen (Inr a) f = f a" "andThen (Inl e) f = Inl e"
  by (simp_all add: andThen_def)

lemma for_each_Inr_iff [simp]: "for_each f xs = Inr u \<longleftrightarrow> (\<forall>x\<in>set xs. f x = Inr ())"
  by (induction xs) auto

section \<open>Sets in insertion order\<close>

definition jset_add :: "'a \<Rightarrow> 'a list \<Rightarrow> 'a list" where
  "jset_add x xs = (if x \<in> set xs then xs else xs @ [x])"

definition jset_delete :: "'a \<Rightarrow> 'a list \<Rightarrow> 'a list" where
  "jset_delete x xs = filter (\<lambda>y. y \<noteq> x) xs"

text \<open>\<open>new Set(xs)\<close>: the first occurrence of every element, in order.\<close>

definition jset_of :: "'a list \<Rightarrow> 'a list" where
  "jset_of xs = fold jset_add xs []"

lemma set_jset_add [simp]: "set (jset_add x xs) = insert x (set xs)"
  by (auto simp: jset_add_def)

lemma set_jset_delete [simp]: "set (jset_delete x xs) = set xs - {x}"
  by (auto simp: jset_delete_def)

lemma distinct_jset_add [simp]: "distinct (jset_add x xs) \<longleftrightarrow> distinct xs"
  by (auto simp: jset_add_def)

lemma distinct_jset_delete [simp]: "distinct xs \<Longrightarrow> distinct (jset_delete x xs)"
  by (simp add: jset_delete_def)

lemma set_fold_jset_add: "set (fold jset_add xs ys) = set xs \<union> set ys"
  by (induction xs arbitrary: ys) auto

lemma distinct_fold_jset_add: "distinct ys \<Longrightarrow> distinct (fold jset_add xs ys)"
  by (induction xs arbitrary: ys) auto

lemma set_jset_of [simp]: "set (jset_of xs) = set xs"
  by (simp add: jset_of_def set_fold_jset_add)

lemma distinct_jset_of [simp]: "distinct (jset_of xs)"
  by (simp add: jset_of_def distinct_fold_jset_add)

lemma fold_jset_add_distinct: "distinct (ys @ xs) \<Longrightarrow> fold jset_add xs ys = ys @ xs"
  by (induction xs arbitrary: ys) (auto simp: jset_add_def)

lemma jset_of_distinct [simp]: "distinct xs \<Longrightarrow> jset_of xs = xs"
  by (simp add: jset_of_def fold_jset_add_distinct)

lemma jset_of_idem [simp]: "jset_of (jset_of xs) = jset_of xs"
  by simp

lemma in_concat_mapI: "k \<in> set ks \<Longrightarrow> x \<in> set (f k) \<Longrightarrow> x \<in> set (concat (map f ks))"
  by auto

section \<open>Maps in insertion order\<close>

type_synonym ('k, 'v) jmap = "('k \<times> 'v) list"

definition jm_get :: "('k, 'v) jmap \<Rightarrow> 'k \<Rightarrow> 'v option" where
  "jm_get m k = map_of m k"

definition jm_has :: "('k, 'v) jmap \<Rightarrow> 'k \<Rightarrow> bool" where
  "jm_has m k \<longleftrightarrow> k \<in> fst ` set m"

definition jm_keys :: "('k, 'v) jmap \<Rightarrow> 'k list" where
  "jm_keys m = map fst m"

definition jm_values :: "('k, 'v) jmap \<Rightarrow> 'v list" where
  "jm_values m = map snd m"

fun jm_set :: "'k \<Rightarrow> 'v \<Rightarrow> ('k, 'v) jmap \<Rightarrow> ('k, 'v) jmap" where
  "jm_set k v [] = [(k, v)]"
| "jm_set k v ((k', v') # m) = (if k = k' then (k, v) # m else (k', v') # jm_set k v m)"

definition jm_delete :: "'k \<Rightarrow> ('k, 'v) jmap \<Rightarrow> ('k, 'v) jmap" where
  "jm_delete k m = filter (\<lambda>e. fst e \<noteq> k) m"

definition jm_wf :: "('k, 'v) jmap \<Rightarrow> bool" where
  "jm_wf m \<longleftrightarrow> distinct (map fst m)"

lemma jm_get_Nil [simp]: "jm_get [] k = None"
  by (simp add: jm_get_def)

lemma jm_get_Cons: "jm_get ((k, v) # m) k' = (if k' = k then Some v else jm_get m k')"
  by (simp add: jm_get_def)

lemma jm_get_append: "jm_get (m @ n) k = (case jm_get m k of None \<Rightarrow> jm_get n k | Some v \<Rightarrow> Some v)"
  by (auto simp: jm_get_def map_add_def split: option.split)

lemma jm_has_iff: "jm_has m k \<longleftrightarrow> (\<exists>v. jm_get m k = Some v)"
  by (simp add: jm_has_def jm_get_def map_of_eq_None_iff flip: not_None_eq)

lemma jm_get_None_iff: "jm_get m k = None \<longleftrightarrow> \<not> jm_has m k"
  by (simp add: jm_has_def jm_get_def map_of_eq_None_iff)

lemma set_jm_keys [simp]: "k \<in> set (jm_keys m) \<longleftrightarrow> jm_has m k"
  by (simp add: jm_keys_def jm_has_def)

lemma length_jm_keys [simp]: "length (jm_keys m) = length m"
  by (simp add: jm_keys_def)

lemma distinct_jm_keys [simp]: "distinct (jm_keys m) \<longleftrightarrow> jm_wf m"
  by (simp add: jm_keys_def jm_wf_def)

lemma jm_get_set [jmap_simps]: "jm_get (jm_set k v m) k' = (if k' = k then Some v else jm_get m k')"
  by (induction k v m rule: jm_set.induct) (auto simp: jm_get_def)

lemma jm_get_delete [jmap_simps]: "jm_get (jm_delete k m) k' = (if k' = k then None else jm_get m k')"
  by (induction m) (auto simp: jm_get_def jm_delete_def)

lemma jm_has_set [jmap_simps]: "jm_has (jm_set k v m) k' \<longleftrightarrow> k' = k \<or> jm_has m k'"
  by (auto simp: jm_has_iff jm_get_set)

lemma jm_has_delete [jmap_simps]: "jm_has (jm_delete k m) k' \<longleftrightarrow> k' \<noteq> k \<and> jm_has m k'"
  by (auto simp: jm_has_iff jm_get_delete)

lemma jm_has_Nil [simp]: "\<not> jm_has [] k"
  by (simp add: jm_has_def)

lemma jm_has_Cons: "jm_has (e # m) k \<longleftrightarrow> k = fst e \<or> jm_has m k"
  by (auto simp: jm_has_def)

lemma jm_no_keys: "(\<And>k. \<not> jm_has m k) \<Longrightarrow> m = []"
  by (cases m) (auto simp: jm_has_Cons)

lemma jm_wf_Nil [wf_intros, simp]: "jm_wf []"
  by (simp add: jm_wf_def)

lemma fst_set_jm_set: "fst ` set (jm_set k v m) = insert k (fst ` set m)"
  by (induction k v m rule: jm_set.induct) auto

lemma jm_wf_set [wf_intros, simp]: "jm_wf m \<Longrightarrow> jm_wf (jm_set k v m)"
  unfolding jm_wf_def
  by (induction k v m rule: jm_set.induct) (auto simp: fst_set_jm_set)

lemma jm_wf_delete [wf_intros, simp]: "jm_wf m \<Longrightarrow> jm_wf (jm_delete k m)"
  by (simp add: jm_wf_def jm_delete_def distinct_map_filter)

lemma jm_set_fresh: "\<not> jm_has m k \<Longrightarrow> jm_set k v m = m @ [(k, v)]"
  by (induction k v m rule: jm_set.induct) (auto simp: jm_has_def)

lemma jm_delete_idle: "\<not> jm_has m k \<Longrightarrow> jm_delete k m = m"
  unfolding jm_delete_def jm_has_def by (rule filter_True) auto

lemma length_jm_set:
  "length (jm_set k v m) = (if jm_has m k then length m else Suc (length m))"
  by (induction k v m rule: jm_set.induct) (auto simp: jm_has_def)

lemma length_jm_delete_le: "length (jm_delete k m) \<le> length m"
  by (simp add: jm_delete_def)

lemma jm_delete_Cons_wf: "jm_wf ((k, v) # m) \<Longrightarrow> jm_delete k ((k, v) # m) = m"
  by (auto simp: jm_wf_def jm_delete_def filter_id_conv)

lemma length_jm_delete:
  "jm_wf m \<Longrightarrow> length (jm_delete k m) = (if jm_has m k then length m - 1 else length m)"
proof (induction m)
  case (Cons e m)
  show ?case
  proof (cases "fst e = k")
    case True
    then have "jm_delete k (e # m) = m"
      using Cons.prems jm_delete_Cons_wf [of k "snd e" m] by (cases e) simp
    with True show ?thesis by (simp add: jm_has_def)
  next
    case False
    then have "length (jm_delete k (e # m)) = Suc (length (jm_delete k m))"
      and "jm_has (e # m) k \<longleftrightarrow> jm_has m k" and "jm_wf m"
      using Cons.prems by (auto simp: jm_wf_def jm_delete_def jm_has_def)
    moreover have "0 < length m" if "jm_has m k"
      using that by (cases m) auto
    ultimately show ?thesis
      using Cons.IH by auto
  qed
qed (simp add: jm_delete_def)

text \<open>Deleting a key and setting it again moves the entry to the end.\<close>

definition jm_move_to_end :: "'k \<Rightarrow> 'v \<Rightarrow> ('k, 'v) jmap \<Rightarrow> ('k, 'v) jmap" where
  "jm_move_to_end k v m = jm_set k v (jm_delete k m)"

lemma jm_move_to_end_eq: "jm_move_to_end k v m = jm_delete k m @ [(k, v)]"
  by (simp add: jm_move_to_end_def jm_set_fresh jm_has_delete)

lemma jm_get_move [jmap_simps]:
  "jm_get (jm_move_to_end k v m) k' = (if k' = k then Some v else jm_get m k')"
  by (simp add: jm_move_to_end_def jmap_simps)

lemma jm_has_move [jmap_simps]: "jm_has (jm_move_to_end k v m) k' \<longleftrightarrow> k' = k \<or> jm_has m k'"
  by (auto simp: jm_move_to_end_def jmap_simps)

lemma jm_wf_move [wf_intros, simp]: "jm_wf m \<Longrightarrow> jm_wf (jm_move_to_end k v m)"
  by (simp add: jm_move_to_end_def)

text \<open>
  The loop \<open>while (m.size > cap) m.delete(m.keys().next().value)\<close> that every bounded cache of
  the program runs after an insertion.
\<close>

function jm_evict :: "nat \<Rightarrow> ('k, 'v) jmap \<Rightarrow> ('k, 'v) jmap" where
  "jm_evict cap m =
     (if length m > cap then
        (case m of [] \<Rightarrow> m | (oldest, _) # _ \<Rightarrow> jm_evict cap (jm_delete oldest m))
      else m)"
  by pat_completeness auto
termination
  by (relation "measure (\<lambda>(cap, m). length m)")
    (auto simp: jm_delete_def intro: le_imp_less_Suc)

declare jm_evict.simps [simp del]

lemma jm_evict_drop: "jm_wf m \<Longrightarrow> jm_evict cap m = drop (length m - cap) m"
proof (induction cap m rule: jm_evict.induct)
  case (1 cap m)
  show ?case
  proof (cases "length m > cap")
    case True
    then obtain k v m' where m: "m = (k, v) # m'" by (cases m) auto
    with "1.prems" have d: "jm_delete k m = m'" by (simp add: jm_delete_Cons_wf)
    have "jm_evict cap m' = drop (length m' - cap) m'"
      using "1.IH" [OF True m refl] "1.prems" d m by (simp add: jm_wf_def)
    with True m d show ?thesis
      by (simp add: jm_evict.simps [of cap "(k, v) # m'"] Suc_diff_le)
  qed (simp add: jm_evict.simps [of cap m])
qed

lemma length_jm_evict: "jm_wf m \<Longrightarrow> length (jm_evict cap m) = min cap (length m)"
  by (simp add: jm_evict_drop)

lemma jm_wf_drop: "jm_wf m \<Longrightarrow> jm_wf (drop n m)"
  by (simp add: jm_wf_def flip: drop_map)

lemma jm_wf_evict [wf_intros, simp]: "jm_wf m \<Longrightarrow> jm_wf (jm_evict cap m)"
  by (simp add: jm_evict_drop jm_wf_drop)

lemma jm_evict_idle [simp]: "length m \<le> cap \<Longrightarrow> jm_evict cap m = m"
  by (simp add: jm_evict.simps [of cap m])

lemma jm_get_drop_Some: "jm_wf m \<Longrightarrow> jm_get (drop n m) k = Some v \<Longrightarrow> jm_get m k = Some v"
  unfolding jm_wf_def jm_get_def
  by (metis in_set_dropD map_of_SomeD map_of_is_SomeI)

lemma jm_get_evict_Some: "jm_wf m \<Longrightarrow> jm_get (jm_evict cap m) k = Some v \<Longrightarrow> jm_get m k = Some v"
  by (simp add: jm_evict_drop jm_get_drop_Some)

text \<open>The entry written last survives the eviction.\<close>

lemma jm_get_evict_last:
  assumes "jm_wf m" and "0 < cap"
  shows "jm_get (jm_evict cap (jm_move_to_end k v m)) k = Some v"
proof -
  let ?m = "jm_move_to_end k v m"
  have w: "jm_wf ?m" using assms by simp
  have "drop (length ?m - cap) ?m = drop (length ?m - cap) (jm_delete k m) @ [(k, v)]"
    using assms(2) by (simp add: jm_move_to_end_eq)
  then have "(k, v) \<in> set (jm_evict cap ?m)"
    using w by (simp add: jm_evict_drop)
  then show ?thesis
    using jm_wf_evict [OF w, of cap] by (simp add: jm_get_def jm_wf_def)
qed

section \<open>Plain objects used as dictionaries\<close>

type_synonym 'v jobj = "(jstring \<times> 'v) list"

text \<open>
  The own properties of an object are enumerated with the array-index keys first, in ascending
  order, and the other keys in insertion order. A read \<open>o[k]\<close> also sees the names that every
  plain object inherits from \<open>Object.prototype\<close>, which are functions or the prototype itself and
  hence neither \<open>undefined\<close> nor equal to any string.
\<close>

datatype 'v jprop = PMissing | PInherited | POwn 'v

definition inherited_names :: "jstring list" where
  "inherited_names = map js
     [''constructor'', ''__defineGetter__'', ''__defineSetter__'', ''hasOwnProperty'',
      ''__lookupGetter__'', ''__lookupSetter__'', ''isPrototypeOf'', ''propertyIsEnumerable'',
      ''toString'', ''valueOf'', ''__proto__'', ''toLocaleString'']"

definition obj_read :: "'v jobj \<Rightarrow> jstring \<Rightarrow> 'v jprop" where
  "obj_read ob k =
     (case map_of ob k of
        Some v \<Rightarrow> POwn v
      | None \<Rightarrow> if k \<in> set inherited_names then PInherited else PMissing)"

definition is_digit :: "16 word \<Rightarrow> bool" where
  "is_digit c \<longleftrightarrow> 48 \<le> c \<and> c \<le> 57"

definition nat_of_digits :: "jstring \<Rightarrow> nat" where
  "nat_of_digits s = foldl (\<lambda>n c. 10 * n + (unat c - 48)) 0 s"

definition array_index :: "jstring \<Rightarrow> nat option" where
  "array_index s =
     (if s \<noteq> [] \<and> list_all is_digit s \<and> (length s = 1 \<or> hd s \<noteq> 48) \<and>
         nat_of_digits s < 2 ^ 32 - 1
      then Some (nat_of_digits s) else None)"

fun obj_insert :: "jstring \<Rightarrow> 'v \<Rightarrow> 'v jobj \<Rightarrow> 'v jobj" where
  "obj_insert k v [] = [(k, v)]"
| "obj_insert k v ((k', v') # ob) =
     (case array_index k of
        None \<Rightarrow> (k', v') # obj_insert k v ob
      | Some i \<Rightarrow>
          (case array_index k' of
             None \<Rightarrow> (k, v) # (k', v') # ob
           | Some j \<Rightarrow> if i < j then (k, v) # (k', v') # ob else (k', v') # obj_insert k v ob))"

text \<open>\<open>o[k] = v\<close> for a value that is not an object; writing \<open>__proto__\<close> that way has no effect.\<close>

definition obj_assign :: "jstring \<Rightarrow> 'v \<Rightarrow> 'v jobj \<Rightarrow> 'v jobj" where
  "obj_assign k v ob =
     (if k \<in> fst ` set ob then jm_set k v ob
      else if k = js ''__proto__'' then ob
      else obj_insert k v ob)"

definition obj_delete :: "jstring \<Rightarrow> 'v jobj \<Rightarrow> 'v jobj" where
  "obj_delete k ob = jm_delete k ob"

lemma map_of_obj_insert:
  "k \<notin> fst ` set ob \<Longrightarrow> map_of (obj_insert k v ob) k' = (if k' = k then Some v else map_of ob k')"
  by (induction k v ob rule: obj_insert.induct) (auto split: option.splits)

lemma map_of_jm_set: "map_of (jm_set k v m) k' = (if k' = k then Some v else map_of m k')"
  using jm_get_set [of k v m k'] by (simp add: jm_get_def)

lemma map_of_jm_delete: "map_of (jm_delete k m) k' = (if k' = k then None else map_of m k')"
  using jm_get_delete [of k m k'] by (simp add: jm_get_def)

lemma map_of_obj_assign:
  "k \<noteq> js ''__proto__'' \<Longrightarrow>
   map_of (obj_assign k v ob) k' = (if k' = k then Some v else map_of ob k')"
  by (simp add: obj_assign_def map_of_obj_insert map_of_jm_set)

lemma map_of_obj_assign_other:
  "k' \<noteq> k \<Longrightarrow> map_of (obj_assign k v ob) k' = map_of ob k'"
  by (simp add: obj_assign_def map_of_obj_insert map_of_jm_set)

lemma obj_read_POwn_iff: "obj_read ob k = POwn v \<longleftrightarrow> map_of ob k = Some v"
  by (auto simp: obj_read_def split: option.splits)

lemma obj_read_PMissing_iff:
  "obj_read ob k = PMissing \<longleftrightarrow> map_of ob k = None \<and> k \<notin> set inherited_names"
  by (auto simp: obj_read_def split: option.splits)

lemma fst_set_obj_insert: "fst ` set (obj_insert k v ob) = insert k (fst ` set ob)"
  by (induction k v ob rule: obj_insert.induct) (auto split: option.splits)

lemma length_obj_insert: "length (obj_insert k v ob) = Suc (length ob)"
  by (induction k v ob rule: obj_insert.induct) (auto split: option.splits)

lemma jm_wf_obj_insert: "jm_wf ob \<Longrightarrow> k \<notin> fst ` set ob \<Longrightarrow> jm_wf (obj_insert k v ob)"
  unfolding jm_wf_def
  by (induction k v ob rule: obj_insert.induct)
    (auto split: option.splits simp: fst_set_obj_insert)

lemma jm_wf_obj_assign [wf_intros, simp]: "jm_wf ob \<Longrightarrow> jm_wf (obj_assign k v ob)"
  by (auto simp: obj_assign_def jm_wf_obj_insert)

lemma length_obj_assign_le: "length (obj_assign k v ob) \<le> Suc (length ob)"
  by (auto simp: obj_assign_def length_obj_insert length_jm_set)

section \<open>Contracts shared by the components\<close>

text \<open>
  A component whose operations are total functions on its state, with an invariant that holds for
  every new state and that every operation keeps.
\<close>

locale invariant_system =
  fixes init :: "'s \<Rightarrow> bool" and step :: "'op \<Rightarrow> 's \<Rightarrow> 's" and inv :: "'s \<Rightarrow> bool"
  assumes init_inv: "init s \<Longrightarrow> inv s"
    and step_inv: "inv s \<Longrightarrow> inv (step opr s)"
begin

lemma run_inv: "inv s \<Longrightarrow> inv (fold step ops s)"
  by (induction ops arbitrary: s) (auto intro: step_inv)

lemma reachable_inv: "init s \<Longrightarrow> inv (fold step ops s)"
  by (intro run_inv init_inv)

end

text \<open>
  A bounded cache: a value just written can be read back, the size never exceeds the capacity, and
  a write changes no other key except by evicting it.
\<close>

locale bounded_cache =
  fixes put :: "'k \<Rightarrow> 'v \<Rightarrow> 'c \<Rightarrow> 'c" and look :: "'c \<Rightarrow> 'k \<Rightarrow> 'v option"
    and size_of :: "'c \<Rightarrow> nat" and cap :: nat and ok :: "'c \<Rightarrow> bool"
  assumes put_ok: "ok c \<Longrightarrow> ok (put k v c)"
    and look_put: "ok c \<Longrightarrow> look (put k v c) k = Some v"
    and look_other: "ok c \<Longrightarrow> k' \<noteq> k \<Longrightarrow> look (put k v c) k' = Some w \<Longrightarrow> look c k' = Some w"
    and size_put: "ok c \<Longrightarrow> size_of (put k v c) \<le> cap"
begin

definition puts :: "('k \<times> 'v) list \<Rightarrow> 'c \<Rightarrow> 'c" where
  "puts es c = fold (\<lambda>(k, v). put k v) es c"

lemma puts_ok: "ok c \<Longrightarrow> ok (puts es c)"
  unfolding puts_def by (induction es arbitrary: c) (auto intro: put_ok)

lemma puts_snoc: "puts (es @ [(k, v)]) c = put k v (puts es c)"
  by (simp add: puts_def)

lemma puts_size: "ok c \<Longrightarrow> es \<noteq> [] \<Longrightarrow> size_of (puts es c) \<le> cap"
  by (cases es rule: rev_cases) (auto simp: puts_snoc puts_ok size_put)

lemma puts_last: "ok c \<Longrightarrow> look (puts (es @ [(k, v)]) c) k = Some v"
  by (simp add: puts_snoc puts_ok look_put)

text \<open>A cached value is always the last one written for its key.\<close>

lemma puts_look:
  "ok c \<Longrightarrow> look (puts es c) k = Some v \<Longrightarrow> map_of (rev es) k = Some v \<or> look c k = Some v"
proof (induction es arbitrary: v rule: rev_induct)
  case (snoc e es)
  obtain k' v' where e: "e = (k', v')" by (cases e)
  show ?case
  proof (cases "k' = k")
    case True
    with snoc.prems show ?thesis by (auto simp: e puts_snoc puts_ok look_put)
  next
    case False
    have "look (puts es c) k = Some v"
      by (rule look_other [OF puts_ok [OF snoc.prems(1)], of k k' v'])
        (use False snoc.prems(2) in \<open>auto simp: e puts_snoc\<close>)
    with snoc.IH [OF snoc.prems(1)] False show ?thesis by (auto simp: e)
  qed
qed (simp add: puts_def)

end

end
