(* ===== verification/Js_Value.thy ===== *)
theory Js_Value
  imports Prelude
begin

text \<open>
  The values the client runtime handles: what \<open>JSON.parse\<close> returns, and \<open>undefined\<close>.

  A finite number is held by its shortest decimal form \<open>c * 10 ^ p\<close>, which determines the double
  and is the form \<open>Number.prototype.toString\<close> prints; the order of doubles is the order of these
  decimals. Arrays and objects carry the identity of their allocation, since \<open>===\<close> compares
  arrays and objects by reference.
\<close>

section \<open>Numbers\<close>

datatype jnum = NaN | PosInf | NegInf | NegZero | Dec int int

definition num_wf :: "jnum \<Rightarrow> bool" where
  "num_wf n \<longleftrightarrow> (case n of Dec c p \<Rightarrow> (if c = 0 then p = 0 else c mod 10 \<noteq> 0) | _ \<Rightarrow> True)"

definition rat_of_dec :: "int \<Rightarrow> int \<Rightarrow> rat" where
  "rat_of_dec c p = (if 0 \<le> p then of_int c * 10 ^ nat p else of_int c / 10 ^ nat (- p))"

definition num_finite :: "jnum \<Rightarrow> bool" where
  "num_finite n \<longleftrightarrow> (case n of Dec _ _ \<Rightarrow> True | NegZero \<Rightarrow> True | _ \<Rightarrow> False)"

text \<open>The numeric value of a finite number, \<open>0\<close> for the others.\<close>

definition num_val :: "jnum \<Rightarrow> rat" where
  "num_val n = (case n of Dec c p \<Rightarrow> rat_of_dec c p | _ \<Rightarrow> 0)"

definition num_less :: "jnum \<Rightarrow> jnum \<Rightarrow> bool" where
  "num_less a b \<longleftrightarrow>
     a \<noteq> NaN \<and> b \<noteq> NaN \<and>
     (if a = NegInf then b \<noteq> NegInf
      else if a = PosInf then False
      else if b = PosInf then True
      else if b = NegInf then False
      else num_val a < num_val b)"

definition num_is_integer :: "jnum \<Rightarrow> bool" where
  "num_is_integer n \<longleftrightarrow> num_finite n \<and> num_val n = of_int \<lfloor>num_val n\<rfloor>"

definition num_is_safe_integer :: "jnum \<Rightarrow> bool" where
  "num_is_safe_integer n \<longleftrightarrow> num_is_integer n \<and> \<bar>num_val n\<bar> \<le> 2 ^ 53 - 1"

definition num_of_int :: "int \<Rightarrow> jnum" where
  "num_of_int i = Dec i 0"

text \<open>\<open>===\<close> on numbers: \<open>NaN\<close> differs from itself and the two zeros agree.\<close>

definition num_strict_eq :: "jnum \<Rightarrow> jnum \<Rightarrow> bool" where
  "num_strict_eq a b \<longleftrightarrow>
     (if a = NaN \<or> b = NaN then False
      else if num_finite a \<and> num_finite b then num_val a = num_val b
      else a = b)"

fun nat_digits :: "nat \<Rightarrow> jstring" where
  "nat_digits n =
     (if n < 10 then [of_nat (48 + n)] else nat_digits (n div 10) @ [of_nat (48 + n mod 10)])"

declare nat_digits.simps [simp del]

lemma unat_digit: "d < 10 \<Longrightarrow> unat (of_nat (48 + d) :: 16 word) = 48 + d"
  by (simp only: unat_of_nat) simp

lemma nat_digits_range: "c \<in> set (nat_digits n) \<Longrightarrow> 48 \<le> unat c \<and> unat c \<le> 57"
proof (induction n rule: nat_digits.induct)
  case (1 n)
  show ?case
    using "1.IH" "1.prems" [unfolded nat_digits.simps [of n]] unat_digit [of n] unat_digit [of "n mod 10"]
    by (auto split: if_splits simp del: of_nat_add)
qed

text \<open>The decimal digits of a number read back as the number.\<close>

lemma nat_of_digits_nat_digits: "nat_of_digits (nat_digits n) = n"
proof (induction n rule: nat_digits.induct)
  case (1 n)
  show ?case
    using 1 unat_digit [of n] unat_digit [of "n mod 10"]
    by (subst nat_digits.simps) (auto simp: nat_of_digits_def)
qed

text \<open>\<open>Number.prototype.toString\<close> of a positive decimal, after the ECMAScript algorithm.\<close>

definition dec_string :: "nat \<Rightarrow> int \<Rightarrow> jstring" where
  "dec_string c p =
     (let s = nat_digits c; k = int (length s); n = k + p; e = n - 1;
          exponent = js ''e'' @ (if e < 0 then js ''-'' else js ''+'') @ nat_digits (nat \<bar>e\<bar>)
      in if k \<le> n \<and> n \<le> 21 then s @ replicate (nat (n - k)) 48
         else if 0 < n \<and> n \<le> 21 then take (nat n) s @ js ''.'' @ drop (nat n) s
         else if - 6 < n \<and> n \<le> 0 then js ''0.'' @ replicate (nat (- n)) 48 @ s
         else if k = 1 then s @ exponent
         else take 1 s @ js ''.'' @ drop 1 s @ exponent)"

definition num_string :: "jnum \<Rightarrow> jstring" where
  "num_string n =
     (case n of
        NaN \<Rightarrow> js ''NaN''
      | PosInf \<Rightarrow> js ''Infinity''
      | NegInf \<Rightarrow> js ''-Infinity''
      | NegZero \<Rightarrow> js ''0''
      | Dec c p \<Rightarrow>
          if c = 0 then js ''0''
          else if c < 0 then js ''-'' @ dec_string (nat (- c)) p
          else dec_string (nat c) p)"

lemma num_strict_eq_refl: "a \<noteq> NaN \<Longrightarrow> num_strict_eq a a"
  by (simp add: num_strict_eq_def)

lemma num_strict_eq_sym: "num_strict_eq a b = num_strict_eq b a"
  by (auto simp: num_strict_eq_def)

lemma floor_pos_nat: "x = of_int \<lfloor>x\<rfloor> \<Longrightarrow> \<not> x \<le> 0 \<Longrightarrow> 0 < nat \<lfloor>x\<rfloor>" for x :: rat
proof -
  assume "x = of_int \<lfloor>x\<rfloor>" and "\<not> x \<le> 0"
  then have "0 < (of_int \<lfloor>x\<rfloor> :: rat)" by simp
  then show ?thesis by simp
qed

section \<open>Values\<close>

datatype jsval =
    JUndef
  | JNull
  | JBool bool
  | JNum jnum
  | JStr jstring
  | JArr nat "jsval list"
  | JObj nat "(jstring \<times> jsval) list"

text \<open>\<open>typeof v === "object" && v !== null\<close>, and \<open>Array.isArray\<close>.\<close>

fun is_object_like :: "jsval \<Rightarrow> bool" where
  "is_object_like (JArr _ _) = True"
| "is_object_like (JObj _ _) = True"
| "is_object_like _ = False"

fun is_array :: "jsval \<Rightarrow> bool" where
  "is_array (JArr _ _) = True"
| "is_array _ = False"

fun is_string :: "jsval \<Rightarrow> bool" where
  "is_string (JStr _) = True"
| "is_string _ = False"

fun is_number :: "jsval \<Rightarrow> bool" where
  "is_number (JNum _) = True"
| "is_number _ = False"

fun is_boolean :: "jsval \<Rightarrow> bool" where
  "is_boolean (JBool _) = True"
| "is_boolean _ = False"

text \<open>The elements of an array and the own properties of an object, empty for other values.\<close>

fun arr_items :: "jsval \<Rightarrow> jsval list" where
  "arr_items (JArr _ xs) = xs"
| "arr_items _ = []"

fun obj_fields :: "jsval \<Rightarrow> jsval jobj" where
  "obj_fields (JObj _ fs) = fs"
| "obj_fields _ = []"

fun str_val :: "jsval \<Rightarrow> jstring" where
  "str_val (JStr s) = s"
| "str_val _ = []"

fun truthy :: "jsval \<Rightarrow> bool" where
  "truthy JUndef = False"
| "truthy JNull = False"
| "truthy (JBool b) = b"
| "truthy (JNum n) = (n \<noteq> NaN \<and> \<not> (num_finite n \<and> num_val n = 0))"
| "truthy (JStr s) = (s \<noteq> [])"
| "truthy (JArr _ _) = True"
| "truthy (JObj _ _) = True"

fun strict_eq :: "jsval \<Rightarrow> jsval \<Rightarrow> bool" where
  "strict_eq (JNum a) (JNum b) = num_strict_eq a b"
| "strict_eq (JArr r _) (JArr r' _) = (r = r')"
| "strict_eq (JObj r _) (JObj r' _) = (r = r')"
| "strict_eq a b = (a = b)"

text \<open>\<open>Object.entries\<close> of any value other than \<open>undefined\<close> and \<open>null\<close>.\<close>

definition index_entries :: "jsval list \<Rightarrow> jsval jobj" where
  "index_entries xs = zip (map nat_digits [0..<length xs]) xs"

fun object_entries :: "jsval \<Rightarrow> jsval jobj" where
  "object_entries (JObj _ fs) = fs"
| "object_entries (JArr _ xs) = index_entries xs"
| "object_entries (JStr s) = index_entries (map (\<lambda>c. JStr [c]) s)"
| "object_entries _ = []"

definition array_inherited_names :: "jstring list" where
  "array_inherited_names = map js
     [''at'', ''concat'', ''copyWithin'', ''fill'', ''find'', ''findIndex'', ''findLast'',
      ''findLastIndex'', ''lastIndexOf'', ''pop'', ''push'', ''reverse'', ''shift'', ''unshift'',
      ''slice'', ''sort'', ''splice'', ''includes'', ''indexOf'', ''join'', ''keys'', ''entries'',
      ''values'', ''forEach'', ''filter'', ''flat'', ''flatMap'', ''map'', ''every'', ''some'',
      ''reduce'', ''reduceRight'', ''toReversed'', ''toSorted'', ''toSpliced'', ''with'']
     @ inherited_names"

text \<open>The property read \<open>v[k]\<close> on an array or an object.\<close>

definition read_prop :: "jsval \<Rightarrow> jstring \<Rightarrow> jsval jprop" where
  "read_prop v k =
     (case v of
        JObj _ fs \<Rightarrow> obj_read fs k
      | JArr _ xs \<Rightarrow>
          (case array_index k of
             Some i \<Rightarrow> if i < length xs then POwn (xs ! i) else PMissing
           | None \<Rightarrow>
               if k = js ''length'' then POwn (JNum (num_of_int (int (length xs))))
               else if k \<in> set array_inherited_names then PInherited else PMissing)
      | _ \<Rightarrow> PMissing)"

text \<open>
  \<open>String(v)\<close>. Converting an object whose own \<open>toString\<close> is not a function throws a
  \<open>TypeError\<close>, which is \<open>None\<close>; the elements of an array are converted and joined by commas,
  with \<open>undefined\<close> and \<open>null\<close> printed as the empty string.
\<close>

fun join_with :: "jstring \<Rightarrow> jstring list \<Rightarrow> jstring" where
  "join_with sep [] = []"
| "join_with sep [x] = x"
| "join_with sep (x # y # ys) = x @ sep @ join_with sep (y # ys)"

fun collect_options :: "'a option list \<Rightarrow> 'a list option" where
  "collect_options [] = Some []"
| "collect_options (None # _) = None"
| "collect_options (Some x # ys) = map_option ((#) x) (collect_options ys)"

fun to_string :: "jsval \<Rightarrow> jstring option" where
  "to_string JUndef = Some (js ''undefined'')"
| "to_string JNull = Some (js ''null'')"
| "to_string (JBool b) = Some (if b then js ''true'' else js ''false'')"
| "to_string (JNum n) = Some (num_string n)"
| "to_string (JStr s) = Some s"
| "to_string (JArr _ xs) =
     map_option (join_with (js '',''))
       (collect_options
          (map (\<lambda>x. if x = JUndef \<or> x = JNull then Some [] else to_string x) xs))"
| "to_string (JObj _ fs) =
     (if js ''toString'' \<in> fst ` set fs then None else Some (js ''[object Object]''))"

lemma strict_eq_refl_nonnum [simp]: "\<not> is_number v \<Longrightarrow> strict_eq v v"
  by (cases v) auto

lemma strict_eq_sym: "strict_eq a b = strict_eq b a"
  by (cases a; cases b) (auto simp: num_strict_eq_sym)

lemma strict_eq_JStr_iff [simp]: "strict_eq v (JStr s) \<longleftrightarrow> v = JStr s"
  by (cases v) auto

lemma is_array_object_like: "is_array v \<Longrightarrow> is_object_like v"
  by (cases v) auto

section \<open>Thrown errors\<close>

text \<open>
  The error classes of \<open>errors.ts\<close> and the built-in ones the code throws. Where a message is
  only shown to a developer the model keeps the class alone.
\<close>

datatype error_class =
    TypeError
  | RangeError
  | FluxFastError
  | ProtocolError
  | VersionMismatchError
  | TransportError "nat option"
  | PageNotFoundError
  | ComponentResolutionError
  | ValidationError
  | MutationError
  | ResourceError
  | AbortError
  | OtherError

text \<open>\<open>error.name\<close>.\<close>

definition error_name :: "error_class \<Rightarrow> jstring" where
  "error_name e =
     (case e of
        TypeError \<Rightarrow> js ''TypeError''
      | RangeError \<Rightarrow> js ''RangeError''
      | FluxFastError \<Rightarrow> js ''FluxFastError''
      | ProtocolError \<Rightarrow> js ''ProtocolError''
      | VersionMismatchError \<Rightarrow> js ''VersionMismatchError''
      | TransportError _ \<Rightarrow> js ''TransportError''
      | PageNotFoundError \<Rightarrow> js ''PageNotFoundError''
      | ComponentResolutionError \<Rightarrow> js ''ComponentResolutionError''
      | ValidationError \<Rightarrow> js ''ValidationError''
      | MutationError \<Rightarrow> js ''MutationError''
      | ResourceError \<Rightarrow> js ''ResourceError''
      | AbortError \<Rightarrow> js ''AbortError''
      | OtherError \<Rightarrow> js ''Error'')"

text \<open>\<open>error instanceof ProtocolError\<close>: a version mismatch is a protocol error.\<close>

definition is_protocol_error :: "error_class \<Rightarrow> bool" where
  "is_protocol_error e \<longleftrightarrow> e = ProtocolError \<or> e = VersionMismatchError"

end
