(* ===== verification/Mutation.thy ===== *)
theory Mutation
  imports Js_Value
begin

text \<open>
  Mutation patches (\<open>packages/core/src/mutation.ts\<close>, with the patch type of
  \<open>packages/core/src/protocol.ts\<close>). The identity an allocation gets is an argument: \<open>ref\<close> is the
  reference of the array or object the patch creates, if it creates one.
\<close>

datatype patch_op = ReplaceResource | MergeObject | ReplaceItem | RemoveItem | AppendItem | UnknownOp

text \<open>An absent field of the patch object reads as \<open>undefined\<close>.\<close>

record patch =
  p_op :: patch_op
  p_id :: jsval
  p_match :: jsval
  p_value :: jsval

text \<open>The \<open>for\<close> loop over the entries of \<open>patch.match\<close>.\<close>

fun match_entries :: "jsval \<Rightarrow> jsval jobj \<Rightarrow> bool" where
  "match_entries item [] = True"
| "match_entries item ((k, v) # es) =
     (case read_prop item k of
        POwn w \<Rightarrow> if strict_eq w v then match_entries item es else False
      | PInherited \<Rightarrow> False
      | PMissing \<Rightarrow> if v = JUndef then match_entries item es else False)"

definition prop_value :: "jsval jprop \<Rightarrow> jsval" where
  "prop_value p = (case p of POwn v \<Rightarrow> v | _ \<Rightarrow> JUndef)"

text \<open>\<open>None\<close> is the \<open>TypeError\<close> that \<open>String(...)\<close> throws on a value that cannot be converted.\<close>

definition matchItem :: "jsval \<Rightarrow> patch \<Rightarrow> bool option" where
  "matchItem item p =
     (if \<not> is_object_like item then Some False
      else
        let ident = prop_value (read_prop item (js ''id''));
            byMatch = (if truthy (p_match p)
                       then match_entries item (object_entries (p_match p)) else False)
        in if p_id p \<noteq> JUndef then
             if strict_eq ident (p_id p) then Some True
             else
               (case (to_string ident, to_string (p_id p)) of
                  (Some a, Some b) \<Rightarrow> if a = b then Some True else Some byMatch
                | _ \<Rightarrow> None)
           else Some byMatch)"

fun map_items :: "patch \<Rightarrow> jsval list \<Rightarrow> jsval list option" where
  "map_items p [] = Some []"
| "map_items p (x # xs) =
     (case matchItem x p of
        None \<Rightarrow> None
      | Some b \<Rightarrow> map_option ((#) (if b then p_value p else x)) (map_items p xs))"

fun filter_items :: "patch \<Rightarrow> jsval list \<Rightarrow> jsval list option" where
  "filter_items p [] = Some []"
| "filter_items p (x # xs) =
     (case matchItem x p of
        None \<Rightarrow> None
      | Some b \<Rightarrow> map_option (\<lambda>ys. if b then ys else x # ys) (filter_items p xs))"

text \<open>The object spread \<open>{...a, ...b}\<close>: properties are defined one by one.\<close>

definition obj_define :: "jstring \<Rightarrow> jsval \<Rightarrow> jsval jobj \<Rightarrow> jsval jobj" where
  "obj_define k v ob = (if k \<in> fst ` set ob then jm_set k v ob else obj_insert k v ob)"

definition obj_spread :: "jsval jobj \<Rightarrow> jsval jobj \<Rightarrow> jsval jobj" where
  "obj_spread a b = fold (\<lambda>(k, v). obj_define k v) b a"

definition applyPatchToValue :: "nat \<Rightarrow> jsval \<Rightarrow> patch \<Rightarrow> jsval option" where
  "applyPatchToValue ref currentValue p =
     (case p_op p of
        ReplaceResource \<Rightarrow> Some (p_value p)
      | MergeObject \<Rightarrow>
          (case currentValue of
             JObj _ fs \<Rightarrow>
               Some (JObj ref
                 (obj_spread fs
                    (if is_object_like (p_value p) then object_entries (p_value p) else [])))
           | _ \<Rightarrow> Some (p_value p))
      | ReplaceItem \<Rightarrow>
          (case currentValue of
             JArr _ xs \<Rightarrow> map_option (JArr ref) (map_items p xs)
           | _ \<Rightarrow> Some currentValue)
      | RemoveItem \<Rightarrow>
          (case currentValue of
             JArr _ xs \<Rightarrow> map_option (JArr ref) (filter_items p xs)
           | _ \<Rightarrow> Some currentValue)
      | AppendItem \<Rightarrow>
          (case currentValue of
             JArr _ xs \<Rightarrow> Some (JArr ref (xs @ [p_value p]))
           | _ \<Rightarrow> Some (JArr ref [p_value p]))
      | UnknownOp \<Rightarrow> Some currentValue)"

text \<open>The patch loop of \<open>ResourceStore.patch\<close>; each patch allocates the next reference.\<close>

fun apply_patches :: "nat \<Rightarrow> jsval \<Rightarrow> patch list \<Rightarrow> jsval option" where
  "apply_patches ref v [] = Some v"
| "apply_patches ref v (p # ps) =
     (case applyPatchToValue ref v p of
        None \<Rightarrow> None
      | Some v' \<Rightarrow> apply_patches (Suc ref) v' ps)"

section \<open>Which items a patch selects\<close>

text \<open>The items that can be converted, i.e. on which \<open>matchItem\<close> does not throw.\<close>

definition selects :: "patch \<Rightarrow> jsval \<Rightarrow> bool" where
  "selects p x \<longleftrightarrow> matchItem x p = Some True"

lemma filter_items_Some:
  "filter_items p xs = Some ys \<Longrightarrow> ys = filter (\<lambda>x. \<not> selects p x) xs"
  by (induction xs arbitrary: ys) (auto simp: selects_def split: option.splits)

lemma map_items_Some:
  "map_items p xs = Some ys \<Longrightarrow> ys = map (\<lambda>x. if selects p x then p_value p else x) xs"
  by (induction xs arbitrary: ys) (auto simp: selects_def split: option.splits)

lemma filter_items_defined:
  "\<forall>x\<in>set xs. matchItem x p \<noteq> None \<Longrightarrow>
   filter_items p xs = Some (filter (\<lambda>x. \<not> selects p x) xs)"
  by (induction xs) (auto simp: selects_def)

lemma map_items_defined:
  "\<forall>x\<in>set xs. matchItem x p \<noteq> None \<Longrightarrow>
   map_items p xs = Some (map (\<lambda>x. if selects p x then p_value p else x) xs)"
  by (induction xs) (auto simp: selects_def)

lemma to_string_prim: "is_string v \<or> is_number v \<Longrightarrow> \<exists>s. to_string v = Some s"
  by (cases v) auto

text \<open>
  Mutation envelopes only carry string and number identities, and an item whose \<open>id\<close> is neither
  an array nor an object never makes the conversion throw.
\<close>

lemma matchItem_defined:
  assumes "is_string (p_id p) \<or> is_number (p_id p) \<or> p_id p = JUndef"
    and "\<not> is_object_like (prop_value (read_prop x (js ''id'')))"
  shows "matchItem x p \<noteq> None"
proof -
  have "\<exists>s. to_string (prop_value (read_prop x (js ''id''))) = Some s"
    using assms(2) by (cases "prop_value (read_prop x (js ''id''))") auto
  moreover have "p_id p \<noteq> JUndef \<Longrightarrow> \<exists>s. to_string (p_id p) = Some s"
    using assms(1) to_string_prim by blast
  ultimately have "matchItem x p = None \<Longrightarrow> False"
    by (auto simp: matchItem_def Let_def split: if_splits)
  then show ?thesis by blast
qed

lemma map_of_obj_define: "map_of (obj_define k v ob) k' = (if k' = k then Some v else map_of ob k')"
  by (simp add: obj_define_def map_of_obj_insert map_of_jm_set)

lemma map_of_obj_spread:
  "map_of (obj_spread a b) k = (case map_of (rev b) k of None \<Rightarrow> map_of a k | Some v \<Rightarrow> Some v)"
proof (induction b arbitrary: a)
  case (Cons e b)
  obtain k' v' where e: "e = (k', v')" by (cases e)
  have "obj_spread a (e # b) = obj_spread (obj_define k' v' a) b"
    by (simp add: obj_spread_def e)
  then show ?case
    by (simp add: Cons e map_of_obj_define map_add_def split: option.splits)
qed (simp add: obj_spread_def)

lemma map_of_rev_distinct: "distinct (map fst b) \<Longrightarrow> map_of (rev b) k = map_of b k"
  by (metis distinct_rev map_of_inject_set rev_map set_rev)

end
