(* ===== verification/Resource_Store.thy ===== *)
theory Resource_Store
  imports Mutation
begin

text \<open>
  The reactive resource store (\<open>packages/core/src/store.ts\<close>). One definition per method of
  \<open>ResourceStore\<close>; a method takes the store and returns it updated, after its result when it has
  one. \<open>Date.now()\<close> is the argument \<open>now\<close>, a callback is named by a number, and the invocations
  \<open>notify\<close> makes are recorded in order in \<open>calls\<close>. These are the operations as they run when no
  callback uses the store; \<open>Store_Reentry\<close> cuts them at every notification, so that callbacks run in
  between, and \<open>store_operations_exact\<close> shows that without such callbacks the two agree.
\<close>

type_synonym rkey = jstring
type_synonym callback = nat

section \<open>State\<close>

record resource_record =
  r_key :: rkey
  r_version :: jstring
  r_value :: jsval
  r_updatedAt :: nat

datatype resource_status = Missing | Pending | Loading | Ready | Error

record error_detail =
  e_type :: jstring
  e_message :: jstring
  e_details :: jsval

record state_snapshot =
  s_data :: jsval
  s_status :: resource_status
  s_error :: "error_detail option"
  s_stale :: bool

record metadata_snapshot =
  m_key :: rkey
  m_version :: "jstring option"
  m_updatedAt :: "nat option"
  m_status :: resource_status
  m_stale :: bool
  m_hasSubscribers :: bool

definition MISSING_RESOURCE_STATE :: state_snapshot where
  "MISSING_RESOURCE_STATE = \<lparr>s_data = JUndef, s_status = Missing, s_error = None, s_stale = False\<rparr>"

record store =
  records :: "(rkey, resource_record) jmap"
  subscribers :: "(rkey, callback list) jmap"
  globalSubscribers :: "callback list"
  lruOrder :: "rkey list"
  staleKeys :: "rkey list"
  stateSnapshots :: "(rkey, state_snapshot) jmap"
  maxResources :: nat
  calls :: "callback list"

text \<open>\<open>new ResourceStore(options)\<close>; a missing \<open>maxResources\<close> is \<open>None\<close>.\<close>

definition new_store :: "jnum option \<Rightarrow> (error_class, store) result" where
  "new_store maxOption =
     (let m = (case maxOption of None \<Rightarrow> num_of_int 128 | Some n \<Rightarrow> n)
      in if \<not> num_is_integer m \<or> num_val m \<le> 0 then Inl RangeError
         else Inr \<lparr>records = [], subscribers = [], globalSubscribers = [], lruOrder = [],
                   staleKeys = [], stateSnapshots = [], maxResources = nat \<lfloor>num_val m\<rfloor>,
                   calls = []\<rparr>)"

section \<open>Private helpers\<close>

definition notify :: "rkey \<Rightarrow> store \<Rightarrow> store" where
  "notify key s =
     s\<lparr>calls := calls s
        @ (case jm_get (subscribers s) key of None \<Rightarrow> [] | Some keySubs \<Rightarrow> keySubs)
        @ globalSubscribers s\<rparr>"

definition removeFromLru :: "rkey \<Rightarrow> store \<Rightarrow> store" where
  "removeFromLru key s = s\<lparr>lruOrder := remove1 key (lruOrder s)\<rparr>"

definition touchLru :: "rkey \<Rightarrow> store \<Rightarrow> store" where
  "touchLru key s = (let s1 = removeFromLru key s in s1\<lparr>lruOrder := lruOrder s1 @ [key]\<rparr>)"

definition invalidate :: "rkey \<Rightarrow> store \<Rightarrow> store" where
  "invalidate key s =
     (let hadState = jm_has (stateSnapshots s) key;
          hadRecord = jm_has (records s) key;
          s1 = s\<lparr>records := jm_delete key (records s)\<rparr>;
          wasStale = (key \<in> set (staleKeys s1));
          s2 = s1\<lparr>staleKeys := jset_delete key (staleKeys s1)\<rparr>
      in if \<not> hadState \<and> \<not> hadRecord \<and> \<not> wasStale then s2
         else
           let s3 = s2\<lparr>stateSnapshots := jm_delete key (stateSnapshots s2)\<rparr>;
               s4 = removeFromLru key s3
           in notify key s4)"

lemma lruOrder_invalidate_le: "length (lruOrder (invalidate key s)) \<le> length (lruOrder s)"
  by (simp add: invalidate_def Let_def notify_def removeFromLru_def length_remove1)

function evictIfNeeded :: "store \<Rightarrow> store" where
  "evictIfNeeded s =
     (if length (records s) > maxResources s \<or> length (stateSnapshots s) > maxResources s
      then
        (case lruOrder s of
           [] \<Rightarrow> s
         | oldestKey # rest \<Rightarrow> evictIfNeeded (invalidate oldestKey (s\<lparr>lruOrder := rest\<rparr>)))
      else s)"
  by pat_completeness auto
termination
proof (relation "measure (\<lambda>s. length (lruOrder s))", goal_cases)
  case (2 s oldest rest)
  then have "length (lruOrder (s\<lparr>lruOrder := rest\<rparr>)) < length (lruOrder s)" by simp
  then show ?case
    using lruOrder_invalidate_le [of oldest "s\<lparr>lruOrder := rest\<rparr>"] by (simp only: in_measure)
qed simp

declare evictIfNeeded.simps [simp del]

definition same_error :: "error_detail option \<Rightarrow> error_detail option \<Rightarrow> bool" where
  "same_error current err \<longleftrightarrow>
     current = err \<or>
     (case (current, err) of
        (Some a, Some b) \<Rightarrow>
          e_type a = e_type b \<and> e_message a = e_message b \<and> strict_eq (e_details a) (e_details b)
      | _ \<Rightarrow> False)"

definition snapshot_of :: "rkey \<Rightarrow> store \<Rightarrow> state_snapshot" where
  "snapshot_of key s =
     (case jm_get (stateSnapshots s) key of None \<Rightarrow> MISSING_RESOURCE_STATE | Some st \<Rightarrow> st)"

definition value_of :: "rkey \<Rightarrow> store \<Rightarrow> jsval" where
  "value_of key s = (case jm_get (records s) key of None \<Rightarrow> JUndef | Some r \<Rightarrow> r_value r)"

definition updateStateSnapshot ::
  "rkey \<Rightarrow> resource_status \<Rightarrow> error_detail option \<Rightarrow> bool \<Rightarrow> store \<Rightarrow> bool \<times> store" where
  "updateStateSnapshot key status err stale s =
     (let data = value_of key s;
          current = snapshot_of key s;
          sameError = same_error (s_error current) err
      in if strict_eq (s_data current) data \<and> s_status current = status \<and> sameError \<and>
            s_stale current = stale
         then (False, s)
         else if status = Missing \<and> data = JUndef \<and> err = None \<and> \<not> stale then
           let s1 = s\<lparr>stateSnapshots := jm_delete key (stateSnapshots s)\<rparr>
           in (True, if \<not> jm_has (records s1) key then removeFromLru key s1 else s1)
         else
           let frozenError =
                 (if err = None then None
                  else if sameError \<and> s_error current \<noteq> None then s_error current
                  else err);
               s1 = s\<lparr>stateSnapshots := jm_set key
                        \<lparr>s_data = data, s_status = status, s_error = frozenError, s_stale = stale\<rparr>
                        (stateSnapshots s)\<rparr>
           in (True, evictIfNeeded (touchLru key s1)))"

section \<open>Subscriptions\<close>

definition store_subscribe :: "rkey \<Rightarrow> callback \<Rightarrow> store \<Rightarrow> store" where
  "store_subscribe key cb s =
     (let s1 = (if jm_has (subscribers s) key then s
                else s\<lparr>subscribers := jm_set key [] (subscribers s)\<rparr>)
      in s1\<lparr>subscribers :=
            jm_set key
              (jset_add cb (case jm_get (subscribers s1) key of None \<Rightarrow> [] | Some cbs \<Rightarrow> cbs))
              (subscribers s1)\<rparr>)"

text \<open>The function \<open>subscribe\<close> returns.\<close>

definition store_unsubscribe :: "rkey \<Rightarrow> callback \<Rightarrow> store \<Rightarrow> store" where
  "store_unsubscribe key cb s =
     (case jm_get (subscribers s) key of
        None \<Rightarrow> s
      | Some cbs \<Rightarrow>
          let cbs' = jset_delete cb cbs
          in if cbs' = [] then s\<lparr>subscribers := jm_delete key (subscribers s)\<rparr>
             else s\<lparr>subscribers := jm_set key cbs' (subscribers s)\<rparr>)"

definition store_subscribeAll :: "callback \<Rightarrow> store \<Rightarrow> store" where
  "store_subscribeAll cb s = s\<lparr>globalSubscribers := jset_add cb (globalSubscribers s)\<rparr>"

definition store_unsubscribeAll :: "callback \<Rightarrow> store \<Rightarrow> store" where
  "store_unsubscribeAll cb s = s\<lparr>globalSubscribers := jset_delete cb (globalSubscribers s)\<rparr>"

definition hasSubscribers :: "rkey \<Rightarrow> store \<Rightarrow> bool" where
  "hasSubscribers key s =
     ((case jm_get (subscribers s) key of None \<Rightarrow> 0 | Some cbs \<Rightarrow> length cbs) > 0)"

section \<open>Reads\<close>

text \<open>A read marks the key as recently used, so it returns the store too.\<close>

definition getSnapshot :: "rkey \<Rightarrow> store \<Rightarrow> jsval \<times> store" where
  "getSnapshot key s =
     (case jm_get (records s) key of
        None \<Rightarrow> (JUndef, s)
      | Some r \<Rightarrow> (r_value r, touchLru key s))"

definition getServerSnapshot :: "rkey \<Rightarrow> store \<Rightarrow> jsval" where
  "getServerSnapshot key s = value_of key s"

definition getStateSnapshot :: "rkey \<Rightarrow> store \<Rightarrow> state_snapshot \<times> store" where
  "getStateSnapshot key s =
     (let s1 = (if jm_has (records s) key \<or> jm_has (stateSnapshots s) key
                then touchLru key s else s)
      in (snapshot_of key s1, s1))"

definition getRecord :: "rkey \<Rightarrow> store \<Rightarrow> resource_record option \<times> store" where
  "getRecord key s =
     (case jm_get (records s) key of
        None \<Rightarrow> (None, s)
      | Some r \<Rightarrow> (Some r, touchLru key s))"

definition isStale :: "rkey \<Rightarrow> store \<Rightarrow> bool" where
  "isStale key s \<longleftrightarrow> key \<in> set (staleKeys s)"

definition getRecordsSnapshot :: "store \<Rightarrow> metadata_snapshot list" where
  "getRecordsSnapshot s =
     map (\<lambda>key.
        let rec = jm_get (records s) key; st = snapshot_of key s
        in \<lparr>m_key = key,
            m_version = map_option r_version rec,
            m_updatedAt = map_option r_updatedAt rec,
            m_status = s_status st,
            m_stale = s_stale st,
            m_hasSubscribers = hasSubscribers key s\<rparr>)
       (sort (jset_of (jm_keys (records s) @ jm_keys (stateSnapshots s) @ staleKeys s
                       @ jm_keys (subscribers s))))"

definition export_limit :: "jnum \<Rightarrow> nat" where
  "export_limit limit =
     (if num_finite limit then nat (max 0 (min 100 \<lfloor>num_val limit\<rfloor>)) else 100)"

text \<open>The loop over the most recently used keys, newest first.\<close>

fun export_known :: "store \<Rightarrow> rkey list \<Rightarrow> jstring jobj \<Rightarrow> jstring jobj" where
  "export_known s [] result = result"
| "export_known s (key # keys) result =
     export_known s keys
       (case jm_get (records s) key of
          None \<Rightarrow> result
        | Some rec \<Rightarrow>
            if r_version rec \<noteq> [] \<and> key \<notin> set (staleKeys s)
            then obj_assign key (r_version rec) result else result)"

definition exportKnownVersions :: "jnum \<Rightarrow> store \<Rightarrow> jstring jobj" where
  "exportKnownVersions limit s =
     (let safeLimit = export_limit limit
      in if safeLimit = 0 then []
         else export_known s
                (rev (drop (length (lruOrder s) - safeLimit) (lruOrder s))) [])"

abbreviation exportKnown :: "store \<Rightarrow> jstring jobj" where
  "exportKnown s \<equiv> exportKnownVersions (num_of_int 100) s"

section \<open>Writes\<close>

definition store_set :: "nat \<Rightarrow> rkey \<Rightarrow> jstring \<Rightarrow> jsval \<Rightarrow> store \<Rightarrow> bool \<times> store" where
  "store_set now key version val s =
     (let existing = jm_get (records s) key;
          (currentState, s1) = getStateSnapshot key s
      in if (case existing of None \<Rightarrow> False | Some r \<Rightarrow> r_version r = version) \<and>
            key \<notin> set (staleKeys s1) \<and>
            s_status currentState = Ready \<and> s_error currentState = None
         then (False, touchLru key s1)
         else
           let s2 = s1\<lparr>records := jm_set key
                         \<lparr>r_key = key, r_version = version, r_value = val, r_updatedAt = now\<rparr>
                         (records s1)\<rparr>;
               s3 = s2\<lparr>staleKeys := jset_delete key (staleKeys s2)\<rparr>;
               s4 = snd (updateStateSnapshot key Ready None False s3);
               s5 = touchLru key s4;
               s6 = evictIfNeeded s5
           in (True, notify key s6))"

text \<open>\<open>setMany\<close> returns the keys it updated.\<close>

fun setMany :: "nat \<Rightarrow> (rkey \<times> jstring \<times> jsval) list \<Rightarrow> store \<Rightarrow> rkey list \<times> store" where
  "setMany now [] s = ([], s)"
| "setMany now ((key, version, val) # es) s =
     (let (updated, s1) = store_set now key version val s;
          (keys, s2) = setMany now es s1
      in (if updated then key # keys else keys, s2))"

definition mark_status :: "resource_status \<Rightarrow> error_detail option \<Rightarrow> rkey \<Rightarrow> store \<Rightarrow> store" where
  "mark_status status err key s =
     (let hasData = jm_has (records s) key;
          s1 = (if hasData then s\<lparr>staleKeys := jset_add key (staleKeys s)\<rparr> else s);
          (changed, s2) = updateStateSnapshot key status err hasData s1
      in if changed then notify key s2 else s2)"

definition markPending :: "rkey list \<Rightarrow> store \<Rightarrow> store" where
  "markPending keys s = fold (mark_status Pending None) keys s"

definition markLoading :: "rkey list \<Rightarrow> store \<Rightarrow> store" where
  "markLoading keys s = fold (mark_status Loading None) keys s"

definition setResourceError :: "rkey \<Rightarrow> error_detail \<Rightarrow> store \<Rightarrow> store" where
  "setResourceError key err s = mark_status Error (Some err) key s"

definition clearResourceError :: "rkey \<Rightarrow> store \<Rightarrow> store" where
  "clearResourceError key s =
     (let (current, s1) = getStateSnapshot key s
      in if s_error current = None then s1
         else
           let hasData = jm_has (records s1) key;
               status = (if hasData then Ready else Missing);
               (changed, s2) =
                 updateStateSnapshot key status None (hasData \<and> key \<in> set (staleKeys s1)) s1
           in if changed then notify key s2 else s2)"

text \<open>
  \<open>stamp\<close> is \<open>Date.now().toString(36)\<close>. \<open>None\<close> is an exception of the patch loop, which runs
  before the store is written.
\<close>

definition store_patch ::
  "nat \<Rightarrow> jstring \<Rightarrow> nat \<Rightarrow> rkey \<Rightarrow> patch list \<Rightarrow> store \<Rightarrow> (bool \<times> store) option" where
  "store_patch now stamp ref key patches s =
     (case jm_get (records s) key of
        None \<Rightarrow> Some (False, s)
      | Some existing \<Rightarrow>
          (case apply_patches ref (r_value existing) patches of
             None \<Rightarrow> None
           | Some val \<Rightarrow>
               let s1 = s\<lparr>records := jm_set key
                          \<lparr>r_key = key, r_version = r_version existing @ js ''_p'' @ stamp,
                           r_value = val, r_updatedAt = now\<rparr> (records s)\<rparr>;
                   s2 = s1\<lparr>staleKeys := jset_add key (staleKeys s1)\<rparr>;
                   s3 = snd (updateStateSnapshot key Ready None True s2);
                   s4 = touchLru key s3
               in Some (True, notify key s4)))"

definition markStale :: "rkey \<Rightarrow> store \<Rightarrow> store" where
  "markStale key s =
     (if \<not> jm_has (records s) key \<or> key \<in> set (staleKeys s) then s
      else
        let s1 = s\<lparr>staleKeys := jset_add key (staleKeys s)\<rparr>;
            (current, s2) = getStateSnapshot key s1;
            s3 = snd (updateStateSnapshot key (s_status current) (s_error current) True s2)
        in notify key s3)"

definition store_clear :: "store \<Rightarrow> store" where
  "store_clear s =
     (let allKeys = jset_of (jm_keys (records s) @ jm_keys (stateSnapshots s) @ staleKeys s);
          s1 = s\<lparr>records := [], staleKeys := [], stateSnapshots := [], lruOrder := []\<rparr>
      in fold notify allKeys s1)"

section \<open>The page store\<close>

text \<open>
  \<open>PageStore\<close>: the page shown, and its subscribers. A descriptor without metadata (\<open>undefined\<close>)
  gives a page whose metadata is the empty object.
\<close>

record page_descriptor =
  pd_component :: jstring
  pd_url :: jstring
  pd_meta :: "jsval jobj option"

record page_state =
  pg_component :: jstring
  pg_url :: jstring
  pg_meta :: "jsval jobj"

record page_store =
  ps_state :: page_state
  ps_subscribers :: "callback list"
  ps_calls :: "callback list"

definition page_state_of :: "page_descriptor \<Rightarrow> page_state" where
  "page_state_of page =
     \<lparr>pg_component = pd_component page, pg_url = pd_url page,
      pg_meta = (case pd_meta page of None \<Rightarrow> [] | Some m \<Rightarrow> m)\<rparr>"

definition new_page_store :: "page_descriptor option \<Rightarrow> page_store" where
  "new_page_store initialPage =
     \<lparr>ps_state =
        (case initialPage of
           Some p \<Rightarrow> page_state_of p
         | None \<Rightarrow> \<lparr>pg_component = [], pg_url = [], pg_meta = []\<rparr>),
      ps_subscribers = [], ps_calls = []\<rparr>"

definition page_subscribe :: "callback \<Rightarrow> page_store \<Rightarrow> page_store" where
  "page_subscribe cb p = p\<lparr>ps_subscribers := jset_add cb (ps_subscribers p)\<rparr>"

definition page_unsubscribe :: "callback \<Rightarrow> page_store \<Rightarrow> page_store" where
  "page_unsubscribe cb p = p\<lparr>ps_subscribers := jset_delete cb (ps_subscribers p)\<rparr>"

definition page_getSnapshot :: "page_store \<Rightarrow> page_state" where
  "page_getSnapshot p = ps_state p"

definition setPage :: "page_descriptor \<Rightarrow> page_store \<Rightarrow> page_store" where
  "setPage page p =
     p\<lparr>ps_state := page_state_of page, ps_calls := ps_calls p @ ps_subscribers p\<rparr>"

definition page_clear :: "page_store \<Rightarrow> page_store" where
  "page_clear p = setPage \<lparr>pd_component = [], pd_url = [], pd_meta = Some []\<rparr> p"

end
