(* ===== verification/Store_Invariant.thy ===== *)
theory Store_Invariant
  imports Resource_Store
begin

text \<open>
  The well-formedness of the resource store and its preservation by every operation: records,
  loading states, stale marks and the recency list stay in step, and the capacity is never
  exceeded between two operations.
\<close>

named_theorems store_fields \<open>what the operations do to the fields of the store\<close>

section \<open>The invariant\<close>

text \<open>The same value, or the same reference.\<close>

definition same_value :: "jsval \<Rightarrow> jsval \<Rightarrow> bool" where
  "same_value a b \<longleftrightarrow> a = b \<or> strict_eq a b"

definition snapshot_ok :: "store \<Rightarrow> rkey \<Rightarrow> state_snapshot \<Rightarrow> bool" where
  "snapshot_ok s k st \<longleftrightarrow>
     same_value (s_data st) (value_of k s) \<and>
     (s_stale st \<longleftrightarrow> k \<in> set (staleKeys s)) \<and>
     s_status st \<noteq> Missing \<and>
     (s_status st = Ready \<longrightarrow> jm_has (records s) k) \<and>
     (s_status st = Error \<longleftrightarrow> s_error st \<noteq> None)"

definition key_ok :: "store \<Rightarrow> rkey \<Rightarrow> bool" where
  "key_ok s k \<longleftrightarrow>
     (k \<in> set (lruOrder s) \<longleftrightarrow> jm_has (records s) k \<or> jm_has (stateSnapshots s) k) \<and>
     (k \<in> set (staleKeys s) \<longrightarrow> jm_has (records s) k) \<and>
     (\<forall>r. jm_get (records s) k = Some r \<longrightarrow> r_key r = k \<and> jm_has (stateSnapshots s) k) \<and>
     (\<forall>st. jm_get (stateSnapshots s) k = Some st \<longrightarrow> snapshot_ok s k st)"

definition store_struct :: "store \<Rightarrow> bool" where
  "store_struct s \<longleftrightarrow>
     jm_wf (records s) \<and> jm_wf (stateSnapshots s) \<and> jm_wf (subscribers s) \<and>
     distinct (lruOrder s) \<and> distinct (staleKeys s) \<and> distinct (globalSubscribers s) \<and>
     (\<forall>k cbs. jm_get (subscribers s) k = Some cbs \<longrightarrow> cbs \<noteq> [] \<and> distinct cbs) \<and>
     0 < maxResources s"

definition store_ok :: "store \<Rightarrow> bool" where
  "store_ok s \<longleftrightarrow> store_struct s \<and> (\<forall>k. key_ok s k)"

definition within_capacity :: "store \<Rightarrow> bool" where
  "within_capacity s \<longleftrightarrow>
     length (records s) \<le> maxResources s \<and> length (stateSnapshots s) \<le> maxResources s"

definition store_inv :: "store \<Rightarrow> bool" where
  "store_inv s \<longleftrightarrow> store_ok s \<and> within_capacity s"

lemma same_value_refl [simp]: "same_value a a"
  by (simp add: same_value_def)

section \<open>Field equations\<close>

lemma notify_fields [simp]:
  "records (notify k s) = records s"
  "subscribers (notify k s) = subscribers s"
  "globalSubscribers (notify k s) = globalSubscribers s"
  "lruOrder (notify k s) = lruOrder s"
  "staleKeys (notify k s) = staleKeys s"
  "stateSnapshots (notify k s) = stateSnapshots s"
  "maxResources (notify k s) = maxResources s"
  by (simp_all add: notify_def)

lemma touchLru_fields [simp]:
  "records (touchLru k s) = records s"
  "subscribers (touchLru k s) = subscribers s"
  "globalSubscribers (touchLru k s) = globalSubscribers s"
  "lruOrder (touchLru k s) = remove1 k (lruOrder s) @ [k]"
  "staleKeys (touchLru k s) = staleKeys s"
  "stateSnapshots (touchLru k s) = stateSnapshots s"
  "maxResources (touchLru k s) = maxResources s"
  "calls (touchLru k s) = calls s"
  by (simp_all add: touchLru_def removeFromLru_def Let_def)

lemma removeFromLru_fields [simp]:
  "records (removeFromLru k s) = records s"
  "subscribers (removeFromLru k s) = subscribers s"
  "globalSubscribers (removeFromLru k s) = globalSubscribers s"
  "lruOrder (removeFromLru k s) = remove1 k (lruOrder s)"
  "staleKeys (removeFromLru k s) = staleKeys s"
  "stateSnapshots (removeFromLru k s) = stateSnapshots s"
  "maxResources (removeFromLru k s) = maxResources s"
  "calls (removeFromLru k s) = calls s"
  by (simp_all add: removeFromLru_def)

lemma jset_delete_idle: "x \<notin> set xs \<Longrightarrow> jset_delete x xs = xs"
  by (auto simp: jset_delete_def filter_id_conv)

lemma invalidate_fields [simp]:
  "records (invalidate k s) = jm_delete k (records s)"
  "subscribers (invalidate k s) = subscribers s"
  "globalSubscribers (invalidate k s) = globalSubscribers s"
  "staleKeys (invalidate k s) = jset_delete k (staleKeys s)"
  "stateSnapshots (invalidate k s) = jm_delete k (stateSnapshots s)"
  "maxResources (invalidate k s) = maxResources s"
  by (simp_all add: invalidate_def Let_def jm_delete_idle)

lemma lruOrder_invalidate:
  "lruOrder (invalidate k s) =
     (if jm_has (stateSnapshots s) k \<or> jm_has (records s) k \<or> k \<in> set (staleKeys s)
      then remove1 k (lruOrder s) else lruOrder s)"
  by (simp add: invalidate_def Let_def)

lemma value_of_cong: "jm_get (records s) k = jm_get (records t) k \<Longrightarrow> value_of k s = value_of k t"
  by (simp add: value_of_def)

lemma snapshot_ok_cong:
  assumes "jm_get (records s) k = jm_get (records t) k"
    and "k \<in> set (staleKeys s) \<longleftrightarrow> k \<in> set (staleKeys t)"
  shows "snapshot_ok s k st = snapshot_ok t k st"
  using assms by (simp add: snapshot_ok_def value_of_cong [OF assms(1)] jm_has_iff)

text \<open>Two stores that agree on a key agree on its well-formedness.\<close>

lemma key_ok_cong:
  assumes "jm_get (records s) k = jm_get (records t) k"
    and "jm_get (stateSnapshots s) k = jm_get (stateSnapshots t) k"
    and "k \<in> set (staleKeys s) \<longleftrightarrow> k \<in> set (staleKeys t)"
    and "k \<in> set (lruOrder s) \<longleftrightarrow> k \<in> set (lruOrder t)"
  shows "key_ok s k = key_ok t k"
  using assms snapshot_ok_cong [OF assms(1) assms(3)] by (simp add: key_ok_def jm_has_iff)

lemma snapshot_ok_simps [simp]:
  "snapshot_ok (notify k' s) k st = snapshot_ok s k st"
  "snapshot_ok (touchLru k' s) k st = snapshot_ok s k st"
  by (rule snapshot_ok_cong; simp)+

lemma key_ok_notify [simp]: "key_ok (notify k' s) k = key_ok s k"
  by (rule key_ok_cong) simp_all

lemma store_struct_notify [simp]: "store_struct (notify k s) = store_struct s"
  by (simp add: store_struct_def)

lemma store_ok_notify [simp]: "store_ok (notify k s) = store_ok s"
  by (simp add: store_ok_def)

lemma store_inv_notify [simp]: "store_inv (notify k s) = store_inv s"
  by (simp add: store_inv_def within_capacity_def)

section \<open>Touching and invalidating\<close>

lemma store_struct_touchLru: "store_struct s \<Longrightarrow> store_struct (touchLru k s)"
  by (auto simp: store_struct_def)

lemma key_ok_touchLru:
  assumes "key_ok s k'" and "distinct (lruOrder s)"
    and "k' = k \<Longrightarrow> jm_has (records s) k \<or> jm_has (stateSnapshots s) k"
  shows "key_ok (touchLru k s) k'"
  using assms by (auto simp: key_ok_def)

lemma store_ok_touchLru:
  "store_ok s \<Longrightarrow> jm_has (records s) k \<or> jm_has (stateSnapshots s) k \<Longrightarrow> store_ok (touchLru k s)"
  by (simp add: store_ok_def store_struct_touchLru key_ok_touchLru store_struct_def)

lemma store_struct_invalidate: "store_struct s \<Longrightarrow> store_struct (invalidate k s)"
  by (auto simp: store_struct_def lruOrder_invalidate)

lemma key_ok_invalidate_self:
  assumes "store_struct s" and "key_ok s k"
  shows "key_ok (invalidate k s) k"
  using assms by (auto simp: key_ok_def store_struct_def lruOrder_invalidate jmap_simps)

lemma key_ok_invalidate_other:
  assumes "k' \<noteq> k"
  shows "key_ok (invalidate k s) k' = key_ok s k'"
  using assms by (intro key_ok_cong) (auto simp: jmap_simps lruOrder_invalidate)

lemma store_ok_invalidate: "store_ok s \<Longrightarrow> store_ok (invalidate k s)"
  unfolding store_ok_def
  by (metis key_ok_invalidate_other key_ok_invalidate_self store_struct_invalidate)

lemma within_capacity_invalidate: "within_capacity s \<Longrightarrow> within_capacity (invalidate k s)"
  unfolding within_capacity_def
  by (auto intro: order_trans [OF length_jm_delete_le])

lemma store_inv_invalidate: "store_inv s \<Longrightarrow> store_inv (invalidate k s)"
  by (simp add: store_inv_def store_ok_invalidate within_capacity_invalidate)

section \<open>Eviction\<close>

lemma evict_step_fields:
  assumes "store_ok s" and "lruOrder s = oldest # rest"
  shows "lruOrder (invalidate oldest (s\<lparr>lruOrder := rest\<rparr>)) = rest"
  using assms by (auto simp: lruOrder_invalidate store_ok_def store_struct_def remove1_idem)

text \<open>One round of the eviction loop is the invalidation of the oldest key.\<close>

lemma store_ok_evict_step:
  assumes ok: "store_ok s" and lru: "lruOrder s = oldest # rest"
  shows "store_ok (invalidate oldest (s\<lparr>lruOrder := rest\<rparr>))" (is "store_ok ?t")
proof -
  have l: "lruOrder ?t = rest" by (rule evict_step_fields [OF ok lru])
  have inv: "lruOrder (invalidate oldest s) = rest"
    using ok lru by (auto simp: lruOrder_invalidate store_ok_def key_ok_def)
  have "key_ok ?t k = key_ok (invalidate oldest s) k" for k
    by (rule key_ok_cong) (simp_all add: l inv)
  moreover have "store_struct ?t = store_struct (invalidate oldest s)"
    by (simp add: store_struct_def l inv)
  ultimately show ?thesis
    using store_ok_invalidate [OF ok, of oldest] by (simp add: store_ok_def)
qed

lemma store_ok_no_lru:
  assumes "store_ok s" and "lruOrder s = []"
  shows "records s = []" and "stateSnapshots s = []"
proof -
  have none: "\<not> jm_has (records s) k \<and> \<not> jm_has (stateSnapshots s) k" for k
    using assms by (auto simp: store_ok_def key_ok_def)
  show "records s = []" and "stateSnapshots s = []"
    using none by (auto intro: jm_no_keys)
qed

lemma evictIfNeeded_inv: "store_ok s \<Longrightarrow> store_inv (evictIfNeeded s)"
proof (induction s rule: evictIfNeeded.induct)
  case (1 s)
  show ?case
  proof (cases "length (records s) > maxResources s \<or> length (stateSnapshots s) > maxResources s")
    case True
    show ?thesis
    proof (cases "lruOrder s")
      case Nil
      with "1.prems" True show ?thesis
        using store_ok_no_lru [OF "1.prems" Nil] by simp
    next
      case (Cons oldest rest)
      have "store_inv (evictIfNeeded (invalidate oldest (s\<lparr>lruOrder := rest\<rparr>)))"
        by (rule "1.IH" [OF True Cons]) (rule store_ok_evict_step [OF "1.prems" Cons])
      with True Cons show ?thesis by (simp add: evictIfNeeded.simps [of s])
    qed
  next
    case False
    with "1.prems" show ?thesis
      by (simp add: evictIfNeeded.simps [of s] store_inv_def within_capacity_def)
  qed
qed

lemma evictIfNeeded_frame [simp]:
  "subscribers (evictIfNeeded s) = subscribers s"
  "globalSubscribers (evictIfNeeded s) = globalSubscribers s"
  "maxResources (evictIfNeeded s) = maxResources s"
  by (induction s rule: evictIfNeeded.induct)
    (simp_all add: evictIfNeeded.simps split: list.split)

lemma evictIfNeeded_idle: "within_capacity s \<Longrightarrow> evictIfNeeded s = s"
  by (simp add: evictIfNeeded.simps [of s] within_capacity_def)

text \<open>
  What the eviction does: it drops a prefix of the recency list, those keys disappear from the
  records and the loading states, and every other key keeps its entries.
\<close>

definition evicts :: "rkey list \<Rightarrow> store \<Rightarrow> store \<Rightarrow> bool" where
  "evicts ks s t \<longleftrightarrow>
     lruOrder s = ks @ lruOrder t \<and>
     (\<forall>k. jm_get (records t) k = (if k \<in> set ks then None else jm_get (records s) k)) \<and>
     (\<forall>k. jm_get (stateSnapshots t) k = (if k \<in> set ks then None else jm_get (stateSnapshots s) k)) \<and>
     (\<forall>k. k \<in> set (staleKeys t) \<longleftrightarrow> k \<in> set (staleKeys s) \<and> k \<notin> set ks)"

lemma evicts_Nil [simp]: "evicts [] s s"
  by (simp add: evicts_def)

lemma evictIfNeeded_evicts: "store_ok s \<Longrightarrow> \<exists>ks. evicts ks s (evictIfNeeded s)"
proof (induction s rule: evictIfNeeded.induct)
  case (1 s)
  show ?case
  proof (cases "length (records s) > maxResources s \<or> length (stateSnapshots s) > maxResources s")
    case True
    show ?thesis
    proof (cases "lruOrder s")
      case Nil
      then have "evictIfNeeded s = s" using True by (simp add: evictIfNeeded.simps [of s])
      then show ?thesis using evicts_Nil by metis
    next
      case (Cons oldest rest)
      let ?t = "invalidate oldest (s\<lparr>lruOrder := rest\<rparr>)"
      obtain ks where ks: "evicts ks ?t (evictIfNeeded ?t)"
        using "1.IH" [OF True Cons store_ok_evict_step [OF "1.prems" Cons]] by blast
      have "evictIfNeeded s = evictIfNeeded ?t"
        using True Cons by (simp add: evictIfNeeded.simps [of s])
      moreover have "evicts (oldest # ks) s (evictIfNeeded ?t)"
        using ks evict_step_fields [OF "1.prems" Cons] Cons
        by (auto simp: evicts_def jmap_simps)
      ultimately show ?thesis by metis
    qed
  next
    case False
    then have "evictIfNeeded s = s" by (simp add: evictIfNeeded.simps [of s])
    then show ?thesis using evicts_Nil by metis
  qed
qed

text \<open>At most one key is left when the last key of the list is the oldest one.\<close>

lemma store_ok_single:
  assumes "store_ok s" and "lruOrder s = [k]"
  shows "within_capacity s"
proof -
  have h: "k' = k" if "jm_has (records s) k' \<or> jm_has (stateSnapshots s) k'" for k'
    using assms that by (auto simp: store_ok_def key_ok_def)
  have one: "length m \<le> 1" if "jm_wf m" and "\<And>k'. jm_has m k' \<Longrightarrow> k' = k"
    for m :: "(rkey, 'b) jmap"
  proof -
    have "set (map fst m) \<subseteq> {k}" using that(2) by (auto simp: jm_has_def)
    then have "card (set (map fst m)) \<le> 1"
      by (metis card.empty card_insert_disjoint card_mono empty_iff finite.emptyI finite_insert One_nat_def)
    then show ?thesis
      using that(1) by (metis distinct_card jm_wf_def length_map)
  qed
  have "1 \<le> maxResources s" and "jm_wf (records s)" and "jm_wf (stateSnapshots s)"
    using assms(1) by (auto simp: store_ok_def store_struct_def)
  then show ?thesis
    unfolding within_capacity_def using one h by (meson order_trans)
qed

text \<open>The eviction never reaches the key that was used last.\<close>

lemma evicts_spares_newest:
  "store_ok s \<Longrightarrow> lruOrder s = xs @ [k] \<Longrightarrow> \<exists>ys. lruOrder (evictIfNeeded s) = ys @ [k]"
proof (induction s arbitrary: xs rule: evictIfNeeded.induct)
  case (1 s)
  show ?case
  proof (cases "length (records s) > maxResources s \<or> length (stateSnapshots s) > maxResources s")
    case True
    then obtain oldest rest where c: "lruOrder s = oldest # rest"
      using "1.prems"(2) by (cases xs) auto
    have "rest \<noteq> []"
    proof
      assume "rest = []"
      then have "within_capacity s" using store_ok_single [OF "1.prems"(1)] c by simp
      with True show False by (simp add: within_capacity_def)
    qed
    then obtain ys where "rest = ys @ [k]"
      using c "1.prems"(2) by (cases xs) auto
    then have "\<exists>ys. lruOrder (evictIfNeeded (invalidate oldest (s\<lparr>lruOrder := rest\<rparr>))) = ys @ [k]"
      using "1.IH" [OF True c store_ok_evict_step [OF "1.prems"(1) c]]
        evict_step_fields [OF "1.prems"(1) c] by simp
    then show ?thesis using True c by (simp add: evictIfNeeded.simps [of s])
  next
    case False
    with "1.prems" show ?thesis by (simp add: evictIfNeeded.simps [of s])
  qed
qed

lemma evict_keeps_newest:
  assumes "store_ok s" and "lruOrder s = xs @ [k]"
  shows "jm_get (records (evictIfNeeded s)) k = jm_get (records s) k"
    and "jm_get (stateSnapshots (evictIfNeeded s)) k = jm_get (stateSnapshots s) k"
    and "k \<in> set (staleKeys (evictIfNeeded s)) \<longleftrightarrow> k \<in> set (staleKeys s)"
proof -
  obtain ks where ks: "evicts ks s (evictIfNeeded s)"
    using evictIfNeeded_evicts [OF assms(1)] by blast
  obtain ys where ys: "lruOrder (evictIfNeeded s) = ys @ [k]"
    using evicts_spares_newest [OF assms] by blast
  have "distinct (ks @ ys @ [k])"
    using assms(1) ks ys by (metis evicts_def store_ok_def store_struct_def)
  then have "k \<notin> set ks" by simp
  with ks show "jm_get (records (evictIfNeeded s)) k = jm_get (records s) k"
    and "jm_get (stateSnapshots (evictIfNeeded s)) k = jm_get (stateSnapshots s) k"
    and "k \<in> set (staleKeys (evictIfNeeded s)) \<longleftrightarrow> k \<in> set (staleKeys s)"
    by (simp_all add: evicts_def)
qed

end
