(* ===== verification/Store_Operations.thy ===== *)
theory Store_Operations
  imports Store_Invariant
begin

text \<open>
  Every operation of the resource store keeps its invariant, and what each operation does to the
  key it is applied to.
\<close>

section \<open>Updating the loading state of a key\<close>

text \<open>
  The situation in which \<open>updateStateSnapshot\<close> is called: all other keys are well-formed, and the
  new state fits the record and the stale mark of the key.
\<close>

definition upd_pre ::
  "rkey \<Rightarrow> resource_status \<Rightarrow> error_detail option \<Rightarrow> bool \<Rightarrow> store \<Rightarrow> bool" where
  "upd_pre k status err stale s \<longleftrightarrow>
     store_struct s \<and> (\<forall>k'. k' \<noteq> k \<longrightarrow> key_ok s k') \<and>
     (k \<in> set (staleKeys s) \<longrightarrow> jm_has (records s) k) \<and>
     (\<forall>r. jm_get (records s) k = Some r \<longrightarrow> r_key r = k) \<and>
     (stale \<longleftrightarrow> k \<in> set (staleKeys s)) \<and>
     (status = Ready \<longrightarrow> jm_has (records s) k) \<and>
     (status = Error \<longleftrightarrow> err \<noteq> None) \<and>
     (status = Missing \<longrightarrow>
        \<not> jm_has (records s) k \<and> s_error (snapshot_of k s) \<noteq> None) \<and>
     (jm_has (stateSnapshots s) k \<longrightarrow> k \<in> set (lruOrder s)) \<and>
     (k \<in> set (lruOrder s) \<longrightarrow> jm_has (records s) k \<or> jm_has (stateSnapshots s) k)"

definition new_snapshot ::
  "rkey \<Rightarrow> resource_status \<Rightarrow> error_detail option \<Rightarrow> bool \<Rightarrow> store \<Rightarrow> state_snapshot" where
  "new_snapshot k status err stale s =
     \<lparr>s_data = value_of k s, s_status = status,
      s_error =
        (if err = None then None
         else if same_error (s_error (snapshot_of k s)) err \<and> s_error (snapshot_of k s) \<noteq> None
         then s_error (snapshot_of k s) else err),
      s_stale = stale\<rparr>"

text \<open>The three branches of the method.\<close>

definition upd_unchanged ::
  "rkey \<Rightarrow> resource_status \<Rightarrow> error_detail option \<Rightarrow> bool \<Rightarrow> store \<Rightarrow> bool" where
  "upd_unchanged k status err stale s \<longleftrightarrow>
     (let current = snapshot_of k s
      in strict_eq (s_data current) (value_of k s) \<and> s_status current = status \<and>
         same_error (s_error current) err \<and> s_stale current = stale)"

definition upd_written ::
  "rkey \<Rightarrow> resource_status \<Rightarrow> error_detail option \<Rightarrow> bool \<Rightarrow> store \<Rightarrow> store" where
  "upd_written k status err stale s =
     touchLru k (s\<lparr>stateSnapshots := jm_set k (new_snapshot k status err stale s)
                                      (stateSnapshots s)\<rparr>)"

lemma same_error_None: "same_error a b \<Longrightarrow> a = None \<longleftrightarrow> b = None"
  by (auto simp: same_error_def split: option.splits)

lemma updateStateSnapshot_cases:
  assumes "upd_pre k status err stale s"
  obtains
    (unchanged) "upd_unchanged k status err stale s"
      "updateStateSnapshot k status err stale s = (False, s)"
  | (removed) "\<not> upd_unchanged k status err stale s" "status = Missing"
      "updateStateSnapshot k status err stale s =
        (True, removeFromLru k (s\<lparr>stateSnapshots := jm_delete k (stateSnapshots s)\<rparr>))"
  | (written) "\<not> upd_unchanged k status err stale s" "status \<noteq> Missing"
      "updateStateSnapshot k status err stale s =
        (True, evictIfNeeded (upd_written k status err stale s))"
proof (cases "upd_unchanged k status err stale s")
  case True
  then show thesis
    by (intro that(1)) (simp_all add: updateStateSnapshot_def upd_unchanged_def Let_def)
next
  case False
  show thesis
  proof (cases "status = Missing")
    case True
    with assms have "\<not> jm_has (records s) k" "err = None" "\<not> stale"
      by (auto simp: upd_pre_def)
    moreover from this have "value_of k s = JUndef"
      by (simp add: value_of_def flip: jm_get_None_iff)
    ultimately show thesis
      using False True
      by (intro that(2)) (auto simp: updateStateSnapshot_def upd_unchanged_def Let_def)
  next
    case neq: False
    with False show thesis
      by (intro that(3))
        (auto simp: updateStateSnapshot_def upd_unchanged_def upd_written_def new_snapshot_def Let_def)
  qed
qed

lemma new_snapshot_ok:
  assumes "upd_pre k status err stale s" and "status \<noteq> Missing"
  shows "snapshot_ok s k (new_snapshot k status err stale s)"
  using assms by (auto simp: snapshot_ok_def new_snapshot_def upd_pre_def)

lemma upd_written_fields [simp]:
  "records (upd_written k status err stale s) = records s"
  "staleKeys (upd_written k status err stale s) = staleKeys s"
  "lruOrder (upd_written k status err stale s) = remove1 k (lruOrder s) @ [k]"
  "stateSnapshots (upd_written k status err stale s) =
     jm_set k (new_snapshot k status err stale s) (stateSnapshots s)"
  "maxResources (upd_written k status err stale s) = maxResources s"
  "subscribers (upd_written k status err stale s) = subscribers s"
  "globalSubscribers (upd_written k status err stale s) = globalSubscribers s"
  by (simp_all add: upd_written_def)

lemma upd_written_ok:
  assumes pre: "upd_pre k status err stale s" and "status \<noteq> Missing"
  shows "store_ok (upd_written k status err stale s)" (is "store_ok ?t")
proof -
  have "store_struct ?t"
    using pre by (auto simp: upd_pre_def store_struct_def)
  moreover have "key_ok ?t k' = key_ok s k'" if "k' \<noteq> k" for k'
    by (rule key_ok_cong) (use that pre in \<open>auto simp: upd_pre_def store_struct_def jmap_simps\<close>)
  moreover have "key_ok ?t k"
  proof -
    have "snapshot_ok ?t k st = snapshot_ok s k st" for st
      by (rule snapshot_ok_cong) simp_all
    then show ?thesis
      using pre new_snapshot_ok [OF assms]
      by (auto simp: key_ok_def upd_pre_def jmap_simps)
  qed
  ultimately show ?thesis
    using pre unfolding store_ok_def upd_pre_def by metis
qed

lemma upd_unchanged_ok:
  assumes pre: "upd_pre k status err stale s" and same: "upd_unchanged k status err stale s"
  shows "store_ok s"
proof -
  have st: "status \<noteq> Missing"
  proof
    assume "status = Missing"
    with pre same show False
      by (auto simp: upd_pre_def upd_unchanged_def Let_def dest!: same_error_None)
  qed
  then obtain sn where sn: "jm_get (stateSnapshots s) k = Some sn"
    using same by (auto simp: upd_unchanged_def snapshot_of_def MISSING_RESOURCE_STATE_def Let_def
        split: option.splits)
  then have "snapshot_ok s k sn"
    using pre same st
    by (auto simp: upd_unchanged_def upd_pre_def snapshot_ok_def snapshot_of_def same_value_def
        Let_def dest: same_error_None)
  then have "key_ok s k"
    using pre sn by (auto simp: key_ok_def upd_pre_def jm_has_iff)
  with pre show ?thesis
    unfolding store_ok_def upd_pre_def by metis
qed

lemma upd_removed_ok:
  assumes pre: "upd_pre k status err stale s" and "status = Missing"
  shows "store_ok (removeFromLru k (s\<lparr>stateSnapshots := jm_delete k (stateSnapshots s)\<rparr>))"
    (is "store_ok ?t")
proof -
  have "store_struct ?t"
    using pre by (auto simp: upd_pre_def store_struct_def)
  moreover have "key_ok ?t k' = key_ok s k'" if "k' \<noteq> k" for k'
    by (rule key_ok_cong) (use that in \<open>auto simp: jmap_simps\<close>)
  moreover have "key_ok ?t k"
  proof -
    have "distinct (lruOrder s)" and "jm_get (records s) k = None" and "k \<notin> set (staleKeys s)"
      using assms unfolding upd_pre_def store_struct_def jm_get_None_iff by blast+
    then show ?thesis by (simp add: key_ok_def jmap_simps jm_has_iff)
  qed
  ultimately show ?thesis
    using pre unfolding store_ok_def upd_pre_def by metis
qed

lemma updateStateSnapshot_ok:
  assumes "upd_pre k status err stale s"
  shows "store_ok (snd (updateStateSnapshot k status err stale s))"
proof (rule updateStateSnapshot_cases [OF assms])
  assume "upd_unchanged k status err stale s"
    and "updateStateSnapshot k status err stale s = (False, s)"
  then show ?thesis using upd_unchanged_ok [OF assms] by simp
next
  assume "status = Missing"
    and "updateStateSnapshot k status err stale s =
      (True, removeFromLru k (s\<lparr>stateSnapshots := jm_delete k (stateSnapshots s)\<rparr>))"
  then show ?thesis using upd_removed_ok [OF assms] by simp
next
  assume "status \<noteq> Missing"
    and "updateStateSnapshot k status err stale s =
      (True, evictIfNeeded (upd_written k status err stale s))"
  then show ?thesis
    using evictIfNeeded_inv [OF upd_written_ok [OF assms]] by (simp add: store_inv_def)
qed

lemma updateStateSnapshot_inv:
  assumes pre: "upd_pre k status err stale s" and cap: "within_capacity s"
  shows "store_inv (snd (updateStateSnapshot k status err stale s))"
proof (rule updateStateSnapshot_cases [OF pre])
  assume "upd_unchanged k status err stale s"
    and "updateStateSnapshot k status err stale s = (False, s)"
  then show ?thesis using upd_unchanged_ok [OF pre] cap by (simp add: store_inv_def)
next
  assume m: "status = Missing"
    and eq: "updateStateSnapshot k status err stale s =
      (True, removeFromLru k (s\<lparr>stateSnapshots := jm_delete k (stateSnapshots s)\<rparr>))"
  show ?thesis
    using upd_removed_ok [OF pre m] cap length_jm_delete_le [of k "stateSnapshots s"]
    by (simp add: eq store_inv_def within_capacity_def)
next
  assume "status \<noteq> Missing"
    and "updateStateSnapshot k status err stale s =
      (True, evictIfNeeded (upd_written k status err stale s))"
  then show ?thesis
    using evictIfNeeded_inv [OF upd_written_ok [OF pre]] by simp
qed

text \<open>What the method leaves for the key itself.\<close>

lemma updateStateSnapshot_key:
  assumes pre: "upd_pre k status err stale s" and nm: "status \<noteq> Missing"
  shows "jm_get (records (snd (updateStateSnapshot k status err stale s))) k = jm_get (records s) k"
      (is ?rec)
    and "k \<in> set (staleKeys (snd (updateStateSnapshot k status err stale s))) \<longleftrightarrow> stale"
      (is ?stale)
    and "s_status (snapshot_of k (snd (updateStateSnapshot k status err stale s))) = status"
      (is ?status)
    and "s_error (snapshot_of k (snd (updateStateSnapshot k status err stale s))) = None \<longleftrightarrow> err = None"
      (is ?error)
proof -
  have "?rec \<and> ?stale \<and> ?status \<and> ?error"
  proof (rule updateStateSnapshot_cases [OF pre])
    assume "upd_unchanged k status err stale s"
      and "updateStateSnapshot k status err stale s = (False, s)"
    then show ?thesis
      using pre by (auto simp: upd_unchanged_def upd_pre_def Let_def dest: same_error_None)
  next
    assume "status = Missing"
    with nm show ?thesis by simp
  next
    assume eq: "updateStateSnapshot k status err stale s =
        (True, evictIfNeeded (upd_written k status err stale s))"
    have keep: "jm_get (records (evictIfNeeded (upd_written k status err stale s))) k =
          jm_get (records s) k"
        "jm_get (stateSnapshots (evictIfNeeded (upd_written k status err stale s))) k =
          Some (new_snapshot k status err stale s)"
        "k \<in> set (staleKeys (evictIfNeeded (upd_written k status err stale s))) \<longleftrightarrow>
          k \<in> set (staleKeys s)"
      using evict_keeps_newest [OF upd_written_ok [OF pre nm], of "remove1 k (lruOrder s)" k]
      by (simp_all add: jmap_simps)
    have snap: "snapshot_of k (evictIfNeeded (upd_written k status err stale s)) =
        new_snapshot k status err stale s"
      by (simp add: snapshot_of_def keep(2))
    have "stale \<longleftrightarrow> k \<in> set (staleKeys s)" using pre by (simp add: upd_pre_def)
    moreover have "s_status (new_snapshot k status err stale s) = status"
      and "s_error (new_snapshot k status err stale s) = None \<longleftrightarrow> err = None"
      by (auto simp: new_snapshot_def)
    ultimately show ?thesis
      unfolding eq snd_conv snap keep(1) keep(3) by simp
  qed
  then show ?rec and ?stale and ?status and ?error by simp_all
qed

lemma updateStateSnapshot_frame [simp]:
  "subscribers (snd (updateStateSnapshot k status err stale s)) = subscribers s"
  "globalSubscribers (snd (updateStateSnapshot k status err stale s)) = globalSubscribers s"
  "maxResources (snd (updateStateSnapshot k status err stale s)) = maxResources s"
  by (simp_all add: updateStateSnapshot_def Let_def)

section \<open>Reads\<close>

lemma getStateSnapshot_fst [simp]: "fst (getStateSnapshot k s) = snapshot_of k s"
  by (simp add: getStateSnapshot_def Let_def snapshot_of_def)

lemma getStateSnapshot_fields [simp]:
  "records (snd (getStateSnapshot k s)) = records s"
  "stateSnapshots (snd (getStateSnapshot k s)) = stateSnapshots s"
  "staleKeys (snd (getStateSnapshot k s)) = staleKeys s"
  "subscribers (snd (getStateSnapshot k s)) = subscribers s"
  "globalSubscribers (snd (getStateSnapshot k s)) = globalSubscribers s"
  "maxResources (snd (getStateSnapshot k s)) = maxResources s"
  "calls (snd (getStateSnapshot k s)) = calls s"
  by (simp_all add: getStateSnapshot_def Let_def)

lemma getRecord_fst [simp]: "fst (getRecord k s) = jm_get (records s) k"
  by (simp add: getRecord_def split: option.split)

lemma getRecord_fields [simp]:
  "records (snd (getRecord k s)) = records s"
  "stateSnapshots (snd (getRecord k s)) = stateSnapshots s"
  "staleKeys (snd (getRecord k s)) = staleKeys s"
  "subscribers (snd (getRecord k s)) = subscribers s"
  "globalSubscribers (snd (getRecord k s)) = globalSubscribers s"
  "maxResources (snd (getRecord k s)) = maxResources s"
  "calls (snd (getRecord k s)) = calls s"
  by (simp_all add: getRecord_def split: option.split)

lemma within_capacity_reads [simp]:
  "within_capacity (snd (getStateSnapshot k s)) = within_capacity s"
  "within_capacity (snd (getRecord k s)) = within_capacity s"
  "within_capacity (touchLru k s) = within_capacity s"
  "within_capacity (notify k s) = within_capacity s"
  by (simp_all add: within_capacity_def)

lemma store_ok_getStateSnapshot: "store_ok s \<Longrightarrow> store_ok (snd (getStateSnapshot k s))"
  by (auto simp: getStateSnapshot_def Let_def intro: store_ok_touchLru)

lemma store_ok_getRecord: "store_ok s \<Longrightarrow> store_ok (snd (getRecord k s))"
  by (auto simp: getRecord_def jm_has_iff split: option.split intro!: store_ok_touchLru)

lemma store_ok_getSnapshot: "store_ok s \<Longrightarrow> store_ok (snd (getSnapshot k s))"
  by (auto simp: getSnapshot_def jm_has_iff split: option.split intro!: store_ok_touchLru)

lemma store_inv_getStateSnapshot: "store_inv s \<Longrightarrow> store_inv (snd (getStateSnapshot k s))"
  by (simp add: store_inv_def store_ok_getStateSnapshot)

lemma store_inv_getRecord: "store_inv s \<Longrightarrow> store_inv (snd (getRecord k s))"
  by (simp add: store_inv_def store_ok_getRecord)

lemma store_inv_getSnapshot: "store_inv s \<Longrightarrow> store_inv (snd (getSnapshot k s))"
  by (auto simp: store_inv_def store_ok_getSnapshot)
    (auto simp: getSnapshot_def split: option.split)

section \<open>Writes keep the invariant\<close>

text \<open>Changing the record, the stale mark and the recency of one key leaves the others alone.\<close>

lemma key_ok_other:
  assumes "store_ok s" and "k' \<noteq> k"
    and "jm_get (records t) k' = jm_get (records s) k'"
    and "stateSnapshots t = stateSnapshots s"
    and "k' \<in> set (staleKeys t) \<longleftrightarrow> k' \<in> set (staleKeys s)"
    and "k' \<in> set (lruOrder t) \<longleftrightarrow> k' \<in> set (lruOrder s)"
  shows "key_ok t k'"
proof -
  have "key_ok t k' = key_ok s k'"
    by (rule key_ok_cong) (simp_all add: assms(3-6))
  with assms(1) show ?thesis by (simp add: store_ok_def)
qed

text \<open>The facts about one key that the invariant gives.\<close>

lemma store_ok_key:
  assumes "store_ok s"
  shows "k \<in> set (lruOrder s) \<longleftrightarrow> jm_has (records s) k \<or> jm_has (stateSnapshots s) k"
    and "k \<in> set (staleKeys s) \<Longrightarrow> jm_has (records s) k"
    and "jm_get (records s) k = Some r \<Longrightarrow> r_key r = k"
    and "jm_has (records s) k \<Longrightarrow> jm_has (stateSnapshots s) k"
    and "jm_get (stateSnapshots s) k = Some st \<Longrightarrow> snapshot_ok s k st"
    and "store_struct s"
  using assms by (auto simp: store_ok_def key_ok_def jm_has_iff)

definition with_stale_mark :: "rkey \<Rightarrow> store \<Rightarrow> store" where
  "with_stale_mark k s =
     (if jm_has (records s) k then s\<lparr>staleKeys := jset_add k (staleKeys s)\<rparr> else s)"

lemma with_stale_mark_fields [simp]:
  "records (with_stale_mark k s) = records s"
  "stateSnapshots (with_stale_mark k s) = stateSnapshots s"
  "lruOrder (with_stale_mark k s) = lruOrder s"
  "subscribers (with_stale_mark k s) = subscribers s"
  "globalSubscribers (with_stale_mark k s) = globalSubscribers s"
  "maxResources (with_stale_mark k s) = maxResources s"
  "set (staleKeys (with_stale_mark k s)) =
     (if jm_has (records s) k then insert k (set (staleKeys s)) else set (staleKeys s))"
  by (simp_all add: with_stale_mark_def)

lemma mark_status_pre:
  assumes ok: "store_ok s" and "status \<noteq> Missing" and "status \<noteq> Ready"
    and "status = Error \<longleftrightarrow> err \<noteq> None"
  shows "upd_pre k status err (jm_has (records s) k) (with_stale_mark k s)"
proof -
  note K = store_ok_key [OF ok]
  have "key_ok (with_stale_mark k s) k'" if "k' \<noteq> k" for k'
    by (rule key_ok_other [OF ok that]) (use that in auto)
  moreover have "store_struct (with_stale_mark k s)"
    using K(6) by (simp add: store_struct_def with_stale_mark_def)
  ultimately show ?thesis
    using assms(2-4) K(1-3) by (auto simp: upd_pre_def)
qed

lemma mark_status_eq:
  "mark_status status err k s =
     (let u = updateStateSnapshot k status err (jm_has (records s) k) (with_stale_mark k s)
      in if fst u then notify k (snd u) else snd u)"
  by (simp add: mark_status_def with_stale_mark_def Let_def split_beta)

lemma mark_status_inv:
  assumes "store_inv s" and "status \<noteq> Missing" and "status \<noteq> Ready"
    and "status = Error \<longleftrightarrow> err \<noteq> None"
  shows "store_inv (mark_status status err k s)"
proof -
  have "upd_pre k status err (jm_has (records s) k) (with_stale_mark k s)"
    by (rule mark_status_pre) (use assms in \<open>auto simp: store_inv_def\<close>)
  moreover have "within_capacity (with_stale_mark k s)"
    using assms(1) by (simp add: store_inv_def within_capacity_def)
  ultimately have "store_inv (snd (updateStateSnapshot k status err (jm_has (records s) k)
      (with_stale_mark k s)))"
    by (rule updateStateSnapshot_inv)
  then show ?thesis by (simp add: mark_status_eq Let_def)
qed

lemma markPending_inv: "store_inv s \<Longrightarrow> store_inv (markPending keys s)"
  unfolding markPending_def by (induction keys arbitrary: s) (auto simp: mark_status_inv)

lemma markLoading_inv: "store_inv s \<Longrightarrow> store_inv (markLoading keys s)"
  unfolding markLoading_def by (induction keys arbitrary: s) (auto simp: mark_status_inv)

lemma setResourceError_inv: "store_inv s \<Longrightarrow> store_inv (setResourceError k err s)"
  by (simp add: setResourceError_def mark_status_inv)

text \<open>\<open>set\<close>: the state in which the loading state is updated.\<close>

definition set_written :: "nat \<Rightarrow> rkey \<Rightarrow> jstring \<Rightarrow> jsval \<Rightarrow> store \<Rightarrow> store" where
  "set_written now k version val s =
     (snd (getStateSnapshot k s))
       \<lparr>records := jm_set k \<lparr>r_key = k, r_version = version, r_value = val, r_updatedAt = now\<rparr>
                     (records s),
        staleKeys := jset_delete k (staleKeys s)\<rparr>"

definition set_skips :: "rkey \<Rightarrow> jstring \<Rightarrow> store \<Rightarrow> bool" where
  "set_skips k version s \<longleftrightarrow>
     (\<exists>r. jm_get (records s) k = Some r \<and> r_version r = version) \<and>
     k \<notin> set (staleKeys s) \<and>
     s_status (snapshot_of k s) = Ready \<and> s_error (snapshot_of k s) = None"

lemma store_set_eq:
  "store_set now k version val s =
     (if set_skips k version s then (False, touchLru k (snd (getStateSnapshot k s)))
      else (True, notify k (evictIfNeeded (touchLru k
             (snd (updateStateSnapshot k Ready None False (set_written now k version val s)))))))"
  by (auto simp: store_set_def set_skips_def set_written_def Let_def split_beta
      split: option.splits)

lemma set_written_fields [simp]:
  "records (set_written now k version val s) =
     jm_set k \<lparr>r_key = k, r_version = version, r_value = val, r_updatedAt = now\<rparr> (records s)"
  "stateSnapshots (set_written now k version val s) = stateSnapshots s"
  "staleKeys (set_written now k version val s) = jset_delete k (staleKeys s)"
  "lruOrder (set_written now k version val s) = lruOrder (snd (getStateSnapshot k s))"
  "subscribers (set_written now k version val s) = subscribers s"
  "globalSubscribers (set_written now k version val s) = globalSubscribers s"
  "maxResources (set_written now k version val s) = maxResources s"
  by (simp_all add: set_written_def)

lemma set_written_pre:
  assumes ok: "store_ok s"
  shows "upd_pre k Ready None False (set_written now k version val s)"
proof -
  have ok': "store_ok (snd (getStateSnapshot k s))"
    using ok by (rule store_ok_getStateSnapshot)
  note K = store_ok_key [OF ok']
  have "key_ok (set_written now k version val s) k'" if "k' \<noteq> k" for k'
    by (rule key_ok_other [OF ok' that]) (use that in \<open>auto simp: jmap_simps\<close>)
  moreover have "store_struct (set_written now k version val s)"
    using K(6) by (auto simp: store_struct_def)
  ultimately show ?thesis
    using K(1) by (auto simp: upd_pre_def jmap_simps)
qed

lemma store_set_ok:
  assumes ok: "store_ok s" and cap: "set_skips k version s \<Longrightarrow> within_capacity s"
  shows "store_inv (snd (store_set now k version val s))"
proof (cases "set_skips k version s")
  case True
  then have "jm_has (records s) k" by (auto simp: set_skips_def jm_has_iff)
  then have "store_ok (touchLru k (snd (getStateSnapshot k s)))"
    using store_ok_getStateSnapshot [OF ok, of k] by (intro store_ok_touchLru) simp_all
  with True cap show ?thesis by (simp add: store_set_eq store_inv_def)
next
  case False
  let ?u = "snd (updateStateSnapshot k Ready None False (set_written now k version val s))"
  note pre = set_written_pre [OF ok, of k now version val]
  have "jm_get (records ?u) k \<noteq> None"
    using updateStateSnapshot_key(1) [OF pre] by (simp add: jmap_simps)
  then have "store_ok (touchLru k ?u)"
    using updateStateSnapshot_ok [OF pre] by (intro store_ok_touchLru) (auto simp: jm_has_iff)
  then show ?thesis
    using False evictIfNeeded_inv by (simp add: store_set_eq)
qed

lemma store_set_inv: "store_inv s \<Longrightarrow> store_inv (snd (store_set now k version val s))"
  by (rule store_set_ok) (auto simp: store_inv_def)

lemma setMany_inv: "store_inv s \<Longrightarrow> store_inv (snd (setMany now es s))"
proof (induction es arbitrary: s)
  case (Cons e es)
  obtain k version val where e: "e = (k, version, val)" by (cases e)
  have "store_inv (snd (store_set now k version val s))"
    using Cons.prems by (rule store_set_inv)
  then have "store_inv (snd (setMany now es (snd (store_set now k version val s))))"
    by (rule Cons.IH)
  then show ?case by (simp add: e Let_def split_beta)
qed simp

lemma clearResourceError_inv:
  assumes "store_inv s"
  shows "store_inv (clearResourceError k s)"
proof (cases "s_error (snapshot_of k s) = None")
  case True
  then show ?thesis
    using store_inv_getStateSnapshot [OF assms, of k]
    by (simp add: clearResourceError_def Let_def split_beta)
next
  case False
  let ?s = "snd (getStateSnapshot k s)"
  have inv: "store_inv ?s" using assms by (rule store_inv_getStateSnapshot)
  then have ok: "store_ok ?s" by (simp add: store_inv_def)
  note K = store_ok_key [OF ok]
  have others: "key_ok ?s k'" for k' using ok by (simp add: store_ok_def)
  have snap: "snapshot_of k ?s = snapshot_of k s" by (simp add: snapshot_of_def)
  have "upd_pre k (if jm_has (records ?s) k then Ready else Missing) None
      (jm_has (records ?s) k \<and> k \<in> set (staleKeys ?s)) ?s"
    using K(1-3,6) others False by (auto simp: upd_pre_def snap)
  then have "store_inv (snd (updateStateSnapshot k
      (if jm_has (records ?s) k then Ready else Missing) None
      (jm_has (records ?s) k \<and> k \<in> set (staleKeys ?s)) ?s))"
    using inv by (intro updateStateSnapshot_inv) (auto simp: store_inv_def)
  with False show ?thesis
    by (auto simp: clearResourceError_def Let_def split_beta)
qed

text \<open>\<open>patch\<close> and \<open>markStale\<close> keep the record of the key and mark it stale.\<close>

definition patch_written ::
  "nat \<Rightarrow> jstring \<Rightarrow> rkey \<Rightarrow> resource_record \<Rightarrow> jsval \<Rightarrow> store \<Rightarrow> store" where
  "patch_written now stamp k existing val s =
     s\<lparr>records := jm_set k
          \<lparr>r_key = k, r_version = r_version existing @ js ''_p'' @ stamp,
           r_value = val, r_updatedAt = now\<rparr> (records s),
       staleKeys := jset_add k (staleKeys s)\<rparr>"

lemma store_patch_eq:
  "store_patch now stamp ref k patches s =
     (case jm_get (records s) k of
        None \<Rightarrow> Some (False, s)
      | Some existing \<Rightarrow>
          map_option
            (\<lambda>val. (True, notify k (touchLru k
               (snd (updateStateSnapshot k Ready None True (patch_written now stamp k existing val s))))))
            (apply_patches ref (r_value existing) patches))"
  by (auto simp: store_patch_def patch_written_def Let_def split: option.split)

lemma patch_written_pre:
  assumes ok: "store_ok s" and "jm_get (records s) k = Some existing"
  shows "upd_pre k Ready None True (patch_written now stamp k existing val s)"
proof -
  note K = store_ok_key [OF ok]
  have "key_ok (patch_written now stamp k existing val s) k'" if "k' \<noteq> k" for k'
    by (rule key_ok_other [OF ok that]) (use that in \<open>auto simp: patch_written_def jmap_simps\<close>)
  moreover have "store_struct (patch_written now stamp k existing val s)"
    using K(6) by (auto simp: store_struct_def patch_written_def)
  ultimately show ?thesis
    using K(1) by (auto simp: upd_pre_def patch_written_def jmap_simps)
qed

lemma store_patch_inv:
  assumes inv: "store_inv s" and res: "store_patch now stamp ref k patches s = Some (b, t)"
  shows "store_inv t"
proof (cases "jm_get (records s) k")
  case None
  with assms show ?thesis by (simp add: store_patch_eq)
next
  case (Some existing)
  then obtain val where t: "t = notify k (touchLru k (snd (updateStateSnapshot k Ready None True
      (patch_written now stamp k existing val s))))"
    using res by (auto simp: store_patch_eq)
  have ok: "store_ok s" using inv by (simp add: store_inv_def)
  note pre = patch_written_pre [OF ok Some, of now stamp val]
  have "within_capacity (patch_written now stamp k existing val s)"
    using inv Some by (simp add: store_inv_def within_capacity_def patch_written_def length_jm_set jm_has_iff)
  then have u: "store_inv (snd (updateStateSnapshot k Ready None True
      (patch_written now stamp k existing val s)))" (is "store_inv ?u")
    by (rule updateStateSnapshot_inv [OF pre])
  have "jm_get (records ?u) k \<noteq> None"
    using updateStateSnapshot_key(1) [OF pre] by (simp add: patch_written_def jmap_simps)
  then have "store_ok (touchLru k ?u)"
    using u by (intro store_ok_touchLru) (auto simp: store_inv_def jm_has_iff)
  with u show ?thesis by (simp add: t store_inv_def)
qed

definition stale_marked :: "rkey \<Rightarrow> store \<Rightarrow> store" where
  "stale_marked k s = snd (getStateSnapshot k (s\<lparr>staleKeys := jset_add k (staleKeys s)\<rparr>))"

lemma stale_marked_fields [simp]:
  "records (stale_marked k s) = records s"
  "stateSnapshots (stale_marked k s) = stateSnapshots s"
  "staleKeys (stale_marked k s) = jset_add k (staleKeys s)"
  "maxResources (stale_marked k s) = maxResources s"
  "subscribers (stale_marked k s) = subscribers s"
  "globalSubscribers (stale_marked k s) = globalSubscribers s"
  "jm_has (records s) k \<Longrightarrow> lruOrder (stale_marked k s) = remove1 k (lruOrder s) @ [k]"
  by (simp_all add: stale_marked_def) (simp add: getStateSnapshot_def Let_def)

lemma markStale_eq:
  "markStale k s =
     (if \<not> jm_has (records s) k \<or> k \<in> set (staleKeys s) then s
      else notify k (snd (updateStateSnapshot k (s_status (snapshot_of k s))
             (s_error (snapshot_of k s)) True (stale_marked k s))))"
  by (simp add: markStale_def stale_marked_def Let_def split_beta snapshot_of_def)

lemma store_ok_record_snapshot:
  assumes "store_ok s" and "jm_has (records s) k"
  obtains st where "jm_get (stateSnapshots s) k = Some st" and "snapshot_of k s = st"
    and "snapshot_ok s k st"
proof -
  obtain st where st: "jm_get (stateSnapshots s) k = Some st"
    using store_ok_key(4) [OF assms] by (auto simp: jm_has_iff)
  then show thesis
    using store_ok_key(5) [OF assms(1) st] by (intro that) (simp_all add: snapshot_of_def)
qed

lemma markStale_pre:
  assumes ok: "store_ok s" and has: "jm_has (records s) k"
  shows "upd_pre k (s_status (snapshot_of k s)) (s_error (snapshot_of k s)) True (stale_marked k s)"
proof -
  note K = store_ok_key [OF ok]
  obtain st where "snapshot_of k s = st" and st: "snapshot_ok s k st"
    using store_ok_record_snapshot [OF assms] by metis
  have d: "distinct (lruOrder s)" using K(6) by (simp add: store_struct_def)
  have "key_ok (stale_marked k s) k'" if "k' \<noteq> k" for k'
    by (rule key_ok_other [OF ok that]) (use that has d in \<open>auto\<close>)
  moreover have "store_struct (stale_marked k s)"
    using K(6) has by (auto simp: store_struct_def)
  ultimately show ?thesis
    using K(3) has st \<open>snapshot_of k s = st\<close> by (auto simp: upd_pre_def snapshot_ok_def)
qed

lemma markStale_inv:
  assumes "store_inv s"
  shows "store_inv (markStale k s)"
proof (cases "\<not> jm_has (records s) k \<or> k \<in> set (staleKeys s)")
  case True
  with assms show ?thesis by (simp add: markStale_eq)
next
  case False
  have "within_capacity (stale_marked k s)"
    using assms by (simp add: store_inv_def within_capacity_def)
  then have "store_inv (snd (updateStateSnapshot k (s_status (snapshot_of k s))
      (s_error (snapshot_of k s)) True (stale_marked k s)))"
    using assms False by (intro updateStateSnapshot_inv markStale_pre) (auto simp: store_inv_def)
  with False show ?thesis by (simp add: markStale_eq)
qed

lemma fold_notify_fields [simp]:
  "records (fold notify ks s) = records s"
  "stateSnapshots (fold notify ks s) = stateSnapshots s"
  "staleKeys (fold notify ks s) = staleKeys s"
  "lruOrder (fold notify ks s) = lruOrder s"
  "maxResources (fold notify ks s) = maxResources s"
  "subscribers (fold notify ks s) = subscribers s"
  "globalSubscribers (fold notify ks s) = globalSubscribers s"
  by (induction ks arbitrary: s) simp_all

lemma store_clear_fields [simp]:
  "records (store_clear s) = []"
  "stateSnapshots (store_clear s) = []"
  "staleKeys (store_clear s) = []"
  "lruOrder (store_clear s) = []"
  "maxResources (store_clear s) = maxResources s"
  "subscribers (store_clear s) = subscribers s"
  "globalSubscribers (store_clear s) = globalSubscribers s"
  by (simp_all add: store_clear_def Let_def)

lemma store_clear_inv: "store_inv s \<Longrightarrow> store_inv (store_clear s)"
  by (simp add: store_inv_def within_capacity_def store_ok_def store_struct_def key_ok_def)

lemma store_inv_subscriptions:
  assumes "store_inv s" and "records t = records s" and "stateSnapshots t = stateSnapshots s"
    and "staleKeys t = staleKeys s" and "lruOrder t = lruOrder s" and "maxResources t = maxResources s"
    and "jm_wf (subscribers t)" and "distinct (globalSubscribers t)"
    and "\<And>k cbs. jm_get (subscribers t) k = Some cbs \<Longrightarrow> cbs \<noteq> [] \<and> distinct cbs"
  shows "store_inv t"
proof -
  have "key_ok t k = key_ok s k" for k by (rule key_ok_cong) (simp_all add: assms(2-5))
  with assms show ?thesis
    by (auto simp: store_inv_def store_ok_def store_struct_def within_capacity_def)
qed

lemma store_inv_subs:
  assumes "store_inv s"
  shows "jm_wf (subscribers s)" and "distinct (globalSubscribers s)"
    and "jm_get (subscribers s) k = Some cbs \<Longrightarrow> cbs \<noteq> [] \<and> distinct cbs"
  using assms by (auto simp: store_inv_def store_ok_def store_struct_def)

lemma store_subscribe_inv: "store_inv s \<Longrightarrow> store_inv (store_subscribe k cb s)"
  by (rule store_inv_subscriptions [of s])
    (auto simp: store_subscribe_def Let_def jmap_simps jset_add_def
      dest: store_inv_subs split: if_splits option.splits)

lemma store_unsubscribe_inv: "store_inv s \<Longrightarrow> store_inv (store_unsubscribe k cb s)"
  by (rule store_inv_subscriptions [of s])
    (auto simp: store_unsubscribe_def Let_def jmap_simps
      dest: store_inv_subs split: if_splits option.splits)

lemma store_subscribeAll_inv: "store_inv s \<Longrightarrow> store_inv (store_subscribeAll cb s)"
  by (rule store_inv_subscriptions [of s]) (auto simp: store_subscribeAll_def dest: store_inv_subs)

lemma store_unsubscribeAll_inv: "store_inv s \<Longrightarrow> store_inv (store_unsubscribeAll cb s)"
  by (rule store_inv_subscriptions [of s]) (auto simp: store_unsubscribeAll_def dest: store_inv_subs)

lemma new_store_inv: "new_store m = Inr s \<Longrightarrow> store_inv s"
proof -
  assume "new_store m = Inr s"
  moreover note floor_pos_nat
  ultimately have "\<exists>n>0. s = \<lparr>records = [], subscribers = [], globalSubscribers = [],
       lruOrder = [], staleKeys = [], stateSnapshots = [], maxResources = n, calls = []\<rparr>"
    by (auto simp: new_store_def Let_def num_is_integer_def split: if_splits)
  then show ?thesis
    by (auto simp: store_inv_def within_capacity_def store_ok_def store_struct_def key_ok_def)
qed

lemmas store_inv_rules =
  new_store_inv store_set_inv setMany_inv markPending_inv markLoading_inv setResourceError_inv
  clearResourceError_inv store_patch_inv store_inv_invalidate markStale_inv store_clear_inv
  store_inv_getSnapshot store_inv_getStateSnapshot store_inv_getRecord
  store_subscribe_inv store_unsubscribe_inv store_subscribeAll_inv store_unsubscribeAll_inv

end
