(* ===== verification/Store_Properties.thy ===== *)
theory Store_Properties
  imports Store_Operations
begin

text \<open>
  The properties of the resource store: the reachable states, what each operation leaves readable,
  the least-recently-used eviction, and the versions the store advertises to the server.
\<close>

section \<open>Sequences of operations\<close>

text \<open>The public operations that change a store; a read is one of them, since it touches the key.\<close>

datatype store_op =
    OpSet nat rkey jstring jsval
  | OpSetMany nat "(rkey \<times> jstring \<times> jsval) list"
  | OpMarkPending "rkey list"
  | OpMarkLoading "rkey list"
  | OpSetResourceError rkey error_detail
  | OpClearResourceError rkey
  | OpPatch nat jstring nat rkey "patch list"
  | OpInvalidate rkey
  | OpMarkStale rkey
  | OpClear
  | OpGetSnapshot rkey
  | OpGetStateSnapshot rkey
  | OpGetRecord rkey
  | OpSubscribe rkey callback
  | OpUnsubscribe rkey callback
  | OpSubscribeAll callback
  | OpUnsubscribeAll callback

fun run_store_op :: "store_op \<Rightarrow> store \<Rightarrow> store" where
  "run_store_op (OpSet now k version val) s = snd (store_set now k version val s)"
| "run_store_op (OpSetMany now es) s = snd (setMany now es s)"
| "run_store_op (OpMarkPending ks) s = markPending ks s"
| "run_store_op (OpMarkLoading ks) s = markLoading ks s"
| "run_store_op (OpSetResourceError k err) s = setResourceError k err s"
| "run_store_op (OpClearResourceError k) s = clearResourceError k s"
| "run_store_op (OpPatch now stamp ref k ps) s =
     (case store_patch now stamp ref k ps s of None \<Rightarrow> s | Some (_, t) \<Rightarrow> t)"
| "run_store_op (OpInvalidate k) s = invalidate k s"
| "run_store_op (OpMarkStale k) s = markStale k s"
| "run_store_op OpClear s = store_clear s"
| "run_store_op (OpGetSnapshot k) s = snd (getSnapshot k s)"
| "run_store_op (OpGetStateSnapshot k) s = snd (getStateSnapshot k s)"
| "run_store_op (OpGetRecord k) s = snd (getRecord k s)"
| "run_store_op (OpSubscribe k cb) s = store_subscribe k cb s"
| "run_store_op (OpUnsubscribe k cb) s = store_unsubscribe k cb s"
| "run_store_op (OpSubscribeAll cb) s = store_subscribeAll cb s"
| "run_store_op (OpUnsubscribeAll cb) s = store_unsubscribeAll cb s"

interpretation store_sys: invariant_system "\<lambda>s. \<exists>m. new_store m = Inr s" run_store_op store_inv
proof
  show "store_inv s" if "\<exists>m. new_store m = Inr s" for s
    using that by (auto intro: new_store_inv)
  show "store_inv (run_store_op opr s)" if "store_inv s" for s opr
    using that by (cases opr) (auto intro: store_inv_rules split: option.split)
qed

section \<open>Reading back what was written\<close>

lemma store_set_key:
  fixes now k version val
  assumes ok: "store_ok s"
  defines "t \<equiv> snd (store_set now k version val s)"
  shows "jm_get (records t) k =
      (if set_skips k version s then jm_get (records s) k
       else Some \<lparr>r_key = k, r_version = version, r_value = val, r_updatedAt = now\<rparr>)"
      (is ?rec)
    and "k \<notin> set (staleKeys t)" (is ?stale)
    and "s_status (snapshot_of k t) = Ready" (is ?status)
    and "s_error (snapshot_of k t) = None" (is ?error)
proof -
  have "?rec \<and> ?stale \<and> ?status \<and> ?error"
  proof (cases "set_skips k version s")
    case True
    then show ?thesis
      by (simp add: t_def store_set_eq) (simp add: set_skips_def snapshot_of_def)
  next
    case False
    let ?u = "snd (updateStateSnapshot k Ready None False (set_written now k version val s))"
    note pre = set_written_pre [OF ok, of k now version val]
    note K = updateStateSnapshot_key [OF pre]
    have "jm_get (records ?u) k \<noteq> None"
      using K(1) by (simp add: jmap_simps)
    then have "store_ok (touchLru k ?u)"
      using updateStateSnapshot_ok [OF pre] by (intro store_ok_touchLru) (auto simp: jm_has_iff)
    then have keep: "jm_get (records t) k = jm_get (records ?u) k"
        "jm_get (stateSnapshots t) k = jm_get (stateSnapshots ?u) k"
        "k \<in> set (staleKeys t) \<longleftrightarrow> k \<in> set (staleKeys ?u)"
      using evict_keeps_newest [of "touchLru k ?u" "remove1 k (lruOrder ?u)" k] False
      by (simp_all add: t_def store_set_eq)
    then have "snapshot_of k t = snapshot_of k ?u" by (simp add: snapshot_of_def)
    with keep K False show ?thesis by (simp add: jmap_simps)
  qed
  then show ?rec and ?stale and ?status and ?error by blast+
qed

lemma store_set_changed: "fst (store_set now k version val s) \<longleftrightarrow> \<not> set_skips k version s"
  by (simp add: store_set_eq)

section \<open>Least-recently-used eviction\<close>

text \<open>
  \<open>lru_step k ks s t\<close>: from \<open>s\<close> to \<open>t\<close>, key \<open>k\<close> became the most recent one, the keys \<open>ks\<close> were
  evicted, they are the least recently used ones, and no other key changed.
\<close>

definition lru_step :: "rkey \<Rightarrow> rkey list \<Rightarrow> store \<Rightarrow> store \<Rightarrow> bool" where
  "lru_step k ks s t \<longleftrightarrow>
     (\<exists>ys. remove1 k (lruOrder s) = ks @ ys \<and> lruOrder t = ys @ [k]) \<and>
     (\<forall>k'. k' \<noteq> k \<longrightarrow>
        jm_get (records t) k' = (if k' \<in> set ks then None else jm_get (records s) k') \<and>
        jm_get (stateSnapshots t) k' = (if k' \<in> set ks then None else jm_get (stateSnapshots s) k') \<and>
        (k' \<in> set (staleKeys t) \<longleftrightarrow> k' \<in> set (staleKeys s) \<and> k' \<notin> set ks))"

lemma lru_step_evict:
  assumes ok: "store_ok t" and step: "lru_step k ks s t"
  shows "\<exists>ks'. lru_step k ks' s (evictIfNeeded t)"
proof -
  obtain ys where ys: "remove1 k (lruOrder s) = ks @ ys" "lruOrder t = ys @ [k]"
    using step by (auto simp: lru_step_def)
  obtain ks' where ks': "evicts ks' t (evictIfNeeded t)"
    using evictIfNeeded_evicts [OF ok] by blast
  obtain zs where zs: "lruOrder (evictIfNeeded t) = zs @ [k]"
    using evicts_spares_newest [OF ok ys(2)] by blast
  have "ys = ks' @ zs"
    using ks' ys(2) zs by (auto simp: evicts_def simp flip: append_assoc)
  then have "lru_step k (ks @ ks') s (evictIfNeeded t)"
    using step ks' ys zs unfolding lru_step_def evicts_def by auto
  then show ?thesis ..
qed

lemma lru_step_trans_touch:
  assumes "lru_step k ks s t" and "distinct (lruOrder t)"
  shows "lru_step k ks s (touchLru k t)"
proof -
  obtain ys where ys: "remove1 k (lruOrder s) = ks @ ys" "lruOrder t = ys @ [k]"
    using assms by (auto simp: lru_step_def)
  have "remove1 k (ys @ [k]) = ys"
    using assms(2) ys(2) by (simp add: remove1_append)
  with assms(1) ys show ?thesis by (simp add: lru_step_def)
qed

lemma lru_step_updateStateSnapshot:
  assumes pre: "upd_pre k status err stale s" and nm: "status \<noteq> Missing"
    and changed: "\<not> upd_unchanged k status err stale s"
  shows "\<exists>ks. lru_step k ks s (snd (updateStateSnapshot k status err stale s))"
proof -
  have eq: "snd (updateStateSnapshot k status err stale s) =
      evictIfNeeded (upd_written k status err stale s)"
    by (rule updateStateSnapshot_cases [OF pre]) (use nm changed in auto)
  have "lru_step k [] s (upd_written k status err stale s)"
    by (simp add: lru_step_def jmap_simps)
  from lru_step_evict [OF upd_written_ok [OF pre nm] this] show ?thesis
    by (simp add: eq)
qed

lemma remove1_getStateSnapshot:
  assumes "store_ok s"
  shows "remove1 k (lruOrder (snd (getStateSnapshot k s))) = remove1 k (lruOrder s)"
proof -
  have "distinct (lruOrder s)" using assms by (simp add: store_ok_def store_struct_def)
  then show ?thesis
    by (simp add: getStateSnapshot_def Let_def remove1_append remove1_idem)
qed

lemma lru_step_set_written:
  assumes "store_ok s" and "lru_step k ks (set_written now k version val s) t"
  shows "lru_step k ks s t"
  using assms(2) remove1_getStateSnapshot [OF assms(1), of k]
  by (simp add: lru_step_def jmap_simps)

lemma store_set_lru_step:
  assumes ok: "store_ok s"
  shows "\<exists>ks. lru_step k ks s (snd (store_set now k version val s))"
proof (cases "set_skips k version s")
  case True
  have d: "distinct (lruOrder s)" using ok by (simp add: store_ok_def store_struct_def)
  have "lru_step k [] s (snd (store_set now k version val s))"
    using True remove1_getStateSnapshot [OF ok, of k] by (simp add: store_set_eq lru_step_def)
  then show ?thesis ..
next
  case False
  let ?w = "set_written now k version val s"
  let ?u = "snd (updateStateSnapshot k Ready None False ?w)"
  note pre = set_written_pre [OF ok, of k now version val]
  have u_ok: "store_ok ?u" by (rule updateStateSnapshot_ok [OF pre])
  have "jm_get (records ?u) k \<noteq> None"
    using updateStateSnapshot_key(1) [OF pre] by (simp add: jmap_simps)
  then have t_ok: "store_ok (touchLru k ?u)"
    using u_ok by (intro store_ok_touchLru) (auto simp: jm_has_iff)
  have "\<exists>ks. lru_step k ks ?w (touchLru k ?u)"
  proof (cases "upd_unchanged k Ready None False ?w")
    case True
    have "?u = ?w"
      by (rule updateStateSnapshot_cases [OF pre]) (use True in auto)
    then have "lru_step k [] ?w (touchLru k ?u)" by (simp add: lru_step_def)
    then show ?thesis ..
  next
    case False
    then obtain ks where "lru_step k ks ?w ?u"
      using lru_step_updateStateSnapshot [OF pre] by auto
    then have "lru_step k ks ?w (touchLru k ?u)"
      by (rule lru_step_trans_touch) (use u_ok in \<open>simp add: store_ok_def store_struct_def\<close>)
    then show ?thesis ..
  qed
  then obtain ks where "lru_step k ks ?w (evictIfNeeded (touchLru k ?u))"
    using lru_step_evict [OF t_ok] by blast
  then have "lru_step k ks s (evictIfNeeded (touchLru k ?u))"
    by (rule lru_step_set_written [OF ok])
  with False have "lru_step k ks s (snd (store_set now k version val s))"
    by (simp add: store_set_eq lru_step_def)
  then show ?thesis ..
qed

section \<open>The recency list\<close>

text \<open>What a write of \<open>k\<close> makes of the recency list in a store of capacity \<open>cap\<close>.\<close>

definition newest :: "nat \<Rightarrow> 'a list \<Rightarrow> 'a list" where
  "newest cap l = drop (length l - cap) l"

definition lru_next :: "nat \<Rightarrow> rkey \<Rightarrow> rkey list \<Rightarrow> rkey list" where
  "lru_next cap k l = newest cap (remove1 k l @ [k])"

lemma newest_idem [simp]: "newest cap (newest cap l) = newest cap l"
  by (simp add: newest_def)

lemma newest_idle [simp]: "length l \<le> cap \<Longrightarrow> newest cap l = l"
  by (simp add: newest_def)

lemma store_ok_lengths:
  assumes ok: "store_ok s"
  shows "length (stateSnapshots s) = length (lruOrder s)"
    and "length (records s) \<le> length (lruOrder s)"
proof -
  note K = store_ok_key [OF ok]
  have d: "distinct (lruOrder s)" "distinct (jm_keys (stateSnapshots s))" "distinct (jm_keys (records s))"
    using ok by (simp_all add: store_ok_def store_struct_def)
  have "x \<in> set (lruOrder s) \<longleftrightarrow> x \<in> set (jm_keys (stateSnapshots s))" for x
    using K(1) [of x] K(4) [of x] by auto
  then have sets: "set (lruOrder s) = set (jm_keys (stateSnapshots s))" by blast
  show "length (stateSnapshots s) = length (lruOrder s)"
    using distinct_card [OF d(1)] distinct_card [OF d(2)] unfolding sets by simp
  have "x \<in> set (jm_keys (records s)) \<Longrightarrow> x \<in> set (lruOrder s)" for x
    using K(1) [of x] by auto
  then have "set (jm_keys (records s)) \<subseteq> set (lruOrder s)" by blast
  then have "card (set (jm_keys (records s))) \<le> card (set (lruOrder s))"
    by (rule card_mono [OF finite_set])
  with d(1,3) show "length (records s) \<le> length (lruOrder s)"
    by (simp add: distinct_card)
qed

lemma evictIfNeeded_lruOrder:
  "store_ok s \<Longrightarrow>
   lruOrder (evictIfNeeded s) = newest (maxResources s) (lruOrder s)"
proof (induction s rule: evictIfNeeded.induct)
  case (1 s)
  note L = store_ok_lengths [OF "1.prems"]
  show ?case
  proof (cases "length (records s) > maxResources s \<or> length (stateSnapshots s) > maxResources s")
    case True
    with L obtain oldest rest where lru: "lruOrder s = oldest # rest"
      by (cases "lruOrder s") auto
    let ?t = "invalidate oldest (s\<lparr>lruOrder := rest\<rparr>)"
    have "lruOrder (evictIfNeeded ?t) = newest (maxResources s) rest"
      using "1.IH" [OF True lru store_ok_evict_step [OF "1.prems" lru]]
        evict_step_fields [OF "1.prems" lru] by simp
    with True L lru show ?thesis
      by (auto simp: evictIfNeeded.simps [of s] newest_def Suc_diff_le)
  next
    case False
    with L show ?thesis by (simp add: evictIfNeeded.simps [of s])
  qed
qed

lemma store_inv_lru_length: "store_inv s \<Longrightarrow> length (lruOrder s) \<le> maxResources s"
  using store_ok_lengths(1) [of s] by (simp add: store_inv_def within_capacity_def)

lemma store_inv_cap_pos: "store_inv s \<Longrightarrow> 0 < maxResources s"
  by (simp add: store_inv_def store_ok_def store_struct_def)

lemma lru_next_last: "0 < cap \<Longrightarrow> lru_next cap k l = drop (Suc (length (remove1 k l)) - cap) (remove1 k l) @ [k]"
  by (simp add: lru_next_def newest_def)

lemma lru_next_touch:
  assumes "distinct l" and "0 < cap"
  shows "remove1 k (lru_next cap k l) @ [k] = lru_next cap k l"
proof -
  have "k \<notin> set (drop n (remove1 k l))" for n
    using assms(1) set_remove1_eq [OF assms(1), of k] by (auto dest: in_set_dropD)
  then show ?thesis using assms(2) by (simp add: lru_next_last remove1_append)
qed

lemma store_set_lruOrder:
  assumes inv: "store_inv s"
  shows "lruOrder (snd (store_set now k version val s)) = lru_next (maxResources s) k (lruOrder s)"
proof (cases "set_skips k version s")
  case True
  then have "k \<in> set (lruOrder s)"
    using inv store_ok_key(1) [of s k] by (auto simp: set_skips_def store_inv_def jm_has_iff)
  then have "length (remove1 k (lruOrder s) @ [k]) \<le> maxResources s"
    using store_inv_lru_length [OF inv] length_pos_if_in_set [of k "lruOrder s"]
    by (simp add: length_remove1)
  with True inv show ?thesis
    using remove1_getStateSnapshot [of s k]
    by (simp add: store_set_eq lru_next_def store_inv_def)
next
  case False
  have ok: "store_ok s" and cap: "0 < maxResources s" and d: "distinct (lruOrder s)"
    using inv store_inv_cap_pos by (auto simp: store_inv_def store_ok_def store_struct_def)
  let ?w = "set_written now k version val s"
  let ?u = "snd (updateStateSnapshot k Ready None False ?w)"
  note pre = set_written_pre [OF ok, of k now version val]
  have rw: "remove1 k (lruOrder ?w) = remove1 k (lruOrder s)"
    using remove1_getStateSnapshot [OF ok, of k] by simp
  have "jm_get (records ?u) k \<noteq> None"
    using updateStateSnapshot_key(1) [OF pre] by (simp add: jmap_simps)
  then have t_ok: "store_ok (touchLru k ?u)"
    using updateStateSnapshot_ok [OF pre] by (intro store_ok_touchLru) (auto simp: jm_has_iff)
  have "remove1 k (lruOrder ?u) @ [k] = remove1 k (lruOrder s) @ [k] \<or>
      lruOrder ?u = lru_next (maxResources s) k (lruOrder s)"
  proof (rule updateStateSnapshot_cases [OF pre])
    assume "updateStateSnapshot k Ready None False ?w = (False, ?w)"
    then show ?thesis by (simp add: remove1_getStateSnapshot [OF ok])
  next
    assume "updateStateSnapshot k Ready None False ?w = (True, evictIfNeeded (upd_written k Ready None False ?w))"
    then show ?thesis
      using evictIfNeeded_lruOrder [OF upd_written_ok [OF pre]] rw by (simp add: lru_next_def)
  qed simp
  then have "newest (maxResources s) (remove1 k (lruOrder ?u) @ [k])
      = lru_next (maxResources s) k (lruOrder s)"
  proof
    assume "lruOrder ?u = lru_next (maxResources s) k (lruOrder s)"
    then have "remove1 k (lruOrder ?u) @ [k] = lru_next (maxResources s) k (lruOrder s)"
      by (simp only: lru_next_touch [OF d cap])
    then show ?thesis by (simp only: lru_next_def newest_idem)
  qed (simp only: lru_next_def)
  then show ?thesis
    using False evictIfNeeded_lruOrder [OF t_ok] by (simp add: store_set_eq)
qed

section \<open>A batch of writes\<close>

lemma newest_append: "length ys \<le> cap \<Longrightarrow> newest cap (xs @ ys) = newest (cap - length ys) xs @ ys"
  by (simp add: newest_def)

lemma lru_next_protects:
  assumes "k \<notin> set ps" and "length ps < cap"
  shows "\<exists>xs'. lru_next cap k (xs @ ps) = xs' @ ps @ [k]"
proof -
  have "remove1 k (xs @ ps) @ [k] = remove1 k xs @ (ps @ [k])"
    using assms(1) by (simp add: remove1_append remove1_idem)
  then show ?thesis
    using assms(2) newest_append [of "ps @ [k]" cap "remove1 k xs"] by (simp add: lru_next_def)
qed

lemma store_set_records_other:
  assumes inv: "store_inv s" and "k' \<noteq> k"
  shows "jm_get (records (snd (store_set now k version val s))) k' =
    (if k' \<in> set (lruOrder (snd (store_set now k version val s))) then jm_get (records s) k' else None)"
    (is "jm_get (records ?t) k' = _")
proof -
  have ok: "store_ok s" and t_ok: "store_ok ?t"
    using inv store_set_inv [OF inv] by (auto simp: store_inv_def)
  obtain ks ys where ys: "remove1 k (lruOrder s) = ks @ ys" "lruOrder ?t = ys @ [k]"
    and rec: "jm_get (records ?t) k' = (if k' \<in> set ks then None else jm_get (records s) k')"
    using store_set_lru_step [OF ok, of k now version val] assms(2) unfolding lru_step_def by blast
  have "distinct (ks @ ys)"
    using ok ys(1) distinct_remove1 [of "lruOrder s" k] by (simp add: store_ok_def store_struct_def)
  moreover have "jm_get (records s) k' \<noteq> None \<Longrightarrow> k' \<in> set (ks @ ys)"
    using store_ok_key(1) [OF ok, of k'] assms(2) ys(1)
    by (metis in_set_remove1 jm_get_None_iff)
  ultimately show ?thesis
    using rec ys(2) assms(2) by auto
qed

lemma setMany_Cons:
  "snd (setMany now ((k, version, val) # es) s) = snd (setMany now es (snd (store_set now k version val s)))"
  by (simp add: split_beta)

lemma store_set_maxResources [simp]: "maxResources (snd (store_set now k version val s)) = maxResources s"
  by (simp add: store_set_eq)

lemma setMany_protects:
  assumes "store_inv s" and "lruOrder s = xs @ ps" and "distinct (ps @ map fst es)"
    and "length ps + length es \<le> maxResources s" and "k \<in> set ps"
  shows "jm_get (records (snd (setMany now es s))) k = jm_get (records s) k"
  using assms
proof (induction es arbitrary: s xs ps)
  case (Cons e es)
  obtain k' version val where e: "e = (k', version, val)" by (cases e)
  let ?t = "snd (store_set now k' version val s)"
  have inv: "store_inv ?t" using Cons.prems(1) by (rule store_set_inv)
  obtain xs' where lru: "lruOrder ?t = xs' @ (ps @ [k'])"
    using lru_next_protects [of k' ps "maxResources s" xs] Cons.prems
      store_set_lruOrder [OF Cons.prems(1), of now k' version val] by (auto simp: e)
  have "jm_get (records (snd (setMany now es ?t))) k = jm_get (records ?t) k"
    by (rule Cons.IH [OF inv lru]) (use Cons.prems in \<open>auto simp: e\<close>)
  moreover have "jm_get (records ?t) k = jm_get (records s) k"
    using store_set_records_other [OF Cons.prems(1), of k k' now version val] lru Cons.prems(3,5)
    by (auto simp: e)
  ultimately show ?case by (simp add: e setMany_Cons del: setMany.simps)
qed simp

lemma setMany_readable:
  assumes "store_inv s" and "lruOrder s = xs @ ps" and "distinct (ps @ map fst es)"
    and "length ps + length es \<le> maxResources s" and "(k, version, val) \<in> set es"
  shows "\<exists>r. jm_get (records (snd (setMany now es s))) k = Some r \<and> r_version r = version"
  using assms
proof (induction es arbitrary: s xs ps)
  case (Cons e es)
  obtain k' version' val' where e: "e = (k', version', val')" by (cases e)
  let ?t = "snd (store_set now k' version' val' s)"
  have inv: "store_inv ?t" using Cons.prems(1) by (rule store_set_inv)
  have ok: "store_ok s" using Cons.prems(1) by (simp add: store_inv_def)
  obtain xs' where lru: "lruOrder ?t = xs' @ (ps @ [k'])"
    using lru_next_protects [of k' ps "maxResources s" xs] Cons.prems
      store_set_lruOrder [OF Cons.prems(1), of now k' version' val'] by (auto simp: e)
  show ?case
  proof (cases "(k, version, val) = e")
    case True
    have "jm_get (records (snd (setMany now es ?t))) k' = jm_get (records ?t) k'"
      by (rule setMany_protects [OF inv lru]) (use Cons.prems in \<open>auto simp: e\<close>)
    moreover have "\<exists>r. jm_get (records ?t) k' = Some r \<and> r_version r = version'"
      using store_set_key(1) [OF ok, of now k' version' val'] by (auto simp: set_skips_def)
    ultimately show ?thesis using True by (simp add: e setMany_Cons del: setMany.simps)
  next
    case False
    have "\<exists>r. jm_get (records (snd (setMany now es ?t))) k = Some r \<and> r_version r = version"
      by (rule Cons.IH [OF inv lru]) (use Cons.prems False in \<open>auto simp: e\<close>)
    then show ?thesis by (simp add: e setMany_Cons del: setMany.simps)
  qed
qed simp

section \<open>Known versions\<close>

definition advertised_version :: "store \<Rightarrow> rkey \<Rightarrow> jstring option" where
  "advertised_version s k =
     (case jm_get (records s) k of
        None \<Rightarrow> None
      | Some r \<Rightarrow> if r_version r \<noteq> [] \<and> k \<notin> set (staleKeys s) then Some (r_version r) else None)"

lemma export_known_lookup:
  assumes "map_of res (js ''__proto__'') = None"
  shows "map_of (export_known s keys res) k =
    (if k \<in> set keys \<and> k \<noteq> js ''__proto__'' \<and> advertised_version s k \<noteq> None
     then advertised_version s k else map_of res k)"
  using assms
proof (induction keys arbitrary: res)
  case (Cons key keys)
  let ?res = "case advertised_version s key of None \<Rightarrow> res | Some v \<Rightarrow> obj_assign key v res"
  have step: "export_known s (key # keys) res = export_known s keys ?res"
    by (simp add: advertised_version_def split: option.split)
  have lookup: "map_of ?res k' = (if k' = key \<and> key \<noteq> js ''__proto__'' \<and> advertised_version s key \<noteq> None
      then advertised_version s key else map_of res k')" for k'
    using Cons.prems
    by (auto simp: obj_assign_def map_of_obj_insert map_of_jm_set map_of_eq_None_iff split: option.split)
  have "map_of ?res (js ''__proto__'') = None"
    using Cons.prems lookup [of "js ''__proto__''"] by auto
  from Cons.IH [OF this] show ?case
    unfolding step lookup by auto
qed simp

lemma length_export_known: "length (export_known s keys res) \<le> length keys + length res"
proof (induction keys arbitrary: res)
  case (Cons key keys)
  have "length (export_known s keys (obj_assign key v res)) \<le> Suc (length keys + length res)" for v
    using Cons [of "obj_assign key v res"] length_obj_assign_le [of key v res] by linarith
  then show ?case
    using Cons [of res] by (auto split: option.split intro: le_SucI)
qed simp

lemma exportKnownVersions_eq:
  "exportKnownVersions limit s = export_known s (rev (newest (export_limit limit) (lruOrder s))) []"
  by (simp add: exportKnownVersions_def newest_def Let_def)

lemma stale_not_exported:
  "isStale k s \<Longrightarrow> map_of (exportKnownVersions limit s) k = None"
  by (simp add: exportKnownVersions_eq export_known_lookup advertised_version_def isStale_def
      split: option.split)

section \<open>Marking a resource\<close>

lemma mark_status_key:
  assumes ok: "store_ok s" and has: "jm_has (records s) k" and "status \<noteq> Missing" and "status \<noteq> Ready"
    and "status = Error \<longleftrightarrow> err \<noteq> None"
  shows "jm_get (records (mark_status status err k s)) k = jm_get (records s) k"
    and "isStale k (mark_status status err k s)"
    and "s_status (snapshot_of k (mark_status status err k s)) = status"
proof -
  note pre = mark_status_pre [OF ok assms(3-5), of k]
  note K = updateStateSnapshot_key [OF pre assms(3)]
  show "jm_get (records (mark_status status err k s)) k = jm_get (records s) k"
    and "isStale k (mark_status status err k s)"
    and "s_status (snapshot_of k (mark_status status err k s)) = status"
    using K has by (auto simp: mark_status_eq Let_def isStale_def snapshot_of_def)
qed

lemma markStale_key:
  assumes ok: "store_ok s" and has: "jm_has (records s) k"
  shows "jm_get (records (markStale k s)) k = jm_get (records s) k"
    and "isStale k (markStale k s)"
    and "s_status (snapshot_of k (markStale k s)) = s_status (snapshot_of k s)"
proof -
  note pre = markStale_pre [OF ok has]
  have nm: "s_status (snapshot_of k s) \<noteq> Missing"
    using store_ok_record_snapshot [OF ok has] by (auto simp: snapshot_ok_def)
  note K = updateStateSnapshot_key [OF pre nm]
  show "jm_get (records (markStale k s)) k = jm_get (records s) k"
    and "isStale k (markStale k s)"
    and "s_status (snapshot_of k (markStale k s)) = s_status (snapshot_of k s)"
    using K has by (auto simp: markStale_eq isStale_def snapshot_of_def)
qed

lemma updateStateSnapshot_no_eviction:
  assumes pre: "upd_pre k status err stale s" and nm: "status \<noteq> Missing"
    and cap: "within_capacity s" and has: "jm_has (stateSnapshots s) k"
  shows "records (snd (updateStateSnapshot k status err stale s)) = records s"
proof (rule updateStateSnapshot_cases [OF pre])
  assume "updateStateSnapshot k status err stale s =
    (True, evictIfNeeded (upd_written k status err stale s))"
  moreover have "within_capacity (upd_written k status err stale s)"
    using cap has by (simp add: within_capacity_def length_jm_set)
  ultimately show ?thesis by (simp add: evictIfNeeded_idle)
qed (use nm in auto)

lemma calls_fold_notify:
  "calls (fold notify ks s) = calls s @ concat (map (\<lambda>k.
     (case jm_get (subscribers s) k of None \<Rightarrow> [] | Some cbs \<Rightarrow> cbs) @ globalSubscribers s) ks)"
  by (induction ks arbitrary: s) (simp_all add: notify_def)

text \<open>What a patch whose loop does not throw leaves behind.\<close>

lemma store_patch_known:
  assumes inv: "store_inv s" and old: "jm_get (records s) k = Some old"
    and val: "apply_patches ref (r_value old) ps = Some val"
  shows "\<exists>t. store_patch now stamp ref k ps s = Some (True, t) \<and>
         records t = jm_set k \<lparr>r_key = k, r_version = r_version old @ js ''_p'' @ stamp,
                               r_value = val, r_updatedAt = now\<rparr> (records s) \<and>
         s_status (snapshot_of k t) = Ready \<and> isStale k t \<and>
         map_of (exportKnownVersions limit t) k = None"
proof -
  have ok: "store_ok s" using inv by (simp add: store_inv_def)
  let ?w = "patch_written now stamp k old val s"
  note pre = patch_written_pre [OF ok old, of now stamp val]
  have "within_capacity ?w" and "jm_has (stateSnapshots ?w) k"
    using inv old store_ok_key(4) [OF ok, of k]
    by (auto simp: store_inv_def within_capacity_def patch_written_def length_jm_set jm_has_iff)
  note same = updateStateSnapshot_no_eviction [OF pre _ this]
  note K = updateStateSnapshot_key [OF pre]
  let ?t = "notify k (touchLru k (snd (updateStateSnapshot k Ready None True ?w)))"
  have "isStale k ?t" using K by (simp add: isStale_def)
  moreover have "store_patch now stamp ref k ps s = Some (True, ?t)"
    using old val by (simp add: store_patch_eq)
  ultimately show ?thesis
    using same K stale_not_exported [of k ?t limit]
    by (intro exI [of _ ?t]) (auto simp: patch_written_def snapshot_of_def)
qed

end
