(* ===== verification/Store_Theorems.thy ===== *)
theory Store_Theorems
  imports Store_Properties
begin

text \<open>
  What the resource store promises, as theorems over the definitions of \<open>Resource_Store\<close>. The
  proofs rest on the invariant, the recency list and the lemmas of \<open>Store_Properties\<close>.
\<close>

section \<open>A concrete store\<close>

text \<open>A store for two resources, empty and after two writes.\<close>

definition sample_store :: store where
  "sample_store = \<lparr>records = [], subscribers = [], globalSubscribers = [], lruOrder = [],
     staleKeys = [], stateSnapshots = [], maxResources = 2, calls = []\<rparr>"

lemma sample_store_new: "new_store (Some (Dec 2 0)) = Inr sample_store"
  by (simp add: new_store_def sample_store_def num_is_integer_def num_finite_def num_val_def
      rat_of_dec_def)

lemma sample_store_inv: "store_inv sample_store"
  by (rule new_store_inv [OF sample_store_new])

definition sample_full :: store where
  "sample_full = snd (setMany 7
     [(js ''a'', js ''v1'', JNum (Dec 1 0)), (js ''b'', js ''v2'', JStr (js ''x''))] sample_store)"

lemma sample_full_inv: "store_inv sample_full"
  unfolding sample_full_def by (rule setMany_inv [OF sample_store_inv])

lemma sample_full_record:
  "jm_get (records sample_full) (js ''a'') =
     Some \<lparr>r_key = js ''a'', r_version = js ''v1'', r_value = JNum (Dec 1 0), r_updatedAt = 7\<rparr>"
  by code_simp

section \<open>Theorems\<close>

text \<open>
  after \<open>set\<close> the resource is ready, not stale and without error, and its record carries the
  version written; when \<open>set\<close> reported a change the record holds the new value and time, and
  otherwise the record is the one it was, which had that version already.
\<close>

lemma store_set_then_read:
  assumes "store_inv s"
  shows "(case store_set now k version val s of (changed, t) \<Rightarrow>
      s_status (snapshot_of k t) = Ready \<and> s_error (snapshot_of k t) = None \<and> \<not> isStale k t \<and>
      (\<exists>r. fst (getRecord k t) = Some r \<and> r_version r = version \<and>
           fst (getSnapshot k t) = r_value r \<and>
           (if changed then r_value r = val \<and> r_updatedAt r = now
            else fst (getRecord k s) = Some r)))"
proof -
  have "store_ok s" using assms by (simp add: store_inv_def)
  note K = store_set_key [OF this, where now = now and k = k and version = version and val = val]
  have "fst (getSnapshot k t) = value_of k t" for t
    by (simp add: getSnapshot_def value_of_def split: option.split)
  with K show ?thesis
    by (auto simp: split_beta isStale_def store_set_changed value_of_def set_skips_def)
qed

text \<open>
  C24: \<open>set\<close> evicts exactly the least recently used keys. The recency list becomes the newest
  \<open>maxResources\<close> keys of the old list with the written key moved to the end, and every other key
  keeps its record exactly if it is still in that list.
\<close>

theorem store_set_evicts_lru:
  assumes "store_inv s"
  shows "let t = snd (store_set now k version val s) in
    lruOrder t = lru_next (maxResources s) k (lruOrder s) \<and>
    (\<forall>k'. k' \<noteq> k \<longrightarrow> jm_get (records t) k' =
      (if k' \<in> set (lruOrder t) then jm_get (records s) k' else None))"
  unfolding Let_def using store_set_lruOrder [OF assms] store_set_records_other [OF assms] by blast

theorem store_set_evicts_lru_witness:
  "lruOrder (snd (store_set 9 (js ''c'') (js ''v3'') JNull sample_full)) = [js ''b'', js ''c''] \<and>
   jm_get (records (snd (store_set 9 (js ''c'') (js ''v3'') JNull sample_full))) (js ''a'') = None"
proof -
  have "lruOrder sample_full = [js ''a'', js ''b'']" and "maxResources sample_full = 2"
    by code_simp+
  then have "lru_next (maxResources sample_full) (js ''c'') (lruOrder sample_full) = [js ''b'', js ''c'']"
    by (simp add: lru_next_def newest_def)
  then show ?thesis
    using store_set_evicts_lru [OF sample_full_inv, of 9 "js ''c''" "js ''v3''" JNull] by (simp add: Let_def)
qed

text \<open>
  A response that fits the capacity is stored completely: after \<open>setMany\<close> on entries with
  distinct keys, at most \<open>maxResources\<close> of them, every entry can be read back with its version.
\<close>

lemma setMany_keeps_all:
  assumes "store_inv s" and "distinct (map fst es)" and "length es \<le> maxResources s"
    and "(k, version, val) \<in> set es"
  shows "\<exists>r. jm_get (records (snd (setMany now es s))) k = Some r \<and> r_version r = version"
  using setMany_readable [of s "lruOrder s" "[]" es k version val now] assms by simp

text \<open>
  stale while revalidating. Announcing, loading, failing or invalidating a resource that has a
  record keeps that record, marks the key stale and keeps its version out of every list of known
  versions.
\<close>

lemma revalidation_keeps_value:
  assumes "store_inv s" and "jm_get (records s) k = Some r"
    and "t \<in> {markPending [k] s, markLoading [k] s, setResourceError k err s, markStale k s}"
  shows "jm_get (records t) k = Some r \<and> isStale k t \<and> map_of (exportKnownVersions limit t) k = None"
proof -
  have ok: "store_ok s" and has: "jm_has (records s) k"
    using assms by (auto simp: store_inv_def jm_has_iff)
  have "jm_get (records t) k = Some r \<and> isStale k t"
    using assms(2,3) mark_status_key [OF ok has] markStale_key [OF ok has]
    by (auto simp: markPending_def markLoading_def setResourceError_def)
  then show ?thesis using stale_not_exported by blast
qed

text \<open>
  The known versions the client sends are exactly the non-empty versions of the records that
  are not stale among the most recently used keys, at most the limit and never more than 100 of
  them. The only key that is never sent is \<open>__proto__\<close>, because assigning it on a plain object
  defines no property.
\<close>

lemma exportKnownVersions_exact:
  "(map_of (exportKnownVersions limit s) k = Some v \<longleftrightarrow>
     k \<in> set (newest (export_limit limit) (lruOrder s)) \<and> k \<noteq> js ''__proto__'' \<and> \<not> isStale k s \<and>
     v \<noteq> [] \<and> (\<exists>r. jm_get (records s) k = Some r \<and> r_version r = v)) \<and>
   length (exportKnownVersions limit s) \<le> export_limit limit \<and> export_limit limit \<le> 100"
proof (intro conjI)
  show "map_of (exportKnownVersions limit s) k = Some v \<longleftrightarrow>
     k \<in> set (newest (export_limit limit) (lruOrder s)) \<and> k \<noteq> js ''__proto__'' \<and> \<not> isStale k s \<and>
     v \<noteq> [] \<and> (\<exists>r. jm_get (records s) k = Some r \<and> r_version r = v)"
    by (auto simp: exportKnownVersions_eq export_known_lookup advertised_version_def isStale_def
        split: option.splits if_splits)
  have "length (newest (export_limit limit) (lruOrder s)) \<le> export_limit limit"
    by (simp add: newest_def)
  then show "length (exportKnownVersions limit s) \<le> export_limit limit"
    using length_export_known [of s "rev (newest (export_limit limit) (lruOrder s))" "[]"]
    by (simp add: exportKnownVersions_eq)
  show "export_limit limit \<le> 100" by (auto simp: export_limit_def nat_le_iff)
qed

text \<open>
  A patch of a resource that is not in the store does nothing; a patch of a stored resource
  whose patch loop does not throw writes the patched value under a version no server sent, keeps
  every other record, leaves the resource ready but stale, and keeps its version out of the known
  versions, so that the next request loads it anew.
\<close>

lemma store_patch_outcome:
  assumes "store_inv s"
  shows "case jm_get (records s) k of
      None \<Rightarrow> store_patch now stamp ref k ps s = Some (False, s)
    | Some old \<Rightarrow>
        (case apply_patches ref (r_value old) ps of
           None \<Rightarrow> store_patch now stamp ref k ps s = None
         | Some val \<Rightarrow>
             (\<exists>t. store_patch now stamp ref k ps s = Some (True, t) \<and>
               records t = jm_set k \<lparr>r_key = k, r_version = r_version old @ js ''_p'' @ stamp,
                                     r_value = val, r_updatedAt = now\<rparr> (records s) \<and>
               s_status (snapshot_of k t) = Ready \<and> isStale k t \<and>
               map_of (exportKnownVersions limit t) k = None))"
  using store_patch_known [OF assms] by (auto simp: store_patch_eq split: option.split)

text \<open>
  Clearing the store forgets every resource, which then reads as missing, is not stale and is
  not advertised, keeps the subscriptions, and calls every subscriber of every key that had a
  record or a loading state.
\<close>

lemma store_clear_forgets:
  "fst (getRecord k (store_clear s)) = None \<and>
   fst (getStateSnapshot k (store_clear s)) = MISSING_RESOURCE_STATE \<and>
   \<not> isStale k (store_clear s) \<and>
   exportKnownVersions limit (store_clear s) = [] \<and>
   subscribers (store_clear s) = subscribers s \<and>
   globalSubscribers (store_clear s) = globalSubscribers s \<and>
   (jm_has (records s) k \<or> jm_has (stateSnapshots s) k \<longrightarrow>
     (\<exists>cbs. jm_get (subscribers s) k = Some cbs \<and> cb \<in> set cbs) \<or> cb \<in> set (globalSubscribers s) \<longrightarrow>
     (\<exists>new. calls (store_clear s) = calls s @ new \<and> cb \<in> set new))"
proof -
  have "\<exists>new. calls (store_clear s) = calls s @ new \<and> cb \<in> set new"
    if "jm_has (records s) k \<or> jm_has (stateSnapshots s) k"
      and "(\<exists>cbs. jm_get (subscribers s) k = Some cbs \<and> cb \<in> set cbs) \<or> cb \<in> set (globalSubscribers s)"
  proof -
    let ?ks = "jset_of (jm_keys (records s) @ jm_keys (stateSnapshots s) @ staleKeys s)"
    let ?f = "\<lambda>k. (case jm_get (subscribers s) k of None \<Rightarrow> [] | Some cbs \<Rightarrow> cbs) @ globalSubscribers s"
    have "k \<in> set ?ks" using that(1) by auto
    moreover have "cb \<in> set (?f k)" using that(2) by auto
    ultimately have "cb \<in> set (concat (map ?f ?ks))" by (rule in_concat_mapI)
    then show ?thesis
      by (intro exI [of _ "concat (map ?f ?ks)"]) (simp add: store_clear_def Let_def calls_fold_notify)
  qed
  then show ?thesis
    by (simp add: isStale_def snapshot_of_def exportKnownVersions_def Let_def)
qed

end
