(* ===== verification/Mutation_Theorems.thy ===== *)
theory Mutation_Theorems
  imports Mutation
begin

text \<open>
  What the patches of a mutation response do to a resource value: which items of a list an item
  patch selects, what the object merge keeps, and how the operations undo each other.
\<close>

section \<open>Lists of identified records\<close>

text \<open>The usual resource list: objects whose own \<open>id\<close> is a string.\<close>

fun item_id :: "jsval \<Rightarrow> jstring option" where
  "item_id (JObj _ fs) = (case map_of fs (js ''id'') of Some (JStr i) \<Rightarrow> Some i | _ \<Rightarrow> None)"
| "item_id _ = None"

definition id_patch :: "patch_op \<Rightarrow> jstring \<Rightarrow> jsval \<Rightarrow> patch" where
  "id_patch opr i v = \<lparr>p_op = opr, p_id = JStr i, p_match = JUndef, p_value = v\<rparr>"

lemma item_id_SomeE:
  assumes "item_id x = Some j"
  obtains r fs where "x = JObj r fs" and "read_prop x (js ''id'') = POwn (JStr j)"
proof (cases x)
  case (JObj r fs)
  then show thesis
    using assms that by (auto simp: read_prop_def obj_read_POwn_iff split: option.splits jsval.splits)
qed (use assms in simp_all)

lemma id_patch_fields [simp]:
  "p_op (id_patch opr i v) = opr" "p_id (id_patch opr i v) = JStr i"
  "p_match (id_patch opr i v) = JUndef" "p_value (id_patch opr i v) = v"
  by (simp_all add: id_patch_def)

lemma matchItem_identified:
  assumes "item_id x = Some j"
  shows "matchItem x (id_patch opr i v) = Some (j = i)"
  using assms by (elim item_id_SomeE) (simp add: matchItem_def prop_value_def Let_def)

lemma identified_items:
  assumes "\<forall>x\<in>set xs. item_id x \<noteq> None"
  shows "filter_items (id_patch opr i v) xs = Some (filter (\<lambda>x. item_id x \<noteq> Some i) xs)"
    and "map_items (id_patch opr i v) xs = Some (map (\<lambda>x. if item_id x = Some i then v else x) xs)"
proof -
  have sel: "matchItem x (id_patch opr i v) = Some (item_id x = Some i)" if "x \<in> set xs" for x
    using that assms matchItem_identified [of x _ opr i v] by (cases "item_id x") auto
  have "filter_items (id_patch opr i v) ys = Some (filter (\<lambda>x. item_id x \<noteq> Some i) ys)"
    and "map_items (id_patch opr i v) ys = Some (map (\<lambda>x. if item_id x = Some i then v else x) ys)"
    if "set ys \<subseteq> set xs" for ys
    using that by (induction ys) (auto simp: sel)
  then show "filter_items (id_patch opr i v) xs = Some (filter (\<lambda>x. item_id x \<noteq> Some i) xs)"
    and "map_items (id_patch opr i v) xs = Some (map (\<lambda>x. if item_id x = Some i then v else x) xs)"
    by blast+
qed

section \<open>Theorems\<close>

text \<open>
  On a list of records with string identities, \<open>replace-item\<close> by identity puts the new value
  at every position of that identity and keeps all others, \<open>remove-item\<close> drops exactly those
  positions, and neither throws.
\<close>

lemma item_patches_exact:
  assumes "\<forall>x\<in>set xs. item_id x \<noteq> None"
  shows "applyPatchToValue ref (JArr r xs) (id_patch ReplaceItem i v) =
      Some (JArr ref (map (\<lambda>x. if item_id x = Some i then v else x) xs)) \<and>
    applyPatchToValue ref (JArr r xs) (id_patch RemoveItem i v) =
      Some (JArr ref (filter (\<lambda>x. item_id x \<noteq> Some i) xs))"
  using identified_items [OF assms] by (simp add: applyPatchToValue_def)

text \<open>
  Removing undoes appending. A record with a fresh identity appended to a list by one patch
  and removed by the next leaves the list as it was, and both patches run without throwing.
\<close>

lemma append_then_remove:
  assumes "\<forall>x\<in>set xs. item_id x \<noteq> None \<and> item_id x \<noteq> Some i" and "item_id v = Some i"
  shows "apply_patches ref (JArr r xs) [id_patch AppendItem i v, id_patch RemoveItem i JUndef] =
    Some (JArr (Suc ref) xs)"
proof -
  have "filter (\<lambda>x. item_id x \<noteq> Some i) (xs @ [v]) = xs"
    using assms by (simp add: filter_id_conv)
  moreover have "\<forall>x\<in>set (xs @ [v]). item_id x \<noteq> None" using assms by auto
  ultimately show ?thesis
    using identified_items(1) [of "xs @ [v]" RemoveItem i JUndef]
    by (simp add: applyPatchToValue_def)
qed

text \<open>
  \<open>merge-object\<close> of two objects has, for every property, the patch's value if the patch has
  that property and the old value otherwise.
\<close>

lemma merge_object_lookup:
  assumes "distinct (map fst gs)" and "p_op p = MergeObject" and "p_value p = JObj r' gs"
  shows "\<exists>hs. applyPatchToValue ref (JObj r fs) p = Some (JObj ref hs) \<and>
    (\<forall>k. map_of hs k = (case map_of gs k of Some v \<Rightarrow> Some v | None \<Rightarrow> map_of fs k))"
  using assms
  by (auto simp: applyPatchToValue_def map_of_obj_spread map_of_rev_distinct split: option.split)

text \<open>
  C25: a patch whose \<open>match\<close> is the empty object selects every object of the list, whatever its
  \<open>id\<close> is: \<open>remove-item\<close> with an identity and \<open>match: {}\<close> empties a list of records, not only
  the position of that identity.
\<close>

theorem empty_match_removes_all:
  assumes "\<forall>x\<in>set xs. item_id x \<noteq> None" and "p_op p = RemoveItem" and "p_id p = JStr i"
    and "p_match p = JObj r' []"
  shows "applyPatchToValue ref (JArr r xs) p = Some (JArr ref [])"
proof -
  have "matchItem x p = Some True" if "item_id x = Some j" for x j
    using that assms by (elim item_id_SomeE) (simp add: matchItem_def prop_value_def Let_def)
  then have sel: "\<forall>x\<in>set xs. matchItem x p = Some True" using assms(1) by auto
  then have "filter_items p xs = Some []" by (induction xs) auto
  with assms(2) show ?thesis by (simp add: applyPatchToValue_def)
qed

theorem empty_match_removes_all_witness:
  "applyPatchToValue 9 (JArr 0 [JObj 1 [(js ''id'', JStr (js ''p''))], JObj 2 [(js ''id'', JStr (js ''q''))]])
     \<lparr>p_op = RemoveItem, p_id = JStr (js ''zzz''), p_match = JObj 4 [], p_value = JUndef\<rparr> = Some (JArr 9 [])"
  by (rule empty_match_removes_all) simp_all

end
