(* ===== verification/Page_Cache.thy ===== *)
theory Page_Cache
  imports Store_Properties
begin

text \<open>
  The page cache (\<open>packages/core/src/cache.ts\<close>): a least-recently-used map from URLs to page
  shells, whose resource values stay in the resource store. A lookup consults the store, and
  consulting a record makes it recently used, so the store is threaded through.
\<close>

section \<open>State\<close>

record cached_page =
  cp_url :: jstring
  cp_component :: jstring
  cp_meta :: "jsval jobj"
  cp_resources :: "jstring jobj"
  cp_resourceKeys :: "rkey list"
  cp_pendingDeferred :: "rkey list"
  cp_liveKeys :: "rkey list"

record cache_manifest =
  cm_resourceKeys :: "rkey list"
  cm_pendingDeferred :: "rkey list"
  cm_liveKeys :: "rkey list option"

record page_cache =
  entries :: "(jstring, cached_page) jmap"
  maxPages :: nat

definition new_page_cache :: "jnum option \<Rightarrow> (error_class, page_cache) result" where
  "new_page_cache maxOption =
     (let m = (case maxOption of None \<Rightarrow> num_of_int 32 | Some n \<Rightarrow> n)
      in if \<not> num_is_integer m \<or> num_val m \<le> 0 then Inl RangeError
         else Inr \<lparr>entries = [], maxPages = nat \<lfloor>num_val m\<rfloor>\<rparr>)"

section \<open>Operations\<close>

definition cached_page_of ::
  "page_descriptor \<Rightarrow> jstring jobj \<Rightarrow> cache_manifest option \<Rightarrow> cached_page" where
  "cached_page_of page resources manifest =
     (let resourceKeys = (case manifest of Some m \<Rightarrow> cm_resourceKeys m | None \<Rightarrow> map fst resources)
      in \<lparr>cp_url = pd_url page,
          cp_component = pd_component page,
          cp_meta = (case pd_meta page of None \<Rightarrow> [] | Some m \<Rightarrow> m),
          cp_resources = resources,
          cp_resourceKeys = resourceKeys,
          cp_pendingDeferred = (case manifest of Some m \<Rightarrow> cm_pendingDeferred m | None \<Rightarrow> []),
          cp_liveKeys =
            jset_of (case manifest of
                Some m \<Rightarrow> (case cm_liveKeys m of Some ks \<Rightarrow> ks | None \<Rightarrow> [])
              | None \<Rightarrow> [])\<rparr>)"

definition cache_set ::
  "page_descriptor \<Rightarrow> jstring jobj \<Rightarrow> cache_manifest option \<Rightarrow> page_cache \<Rightarrow> page_cache" where
  "cache_set page resources manifest c =
     (let entry = cached_page_of page resources manifest;
          c1 = c\<lparr>entries := jm_delete (pd_url page) (entries c)\<rparr>;
          c2 = c1\<lparr>entries := jm_set (pd_url page) entry (entries c1)\<rparr>
      in c2\<lparr>entries := jm_evict (maxPages c2) (entries c2)\<rparr>)"

text \<open>The validation loop of \<open>getValid\<close> over the keys of the page.\<close>

fun all_valid :: "cached_page \<Rightarrow> rkey list \<Rightarrow> store \<Rightarrow> bool \<times> store" where
  "all_valid entry [] s = (True, s)"
| "all_valid entry (key # keys) s =
     (if key \<in> set (cp_pendingDeferred entry) then all_valid entry keys s
      else
        (case obj_read (cp_resources entry) key of
           PMissing \<Rightarrow>
             let (state, s1) = getStateSnapshot key s
             in if s_status state \<noteq> Error then (False, s1) else all_valid entry keys s1
         | version \<Rightarrow>
             let (rec, s1) = getRecord key s
             in if (case rec of None \<Rightarrow> False | Some r \<Rightarrow> version = POwn (r_version r)) \<and>
                   \<not> isStale key s1
                then all_valid entry keys s1
                else (False, s1)))"

definition getValid :: "jstring \<Rightarrow> page_cache \<Rightarrow> store \<Rightarrow> cached_page option \<times> page_cache \<times> store" where
  "getValid url c s =
     (case jm_get (entries c) url of
        None \<Rightarrow> (None, c, s)
      | Some entry \<Rightarrow>
          let (valid, s1) = all_valid entry (cp_resourceKeys entry) s
          in if valid
             then (Some entry, c\<lparr>entries := jm_set url entry (jm_delete url (entries c))\<rparr>, s1)
             else (None, c\<lparr>entries := jm_delete url (entries c)\<rparr>, s1))"

text \<open>
  The loop of \<open>settleResources\<close>: it carries the copied versions and the pending set, and gives
  \<open>None\<close> when it drops the page.
\<close>

fun settle_keys ::
  "cached_page \<Rightarrow> rkey list \<Rightarrow> jstring jobj \<Rightarrow> rkey list \<Rightarrow> store \<Rightarrow>
   (jstring jobj \<times> rkey list) option \<times> store" where
  "settle_keys entry [] versions pending s = (Some (versions, pending), s)"
| "settle_keys entry (key # keys) versions pending s =
     (if key \<notin> set (cp_resourceKeys entry) then settle_keys entry keys versions pending s
      else
        let (state, s1) = getStateSnapshot key s;
            (rec, s2) = getRecord key s1
        in if rec \<noteq> None \<and> s_status state = Ready \<and> \<not> isStale key s2 then
             settle_keys entry keys (obj_assign key (r_version (the rec)) versions)
               (jset_delete key pending) s2
           else if s_status state = Error then
             settle_keys entry keys (obj_delete key versions) (jset_delete key pending) s2
           else if s_status state = Pending \<or> s_status state = Loading then
             settle_keys entry keys versions pending s2
           else (None, s2))"

definition settleResources :: "jstring \<Rightarrow> rkey list \<Rightarrow> page_cache \<Rightarrow> store \<Rightarrow> page_cache \<times> store" where
  "settleResources url keys c s =
     (case jm_get (entries c) url of
        None \<Rightarrow> (c, s)
      | Some entry \<Rightarrow>
          (case settle_keys entry keys (cp_resources entry) (jset_of (cp_pendingDeferred entry)) s of
             (None, s1) \<Rightarrow> (c\<lparr>entries := jm_delete url (entries c)\<rparr>, s1)
           | (Some (versions, pending), s1) \<Rightarrow>
               let updated = entry\<lparr>cp_resources := versions,
                     cp_pendingDeferred := filter (\<lambda>key. key \<in> set pending) (cp_resourceKeys entry)\<rparr>
               in (c\<lparr>entries := jm_set url updated (jm_delete url (entries c))\<rparr>, s1)))"

definition cache_clear :: "page_cache \<Rightarrow> page_cache" where
  "cache_clear c = c\<lparr>entries := []\<rparr>"

section \<open>Reads do not change what the store holds\<close>

definition same_contents :: "store \<Rightarrow> store \<Rightarrow> bool" where
  "same_contents s t \<longleftrightarrow>
     records t = records s \<and> stateSnapshots t = stateSnapshots s \<and> staleKeys t = staleKeys s"

lemma same_contents_refl [simp]: "same_contents s s"
  by (simp add: same_contents_def)

lemma same_contents_trans: "same_contents s t \<Longrightarrow> same_contents t u \<Longrightarrow> same_contents s u"
  by (simp add: same_contents_def)

lemma same_contents_reads [simp]:
  "same_contents s (snd (getRecord k s))" "same_contents s (snd (getStateSnapshot k s))"
  by (simp_all add: same_contents_def)

lemma same_contents_obs:
  assumes "same_contents s t"
  shows "jm_get (records t) k = jm_get (records s) k" and "snapshot_of k t = snapshot_of k s"
    and "isStale k t = isStale k s"
  using assms by (simp_all add: same_contents_def snapshot_of_def isStale_def)

section \<open>When a cached page is valid\<close>

text \<open>
  A key of the page is valid when it is still pending, when the store holds the version the page
  was built with and it is not stale, or when the page has no version for it and the store holds
  an error.
\<close>

definition key_valid :: "cached_page \<Rightarrow> store \<Rightarrow> rkey \<Rightarrow> bool" where
  "key_valid entry s key \<longleftrightarrow>
     key \<in> set (cp_pendingDeferred entry) \<or>
     (case obj_read (cp_resources entry) key of
        POwn version \<Rightarrow>
          (\<exists>r. jm_get (records s) key = Some r \<and> r_version r = version) \<and> \<not> isStale key s
      | PMissing \<Rightarrow> s_status (snapshot_of key s) = Error
      | PInherited \<Rightarrow> False)"

lemma key_valid_cong:
  assumes "same_contents s t"
  shows "key_valid entry t k = key_valid entry s k"
  by (simp add: key_valid_def same_contents_obs [OF assms] split: jprop.split)

text \<open>One round of the loop.\<close>

definition valid_step :: "cached_page \<Rightarrow> rkey \<Rightarrow> store \<Rightarrow> store" where
  "valid_step entry key s =
     (if key \<in> set (cp_pendingDeferred entry) then s
      else if obj_read (cp_resources entry) key = PMissing then snd (getStateSnapshot key s)
      else snd (getRecord key s))"

lemma all_valid_step:
  "all_valid entry (key # keys) s =
     (if key_valid entry s key then all_valid entry keys (valid_step entry key s)
      else (False, valid_step entry key s))"
  by (auto simp: key_valid_def valid_step_def isStale_def split_beta split: jprop.split option.split)

lemma same_contents_valid_step: "same_contents s (valid_step entry key s)"
  by (simp add: valid_step_def)

lemma store_ok_valid_step: "store_inv s \<Longrightarrow> store_inv (valid_step entry key s)"
  by (simp add: valid_step_def store_inv_getStateSnapshot store_inv_getRecord)

lemma all_valid_iff:
  "fst (all_valid entry keys s) \<longleftrightarrow> (\<forall>k\<in>set keys. key_valid entry s k)"
  "same_contents s (snd (all_valid entry keys s))"
  "store_inv s \<Longrightarrow> store_inv (snd (all_valid entry keys s))"
proof (induction keys arbitrary: s)
  case (Cons key keys)
  note V = same_contents_valid_step
  {
    case 1
    show ?case using Cons(1) [of "valid_step entry key s"]
      by (auto simp: all_valid_step key_valid_cong [OF V] simp del: all_valid.simps)
  next
    case 2
    show ?case using same_contents_trans [OF V Cons(2)] V
      by (simp add: all_valid_step del: all_valid.simps)
  next
    case 3
    then show ?case using Cons(3) store_ok_valid_step
      by (simp add: all_valid_step del: all_valid.simps)
  }
qed simp_all

section \<open>The cache contract\<close>

definition cache_ok :: "page_cache \<Rightarrow> bool" where
  "cache_ok c \<longleftrightarrow> jm_wf (entries c) \<and> 0 < maxPages c \<and> length (entries c) \<le> maxPages c \<and>
     (\<forall>url e. jm_get (entries c) url = Some e \<longrightarrow> cp_url e = url)"

lemma cache_set_eq:
  "cache_set page resources manifest c =
     c\<lparr>entries := jm_evict (maxPages c)
         (jm_move_to_end (pd_url page) (cached_page_of page resources manifest) (entries c))\<rparr>"
  by (simp add: cache_set_def Let_def jm_move_to_end_def)

lemma cp_url_cached_page_of [simp]: "cp_url (cached_page_of page resources manifest) = pd_url page"
  by (simp add: cached_page_of_def Let_def)

lemma cache_set_ok: "cache_ok c \<Longrightarrow> cache_ok (cache_set page resources manifest c)"
  unfolding cache_ok_def cache_set_eq
  by (auto simp: length_jm_evict dest!: jm_get_evict_Some [rotated] split: if_splits)
    (auto simp: jmap_simps split: if_splits)

lemma length_jm_move: "jm_wf m \<Longrightarrow> jm_has m k \<Longrightarrow> length (jm_move_to_end k v m) = length m"
  by (cases m) (auto simp: jm_move_to_end_eq length_jm_delete)

lemma cache_move_ok:
  assumes "cache_ok c" and "jm_has (entries c) url" and "cp_url e = url"
  shows "cache_ok (c\<lparr>entries := jm_set url e (jm_delete url (entries c))\<rparr>)"
  using assms length_jm_move [of "entries c" url e]
  by (auto simp: cache_ok_def jm_move_to_end_def jmap_simps split: if_splits)

lemma cache_delete_ok: "cache_ok c \<Longrightarrow> cache_ok (c\<lparr>entries := jm_delete url (entries c)\<rparr>)"
  by (auto simp: cache_ok_def jmap_simps intro: order_trans [OF length_jm_delete_le] split: if_splits)

lemma getValid_ok:
  assumes "cache_ok c"
  shows "cache_ok (fst (snd (getValid url c s)))"
proof (cases "jm_get (entries c) url")
  case (Some e)
  then have "jm_has (entries c) url" and "cp_url e = url"
    using assms by (auto simp: jm_has_iff cache_ok_def)
  with assms Some show ?thesis
    by (simp add: getValid_def Let_def split_beta cache_move_ok cache_delete_ok)
qed (use assms in \<open>simp add: getValid_def\<close>)

lemma settleResources_ok:
  assumes "cache_ok c"
  shows "cache_ok (fst (settleResources url keys c s))"
proof (cases "jm_get (entries c) url")
  case (Some e)
  then have "jm_has (entries c) url" and "cp_url e = url"
    using assms by (auto simp: jm_has_iff cache_ok_def)
  with assms Some show ?thesis
    by (auto simp: settleResources_def Let_def cache_move_ok cache_delete_ok split: prod.split option.split)
qed (use assms in \<open>simp add: settleResources_def\<close>)

lemma cache_clear_ok: "cache_ok c \<Longrightarrow> cache_ok (cache_clear c)"
  by (simp add: cache_ok_def cache_clear_def)

lemma new_page_cache_ok:
  assumes "new_page_cache m = Inr c"
  shows "cache_ok c"
proof -
  let ?m = "case m of None \<Rightarrow> num_of_int 32 | Some n \<Rightarrow> n"
  have m: "num_val ?m = of_int \<lfloor>num_val ?m\<rfloor>" "\<not> num_val ?m \<le> 0"
    and c: "c = \<lparr>entries = [], maxPages = nat \<lfloor>num_val ?m\<rfloor>\<rparr>"
    using assms by (simp_all add: new_page_cache_def num_is_integer_def Let_def split: if_splits)
  have "0 < nat \<lfloor>num_val ?m\<rfloor>" using m by (rule floor_pos_nat)
  then show ?thesis by (simp add: c cache_ok_def)
qed

text \<open>The bounded caches of the client, seen through their entry maps.\<close>

interpretation page_entries: bounded_cache
  "\<lambda>url e m. jm_evict cap (jm_move_to_end url e m)" jm_get length cap
  "\<lambda>m. jm_wf m \<and> 0 < cap" for cap :: nat
proof
  fix m :: "('a, 'b) jmap" and k v assume m: "jm_wf m \<and> 0 < cap"
  show "jm_wf (jm_evict cap (jm_move_to_end k v m)) \<and> 0 < cap" using m by simp
  show "jm_get (jm_evict cap (jm_move_to_end k v m)) k = Some v"
    using m by (intro jm_get_evict_last) simp_all
  show "length (jm_evict cap (jm_move_to_end k v m)) \<le> cap"
    using m by (simp add: length_jm_evict)
next
  fix m :: "('a, 'b) jmap" and k k' v w
  assume "jm_wf m \<and> 0 < cap" and "k' \<noteq> k"
    and "jm_get (jm_evict cap (jm_move_to_end k v m)) k' = Some w"
  then show "jm_get m k' = Some w"
    using jm_get_evict_Some [of "jm_move_to_end k v m" cap k' w] by (simp add: jmap_simps)
qed

end
