(* ===== verification/Cache_Theorems.thy ===== *)
theory Cache_Theorems
  imports Page_Cache Store_Theorems
begin

text \<open>
  What the page cache promises: which lookups it answers, that it stays bounded, and that settling
  deferred resources keeps a page valid.
\<close>

section \<open>Sequences of operations\<close>

text \<open>The lookups and the settlement see some state of the resource store.\<close>

datatype cache_op =
    CacheSet page_descriptor "jstring jobj" "cache_manifest option"
  | CacheGetValid jstring store
  | CacheSettle jstring "rkey list" store
  | CacheClear

fun run_cache_op :: "cache_op \<Rightarrow> page_cache \<Rightarrow> page_cache" where
  "run_cache_op (CacheSet page resources manifest) c = cache_set page resources manifest c"
| "run_cache_op (CacheGetValid url s) c = fst (snd (getValid url c s))"
| "run_cache_op (CacheSettle url keys s) c = fst (settleResources url keys c s)"
| "run_cache_op CacheClear c = cache_clear c"

interpretation cache_sys: invariant_system "\<lambda>c. \<exists>m. new_page_cache m = Inr c" run_cache_op cache_ok
proof
  show "cache_ok c" if "\<exists>m. new_page_cache m = Inr c" for c
    using that by (auto intro: new_page_cache_ok)
  show "cache_ok (run_cache_op opr c)" if "cache_ok c" for c opr
    using that by (cases opr) (auto intro: cache_set_ok getValid_ok settleResources_ok cache_clear_ok)
qed

section \<open>Settling\<close>

text \<open>The two ways in which a resource is settled.\<close>

definition fresh_version :: "store \<Rightarrow> rkey \<Rightarrow> jstring option" where
  "fresh_version s k =
     (case jm_get (records s) k of
        Some r \<Rightarrow> if s_status (snapshot_of k s) = Ready \<and> \<not> isStale k s then Some (r_version r) else None
      | None \<Rightarrow> None)"

definition settled :: "store \<Rightarrow> rkey \<Rightarrow> bool" where
  "settled s k \<longleftrightarrow> fresh_version s k \<noteq> None \<or> s_status (snapshot_of k s) = Error"

lemma settled_cong:
  assumes "same_contents s t"
  shows "fresh_version t k = fresh_version s k" and "settled t k = settled s k"
  by (simp_all add: fresh_version_def settled_def same_contents_obs [OF assms] cong: option.case_cong)

lemma same_contents_settle_reads: "same_contents s (snd (getRecord k (snd (getStateSnapshot k s))))"
  by (rule same_contents_trans) (rule same_contents_reads)+

lemma settle_keys_settled:
  assumes "settled s k" and "k \<in> set (cp_resourceKeys e)"
  shows "settle_keys e (k # keys) versions pending s =
    settle_keys e keys
      (case fresh_version s k of Some v \<Rightarrow> obj_assign k v versions | None \<Rightarrow> obj_delete k versions)
      (jset_delete k pending) (snd (getRecord k (snd (getStateSnapshot k s))))"
  using assms
  by (auto simp: fresh_version_def settled_def split_beta isStale_def Let_def split: option.splits if_splits)

lemma settle_keys_lookup:
  assumes "\<forall>k\<in>set keys. k \<in> set (cp_resourceKeys e) \<longrightarrow> settled s k"
  shows "\<exists>vs' ps' t. settle_keys e keys vs ps s = (Some (vs', ps'), t) \<and> same_contents s t \<and>
    set ps' = set ps - (set keys \<inter> set (cp_resourceKeys e)) \<and>
    (\<forall>k. k \<noteq> js ''__proto__'' \<longrightarrow> map_of vs' k =
      (if k \<in> set keys \<inter> set (cp_resourceKeys e) then fresh_version s k else map_of vs k))"
  using assms
proof (induction keys arbitrary: vs ps s)
  case (Cons key keys)
  show ?case
  proof (cases "key \<in> set (cp_resourceKeys e)")
    case True
    let ?vs = "case fresh_version s key of Some v \<Rightarrow> obj_assign key v vs | None \<Rightarrow> obj_delete key vs"
    let ?t = "snd (getRecord key (snd (getStateSnapshot key s)))"
    note V = settled_cong [OF same_contents_settle_reads]
    have "\<forall>k\<in>set keys. k \<in> set (cp_resourceKeys e) \<longrightarrow> settled ?t k"
      using Cons.prems by (simp add: V)
    from Cons.IH [OF this, of ?vs "jset_delete key ps"] obtain vs' ps' t where
      res: "settle_keys e keys ?vs (jset_delete key ps) ?t = (Some (vs', ps'), t)"
      and same: "same_contents ?t t"
      and ps': "set ps' = set (jset_delete key ps) - (set keys \<inter> set (cp_resourceKeys e))"
      and vs': "\<And>k. k \<noteq> js ''__proto__'' \<Longrightarrow> map_of vs' k =
        (if k \<in> set keys \<inter> set (cp_resourceKeys e) then fresh_version ?t k else map_of ?vs k)"
      by blast
    have lookup: "map_of ?vs k = (if k = key then fresh_version s key else map_of vs k)"
      if "k \<noteq> js ''__proto__''" for k
      using that by (cases "k = key")
        (auto simp: map_of_obj_assign map_of_obj_assign_other obj_delete_def map_of_jm_delete split: option.split)
    have "settle_keys e (key # keys) vs ps s = (Some (vs', ps'), t)"
      using settle_keys_settled [of s key e keys vs ps] Cons.prems True res by simp
    moreover have "same_contents s t"
      by (rule same_contents_trans [OF same_contents_settle_reads same])
    moreover have "set ps' = set ps - (set (key # keys) \<inter> set (cp_resourceKeys e))"
      using ps' True by auto
    ultimately show ?thesis using vs' lookup True by (auto simp: V)
  next
    case False
    then have "settle_keys e (key # keys) vs ps s = settle_keys e keys vs ps s" by simp
    moreover have "set (key # keys) \<inter> set (cp_resourceKeys e) = set keys \<inter> set (cp_resourceKeys e)"
      using False by auto
    ultimately show ?thesis using Cons by simp
  qed
qed simp

section \<open>Theorems\<close>

text \<open>
  C28: a cache lookup is answered exactly when the page is cached and every one of its resources
  is still pending, or held by the store in the version the page was built with and not stale, or,
  when the page was built without a version of it, held by the store as an error (a resource that
  failed after the page had a version of it makes the page invalid). An answer makes the page the most recently used one, a refusal drops it from
  the cache, no other page is affected, and the store keeps its contents.
\<close>

theorem getValid_exact:
  "case getValid url c s of (answer, c', s') \<Rightarrow>
     (\<forall>e. answer = Some e \<longleftrightarrow>
        jm_get (entries c) url = Some e \<and> (\<forall>k\<in>set (cp_resourceKeys e). key_valid e s k)) \<and>
     jm_get (entries c') url = answer \<and>
     (\<forall>u. u \<noteq> url \<longrightarrow> jm_get (entries c') u = jm_get (entries c) u) \<and>
     (answer \<noteq> None \<longrightarrow> fst (last (entries c')) = url) \<and>
     same_contents s s'"
proof (cases "jm_get (entries c) url")
  case (Some e)
  let ?v = "all_valid e (cp_resourceKeys e) s"
  have "last (jm_set url e (jm_delete url (entries c))) = (url, e)"
    using jm_move_to_end_eq [of url e "entries c"] by (simp add: jm_move_to_end_def)
  then show ?thesis
    using Some all_valid_iff(1) [of e "cp_resourceKeys e" s] all_valid_iff(2) [of s e "cp_resourceKeys e"]
    by (cases "fst ?v") (auto simp: getValid_def Let_def split_beta jmap_simps)
qed (simp add: getValid_def)

theorem getValid_exact_witness:
  "fst (getValid (js ''/p'') (cache_set \<lparr>pd_component = js ''P'', pd_url = js ''/p'', pd_meta = None\<rparr>
      [(js ''a'', js ''v1'')] None \<lparr>entries = [], maxPages = 2\<rparr>) sample_full) \<noteq> None"
proof -
  let ?p = "\<lparr>pd_component = js ''P'', pd_url = js ''/p'', pd_meta = None\<rparr>"
  let ?c = "cache_set ?p [(js ''a'', js ''v1'')] None \<lparr>entries = [], maxPages = 2\<rparr>"
  let ?e = "cached_page_of ?p [(js ''a'', js ''v1'')] None"
  have "jm_get (entries ?c) (js ''/p'') = Some ?e" by code_simp
  moreover have "cp_resourceKeys ?e = [js ''a'']" by code_simp
  moreover have "key_valid ?e sample_full (js ''a'')"
  proof -
    have "obj_read (cp_resources ?e) (js ''a'') = POwn (js ''v1'')" by code_simp
    moreover have "\<not> isStale (js ''a'') sample_full" by code_simp
    ultimately show ?thesis by (simp add: key_valid_def sample_full_record)
  qed
  ultimately show ?thesis
    using getValid_exact [where url = "js ''/p''" and c = ?c and s = sample_full] by (auto simp: split_beta)
qed

text \<open>
  Every state the page cache can reach from a constructor call that did not throw holds at
  most \<open>maxPages\<close> pages, one per URL, each under its own URL.
\<close>

lemma cache_reachable_ok: "new_page_cache m = Inr c \<Longrightarrow> cache_ok (fold run_cache_op ops c)"
  by (rule cache_sys.reachable_inv) blast

text \<open>
  Settling the deferred resources of a cached page keeps the page usable. If the resources
  that were loaded are now fresh in the store or have failed, and all other resources of the page
  were valid, then after \<open>settleResources\<close> the lookup is answered by the same shell, in which
  none of the loaded resources is pending any more.
\<close>

lemma settle_then_valid:
  assumes "jm_get (entries c) url = Some e"
    and "\<forall>k\<in>set keys. k \<in> set (cp_resourceKeys e) \<longrightarrow> settled s k"
    and "\<forall>k\<in>set (cp_resourceKeys e). k \<notin> set keys \<longrightarrow> key_valid e s k"
    and "\<forall>k\<in>set (cp_resourceKeys e). k \<notin> set inherited_names"
  shows "case settleResources url keys c s of (c', s') \<Rightarrow>
    \<exists>e'. fst (getValid url c' s') = Some e' \<and> cp_url e' = cp_url e \<and> cp_component e' = cp_component e \<and>
      cp_resourceKeys e' = cp_resourceKeys e \<and>
      (\<forall>k\<in>set keys. k \<notin> set (cp_pendingDeferred e'))"
proof -
  obtain vs ps t where res: "settle_keys e keys (cp_resources e) (jset_of (cp_pendingDeferred e)) s =
        (Some (vs, ps), t)" and same: "same_contents s t"
    and ps: "set ps = set (jset_of (cp_pendingDeferred e)) - (set keys \<inter> set (cp_resourceKeys e))"
    and vs: "\<And>k. k \<noteq> js ''__proto__'' \<Longrightarrow> map_of vs k =
      (if k \<in> set keys \<inter> set (cp_resourceKeys e) then fresh_version s k else map_of (cp_resources e) k)"
    using settle_keys_lookup [OF assms(2)] by blast
  define e' where "e' = e\<lparr>cp_resources := vs,
    cp_pendingDeferred := filter (\<lambda>key. key \<in> set ps) (cp_resourceKeys e)\<rparr>"
  have settle: "settleResources url keys c s =
      (c\<lparr>entries := jm_set url e' (jm_delete url (entries c))\<rparr>, t)"
    using assms(1) res by (simp add: settleResources_def e'_def)
  have valid: "key_valid e' t k" if k: "k \<in> set (cp_resourceKeys e)" for k
  proof -
    have k': "k \<notin> set inherited_names" "k \<noteq> js ''__proto__''"
      using assms(4) k by (auto simp: inherited_names_def)
    have "key_valid e' s k"
    proof (cases "k \<in> set keys")
      case True
      then have "settled s k" using assms(2) k by blast
      then show ?thesis
        using k' k True vs [OF k'(2)]
        by (auto simp: key_valid_def e'_def obj_read_def settled_def
            fresh_version_def split: option.splits if_splits)
    next
      case False
      then have "key_valid e s k" using assms(3) k by blast
      then show ?thesis
        using k' k False vs [OF k'(2)] ps
        by (auto simp: key_valid_def e'_def obj_read_def)
    qed
    then show ?thesis by (simp add: key_valid_cong [OF same])
  qed
  have "fst (getValid url (c\<lparr>entries := jm_set url e' (jm_delete url (entries c))\<rparr>) t) = Some e'"
    using valid all_valid_iff(1) [of e' "cp_resourceKeys e'" t]
    by (simp add: getValid_def jmap_simps Let_def split_beta e'_def)
  moreover have "\<forall>k\<in>set keys. k \<notin> set (cp_pendingDeferred e')"
    using ps by (auto simp: e'_def)
  ultimately show ?thesis by (auto simp: settle e'_def)
qed

end
