(* ===== verification/Resource_Epochs.thy ===== *)
theory Resource_Epochs
  imports Resource_Store
begin

text \<open>
  The bounded race history of the router (\<open>packages/core/src/resource-epochs.ts\<close>): the epoch of
  the last request that wrote a resource, and of the last authoritative one. Entries beyond the
  bound are forgotten into two watermarks, which then stand for every key the map does not hold.
\<close>

section \<open>State and operations\<close>

record resource_epoch =
  re_epoch :: nat
  re_authoritativeEpoch :: nat
  re_conservative :: bool

record epoch_map =
  em_entries :: "(rkey, resource_epoch) jmap"
  evictedEpoch :: nat
  evictedAuthoritativeEpoch :: nat

definition MAX_RESOURCE_EPOCH_ENTRIES :: nat where
  "MAX_RESOURCE_EPOCH_ENTRIES = 1024"

definition new_epoch_map :: epoch_map where
  "new_epoch_map = \<lparr>em_entries = [], evictedEpoch = 0, evictedAuthoritativeEpoch = 0\<rparr>"

definition epoch_get :: "rkey \<Rightarrow> epoch_map \<Rightarrow> resource_epoch option" where
  "epoch_get key m =
     (case jm_get (em_entries m) key of
        Some v \<Rightarrow> Some v
      | None \<Rightarrow>
          if evictedEpoch m = 0 then None
          else Some \<lparr>re_epoch = evictedEpoch m,
                     re_authoritativeEpoch = evictedAuthoritativeEpoch m,
                     re_conservative = True\<rparr>)"

text \<open>The eviction loop of \<open>set\<close>.\<close>

function epoch_evict :: "epoch_map \<Rightarrow> epoch_map" where
  "epoch_evict m =
     (if length (em_entries m) > MAX_RESOURCE_EPOCH_ENTRIES then
        (case em_entries m of
           [] \<Rightarrow> m
         | (oldest, evicted) # _ \<Rightarrow>
             epoch_evict
               \<lparr>em_entries = jm_delete oldest (em_entries m),
                evictedEpoch = max (evictedEpoch m) (re_epoch evicted),
                evictedAuthoritativeEpoch =
                  max (evictedAuthoritativeEpoch m) (re_authoritativeEpoch evicted)\<rparr>)
      else m)"
  by pat_completeness auto
termination
  by (relation "measure (\<lambda>m. length (em_entries m))")
    (auto simp: jm_delete_def intro: le_imp_less_Suc)

declare epoch_evict.simps [simp del]

definition epoch_set :: "rkey \<Rightarrow> resource_epoch \<Rightarrow> epoch_map \<Rightarrow> epoch_map" where
  "epoch_set key v m =
     (let m1 = m\<lparr>em_entries := jm_delete key (em_entries m)\<rparr>;
          m2 = m1\<lparr>em_entries := jm_set key v (em_entries m1)\<rparr>
      in epoch_evict m2)"

definition epoch_clear :: "epoch_map \<Rightarrow> epoch_map" where
  "epoch_clear m = \<lparr>em_entries = [], evictedEpoch = 0, evictedAuthoritativeEpoch = 0\<rparr>"

section \<open>The eviction\<close>

definition epochs_ok :: "epoch_map \<Rightarrow> bool" where
  "epochs_ok m \<longleftrightarrow> jm_wf (em_entries m) \<and> length (em_entries m) \<le> MAX_RESOURCE_EPOCH_ENTRIES"

text \<open>
  \<open>covers m v k\<close>: the map still answers for \<open>k\<close> with epochs at least as high as \<open>v\<close>.
\<close>

definition covers :: "epoch_map \<Rightarrow> rkey \<Rightarrow> resource_epoch \<Rightarrow> bool" where
  "covers m k v \<longleftrightarrow>
     jm_get (em_entries m) k = Some v \<or>
     (jm_get (em_entries m) k = None \<and> re_epoch v \<le> evictedEpoch m \<and>
      re_authoritativeEpoch v \<le> evictedAuthoritativeEpoch m)"

lemma epoch_evict_entries:
  "jm_wf (em_entries m) \<Longrightarrow>
   em_entries (epoch_evict m) = jm_evict MAX_RESOURCE_EPOCH_ENTRIES (em_entries m)"
proof (induction m rule: epoch_evict.induct)
  case (1 m)
  then show ?case
    by (auto simp: epoch_evict.simps [of m] jm_evict.simps [of _ "em_entries m"] split: list.split)
qed

lemma epoch_evict_covers:
  "jm_wf (em_entries m) \<Longrightarrow> covers m k v \<Longrightarrow> covers (epoch_evict m) k v"
proof (induction m rule: epoch_evict.induct)
  case (1 m)
  show ?case
  proof (cases "length (em_entries m) > MAX_RESOURCE_EPOCH_ENTRIES")
    case True
    then obtain oldest evicted rest where m: "em_entries m = (oldest, evicted) # rest"
      by (cases "em_entries m") auto
    let ?m = "\<lparr>em_entries = jm_delete oldest (em_entries m),
                evictedEpoch = max (evictedEpoch m) (re_epoch evicted),
                evictedAuthoritativeEpoch =
                  max (evictedAuthoritativeEpoch m) (re_authoritativeEpoch evicted)\<rparr>"
    have "covers ?m k v"
      using "1.prems"(2) by (auto simp: covers_def jmap_simps m jm_get_Cons split: if_splits)
    then have "covers (epoch_evict ?m) k v"
      using "1.IH" [OF True m refl] "1.prems"(1) by simp
    with True m show ?thesis by (simp add: epoch_evict.simps [of m])
  next
    case False
    with "1.prems" show ?thesis by (simp add: epoch_evict.simps [of m])
  qed
qed

lemma epoch_evict_watermarks:
  "evictedEpoch m \<le> evictedEpoch (epoch_evict m) \<and>
   evictedAuthoritativeEpoch m \<le> evictedAuthoritativeEpoch (epoch_evict m)"
proof (induction m rule: epoch_evict.induct)
  case (1 m)
  show ?case
  proof (cases "length (em_entries m) > MAX_RESOURCE_EPOCH_ENTRIES")
    case True
    then obtain oldest evicted rest where m: "em_entries m = (oldest, evicted) # rest"
      by (cases "em_entries m") auto
    with True "1.IH" [OF True m refl] show ?thesis by (simp add: epoch_evict.simps [of m])
  qed (simp add: epoch_evict.simps [of m])
qed

lemma epoch_set_entries:
  "jm_wf (em_entries m) \<Longrightarrow>
   em_entries (epoch_set k v m) =
     jm_evict MAX_RESOURCE_EPOCH_ENTRIES (jm_move_to_end k v (em_entries m))"
  by (simp add: epoch_set_def Let_def epoch_evict_entries jm_move_to_end_def)

lemma epoch_set_ok: "epochs_ok m \<Longrightarrow> epochs_ok (epoch_set k v m)"
  by (simp add: epochs_ok_def epoch_set_entries length_jm_evict)

lemma epoch_get_set: "epochs_ok m \<Longrightarrow> epoch_get k (epoch_set k v m) = Some v"
  by (simp add: epoch_get_def epochs_ok_def epoch_set_entries jm_get_evict_last
      MAX_RESOURCE_EPOCH_ENTRIES_def)

lemma epoch_set_covers:
  assumes ok: "epochs_ok m" and "k' \<noteq> k" and "covers m k' v'"
  shows "covers (epoch_set k v m) k' v'"
proof -
  have "covers (m\<lparr>em_entries := jm_set k v (jm_delete k (em_entries m))\<rparr>) k' v'"
    using assms(2,3) by (simp add: covers_def jmap_simps)
  with ok show ?thesis
    by (simp add: epoch_set_def Let_def epochs_ok_def epoch_evict_covers)
qed

lemma epoch_set_covers_self: "epochs_ok m \<Longrightarrow> covers (epoch_set k v m) k v"
  using jm_get_evict_last [of "em_entries m" MAX_RESOURCE_EPOCH_ENTRIES k v]
  by (simp add: covers_def epochs_ok_def epoch_set_entries MAX_RESOURCE_EPOCH_ENTRIES_def)

lemma covers_get:
  assumes "covers m k v" and "0 < re_epoch v"
  shows "\<exists>w. epoch_get k m = Some w \<and> re_epoch v \<le> re_epoch w \<and>
    re_authoritativeEpoch v \<le> re_authoritativeEpoch w \<and> (\<not> re_conservative w \<longrightarrow> w = v)"
  using assms by (auto simp: covers_def epoch_get_def)

text \<open>A sequence of writes, with the ideal unbounded history beside it.\<close>

definition epoch_sets :: "(rkey \<times> resource_epoch) list \<Rightarrow> epoch_map \<Rightarrow> epoch_map" where
  "epoch_sets ws m = fold (\<lambda>(k, v). epoch_set k v) ws m"

lemma epoch_sets_covers:
  assumes "epochs_ok m" and "map_of (rev ws) k = Some v"
  shows "epochs_ok (epoch_sets ws m) \<and> covers (epoch_sets ws m) k v"
  using assms
proof (induction ws arbitrary: v rule: rev_induct)
  case (snoc w ws)
  obtain k' v' where w: "w = (k', v')" by (cases w)
  have step: "epoch_sets (ws @ [w]) m = epoch_set k' v' (epoch_sets ws m)"
    by (simp add: epoch_sets_def w)
  have ok: "epochs_ok (epoch_sets ws m)"
    using snoc.prems(1) unfolding epoch_sets_def
    by (induction ws arbitrary: m) (auto intro: epoch_set_ok)
  show ?case
  proof (cases "k = k'")
    case True
    with snoc.prems w show ?thesis
      unfolding step by (simp add: epoch_set_ok [OF ok] epoch_set_covers_self [OF ok])
  next
    case False
    then have "covers (epoch_sets ws m) k v"
      using snoc.IH [OF snoc.prems(1)] snoc.prems(2) by (simp add: w)
    with False show ?thesis
      unfolding step by (simp add: epoch_set_ok [OF ok] epoch_set_covers [OF ok])
  qed
qed simp

section \<open>Theorems\<close>

text \<open>
  C29: the bounded history never forgets authority. After any sequence of writes, a key that was
  ever written with a positive epoch is answered with epochs at least as high as those of its last
  write, and unless the answer is marked conservative it is exactly the last write. At most 1024
  keys are held.
\<close>

theorem epochs_never_forget:
  assumes "map_of (rev ws) k = Some v" and "0 < re_epoch v"
  shows "\<exists>w. epoch_get k (epoch_sets ws new_epoch_map) = Some w \<and> re_epoch v \<le> re_epoch w \<and>
      re_authoritativeEpoch v \<le> re_authoritativeEpoch w \<and> (\<not> re_conservative w \<longrightarrow> w = v) \<and>
      length (em_entries (epoch_sets ws new_epoch_map)) \<le> 1024"
proof -
  have "epochs_ok new_epoch_map" by (simp add: epochs_ok_def new_epoch_map_def)
  from epoch_sets_covers [OF this assms(1)] show ?thesis
    using covers_get [OF _ assms(2)] by (auto simp: epochs_ok_def MAX_RESOURCE_EPOCH_ENTRIES_def)
qed

theorem epochs_never_forget_witness:
  "\<exists>w. epoch_get (js ''a'') (epoch_sets [(js ''a'', \<lparr>re_epoch = 3, re_authoritativeEpoch = 2,
      re_conservative = False\<rparr>)] new_epoch_map) = Some w \<and> 3 \<le> re_epoch w"
  using epochs_never_forget [of "[(js ''a'', \<lparr>re_epoch = 3, re_authoritativeEpoch = 2,
      re_conservative = False\<rparr>)]" "js ''a''" "\<lparr>re_epoch = 3, re_authoritativeEpoch = 2,
      re_conservative = False\<rparr>"] by auto

end
