(* ===== verification/Protocol.thy ===== *)
theory Protocol
  imports Resource_Store
begin

text \<open>
  The envelopes of the wire protocol (\<open>packages/core/src/protocol.ts\<close>), as the client holds them
  after validation. An envelope carries the identity of its allocation: the prefetch policy keeps
  sets of envelopes.
\<close>

definition PROTOCOL_VERSION :: jstring where
  "PROTOCOL_VERSION = js ''fluxfast/1''"

definition PROTOCOL_MEDIA_TYPE :: jstring where
  "PROTOCOL_MEDIA_TYPE = js ''application/vnd.fluxfast+json''"

record wire_record =
  w_version :: jstring
  w_value :: jsval

record page_envelope =
  env_ref :: nat
  env_page :: page_descriptor
  env_resources :: "wire_record jobj"
  env_resourceKeys :: "rkey list option"
  env_deferred :: "rkey list option"
  env_live :: "rkey list option"
  env_resourceErrors :: "error_detail jobj option"
  env_appVersion :: "jstring option"

record mutation_payload =
  mp_patches :: "patch list jobj option"
  mp_invalidate :: "rkey list option"
  mp_redirect :: "jstring option"
  mp_externalRedirect :: "jstring option"

end
