(* ===== verification/Json_Text.thy ===== *)
theory Json_Text
  imports Js_Value "HOL-Library.Multiset"
begin

text \<open>
  The text \<open>JSON.stringify\<close> writes, for the values the client serialises: strings with the
  escapes of the language (control characters and unpaired surrogates as \<open>\u\<close> escapes), numbers,
  arrays and objects. The texts are used as map keys and header values, so what matters is that
  distinct strings have distinct texts.
\<close>

section \<open>Strings\<close>

definition hex_digit :: "nat \<Rightarrow> 16 word" where
  "hex_digit n = of_nat (if n < 10 then 48 + n else 87 + n)"

definition hex4 :: "16 word \<Rightarrow> jstring" where
  "hex4 c = (let n = unat c in
     [hex_digit (n div 4096), hex_digit (n div 256 mod 16), hex_digit (n div 16 mod 16),
      hex_digit (n mod 16)])"

definition high_surrogate :: "16 word \<Rightarrow> bool" where
  "high_surrogate c \<longleftrightarrow> 0xD800 \<le> c \<and> c \<le> 0xDBFF"

definition low_surrogate :: "16 word \<Rightarrow> bool" where
  "low_surrogate c \<longleftrightarrow> 0xDC00 \<le> c \<and> c \<le> 0xDFFF"

text \<open>The escape of one code unit that is not part of a surrogate pair.\<close>

definition json_escape :: "16 word \<Rightarrow> jstring" where
  "json_escape c =
     (if c = 0x22 then [0x5C, 0x22]
      else if c = 0x5C then [0x5C, 0x5C]
      else if c = 0x08 then [0x5C, 0x62]
      else if c = 0x0C then [0x5C, 0x66]
      else if c = 0x0A then [0x5C, 0x6E]
      else if c = 0x0D then [0x5C, 0x72]
      else if c = 0x09 then [0x5C, 0x74]
      else if c < 0x20 \<or> high_surrogate c \<or> low_surrogate c then [0x5C, 0x75] @ hex4 c
      else [c])"

fun json_escapes :: "jstring \<Rightarrow> jstring" where
  "json_escapes [] = []"
| "json_escapes [c] = json_escape c"
| "json_escapes (c # d # s) =
     (if high_surrogate c \<and> low_surrogate d then c # d # json_escapes s
      else json_escape c @ json_escapes (d # s))"

definition json_quote :: "jstring \<Rightarrow> jstring" where
  "json_quote s = [0x22] @ json_escapes s @ [0x22]"

section \<open>Values\<close>

text \<open>
  \<open>undefined\<close> has no text: it is left out of an object and written as \<open>null\<close> in an array.
\<close>

fun json_text :: "jsval \<Rightarrow> jstring option" where
  "json_text JUndef = None"
| "json_text JNull = Some (js ''null'')"
| "json_text (JBool b) = Some (if b then js ''true'' else js ''false'')"
| "json_text (JNum n) = Some (if num_finite n then num_string n else js ''null'')"
| "json_text (JStr s) = Some (json_quote s)"
| "json_text (JArr _ xs) =
     Some (js ''['' @ join_with (js '','')
       (map (\<lambda>x. case json_text x of None \<Rightarrow> js ''null'' | Some t \<Rightarrow> t) xs) @ js '']'')"
| "json_text (JObj _ fs) =
     Some (js ''{'' @ join_with (js '','')
       (concat (map (\<lambda>(k, v). case json_text v of
                        None \<Rightarrow> [] | Some t \<Rightarrow> [json_quote k @ js '':'' @ t]) fs)) @ js ''}'')"

section \<open>A quoted string determines the string\<close>

text \<open>Reading one code unit back from an escaped text.\<close>

definition unhex :: "16 word \<Rightarrow> nat" where
  "unhex c = (if unat c < 58 then unat c - 48 else unat c - 87)"

fun json_read1 :: "jstring \<Rightarrow> (16 word \<times> jstring) option" where
  "json_read1 [] = None"
| "json_read1 (c # s) =
     (if c = 0x5C then
        (case s of
           [] \<Rightarrow> None
         | d # s' \<Rightarrow>
             if d = 0x62 then Some (0x08, s')
             else if d = 0x66 then Some (0x0C, s')
             else if d = 0x6E then Some (0x0A, s')
             else if d = 0x72 then Some (0x0D, s')
             else if d = 0x74 then Some (0x09, s')
             else if d = 0x75 then
               (case s' of
                  w # x # y # z # s'' \<Rightarrow>
                    Some (of_nat (4096 * unhex w + 256 * unhex x + 16 * unhex y + unhex z), s'')
                | _ \<Rightarrow> None)
             else Some (d, s'))
      else if c = 0x22 then None
      else Some (c, s))"

lemma unhex_hex_digit: "n < 16 \<Longrightarrow> unhex (hex_digit n) = n"
  by (auto simp: hex_digit_def unhex_def unat_of_nat)

lemma unhex_hex4:
  "case hex4 c of [w, x, y, z] \<Rightarrow>
     of_nat (4096 * unhex w + 256 * unhex x + 16 * unhex y + unhex z) = c"
proof -
  let ?n = "unat c"
  have lt: "?n < 65536" using unsigned_less [of c, where 'a = nat] by simp
  have "?n div 4096 < 16" using lt by (simp add: less_mult_imp_div_less)
  moreover have "4096 * (?n div 4096) + 256 * (?n div 256 mod 16) + 16 * (?n div 16 mod 16) + ?n mod 16 = ?n"
  proof -
    have "?n = 16 * (?n div 16) + ?n mod 16" by simp
    moreover have "?n div 16 = 16 * (?n div 256) + ?n div 16 mod 16"
      using mult_div_mod_eq [of 16 "?n div 16"] by (simp add: div_mult2_eq [symmetric])
    moreover have "?n div 256 = 16 * (?n div 4096) + ?n div 256 mod 16"
      using mult_div_mod_eq [of 16 "?n div 256"] by (simp add: div_mult2_eq [symmetric])
    ultimately show ?thesis by linarith
  qed
  ultimately show ?thesis
    by (simp add: hex4_def Let_def unhex_hex_digit del: of_nat_add of_nat_mult)
qed

lemma json_read1_escape: "json_read1 (json_escape c @ s) = Some (c, s)"
proof -
  obtain w x y z where h: "hex4 c = [w, x, y, z]" by (simp add: hex4_def Let_def)
  with unhex_hex4 [of c] show ?thesis by (auto simp: json_escape_def)
qed

lemma surrogate_plain: "high_surrogate c \<or> low_surrogate c \<Longrightarrow> c \<noteq> 0x5C \<and> c \<noteq> 0x22"
  by (auto simp: high_surrogate_def low_surrogate_def)

lemma json_read1_plain: "high_surrogate c \<or> low_surrogate c \<Longrightarrow> json_read1 (c # s) = Some (c, s)"
  using surrogate_plain by auto

text \<open>
  Reading until the closing quote. Every step shortens the text, so the length of the text is
  fuel enough.
\<close>

fun json_unescape :: "nat \<Rightarrow> jstring \<Rightarrow> (jstring \<times> jstring) option" where
  "json_unescape 0 s = None"
| "json_unescape (Suc n) s =
     (case json_read1 s of
        None \<Rightarrow> (case s of [] \<Rightarrow> None | _ # rest \<Rightarrow> Some ([], rest))
      | Some (c, s') \<Rightarrow> map_option (\<lambda>(t, rest). (c # t, rest)) (json_unescape n s'))"

lemma json_unescape_step:
  "json_read1 s = Some (c, s') \<Longrightarrow>
   json_unescape (Suc n) s = map_option (\<lambda>(t, rest). (c # t, rest)) (json_unescape n s')"
  by simp

lemma json_unescape_escapes:
  "length s < n \<Longrightarrow> json_unescape n (json_escapes s @ 0x22 # rest) = Some (s, rest)"
proof (induction s arbitrary: n rule: json_escapes.induct)
  case 1
  then show ?case by (cases n) auto
next
  case (2 c)
  then obtain m where n: "n = Suc (Suc m)" by (cases n; cases "n - 1") auto
  show ?case
    unfolding n using json_unescape_step [OF json_read1_escape, of "Suc m" c "0x22 # rest"] by simp
next
  case (3 c d s)
  from "3.prems" obtain m where n: "n = Suc m" and m: "length (d # s) < m" by (cases n) auto
  show ?case
  proof (cases "high_surrogate c \<and> low_surrogate d")
    case True
    from m obtain l where m': "m = Suc l" and l: "length s < l" by (cases m) auto
    have "json_unescape (Suc (Suc l)) (c # d # json_escapes s @ 0x22 # rest) = Some (c # d # s, rest)"
      using json_unescape_step [OF json_read1_plain [of c], of "Suc l" "d # json_escapes s @ 0x22 # rest"]
        json_unescape_step [OF json_read1_plain [of d], of l "json_escapes s @ 0x22 # rest"]
        True "3.IH"(1) [OF True l] by simp
    with True show ?thesis by (simp add: n m' del: json_unescape.simps json_read1.simps)
  next
    case False
    have "json_unescape n (json_escape c @ json_escapes (d # s) @ 0x22 # rest) = Some (c # d # s, rest)"
      unfolding n json_unescape_step [OF json_read1_escape] using "3.IH"(2) [OF False m] by simp
    with False show ?thesis by auto
  qed
qed

lemma json_quote_append_inject:
  "json_quote s @ x = json_quote t @ y \<longleftrightarrow> s = t \<and> x = y"
proof
  assume eq: "json_quote s @ x = json_quote t @ y"
  let ?n = "Suc (length s + length t)"
  have "json_unescape ?n (json_escapes s @ 0x22 # x) = json_unescape ?n (json_escapes t @ 0x22 # y)"
    using eq by (simp add: json_quote_def del: json_unescape.simps)
  then show "s = t \<and> x = y"
    by (simp add: json_unescape_escapes del: json_unescape.simps)
qed simp

lemma json_quote_inject [simp]: "json_quote s = json_quote t \<longleftrightarrow> s = t"
  using json_quote_append_inject [of s "[]" t "[]"] by simp

section \<open>Stable sorting by a comparison\<close>

text \<open>
  \<open>Array.prototype.sort\<close> with a comparison function: \<open>le a b\<close> says that the comparison does not
  put \<open>b\<close> before \<open>a\<close>.
\<close>

fun insert_by :: "('a \<Rightarrow> 'a \<Rightarrow> bool) \<Rightarrow> 'a \<Rightarrow> 'a list \<Rightarrow> 'a list" where
  "insert_by le x [] = [x]"
| "insert_by le x (y # ys) = (if le x y then x # y # ys else y # insert_by le x ys)"

definition sort_by :: "('a \<Rightarrow> 'a \<Rightarrow> bool) \<Rightarrow> 'a list \<Rightarrow> 'a list" where
  "sort_by le xs = foldr (insert_by le) xs []"

lemma mset_insert_by [simp]: "mset (insert_by le x ys) = add_mset x (mset ys)"
  by (induction ys) auto

lemma mset_sort_by [simp]: "mset (sort_by le xs) = mset xs"
  by (induction xs) (auto simp: sort_by_def)

lemma set_sort_by [simp]: "set (sort_by le xs) = set xs"
  by (metis mset_sort_by set_mset_mset)

end
