(* ===== verification/Prefetch.thy ===== *)
theory Prefetch
  imports Protocol Json_Text
begin

text \<open>
  Prefetching (\<open>packages/core/src/prefetch.ts\<close> and \<open>prefetch-cache-policy.ts\<close>).

  \<open>PrefetchManager.fetch\<close> is split where it waits: \<open>prefetch_fetch\<close> runs until the request is
  issued, \<open>prefetch_accept\<close> is the handler of its answer and \<open>prefetch_finally\<close> the clean-up that
  follows an answer or a failure. A request is named by a number, which also names its abort
  controller; \<open>aborted\<close> are the controllers that were aborted. \<open>rejected\<close> is the owner's entry of
  the process-wide rejection registry. The order of \<open>localeCompare\<close> depends on the locale of the
  host and is the parameter \<open>le\<close>.
\<close>

section \<open>State\<close>

record prefetch_entry =
  pe_envelope :: page_envelope
  pe_expiresAt :: int
  pe_basedOnVersions :: "jstring jobj"

record prefetch_manager =
  inFlight :: "(jstring, nat) jmap"
  controllers :: "(jstring, nat) jmap"
  pf_cache :: "(jstring, prefetch_entry) jmap"
  pf_generation :: nat
  rejected :: "nat list option"
  aborted :: "nat list"
  next_request :: nat

record prefetch_request =
  rq_id :: nat
  rq_url :: jstring
  rq_fingerprint :: jstring
  rq_knownVersions :: "jstring jobj"
  rq_ttlMs :: int
  rq_generation :: nat

definition MAX_PREFETCH_ENTRIES :: nat where
  "MAX_PREFETCH_ENTRIES = 32"

definition new_prefetch_manager :: prefetch_manager where
  "new_prefetch_manager = \<lparr>inFlight = [], controllers = [], pf_cache = [], pf_generation = 0,
     rejected = None, aborted = [], next_request = 0\<rparr>"

section \<open>The rejection registry\<close>

definition rejectPrefetchEnvelope :: "page_envelope \<Rightarrow> prefetch_manager \<Rightarrow> prefetch_manager" where
  "rejectPrefetchEnvelope envelope pm =
     (let envelopes = (case rejected pm of None \<Rightarrow> [] | Some es \<Rightarrow> es)
      in pm\<lparr>rejected := Some (jset_add (env_ref envelope) envelopes)\<rparr>)"

definition isRejectedPrefetchEnvelope :: "page_envelope \<Rightarrow> prefetch_manager \<Rightarrow> bool" where
  "isRejectedPrefetchEnvelope envelope pm =
     (case rejected pm of None \<Rightarrow> False | Some es \<Rightarrow> env_ref envelope \<in> set es)"

definition acceptPrefetchEnvelope :: "page_envelope \<Rightarrow> prefetch_manager \<Rightarrow> prefetch_manager" where
  "acceptPrefetchEnvelope envelope pm =
     (case rejected pm of
        None \<Rightarrow> pm
      | Some es \<Rightarrow> pm\<lparr>rejected := Some (jset_delete (env_ref envelope) es)\<rparr>)"

definition clearPrefetchRejections :: "prefetch_manager \<Rightarrow> prefetch_manager" where
  "clearPrefetchRejections pm = pm\<lparr>rejected := None\<rparr>"

section \<open>Helpers\<close>

definition fingerprint :: "(jstring \<Rightarrow> jstring \<Rightarrow> bool) \<Rightarrow> jstring \<Rightarrow> jstring jobj \<Rightarrow> jstring" where
  "fingerprint le url knownVersions =
     (let versions = sort_by (\<lambda>a b. le (fst a) (fst b)) knownVersions
      in the (json_text (JArr 0
           [JStr url, JArr 0 (map (\<lambda>(k, v). JArr 0 [JStr k, JStr v]) versions)])))"

definition versionsStillAvailable :: "jstring jobj \<Rightarrow> jstring jobj \<Rightarrow> page_envelope \<Rightarrow> bool" where
  "versionsStillAvailable basedOn current envelope \<longleftrightarrow>
     list_all (\<lambda>(key, version).
       let expected = (case obj_read (env_resources envelope) key of
                         POwn rec \<Rightarrow> w_version rec | _ \<Rightarrow> version)
       in obj_read current key = POwn expected) basedOn \<and>
     list_all (\<lambda>(key, rec).
       obj_read current key = PMissing \<or> obj_read current key = POwn (w_version rec))
       (env_resources envelope)"

definition evictOldest :: "prefetch_manager \<Rightarrow> prefetch_manager" where
  "evictOldest pm = pm\<lparr>pf_cache := jm_evict MAX_PREFETCH_ENTRIES (pf_cache pm)\<rparr>"

definition pruneExpired :: "int \<Rightarrow> prefetch_manager \<Rightarrow> prefetch_manager" where
  "pruneExpired now pm = pm\<lparr>pf_cache := filter (\<lambda>(url, e). \<not> now \<ge> pe_expiresAt e) (pf_cache pm)\<rparr>"

function evictInFlight :: "prefetch_manager \<Rightarrow> prefetch_manager" where
  "evictInFlight pm =
     (if length (inFlight pm) > MAX_PREFETCH_ENTRIES then
        (case inFlight pm of
           [] \<Rightarrow> pm
         | (oldest, _) # _ \<Rightarrow>
             evictInFlight (pm\<lparr>
               aborted := (case jm_get (controllers pm) oldest of
                             None \<Rightarrow> aborted pm | Some c \<Rightarrow> jset_add c (aborted pm)),
               controllers := jm_delete oldest (controllers pm),
               inFlight := jm_delete oldest (inFlight pm)\<rparr>))
      else pm)"
  by pat_completeness auto
termination
  by (relation "measure (\<lambda>pm. length (inFlight pm))")
    (auto simp: jm_delete_def intro: le_imp_less_Suc)

declare evictInFlight.simps [simp del]

section \<open>Operations\<close>

definition prefetch_getCached ::
  "int \<Rightarrow> jstring \<Rightarrow> jstring jobj \<Rightarrow> prefetch_manager \<Rightarrow> page_envelope option \<times> prefetch_manager" where
  "prefetch_getCached now url currentVersions pm =
     (case jm_get (pf_cache pm) url of
        None \<Rightarrow> (None, pm)
      | Some entry \<Rightarrow>
          let pm1 = pm\<lparr>pf_cache := jm_delete url (pf_cache pm)\<rparr>
          in if isRejectedPrefetchEnvelope (pe_envelope entry) pm \<or> now \<ge> pe_expiresAt entry \<or>
                \<not> versionsStillAvailable (pe_basedOnVersions entry) currentVersions (pe_envelope entry)
             then (None, pm1)
             else (Some (pe_envelope entry), pm1\<lparr>pf_cache := jm_set url entry (pf_cache pm1)\<rparr>))"

definition prefetch_getPending ::
  "(jstring \<Rightarrow> jstring \<Rightarrow> bool) \<Rightarrow> jstring \<Rightarrow> jstring jobj \<Rightarrow> prefetch_manager \<Rightarrow> nat option" where
  "prefetch_getPending le url knownVersions pm = jm_get (inFlight pm) (fingerprint le url knownVersions)"

datatype fetch_outcome =
    FetchCached page_envelope
  | FetchJoined nat
  | FetchStarted prefetch_request

definition prefetch_fetch ::
  "(jstring \<Rightarrow> jstring \<Rightarrow> bool) \<Rightarrow> int \<Rightarrow> jstring \<Rightarrow> jstring jobj \<Rightarrow> int \<Rightarrow> prefetch_manager \<Rightarrow>
   fetch_outcome \<times> prefetch_manager" where
  "prefetch_fetch le now url knownVersions ttlMs pm =
     (case prefetch_getCached now url knownVersions pm of
        (Some envelope, pm1) \<Rightarrow> (FetchCached envelope, pm1)
      | (None, pm1) \<Rightarrow>
          let requestFingerprint = fingerprint le url knownVersions
          in (case jm_get (inFlight pm1) requestFingerprint of
                Some pending \<Rightarrow> (FetchJoined pending, pm1)
              | None \<Rightarrow>
                  let n = next_request pm1;
                      request = \<lparr>rq_id = n, rq_url = url, rq_fingerprint = requestFingerprint,
                                 rq_knownVersions = knownVersions, rq_ttlMs = ttlMs,
                                 rq_generation = pf_generation pm1\<rparr>;
                      pm2 = pm1\<lparr>next_request := Suc n,
                                inFlight := jm_set requestFingerprint n (inFlight pm1),
                                controllers := jm_set requestFingerprint n (controllers pm1)\<rparr>
                  in (FetchStarted request, evictInFlight pm2)))"

definition prefetch_accept ::
  "int \<Rightarrow> prefetch_request \<Rightarrow> page_envelope \<Rightarrow> prefetch_manager \<Rightarrow>
   (error_class, page_envelope) result \<times> prefetch_manager" where
  "prefetch_accept now request envelope pm =
     (if rq_generation request \<noteq> pf_generation pm \<or> rq_id request \<in> set (aborted pm)
      then (Inl AbortError, pm)
      else
        let pm1 = acceptPrefetchEnvelope envelope pm;
            pm2 = pruneExpired now pm1;
            pm3 = pm2\<lparr>pf_cache := jm_delete (rq_url request) (pf_cache pm2)\<rparr>;
            pm4 = pm3\<lparr>pf_cache := jm_set (rq_url request)
                    \<lparr>pe_envelope = envelope, pe_expiresAt = now + rq_ttlMs request,
                     pe_basedOnVersions = rq_knownVersions request\<rparr> (pf_cache pm3)\<rparr>
        in (Inr envelope, evictOldest pm4))"

definition prefetch_finally :: "prefetch_request \<Rightarrow> prefetch_manager \<Rightarrow> prefetch_manager" where
  "prefetch_finally request pm =
     (let fp = rq_fingerprint request;
          pm1 = (if jm_get (inFlight pm) fp = Some (rq_id request)
                 then pm\<lparr>inFlight := jm_delete fp (inFlight pm)\<rparr> else pm)
      in if jm_get (controllers pm1) fp = Some (rq_id request)
         then pm1\<lparr>controllers := jm_delete fp (controllers pm1)\<rparr> else pm1)"

definition prefetch_clear :: "prefetch_manager \<Rightarrow> prefetch_manager" where
  "prefetch_clear pm =
     (let pm1 = clearPrefetchRejections (pm\<lparr>pf_generation := pf_generation pm + 1\<rparr>)
      in pm1\<lparr>aborted := fold jset_add (jm_values (controllers pm1)) (aborted pm1),
             controllers := [], inFlight := [], pf_cache := []\<rparr>)"

section \<open>Fingerprints\<close>

lemma pair_text:
  "json_text (JArr 0 [JStr k, JStr v]) = Some (js ''['' @ json_quote k @ js '','' @ json_quote v @ js '']'')"
  by simp

definition pairs_text :: "(jstring \<times> jstring) list \<Rightarrow> jstring" where
  "pairs_text kvs = join_with (js '','')
     (map (\<lambda>(k, v). js ''['' @ json_quote k @ js '','' @ json_quote v @ js '']'') kvs)"

lemma fingerprint_text:
  "fingerprint le url kvs =
     js ''['' @ json_quote url @ js '',['' @ pairs_text (sort_by (\<lambda>a b. le (fst a) (fst b)) kvs) @ js '']]''"
  by (simp add: fingerprint_def Let_def pairs_text_def split_beta comp_def js_append [symmetric])
    (simp add: js_def split_def)

lemma pairs_text_Cons:
  "pairs_text ((k, v) # kvs) =
     js ''['' @ json_quote k @ js '','' @ json_quote v @ js '']'' @
     (if kvs = [] then [] else js '','' @ pairs_text kvs)"
  by (cases kvs) (auto simp: pairs_text_def split: prod.split)

lemma js_char_neq [simp]: "js [c] \<noteq> js [d] @ s" if "c \<noteq> d" for c d s
  using that by (simp add: js_def)

lemma pairs_text_inject:
  "pairs_text xs @ js '']]'' = pairs_text ys @ js '']]'' \<Longrightarrow> xs = ys"
proof (induction xs arbitrary: ys)
  case Nil
  then show ?case
    by (cases ys) (auto simp: pairs_text_Cons pairs_text_def [of "[]"] js_def)
next
  case (Cons x xs)
  obtain k v where x: "x = (k, v)" by (cases x)
  obtain k' v' zs where ys: "ys = (k', v') # zs"
    using Cons.prems by (cases ys) (auto simp: x pairs_text_Cons pairs_text_def [of "[]"] js_def)
  let ?r = "\<lambda>zs. (if zs = [] then [] else js '','' @ pairs_text zs) @ js '']]''"
  have "json_quote k @ js '','' @ json_quote v @ js '']'' @ ?r xs =
      json_quote k' @ js '','' @ json_quote v' @ js '']'' @ ?r zs"
    using Cons.prems by (simp add: x ys pairs_text_Cons)
  then have kv: "k = k'" "v = v'" and r: "?r xs = ?r zs"
    by (auto simp only: json_quote_append_inject same_append_eq)
  have "xs = zs"
  proof (cases "xs = [] \<or> zs = []")
    case True
    then show ?thesis using r by (auto simp: js_def split: if_splits)
  next
    case False
    with r have "pairs_text xs @ js '']]'' = pairs_text zs @ js '']]''" by simp
    then show ?thesis by (rule Cons.IH)
  qed
  with kv x ys show ?case by simp
qed

end
