(* ===== verification/Prefetch_Theorems.thy ===== *)
theory Prefetch_Theorems
  imports Prefetch
begin

text \<open>
  What prefetching promises: bounded tables, one request per page and version set, answers only
  while they fit what the client holds, and nothing from before a \<open>clear\<close>.
\<close>

section \<open>Invariant\<close>

definition prefetch_ok :: "prefetch_manager \<Rightarrow> bool" where
  "prefetch_ok pm \<longleftrightarrow>
     jm_wf (inFlight pm) \<and> controllers pm = inFlight pm \<and> distinct (jm_values (inFlight pm)) \<and>
     length (inFlight pm) \<le> MAX_PREFETCH_ENTRIES \<and>
     (\<forall>c\<in>set (jm_values (inFlight pm)). c < next_request pm \<and> c \<notin> set (aborted pm)) \<and>
     (\<forall>c\<in>set (aborted pm). c < next_request pm) \<and>
     jm_wf (pf_cache pm) \<and> length (pf_cache pm) \<le> MAX_PREFETCH_ENTRIES"

datatype prefetch_op =
    PfFetch "jstring \<Rightarrow> jstring \<Rightarrow> bool" int jstring "jstring jobj" int
  | PfAccept int prefetch_request page_envelope
  | PfFinally prefetch_request
  | PfGetCached int jstring "jstring jobj"
  | PfReject page_envelope
  | PfClear

fun run_prefetch_op :: "prefetch_op \<Rightarrow> prefetch_manager \<Rightarrow> prefetch_manager" where
  "run_prefetch_op (PfFetch le now url known ttl) pm = snd (prefetch_fetch le now url known ttl pm)"
| "run_prefetch_op (PfAccept now request envelope) pm = snd (prefetch_accept now request envelope pm)"
| "run_prefetch_op (PfFinally request) pm = prefetch_finally request pm"
| "run_prefetch_op (PfGetCached now url current) pm = snd (prefetch_getCached now url current pm)"
| "run_prefetch_op (PfReject envelope) pm = rejectPrefetchEnvelope envelope pm"
| "run_prefetch_op PfClear pm = prefetch_clear pm"

lemma length_jm_values [simp]: "length (jm_values m) = length m"
  by (simp add: jm_values_def)

lemma jm_values_Cons: "jm_values (x # m) = snd x # jm_values m"
  by (simp add: jm_values_def)

lemma set_jm_values_delete: "set (jm_values (jm_delete k m)) \<subseteq> set (jm_values m)"
  by (auto simp: jm_values_def jm_delete_def)

lemma distinct_jm_values_delete: "distinct (jm_values m) \<Longrightarrow> distinct (jm_values (jm_delete k m))"
  by (simp add: jm_values_def jm_delete_def distinct_map_filter)

text \<open>The operations that only touch the cache or the rejections.\<close>

lemma prefetch_ok_cache:
  assumes "prefetch_ok pm" and "inFlight pm' = inFlight pm" and "controllers pm' = controllers pm"
    and "next_request pm' = next_request pm" and "aborted pm' = aborted pm"
    and "jm_wf (pf_cache pm')" and "length (pf_cache pm') \<le> MAX_PREFETCH_ENTRIES"
  shows "prefetch_ok pm'"
  using assms by (simp add: prefetch_ok_def)

lemma prefetch_getCached_frame [simp]:
  "inFlight (snd (prefetch_getCached now url current pm)) = inFlight pm"
  "controllers (snd (prefetch_getCached now url current pm)) = controllers pm"
  "next_request (snd (prefetch_getCached now url current pm)) = next_request pm"
  "aborted (snd (prefetch_getCached now url current pm)) = aborted pm"
  "pf_generation (snd (prefetch_getCached now url current pm)) = pf_generation pm"
  by (simp_all add: prefetch_getCached_def Let_def split: option.split)

lemma length_jm_set_delete: "jm_wf m \<Longrightarrow> jm_has m k \<Longrightarrow> length (jm_set k v (jm_delete k m)) = length m"
  by (cases m) (auto simp: length_jm_set length_jm_delete jmap_simps)

lemma prefetch_getCached_cache:
  assumes "jm_wf (pf_cache pm)" and "length (pf_cache pm) \<le> n"
  shows "jm_wf (pf_cache (snd (prefetch_getCached now url current pm))) \<and>
    length (pf_cache (snd (prefetch_getCached now url current pm))) \<le> n"
  using assms order_trans [OF length_jm_delete_le [of url "pf_cache pm"] assms(2)]
    length_jm_set_delete [of "pf_cache pm" url]
  by (auto simp: prefetch_getCached_def Let_def jm_has_iff split: option.split)

lemma prefetch_getCached_ok:
  assumes "prefetch_ok pm"
  shows "prefetch_ok (snd (prefetch_getCached now url current pm))"
proof (rule prefetch_ok_cache [OF assms])
  have "jm_wf (pf_cache pm)" and "length (pf_cache pm) \<le> MAX_PREFETCH_ENTRIES"
    using assms by (simp_all add: prefetch_ok_def)
  from prefetch_getCached_cache [OF this, of now url current]
  show "jm_wf (pf_cache (snd (prefetch_getCached now url current pm)))"
    and "length (pf_cache (snd (prefetch_getCached now url current pm))) \<le> MAX_PREFETCH_ENTRIES"
    by blast+
qed simp_all

lemma acceptPrefetchEnvelope_frame [simp]:
  "inFlight (acceptPrefetchEnvelope e pm) = inFlight pm"
  "controllers (acceptPrefetchEnvelope e pm) = controllers pm"
  "next_request (acceptPrefetchEnvelope e pm) = next_request pm"
  "aborted (acceptPrefetchEnvelope e pm) = aborted pm"
  "pf_generation (acceptPrefetchEnvelope e pm) = pf_generation pm"
  "pf_cache (acceptPrefetchEnvelope e pm) = pf_cache pm"
  by (simp_all add: acceptPrefetchEnvelope_def split: option.split)

definition accepted_cache ::
  "int \<Rightarrow> prefetch_request \<Rightarrow> page_envelope \<Rightarrow> (jstring, prefetch_entry) jmap \<Rightarrow> (jstring, prefetch_entry) jmap" where
  "accepted_cache now request envelope m =
     jm_evict MAX_PREFETCH_ENTRIES
       (jm_move_to_end (rq_url request)
          \<lparr>pe_envelope = envelope, pe_expiresAt = now + rq_ttlMs request,
           pe_basedOnVersions = rq_knownVersions request\<rparr>
          (filter (\<lambda>(url, e). \<not> now \<ge> pe_expiresAt e) m))"

lemma prefetch_accept_eq:
  "prefetch_accept now request envelope pm =
     (if rq_generation request \<noteq> pf_generation pm \<or> rq_id request \<in> set (aborted pm)
      then (Inl AbortError, pm)
      else (Inr envelope, (acceptPrefetchEnvelope envelope pm)
              \<lparr>pf_cache := accepted_cache now request envelope (pf_cache pm)\<rparr>))"
  by (simp add: prefetch_accept_def accepted_cache_def pruneExpired_def evictOldest_def
      jm_move_to_end_def Let_def)

lemma jm_wf_filter: "jm_wf m \<Longrightarrow> jm_wf (filter P m)"
  by (simp add: jm_wf_def distinct_map_filter)

lemma prefetch_accept_ok: "prefetch_ok pm \<Longrightarrow> prefetch_ok (snd (prefetch_accept now request envelope pm))"
  unfolding prefetch_accept_eq
  by (auto simp: accepted_cache_def prefetch_ok_def jm_wf_filter length_jm_evict)

lemma prefetch_finally_ok:
  assumes "prefetch_ok pm"
  shows "prefetch_ok (prefetch_finally request pm)"
  using assms set_jm_values_delete [of "rq_fingerprint request" "inFlight pm"]
    order_trans [OF length_jm_delete_le [of "rq_fingerprint request" "inFlight pm"]]
  by (auto simp: prefetch_finally_def Let_def prefetch_ok_def distinct_jm_values_delete)

lemma prefetch_clear_ok: "prefetch_ok pm \<Longrightarrow> prefetch_ok (prefetch_clear pm)"
  by (auto simp: prefetch_clear_def clearPrefetchRejections_def Let_def prefetch_ok_def
      jm_values_def [of "[]"] set_fold_jset_add)

lemma rejectPrefetchEnvelope_ok: "prefetch_ok pm \<Longrightarrow> prefetch_ok (rejectPrefetchEnvelope e pm)"
  by (simp add: rejectPrefetchEnvelope_def Let_def prefetch_ok_def)

text \<open>Starting a request evicts at most the oldest one, and aborts it.\<close>

lemma evictInFlight_once:
  assumes "length (inFlight pm) \<le> Suc MAX_PREFETCH_ENTRIES" and "jm_wf (inFlight pm)"
    and "controllers pm = inFlight pm"
  shows "evictInFlight pm =
    (if length (inFlight pm) \<le> MAX_PREFETCH_ENTRIES then pm
     else pm\<lparr>aborted := jset_add (snd (hd (inFlight pm))) (aborted pm),
             controllers := tl (inFlight pm), inFlight := tl (inFlight pm)\<rparr>)"
proof (cases "inFlight pm")
  case (Cons x rest)
  obtain fp c where x: "x = (fp, c)" by (cases x)
  have d: "jm_delete fp (inFlight pm) = rest"
    using assms(2) jm_delete_Cons_wf [of fp c rest] by (simp add: Cons x)
  have "length rest \<le> MAX_PREFETCH_ENTRIES" using assms(1) by (simp add: Cons)
  then show ?thesis
    using assms(3) d
    by (auto simp: evictInFlight.simps [of pm] evictInFlight.simps [of "pm\<lparr>aborted := _, controllers := _, inFlight := rest\<rparr>"]
        Cons x jm_get_Cons)
qed (simp add: evictInFlight.simps [of pm])

lemma jm_values_set_fresh: "\<not> jm_has m k \<Longrightarrow> jm_values (jm_set k v m) = jm_values m @ [v]"
  by (simp add: jm_set_fresh jm_values_def)

text \<open>The state in which the new request is registered, before the eviction.\<close>

definition started :: "jstring \<Rightarrow> prefetch_manager \<Rightarrow> prefetch_manager" where
  "started fp pm = pm\<lparr>next_request := Suc (next_request pm),
     inFlight := jm_set fp (next_request pm) (inFlight pm),
     controllers := jm_set fp (next_request pm) (controllers pm)\<rparr>"

lemma started_ok:
  assumes ok: "prefetch_ok pm" and fresh: "\<not> jm_has (inFlight pm) fp"
  shows "prefetch_ok (evictInFlight (started fp pm))"
    and "jm_get (inFlight (evictInFlight (started fp pm))) fp = Some (next_request pm)"
proof -
  let ?m = "inFlight pm" and ?s = "started fp pm"
  have f: "inFlight ?s = ?m @ [(fp, next_request pm)]" "controllers ?s = inFlight ?s"
      "aborted ?s = aborted pm" "next_request ?s = Suc (next_request pm)" "pf_cache ?s = pf_cache pm"
    using ok fresh by (simp_all add: started_def jm_set_fresh prefetch_ok_def)
  have w: "jm_wf (inFlight ?s)" using ok by (simp add: started_def prefetch_ok_def)
  have len: "length (inFlight ?s) \<le> Suc MAX_PREFETCH_ENTRIES"
    using ok by (simp add: f(1) prefetch_ok_def)
  have vals: "distinct (jm_values (inFlight ?s))"
      "\<forall>c\<in>set (jm_values (inFlight ?s)). c < Suc (next_request pm) \<and> c \<notin> set (aborted pm)"
    using ok by (auto simp: f(1) prefetch_ok_def jm_values_def)
  show "prefetch_ok (evictInFlight ?s)"
  proof (cases "length (inFlight ?s) \<le> MAX_PREFETCH_ENTRIES")
    case True
    then show ?thesis
      using ok w vals by (auto simp: evictInFlight_once [OF len w f(2)] prefetch_ok_def f less_SucI)
  next
    case False
    then obtain y zs where y: "inFlight ?s = y # zs" by (cases "inFlight ?s") auto
    have "jm_wf zs" "distinct (jm_values zs)" "length zs \<le> MAX_PREFETCH_ENTRIES"
      "\<forall>c\<in>set (jm_values zs). c < Suc (next_request pm) \<and> c \<notin> set (aborted pm) \<and> c \<noteq> snd y"
      "snd y < Suc (next_request pm)"
      using w vals len by (auto simp: y jm_wf_def jm_values_Cons)
    then show ?thesis
      using ok False by (auto simp: evictInFlight_once [OF len w f(2)] prefetch_ok_def f(3-5) y less_SucI)
  qed
  have "0 < length ?m" if "\<not> length (inFlight ?s) \<le> MAX_PREFETCH_ENTRIES"
    using that by (cases ?m) (auto simp: f(1) MAX_PREFETCH_ENTRIES_def)
  moreover have "jm_get (tl ?m) fp = None" if "?m \<noteq> []"
    using fresh that by (cases ?m) (auto simp: jm_get_None_iff jm_has_Cons)
  moreover have "jm_get ?m fp = None" using fresh by (simp add: jm_get_None_iff)
  ultimately show "jm_get (inFlight (evictInFlight ?s)) fp = Some (next_request pm)"
    by (auto simp: evictInFlight_once [OF len w f(2)] f(1) jm_get_append jm_get_Cons)
qed

lemma prefetch_fetch_cases:
  obtains (cached) e where "prefetch_fetch le now url known ttl pm =
      (FetchCached e, snd (prefetch_getCached now url known pm))"
      "fst (prefetch_getCached now url known pm) = Some e"
  | (joined) n where "prefetch_fetch le now url known ttl pm =
      (FetchJoined n, snd (prefetch_getCached now url known pm))"
      "jm_get (inFlight pm) (fingerprint le url known) = Some n"
  | (started) "\<not> jm_has (inFlight pm) (fingerprint le url known)"
      "fst (prefetch_getCached now url known pm) = None"
      "prefetch_fetch le now url known ttl pm =
        (FetchStarted \<lparr>rq_id = next_request pm, rq_url = url, rq_fingerprint = fingerprint le url known,
           rq_knownVersions = known, rq_ttlMs = ttl, rq_generation = pf_generation pm\<rparr>,
         evictInFlight (started (fingerprint le url known) (snd (prefetch_getCached now url known pm))))"
proof (cases "fst (prefetch_getCached now url known pm)")
  case (Some e)
  then show thesis
    by (intro cached [of e]) (auto simp: prefetch_fetch_def split: prod.split)
next
  case None
  show thesis
  proof (cases "jm_get (inFlight pm) (fingerprint le url known)")
    case (Some n)
    with None show thesis
      by (intro joined [of n]) (auto simp: prefetch_fetch_def Let_def split_beta split: prod.split
        dest: arg_cong [of _ _ "\<lambda>x. inFlight (snd x)"])
  next
    case n: None
    from None n show thesis
      by (intro started)
        (auto simp: prefetch_fetch_def started_def Let_def split_beta jm_get_None_iff
          prefetch_getCached_frame split: prod.split option.split)
  qed
qed

lemma prefetch_fetch_ok: "prefetch_ok pm \<Longrightarrow> prefetch_ok (snd (prefetch_fetch le now url known ttl pm))"
proof -
  assume ok: "prefetch_ok pm"
  note ok' = prefetch_getCached_ok [OF ok, of now url known]
  show ?thesis
  proof (cases rule: prefetch_fetch_cases [of le now url known ttl pm])
    case started
    then show ?thesis using started_ok(1) [OF ok'] by simp
  qed (use ok' in auto)
qed

interpretation prefetch_sys: invariant_system "\<lambda>pm. pm = new_prefetch_manager" run_prefetch_op prefetch_ok
proof
  show "prefetch_ok pm" if "pm = new_prefetch_manager" for pm
    using that by (simp add: prefetch_ok_def new_prefetch_manager_def jm_values_def)
  show "prefetch_ok (run_prefetch_op opr pm)" if "prefetch_ok pm" for pm opr
    using that by (cases opr)
      (auto intro: prefetch_fetch_ok prefetch_accept_ok prefetch_finally_ok prefetch_getCached_ok
        rejectPrefetchEnvelope_ok prefetch_clear_ok)
qed

section \<open>Generations\<close>

lemma pf_generation_evictInFlight [simp]: "pf_generation (evictInFlight pm) = pf_generation pm"
proof (induction pm rule: evictInFlight.induct)
  case (1 pm)
  then show ?case by (auto simp: evictInFlight.simps [of pm] split: list.split)
qed

lemma pf_generation_fetch [simp]: "pf_generation (snd (prefetch_fetch le now url known ttl pm)) = pf_generation pm"
  by (cases rule: prefetch_fetch_cases [of le now url known ttl pm]) (auto simp: started_def)

lemma pf_generation_step:
  "pf_generation pm \<le> pf_generation (run_prefetch_op opr pm)"
  "pf_generation pm < pf_generation (run_prefetch_op PfClear pm)"
  by (cases opr) (auto simp: prefetch_accept_eq prefetch_finally_def rejectPrefetchEnvelope_def
      prefetch_clear_def clearPrefetchRejections_def Let_def)

lemma pf_generation_run: "pf_generation pm \<le> pf_generation (fold run_prefetch_op ops pm)"
  by (induction ops arbitrary: pm) (auto intro: order_trans [OF pf_generation_step(1)])

lemma pf_generation_run_clear:
  "PfClear \<in> set ops \<Longrightarrow> pf_generation pm < pf_generation (fold run_prefetch_op ops pm)"
proof (induction ops arbitrary: pm)
  case (Cons opr ops)
  show ?case
  proof (cases "opr = PfClear")
    case True
    then show ?thesis
      using pf_generation_step(2) [of pm] pf_generation_run [of "prefetch_clear pm" ops] by simp
  next
    case False
    with Cons.prems have "pf_generation (run_prefetch_op opr pm) < pf_generation (fold run_prefetch_op (opr # ops) pm)"
      using Cons.IH [of "run_prefetch_op opr pm"] by auto
    then show ?thesis using pf_generation_step(1) [of pm opr] by linarith
  qed
qed simp

lemma fetch_started_generation:
  "prefetch_fetch le now url known ttl pm = (FetchStarted request, pm') \<Longrightarrow>
   rq_generation request = pf_generation pm'"
  by (cases rule: prefetch_fetch_cases [of le now url known ttl pm]) (auto simp: started_def)

section \<open>Theorems\<close>

definition sample_envelope :: page_envelope where
  "sample_envelope = \<lparr>env_ref = 1,
     env_page = \<lparr>pd_component = js ''P'', pd_url = js ''/p'', pd_meta = None\<rparr>,
     env_resources = [], env_resourceKeys = None, env_deferred = None, env_live = None,
     env_resourceErrors = None, env_appVersion = None\<rparr>"

text \<open>
  Every state the prefetch manager can reach keeps at most 32 requests in flight and 32
  cached pages; every request in flight has its own abort controller, which was not aborted, and
  no request number is used twice.
\<close>

lemma prefetch_reachable_ok: "prefetch_ok (fold run_prefetch_op ops new_prefetch_manager)"
  by (rule prefetch_sys.reachable_inv) simp

text \<open>
  a page is requested once. When \<open>fetch\<close> started a request, fetching the same page with the
  same known versions again joins that request instead of starting another, even when the table of
  requests was full.
\<close>

lemma prefetch_joins_pending:
  assumes "prefetch_ok pm" and "prefetch_fetch le now url known ttl pm = (FetchStarted request, pm')"
  shows "fst (prefetch_fetch le now' url known ttl' pm') = FetchJoined (rq_id request)"
proof (cases rule: prefetch_fetch_cases [of le now url known ttl pm])
  case started
  let ?fp = "fingerprint le url known"
  let ?pm1 = "snd (prefetch_getCached now url known pm)"
  have pm': "pm' = evictInFlight (started ?fp ?pm1)" and req: "rq_id request = next_request pm"
    using started assms(2) by auto
  have "jm_get (inFlight pm') ?fp = Some (rq_id request)"
    using started_ok(2) [OF prefetch_getCached_ok [OF assms(1)], of now url known ?fp] started(1) req
    by (simp add: pm')
  moreover have "pf_cache pm' = pf_cache ?pm1"
  proof -
    have "pf_cache (evictInFlight p) = pf_cache p" for p
    proof (induction p rule: evictInFlight.induct)
      case (1 p)
      then show ?case by (auto simp: evictInFlight.simps [of p] split: list.split)
    qed
    then show ?thesis by (simp add: pm' started_def)
  qed
  moreover have "jm_get (pf_cache ?pm1) url = None"
    using started(2) by (auto simp: prefetch_getCached_def Let_def jmap_simps split: option.splits if_splits)
  ultimately show ?thesis
    by (simp add: prefetch_fetch_def prefetch_getCached_def)
qed (use assms(2) in auto)

text \<open>
  nothing from before a \<open>clear\<close> is kept. If the manager was cleared at any time after a
  request started, the answer of the request is refused with an abort error, and the manager is
  left as it was.
\<close>

lemma clear_cancels_requests:
  assumes "prefetch_fetch le now url known ttl pm = (FetchStarted request, pm')" and "PfClear \<in> set ops"
  shows "prefetch_accept now' request envelope (fold run_prefetch_op ops pm') =
    (Inl AbortError, fold run_prefetch_op ops pm')"
  using pf_generation_run_clear [OF assms(2), of pm'] fetch_started_generation [OF assms(1)]
  by (simp add: prefetch_accept_def)

text \<open>
  After the answer of a request was accepted, the cache answers for that page exactly until
  the answer expires, and only while the client still holds the versions the request was based on,
  as the answer updates them, and no other version of any resource of the answer.
\<close>

lemma accepted_then_cached:
  assumes "prefetch_ok pm" and "prefetch_accept now request envelope pm = (Inr envelope', pm')"
  shows "fst (prefetch_getCached now' (rq_url request) current pm') =
    (if now' < now + rq_ttlMs request \<and>
        versionsStillAvailable (rq_knownVersions request) current envelope
     then Some envelope else None)"
proof -
  let ?e = "\<lparr>pe_envelope = envelope, pe_expiresAt = now + rq_ttlMs request,
     pe_basedOnVersions = rq_knownVersions request\<rparr>"
  have pm': "pm' = (acceptPrefetchEnvelope envelope pm)
      \<lparr>pf_cache := accepted_cache now request envelope (pf_cache pm)\<rparr>"
    using assms(2) by (auto simp: prefetch_accept_eq split: if_splits)
  have "jm_get (pf_cache pm') (rq_url request) = Some ?e"
    using assms(1) jm_get_evict_last [of "filter (\<lambda>(url, e). \<not> now \<ge> pe_expiresAt e) (pf_cache pm)" MAX_PREFETCH_ENTRIES]
    by (simp add: pm' accepted_cache_def prefetch_ok_def jm_wf_filter MAX_PREFETCH_ENTRIES_def)
  moreover have "\<not> isRejectedPrefetchEnvelope envelope pm'"
    by (simp add: pm' isRejectedPrefetchEnvelope_def acceptPrefetchEnvelope_def split: option.split)
  ultimately show ?thesis by (auto simp: prefetch_getCached_def Let_def)
qed

text \<open>
  Requests are told apart by their page and known versions alone: two requests share a
  fingerprint only if they ask for the same URL with the same known versions, whatever order the
  locale gives the keys.
\<close>

lemma fingerprint_exact:
  "fingerprint le url kvs = fingerprint le url' kvs' \<Longrightarrow> url = url' \<and> mset kvs = mset kvs'"
proof -
  assume eq: "fingerprint le url kvs = fingerprint le url' kvs'"
  let ?s = "sort_by (\<lambda>a b. le (fst a) (fst b))"
  have "json_quote url @ js '',['' @ pairs_text (?s kvs) @ js '']]'' =
      json_quote url' @ js '',['' @ pairs_text (?s kvs') @ js '']]''"
    using eq by (simp add: fingerprint_text)
  then have "url = url'" and "pairs_text (?s kvs) @ js '']]'' = pairs_text (?s kvs') @ js '']]''"
    by (simp_all only: json_quote_append_inject same_append_eq)
  then show ?thesis
    by (metis mset_sort_by pairs_text_inject)
qed

end
