(* ===== verification/Live_Protocol.thy ===== *)
theory Live_Protocol
  imports Protocol Json_Text
begin

text \<open>
  The Live Resource wire events and their validation (\<open>packages/core/src/live/protocol.ts\<close>), the
  client identity (\<open>live/client-id.ts\<close>) and the serialisation of the live keys
  (\<open>live/transport.ts\<close>). \<open>Inl\<close> is a thrown error.
\<close>

section \<open>Text\<close>

text \<open>The white space \<open>String.prototype.trim\<close> removes.\<close>

definition is_js_space :: "16 word \<Rightarrow> bool" where
  "is_js_space c \<longleftrightarrow>
     (0x09 \<le> c \<and> c \<le> 0x0D) \<or> c = 0x20 \<or> c = 0xA0 \<or> c = 0x1680 \<or> (0x2000 \<le> c \<and> c \<le> 0x200A) \<or>
     c = 0x2028 \<or> c = 0x2029 \<or> c = 0x202F \<or> c = 0x205F \<or> c = 0x3000 \<or> c = 0xFEFF"

definition js_trim :: "jstring \<Rightarrow> jstring" where
  "js_trim s = rev (dropWhile is_js_space (rev (dropWhile is_js_space s)))"

text \<open>\<open>new TextEncoder().encode(s).byteLength\<close>; an unpaired surrogate is encoded as U+FFFD.\<close>

fun utf8_length :: "jstring \<Rightarrow> nat" where
  "utf8_length [] = 0"
| "utf8_length [c] = (if c < 0x80 then 1 else if c < 0x800 then 2 else 3)"
| "utf8_length (c # d # s) =
     (if high_surrogate c \<and> low_surrogate d then 4 + utf8_length s
      else (if c < 0x80 then 1 else if c < 0x800 then 2 else 3) + utf8_length (d # s))"

text \<open>\<open>s.split(sep)\<close> for a separator of one code unit.\<close>

fun split_on :: "16 word \<Rightarrow> jstring \<Rightarrow> jstring list" where
  "split_on sep [] = [[]]"
| "split_on sep (c # s) =
     (if c = sep then [] # split_on sep s
      else (case split_on sep s of [] \<Rightarrow> [[c]] | x # xs \<Rightarrow> (c # x) # xs))"

section \<open>Events\<close>

datatype resync_reason = Overflow | ReconnectReason | BrokerRecovery | ServerReason

datatype live_event =
    LiveReady "rkey list"
  | LiveInvalidate "rkey list" "jstring option"
  | LivePatch "patch list jobj" "jstring option"
  | LiveResync "rkey list" resync_reason

definition LIVE_EVENT_NAME :: jstring where
  "LIVE_EVENT_NAME = js ''fluxfast''"

definition LIVE_RESYNC_REASONS :: "(jstring \<times> resync_reason) list" where
  "LIVE_RESYNC_REASONS =
     [(js ''overflow'', Overflow), (js ''reconnect'', ReconnectReason),
      (js ''broker-recovery'', BrokerRecovery), (js ''server'', ServerReason)]"

definition MAX_LIVE_EVENT_KEYS :: nat where
  "MAX_LIVE_EVENT_KEYS = 100"

definition MAX_LIVE_RESOURCE_KEY_LENGTH :: nat where
  "MAX_LIVE_RESOURCE_KEY_LENGTH = 128"

definition MAX_LIVE_CLIENT_ID_LENGTH :: nat where
  "MAX_LIVE_CLIENT_ID_LENGTH = 64"

definition LIVE_PATCH_OPERATIONS :: "(jstring \<times> patch_op) list" where
  "LIVE_PATCH_OPERATIONS =
     [(js ''replace-resource'', ReplaceResource), (js ''merge-object'', MergeObject),
      (js ''replace-item'', ReplaceItem), (js ''remove-item'', RemoveItem),
      (js ''append-item'', AppendItem)]"

section \<open>Validation\<close>

fun isObject :: "jsval \<Rightarrow> bool" where
  "isObject (JObj _ _) = True"
| "isObject _ = False"

text \<open>The read \<open>value.name\<close> of a property that no object inherits.\<close>

definition field :: "jsval \<Rightarrow> string \<Rightarrow> jsval" where
  "field v name = (case map_of (obj_fields v) (js name) of Some x \<Rightarrow> x | None \<Rightarrow> JUndef)"

definition has_field :: "jsval \<Rightarrow> string \<Rightarrow> bool" where
  "has_field v name \<longleftrightarrow> js name \<in> fst ` set (obj_fields v)"

definition safe_live_key :: "jstring \<Rightarrow> bool" where
  "safe_live_key key \<longleftrightarrow>
     \<not> (length (js_trim key) = 0 \<or> length key > MAX_LIVE_RESOURCE_KEY_LENGTH \<or>
        0x2C \<in> set key \<or> list_ex (\<lambda>c. c \<le> 0x1F) key)"

definition assertResourceKeys :: "jsval \<Rightarrow> (error_class, unit) result" where
  "assertResourceKeys v =
     andThen
       (throw_if (\<not> is_array v \<or> length (arr_items v) > MAX_LIVE_EVENT_KEYS) ProtocolError)
       (\<lambda>_. for_each
          (\<lambda>key. throw_if (\<not> is_string key \<or> \<not> safe_live_key (str_val key)) ProtocolError)
          (arr_items v))"

definition printable_ascii :: "jstring \<Rightarrow> bool" where
  "printable_ascii s \<longleftrightarrow> s \<noteq> [] \<and> list_all (\<lambda>c. 0x21 \<le> c \<and> c \<le> 0x7E) s"

definition assertOriginClientId :: "jsval \<Rightarrow> (error_class, unit) result" where
  "assertOriginClientId v =
     (if v = JUndef then Inr ()
      else throw_if (\<not> is_string v \<or> length (str_val v) = 0 \<or>
             length (str_val v) > MAX_LIVE_CLIENT_ID_LENGTH \<or> \<not> printable_ascii (str_val v))
             ProtocolError)"

definition assertPatch :: "jsval \<Rightarrow> (error_class, unit) result" where
  "assertPatch p =
     (if \<not> isObject p \<or> \<not> is_string (field p ''op'') then Inl ProtocolError
      else
        (case map_of LIVE_PATCH_OPERATIONS (str_val (field p ''op'')) of
           None \<Rightarrow> Inl ProtocolError
         | Some opr \<Rightarrow>
             let hasIdentity = (has_field p ''id'' \<or>
                   (isObject (field p ''match'') \<and> length (obj_fields (field p ''match'')) > 0))
             in throw_if
                  ((opr \<in> {ReplaceResource, MergeObject, AppendItem} \<and> \<not> has_field p ''value'') \<or>
                   (opr \<in> {ReplaceItem, RemoveItem} \<and> \<not> hasIdentity) \<or>
                   (opr = ReplaceItem \<and> \<not> has_field p ''value''))
                  ProtocolError))"

text \<open>
  The text \<open>String(v)\<close> in an error message: converting some objects throws a \<open>TypeError\<close> before
  the intended error is thrown.
\<close>

definition throw_with :: "jsval \<Rightarrow> error_class \<Rightarrow> (error_class, 'a) result" where
  "throw_with v e = (case to_string v of None \<Rightarrow> Inl TypeError | Some _ \<Rightarrow> Inl e)"

definition assertLiveEvent :: "jsval \<Rightarrow> (error_class, unit) result" where
  "assertLiveEvent v =
     (if \<not> isObject v \<or> field v ''protocol'' \<noteq> JStr PROTOCOL_VERSION then
        throw_with (if isObject v then field v ''protocol'' else JUndef) VersionMismatchError
      else if field v ''type'' = JStr (js ''ready'') \<or> field v ''type'' = JStr (js ''invalidate'') then
        andThen (assertResourceKeys (field v ''keys''))
          (\<lambda>_. if field v ''type'' = JStr (js ''invalidate'')
               then assertOriginClientId (field v ''originClientId'') else Inr ())
      else if field v ''type'' = JStr (js ''patch'') then
        if \<not> isObject (field v ''patches'') then Inl ProtocolError
        else
          let fields = obj_fields (field v ''patches'') in
          andThen (assertResourceKeys (JArr 0 (map (\<lambda>(k, _). JStr k) fields))) (\<lambda>_.
          andThen
            (for_each (\<lambda>(k, patches).
               andThen (throw_if (\<not> is_array patches) ProtocolError) (\<lambda>_.
               for_each assertPatch (arr_items patches))) fields) (\<lambda>_.
          assertOriginClientId (field v ''originClientId'')))
      else if field v ''type'' = JStr (js ''resync'') then
        andThen (assertResourceKeys (field v ''keys''))
          (\<lambda>_. throw_if (\<not> is_string (field v ''reason'') \<or>
                 map_of LIVE_RESYNC_REASONS (str_val (field v ''reason'')) = None) ProtocolError)
      else throw_with (field v ''type'') ProtocolError)"

text \<open>A validated wire event, read as an event.\<close>

definition keys_of :: "jsval \<Rightarrow> rkey list" where
  "keys_of v = map str_val (arr_items v)"

definition origin_of :: "jsval \<Rightarrow> jstring option" where
  "origin_of v = (if v = JUndef then None else Some (str_val v))"

definition patch_of :: "jsval \<Rightarrow> patch" where
  "patch_of p =
     \<lparr>p_op = (case map_of LIVE_PATCH_OPERATIONS (str_val (field p ''op'')) of
                None \<Rightarrow> UnknownOp | Some opr \<Rightarrow> opr),
      p_id = field p ''id'', p_match = field p ''match'', p_value = field p ''value''\<rparr>"

definition live_event_of :: "jsval \<Rightarrow> live_event" where
  "live_event_of v =
     (if field v ''type'' = JStr (js ''ready'') then LiveReady (keys_of (field v ''keys''))
      else if field v ''type'' = JStr (js ''invalidate'') then
        LiveInvalidate (keys_of (field v ''keys'')) (origin_of (field v ''originClientId''))
      else if field v ''type'' = JStr (js ''patch'') then
        LivePatch (map (\<lambda>(k, ps). (k, map patch_of (arr_items ps))) (obj_fields (field v ''patches'')))
          (origin_of (field v ''originClientId''))
      else LiveResync (keys_of (field v ''keys''))
        (the (map_of LIVE_RESYNC_REASONS (str_val (field v ''reason'')))))"

section \<open>Client identity\<close>

definition assertClientId :: "jstring option \<Rightarrow> (error_class, unit) result" where
  "assertClientId clientId =
     (case clientId of
        None \<Rightarrow> Inr ()
      | Some s \<Rightarrow> throw_if (length s = 0 \<or> length s > MAX_LIVE_CLIENT_ID_LENGTH \<or> \<not> printable_ascii s)
                    ProtocolError)"

text \<open>
  \<open>createClientId\<close> without \<open>crypto.randomUUID\<close>: sixteen random bytes as two hexadecimal digits
  each. With it, the dashes of the UUID are removed.
\<close>

definition client_id_of_bytes :: "8 word list \<Rightarrow> jstring" where
  "client_id_of_bytes bytes =
     js ''ff_'' @ concat (map (\<lambda>b. [hex_digit (unat b div 16), hex_digit (unat b mod 16)]) bytes)"

definition client_id_of_uuid :: "jstring \<Rightarrow> jstring" where
  "client_id_of_uuid uuid = js ''ff_'' @ filter (\<lambda>c. c \<noteq> 0x2D) uuid"

section \<open>Live keys\<close>

definition MAX_LIVE_KEYS_HEADER_BYTES :: nat where
  "MAX_LIVE_KEYS_HEADER_BYTES = 16 * 1024"

definition serializeLiveKeys :: "rkey list \<Rightarrow> (error_class, jstring) result" where
  "serializeLiveKeys keys =
     (if keys = [] then Inl ProtocolError
      else
        let normalized = sort (jset_of keys) in
        if length normalized > MAX_LIVE_EVENT_KEYS then Inl ProtocolError
        else if list_ex (\<lambda>key. \<not> safe_live_key key) normalized then Inl ProtocolError
        else
          let serialized = join_with (js '','') normalized in
          if utf8_length serialized > MAX_LIVE_KEYS_HEADER_BYTES then Inl ProtocolError
          else Inr serialized)"

section \<open>Splitting undoes joining\<close>

lemma split_on_nonempty: "split_on sep s \<noteq> []"
  by (induction s) (auto split: list.split)

lemma split_on_append_sep: "sep \<notin> set s \<Longrightarrow> split_on sep (s @ sep # t) = s # split_on sep t"
  by (induction s) auto

lemma split_on_no_sep: "sep \<notin> set s \<Longrightarrow> split_on sep s = [s]"
  by (induction s) auto

lemma split_on_join:
  "xs \<noteq> [] \<Longrightarrow> \<forall>x\<in>set xs. sep \<notin> set x \<Longrightarrow> split_on sep (join_with [sep] xs) = xs"
proof (induction "[sep]" xs rule: join_with.induct)
  case (3 x y ys)
  then show ?case by (simp add: split_on_append_sep)
qed (auto simp: split_on_no_sep)

lemma js_comma: "js '','' = [0x2C]"
  by (simp add: js_def)

end
