(* ===== verification/Live_Sse.thy ===== *)
theory Live_Sse
  imports Live_Protocol
begin

text \<open>
  The incremental parser of the event stream (\<open>FluxSseParser\<close> and \<open>parseFrame\<close> in
  \<open>packages/core/src/live/transport.ts\<close>). \<open>JSON.parse\<close> is the parameter \<open>parse\<close> (\<open>None\<close> when it
  throws) and the streaming \<open>TextDecoder\<close> the parameter \<open>decode\<close> on a decoder state, called with
  the bytes of a chunk, or with \<open>None\<close> to flush it.
\<close>

type_synonym json_parse = "jstring \<Rightarrow> jsval option"
type_synonym 'd text_decoder = "'d \<Rightarrow> 8 word list option \<Rightarrow> jstring \<times> 'd"

definition MAX_LIVE_EVENT_BYTES :: nat where
  "MAX_LIVE_EVENT_BYTES = 1024 * 1024"

abbreviation (input) LF :: "16 word" where "LF \<equiv> 0x0A"
abbreviation (input) CR :: "16 word" where "CR \<equiv> 0x0D"

section \<open>Frames\<close>

text \<open>\<open>frame.split(/\r\n|\r|\n/)\<close>.\<close>

fun split_lines :: "jstring \<Rightarrow> jstring list" where
  "split_lines [] = [[]]"
| "split_lines (c # s) =
     (if c = CR \<and> s \<noteq> [] \<and> hd s = LF then [] # split_lines (tl s)
      else if c = CR \<or> c = LF then [] # split_lines s
      else (case split_lines s of [] \<Rightarrow> [[c]] | x # xs \<Rightarrow> (c # x) # xs))"

text \<open>The field name and the value of a line.\<close>

definition split_field :: "jstring \<Rightarrow> jstring \<times> jstring" where
  "split_field line =
     (let name = takeWhile (\<lambda>c. c \<noteq> 0x3A) line;
          val = (if 0x3A \<in> set line then drop (length name + 1) line else [])
      in (name, if val \<noteq> [] \<and> hd val = 0x20 then tl val else val))"

fun frame_fields :: "jstring list \<Rightarrow> jstring option \<Rightarrow> jstring list \<Rightarrow> jstring option \<times> jstring list" where
  "frame_fields [] eventName data = (eventName, data)"
| "frame_fields (line # lines) eventName data =
     (if line = [] \<or> hd line = 0x3A then frame_fields lines eventName data
      else
        let (name, val) = split_field line
        in frame_fields lines
             (if name = js ''event'' then Some val else eventName)
             (if name = js ''data'' then data @ [val] else data))"

definition parseFrame :: "json_parse \<Rightarrow> jstring \<Rightarrow> (error_class, live_event option) result" where
  "parseFrame parse frame =
     (let (eventName, data) = frame_fields (split_lines frame) None [] in
      if eventName = None \<and> data = [] then Inr None
      else if eventName \<noteq> Some LIVE_EVENT_NAME then Inl ProtocolError
      else if data = [] then Inl ProtocolError
      else
        (case parse (join_with [LF] data) of
           None \<Rightarrow> Inl ProtocolError
         | Some parsed \<Rightarrow>
             andThen (assertLiveEvent parsed) (\<lambda>_. Inr (Some (live_event_of parsed)))))"

section \<open>The parser\<close>

text \<open>
  \<open>/\r\n\r\n|\n\n|\r\r/.exec(buffer)\<close>: the first position at which one of the separators starts, and
  the length of the separator.
\<close>

definition separator_at :: "jstring \<Rightarrow> nat option" where
  "separator_at s =
     (if take 4 s = [CR, LF, CR, LF] then Some 4
      else if take 2 s = [LF, LF] \<or> take 2 s = [CR, CR] then Some 2
      else None)"

fun find_separator :: "jstring \<Rightarrow> (nat \<times> nat) option" where
  "find_separator [] = None"
| "find_separator (c # s) =
     (case separator_at (c # s) of
        Some n \<Rightarrow> Some (0, n)
      | None \<Rightarrow> map_option (\<lambda>(i, n). (Suc i, n)) (find_separator s))"

definition assertFrameSize :: "jstring \<Rightarrow> (error_class, unit) result" where
  "assertFrameSize frame = throw_if (utf8_length frame > MAX_LIVE_EVENT_BYTES) ProtocolError"

definition parse_checked :: "json_parse \<Rightarrow> jstring \<Rightarrow> (error_class, live_event list) result" where
  "parse_checked parse frame =
     andThen (assertFrameSize frame) (\<lambda>_.
     andThen (parseFrame parse frame) (\<lambda>ev.
     Inr (case ev of None \<Rightarrow> [] | Some e \<Rightarrow> [e])))"

lemma separator_at_length: "separator_at s = Some n \<Longrightarrow> 2 \<le> n \<and> n \<le> length s"
  by (cases s; cases "tl s"; cases "tl (tl s)"; cases "tl (tl (tl s))")
    (auto simp: separator_at_def split: if_splits)

lemma find_separator_bounds:
  "find_separator s = Some (i, n) \<Longrightarrow> 2 \<le> n \<and> i + n \<le> length s"
proof (induction s arbitrary: i)
  case (Cons c s)
  then show ?case
    using separator_at_length [of "c # s" n] by (auto split: option.splits)
qed simp

text \<open>
  The loop of \<open>drain\<close>: the events of the complete frames, in order, and what is left of the
  buffer. The buffer is shortened before a frame is parsed, so it is returned with an error too.
\<close>

function drain_frames ::
  "json_parse \<Rightarrow> jstring \<Rightarrow> (error_class, live_event list) result \<times> jstring" where
  "drain_frames parse buf =
     (case find_separator buf of
        None \<Rightarrow> (Inr [], buf)
      | Some (i, n) \<Rightarrow>
          (case parse_checked parse (take i buf) of
             Inl e \<Rightarrow> (Inl e, drop (i + n) buf)
           | Inr events \<Rightarrow>
               (case drain_frames parse (drop (i + n) buf) of
                  (Inl e, rest) \<Rightarrow> (Inl e, rest)
                | (Inr evs, rest) \<Rightarrow> (Inr (events @ evs), rest))))"
  by pat_completeness auto
termination
  by (relation "measure (\<lambda>(parse, buf). length buf)") (auto dest: find_separator_bounds)

declare drain_frames.simps [simp del]

definition drain :: "json_parse \<Rightarrow> bool \<Rightarrow> jstring \<Rightarrow> (error_class, live_event list) result \<times> jstring" where
  "drain parse finish buf =
     (case drain_frames parse buf of
        (Inl e, rest) \<Rightarrow> (Inl e, rest)
      | (Inr events, rest) \<Rightarrow>
          if finish \<and> length rest > 0 then
            (andThen (parse_checked parse rest) (\<lambda>evs.
             andThen (assertFrameSize []) (\<lambda>_. Inr (events @ evs))), [])
          else (andThen (assertFrameSize rest) (\<lambda>_. Inr events), rest))"

record 'd sse_parser =
  sp_decoder :: 'd
  sp_buffer :: jstring

definition sse_push ::
  "'d text_decoder \<Rightarrow> json_parse \<Rightarrow> 8 word list \<Rightarrow> 'd sse_parser \<Rightarrow>
   (error_class, live_event list) result \<times> 'd sse_parser" where
  "sse_push decode parse chunk p =
     (let (text, d) = decode (sp_decoder p) (Some chunk);
          (res, buf) = drain parse False (sp_buffer p @ text)
      in (res, \<lparr>sp_decoder = d, sp_buffer = buf\<rparr>))"

definition sse_finish ::
  "'d text_decoder \<Rightarrow> json_parse \<Rightarrow> 'd sse_parser \<Rightarrow>
   (error_class, live_event list) result \<times> 'd sse_parser" where
  "sse_finish decode parse p =
     (let (text, d) = decode (sp_decoder p) None;
          (res, buf) = drain parse True (sp_buffer p @ text)
      in (res, \<lparr>sp_decoder = d, sp_buffer = buf\<rparr>))"

text \<open>The reading loop of a connection: push the chunks until one throws, then finish.\<close>

fun sse_run ::
  "'d text_decoder \<Rightarrow> json_parse \<Rightarrow> 8 word list list \<Rightarrow> 'd sse_parser \<Rightarrow>
   live_event list \<times> error_class option" where
  "sse_run decode parse [] p =
     (case fst (sse_finish decode parse p) of
        Inl e \<Rightarrow> ([], Some e)
      | Inr events \<Rightarrow> (events, None))"
| "sse_run decode parse (chunk # chunks) p =
     (case sse_push decode parse chunk p of
        (Inl e, _) \<Rightarrow> ([], Some e)
      | (Inr events, p') \<Rightarrow>
          (case sse_run decode parse chunks p' of (evs, err) \<Rightarrow> (events @ evs, err)))"

section \<open>Separators do not move when text arrives\<close>

lemma separator_at_append: "separator_at s = Some n \<Longrightarrow> separator_at (s @ t) = Some n"
  by (cases s; cases "tl s"; cases "tl (tl s)"; cases "tl (tl (tl s))")
    (auto simp: separator_at_def split: if_splits)

lemma find_separator_append:
  "find_separator s = Some (i, n) \<Longrightarrow> find_separator (s @ t) = Some (i, n)"
proof (induction s arbitrary: i)
  case (Cons c s)
  show ?case
  proof (cases "separator_at (c # s)")
    case (Some m)
    with Cons.prems separator_at_append [OF Some, of t] show ?thesis by simp
  next
    case None
    with Cons.prems obtain j where j: "find_separator s = Some (j, n)" and i: "i = Suc j"
      by (auto split: prod.splits)
    have "separator_at (c # s @ t) = None"
    proof (rule ccontr)
      assume "separator_at (c # s @ t) \<noteq> None"
      moreover have "2 \<le> length s" using find_separator_bounds [OF j] by auto
      ultimately show False
        using None j
        by (cases s; cases "tl s"; cases "tl (tl s)")
          (auto simp: separator_at_def split: if_splits)
    qed
    with Cons.IH [OF j] i show ?thesis by simp
  qed
qed simp

text \<open>Draining more text continues from what the buffer held.\<close>

lemma drain_frames_append:
  "drain_frames parse buf = (Inr events, rest) \<Longrightarrow>
   drain_frames parse (buf @ t) =
     (case drain_frames parse (rest @ t) of
        (Inl e, r) \<Rightarrow> (Inl e, r) | (Inr evs, r) \<Rightarrow> (Inr (events @ evs), r))"
proof (induction parse buf arbitrary: events rule: drain_frames.induct)
  case (1 parse buf)
  show ?case
  proof (cases "find_separator buf")
    case None
    with "1.prems" show ?thesis
      by (simp add: drain_frames.simps [of parse buf] split: prod.split sum.split)
  next
    case (Some sep)
    obtain i n where sep: "sep = (i, n)" by (cases sep)
    note S = Some [unfolded sep]
    have bounds: "i \<le> length buf" "i + n \<le> length buf"
      using find_separator_bounds [OF S] by auto
    obtain ev where ev: "parse_checked parse (take i buf) = Inr ev"
      using "1.prems" S by (auto simp: drain_frames.simps [of parse buf] split: sum.splits)
    obtain evs where evs: "drain_frames parse (drop (i + n) buf) = (Inr evs, rest)"
      and events: "events = ev @ evs"
      using "1.prems" S ev
      by (auto simp: drain_frames.simps [of parse buf] split: sum.splits prod.splits)
    note IH = "1.IH" [OF S refl ev evs]
    have "drain_frames parse (buf @ t) =
        (case drain_frames parse (drop (i + n) buf @ t) of
           (Inl e, r) \<Rightarrow> (Inl e, r) | (Inr m, r) \<Rightarrow> (Inr (ev @ m), r))"
      using S bounds ev find_separator_append [OF S, of t]
      by (simp add: drain_frames.simps [of parse "buf @ t"])
    also have "\<dots> = (case drain_frames parse (rest @ t) of
        (Inl e, r) \<Rightarrow> (Inl e, r) | (Inr m, r) \<Rightarrow> (Inr (events @ m), r))"
      unfolding IH by (simp add: events split: prod.split sum.split)
    finally show ?thesis .
  qed
qed

end
