(* ===== verification/Live_Sse_Theorems.thy ===== *)
theory Live_Sse_Theorems
  imports Live_Sse
begin

text \<open>
  What the event stream delivers: only validated events, independently of how the network cuts
  the stream into chunks; and the live keys survive their serialisation.
\<close>

section \<open>Validated events\<close>

text \<open>What a resource key, an origin, a patch and an event on the wire have to be.\<close>

definition wire_key_wf :: "jsval \<Rightarrow> bool" where
  "wire_key_wf v \<longleftrightarrow>
     (\<exists>s. v = JStr s \<and> (\<exists>c\<in>set s. \<not> is_js_space c) \<and> length s \<le> 128 \<and> 0x2C \<notin> set s \<and> (\<forall>c\<in>set s. 0x1F < c))"

definition wire_keys_wf :: "jsval \<Rightarrow> bool" where
  "wire_keys_wf v \<longleftrightarrow> is_array v \<and> length (arr_items v) \<le> 100 \<and> (\<forall>k\<in>set (arr_items v). wire_key_wf k)"

definition wire_origin_wf :: "jsval \<Rightarrow> bool" where
  "wire_origin_wf v \<longleftrightarrow> v = JUndef \<or>
     (\<exists>s. v = JStr s \<and> s \<noteq> [] \<and> length s \<le> 64 \<and> (\<forall>c\<in>set s. 0x21 \<le> c \<and> c \<le> 0x7E))"

definition wire_op :: "jsval \<Rightarrow> string list \<Rightarrow> bool" where
  "wire_op q names \<longleftrightarrow> (\<exists>n\<in>set names. field q ''op'' = JStr (js n))"

definition wire_patch_wf :: "jsval \<Rightarrow> bool" where
  "wire_patch_wf q \<longleftrightarrow>
     isObject q \<and>
     wire_op q [''replace-resource'', ''merge-object'', ''replace-item'', ''remove-item'', ''append-item''] \<and>
     (wire_op q [''replace-resource'', ''merge-object'', ''replace-item'', ''append-item''] \<longrightarrow> has_field q ''value'') \<and>
     (wire_op q [''replace-item'', ''remove-item''] \<longrightarrow>
        has_field q ''id'' \<or> isObject (field q ''match'') \<and> obj_fields (field q ''match'') \<noteq> [])"

definition wire_event_wf :: "jsval \<Rightarrow> bool" where
  "wire_event_wf v \<longleftrightarrow>
     isObject v \<and> field v ''protocol'' = JStr PROTOCOL_VERSION \<and>
     (field v ''type'' = JStr (js ''ready'') \<and> wire_keys_wf (field v ''keys'') \<or>
      field v ''type'' = JStr (js ''invalidate'') \<and> wire_keys_wf (field v ''keys'') \<and>
        wire_origin_wf (field v ''originClientId'') \<or>
      field v ''type'' = JStr (js ''patch'') \<and> isObject (field v ''patches'') \<and>
        length (obj_fields (field v ''patches'')) \<le> 100 \<and>
        (\<forall>(k, qs)\<in>set (obj_fields (field v ''patches'')).
           wire_key_wf (JStr k) \<and> is_array qs \<and> (\<forall>q\<in>set (arr_items qs). wire_patch_wf q)) \<and>
        wire_origin_wf (field v ''originClientId'') \<or>
      field v ''type'' = JStr (js ''resync'') \<and> wire_keys_wf (field v ''keys'') \<and>
        (\<exists>n\<in>set [''overflow'', ''reconnect'', ''broker-recovery'', ''server'']. field v ''reason'' = JStr (js n)))"

lemma js_trim_blank: "js_trim s = [] \<longleftrightarrow> (\<forall>c\<in>set s. is_js_space c)"
proof -
  have "dropWhile is_js_space (rev (dropWhile is_js_space s)) = [] \<longleftrightarrow> (\<forall>c\<in>set (dropWhile is_js_space s). is_js_space c)"
    by (simp add: dropWhile_eq_Nil_conv)
  moreover have "(\<forall>c\<in>set (dropWhile is_js_space s). is_js_space c) \<longleftrightarrow> (\<forall>c\<in>set s. is_js_space c)"
    by (induction s) auto
  ultimately show ?thesis by (simp add: js_trim_def)
qed

lemma wire_key_iff: "is_string v \<and> safe_live_key (str_val v) \<longleftrightarrow> wire_key_wf v"
  by (cases v) (auto simp: wire_key_wf_def safe_live_key_def js_trim_blank list_ex_iff MAX_LIVE_RESOURCE_KEY_LENGTH_def not_le)

lemma assertResourceKeys_iff: "assertResourceKeys v = Inr () \<longleftrightarrow> wire_keys_wf v"
  by (auto simp: assertResourceKeys_def wire_keys_wf_def MAX_LIVE_EVENT_KEYS_def wire_key_iff [symmetric])

lemma assertOriginClientId_iff: "assertOriginClientId v = Inr () \<longleftrightarrow> wire_origin_wf v"
  by (cases v) (auto simp: assertOriginClientId_def wire_origin_wf_def printable_ascii_def
      MAX_LIVE_CLIENT_ID_LENGTH_def list_all_iff)

lemma live_names_distinct:
  "distinct (map js [''replace-resource'', ''merge-object'', ''replace-item'', ''remove-item'', ''append-item''])"
  "distinct (map js [''ready'', ''invalidate'', ''patch'', ''resync''])"
  by code_simp+

lemma assertPatch_iff: "assertPatch q = Inr () \<longleftrightarrow> wire_patch_wf q"
  using live_names_distinct(1)
  by (cases "field q ''op''")
    (auto simp: assertPatch_def wire_patch_wf_def wire_op_def Let_def LIVE_PATCH_OPERATIONS_def)

lemma resync_reason_iff:
  "is_string v \<and> map_of LIVE_RESYNC_REASONS (str_val v) \<noteq> None \<longleftrightarrow>
   (\<exists>n\<in>set [''overflow'', ''reconnect'', ''broker-recovery'', ''server'']. v = JStr (js n))"
  by (cases v) (auto simp: LIVE_RESYNC_REASONS_def)

lemma wire_patch_keys:
  "wire_keys_wf (JArr r (map (\<lambda>p. JStr (fst p)) fs)) \<longleftrightarrow> length fs \<le> 100 \<and> (\<forall>p\<in>set fs. wire_key_wf (JStr (fst p)))"
  by (auto simp: wire_keys_wf_def)

lemma assertLiveEvent_iff: "assertLiveEvent v = Inr () \<longleftrightarrow> wire_event_wf v"
proof -
  have not: "throw_with u e \<noteq> Inr w" for u e and w :: unit by (simp add: throw_with_def split: option.split)
  note checks = assertResourceKeys_iff assertOriginClientId_iff assertPatch_iff wire_patch_keys case_prod_unfold
  show ?thesis
    using live_names_distinct(2) resync_reason_iff [of "field v ''reason''"]
    by (cases "field v ''type'' = JStr (js ''resync'')")
      (simp_all add: assertLiveEvent_def wire_event_wf_def not Let_def checks, blast+)
qed

text \<open>The event an accepted frame gives: the reading of a well-formed value that the text holds.\<close>

definition from_wire :: "json_parse \<Rightarrow> live_event \<Rightarrow> bool" where
  "from_wire parse e \<longleftrightarrow> (\<exists>text v. parse text = Some v \<and> wire_event_wf v \<and> e = live_event_of v)"

lemma parse_checked_ok: "parse_checked parse frame = Inr events \<Longrightarrow> \<forall>e\<in>set events. from_wire parse e"
  by (auto simp: parse_checked_def parseFrame_def split_beta Let_def from_wire_def assertLiveEvent_iff
      split: if_splits option.splits) (rule exI, rule exI, intro conjI, assumption, assumption, rule refl)

lemma drain_frames_ok: "drain_frames parse buf = (Inr events, rest) \<Longrightarrow> \<forall>e\<in>set events. from_wire parse e"
proof (induction parse buf arbitrary: events rule: drain_frames.induct)
  case (1 parse buf)
  show ?case
  proof (cases "find_separator buf")
    case None
    with "1.prems" show ?thesis by (simp add: drain_frames.simps [of parse buf])
  next
    case (Some sep)
    then obtain i n ev evs where S: "find_separator buf = Some (i, n)"
      and ev: "parse_checked parse (take i buf) = Inr ev"
      and evs: "drain_frames parse (drop (i + n) buf) = (Inr evs, rest)" and e: "events = ev @ evs"
      using "1.prems"
      by (cases sep) (auto simp: drain_frames.simps [of parse buf] split: sum.splits prod.splits)
    from "1.IH" [OF S refl ev evs] parse_checked_ok [OF ev] show ?thesis by (auto simp: e)
  qed
qed

lemma drain_ok: "fst (drain parse finish buf) = Inr events \<Longrightarrow> \<forall>e\<in>set events. from_wire parse e"
  using drain_frames_ok [of parse buf] parse_checked_ok [of parse]
  by (auto simp: drain_def split: prod.splits sum.splits if_splits)

section \<open>Chunks\<close>

text \<open>
  What the streaming decoder documents: the text of two chunks is the text of the chunks joined.
\<close>

definition streaming :: "'d text_decoder \<Rightarrow> bool" where
  "streaming decode \<longleftrightarrow>
     (\<forall>d a b. decode d (Some (a @ b)) =
        (let (s, d1) = decode d (Some a); (t, d2) = decode d1 (Some b) in (s @ t, d2)))"

lemma drain_False_Inr_iff:
  "drain parse False buf = (Inr events, rest) \<longleftrightarrow>
   drain_frames parse buf = (Inr events, rest) \<and> assertFrameSize rest = Inr ()"
  by (auto simp: drain_def split: prod.splits sum.splits)

lemma sse_push_Inr_iff:
  "sse_push decode parse chunk p = (Inr events, p') \<longleftrightarrow>
   drain_frames parse (sp_buffer p @ fst (decode (sp_decoder p) (Some chunk))) = (Inr events, sp_buffer p') \<and>
   assertFrameSize (sp_buffer p') = Inr () \<and> sp_decoder p' = snd (decode (sp_decoder p) (Some chunk))"
proof -
  let ?x = "drain parse False (sp_buffer p @ fst (decode (sp_decoder p) (Some chunk)))"
  have "sse_push decode parse chunk p = (Inr events, p') \<longleftrightarrow>
      ?x = (Inr events, sp_buffer p') \<and> sp_decoder p' = snd (decode (sp_decoder p) (Some chunk))"
    by (cases p'; cases ?x) (auto simp: sse_push_def split_beta)
  then show ?thesis by (simp add: drain_False_Inr_iff)
qed

lemma sse_push_join:
  assumes "streaming decode" and "sse_push decode parse a p = (Inr e1, p1)"
    and "sse_push decode parse b p1 = (Inr e2, p2)"
  shows "sse_push decode parse (a @ b) p = (Inr (e1 @ e2), p2)"
proof -
  have "decode (sp_decoder p) (Some (a @ b)) =
      (fst (decode (sp_decoder p) (Some a)) @ fst (decode (sp_decoder p1) (Some b)),
       snd (decode (sp_decoder p1) (Some b)))"
    using assms(1,2) by (simp add: streaming_def sse_push_Inr_iff split_beta Let_def)
  moreover have d: "drain_frames parse (sp_buffer p @ fst (decode (sp_decoder p) (Some a))) =
      (Inr e1, sp_buffer p1)"
    using assms(2) by (simp add: sse_push_Inr_iff)
  have "drain_frames parse ((sp_buffer p @ fst (decode (sp_decoder p) (Some a))) @
      fst (decode (sp_decoder p1) (Some b))) = (Inr (e1 @ e2), sp_buffer p2)"
    unfolding drain_frames_append [OF d] using assms(3) by (simp add: sse_push_Inr_iff)
  ultimately show ?thesis using assms(3) by (simp add: sse_push_Inr_iff)
qed

lemma sse_run_Cons_ok:
  "sse_run decode parse (c # cs) p = (events, None) \<longleftrightarrow>
   (\<exists>e1 p1 e2. sse_push decode parse c p = (Inr e1, p1) \<and>
      sse_run decode parse cs p1 = (e2, None) \<and> events = e1 @ e2)"
  by (auto split: prod.splits sum.splits)

lemma sse_run_join:
  assumes "streaming decode" and "sse_run decode parse (a # b # cs) p = (events, None)"
  shows "sse_run decode parse ((a @ b) # cs) p = (events, None)"
proof -
  obtain e1 p1 e2 p2 e3 where "sse_push decode parse a p = (Inr e1, p1)"
      "sse_push decode parse b p1 = (Inr e2, p2)" "sse_run decode parse cs p2 = (e3, None)"
      "events = e1 @ e2 @ e3"
    using assms(2) unfolding sse_run_Cons_ok by auto
  with sse_push_join [OF assms(1)] show ?thesis unfolding sse_run_Cons_ok by auto
qed

section \<open>Theorems\<close>

text \<open>A decoder for streams of ASCII text.\<close>

definition ascii_decode :: "unit text_decoder" where
  "ascii_decode d c = (case c of None \<Rightarrow> [] | Some bs \<Rightarrow> map ucast bs, d)"

lemma sse_run_ok:
  "\<forall>e\<in>set (fst (sse_run decode parse chunks p)). from_wire parse e"
proof (induction chunks arbitrary: p)
  case Nil
  have "\<forall>e\<in>set events. from_wire parse e" if "fst (sse_finish decode parse p) = Inr events" for events
    using that by (intro drain_ok [of parse True]) (auto simp: sse_finish_def split_beta Let_def)
  then show ?case by (auto split: sum.split)
next
  case (Cons c cs)
  have push: "\<forall>e\<in>set events. from_wire parse e" if "sse_push decode parse c p = (Inr events, p')" for events p'
    using that by (intro drain_ok [of parse False]) (auto simp: sse_push_def split_beta Let_def)
  obtain r p' where r: "sse_push decode parse c p = (r, p')" by (cases "sse_push decode parse c p")
  show ?case
    using push Cons.IH [of p'] by (cases r) (auto simp: r split_beta)
qed

text \<open>
  C30: the client only ever sees well-formed live events. Whatever bytes arrive, in whatever chunks,
  every event the stream yields before it ends or fails is the reading of a JSON value of the text that
  has this protocol version and one of the four types. Its keys, at most 100, are texts of at most 128
  characters, not blank, without comma or control character; an origin is printable ASCII of at most 64
  characters; every patch has one of the five operations, a value where its operation needs one, and an
  id or a non-empty match where its operation names an item; and a resync gives one of the four reasons.
\<close>

theorem sse_events_validated:
  assumes "sse_run decode parse chunks p = (events, failure)" and "e \<in> set events"
  shows "\<exists>text v. parse text = Some v \<and> wire_event_wf v \<and> e = live_event_of v"
  using sse_run_ok [of decode parse chunks p] assms by (simp add: from_wire_def)

definition sample_json :: json_parse where
  "sample_json = (\<lambda>_. Some (JObj 0
     [(js ''protocol'', JStr (js ''fluxfast/1'')), (js ''type'', JStr (js ''ready'')),
      (js ''keys'', JArr 1 [JStr (js ''a'')])]))"

theorem sse_events_validated_witness:
  "\<exists>text v. sample_json text = Some v \<and> wire_event_wf v \<and> LiveReady [js ''a''] = live_event_of v"
proof -
  define parse :: json_parse where "parse = sample_json"
  define f where "f = js ''event: fluxfast'' @ [LF] @ js ''data: {}''"
  define b :: "8 word list" where
    "b = map of_char ''event: fluxfast'' @ [10] @ map of_char ''data: {}'' @ [10, 10]"
  have b: "map ucast b = f @ [LF, LF]" unfolding b_def f_def by code_simp
  have sep: "find_separator (f @ [LF, LF]) = Some (24, 2)" unfolding f_def by code_simp
  have p: "parseFrame parse f = Inr (Some (LiveReady [js ''a'']))" unfolding f_def parse_def by code_simp
  have u: "utf8_length f = 24" "length f = 24" unfolding f_def by code_simp+
  have nil: "drain_frames parse [] = (Inr [], [])" by (simp add: drain_frames.simps)
  have "drain_frames parse (f @ [LF, LF]) = (Inr [LiveReady [js ''a'']], [])"
    using p u nil
    by (simp add: drain_frames.simps [of parse "f @ [LF, LF]"] sep parse_checked_def assertFrameSize_def
        MAX_LIVE_EVENT_BYTES_def throw_if_def)
  then have "sse_run ascii_decode parse [b] \<lparr>sp_decoder = (), sp_buffer = []\<rparr> = ([LiveReady [js ''a'']], None)"
    using b nil by (simp add: sse_push_def sse_finish_def ascii_decode_def drain_def
        assertFrameSize_def MAX_LIVE_EVENT_BYTES_def throw_if_def)
  from sse_events_validated [OF this, of "LiveReady [js ''a'']"] show ?thesis by (simp add: parse_def)
qed

subsection \<open>The events a text determines\<close>

text \<open>
  The reference the chunks are compared with: the events of the frames of the whole text, in order, up
  to the first frame that is refused.
\<close>

function text_events :: "json_parse \<Rightarrow> jstring \<Rightarrow> live_event list \<times> error_class option" where
  "text_events parse buf =
     (case find_separator buf of
        None \<Rightarrow>
          if buf = [] then ([], None)
          else (case parse_checked parse buf of Inl e \<Rightarrow> ([], Some e) | Inr events \<Rightarrow> (events, None))
      | Some (i, n) \<Rightarrow>
          (case parse_checked parse (take i buf) of
             Inl e \<Rightarrow> ([], Some e)
           | Inr events \<Rightarrow>
               (events @ fst (text_events parse (drop (i + n) buf)), snd (text_events parse (drop (i + n) buf)))))"
  by pat_completeness auto
termination
  by (relation "measure (\<lambda>(parse, buf). length buf)") (auto dest: find_separator_bounds)

declare text_events.simps [simp del]

lemma text_events_drain:
  "drain_frames parse buf = (r, rest) \<Longrightarrow>
   (case r of
      Inl e \<Rightarrow> snd (text_events parse (buf @ t)) = Some e
    | Inr events \<Rightarrow>
        text_events parse (buf @ t) =
          (events @ fst (text_events parse (rest @ t)), snd (text_events parse (rest @ t))) \<and>
        find_separator rest = None \<and> (\<exists>s. buf = s @ rest))"
proof (induction parse buf arbitrary: r rule: drain_frames.induct)
  case (1 parse buf)
  show ?case
  proof (cases "find_separator buf")
    case None
    with "1.prems" show ?thesis by (auto simp: drain_frames.simps [of parse buf])
  next
    case (Some sep)
    obtain i n where sep: "sep = (i, n)" by (cases sep)
    note S = Some [unfolded sep]
    have bounds: "i \<le> length buf" "i + n \<le> length buf" using find_separator_bounds [OF S] by auto
    have ref: "text_events parse (buf @ t) =
        (case parse_checked parse (take i buf) of
           Inl e \<Rightarrow> ([], Some e)
         | Inr events \<Rightarrow> (events @ fst (text_events parse (drop (i + n) buf @ t)),
             snd (text_events parse (drop (i + n) buf @ t))))"
      using bounds find_separator_append [OF S, of t]
      by (simp add: text_events.simps [of parse "buf @ t"] del: drop_append) (simp split: sum.split)
    show ?thesis
    proof (cases "parse_checked parse (take i buf)")
      case (Inl e)
      with "1.prems" S have "r = Inl e" by (simp add: drain_frames.simps [of parse buf])
      with ref Inl show ?thesis by simp
    next
      case (Inr ev)
      obtain r' rest' where d: "drain_frames parse (drop (i + n) buf) = (r', rest')"
        by (cases "drain_frames parse (drop (i + n) buf)")
      then have r: "rest' = rest" "r = (case r' of Inl e \<Rightarrow> Inl e | Inr evs \<Rightarrow> Inr (ev @ evs))"
        using "1.prems" S Inr by (auto simp: drain_frames.simps [of parse buf] split: sum.splits)
      have "\<exists>s. buf = s @ rest" if "drop (i + n) buf = u @ rest" for u
        using that by (intro exI [of _ "take (i + n) buf @ u"]) (metis append.assoc append_take_drop_id)
      with "1.IH" [OF S refl Inr d [unfolded r(1)]] ref Inr r(2) show ?thesis by (auto split: sum.splits)
    qed
  qed
qed

text \<open>The text of the chunks, with what the decoder has left at the end.\<close>

fun stream_text :: "'d text_decoder \<Rightarrow> 'd \<Rightarrow> 8 word list list \<Rightarrow> jstring" where
  "stream_text decode d [] = fst (decode d None)"
| "stream_text decode d (c # cs) = fst (decode d (Some c)) @ stream_text decode (snd (decode d (Some c))) cs"

lemma stream_text_concat:
  assumes "streaming decode"
  shows "chunks \<noteq> [] \<Longrightarrow> stream_text decode d chunks = stream_text decode d [concat chunks]"
proof (induction chunks arbitrary: d rule: induct_list012)
  case (3 a b cs)
  have join: "decode d (Some (x @ y)) = (fst (decode d (Some x)) @ fst (decode (snd (decode d (Some x))) (Some y)),
      snd (decode (snd (decode d (Some x))) (Some y)))" for x y
    using assms unfolding streaming_def by (simp add: split_beta Let_def)
  have "stream_text decode d (a # b # cs) = fst (decode d (Some a)) @ stream_text decode (snd (decode d (Some a))) (b # cs)"
    by (simp only: stream_text.simps)
  also have "\<dots> = fst (decode d (Some a)) @ stream_text decode (snd (decode d (Some a))) [concat (b # cs)]"
    using "3.IH"(2) by simp
  also have "\<dots> = stream_text decode d [concat (a # b # cs)]"
    using join [of a "concat (b # cs)"] by simp
  finally show ?case .
qed simp_all

lemma utf8_length_Cons: "utf8_length t \<le> utf8_length (c # t)"
proof (cases t)
  case (Cons d t')
  have "utf8_length (d # t') \<le> 4 + utf8_length t'" if "low_surrogate d"
  proof -
    have "\<not> high_surrogate d"
    proof
      assume "high_surrogate d"
      then have "d \<le> 0xDBFF" by (simp add: high_surrogate_def)
      moreover have "(0xDBFF :: 16 word) < 0xDC00" by simp
      moreover have "0xDC00 \<le> d" using that by (simp add: low_surrogate_def)
      ultimately show False by (meson leD order.strict_trans1)
    qed
    then show ?thesis by (cases t') simp_all
  qed
  then show ?thesis by (simp add: Cons)
qed simp

lemma utf8_length_append: "utf8_length t \<le> utf8_length (s @ t)" "utf8_length s \<le> utf8_length (s @ t)"
proof -
  show "utf8_length t \<le> utf8_length (s @ t)"
  proof (induction s)
    case (Cons c s)
    then show ?case using utf8_length_Cons [of "s @ t" c] by simp
  qed simp
  show "utf8_length s \<le> utf8_length (s @ t)"
  proof (induction s rule: utf8_length.induct)
    case (2 c)
    show ?case by (cases t) simp_all
  qed auto
qed

lemma sse_run_text:
  assumes "sse_run decode parse chunks p = (events, failure)"
    and "whole = sp_buffer p @ stream_text decode (sp_decoder p) chunks"
  shows "(\<exists>more. fst (text_events parse whole) = events @ more) \<and>
    (case failure of
       None \<Rightarrow> text_events parse whole = (events, None)
     | Some e \<Rightarrow> snd (text_events parse whole) = Some e \<or> e = ProtocolError \<and> utf8_length whole > MAX_LIVE_EVENT_BYTES)"
  using assms
proof (induction chunks arbitrary: p events whole)
  case Nil
  let ?b = "sp_buffer p @ fst (decode (sp_decoder p) None)"
  have whole: "whole = ?b" and fin: "(case fst (drain parse True ?b) of Inl e \<Rightarrow> ([], Some e) | Inr evs \<Rightarrow> (evs, None)) = (events, failure)"
    using Nil by (simp_all add: sse_finish_def split_beta)
  obtain r rest where d: "drain_frames parse ?b = (r, rest)" by (cases "drain_frames parse ?b")
  note ref = text_events_drain [OF d, of "[]"]
  show ?case
  proof (cases r)
    case (Inl e)
    then have "failure = Some e" "events = []" using fin d by (simp_all add: drain_def)
    with ref Inl show ?thesis by (simp add: whole)
  next
    case (Inr ev)
    then have none: "find_separator rest = None" using ref by simp
    have t: "text_events parse rest = (if rest = [] then ([], None)
        else case parse_checked parse rest of Inl e \<Rightarrow> ([], Some e) | Inr evs \<Rightarrow> (evs, None))"
      by (simp add: text_events.simps [of parse rest] none)
    show ?thesis
      using fin d ref Inr t
      by (cases "parse_checked parse rest")
        (auto simp: drain_def whole assertFrameSize_def MAX_LIVE_EVENT_BYTES_def throw_if_def split: if_splits)
  qed
next
  case (Cons c cs)
  let ?b = "sp_buffer p @ fst (decode (sp_decoder p) (Some c))"
  let ?d = "snd (decode (sp_decoder p) (Some c))"
  let ?t = "stream_text decode ?d cs"
  have whole: "whole = ?b @ ?t" using Cons.prems(2) by simp
  have push: "sse_push decode parse c p = (fst (drain parse False ?b), \<lparr>sp_decoder = ?d, sp_buffer = snd (drain parse False ?b)\<rparr>)"
    by (simp add: sse_push_def split_beta)
  obtain r rest where d: "drain_frames parse ?b = (r, rest)" by (cases "drain_frames parse ?b")
  note ref = text_events_drain [OF d, of ?t]
  show ?case
  proof (cases r)
    case (Inl e)
    then have "failure = Some e" "events = []" using Cons.prems(1) push d by (simp_all add: drain_def)
    with ref Inl show ?thesis by (simp add: whole)
  next
    case (Inr ev)
    obtain s where s: "?b = s @ rest" using ref Inr by auto
    show ?thesis
    proof (cases "assertFrameSize rest")
      case (Inl e)
      then have "e = ProtocolError" and "MAX_LIVE_EVENT_BYTES < utf8_length rest"
        by (auto simp: assertFrameSize_def throw_if_def split: if_splits)
      moreover have "utf8_length rest \<le> utf8_length whole"
        unfolding whole s using utf8_length_append order.trans by (metis append.assoc)
      ultimately show ?thesis using Cons.prems(1) push d Inr Inl by (auto simp: drain_def)
    next
      case ok: (Inr u)
      let ?p = "\<lparr>sp_decoder = ?d, sp_buffer = rest\<rparr>"
      obtain evs where run: "sse_run decode parse cs ?p = (evs, failure)" and events: "events = ev @ evs"
        using Cons.prems(1) push d Inr ok by (auto simp: drain_def split: prod.splits)
      have "utf8_length (rest @ ?t) \<le> utf8_length whole"
        unfolding whole s using utf8_length_append(1) [of "rest @ ?t" s] by simp
      with Cons.IH [OF run refl] ref Inr show ?thesis
        by (auto simp: whole events split: option.splits)
    qed
  qed
qed

text \<open>
  C31: how the network cuts the stream decides only how early a failure is noticed. For every cutting of
  the bytes, every streaming decoder and every JSON parser, the events the stream yields are an initial
  part of the events of the frames of its text, in order, up to the first refused frame; a run without
  an error yields all of them, so two such runs over the same bytes yield the same events. A run fails
  only with the error of the first refused frame (the events of that chunk are then lost), or with the
  size error, which depends on the cuts but needs a stream of more than one mebibyte.
\<close>

theorem sse_chunking_irrelevant:
  assumes "streaming decode" and "chunks \<noteq> []"
    and "sse_run decode parse chunks p = (events, failure)"
    and "whole = sp_buffer p @ stream_text decode (sp_decoder p) [concat chunks]"
  shows "(\<exists>more. fst (text_events parse whole) = events @ more) \<and>
    (case failure of
       None \<Rightarrow> text_events parse whole = (events, None)
     | Some e \<Rightarrow> snd (text_events parse whole) = Some e \<or> e = ProtocolError \<and> utf8_length whole > 1048576)"
proof -
  have "whole = sp_buffer p @ stream_text decode (sp_decoder p) chunks"
    unfolding assms(4) stream_text_concat [OF assms(1,2)] ..
  from sse_run_text [OF assms(3) this] show ?thesis by (simp add: MAX_LIVE_EVENT_BYTES_def split: option.splits)
qed

theorem sse_chunking_irrelevant_witness:
  "streaming ascii_decode \<and> text_events (\<lambda>_. None) [58, 10, 10] = ([], None)"
proof -
  have s: "streaming ascii_decode" by (simp add: streaming_def ascii_decode_def)
  have "sse_run ascii_decode (\<lambda>_. None) [[58, 10], [10]] \<lparr>sp_decoder = (), sp_buffer = []\<rparr> = ([], None)"
    by (simp add: sse_push_def sse_finish_def ascii_decode_def drain_def drain_frames.simps
        separator_at_def parse_checked_def assertFrameSize_def parseFrame_def MAX_LIVE_EVENT_BYTES_def
        throw_if_def)
  from sse_chunking_irrelevant [OF s _ this refl] s show ?thesis by (simp add: ascii_decode_def)
qed

text \<open>
  The live keys survive their header: splitting a serialised key list at the commas gives the
  requested keys, sorted and without duplicates, and each of them is safe.
\<close>

lemma live_keys_roundtrip:
  assumes "serializeLiveKeys keys = Inr s"
  shows "split_on 0x2C s = sort (jset_of keys) \<and> set (split_on 0x2C s) = set keys \<and>
    list_all safe_live_key (split_on 0x2C s) \<and> length (split_on 0x2C s) \<le> 100 \<and>
    utf8_length s \<le> 16384"
proof -
  have s: "s = join_with (js '','') (sort (jset_of keys))" and ne: "keys \<noteq> []"
    and safe: "list_all safe_live_key (sort (jset_of keys))"
    and len: "length (sort (jset_of keys)) \<le> 100" "utf8_length s \<le> 16384"
    using assms
    by (auto simp: serializeLiveKeys_def Let_def MAX_LIVE_EVENT_KEYS_def MAX_LIVE_KEYS_HEADER_BYTES_def
        list_all_iff list_ex_iff split: if_splits)
  have "sort (jset_of keys) \<noteq> []" using ne by (metis set_empty set_jset_of set_sort)
  then have "split_on 0x2C s = sort (jset_of keys)"
    unfolding s js_comma by (rule split_on_join) (use safe in \<open>auto simp: list_all_iff safe_live_key_def\<close>)
  with safe len show ?thesis by simp
qed

end
