(* ===== verification/Live_Manager.thy ===== *)
theory Live_Manager
  imports Live_Protocol
begin

text \<open>
  The lifecycle of the live connection (\<open>LiveManager\<close> in \<open>packages/core/src/live/manager.ts\<close>).

  Listeners and the transport run while the manager is in the middle of an operation and may call
  it again, so they are functions on the manager's state: \<open>listen i note\<close> is what listener \<open>i\<close>
  does when it is told \<open>note\<close>, with a flag that says whether it threw, and \<open>open_connection\<close> is
  \<open>transport.connect\<close>. The asynchronous parts are operations of their own: a consumer of a
  connection receives an event, the end of the stream or an error, the reconnection timer fires,
  and the network goes online or offline. Numbers name listeners, connections, manifests and
  timers; \<open>lostTimers\<close> are the timers whose handle was overwritten by a later one, with the attempt they
  were set for: they can no longer be cleared and still fire. \<open>closed\<close> and \<open>finished\<close> record the connections the manager closed and those whose
  consumer has ended. Delays are exact rationals.
\<close>

section \<open>State\<close>

datatype live_status = LsIdle | LsConnecting | LsConnected | LsReconnecting | LsOffline | LsError

record live_snapshot =
  ls_status :: live_status
  ls_connected :: bool
  ls_reconnectAttempt :: nat
  ls_lastEventAt :: "nat option"

record live_manifest =
  mf_ref :: nat
  mf_url :: jstring
  mf_keys :: "rkey list"

datatype close_reason = CloseLifecycle | CloseStreamEnd | CloseError | CloseOffline

datatype event_type = EvReady | EvInvalidate | EvPatch | EvResync

datatype live_diagnostic =
    DConnectStart nat nat
  | DConnectOpen nat nat
  | DReconnect nat nat
  | DConnectClose nat nat close_reason bool
  | DConnectError nat nat
  | DEvent event_type nat

datatype live_note =
    NoteStatus
  | NoteDiagnostic live_diagnostic
  | NoteEvent live_event
  | NoteError error_class

record consumer =
  co_connection :: nat
  co_generation :: nat
  co_attempt :: nat

record live_manager =
  lm_clientId :: jstring
  lm_initialDelay :: rat
  lm_maxDelay :: rat
  lm_jitter :: rat
  lm_onEvent :: "callback option"
  lm_onError :: "callback option"
  lm_subscribers :: "callback list"
  lm_eventSubscribers :: "callback list"
  lm_diagnosticSubscribers :: "callback list"
  lm_snapshot :: live_snapshot
  lm_manifest :: "live_manifest option"
  lm_identity :: "jstring option"
  lm_connection :: "nat option"
  lm_timer :: "(nat \<times> nat \<times> rat) option"
  lm_lostTimers :: "(nat \<times> nat) list"
  lm_networkSubscribed :: bool
  lm_generation :: nat
  lm_desired :: bool
  lm_consumers :: "consumer list"
  lm_closed :: "nat list"
  lm_finished :: "nat list"
  lm_next :: nat

record live_env =
  listen :: "callback \<Rightarrow> live_note \<Rightarrow> live_manager \<Rightarrow> bool \<times> live_manager"
  open_connection :: "live_manifest \<Rightarrow> live_manager \<Rightarrow> (error_class, unit) result \<times> live_manager"
  is_online :: "live_manager \<Rightarrow> bool"
  clock :: "live_manager \<Rightarrow> nat"
  random_sample :: "live_manager \<Rightarrow> rat option"

definition INITIAL_STATUS :: live_snapshot where
  "INITIAL_STATUS = \<lparr>ls_status = LsIdle, ls_connected = False, ls_reconnectAttempt = 0, ls_lastEventAt = None\<rparr>"

definition DEFAULT_LIVE_RECONNECT_INITIAL_DELAY_MS :: rat where
  "DEFAULT_LIVE_RECONNECT_INITIAL_DELAY_MS = 500"

definition DEFAULT_LIVE_RECONNECT_MAX_DELAY_MS :: rat where
  "DEFAULT_LIVE_RECONNECT_MAX_DELAY_MS = 10000"

definition DEFAULT_LIVE_RECONNECT_JITTER :: rat where
  "DEFAULT_LIVE_RECONNECT_JITTER = 1 / 5"

section \<open>Construction\<close>

definition assertReconnectOptions :: "jnum \<Rightarrow> jnum \<Rightarrow> jnum \<Rightarrow> (error_class, unit) result" where
  "assertReconnectOptions initialDelay maxDelay jitter =
     andThen (throw_if (\<not> num_finite initialDelay \<or> num_val initialDelay \<le> 0) RangeError) (\<lambda>_.
     andThen (throw_if (\<not> num_finite maxDelay \<or> num_val maxDelay < num_val initialDelay) RangeError) (\<lambda>_.
     throw_if (\<not> num_finite jitter \<or> num_val jitter < 0 \<or> num_val jitter > 1) RangeError))"

record live_options =
  lo_clientId :: "jstring option"
  lo_onEvent :: "callback option"
  lo_onError :: "callback option"
  lo_initialDelay :: "jnum option"
  lo_maxDelay :: "jnum option"
  lo_jitter :: "jnum option"

text \<open>\<open>fresh\<close> is the identity \<open>createClientId\<close> would create.\<close>

definition new_live_manager :: "jstring \<Rightarrow> live_options \<Rightarrow> (error_class, live_manager) result" where
  "new_live_manager fresh options =
     andThen (assertClientId (lo_clientId options)) (\<lambda>_.
       let initialDelay = (case lo_initialDelay options of Some n \<Rightarrow> n | None \<Rightarrow> num_of_int 500);
           maxDelay = (case lo_maxDelay options of Some n \<Rightarrow> n | None \<Rightarrow> num_of_int 10000);
           jitter = (case lo_jitter options of Some n \<Rightarrow> n | None \<Rightarrow> Dec 2 (-1))
       in andThen (assertReconnectOptions initialDelay maxDelay jitter) (\<lambda>_.
         Inr \<lparr>lm_clientId = (case lo_clientId options of Some c \<Rightarrow> c | None \<Rightarrow> fresh),
              lm_initialDelay = num_val initialDelay, lm_maxDelay = num_val maxDelay,
              lm_jitter = num_val jitter,
              lm_onEvent = lo_onEvent options, lm_onError = lo_onError options,
              lm_subscribers = [], lm_eventSubscribers = [], lm_diagnosticSubscribers = [],
              lm_snapshot = INITIAL_STATUS, lm_manifest = None, lm_identity = None,
              lm_connection = None, lm_timer = None, lm_lostTimers = [], lm_networkSubscribed = False,
              lm_generation = 0, lm_desired = False, lm_consumers = [], lm_closed = [],
              lm_finished = [], lm_next = 0\<rparr>))"

section \<open>Notifications\<close>

definition reportError :: "live_env \<Rightarrow> error_class \<Rightarrow> live_manager \<Rightarrow> live_manager" where
  "reportError env err m =
     (case lm_onError m of None \<Rightarrow> m | Some i \<Rightarrow> snd (listen env i (NoteError err) m))"

text \<open>Call a list of listeners; \<open>report\<close> says whether what they throw is reported.\<close>

fun call_listeners :: "live_env \<Rightarrow> bool \<Rightarrow> live_note \<Rightarrow> callback list \<Rightarrow> live_manager \<Rightarrow> live_manager" where
  "call_listeners env report nt [] m = m"
| "call_listeners env report nt (i # ls) m =
     (let (threw, m1) = listen env i nt m;
          m2 = (if threw \<and> report then reportError env OtherError m1 else m1)
      in call_listeners env report nt ls m2)"

definition setSnapshot :: "live_env \<Rightarrow> live_snapshot \<Rightarrow> live_manager \<Rightarrow> live_manager" where
  "setSnapshot env nxt m =
     (if nxt = lm_snapshot m then m
      else call_listeners env True NoteStatus (lm_subscribers m) (m\<lparr>lm_snapshot := nxt\<rparr>))"

definition emitDiagnostic :: "live_env \<Rightarrow> live_diagnostic \<Rightarrow> live_manager \<Rightarrow> live_manager" where
  "emitDiagnostic env d m =
     call_listeners env False (NoteDiagnostic d) (lm_diagnosticSubscribers m) m"

definition emitEvent :: "live_env \<Rightarrow> live_event \<Rightarrow> live_manager \<Rightarrow> live_manager" where
  "emitEvent env event m =
     call_listeners env True (NoteEvent event)
       ((case lm_onEvent m of None \<Rightarrow> [] | Some i \<Rightarrow> [i]) @ lm_eventSubscribers m) m"

definition event_type_of :: "live_event \<Rightarrow> event_type" where
  "event_type_of e =
     (case e of LiveReady _ \<Rightarrow> EvReady | LiveInvalidate _ _ \<Rightarrow> EvInvalidate
      | LivePatch _ _ \<Rightarrow> EvPatch | LiveResync _ _ \<Rightarrow> EvResync)"

definition event_key_count :: "live_event \<Rightarrow> nat" where
  "event_key_count e =
     (case e of LiveReady ks \<Rightarrow> length ks | LiveInvalidate ks _ \<Rightarrow> length ks
      | LivePatch ps _ \<Rightarrow> length ps | LiveResync ks _ \<Rightarrow> length ks)"

definition dispatchEvent :: "live_env \<Rightarrow> live_event \<Rightarrow> nat \<Rightarrow> live_manager \<Rightarrow> bool \<times> live_manager" where
  "dispatchEvent env event generation m =
     (let m1 = emitDiagnostic env (DEvent (event_type_of event) (event_key_count event)) m
      in if generation \<noteq> lm_generation m1 then (False, m1)
         else
           let m2 = emitEvent env event m1
           in (generation = lm_generation m2, m2))"

section \<open>Connections and timers\<close>

definition manifest_key_count :: "live_manager \<Rightarrow> nat" where
  "manifest_key_count m = (case lm_manifest m of None \<Rightarrow> 0 | Some mf \<Rightarrow> length (mf_keys mf))"

definition cancelReconnect :: "live_manager \<Rightarrow> live_manager" where
  "cancelReconnect m = m\<lparr>lm_timer := None\<rparr>"

definition close_connection :: "nat \<Rightarrow> live_manager \<Rightarrow> live_manager" where
  "close_connection c m = m\<lparr>lm_closed := jset_add c (lm_closed m)\<rparr>"

definition stopConnection :: "live_env \<Rightarrow> close_reason \<Rightarrow> bool \<Rightarrow> live_manager \<Rightarrow> live_manager" where
  "stopConnection env reason willReconnect m =
     (let m1 = m\<lparr>lm_generation := lm_generation m + 1\<rparr>;
          connection = lm_connection m1;
          m2 = m1\<lparr>lm_connection := None\<rparr>
      in case connection of
           None \<Rightarrow> m2
         | Some c \<Rightarrow>
             close_connection c
               (emitDiagnostic env
                 (DConnectClose (manifest_key_count m2) (ls_reconnectAttempt (lm_snapshot m2))
                    reason willReconnect) m2))"

definition setOffline :: "live_env \<Rightarrow> nat \<Rightarrow> live_manager \<Rightarrow> live_manager" where
  "setOffline env reconnectAttempt m =
     (let m1 = cancelReconnect m
      in setSnapshot env ((lm_snapshot m1)\<lparr>ls_status := LsOffline, ls_connected := False,
           ls_reconnectAttempt := reconnectAttempt\<rparr>) m1)"

definition ensureNetworkSubscription :: "live_manager \<Rightarrow> live_manager" where
  "ensureNetworkSubscription m = m\<lparr>lm_networkSubscribed := True\<rparr>"

definition reconnectDelay :: "live_env \<Rightarrow> nat \<Rightarrow> live_manager \<Rightarrow> rat" where
  "reconnectDelay env attempt m =
     (let exponent = min (attempt - 1) 30;
          base = min (lm_initialDelay m * 2 ^ exponent) (lm_maxDelay m);
          normalizedSample = (case random_sample env m of
                                Some sample \<Rightarrow> min 1 (max 0 sample) | None \<Rightarrow> 1 / 2);
          jitterFactor = 1 + lm_jitter m * (2 * normalizedSample - 1)
      in min (lm_maxDelay m) (max 0 (of_int \<lfloor>base * jitterFactor + 1 / 2\<rfloor>)))"

text \<open>Assigning \<open>reconnectTimer\<close> forgets the handle it held.\<close>

definition forget_timer :: "live_manager \<Rightarrow> live_manager" where
  "forget_timer m =
     (case lm_timer m of
        None \<Rightarrow> m
      | Some (t, reconnectAttempt, _) \<Rightarrow>
          m\<lparr>lm_timer := None, lm_lostTimers := (t, reconnectAttempt) # lm_lostTimers m\<rparr>)"

definition scheduleReconnect :: "live_env \<Rightarrow> bool \<Rightarrow> live_manager \<Rightarrow> live_manager" where
  "scheduleReconnect env errorState m =
     (let m1 = cancelReconnect m in
      if \<not> lm_desired m1 \<or> lm_manifest m1 = None then m1
      else
        let reconnectAttempt = max 1 (ls_reconnectAttempt (lm_snapshot m1) + 1) in
        if \<not> is_online env m1 then setOffline env reconnectAttempt m1
        else
          let m2 = setSnapshot env ((lm_snapshot m1)\<lparr>
                     ls_status := (if errorState then LsError else LsReconnecting),
                     ls_connected := False, ls_reconnectAttempt := reconnectAttempt\<rparr>) m1
          in if \<not> lm_desired m2 \<or> lm_manifest m2 = None \<or> lm_connection m2 \<noteq> None then m2
             else (forget_timer m2)
                    \<lparr>lm_timer := Some (lm_next m2, reconnectAttempt, reconnectDelay env reconnectAttempt m2),
                     lm_next := Suc (lm_next m2)\<rparr>)"

definition handleConnectionError :: "live_env \<Rightarrow> nat \<Rightarrow> error_class \<Rightarrow> live_manager \<Rightarrow> live_manager" where
  "handleConnectionError env generation err m =
     (if generation \<noteq> lm_generation m then m
      else
        let hadConnection = (lm_connection m \<noteq> None);
            m1 = m\<lparr>lm_connection := None\<rparr>;
            m2 = emitDiagnostic env
                   (DConnectError (manifest_key_count m1) (ls_reconnectAttempt (lm_snapshot m1))) m1;
            m3 = (if hadConnection then
                    emitDiagnostic env
                      (DConnectClose (manifest_key_count m2) (ls_reconnectAttempt (lm_snapshot m2))
                        CloseError (lm_desired m2)) m2
                  else m2);
            m4 = reportError env err m3
        in if generation \<noteq> lm_generation m4 then m4
           else if lm_desired m4 then scheduleReconnect env True m4
           else setSnapshot env ((lm_snapshot m4)\<lparr>ls_status := LsError, ls_connected := False\<rparr>) m4)"

text \<open>The test that startConnection repeats after every call out.\<close>

definition still_wanted :: "nat \<Rightarrow> live_manifest \<Rightarrow> live_manager \<Rightarrow> bool" where
  "still_wanted generation manifest m \<longleftrightarrow>
     generation = lm_generation m \<and> lm_desired m \<and>
     map_option mf_ref (lm_manifest m) = Some (mf_ref manifest)"

text \<open>The end of startConnection: the transport is called, and its connection is taken into use.\<close>

definition open_stream :: "live_env \<Rightarrow> live_manifest \<Rightarrow> nat \<Rightarrow> nat \<Rightarrow> live_manager \<Rightarrow> live_manager" where
  "open_stream env manifest generation reconnectAttempt m =
     (case open_connection env manifest m of
        (Inl err, m1) \<Rightarrow> handleConnectionError env generation err m1
      | (Inr _, m1) \<Rightarrow>
          let c = lm_next m1;
              m2 = m1\<lparr>lm_next := Suc c\<rparr>
          in if \<not> still_wanted generation manifest m2 then close_connection c m2
             else m2\<lparr>lm_connection := Some c,
                     lm_consumers := lm_consumers m2 @
                       [\<lparr>co_connection = c, co_generation = generation,
                         co_attempt = reconnectAttempt\<rparr>]\<rparr>)"

definition startConnection :: "live_env \<Rightarrow> live_status \<Rightarrow> nat \<Rightarrow> live_manager \<Rightarrow> live_manager" where
  "startConnection env status reconnectAttempt m =
     (case lm_manifest m of
        None \<Rightarrow> m
      | Some manifest \<Rightarrow>
          if \<not> lm_desired m \<or> lm_connection m \<noteq> None then m
          else
            let generation = lm_generation m + 1;
                m1 = m\<lparr>lm_generation := generation\<rparr>;
                m2 = setSnapshot env ((lm_snapshot m1)\<lparr>ls_status := status, ls_connected := False,
                       ls_reconnectAttempt := reconnectAttempt\<rparr>) m1
            in if \<not> still_wanted generation manifest m2 \<or> lm_connection m2 \<noteq> None then m2
               else
                 let m3 = (if status = LsReconnecting
                           then emitDiagnostic env (DReconnect (length (mf_keys manifest)) reconnectAttempt) m2
                           else m2);
                     m4 = emitDiagnostic env (DConnectStart (length (mf_keys manifest)) reconnectAttempt) m3
                 in if \<not> still_wanted generation manifest m4 \<or> lm_connection m4 \<noteq> None then m4
                    else
                      open_stream env manifest generation reconnectAttempt m4)"

section \<open>Public operations\<close>

definition normalizeManifest ::
  "jstring \<Rightarrow> rkey list \<Rightarrow> live_manager \<Rightarrow> (error_class, live_manifest option) result" where
  "normalizeManifest url keys m =
     (if keys = [] then Inr None
      else if url = [] then Inl TypeError
      else andThen (serializeLiveKeys keys) (\<lambda>s.
        Inr (Some \<lparr>mf_ref = lm_next m, mf_url = url, mf_keys = split_on 0x2C s\<rparr>)))"

definition manifest_identity :: "live_manifest \<Rightarrow> jstring" where
  "manifest_identity mf =
     the (json_text (JArr 0 [JStr (mf_url mf), JArr 0 (map JStr (mf_keys mf))]))"

definition updateManifest ::
  "live_env \<Rightarrow> jstring \<Rightarrow> rkey list \<Rightarrow> live_manager \<Rightarrow> (error_class, unit) result \<times> live_manager" where
  "updateManifest env url keys m =
     (case normalizeManifest url keys m of
        Inl err \<Rightarrow> (Inl err, m)
      | Inr nextManifest \<Rightarrow>
          let nextIdentity = map_option manifest_identity nextManifest in
          if nextIdentity = lm_identity m then (Inr (), m)
          else
            let m0 = m\<lparr>lm_next := Suc (lm_next m)\<rparr>;
                shouldReconnect = lm_desired m0;
                m1 = cancelReconnect m0;
                m2 = stopConnection env CloseLifecycle shouldReconnect m1;
                m3 = m2\<lparr>lm_manifest := nextManifest, lm_identity := nextIdentity\<rparr>;
                m4 = setSnapshot env INITIAL_STATUS m3
            in (Inr (),
                if shouldReconnect \<and> nextManifest \<noteq> None then
                  let m5 = ensureNetworkSubscription m4
                  in if is_online env m5 then startConnection env LsConnecting 0 m5
                     else setOffline env 1 m5
                else if nextManifest = None then m4\<lparr>lm_networkSubscribed := False\<rparr>
                else m4))"

definition live_connect :: "live_env \<Rightarrow> live_manager \<Rightarrow> live_manager" where
  "live_connect env m =
     (let m1 = m\<lparr>lm_desired := True\<rparr> in
      if lm_manifest m1 = None \<or> lm_connection m1 \<noteq> None \<or> lm_timer m1 \<noteq> None then m1
      else
        let m2 = ensureNetworkSubscription m1
        in if \<not> is_online env m2 then setOffline env 1 m2
           else startConnection env LsConnecting 0 m2)"

definition live_disconnect :: "live_env \<Rightarrow> live_manager \<Rightarrow> live_manager" where
  "live_disconnect env m =
     (let m1 = cancelReconnect (m\<lparr>lm_desired := False\<rparr>);
          m2 = stopConnection env CloseLifecycle False m1;
          m3 = m2\<lparr>lm_networkSubscribed := False\<rparr>
      in setSnapshot env ((lm_snapshot m3)\<lparr>ls_status := LsIdle, ls_connected := False,
           ls_reconnectAttempt := 0\<rparr>) m3)"

definition live_reconnect :: "live_env \<Rightarrow> live_manager \<Rightarrow> live_manager" where
  "live_reconnect env m =
     (let m1 = m\<lparr>lm_desired := True\<rparr> in
      if lm_manifest m1 = None then setSnapshot env INITIAL_STATUS m1
      else
        let m2 = ensureNetworkSubscription m1;
            reconnectAttempt = ls_reconnectAttempt (lm_snapshot m2) + 1;
            m3 = cancelReconnect m2;
            m4 = stopConnection env CloseLifecycle True m3
        in if \<not> is_online env m4 then setOffline env (max 1 reconnectAttempt) m4
           else startConnection env LsReconnecting reconnectAttempt m4)"

definition live_clear :: "live_env \<Rightarrow> live_manager \<Rightarrow> live_manager" where
  "live_clear env m =
     (let m1 = cancelReconnect (m\<lparr>lm_desired := False\<rparr>);
          m2 = stopConnection env CloseLifecycle False m1;
          m3 = m2\<lparr>lm_networkSubscribed := False, lm_manifest := None, lm_identity := None\<rparr>
      in setSnapshot env INITIAL_STATUS m3)"

definition live_destroy :: "live_env \<Rightarrow> live_manager \<Rightarrow> live_manager" where
  "live_destroy env m =
     (live_clear env m)\<lparr>lm_subscribers := [], lm_eventSubscribers := [], lm_diagnosticSubscribers := []\<rparr>"

definition live_subscribe :: "callback \<Rightarrow> live_manager \<Rightarrow> live_manager" where
  "live_subscribe i m = m\<lparr>lm_subscribers := jset_add i (lm_subscribers m)\<rparr>"

definition live_unsubscribe :: "callback \<Rightarrow> live_manager \<Rightarrow> live_manager" where
  "live_unsubscribe i m = m\<lparr>lm_subscribers := jset_delete i (lm_subscribers m)\<rparr>"

definition live_subscribeEvents :: "callback \<Rightarrow> live_manager \<Rightarrow> live_manager" where
  "live_subscribeEvents i m = m\<lparr>lm_eventSubscribers := jset_add i (lm_eventSubscribers m)\<rparr>"

definition live_unsubscribeEvents :: "callback \<Rightarrow> live_manager \<Rightarrow> live_manager" where
  "live_unsubscribeEvents i m = m\<lparr>lm_eventSubscribers := jset_delete i (lm_eventSubscribers m)\<rparr>"

definition live_subscribeDiagnostics :: "callback \<Rightarrow> live_manager \<Rightarrow> live_manager" where
  "live_subscribeDiagnostics i m =
     m\<lparr>lm_diagnosticSubscribers := jset_add i (lm_diagnosticSubscribers m)\<rparr>"

definition live_unsubscribeDiagnostics :: "callback \<Rightarrow> live_manager \<Rightarrow> live_manager" where
  "live_unsubscribeDiagnostics i m =
     m\<lparr>lm_diagnosticSubscribers := jset_delete i (lm_diagnosticSubscribers m)\<rparr>"

section \<open>What happens later\<close>

definition handleOnline :: "live_env \<Rightarrow> live_manager \<Rightarrow> live_manager" where
  "handleOnline env m =
     (if \<not> lm_desired m \<or> lm_manifest m = None \<or> lm_connection m \<noteq> None then m
      else
        let reconnectAttempt = max 1 (ls_reconnectAttempt (lm_snapshot m))
        in startConnection env LsReconnecting reconnectAttempt (cancelReconnect m))"

definition handleOffline :: "live_env \<Rightarrow> live_manager \<Rightarrow> live_manager" where
  "handleOffline env m =
     (if \<not> lm_desired m \<or> lm_manifest m = None then m
      else
        let reconnectAttempt =
              (if ls_status (lm_snapshot m) = LsOffline then max 1 (ls_reconnectAttempt (lm_snapshot m))
               else max 1 (ls_reconnectAttempt (lm_snapshot m) + 1));
            m1 = cancelReconnect m;
            m2 = stopConnection env CloseOffline True m1
        in setOffline env reconnectAttempt m2)"

text \<open>
  The timer of \<open>scheduleReconnect\<close>. A timer that was cancelled does not fire; one whose handle was
  overwritten does, and its callback forgets the handle of the timer that took its place.
\<close>

definition timer_body :: "live_env \<Rightarrow> nat \<Rightarrow> live_manager \<Rightarrow> live_manager" where
  "timer_body env reconnectAttempt m =
     (if \<not> lm_desired m \<or> lm_manifest m = None \<or> lm_connection m \<noteq> None then m
      else if \<not> is_online env m then setOffline env reconnectAttempt m
      else startConnection env LsReconnecting reconnectAttempt m)"

definition timer_fires :: "live_env \<Rightarrow> nat \<Rightarrow> live_manager \<Rightarrow> live_manager" where
  "timer_fires env t m =
     (case lm_timer m of
        Some (t', reconnectAttempt, delay) \<Rightarrow>
          if t' = t then timer_body env reconnectAttempt (m\<lparr>lm_timer := None\<rparr>)
          else
            (case map_of (lm_lostTimers m) t of
               None \<Rightarrow> m
             | Some lostAttempt \<Rightarrow>
                 timer_body env lostAttempt
                   (m\<lparr>lm_timer := None,
                      lm_lostTimers := (t', reconnectAttempt) # filter (\<lambda>(i, _). i \<noteq> t) (lm_lostTimers m)\<rparr>))
      | None \<Rightarrow>
          (case map_of (lm_lostTimers m) t of
             None \<Rightarrow> m
           | Some lostAttempt \<Rightarrow>
               timer_body env lostAttempt
                 (m\<lparr>lm_lostTimers := filter (\<lambda>(i, _). i \<noteq> t) (lm_lostTimers m)\<rparr>)))"

text \<open>A consumer returns: the loop over its connection is left, which closes the stream.\<close>

definition finish_consumer :: "consumer \<Rightarrow> live_manager \<Rightarrow> live_manager" where
  "finish_consumer co m =
     m\<lparr>lm_consumers := removeAll co (lm_consumers m),
       lm_finished := jset_add (co_connection co) (lm_finished m)\<rparr>"

text \<open>The body of the loop of \<open>consume\<close> for one event.\<close>

definition consume_event :: "live_env \<Rightarrow> consumer \<Rightarrow> live_event \<Rightarrow> live_manager \<Rightarrow> live_manager" where
  "consume_event env co event m =
     (if co \<notin> set (lm_consumers m) then m
      else if co_generation co \<noteq> lm_generation m then finish_consumer co m
      else
        let ready = (event_type_of event = EvReady);
            reconnectManifest = (if ready \<and> co_attempt co > 0 then lm_manifest m else None);
            m1 = setSnapshot env ((lm_snapshot m)\<lparr>
                   ls_status := (if ready then LsConnected else ls_status (lm_snapshot m)),
                   ls_connected := (if ready then True else ls_connected (lm_snapshot m)),
                   ls_reconnectAttempt := (if ready then 0 else ls_reconnectAttempt (lm_snapshot m)),
                   ls_lastEventAt := Some (clock env m)\<rparr>) m
        in if co_generation co \<noteq> lm_generation m1 then finish_consumer co m1
           else
             let m2 = (if ready then emitDiagnostic env
                         (DConnectOpen (event_key_count event) (co_attempt co)) m1 else m1);
                 (alive, m3) = dispatchEvent env event (co_generation co) m2
             in if \<not> alive then finish_consumer co m3
                else
                  (case reconnectManifest of
                     None \<Rightarrow> m3
                   | Some manifest \<Rightarrow>
                       if co_generation co = lm_generation m3 \<and>
                          map_option mf_ref (lm_manifest m3) = Some (mf_ref manifest)
                       then
                         let (alive', m4) = dispatchEvent env
                               (LiveResync (mf_keys manifest) ReconnectReason) (co_generation co) m3
                         in if \<not> alive' then finish_consumer co m4 else m4
                       else m3))"

definition consume_end :: "live_env \<Rightarrow> consumer \<Rightarrow> live_manager \<Rightarrow> live_manager" where
  "consume_end env co m =
     (if co \<notin> set (lm_consumers m) then m
      else
        let m0 = finish_consumer co m in
        if co_generation co \<noteq> lm_generation m0 then m0
        else
          let m1 = m0\<lparr>lm_connection := None\<rparr>;
              m2 = emitDiagnostic env (DConnectClose (manifest_key_count m1) (co_attempt co)
                     CloseStreamEnd (lm_desired m1)) m1
          in if lm_desired m2 then scheduleReconnect env False m2
             else setSnapshot env ((lm_snapshot m2)\<lparr>ls_status := LsIdle, ls_connected := False\<rparr>) m2)"

definition consume_error :: "live_env \<Rightarrow> consumer \<Rightarrow> error_class \<Rightarrow> live_manager \<Rightarrow> live_manager" where
  "consume_error env co err m =
     (if co \<notin> set (lm_consumers m) then m
      else handleConnectionError env (co_generation co) err (finish_consumer co m))"

end
