(* ===== verification/Live_Streams.thy ===== *)
theory Live_Streams
  imports Live_Manager
begin

text \<open>
  The streams of a live manager: at most one is in use, and every other one was closed. This holds
  although listeners and transports may call the manager while it is in the middle of an
  operation. What they may do is stated as an interface, the locale \<open>live_listeners\<close>; the
  operations of the manager satisfy it when their own listeners do, so listeners that call the
  manager to any depth satisfy it.
\<close>

section \<open>Invariant\<close>

text \<open>\<open>P\<close> are the connections that a running operation is about to close.\<close>

definition streams_ok :: "nat set \<Rightarrow> live_manager \<Rightarrow> bool" where
  "streams_ok P m \<longleftrightarrow>
     distinct (map co_connection (lm_consumers m)) \<and>
     (\<forall>co\<in>set (lm_consumers m).
        co_connection co < lm_next m \<and> co_generation co \<le> lm_generation m \<and>
        (co_generation co = lm_generation m \<longrightarrow> lm_connection m = Some (co_connection co)) \<and>
        (lm_connection m = Some (co_connection co) \<or> co_connection co \<in> set (lm_closed m) \<union> P)) \<and>
     (\<forall>c. lm_connection m = Some c \<longrightarrow>
        (\<exists>co\<in>set (lm_consumers m). co_connection co = c \<and> co_generation co = lm_generation m))"

text \<open>What a call from a listener may do.\<close>

definition keeps_streams :: "(live_manager \<Rightarrow> live_manager) \<Rightarrow> bool" where
  "keeps_streams f \<longleftrightarrow>
     (\<forall>m. (\<forall>P. streams_ok P m \<longrightarrow> streams_ok P (f m)) \<and> lm_generation m \<le> lm_generation (f m) \<and>
          (lm_generation (f m) = lm_generation m \<longrightarrow>
             lm_connection (f m) = lm_connection m))"

lemma keeps_streams_id: "keeps_streams (\<lambda>m. m)"
  by (simp add: keeps_streams_def)

lemma keeps_streams_comp: "keeps_streams f \<Longrightarrow> keeps_streams g \<Longrightarrow> keeps_streams (\<lambda>m. g (f m))"
  unfolding keeps_streams_def by (metis order_antisym order_trans)

text \<open>A function that always behaves like some function of the interface.\<close>

lemma keeps_streams_pointwise: "(\<And>m. \<exists>g. keeps_streams g \<and> f m = g m) \<Longrightarrow> keeps_streams f"
  unfolding keeps_streams_def by (metis (no_types))

lemma keeps_pick: "keeps_streams g \<Longrightarrow> y = g m \<Longrightarrow> \<exists>g. keeps_streams g \<and> y = g m"
  by blast

lemma keeps_streams_if:
  "keeps_streams f \<Longrightarrow> keeps_streams g \<Longrightarrow> keeps_streams (\<lambda>m. if c m then f m else g m)"
  by (rule keeps_streams_pointwise) auto

lemma keeps_streamsD:
  assumes "keeps_streams f"
  shows "streams_ok P m \<Longrightarrow> streams_ok P (f m)" and "lm_generation m \<le> lm_generation (f m)"
    and "lm_generation (f m) = lm_generation m \<Longrightarrow> lm_connection (f m) = lm_connection m"
  using assms by (auto simp: keeps_streams_def)

lemma streams_ok_cong:
  assumes "lm_consumers m' = lm_consumers m" and "lm_connection m' = lm_connection m"
    and "lm_generation m' = lm_generation m" and "lm_closed m' = lm_closed m"
    and "lm_next m \<le> lm_next m'" and "streams_ok P m"
  shows "streams_ok P m'"
  using assms unfolding streams_ok_def by (auto intro: less_le_trans)

text \<open>Field updates that no stream depends on.\<close>

lemma keeps_streams_fields [simp]:
  "keeps_streams (\<lambda>m. m\<lparr>lm_snapshot := f m\<rparr>)"
  "keeps_streams (\<lambda>m. m\<lparr>lm_timer := g m\<rparr>)"
  "keeps_streams (\<lambda>m. m\<lparr>lm_desired := h m\<rparr>)"
  "keeps_streams (\<lambda>m. m\<lparr>lm_networkSubscribed := n m\<rparr>)"
  "keeps_streams cancelReconnect" "keeps_streams ensureNetworkSubscription"
  by (auto simp: keeps_streams_def cancelReconnect_def ensureNetworkSubscription_def
      intro: streams_ok_cong)

section \<open>The interface of listeners and transports\<close>

locale live_listeners =
  fixes env :: live_env
  assumes listen_keeps: "keeps_streams (\<lambda>m. snd (listen env i nt m))"
    and open_keeps: "keeps_streams (\<lambda>m. snd (open_connection env mf m))"
begin

lemma reportError_keeps: "keeps_streams (reportError env err)"
proof (rule keeps_streams_pointwise)
  fix m show "\<exists>g. keeps_streams g \<and> reportError env err m = g m"
    using keeps_streams_id listen_keeps by (cases "lm_onError m") (auto simp: reportError_def)
qed

lemma call_listeners_keeps: "keeps_streams (call_listeners env report nt ls)"
proof (induction ls)
  case (Cons i ls)
  have one: "keeps_streams (\<lambda>m. if fst (listen env i nt m) \<and> report
      then reportError env OtherError (snd (listen env i nt m)) else snd (listen env i nt m))"
    by (rule keeps_streams_if [OF keeps_streams_comp [OF listen_keeps reportError_keeps] listen_keeps])
  have "call_listeners env report nt (i # ls) =
      (\<lambda>m. call_listeners env report nt ls (if fst (listen env i nt m) \<and> report
      then reportError env OtherError (snd (listen env i nt m)) else snd (listen env i nt m)))"
    by (rule ext) (simp add: split_beta Let_def)
  with keeps_streams_comp [OF one Cons.IH] show ?case by simp
qed (simp add: keeps_streams_id)

lemma setSnapshot_keeps: "keeps_streams (setSnapshot env nxt)"
proof (rule keeps_streams_pointwise)
  fix m :: live_manager
  have "keeps_streams (\<lambda>m'. call_listeners env True NoteStatus (lm_subscribers m) (m'\<lparr>lm_snapshot := nxt\<rparr>))"
    by (rule keeps_streams_comp [OF keeps_streams_fields(1) call_listeners_keeps])
  then show "\<exists>g. keeps_streams g \<and> setSnapshot env nxt m = g m"
    using keeps_streams_id by (cases "nxt = lm_snapshot m") (auto simp: setSnapshot_def)
qed

lemma emitDiagnostic_keeps: "keeps_streams (emitDiagnostic env d)"
  by (rule keeps_streams_pointwise) (use call_listeners_keeps in \<open>auto simp: emitDiagnostic_def\<close>)

lemma emitEvent_keeps: "keeps_streams (emitEvent env e)"
  by (rule keeps_streams_pointwise) (use call_listeners_keeps in \<open>auto simp: emitEvent_def\<close>)

lemma setOffline_keeps: "keeps_streams (setOffline env a)"
proof (rule keeps_streams_pointwise)
  fix m
  have "\<exists>n. setOffline env a m = setSnapshot env n (cancelReconnect m)"
    by (auto simp: setOffline_def Let_def)
  then show "\<exists>g. keeps_streams g \<and> setOffline env a m = g m"
    using keeps_streams_comp [OF keeps_streams_fields(5) setSnapshot_keeps] by blast
qed

lemma dispatchEvent_keeps: "keeps_streams (\<lambda>m. snd (dispatchEvent env e g m))"
proof -
  let ?d = "emitDiagnostic env (DEvent (event_type_of e) (event_key_count e))"
  have "(\<lambda>m. snd (dispatchEvent env e g m)) =
      (\<lambda>m. if g \<noteq> lm_generation (?d m) then ?d m else emitEvent env e (?d m))"
    by (rule ext) (simp add: dispatchEvent_def Let_def)
  with keeps_streams_if [OF emitDiagnostic_keeps keeps_streams_comp [OF emitDiagnostic_keeps emitEvent_keeps]]
  show ?thesis by simp
qed

text \<open>Stopping a connection: it is about to be closed while the listeners run.\<close>

lemma stopConnection_keeps:
  "streams_ok P m \<Longrightarrow> streams_ok P (stopConnection env reason w m)"
  "lm_generation m < lm_generation (stopConnection env reason w m)"
proof -
  let ?m2 = "m\<lparr>lm_generation := lm_generation m + 1, lm_connection := None\<rparr>"
  have gen: "lm_generation ?m2 \<le> lm_generation (emitDiagnostic env d ?m2)" for d
    by (rule keeps_streamsD(2) [OF emitDiagnostic_keeps])
  show "lm_generation m < lm_generation (stopConnection env reason w m)"
    using gen by (auto simp: stopConnection_def close_connection_def Let_def less_eq_Suc_le split: option.split)
  assume ok: "streams_ok P m"
  show "streams_ok P (stopConnection env reason w m)"
  proof (cases "lm_connection m")
    case None
    with ok show ?thesis
      by (fastforce simp: stopConnection_def streams_ok_def)
  next
    case (Some c)
    have "streams_ok (insert c P) ?m2"
      using ok Some by (fastforce simp: streams_ok_def)
    from keeps_streamsD(1) [OF emitDiagnostic_keeps this]
    have "streams_ok P (close_connection c (emitDiagnostic env d ?m2))" for d
      by (auto simp: streams_ok_def close_connection_def)
    with Some show ?thesis by (simp add: stopConnection_def Let_def)
  qed
qed

text \<open>Scheduling a reconnection only touches the status and the timer.\<close>

lemma scheduleReconnect_keeps: "keeps_streams (scheduleReconnect env errorState)"
proof (rule keeps_streams_pointwise)
  fix m
  let ?m1 = "cancelReconnect m"
  let ?a = "max 1 (ls_reconnectAttempt (lm_snapshot ?m1) + 1)"
  let ?n = "(lm_snapshot ?m1)\<lparr>ls_status := (if errorState then LsError else LsReconnecting),
                     ls_connected := False, ls_reconnectAttempt := ?a\<rparr>"
  let ?set = "\<lambda>m. (forget_timer m)\<lparr>lm_timer := Some (lm_next m, ?a, reconnectDelay env ?a m), lm_next := Suc (lm_next m)\<rparr>"
  have set: "keeps_streams ?set"
    by (auto simp: keeps_streams_def forget_timer_def intro: streams_ok_cong [rotated -1] split: option.split)
  note C = keeps_streams_fields(5)
  note snap = keeps_streams_comp [OF C setSnapshot_keeps [of ?n]]
  consider "\<not> lm_desired ?m1 \<or> lm_manifest ?m1 = None"
    | "lm_desired ?m1" "lm_manifest ?m1 \<noteq> None" "\<not> is_online env ?m1"
    | "lm_desired ?m1" "lm_manifest ?m1 \<noteq> None" "is_online env ?m1" by blast
  then show "\<exists>g. keeps_streams g \<and> scheduleReconnect env errorState m = g m"
  proof cases
    case 1
    show ?thesis by (rule keeps_pick [OF C]) (use 1 in \<open>simp add: scheduleReconnect_def\<close>)
  next
    case 2
    then obtain mf where mf: "lm_manifest ?m1 = Some mf" by blast
    show ?thesis
      by (rule keeps_pick [OF keeps_streams_comp [OF C setOffline_keeps [of ?a]]])
        (use mf 2(1,3) in \<open>simp add: scheduleReconnect_def Let_def\<close>)
  next
    case 3
    let ?f = "\<lambda>x. if \<not> lm_desired x \<or> lm_manifest x = None \<or> lm_connection x \<noteq> None then x else ?set x"
    have "keeps_streams (\<lambda>x. ?f (setSnapshot env ?n (cancelReconnect x)))"
      by (rule keeps_streams_comp [OF snap keeps_streams_if [OF keeps_streams_id set]])
    moreover have "scheduleReconnect env errorState m = ?f (setSnapshot env ?n ?m1)"
      unfolding scheduleReconnect_def Let_def using 3 by (simp only: simp_thms if_False not_True_eq_False)
    ultimately show ?thesis by blast
  qed
qed

lemma handleConnectionError_eq:
  assumes "generation = lm_generation m"
  shows "\<exists>f. keeps_streams f \<and> handleConnectionError env generation err m = f (m\<lparr>lm_connection := None\<rparr>)"
proof -
  let ?m1 = "m\<lparr>lm_connection := None\<rparr>"
    define d1 where "d1 = DConnectError (manifest_key_count ?m1) (ls_reconnectAttempt (lm_snapshot ?m1))"
    define m2 where "m2 = emitDiagnostic env d1 ?m1"
    define d2 where "d2 = DConnectClose (manifest_key_count m2) (ls_reconnectAttempt (lm_snapshot m2))
                        CloseError (lm_desired m2)"
    define f where "f = (\<lambda>x. reportError env err
      (if lm_connection m \<noteq> None then emitDiagnostic env d2 (emitDiagnostic env d1 x) else emitDiagnostic env d1 x))"
    have f: "keeps_streams f"
      unfolding f_def
      by (rule keeps_streams_comp [OF keeps_streams_if [OF
          keeps_streams_comp [OF emitDiagnostic_keeps emitDiagnostic_keeps] emitDiagnostic_keeps] reportError_keeps])
    have eq: "handleConnectionError env generation err m =
      (if generation \<noteq> lm_generation (f ?m1) then f ?m1
       else if lm_desired (f ?m1) then scheduleReconnect env True (f ?m1)
       else setSnapshot env ((lm_snapshot (f ?m1))\<lparr>ls_status := LsError, ls_connected := False\<rparr>) (f ?m1))"
      using assms unfolding f_def d1_def d2_def m2_def handleConnectionError_def Let_def by simp
    have "keeps_streams (\<lambda>x. if generation \<noteq> lm_generation (f x) then f x
        else if lm_desired (f x) then scheduleReconnect env True (f x)
        else setSnapshot env ((lm_snapshot (f ?m1))\<lparr>ls_status := LsError, ls_connected := False\<rparr>) (f x))"
      by (rule keeps_streams_if [OF f keeps_streams_if [OF keeps_streams_comp [OF f scheduleReconnect_keeps]
            keeps_streams_comp [OF f setSnapshot_keeps]]])
    then show ?thesis by (rule keeps_pick) (simp add: eq)
qed

lemma handleConnectionError_ok:
  assumes "generation = lm_generation m"
  shows "streams_ok P (m\<lparr>lm_connection := None\<rparr>) \<Longrightarrow> streams_ok P (handleConnectionError env generation err m)"
    and "lm_generation m \<le> lm_generation (handleConnectionError env generation err m)"
proof -
  obtain f where f: "keeps_streams f" and eq: "handleConnectionError env generation err m = f (m\<lparr>lm_connection := None\<rparr>)"
    using handleConnectionError_eq [OF assms] by blast
  show "streams_ok P (m\<lparr>lm_connection := None\<rparr>) \<Longrightarrow> streams_ok P (handleConnectionError env generation err m)"
    unfolding eq by (rule keeps_streamsD(1) [OF f])
  show "lm_generation m \<le> lm_generation (handleConnectionError env generation err m)"
    unfolding eq using keeps_streamsD(2) [OF f, of "m\<lparr>lm_connection := None\<rparr>"] by simp
qed

text \<open>Starting a connection, from the moment the generation was advanced.\<close>

lemma opened_ok:
  assumes ok: "streams_ok P m" and "lm_connection m = None"
  shows "streams_ok P (m\<lparr>lm_next := Suc (lm_next m), lm_connection := Some (lm_next m),
      lm_consumers := lm_consumers m @ [\<lparr>co_connection = lm_next m, co_generation = lm_generation m,
        co_attempt = a\<rparr>]\<rparr>)"
  using assms by (fastforce simp: streams_ok_def)

lemma unused_ok:
  assumes "streams_ok P m"
  shows "streams_ok P (close_connection (lm_next m) (m\<lparr>lm_next := Suc (lm_next m)\<rparr>))"
  using assms by (fastforce simp: streams_ok_def close_connection_def)

lemma advance_ok:
  "streams_ok P m \<Longrightarrow> lm_connection m = None \<Longrightarrow> streams_ok P (m\<lparr>lm_generation := lm_generation m + 1\<rparr>)"
  by (fastforce simp: streams_ok_def)

lemma open_stream_ok:
  assumes none: "lm_connection m = None" and gen: "lm_generation m = g"
  shows "streams_ok P m \<Longrightarrow> streams_ok P (open_stream env manifest g a m)"
    and "lm_generation m \<le> lm_generation (open_stream env manifest g a m)"
proof -
  let ?r = "open_stream env manifest g a m"
  obtain res m5 where o5: "open_connection env manifest m = (res, m5)" by (cases "open_connection env manifest m")
  note K = keeps_streamsD [OF open_keeps [of manifest], where m = m, unfolded o5 snd_conv]
  have none5: "lm_connection m5 = None" if "lm_generation m5 = g" using K(3) that gen none by simp
  have "(streams_ok P m \<longrightarrow> streams_ok P ?r) \<and> lm_generation m \<le> lm_generation ?r"
  proof (cases res)
    case (Inl err)
    show ?thesis
    proof (cases "lm_generation m5 = g")
      case True
      then have "m5\<lparr>lm_connection := None\<rparr> = m5" using none5 by simp
      with True K(1,2) handleConnectionError_ok [of g m5] show ?thesis
        by (auto simp: open_stream_def o5 Inl intro: order_trans)
    next
      case False
      with K(1,2) show ?thesis by (simp add: open_stream_def o5 Inl handleConnectionError_def)
    qed
  next
    case (Inr u)
    show ?thesis
    proof (cases "still_wanted g manifest (m5\<lparr>lm_next := Suc (lm_next m5)\<rparr>)")
      case True
      then have "lm_generation m5 = g" by (simp add: still_wanted_def)
      with True opened_ok [OF K(1) none5, of P a] K(2) show ?thesis
        by (simp add: open_stream_def o5 Inr Let_def)
    next
      case False
      with unused_ok [OF K(1)] K(2) show ?thesis
        by (simp add: open_stream_def o5 Inr Let_def close_connection_def)
    qed
  qed
  then show "streams_ok P m \<Longrightarrow> streams_ok P ?r" and "lm_generation m \<le> lm_generation ?r" by blast+
qed

lemma startConnection_keeps: "keeps_streams (startConnection env status a)"
proof -
  have "(streams_ok P m \<longrightarrow> streams_ok P (startConnection env status a m)) \<and>
      lm_generation m \<le> lm_generation (startConnection env status a m) \<and>
      (lm_generation (startConnection env status a m) = lm_generation m \<longrightarrow>
       lm_connection (startConnection env status a m) = lm_connection m)" for P m
  proof (cases "lm_manifest m = None \<or> \<not> lm_desired m \<or> lm_connection m \<noteq> None")
    case True
    then show ?thesis by (auto simp: startConnection_def split: option.splits)
  next
    case False
    then obtain manifest where mf: "lm_manifest m = Some manifest" and none: "lm_connection m = None"
      and desired: "lm_desired m" by auto
    let ?g = "lm_generation m + 1"
    let ?m1 = "m\<lparr>lm_generation := ?g\<rparr>"
    define m2 where "m2 = setSnapshot env ((lm_snapshot ?m1)\<lparr>ls_status := status, ls_connected := False,
                       ls_reconnectAttempt := a\<rparr>) ?m1"
    define f4 where "f4 = (\<lambda>x. emitDiagnostic env (DConnectStart (length (mf_keys manifest)) a)
      (if status = LsReconnecting then emitDiagnostic env (DReconnect (length (mf_keys manifest)) a) x else x))"
    have k2: "streams_ok P m \<Longrightarrow> streams_ok P m2" "?g \<le> lm_generation m2" for P
      using keeps_streamsD(1) [OF setSnapshot_keeps advance_ok, OF _ none]
        keeps_streamsD(2) [OF setSnapshot_keeps, where m = ?m1]
      by (auto simp: m2_def)
    have f4: "keeps_streams f4"
      unfolding f4_def
      by (rule keeps_streams_comp [OF keeps_streams_if [OF emitDiagnostic_keeps keeps_streams_id] emitDiagnostic_keeps])
    note k4 = keeps_streamsD(1,2) [OF f4, where m = m2]
    let ?r = "startConnection env status a m"
    have eq: "?r = (if \<not> still_wanted ?g manifest m2 \<or> lm_connection m2 \<noteq> None then m2
        else if \<not> still_wanted ?g manifest (f4 m2) \<or> lm_connection (f4 m2) \<noteq> None then f4 m2
        else open_stream env manifest ?g a (f4 m2))"
      unfolding startConnection_def m2_def f4_def Let_def
      by (simp only: mf none desired option.case not_True_eq_False simp_thms if_False)
    have "(streams_ok P m \<longrightarrow> streams_ok P ?r) \<and> lm_generation m < lm_generation ?r"
    proof (cases "(\<not> still_wanted ?g manifest m2 \<or> lm_connection m2 \<noteq> None) \<or>
        (\<not> still_wanted ?g manifest (f4 m2) \<or> lm_connection (f4 m2) \<noteq> None)")
      case True
      with k2 k4 show ?thesis by (auto simp: eq)
    next
      case False
      then have n4: "lm_connection (f4 m2) = None" "lm_generation (f4 m2) = ?g"
        by (auto simp: still_wanted_def)
      have "?r = open_stream env manifest ?g a (f4 m2)" using False by (simp add: eq)
      then show ?thesis
        using open_stream_ok [OF n4, where manifest = manifest and a = a] k2(1) k4(1) n4(2) by auto
    qed
    then show ?thesis by auto
  qed
  then show ?thesis by (simp add: keeps_streams_def)
qed

section \<open>The public operations\<close>

lemma stopConnection_keeps_streams: "keeps_streams (stopConnection env reason w)"
  unfolding keeps_streams_def
proof (intro allI conjI impI)
  fix m P
  show "streams_ok P (stopConnection env reason w m)" if "streams_ok P m"
    using that by (rule stopConnection_keeps(1))
  show "lm_generation m \<le> lm_generation (stopConnection env reason w m)"
    using stopConnection_keeps(2) by (rule less_imp_le)
  show "lm_connection (stopConnection env reason w m) = lm_connection m"
    if "lm_generation (stopConnection env reason w m) = lm_generation m"
    using that stopConnection_keeps(2) [of m reason w] by simp
qed

lemma keeps_streams_manifest [simp]: "keeps_streams (\<lambda>m. m\<lparr>lm_manifest := a, lm_identity := b\<rparr>)"
  and keeps_streams_forget [simp]:
    "keeps_streams (\<lambda>m. m\<lparr>lm_networkSubscribed := False, lm_manifest := None, lm_identity := None\<rparr>)"
  and keeps_streams_next [simp]: "keeps_streams (\<lambda>m. m\<lparr>lm_next := Suc (lm_next m)\<rparr>)"
  by (auto simp: keeps_streams_def intro: streams_ok_cong)

text \<open>The common end of \<open>updateManifest\<close>, \<open>connect\<close> and \<open>reconnect\<close>.\<close>

lemma start_or_offline_keeps:
  "keeps_streams (\<lambda>m. if is_online env m then startConnection env status a m else setOffline env b m)"
  by (rule keeps_streams_if [OF startConnection_keeps setOffline_keeps])

lemma updateManifest_keeps: "keeps_streams (\<lambda>m. snd (updateManifest env url keys m))"
proof (rule keeps_streams_pointwise)
  fix m
  show "\<exists>g. keeps_streams g \<and> snd (updateManifest env url keys m) = g m"
  proof (cases "\<exists>nm. normalizeManifest url keys m = Inr nm \<and> map_option manifest_identity nm \<noteq> lm_identity m")
    case True
    then obtain nm where nm: "normalizeManifest url keys m = Inr nm"
      "map_option manifest_identity nm \<noteq> lm_identity m" by blast
    define f where "f = (\<lambda>x. setSnapshot env INITIAL_STATUS ((stopConnection env CloseLifecycle (lm_desired m)
      (cancelReconnect (x\<lparr>lm_next := Suc (lm_next x)\<rparr>)))
        \<lparr>lm_manifest := nm, lm_identity := map_option manifest_identity nm\<rparr>))"
    have f: "keeps_streams f"
      unfolding f_def
      by (intro keeps_streams_comp [OF _ setSnapshot_keeps] keeps_streams_comp [OF _ keeps_streams_manifest]
          keeps_streams_comp [OF _ stopConnection_keeps_streams]
          keeps_streams_comp [OF keeps_streams_next keeps_streams_fields(5)])
    let ?h = "\<lambda>x. if lm_desired m \<and> nm \<noteq> None then
         (if is_online env (ensureNetworkSubscription x)
          then startConnection env LsConnecting 0 (ensureNetworkSubscription x)
          else setOffline env 1 (ensureNetworkSubscription x))
       else if nm = None then x\<lparr>lm_networkSubscribed := False\<rparr> else x"
    have "keeps_streams ?h"
      by (intro keeps_streams_if keeps_streams_comp [OF keeps_streams_fields(6) start_or_offline_keeps]
          keeps_streams_id keeps_streams_fields)
    moreover have "snd (updateManifest env url keys m) = ?h (f m)"
      using nm by (simp add: updateManifest_def f_def Let_def)
    ultimately show ?thesis using keeps_streams_comp [OF f] by blast
  next
    case False
    then have "snd (updateManifest env url keys m) = m"
      by (auto simp: updateManifest_def Let_def split: sum.split)
    then show ?thesis using keeps_streams_id by blast
  qed
qed

lemma live_connect_keeps: "keeps_streams (live_connect env)"
proof -
  let ?d = "\<lambda>m. m\<lparr>lm_desired := True\<rparr>"
  have "live_connect env = (\<lambda>m. (\<lambda>x. if lm_manifest x = None \<or> lm_connection x \<noteq> None \<or> lm_timer x \<noteq> None then x
      else (\<lambda>y. if is_online env y then startConnection env LsConnecting 0 y else setOffline env 1 y)
        (ensureNetworkSubscription x)) (?d m))"
    by (rule ext) (simp add: live_connect_def Let_def)
  moreover have "keeps_streams \<dots>"
    by (intro keeps_streams_comp [OF keeps_streams_fields(3)] keeps_streams_if keeps_streams_id
        keeps_streams_comp [OF keeps_streams_fields(6) start_or_offline_keeps])
  ultimately show ?thesis by simp
qed

lemma stop_all_keeps:
  "keeps_streams (\<lambda>m. stopConnection env CloseLifecycle w (cancelReconnect (m\<lparr>lm_desired := d\<rparr>)))"
  by (rule keeps_streams_comp [OF keeps_streams_comp [OF keeps_streams_fields(3) keeps_streams_fields(5)]
        stopConnection_keeps_streams])

lemma live_disconnect_keeps: "keeps_streams (live_disconnect env)"
proof (rule keeps_streams_pointwise)
  fix m :: live_manager
  obtain n where n: "live_disconnect env m = setSnapshot env n ((stopConnection env CloseLifecycle False
      (cancelReconnect (m\<lparr>lm_desired := False\<rparr>)))\<lparr>lm_networkSubscribed := False\<rparr>)"
    by (simp add: live_disconnect_def Let_def)
  show "\<exists>g. keeps_streams g \<and> live_disconnect env m = g m"
    by (rule keeps_pick [OF keeps_streams_comp
          [OF keeps_streams_comp [OF stop_all_keeps keeps_streams_fields(4)] setSnapshot_keeps [of n]]])
      (rule n)
qed

lemma live_clear_keeps: "keeps_streams (live_clear env)"
proof -
  have "live_clear env = (\<lambda>m. setSnapshot env INITIAL_STATUS ((stopConnection env CloseLifecycle False
      (cancelReconnect (m\<lparr>lm_desired := False\<rparr>)))
        \<lparr>lm_networkSubscribed := False, lm_manifest := None, lm_identity := None\<rparr>))"
    by (rule ext) (simp add: live_clear_def Let_def)
  then show ?thesis
    using keeps_streams_comp [OF keeps_streams_comp [OF stop_all_keeps keeps_streams_forget] setSnapshot_keeps]
    by simp
qed

lemma live_reconnect_keeps: "keeps_streams (live_reconnect env)"
proof (rule keeps_streams_pointwise)
  fix m :: live_manager
  let ?a = "ls_reconnectAttempt (lm_snapshot m) + 1"
  let ?f = "\<lambda>m. stopConnection env CloseLifecycle True (cancelReconnect (ensureNetworkSubscription (m\<lparr>lm_desired := True\<rparr>)))"
  let ?g = "\<lambda>x. if is_online env x then startConnection env LsReconnecting ?a x else setOffline env (max 1 ?a) x"
  have f: "keeps_streams ?f"
    by (intro keeps_streams_comp [OF _ stopConnection_keeps_streams] keeps_streams_comp [OF _ keeps_streams_fields(5)]
        keeps_streams_comp [OF keeps_streams_fields(3) keeps_streams_fields(6)])
  show "\<exists>g. keeps_streams g \<and> live_reconnect env m = g m"
  proof (cases "lm_manifest m")
    case None
    show ?thesis
      by (rule keeps_pick [OF keeps_streams_comp [OF keeps_streams_fields(3) setSnapshot_keeps]])
        (simp add: live_reconnect_def None)
  next
    case (Some mf)
    have "live_reconnect env m = ?g (?f m)"
      by (simp add: live_reconnect_def Let_def Some ensureNetworkSubscription_def)
    then show ?thesis
      using keeps_streams_comp [OF f start_or_offline_keeps] by blast
  qed
qed

end

section \<open>Listeners that call the manager\<close>

datatype live_call =
    LcUpdateManifest jstring "rkey list"
  | LcConnect
  | LcDisconnect
  | LcReconnect
  | LcClear
  | LcDestroy
  | LcSubscribe callback
  | LcUnsubscribe callback
  | LcSubscribeEvents callback
  | LcUnsubscribeEvents callback
  | LcSubscribeDiagnostics callback
  | LcUnsubscribeDiagnostics callback

fun run_live_call :: "live_env \<Rightarrow> live_call \<Rightarrow> live_manager \<Rightarrow> live_manager" where
  "run_live_call env (LcUpdateManifest url keys) m = snd (updateManifest env url keys m)"
| "run_live_call env LcConnect m = live_connect env m"
| "run_live_call env LcDisconnect m = live_disconnect env m"
| "run_live_call env LcReconnect m = live_reconnect env m"
| "run_live_call env LcClear m = live_clear env m"
| "run_live_call env LcDestroy m = live_destroy env m"
| "run_live_call env (LcSubscribe i) m = live_subscribe i m"
| "run_live_call env (LcUnsubscribe i) m = live_unsubscribe i m"
| "run_live_call env (LcSubscribeEvents i) m = live_subscribeEvents i m"
| "run_live_call env (LcUnsubscribeEvents i) m = live_unsubscribeEvents i m"
| "run_live_call env (LcSubscribeDiagnostics i) m = live_subscribeDiagnostics i m"
| "run_live_call env (LcUnsubscribeDiagnostics i) m = live_unsubscribeDiagnostics i m"

lemma keeps_streams_subscribers [simp]:
  "keeps_streams (live_subscribe i)" "keeps_streams (live_unsubscribe i)"
  "keeps_streams (live_subscribeEvents i)" "keeps_streams (live_unsubscribeEvents i)"
  "keeps_streams (live_subscribeDiagnostics i)" "keeps_streams (live_unsubscribeDiagnostics i)"
  "keeps_streams (\<lambda>m. m\<lparr>lm_subscribers := [], lm_eventSubscribers := [], lm_diagnosticSubscribers := []\<rparr>)"
  by (auto simp: keeps_streams_def live_subscribe_def live_unsubscribe_def live_subscribeEvents_def
      live_unsubscribeEvents_def live_subscribeDiagnostics_def live_unsubscribeDiagnostics_def
      intro: streams_ok_cong)

context live_listeners
begin

lemma run_live_call_keeps: "keeps_streams (run_live_call env c)"
proof (cases c)
  case LcDestroy
  have "run_live_call env c = (\<lambda>m. (live_clear env m)
      \<lparr>lm_subscribers := [], lm_eventSubscribers := [], lm_diagnosticSubscribers := []\<rparr>)"
    by (rule ext) (simp add: LcDestroy live_destroy_def)
  then show ?thesis
    using keeps_streams_comp [OF live_clear_keeps keeps_streams_subscribers(7)] by simp
qed (rule keeps_streams_pointwise, rule keeps_pick,
  (rule updateManifest_keeps live_connect_keeps live_disconnect_keeps live_reconnect_keeps live_clear_keeps
    keeps_streams_subscribers), simp)+

end

text \<open>
  A listener makes a finite number of calls, during which other listeners run: environments in
  which every listener and the transport do nothing but such calls.
\<close>

definition run_live_calls :: "(live_env \<times> live_call) list \<Rightarrow> live_manager \<Rightarrow> live_manager" where
  "run_live_calls cs m = fold (\<lambda>(e, c). run_live_call e c) cs m"

inductive reentrant :: "live_env \<Rightarrow> bool" where
  reentrantI: "\<lbrakk>\<forall>i nt m. \<exists>cs. snd (listen env i nt m) = run_live_calls cs m \<and> (\<forall>(e, c)\<in>set cs. reentrant e);
    \<forall>mf m. \<exists>cs. snd (open_connection env mf m) = run_live_calls cs m \<and> (\<forall>(e, c)\<in>set cs. reentrant e)\<rbrakk>
    \<Longrightarrow> reentrant env"

lemma run_live_calls_keeps:
  "\<forall>(e, c)\<in>set cs. live_listeners e \<Longrightarrow> keeps_streams (run_live_calls cs)"
proof (induction cs)
  case (Cons ec cs)
  obtain e c where ec: "ec = (e, c)" by (cases ec)
  have "keeps_streams (run_live_call e c)"
    using Cons.prems by (intro live_listeners.run_live_call_keeps) (simp add: ec)
  moreover have "keeps_streams (run_live_calls cs)" using Cons by simp
  moreover have "run_live_calls (ec # cs) = (\<lambda>m. run_live_calls cs (run_live_call e c m))"
    by (rule ext) (simp add: run_live_calls_def ec)
  ultimately show ?case using keeps_streams_comp by simp
next
  case Nil
  have "run_live_calls [] = (\<lambda>m. m)" by (rule ext) (simp add: run_live_calls_def)
  then show ?case by (simp add: keeps_streams_id)
qed

lemma reentrant_listeners: "reentrant env \<Longrightarrow> live_listeners env"
proof (induction rule: reentrant.induct)
  case (reentrantI env)
  show ?case
  proof
    show "keeps_streams (\<lambda>m. snd (listen env i nt m))" for i nt
    proof (rule keeps_streams_pointwise)
      fix m
      obtain cs where "snd (listen env i nt m) = run_live_calls cs m" and "\<forall>(e, c)\<in>set cs. live_listeners e"
        using reentrantI(1) by (metis (no_types, lifting) case_prod_conv prod.case_eq_if)
      then show "\<exists>g. keeps_streams g \<and> snd (listen env i nt m) = g m"
        using run_live_calls_keeps by blast
    qed
    show "keeps_streams (\<lambda>m. snd (open_connection env mf m))" for mf
    proof (rule keeps_streams_pointwise)
      fix m
      obtain cs where "snd (open_connection env mf m) = run_live_calls cs m" and "\<forall>(e, c)\<in>set cs. live_listeners e"
        using reentrantI(2) by (metis (no_types, lifting) case_prod_conv prod.case_eq_if)
      then show "\<exists>g. keeps_streams g \<and> snd (open_connection env mf m) = g m"
        using run_live_calls_keeps by blast
    qed
  qed
qed

end
