(* ===== verification/Live_Manager_Theorems.thy ===== *)
theory Live_Manager_Theorems
  imports Live_Streams
begin

text \<open>
  What the live manager promises: no stream is left open behind its back, whatever listeners do;
  without interfering listeners it is never stuck; and its reconnection delays are bounded.
\<close>

section \<open>Steps\<close>

text \<open>A call of the application, or something the host reports later.\<close>

datatype live_step =
    StCall live_call
  | StOnline
  | StOffline
  | StTimer nat
  | StEvent consumer live_event
  | StEnd consumer
  | StError consumer error_class

fun run_live_step :: "live_env \<Rightarrow> live_step \<Rightarrow> live_manager \<Rightarrow> live_manager" where
  "run_live_step env (StCall c) m = run_live_call env c m"
| "run_live_step env StOnline m = (if lm_networkSubscribed m then handleOnline env m else m)"
| "run_live_step env StOffline m = (if lm_networkSubscribed m then handleOffline env m else m)"
| "run_live_step env (StTimer t) m = timer_fires env t m"
| "run_live_step env (StEvent co e) m = consume_event env co e m"
| "run_live_step env (StEnd co) m = consume_end env co m"
| "run_live_step env (StError co err) m = consume_error env co err m"

section \<open>Streams\<close>

lemma distinct_map_removeAll: "distinct (map f xs) \<Longrightarrow> distinct (map f (removeAll x xs))"
  by (simp add: removeAll_filter_not_eq distinct_map_filter)

lemma streams_okD:
  assumes "streams_ok P m" and "co \<in> set (lm_consumers m)"
  shows "co_connection co < lm_next m" and "co_generation co \<le> lm_generation m"
    and "co_generation co = lm_generation m \<Longrightarrow> lm_connection m = Some (co_connection co)"
    and "lm_connection m = Some (co_connection co) \<or> co_connection co \<in> set (lm_closed m) \<union> P"
  using assms by (simp_all add: streams_ok_def)

lemma streams_ok_inj:
  assumes "streams_ok P m" and "co \<in> set (lm_consumers m)" and "co' \<in> set (lm_consumers m)"
    and "co_connection co = co_connection co'"
  shows "co = co'"
proof -
  have "inj_on co_connection (set (lm_consumers m))" using assms(1) by (simp add: streams_ok_def distinct_map)
  from inj_onD [OF this assms(4,2,3)] show ?thesis .
qed

lemma finish_superseded_ok:
  assumes "streams_ok P m" and "co_generation co \<noteq> lm_generation m"
  shows "streams_ok P (finish_consumer co m)"
  using assms unfolding streams_ok_def finish_consumer_def
  by (auto simp: distinct_map_removeAll)

lemma finish_current_ok:
  assumes ok: "streams_ok P m" and co: "co \<in> set (lm_consumers m)" and gen: "co_generation co = lm_generation m"
  shows "streams_ok P ((finish_consumer co m)\<lparr>lm_connection := None\<rparr>)"
proof -
  have conn: "lm_connection m = Some (co_connection co)"
    and dist: "distinct (map co_connection (lm_consumers m))"
    using assms by (auto simp: streams_ok_def)
  have other: "co_connection co' < lm_next m \<and> co_generation co' \<le> lm_generation m \<and>
      co_generation co' \<noteq> lm_generation m \<and> co_connection co' \<in> set (lm_closed m) \<union> P"
    if "co' \<noteq> co" and "co' \<in> set (lm_consumers m)" for co'
  proof -
    have "co_connection co' \<noteq> co_connection co" using streams_ok_inj [OF ok that(2) co] that(1) by blast
    then show ?thesis using streams_okD [OF ok that(2)] conn by auto
  qed
  show ?thesis
    unfolding streams_ok_def
    using dist other by (simp add: finish_consumer_def distinct_map_removeAll)
qed

lemma dispatchEvent_alive:
  "fst (dispatchEvent env e g m) \<longleftrightarrow> g = lm_generation (snd (dispatchEvent env e g m))"
  by (simp add: dispatchEvent_def Let_def)

context live_listeners
begin

lemma consume_event_ok:
  assumes ok: "streams_ok P m"
  shows "streams_ok P (consume_event env co e m)"
proof (cases "co \<notin> set (lm_consumers m) \<or> co_generation co \<noteq> lm_generation m")
  case True
  with ok show ?thesis by (auto simp: consume_event_def finish_superseded_ok)
next
  case False
  then have c1: "(co \<notin> set (lm_consumers m)) = False" and c2: "(co_generation co \<noteq> lm_generation m) = False"
    by blast+
  let ?g = "co_generation co"
  define m1 where "m1 = setSnapshot env ((lm_snapshot m)\<lparr>
     ls_status := (if event_type_of e = EvReady then LsConnected else ls_status (lm_snapshot m)),
     ls_connected := (if event_type_of e = EvReady then True else ls_connected (lm_snapshot m)),
     ls_reconnectAttempt := (if event_type_of e = EvReady then 0 else ls_reconnectAttempt (lm_snapshot m)),
     ls_lastEventAt := Some (clock env m)\<rparr>) m"
  define m2 where "m2 = (if event_type_of e = EvReady
     then emitDiagnostic env (DConnectOpen (event_key_count e) (co_attempt co)) m1 else m1)"
  define d3 where "d3 = dispatchEvent env e ?g m2"
  have ok1: "streams_ok P m1" unfolding m1_def by (rule keeps_streamsD(1) [OF setSnapshot_keeps ok])
  have ok2: "streams_ok P m2"
    using keeps_streamsD(1) [OF emitDiagnostic_keeps ok1] ok1 by (simp add: m2_def)
  have ok3: "streams_ok P (snd d3)"
    unfolding d3_def by (rule keeps_streamsD(1) [OF dispatchEvent_keeps ok2])
  have ok4: "streams_ok P (snd (dispatchEvent env x g (snd d3)))" for x g
    by (rule keeps_streamsD(1) [OF dispatchEvent_keeps ok3])
  have f1: "streams_ok P (finish_consumer co m1)" if "?g \<noteq> lm_generation m1"
    by (rule finish_superseded_ok [OF ok1 that])
  have f3: "streams_ok P (finish_consumer co (snd d3))" if "\<not> fst d3"
    using that by (intro finish_superseded_ok [OF ok3]) (simp add: d3_def dispatchEvent_alive)
  have f4: "streams_ok P (finish_consumer co (snd (dispatchEvent env x g (snd d3))))"
    if "\<not> fst (dispatchEvent env x g (snd d3))" and "g = ?g" for x g
    using that by (intro finish_superseded_ok [OF ok4]) (simp add: dispatchEvent_alive)
  have eq: "consume_event env co e m =
    (if ?g \<noteq> lm_generation m1 then finish_consumer co m1
     else if \<not> fst d3 then finish_consumer co (snd d3)
     else (case (if event_type_of e = EvReady \<and> co_attempt co > 0 then lm_manifest m else None) of
             None \<Rightarrow> snd d3
           | Some manifest \<Rightarrow>
               if ?g = lm_generation (snd d3) \<and> map_option mf_ref (lm_manifest (snd d3)) = Some (mf_ref manifest)
               then let d4 = dispatchEvent env (LiveResync (mf_keys manifest) ReconnectReason) ?g (snd d3)
                    in if \<not> fst d4 then finish_consumer co (snd d4) else snd d4
               else snd d3))"
    unfolding consume_event_def Let_def d3_def m2_def m1_def c1 c2 if_False split_beta by (rule refl)
  show ?thesis
    unfolding eq Let_def using ok3 ok4 by (auto simp: f1 f3 f4 split: option.split)
qed

lemma consume_end_ok:
  assumes ok: "streams_ok P m"
  shows "streams_ok P (consume_end env co m)"
proof (cases "co \<in> set (lm_consumers m) \<and> co_generation co = lm_generation m")
  case True
  let ?m1 = "(finish_consumer co m)\<lparr>lm_connection := None\<rparr>"
  have ok1: "streams_ok P ?m1" using finish_current_ok [OF ok] True by blast
  have gen: "lm_generation (finish_consumer co m) = lm_generation m" by (simp add: finish_consumer_def)
  note D = keeps_streamsD(1) [OF emitDiagnostic_keeps ok1]
  show ?thesis
    using True keeps_streamsD(1) [OF scheduleReconnect_keeps D] keeps_streamsD(1) [OF setSnapshot_keeps D]
    by (simp add: consume_end_def Let_def gen)
next
  case False
  with ok show ?thesis
    by (auto simp: consume_end_def Let_def finish_consumer_def intro: finish_superseded_ok [unfolded finish_consumer_def])
qed

lemma consume_error_ok:
  assumes ok: "streams_ok P m"
  shows "streams_ok P (consume_error env co err m)"
proof (cases "co \<in> set (lm_consumers m) \<and> co_generation co = lm_generation m")
  case True
  have gen: "co_generation co = lm_generation (finish_consumer co m)" using True by (simp add: finish_consumer_def)
  show ?thesis
    using handleConnectionError_ok(1) [OF gen finish_current_ok [OF ok]] True by (simp add: consume_error_def)
next
  case False
  with finish_superseded_ok [OF ok] ok show ?thesis
    by (auto simp: consume_error_def handleConnectionError_def finish_consumer_def)
qed

lemma run_live_step_ok:
  assumes ok: "streams_ok P m"
  shows "streams_ok P (run_live_step env st m)"
proof -
  have cancel: "streams_ok P (cancelReconnect m)" by (rule keeps_streamsD(1) [OF keeps_streams_fields(5) ok])
  have timer: "streams_ok P (m\<lparr>lm_timer := None\<rparr>)" "streams_ok P (m\<lparr>lm_timer := None, lm_lostTimers := l\<rparr>)"
    "streams_ok P (m\<lparr>lm_lostTimers := l\<rparr>)" for l
    by (rule streams_ok_cong [OF _ _ _ _ _ ok], simp_all)+
  have online: "streams_ok P (handleOnline env m)"
    using ok keeps_streamsD(1) [OF startConnection_keeps cancel] by (simp add: handleOnline_def Let_def)
  have offline: "streams_ok P (handleOffline env m)"
    using ok keeps_streamsD(1) [OF setOffline_keeps stopConnection_keeps(1) [OF cancel]]
    by (simp add: handleOffline_def Let_def)
  have body: "streams_ok P (timer_body env a m')" if "streams_ok P m'" for a m'
    using that keeps_streamsD(1) [OF startConnection_keeps that] keeps_streamsD(1) [OF setOffline_keeps that]
    by (simp add: timer_body_def)
  have fires: "streams_ok P (timer_fires env t m)" for t
    using ok body timer by (simp add: timer_fires_def split: option.split)
  show ?thesis
    using ok online offline fires consume_event_ok [OF ok] consume_end_ok [OF ok] consume_error_ok [OF ok]
      keeps_streamsD(1) [OF run_live_call_keeps ok]
    by (cases st) simp_all
qed

end

lemma run_live_steps_ok:
  "\<forall>(env, st)\<in>set steps. live_listeners env \<Longrightarrow> streams_ok P m \<Longrightarrow>
   streams_ok P (fold (\<lambda>(env, st). run_live_step env st) steps m)"
  by (induction steps arbitrary: m) (auto intro: live_listeners.run_live_step_ok)

lemma new_live_manager_streams: "new_live_manager fresh options = Inr m \<Longrightarrow> streams_ok {} m"
  by (auto simp: new_live_manager_def Let_def streams_ok_def)

section \<open>The lifecycle without interfering listeners\<close>

text \<open>
  A manager that wants a connection for its manifest has one, or waits for a timer, or waits for
  the network; and it claims to be connected only with a connection.
\<close>

definition lifecycle_ok :: "live_manager \<Rightarrow> bool" where
  "lifecycle_ok m \<longleftrightarrow> lm_lostTimers m = [] \<and>
     (lm_connection m \<noteq> None \<longrightarrow> lm_timer m = None \<and> lm_desired m \<and> lm_manifest m \<noteq> None) \<and>
     (lm_timer m \<noteq> None \<longrightarrow> lm_desired m \<and> lm_manifest m \<noteq> None) \<and>
     (ls_connected (lm_snapshot m) \<longrightarrow> lm_connection m \<noteq> None) \<and>
     (lm_desired m \<and> lm_manifest m \<noteq> None \<longrightarrow>
        lm_networkSubscribed m \<and>
        (lm_connection m \<noteq> None \<or> lm_timer m \<noteq> None \<or> ls_status (lm_snapshot m) = LsOffline))"

definition seeking :: "live_manager \<Rightarrow> bool" where
  "seeking m \<longleftrightarrow> lm_lostTimers m = [] \<and> lm_desired m \<and> lm_manifest m \<noteq> None \<and> lm_networkSubscribed m \<and> lm_connection m = None"

locale quiet_listeners =
  fixes env :: live_env
  assumes listen_quiet: "snd (listen env i nt m) = m"
    and open_quiet: "snd (open_connection env mf m) = m"

sublocale quiet_listeners \<subseteq> live_listeners
  by unfold_locales (simp_all add: listen_quiet open_quiet keeps_streams_id)

context quiet_listeners
begin

lemma reportError_quiet [simp]: "reportError env err m = m"
  by (simp add: reportError_def listen_quiet split: option.split)

lemma call_listeners_quiet [simp]: "call_listeners env report nt ls m = m"
  by (induction ls arbitrary: m) (simp_all add: split_beta Let_def listen_quiet)

lemma setSnapshot_quiet [simp]: "setSnapshot env n m = m\<lparr>lm_snapshot := n\<rparr>"
  by (simp add: setSnapshot_def)

lemma emit_quiet [simp]: "emitDiagnostic env d m = m" "emitEvent env e m = m"
  by (simp_all add: emitDiagnostic_def emitEvent_def)

lemma dispatchEvent_quiet [simp]: "dispatchEvent env e g m = (g = lm_generation m, m)"
  by (simp add: dispatchEvent_def)

lemma stopConnection_quiet:
  "lm_connection (stopConnection env r w m) = None"
  "lm_timer (stopConnection env r w m) = lm_timer m"
  "lm_lostTimers (stopConnection env r w m) = lm_lostTimers m"
  "lm_desired (stopConnection env r w m) = lm_desired m"
  "lm_manifest (stopConnection env r w m) = lm_manifest m"
  "lm_networkSubscribed (stopConnection env r w m) = lm_networkSubscribed m"
  "lm_snapshot (stopConnection env r w m) = lm_snapshot m"
  by (simp_all add: stopConnection_def close_connection_def Let_def split: option.split)

lemma setOffline_lifecycle: "seeking m \<Longrightarrow> lifecycle_ok (setOffline env a m)"
  by (simp add: setOffline_def cancelReconnect_def seeking_def lifecycle_ok_def)

lemma scheduleReconnect_lifecycle:
  assumes "seeking m"
  shows "lifecycle_ok (scheduleReconnect env errorState m)"
proof -
  obtain mf where mf: "lm_manifest m = Some mf" using assms by (auto simp: seeking_def)
  have "seeking (cancelReconnect m)" using assms by (simp add: seeking_def cancelReconnect_def)
  note off = setOffline_lifecycle [OF this]
  show ?thesis
  proof (cases "is_online env (cancelReconnect m)")
    case True
    with assms show ?thesis
      by (auto simp: scheduleReconnect_def seeking_def lifecycle_ok_def cancelReconnect_def forget_timer_def Let_def)
  next
    case False
    with assms mf off show ?thesis
      by (simp add: scheduleReconnect_def seeking_def Let_def) (simp add: cancelReconnect_def)
  qed
qed

lemma handleConnectionError_lifecycle:
  assumes "seeking (m\<lparr>lm_connection := None\<rparr>)" and "generation = lm_generation m"
  shows "lifecycle_ok (handleConnectionError env generation err m)"
  using assms scheduleReconnect_lifecycle [OF assms(1), of True]
  by (simp add: handleConnectionError_def Let_def seeking_def)

lemma startConnection_lifecycle:
  assumes "seeking m" and "lm_timer m = None"
  shows "lifecycle_ok (startConnection env status a m)"
proof -
  obtain mf where mf: "lm_manifest m = Some mf" using assms(1) by (auto simp: seeking_def)
  let ?m4 = "m\<lparr>lm_generation := Suc (lm_generation m), lm_snapshot := (lm_snapshot m)\<lparr>ls_status := status,
    ls_connected := False, ls_reconnectAttempt := a\<rparr>\<rparr>"
  have eq: "startConnection env status a m = open_stream env mf (Suc (lm_generation m)) a ?m4"
    using assms(1) by (simp add: startConnection_def mf seeking_def still_wanted_def Let_def)
  obtain r where r: "open_connection env mf ?m4 = (r, ?m4)"
    using open_quiet [of mf ?m4] by (metis prod.collapse)
  show ?thesis
  proof (cases r)
    case (Inl err)
    have "lifecycle_ok (handleConnectionError env (Suc (lm_generation m)) err ?m4)"
      by (rule handleConnectionError_lifecycle) (use assms(1) in \<open>simp_all add: seeking_def\<close>)
    with Inl show ?thesis by (simp add: eq open_stream_def r)
  next
    case (Inr u)
    with assms show ?thesis
      by (simp add: eq open_stream_def r Let_def still_wanted_def mf seeking_def lifecycle_ok_def)
  qed
qed

lemma start_or_offline_lifecycle:
  "seeking m \<Longrightarrow> lm_timer m = None \<Longrightarrow>
   lifecycle_ok (if is_online env m then startConnection env status a m else setOffline env b m)"
  by (simp add: startConnection_lifecycle setOffline_lifecycle)

lemma run_live_call_lifecycle:
  assumes "lifecycle_ok m"
  shows "lifecycle_ok (run_live_call env c m)"
proof (cases c)
  case (LcUpdateManifest url keys)
  show ?thesis
  proof (cases "\<exists>nm. normalizeManifest url keys m = Inr nm \<and> map_option manifest_identity nm \<noteq> lm_identity m")
    case True
    then obtain nm where nm: "normalizeManifest url keys m = Inr nm"
      "map_option manifest_identity nm \<noteq> lm_identity m" by blast
    let ?m4 = "(stopConnection env CloseLifecycle (lm_desired m) (cancelReconnect (m\<lparr>lm_next := Suc (lm_next m)\<rparr>)))
      \<lparr>lm_manifest := nm, lm_identity := map_option manifest_identity nm, lm_snapshot := INITIAL_STATUS\<rparr>"
    have f: "lm_lostTimers ?m4 = []" "lm_connection ?m4 = None" "lm_timer ?m4 = None" "lm_desired ?m4 = lm_desired m"
        "lm_manifest ?m4 = nm" "lm_snapshot ?m4 = INITIAL_STATUS"
      using assms by (simp_all add: stopConnection_quiet cancelReconnect_def lifecycle_ok_def)
    show ?thesis
    proof (cases "lm_desired m \<and> nm \<noteq> None")
      case True
      have "lifecycle_ok (if is_online env (ensureNetworkSubscription ?m4)
          then startConnection env LsConnecting 0 (ensureNetworkSubscription ?m4)
          else setOffline env 1 (ensureNetworkSubscription ?m4))"
        by (rule start_or_offline_lifecycle)
          (use f True in \<open>simp_all add: seeking_def ensureNetworkSubscription_def\<close>)
      moreover have "run_live_call env c m = (if is_online env (ensureNetworkSubscription ?m4)
          then startConnection env LsConnecting 0 (ensureNetworkSubscription ?m4)
          else setOffline env 1 (ensureNetworkSubscription ?m4))"
        using True nm by (simp add: LcUpdateManifest updateManifest_def Let_def)
      ultimately show ?thesis by simp
    next
      case False
      with f nm show ?thesis
        by (simp add: LcUpdateManifest updateManifest_def Let_def lifecycle_ok_def INITIAL_STATUS_def) auto
    qed
  next
    case False
    then have "snd (updateManifest env url keys m) = m"
      by (auto simp: updateManifest_def Let_def split: sum.split)
    with assms show ?thesis by (simp add: LcUpdateManifest)
  qed
next
  case LcConnect
  show ?thesis
  proof (cases "lm_manifest m = None \<or> lm_connection m \<noteq> None \<or> lm_timer m \<noteq> None")
    case True
    with assms show ?thesis by (auto simp: LcConnect live_connect_def Let_def lifecycle_ok_def)
  next
    case False
    let ?m2 = "ensureNetworkSubscription (m\<lparr>lm_desired := True\<rparr>)"
    have "lifecycle_ok (if is_online env ?m2 then startConnection env LsConnecting 0 ?m2 else setOffline env 1 ?m2)"
      by (rule start_or_offline_lifecycle)
        (use False assms in \<open>simp_all add: seeking_def ensureNetworkSubscription_def lifecycle_ok_def
          del: not_Some_eq not_None_eq\<close>)
    with False show ?thesis by (auto simp: LcConnect live_connect_def Let_def)
  qed
next
  case LcReconnect
  let ?m4 = "stopConnection env CloseLifecycle True
    (cancelReconnect (ensureNetworkSubscription (m\<lparr>lm_desired := True\<rparr>)))"
  show ?thesis
  proof (cases "lm_manifest m")
    case None
    with assms show ?thesis
      by (auto simp: LcReconnect live_reconnect_def Let_def lifecycle_ok_def INITIAL_STATUS_def)
  next
    case (Some mf)
    have s: "seeking ?m4" and t: "lm_timer ?m4 = None"
      using assms by (simp_all add: seeking_def ensureNetworkSubscription_def stopConnection_quiet cancelReconnect_def
        lifecycle_ok_def Some)
    show ?thesis
      using startConnection_lifecycle [OF s t] setOffline_lifecycle [OF s]
      by (auto simp: LcReconnect live_reconnect_def Let_def Some ensureNetworkSubscription_def)
  qed
qed (use assms in \<open>auto simp: live_disconnect_def live_clear_def live_destroy_def lifecycle_ok_def stopConnection_quiet
    cancelReconnect_def Let_def INITIAL_STATUS_def live_subscribe_def live_unsubscribe_def live_subscribeEvents_def
    live_unsubscribeEvents_def live_subscribeDiagnostics_def live_unsubscribeDiagnostics_def\<close>)

lemma consumer_lifecycle:
  assumes life: "lifecycle_ok m" and ok: "streams_ok P m" and co: "co \<in> set (lm_consumers m)"
    and gen: "co_generation co = lm_generation m"
  shows "lifecycle_ok (consume_event env co e m)" and "lifecycle_ok (consume_end env co m)"
    and "lifecycle_ok (consume_error env co err m)"
proof -
  have conn: "lm_connection m \<noteq> None" using streams_okD(3) [OF ok co gen] by simp
  have seek: "seeking ((finish_consumer co m)\<lparr>lm_connection := None\<rparr>)"
    using life conn by (auto simp: seeking_def lifecycle_ok_def finish_consumer_def)
  show "lifecycle_ok (consume_event env co e m)"
    using life conn co gen
    by (auto simp: consume_event_def Let_def lifecycle_ok_def split: option.split)
  show "lifecycle_ok (consume_end env co m)"
    using co gen seek scheduleReconnect_lifecycle [OF seek]
    by (simp add: consume_end_def Let_def finish_consumer_def seeking_def)
  show "lifecycle_ok (consume_error env co err m)"
    using co handleConnectionError_lifecycle [OF seek, of "co_generation co" err] gen
    by (simp add: consume_error_def finish_consumer_def)
qed

lemma run_live_step_lifecycle:
  assumes life: "lifecycle_ok m" and ok: "streams_ok P m"
  shows "lifecycle_ok (run_live_step env st m)"
proof -
  have online: "lifecycle_ok (handleOnline env m)"
  proof (cases "\<not> lm_desired m \<or> lm_manifest m = None \<or> lm_connection m \<noteq> None")
    case False
    have "lifecycle_ok (startConnection env LsReconnecting a (cancelReconnect m))" for a
      by (rule startConnection_lifecycle)
        (use False life in \<open>auto simp: seeking_def cancelReconnect_def lifecycle_ok_def\<close>)
    with False show ?thesis by (auto simp: handleOnline_def Let_def)
  qed (use life in \<open>simp add: handleOnline_def\<close>)
  have offline: "lifecycle_ok (handleOffline env m)"
  proof (cases "\<not> lm_desired m \<or> lm_manifest m = None")
    case False
    have "lifecycle_ok (setOffline env a (stopConnection env CloseOffline True (cancelReconnect m)))" for a
      by (rule setOffline_lifecycle)
        (use False life in \<open>auto simp: seeking_def cancelReconnect_def stopConnection_quiet lifecycle_ok_def\<close>)
    with False show ?thesis by (auto simp: handleOffline_def Let_def)
  qed (use life in \<open>simp add: handleOffline_def\<close>)
  have fires: "lifecycle_ok (timer_fires env t m)" for t
  proof (cases "\<exists>a d. lm_timer m = Some (t, a, d)")
    case True
    then obtain a d where t: "lm_timer m = Some (t, a, d)" by blast
    then have s: "seeking (m\<lparr>lm_timer := None\<rparr>)" using life by (auto simp: seeking_def lifecycle_ok_def)
    with t show ?thesis
      using startConnection_lifecycle [OF s] setOffline_lifecycle [OF s]
      by (auto simp: timer_fires_def timer_body_def seeking_def)
  qed (use life in \<open>auto simp: timer_fires_def lifecycle_ok_def split: option.split\<close>)
  have superseded: "lifecycle_ok (finish_consumer co m)" for co
    using life by (simp add: lifecycle_ok_def finish_consumer_def)
  show ?thesis
  proof (cases st)
    case (StEvent co e)
    show ?thesis
      using life superseded consumer_lifecycle(1) [OF life ok, of co e]
      by (cases "co \<in> set (lm_consumers m)"; cases "co_generation co = lm_generation m")
        (simp_all add: StEvent consume_event_def)
  next
    case (StEnd co)
    show ?thesis
      using life superseded consumer_lifecycle(2) [OF life ok, of co]
      by (cases "co \<in> set (lm_consumers m)"; cases "co_generation co = lm_generation m")
        (simp_all add: StEnd consume_end_def Let_def finish_consumer_def)
  next
    case (StError co err)
    show ?thesis
      using life superseded consumer_lifecycle(3) [OF life ok, of co err]
      by (cases "co \<in> set (lm_consumers m)"; cases "co_generation co = lm_generation m")
        (simp_all add: StError consume_error_def handleConnectionError_def finish_consumer_def)
  qed (use life online offline fires run_live_call_lifecycle [OF life] in simp_all)
qed

end

lemma run_live_steps_lifecycle:
  "\<forall>(env, st)\<in>set steps. quiet_listeners env \<Longrightarrow> streams_ok P m \<Longrightarrow> lifecycle_ok m \<Longrightarrow>
   lifecycle_ok (fold (\<lambda>(env, st). run_live_step env st) steps m)"
proof (induction steps arbitrary: m)
  case (Cons s steps)
  obtain env st where s: "s = (env, st)" by (cases s)
  then have q: "quiet_listeners env" using Cons.prems(1) by simp
  then have "live_listeners env"
    using quiet_listeners.listen_quiet quiet_listeners.open_quiet
    by (auto simp: live_listeners_def keeps_streams_def)
  with q Cons show ?case
    by (simp add: s live_listeners.run_live_step_ok quiet_listeners.run_live_step_lifecycle)
qed simp

lemma delay_clamp:
  "0 < M \<Longrightarrow> x \<le> U + 1 / 2 \<Longrightarrow> L - 1 / 2 \<le> x \<Longrightarrow> 0 \<le> U \<Longrightarrow>
   0 \<le> min M (max 0 x) \<and> min M (max 0 x) \<le> M \<and> min M (max 0 x) \<le> U + 1 / 2 \<and>
   min M (L - 1 / 2) \<le> min M (max 0 x)" for M x U L :: rat
  by (auto simp: min_def max_def)

section \<open>Theorems\<close>

definition quiet_env :: live_env where
  "quiet_env = \<lparr>listen = (\<lambda>i nt m. (False, m)), open_connection = (\<lambda>mf m. (Inr (), m)),
     is_online = (\<lambda>m. True), clock = (\<lambda>m. 7), random_sample = (\<lambda>m. Some (1 / 2))\<rparr>"

lemma quiet_reentrant: "reentrant quiet_env"
proof (rule reentrantI; intro allI exI conjI)
  show "snd (listen quiet_env i nt m) = run_live_calls [] m" for i nt m
    by (simp add: quiet_env_def run_live_calls_def)
  show "snd (open_connection quiet_env mf m) = run_live_calls [] m" for mf m
    by (simp add: quiet_env_def run_live_calls_def)
qed simp_all

text \<open>
  C26: a live manager leaves no stream open. In every state it can reach, through any calls of the
  application and any events of the network, with listeners and transports that may themselves
  call the manager to any depth in the middle of its operations, every stream that is still being
  read is the current connection or was closed by the manager, and no two streams are current.
\<close>

theorem live_streams_never_leak:
  assumes "new_live_manager fresh options = Inr m" and "\<forall>(env, st)\<in>set steps. reentrant env"
    and "m' = fold (\<lambda>(env, st). run_live_step env st) steps m"
  shows "(\<forall>co\<in>set (lm_consumers m'). lm_connection m' = Some (co_connection co) \<or> co_connection co \<in> set (lm_closed m')) \<and>
    (\<forall>co\<in>set (lm_consumers m'). \<forall>co'\<in>set (lm_consumers m').
       co_generation co = lm_generation m' \<longrightarrow> co_generation co' = lm_generation m' \<longrightarrow> co = co')"
proof -
  have "streams_ok {} m'"
    unfolding assms(3)
    by (rule run_live_steps_ok [OF _ new_live_manager_streams [OF assms(1)]])
      (use assms(2) reentrant_listeners in blast)
  note D = streams_okD [OF this] and I = streams_ok_inj [OF this]
  show ?thesis
  proof (intro conjI ballI impI)
    fix co assume co: "co \<in> set (lm_consumers m')"
    show "lm_connection m' = Some (co_connection co) \<or> co_connection co \<in> set (lm_closed m')"
      using D(4) [OF co] by simp
    fix co' assume co': "co' \<in> set (lm_consumers m')"
      and "co_generation co = lm_generation m'" "co_generation co' = lm_generation m'"
    then have "co_connection co = co_connection co'" using D(3) [OF co] D(3) [OF co'] by simp
    then show "co = co'" by (rule I [OF co co'])
  qed
qed

theorem live_streams_never_leak_witness:
  "\<exists>m m'. new_live_manager (js ''ff_1'') \<lparr>lo_clientId = None, lo_onEvent = None, lo_onError = None,
       lo_initialDelay = None, lo_maxDelay = None, lo_jitter = None\<rparr> = Inr m \<and>
     m' = fold (\<lambda>(env, st). run_live_step env st)
       [(quiet_env, StCall (LcUpdateManifest (js ''/p'') [js ''a''])), (quiet_env, StCall LcConnect)] m \<and>
     (\<forall>co\<in>set (lm_consumers m'). lm_connection m' = Some (co_connection co) \<or> co_connection co \<in> set (lm_closed m'))"
proof -
  let ?o = "\<lparr>lo_clientId = None, lo_onEvent = None, lo_onError = None,
       lo_initialDelay = None, lo_maxDelay = None, lo_jitter = None\<rparr>"
  obtain m where m: "new_live_manager (js ''ff_1'') ?o = Inr m"
    by (simp add: new_live_manager_def assertClientId_def assertReconnectOptions_def Let_def throw_if_def
        num_finite_def num_val_def num_of_int_def rat_of_dec_def)
  have "\<forall>(env, st)\<in>set [(quiet_env, StCall (LcUpdateManifest (js ''/p'') [js ''a''])), (quiet_env, StCall LcConnect)].
      reentrant env" using quiet_reentrant by simp
  from live_streams_never_leak [OF m this refl] m show ?thesis by blast
qed

text \<open>
  C27: without interfering listeners the manager is never stuck. In every state it can reach, if
  the application wants a connection and the page has live keys, then the manager has a connection,
  or a reconnection timer is pending, or it is offline and listens to the network; it has no
  connection and no timer otherwise, never both, and it reports to be connected only with a
  connection.
\<close>

theorem live_manager_never_stuck:
  assumes "new_live_manager fresh options = Inr m" and "\<forall>(env, st)\<in>set steps. quiet_listeners env"
    and "m' = fold (\<lambda>(env, st). run_live_step env st) steps m"
  shows "(lm_desired m' \<and> lm_manifest m' \<noteq> None \<longrightarrow>
      lm_connection m' \<noteq> None \<or> lm_timer m' \<noteq> None \<or>
      ls_status (lm_snapshot m') = LsOffline \<and> lm_networkSubscribed m') \<and>
    (\<not> (lm_desired m' \<and> lm_manifest m' \<noteq> None) \<longrightarrow> lm_connection m' = None \<and> lm_timer m' = None) \<and>
    (lm_connection m' = None \<or> lm_timer m' = None) \<and>
    (ls_connected (lm_snapshot m') \<longrightarrow> lm_connection m' \<noteq> None)"
proof -
  have "lifecycle_ok m"
    using assms(1) by (auto simp: new_live_manager_def Let_def lifecycle_ok_def INITIAL_STATUS_def)
  then have "lifecycle_ok m'"
    unfolding assms(3) by (rule run_live_steps_lifecycle [OF assms(2) new_live_manager_streams [OF assms(1)]])
  then show ?thesis by (auto simp: lifecycle_ok_def)
qed

theorem live_manager_never_stuck_witness:
  "\<exists>m m'. new_live_manager (js ''ff_1'') \<lparr>lo_clientId = None, lo_onEvent = None, lo_onError = None,
       lo_initialDelay = None, lo_maxDelay = None, lo_jitter = None\<rparr> = Inr m \<and>
     m' = fold (\<lambda>(env, st). run_live_step env st) [(quiet_env, StCall LcConnect)] m \<and>
     (lm_connection m' = None \<or> lm_timer m' = None)"
proof -
  let ?o = "\<lparr>lo_clientId = None, lo_onEvent = None, lo_onError = None,
       lo_initialDelay = None, lo_maxDelay = None, lo_jitter = None\<rparr>"
  obtain m where m: "new_live_manager (js ''ff_1'') ?o = Inr m"
    by (simp add: new_live_manager_def assertClientId_def assertReconnectOptions_def Let_def throw_if_def
        num_finite_def num_val_def num_of_int_def rat_of_dec_def)
  have "quiet_listeners quiet_env" by unfold_locales (simp_all add: quiet_env_def)
  then have "\<forall>(env, st)\<in>set [(quiet_env, StCall LcConnect)]. quiet_listeners env" by simp
  from live_manager_never_stuck [OF m this refl] m show ?thesis by blast
qed

text \<open>
  reconnection delays are bounded: for every attempt and every random sample, even one that is
  not a number or lies outside the unit interval, the delay is between zero and the configured
  maximum, and within the configured jitter of the exponential backoff, up to rounding.
\<close>

lemma reconnectDelay_bounds:
  assumes "0 < lm_initialDelay m" and "lm_initialDelay m \<le> lm_maxDelay m"
    and "0 \<le> lm_jitter m" and "lm_jitter m \<le> 1"
    and "base = min (lm_initialDelay m * 2 ^ min (attempt - 1) 30) (lm_maxDelay m)"
  shows "0 \<le> reconnectDelay env attempt m \<and> reconnectDelay env attempt m \<le> lm_maxDelay m \<and>
    reconnectDelay env attempt m \<le> base * (1 + lm_jitter m) + 1 / 2 \<and>
    min (lm_maxDelay m) (base * (1 - lm_jitter m) - 1 / 2) \<le> reconnectDelay env attempt m"
proof -
  define u where "u = (case random_sample env m of Some sample \<Rightarrow> min 1 (max 0 sample) | None \<Rightarrow> 1 / 2)"
  define f where "f = 1 + lm_jitter m * (2 * u - 1)"
  define x where "x = (of_int \<lfloor>base * f + 1 / 2\<rfloor> :: rat)"
  have base: "0 \<le> base" using assms by (simp add: min_def)
  have u: "0 \<le> u" "u \<le> 1" by (auto simp: u_def split: option.split)
  have "lm_jitter m * (2 * u - 1) \<le> lm_jitter m * 1"
    by (rule mult_left_mono [OF _ assms(3)]) (use u in linarith)
  moreover have "lm_jitter m * (- 1) \<le> lm_jitter m * (2 * u - 1)"
    by (rule mult_left_mono [OF _ assms(3)]) (use u in linarith)
  ultimately have f: "f \<le> 1 + lm_jitter m" "1 - lm_jitter m \<le> f" by (simp_all add: f_def)
  have up: "base * f \<le> base * (1 + lm_jitter m)" by (rule mult_left_mono [OF f(1) base])
  have lo: "base * (1 - lm_jitter m) \<le> base * f" by (rule mult_left_mono [OF f(2) base])
  have x: "x \<le> base * f + 1 / 2" "base * f - 1 / 2 \<le> x" unfolding x_def by linarith+
  have eq: "reconnectDelay env attempt m = min (lm_maxDelay m) (max 0 x)"
    by (simp add: reconnectDelay_def Let_def assms(5) x_def f_def u_def)
  show ?thesis
    unfolding eq
  proof (rule delay_clamp)
    show "0 < lm_maxDelay m" using assms(1,2) by linarith
    show "x \<le> base * (1 + lm_jitter m) + 1 / 2" using x(1) up by linarith
    show "base * (1 - lm_jitter m) - 1 / 2 \<le> x" using x(2) lo by linarith
    show "0 \<le> base * (1 + lm_jitter m)" using base assms(3) by simp
  qed
qed

text \<open>A listener that connects whenever it is told something, and a connected manager it listens to.\<close>

definition eager_env :: live_env where
  "eager_env = quiet_env\<lparr>listen := (\<lambda>i nt m. (False, live_connect quiet_env m))\<rparr>"

definition sample_manager :: live_manager where
  "sample_manager = fold (\<lambda>c. run_live_call quiet_env c)
     [LcUpdateManifest (js ''/p'') [js ''a''], LcConnect, LcSubscribeDiagnostics 1]
     \<lparr>lm_clientId = js ''ff_1'', lm_initialDelay = 500, lm_maxDelay = 10000, lm_jitter = 1 / 5,
      lm_onEvent = None, lm_onError = None, lm_subscribers = [], lm_eventSubscribers = [],
      lm_diagnosticSubscribers = [], lm_snapshot = INITIAL_STATUS, lm_manifest = None, lm_identity = None,
      lm_connection = None, lm_timer = None, lm_lostTimers = [], lm_networkSubscribed = False,
      lm_generation = 0, lm_desired = False, lm_consumers = [], lm_closed = [], lm_finished = [], lm_next = 0\<rparr>"

text \<open>
  \<open>clear\<close> can return with an open stream. When a diagnostics listener calls \<open>connect\<close> while
  \<open>clear\<close> reports that it closes the connection, a new stream is opened for the page that is being
  forgotten; \<open>clear\<close> then drops the manifest and leaves that stream in use.
\<close>

lemma clear_with_eager_listener:
  "lm_connection sample_manager = Some 1 \<and>
   lm_connection (live_clear eager_env sample_manager) = Some 2 \<and>
   2 \<notin> set (lm_closed (live_clear eager_env sample_manager)) \<and>
   lm_manifest (live_clear eager_env sample_manager) = None"
  by code_simp

end
