(* ===== verification/Diagnostics.thy ===== *)
theory Diagnostics
  imports Live_Protocol
begin

text \<open>
  Development diagnostics: the text filters of \<open>packages/core/src/diagnostic-safety.ts\<close> and the
  fan-out channel \<open>FluxDiagnosticsHub\<close> of \<open>diagnostics.ts\<close>. The type \<open>'d\<close> is the payload of an
  event; a listener is named by a number, and what it is called with is recorded in order in
  \<open>dh_calls\<close>. A listener that throws is caught by \<open>notify\<close>, so it has no further effect.
\<close>

section \<open>Safe text\<close>

text \<open>The regular expression \<open>[\u0000-\u001f\u007f-\u009f]\<close>.\<close>

definition control_character :: "16 word \<Rightarrow> bool" where
  "control_character c \<longleftrightarrow> c \<le> 0x1F \<or> (0x7F \<le> c \<and> c \<le> 0x9F)"

definition has_control :: "jstring \<Rightarrow> bool" where
  "has_control s \<longleftrightarrow> list_ex control_character s"

definition diagnosticText :: "jstring \<Rightarrow> nat \<Rightarrow> jstring" where
  "diagnosticText s maximumLength =
     (let safe = filter (\<lambda>c. \<not> control_character c) s
      in if length safe \<le> maximumLength then safe
         else take (maximumLength - 1) safe @ [0x2026])"

definition SAFE_ERROR_TYPES :: "jstring list" where
  "SAFE_ERROR_TYPES = map js
     [''AbortError'', ''AggregateError'', ''Error'', ''EvalError'', ''MutationError'',
      ''NetworkError'', ''ProtocolError'', ''RangeError'', ''ReferenceError'',
      ''ResourceCacheError'', ''ResourceContractError'', ''ResourceError'', ''SyntaxError'',
      ''TransportError'', ''TypeError'', ''URIError'', ''UnknownError'', ''UpstreamUnavailable'',
      ''ValidationError'', ''VersionMismatchError'']"

text \<open>The argument: a string, an \<open>Error\<close> by its name, or some other thrown value.\<close>

datatype throwable = ThrownString jstring | ThrownError jstring | ThrownOther

definition diagnosticErrorType :: "throwable \<Rightarrow> jstring" where
  "diagnosticErrorType err =
     (let name = (case err of
            ThrownString s \<Rightarrow> s
          | ThrownError n \<Rightarrow> if n \<noteq> [] then n else js ''UnknownError''
          | ThrownOther \<Rightarrow> js ''UnknownError'')
      in if name \<in> set SAFE_ERROR_TYPES then name else js ''UnknownError'')"

lemma has_control_filter [simp]: "\<not> has_control (filter (\<lambda>c. \<not> control_character c) s)"
  by (auto simp: has_control_def list_ex_iff)

lemma has_control_append [simp]: "has_control (s @ t) \<longleftrightarrow> has_control s \<or> has_control t"
  by (simp add: has_control_def)

lemma has_control_take: "has_control (take n s) \<Longrightarrow> has_control s"
  by (auto simp: has_control_def list_ex_iff dest: in_set_takeD)

lemma diagnosticText_safe: "\<not> has_control (diagnosticText s n)"
proof -
  have "\<not> has_control [0x2026]" by code_simp
  then show ?thesis
    using has_control_take [of "n - 1" "filter (\<lambda>c. \<not> control_character c) s"]
    by (auto simp: diagnosticText_def Let_def)
qed

lemma diagnosticText_bounded: "0 < n \<Longrightarrow> length (diagnosticText s n) \<le> n"
  by (auto simp: diagnosticText_def Let_def)

lemma diagnosticErrorType_known: "diagnosticErrorType err \<in> set SAFE_ERROR_TYPES"
proof -
  have "js ''UnknownError'' \<in> set SAFE_ERROR_TYPES" by (simp add: SAFE_ERROR_TYPES_def)
  then show ?thesis by (simp add: diagnosticErrorType_def Let_def)
qed

section \<open>The hub\<close>

datatype diag_type =
    DtNavigation | DtResourceLoad | DtResourceUpdate | DtResourceInvalidate | DtPageCache
  | DtPrefetch | DtMutation | DtDeferred | DtLive | DtTransport | DtServerTrace | DtLifecycle

record 'd diag_event =
  de_id :: jstring
  de_timestamp :: nat
  de_type :: diag_type
  de_correlationId :: "jstring option"
  de_data :: 'd

definition MAX_BOOTSTRAP_EVENTS :: nat where
  "MAX_BOOTSTRAP_EVENTS = 32"

record 'd hub =
  dh_listeners :: "callback list"
  dh_bootstrapEvents :: "'d diag_event list"
  dh_calls :: "(callback \<times> 'd diag_event) list"

definition new_hub :: "'d hub" where
  "new_hub = \<lparr>dh_listeners = [], dh_bootstrapEvents = [], dh_calls = []\<rparr>"

definition hub_active :: "'d hub \<Rightarrow> bool" where
  "hub_active h \<longleftrightarrow> length (dh_listeners h) > 0"

definition hub_notify :: "callback \<Rightarrow> 'd diag_event \<Rightarrow> 'd hub \<Rightarrow> 'd hub" where
  "hub_notify listener ev h = h\<lparr>dh_calls := dh_calls h @ [(listener, ev)]\<rparr>"

definition hub_subscribe :: "callback \<Rightarrow> 'd hub \<Rightarrow> 'd hub" where
  "hub_subscribe listener h =
     (let h1 = h\<lparr>dh_listeners := jset_add listener (dh_listeners h)\<rparr>
      in if length (dh_bootstrapEvents h1) > 0 then
           let events = dh_bootstrapEvents h1
           in fold (hub_notify listener) events (h1\<lparr>dh_bootstrapEvents := []\<rparr>)
         else h1)"

text \<open>
  The function \<open>subscribe\<close> returns: \<open>subscribed\<close> is the flag it closes over, which the first
  call turns off.
\<close>

definition hub_unsubscribe :: "callback \<Rightarrow> bool \<Rightarrow> 'd hub \<Rightarrow> bool \<times> 'd hub" where
  "hub_unsubscribe listener subscribed h =
     (if \<not> subscribed then (subscribed, h)
      else (False, h\<lparr>dh_listeners := jset_delete listener (dh_listeners h)\<rparr>))"

definition hub_emit :: "'d diag_event \<Rightarrow> 'd hub \<Rightarrow> 'd hub" where
  "hub_emit ev h =
     (if \<not> hub_active h then h
      else fold (\<lambda>listener. hub_notify listener ev) (dh_listeners h) h)"

definition hub_bootstrap :: "'d diag_event list \<Rightarrow> 'd hub \<Rightarrow> 'd hub" where
  "hub_bootstrap events h =
     (let bounded = take MAX_BOOTSTRAP_EVENTS events
      in if hub_active h then fold hub_emit bounded h
         else h\<lparr>dh_bootstrapEvents := bounded\<rparr>)"

definition hub_removeAllListeners :: "'d hub \<Rightarrow> 'd hub" where
  "hub_removeAllListeners h = h\<lparr>dh_listeners := [], dh_bootstrapEvents := []\<rparr>"

lemma fold_hub_notify:
  "fold (\<lambda>l. hub_notify l ev) ls h = h\<lparr>dh_calls := dh_calls h @ map (\<lambda>l. (l, ev)) ls\<rparr>"
  by (induction ls arbitrary: h) (simp_all add: hub_notify_def)

lemma fold_hub_notify_events:
  "fold (hub_notify l) evs h = h\<lparr>dh_calls := dh_calls h @ map (\<lambda>ev. (l, ev)) evs\<rparr>"
  by (induction evs arbitrary: h) (simp_all add: hub_notify_def)

lemma hub_emit_eq: "hub_emit ev h = h\<lparr>dh_calls := dh_calls h @ map (\<lambda>l. (l, ev)) (dh_listeners h)\<rparr>"
  by (simp add: hub_emit_def fold_hub_notify hub_active_def)

lemma hub_emit_listeners [simp]: "dh_listeners (hub_emit ev h) = dh_listeners h"
  by (simp add: hub_emit_eq)

lemma hub_emit_active [simp]: "hub_active (hub_emit ev h) = hub_active h"
  by (simp add: hub_active_def)

lemma hub_subscribe_eq:
  "hub_subscribe l h = h\<lparr>dh_listeners := jset_add l (dh_listeners h), dh_bootstrapEvents := [],
     dh_calls := dh_calls h @ map (\<lambda>ev. (l, ev)) (dh_bootstrapEvents h)\<rparr>"
  by (cases "dh_bootstrapEvents h") (simp_all add: hub_subscribe_def Let_def fold_hub_notify_events)

text \<open>
  The bootstrap batch reaches the first subscriber once: the events published while nobody
  listened are delivered, in order and at most 32 of them, to the next subscriber only.
\<close>

lemma bootstrap_once:
  assumes "\<not> hub_active h"
  shows "dh_calls (hub_subscribe l' (hub_subscribe l (hub_bootstrap evs h))) =
    dh_calls h @ map (\<lambda>ev. (l, ev)) (take 32 evs)"
  using assms
  by (simp add: hub_bootstrap_def Let_def hub_subscribe_eq MAX_BOOTSTRAP_EVENTS_def)

end
