(* ===== verification/Text_Encoding.thy ===== *)
theory Text_Encoding
  imports Live_Protocol
begin

text \<open>
  The encodings of the platform that \<open>packages/core/src/transport.ts\<close> composes: \<open>TextEncoder\<close> and
  the fatal \<open>TextDecoder\<close> for UTF-8, and \<open>btoa\<close> and \<open>atob\<close>. A string whose code units are all
  below 256, which is what \<open>btoa\<close> takes and \<open>atob\<close> returns, is held as the list of its bytes.
\<close>

section \<open>UTF-8\<close>

text \<open>The code points of a string; an unpaired surrogate becomes U+FFFD.\<close>

definition pair_value :: "16 word \<Rightarrow> 16 word \<Rightarrow> nat" where
  "pair_value c d = 0x10000 + (unat c - 0xD800) * 0x400 + (unat d - 0xDC00)"

fun code_points :: "jstring \<Rightarrow> nat list" where
  "code_points [] = []"
| "code_points [c] = [if high_surrogate c \<or> low_surrogate c then 0xFFFD else unat c]"
| "code_points (c # d # s) =
     (if high_surrogate c \<and> low_surrogate d then pair_value c d # code_points s
      else (if high_surrogate c \<or> low_surrogate c then 0xFFFD else unat c) # code_points (d # s))"

definition utf8_bytes :: "nat \<Rightarrow> nat list" where
  "utf8_bytes n =
     (if n < 0x80 then [n]
      else if n < 0x800 then [0xC0 + n div 0x40, 0x80 + n mod 0x40]
      else if n < 0x10000 then [0xE0 + n div 0x1000, 0x80 + n div 0x40 mod 0x40, 0x80 + n mod 0x40]
      else [0xF0 + n div 0x40000, 0x80 + n div 0x1000 mod 0x40, 0x80 + n div 0x40 mod 0x40,
            0x80 + n mod 0x40])"

text \<open>\<open>new TextEncoder().encode(s)\<close>.\<close>

definition utf8_encode :: "jstring \<Rightarrow> 8 word list" where
  "utf8_encode s = map of_nat (concat (map utf8_bytes (code_points s)))"

definition utf16_units :: "nat \<Rightarrow> jstring" where
  "utf16_units n =
     (if n < 0x10000 then [of_nat n]
      else [of_nat (0xD800 + (n - 0x10000) div 0x400), of_nat (0xDC00 + (n - 0x10000) mod 0x400)])"

definition continuation :: "nat \<Rightarrow> bool" where
  "continuation b \<longleftrightarrow> 0x80 \<le> b \<and> b \<le> 0xBF"

text \<open>Decoding that fails on the first malformed sequence, with the ranges of the standard.\<close>

fun utf8_points :: "nat list \<Rightarrow> nat list option" where
  "utf8_points [] = Some []"
| "utf8_points (b # bs) =
     (if b < 0x80 then map_option ((#) b) (utf8_points bs)
      else if 0xC2 \<le> b \<and> b \<le> 0xDF then
        (case bs of
           c # r \<Rightarrow>
             if continuation c
             then map_option ((#) ((b - 0xC0) * 0x40 + (c - 0x80))) (utf8_points r) else None
         | _ \<Rightarrow> None)
      else if 0xE0 \<le> b \<and> b \<le> 0xEF then
        (case bs of
           c # d # r \<Rightarrow>
             if continuation c \<and> continuation d \<and> (b = 0xE0 \<longrightarrow> 0xA0 \<le> c) \<and> (b = 0xED \<longrightarrow> c \<le> 0x9F)
             then map_option ((#) ((b - 0xE0) * 0x1000 + (c - 0x80) * 0x40 + (d - 0x80))) (utf8_points r)
             else None
         | _ \<Rightarrow> None)
      else if 0xF0 \<le> b \<and> b \<le> 0xF4 then
        (case bs of
           c # d # e # r \<Rightarrow>
             if continuation c \<and> continuation d \<and> continuation e \<and>
                (b = 0xF0 \<longrightarrow> 0x90 \<le> c) \<and> (b = 0xF4 \<longrightarrow> c \<le> 0x8F)
             then map_option ((#) ((b - 0xF0) * 0x40000 + (c - 0x80) * 0x1000 + (d - 0x80) * 0x40 +
                    (e - 0x80))) (utf8_points r)
             else None
         | _ \<Rightarrow> None)
      else None)"

text \<open>\<open>new TextDecoder("utf-8", { fatal: true }).decode(bytes)\<close>, which drops a byte order mark.\<close>

definition utf8_decode :: "8 word list \<Rightarrow> jstring option" where
  "utf8_decode bytes =
     (let bs = map unat bytes;
          body = (if take 3 bs = [0xEF, 0xBB, 0xBF] then drop 3 bs else bs)
      in map_option (\<lambda>ps. concat (map utf16_units ps)) (utf8_points body))"

section \<open>Base64\<close>

definition b64_char :: "nat \<Rightarrow> 16 word" where
  "b64_char n =
     (if n < 26 then of_nat (65 + n)
      else if n < 52 then of_nat (71 + n)
      else if n < 62 then of_nat (n - 4)
      else if n = 62 then 0x2B else 0x2F)"

definition b64_val :: "16 word \<Rightarrow> nat option" where
  "b64_val c =
     (if 65 \<le> c \<and> c \<le> 90 then Some (unat c - 65)
      else if 97 \<le> c \<and> c \<le> 122 then Some (unat c - 71)
      else if 48 \<le> c \<and> c \<le> 57 then Some (unat c + 4)
      else if c = 0x2B then Some 62
      else if c = 0x2F then Some 63 else None)"

fun sextets :: "nat list \<Rightarrow> nat list" where
  "sextets [] = []"
| "sextets [a] = [a div 4, a mod 4 * 16]"
| "sextets [a, b] = [a div 4, a mod 4 * 16 + b div 16, b mod 16 * 4]"
| "sextets (a # b # c # r) =
     [a div 4, a mod 4 * 16 + b div 16, b mod 16 * 4 + c div 64, c mod 64] @ sextets r"

fun octets :: "nat list \<Rightarrow> nat list" where
  "octets (w # x # y # z # r) =
     [w * 4 + x div 16, x mod 16 * 16 + y div 4, y mod 4 * 64 + z] @ octets r"
| "octets [w, x, y] = [w * 4 + x div 16, x mod 16 * 16 + y div 4]"
| "octets [w, x] = [w * 4 + x div 16]"
| "octets _ = []"

definition padding :: "nat \<Rightarrow> nat" where
  "padding n = (4 - n mod 4) mod 4"

definition btoa :: "8 word list \<Rightarrow> jstring" where
  "btoa bytes =
     (let s = map b64_char (sextets (map unat bytes)) in s @ replicate (padding (length s)) 0x3D)"

text \<open>
  The forgiving decoder of the platform: white space is ignored, and up to two padding characters
  are dropped from a text whose length is a multiple of four.
\<close>

definition strip_padding :: "jstring \<Rightarrow> jstring" where
  "strip_padding s =
     (if length s mod 4 \<noteq> 0 then s
      else if length s \<ge> 2 \<and> drop (length s - 2) s = [0x3D, 0x3D] then take (length s - 2) s
      else if length s \<ge> 1 \<and> last s = 0x3D then butlast s
      else s)"

definition atob :: "jstring \<Rightarrow> 8 word list option" where
  "atob s =
     (let t = strip_padding (filter (\<lambda>c. c \<notin> {0x09, 0x0A, 0x0C, 0x0D, 0x20}) s)
      in if length t mod 4 = 1 then None
         else map_option (\<lambda>vs. map of_nat (octets vs)) (collect_options (map b64_val t)))"

section \<open>Decoding undoes encoding\<close>

lemma unat_byte: "unat (b :: 8 word) < 256"
  using unsigned_less [of b, where 'a = nat] by simp

lemma b64_val_char: "n < 64 \<Longrightarrow> b64_val (b64_char n) = Some n"
proof -
  assume "n < 64"
  then have "n \<in> set [0..<64]" by simp
  moreover have "\<forall>n\<in>set [0..<64]. b64_val (b64_char n) = Some n" by code_simp
  ultimately show ?thesis by blast
qed

definition b64url_char :: "16 word \<Rightarrow> bool" where
  "b64url_char c \<longleftrightarrow> (65 \<le> c \<and> c \<le> 90) \<or> (97 \<le> c \<and> c \<le> 122) \<or> (48 \<le> c \<and> c \<le> 57) \<or> c = 0x5F \<or> c = 0x2D"

lemma sextets_less: "\<forall>b\<in>set bs. b < 256 \<Longrightarrow> \<forall>n\<in>set (sextets bs). n < 64"
  by (induction bs rule: sextets.induct) (auto simp: less_mult_imp_div_less)

lemma octets_sextets: "\<forall>b\<in>set bs. b < 256 \<Longrightarrow> octets (sextets bs) = bs"
proof (induction bs rule: sextets.induct)
  case (4 a b c r)
  have "a div 4 * 4 + (a mod 4 * 16 + b div 16) div 16 = a" using 4 by auto
  moreover have "(a mod 4 * 16 + b div 16) mod 16 * 16 + (b mod 16 * 4 + c div 64) div 4 = b"
    using 4 by auto
  moreover have "(b mod 16 * 4 + c div 64) mod 4 * 64 + c mod 64 = c" using 4 by auto
  ultimately show ?case using 4 by simp
qed auto

lemma sextets_length: "length (sextets bs) mod 4 \<noteq> 1"
  by (induction bs rule: sextets.induct) auto

lemma collect_options_map_Some: "\<forall>x\<in>set xs. f x = Some (g x) \<Longrightarrow> collect_options (map f xs) = Some (map g xs)"
  by (induction xs) auto

lemma collect_b64: "\<forall>n\<in>set ns. n < 64 \<Longrightarrow> collect_options (map b64_val (map b64_char ns)) = Some ns"
  using collect_options_map_Some [of ns "b64_val \<circ> b64_char" id] by (simp add: b64_val_char)

lemma b64_char_plain: "n < 64 \<Longrightarrow> b64_char n \<notin> {0x09, 0x0A, 0x0C, 0x0D, 0x20, 0x3D}"
proof -
  assume "n < 64"
  then have "n \<in> set [0..<64]" by simp
  moreover have "\<forall>n\<in>set [0..<64]. b64_char n \<notin> {0x09, 0x0A, 0x0C, 0x0D, 0x20, 0x3D}" by code_simp
  ultimately show ?thesis by blast
qed

lemma strip_padding_pad:
  assumes "0x3D \<notin> set s" and "length s mod 4 \<noteq> 1"
  shows "strip_padding (s @ replicate (padding (length s)) 0x3D) = s"
proof -
  have last: "s \<noteq> [] \<Longrightarrow> last s \<noteq> 0x3D" using assms(1) by (metis last_in_set)
  have tail: "drop k s \<noteq> [0x3D, 0x3D]" for k
    using assms(1) in_set_dropD [of "0x3D" k s] by force
  consider "length s mod 4 = 0" | "length s mod 4 = 2" | "length s mod 4 = 3"
    using assms(2) mod_less_divisor [of 4 "length s"] by linarith
  then show ?thesis
  proof cases
    case 1
    then show ?thesis using last tail by (auto simp: strip_padding_def padding_def Suc_le_eq)
  next
    case 2
    then have "(length s + 2) mod 4 = 0" by presburger
    moreover have "padding (length s) = 2" using 2 by (simp add: padding_def)
    ultimately show ?thesis by (simp add: strip_padding_def numeral_2_eq_2)
  next
    case 3
    then have m: "(length s + 1) mod 4 = 0" by presburger
    have p: "padding (length s) = 1" using 3 by (simp add: padding_def)
    have "drop (length s - 1) (s @ [0x3D]) \<noteq> [0x3D, 0x3D]"
      using assms(1) in_set_dropD [of "0x3D" "length s - 1" s]
      by (auto simp: Cons_eq_append_conv append_eq_Cons_conv)
    with m p show ?thesis by (auto simp: strip_padding_def)
  qed
qed

lemma atob_padded:
  assumes "s = map b64_char (sextets (map unat bytes))"
  shows "atob (s @ replicate (padding (length s)) 0x3D) = Some bytes"
proof -
  have lt: "\<forall>n\<in>set (sextets (map unat bytes)). n < 64"
    by (rule sextets_less) (simp add: unat_byte)
  have plain: "c \<notin> {0x09, 0x0A, 0x0C, 0x0D, 0x20, 0x3D}" if "c \<in> set s" for c
  proof -
    from that obtain n where "n < 64" "c = b64_char n" using lt assms by auto
    then show ?thesis using b64_char_plain [of n] by (simp only: simp_thms)
  qed
  have "filter (\<lambda>c. c \<notin> {0x09, 0x0A, 0x0C, 0x0D, 0x20}) (s @ replicate (padding (length s)) 0x3D) =
      s @ replicate (padding (length s)) 0x3D"
    using plain by (intro filter_True) (auto simp: in_set_replicate)
  moreover have "length s mod 4 \<noteq> 1" using sextets_length [of "map unat bytes"] assms by simp
  moreover have "0x3D \<notin> set s" using plain [of "0x3D"] by blast
  ultimately have "strip_padding (filter (\<lambda>c. c \<notin> {0x09, 0x0A, 0x0C, 0x0D, 0x20})
      (s @ replicate (padding (length s)) 0x3D)) = s"
    by (simp add: strip_padding_pad del: filter_append)
  moreover have "map of_nat (octets (sextets (map unat bytes))) = bytes"
    by (simp add: octets_sextets unat_byte map_idI)
  ultimately show ?thesis
    using collect_b64 [OF lt] \<open>length s mod 4 \<noteq> 1\<close> assms by (simp add: atob_def Let_def)
qed

text \<open>A string without unpaired surrogates.\<close>

fun well_formed_text :: "jstring \<Rightarrow> bool" where
  "well_formed_text [] = True"
| "well_formed_text [c] = (\<not> high_surrogate c \<and> \<not> low_surrogate c)"
| "well_formed_text (c # d # s) =
     (if high_surrogate c \<and> low_surrogate d then well_formed_text s
      else \<not> high_surrogate c \<and> \<not> low_surrogate c \<and> well_formed_text (d # s))"

definition scalar :: "nat \<Rightarrow> bool" where
  "scalar n \<longleftrightarrow> n < 0xD800 \<or> (0xE000 \<le> n \<and> n < 0x110000)"

lemma div_64_split:
  "n div 0x40 = 0x40 * (n div 0x1000) + n div 0x40 mod 0x40"
  "n div 0x1000 = 0x40 * (n div 0x40000) + n div 0x1000 mod 0x40"
  for n :: nat
  using mult_div_mod_eq [of "0x40" "n div 0x40"] mult_div_mod_eq [of "0x40" "n div 0x1000"]
  by (simp_all add: div_mult2_eq [symmetric])

lemma utf8_points_bytes:
  assumes "scalar n"
  shows "utf8_points (utf8_bytes n @ r) = map_option ((#) n) (utf8_points r)"
proof -
  consider "n < 0x80" | "0x80 \<le> n" "n < 0x800" | "0x800 \<le> n" "n < 0x10000" | "0x10000 \<le> n"
    by linarith
  then show ?thesis
  proof cases
    case 2
    have s: "n div 0x40 * 0x40 + n mod 0x40 = n" by simp
    have "n mod 0x40 < 0x40" by simp
    with s 2 have "2 \<le> n div 0x40" "n div 0x40 < 0x20" by linarith+
    with s 2 \<open>n mod 0x40 < 0x40\<close> show ?thesis by (auto simp: utf8_bytes_def continuation_def)
  next
    case 3
    let ?a = "n div 0x1000" and ?b = "n div 0x40 mod 0x40" and ?c = "n mod 0x40"
    have s: "?a * 0x1000 + ?b * 0x40 + ?c = n"
      using div_64_split(1) [of n] mult_div_mod_eq [of "0x40" n] by linarith
    have lt: "?a < 0x10" "?b < 0x40" "?c < 0x40" using 3 by (simp_all add: less_mult_imp_div_less)
    have lo: "?a = 0 \<Longrightarrow> 0x20 \<le> ?b" using s 3 lt by linarith
    have hi: "?a = 0xD \<Longrightarrow> ?b < 0x20" using s 3 lt assms unfolding scalar_def by linarith
    show ?thesis using 3 lt lo hi s by (auto simp: utf8_bytes_def continuation_def)
  next
    case 4
    let ?a = "n div 0x40000" and ?b = "n div 0x1000 mod 0x40" and ?c = "n div 0x40 mod 0x40"
      and ?d = "n mod 0x40"
    have s: "?a * 0x40000 + ?b * 0x1000 + ?c * 0x40 + ?d = n"
      using div_64_split [of n] mult_div_mod_eq [of "0x40" n] by linarith
    have n: "n < 0x110000" using assms 4 by (auto simp: scalar_def)
    then have lt: "?a < 5" "?b < 0x40" "?c < 0x40" "?d < 0x40"
      by (simp_all add: less_mult_imp_div_less)
    have lo: "?a = 0 \<Longrightarrow> 0x10 \<le> ?b" using s 4 lt by linarith
    have hi: "?a = 4 \<Longrightarrow> ?b < 0x10" using s n lt by linarith
    show ?thesis using 4 lt lo hi s by (auto simp: utf8_bytes_def continuation_def)
  qed (simp add: utf8_bytes_def)
qed

lemma utf8_points_encode:
  "\<forall>n\<in>set ps. scalar n \<Longrightarrow> utf8_points (concat (map utf8_bytes ps)) = Some ps"
  by (induction ps) (simp_all add: utf8_points_bytes)

lemma high_surrogate_unat: "high_surrogate c \<longleftrightarrow> 0xD800 \<le> unat c \<and> unat c \<le> 0xDBFF"
  by (simp add: high_surrogate_def word_le_nat_alt)

lemma low_surrogate_unat: "low_surrogate c \<longleftrightarrow> 0xDC00 \<le> unat c \<and> unat c \<le> 0xDFFF"
  by (simp add: low_surrogate_def word_le_nat_alt)

lemma unat_unit: "unat (c :: 16 word) < 0x10000"
  using unsigned_less [of c, where 'a = nat] by simp

lemma scalar_unit: "\<not> high_surrogate c \<Longrightarrow> \<not> low_surrogate c \<Longrightarrow> scalar (unat c)"
  using unat_unit [of c] by (auto simp: high_surrogate_unat low_surrogate_unat scalar_def)

lemma utf16_unit: "utf16_units (unat c) = [c]"
  using unat_unit [of c] by (simp add: utf16_units_def)

lemma pair_value_bounds:
  assumes "high_surrogate c" and "low_surrogate d"
  shows "0x10000 \<le> pair_value c d" and "pair_value c d < 0x110000"
proof -
  have "(unat c - 0xD800) \<le> 0x3FF" "unat d - 0xDC00 \<le> 0x3FF"
    using assms by (auto simp: high_surrogate_unat low_surrogate_unat)
  then show "pair_value c d < 0x110000" by (simp add: pair_value_def)
qed (simp add: pair_value_def)

lemma utf16_pair:
  assumes "high_surrogate c" and "low_surrogate d"
  shows "utf16_units (pair_value c d) = [c, d]"
proof -
  let ?h = "unat c - 0xD800" and ?l = "unat d - 0xDC00"
  have l: "?l < 0x400" and c: "0xD800 + ?h = unat c" and d: "0xDC00 + ?l = unat d"
    using assms by (auto simp: high_surrogate_unat low_surrogate_unat)
  have "pair_value c d - 0x10000 = ?h * 0x400 + ?l" by (simp add: pair_value_def)
  then have "(pair_value c d - 0x10000) div 0x400 = ?h" "(pair_value c d - 0x10000) mod 0x400 = ?l"
    using l by simp_all
  then show ?thesis
    using pair_value_bounds [OF assms] c d by (simp add: utf16_units_def del: of_nat_add)
qed

lemma code_points_scalar: "\<forall>n\<in>set (code_points s). scalar n"
proof (induction s rule: code_points.induct)
  case (2 c)
  then show ?case using scalar_unit [of c] by (auto simp: scalar_def)
next
  case (3 c d s)
  have "scalar (pair_value c d)" if "high_surrogate c" "low_surrogate d"
    using pair_value_bounds [OF that] by (simp add: scalar_def)
  with 3 show ?case using scalar_unit [of c] by (auto simp: scalar_def)
qed simp

lemma utf16_code_points: "well_formed_text s \<Longrightarrow> concat (map utf16_units (code_points s)) = s"
  by (induction s rule: code_points.induct) (auto simp: utf16_unit utf16_pair split: if_splits)

lemma utf8_bytes_less: "n < 0x110000 \<Longrightarrow> \<forall>b\<in>set (utf8_bytes n). b < 256"
proof -
  assume n: "n < 0x110000"
  have d: "n div 0x40 < 0x20" if "n < 0x800" using that by (simp add: less_mult_imp_div_less)
  have e: "n div 0x1000 < 0x10" if "n < 0x10000" using that by (simp add: less_mult_imp_div_less)
  have f: "n div 0x40000 < 5" using n by (simp add: less_mult_imp_div_less)
  have m: "k mod 0x40 < 0x80" for k :: nat by (rule order_less_trans [of _ "0x40"]) simp_all
  have "n div 0x40 < 0x40" if "n < 0x800" using d [OF that] by simp
  moreover have "n div 0x1000 < 0x20" if "n < 0x10000" using e [OF that] by simp
  ultimately show ?thesis using f m by (simp add: utf8_bytes_def)
qed

lemma unat_utf8_encode: "map unat (utf8_encode s) = concat (map utf8_bytes (code_points s))"
proof -
  have "\<forall>b\<in>set (concat (map utf8_bytes (code_points s))). b < 256"
  proof
    fix b assume "b \<in> set (concat (map utf8_bytes (code_points s)))"
    then obtain n where n: "n \<in> set (code_points s)" "b \<in> set (utf8_bytes n)" by auto
    then have "n < 0x110000" using code_points_scalar [of s] by (auto simp: scalar_def)
    with n utf8_bytes_less show "b < 256" by blast
  qed
  then show ?thesis
    unfolding utf8_encode_def map_map by (intro map_idI) (auto simp: unat_of_nat)
qed

text \<open>The length the callers test is the length of the encoding.\<close>

lemma length_utf8_encode: "length (utf8_encode s) = utf8_length s"
proof (induction s rule: utf8_length.induct)
  case (2 c)
  then show ?case
    using unat_unit [of c]
    by (auto simp: utf8_encode_def utf8_bytes_def word_less_nat_alt high_surrogate_unat low_surrogate_unat)
next
  case (3 c d s)
  then show ?case
    using pair_value_bounds [of c d] unat_unit [of c]
    by (auto simp: utf8_encode_def utf8_bytes_def word_less_nat_alt high_surrogate_unat low_surrogate_unat)
qed (simp add: utf8_encode_def)

lemma utf8_bytes_bom: "take 3 (utf8_bytes n @ r) = [0xEF, 0xBB, 0xBF] \<Longrightarrow> n < 0x110000 \<Longrightarrow> n = 0xFEFF"
proof -
  assume t: "take 3 (utf8_bytes n @ r) = [0xEF, 0xBB, 0xBF]" and n: "n < 0x110000"
  have "n div 0x40 < 0x20" if "n < 0x800" using that by (simp add: less_mult_imp_div_less)
  then have "0x800 \<le> n" "n < 0x10000" "n div 0x1000 = 0xF" "n div 0x40 mod 0x40 = 0x3B" "n mod 0x40 = 0x3F"
    using t by (auto simp: utf8_bytes_def split: if_splits)
  then show ?thesis using div_64_split(1) [of n] mult_div_mod_eq [of "0x40" n] by linarith
qed

lemma utf8_roundtrip:
  assumes "well_formed_text s" and "take 1 s \<noteq> [0xFEFF]"
  shows "utf8_decode (utf8_encode s) = Some s"
proof -
  have "take 3 (map unat (utf8_encode s)) \<noteq> [0xEF, 0xBB, 0xBF]"
  proof (cases "code_points s")
    case (Cons n ns)
    have "n \<noteq> 0xFEFF"
    proof
      assume "n = 0xFEFF"
      with Cons have "hd (concat (map utf16_units (code_points s))) = 0xFEFF"
        by (simp add: utf16_units_def)
      with assms Cons show False
        using utf16_code_points [OF assms(1)] by (cases s) auto
    qed
    then show ?thesis
      using utf8_bytes_bom [of n "concat (map utf8_bytes ns)"] code_points_scalar [of s] Cons
      by (auto simp: unat_utf8_encode scalar_def)
  qed (simp add: unat_utf8_encode)
  then show ?thesis
    using utf8_points_encode [OF code_points_scalar] utf16_code_points [OF assms(1)]
    by (simp add: utf8_decode_def Let_def unat_utf8_encode)
qed

end
