(* ===== verification/Transport.thy ===== *)
theory Transport
  imports Diagnostics Text_Encoding
begin

text \<open>
  The HTTP transport (\<open>packages/core/src/transport.ts\<close>, \<open>capabilities.ts\<close>): what it sends about
  the client's resources, the validation of envelopes and of development traces, and
  \<open>FetchTransport\<close>. The platform's URL parser is a parameter: \<open>url_path url\<close> is
  \<open>new URL(url, "http://fluxfast.local").pathname\<close> and \<open>url_protocol url\<close> is
  \<open>new URL(url).protocol\<close>, \<open>None\<close> when the constructor throws. Objects the code allocates and
  never compares carry the identity 0.
\<close>

section \<open>Constants\<close>

definition MAX_KNOWN_RESOURCES :: nat where "MAX_KNOWN_RESOURCES = 100"
definition MAX_KNOWN_BYTES :: nat where "MAX_KNOWN_BYTES = 16 * 1024"
definition MAX_KEY_LENGTH :: nat where "MAX_KEY_LENGTH = 128"
definition MAX_VERSION_LENGTH :: nat where "MAX_VERSION_LENGTH = 128"
definition MAX_ONLY_HEADER_BYTES :: nat where "MAX_ONLY_HEADER_BYTES = 16 * 1024"
definition DEVTOOLS_PROTOCOL_VERSION :: jstring where
  "DEVTOOLS_PROTOCOL_VERSION = js ''fluxfast-devtools/1''"
definition HEADER_DEVTOOLS :: jstring where "HEADER_DEVTOOLS = js ''X-FluxFast-DevTools''"
definition HEADER_DEVTOOLS_TRACE :: jstring where
  "HEADER_DEVTOOLS_TRACE = js ''X-FluxFast-DevTools-Trace''"
definition MAX_DEVTOOLS_TRACE_HEADER_CHARS :: nat where
  "MAX_DEVTOOLS_TRACE_HEADER_CHARS = 7 * 1024"
definition MAX_DEVTOOLS_TRACE_RESOURCES :: nat where "MAX_DEVTOOLS_TRACE_RESOURCES = 256"
definition MAX_DEVTOOLS_TRACE_MUTATION_KEYS :: nat where "MAX_DEVTOOLS_TRACE_MUTATION_KEYS = 100"
definition MAX_DEVTOOLS_DURATION_MS :: rat where "MAX_DEVTOOLS_DURATION_MS = 86400000"
definition HEADER_CAPABILITIES :: jstring where "HEADER_CAPABILITIES = js ''X-FluxFast-Capabilities''"
definition HEADER_CLIENT_ID :: jstring where "HEADER_CLIENT_ID = js ''X-FluxFast-Client-ID''"

definition FLUX_CAPABILITIES :: "jstring list" where
  "FLUX_CAPABILITIES = [js ''deferred-resources'', js ''live-resources'']"

definition serializeCapabilities :: jstring where
  "serializeCapabilities = join_with (js '','') FLUX_CAPABILITIES"

section \<open>Diagnostic values\<close>

definition hasOnlyKeys :: "jsval \<Rightarrow> string list \<Rightarrow> bool" where
  "hasOnlyKeys v allowed \<longleftrightarrow> list_all (\<lambda>(k, _). k \<in> set (map js allowed)) (obj_fields v)"

definition isSafeDiagnosticText :: "jsval \<Rightarrow> nat \<Rightarrow> bool" where
  "isSafeDiagnosticText v maximumLength \<longleftrightarrow>
     is_string v \<and> length (str_val v) > 0 \<and> length (str_val v) \<le> maximumLength \<and>
     \<not> has_control (str_val v)"

fun num_of :: "jsval \<Rightarrow> jnum" where
  "num_of (JNum n) = n"
| "num_of _ = NaN"

definition isSafeDiagnosticNumber :: "jsval \<Rightarrow> rat \<Rightarrow> bool" where
  "isSafeDiagnosticNumber v maximum \<longleftrightarrow>
     is_number v \<and> num_finite (num_of v) \<and> num_val (num_of v) \<ge> 0 \<and> num_val (num_of v) \<le> maximum"

abbreviation safe_duration :: "jsval \<Rightarrow> bool" where
  "safe_duration v \<equiv> isSafeDiagnosticNumber v MAX_DEVTOOLS_DURATION_MS"

text \<open>\<open>["...", ...].includes(v)\<close> after \<open>typeof v === "string"\<close>.\<close>

definition one_of :: "jsval \<Rightarrow> string list \<Rightarrow> bool" where
  "one_of v names \<longleftrightarrow> is_string v \<and> str_val v \<in> set (map js names)"

text \<open>\<open>Number.isSafeInteger(v)\<close>, false for what is not a number.\<close>

definition isSafeInteger :: "jsval \<Rightarrow> bool" where
  "isSafeInteger v \<longleftrightarrow> is_number v \<and> num_is_safe_integer (num_of v)"

section \<open>Base64url\<close>

definition decodeBase64Url :: "jstring \<Rightarrow> jstring option" where
  "decodeBase64Url s =
     (if length s = 0 \<or> length s > MAX_DEVTOOLS_TRACE_HEADER_CHARS \<or> length s mod 4 = 1 \<or>
         \<not> list_all b64url_char s then None
      else
        let standard = map (\<lambda>c. if c = 0x5F then 0x2F else c) (map (\<lambda>c. if c = 0x2D then 0x2B else c) s)
        in (case atob (standard @ replicate (padding (length standard)) 0x3D) of
              None \<Rightarrow> None
            | Some bytes \<Rightarrow> utf8_decode bytes))"

definition encodeBase64Url :: "8 word list \<Rightarrow> jstring" where
  "encodeBase64Url bytes =
     (let encoded = btoa bytes;
          url = map (\<lambda>c. if c = 0x2F then 0x5F else c) (map (\<lambda>c. if c = 0x2B then 0x2D else c) encoded)
      in rev (dropWhile (\<lambda>c. c = 0x3D) (rev url)))"

section \<open>Keys and redirects\<close>

definition safe_resource_key :: "jstring \<Rightarrow> bool" where
  "safe_resource_key s \<longleftrightarrow>
     length (js_trim s) > 0 \<and> length s \<le> MAX_KEY_LENGTH \<and> 0x2C \<notin> set s \<and> \<not> has_control s"

definition isSafeResourceKey :: "jsval \<Rightarrow> bool" where
  "isSafeResourceKey v \<longleftrightarrow> is_string v \<and> safe_resource_key (str_val v)"

definition isOriginRelativeRedirect :: "jsval \<Rightarrow> bool" where
  "isOriginRelativeRedirect v \<longleftrightarrow>
     is_string v \<and> take 1 (str_val v) = js ''/'' \<and> take 2 (str_val v) \<noteq> js ''//'' \<and>
     0x5C \<notin> set (str_val v) \<and> \<not> has_control (str_val v)"

section \<open>Known versions\<close>

text \<open>The loop of \<open>selectKnownVersions\<close>: it stops when a hundred entries were selected.\<close>

fun select_known :: "jsval jobj \<Rightarrow> jstring jobj \<Rightarrow> jstring jobj" where
  "select_known [] safe = safe"
| "select_known ((key, version) # es) safe =
     (if length safe \<ge> MAX_KNOWN_RESOURCES then safe
      else select_known es
        (if safe_resource_key key \<and> is_string version \<and> length (str_val version) \<le> MAX_VERSION_LENGTH \<and>
            \<not> has_control (str_val version)
         then obj_assign key (str_val version) safe else safe))"

definition selectKnownVersions :: "jsval jobj option \<Rightarrow> jstring jobj" where
  "selectKnownVersions knownVersions =
     (case knownVersions of None \<Rightarrow> [] | Some es \<Rightarrow> select_known es [])"

definition json_object :: "jstring jobj \<Rightarrow> jstring" where
  "json_object es =
     js ''{'' @ join_with (js '','') (map (\<lambda>(k, v). json_quote k @ js '':'' @ json_quote v) es) @ js ''}''"

definition encodeKnownVersionSelection :: "jstring jobj \<Rightarrow> jstring option" where
  "encodeKnownVersionSelection safe =
     (if safe = [] then None
      else
        let bytes = utf8_encode (json_object safe)
        in if length bytes > MAX_KNOWN_BYTES then None else Some (encodeBase64Url bytes))"

definition encodeKnownVersions :: "jsval jobj option \<Rightarrow> jstring option" where
  "encodeKnownVersions knownVersions = encodeKnownVersionSelection (selectKnownVersions knownVersions)"

definition selectOnlyResources :: "jstring list option \<Rightarrow> jstring list" where
  "selectOnlyResources only =
     (case only of
        None \<Rightarrow> []
      | Some keys \<Rightarrow>
          let safe = take MAX_KNOWN_RESOURCES (filter safe_resource_key keys)
          in if safe = [] \<or> utf8_length (join_with (js '','') safe) > MAX_ONLY_HEADER_BYTES then []
             else safe)"

section \<open>Development traces\<close>

definition keep_defined :: "jsval \<Rightarrow> string \<Rightarrow> jsval jobj" where
  "keep_defined v name = (if field v name = JUndef then [] else [(js name, field v name)])"

definition copy_fields :: "jsval \<Rightarrow> string list \<Rightarrow> jsval jobj" where
  "copy_fields v names = map (\<lambda>name. (js name, field v name)) names"

definition sanitizeResourceTrace :: "jsval \<Rightarrow> jsval option" where
  "sanitizeResourceTrace v =
     (if \<not> isObject v \<or>
         \<not> hasOnlyKeys v [''key'', ''result'', ''durationMs'', ''scope'', ''ttl'', ''deferred'', ''live'',
            ''cacheBackend'', ''cacheResult'', ''sent'', ''knownVersion'', ''cacheMs'', ''loaderMs'',
            ''errorType''] \<or>
         \<not> isSafeResourceKey (field v ''key'') \<or>
         \<not> one_of (field v ''result'')
             [''cache-hit'', ''cache-miss'', ''loader'', ''deferred'', ''omitted-known'', ''error''] \<or>
         \<not> safe_duration (field v ''durationMs'') \<or>
         \<not> one_of (field v ''scope'') [''public'', ''user'', ''tenant'', ''request'', ''custom''] \<or>
         \<not> isSafeDiagnosticNumber (field v ''ttl'') 1000000000000 \<or>
         \<not> is_boolean (field v ''deferred'') \<or>
         \<not> is_boolean (field v ''live'') \<or>
         \<not> one_of (field v ''cacheBackend'') [''memory'', ''redis'', ''custom''] \<or>
         \<not> one_of (field v ''cacheResult'') [''hit'', ''miss'', ''bypass''] \<or>
         \<not> is_boolean (field v ''sent'') \<or>
         \<not> is_boolean (field v ''knownVersion'') \<or>
         (field v ''cacheMs'' \<noteq> JUndef \<and> \<not> safe_duration (field v ''cacheMs'')) \<or>
         (field v ''loaderMs'' \<noteq> JUndef \<and> \<not> safe_duration (field v ''loaderMs'')) \<or>
         (field v ''errorType'' \<noteq> JUndef \<and>
          \<not> one_of (field v ''errorType'')
              [''ResourceError'', ''ResourceContractError'', ''ResourceCacheError''])
      then None
      else Some (JObj 0
        (copy_fields v [''key'', ''result'', ''durationMs'', ''scope'', ''ttl'', ''deferred'', ''live'',
           ''cacheBackend'', ''cacheResult'', ''sent'', ''knownVersion''] @
         keep_defined v ''cacheMs'' @ keep_defined v ''loaderMs'' @ keep_defined v ''errorType'')))"

text \<open>The loop over the operation counts of one patched resource.\<close>

fun patch_counts :: "jsval jobj \<Rightarrow> jsval jobj \<Rightarrow> jsval jobj option" where
  "patch_counts [] operations = Some operations"
| "patch_counts ((operation, n) # es) operations =
     (if \<not> isSafeInteger n \<or> num_val (num_of n) \<le> 0 \<or> num_val (num_of n) > 1000000
      then None else patch_counts es (obj_assign operation n operations))"

definition sanitizePatchTrace :: "jsval \<Rightarrow> jsval option" where
  "sanitizePatchTrace v =
     (if \<not> isObject v \<or> \<not> hasOnlyKeys v [''key'', ''operations''] \<or>
         \<not> isSafeResourceKey (field v ''key'') \<or> \<not> isObject (field v ''operations'') \<or>
         \<not> hasOnlyKeys (field v ''operations'')
             [''replace-resource'', ''merge-object'', ''replace-item'', ''remove-item'', ''append-item'']
      then None
      else
        (case patch_counts (obj_fields (field v ''operations'')) [] of
           None \<Rightarrow> None
         | Some operations \<Rightarrow>
             Some (JObj 0 [(js ''key'', field v ''key''), (js ''operations'', JObj 0 operations)])))"

text \<open>The regular expression of a request id, \<open>^ffdev_[A-Za-z0-9_-]+$\<close>.\<close>

definition devtools_request_id :: "jstring \<Rightarrow> bool" where
  "devtools_request_id s \<longleftrightarrow>
     take 6 s = js ''ffdev_'' \<and> drop 6 s \<noteq> [] \<and> list_all b64url_char (drop 6 s)"

definition common_trace_fields :: "jsval \<Rightarrow> jsval jobj" where
  "common_trace_fields v =
     (js ''protocol'', JStr DEVTOOLS_PROTOCOL_VERSION) #
     copy_fields v [''requestId'', ''type'', ''durationMs'', ''truncated'']"

definition sanitizePageTrace :: "jsval \<Rightarrow> jsval option" where
  "sanitizePageTrace v =
     (if \<not> hasOnlyKeys v [''protocol'', ''requestId'', ''type'', ''durationMs'', ''pageMs'',
            ''resourcesMs'', ''serializeMs'', ''resources'', ''truncated''] \<or>
         \<not> safe_duration (field v ''pageMs'') \<or> \<not> safe_duration (field v ''resourcesMs'') \<or>
         \<not> safe_duration (field v ''serializeMs'') \<or> \<not> is_array (field v ''resources'') \<or>
         length (arr_items (field v ''resources'')) > MAX_DEVTOOLS_TRACE_RESOURCES
      then None
      else
        (case collect_options (map sanitizeResourceTrace (arr_items (field v ''resources''))) of
           None \<Rightarrow> None
         | Some resources \<Rightarrow>
             Some (JObj 0 (common_trace_fields v @
               copy_fields v [''pageMs'', ''resourcesMs'', ''serializeMs''] @
               [(js ''resources'', JArr 0 resources)]))))"

definition sanitizeMutationTrace :: "jsval \<Rightarrow> jsval option" where
  "sanitizeMutationTrace v =
     (if \<not> hasOnlyKeys v [''protocol'', ''requestId'', ''type'', ''durationMs'', ''handlerMs'',
            ''invalidationMs'', ''serializeMs'', ''patches'', ''invalidated'', ''invalidationCount'',
            ''liveSignals'', ''redirect'', ''truncated''] \<or>
         \<not> safe_duration (field v ''handlerMs'') \<or> \<not> safe_duration (field v ''invalidationMs'') \<or>
         \<not> safe_duration (field v ''serializeMs'') \<or> \<not> is_array (field v ''patches'') \<or>
         length (arr_items (field v ''patches'')) > MAX_DEVTOOLS_TRACE_MUTATION_KEYS \<or>
         \<not> is_array (field v ''invalidated'') \<or>
         length (arr_items (field v ''invalidated'')) > MAX_DEVTOOLS_TRACE_MUTATION_KEYS \<or>
         list_ex (\<lambda>key. \<not> isSafeResourceKey key) (arr_items (field v ''invalidated'')) \<or>
         \<not> isSafeInteger (field v ''invalidationCount'') \<or>
         num_val (num_of (field v ''invalidationCount'')) <
           of_nat (length (arr_items (field v ''invalidated''))) \<or>
         num_val (num_of (field v ''invalidationCount'')) > 1000000 \<or>
         \<not> isSafeInteger (field v ''liveSignals'') \<or>
         num_val (num_of (field v ''liveSignals'')) < 0 \<or>
         num_val (num_of (field v ''liveSignals'')) > 1000000 \<or>
         \<not> one_of (field v ''redirect'') [''none'', ''internal'', ''external'']
      then None
      else
        (case collect_options (map sanitizePatchTrace (arr_items (field v ''patches''))) of
           None \<Rightarrow> None
         | Some patches \<Rightarrow>
             Some (JObj 0 (common_trace_fields v @
               copy_fields v [''handlerMs'', ''invalidationMs'', ''serializeMs''] @
               [(js ''patches'', JArr 0 patches),
                (js ''invalidated'', JArr 0 (arr_items (field v ''invalidated'')))] @
               copy_fields v [''invalidationCount'', ''liveSignals'', ''redirect'']))))"

definition sanitizeServerTrace :: "jsval \<Rightarrow> jsval option" where
  "sanitizeServerTrace v =
     (if \<not> isObject v \<or> field v ''protocol'' \<noteq> JStr DEVTOOLS_PROTOCOL_VERSION \<or>
         \<not> isSafeDiagnosticText (field v ''requestId'') 96 \<or>
         \<not> devtools_request_id (str_val (field v ''requestId'')) \<or>
         \<not> one_of (field v ''type'') [''page'', ''mutation''] \<or>
         \<not> safe_duration (field v ''durationMs'') \<or> \<not> is_boolean (field v ''truncated'')
      then None
      else if field v ''type'' = JStr (js ''page'') then sanitizePageTrace v
      else sanitizeMutationTrace v)"

datatype trace_status = TraceMissing | TraceValid | TraceInvalid | TraceUnsupported

record inspected_trace =
  it_status :: trace_status
  it_protocol :: "jstring option"
  it_trace :: "jsval option"

text \<open>The regular expression of a protocol name, \<open>^[a-z][a-z0-9-]*/\d+$\<close>.\<close>

definition protocol_name :: "jstring \<Rightarrow> bool" where
  "protocol_name s \<longleftrightarrow>
     (let name = takeWhile (\<lambda>c. c \<noteq> 0x2F) s; version = drop (Suc (length name)) s
      in name \<noteq> [] \<and> 97 \<le> hd name \<and> hd name \<le> 122 \<and>
         list_all (\<lambda>c. (97 \<le> c \<and> c \<le> 122) \<or> is_digit c \<or> c = 0x2D) (tl name) \<and>
         length name < length s \<and> version \<noteq> [] \<and> list_all is_digit version)"

definition inspectServerDiagnosticTrace :: "(jstring \<Rightarrow> jsval option) \<Rightarrow> jstring \<Rightarrow> inspected_trace" where
  "inspectServerDiagnosticTrace parse s =
     (case decodeBase64Url s of
        None \<Rightarrow> \<lparr>it_status = TraceInvalid, it_protocol = None, it_trace = None\<rparr>
      | Some decoded \<Rightarrow>
          (case parse decoded of
             None \<Rightarrow> \<lparr>it_status = TraceInvalid, it_protocol = None, it_trace = None\<rparr>
           | Some parsed \<Rightarrow>
               if isObject parsed \<and> isSafeDiagnosticText (field parsed ''protocol'') 64 \<and>
                  field parsed ''protocol'' \<noteq> JStr DEVTOOLS_PROTOCOL_VERSION \<and>
                  protocol_name (str_val (field parsed ''protocol''))
               then \<lparr>it_status = TraceUnsupported, it_protocol = Some (str_val (field parsed ''protocol'')),
                     it_trace = None\<rparr>
               else
                 (case sanitizeServerTrace parsed of
                    None \<Rightarrow> \<lparr>it_status = TraceInvalid, it_protocol = None, it_trace = None\<rparr>
                  | Some trace \<Rightarrow> \<lparr>it_status = TraceValid, it_protocol = None, it_trace = Some trace\<rparr>)))"

definition decodeServerDiagnosticTrace :: "(jstring \<Rightarrow> jsval option) \<Rightarrow> jstring option \<Rightarrow> jsval option" where
  "decodeServerDiagnosticTrace parse header =
     (case header of None \<Rightarrow> None | Some s \<Rightarrow> it_trace (inspectServerDiagnosticTrace parse s))"

end
