(* ===== verification/Fetch_Transport.thy ===== *)
theory Fetch_Transport
  imports Transport
begin

text \<open>
  Envelope validation and the class \<open>FetchTransport\<close> (\<open>packages/core/src/transport.ts\<close>). \<open>fetch\<close>
  is outside the model: \<open>visit\<close> and \<open>mutate\<close> are split at it into the request they send and what
  they do with the outcome, a thrown error or a response. A response is given by what the code
  reads of it: \<open>rs_body\<close> is the value \<open>response.json()\<close> resolves to, \<open>None\<close> when it rejects, and
  \<open>rs_get\<close> is \<open>response.headers.get\<close>.
\<close>

section \<open>Envelopes\<close>

definition strings_or_absent :: "jsval \<Rightarrow> bool" where
  "strings_or_absent v \<longleftrightarrow> v = JUndef \<or> (is_array v \<and> \<not> list_ex (\<lambda>key. \<not> is_string key) (arr_items v))"

definition assertPageEnvelope :: "jsval \<Rightarrow> (error_class, unit) result" where
  "assertPageEnvelope data =
     (if \<not> isObject data \<or> field data ''protocol'' \<noteq> JStr PROTOCOL_VERSION then
        throw_with (if isObject data then field data ''protocol'' else JUndef) VersionMismatchError
      else if \<not> isObject (field data ''page'') \<or> \<not> is_string (field (field data ''page'') ''component'') \<or>
              \<not> is_string (field (field data ''page'') ''url'') then Inl ProtocolError
      else if \<not> isObject (field data ''resources'') then Inl ProtocolError
      else
        andThen (for_each (\<lambda>(key, rec).
          throw_if (\<not> isObject rec \<or> \<not> is_string (field rec ''version'') \<or> \<not> has_field rec ''value'')
            ProtocolError) (obj_fields (field data ''resources''))) (\<lambda>_.
        andThen (for_each (\<lambda>name. throw_if (\<not> strings_or_absent (field data name)) ProtocolError)
          [''resourceKeys'', ''deferred'', ''live'']) (\<lambda>_.
        andThen
          (if field data ''resourceErrors'' \<noteq> JUndef then
             andThen (throw_if (\<not> isObject (field data ''resourceErrors'')) ProtocolError) (\<lambda>_.
             for_each (\<lambda>(key, err).
               throw_if (\<not> isObject err \<or> \<not> is_string (field err ''type'') \<or>
                 \<not> is_string (field err ''message'')) ProtocolError)
               (obj_fields (field data ''resourceErrors'')))
           else Inr ()) (\<lambda>_.
        throw_if (field data ''appVersion'' \<noteq> JUndef \<and> \<not> is_string (field data ''appVersion''))
          ProtocolError))))"

text \<open>The checks \<open>assertMutationEnvelope\<close> makes of one patch.\<close>

definition assertMutationPatch :: "jsval \<Rightarrow> (error_class, unit) result" where
  "assertMutationPatch p =
     (if \<not> isObject p \<or> \<not> is_string (field p ''op'') then Inl MutationError
      else
        (case map_of LIVE_PATCH_OPERATIONS (str_val (field p ''op'')) of
           None \<Rightarrow> Inl MutationError
         | Some opr \<Rightarrow>
             let hasId = (is_string (field p ''id'') \<or> is_number (field p ''id''));
                 hasIdentity = (hasId \<or>
                   (isObject (field p ''match'') \<and> length (obj_fields (field p ''match'')) > 0))
             in throw_if
                  ((has_field p ''id'' \<and> \<not> hasId) \<or>
                   (has_field p ''match'' \<and> \<not> isObject (field p ''match'')) \<or>
                   (opr \<in> {ReplaceResource, MergeObject, AppendItem} \<and> \<not> has_field p ''value'') \<or>
                   (opr \<in> {ReplaceItem, RemoveItem} \<and> \<not> hasIdentity) \<or>
                   (opr = ReplaceItem \<and> \<not> has_field p ''value'') \<or>
                   (opr = MergeObject \<and> \<not> isObject (field p ''value'')))
                  MutationError))"

text \<open>
  \<open>externalRedirect\<close> must parse as a URL; \<open>String(...)\<close> and the constructor are in one \<open>try\<close>.
\<close>

definition external_ok :: "(jstring \<Rightarrow> jstring option) \<Rightarrow> jsval \<Rightarrow> bool" where
  "external_ok url_protocol v \<longleftrightarrow>
     (case to_string v of
        None \<Rightarrow> False
      | Some s \<Rightarrow>
          (case url_protocol s of
             None \<Rightarrow> False
           | Some p \<Rightarrow> is_string v \<and> p \<in> {js ''http:'', js ''https:''}))"

definition assertMutationEnvelope ::
  "(jstring \<Rightarrow> jstring option) \<Rightarrow> jsval \<Rightarrow> (error_class, unit) result" where
  "assertMutationEnvelope url_protocol data =
     (if \<not> isObject data \<or> field data ''protocol'' \<noteq> JStr PROTOCOL_VERSION then
        throw_with (if isObject data then field data ''protocol'' else JUndef) VersionMismatchError
      else
        let m = field data ''mutation'' in
        andThen (throw_if (\<not> isObject m) MutationError) (\<lambda>_.
        andThen (throw_if (\<not> strings_or_absent (field m ''invalidate'')) MutationError) (\<lambda>_.
        andThen (throw_if (field m ''patches'' \<noteq> JUndef \<and> \<not> isObject (field m ''patches'')) MutationError) (\<lambda>_.
        andThen (throw_if (field m ''redirect'' \<noteq> JUndef \<and> \<not> isOriginRelativeRedirect (field m ''redirect''))
          MutationError) (\<lambda>_.
        andThen (throw_if (field m ''externalRedirect'' \<noteq> JUndef \<and>
            \<not> external_ok url_protocol (field m ''externalRedirect'')) MutationError) (\<lambda>_.
        for_each (\<lambda>(key, patches).
          andThen (throw_if (\<not> is_array patches) MutationError) (\<lambda>_.
          for_each assertMutationPatch (arr_items patches))) (obj_fields (field m ''patches''))))))))"

text \<open>Validated values, read at the types the code gives them.\<close>

fun ref_of :: "jsval \<Rightarrow> nat" where
  "ref_of (JArr r _) = r"
| "ref_of (JObj r _) = r"
| "ref_of _ = 0"

definition strings_of :: "jsval \<Rightarrow> jstring list option" where
  "strings_of v = (if v = JUndef then None else Some (map str_val (arr_items v)))"

definition page_envelope_of :: "jsval \<Rightarrow> page_envelope" where
  "page_envelope_of data =
     \<lparr>env_ref = ref_of data,
      env_page = \<lparr>pd_component = str_val (field (field data ''page'') ''component''),
                  pd_url = str_val (field (field data ''page'') ''url''),
                  pd_meta = (if field (field data ''page'') ''meta'' = JUndef then None
                             else Some (obj_fields (field (field data ''page'') ''meta'')))\<rparr>,
      env_resources = map (\<lambda>(k, rec). (k, \<lparr>w_version = str_val (field rec ''version''),
                                           w_value = field rec ''value''\<rparr>))
                        (obj_fields (field data ''resources'')),
      env_resourceKeys = strings_of (field data ''resourceKeys''),
      env_deferred = strings_of (field data ''deferred''),
      env_live = strings_of (field data ''live''),
      env_resourceErrors =
        (if field data ''resourceErrors'' = JUndef then None
         else Some (map (\<lambda>(k, err). (k, \<lparr>e_type = str_val (field err ''type''),
                                        e_message = str_val (field err ''message''),
                                        e_details = field err ''details''\<rparr>))
                      (obj_fields (field data ''resourceErrors'')))),
      env_appVersion = (if field data ''appVersion'' = JUndef then None
                        else Some (str_val (field data ''appVersion'')))\<rparr>"

definition string_of :: "jsval \<Rightarrow> jstring option" where
  "string_of v = (if v = JUndef then None else Some (str_val v))"

definition mutation_payload_of :: "jsval \<Rightarrow> mutation_payload" where
  "mutation_payload_of m =
     \<lparr>mp_patches = (if field m ''patches'' = JUndef then None
                    else Some (map (\<lambda>(k, ps). (k, map patch_of (arr_items ps))) (obj_fields (field m ''patches'')))),
      mp_invalidate = strings_of (field m ''invalidate''),
      mp_redirect = string_of (field m ''redirect''),
      mp_externalRedirect = string_of (field m ''externalRedirect'')\<rparr>"

section \<open>Failed responses\<close>

text \<open>
  A thrown error with the parts a caller reads: its class, the status that is part of the class, a
  message that comes from the response, and \<open>details\<close>.
\<close>

record failure =
  fl_class :: error_class
  fl_message :: "jstring option"
  fl_details :: jsval

abbreviation plain :: "error_class \<Rightarrow> failure" where
  "plain e \<equiv> \<lparr>fl_class = e, fl_message = None, fl_details = JUndef\<rparr>"

text \<open>
  \<open>(errors[field] ??= []).push(msg)\<close>: an inherited name is neither \<open>undefined\<close> nor an array, so
  the call throws. \<open>None\<close> is a thrown \<open>TypeError\<close>.
\<close>

definition add_issue :: "jstring \<Rightarrow> jstring \<Rightarrow> jstring list jobj \<Rightarrow> jstring list jobj option" where
  "add_issue name msg errors =
     (case obj_read errors name of
        PInherited \<Rightarrow> None
      | PMissing \<Rightarrow> Some (obj_assign name [msg] errors)
      | POwn msgs \<Rightarrow> Some (obj_assign name (msgs @ [msg]) errors))"

definition nullish :: "jsval \<Rightarrow> bool" where
  "nullish v \<longleftrightarrow> v = JUndef \<or> v = JNull"

fun issue_loop :: "jsval list \<Rightarrow> jstring list jobj \<Rightarrow> jstring list jobj option" where
  "issue_loop [] errors = Some errors"
| "issue_loop (issue # issues) errors =
     (if \<not> isObject issue \<or> \<not> is_array (field issue ''loc'') then issue_loop issues errors
      else
        let loc = arr_items (field issue ''loc'');
            place = (if loc = [] \<or> nullish (last loc) then JStr (js ''general'') else last loc);
            msg = (if nullish (field issue ''msg'') then JStr (js ''Invalid value'') else field issue ''msg'')
        in (case to_string place of
              None \<Rightarrow> None
            | Some name \<Rightarrow>
                (case to_string msg of
                   None \<Rightarrow> None
                 | Some text \<Rightarrow>
                     (case add_issue name text errors of
                        None \<Rightarrow> None
                      | Some errors' \<Rightarrow> issue_loop issues errors'))))"

definition issues_value :: "jstring list jobj \<Rightarrow> jsval" where
  "issues_value errors = JObj 0 (map (\<lambda>(k, msgs). (k, JArr 0 (map JStr msgs))) errors)"

text \<open>\<open>Inl\<close> is a thrown \<open>TypeError\<close>, \<open>Inr None\<close> the result \<open>undefined\<close>.\<close>

definition validationDetails :: "jsval \<Rightarrow> (error_class, jsval option) result" where
  "validationDetails data =
     (if \<not> isObject data then Inr None
      else if isObject (field data ''error'') \<and> isObject (field (field data ''error'') ''details'') then
        Inr (Some (field (field data ''error'') ''details''))
      else if \<not> is_array (field data ''detail'') then Inr None
      else
        (case issue_loop (arr_items (field data ''detail'')) [] of
           None \<Rightarrow> Inl TypeError
         | Some errors \<Rightarrow> Inr (Some (issues_value errors))))"

section \<open>The transport\<close>

type_synonym headers = "jstring jobj"

record response =
  rs_ok :: bool
  rs_status :: nat
  rs_body :: "jsval option"
  rs_get :: "jstring \<Rightarrow> jstring option"

datatype request_type = PageRequest | MutationRequest

datatype diag_phase = PhaseSuccess | PhaseError

text \<open>The payloads the transport emits.\<close>

datatype transport_data =
    TransportStart request_type (ts_method: jstring) (ts_path: jstring)
      "(jstring \<times> jstring) list" "jstring list"
  | TransportFinish diag_phase request_type jstring jstring rat "nat option" trace_status
      "jstring option" "jstring option"
  | ServerTrace jsval

record diag_context =
  dc_correlationId :: jstring
  dc_requestType :: request_type
  dc_method :: jstring
  dc_path :: jstring
  dc_startedAt :: rat

record fetch_transport =
  ft_baseUrl :: jstring
  ft_diagnostics :: "transport_data hub option"
  ft_eventCounter :: nat
  ft_requestCounter :: nat

definition new_fetch_transport :: "jstring \<Rightarrow> fetch_transport" where
  "new_fetch_transport baseUrl =
     \<lparr>ft_baseUrl = (if baseUrl \<noteq> [] \<and> last baseUrl = 0x2F then butlast baseUrl else baseUrl),
      ft_diagnostics = None, ft_eventCounter = 0, ft_requestCounter = 0\<rparr>"

definition attachDiagnostics :: "transport_data hub \<Rightarrow> fetch_transport \<Rightarrow> fetch_transport" where
  "attachDiagnostics h t = t\<lparr>ft_diagnostics := Some h\<rparr>"

text \<open>ASCII case folding: no other code unit folds to a letter that the callers compare with.\<close>

definition lower :: "16 word \<Rightarrow> 16 word" where
  "lower c = (if 65 \<le> c \<and> c \<le> 90 then c + 32 else c)"

definition absolute_url :: "jstring \<Rightarrow> bool" where
  "absolute_url path \<longleftrightarrow>
     map lower (take 7 path) = js ''http://'' \<or> map lower (take 8 path) = js ''https://''"

definition resolveUrl :: "fetch_transport \<Rightarrow> jstring \<Rightarrow> jstring" where
  "resolveUrl t path =
     (if absolute_url path then path
      else ft_baseUrl t @ (if take 1 path = js ''/'' then [] else js ''/'') @ path)"

definition header_set :: "jstring \<Rightarrow> jstring \<Rightarrow> headers \<Rightarrow> headers" where
  "header_set name v hs = (if name \<in> fst ` set hs then jm_set name v hs else obj_insert name v hs)"

definition removeReservedDevToolsHeader :: "headers \<Rightarrow> headers" where
  "removeReservedDevToolsHeader hs =
     filter (\<lambda>(k, _). map lower k \<noteq> map lower HEADER_DEVTOOLS) hs"

definition split_path :: "jstring \<Rightarrow> jstring" where
  "split_path url = takeWhile (\<lambda>c. c \<noteq> 0x3F \<and> c \<noteq> 0x23) url"

definition diagnosticPath :: "(jstring \<Rightarrow> jstring option) \<Rightarrow> jstring \<Rightarrow> jstring" where
  "diagnosticPath url_path url =
     (let path = (case url_path url of Some p \<Rightarrow> p | None \<Rightarrow> split_path url)
      in diagnosticText (if path = [] then js ''/'' else path) 2048)"

definition correlation_char :: "16 word \<Rightarrow> bool" where
  "correlation_char c \<longleftrightarrow> b64url_char c \<or> c = 0x2E \<or> c = 0x3A"

definition diagnosticCorrelationId :: "jstring option \<Rightarrow> jstring option" where
  "diagnosticCorrelationId v =
     (case v of
        None \<Rightarrow> None
      | Some s \<Rightarrow> if length s = 0 \<or> length s > 128 \<or> \<not> list_all correlation_char s then None else Some s)"

fun base36 :: "nat \<Rightarrow> jstring" where
  "base36 n = (if n < 36 then [hex_digit n] else base36 (n div 36) @ [hex_digit (n mod 36)])"

declare base36.simps [simp del]

text \<open>
  What the transport reads from its surroundings during one call: the time, the monotonic clock
  and the URL parser.
\<close>

record platform =
  pf_now :: nat
  pf_clock :: rat
  pf_urlPath :: "jstring \<Rightarrow> jstring option"
  pf_urlProtocol :: "jstring \<Rightarrow> jstring option"
  pf_parse :: "jstring \<Rightarrow> jsval option"

definition diagnostics_active :: "fetch_transport \<Rightarrow> bool" where
  "diagnostics_active t \<longleftrightarrow> (case ft_diagnostics t of None \<Rightarrow> False | Some h \<Rightarrow> hub_active h)"

definition ft_emitDiagnostic ::
  "platform \<Rightarrow> diag_context \<Rightarrow> diag_type \<Rightarrow> transport_data \<Rightarrow> fetch_transport \<Rightarrow> fetch_transport" where
  "ft_emitDiagnostic pf ctx type data t =
     (case ft_diagnostics t of
        None \<Rightarrow> t
      | Some h \<Rightarrow>
          if \<not> hub_active h then t
          else
            let n = ft_eventCounter t + 1
            in t\<lparr>ft_eventCounter := n,
                 ft_diagnostics := Some (hub_emit
                   \<lparr>de_id = js ''transport_diagnostic_'' @ nat_digits n @ js ''_'' @ base36 (pf_now pf),
                    de_timestamp = pf_now pf, de_type = type,
                    de_correlationId = Some (dc_correlationId ctx), de_data = data\<rparr> h)\<rparr>)"

definition beginDiagnostic ::
  "platform \<Rightarrow> request_type \<Rightarrow> jstring \<Rightarrow> jstring \<Rightarrow> jstring option \<Rightarrow>
   (jstring \<times> jstring) list \<times> jstring list \<Rightarrow> fetch_transport \<Rightarrow>
   diag_context option \<times> fetch_transport" where
  "beginDiagnostic pf requestType method url correlationId metadata t =
     (if \<not> diagnostics_active t then (None, t)
      else
        let (cid, t1) = (case diagnosticCorrelationId correlationId of
               Some s \<Rightarrow> (s, t)
             | None \<Rightarrow>
                 (js ''transport_'' @ nat_digits (ft_requestCounter t + 1) @ js ''_'' @ base36 (pf_now pf),
                  t\<lparr>ft_requestCounter := ft_requestCounter t + 1\<rparr>));
            ctx = \<lparr>dc_correlationId = cid, dc_requestType = requestType,
                   dc_method = diagnosticText method 32, dc_path = diagnosticPath (pf_urlPath pf) url,
                   dc_startedAt = pf_clock pf\<rparr>
        in (Some ctx,
            ft_emitDiagnostic pf ctx DtTransport
              (TransportStart requestType (dc_method ctx) (dc_path ctx)
                 (if requestType = PageRequest then fst metadata else [])
                 (if requestType = PageRequest then snd metadata else [])) t1))"

text \<open>The status and protocol of the trace that came with the response.\<close>

type_synonym trace_observation = "trace_status \<times> jstring option"

definition emitServerTrace ::
  "platform \<Rightarrow> diag_context option \<Rightarrow> response \<Rightarrow> fetch_transport \<Rightarrow> trace_observation \<times> fetch_transport" where
  "emitServerTrace pf context response t =
     (case context of
        None \<Rightarrow> ((TraceMissing, None), t)
      | Some ctx \<Rightarrow>
          if \<not> diagnostics_active t then ((TraceMissing, None), t)
          else
            (case rs_get response HEADER_DEVTOOLS_TRACE of
               None \<Rightarrow> ((TraceMissing, None), t)
             | Some encoded \<Rightarrow>
                 let inspected = inspectServerDiagnosticTrace (pf_parse pf) encoded
                 in ((it_status inspected, it_protocol inspected),
                     (case it_trace inspected of
                        None \<Rightarrow> t
                      | Some trace \<Rightarrow> ft_emitDiagnostic pf ctx DtServerTrace (ServerTrace trace) t))))"

definition finishDiagnostic ::
  "platform \<Rightarrow> diag_context option \<Rightarrow> diag_phase \<Rightarrow> nat option \<Rightarrow> trace_observation \<Rightarrow> throwable \<Rightarrow>
   fetch_transport \<Rightarrow> fetch_transport" where
  "finishDiagnostic pf context phase status serverTrace err t =
     (case context of
        None \<Rightarrow> t
      | Some ctx \<Rightarrow>
          if \<not> diagnostics_active t then t
          else ft_emitDiagnostic pf ctx DtTransport
                 (TransportFinish phase (dc_requestType ctx) (dc_method ctx) (dc_path ctx)
                    (max 0 (pf_clock pf - dc_startedAt ctx)) status (fst serverTrace) (snd serverTrace)
                    (if phase = PhaseError then Some (diagnosticErrorType err) else None)) t)"

section \<open>Responses\<close>

fun starts_with :: "'a list \<Rightarrow> 'a list \<Rightarrow> bool" where
  "starts_with [] s = True"
| "starts_with (p # ps) [] = False"
| "starts_with (p # ps) (c # s) = (p = c \<and> starts_with ps s)"

fun includes_text :: "'a list \<Rightarrow> 'a list \<Rightarrow> bool" where
  "includes_text p [] = (p = [])"
| "includes_text p (c # s) = (starts_with p (c # s) \<or> includes_text p s)"

definition readResponse :: "response \<Rightarrow> (failure, jsval) result" where
  "readResponse response =
     (let contentType = (case rs_get response (js ''content-type'') of None \<Rightarrow> [] | Some s \<Rightarrow> s)
      in if contentType \<noteq> [] \<and> \<not> includes_text (js ''json'') contentType then Inl (plain ProtocolError)
         else
           (case rs_body response of
              None \<Rightarrow> Inl (plain (TransportError (Some (rs_status response))))
            | Some data \<Rightarrow> Inr data))"

definition throwForError :: "response \<Rightarrow> jsval \<Rightarrow> (failure, unit) result" where
  "throwForError response data =
     (if rs_ok response then Inr ()
      else
        andThen
          (if rs_status response = 422 then
             (case validationDetails data of
                Inl e \<Rightarrow> Inl (plain e)
              | Inr None \<Rightarrow> Inr ()
              | Inr (Some details) \<Rightarrow>
                  Inl \<lparr>fl_class = ValidationError, fl_message = Some (js ''Request validation failed''),
                       fl_details = details\<rparr>)
           else Inr ()) (\<lambda>_.
        let message =
              (if isObject data \<and> isObject (field data ''error'') \<and>
                  is_string (field (field data ''error'') ''message'')
               then str_val (field (field data ''error'') ''message'')
               else if isObject data \<and> is_string (field data ''detail'') then str_val (field data ''detail'')
               else js ''Request failed with HTTP status '' @ nat_digits (rs_status response))
        in Inl \<lparr>fl_class = TransportError (Some (rs_status response)), fl_message = Some message,
                fl_details = data\<rparr>))"

definition lift_error :: "(error_class, 'a) result \<Rightarrow> (failure, 'a) result" where
  "lift_error r = (case r of Inl e \<Rightarrow> Inl (plain e) | Inr a \<Rightarrow> Inr a)"

definition handlePageResponse :: "response \<Rightarrow> (failure, jsval) result" where
  "handlePageResponse response =
     andThen (readResponse response) (\<lambda>data.
     andThen (throwForError response data) (\<lambda>_.
     andThen (lift_error (assertPageEnvelope data)) (\<lambda>_. Inr data)))"

text \<open>\<open>data.mutation.externalRedirect = v\<close> on a validated envelope.\<close>

definition set_external :: "jstring \<Rightarrow> jsval \<Rightarrow> jsval" where
  "set_external v data =
     (case data of
        JObj r fs \<Rightarrow>
          JObj r (map (\<lambda>(k, x). (k, if k = js ''mutation'' then
             (case x of JObj r' ms \<Rightarrow> JObj r' (obj_assign (js ''externalRedirect'') (JStr v) ms) | _ \<Rightarrow> x)
             else x)) fs)
      | _ \<Rightarrow> data)"

definition handleMutationResponse ::
  "(jstring \<Rightarrow> jstring option) \<Rightarrow> response \<Rightarrow> (failure, jsval) result" where
  "handleMutationResponse url_protocol response =
     andThen (readResponse response) (\<lambda>data.
     andThen (throwForError response data) (\<lambda>_.
     andThen (lift_error (assertMutationEnvelope url_protocol data)) (\<lambda>_.
     case rs_get response (js ''X-FluxFast-External-Redirect'') of
       None \<Rightarrow> Inr data
     | Some externalRedirect \<Rightarrow>
         if externalRedirect \<noteq> [] \<and> \<not> truthy (field (field data ''mutation'') ''externalRedirect'') then
           let data' = set_external externalRedirect data
           in andThen (lift_error (assertMutationEnvelope url_protocol data')) (\<lambda>_. Inr data')
         else Inr data)))"

section \<open>Requests\<close>

record visit_request =
  vr_url :: jstring
  vr_visitId :: jstring
  vr_knownVersions :: "jsval jobj option"
  vr_only :: "jstring list option"
  vr_headers :: "headers option"

record mutation_request =
  mr_url :: jstring
  mr_method :: "jstring option"
  mr_data :: jsval
  mr_clientId :: "jstring option"
  mr_headers :: "headers option"
  mr_correlationId :: "jstring option"

record http_request =
  hr_url :: jstring
  hr_method :: jstring
  hr_headers :: headers
  hr_body :: "jstring option"

definition visit_send ::
  "platform \<Rightarrow> visit_request \<Rightarrow> fetch_transport \<Rightarrow> http_request \<times> diag_context option \<times> fetch_transport" where
  "visit_send pf request t =
     (let selection = selectKnownVersions (vr_knownVersions request);
          encodedKnown = encodeKnownVersionSelection selection;
          only = selectOnlyResources (vr_only request);
          (diagnostic, t1) =
            (if diagnostics_active t then
               beginDiagnostic pf PageRequest (js ''GET'') (vr_url request) (Some (vr_visitId request))
                 ((case encodedKnown of Some _ \<Rightarrow> selection | None \<Rightarrow> []), only) t
             else (None, t));
          h1 = (case vr_headers request of None \<Rightarrow> [] | Some hs \<Rightarrow> hs);
          h2 = fold (\<lambda>(k, v). header_set k v)
                 [(js ''Accept'', PROTOCOL_MEDIA_TYPE), (js ''X-FluxFast'', js ''1''),
                  (js ''X-FluxFast-Protocol'', js ''1''), (js ''X-FluxFast-Visit'', vr_visitId request),
                  (HEADER_CAPABILITIES, serializeCapabilities)] h1;
          h3 = removeReservedDevToolsHeader h2;
          h4 = (if diagnostic \<noteq> None then header_set HEADER_DEVTOOLS (js ''1'') h3 else h3);
          h5 = (case encodedKnown of Some e \<Rightarrow> header_set (js ''X-FluxFast-Known'') e h4 | None \<Rightarrow> h4);
          h6 = (if only \<noteq> [] then header_set (js ''X-FluxFast-Only'') (join_with (js '','') only) h5 else h5)
      in (\<lparr>hr_url = resolveUrl t (vr_url request), hr_method = js ''GET'', hr_headers = h6, hr_body = None\<rparr>,
          diagnostic, t1))"

definition visit_receive ::
  "platform \<Rightarrow> diag_context option \<Rightarrow> (failure, response) result \<Rightarrow> fetch_transport \<Rightarrow>
   (failure, jsval) result \<times> fetch_transport" where
  "visit_receive pf diagnostic outcome t =
     (case outcome of
        Inl err \<Rightarrow>
          (Inl err, finishDiagnostic pf diagnostic PhaseError None (TraceMissing, None)
             (ThrownError (error_name (fl_class err))) t)
      | Inr response \<Rightarrow>
          let (traceStatus, t1) = emitServerTrace pf diagnostic response t
          in (case handlePageResponse response of
                Inl err \<Rightarrow>
                  (Inl err, finishDiagnostic pf diagnostic PhaseError (Some (rs_status response)) traceStatus
                     (ThrownError (error_name (fl_class err))) t1)
              | Inr envelope \<Rightarrow>
                  (Inr envelope, finishDiagnostic pf diagnostic PhaseSuccess (Some (rs_status response))
                     traceStatus ThrownOther t1)))"

definition mutate_send ::
  "platform \<Rightarrow> mutation_request \<Rightarrow> fetch_transport \<Rightarrow>
   (error_class, http_request \<times> diag_context option) result \<times> fetch_transport" where
  "mutate_send pf request t =
     (case assertClientId (mr_clientId request) of
        Inl e \<Rightarrow> (Inl e, t)
      | Inr _ \<Rightarrow>
          let method = (case mr_method request of None \<Rightarrow> js ''POST'' | Some m \<Rightarrow> m);
              (diagnostic, t1) =
                beginDiagnostic pf MutationRequest method (mr_url request) (mr_correlationId request) ([], []) t;
              h1 = (case mr_headers request of None \<Rightarrow> [] | Some hs \<Rightarrow> hs);
              h2 = fold (\<lambda>(k, v). header_set k v)
                     [(js ''Accept'', PROTOCOL_MEDIA_TYPE), (js ''Content-Type'', js ''application/json''),
                      (js ''X-FluxFast'', js ''1''), (js ''X-FluxFast-Protocol'', js ''1''),
                      (HEADER_CAPABILITIES, serializeCapabilities)] h1;
              h3 = removeReservedDevToolsHeader h2;
              h4 = (if diagnostic \<noteq> None then header_set HEADER_DEVTOOLS (js ''1'') h3 else h3);
              h5 = (case mr_clientId request of
                      Some c \<Rightarrow> if c \<noteq> [] then header_set HEADER_CLIENT_ID c h4 else h4 | None \<Rightarrow> h4)
          in (Inr (\<lparr>hr_url = resolveUrl t (mr_url request), hr_method = method, hr_headers = h5,
                    hr_body = json_text (mr_data request)\<rparr>, diagnostic), t1))"

definition mutate_receive ::
  "platform \<Rightarrow> diag_context option \<Rightarrow> (failure, response) result \<Rightarrow> fetch_transport \<Rightarrow>
   (failure, jsval) result \<times> fetch_transport" where
  "mutate_receive pf diagnostic outcome t =
     (case outcome of
        Inl err \<Rightarrow>
          (Inl err, finishDiagnostic pf diagnostic PhaseError None (TraceMissing, None)
             (ThrownError (error_name (fl_class err))) t)
      | Inr response \<Rightarrow>
          let (traceStatus, t1) = emitServerTrace pf diagnostic response t
          in (case handleMutationResponse (pf_urlProtocol pf) response of
                Inl err \<Rightarrow>
                  (Inl err, finishDiagnostic pf diagnostic PhaseError (Some (rs_status response)) traceStatus
                     (ThrownError (error_name (fl_class err))) t1)
              | Inr envelope \<Rightarrow>
                  (Inr envelope, finishDiagnostic pf diagnostic PhaseSuccess (Some (rs_status response))
                     traceStatus ThrownOther t1)))"

end
