(* ===== verification/Transport_Theorems.thy ===== *)
theory Transport_Theorems
  imports Fetch_Transport
begin

text \<open>
  Properties of the transport: its headers decode to what was selected, only validated envelopes
  come out of a response, redirects of a mutation stay on the origin or are absolute HTTP URLs,
  and development traces are sanitised.
\<close>

section \<open>Base64url\<close>

definition to_url :: "16 word \<Rightarrow> 16 word" where
  "to_url c = (let d = if c = 0x2B then 0x2D else c in if d = 0x2F then 0x5F else d)"

definition from_url :: "16 word \<Rightarrow> 16 word" where
  "from_url c = (let d = if c = 0x2D then 0x2B else c in if d = 0x5F then 0x2F else d)"

lemma url_char:
  assumes "n < 64"
  shows "from_url (to_url (b64_char n)) = b64_char n" and "b64url_char (to_url (b64_char n))"
    and "to_url (b64_char n) \<noteq> 0x3D"
proof -
  have "n \<in> set [0..<64]" using assms by simp
  moreover have "\<forall>n\<in>set [0..<64]. from_url (to_url (b64_char n)) = b64_char n \<and>
      b64url_char (to_url (b64_char n)) \<and> to_url (b64_char n) \<noteq> 0x3D" by code_simp
  ultimately show "from_url (to_url (b64_char n)) = b64_char n" "b64url_char (to_url (b64_char n))"
    "to_url (b64_char n) \<noteq> 0x3D" by blast+
qed

lemma sextets_byte: "\<forall>n\<in>set (sextets (map unat (bytes :: 8 word list))). n < 64"
  by (rule sextets_less) (simp add: unat_byte)

lemma dropWhile_replicate_append: "dropWhile (\<lambda>c. c = x) (replicate n x @ s) = dropWhile (\<lambda>c. c = x) s"
  by (induction n) auto

lemma encodeBase64Url_eq:
  "encodeBase64Url bytes = map (to_url \<circ> b64_char) (sextets (map unat bytes))"
proof -
  let ?s = "map b64_char (sextets (map unat bytes))"
  have "map (\<lambda>c. if c = 0x2F then 0x5F else c) (map (\<lambda>c. if c = 0x2B then 0x2D else c) (btoa bytes)) =
      map to_url ?s @ replicate (padding (length ?s)) 0x3D"
    by (simp add: btoa_def Let_def to_url_def)
  moreover have "dropWhile (\<lambda>c. c = 0x3D) (rev (map to_url ?s)) = rev (map to_url ?s)"
  proof (cases "rev (map to_url ?s)")
    case (Cons c cs)
    then have "c \<in> set (map to_url ?s)" by (metis list.set_intros(1) set_rev)
    then have "c \<noteq> 0x3D" using sextets_byte [of bytes] url_char(3) by auto
    with Cons show ?thesis by simp
  qed simp
  ultimately show ?thesis
    by (simp add: encodeBase64Url_def Let_def dropWhile_replicate_append del: map_map)
      (simp add: comp_def)
qed

lemma length_sextets: "3 * length (sextets bs) \<le> 4 * length bs + 2"
  by (induction bs rule: sextets.induct) auto

lemma encodeBase64Url_chars: "list_all b64url_char (encodeBase64Url bytes)"
  using sextets_byte [of bytes] url_char(2) by (auto simp: encodeBase64Url_eq list_all_iff)

lemma encodeBase64Url_length: "3 * length (encodeBase64Url bytes) \<le> 4 * length bytes + 2"
  using length_sextets [of "map unat bytes"] by (simp add: encodeBase64Url_eq)

lemma sextets_Nil: "sextets bs = [] \<longleftrightarrow> bs = []"
  by (cases bs rule: sextets.cases) auto

text \<open>The standard alphabet with its padding gives back the bytes, whatever their number.\<close>

lemma atob_encode:
  "atob (map from_url (encodeBase64Url bytes) @ replicate (padding (length (encodeBase64Url bytes))) 0x3D) = Some bytes"
proof -
  let ?s = "map b64_char (sextets (map unat bytes))"
  have "map from_url (encodeBase64Url bytes) = ?s"
    using sextets_byte [of bytes] url_char(1) by (simp add: encodeBase64Url_eq)
  moreover have "length (encodeBase64Url bytes) = length ?s" by (simp add: encodeBase64Url_eq)
  moreover have "atob (?s @ replicate (padding (length ?s)) 0x3D) = Some bytes" by (rule atob_padded) (rule refl)
  ultimately show ?thesis by (simp del: map_map)
qed

lemma decode_encode:
  assumes "well_formed_text s" and "take 1 s \<noteq> [0xFEFF]" and "s \<noteq> []"
    and "length (encodeBase64Url (utf8_encode s)) \<le> MAX_DEVTOOLS_TRACE_HEADER_CHARS"
  shows "decodeBase64Url (encodeBase64Url (utf8_encode s)) = Some s"
proof -
  let ?b = "utf8_encode s" and ?e = "encodeBase64Url (utf8_encode s)"
  let ?s = "map b64_char (sextets (map unat ?b))"
  have "map (\<lambda>c. if c = 0x5F then 0x2F else c) (map (\<lambda>c. if c = 0x2D then 0x2B else c) ?e) = map from_url ?e"
    by (simp add: from_url_def)
  also have "\<dots> = ?s"
    using sextets_byte [of ?b] url_char(1) by (simp add: encodeBase64Url_eq)
  finally have std: "map (\<lambda>c. if c = 0x5F then 0x2F else c) (map (\<lambda>c. if c = 0x2D then 0x2B else c) ?e) = ?s" .
  have "atob (?s @ replicate (padding (length ?s)) 0x3D) = Some ?b"
    by (rule atob_padded) (rule refl)
  moreover have "?b \<noteq> []"
  proof
    assume "?b = []"
    then have "Some s = Some []"
      using utf8_roundtrip [OF assms(1,2)] by (simp add: utf8_decode_def)
    with assms(3) show False by simp
  qed
  then have "length ?e \<noteq> 0" by (simp add: encodeBase64Url_eq sextets_Nil)
  moreover have "length ?e mod 4 \<noteq> 1"
    using sextets_length [of "map unat ?b"] by (simp add: encodeBase64Url_eq)
  ultimately show ?thesis
    using assms(4) encodeBase64Url_chars [of ?b] utf8_roundtrip [OF assms(1,2)] std
    by (simp add: decodeBase64Url_def Let_def del: map_map)
qed

section \<open>The text of a JSON object is well formed\<close>

lemma well_formed_append:
  "well_formed_text s \<Longrightarrow> well_formed_text t \<Longrightarrow> well_formed_text (s @ t)"
proof (induction s rule: well_formed_text.induct)
  case (2 c)
  then show ?case by (cases t) auto
next
  case (3 c d s)
  then show ?case by (auto split: if_splits)
qed simp

lemma well_formed_plain: "\<forall>c\<in>set s. \<not> high_surrogate c \<and> \<not> low_surrogate c \<Longrightarrow> well_formed_text s"
  by (induction s rule: well_formed_text.induct) auto

lemma hex_digit_plain: "n < 16 \<Longrightarrow> \<not> high_surrogate (hex_digit n) \<and> \<not> low_surrogate (hex_digit n)"
proof -
  assume "n < 16"
  then have "n \<in> set [0..<16]" by simp
  moreover have "\<forall>n\<in>set [0..<16]. \<not> high_surrogate (hex_digit n) \<and> \<not> low_surrogate (hex_digit n)" by code_simp
  ultimately show ?thesis by blast
qed

lemma hex4_plain: "c' \<in> set (hex4 c) \<Longrightarrow> \<not> high_surrogate c' \<and> \<not> low_surrogate c'"
proof -
  assume c': "c' \<in> set (hex4 c)"
  have "unat c div 4096 < 16" using unat_unit [of c] by (simp add: less_mult_imp_div_less)
  then show ?thesis using c' hex_digit_plain by (auto simp: hex4_def Let_def)
qed

lemma json_escape_plain: "c' \<in> set (json_escape c) \<Longrightarrow> \<not> high_surrogate c' \<and> \<not> low_surrogate c'"
proof -
  have "\<not> high_surrogate (0x5C :: 16 word)" "\<not> low_surrogate (0x5C :: 16 word)"
    "\<forall>d\<in>set [0x22, 0x62, 0x66, 0x6E, 0x72, 0x74, 0x75 :: 16 word]. \<not> high_surrogate d \<and> \<not> low_surrogate d"
    by code_simp+
  then show "c' \<in> set (json_escape c) \<Longrightarrow> ?thesis"
    using hex4_plain [of c' c] by (auto simp: json_escape_def split: if_splits)
qed

lemma well_formed_escapes: "well_formed_text (json_escapes s)"
proof (induction s rule: json_escapes.induct)
  case (2 c)
  show ?case using json_escape_plain by (simp add: well_formed_plain)
next
  case (3 c d s)
  then show ?case
    using well_formed_append [OF well_formed_plain, of "json_escape c"] json_escape_plain by auto
qed simp

lemma well_formed_js: "well_formed_text (js t)"
proof (rule well_formed_plain)
  have "unat (of_char c :: 16 word) < 0xD800" for c
    unfolding unat_of_char16 by (rule order_less_trans [OF nat_of_char_less_256]) simp
  moreover have "\<not> high_surrogate c \<and> \<not> low_surrogate c" if "unat c < 0xD800" for c
    using that by (simp add: high_surrogate_unat low_surrogate_unat)
  ultimately have "\<not> high_surrogate (of_char c) \<and> \<not> low_surrogate (of_char c)" for c by blast
  then show "\<forall>c\<in>set (js t). \<not> high_surrogate c \<and> \<not> low_surrogate c"
    by (auto simp: js_def)
qed

lemma well_formed_quote: "well_formed_text (json_quote s)"
proof -
  have "well_formed_text [0x22]" by code_simp
  then show ?thesis by (simp add: json_quote_def well_formed_append well_formed_escapes del: append.simps)
qed

lemma well_formed_join: "\<forall>t\<in>set ts. well_formed_text t \<Longrightarrow> well_formed_text (join_with (js '','') ts)"
  by (induction "js '',''" ts rule: join_with.induct) (auto intro!: well_formed_append well_formed_js)

lemma well_formed_json_object: "well_formed_text (json_object es)"
  unfolding json_object_def
  by (intro well_formed_append well_formed_join well_formed_js)
    (auto intro!: well_formed_append well_formed_quote well_formed_js)

section \<open>Known versions\<close>

definition selectable :: "jstring \<Rightarrow> jstring \<Rightarrow> bool" where
  "selectable key version \<longleftrightarrow>
     safe_resource_key key \<and> length version \<le> MAX_VERSION_LENGTH \<and> \<not> has_control version"

lemma fst_set_obj_assign: "fst ` set (obj_assign k v ob) \<subseteq> insert k (fst ` set ob)"
  by (auto simp: obj_assign_def fst_set_jm_set fst_set_obj_insert)

lemma set_jm_set: "set (jm_set k v m) \<subseteq> insert (k, v) (set m)"
  by (induction k v m rule: jm_set.induct) auto

lemma set_obj_insert: "set (obj_insert k v m) = insert (k, v) (set m)"
  by (induction k v m rule: obj_insert.induct) (auto split: option.splits)

lemma set_obj_assign: "set (obj_assign k v ob) \<subseteq> insert (k, v) (set ob)"
  using set_jm_set [of k v ob] by (auto simp: obj_assign_def set_obj_insert)

lemma select_known_ok:
  "length safe \<le> MAX_KNOWN_RESOURCES \<Longrightarrow> \<forall>(k, v)\<in>set safe. selectable k v \<and> (k, JStr v) \<in> A \<Longrightarrow> set es \<subseteq> A \<Longrightarrow>
   length (select_known es safe) \<le> MAX_KNOWN_RESOURCES \<and>
   (\<forall>(k, v)\<in>set (select_known es safe). selectable k v \<and> (k, JStr v) \<in> A)"
proof (induction es safe rule: select_known.induct)
  case (2 key version es safe)
  let ?c = "safe_resource_key key \<and> is_string version \<and> length (str_val version) \<le> MAX_VERSION_LENGTH \<and>
    \<not> has_control (str_val version)"
  let ?s = "if ?c then obj_assign key (str_val version) safe else safe"
  show ?case
  proof (cases "length safe \<ge> MAX_KNOWN_RESOURCES")
    case True
    with 2 show ?thesis by simp
  next
    case False
    have "length ?s \<le> MAX_KNOWN_RESOURCES"
      using False length_obj_assign_le [of key "str_val version" safe] by auto
    moreover
    have "selectable k v \<and> (k, JStr v) \<in> A" if "(k, v) \<in> set ?s" for k v
    proof (cases "(k, v) \<in> set safe")
      case False
      then have "?c" "k = key" "v = str_val version"
        using that set_obj_assign [of key "str_val version" safe] by (auto split: if_splits)
      then show ?thesis using "2.prems"(3) by (cases version) (auto simp: selectable_def)
    qed (use "2.prems"(2) in auto)
    then have "\<forall>(k, v)\<in>set ?s. selectable k v \<and> (k, JStr v) \<in> A" by blast
    ultimately have "length (select_known es ?s) \<le> MAX_KNOWN_RESOURCES \<and>
        (\<forall>(k, v)\<in>set (select_known es ?s). selectable k v \<and> (k, JStr v) \<in> A)"
      using "2.prems"(3) by (intro "2.IH" [OF False]) auto
    with False show ?thesis unfolding select_known.simps if_not_P [OF False] by blast
  qed
qed auto

lemma selectKnownVersions_ok:
  "length (selectKnownVersions kv) \<le> 100"
  "\<forall>(k, v)\<in>set (selectKnownVersions kv). selectable k v \<and> (\<exists>es. kv = Some es \<and> (k, JStr v) \<in> set es)"
proof -
  have "length (selectKnownVersions kv) \<le> 100 \<and>
    (\<forall>(k, v)\<in>set (selectKnownVersions kv). selectable k v \<and> (\<exists>es. kv = Some es \<and> (k, JStr v) \<in> set es))"
  proof (cases kv)
    case (Some es)
    then show ?thesis
      using select_known_ok [of "[]" "set es" es] by (simp add: selectKnownVersions_def MAX_KNOWN_RESOURCES_def)
  qed (simp add: selectKnownVersions_def)
  then show "length (selectKnownVersions kv) \<le> 100"
    "\<forall>(k, v)\<in>set (selectKnownVersions kv). selectable k v \<and> (\<exists>es. kv = Some es \<and> (k, JStr v) \<in> set es)"
    by blast+
qed

lemma json_object_not_bom: "take 1 (json_object es) \<noteq> [0xFEFF]"
proof -
  have "take 1 (json_object es) = js ''{''" by (simp add: json_object_def js_def)
  moreover have "js ''{'' \<noteq> [0xFEFF]" by code_simp
  ultimately show ?thesis by simp
qed

text \<open>
  C12: the header with the client's known versions is safe and lossless. It has at most 21846
  characters, all from the base64url alphabet; it names at most 100 resources, each of them an
  entry of the client's versions with a safe key and version; and its characters, in the standard
  base64 alphabet and padded, are the UTF-8 bytes of the JSON text of exactly those entries. When the
  header has at most 7168 characters, the limit of the client's own decoder \<open>decodeBase64Url\<close> (which is
  meant for traces), that decoder gives the text back as well; longer headers it refuses.
\<close>

theorem known_versions_header:
  assumes "encodeKnownVersions kv = Some h"
  shows "list_all b64url_char h \<and> length h \<le> 21846 \<and>
    length (selectKnownVersions kv) \<le> 100 \<and>
    (\<forall>(k, v)\<in>set (selectKnownVersions kv). safe_resource_key k \<and> length v \<le> 128 \<and> \<not> has_control v \<and>
       (\<exists>es. kv = Some es \<and> (k, JStr v) \<in> set es)) \<and>
    (\<exists>bytes. atob (map from_url h @ replicate (padding (length h)) 0x3D) = Some bytes \<and>
       utf8_decode bytes = Some (json_object (selectKnownVersions kv))) \<and>
    decodeBase64Url h = (if length h \<le> 7168 then Some (json_object (selectKnownVersions kv)) else None)"
proof -
  let ?t = "json_object (selectKnownVersions kv)"
  have h: "h = encodeBase64Url (utf8_encode ?t)" and len: "length (utf8_encode ?t) \<le> 16384"
    using assms by (auto simp: encodeKnownVersions_def encodeKnownVersionSelection_def Let_def
        MAX_KNOWN_BYTES_def split: if_splits)
  have "length h \<le> 21846" using encodeBase64Url_length [of "utf8_encode ?t"] len by (simp add: h)
  moreover have "?t \<noteq> []" by (simp add: json_object_def)
  note decode = decode_encode [OF well_formed_json_object json_object_not_bom this]
  have "decodeBase64Url h = (if length h \<le> 7168 then Some ?t else None)"
    using decode by (auto simp: h MAX_DEVTOOLS_TRACE_HEADER_CHARS_def decodeBase64Url_def)
  moreover have "\<exists>bytes. atob (map from_url h @ replicate (padding (length h)) 0x3D) = Some bytes \<and>
      utf8_decode bytes = Some ?t"
    using atob_encode utf8_roundtrip [OF well_formed_json_object json_object_not_bom] unfolding h by blast
  ultimately show ?thesis
    using selectKnownVersions_ok [where kv = kv] encodeBase64Url_chars
    by (auto simp: h selectable_def MAX_VERSION_LENGTH_def)
qed

theorem known_versions_header_witness:
  "decodeBase64Url (encodeBase64Url (utf8_encode (js ''{\"a\":\"v1\"}''))) = Some (js ''{\"a\":\"v1\"}'')"
proof -
  let ?kv = "Some [(js ''a'', JStr (js ''v1''))]"
  have s: "selectKnownVersions ?kv = [(js ''a'', js ''v1'')]" by code_simp
  have t: "json_object [(js ''a'', js ''v1'')] = js ''{\"a\":\"v1\"}''" by code_simp
  have l: "length (utf8_encode (js ''{\"a\":\"v1\"}'')) = 10" by code_simp
  have h: "length (encodeBase64Url (utf8_encode (js ''{\"a\":\"v1\"}''))) = 14" by code_simp
  have "encodeKnownVersions ?kv = Some (encodeBase64Url (utf8_encode (js ''{\"a\":\"v1\"}'')))"
    by (simp add: encodeKnownVersions_def encodeKnownVersionSelection_def s t l MAX_KNOWN_BYTES_def)
  from known_versions_header [OF this] show ?thesis
    by (simp add: s t h MAX_DEVTOOLS_TRACE_HEADER_CHARS_def)
qed

section \<open>Responses\<close>

definition json_content :: "response \<Rightarrow> bool" where
  "json_content r \<longleftrightarrow>
     (case rs_get r (js ''content-type'') of
        None \<Rightarrow> True | Some t \<Rightarrow> t = [] \<or> includes_text (js ''json'') t)"

text \<open>What a page envelope has to be.\<close>

definition page_wf :: "jsval \<Rightarrow> bool" where
  "page_wf d \<longleftrightarrow>
     isObject d \<and> field d ''protocol'' = JStr PROTOCOL_VERSION \<and>
     isObject (field d ''page'') \<and> is_string (field (field d ''page'') ''component'') \<and>
     is_string (field (field d ''page'') ''url'') \<and>
     isObject (field d ''resources'') \<and>
     (\<forall>(k, rec)\<in>set (obj_fields (field d ''resources'')).
        isObject rec \<and> is_string (field rec ''version'') \<and> has_field rec ''value'') \<and>
     (\<forall>name\<in>{''resourceKeys'', ''deferred'', ''live''}. strings_or_absent (field d name)) \<and>
     (field d ''resourceErrors'' = JUndef \<or>
        isObject (field d ''resourceErrors'') \<and>
        (\<forall>(k, err)\<in>set (obj_fields (field d ''resourceErrors'')).
           isObject err \<and> is_string (field err ''type'') \<and> is_string (field err ''message''))) \<and>
     (field d ''appVersion'' = JUndef \<or> is_string (field d ''appVersion''))"

lemma throw_with_class: "throw_with v e = Inl e' \<Longrightarrow> e' = e \<or> e' = TypeError"
  by (auto simp: throw_with_def split: option.splits)

lemma throw_with_not_Inr [simp]: "throw_with v e \<noteq> Inr u"
  by (auto simp: throw_with_def split: option.splits)

lemma for_each_Inl: "for_each f xs = Inl e \<Longrightarrow> \<exists>x\<in>set xs. f x = Inl e"
  by (induction xs) (auto simp: andThen_Inl_iff)

lemma assertPageEnvelope_iff: "assertPageEnvelope d = Inr () \<longleftrightarrow> page_wf d"
  unfolding assertPageEnvelope_def page_wf_def by (auto simp: case_prod_unfold)

text \<open>Which error a malformed envelope gives: converting the protocol to a text may throw.\<close>

definition page_error :: "jsval \<Rightarrow> error_class" where
  "page_error d =
     (if isObject d \<and> field d ''protocol'' = JStr PROTOCOL_VERSION then ProtocolError
      else if isObject d \<and> to_string (field d ''protocol'') = None then TypeError
      else VersionMismatchError)"

lemma to_string_JUndef [simp]: "to_string JUndef \<noteq> None"
  by (simp add: to_string.simps)

lemma assertPageEnvelope_class: "assertPageEnvelope d = Inl e \<Longrightarrow> e = page_error d"
  unfolding assertPageEnvelope_def page_error_def
  by (auto simp: andThen_Inl_iff case_prod_unfold throw_with_def dest!: for_each_Inl split: if_splits option.splits)

lemma readResponse_iff:
  "readResponse r = Inr d \<longleftrightarrow> json_content r \<and> rs_body r = Some d"
  "readResponse r = Inl f \<longleftrightarrow>
     (if json_content r then rs_body r = None \<and> f = plain (TransportError (Some (rs_status r)))
      else f = plain ProtocolError)"
  by (auto simp: readResponse_def json_content_def Let_def split: option.splits if_splits)

lemma throwForError_iff: "throwForError r d = Inr u \<longleftrightarrow> rs_ok r"
  by (auto simp: throwForError_def Let_def)

text \<open>
  The answer of a failed request. A 422 answer whose \<open>error.details\<close> is an object, or whose \<open>detail\<close> is a
  list, is a validation error with these details; collecting a list can throw.
\<close>

definition failed_request :: "nat \<Rightarrow> jsval \<Rightarrow> failure \<Rightarrow> bool" where
  "failed_request status d f \<longleftrightarrow>
     (if status = 422 \<and> isObject d \<and> isObject (field d ''error'') \<and> isObject (field (field d ''error'') ''details'') then
        fl_class f = ValidationError \<and> fl_details f = field (field d ''error'') ''details''
      else if status = 422 \<and> isObject d \<and> is_array (field d ''detail'') then
        (case issue_loop (arr_items (field d ''detail'')) [] of
           None \<Rightarrow> fl_class f = TypeError
         | Some errors \<Rightarrow> fl_class f = ValidationError \<and> fl_details f = issues_value errors)
      else fl_class f = TransportError (Some status) \<and> fl_details f = d)"

lemma throwForError_failed: "throwForError r d = Inl f \<Longrightarrow> \<not> rs_ok r \<and> failed_request (rs_status r) d f"
  by (auto simp: throwForError_def validationDetails_def failed_request_def Let_def split: if_splits option.splits)

lemma lift_error_iff [simp]:
  "lift_error r = Inr a \<longleftrightarrow> r = Inr a" "lift_error r = Inl f \<longleftrightarrow> (\<exists>e. r = Inl e \<and> f = plain e)"
  by (cases r; auto simp: lift_error_def)+


section \<open>Mutation envelopes\<close>

definition has_op :: "jsval \<Rightarrow> string list \<Rightarrow> bool" where
  "has_op q names \<longleftrightarrow> (\<exists>n\<in>set names. field q ''op'' = JStr (js n))"

text \<open>What a patch in a mutation has to be.\<close>

definition mutation_patch_wf :: "jsval \<Rightarrow> bool" where
  "mutation_patch_wf q \<longleftrightarrow>
     isObject q \<and>
     has_op q [''replace-resource'', ''merge-object'', ''replace-item'', ''remove-item'', ''append-item''] \<and>
     (has_op q [''replace-resource'', ''merge-object'', ''replace-item'', ''append-item''] \<longrightarrow> has_field q ''value'') \<and>
     (has_op q [''merge-object''] \<longrightarrow> isObject (field q ''value'')) \<and>
     (has_op q [''replace-item'', ''remove-item''] \<longrightarrow>
        is_string (field q ''id'') \<or> is_number (field q ''id'') \<or>
        isObject (field q ''match'') \<and> obj_fields (field q ''match'') \<noteq> []) \<and>
     (has_field q ''id'' \<longrightarrow> is_string (field q ''id'') \<or> is_number (field q ''id'')) \<and>
     (has_field q ''match'' \<longrightarrow> isObject (field q ''match''))"

lemma op_names_distinct:
  "distinct (map js [''replace-resource'', ''merge-object'', ''replace-item'', ''remove-item'', ''append-item''])"
  by code_simp

lemma assertMutationPatch_iff: "assertMutationPatch q = Inr () \<longleftrightarrow> mutation_patch_wf q"
  using op_names_distinct
  by (cases "field q ''op''")
    (auto simp: assertMutationPatch_def mutation_patch_wf_def has_op_def Let_def LIVE_PATCH_OPERATIONS_def)

text \<open>What a mutation envelope has to be.\<close>

definition mutation_wf :: "(jstring \<Rightarrow> jstring option) \<Rightarrow> jsval \<Rightarrow> bool" where
  "mutation_wf url_protocol d \<longleftrightarrow>
     isObject d \<and> field d ''protocol'' = JStr PROTOCOL_VERSION \<and> isObject (field d ''mutation'') \<and>
     (let m = field d ''mutation'' in
      (field m ''invalidate'' = JUndef \<or>
         is_array (field m ''invalidate'') \<and> (\<forall>k\<in>set (arr_items (field m ''invalidate'')). is_string k)) \<and>
      (field m ''patches'' = JUndef \<or>
         isObject (field m ''patches'') \<and>
         (\<forall>(k, qs)\<in>set (obj_fields (field m ''patches'')).
            is_array qs \<and> (\<forall>q\<in>set (arr_items qs). mutation_patch_wf q))) \<and>
      (field m ''redirect'' = JUndef \<or>
         (\<exists>s. field m ''redirect'' = JStr s \<and> take 1 s = js ''/'' \<and> take 2 s \<noteq> js ''//'' \<and> 0x5C \<notin> set s \<and>
            \<not> has_control s)) \<and>
      (field m ''externalRedirect'' = JUndef \<or>
         (\<exists>s. field m ''externalRedirect'' = JStr s \<and>
            (url_protocol s = Some (js ''http:'') \<or> url_protocol s = Some (js ''https:'')))))"

lemma external_ok_iff:
  "external_ok up v \<longleftrightarrow> (\<exists>s. v = JStr s \<and> (up s = Some (js ''http:'') \<or> up s = Some (js ''https:'')))"
  by (cases v) (auto simp: external_ok_def to_string.simps split: option.splits)

lemma isOriginRelativeRedirect_iff:
  "isOriginRelativeRedirect v \<longleftrightarrow>
     (\<exists>s. v = JStr s \<and> take 1 s = js ''/'' \<and> take 2 s \<noteq> js ''//'' \<and> 0x5C \<notin> set s \<and> \<not> has_control s)"
  by (cases v) (auto simp: isOriginRelativeRedirect_def)

lemma strings_or_absent_iff:
  "strings_or_absent v \<longleftrightarrow> v = JUndef \<or> is_array v \<and> (\<forall>k\<in>set (arr_items v). is_string k)"
  by (auto simp: strings_or_absent_def list_ex_iff)

lemma assertMutationEnvelope_iff: "assertMutationEnvelope up d = Inr () \<longleftrightarrow> mutation_wf up d"
  unfolding assertMutationEnvelope_def mutation_wf_def Let_def
  by (auto simp: case_prod_unfold strings_or_absent_iff isOriginRelativeRedirect_iff external_ok_iff
      assertMutationPatch_iff)

definition payload_safe :: "(jstring \<Rightarrow> jstring option) \<Rightarrow> mutation_payload \<Rightarrow> bool" where
  "payload_safe url_protocol p \<longleftrightarrow>
     (case mp_redirect p of None \<Rightarrow> True | Some s \<Rightarrow>
        take 1 s = js ''/'' \<and> take 2 s \<noteq> js ''//'' \<and> 0x5C \<notin> set s \<and> \<not> has_control s) \<and>
     (case mp_externalRedirect p of None \<Rightarrow> True | Some s \<Rightarrow>
        url_protocol s = Some (js ''http:'') \<or> url_protocol s = Some (js ''https:''))"

lemma mutation_wf_safe: "mutation_wf up d \<Longrightarrow> payload_safe up (mutation_payload_of (field d ''mutation''))"
  by (auto simp: mutation_wf_def payload_safe_def mutation_payload_of_def string_of_def Let_def)

text \<open>
  C10: an accepted mutation is complete and can only navigate where it is allowed to. Whatever the
  server sends, in the body or in the external redirect header, the response was successful and the
  envelope has this protocol; a redirect stays within the origin (its path starts with exactly one
  slash and has no backslash or control character) or is an absolute HTTP or HTTPS URL; the
  invalidated keys are texts; and every patch is an object with one of the five operations, has a
  value where its operation needs one (an object to merge), names its item by an id or a non-empty
  match where its operation needs one, and has an id or match of the right type.
\<close>

theorem mutation_response_safe:
  assumes "handleMutationResponse up r = Inr d"
  shows "rs_ok r \<and> mutation_wf up d \<and> payload_safe up (mutation_payload_of (field d ''mutation''))"
proof -
  have "rs_ok r \<and> mutation_wf up d"
    using assms
    by (auto simp: handleMutationResponse_def Let_def throwForError_iff assertMutationEnvelope_iff
        split: option.splits if_splits)
  then show ?thesis using mutation_wf_safe by blast
qed

theorem mutation_response_safe_witness:
  "payload_safe (\<lambda>_. Some (js ''https:''))
     \<lparr>mp_patches = None, mp_invalidate = None, mp_redirect = None, mp_externalRedirect = Some (js ''https://e'')\<rparr>"
proof -
  let ?d = "JObj 1 [(js ''protocol'', JStr (js ''fluxfast/1'')), (js ''mutation'', JObj 2 [])]"
  let ?d' = "JObj 1 [(js ''protocol'', JStr (js ''fluxfast/1'')),
     (js ''mutation'', JObj 2 [(js ''externalRedirect'', JStr (js ''https://e''))])]"
  let ?r = "\<lparr>rs_ok = True, rs_status = 200, rs_body = Some ?d,
     rs_get = (\<lambda>h. if h = js ''X-FluxFast-External-Redirect'' then Some (js ''https://e'') else None)\<rparr>"
  have "handleMutationResponse (\<lambda>_. Some (js ''https:'')) ?r = Inr ?d'" by code_simp
  from mutation_response_safe [OF this] show ?thesis
    by (simp add: mutation_payload_of_def field_def strings_of_def string_of_def)
qed

end
