(* ===== verification/Trace_Theorems.thy ===== *)
theory Trace_Theorems
  imports Transport_Theorems
begin

text \<open>
  Properties of the development traces and of the requests the transport sends.
\<close>

section \<open>Sanitised traces\<close>

text \<open>Every string and every property name inside the value is short and free of control characters.\<close>

definition short_text :: "jstring \<Rightarrow> bool" where
  "short_text s \<longleftrightarrow> length s \<le> 128 \<and> \<not> has_control s"

fun bounded_value :: "jsval \<Rightarrow> bool" where
  "bounded_value (JStr s) = short_text s"
| "bounded_value (JArr _ xs) = (length xs \<le> 256 \<and> list_all bounded_value xs)"
| "bounded_value (JObj _ fs) = (length fs \<le> 14 \<and> list_all (\<lambda>(k, v). short_text k \<and> bounded_value v) fs)"
| "bounded_value _ = True"

lemma field_Cons [simp]:
  "field (JObj r ((js n, v) # fs)) name = (if name = n then v else field (JObj r fs) name)"
  by (auto simp: field_def)

lemma field_Nil [simp]: "field (JObj r []) name = JUndef"
  by (simp add: field_def)

lemma keep_defined_field [simp]:
  "field (JObj r (keep_defined v n @ fs)) name =
     (if name = n \<and> field v n \<noteq> JUndef then field v n else field (JObj r fs) name)"
  by (auto simp: keep_defined_def field_def)

lemma keep_defined_field_last [simp]:
  "field (JObj r (keep_defined v n)) name = (if name = n then field v n else JUndef)"
  using keep_defined_field [of r v n "[]" name] by (simp del: keep_defined_field)

lemma hasOnlyKeys_Nil [simp]: "hasOnlyKeys (JObj r []) allowed"
  by (simp add: hasOnlyKeys_def)

lemma hasOnlyKeys_Cons [simp]:
  "hasOnlyKeys (JObj r ((js n, v) # fs)) allowed \<longleftrightarrow> n \<in> set allowed \<and> hasOnlyKeys (JObj r fs) allowed"
  by (auto simp: hasOnlyKeys_def)

lemma hasOnlyKeys_keep [simp]:
  "hasOnlyKeys (JObj r (keep_defined v n @ fs)) allowed \<longleftrightarrow>
     (field v n \<noteq> JUndef \<longrightarrow> n \<in> set allowed) \<and> hasOnlyKeys (JObj r fs) allowed"
  by (auto simp: keep_defined_def)

lemma hasOnlyKeys_keep_last [simp]:
  "hasOnlyKeys (JObj r (keep_defined v n)) allowed \<longleftrightarrow> (field v n \<noteq> JUndef \<longrightarrow> n \<in> set allowed)"
  using hasOnlyKeys_keep [of r v n "[]" allowed] by (simp del: hasOnlyKeys_keep)

lemma keep_defined_again: "keep_defined w n = keep_defined v n" if "field w n = field v n"
  using that by (simp add: keep_defined_def)

lemma field_copy [simp]:
  "field (JObj r (copy_fields v ns @ fs)) n = (if n \<in> set ns then field v n else field (JObj r fs) n)"
  by (induction ns) (auto simp: copy_fields_def)

lemma hasOnlyKeys_copy [simp]:
  "hasOnlyKeys (JObj r (copy_fields v ns @ fs)) allowed \<longleftrightarrow> set ns \<subseteq> set allowed \<and> hasOnlyKeys (JObj r fs) allowed"
  by (induction ns) (auto simp: copy_fields_def)

lemma field_copy_last [simp]:
  "field (JObj r (copy_fields v ns)) n = (if n \<in> set ns then field v n else JUndef)"
  using field_copy [of r v ns "[]" n] by (simp del: field_copy)

lemma hasOnlyKeys_copy_last [simp]:
  "hasOnlyKeys (JObj r (copy_fields v ns)) allowed \<longleftrightarrow> set ns \<subseteq> set allowed"
  using hasOnlyKeys_copy [of r v ns "[]" allowed] by (simp del: hasOnlyKeys_copy)

lemma copy_fields_cong: "(\<And>n. n \<in> set ns \<Longrightarrow> field w n = field v n) \<Longrightarrow> copy_fields w ns = copy_fields v ns"
  by (simp add: copy_fields_def)

lemma if_refuse: "c = (\<not> d) \<Longrightarrow> (if c then None else y) = (if d then y else None)"
  by simp

definition resource_names :: "string list" where
  "resource_names = [''key'', ''result'', ''durationMs'', ''scope'', ''ttl'', ''deferred'', ''live'',
     ''cacheBackend'', ''cacheResult'', ''sent'', ''knownVersion'']"

definition resource_optional :: "string list" where
  "resource_optional = [''cacheMs'', ''loaderMs'', ''errorType'']"

definition resource_fields_ok :: "(string \<Rightarrow> jsval) \<Rightarrow> bool" where
  "resource_fields_ok g \<longleftrightarrow>
     isSafeResourceKey (g ''key'') \<and>
     one_of (g ''result'') [''cache-hit'', ''cache-miss'', ''loader'', ''deferred'', ''omitted-known'', ''error''] \<and>
     safe_duration (g ''durationMs'') \<and>
     one_of (g ''scope'') [''public'', ''user'', ''tenant'', ''request'', ''custom''] \<and>
     isSafeDiagnosticNumber (g ''ttl'') 1000000000000 \<and> is_boolean (g ''deferred'') \<and> is_boolean (g ''live'') \<and>
     one_of (g ''cacheBackend'') [''memory'', ''redis'', ''custom''] \<and>
     one_of (g ''cacheResult'') [''hit'', ''miss'', ''bypass''] \<and>
     is_boolean (g ''sent'') \<and> is_boolean (g ''knownVersion'') \<and>
     (g ''cacheMs'' = JUndef \<or> safe_duration (g ''cacheMs'')) \<and>
     (g ''loaderMs'' = JUndef \<or> safe_duration (g ''loaderMs'')) \<and>
     (g ''errorType'' = JUndef \<or>
      one_of (g ''errorType'') [''ResourceError'', ''ResourceContractError'', ''ResourceCacheError''])"

lemma sanitizeResourceTrace_eq:
  "sanitizeResourceTrace v =
     (if isObject v \<and> hasOnlyKeys v (resource_names @ resource_optional) \<and> resource_fields_ok (field v)
      then Some (JObj 0 (copy_fields v resource_names @ keep_defined v ''cacheMs'' @
             keep_defined v ''loaderMs'' @ keep_defined v ''errorType'' @ []))
      else None)"
  unfolding sanitizeResourceTrace_def resource_fields_ok_def resource_names_def resource_optional_def
    append.simps append_Nil2
  by (rule if_refuse) (simp only: de_Morgan_conj de_Morgan_disj not_not disj_assoc)

lemma sanitizeResourceTrace_idem:
  assumes "sanitizeResourceTrace v = Some t"
  shows "sanitizeResourceTrace t = Some t"
proof -
  have ok: "resource_fields_ok (field v)" and t: "t = JObj 0 (copy_fields v resource_names @
      keep_defined v ''cacheMs'' @ keep_defined v ''loaderMs'' @ keep_defined v ''errorType'' @ [])"
    using assms by (simp_all add: sanitizeResourceTrace_eq split: if_splits)
  have f: "field t n = field v n" if "n \<in> set (resource_names @ resource_optional)" for n
  proof (cases "n \<in> set resource_names")
    case False
    with that have "n = ''cacheMs'' \<or> n = ''loaderMs'' \<or> n = ''errorType''"
      by (simp add: resource_optional_def)
    with False show ?thesis by (elim disjE) (simp_all add: t)
  qed (simp add: t)
  have "field t n = field v n" if "n \<in> set [''key'', ''result'', ''durationMs'', ''scope'', ''ttl'', ''deferred'',
      ''live'', ''cacheBackend'', ''cacheResult'', ''sent'', ''knownVersion'', ''cacheMs'', ''loaderMs'',
      ''errorType'']" for n
    using f [of n] that by (simp only: resource_names_def resource_optional_def append.simps)
  then have "resource_fields_ok (field t)"
    using ok unfolding resource_fields_ok_def by (simp only: list.set insert_iff simp_thms)
  moreover have "hasOnlyKeys t (resource_names @ resource_optional)"
    by (auto simp: t resource_optional_def)
  moreover have "copy_fields t resource_names = copy_fields v resource_names"
    by (rule copy_fields_cong) (simp add: f)
  moreover have "keep_defined t n = keep_defined v n" if "n \<in> set resource_optional" for n
    by (rule keep_defined_again, rule f) (use that in simp)
  moreover have "isObject t" by (simp add: t)
  ultimately have "sanitizeResourceTrace t = Some (JObj 0 (copy_fields v resource_names @
      keep_defined v ''cacheMs'' @ keep_defined v ''loaderMs'' @ keep_defined v ''errorType'' @ []))"
    by (simp only: sanitizeResourceTrace_eq simp_thms if_True resource_optional_def list.set insert_iff)
  then show ?thesis by (simp only: t)
qed

definition count_ok :: "jsval \<Rightarrow> bool" where
  "count_ok n \<longleftrightarrow> isSafeInteger n \<and> 0 < num_val (num_of n) \<and> num_val (num_of n) \<le> 1000000"

definition plain_key :: "jstring \<Rightarrow> bool" where
  "plain_key k \<longleftrightarrow> array_index k = None \<and> k \<noteq> js ''__proto__''"

lemma obj_insert_plain: "array_index k = None \<Longrightarrow> obj_insert k v ob = ob @ [(k, v)]"
  by (induction ob) auto

lemma obj_assign_fresh: "plain_key k \<Longrightarrow> k \<notin> fst ` set ob \<Longrightarrow> obj_assign k v ob = ob @ [(k, v)]"
  by (simp add: obj_assign_def plain_key_def obj_insert_plain)

lemma patch_counts_Cons: "patch_counts ((k, n) # es) ops = (if count_ok n then patch_counts es (obj_assign k n ops) else None)"
  by (auto simp: count_ok_def)

lemma patch_counts_keeps:
  assumes "patch_counts es ops = Some r" and "jm_wf ops" and "\<forall>(k, n)\<in>set ops. count_ok n \<and> k \<in> K"
    and "fst ` set es \<subseteq> K"
  shows "jm_wf r \<and> (\<forall>(k, n)\<in>set r. count_ok n \<and> k \<in> K)"
  using assms
proof (induction es arbitrary: ops)
  case (Cons e es)
  obtain k n where e: "e = (k, n)" by (cases e)
  have n: "count_ok n" and r: "patch_counts es (obj_assign k n ops) = Some r"
    using Cons.prems(1) by (auto simp: e patch_counts_Cons simp del: patch_counts.simps split: if_splits)
  have "\<forall>(k, n)\<in>set (obj_assign k n ops). count_ok n \<and> k \<in> K"
    using set_obj_assign [of k n ops] n Cons.prems(3,4) e by auto
  with Cons.IH [OF r] Cons.prems(2,4) show ?case by simp
qed simp

lemma patch_counts_again:
  assumes "jm_wf (ops @ es)" and "\<forall>(k, n)\<in>set es. count_ok n \<and> plain_key k"
  shows "patch_counts es ops = Some (ops @ es)"
  using assms
proof (induction es arbitrary: ops)
  case (Cons e es)
  obtain k n where e: "e = (k, n)" by (cases e)
  have "k \<notin> fst ` set ops" using Cons.prems(1) by (auto simp: e jm_wf_def)
  then have a: "obj_assign k n ops = ops @ [(k, n)]"
    using Cons.prems(2) by (intro obj_assign_fresh) (auto simp: e)
  have "patch_counts es (ops @ [(k, n)]) = Some ((ops @ [(k, n)]) @ es)"
    by (rule Cons.IH) (use Cons.prems in \<open>auto simp: e jm_wf_def\<close>)
  then show ?case using Cons.prems(2) by (simp add: e patch_counts_Cons a del: patch_counts.simps)
qed simp

definition patch_names :: "string list" where
  "patch_names = [''replace-resource'', ''merge-object'', ''replace-item'', ''remove-item'', ''append-item'']"

lemma patch_names_plain: "n \<in> set patch_names \<Longrightarrow> plain_key (js n)"
proof -
  have "\<forall>n\<in>set patch_names. plain_key (js n)" by code_simp
  then show "n \<in> set patch_names \<Longrightarrow> plain_key (js n)" by blast
qed

lemma sanitizePatchTrace_eq:
  "sanitizePatchTrace v =
     (if isObject v \<and> hasOnlyKeys v [''key'', ''operations''] \<and> isSafeResourceKey (field v ''key'') \<and>
         isObject (field v ''operations'') \<and> hasOnlyKeys (field v ''operations'') patch_names
      then map_option (\<lambda>operations. JObj 0 [(js ''key'', field v ''key''), (js ''operations'', JObj 0 operations)])
             (patch_counts (obj_fields (field v ''operations'')) [])
      else None)"
  unfolding sanitizePatchTrace_def patch_names_def
  by (auto split: option.splits)

lemma sanitizePatchTrace_ok:
  assumes "sanitizePatchTrace v = Some t"
  shows "sanitizePatchTrace t = Some t"
    and "\<exists>ops. t = JObj 0 [(js ''key'', field v ''key''), (js ''operations'', JObj 0 ops)] \<and> isSafeResourceKey (field v ''key'') \<and>
      jm_wf ops \<and> (\<forall>(k, n)\<in>set ops. count_ok n \<and> k \<in> js ` set patch_names)"
proof -
  obtain ops where key: "isSafeResourceKey (field v ''key'')"
    and only: "hasOnlyKeys (field v ''operations'') patch_names"
    and c: "patch_counts (obj_fields (field v ''operations'')) [] = Some ops"
    and t: "t = JObj 0 [(js ''key'', field v ''key''), (js ''operations'', JObj 0 ops)]"
    using assms by (auto simp: sanitizePatchTrace_eq split: if_splits)
  have ops: "jm_wf ops \<and> (\<forall>(k, n)\<in>set ops. count_ok n \<and> k \<in> js ` set patch_names)"
    by (rule patch_counts_keeps [OF c]) (use only in \<open>auto simp: hasOnlyKeys_def list_all_iff\<close>)
  then have "patch_counts ops [] = Some ([] @ ops)"
    using patch_names_plain by (intro patch_counts_again) auto
  moreover have "hasOnlyKeys (JObj 0 ops) patch_names"
    using ops by (auto simp: hasOnlyKeys_def list_all_iff)
  ultimately show "sanitizePatchTrace t = Some t"
    using key by (simp add: sanitizePatchTrace_eq t)
  show "\<exists>ops. t = JObj 0 [(js ''key'', field v ''key''), (js ''operations'', JObj 0 ops)] \<and> isSafeResourceKey (field v ''key'') \<and>
      jm_wf ops \<and> (\<forall>(k, n)\<in>set ops. count_ok n \<and> k \<in> js ` set patch_names)"
    using t key ops by blast
qed

lemma collect_options_idem:
  "collect_options (map f xs) = Some ys \<Longrightarrow> (\<And>x y. f x = Some y \<Longrightarrow> f y = Some y) \<Longrightarrow>
   collect_options (map f ys) = Some ys \<and> length ys = length xs \<and> (\<forall>y\<in>set ys. \<exists>x. f x = Some y)"
proof (induction xs arbitrary: ys)
  case (Cons x xs)
  then show ?case by (cases "f x") auto
qed simp

section \<open>What is left in a sanitised trace\<close>

lemma bounded_number: "isSafeDiagnosticNumber v m \<Longrightarrow> bounded_value v"
  by (cases v) (auto simp: isSafeDiagnosticNumber_def)

lemma bounded_boolean: "is_boolean v \<Longrightarrow> bounded_value v"
  by (cases v) auto

lemma bounded_integer: "isSafeInteger v \<Longrightarrow> bounded_value v"
  by (cases v) (auto simp: isSafeInteger_def)

lemma bounded_key: "isSafeResourceKey v \<Longrightarrow> bounded_value v"
  by (cases v) (auto simp: isSafeResourceKey_def safe_resource_key_def short_text_def MAX_KEY_LENGTH_def)

lemmas bounded_scalars = bounded_number bounded_boolean bounded_integer bounded_key

abbreviation bounded_fields :: "jsval jobj \<Rightarrow> bool" where
  "bounded_fields fs \<equiv> list_all (\<lambda>(k, v). short_text k \<and> bounded_value v) fs"

lemma bounded_copy:
  "bounded_fields (copy_fields v ns) \<longleftrightarrow> (\<forall>n\<in>set ns. short_text (js n) \<and> bounded_value (field v n))"
  by (auto simp: copy_fields_def list_all_iff)

lemma bounded_keep:
  "bounded_fields (keep_defined v n) \<longleftrightarrow> field v n = JUndef \<or> short_text (js n) \<and> bounded_value (field v n)"
  by (auto simp: keep_defined_def)

lemma length_keep: "length (keep_defined v n) \<le> 1"
  by (simp add: keep_defined_def)

text \<open>The names and words a sanitised trace is made of.\<close>

definition trace_words :: "string list" where
  "trace_words = resource_names @ resource_optional @ patch_names @
     [''operations'', ''cache-hit'', ''cache-miss'', ''loader'', ''deferred'', ''omitted-known'', ''error'',
      ''public'', ''user'', ''tenant'', ''request'', ''custom'', ''memory'', ''redis'', ''hit'', ''miss'', ''bypass'',
      ''ResourceError'', ''ResourceContractError'', ''ResourceCacheError'', ''page'', ''mutation'', ''none'',
      ''internal'', ''external'', ''protocol'', ''requestId'', ''type'', ''truncated'', ''pageMs'', ''resourcesMs'',
      ''serializeMs'', ''resources'', ''handlerMs'', ''invalidationMs'', ''patches'', ''invalidated'',
      ''invalidationCount'', ''liveSignals'', ''redirect'', ''fluxfast-devtools/1'']"

lemma short_name: "n \<in> set trace_words \<Longrightarrow> short_text (js n)"
proof -
  have "\<forall>n\<in>set trace_words. short_text (js n)" by code_simp
  then show "n \<in> set trace_words \<Longrightarrow> short_text (js n)" by blast
qed

lemma bounded_word: "one_of v names \<Longrightarrow> set names \<subseteq> set trace_words \<Longrightarrow> bounded_value v"
  by (cases v) (auto simp: one_of_def intro: short_name)

lemma sanitizeResourceTrace_bounded:
  assumes "sanitizeResourceTrace v = Some t"
  shows "bounded_value t"
proof -
  have ok: "resource_fields_ok (field v)" and t: "t = JObj 0 (copy_fields v resource_names @
      keep_defined v ''cacheMs'' @ keep_defined v ''loaderMs'' @ keep_defined v ''errorType'')"
    using assms by (simp_all add: sanitizeResourceTrace_eq split: if_splits)
  have "one_of (field v ''result'') [''cache-hit'', ''cache-miss'', ''loader'', ''deferred'', ''omitted-known'', ''error'']"
    and "one_of (field v ''scope'') [''public'', ''user'', ''tenant'', ''request'', ''custom'']"
    and "one_of (field v ''cacheBackend'') [''memory'', ''redis'', ''custom'']"
    and "one_of (field v ''cacheResult'') [''hit'', ''miss'', ''bypass'']"
    using ok unfolding resource_fields_ok_def by blast+
  then have one: "bounded_value (field v ''result'')" "bounded_value (field v ''scope'')"
    "bounded_value (field v ''cacheBackend'')" "bounded_value (field v ''cacheResult'')"
    by (auto elim!: bounded_word simp: trace_words_def)
  have err: "field v ''errorType'' = JUndef \<or> bounded_value (field v ''errorType'')"
  proof -
    have "field v ''errorType'' = JUndef \<or>
      one_of (field v ''errorType'') [''ResourceError'', ''ResourceContractError'', ''ResourceCacheError'']"
      using ok unfolding resource_fields_ok_def by blast
    then show ?thesis using bounded_word [of "field v ''errorType''"] by (force simp: trace_words_def)
  qed
  have "bounded_value (field v n)" if "n \<in> set resource_names" for n
    using that ok one bounded_scalars unfolding resource_fields_ok_def
    by (auto simp: resource_names_def)
  then have "bounded_fields (copy_fields v resource_names)"
    by (simp add: bounded_copy short_name trace_words_def)
  moreover have "field v n = JUndef \<or> bounded_value (field v n)" if "n \<in> set resource_optional" for n
    using that ok err bounded_number unfolding resource_fields_ok_def
    by (auto simp: resource_optional_def)
  then have "bounded_fields (keep_defined v n)" if "n \<in> set resource_optional" for n
    using that short_name [of n] by (auto simp: bounded_keep trace_words_def)
  moreover have "length (copy_fields v resource_names @ keep_defined v ''cacheMs'' @
      keep_defined v ''loaderMs'' @ keep_defined v ''errorType'') \<le> 14"
    using length_keep [of v "''cacheMs''"] length_keep [of v "''loaderMs''"] length_keep [of v "''errorType''"]
    by (simp add: copy_fields_def resource_names_def)
  ultimately show ?thesis by (simp add: t resource_optional_def)
qed

lemma sanitizePatchTrace_bounded:
  assumes "sanitizePatchTrace v = Some t"
  shows "bounded_value t"
proof -
  obtain ops where t: "t = JObj 0 [(js ''key'', field v ''key''), (js ''operations'', JObj 0 ops)]"
    and key: "isSafeResourceKey (field v ''key'')" and wf: "jm_wf ops"
    and ops: "\<forall>(k, n)\<in>set ops. count_ok n \<and> k \<in> js ` set patch_names"
    using sanitizePatchTrace_ok(2) [OF assms] by blast
  have "length ops = card (fst ` set ops)"
    using wf distinct_card [of "map fst ops"] by (simp add: jm_wf_def)
  also have "\<dots> \<le> card (js ` set patch_names)" using ops by (intro card_mono) auto
  also have "\<dots> \<le> 5" using card_image_le [of "set patch_names" js] card_length [of patch_names]
    by (simp add: patch_names_def)
  finally have "length ops \<le> 14" by simp
  moreover have "bounded_fields ops"
    using ops short_name bounded_integer by (fastforce simp: list_all_iff count_ok_def trace_words_def)
  moreover have "short_text (js ''key'')" "short_text (js ''operations'')"
    by (rule short_name, simp add: trace_words_def resource_names_def)+
  ultimately show ?thesis using bounded_key [OF key] by (simp add: t)
qed

definition common_names :: "string list" where
  "common_names = [''requestId'', ''type'', ''durationMs'', ''truncated'']"

lemma field_common [simp]:
  "field (JObj r (common_trace_fields v @ fs)) n =
     (if n = ''protocol'' then JStr DEVTOOLS_PROTOCOL_VERSION
      else if n \<in> set common_names then field v n else field (JObj r fs) n)"
  by (simp add: common_trace_fields_def common_names_def)

lemma hasOnlyKeys_common [simp]:
  "hasOnlyKeys (JObj r (common_trace_fields v @ fs)) allowed \<longleftrightarrow>
     ''protocol'' \<in> set allowed \<and> set common_names \<subseteq> set allowed \<and> hasOnlyKeys (JObj r fs) allowed"
  by (auto simp: common_trace_fields_def common_names_def)

lemma common_again:
  assumes "t = JObj r (common_trace_fields v @ fs)"
  shows "common_trace_fields t = common_trace_fields v"
proof -
  have "copy_fields t [''requestId'', ''type'', ''durationMs'', ''truncated''] =
      copy_fields v [''requestId'', ''type'', ''durationMs'', ''truncated'']"
    by (rule copy_fields_cong) (auto simp: assms common_names_def)
  then show ?thesis by (simp add: common_trace_fields_def)
qed

definition common_ok :: "jsval \<Rightarrow> bool" where
  "common_ok v \<longleftrightarrow>
     isObject v \<and> field v ''protocol'' = JStr DEVTOOLS_PROTOCOL_VERSION \<and>
     isSafeDiagnosticText (field v ''requestId'') 96 \<and> devtools_request_id (str_val (field v ''requestId'')) \<and>
     one_of (field v ''type'') [''page'', ''mutation''] \<and> safe_duration (field v ''durationMs'') \<and>
     is_boolean (field v ''truncated'')"

lemma sanitizeServerTrace_eq:
  "sanitizeServerTrace v =
     (if common_ok v then
        if field v ''type'' = JStr (js ''page'') then sanitizePageTrace v else sanitizeMutationTrace v
      else None)"
  unfolding sanitizeServerTrace_def common_ok_def
  by (rule if_refuse) (simp only: de_Morgan_conj de_Morgan_disj not_not)

lemma common_ok_again: "common_ok v \<Longrightarrow> common_ok (JObj r (common_trace_fields v @ fs))"
  by (simp add: common_ok_def common_names_def)

lemma common_bounded:
  assumes "common_ok v"
  shows "bounded_fields (common_trace_fields v)"
proof -
  have "bounded_value (field v ''requestId'')"
    using assms by (cases "field v ''requestId''")
      (auto simp: common_ok_def isSafeDiagnosticText_def short_text_def)
  moreover have "bounded_value (field v ''type'')"
    using assms bounded_word [of "field v ''type''" "[''page'', ''mutation'']"]
    by (auto simp: common_ok_def trace_words_def)
  moreover have "bounded_value (field v ''durationMs'')" "bounded_value (field v ''truncated'')"
    using assms bounded_scalars by (auto simp: common_ok_def)
  moreover have "short_text (js n)" if "n \<in> set (''protocol'' # ''fluxfast-devtools/1'' # common_names)" for n
    by (rule short_name) (use that in \<open>auto simp: trace_words_def common_names_def resource_names_def\<close>)
  ultimately show ?thesis
    by (simp add: common_trace_fields_def common_names_def bounded_copy DEVTOOLS_PROTOCOL_VERSION_def)
qed

definition page_names :: "string list" where
  "page_names = [''pageMs'', ''resourcesMs'', ''serializeMs'']"

lemma sanitizePageTrace_ok:
  assumes "sanitizePageTrace v = Some t" and "common_ok v"
  shows "sanitizePageTrace t = Some t" and "bounded_value t"
    and "\<exists>fs. t = JObj 0 (common_trace_fields v @ fs)"
proof -
  obtain rs where ms: "\<forall>n\<in>set page_names. safe_duration (field v n)"
    and len: "length (arr_items (field v ''resources'')) \<le> 256"
    and c: "collect_options (map sanitizeResourceTrace (arr_items (field v ''resources''))) = Some rs"
    and t: "t = JObj 0 (common_trace_fields v @ copy_fields v page_names @ [(js ''resources'', JArr 0 rs)])"
    using assms(1)
    by (auto simp: sanitizePageTrace_def page_names_def MAX_DEVTOOLS_TRACE_RESOURCES_def split: if_splits option.splits)
  have rs: "collect_options (map sanitizeResourceTrace rs) = Some rs"
    "length rs = length (arr_items (field v ''resources''))" "\<forall>y\<in>set rs. \<exists>x. sanitizeResourceTrace x = Some y"
    using collect_options_idem [OF c] sanitizeResourceTrace_idem by blast+
  have f: "field t n = field v n" if "n \<in> set page_names" for n
    using that by (auto simp: t page_names_def common_names_def)
  have r: "field t ''resources'' = JArr 0 rs" by (simp add: t page_names_def common_names_def)
  have "hasOnlyKeys t [''protocol'', ''requestId'', ''type'', ''durationMs'', ''pageMs'',
            ''resourcesMs'', ''serializeMs'', ''resources'', ''truncated'']"
    by (simp add: t page_names_def common_names_def)
  moreover have "copy_fields t page_names = copy_fields v page_names"
    by (rule copy_fields_cong) (rule f)
  moreover have "\<forall>n\<in>set page_names. safe_duration (field t n)" using ms f by simp
  ultimately show "sanitizePageTrace t = Some t"
    using rs len common_again [OF t]
    by (simp add: sanitizePageTrace_def r MAX_DEVTOOLS_TRACE_RESOURCES_def page_names_def)
      (simp add: t page_names_def)
  have "\<forall>y\<in>set rs. bounded_value y" using rs sanitizeResourceTrace_bounded by blast
  moreover have "bounded_fields (copy_fields v page_names)"
    unfolding bounded_copy using ms bounded_number short_name
    by (auto simp: page_names_def trace_words_def)
  moreover have "short_text (js ''resources'')" by (rule short_name) (simp add: trace_words_def)
  ultimately show "bounded_value t"
    using common_bounded [OF assms(2)] rs len
    by (auto simp: t list_all_iff [where P = bounded_value] common_trace_fields_def copy_fields_def page_names_def)
  show "\<exists>fs. t = JObj 0 (common_trace_fields v @ fs)" using t by blast
qed

definition mutation_durations :: "string list" where
  "mutation_durations = [''handlerMs'', ''invalidationMs'', ''serializeMs'']"

definition mutation_counts :: "string list" where
  "mutation_counts = [''invalidationCount'', ''liveSignals'', ''redirect'']"

definition mutation_counts_ok :: "(string \<Rightarrow> jsval) \<Rightarrow> nat \<Rightarrow> bool" where
  "mutation_counts_ok g n \<longleftrightarrow>
     isSafeInteger (g ''invalidationCount'') \<and> of_nat n \<le> num_val (num_of (g ''invalidationCount'')) \<and>
     num_val (num_of (g ''invalidationCount'')) \<le> 1000000 \<and>
     isSafeInteger (g ''liveSignals'') \<and> 0 \<le> num_val (num_of (g ''liveSignals'')) \<and>
     num_val (num_of (g ''liveSignals'')) \<le> 1000000 \<and>
     one_of (g ''redirect'') [''none'', ''internal'', ''external'']"

lemma sanitizeMutationTrace_eq:
  "sanitizeMutationTrace v =
     (if hasOnlyKeys v [''protocol'', ''requestId'', ''type'', ''durationMs'', ''handlerMs'',
            ''invalidationMs'', ''serializeMs'', ''patches'', ''invalidated'', ''invalidationCount'',
            ''liveSignals'', ''redirect'', ''truncated''] \<and>
         (\<forall>n\<in>set mutation_durations. safe_duration (field v n)) \<and>
         is_array (field v ''patches'') \<and> length (arr_items (field v ''patches'')) \<le> 100 \<and>
         is_array (field v ''invalidated'') \<and> length (arr_items (field v ''invalidated'')) \<le> 100 \<and>
         list_all isSafeResourceKey (arr_items (field v ''invalidated'')) \<and>
         mutation_counts_ok (field v) (length (arr_items (field v ''invalidated'')))
      then map_option (\<lambda>patches. JObj 0 (common_trace_fields v @ copy_fields v mutation_durations @
               [(js ''patches'', JArr 0 patches),
                (js ''invalidated'', JArr 0 (arr_items (field v ''invalidated'')))] @
               copy_fields v mutation_counts))
             (collect_options (map sanitizePatchTrace (arr_items (field v ''patches''))))
      else None)"
proof -
  have d: "(\<forall>n\<in>set mutation_durations. safe_duration (field v n)) \<longleftrightarrow>
      safe_duration (field v ''handlerMs'') \<and> safe_duration (field v ''invalidationMs'') \<and>
      safe_duration (field v ''serializeMs'')"
    by (simp add: mutation_durations_def)
  have m: "(case o' of None \<Rightarrow> None | Some x \<Rightarrow> Some (h x)) = map_option h o'" for o' :: "'x option" and h :: "'x \<Rightarrow> jsval"
    by (cases o') simp_all
  have l: "list_ex (\<lambda>k. \<not> P k) xs \<longleftrightarrow> \<not> list_all P xs" for P :: "jsval \<Rightarrow> bool" and xs
    by (auto simp: list_ex_iff list_all_iff)
  show ?thesis
    unfolding sanitizeMutationTrace_def mutation_counts_ok_def d m MAX_DEVTOOLS_TRACE_MUTATION_KEYS_def
    unfolding mutation_durations_def mutation_counts_def l
    by (rule if_refuse) (simp only: de_Morgan_conj de_Morgan_disj not_not not_le not_less disj_assoc)
qed

lemma sanitizeMutationTrace_ok:
  assumes "sanitizeMutationTrace v = Some t" and "common_ok v"
  shows "sanitizeMutationTrace t = Some t" and "bounded_value t"
    and "\<exists>fs. t = JObj 0 (common_trace_fields v @ fs)"
proof -
  let ?ks = "arr_items (field v ''invalidated'')"
  obtain ps where ms: "\<forall>n\<in>set mutation_durations. safe_duration (field v n)"
    and lens: "length (arr_items (field v ''patches'')) \<le> 100" "length ?ks \<le> 100"
    and keys: "list_all isSafeResourceKey ?ks"
    and counts: "mutation_counts_ok (field v) (length ?ks)"
    and c: "collect_options (map sanitizePatchTrace (arr_items (field v ''patches''))) = Some ps"
    and t: "t = JObj 0 (common_trace_fields v @ copy_fields v mutation_durations @
               [(js ''patches'', JArr 0 ps), (js ''invalidated'', JArr 0 ?ks)] @ copy_fields v mutation_counts @ [])"
    using assms(1) by (auto simp: sanitizeMutationTrace_eq split: if_splits)
  have ps: "collect_options (map sanitizePatchTrace ps) = Some ps"
    "length ps = length (arr_items (field v ''patches''))" "\<forall>y\<in>set ps. \<exists>x. sanitizePatchTrace x = Some y"
    using collect_options_idem [OF c] sanitizePatchTrace_ok(1) by blast+
  have f: "field t n = field v n" if "n \<in> set (mutation_durations @ mutation_counts)" for n
  proof (cases "n \<in> set mutation_durations")
    case True
    then show ?thesis by (auto simp: t mutation_durations_def common_names_def)
  next
    case False
    with that have "n = ''invalidationCount'' \<or> n = ''liveSignals'' \<or> n = ''redirect''"
      by (simp add: mutation_counts_def)
    then show ?thesis by (elim disjE) (simp_all add: t mutation_durations_def mutation_counts_def common_names_def)
  qed
  have r: "field t ''patches'' = JArr 0 ps" "field t ''invalidated'' = JArr 0 ?ks"
    by (simp_all add: t mutation_durations_def common_names_def)
  have "hasOnlyKeys t [''protocol'', ''requestId'', ''type'', ''durationMs'', ''handlerMs'',
            ''invalidationMs'', ''serializeMs'', ''patches'', ''invalidated'', ''invalidationCount'',
            ''liveSignals'', ''redirect'', ''truncated'']"
    by (simp add: t mutation_durations_def mutation_counts_def common_names_def)
  moreover have "copy_fields t mutation_durations = copy_fields v mutation_durations"
    "copy_fields t mutation_counts = copy_fields v mutation_counts"
    by (rule copy_fields_cong, rule f, simp)+
  moreover have "\<forall>n\<in>set mutation_durations. safe_duration (field t n)" using ms f by simp
  moreover have "mutation_counts_ok (field t) (length ?ks)"
    using counts f unfolding mutation_counts_ok_def mutation_counts_def by simp
  ultimately have "sanitizeMutationTrace t = Some (JObj 0 (common_trace_fields v @ copy_fields v mutation_durations @
               [(js ''patches'', JArr 0 ps), (js ''invalidated'', JArr 0 ?ks)] @ copy_fields v mutation_counts))"
    using ps lens keys common_again [OF t] by (simp add: sanitizeMutationTrace_eq r)
  then show "sanitizeMutationTrace t = Some t" by (simp add: t)
  have "list_all bounded_value ps" using ps sanitizePatchTrace_bounded by (fastforce simp: list_all_iff)
  moreover have "list_all bounded_value ?ks" using keys bounded_key by (auto simp: list_all_iff)
  moreover have "bounded_fields (copy_fields v mutation_durations)"
    unfolding bounded_copy using ms bounded_number short_name
    by (auto simp: mutation_durations_def trace_words_def)
  moreover have "bounded_value (field v ''redirect'')"
    using counts bounded_word [of "field v ''redirect''" "[''none'', ''internal'', ''external'']"]
    by (auto simp: mutation_counts_ok_def trace_words_def)
  then have "bounded_fields (copy_fields v mutation_counts)"
    unfolding bounded_copy using counts bounded_integer short_name
    by (auto simp: mutation_counts_def mutation_counts_ok_def trace_words_def)
  moreover have "short_text (js ''patches'')" "short_text (js ''invalidated'')"
    by (rule short_name, simp add: trace_words_def)+
  moreover have "length (common_trace_fields v) = 5" "length (copy_fields v ns) = length ns" for ns
    by (simp_all add: common_trace_fields_def copy_fields_def)
  ultimately show "bounded_value t"
    using common_bounded [OF assms(2)] ps lens by (simp add: t mutation_durations_def mutation_counts_def)
  show "\<exists>fs. t = JObj 0 (common_trace_fields v @ fs)" using t by blast
qed

text \<open>
  C14: a development trace is shown only after it was sanitised. What the decoder accepts is a
  fixed point of the validation, so nothing outside the documented fields survives, and all of its
  texts are at most 128 characters long and free of control characters, its lists have at most 256
  elements and its objects at most 14 properties.
\<close>

theorem server_trace_sanitised:
  assumes "decodeServerDiagnosticTrace parse header = Some t"
  shows "sanitizeServerTrace t = Some t \<and> bounded_value t"
proof -
  obtain v where v: "sanitizeServerTrace v = Some t"
    using assms
    by (auto simp: decodeServerDiagnosticTrace_def inspectServerDiagnosticTrace_def
        split: option.splits if_splits)
  then have ok: "common_ok v" by (simp add: sanitizeServerTrace_eq split: if_splits)
  show ?thesis
  proof (cases "field v ''type'' = JStr (js ''page'')")
    case True
    with v ok have p: "sanitizePageTrace v = Some t" by (simp add: sanitizeServerTrace_eq)
    obtain fs where t: "t = JObj 0 (common_trace_fields v @ fs)"
      using sanitizePageTrace_ok(3) [OF p ok] by blast
    then have "common_ok t" "field t ''type'' = JStr (js ''page'')"
      using common_ok_again [OF ok] True by (simp_all add: common_names_def)
    then show ?thesis using sanitizePageTrace_ok [OF p ok] by (simp add: sanitizeServerTrace_eq)
  next
    case False
    with v ok have m: "sanitizeMutationTrace v = Some t" by (simp add: sanitizeServerTrace_eq)
    obtain fs where t: "t = JObj 0 (common_trace_fields v @ fs)"
      using sanitizeMutationTrace_ok(3) [OF m ok] by blast
    then have "common_ok t" "field t ''type'' \<noteq> JStr (js ''page'')"
      using common_ok_again [OF ok] False by (simp_all add: common_names_def)
    then show ?thesis using sanitizeMutationTrace_ok [OF m ok] by (simp add: sanitizeServerTrace_eq)
  qed
qed

definition sample_trace :: jsval where
  "sample_trace = JObj 0 [(js ''protocol'', JStr DEVTOOLS_PROTOCOL_VERSION),
     (js ''requestId'', JStr (js ''ffdev_1'')), (js ''type'', JStr (js ''page'')),
     (js ''durationMs'', JNum (Dec 5 0)), (js ''truncated'', JBool False),
     (js ''pageMs'', JNum (Dec 1 0)), (js ''resourcesMs'', JNum (Dec 2 0)), (js ''serializeMs'', JNum (Dec 3 (-1))),
     (js ''resources'', JArr 0 [])]"

theorem server_trace_sanitised_witness: "sanitizeServerTrace sample_trace = Some sample_trace \<and> bounded_value sample_trace"
proof -
  have d: "decodeBase64Url (js ''e30'') = Some (js ''{}'')"
  proof -
    have "utf8_encode (js ''{}'') = [0x7B, 0x7D]" by code_simp
    moreover have "encodeBase64Url [0x7B, 0x7D] = js ''e30''" by code_simp
    moreover have "take 1 (js ''{}'') \<noteq> [0xFEFF]" by code_simp
    ultimately show ?thesis
      using decode_encode [OF well_formed_js, of "''{}''"] by (simp add: MAX_DEVTOOLS_TRACE_HEADER_CHARS_def)
  qed
  have s: "sanitizeServerTrace sample_trace = Some sample_trace"
    unfolding sample_trace_def
    by (simp add: sanitizeServerTrace_eq common_ok_def sanitizePageTrace_def isSafeDiagnosticText_def
        isSafeDiagnosticNumber_def one_of_def devtools_request_id_def common_trace_fields_def copy_fields_def
        num_finite_def num_val_def rat_of_dec_def MAX_DEVTOOLS_DURATION_MS_def MAX_DEVTOOLS_TRACE_RESOURCES_def
        has_control_def control_character_def js_def b64url_char_def field_def hasOnlyKeys_def)
  have "decodeServerDiagnosticTrace (\<lambda>_. Some sample_trace) (Some (js ''e30'')) = Some sample_trace"
    using s by (simp add: decodeServerDiagnosticTrace_def inspectServerDiagnosticTrace_def d sample_trace_def)
  from server_trace_sanitised [OF this] show ?thesis .
qed

section \<open>Requests\<close>

lemma header_set_lookup [simp]: "map_of (header_set k v hs) k' = (if k' = k then Some v else map_of hs k')"
  by (simp add: header_set_def map_of_jm_set map_of_obj_insert)

lemma reserved_lookup:
  "map_of (removeReservedDevToolsHeader hs) k = (if map lower k = map lower HEADER_DEVTOOLS then None else map_of hs k)"
  unfolding removeReservedDevToolsHeader_def by (induction hs) auto

lemma beginDiagnostic_active: "(fst (beginDiagnostic pf rt m u c md t) \<noteq> None) = diagnostics_active t"
  by (auto simp: beginDiagnostic_def Let_def split: option.splits)

definition base_headers :: "visit_request \<Rightarrow> headers" where
  "base_headers request = fold (\<lambda>(k, v). header_set k v)
     [(js ''Accept'', PROTOCOL_MEDIA_TYPE), (js ''X-FluxFast'', js ''1''),
      (js ''X-FluxFast-Protocol'', js ''1''), (js ''X-FluxFast-Visit'', vr_visitId request),
      (HEADER_CAPABILITIES, serializeCapabilities)]
     (case vr_headers request of None \<Rightarrow> [] | Some hs \<Rightarrow> hs)"

lemma visit_send_lookup:
  "map_of (hr_headers (fst (visit_send pf request t))) k =
     (if selectOnlyResources (vr_only request) \<noteq> [] \<and> k = js ''X-FluxFast-Only''
      then Some (join_with (js '','') (selectOnlyResources (vr_only request)))
      else if encodeKnownVersions (vr_knownVersions request) \<noteq> None \<and> k = js ''X-FluxFast-Known''
      then encodeKnownVersions (vr_knownVersions request)
      else if diagnostics_active t \<and> k = HEADER_DEVTOOLS then Some (js ''1'')
      else if map lower k = map lower HEADER_DEVTOOLS then None
      else map_of (base_headers request) k)"
proof -
  have b: "(fst (beginDiagnostic pf PageRequest (js ''GET'') (vr_url request) (Some (vr_visitId request)) md t) \<noteq> None) =
      diagnostics_active t" for md by (rule beginDiagnostic_active)
  show ?thesis
    by (cases "encodeKnownVersions (vr_knownVersions request)"; cases "diagnostics_active t")
      (use b in \<open>simp_all add: visit_send_def Let_def split_beta reserved_lookup encodeKnownVersions_def
        base_headers_def\<close>)
qed

lemma base_headers_lookup:
  "map_of (base_headers request) k =
     (if k = HEADER_CAPABILITIES then Some serializeCapabilities
      else if k = js ''X-FluxFast-Visit'' then Some (vr_visitId request)
      else if k = js ''X-FluxFast-Protocol'' \<or> k = js ''X-FluxFast'' then Some (js ''1'')
      else if k = js ''Accept'' then Some PROTOCOL_MEDIA_TYPE
      else case vr_headers request of None \<Rightarrow> None | Some hs \<Rightarrow> map_of hs k)"
  by (simp add: base_headers_def split: option.split)

definition protocol_headers :: "(jstring \<times> jstring) list" where
  "protocol_headers = [(js ''Accept'', PROTOCOL_MEDIA_TYPE), (js ''X-FluxFast'', js ''1''),
     (js ''X-FluxFast-Protocol'', js ''1''), (HEADER_CAPABILITIES, serializeCapabilities)]"

text \<open>
  The properties of a header object that name the same header: \<open>fetch\<close> compares header names without
  case, and joins the values of several spellings.
\<close>

definition spellings :: "jstring \<Rightarrow> headers \<Rightarrow> (jstring \<times> jstring) set" where
  "spellings name hs = {(k, v). map lower k = map lower name \<and> map_of hs k = Some v}"

definition special_names :: "jstring list" where
  "special_names = [js ''Accept'', js ''X-FluxFast'', js ''X-FluxFast-Protocol'', js ''X-FluxFast-Visit'',
     HEADER_CAPABILITIES, js ''X-FluxFast-Known'', js ''X-FluxFast-Only'', HEADER_DEVTOOLS]"

lemma special_names_differ:
  "a \<in> set special_names \<Longrightarrow> b \<in> set special_names \<Longrightarrow> map lower a = map lower b \<Longrightarrow> a = b"
proof -
  have "distinct (map (map lower) special_names)" by code_simp
  then have "inj_on (map lower) (set special_names)" by (simp add: distinct_map)
  then show "a \<in> set special_names \<Longrightarrow> b \<in> set special_names \<Longrightarrow> map lower a = map lower b \<Longrightarrow> a = b"
    by (auto dest: inj_onD)
qed

lemma special_distinct: "distinct special_names"
  by code_simp

definition given_headers :: "visit_request \<Rightarrow> headers" where
  "given_headers request = (case vr_headers request of None \<Rightarrow> [] | Some hs \<Rightarrow> hs)"

text \<open>A spelling other than the protocol's own is the caller's.\<close>

lemma other_spelling:
  assumes "name \<in> set special_names" and "map lower k = map lower name" and "k \<noteq> name"
  shows "map_of (hr_headers (fst (visit_send pf request t))) k =
    (if name = HEADER_DEVTOOLS then None else map_of (given_headers request) k)"
proof -
  have "k \<notin> set special_names" using special_names_differ [of k name] assms by auto
  moreover have "map lower k = map lower HEADER_DEVTOOLS \<longleftrightarrow> name = HEADER_DEVTOOLS"
    using special_names_differ [of name HEADER_DEVTOOLS] assms by (auto simp: special_names_def)
  ultimately show ?thesis
    by (auto simp: visit_send_lookup base_headers_lookup special_names_def given_headers_def split: option.split)
qed

lemma own_spelling:
  assumes "name \<in> set special_names"
  shows "map_of (hr_headers (fst (visit_send pf request t))) name =
    (if name = js ''X-FluxFast-Only'' \<and> selectOnlyResources (vr_only request) \<noteq> []
     then Some (join_with (js '','') (selectOnlyResources (vr_only request)))
     else if name = js ''X-FluxFast-Known'' \<and> encodeKnownVersions (vr_knownVersions request) \<noteq> None
     then encodeKnownVersions (vr_knownVersions request)
     else if name = HEADER_DEVTOOLS then (if diagnostics_active t then Some (js ''1'') else None)
     else map_of (base_headers request) name)"
proof -
  have "map lower name = map lower HEADER_DEVTOOLS \<longleftrightarrow> name = HEADER_DEVTOOLS"
    using special_names_differ [of name HEADER_DEVTOOLS] assms by (auto simp: special_names_def)
  moreover have "HEADER_DEVTOOLS \<noteq> js ''X-FluxFast-Known''" "HEADER_DEVTOOLS \<noteq> js ''X-FluxFast-Only''"
    using special_distinct by (auto simp: special_names_def)
  ultimately show ?thesis by (auto simp: visit_send_lookup)
qed

lemma spellings_split:
  "spellings name hs = {(k, v) \<in> spellings name hs. k \<noteq> name} \<union> {(k, v). k = name \<and> map_of hs name = Some v}"
  by (auto simp: spellings_def)

lemma sent_spellings:
  assumes "name \<in> set special_names"
  shows "spellings name (hr_headers (fst (visit_send pf request t))) =
    (if name = HEADER_DEVTOOLS then {} else {(k, v) \<in> spellings name (given_headers request). k \<noteq> name}) \<union>
    {(k, v). k = name \<and> map_of (hr_headers (fst (visit_send pf request t))) name = Some v}"
  by (subst spellings_split) (use other_spelling [OF assms, of _ pf request t] in \<open>auto simp: spellings_def split: if_splits\<close>)

text \<open>
  C13: which protocol headers a page request carries, for every spelling of their names. Whatever
  headers the caller passes, each protocol header and the visit id are sent under their own name with
  the protocol's value; nothing else is sent for them but what the caller passed under a name that
  differs in case only, which the code leaves in place and \<open>fetch\<close> joins with the protocol's value. So a
  caller whose headers have no such spelling cannot change them. The known versions and the requested
  keys are sent likewise when the selection is not empty, and are the caller's own otherwise. The
  development header is sent exactly when a diagnostics consumer is listening, with the value 1, and in
  no other spelling.
\<close>

theorem visit_headers_exact:
  "case visit_send pf request t of (http, diagnostic, t') \<Rightarrow>
     let sent = (\<lambda>name. spellings name (hr_headers http));
         others = (\<lambda>name. {(k, v) \<in> spellings name (given_headers request). k \<noteq> name})
     in (\<forall>(name, v)\<in>set protocol_headers. sent name = insert (name, v) (others name)) \<and>
        sent (js ''X-FluxFast-Visit'') =
          insert (js ''X-FluxFast-Visit'', vr_visitId request) (others (js ''X-FluxFast-Visit'')) \<and>
        sent (js ''X-FluxFast-Known'') =
          (case encodeKnownVersions (vr_knownVersions request) of
             Some e \<Rightarrow> insert (js ''X-FluxFast-Known'', e) (others (js ''X-FluxFast-Known''))
           | None \<Rightarrow> spellings (js ''X-FluxFast-Known'') (given_headers request)) \<and>
        sent (js ''X-FluxFast-Only'') =
          (if selectOnlyResources (vr_only request) \<noteq> []
           then insert (js ''X-FluxFast-Only'', join_with (js '','') (selectOnlyResources (vr_only request)))
                  (others (js ''X-FluxFast-Only''))
           else spellings (js ''X-FluxFast-Only'') (given_headers request)) \<and>
        sent HEADER_DEVTOOLS = (if diagnostics_active t then {(HEADER_DEVTOOLS, js ''1'')} else {})"
proof -
  obtain http d t' where send: "visit_send pf request t = (http, d, t')" by (cases "visit_send pf request t")
  let ?others = "\<lambda>name. {(k, v) \<in> spellings name (given_headers request). k \<noteq> name}"
  have h: "hr_headers http = hr_headers (fst (visit_send pf request t))" by (simp add: send)
  have names: "js ''Accept'' \<in> set special_names" "js ''X-FluxFast'' \<in> set special_names"
    "js ''X-FluxFast-Protocol'' \<in> set special_names" "js ''X-FluxFast-Visit'' \<in> set special_names"
    "HEADER_CAPABILITIES \<in> set special_names" "js ''X-FluxFast-Known'' \<in> set special_names"
    "js ''X-FluxFast-Only'' \<in> set special_names" "HEADER_DEVTOOLS \<in> set special_names"
    by (simp_all add: special_names_def)
  note apart = special_distinct [unfolded special_names_def, simplified]
  have "spellings name (hr_headers http) = insert (name, v) (?others name)"
    if "(name, v) \<in> set protocol_headers" for name v
  proof -
    have name: "name \<in> set special_names" and fixed: "name \<noteq> HEADER_DEVTOOLS"
      and own: "map_of (hr_headers (fst (visit_send pf request t))) name = Some v"
      using that apart names by (auto simp: protocol_headers_def own_spelling base_headers_lookup)
    show ?thesis unfolding h sent_spellings [OF name] own using fixed by auto
  qed
  moreover have "spellings (js ''X-FluxFast-Visit'') (hr_headers http) =
      insert (js ''X-FluxFast-Visit'', vr_visitId request) (?others (js ''X-FluxFast-Visit''))"
    unfolding h sent_spellings [OF names(4)] own_spelling [OF names(4)] using apart by (auto simp: base_headers_lookup)
  moreover have "spellings (js ''X-FluxFast-Known'') (hr_headers http) =
      (case encodeKnownVersions (vr_knownVersions request) of
         Some e \<Rightarrow> insert (js ''X-FluxFast-Known'', e) (?others (js ''X-FluxFast-Known''))
       | None \<Rightarrow> spellings (js ''X-FluxFast-Known'') (given_headers request))"
    unfolding h sent_spellings [OF names(6)] own_spelling [OF names(6)]
    using apart spellings_split [of "js ''X-FluxFast-Known''" "given_headers request"]
    by (auto simp: base_headers_lookup given_headers_def spellings_def split: option.splits)
  moreover have "spellings (js ''X-FluxFast-Only'') (hr_headers http) =
      (if selectOnlyResources (vr_only request) \<noteq> []
       then insert (js ''X-FluxFast-Only'', join_with (js '','') (selectOnlyResources (vr_only request)))
              (?others (js ''X-FluxFast-Only''))
       else spellings (js ''X-FluxFast-Only'') (given_headers request))"
    unfolding h sent_spellings [OF names(7)] own_spelling [OF names(7)]
    using apart spellings_split [of "js ''X-FluxFast-Only''" "given_headers request"]
    by (auto simp: base_headers_lookup given_headers_def spellings_def split: option.splits)
  moreover have "spellings HEADER_DEVTOOLS (hr_headers http) =
      (if diagnostics_active t then {(HEADER_DEVTOOLS, js ''1'')} else {})"
    unfolding h sent_spellings [OF names(8)] own_spelling [OF names(8)] using apart by auto
  ultimately show ?thesis by (auto simp: send Let_def)
qed

theorem visit_headers_exact_witness:
  "spellings (js ''Accept'') (hr_headers (fst (visit_send
      \<lparr>pf_now = 0, pf_clock = 0, pf_urlPath = (\<lambda>_. None), pf_urlProtocol = (\<lambda>_. None), pf_parse = (\<lambda>_. None)\<rparr>
      \<lparr>vr_url = js ''/p'', vr_visitId = js ''v1'', vr_knownVersions = None, vr_only = None, vr_headers = None\<rparr>
      (new_fetch_transport [])))) = {(js ''Accept'', PROTOCOL_MEDIA_TYPE)}"
  using visit_headers_exact [where pf =
      "\<lparr>pf_now = 0, pf_clock = 0, pf_urlPath = (\<lambda>_. None), pf_urlProtocol = (\<lambda>_. None), pf_parse = (\<lambda>_. None)\<rparr>"
      and request = "\<lparr>vr_url = js ''/p'', vr_visitId = js ''v1'', vr_knownVersions = None, vr_only = None,
        vr_headers = None\<rparr>" and t = "new_fetch_transport []"]
  by (simp add: split_beta Let_def protocol_headers_def given_headers_def spellings_def [of _ "[]"])

text \<open>
  An example of a place that breaks the reader: a validation error whose place is the name of an inherited object
  property, here \<open>constructor\<close>, is not reported as a validation error: reading the response throws a
  \<open>TypeError\<close>.
\<close>

lemma inherited_place_breaks_validation:
  "throwForError \<lparr>rs_ok = False, rs_status = 422, rs_body = None, rs_get = (\<lambda>_. None)\<rparr>
     (JObj 1 [(js ''detail'', JArr 2 [JObj 3 [(js ''loc'', JArr 4 [JStr (js ''body''), JStr (js ''constructor'')]),
        (js ''msg'', JStr (js ''required''))]])]) = Inl (plain TypeError)"
  by code_simp

end
