(* ===== verification/Runtime_Events.thy ===== *)
theory Runtime_Events
  imports Live_Manager
begin

text \<open>
  The runtime's event emitter (\<open>packages/core/src/events.ts\<close>) and its browser history integration
  (\<open>history.ts\<close>). A listener is named by a number; \<open>emit_targets\<close> are the listeners an emission
  calls, in order. The calls the history manager makes of the browser are recorded in
  \<open>hm_calls\<close>.
\<close>

section \<open>Events\<close>

datatype load_reason =
    ReasonDeferred | ReasonRefresh | ReasonMutation | ReasonRetry | ReasonLive | ReasonLiveReconnect

record thrown =
  th_class :: error_class
  th_message :: jstring

record load_event =
  le_url :: jstring
  le_keys :: "rkey list"
  le_reason :: load_reason

text \<open>The event names with their payloads.\<close>

datatype flux_event =
    VisitStart jstring jstring
  | VisitSuccess jstring jstring jstring
  | VisitError jstring jstring thrown
  | VisitCancel jstring jstring
  | ResourceLoadStart load_event
  | ResourceLoadSuccess load_event
  | ResourceLoadError load_event thrown
  | ResourceErrorEvent load_event rkey error_detail
  | ResourceUpdate rkey jstring
  | ResourceInvalidate rkey
  | CacheHit jstring
  | CacheMiss jstring
  | PrefetchStart jstring
  | PrefetchSuccess jstring
  | MutationStart jstring
  | MutationSuccess jstring
  | MutationErrorEvent jstring thrown
  | LiveConnectStart nat nat
  | LiveConnectOpen nat nat
  | LiveConnectClose nat nat close_reason bool
  | LiveConnectError nat nat
  | LiveReconnect nat nat
  | LiveEventSeen event_type nat
  | LiveInvalidated nat
  | LivePatched nat
  | LiveResynced nat resync_reason

definition event_name :: "flux_event \<Rightarrow> jstring" where
  "event_name ev = js
     (case ev of
        VisitStart _ _ \<Rightarrow> ''visit:start''
      | VisitSuccess _ _ _ \<Rightarrow> ''visit:success''
      | VisitError _ _ _ \<Rightarrow> ''visit:error''
      | VisitCancel _ _ \<Rightarrow> ''visit:cancel''
      | ResourceLoadStart _ \<Rightarrow> ''resource:load:start''
      | ResourceLoadSuccess _ \<Rightarrow> ''resource:load:success''
      | ResourceLoadError _ _ \<Rightarrow> ''resource:load:error''
      | ResourceErrorEvent _ _ _ \<Rightarrow> ''resource:error''
      | ResourceUpdate _ _ \<Rightarrow> ''resource:update''
      | ResourceInvalidate _ \<Rightarrow> ''resource:invalidate''
      | CacheHit _ \<Rightarrow> ''cache:hit''
      | CacheMiss _ \<Rightarrow> ''cache:miss''
      | PrefetchStart _ \<Rightarrow> ''prefetch:start''
      | PrefetchSuccess _ \<Rightarrow> ''prefetch:success''
      | MutationStart _ \<Rightarrow> ''mutation:start''
      | MutationSuccess _ \<Rightarrow> ''mutation:success''
      | MutationErrorEvent _ _ \<Rightarrow> ''mutation:error''
      | LiveConnectStart _ _ \<Rightarrow> ''live:connect:start''
      | LiveConnectOpen _ _ \<Rightarrow> ''live:connect:open''
      | LiveConnectClose _ _ _ _ \<Rightarrow> ''live:connect:close''
      | LiveConnectError _ _ \<Rightarrow> ''live:connect:error''
      | LiveReconnect _ _ \<Rightarrow> ''live:reconnect''
      | LiveEventSeen _ _ \<Rightarrow> ''live:event''
      | LiveInvalidated _ \<Rightarrow> ''live:invalidate''
      | LivePatched _ \<Rightarrow> ''live:patch''
      | LiveResynced _ _ \<Rightarrow> ''live:resync'')"

section \<open>The emitter\<close>

type_synonym emitter = "(jstring, callback list) jmap"

definition emitter_on :: "jstring \<Rightarrow> callback \<Rightarrow> emitter \<Rightarrow> emitter" where
  "emitter_on event listener e =
     (let e1 = (if \<not> jm_has e event then jm_set event [] e else e)
      in jm_set event (jset_add listener (case jm_get e1 event of None \<Rightarrow> [] | Some s \<Rightarrow> s)) e1)"

definition emitter_off :: "jstring \<Rightarrow> callback \<Rightarrow> emitter \<Rightarrow> emitter" where
  "emitter_off event listener e =
     (case jm_get e event of
        None \<Rightarrow> e
      | Some s \<Rightarrow>
          let s' = jset_delete listener s
          in if s' = [] then jm_delete event e else jm_set event s' e)"

definition emit_targets :: "flux_event \<Rightarrow> emitter \<Rightarrow> callback list" where
  "emit_targets ev e = (case jm_get e (event_name ev) of None \<Rightarrow> [] | Some s \<Rightarrow> s)"

definition emitter_removeAll :: "emitter \<Rightarrow> emitter" where
  "emitter_removeAll e = []"

definition emitter_ok :: "emitter \<Rightarrow> bool" where
  "emitter_ok e \<longleftrightarrow> jm_wf e \<and> (\<forall>(name, s)\<in>set e. s \<noteq> [] \<and> distinct s)"

lemma set_jm_delete: "set (jm_delete k m) \<subseteq> set m"
  by (auto simp: jm_delete_def)

lemma set_jm_set_subset: "set (jm_set k v m) \<subseteq> insert (k, v) (set m)"
  by (induction k v m rule: jm_set.induct) auto

lemma jm_get_in_set: "jm_get m k = Some v \<Longrightarrow> (k, v) \<in> set m"
  by (simp add: jm_get_def map_of_SomeD)

lemma jm_set_twice: "jm_set k v (jm_set k w m) = jm_set k v m"
  by (induction k w m rule: jm_set.induct) auto

text \<open>No empty listener set is kept, and listening twice is listening once.\<close>

lemma emitter_on_ok: "emitter_ok e \<Longrightarrow> emitter_ok (emitter_on event l e)"
proof -
  assume ok: "emitter_ok e"
  define ls where "ls = (case jm_get e event of None \<Rightarrow> [] | Some s \<Rightarrow> s)"
  have on: "emitter_on event l e = jm_set event (jset_add l ls) e"
    by (auto simp: emitter_on_def Let_def ls_def jmap_simps jm_set_twice jm_has_iff split: option.splits)
  have "distinct ls"
    using ok jm_get_in_set by (fastforce simp: ls_def emitter_ok_def split: option.splits)
  then show ?thesis
    using ok set_jm_set_subset [of event "jset_add l ls" e]
    by (fastforce simp: on emitter_ok_def jset_add_def)
qed

lemma emitter_off_ok: "emitter_ok e \<Longrightarrow> emitter_ok (emitter_off event l e)"
proof -
  assume ok: "emitter_ok e"
  show ?thesis
  proof (cases "jm_get e event")
    case (Some s)
    then have "distinct (jset_delete l s)"
      using ok jm_get_in_set by (fastforce simp: emitter_ok_def)
    then show ?thesis
      using ok Some set_jm_set_subset [of event "jset_delete l s" e] set_jm_delete [of event e]
      by (fastforce simp: emitter_off_def emitter_ok_def Let_def)
  qed (use ok in \<open>simp add: emitter_off_def\<close>)
qed

lemma emitter_on_target: "l \<in> set (emit_targets ev (emitter_on (event_name ev) l e))"
  by (simp add: emit_targets_def emitter_on_def Let_def jmap_simps)

lemma emitter_off_target: "l \<notin> set (emit_targets ev (emitter_off (event_name ev) l e))"
  by (auto simp: emit_targets_def emitter_off_def Let_def jmap_simps split: option.splits if_splits)

section \<open>History\<close>

datatype history_call = PushState jstring | ReplaceState jstring

record history =
  hm_popStateCallback :: "callback option"
  hm_isBrowser :: bool
  hm_isListening :: bool
  hm_calls :: "history_call list"

definition new_history :: "bool \<Rightarrow> history" where
  "new_history isBrowser =
     \<lparr>hm_popStateCallback = None, hm_isBrowser = isBrowser, hm_isListening = False, hm_calls = []\<rparr>"

definition onPopState :: "callback \<Rightarrow> history \<Rightarrow> history" where
  "onPopState cb h =
     (let h1 = h\<lparr>hm_popStateCallback := Some cb\<rparr>
      in if hm_isBrowser h1 \<and> \<not> hm_isListening h1 then h1\<lparr>hm_isListening := True\<rparr> else h1)"

text \<open>The function \<open>onPopState\<close> returns.\<close>

definition stopPopState :: "callback \<Rightarrow> history \<Rightarrow> history" where
  "stopPopState cb h =
     (if hm_popStateCallback h = Some cb then
        let h1 = h\<lparr>hm_popStateCallback := None\<rparr>
        in if hm_isBrowser h1 \<and> hm_isListening h1 then h1\<lparr>hm_isListening := False\<rparr> else h1
      else h)"

definition history_push :: "jstring \<Rightarrow> history \<Rightarrow> history" where
  "history_push url h =
     (if hm_isBrowser h then h\<lparr>hm_calls := hm_calls h @ [PushState url]\<rparr> else h)"

definition history_replace :: "jstring \<Rightarrow> history \<Rightarrow> history" where
  "history_replace url h =
     (if hm_isBrowser h then h\<lparr>hm_calls := hm_calls h @ [ReplaceState url]\<rparr> else h)"

definition history_destroy :: "history \<Rightarrow> history" where
  "history_destroy h =
     (let h1 = (if hm_isBrowser h \<and> hm_isListening h then h\<lparr>hm_isListening := False\<rparr> else h)
      in h1\<lparr>hm_popStateCallback := None\<rparr>)"

text \<open>
  \<open>handlePopState\<close>: the callback a \<open>popstate\<close> event reaches. The browser delivers the event only
  while the listener is registered.
\<close>

definition popstate_target :: "history \<Rightarrow> callback option" where
  "popstate_target h = (if hm_isBrowser h \<and> hm_isListening h then hm_popStateCallback h else None)"

definition history_ok :: "history \<Rightarrow> bool" where
  "history_ok h \<longleftrightarrow> (hm_isListening h \<longleftrightarrow> hm_isBrowser h \<and> hm_popStateCallback h \<noteq> None)"

lemma history_ops_ok:
  "history_ok (new_history b)"
  "history_ok h \<Longrightarrow> history_ok (onPopState cb h)"
  "history_ok h \<Longrightarrow> history_ok (stopPopState cb h)"
  "history_ok h \<Longrightarrow> history_ok (history_push url h)"
  "history_ok h \<Longrightarrow> history_ok (history_replace url h)"
  "history_ok h \<Longrightarrow> history_ok (history_destroy h)"
  by (auto simp: history_ok_def new_history_def onPopState_def stopPopState_def history_push_def
      history_replace_def history_destroy_def Let_def)

end
