(* ===== verification/Router.thy ===== *)
theory Router
  imports Fetch_Transport Runtime_Events Page_Cache Prefetch Resource_Epochs
begin

text \<open>
  The navigation engine (\<open>FluxRouter\<close> in \<open>packages/core/src/router.ts\<close>): its state, its helpers,
  and the loading of resources.

  An asynchronous method is split where it waits. What it has to do when it is resumed is a task
  in \<open>rt_tasks\<close>, which holds the values the method captured; resuming a task is an operation of
  its own, so every interleaving of the methods is an order of these operations. Listeners of the
  event emitter, of the diagnostics hub, of the resource store and of the page store run in the
  middle of an operation and may use the router, so they are functions on its state
  (\<open>re_listen\<close>); subscribers of the store run when the store operation that notified them has
  returned. The router's own listeners on the live manager are operations of their own
  (\<open>handleLiveEvent\<close>, \<open>handleLiveDiagnostic\<close>). An abort controller is a number and aborting it
  puts it into \<open>rt_aborted\<close>; the hard navigations and the scroll resets are recorded. The requests
  of the prefetch manager that are under way are \<open>rt_requests\<close>, and \<open>rt_settled\<close> holds the outcome of
  each of its promises that is settled.
\<close>

section \<open>State\<close>

record mutation_task =
  mu_url :: jstring
  mu_method :: jstring
  mu_preserveScroll :: bool
  mu_generation :: nat
  mu_visitCounter :: nat
  mu_id :: "jstring option"

record deferred_wait =
  dw_controller :: nat
  dw_keys :: "rkey list"
  dw_url :: jstring
  dw_id :: "jstring option"
  dw_generation :: "nat option"

text \<open>What waits for the end of a visit or a load.\<close>

datatype waiter =
    WNone
  | WDeferred deferred_wait
  | WRedirect mutation_task mutation_payload
  | WRefresh mutation_task mutation_payload

record visit_options =
  vo_replace :: bool
  vo_preserveScroll :: bool
  vo_preserveState :: bool
  vo_usePrefetch :: bool
  vo_only :: "rkey list option"

record visit_task =
  vt_id :: jstring
  vt_url :: jstring
  vt_options :: visit_options
  vt_startedAtEpoch :: nat
  vt_controller :: nat
  vt_known :: "jstring jobj"
  vt_waiter :: waiter

record load_task =
  lk_id :: jstring
  lk_event :: load_event
  lk_known :: "jstring jobj"
  lk_captured :: "(rkey, nat) jmap"
  lk_generation :: nat
  lk_signal :: "nat option"
  lk_waiter :: waiter

record prefetch_task =
  pt_url :: jstring
  pt_id :: "jstring option"
  pt_known :: "jstring jobj"
  pt_startedAtEpoch :: nat
  pt_generation :: nat

datatype task =
    TVisitPending visit_task "nat option"
  | TVisitTransport visit_task
  | TLoad load_task
  | TPrefetch prefetch_task fetch_outcome
  | TMutate mutation_task
  | TResume waiter "thrown option"

record router =
  rt_store :: store
  rt_page :: page_store
  rt_emitter :: emitter
  rt_hub :: "jsval hub"
  rt_history :: history
  rt_prefetch :: prefetch_manager
  rt_cache :: page_cache
  rt_live :: live_manager
  currentVisitId :: "jstring option"
  activeController :: "nat option"
  activeDeferredController :: "nat option"
  activeDeferredKeys :: "rkey list"
  activeDeferredEpochs :: "(rkey, nat) jmap"
  activeDeferredDiagnosticId :: "jstring option"
  activeDeferredUrl :: jstring
  visitCounter :: nat
  lifecycleGeneration :: nat
  resourceLoadCounter :: nat
  diagnosticEventCounter :: nat
  diagnosticOperationCounter :: nat
  resourceEpochCounter :: nat
  resourceEpochs :: epoch_map
  initialDeferredBatch :: "(rkey list \<times> jstring) option"
  initialDeferredStarted :: bool
  historyStarted :: bool
  liveStarted :: bool
  liveBatchDelayMs :: rat
  pendingLiveRefreshKeys :: "rkey list"
  activeLiveLoadEpochs :: "(jstring, (rkey, nat) jmap) jmap"
  pendingLiveRefreshReason :: load_reason
  liveRefreshTimer :: "nat option"
  liveRefreshCorrelations :: "jstring list option"
  rt_tasks :: "task list"
  rt_requests :: "prefetch_request list"
  rt_settled :: "(nat \<times> (thrown, page_envelope) result) list"
  rt_aborted :: "nat list"
  rt_next :: nat
  rt_navigations :: "jstring list"
  rt_scrolls :: nat

datatype router_note = RnEvent flux_event | RnDiagnostic "jsval diag_event" | RnStore | RnPage

record router_env =
  re_listen :: "callback \<Rightarrow> router_note \<Rightarrow> router \<Rightarrow> router"
  re_live :: live_env
  re_now :: nat
  re_urlPath :: "jstring \<Rightarrow> jstring option"
  re_localeLe :: "jstring \<Rightarrow> jstring \<Rightarrow> bool"

section \<open>Calling out\<close>

definition emit :: "router_env \<Rightarrow> flux_event \<Rightarrow> router \<Rightarrow> router" where
  "emit env ev st = fold (\<lambda>cb. re_listen env cb (RnEvent ev)) (emit_targets ev (rt_emitter st)) st"

definition diagnosing :: "router \<Rightarrow> bool" where
  "diagnosing st \<longleftrightarrow> hub_active (rt_hub st)"

definition stamped :: "router_env \<Rightarrow> string \<Rightarrow> nat \<Rightarrow> jstring" where
  "stamped env prefix n = js prefix @ js ''_'' @ nat_digits n @ js ''_'' @ base36 (re_now env)"

definition rt_emitDiagnostic ::
  "router_env \<Rightarrow> diag_type \<Rightarrow> (string \<times> jsval) list \<Rightarrow> jstring option \<Rightarrow> router \<Rightarrow> router" where
  "rt_emitDiagnostic env type data correlationId st =
     (if \<not> diagnosing st then st
      else
        let n = diagnosticEventCounter st + 1;
            ev = \<lparr>de_id = stamped env ''diagnostic'' n, de_timestamp = re_now env, de_type = type,
                  de_correlationId = correlationId,
                  de_data = JObj 0 (map (\<lambda>(k, v). (js k, v)) data)\<rparr>;
            st1 = st\<lparr>diagnosticEventCounter := n, rt_hub := hub_emit ev (rt_hub st)\<rparr>
        in fold (\<lambda>cb. re_listen env cb (RnDiagnostic ev)) (dh_listeners (rt_hub st)) st1)"

definition nextDiagnosticOperationId :: "router_env \<Rightarrow> string \<Rightarrow> router \<Rightarrow> jstring option \<times> router" where
  "nextDiagnosticOperationId env prefix st =
     (if \<not> diagnosing st then (None, st)
      else
        let n = diagnosticOperationCounter st + 1
        in (Some (stamped env prefix n), st\<lparr>diagnosticOperationCounter := n\<rparr>))"

text \<open>An operation of the resource store, then the callbacks it notified.\<close>

definition on_store :: "router_env \<Rightarrow> (store \<Rightarrow> 'a \<times> store) \<Rightarrow> router \<Rightarrow> 'a \<times> router" where
  "on_store env f st =
     (let (res, s) = f (rt_store st)
      in (res, fold (\<lambda>cb. re_listen env cb RnStore) (drop (length (calls (rt_store st))) (calls s))
                 (st\<lparr>rt_store := s\<rparr>)))"

definition upd_store :: "router_env \<Rightarrow> (store \<Rightarrow> store) \<Rightarrow> router \<Rightarrow> router" where
  "upd_store env f st = snd (on_store env (\<lambda>s. ((), f s)) st)"

definition upd_page :: "router_env \<Rightarrow> (page_store \<Rightarrow> page_store) \<Rightarrow> router \<Rightarrow> router" where
  "upd_page env f st =
     (let p = f (rt_page st)
      in fold (\<lambda>cb. re_listen env cb RnPage) (drop (length (ps_calls (rt_page st))) (ps_calls p))
           (st\<lparr>rt_page := p\<rparr>))"

definition upd_live :: "(live_manager \<Rightarrow> live_manager) \<Rightarrow> router \<Rightarrow> router" where
  "upd_live f st = st\<lparr>rt_live := f (rt_live st)\<rparr>"

definition add_task :: "task \<Rightarrow> router \<Rightarrow> router" where
  "add_task t st = st\<lparr>rt_tasks := rt_tasks st @ [t]\<rparr>"

text \<open>The promise of a visit or a load is settled: whoever awaits it is resumed.\<close>

definition settle :: "waiter \<Rightarrow> thrown option \<Rightarrow> router \<Rightarrow> router" where
  "settle w outcome st = (if w = WNone then st else add_task (TResume w outcome) st)"

section \<open>Diagnostic data\<close>

abbreviation str :: "string \<Rightarrow> jsval" where "str s \<equiv> JStr (js s)"

definition num :: "nat \<Rightarrow> jsval" where "num n = JNum (num_of_int (int n))"

definition diagnosticUrl :: "router_env \<Rightarrow> jstring \<Rightarrow> jsval" where
  "diagnosticUrl env url = JStr (diagnosticPath (re_urlPath env) url)"

definition dtext :: "jstring \<Rightarrow> jsval" where
  "dtext s = JStr (diagnosticText s 256)"

definition diagnosticKeys :: "rkey list \<Rightarrow> (string \<times> jsval) list" where
  "diagnosticKeys keys =
     [(''keys'', JArr 0 (map (\<lambda>k. JStr (diagnosticText k 256)) (take 100 keys))),
      (''keyCount'', num (length keys)), (''keysTruncated'', JBool (length keys > 100))]"

definition reason_text :: "load_reason \<Rightarrow> string" where
  "reason_text r =
     (case r of ReasonDeferred \<Rightarrow> ''deferred'' | ReasonRefresh \<Rightarrow> ''refresh'' | ReasonMutation \<Rightarrow> ''mutation''
      | ReasonRetry \<Rightarrow> ''retry'' | ReasonLive \<Rightarrow> ''live'' | ReasonLiveReconnect \<Rightarrow> ''live-reconnect'')"

definition error_type :: "thrown \<Rightarrow> jsval" where
  "error_type err = JStr (diagnosticErrorType (ThrownError (error_name (th_class err))))"

section \<open>Epochs\<close>

definition bumpResourceEpoch :: "rkey \<Rightarrow> bool \<Rightarrow> router \<Rightarrow> nat \<times> router" where
  "bumpResourceEpoch key speculative st =
     (let epoch = resourceEpochCounter st + 1;
          previous = epoch_get key (resourceEpochs st)
      in (epoch,
          st\<lparr>resourceEpochCounter := epoch,
             resourceEpochs := epoch_set key
               \<lparr>re_epoch = epoch,
                re_authoritativeEpoch =
                  (if speculative then (case previous of None \<Rightarrow> 0 | Some p \<Rightarrow> re_authoritativeEpoch p) else epoch),
                re_conservative =
                  (speculative \<and> (case previous of None \<Rightarrow> False | Some p \<Rightarrow> re_conservative p))\<rparr>
               (resourceEpochs st)\<rparr>))"

definition bump :: "rkey \<Rightarrow> router \<Rightarrow> router" where
  "bump key st = snd (bumpResourceEpoch key False st)"

definition epoch_of :: "router \<Rightarrow> rkey \<Rightarrow> nat option" where
  "epoch_of st key = map_option re_epoch (epoch_get key (resourceEpochs st))"

section \<open>Aborting\<close>

definition new_controller :: "router \<Rightarrow> nat \<times> router" where
  "new_controller st = (rt_next st, st\<lparr>rt_next := Suc (rt_next st)\<rparr>)"

definition abort_controller :: "nat \<Rightarrow> router \<Rightarrow> router" where
  "abort_controller c st = st\<lparr>rt_aborted := jset_add c (rt_aborted st)\<rparr>"

definition abortActiveVisit :: "router \<Rightarrow> router" where
  "abortActiveVisit st =
     (let st1 = (case activeController st of
            None \<Rightarrow> st | Some c \<Rightarrow> (abort_controller c st)\<lparr>activeController := None\<rparr>)
      in st1\<lparr>currentVisitId := None\<rparr>)"

text \<open>The value under work is put back and marked stale, or the key is forgotten.\<close>

definition restore_record :: "router_env \<Rightarrow> rkey \<Rightarrow> router \<Rightarrow> router" where
  "restore_record env key st =
     (let (rec, st1) = on_store env (getRecord key) st
      in case rec of
           Some r \<Rightarrow>
             upd_store env (markStale key)
               (snd (on_store env (store_set (re_now env) key (r_version r) (r_value r)) st1))
         | None \<Rightarrow> upd_store env (invalidate key) st1)"

fun abort_deferred_keys :: "router_env \<Rightarrow> rkey list \<Rightarrow> router \<Rightarrow> router" where
  "abort_deferred_keys env [] st = st"
| "abort_deferred_keys env (key # keys) st =
     (if epoch_of st key \<noteq> jm_get (activeDeferredEpochs st) key then abort_deferred_keys env keys st
      else abort_deferred_keys env keys (restore_record env key (bump key st)))"

text \<open>
  The flag says that the method threw: it reads \<open>this.activeDeferredController\<close> again after the
  loop, and a listener that aborted the batch meanwhile left \<open>null\<close> there.
\<close>

definition abortActiveDeferred :: "router_env \<Rightarrow> router \<Rightarrow> bool \<times> router" where
  "abortActiveDeferred env st =
     (if activeDeferredController st = None then (False, st)
      else
        let st1 = (if diagnosing st then
                     rt_emitDiagnostic env DtDeferred
                       ([(''phase'', str ''abort''), (''url'', diagnosticUrl env (activeDeferredUrl st))] @
                        diagnosticKeys (activeDeferredKeys st)) (activeDeferredDiagnosticId st) st
                   else st);
            st2 = abort_deferred_keys env (activeDeferredKeys st1) st1
        in (case activeDeferredController st2 of
              None \<Rightarrow> (True, st2)
            | Some c \<Rightarrow>
                (False, (abort_controller c st2)\<lparr>activeDeferredController := None, activeDeferredKeys := [],
                   activeDeferredEpochs := [], activeDeferredDiagnosticId := None,
                   activeDeferredUrl := js ''/''\<rparr>)))"

fun supersede_epochs :: "router_env \<Rightarrow> (rkey \<times> nat) list \<Rightarrow> router \<Rightarrow> router" where
  "supersede_epochs env [] st = st"
| "supersede_epochs env ((key, epoch) # es) st =
     (if epoch_of st key = Some epoch
      then supersede_epochs env es (restore_record env key (bump key st))
      else supersede_epochs env es st)"

definition supersedeLiveWork :: "router_env \<Rightarrow> router \<Rightarrow> router" where
  "supersedeLiveWork env st =
     (fold (supersede_epochs env) (jm_values (activeLiveLoadEpochs st)) st)\<lparr>activeLiveLoadEpochs := []\<rparr>"

definition cancelPendingLiveRefresh :: "router \<Rightarrow> router" where
  "cancelPendingLiveRefresh st =
     st\<lparr>liveRefreshTimer := None, pendingLiveRefreshKeys := [], liveRefreshCorrelations := None,
        pendingLiveRefreshReason := ReasonLive\<rparr>"

section \<open>Loading resources\<close>

definition or_root :: "jstring \<Rightarrow> jstring" where
  "or_root url = (if url = [] then js ''/'' else url)"

definition current_url :: "router \<Rightarrow> jstring" where
  "current_url st = or_root (pg_url (page_getSnapshot (rt_page st)))"

fun capture_epochs :: "rkey list \<Rightarrow> (rkey, nat) jmap \<Rightarrow> router \<Rightarrow> (rkey, nat) jmap \<times> router" where
  "capture_epochs [] m st = (m, st)"
| "capture_epochs (key # keys) m st =
     (let (epoch, st1) = bumpResourceEpoch key False st in capture_epochs keys (jm_set key epoch m) st1)"

text \<open>The loop that marks the keys; the flag says that the method returned in it.\<close>

fun mark_loading_keys :: "router_env \<Rightarrow> nat \<Rightarrow> rkey list \<Rightarrow> router \<Rightarrow> bool \<times> router" where
  "mark_loading_keys env gen [] st = (False, st)"
| "mark_loading_keys env gen (key # keys) st =
     (if gen \<noteq> lifecycleGeneration st then (True, st)
      else mark_loading_keys env gen keys (upd_store env (markLoading [key]) st))"

definition loadResources ::
  "router_env \<Rightarrow> rkey list \<Rightarrow> jstring option \<Rightarrow> load_reason \<Rightarrow> nat option \<Rightarrow> jstring option \<Rightarrow> waiter \<Rightarrow>
   router \<Rightarrow> router" where
  "loadResources env keys urlOption reason signal correlationId w st =
     (let gen = lifecycleGeneration st;
          requestedKeys = jset_of (filter (\<lambda>key. key \<noteq> []) keys)
      in if requestedKeys = [] then settle w None st
         else
           let url = (case urlOption of Some u \<Rightarrow> u | None \<Rightarrow> current_url st);
               knownVersions = exportKnown (rt_store st);
               (loadId, st1) = (case correlationId of
                  Some i \<Rightarrow> (i, st)
                | None \<Rightarrow>
                    (js ''resource_'' @ stamped env (reason_text reason) (resourceLoadCounter st + 1),
                     st\<lparr>resourceLoadCounter := resourceLoadCounter st + 1\<rparr>));
               (capturedEpochs, st2) = capture_epochs requestedKeys [] st1;
               st3 = (if reason = ReasonLive \<or> reason = ReasonLiveReconnect
                      then st2\<lparr>activeLiveLoadEpochs := jm_set loadId capturedEpochs (activeLiveLoadEpochs st2)\<rparr>
                      else st2);
               (returned, st4) = mark_loading_keys env gen requestedKeys st3
           in if returned \<or> gen \<noteq> lifecycleGeneration st4 then settle w None st4
              else
                let loadEvent = \<lparr>le_url = url, le_keys = requestedKeys, le_reason = reason\<rparr>;
                    st5 = emit env (ResourceLoadStart loadEvent) st4;
                    st6 = rt_emitDiagnostic env DtResourceLoad
                            ([(''phase'', str ''start''), (''url'', diagnosticUrl env url),
                              (''reason'', str (reason_text reason))] @ diagnosticKeys requestedKeys)
                            (Some loadId) st5
                in if gen \<noteq> lifecycleGeneration st6 then settle w None st6
                   else add_task (TLoad \<lparr>lk_id = loadId, lk_event = loadEvent, lk_known = knownVersions,
                          lk_captured = capturedEpochs, lk_generation = gen, lk_signal = signal,
                          lk_waiter = w\<rparr>) st6)"

text \<open>One requested key when the answer came; the flag says that the method returned.\<close>

definition announce_update :: "router_env \<Rightarrow> rkey \<Rightarrow> jstring \<Rightarrow> string \<Rightarrow> jstring option \<Rightarrow> router \<Rightarrow> router" where
  "announce_update env key version source correlationId st =
     rt_emitDiagnostic env DtResourceUpdate
       [(''key'', dtext key), (''version'', dtext version), (''source'', str source)] correlationId
       (emit env (ResourceUpdate key version) st)"

definition write_resource ::
  "router_env \<Rightarrow> load_task \<Rightarrow> rkey \<Rightarrow> jstring \<Rightarrow> jsval \<Rightarrow> router \<Rightarrow> bool \<times> router" where
  "write_resource env lk key version val st =
     (let (updated, st1) = on_store env (store_set (re_now env) key version val) st
      in if \<not> updated then (False, st1)
         else if lk_generation lk \<noteq> lifecycleGeneration st1 then (True, st1)
         else (False, announce_update env key version (reason_text (le_reason (lk_event lk))) (Some (lk_id lk)) st1))"

definition announce_error :: "router_env \<Rightarrow> load_task \<Rightarrow> rkey \<Rightarrow> error_detail \<Rightarrow> router \<Rightarrow> router" where
  "announce_error env lk key err st =
     rt_emitDiagnostic env DtResourceUpdate
       [(''key'', dtext key), (''state'', str ''error''),
        (''errorType'', JStr (diagnosticErrorType (ThrownString (e_type err)))),
        (''source'', str (reason_text (le_reason (lk_event lk))))] (Some (lk_id lk))
       (emit env (ResourceErrorEvent (lk_event lk) key err) st)"

definition settle_key :: "router_env \<Rightarrow> load_task \<Rightarrow> page_envelope \<Rightarrow> rkey \<Rightarrow> router \<Rightarrow> bool \<times> router" where
  "settle_key env lk envelope key st =
     (case map_of (env_resources envelope) key of
        Some rec \<Rightarrow> write_resource env lk key (w_version rec) (w_value rec) st
      | None \<Rightarrow>
          (case map_of (case env_resourceErrors envelope of None \<Rightarrow> [] | Some es \<Rightarrow> es) key of
             Some err \<Rightarrow>
               let st1 = upd_store env (setResourceError key err) st
               in if lk_generation lk \<noteq> lifecycleGeneration st1 then (True, st1)
                  else (False, announce_error env lk key err st1)
           | None \<Rightarrow>
               let (rec, st1) = on_store env (getRecord key) st
               in (case rec of
                     Some r \<Rightarrow> write_resource env lk key (r_version r) (r_value r) st1
                   | None \<Rightarrow>
                       (False, rt_emitDiagnostic env DtResourceInvalidate
                          [(''key'', dtext key), (''source'', str (reason_text (le_reason (lk_event lk))))]
                          (Some (lk_id lk)) (upd_store env (invalidate key) st1)))))"

fun settle_loaded ::
  "router_env \<Rightarrow> load_task \<Rightarrow> page_envelope \<Rightarrow> rkey list \<Rightarrow> rkey list \<Rightarrow> router \<Rightarrow> rkey list option \<times> router" where
  "settle_loaded env lk envelope [] settled st = (Some settled, st)"
| "settle_loaded env lk envelope (key # keys) settled st =
     (if lk_generation lk \<noteq> lifecycleGeneration st then (None, st)
      else if epoch_of st key \<noteq> jm_get (lk_captured lk) key then settle_loaded env lk envelope keys settled st
      else
        (case settle_key env lk envelope key st of
           (True, st1) \<Rightarrow> (None, st1)
         | (False, st1) \<Rightarrow> settle_loaded env lk envelope keys (settled @ [key]) st1))"

definition settle_cache :: "jstring \<Rightarrow> rkey list \<Rightarrow> router \<Rightarrow> router" where
  "settle_cache url keys st =
     (let (c, s) = settleResources url keys (rt_cache st) (rt_store st)
      in st\<lparr>rt_cache := c, rt_store := s\<rparr>)"

text \<open>The \<open>finally\<close> block.\<close>

definition load_finally :: "load_task \<Rightarrow> router \<Rightarrow> router" where
  "load_finally lk st = st\<lparr>activeLiveLoadEpochs := jm_delete (lk_id lk) (activeLiveLoadEpochs st)\<rparr>"

text \<open>The transport answered the load.\<close>

definition load_answer :: "router_env \<Rightarrow> load_task \<Rightarrow> page_envelope \<Rightarrow> router \<Rightarrow> router" where
  "load_answer env lk envelope st =
     (let done = (\<lambda>st'. settle (lk_waiter lk) None (load_finally lk st')) in
      if lk_generation lk \<noteq> lifecycleGeneration st then done st
      else
        (case settle_loaded env lk envelope (le_keys (lk_event lk)) [] st of
           (None, st1) \<Rightarrow> done st1
         | (Some settledKeys, st1) \<Rightarrow>
             if lk_generation lk \<noteq> lifecycleGeneration st1 then done st1
             else
               let url = le_url (lk_event lk);
                   st2 = settle_cache url settledKeys st1;
                   st3 = emit env (ResourceLoadSuccess (lk_event lk)) st2
               in done (rt_emitDiagnostic env DtResourceLoad
                    ([(''phase'', str ''success''), (''url'', diagnosticUrl env url),
                      (''reason'', str (reason_text (le_reason (lk_event lk))))] @
                     diagnosticKeys (le_keys (lk_event lk)) @ [(''settledCount'', num (length settledKeys))])
                    (Some (lk_id lk)) st3)))"

text \<open>The loop of the \<open>catch\<close> block; the flag is \<open>aborted\<close>.\<close>

fun fail_keys ::
  "router_env \<Rightarrow> load_task \<Rightarrow> bool \<Rightarrow> error_detail \<Rightarrow> rkey list \<Rightarrow> rkey list \<Rightarrow> router \<Rightarrow> rkey list option \<times> router" where
  "fail_keys env lk wasAborted err [] settled st = (Some settled, st)"
| "fail_keys env lk wasAborted err (key # keys) settled st =
     (if lk_generation lk \<noteq> lifecycleGeneration st then (None, st)
      else if epoch_of st key \<noteq> jm_get (lk_captured lk) key then fail_keys env lk wasAborted err keys settled st
      else
        let (rec, st1) = on_store env (getRecord key) st
        in if wasAborted then
             fail_keys env lk wasAborted err keys settled
               (case rec of
                  Some r \<Rightarrow> snd (on_store env (store_set (re_now env) key (r_version r) (r_value r)) st1)
                | None \<Rightarrow> upd_store env (invalidate key) st1)
           else
             let st2 = upd_store env (setResourceError key err) st1
             in if lk_generation lk \<noteq> lifecycleGeneration st2 then (None, st2)
                else fail_keys env lk wasAborted err keys (settled @ [key]) (announce_error env lk key err st2))"

text \<open>The transport failed the load.\<close>

definition load_failure :: "router_env \<Rightarrow> load_task \<Rightarrow> thrown \<Rightarrow> router \<Rightarrow> router" where
  "load_failure env lk err st =
     (let rethrow = (\<lambda>st'. settle (lk_waiter lk) (Some err) (load_finally lk st')) in
      if lk_generation lk \<noteq> lifecycleGeneration st then rethrow st
      else
        let wasAborted = ((case lk_signal lk of None \<Rightarrow> False | Some c \<Rightarrow> c \<in> set (rt_aborted st)) \<or>
                       th_class err = AbortError);
            resourceError = \<lparr>e_type = error_name (th_class err), e_message = th_message err,
                             e_details = JUndef\<rparr>
        in (case fail_keys env lk wasAborted resourceError (le_keys (lk_event lk)) [] st of
              (None, st1) \<Rightarrow> rethrow st1
            | (Some settledKeys, st1) \<Rightarrow>
                if lk_generation lk \<noteq> lifecycleGeneration st1 then rethrow st1
                else
                  let url = le_url (lk_event lk);
                      st2 = (if \<not> wasAborted then settle_cache url settledKeys st1 else st1);
                      st3 = emit env (ResourceLoadError (lk_event lk) err) st2
                  in rethrow (rt_emitDiagnostic env DtResourceLoad
                       ([(''phase'', str (if wasAborted then ''abort'' else ''error'')),
                         (''url'', diagnosticUrl env url),
                         (''reason'', str (reason_text (le_reason (lk_event lk)))),
                         (''errorType'', error_type err)] @ diagnosticKeys (le_keys (lk_event lk)))
                       (Some (lk_id lk)) st3)))"

end
