(* ===== verification/Router_Visit.thy ===== *)
theory Router_Visit
  imports Router
begin

text \<open>
  Navigation in \<open>FluxRouter\<close>: deferred batches, the application of a page envelope, visits and the
  browser history. A method that throws gives back the error beside the state it left; the text
  of the errors the runtime itself throws is not modelled.
\<close>

definition thrown_of :: "error_class \<Rightarrow> thrown" where
  "thrown_of e = \<lparr>th_class = e, th_message = []\<rparr>"

definition absent_list :: "'a list option \<Rightarrow> 'a list" where
  "absent_list xs = (case xs of None \<Rightarrow> [] | Some ys \<Rightarrow> ys)"

definition url_or :: "jstring \<Rightarrow> jstring \<Rightarrow> jstring" where
  "url_or url other = (if url = [] then other else url)"

section \<open>Deferred batches\<close>

definition startDeferredBatch :: "router_env \<Rightarrow> rkey list \<Rightarrow> jstring \<Rightarrow> router \<Rightarrow> bool \<times> router" where
  "startDeferredBatch env keys url st =
     (case abortActiveDeferred env st of
        (True, st1) \<Rightarrow> (True, st1)
      | (False, st1) \<Rightarrow>
          let (deferredId, st2) = nextDiagnosticOperationId env ''deferred'' st1;
              diagnosticGeneration = (if deferredId = None then None else Some (lifecycleGeneration st2));
              (controller, st3) = new_controller st2;
              st4 = st3\<lparr>activeDeferredController := Some controller, activeDeferredKeys := keys\<rparr>;
              st5 = (if deferredId \<noteq> None then
                       rt_emitDiagnostic env DtDeferred
                         ([(''phase'', str ''start''), (''url'', diagnosticUrl env url)] @ diagnosticKeys keys)
                         deferredId (st4\<lparr>activeDeferredDiagnosticId := deferredId, activeDeferredUrl := url\<rparr>)
                     else st4);
              st6 = loadResources env keys (Some url) ReasonDeferred (Some controller) deferredId
                      (WDeferred \<lparr>dw_controller = controller, dw_keys = keys, dw_url = url, dw_id = deferredId,
                         dw_generation = diagnosticGeneration\<rparr>) st5
          in (False, st6\<lparr>activeDeferredEpochs :=
                fold (\<lambda>key. jm_set key (case epoch_of st6 key of None \<Rightarrow> 0 | Some e \<Rightarrow> e)) keys []\<rparr>))"

text \<open>The reactions to the promise of a batch: the diagnostics, then the \<open>finally\<close>.\<close>

definition deferred_done :: "router_env \<Rightarrow> deferred_wait \<Rightarrow> thrown option \<Rightarrow> router \<Rightarrow> router" where
  "deferred_done env dw outcome st =
     (let live = dw_generation dw = Some (lifecycleGeneration st);
          st1 = (if dw_id dw = None \<or> \<not> live then st
                 else
                   (case outcome of
                      None \<Rightarrow>
                        rt_emitDiagnostic env DtDeferred
                          ([(''phase'', str ''success''), (''url'', diagnosticUrl env (dw_url dw))] @
                           diagnosticKeys (dw_keys dw)) (dw_id dw) st
                    | Some err \<Rightarrow>
                        if dw_controller dw \<in> set (rt_aborted st) then st
                        else rt_emitDiagnostic env DtDeferred
                          ([(''phase'', str ''error''), (''url'', diagnosticUrl env (dw_url dw)),
                            (''errorType'', error_type err)] @ diagnosticKeys (dw_keys dw)) (dw_id dw) st))
      in if activeDeferredController st1 = Some (dw_controller dw)
         then st1\<lparr>activeDeferredController := None, activeDeferredKeys := [], activeDeferredEpochs := [],
                 activeDeferredDiagnosticId := None, activeDeferredUrl := js ''/''\<rparr>
         else st1)"

definition startDeferredEnvelope :: "router_env \<Rightarrow> page_envelope \<Rightarrow> router \<Rightarrow> bool \<times> router" where
  "startDeferredEnvelope env envelope st =
     (if absent_list (env_deferred envelope) = [] then (False, st)
      else startDeferredBatch env (absent_list (env_deferred envelope)) (or_root (pd_url (env_page envelope))) st)"

text \<open>Repeated calls share the first promise.\<close>

definition startInitialDeferred :: "router_env \<Rightarrow> router \<Rightarrow> bool \<times> router" where
  "startInitialDeferred env st =
     (if initialDeferredStarted st then (False, st)
      else
        (case initialDeferredBatch st of
           None \<Rightarrow> (False, st\<lparr>initialDeferredStarted := True\<rparr>)
         | Some (keys, url) \<Rightarrow>
             (case startDeferredBatch env keys url (st\<lparr>initialDeferredBatch := None\<rparr>) of
                (True, st1) \<Rightarrow> (True, st1)
              | (False, st1) \<Rightarrow> (False, st1\<lparr>initialDeferredStarted := True\<rparr>))))"

section \<open>Page envelopes\<close>

text \<open>
  The versions of the page's keys. A name every object inherits reads as a function there, which
  equals no version later: it is left out.
\<close>

definition page_versions :: "rkey list \<Rightarrow> jstring jobj \<Rightarrow> jstring jobj" where
  "page_versions keys known =
     fold (\<lambda>key versions. case map_of known key of Some v \<Rightarrow> obj_assign key v versions | None \<Rightarrow> versions) keys []"

definition cachePageEnvelope :: "router_env \<Rightarrow> page_envelope \<Rightarrow> jstring option \<Rightarrow> router \<Rightarrow> router" where
  "cachePageEnvelope env envelope correlationId st =
     (let allKnownVersions = exportKnown (rt_store st);
          liveKeys = jset_of (absent_list (env_live envelope));
          announce = (\<lambda>resources pending.
            rt_emitDiagnostic env DtPageCache
              [(''action'', str ''write''), (''url'', diagnosticUrl env (or_root (pd_url (env_page envelope)))),
               (''resourceCount'', num resources), (''pendingDeferredCount'', num pending)] correlationId)
      in (case env_resourceKeys envelope of
            None \<Rightarrow>
              announce (length allKnownVersions) 0
                (st\<lparr>rt_cache := cache_set (env_page envelope) allKnownVersions
                     (Some \<lparr>cm_resourceKeys = map fst allKnownVersions, cm_pendingDeferred = [],
                            cm_liveKeys = Some liveKeys\<rparr>) (rt_cache st)\<rparr>)
          | Some pageKeys \<Rightarrow>
              let resourceKeys = jset_of pageKeys;
                  pendingDeferred =
                    filter (\<lambda>key. key \<in> set resourceKeys) (jset_of (absent_list (env_deferred envelope)))
              in announce (length resourceKeys) (length pendingDeferred)
                   (st\<lparr>rt_cache := cache_set (env_page envelope) (page_versions resourceKeys allKnownVersions)
                        (Some \<lparr>cm_resourceKeys = resourceKeys, cm_pendingDeferred = pendingDeferred,
                               cm_liveKeys = Some liveKeys\<rparr>) (rt_cache st)\<rparr>)))"

definition envelope_keys :: "page_envelope \<Rightarrow> rkey list" where
  "envelope_keys envelope =
     jset_of (map fst (env_resources envelope) @ map fst (absent_list (env_resourceErrors envelope)) @
              absent_list (env_deferred envelope) @ absent_list (env_resourceKeys envelope))"

definition authority_of :: "router \<Rightarrow> rkey \<Rightarrow> nat" where
  "authority_of st key =
     (case epoch_get key (resourceEpochs st) of None \<Rightarrow> 0 | Some e \<Rightarrow> re_authoritativeEpoch e)"

definition eligible_keys :: "page_envelope \<Rightarrow> nat \<Rightarrow> router \<Rightarrow> rkey list" where
  "eligible_keys envelope startedAtEpoch st =
     filter (\<lambda>key. authority_of st key \<le> startedAtEpoch) (envelope_keys envelope)"

definition restrict_envelope :: "rkey list \<Rightarrow> page_envelope \<Rightarrow> page_envelope" where
  "restrict_envelope keys envelope =
     envelope\<lparr>env_ref := 0,
       env_resources := filter (\<lambda>(key, _). key \<in> set keys) (env_resources envelope),
       env_resourceErrors := map_option (filter (\<lambda>(key, _). key \<in> set keys)) (env_resourceErrors envelope),
       env_deferred := map_option (filter (\<lambda>key. key \<in> set keys)) (env_deferred envelope)\<rparr>"

record applying =
  ap_visitId :: "jstring option"
  ap_generation :: nat

definition isCurrent :: "applying \<Rightarrow> router \<Rightarrow> bool" where
  "isCurrent ap st \<longleftrightarrow> ap_visitId ap = currentVisitId st \<and> ap_generation ap = lifecycleGeneration st"

text \<open>The three loops over the entries; each stops when the navigation is no longer current.\<close>

fun apply_resources :: "router_env \<Rightarrow> applying \<Rightarrow> wire_record jobj \<Rightarrow> router \<Rightarrow> bool \<times> router" where
  "apply_resources env ap [] st = (True, st)"
| "apply_resources env ap ((key, rec) # es) st =
     (if \<not> isCurrent ap st then (False, st)
      else
        let (updated, st1) = on_store env (store_set (re_now env) key (w_version rec) (w_value rec)) st
        in if \<not> isCurrent ap st1 then (False, st1)
           else apply_resources env ap es
             (if updated then announce_update env key (w_version rec) ''navigation'' (ap_visitId ap) st1 else st1))"

fun apply_errors :: "router_env \<Rightarrow> applying \<Rightarrow> rkey list \<Rightarrow> error_detail jobj \<Rightarrow> router \<Rightarrow> bool \<times> router" where
  "apply_errors env ap eligible [] st = (True, st)"
| "apply_errors env ap eligible ((key, err) # es) st =
     (if \<not> isCurrent ap st then (False, st)
      else apply_errors env ap eligible es
        (if key \<in> set eligible then upd_store env (setResourceError key err) st else st))"

fun apply_deferred :: "router_env \<Rightarrow> applying \<Rightarrow> rkey list \<Rightarrow> router \<Rightarrow> bool \<times> router" where
  "apply_deferred env ap [] st = (True, st)"
| "apply_deferred env ap (key # keys) st =
     (if \<not> isCurrent ap st then (False, st)
      else apply_deferred env ap keys (upd_store env (markPending [key]) st))"

text \<open>The live manager takes the page's keys; it may throw.\<close>

definition update_manifest :: "router_env \<Rightarrow> jstring \<Rightarrow> rkey list \<Rightarrow> router \<Rightarrow> error_class option \<times> router" where
  "update_manifest env url keys st =
     (case updateManifest (re_live env) url keys (rt_live st) of
        (Inl e, m) \<Rightarrow> (Some e, st\<lparr>rt_live := m\<rparr>)
      | (Inr _, m) \<Rightarrow> (None, st\<lparr>rt_live := m\<rparr>))"

definition connect_if_started :: "router_env \<Rightarrow> router \<Rightarrow> router" where
  "connect_if_started env st = (if liveStarted st then upd_live (live_connect (re_live env)) st else st)"

text \<open>The last part of \<open>applyPageEnvelope\<close>: the page, the live keys and the page cache.\<close>

definition apply_shell ::
  "router_env \<Rightarrow> applying \<Rightarrow> page_envelope \<Rightarrow> page_envelope \<Rightarrow> router \<Rightarrow> error_class option \<times> router" where
  "apply_shell env ap envelope appliedEnvelope st =
     (if \<not> isCurrent ap st then (None, st)
      else
        let st1 = upd_page env (setPage (env_page envelope)) st
        in if \<not> isCurrent ap st1 then (None, st1)
           else
             (case update_manifest env (or_root (pd_url (env_page envelope))) (absent_list (env_live envelope)) st1 of
                (Some e, st2) \<Rightarrow> (Some e, st2)
              | (None, st2) \<Rightarrow>
                  if \<not> isCurrent ap st2 then (None, st2)
                  else
                    let st3 = connect_if_started env st2
                    in if \<not> isCurrent ap st3 then (None, st3)
                       else (None, cachePageEnvelope env appliedEnvelope (ap_visitId ap) st3)))"

definition applyPageEnvelope ::
  "router_env \<Rightarrow> page_envelope \<Rightarrow> nat \<Rightarrow> router \<Rightarrow> (error_class, page_envelope) result \<times> router" where
  "applyPageEnvelope env envelope startedAtEpoch st =
     (let ap = \<lparr>ap_visitId = currentVisitId st, ap_generation = lifecycleGeneration st\<rparr>;
          eligible = eligible_keys envelope startedAtEpoch st;
          appliedEnvelope = restrict_envelope eligible envelope;
          st1 = fold bump eligible st
      in (case apply_resources env ap (env_resources appliedEnvelope) st1 of
            (False, st2) \<Rightarrow> (Inr appliedEnvelope, st2)
          | (True, st2) \<Rightarrow>
              (case apply_errors env ap eligible (absent_list (env_resourceErrors envelope)) st2 of
                 (False, st3) \<Rightarrow> (Inr appliedEnvelope, st3)
               | (True, st3) \<Rightarrow>
                   (case apply_deferred env ap (absent_list (env_deferred appliedEnvelope)) st3 of
                      (False, st4) \<Rightarrow> (Inr appliedEnvelope, st4)
                    | (True, st4) \<Rightarrow>
                        (case apply_shell env ap envelope appliedEnvelope st4 of
                           (Some e, st5) \<Rightarrow> (Inl e, st5)
                         | (None, st5) \<Rightarrow> (Inr appliedEnvelope, st5))))))"

section \<open>Visits\<close>

definition navigation_note ::
  "router_env \<Rightarrow> visit_task \<Rightarrow> string \<Rightarrow> jstring \<Rightarrow> (string \<times> jsval) list \<Rightarrow> router \<Rightarrow> router" where
  "navigation_note env vt phase url extra =
     rt_emitDiagnostic env DtNavigation
       ([(''phase'', str phase), (''url'', diagnosticUrl env url)] @ extra) (Some (vt_id vt))"

definition page_cache_note ::
  "router_env \<Rightarrow> string \<Rightarrow> string \<Rightarrow> jstring \<Rightarrow> jstring option \<Rightarrow> router \<Rightarrow> router" where
  "page_cache_note env action source url =
     rt_emitDiagnostic env DtPageCache
       [(''action'', str action), (''source'', str source), (''url'', diagnosticUrl env url)]"

text \<open>The \<open>finally\<close> block and the end of the promise.\<close>

definition visit_finish :: "visit_task \<Rightarrow> thrown option \<Rightarrow> router \<Rightarrow> router" where
  "visit_finish vt outcome st =
     settle (vt_waiter vt) outcome
       (if activeController st = Some (vt_controller vt) then st\<lparr>activeController := None\<rparr> else st)"

definition visit_cancelled :: "router_env \<Rightarrow> visit_task \<Rightarrow> router \<Rightarrow> router" where
  "visit_cancelled env vt st =
     visit_finish vt None
       (navigation_note env vt ''cancel'' (vt_url vt) [] (emit env (VisitCancel (vt_id vt) (vt_url vt)) st))"

text \<open>The \<open>catch\<close> block.\<close>

definition visit_failed :: "router_env \<Rightarrow> visit_task \<Rightarrow> thrown \<Rightarrow> router \<Rightarrow> router" where
  "visit_failed env vt err st =
     (let st1 = (if currentVisitId st = Some (vt_id vt) then connect_if_started env st else st)
      in if th_class err = AbortError \<or> vt_controller vt \<in> set (rt_aborted st1) then visit_cancelled env vt st1
         else visit_finish vt (Some err)
           (navigation_note env vt ''error'' (vt_url vt) [(''errorType'', error_type err)]
             (emit env (VisitError (vt_id vt) (vt_url vt) err) st1)))"

text \<open>The keys of the page that are missing or whose exact history is forgotten.\<close>

definition page_keys :: "page_envelope \<Rightarrow> rkey list" where
  "page_keys envelope =
     (case env_resourceKeys envelope of
        Some keys \<Rightarrow> keys
      | None \<Rightarrow> map fst (env_resources envelope) @ map fst (absent_list (env_resourceErrors envelope)) @
                absent_list (env_deferred envelope))"

definition recover_key :: "nat \<Rightarrow> page_envelope \<Rightarrow> resource_status \<Rightarrow> resource_epoch option \<Rightarrow> rkey \<Rightarrow> bool" where
  "recover_key startedAtEpoch appliedEnvelope status epoch key \<longleftrightarrow>
     key \<notin> set (absent_list (env_deferred appliedEnvelope)) \<and>
     (status = Missing \<or>
      ((case epoch of None \<Rightarrow> False | Some e \<Rightarrow> re_conservative e \<and> re_authoritativeEpoch e > startedAtEpoch) \<and>
       status \<noteq> Loading))"

fun missing_keys ::
  "router_env \<Rightarrow> nat \<Rightarrow> page_envelope \<Rightarrow> rkey list \<Rightarrow> router \<Rightarrow> rkey list \<times> router" where
  "missing_keys env startedAtEpoch appliedEnvelope [] st = ([], st)"
| "missing_keys env startedAtEpoch appliedEnvelope (key # keys) st =
     (let (snapshot, st1) = on_store env (getStateSnapshot key) st;
          (rest, st2) = missing_keys env startedAtEpoch appliedEnvelope keys st1
      in (if recover_key startedAtEpoch appliedEnvelope (s_status snapshot) (epoch_get key (resourceEpochs st1)) key
          then key # rest else rest, st2))"

definition visit_history :: "visit_task \<Rightarrow> jstring \<Rightarrow> router \<Rightarrow> router" where
  "visit_history vt url st =
     (let options = vt_options vt;
          st1 = (if vo_preserveState options then st
                 else st\<lparr>rt_history := (if vo_replace options then history_replace else history_push) url
                                        (rt_history st)\<rparr>)
      in if \<not> vo_preserveScroll options \<and> hm_isBrowser (rt_history st1)
         then st1\<lparr>rt_scrolls := rt_scrolls st1 + 1\<rparr> else st1)"

text \<open>After the page is shown: its deferred keys, then what it misses.\<close>

definition visit_followup :: "router_env \<Rightarrow> visit_task \<Rightarrow> page_envelope \<Rightarrow> page_envelope \<Rightarrow> router \<Rightarrow> router" where
  "visit_followup env vt envelope appliedEnvelope st =
     (let url = url_or (pd_url (env_page envelope)) (vt_url vt) in
      (case startDeferredEnvelope env appliedEnvelope st of
         (True, st1) \<Rightarrow> visit_failed env vt (thrown_of TypeError) st1
       | (False, st1) \<Rightarrow>
           let (missing, st2) = missing_keys env (vt_startedAtEpoch vt) appliedEnvelope (page_keys envelope) st1
           in visit_finish vt None
                (if currentVisitId st2 = Some (vt_id vt) \<and> missing \<noteq> []
                 then loadResources env missing (Some url) ReasonRefresh None None WNone st2 else st2)))"

definition visit_arrived :: "router_env \<Rightarrow> visit_task \<Rightarrow> page_envelope \<Rightarrow> router \<Rightarrow> router" where
  "visit_arrived env vt envelope st =
     (if currentVisitId st \<noteq> Some (vt_id vt) then visit_cancelled env vt st
      else
        (case applyPageEnvelope env envelope (vt_startedAtEpoch vt) st of
           (Inl e, st1) \<Rightarrow> visit_failed env vt (thrown_of e) st1
         | (Inr appliedEnvelope, st1) \<Rightarrow>
             if currentVisitId st1 \<noteq> Some (vt_id vt) then visit_finish vt None st1
             else
               let url = url_or (pd_url (env_page envelope)) (vt_url vt);
                   st2 = visit_history vt url st1;
                   st3 = emit env (VisitSuccess (vt_id vt) url (pd_component (env_page envelope))) st2;
                   st4 = navigation_note env vt ''success'' url
                           [(''component'', dtext (pd_component (env_page envelope)))] st3
               in if currentVisitId st4 \<noteq> Some (vt_id vt) then visit_finish vt None st4
                  else visit_followup env vt envelope appliedEnvelope st4))"

text \<open>No prefetched page: the transport is asked.\<close>

definition visit_ask :: "router_env \<Rightarrow> visit_task \<Rightarrow> router \<Rightarrow> router" where
  "visit_ask env vt st =
     add_task (TVisitTransport vt)
       (page_cache_note env ''miss'' ''navigation'' (vt_url vt) (Some (vt_id vt))
         (emit env (CacheMiss (vt_url vt)) st))"

text \<open>The pending prefetch the visit waited for is settled; \<open>Inr None\<close> says that there was none.\<close>

definition visit_pending ::
  "router_env \<Rightarrow> visit_task \<Rightarrow> (thrown, page_envelope option) result \<Rightarrow> router \<Rightarrow> router" where
  "visit_pending env vt answer st =
     (case answer of
        Inl err \<Rightarrow> visit_failed env vt err st
      | Inr None \<Rightarrow> visit_ask env vt st
      | Inr (Some envelope) \<Rightarrow>
          visit_arrived env vt envelope
            (page_cache_note env ''hit'' ''navigation-pending-prefetch'' (vt_url vt) (Some (vt_id vt)) st))"

definition visit_answer :: "router_env \<Rightarrow> visit_task \<Rightarrow> (thrown, page_envelope) result \<Rightarrow> router \<Rightarrow> router" where
  "visit_answer env vt answer st =
     (case answer of Inl err \<Rightarrow> visit_failed env vt err st | Inr envelope \<Rightarrow> visit_arrived env vt envelope st)"

text \<open>The \<open>try\<close> block up to the first wait.\<close>

definition visit_lookup :: "router_env \<Rightarrow> visit_task \<Rightarrow> router \<Rightarrow> router" where
  "visit_lookup env vt st =
     (let url = vt_url vt; knownVersions = vt_known vt in
      if vo_usePrefetch (vt_options vt) \<and> absent_list (vo_only (vt_options vt)) = [] then
        (case prefetch_getCached (int (re_now env)) url knownVersions (rt_prefetch st) of
           (Some envelope, pm) \<Rightarrow>
             visit_arrived env vt envelope
               (page_cache_note env ''hit'' ''navigation-prefetch'' url (Some (vt_id vt))
                 (emit env (CacheHit url) (st\<lparr>rt_prefetch := pm\<rparr>)))
         | (None, pm) \<Rightarrow>
             add_task (TVisitPending vt (prefetch_getPending (re_localeLe env) url knownVersions pm))
               (st\<lparr>rt_prefetch := pm\<rparr>))
      else visit_ask env vt st)"

definition interrupt_live :: "router_env \<Rightarrow> router \<Rightarrow> router" where
  "interrupt_live env st =
     (if liveStarted st then upd_live (live_disconnect (re_live env)) (supersedeLiveWork env st) else st)"

definition visit :: "router_env \<Rightarrow> jstring \<Rightarrow> visit_options \<Rightarrow> waiter \<Rightarrow> router \<Rightarrow> router" where
  "visit env url options w st =
     (let n = visitCounter st + 1;
          visitId = stamped env ''visit'' n
      in (case abortActiveDeferred env (st\<lparr>visitCounter := n\<rparr>) of
            (True, st1) \<Rightarrow> settle w (Some (thrown_of TypeError)) st1
          | (False, st1) \<Rightarrow>
              let st2 = interrupt_live env (abortActiveVisit st1);
                  st3 = (cancelPendingLiveRefresh st2)\<lparr>currentVisitId := Some visitId\<rparr>;
                  startedAtEpoch = resourceEpochCounter st3;
                  (controller, st4) = new_controller st3;
                  st5 = emit env (VisitStart visitId url) (st4\<lparr>activeController := Some controller\<rparr>);
                  only = absent_list (vo_only options);
                  st6 = rt_emitDiagnostic env DtNavigation
                          [(''phase'', str ''start''), (''url'', diagnosticUrl env url),
                           (''requestedResourceCount'', num (length only)), (''partial'', JBool (only \<noteq> []))]
                          (Some visitId) st5
              in visit_lookup env \<lparr>vt_id = visitId, vt_url = url, vt_options = options,
                   vt_startedAtEpoch = startedAtEpoch, vt_controller = controller,
                   vt_known = exportKnown (rt_store st6), vt_waiter = w\<rparr> st6))"

definition default_visit :: visit_options where
  "default_visit = \<lparr>vo_replace = False, vo_preserveScroll = False, vo_preserveState = False,
     vo_usePrefetch = True, vo_only = None\<rparr>"

definition refresh :: "router_env \<Rightarrow> rkey list option \<Rightarrow> router \<Rightarrow> router" where
  "refresh env only st =
     (let currentUrl = current_url st in
      if absent_list only \<noteq> []
      then loadResources env (absent_list only) (Some currentUrl) ReasonRefresh None None WNone st
      else visit env currentUrl
             (default_visit\<lparr>vo_preserveState := True, vo_preserveScroll := True, vo_usePrefetch := False\<rparr>) WNone st)"

section \<open>Browser history\<close>

definition cached_descriptor :: "cached_page \<Rightarrow> page_descriptor" where
  "cached_descriptor cp =
     \<lparr>pd_component = cp_component cp, pd_url = cp_url cp, pd_meta = Some (cp_meta cp)\<rparr>"

text \<open>The cached page is restored: the navigation it starts supersedes what is under way.\<close>

definition restore_page :: "router_env \<Rightarrow> jstring \<Rightarrow> cached_page \<Rightarrow> router \<Rightarrow> router" where
  "restore_page env url cached st =
     (let st1 = cancelPendingLiveRefresh (interrupt_live env (st\<lparr>visitCounter := visitCounter st + 1\<rparr>)) in
      (case abortActiveDeferred env st1 of
         (True, st2) \<Rightarrow> st2
       | (False, st2) \<Rightarrow>
           let pageUrl = url_or (cp_url cached) url;
               st3 = fold (\<lambda>key. upd_store env (markPending [key])) (cp_pendingDeferred cached) (abortActiveVisit st2);
               st4 = upd_page env (setPage (cached_descriptor cached)) st3
           in (case update_manifest env pageUrl (cp_liveKeys cached) st4 of
                 (Some _, st5) \<Rightarrow> st5
               | (None, st5) \<Rightarrow>
                   let st6 = page_cache_note env ''hit'' ''history'' url None
                               (emit env (CacheHit url) (connect_if_started env st5))
                   in if cp_pendingDeferred cached \<noteq> []
                      then snd (startDeferredBatch env (cp_pendingDeferred cached) pageUrl st6) else st6)))"

definition popstate :: "router_env \<Rightarrow> jstring \<Rightarrow> router \<Rightarrow> router" where
  "popstate env url st =
     (let (cached, c, s) = getValid url (rt_cache st) (rt_store st);
          st1 = st\<lparr>rt_cache := c, rt_store := s\<rparr>
      in (case cached of
            Some cp \<Rightarrow> restore_page env url cp st1
          | None \<Rightarrow>
              visit env url (default_visit\<lparr>vo_preserveState := True, vo_replace := True, vo_usePrefetch := False\<rparr>) WNone
                (page_cache_note env ''miss'' ''history'' url None (emit env (CacheMiss url) st1))))"

text \<open>The number under which the router's own callback is registered with the history.\<close>

definition router_callback :: callback where
  "router_callback = 0"

definition startHistory :: "router \<Rightarrow> router" where
  "startHistory st =
     (if historyStarted st then st
      else st\<lparr>historyStarted := True, rt_history := onPopState router_callback (rt_history st)\<rparr>)"

definition stopHistory :: "router \<Rightarrow> router" where
  "stopHistory st =
     (if historyStarted st
      then st\<lparr>historyStarted := False, rt_history := stopPopState router_callback (rt_history st)\<rparr>
      else st)"

section \<open>Live streams\<close>

definition startLive :: "router_env \<Rightarrow> router \<Rightarrow> router" where
  "startLive env st =
     rt_emitDiagnostic env DtLifecycle [(''phase'', str ''live-start'')] None
       (upd_live (live_connect (re_live env)) (st\<lparr>liveStarted := True\<rparr>))"

definition stopLive :: "router_env \<Rightarrow> router \<Rightarrow> router" where
  "stopLive env st =
     rt_emitDiagnostic env DtLifecycle [(''phase'', str ''live-stop'')] None
       (upd_live (live_disconnect (re_live env))
         (cancelPendingLiveRefresh (supersedeLiveWork env (st\<lparr>liveStarted := False\<rparr>))))"

end
