(* ===== verification/Router_Ops.thy ===== *)
theory Router_Ops
  imports Router_Visit
begin

text \<open>
  The other operations of \<open>FluxRouter\<close>: prefetching, mutations, the reactions to live events, the
  life cycle and the constructor, and the dispatch of the waiting tasks.
\<close>

section \<open>Prefetching\<close>

definition prefetch_note ::
  "router_env \<Rightarrow> prefetch_task \<Rightarrow> string \<Rightarrow> (string \<times> jsval) list \<Rightarrow> router \<Rightarrow> router" where
  "prefetch_note env pt phase extra =
     rt_emitDiagnostic env DtPrefetch
       ([(''phase'', str phase), (''url'', diagnosticUrl env (pt_url pt))] @ extra) (pt_id pt)"

text \<open>\<open>ttl\<close> is the manager's default time to live.\<close>

definition rt_prefetch_start :: "router_env \<Rightarrow> int \<Rightarrow> jstring \<Rightarrow> router \<Rightarrow> router" where
  "rt_prefetch_start env ttl url st =
     (let gen = lifecycleGeneration st;
          (prefetchId, st1) = nextDiagnosticOperationId env ''prefetch'' st;
          st2 = emit env (PrefetchStart url) st1;
          st3 = rt_emitDiagnostic env DtPrefetch
                  [(''phase'', str ''start''), (''url'', diagnosticUrl env url)] prefetchId st2;
          knownVersions = exportKnown (rt_store st3);
          (outcome, pm) = prefetch_fetch (re_localeLe env) (int (re_now env)) url knownVersions ttl (rt_prefetch st3);
          st4 = st3\<lparr>rt_prefetch := pm,
                    rt_requests := (case outcome of FetchStarted rq \<Rightarrow> rt_requests st3 @ [rq] | _ \<Rightarrow> rt_requests st3)\<rparr>
      in add_task (TPrefetch \<lparr>pt_url = url, pt_id = prefetchId, pt_known = knownVersions,
           pt_startedAtEpoch = resourceEpochCounter st3, pt_generation = gen\<rparr> outcome) st4)"

text \<open>The transport answers a request of the prefetch manager, whose promise is then settled.\<close>

definition prefetch_settles ::
  "router_env \<Rightarrow> prefetch_request \<Rightarrow> (thrown, page_envelope) result \<Rightarrow> router \<Rightarrow> router" where
  "prefetch_settles env rq answer st =
     (let (outcome, pm) =
            (case answer of
               Inl err \<Rightarrow> (Inl err, rt_prefetch st)
             | Inr envelope \<Rightarrow>
                 (case prefetch_accept (int (re_now env)) rq envelope (rt_prefetch st) of
                    (Inl e, pm1) \<Rightarrow> (Inl (thrown_of e), pm1)
                  | (Inr envelope1, pm1) \<Rightarrow> (Inr envelope1, pm1)))
      in st\<lparr>rt_prefetch := prefetch_finally rq pm, rt_requests := removeAll rq (rt_requests st),
           rt_settled := (rq_id rq, outcome) # rt_settled st\<rparr>)"

definition epoch_or_zero :: "router \<Rightarrow> rkey \<Rightarrow> nat" where
  "epoch_or_zero st key = (case epoch_of st key of None \<Rightarrow> 0 | Some e \<Rightarrow> e)"

text \<open>The loop over the safe resources; the flag says that the method returned in it.\<close>

fun prefetch_writes :: "router_env \<Rightarrow> prefetch_task \<Rightarrow> wire_record jobj \<Rightarrow> router \<Rightarrow> bool \<times> router" where
  "prefetch_writes env pt [] st = (False, st)"
| "prefetch_writes env pt ((key, rec) # es) st =
     (if pt_generation pt \<noteq> lifecycleGeneration st then (True, st)
      else
        let (updated, st1) = on_store env (store_set (re_now env) key (w_version rec) (w_value rec)) st
        in if pt_generation pt \<noteq> lifecycleGeneration st1 then (True, st1)
           else prefetch_writes env pt es
             (if updated then announce_update env key (w_version rec) ''prefetch'' (pt_id pt) st1 else st1))"

definition safe_resources :: "prefetch_task \<Rightarrow> page_envelope \<Rightarrow> router \<Rightarrow> wire_record jobj" where
  "safe_resources pt envelope st =
     filter (\<lambda>(key, _). epoch_or_zero st key \<le> pt_startedAtEpoch pt) (env_resources envelope)"

definition prefetch_page_keys :: "prefetch_task \<Rightarrow> page_envelope \<Rightarrow> rkey list" where
  "prefetch_page_keys pt envelope =
     (case env_resourceKeys envelope of
        Some keys \<Rightarrow> keys
      | None \<Rightarrow> map fst (pt_known pt) @ map fst (env_resources envelope))"

definition prefetch_arrived :: "router_env \<Rightarrow> prefetch_task \<Rightarrow> page_envelope \<Rightarrow> router \<Rightarrow> router" where
  "prefetch_arrived env pt envelope st =
     (if pt_generation pt \<noteq> lifecycleGeneration st then st
      else
        let safe = safe_resources pt envelope st;
            race = list_ex (\<lambda>key. epoch_or_zero st key > pt_startedAtEpoch pt) (prefetch_page_keys pt envelope);
            st1 = fold (\<lambda>(key, _) s. snd (bumpResourceEpoch key True s)) safe st
        in (case prefetch_writes env pt safe st1 of
              (True, st2) \<Rightarrow> st2
            | (False, st2) \<Rightarrow>
                if pt_generation pt \<noteq> lifecycleGeneration st2 then st2
                else
                  let st3 = (if \<not> race then cachePageEnvelope env envelope (pt_id pt) st2
                             else st2\<lparr>rt_prefetch := rejectPrefetchEnvelope envelope (rt_prefetch st2)\<rparr>);
                      st4 = emit env (PrefetchSuccess (pt_url pt)) st3
                  in prefetch_note env pt ''success''
                       [(''resourceCount'', num (length (env_resources envelope))), (''cacheable'', JBool (\<not> race))] st4))"

definition prefetch_resumed ::
  "router_env \<Rightarrow> prefetch_task \<Rightarrow> (thrown, page_envelope) result \<Rightarrow> router \<Rightarrow> router" where
  "prefetch_resumed env pt answer st =
     (case answer of
        Inl err \<Rightarrow> prefetch_note env pt ''error'' [(''errorType'', error_type err)] st
      | Inr envelope \<Rightarrow> prefetch_arrived env pt envelope st)"

section \<open>Mutations\<close>

definition mutation_note ::
  "router_env \<Rightarrow> mutation_task \<Rightarrow> string \<Rightarrow> (string \<times> jsval) list \<Rightarrow> router \<Rightarrow> router" where
  "mutation_note env mu phase extra =
     rt_emitDiagnostic env DtMutation
       ([(''phase'', str phase), (''url'', diagnosticUrl env (mu_url mu)),
         (''method'', JStr (diagnosticText (mu_method mu) 32))] @ extra) (mu_id mu)"

definition rt_mutate ::
  "router_env \<Rightarrow> jstring \<Rightarrow> jstring option \<Rightarrow> bool \<Rightarrow> router \<Rightarrow> router" where
  "rt_mutate env url methodOption preserveScroll st =
     (let gen = lifecycleGeneration st; counter = visitCounter st;
          (mutationId, st1) = nextDiagnosticOperationId env ''mutation'' st;
          mu = \<lparr>mu_url = url, mu_method = (case methodOption of None \<Rightarrow> js ''POST'' | Some m \<Rightarrow> m),
                mu_preserveScroll = preserveScroll, mu_generation = gen, mu_visitCounter = counter, mu_id = mutationId\<rparr>
      in add_task (TMutate mu) (mutation_note env mu ''start'' [] (emit env (MutationStart url) st1)))"

text \<open>\<open>resourceStore.patch\<close>; \<open>None\<close> says that it threw.\<close>

definition patch_resource :: "router_env \<Rightarrow> rkey \<Rightarrow> patch list \<Rightarrow> router \<Rightarrow> bool option \<times> router" where
  "patch_resource env key patches st =
     on_store env
       (\<lambda>s. case store_patch (re_now env) (base36 (re_now env)) (rt_next st) key patches s of
              None \<Rightarrow> (None, s) | Some (patched, s1) \<Rightarrow> (Some patched, s1))
       (st\<lparr>rt_next := Suc (rt_next st)\<rparr>)"

definition current_version :: "router_env \<Rightarrow> rkey \<Rightarrow> router \<Rightarrow> jstring \<times> router" where
  "current_version env key st =
     (let (rec, st1) = on_store env (getRecord key) st
      in (case rec of None \<Rightarrow> [] | Some r \<Rightarrow> r_version r, st1))"

definition announce_current ::
  "router_env \<Rightarrow> rkey \<Rightarrow> string \<Rightarrow> jstring option \<Rightarrow> router \<Rightarrow> router" where
  "announce_current env key source correlationId st =
     (let (version, st1) = current_version env key st
      in announce_update env key version source correlationId st1)"

definition invalidate_note ::
  "router_env \<Rightarrow> rkey \<Rightarrow> string \<Rightarrow> (string \<times> jsval) list \<Rightarrow> jstring option \<Rightarrow> router \<Rightarrow> router" where
  "invalidate_note env key source extra =
     rt_emitDiagnostic env DtResourceInvalidate ([(''key'', dtext key), (''source'', str source)] @ extra)"

text \<open>The loop over the patches; the flag says that it threw.\<close>

fun mutation_patches :: "router_env \<Rightarrow> mutation_task \<Rightarrow> patch list jobj \<Rightarrow> router \<Rightarrow> bool \<times> router" where
  "mutation_patches env mu [] st = (False, st)"
| "mutation_patches env mu ((key, patches) # es) st =
     (case patch_resource env key patches (bump key st) of
        (None, st1) \<Rightarrow> (True, st1)
      | (Some True, st1) \<Rightarrow> mutation_patches env mu es (announce_current env key ''mutation'' (mu_id mu) st1)
      | (Some False, st1) \<Rightarrow>
          mutation_patches env mu es
            (invalidate_note env key ''mutation-patch-miss'' [] (mu_id mu) (upd_store env (invalidate key) st1)))"

text \<open>The loop over the invalidations collects the keys that are in use.\<close>

fun mutation_invalidations :: "router_env \<Rightarrow> mutation_task \<Rightarrow> rkey list \<Rightarrow> router \<Rightarrow> rkey list \<times> router" where
  "mutation_invalidations env mu [] st = ([], st)"
| "mutation_invalidations env mu (key # keys) st =
     (let st1 = bump key st;
          used = hasSubscribers key (rt_store st1);
          st2 = upd_store env ((if used then markStale else invalidate) key) st1;
          st3 = emit env (ResourceInvalidate key) st2;
          st4 = invalidate_note env key ''mutation''
                  [(''subscribed'', JBool (hasSubscribers key (rt_store st3)))] (mu_id mu) st3;
          (active, st5) = mutation_invalidations env mu keys st4
      in (if used then key # active else active, st5))"

definition truthy_text :: "jstring option \<Rightarrow> bool" where
  "truthy_text s \<longleftrightarrow> (case s of None \<Rightarrow> False | Some t \<Rightarrow> t \<noteq> [])"

definition mutation_success :: "router_env \<Rightarrow> mutation_task \<Rightarrow> mutation_payload \<Rightarrow> router \<Rightarrow> router" where
  "mutation_success env mu payload st =
     mutation_note env mu ''success''
       [(''patchResourceCount'', num (length (absent_list (mp_patches payload)))),
        (''invalidationCount'', num (length (absent_list (mp_invalidate payload)))),
        (''redirect'', str (if truthy_text (mp_externalRedirect payload) then ''external''
                            else if truthy_text (mp_redirect payload) then ''internal'' else ''none''))]
       (emit env (MutationSuccess (mu_url mu)) st)"

definition mutation_failed :: "router_env \<Rightarrow> mutation_task \<Rightarrow> thrown \<Rightarrow> router \<Rightarrow> router" where
  "mutation_failed env mu err st =
     (if mu_generation mu \<noteq> lifecycleGeneration st then st
      else mutation_note env mu ''error'' [(''errorType'', error_type err)]
             (emit env (MutationErrorEvent (mu_url mu) err) st))"

definition hard_navigate :: "jstring \<Rightarrow> router \<Rightarrow> router" where
  "hard_navigate url st = st\<lparr>rt_navigations := rt_navigations st @ [url]\<rparr>"

text \<open>What follows the loops: a redirect unless a newer navigation began, or the refresh of the keys in use.\<close>

definition mutation_follow ::
  "router_env \<Rightarrow> mutation_task \<Rightarrow> mutation_payload \<Rightarrow> rkey list \<Rightarrow> router \<Rightarrow> router" where
  "mutation_follow env mu payload active st =
     (let canRedirect = (mu_visitCounter mu = visitCounter st) in
      if canRedirect \<and> truthy_text (mp_externalRedirect payload)
      then mutation_success env mu payload (hard_navigate (the (mp_externalRedirect payload)) st)
      else if canRedirect \<and> truthy_text (mp_redirect payload)
      then visit env (the (mp_redirect payload)) (default_visit\<lparr>vo_preserveScroll := mu_preserveScroll mu\<rparr>)
             (WRedirect mu payload) st
      else if active \<noteq> []
      then loadResources env active (Some (current_url st)) ReasonMutation None (mu_id mu) (WRefresh mu payload) st
      else mutation_success env mu payload st)"

definition mutation_applied :: "router_env \<Rightarrow> mutation_task \<Rightarrow> mutation_payload \<Rightarrow> router \<Rightarrow> router" where
  "mutation_applied env mu payload st =
     (if mu_generation mu \<noteq> lifecycleGeneration st then st
      else
        (case mutation_patches env mu (absent_list (mp_patches payload)) st of
           (True, st1) \<Rightarrow> mutation_failed env mu (thrown_of TypeError) st1
         | (False, st1) \<Rightarrow>
             let (active, st2) = mutation_invalidations env mu (absent_list (mp_invalidate payload)) st1
             in mutation_follow env mu payload active st2))"

definition mutation_answer ::
  "router_env \<Rightarrow> mutation_task \<Rightarrow> (thrown, mutation_payload) result \<Rightarrow> router \<Rightarrow> router" where
  "mutation_answer env mu answer st =
     (case answer of Inl err \<Rightarrow> mutation_failed env mu err st | Inr payload \<Rightarrow> mutation_applied env mu payload st)"

text \<open>Whoever awaited a visit or a load goes on.\<close>

definition resume_waiter :: "router_env \<Rightarrow> waiter \<Rightarrow> thrown option \<Rightarrow> router \<Rightarrow> router" where
  "resume_waiter env w outcome st =
     (case w of
        WNone \<Rightarrow> st
      | WDeferred dw \<Rightarrow> deferred_done env dw outcome st
      | WRedirect mu payload \<Rightarrow>
          (case outcome of
             None \<Rightarrow> mutation_success env mu payload st
           | Some err \<Rightarrow>
               if th_class err = TransportError (Some 404)
               then mutation_success env mu payload (hard_navigate (the (mp_redirect payload)) st)
               else mutation_failed env mu err st)
      | WRefresh mu payload \<Rightarrow>
          (case outcome of
             None \<Rightarrow> mutation_success env mu payload st
           | Some err \<Rightarrow> mutation_failed env mu err st))"

section \<open>Live events\<close>

definition live_keys_of :: "router \<Rightarrow> rkey list" where
  "live_keys_of st = (case lm_manifest (rt_live st) of None \<Rightarrow> [] | Some mf \<Rightarrow> mf_keys mf)"

definition add_correlation :: "jstring option \<Rightarrow> router \<Rightarrow> router" where
  "add_correlation correlationId st =
     (case correlationId of
        None \<Rightarrow> st
      | Some i \<Rightarrow> st\<lparr>liveRefreshCorrelations := Some (jset_add i (absent_list (liveRefreshCorrelations st)))\<rparr>)"

definition queueLiveRefresh :: "rkey list \<Rightarrow> load_reason \<Rightarrow> jstring option \<Rightarrow> router \<Rightarrow> router" where
  "queueLiveRefresh keys reason correlationId st =
     (let st1 = st\<lparr>pendingLiveRefreshKeys := fold jset_add keys (pendingLiveRefreshKeys st)\<rparr> in
      if keys = [] then st1
      else
        let st2 = add_correlation correlationId st1;
            st3 = (if reason = ReasonLiveReconnect then st2\<lparr>pendingLiveRefreshReason := reason\<rparr> else st2)
        in if liveRefreshTimer st3 \<noteq> None then st3
           else st3\<lparr>liveRefreshTimer := Some (rt_next st3), rt_next := Suc (rt_next st3)\<rparr>)"

text \<open>The timer's callback; a cleared timer does not fire.\<close>

definition live_refresh_fires :: "router_env \<Rightarrow> nat \<Rightarrow> router \<Rightarrow> router" where
  "live_refresh_fires env t st =
     (if liveRefreshTimer st \<noteq> Some t then st
      else
        let manifest = lm_manifest (rt_live st);
            pending = sort (filter (\<lambda>key. key \<in> set (live_keys_of st)) (pendingLiveRefreshKeys st));
            reason = pendingLiveRefreshReason st;
            correlation = (case liveRefreshCorrelations st of Some [i] \<Rightarrow> Some i | _ \<Rightarrow> None);
            st1 = st\<lparr>liveRefreshTimer := None, pendingLiveRefreshKeys := [], liveRefreshCorrelations := None,
                    pendingLiveRefreshReason := ReasonLive\<rparr>
        in (case manifest of
              None \<Rightarrow> st1
            | Some mf \<Rightarrow>
                if pending = [] \<or> \<not> liveStarted st1 then st1
                else loadResources env pending (Some (mf_url mf)) reason None correlation WNone st1))"

definition live_event_text :: "event_type \<Rightarrow> string" where
  "live_event_text ty =
     (case ty of EvReady \<Rightarrow> ''ready'' | EvInvalidate \<Rightarrow> ''invalidate'' | EvPatch \<Rightarrow> ''patch'' | EvResync \<Rightarrow> ''resync'')"

definition resync_text :: "resync_reason \<Rightarrow> string" where
  "resync_text r =
     (case r of Overflow \<Rightarrow> ''overflow'' | ReconnectReason \<Rightarrow> ''reconnect'' | BrokerRecovery \<Rightarrow> ''broker-recovery''
      | ServerReason \<Rightarrow> ''server'')"

definition live_note_of ::
  "router_env \<Rightarrow> event_type \<Rightarrow> nat \<Rightarrow> (string \<times> jsval) list \<Rightarrow> jstring option \<Rightarrow> router \<Rightarrow> router" where
  "live_note_of env ty keyCount extra =
     rt_emitDiagnostic env DtLive
       ([(''phase'', str ''event''), (''eventType'', str (live_event_text ty)), (''keyCount'', num keyCount)] @ extra)"

definition event_origin :: "live_event \<Rightarrow> jstring option" where
  "event_origin event =
     (case event of LiveInvalidate _ origin \<Rightarrow> origin | LivePatch _ origin \<Rightarrow> origin | _ \<Rightarrow> None)"

definition self_originated :: "live_event \<Rightarrow> router \<Rightarrow> bool" where
  "self_originated event st \<longleftrightarrow> event_origin event = Some (lm_clientId (rt_live st))"

definition announce_live :: "router_env \<Rightarrow> live_event \<Rightarrow> jstring option \<Rightarrow> router \<Rightarrow> router" where
  "announce_live env event correlationId st =
     (let self = [(''selfOriginated'', JBool (self_originated event st))] in
      case event of
        LiveReady _ \<Rightarrow> st
      | LiveInvalidate keys _ \<Rightarrow>
          live_note_of env EvInvalidate (length keys) self correlationId (emit env (LiveInvalidated (length keys)) st)
      | LivePatch patches _ \<Rightarrow>
          live_note_of env EvPatch (length patches) self correlationId (emit env (LivePatched (length patches)) st)
      | LiveResync keys reason \<Rightarrow>
          live_note_of env EvResync (length keys) [(''reason'', str (resync_text reason))] correlationId
            (emit env (LiveResynced (length keys) reason) st))"

text \<open>The loop over the patches of a live event; the flag says that it threw.\<close>

fun live_patches :: "router_env \<Rightarrow> patch list jobj \<Rightarrow> jstring option \<Rightarrow> router \<Rightarrow> bool \<times> router" where
  "live_patches env [] correlationId st = (False, st)"
| "live_patches env ((key, patches) # es) correlationId st =
     (case patch_resource env key patches (bump key st) of
        (None, st1) \<Rightarrow> (True, st1)
      | (Some True, st1) \<Rightarrow> live_patches env es correlationId (announce_current env key ''live'' correlationId st1)
      | (Some False, st1) \<Rightarrow> live_patches env es correlationId st1)"

definition live_stale :: "router_env \<Rightarrow> string \<Rightarrow> jstring option \<Rightarrow> rkey \<Rightarrow> router \<Rightarrow> router" where
  "live_stale env source correlationId key st =
     invalidate_note env key source [] correlationId
       (emit env (ResourceInvalidate key) (upd_store env (markStale key) (bump key st)))"

definition live_invalidate ::
  "router_env \<Rightarrow> rkey list \<Rightarrow> event_type \<Rightarrow> load_reason \<Rightarrow> jstring option \<Rightarrow> router \<Rightarrow> router" where
  "live_invalidate env eventKeys ty reason correlationId st =
     (let keys = filter (\<lambda>key. key \<in> set (live_keys_of st)) eventKeys in
      if keys = [] then st
      else queueLiveRefresh keys reason correlationId
             (fold (live_stale env (live_event_text ty) correlationId) keys st))"

definition handleLiveEvent :: "router_env \<Rightarrow> live_event \<Rightarrow> router \<Rightarrow> bool \<times> router" where
  "handleLiveEvent env event st =
     (let (liveCorrelationId, st1) = nextDiagnosticOperationId env ''live'' st;
          st2 = announce_live env event liveCorrelationId st1
      in if self_originated event st2 then (False, st2)
         else
           (case event of
              LiveReady _ \<Rightarrow> (False, st2)
            | LivePatch patches _ \<Rightarrow>
                let active = filter (\<lambda>(key, _). key \<in> set (live_keys_of st2)) patches
                in (case live_patches env active liveCorrelationId st2 of
                      (True, st3) \<Rightarrow> (True, st3)
                    | (False, st3) \<Rightarrow> (False, queueLiveRefresh (map fst active) ReasonLive liveCorrelationId st3))
            | LiveInvalidate keys _ \<Rightarrow> (False, live_invalidate env keys EvInvalidate ReasonLive liveCorrelationId st2)
            | LiveResync keys _ \<Rightarrow> (False, live_invalidate env keys EvResync ReasonLiveReconnect liveCorrelationId st2)))"

definition close_text :: "close_reason \<Rightarrow> string" where
  "close_text r =
     (case r of CloseLifecycle \<Rightarrow> ''lifecycle'' | CloseStreamEnd \<Rightarrow> ''stream-end'' | CloseError \<Rightarrow> ''error''
      | CloseOffline \<Rightarrow> ''offline'')"

text \<open>The payload of the diagnostic, without the error type, and the event that follows it.\<close>

definition live_diagnostic_data :: "live_diagnostic \<Rightarrow> (string \<times> jsval) list" where
  "live_diagnostic_data d =
     (let attempt = (\<lambda>phase k a. [(''phase'', str phase), (''keyCount'', num k), (''reconnectAttempt'', num a)]) in
      case d of
        DConnectStart k a \<Rightarrow> attempt ''connect:start'' k a
      | DConnectOpen k a \<Rightarrow> attempt ''connect:open'' k a
      | DReconnect k a \<Rightarrow> attempt ''reconnect'' k a
      | DConnectClose k a r w \<Rightarrow>
          attempt ''connect:close'' k a @ [(''reason'', str (close_text r)), (''willReconnect'', JBool w)]
      | DConnectError k a \<Rightarrow> attempt ''connect:error'' k a
      | DEvent ty k \<Rightarrow> [(''phase'', str ''event''), (''keyCount'', num k), (''eventType'', str (live_event_text ty))])"

definition live_diagnostic_event :: "live_diagnostic \<Rightarrow> flux_event" where
  "live_diagnostic_event d =
     (case d of
        DConnectStart k a \<Rightarrow> LiveConnectStart k a
      | DConnectOpen k a \<Rightarrow> LiveConnectOpen k a
      | DReconnect k a \<Rightarrow> LiveReconnect k a
      | DConnectClose k a r w \<Rightarrow> LiveConnectClose k a r w
      | DConnectError k a \<Rightarrow> LiveConnectError k a
      | DEvent ty k \<Rightarrow> LiveEventSeen ty k)"

definition handleLiveDiagnostic :: "router_env \<Rightarrow> live_diagnostic \<Rightarrow> router \<Rightarrow> router" where
  "handleLiveDiagnostic env d st =
     (let (liveCorrelationId, st1) = nextDiagnosticOperationId env ''live'' st;
          routerEmitsDetailedEvent = (case d of DEvent ty _ \<Rightarrow> ty \<noteq> EvReady | _ \<Rightarrow> False);
          st2 = (if routerEmitsDetailedEvent then st1
                 else rt_emitDiagnostic env DtLive (live_diagnostic_data d) liveCorrelationId st1)
      in emit env (live_diagnostic_event d) st2)"

section \<open>Life cycle\<close>

text \<open>The common beginning of \<open>clear\<close> and \<open>destroy\<close>; the flag says that it threw.\<close>

definition end_generation :: "router_env \<Rightarrow> router \<Rightarrow> bool \<times> router" where
  "end_generation env st =
     (case abortActiveDeferred env (st\<lparr>lifecycleGeneration := lifecycleGeneration st + 1\<rparr>) of
        (True, st1) \<Rightarrow> (True, st1)
      | (False, st1) \<Rightarrow>
          (False, cancelPendingLiveRefresh
                    (supersedeLiveWork env ((abortActiveVisit st1)\<lparr>liveStarted := False\<rparr>))))"

definition clear :: "router_env \<Rightarrow> router \<Rightarrow> bool \<times> router" where
  "clear env st =
     (case end_generation env st of
        (True, st1) \<Rightarrow> (True, st1)
      | (False, st1) \<Rightarrow>
          let st2 = upd_store env store_clear (upd_live (live_clear (re_live env)) st1);
              st3 = upd_page env page_clear st2;
              st4 = st3\<lparr>rt_cache := cache_clear (rt_cache st3), rt_prefetch := prefetch_clear (rt_prefetch st3),
                       resourceEpochs := epoch_clear (resourceEpochs st3)\<rparr>
          in (False, rt_emitDiagnostic env DtLifecycle [(''phase'', str ''clear'')] None st4))"

definition destroy :: "router_env \<Rightarrow> router \<Rightarrow> bool \<times> router" where
  "destroy env st =
     (case end_generation env st of
        (True, st1) \<Rightarrow> (True, st1)
      | (False, st1) \<Rightarrow>
          let st2 = upd_live (\<lambda>m. live_destroy (re_live env)
                      (live_unsubscribeDiagnostics router_callback (live_unsubscribeEvents router_callback m))) st1;
              st3 = stopHistory (st2\<lparr>rt_prefetch := prefetch_clear (rt_prefetch st2)\<rparr>);
              st4 = st3\<lparr>rt_history := history_destroy (rt_history st3),
                       rt_emitter := emitter_removeAll (rt_emitter st3),
                       resourceEpochs := epoch_clear (resourceEpochs st3)\<rparr>;
              st5 = rt_emitDiagnostic env DtLifecycle [(''phase'', str ''destroy'')] None st4
          in (False, st5\<lparr>rt_hub := hub_removeAllListeners (rt_hub st5)\<rparr>))"

section \<open>The constructor\<close>

record router_options =
  ro_resourceStore :: "store option"
  ro_pageStore :: "page_store option"
  ro_history :: "history option"
  ro_prefetchManager :: "prefetch_manager option"
  ro_pageCache :: "page_cache option"
  ro_liveManager :: "live_manager option"
  ro_liveBatchDelayMs :: "jnum option"
  ro_initialEnvelope :: "page_envelope option"
  ro_initialPage :: "page_descriptor option"
  ro_initialResources :: "wire_record jobj option"
  ro_maxResources :: "jnum option"
  ro_maxPages :: "jnum option"
  ro_deferHistory :: bool
  ro_isBrowser :: bool

definition or_make :: "'a option \<Rightarrow> (error_class, 'a) result \<Rightarrow> (error_class, 'a) result" where
  "or_make given made = (case given of Some x \<Rightarrow> Inr x | None \<Rightarrow> made)"

definition initial_page :: "router_options \<Rightarrow> page_descriptor option" where
  "initial_page options =
     (case ro_initialEnvelope options of Some e \<Rightarrow> Some (env_page e) | None \<Rightarrow> ro_initialPage options)"

definition live_defaults :: live_options where
  "live_defaults = \<lparr>lo_clientId = None, lo_onEvent = None, lo_onError = None, lo_initialDelay = None,
     lo_maxDelay = None, lo_jitter = None\<rparr>"

text \<open>The parts, taken from the options or made; \<open>fresh\<close> is the identity \<open>createClientId\<close> would create.\<close>

definition router_parts :: "jstring \<Rightarrow> router_options \<Rightarrow> (error_class, router) result" where
  "router_parts fresh options =
     andThen (or_make (ro_resourceStore options) (new_store (ro_maxResources options))) (\<lambda>s.
     andThen (or_make (ro_pageCache options) (new_page_cache (ro_maxPages options))) (\<lambda>c.
     let delay = (case ro_liveBatchDelayMs options of None \<Rightarrow> num_of_int 15 | Some d \<Rightarrow> d) in
     andThen (throw_if (\<not> num_finite delay \<or> num_val delay < 0) RangeError) (\<lambda>_.
     andThen (or_make (ro_liveManager options) (new_live_manager fresh live_defaults)) (\<lambda>m.
       Inr \<lparr>rt_store = s,
            rt_page = (case ro_pageStore options of Some p \<Rightarrow> p | None \<Rightarrow> new_page_store (initial_page options)),
            rt_emitter = [], rt_hub = new_hub,
            rt_history = (case ro_history options of Some h \<Rightarrow> h | None \<Rightarrow> new_history (ro_isBrowser options)),
            rt_prefetch = (case ro_prefetchManager options of Some p \<Rightarrow> p | None \<Rightarrow> new_prefetch_manager),
            rt_cache = c,
            rt_live = live_subscribeDiagnostics router_callback (live_subscribeEvents router_callback m),
            currentVisitId = None, activeController = None, activeDeferredController = None,
            activeDeferredKeys = [], activeDeferredEpochs = [], activeDeferredDiagnosticId = None,
            activeDeferredUrl = js ''/'', visitCounter = 0, lifecycleGeneration = 0, resourceLoadCounter = 0,
            diagnosticEventCounter = 0, diagnosticOperationCounter = 0, resourceEpochCounter = 0,
            resourceEpochs = new_epoch_map, initialDeferredBatch = None, initialDeferredStarted = False,
            historyStarted = False, liveStarted = False, liveBatchDelayMs = num_val delay,
            pendingLiveRefreshKeys = [], activeLiveLoadEpochs = [], pendingLiveRefreshReason = ReasonLive,
            liveRefreshTimer = None, liveRefreshCorrelations = None, rt_tasks = [], rt_requests = [],
            rt_settled = [], rt_aborted = [], rt_next = 0, rt_navigations = [], rt_scrolls = 0\<rparr>))))"

definition emitResourceUpdates :: "router_env \<Rightarrow> rkey list \<Rightarrow> router \<Rightarrow> router" where
  "emitResourceUpdates env keys st = fold (\<lambda>key. announce_current env key ''initial'' None) keys st"

definition entries_of :: "wire_record jobj \<Rightarrow> (rkey \<times> jstring \<times> jsval) list" where
  "entries_of resources = map (\<lambda>(key, rec). (key, w_version rec, w_value rec)) resources"

definition initial_resources :: "router_env \<Rightarrow> router_options \<Rightarrow> router \<Rightarrow> router" where
  "initial_resources env options st =
     (case (case ro_initialEnvelope options of Some e \<Rightarrow> Some (env_resources e) | None \<Rightarrow> ro_initialResources options) of
        None \<Rightarrow> st
      | Some resources \<Rightarrow>
          let (updated, st1) = on_store env (setMany (re_now env) (entries_of resources)) st
          in emitResourceUpdates env updated st1)"

definition initial_envelope :: "router_env \<Rightarrow> page_envelope \<Rightarrow> router \<Rightarrow> (error_class, router) result" where
  "initial_envelope env envelope st =
     (let st1 = fold (\<lambda>(key, err). upd_store env (setResourceError key err))
                  (absent_list (env_resourceErrors envelope)) st;
          keys = absent_list (env_deferred envelope);
          pageUrl = or_root (pd_url (env_page envelope));
          st2 = (if keys = [] then st1
                 else (upd_store env (markPending keys) st1)\<lparr>initialDeferredBatch := Some (keys, pageUrl)\<rparr>);
          st3 = cachePageEnvelope env envelope None st2
      in (case update_manifest env pageUrl (absent_list (env_live envelope)) st3 of
            (Some e, _) \<Rightarrow> Inl e
          | (None, st4) \<Rightarrow> Inr st4))"

definition new_router :: "router_env \<Rightarrow> jstring \<Rightarrow> router_options \<Rightarrow> (error_class, router) result" where
  "new_router env fresh options =
     andThen (router_parts fresh options) (\<lambda>st.
     let st1 = initial_resources env options st in
     andThen
       (case ro_initialEnvelope options of
          Some envelope \<Rightarrow> initial_envelope env envelope st1
        | None \<Rightarrow>
            Inr (case ro_initialPage options of
                   None \<Rightarrow> st1
                 | Some page \<Rightarrow>
                     st1\<lparr>rt_cache := cache_set page (exportKnown (rt_store st1)) None (rt_cache st1)\<rparr>))
       (\<lambda>st2. Inr (if ro_deferHistory options then st2 else startHistory st2)))"

end
