(* ===== verification/Router_Keeps.thy ===== *)
theory Router_Keeps
  imports Router_Ops Store_Theorems Cache_Theorems Prefetch_Theorems
begin

text \<open>
  What every operation of the router keeps. The locale \<open>router_keeps\<close> states, for a predicate on
  router states, that the primitive effects keep it: an operation of the store, of the page cache,
  of the prefetch manager, of the epochs or of the history, and a call of a listener. The lemmas
  inside derive that every operation of the router keeps it.
\<close>

section \<open>The part of the state that matters\<close>

definition core where
  "core st = (rt_store st, rt_page st, rt_emitter st, rt_history st, rt_prefetch st, rt_cache st, resourceEpochs st,
     resourceEpochCounter st, lifecycleGeneration st, visitCounter st, currentVisitId st, rt_navigations st,
     rt_scrolls st)"

inductive history_change :: "history \<Rightarrow> history \<Rightarrow> bool" where
  "history_change h (onPopState cb h)"
| "history_change h (stopPopState cb h)"
| "history_change h (history_push url h)"
| "history_change h (history_replace url h)"
| "history_change h (history_destroy h)"

inductive emitter_change :: "emitter \<Rightarrow> emitter \<Rightarrow> bool" where
  "emitter_change e (emitter_on event l e)"
| "emitter_change e (emitter_off event l e)"
| "emitter_change e (emitter_removeAll e)"

text \<open>An effect on the store that is one operation of it.\<close>

definition is_store_op :: "(store \<Rightarrow> store) \<Rightarrow> bool" where
  "is_store_op f \<longleftrightarrow> (\<forall>s. \<exists>opr. f s = run_store_op opr s)"

lemma is_store_opI: "(\<And>s. f s = run_store_op (g s) s) \<Longrightarrow> is_store_op f"
  by (auto simp: is_store_op_def)

lemma is_store_op_rules [intro!]:
  "is_store_op (\<lambda>s. snd (store_set now key version val s))"
  "is_store_op (\<lambda>s. snd (setMany now es s))"
  "is_store_op (\<lambda>s. snd (getRecord key s))"
  "is_store_op (\<lambda>s. snd (getStateSnapshot key s))"
  "is_store_op (markPending keys)"
  "is_store_op (markLoading keys)"
  "is_store_op (setResourceError key err)"
  "is_store_op (markStale key)"
  "is_store_op (invalidate key)"
  "is_store_op store_clear"
  by (rule is_store_opI [where g = "\<lambda>_. OpSet now key version val"], simp)
    (rule is_store_opI [where g = "\<lambda>_. OpSetMany now es"], simp,
     rule is_store_opI [where g = "\<lambda>_. OpGetRecord key"], simp,
     rule is_store_opI [where g = "\<lambda>_. OpGetStateSnapshot key"], simp,
     rule is_store_opI [where g = "\<lambda>_. OpMarkPending keys"], simp,
     rule is_store_opI [where g = "\<lambda>_. OpMarkLoading keys"], simp,
     rule is_store_opI [where g = "\<lambda>_. OpSetResourceError key err"], simp,
     rule is_store_opI [where g = "\<lambda>_. OpMarkStale key"], simp,
     rule is_store_opI [where g = "\<lambda>_. OpInvalidate key"], simp,
     rule is_store_opI [where g = "\<lambda>_. OpClear"], simp)

text \<open>The reads of the page cache are a sequence of operations of the store.\<close>

lemma valid_step_ops: "\<exists>ops. valid_step entry key s = fold run_store_op ops s"
proof -
  have "\<exists>ops. s = fold run_store_op ops s"
    by (rule exI [of _ "[]"]) simp
  moreover have "\<exists>ops. snd (getStateSnapshot key s) = fold run_store_op ops s"
    by (rule exI [of _ "[OpGetStateSnapshot key]"]) simp
  moreover have "\<exists>ops. snd (getRecord key s) = fold run_store_op ops s"
    by (rule exI [of _ "[OpGetRecord key]"]) simp
  ultimately show ?thesis by (auto simp: valid_step_def)
qed

lemma fold_ops_trans:
  assumes "\<exists>ops. t = fold run_store_op ops s" and "\<exists>ops. u = fold run_store_op ops t"
  shows "\<exists>ops. u = fold run_store_op ops s"
proof -
  from assms obtain xs ys where "t = fold run_store_op xs s" "u = fold run_store_op ys t" by blast
  then have "u = fold run_store_op (xs @ ys) s" by simp
  then show ?thesis ..
qed

lemma all_valid_ops: "\<exists>ops. snd (all_valid entry keys s) = fold run_store_op ops s"
proof (induction keys arbitrary: s)
  case Nil
  show ?case by (rule exI [of _ "[]"]) simp
next
  case (Cons key keys)
  note step = valid_step_ops [of entry key s]
  from fold_ops_trans [OF step Cons.IH] step show ?case
    by (simp add: all_valid_step del: all_valid.simps)
qed

lemma getValid_ops: "\<exists>ops. snd (snd (getValid url c s)) = fold run_store_op ops s"
proof (cases "jm_get (entries c) url")
  case None
  then show ?thesis by (intro exI [of _ "[]"]) (simp add: getValid_def)
next
  case (Some entry)
  then have "snd (snd (getValid url c s)) = snd (all_valid entry (cp_resourceKeys entry) s)"
    by (simp add: getValid_def Let_def split_beta)
  then show ?thesis using all_valid_ops by metis
qed

lemma settle_keys_ops: "\<exists>ops. snd (settle_keys entry keys versions pending s) = fold run_store_op ops s"
proof (induction keys arbitrary: s versions pending)
  case Nil
  show ?case by (rule exI [of _ "[]"]) simp
next
  case (Cons key keys)
  have reads: "\<exists>ops. snd (getRecord key (snd (getStateSnapshot key s))) = fold run_store_op ops s"
    by (rule exI [of _ "[OpGetStateSnapshot key, OpGetRecord key]"]) simp
  note after = fold_ops_trans [OF reads Cons.IH]
  show ?case using Cons.IH after reads by (simp add: Let_def split_beta)
qed

lemma settleResources_ops: "\<exists>ops. snd (settleResources url keys c s) = fold run_store_op ops s"
proof (cases "jm_get (entries c) url")
  case None
  then show ?thesis by (intro exI [of _ "[]"]) (simp add: settleResources_def)
next
  case (Some entry)
  then have "snd (settleResources url keys c s) =
      snd (settle_keys entry keys (cp_resources entry) (jset_of (cp_pendingDeferred entry)) s)"
    by (simp add: settleResources_def Let_def split: prod.split option.split)
  then show ?thesis using settle_keys_ops by metis
qed

section \<open>Invariants of the operations\<close>

text \<open>
  A predicate that looks only at the core of the state, and that the listeners keep, is kept by
  everything that announces, schedules, aborts or settles.
\<close>

locale router_frame =
  fixes env :: router_env and P :: "router \<Rightarrow> bool"
  assumes listened: "P st \<Longrightarrow> P (re_listen env cb n st)"
    and framed: "P st \<Longrightarrow> core st' = core st \<Longrightarrow> P st'"
begin

lemma control_fields [intro!]:
  "P st \<Longrightarrow> P (st\<lparr>rt_hub := a2\<rparr>)"
  "P st \<Longrightarrow> P (st\<lparr>rt_live := a3\<rparr>)"
  "P st \<Longrightarrow> P (st\<lparr>activeController := a5\<rparr>)"
  "P st \<Longrightarrow> P (st\<lparr>activeDeferredController := a6\<rparr>)"
  "P st \<Longrightarrow> P (st\<lparr>activeDeferredKeys := a7\<rparr>)"
  "P st \<Longrightarrow> P (st\<lparr>activeDeferredEpochs := a8\<rparr>)"
  "P st \<Longrightarrow> P (st\<lparr>activeDeferredDiagnosticId := a9\<rparr>)"
  "P st \<Longrightarrow> P (st\<lparr>activeDeferredUrl := b1\<rparr>)"
  "P st \<Longrightarrow> P (st\<lparr>resourceLoadCounter := b2\<rparr>)"
  "P st \<Longrightarrow> P (st\<lparr>diagnosticEventCounter := b3\<rparr>)"
  "P st \<Longrightarrow> P (st\<lparr>diagnosticOperationCounter := b4\<rparr>)"
  "P st \<Longrightarrow> P (st\<lparr>initialDeferredBatch := b5\<rparr>)"
  "P st \<Longrightarrow> P (st\<lparr>initialDeferredStarted := b6\<rparr>)"
  "P st \<Longrightarrow> P (st\<lparr>historyStarted := b7\<rparr>)"
  "P st \<Longrightarrow> P (st\<lparr>liveStarted := b8\<rparr>)"
  "P st \<Longrightarrow> P (st\<lparr>pendingLiveRefreshKeys := b9\<rparr>)"
  "P st \<Longrightarrow> P (st\<lparr>activeLiveLoadEpochs := c1\<rparr>)"
  "P st \<Longrightarrow> P (st\<lparr>pendingLiveRefreshReason := c2\<rparr>)"
  "P st \<Longrightarrow> P (st\<lparr>liveRefreshTimer := c3\<rparr>)"
  "P st \<Longrightarrow> P (st\<lparr>liveRefreshCorrelations := c4\<rparr>)"
  "P st \<Longrightarrow> P (st\<lparr>rt_tasks := c5\<rparr>)"
  "P st \<Longrightarrow> P (st\<lparr>rt_requests := c6\<rparr>)"
  "P st \<Longrightarrow> P (st\<lparr>rt_settled := c7\<rparr>)"
  "P st \<Longrightarrow> P (st\<lparr>rt_aborted := c8\<rparr>)"
  "P st \<Longrightarrow> P (st\<lparr>rt_next := c9\<rparr>)"
  by (erule framed, simp add: core_def)+

lemma fold_keeps [intro]:
  assumes "P st" and "\<And>x s. x \<in> set xs \<Longrightarrow> P s \<Longrightarrow> P (f x s)"
  shows "P (fold f xs st)"
  using assms by (induction xs arbitrary: st) auto

text \<open>
  Rules for the bindings of a definition: they keep the goal small, where unfolding the bindings
  would copy the bound states.
\<close>

lemma let_state: "P e \<Longrightarrow> (\<And>s. P s \<Longrightarrow> P (f s)) \<Longrightarrow> P (Let e f)"
  by simp

lemma let_any: "(\<And>x. P (f x)) \<Longrightarrow> P (Let e f)"
  by simp

lemma pair_state: "P (snd e) \<Longrightarrow> (\<And>x s. P s \<Longrightarrow> P (f x s)) \<Longrightarrow> P (case e of (x, s) \<Rightarrow> f x s)"
  by (simp add: split_beta)

lemma let_pair: "P (snd e) \<Longrightarrow> (\<And>x s. P s \<Longrightarrow> P (f x s)) \<Longrightarrow> P (Let e (case_prod f))"
  by (simp add: split_beta)

lemma let_pair_result:
  "P (snd e) \<Longrightarrow> (\<And>x s. P s \<Longrightarrow> P (snd (f x s))) \<Longrightarrow> P (snd (Let e (case_prod f)))"
  by (simp add: split_beta)

lemma if_state: "(b \<Longrightarrow> P x) \<Longrightarrow> (\<not> b \<Longrightarrow> P y) \<Longrightarrow> P (if b then x else y)"
  by simp

lemma option_state: "P x \<Longrightarrow> (\<And>a. P (f a)) \<Longrightarrow> P (case r of None \<Rightarrow> x | Some a \<Rightarrow> f a)"
  by (simp split: option.split)

lemma bool_state: "P x \<Longrightarrow> P y \<Longrightarrow> P (case b of True \<Rightarrow> x | False \<Rightarrow> y)"
  by (simp split: bool.split)

lemma pair_result:
  "P (snd e) \<Longrightarrow> (\<And>x s. P s \<Longrightarrow> P (snd (f x s))) \<Longrightarrow> P (snd (case e of (x, s) \<Rightarrow> f x s))"
  by (simp add: split_beta)

lemma let_result: "P e \<Longrightarrow> (\<And>s. P s \<Longrightarrow> P (snd (f s))) \<Longrightarrow> P (snd (Let e f))"
  by simp

lemma let_any_result: "(\<And>x. P (snd (f x))) \<Longrightarrow> P (snd (Let e f))"
  by simp

lemma if_result: "(b \<Longrightarrow> P (snd x)) \<Longrightarrow> (\<not> b \<Longrightarrow> P (snd y)) \<Longrightarrow> P (snd (if b then x else y))"
  by simp

lemma option_result: "P (snd x) \<Longrightarrow> (\<And>a. P (snd (f a))) \<Longrightarrow> P (snd (case r of None \<Rightarrow> x | Some a \<Rightarrow> f a))"
  by (simp split: option.split)

lemma bool_result: "P (snd x) \<Longrightarrow> P (snd y) \<Longrightarrow> P (snd (case b of True \<Rightarrow> x | False \<Rightarrow> y))"
  by (simp split: bool.split)

lemma returned: "P s \<Longrightarrow> P (snd (x, s))"
  by simp

lemmas binding_rules = let_state let_pair pair_state let_any if_state option_state bool_state
  let_result let_pair_result pair_result let_any_result if_result option_result bool_result returned

lemma listened_all: "P st \<Longrightarrow> P (fold (\<lambda>cb. re_listen env cb n) cbs st)"
  by (intro fold_keeps listened)

lemma emit_keeps [intro!]: "P st \<Longrightarrow> P (emit env ev st)"
  by (simp add: emit_def listened_all)

lemma diagnostic_keeps [intro!]: "P st \<Longrightarrow> P (rt_emitDiagnostic env type data i st)"
  by (auto simp: rt_emitDiagnostic_def Let_def intro!: listened_all)

lemma operation_id_keeps [intro!]: "P st \<Longrightarrow> P (snd (nextDiagnosticOperationId env prefix st))"
  by (auto simp: nextDiagnosticOperationId_def Let_def)

lemma upd_live_keeps [intro!]: "P st \<Longrightarrow> P (upd_live f st)"
  by (auto simp: upd_live_def)

lemma add_task_keeps [intro!]: "P st \<Longrightarrow> P (add_task t st)"
  by (auto simp: add_task_def)

lemma settle_keeps [intro!]: "P st \<Longrightarrow> P (settle w r st)"
  by (auto simp: settle_def)

lemma new_controller_keeps [intro!]: "P st \<Longrightarrow> P (snd (new_controller st))"
  by (auto simp: new_controller_def)

lemma abort_controller_keeps [intro!]: "P st \<Longrightarrow> P (abort_controller c st)"
  by (auto simp: abort_controller_def)

lemma cancelPendingLiveRefresh_keeps [intro!]: "P st \<Longrightarrow> P (cancelPendingLiveRefresh st)"
  by (auto simp: cancelPendingLiveRefresh_def)

lemma announce_update_keeps [intro!]: "P st \<Longrightarrow> P (announce_update env key version source i st)"
  by (auto simp: announce_update_def)

lemma announce_error_keeps [intro!]: "P st \<Longrightarrow> P (announce_error env lk key err st)"
  by (auto simp: announce_error_def)

lemma load_finally_keeps [intro!]: "P st \<Longrightarrow> P (load_finally lk st)"
  by (auto simp: load_finally_def)

lemma deferred_done_keeps [intro!]: "P st \<Longrightarrow> P (deferred_done env dw r st)"
  by (auto simp: deferred_done_def Let_def split: option.split)

lemma update_manifest_keeps [intro!]: "P st \<Longrightarrow> P (snd (update_manifest env url keys st))"
  by (auto simp: update_manifest_def split: prod.split sum.split)

lemma connect_if_started_keeps [intro!]: "P st \<Longrightarrow> P (connect_if_started env st)"
  by (auto simp: connect_if_started_def)

lemma navigation_note_keeps [intro!]: "P st \<Longrightarrow> P (navigation_note env vt phase url extra st)"
  by (auto simp: navigation_note_def)

lemma page_cache_note_keeps [intro!]: "P st \<Longrightarrow> P (page_cache_note env action source url i st)"
  by (auto simp: page_cache_note_def)

lemma visit_finish_keeps [intro!]: "P st \<Longrightarrow> P (visit_finish vt r st)"
  by (auto simp: visit_finish_def)

lemma visit_cancelled_keeps [intro!]: "P st \<Longrightarrow> P (visit_cancelled env vt st)"
  by (auto simp: visit_cancelled_def)

lemma visit_failed_keeps [intro!]: "P st \<Longrightarrow> P (visit_failed env vt err st)"
  unfolding visit_failed_def by (rule binding_rules | blast)+

lemma visit_ask_keeps [intro!]: "P st \<Longrightarrow> P (visit_ask env vt st)"
  by (auto simp: visit_ask_def)

lemma startLive_keeps [intro!]: "P st \<Longrightarrow> P (startLive env st)"
  by (auto simp: startLive_def)

lemma prefetch_note_keeps [intro!]: "P st \<Longrightarrow> P (prefetch_note env pt phase extra st)"
  by (auto simp: prefetch_note_def)

lemma mutation_note_keeps [intro!]: "P st \<Longrightarrow> P (mutation_note env mu phase extra st)"
  by (auto simp: mutation_note_def)

lemma rt_mutate_keeps [intro!]: "P st \<Longrightarrow> P (rt_mutate env url m preserveScroll st)"
  unfolding rt_mutate_def by (rule binding_rules | blast)+

lemma invalidate_note_keeps [intro!]: "P st \<Longrightarrow> P (invalidate_note env key source extra i st)"
  by (auto simp: invalidate_note_def)

lemma mutation_success_keeps [intro!]: "P st \<Longrightarrow> P (mutation_success env mu payload st)"
  by (auto simp: mutation_success_def)

lemma mutation_failed_keeps [intro!]: "P st \<Longrightarrow> P (mutation_failed env mu err st)"
  by (auto simp: mutation_failed_def)

lemma queueLiveRefresh_keeps [intro!]: "P st \<Longrightarrow> P (queueLiveRefresh keys reason i st)"
  by (auto simp: queueLiveRefresh_def add_correlation_def Let_def split: option.split)

lemma announce_live_keeps [intro!]: "P st \<Longrightarrow> P (announce_live env event i st)"
  by (auto simp: announce_live_def live_note_of_def Let_def split: live_event.split)

lemma handleLiveDiagnostic_keeps [intro!]: "P st \<Longrightarrow> P (handleLiveDiagnostic env d st)"
  unfolding handleLiveDiagnostic_def by (rule binding_rules | blast)+

lemma on_store_frame:
  assumes "P (st\<lparr>rt_store := snd (f (rt_store st))\<rparr>)"
  shows "P (snd (on_store env f st))"
  using assms by (simp add: on_store_def Let_def split_beta listened_all)

lemma upd_store_frame: "P (st\<lparr>rt_store := f (rt_store st)\<rparr>) \<Longrightarrow> P (upd_store env f st)"
  unfolding upd_store_def by (rule on_store_frame) simp

lemma upd_page_frame: "P (st\<lparr>rt_page := f (rt_page st)\<rparr>) \<Longrightarrow> P (upd_page env f st)"
  by (simp add: upd_page_def Let_def listened_all)

end

text \<open>
  A predicate that writes to the stores keep as well is kept by everything but the beginning of a
  navigation, a hard navigation and the end of a generation.
\<close>

locale router_writes = router_frame +
  assumes stored: "P st \<Longrightarrow> P (st\<lparr>rt_store := run_store_op opr (rt_store st)\<rparr>)"
    and paged: "P st \<Longrightarrow> P (st\<lparr>rt_page := p\<rparr>)"
    and cached: "P st \<Longrightarrow> P (st\<lparr>rt_cache := run_cache_op cop (rt_cache st)\<rparr>)"
    and prefetched: "P st \<Longrightarrow> P (st\<lparr>rt_prefetch := run_prefetch_op pop (rt_prefetch st)\<rparr>)"
    and historied: "P st \<Longrightarrow> history_change (rt_history st) h \<Longrightarrow> P (st\<lparr>rt_history := h\<rparr>)"
    and scrolled: "P st \<Longrightarrow> P (st\<lparr>rt_scrolls := n\<rparr>)"
    and bumped: "P st \<Longrightarrow> P (snd (bumpResourceEpoch key speculative st))"
begin

lemma upd_page_keeps [intro!]: "P st \<Longrightarrow> P (upd_page env f st)"
  by (intro upd_page_frame paged)

lemma stored_all: "P st \<Longrightarrow> P (st\<lparr>rt_store := fold run_store_op ops (rt_store st)\<rparr>)"
proof (induction ops arbitrary: st)
  case Nil
  then show ?case by simp
next
  case (Cons opr ops)
  from Cons.IH [OF stored [OF Cons.prems, of opr]] show ?case by simp
qed

lemma on_store_keeps [intro!]:
  assumes "P st" and "is_store_op (\<lambda>s. snd (f s))"
  shows "P (snd (on_store env f st))"
proof -
  obtain opr where "snd (f (rt_store st)) = run_store_op opr (rt_store st)"
    using assms(2) unfolding is_store_op_def by blast
  then have "P (st\<lparr>rt_store := snd (f (rt_store st))\<rparr>)" using stored [OF assms(1)] by simp
  then show ?thesis by (rule on_store_frame)
qed

lemma upd_store_keeps [intro!]: "P st \<Longrightarrow> is_store_op f \<Longrightarrow> P (upd_store env f st)"
  unfolding upd_store_def by (rule on_store_keeps) simp_all

lemma bump_keeps [intro!]: "P st \<Longrightarrow> P (bump key st)"
  by (simp add: bump_def bumped)

lemma restore_record_keeps [intro!]: "P st \<Longrightarrow> P (restore_record env key st)"
  by (auto simp: restore_record_def Let_def split_beta split: option.split)

lemma abort_deferred_keys_keeps [intro!]: "P st \<Longrightarrow> P (abort_deferred_keys env keys st)"
proof (induction keys arbitrary: st)
  case (Cons key keys)
  show ?case unfolding abort_deferred_keys.simps by (rule binding_rules Cons.IH | use Cons.prems in blast)+
qed simp

lemma abortActiveDeferred_keeps [intro!]: "P st \<Longrightarrow> P (snd (abortActiveDeferred env st))"
  by (auto simp: abortActiveDeferred_def Let_def split: option.split)

lemma supersede_epochs_keeps [intro!]: "P st \<Longrightarrow> P (supersede_epochs env es st)"
proof (induction es arbitrary: st)
  case (Cons e es)
  obtain key y where e: "e = (key, y)" by (cases e)
  show ?case unfolding e supersede_epochs.simps by (rule binding_rules Cons.IH | use Cons.prems in blast)+
qed simp

lemma supersedeLiveWork_keeps [intro!]: "P st \<Longrightarrow> P (supersedeLiveWork env st)"
  by (auto simp: supersedeLiveWork_def)

subsection \<open>Loads\<close>

lemma capture_epochs_keeps [intro!]: "P st \<Longrightarrow> P (snd (capture_epochs keys m st))"
  by (induction keys arbitrary: m st) (auto simp: split_beta Let_def intro: bumped)

lemma mark_loading_keys_keeps [intro!]: "P st \<Longrightarrow> P (snd (mark_loading_keys env gen keys st))"
proof (induction keys arbitrary: st)
  case (Cons key keys)
  show ?case unfolding mark_loading_keys.simps by (rule binding_rules Cons.IH | use Cons.prems in blast)+
qed simp

lemma loadResources_keeps [intro!]:
  "P st \<Longrightarrow> P (loadResources env keys url reason signal correlationId w st)"
  unfolding loadResources_def by (rule binding_rules | blast)+

lemma write_resource_keeps [intro!]: "P st \<Longrightarrow> P (snd (write_resource env lk key version val st))"
  by (auto simp: write_resource_def Let_def split_beta)

lemma settle_key_keeps [intro!]: "P st \<Longrightarrow> P (snd (settle_key env lk envelope key st))"
  by (auto simp: settle_key_def Let_def split_beta split: option.split)

lemma settle_loaded_keeps [intro!]: "P st \<Longrightarrow> P (snd (settle_loaded env lk envelope keys acc st))"
proof (induction keys arbitrary: st acc)
  case (Cons key keys)
  have "P (snd (settle_key env lk envelope key st))" using Cons.prems by blast
  with Cons show ?case by (auto split: prod.split bool.split)
qed simp

lemma settle_cache_keeps [intro!]: "P st \<Longrightarrow> P (settle_cache url keys st)"
proof -
  assume st: "P st"
  obtain ops where ops: "snd (settleResources url keys (rt_cache st) (rt_store st)) =
      fold run_store_op ops (rt_store st)"
    using settleResources_ops by blast
  from stored_all [OF cached [OF st, of "CacheSettle url keys (rt_store st)"], of ops] ops show ?thesis
    by (simp add: settle_cache_def split_beta)
qed

lemma load_answer_keeps [intro!]:
  assumes "P st"
  shows "P (load_answer env lk envelope st)"
proof -
  have "P (snd (settle_loaded env lk envelope (le_keys (lk_event lk)) [] st))" using assms by blast
  with assms show ?thesis by (auto simp: load_answer_def Let_def split: prod.split option.split)
qed

lemma fail_keys_keeps [intro!]: "P st \<Longrightarrow> P (snd (fail_keys env lk wasAborted err keys acc st))"
proof (induction keys arbitrary: st acc)
  case (Cons key keys)
  show ?case unfolding fail_keys.simps
    by (rule binding_rules Cons.IH Cons.prems | use Cons.prems in blast | blast)+
qed simp

lemma load_failure_keeps [intro!]: "P st \<Longrightarrow> P (load_failure env lk err st)"
  unfolding load_failure_def by (subst Let_def) (rule binding_rules | blast)+

subsection \<open>Visits\<close>

lemma startDeferredBatch_keeps [intro!]:
  assumes "P st"
  shows "P (snd (startDeferredBatch env keys url st))"
proof -
  have "P (snd (abortActiveDeferred env st))" using assms by blast
  then show ?thesis by (auto simp: startDeferredBatch_def Let_def split_beta split: prod.split bool.split)
qed

lemma startDeferredEnvelope_keeps [intro!]: "P st \<Longrightarrow> P (snd (startDeferredEnvelope env envelope st))"
  by (auto simp: startDeferredEnvelope_def)

lemma startInitialDeferred_keeps [intro!]:
  assumes "P st"
  shows "P (snd (startInitialDeferred env st))"
proof -
  have "P (snd (startDeferredBatch env keys url (st\<lparr>initialDeferredBatch := None\<rparr>)))" for keys url
    using assms by blast
  with assms show ?thesis
    by (auto simp: startInitialDeferred_def split: option.split prod.split bool.split) (metis snd_conv)+
qed

lemma cachePageEnvelope_keeps [intro!]:
  assumes "P st"
  shows "P (cachePageEnvelope env envelope i st)"
proof -
  have "P (st\<lparr>rt_cache := cache_set page resources manifest (rt_cache st)\<rparr>)" for page resources manifest
    using cached [OF assms, of "CacheSet page resources manifest"] by simp
  then show ?thesis by (auto simp: cachePageEnvelope_def Let_def split: option.split)
qed

lemma apply_resources_keeps [intro!]: "P st \<Longrightarrow> P (snd (apply_resources env ap es st))"
proof (induction es arbitrary: st)
  case (Cons e es)
  obtain key y where e: "e = (key, y)" by (cases e)
  show ?case unfolding e apply_resources.simps by (rule binding_rules Cons.IH | use Cons.prems in blast)+
qed simp

lemma apply_errors_keeps [intro!]: "P st \<Longrightarrow> P (snd (apply_errors env ap eligible es st))"
proof (induction es arbitrary: st)
  case (Cons e es)
  obtain key y where e: "e = (key, y)" by (cases e)
  show ?case unfolding e apply_errors.simps by (rule binding_rules Cons.IH | use Cons.prems in blast)+
qed simp

lemma apply_deferred_keeps [intro!]: "P st \<Longrightarrow> P (snd (apply_deferred env ap keys st))"
proof (induction keys arbitrary: st)
  case (Cons key keys)
  show ?case unfolding apply_deferred.simps by (rule binding_rules Cons.IH | use Cons.prems in blast)+
qed simp

lemma apply_shell_keeps [intro!]:
  assumes "P st"
  shows "P (snd (apply_shell env ap envelope applied st))"
proof -
  let ?u = "update_manifest env (or_root (pd_url (env_page envelope))) (absent_list (env_live envelope))
              (upd_page env (setPage (env_page envelope)) st)"
  have "P (snd ?u)" and "P (upd_page env (setPage (env_page envelope)) st)" using assms by blast+
  with assms show ?thesis by (auto simp: apply_shell_def Let_def split: prod.split option.split)
qed

lemma applyPageEnvelope_keeps [intro!]: "P st \<Longrightarrow> P (snd (applyPageEnvelope env envelope startedAt st))"
  unfolding applyPageEnvelope_def by (rule binding_rules | blast)+

lemma missing_keys_keeps [intro!]: "P st \<Longrightarrow> P (snd (missing_keys env startedAt applied keys st))"
proof (induction keys arbitrary: st)
  case (Cons key keys)
  show ?case unfolding missing_keys.simps by (rule binding_rules Cons.IH | use Cons.prems in blast)+
qed simp

lemma visit_history_keeps [intro!]: "P st \<Longrightarrow> P (visit_history vt url st)"
proof -
  assume st: "P st"
  have "P (st\<lparr>rt_history := (if b then history_replace else history_push) url (rt_history st)\<rparr>)" for b
    using historied [OF st] by (simp add: history_change.intros)
  with st show ?thesis unfolding visit_history_def by (intro let_state let_any if_state) (auto simp: if_split intro: scrolled)
qed

lemma visit_followup_keeps [intro!]: "P st \<Longrightarrow> P (visit_followup env vt envelope applied st)"
  unfolding visit_followup_def by (rule binding_rules visit_finish_keeps | blast)+

lemma visit_arrived_keeps [intro!]:
  assumes "P st"
  shows "P (visit_arrived env vt envelope st)"
proof -
  have "P (snd (applyPageEnvelope env envelope (vt_startedAtEpoch vt) st))" using assms by blast
  then show ?thesis
    unfolding visit_arrived_def Let_def using assms by (auto split: prod.split sum.split)
qed

lemma visit_pending_keeps [intro!]: "P st \<Longrightarrow> P (visit_pending env vt answer st)"
  by (auto simp: visit_pending_def split: sum.split option.split)

lemma visit_answer_keeps [intro!]: "P st \<Longrightarrow> P (visit_answer env vt answer st)"
  by (auto simp: visit_answer_def split: sum.split)

lemma visit_lookup_keeps [intro!]:
  assumes "P st"
  shows "P (visit_lookup env vt st)"
proof -
  have "P (st\<lparr>rt_prefetch := snd (prefetch_getCached (int (re_now env)) (vt_url vt) (vt_known vt) (rt_prefetch st))\<rparr>)"
    using prefetched [OF assms, of "PfGetCached (int (re_now env)) (vt_url vt) (vt_known vt)"] by simp
  then show ?thesis
    unfolding visit_lookup_def Let_def using assms by (auto split: prod.split option.split)
qed

lemma interrupt_live_keeps [intro!]: "P st \<Longrightarrow> P (interrupt_live env st)"
  by (auto simp: interrupt_live_def)

lemma startHistory_keeps [intro!]: "P st \<Longrightarrow> P (startHistory st)"
  using historied [of "st\<lparr>historyStarted := True\<rparr>"]
  by (auto simp: startHistory_def intro: history_change.intros)

lemma stopHistory_keeps [intro!]: "P st \<Longrightarrow> P (stopHistory st)"
  using historied [of "st\<lparr>historyStarted := False\<rparr>"]
  by (auto simp: stopHistory_def intro: history_change.intros)

lemma stopLive_keeps [intro!]: "P st \<Longrightarrow> P (stopLive env st)"
  by (auto simp: stopLive_def)

subsection \<open>Prefetches\<close>

lemma rt_prefetch_start_keeps [intro!]:
  assumes "P st"
  shows "P (rt_prefetch_start env ttl url st)"
proof -
  have fetch: "P (s\<lparr>rt_prefetch := snd (prefetch_fetch le now u known ttl' (rt_prefetch s))\<rparr>)"
    if "P s" for s le now u known ttl'
    using prefetched [OF that, of "PfFetch le now u known ttl'"] by simp
  let ?s = "rt_emitDiagnostic env DtPrefetch [(''phase'', str ''start''), (''url'', diagnosticUrl env url)]
     (fst (nextDiagnosticOperationId env ''prefetch'' st))
     (emit env (PrefetchStart url) (snd (nextDiagnosticOperationId env ''prefetch'' st)))"
  have "P ?s" using assms by blast
  from fetch [OF this] show ?thesis
    by (auto simp: rt_prefetch_start_def Let_def split_beta)
qed

lemma prefetch_settles_keeps [intro!]:
  assumes "P st"
  shows "P (prefetch_settles env rq answer st)"
proof -
  have fin: "P (st\<lparr>rt_prefetch := prefetch_finally rq pm\<rparr>)" if "P (st\<lparr>rt_prefetch := pm\<rparr>)" for pm
    using prefetched [OF that, of "PfFinally rq"] by simp
  have accept: "P (st\<lparr>rt_prefetch := snd (prefetch_accept (int (re_now env)) rq e (rt_prefetch st))\<rparr>)" for e
    using prefetched [OF assms, of "PfAccept (int (re_now env)) rq e"] by simp
  have same: "P (st\<lparr>rt_prefetch := rt_prefetch st\<rparr>)" using assms by simp
  show ?thesis
    by (auto simp: prefetch_settles_def Let_def split_beta intro!: fin intro: accept same
        split: sum.split prod.split)
qed

lemma prefetch_writes_keeps [intro!]: "P st \<Longrightarrow> P (snd (prefetch_writes env pt es st))"
proof (induction es arbitrary: st)
  case (Cons e es)
  obtain key y where e: "e = (key, y)" by (cases e)
  show ?case unfolding e prefetch_writes.simps by (rule binding_rules Cons.IH | use Cons.prems in blast)+
qed simp

lemma reject_keeps [intro!]:
  "P st \<Longrightarrow> P (st\<lparr>rt_prefetch := rejectPrefetchEnvelope envelope (rt_prefetch st)\<rparr>)"
  using prefetched [of st "PfReject envelope"] by simp

lemma speculative_keeps [intro!]:
  "P st \<Longrightarrow> P (fold (\<lambda>(key, _) s. snd (bumpResourceEpoch key True s)) es st)"
  by (induction es arbitrary: st) (auto intro: bumped)

lemma prefetch_arrived_keeps [intro!]: "P st \<Longrightarrow> P (prefetch_arrived env pt envelope st)"
  unfolding prefetch_arrived_def by (rule binding_rules | blast)+

lemma prefetch_resumed_keeps [intro!]: "P st \<Longrightarrow> P (prefetch_resumed env pt answer st)"
  by (auto simp: prefetch_resumed_def split: sum.split)

subsection \<open>Mutations\<close>

lemma is_store_op_patch [intro!]:
  "is_store_op (\<lambda>s. snd (case store_patch now stamp ref key patches s of
     None \<Rightarrow> (None, s) | Some (patched, s1) \<Rightarrow> (Some patched, s1)))"
  by (rule is_store_opI [where g = "\<lambda>_. OpPatch now stamp ref key patches"]) (simp split: option.split)

lemma patch_resource_keeps [intro!]: "P st \<Longrightarrow> P (snd (patch_resource env key patches st))"
  unfolding patch_resource_def by blast

lemma announce_current_keeps [intro!]: "P st \<Longrightarrow> P (announce_current env key source i st)"
  by (auto simp: announce_current_def current_version_def Let_def split_beta)

lemma mutation_patches_keeps [intro!]: "P st \<Longrightarrow> P (snd (mutation_patches env mu es st))"
proof (induction es arbitrary: st)
  case (Cons e es)
  obtain key y where e: "e = (key, y)" by (cases e)
  show ?case unfolding e mutation_patches.simps
    by (rule binding_rules Cons.IH | use Cons.prems in blast)+
qed simp

lemma invalidation_op: "is_store_op ((if used then markStale else invalidate) key)"
  by (simp add: is_store_op_rules)

lemma mutation_invalidations_keeps [intro!]: "P st \<Longrightarrow> P (snd (mutation_invalidations env mu keys st))"
proof (induction keys arbitrary: st)
  case (Cons key keys)
  show ?case unfolding mutation_invalidations.simps
    by (rule binding_rules Cons.IH upd_store_keeps invalidation_op | use Cons.prems in blast)+
qed simp

subsection \<open>Live events and the life cycle\<close>

lemma live_refresh_fires_keeps [intro!]: "P st \<Longrightarrow> P (live_refresh_fires env t st)"
  unfolding live_refresh_fires_def by (rule binding_rules | blast)+

lemma live_patches_keeps [intro!]: "P st \<Longrightarrow> P (snd (live_patches env es i st))"
proof (induction es arbitrary: st)
  case (Cons e es)
  obtain key y where e: "e = (key, y)" by (cases e)
  show ?case unfolding e live_patches.simps by (rule binding_rules Cons.IH | use Cons.prems in blast)+
qed simp

lemma live_invalidate_keeps [intro!]: "P st \<Longrightarrow> P (live_invalidate env keys ty reason i st)"
  by (auto simp: live_invalidate_def live_stale_def Let_def)

lemma handleLiveEvent_keeps [intro!]:
  assumes "P st"
  shows "P (snd (handleLiveEvent env event st))"
proof (cases event)
  case (LivePatch patches origin)
  show ?thesis unfolding handleLiveEvent_def LivePatch live_event.case
    by (rule binding_rules | use assms in blast)+
qed (use assms in \<open>auto simp: handleLiveEvent_def Let_def split_beta\<close>)

end

text \<open>A predicate that is kept by every operation.\<close>

locale router_keeps = router_writes +
  assumes listening: "P st \<Longrightarrow> emitter_change (rt_emitter st) e \<Longrightarrow> P (st\<lparr>rt_emitter := e\<rparr>)"
    and forgotten: "P st \<Longrightarrow> P (st\<lparr>resourceEpochs := epoch_clear (resourceEpochs st)\<rparr>)"
    and generation: "P st \<Longrightarrow> P (st\<lparr>lifecycleGeneration := lifecycleGeneration st + 1\<rparr>)"
    and counted: "P st \<Longrightarrow> P (st\<lparr>visitCounter := visitCounter st + 1\<rparr>)"
    and identified: "P st0 \<Longrightarrow> P st \<Longrightarrow>
      P (st\<lparr>currentVisitId := Some (stamped env ''visit'' (visitCounter st0 + 1))\<rparr>)"
    and unidentified: "P st \<Longrightarrow> P (st\<lparr>currentVisitId := None\<rparr>)"
    and navigated: "P st \<Longrightarrow> P (st\<lparr>rt_navigations := ns\<rparr>)"
begin

lemma unidentified_keeps [intro!]: "P st \<Longrightarrow> P (st\<lparr>currentVisitId := None\<rparr>)"
  by (rule unidentified)

lemma navigated_keeps [intro!]: "P st \<Longrightarrow> P (st\<lparr>rt_navigations := ns\<rparr>)"
  by (rule navigated)

lemma abortActiveVisit_keeps [intro!]: "P st \<Longrightarrow> P (abortActiveVisit st)"
  by (auto simp: abortActiveVisit_def Let_def split: option.split)

lemma hard_navigate_keeps [intro!]: "P st \<Longrightarrow> P (hard_navigate url st)"
  by (auto simp: hard_navigate_def)

lemma visit_keeps [intro!]:
  assumes "P st"
  shows "P (visit env url options w st)"
proof -
  note c = counted [OF assms]
  note i = identified [OF assms]
  show ?thesis unfolding visit_def
    by (subst Let_def, subst Let_def) (rule binding_rules i | use c in blast)+
qed

lemma refresh_keeps [intro!]: "P st \<Longrightarrow> P (refresh env only st)"
  by (auto simp: refresh_def Let_def)

lemma restore_page_keeps [intro!]:
  assumes "P st"
  shows "P (restore_page env url cp st)"
proof -
  note c = counted [OF assms]
  show ?thesis unfolding restore_page_def by (rule binding_rules | use c in blast)+
qed

lemma popstate_keeps [intro!]:
  assumes "P st"
  shows "P (popstate env url st)"
proof -
  obtain ops where "snd (snd (getValid url (rt_cache st) (rt_store st))) = fold run_store_op ops (rt_store st)"
    using getValid_ops by blast
  with stored_all [OF cached [OF assms, of "CacheGetValid url (rt_store st)"], of ops]
  have "P (st\<lparr>rt_cache := fst (snd (getValid url (rt_cache st) (rt_store st))),
           rt_store := snd (snd (getValid url (rt_cache st) (rt_store st)))\<rparr>)"
    by simp
  then show ?thesis by (auto simp: popstate_def Let_def split_beta split: option.split)
qed

lemma mutation_follow_keeps [intro!]: "P st \<Longrightarrow> P (mutation_follow env mu payload active st)"
  by (auto simp: mutation_follow_def Let_def)

lemma mutation_applied_keeps [intro!]: "P st \<Longrightarrow> P (mutation_applied env mu payload st)"
  unfolding mutation_applied_def by (rule binding_rules | blast)+

lemma mutation_answer_keeps [intro!]: "P st \<Longrightarrow> P (mutation_answer env mu answer st)"
  by (auto simp: mutation_answer_def split: sum.split)

lemma resume_waiter_keeps [intro!]: "P st \<Longrightarrow> P (resume_waiter env w r st)"
  by (auto simp: resume_waiter_def split: waiter.split option.split)

lemma end_generation_keeps [intro!]:
  assumes "P st"
  shows "P (snd (end_generation env st))"
proof -
  note g = generation [OF assms]
  show ?thesis unfolding end_generation_def by (rule binding_rules | use g in blast)+
qed

lemma prefetch_clear_keeps [intro!]: "P st \<Longrightarrow> P (st\<lparr>rt_prefetch := prefetch_clear (rt_prefetch st)\<rparr>)"
  using prefetched [of st PfClear] by simp

lemma clear_parts_keeps [intro!]:
  assumes "P st"
  shows "P (st\<lparr>rt_cache := cache_clear (rt_cache st), rt_prefetch := prefetch_clear (rt_prefetch st),
             resourceEpochs := epoch_clear (resourceEpochs st)\<rparr>)"
  using forgotten [OF prefetch_clear_keeps [OF cached [OF assms, of CacheClear]]] by simp

lemma clear_keeps [intro!]: "P st \<Longrightarrow> P (snd (clear env st))"
  unfolding clear_def by (rule binding_rules | blast)+

lemma destroy_parts_keeps [intro!]:
  assumes "P st"
  shows "P (st\<lparr>rt_history := history_destroy (rt_history st), rt_emitter := emitter_removeAll (rt_emitter st),
             resourceEpochs := epoch_clear (resourceEpochs st)\<rparr>)"
  using forgotten [OF listening [OF historied [OF assms history_change.intros(5)] emitter_change.intros(3)]] by simp

lemma destroy_keeps [intro!]: "P st \<Longrightarrow> P (snd (destroy env st))"
  unfolding destroy_def by (rule binding_rules | blast)+

end

end
