(* ===== verification/Router_Steps.thy ===== *)
theory Router_Steps
  imports Router_Keeps
begin

text \<open>
  The router as a state machine: a step is a call of an operation, the resumption of a task, or the
  firing of a timer, in any order. The composed invariant of the parts holds in every state that
  such steps reach, whatever the listeners do that keeps it.
\<close>

section \<open>Steps\<close>

text \<open>The outcome with which a task can be resumed, and what resuming it does.\<close>

inductive resumes :: "router_env \<Rightarrow> task \<Rightarrow> router \<Rightarrow> router \<Rightarrow> bool" for env where
  "resumes env (TVisitPending vt None) st (visit_pending env vt (Inr None) st)"
| "(i, Inl err) \<in> set (rt_settled st) \<Longrightarrow>
     resumes env (TVisitPending vt (Some i)) st (visit_pending env vt (Inl err) st)"
| "(i, Inr envelope) \<in> set (rt_settled st) \<Longrightarrow>
     resumes env (TVisitPending vt (Some i)) st (visit_pending env vt (Inr (Some envelope)) st)"
| "resumes env (TVisitTransport vt) st (visit_answer env vt answer st)"
| "resumes env (TLoad lk) st (load_answer env lk envelope st)"
| "resumes env (TLoad lk) st (load_failure env lk err st)"
| "resumes env (TPrefetch pt (FetchCached envelope)) st (prefetch_resumed env pt (Inr envelope) st)"
| "(i, answer) \<in> set (rt_settled st) \<Longrightarrow>
     resumes env (TPrefetch pt (FetchJoined i)) st (prefetch_resumed env pt answer st)"
| "(rq_id rq, answer) \<in> set (rt_settled st) \<Longrightarrow>
     resumes env (TPrefetch pt (FetchStarted rq)) st (prefetch_resumed env pt answer st)"
| "resumes env (TMutate mu) st (mutation_answer env mu result st)"
| "resumes env (TResume w outcome) st (resume_waiter env w outcome st)"

inductive router_step :: "router_env \<Rightarrow> router \<Rightarrow> router \<Rightarrow> bool" for env where
  step_visit: "router_step env st (visit env url options WNone st)"
| step_refresh: "router_step env st (refresh env only st)"
| step_load: "router_step env st (loadResources env keys url reason signal None WNone st)"
| step_initial: "router_step env st (snd (startInitialDeferred env st))"
| step_startLive: "router_step env st (startLive env st)"
| step_stopLive: "router_step env st (stopLive env st)"
| step_startHistory: "router_step env st (startHistory st)"
| step_stopHistory: "router_step env st (stopHistory st)"
| step_popstate: "popstate_target (rt_history st) = Some router_callback \<Longrightarrow> router_step env st (popstate env url st)"
| step_prefetch: "router_step env st (rt_prefetch_start env ttl url st)"
| step_settles: "rq \<in> set (rt_requests st) \<Longrightarrow> router_step env st (prefetch_settles env rq answer st)"
| step_mutate: "router_step env st (rt_mutate env url methodOption preserveScroll st)"
| step_clear: "router_step env st (snd (clear env st))"
| step_destroy: "router_step env st (snd (destroy env st))"
| step_live: "router_step env st (snd (handleLiveEvent env event st))"
| step_diagnostic: "router_step env st (handleLiveDiagnostic env d st)"
| step_timer: "router_step env st (live_refresh_fires env t st)"
| step_task: "t \<in> set (rt_tasks st) \<Longrightarrow> resumes env t (st\<lparr>rt_tasks := remove1 t (rt_tasks st)\<rparr>) st' \<Longrightarrow>
     router_step env st st'"
| step_store: "router_step env st (upd_store env (run_store_op opr) st)"
| step_on: "router_step env st (st\<lparr>rt_emitter := emitter_on event l (rt_emitter st)\<rparr>)"
| step_off: "router_step env st (st\<lparr>rt_emitter := emitter_off event l (rt_emitter st)\<rparr>)"
| step_hub: "router_step env st (st\<lparr>rt_hub := h\<rparr>)"
| step_manager: "router_step env st (st\<lparr>rt_live := m\<rparr>)"

text \<open>The steps may run in different environments: the clock moves on between them.\<close>

inductive router_reach :: "(router_env \<Rightarrow> bool) \<Rightarrow> router \<Rightarrow> router \<Rightarrow> bool" for E where
  reach_refl: "router_reach E st st"
| reach_step: "router_reach E st st' \<Longrightarrow> E env \<Longrightarrow> router_step env st' st'' \<Longrightarrow> router_reach E st st''"

context router_keeps
begin

lemma resumes_keeps: "resumes env t st st' \<Longrightarrow> P st \<Longrightarrow> P st'"
  by (induction rule: resumes.induct) auto

lemma step_keeps: "router_step env st st' \<Longrightarrow> P st \<Longrightarrow> P st'"
proof (induction rule: router_step.induct)
  case (step_task t st st')
  then show ?case by (blast intro: resumes_keeps)
next
  case (step_store st opr)
  then show ?case by (auto intro: is_store_opI)
next
  case (step_on st event l)
  then show ?case by (intro listening emitter_change.intros)
next
  case (step_off st event l)
  then show ?case by (intro listening emitter_change.intros)
qed auto

end

section \<open>Listeners\<close>

text \<open>
  Listeners are arbitrary code. An environment is \<open>guarded\<close> by a predicate when the effect of a
  listener that would break the predicate is left out: guarding changes nothing when every listener
  keeps it.
\<close>

definition listeners_keep :: "(router \<Rightarrow> bool) \<Rightarrow> router_env \<Rightarrow> bool" where
  "listeners_keep P env \<longleftrightarrow> (\<forall>cb n st. P st \<longrightarrow> P (re_listen env cb n st))"

definition guarded :: "(router \<Rightarrow> bool) \<Rightarrow> router_env \<Rightarrow> router_env" where
  "guarded P env =
     env\<lparr>re_listen := \<lambda>cb n st. if P st \<longrightarrow> P (re_listen env cb n st) then re_listen env cb n st else st\<rparr>"

lemma guarded_keeps: "P st \<Longrightarrow> P (re_listen (guarded P env) cb n st)"
  by (simp add: guarded_def)

lemma guarded_same:
  assumes "listeners_keep P env"
  shows "guarded P env = env"
proof -
  have "(\<lambda>cb n st. if P st \<longrightarrow> P (re_listen env cb n st) then re_listen env cb n st else st) = re_listen env"
    using assms by (auto simp: listeners_keep_def fun_eq_iff)
  then show ?thesis by (simp add: guarded_def)
qed

section \<open>The composed invariant\<close>

definition epochs_within :: "nat \<Rightarrow> nat \<Rightarrow> epoch_map \<Rightarrow> bool" where
  "epochs_within a b m \<longleftrightarrow>
     (\<forall>(k, v)\<in>set (em_entries m). re_epoch v \<le> a \<and> re_authoritativeEpoch v \<le> b) \<and>
     evictedEpoch m \<le> a \<and> evictedAuthoritativeEpoch m \<le> b"

definition router_inv :: "router \<Rightarrow> bool" where
  "router_inv st \<longleftrightarrow>
     store_inv (rt_store st) \<and> cache_ok (rt_cache st) \<and> prefetch_ok (rt_prefetch st) \<and>
     epochs_ok (resourceEpochs st) \<and>
     epochs_within (resourceEpochCounter st) (resourceEpochCounter st) (resourceEpochs st) \<and>
     emitter_ok (rt_emitter st) \<and> history_ok (rt_history st)"

lemma history_change_ok: "history_change h h' \<Longrightarrow> history_ok h \<Longrightarrow> history_ok h'"
  by (induction rule: history_change.induct) (auto intro: history_ops_ok)

lemma emitter_change_ok: "emitter_change e e' \<Longrightarrow> emitter_ok e \<Longrightarrow> emitter_ok e'"
  by (induction rule: emitter_change.induct)
    (simp_all add: emitter_on_ok emitter_off_ok, simp add: emitter_removeAll_def emitter_ok_def)

lemma epoch_evict_within: "epochs_within a b m \<Longrightarrow> epochs_within a b (epoch_evict m)"
proof (induction m rule: epoch_evict.induct)
  case (1 m)
  show ?case
  proof (cases "length (em_entries m) > MAX_RESOURCE_EPOCH_ENTRIES")
    case True
    then obtain oldest evicted rest where m: "em_entries m = (oldest, evicted) # rest"
      by (cases "em_entries m") auto
    have "set (jm_delete oldest (em_entries m)) \<subseteq> set (em_entries m)" by (rule set_jm_delete)
    with "1.prems" m have "epochs_within a b \<lparr>em_entries = jm_delete oldest (em_entries m),
        evictedEpoch = max (evictedEpoch m) (re_epoch evicted),
        evictedAuthoritativeEpoch = max (evictedAuthoritativeEpoch m) (re_authoritativeEpoch evicted)\<rparr>"
      by (auto simp: epochs_within_def)
    from "1.IH" [OF True m refl this] True m show ?thesis by (simp add: epoch_evict.simps [of m])
  next
    case False
    with "1.prems" show ?thesis by (simp add: epoch_evict.simps [of m])
  qed
qed

lemma epoch_set_within:
  assumes "epochs_within a b m" and "re_epoch v \<le> a" and "re_authoritativeEpoch v \<le> b"
  shows "epochs_within a b (epoch_set k v m)"
proof -
  have "set (jm_set k v (jm_delete k (em_entries m))) \<subseteq> insert (k, v) (set (em_entries m))"
    using set_jm_set_subset [of k v "jm_delete k (em_entries m)"] set_jm_delete [of k "em_entries m"] by blast
  then have "epochs_within a b (m\<lparr>em_entries := jm_set k v (jm_delete k (em_entries m))\<rparr>)"
    using assms by (auto simp: epochs_within_def)
  then show ?thesis by (simp add: epoch_set_def Let_def epoch_evict_within)
qed

lemma epoch_get_within:
  assumes "epochs_within a b m" and "epoch_get k m = Some v"
  shows "re_epoch v \<le> a" and "re_authoritativeEpoch v \<le> b"
  using assms by (auto simp: epoch_get_def epochs_within_def dest!: jm_get_in_set split: option.splits if_splits)

lemma epochs_within_mono: "epochs_within a b m \<Longrightarrow> a \<le> a' \<Longrightarrow> b \<le> b' \<Longrightarrow> epochs_within a' b' m"
  by (fastforce simp: epochs_within_def)

lemma epochs_within_clear [simp]: "epochs_within a b (epoch_clear m)"
  by (simp add: epochs_within_def epoch_clear_def)

lemma bump_fields [simp]:
  "rt_store (snd (bumpResourceEpoch k sp st)) = rt_store st"
  "rt_emitter (snd (bumpResourceEpoch k sp st)) = rt_emitter st"
  "rt_history (snd (bumpResourceEpoch k sp st)) = rt_history st"
  "rt_prefetch (snd (bumpResourceEpoch k sp st)) = rt_prefetch st"
  "rt_cache (snd (bumpResourceEpoch k sp st)) = rt_cache st"
  "resourceEpochCounter (snd (bumpResourceEpoch k sp st)) = resourceEpochCounter st + 1"
  "lifecycleGeneration (snd (bumpResourceEpoch k sp st)) = lifecycleGeneration st"
  "visitCounter (snd (bumpResourceEpoch k sp st)) = visitCounter st"
  by (simp_all add: bumpResourceEpoch_def Let_def)

lemma bump_within:
  assumes old: "epochs_within a b (resourceEpochs st)" and a: "resourceEpochCounter st < a"
    and b: "sp \<or> resourceEpochCounter st < b"
  shows "epochs_within a b (resourceEpochs (snd (bumpResourceEpoch k sp st)))"
  using a b epoch_get_within(2) [OF old, of k]
  by (auto simp: bumpResourceEpoch_def Let_def intro!: epoch_set_within [OF old] split: option.split)

interpretation kept: router_keeps "guarded router_inv env" router_inv for env
proof
  show "router_inv (re_listen (guarded router_inv env) cb n st)" if "router_inv st" for cb n st
    using that by (rule guarded_keeps)
  show "router_inv st'" if "router_inv st" "core st' = core st" for st st'
    using that by (simp add: router_inv_def core_def)
  show "router_inv (st\<lparr>rt_store := run_store_op opr (rt_store st)\<rparr>)" if "router_inv st" for st opr
    using that by (simp add: router_inv_def store_sys.step_inv)
  show "router_inv (st\<lparr>rt_cache := run_cache_op cop (rt_cache st)\<rparr>)" if "router_inv st" for st cop
    using that by (simp add: router_inv_def cache_sys.step_inv)
  show "router_inv (st\<lparr>rt_prefetch := run_prefetch_op pop (rt_prefetch st)\<rparr>)" if "router_inv st" for st pop
    using that by (simp add: router_inv_def prefetch_sys.step_inv)
  show "router_inv (st\<lparr>rt_history := h\<rparr>)" if "router_inv st" "history_change (rt_history st) h" for st h
    using that by (auto simp: router_inv_def intro: history_change_ok)
  show "router_inv (st\<lparr>rt_emitter := e\<rparr>)" if "router_inv st" "emitter_change (rt_emitter st) e" for st e
    using that by (auto simp: router_inv_def intro: emitter_change_ok)
  show "router_inv (snd (bumpResourceEpoch key sp st))" if "router_inv st" for st key sp
  proof -
    have "epochs_ok (resourceEpochs (snd (bumpResourceEpoch key sp st)))"
      using that by (simp add: router_inv_def bumpResourceEpoch_def Let_def epoch_set_ok)
    moreover have "epochs_within (resourceEpochCounter st + 1) (resourceEpochCounter st + 1) (resourceEpochs st)"
      using that by (auto simp: router_inv_def intro: epochs_within_mono)
    note bump_within [OF this, of sp key]
    ultimately show ?thesis using that by (simp add: router_inv_def)
  qed
  show "router_inv (st\<lparr>resourceEpochs := epoch_clear (resourceEpochs st)\<rparr>)" if "router_inv st" for st
    using that by (simp add: router_inv_def) (simp add: epochs_ok_def epoch_clear_def)
  show "router_inv (st\<lparr>rt_page := p\<rparr>)" "router_inv (st\<lparr>rt_scrolls := k\<rparr>)"
    "router_inv (st\<lparr>currentVisitId := None\<rparr>)" "router_inv (st\<lparr>rt_navigations := ns\<rparr>)"
    if "router_inv st" for st p k ns
    using that by (simp_all add: router_inv_def)
  show "router_inv (st\<lparr>currentVisitId := Some (stamped (guarded router_inv env) ''visit'' (visitCounter st0 + 1))\<rparr>)"
    if "router_inv st0" "router_inv st" for st0 st
    using that by (simp add: router_inv_def)
  show "router_inv (st\<lparr>lifecycleGeneration := lifecycleGeneration st + 1\<rparr>)" if "router_inv st" for st
    using that by (simp add: router_inv_def)
  show "router_inv (st\<lparr>visitCounter := visitCounter st + 1\<rparr>)" if "router_inv st" for st
    using that by (simp add: router_inv_def)
qed

text \<open>The life-cycle generation and the visit counter never decrease.\<close>

definition grown :: "nat \<Rightarrow> nat \<Rightarrow> router \<Rightarrow> bool" where
  "grown g v st \<longleftrightarrow> g \<le> lifecycleGeneration st \<and> v \<le> visitCounter st"

interpretation monotone: router_keeps "guarded (grown g v) env" "grown g v" for g v env
proof unfold_locales
  show "grown g v (re_listen (guarded (grown g v) env) cb n st)" if "grown g v st" for cb n st
    using that by (rule guarded_keeps)
qed (auto simp: grown_def core_def)

lemma reach_keeps:
  assumes "router_reach E st st'" and "P st" and "\<And>env. E env \<Longrightarrow> router_keeps env P"
  shows "P st'"
  using assms by (induction rule: router_reach.induct) (auto intro: router_keeps.step_keeps)

text \<open>
  A visit whose identity carries an older number never becomes the current one again: the identities
  are made from the visit counter, which only grows.
\<close>

definition visit_number :: "nat \<Rightarrow> jstring \<Rightarrow> bool" where
  "visit_number n i \<longleftrightarrow> (\<forall>env m. n < m \<longrightarrow> stamped env ''visit'' m \<noteq> i)"

definition superseded :: "nat \<Rightarrow> jstring \<Rightarrow> router \<Rightarrow> bool" where
  "superseded n i st \<longleftrightarrow> visit_number n i \<and> n \<le> visitCounter st \<and> currentVisitId st \<noteq> Some i"

lemma bump_currentVisitId [simp]: "currentVisitId (snd (bumpResourceEpoch k sp st)) = currentVisitId st"
  by (simp add: bumpResourceEpoch_def Let_def)

interpretation overtaken: router_keeps "guarded (superseded n i) env" "superseded n i" for n i env
proof unfold_locales
  show "superseded n i (re_listen (guarded (superseded n i) env) cb k st)" if "superseded n i st" for cb k st
    using that by (rule guarded_keeps)
  show "superseded n i (st\<lparr>currentVisitId := Some (stamped (guarded (superseded n i) env) ''visit'' (visitCounter st0 + 1))\<rparr>)"
    if "superseded n i st0" "superseded n i st" for st0 st
    using that by (auto simp: superseded_def visit_number_def less_Suc_eq_le)
qed (auto simp: superseded_def core_def)

lemma keeps_inv: "listeners_keep router_inv env \<Longrightarrow> router_keeps env router_inv"
  using kept.router_keeps_axioms [of env] by (simp add: guarded_same)

lemma keeps_grown: "listeners_keep (grown g v) env \<Longrightarrow> router_keeps env (grown g v)"
  using monotone.router_keeps_axioms [of g v env] by (simp add: guarded_same)

lemma keeps_superseded: "listeners_keep (superseded n i) env \<Longrightarrow> router_keeps env (superseded n i)"
  using overtaken.router_keeps_axioms [of n i env] by (simp add: guarded_same)

section \<open>Listeners that use the router\<close>

text \<open>
  Listeners that use the router may call it at every point at which they are called: each runs any
  number of router steps, during which listeners may do the same, to any finite depth. A subscriber of
  the resource store is the exception. The code calls it in the middle of a store operation, the model
  when that operation has returned (\<open>on_store\<close>), so it has to leave the router as it is, as a component
  does that only schedules a rendering; what store subscribers can do to the store itself is the
  subject of \<open>Store_Reentry\<close>.
\<close>

definition store_quiet :: "router_env \<Rightarrow> bool" where
  "store_quiet env \<longleftrightarrow> (\<forall>cb st. re_listen env cb RnStore st = st)"

lemma router_reach_mono [mono]:
  assumes "\<And>env. E env \<longrightarrow> F env"
  shows "router_reach E st st' \<longrightarrow> router_reach F st st'"
proof
  assume "router_reach E st st'"
  then show "router_reach F st st'"
    by induction (use assms in \<open>blast intro: router_reach.intros\<close>)+
qed

inductive router_reentrant :: "router_env \<Rightarrow> bool" where
  router_reentrantI: "store_quiet env \<Longrightarrow> (\<And>cb n st. router_reach router_reentrant st (re_listen env cb n st)) \<Longrightarrow> router_reentrant env"

lemma router_reentrant_listeners_keep:
  assumes "router_reentrant env" and "\<And>e. listeners_keep P e \<Longrightarrow> router_keeps e P"
  shows "listeners_keep P env"
  using assms(1)
proof induction
  case (router_reentrantI env)
  have "P (re_listen env cb n st)" if "P st" for cb n st
  proof -
    have "router_reach (\<lambda>e. router_reentrant e \<and> listeners_keep P e) st (re_listen env cb n st)"
      using router_reentrantI.IH by simp
    from reach_keeps [where P = P, OF this that] assms(2) show ?thesis by blast
  qed
  then show ?case by (simp add: listeners_keep_def)
qed

lemma router_reentrant_keeps: "router_reentrant env \<Longrightarrow> (\<And>e. listeners_keep P e \<Longrightarrow> router_keeps e P) \<Longrightarrow> router_keeps env P"
  using router_reentrant_listeners_keep by blast

lemma router_quiet_reentrant: "(\<And>cb n st. re_listen env cb n st = st) \<Longrightarrow> router_reentrant env"
  by (auto intro!: router_reentrantI simp: store_quiet_def intro: reach_refl)

lemma router_reentrant_step:
  assumes "store_quiet env" and "\<And>cb n st. re_listen env cb n st = st \<or>
      (\<exists>e. router_reentrant e \<and> router_step e st (re_listen env cb n st))"
  shows "router_reentrant env"
proof (rule router_reentrantI [OF assms(1)])
  fix cb n st
  show "router_reach router_reentrant st (re_listen env cb n st)"
    using assms(2) [where cb = cb and n = n and st = st]
    by (metis reach_refl reach_step)
qed

end
