(* ===== verification/Router_Theorems.thy ===== *)
theory Router_Theorems
  imports Router_Steps Live_Manager_Theorems
begin

text \<open>
  What the router promises over whole executions: the composed invariant, and that work begun before
  \<open>clear\<close> is inert after it.
\<close>

section \<open>A sample router\<close>

definition sample_env :: router_env where
  "sample_env = \<lparr>re_listen = (\<lambda>cb n st. st), re_live = quiet_env, re_now = 7, re_urlPath = (\<lambda>_. None),
     re_localeLe = (\<lambda>a b. a \<le> b)\<rparr>"

definition sample_options :: router_options where
  "sample_options = \<lparr>ro_resourceStore = None, ro_pageStore = None, ro_history = None,
     ro_prefetchManager = None, ro_pageCache = None, ro_liveManager = None, ro_liveBatchDelayMs = None,
     ro_initialEnvelope = None, ro_initialPage = None, ro_initialResources = None, ro_maxResources = None,
     ro_maxPages = None, ro_deferHistory = False, ro_isBrowser = True\<rparr>"

lemma sample_quiet: "listeners_keep P sample_env"
  by (simp add: listeners_keep_def sample_env_def)

lemma sample_reentrant: "router_reentrant sample_env"
  by (rule router_quiet_reentrant) (simp add: sample_env_def)

text \<open>An application that refreshes the page whenever it is told that a visit succeeded.\<close>

definition eager_app :: router_env where
  "eager_app = sample_env\<lparr>re_listen := \<lambda>cb n st.
     (case n of RnEvent (VisitSuccess i url component) \<Rightarrow> refresh sample_env None st | _ \<Rightarrow> st)\<rparr>"

lemma eager_reentrant: "router_reentrant eager_app"
proof (rule router_reentrant_step)
  show "store_quiet eager_app" by (simp add: store_quiet_def eager_app_def)
  show "re_listen eager_app cb n st = st \<or> (\<exists>e. router_reentrant e \<and> router_step e st (re_listen eager_app cb n st))"
    for cb n st
    using sample_reentrant step_refresh [of sample_env st None]
    by (auto simp: eager_app_def split: router_note.split flux_event.split)
qed

lemma sample_router: "\<exists>st. new_router sample_env (js ''me'') sample_options = Inr st"
proof -
  have "(case new_router sample_env (js ''me'') sample_options of Inl _ \<Rightarrow> False | Inr _ \<Rightarrow> True)"
    by code_simp
  then show ?thesis by (simp split: sum.splits)
qed

lemma sample_step: "router_step sample_env st st' \<Longrightarrow> router_reach (\<lambda>e. e = sample_env) st st'"
  by (rule reach_step [OF reach_refl]) simp_all

section \<open>The composed invariant\<close>

text \<open>The parts handed to the constructor satisfy their own invariants.\<close>

definition options_ok :: "router_options \<Rightarrow> bool" where
  "options_ok options \<longleftrightarrow>
     pred_option store_inv (ro_resourceStore options) \<and> pred_option cache_ok (ro_pageCache options) \<and>
     pred_option prefetch_ok (ro_prefetchManager options) \<and> pred_option history_ok (ro_history options)"

lemma or_make_Inr: "or_make given made = Inr x \<longleftrightarrow> given = Some x \<or> (given = None \<and> made = Inr x)"
  by (auto simp: or_make_def split: option.split)

lemma router_parts_inv:
  assumes "options_ok options" and "router_parts fresh options = Inr st"
  shows "router_inv st"
proof -
  obtain s c where "rt_store st = s" "or_make (ro_resourceStore options) (new_store (ro_maxResources options)) = Inr s"
    and "rt_cache st = c" "or_make (ro_pageCache options) (new_page_cache (ro_maxPages options)) = Inr c"
    using assms(2) by (auto simp: router_parts_def Let_def)
  then have "store_inv (rt_store st)" and "cache_ok (rt_cache st)"
    using assms(1) by (auto simp: or_make_Inr options_ok_def new_store_inv new_page_cache_ok)
  moreover have "prefetch_ok (rt_prefetch st)" and "history_ok (rt_history st)"
    using assms history_ops_ok(1) prefetch_sys.init_inv
    by (auto simp: router_parts_def Let_def options_ok_def split: option.split)
  moreover have "epochs_ok (resourceEpochs st)"
    and "epochs_within (resourceEpochCounter st) (resourceEpochCounter st) (resourceEpochs st)"
    and "emitter_ok (rt_emitter st)"
    using assms(2)
    by (auto simp: router_parts_def Let_def new_epoch_map_def epochs_ok_def epochs_within_def emitter_ok_def)
  ultimately show ?thesis by (simp add: router_inv_def)
qed

context router_keeps
begin

lemma emitResourceUpdates_keeps [intro!]: "P st \<Longrightarrow> P (emitResourceUpdates env keys st)"
  by (auto simp: emitResourceUpdates_def)

lemma initial_resources_keeps [intro!]: "P st \<Longrightarrow> P (initial_resources env options st)"
  unfolding initial_resources_def by (rule binding_rules | blast)+

lemma initial_envelope_keeps:
  assumes "P st" and "initial_envelope env envelope st = Inr st'"
  shows "P st'"
proof -
  define st1 where "st1 = fold (\<lambda>(key, err). upd_store env (setResourceError key err))
    (absent_list (env_resourceErrors envelope)) st"
  define st2 where "st2 = (if absent_list (env_deferred envelope) = [] then st1
     else (upd_store env (markPending (absent_list (env_deferred envelope))) st1)
       \<lparr>initialDeferredBatch := Some (absent_list (env_deferred envelope), or_root (pd_url (env_page envelope)))\<rparr>)"
  define r where "r = update_manifest env (or_root (pd_url (env_page envelope))) (absent_list (env_live envelope))
    (cachePageEnvelope env envelope None st2)"
  have "P st1" unfolding st1_def by (rule fold_keeps) (use assms(1) in auto)
  then have "P st2" unfolding st2_def by (intro if_state) blast+
  then have "P (snd r)" unfolding r_def by blast
  moreover have "st' = snd r"
    using assms(2) unfolding initial_envelope_def Let_def st1_def [symmetric] st2_def [symmetric] r_def [symmetric]
    by (auto split: prod.splits option.splits)
  ultimately show ?thesis by simp
qed

lemma new_router_keeps:
  assumes "\<And>st. router_parts fresh options = Inr st \<Longrightarrow> P st" and "new_router env fresh options = Inr st'"
  shows "P st'"
proof -
  obtain st st2 where st: "router_parts fresh options = Inr st" and st2:
    "(case ro_initialEnvelope options of
        Some envelope \<Rightarrow> initial_envelope env envelope (initial_resources env options st)
      | None \<Rightarrow> Inr (case ro_initialPage options of None \<Rightarrow> initial_resources env options st
          | Some page \<Rightarrow> (initial_resources env options st)\<lparr>rt_cache := cache_set page
              (exportKnown (rt_store (initial_resources env options st))) None
              (rt_cache (initial_resources env options st))\<rparr>)) = Inr st2"
    and st': "st' = (if ro_deferHistory options then st2 else startHistory st2)"
    using assms(2) by (auto simp: new_router_def Let_def)
  have st1: "P (initial_resources env options st)" using assms(1) [OF st] by blast
  have "P st2"
    using st2 initial_envelope_keeps [OF st1] cached [OF st1, of "CacheSet page res m" for page res m] st1
    by (auto split: option.splits)
  then show ?thesis unfolding st' by (intro if_state) auto
qed

lemma end_generation_after:
  assumes "P (st\<lparr>lifecycleGeneration := lifecycleGeneration st + 1\<rparr>)"
  shows "P (snd (end_generation env st))"
  unfolding end_generation_def by (rule binding_rules | use assms in blast)+

lemma clear_after:
  assumes "P (st\<lparr>lifecycleGeneration := lifecycleGeneration st + 1\<rparr>)"
  shows "P (snd (clear env st))"
proof -
  note e = end_generation_after [OF assms]
  show ?thesis unfolding clear_def by (rule binding_rules e | blast)+
qed

end



section \<open>The end of a generation\<close>

text \<open>What a page shows and what the browser sees.\<close>

definition shown where
  "shown st = (rt_store st, rt_page st, rt_cache st, rt_history st, rt_prefetch st, resourceEpochs st,
     rt_navigations st, rt_scrolls st)"

lemma shown_settle [simp]: "shown (settle w r st) = shown st"
  by (simp add: shown_def settle_def add_task_def)

lemma shown_load_finally [simp]: "shown (load_finally lk st) = shown st"
  by (simp add: shown_def load_finally_def)

lemma stale_generation_inert:
  "lk_generation lk \<noteq> lifecycleGeneration st \<Longrightarrow> shown (load_answer env lk envelope st) = shown st"
  "lk_generation lk \<noteq> lifecycleGeneration st \<Longrightarrow> shown (load_failure env lk err st) = shown st"
  "mu_generation mu \<noteq> lifecycleGeneration st \<Longrightarrow> mutation_answer env mu answer st = st"
  "pt_generation pt \<noteq> lifecycleGeneration st \<Longrightarrow> prefetch_arrived env pt envelope st = st"
  by (simp_all add: load_answer_def load_failure_def mutation_answer_def mutation_failed_def
      mutation_applied_def prefetch_arrived_def split: sum.split)


definition sample_load :: load_task where
  "sample_load = \<lparr>lk_id = js ''l'', lk_event = \<lparr>le_url = js ''/a'', le_keys = [js ''a''], le_reason = ReasonRefresh\<rparr>,
     lk_known = [], lk_captured = [(js ''a'', 1)], lk_generation = 0, lk_signal = None, lk_waiter = WNone\<rparr>"

definition sample_mutation :: mutation_task where
  "sample_mutation = \<lparr>mu_url = js ''/m'', mu_method = js ''POST'', mu_preserveScroll = False, mu_generation = 0,
     mu_visitCounter = 0, mu_id = None\<rparr>"

definition sample_prefetch :: prefetch_task where
  "sample_prefetch = \<lparr>pt_url = js ''/p'', pt_id = None, pt_known = [], pt_startedAtEpoch = 0, pt_generation = 0\<rparr>"

definition sample_page :: page_envelope where
  "sample_page = \<lparr>env_ref = 1, env_page = \<lparr>pd_component = js ''Page'', pd_url = js ''/a'', pd_meta = None\<rparr>,
     env_resources = [(js ''a'', \<lparr>w_version = js ''v2'', w_value = JBool True\<rparr>),
                      (js ''b'', \<lparr>w_version = js ''v3'', w_value = JBool False\<rparr>)],
     env_resourceKeys = Some [js ''a'', js ''b''], env_deferred = None, env_live = None, env_resourceErrors = None,
     env_appVersion = None\<rparr>"


text \<open>
  What the generation does not guard: the mutation that awaits the visit of its redirect. When that
  visit fails with a 404, the mutation makes the browser navigate to the redirect, whatever the
  life-cycle generation is by then.
\<close>

lemma redirect_continues_after_clear:
  assumes "mp_redirect payload = Some url" and "th_class err = TransportError (Some 404)"
  shows "resume_waiter env (WRedirect mu payload) (Some err) st =
    mutation_success env mu payload (st\<lparr>rt_navigations := rt_navigations st @ [url]\<rparr>)"
  using assms by (simp add: resume_waiter_def hard_navigate_def)

end
