(* ===== verification/Router_Updates.thy ===== *)
theory Router_Updates
  imports Router_Theorems
begin

text \<open>
  Who may write a resource: a navigation, a load and a prefetch leave alone the keys for which newer
  work was begun.
\<close>

section \<open>Keys left alone\<close>

text \<open>The record of the key is what it was, or it was dropped to make room.\<close>

definition only_forgets :: "rkey \<Rightarrow> store \<Rightarrow> store \<Rightarrow> bool" where
  "only_forgets key s t \<longleftrightarrow>
     jm_get (records t) key = jm_get (records s) key \<or> jm_get (records t) key = None"

lemma only_forgets_refl [simp]: "only_forgets key s s"
  by (simp add: only_forgets_def)

lemma only_forgets_trans: "only_forgets key s t \<Longrightarrow> only_forgets key t u \<Longrightarrow> only_forgets key s u"
  by (auto simp: only_forgets_def)

lemma only_forgets_same: "records t = records s \<Longrightarrow> only_forgets key s t"
  by (simp add: only_forgets_def)

lemma invalidate_forgets: "only_forgets key s (invalidate k s)"
  by (auto simp: only_forgets_def invalidate_def Let_def jmap_simps)

lemma evictIfNeeded_forgets: "only_forgets key s (evictIfNeeded s)"
proof (induction s rule: evictIfNeeded.induct)
  case (1 s)
  show ?case
  proof (cases "lruOrder s")
    case (Cons oldest rest)
    have "only_forgets key s (invalidate oldest (s\<lparr>lruOrder := rest\<rparr>))"
      using invalidate_forgets [of key "s\<lparr>lruOrder := rest\<rparr>" oldest] by (simp add: only_forgets_def)
    with 1 Cons show ?thesis
      by (auto simp: evictIfNeeded.simps [of s] intro: only_forgets_trans)
  qed (simp add: evictIfNeeded.simps [of s])
qed

lemma updateStateSnapshot_forgets:
  assumes "records t = records s"
  shows "only_forgets key s (snd (updateStateSnapshot k status err stale t))"
proof -
  have "only_forgets key s (evictIfNeeded u)" if "records u = records s" for u
    using evictIfNeeded_forgets [of key u] that by (simp add: only_forgets_def)
  with assms show ?thesis
    by (auto simp: updateStateSnapshot_def Let_def removeFromLru_def touchLru_def intro: only_forgets_same)
qed

lemma mark_status_forgets: "only_forgets key s (mark_status status err k s)"
  using updateStateSnapshot_forgets [of "s\<lparr>staleKeys := ks\<rparr>" s key k status err b for ks b]
    updateStateSnapshot_forgets [of s s key k status err]
  by (auto simp: mark_status_def Let_def split_beta only_forgets_def)

lemma marks_forget:
  "only_forgets key s (setResourceError k err s)"
  "only_forgets key s (markPending [k] s)"
  "only_forgets key s (markLoading [k] s)"
  by (simp_all add: setResourceError_def markPending_def markLoading_def mark_status_forgets)

lemma markStale_forgets: "only_forgets key s (markStale k s)"
  using updateStateSnapshot_forgets [of "snd (getStateSnapshot k (s\<lparr>staleKeys := ks\<rparr>))" s key k status err b
      for ks status err b]
  by (auto simp: markStale_def Let_def split_beta only_forgets_def)

lemma store_set_forgets:
  assumes "k \<noteq> key"
  shows "only_forgets key s (snd (store_set now k version val s))"
proof -
  let ?u = "snd (updateStateSnapshot k Ready None False (set_written now k version val s))"
  have "only_forgets key s (set_written now k version val s)"
    using assms by (simp add: only_forgets_def jmap_simps)
  then have "only_forgets key s ?u" using updateStateSnapshot_forgets [OF refl] by (rule only_forgets_trans)
  then have "only_forgets key s (touchLru k ?u)" by (simp add: only_forgets_def)
  then have "only_forgets key s (evictIfNeeded (touchLru k ?u))" using evictIfNeeded_forgets by (rule only_forgets_trans)
  then show ?thesis by (auto simp: store_set_eq only_forgets_def)
qed

lemma reads_forget:
  "only_forgets key s (snd (getRecord k s))"
  "only_forgets key s (snd (getStateSnapshot k s))"
  by (simp_all add: only_forgets_def)

lemma read_ops_records:
  "records (snd (all_valid entry keys s)) = records s"
  "records (snd (settle_keys entry keys versions pending s)) = records s"
proof -
  show "records (snd (all_valid entry keys s)) = records s"
    using all_valid_iff(2) [of s entry keys] by (simp add: same_contents_def)
  show "records (snd (settle_keys entry keys versions pending s)) = records s"
    by (induction keys arbitrary: s versions pending) (auto simp: Let_def split_beta)
qed

section \<open>The router leaves a key alone\<close>

text \<open>A later state has no new value for the key and the same epoch of it.\<close>

definition left_alone :: "rkey \<Rightarrow> router \<Rightarrow> router \<Rightarrow> bool" where
  "left_alone key st0 st \<longleftrightarrow>
     only_forgets key (rt_store st0) (rt_store st) \<and> epoch_of st key = epoch_of st0 key"

definition listeners_leave :: "rkey \<Rightarrow> router_env \<Rightarrow> bool" where
  "listeners_leave key env \<longleftrightarrow> (\<forall>cb n st. left_alone key st (re_listen env cb n st))"

lemma left_alone_refl [simp]: "left_alone key st st"
  by (simp add: left_alone_def)

lemma left_alone_trans: "left_alone key st0 st \<Longrightarrow> left_alone key st st' \<Longrightarrow> left_alone key st0 st'"
  by (auto simp: left_alone_def intro: only_forgets_trans)

lemma left_alone_store:
  assumes "left_alone key st0 st" and "only_forgets key (rt_store st) s"
  shows "left_alone key st0 (st\<lparr>rt_store := s\<rparr>)"
  using assms by (auto simp: left_alone_def epoch_of_def intro: only_forgets_trans)

text \<open>
  Listeners are guarded as before: an environment whose listeners leave the key alone is unchanged by
  the guard.
\<close>

definition leaving :: "rkey \<Rightarrow> router_env \<Rightarrow> router_env" where
  "leaving key env =
     env\<lparr>re_listen := \<lambda>cb n st. if left_alone key st (re_listen env cb n st) then re_listen env cb n st else st\<rparr>"

lemma leaving_same: "listeners_leave key env \<Longrightarrow> leaving key env = env"
  by (simp add: leaving_def listeners_leave_def)

interpretation leave: router_frame "leaving key env" "left_alone key st0" for key env st0
proof
  show "left_alone key st0 (re_listen (leaving key env) cb n st)" if "left_alone key st0 st" for cb n st
    using that by (simp add: leaving_def left_alone_trans)
  show "left_alone key st0 st'" if "left_alone key st0 st" "core st' = core st" for st st'
    using that by (simp add: left_alone_def core_def epoch_of_def)
qed

lemma left_alone_on_store:
  assumes "left_alone key st0 st" and "only_forgets key (rt_store st) (snd (f (rt_store st)))"
  shows "left_alone key st0 (snd (on_store (leaving key env) f st))"
  by (rule leave.on_store_frame) (rule left_alone_store [OF assms])

lemma left_alone_upd_store:
  assumes "left_alone key st0 st" and "only_forgets key (rt_store st) (f (rt_store st))"
  shows "left_alone key st0 (upd_store (leaving key env) f st)"
  by (rule leave.upd_store_frame) (rule left_alone_store [OF assms])

lemmas left_alone_rules = left_alone_on_store left_alone_upd_store invalidate_forgets marks_forget
  markStale_forgets store_set_forgets reads_forget

section \<open>Loads\<close>

text \<open>What the store holds of a key.\<close>

definition entry_of :: "rkey \<Rightarrow> store \<Rightarrow> resource_record option \<times> state_snapshot option \<times> bool" where
  "entry_of key s = (jm_get (records s) key, jm_get (stateSnapshots s) key, key \<in> set (staleKeys s))"

definition absent :: "resource_record option \<times> state_snapshot option \<times> bool" where
  "absent = (None, None, False)"

definition store_keys :: "store \<Rightarrow> rkey set" where
  "store_keys s = {k. jm_has (stateSnapshots s) k}"

text \<open>The store has room for its own keys and for \<open>K\<close>.\<close>

definition roomy :: "rkey set \<Rightarrow> store \<Rightarrow> bool" where
  "roomy K s \<longleftrightarrow> card (K \<union> store_keys s) \<le> maxResources s"

text \<open>
  The store may have changed at the keys of \<open>K\<close>; of \<open>key\<close> it holds all it held or nothing, and it holds
  all of it unless it had no room for \<open>K\<close>.
\<close>

definition spares :: "rkey \<Rightarrow> rkey set \<Rightarrow> store \<Rightarrow> store \<Rightarrow> bool" where
  "spares key K s t \<longleftrightarrow>
     (store_inv s \<longrightarrow> store_inv t \<and> maxResources t = maxResources s \<and> store_keys t \<subseteq> K \<union> store_keys s \<and>
        entry_of key t \<in> {entry_of key s, absent} \<and> (roomy K s \<longrightarrow> entry_of key t = entry_of key s))"

lemma finite_store_keys [simp]: "finite (store_keys s)"
proof -
  have "store_keys s = fst ` set (stateSnapshots s)" by (auto simp: store_keys_def jm_has_def)
  then show ?thesis by simp
qed

lemma length_snapshots: "store_struct s \<Longrightarrow> length (stateSnapshots s) = card (store_keys s)"
proof -
  assume "store_struct s"
  then have "distinct (map fst (stateSnapshots s))" by (simp add: store_struct_def jm_wf_def)
  moreover have "store_keys s = set (map fst (stateSnapshots s))" by (auto simp: store_keys_def jm_has_def)
  ultimately show ?thesis using distinct_card by fastforce
qed

lemma length_records_le:
  assumes "store_ok s"
  shows "length (records s) \<le> length (stateSnapshots s)"
proof -
  have struct: "store_struct s" by (rule store_ok_key(6) [OF assms])
  have "set (map fst (records s)) \<subseteq> store_keys s"
    using store_ok_key(4) [OF assms] by (auto simp: store_keys_def jm_has_def)
  then have "card (set (map fst (records s))) \<le> card (store_keys s)" by (rule card_mono [OF finite_store_keys])
  moreover have "length (records s) = card (set (map fst (records s)))"
    using struct by (metis distinct_card jm_wf_def length_map store_struct_def)
  ultimately show ?thesis by (simp add: length_snapshots [OF struct])
qed

lemma roomy_capacity:
  assumes "store_ok t" and "store_keys t \<subseteq> K" and "finite K" and "card K \<le> maxResources t"
  shows "within_capacity t"
proof -
  have "length (stateSnapshots t) \<le> card K"
    using length_snapshots [OF store_ok_key(6) [OF assms(1)]] card_mono [OF assms(3,2)] by simp
  with length_records_le [OF assms(1)] assms(4) show ?thesis by (simp add: within_capacity_def)
qed

lemma spares_trans:
  assumes "spares key K s t" and "spares key K t u" and "finite K"
  shows "spares key K s u"
proof -
  have "roomy K t" if "roomy K s" "store_keys t \<subseteq> K \<union> store_keys s" "maxResources t = maxResources s"
  proof -
    have "card (K \<union> store_keys t) \<le> card (K \<union> store_keys s)"
      by (rule card_mono) (use that assms(3) in auto)
    with that show ?thesis by (simp add: roomy_def)
  qed
  with assms show ?thesis unfolding spares_def by (auto simp: absent_def)
qed

lemma spares_same:
  assumes "store_inv s \<Longrightarrow> store_inv t" and "maxResources t = maxResources s"
    and "records t = records s" and "stateSnapshots t = stateSnapshots s" and "staleKeys t = staleKeys s"
  shows "spares key K s t"
  using assms by (auto simp: spares_def entry_of_def store_keys_def)

lemma spares_refl: "spares key K s s"
  by (simp add: spares_same)

text \<open>An eviction after a change of other keys.\<close>

lemma spares_evict:
  assumes "store_ok t" and "maxResources t = maxResources s" and "store_keys t \<subseteq> K \<union> store_keys s"
    and "entry_of key t = entry_of key s" and "finite K"
  shows "spares key K s (evictIfNeeded t)"
proof -
  obtain ks where ks: "evicts ks t (evictIfNeeded t)" using evictIfNeeded_evicts [OF assms(1)] by blast
  have e: "entry_of key (evictIfNeeded t) = (if key \<in> set ks then absent else entry_of key t)"
    using ks by (simp add: entry_of_def evicts_def absent_def)
  have "store_keys (evictIfNeeded t) \<subseteq> store_keys t"
    using ks by (auto simp: store_keys_def evicts_def jm_has_iff split: if_splits)
  moreover have "evictIfNeeded t = t" if "roomy K s"
  proof (rule evictIfNeeded_idle)
    show "within_capacity t"
      by (rule roomy_capacity [OF assms(1,3)]) (use that assms(2,5) in \<open>simp_all add: roomy_def\<close>)
  qed
  ultimately show ?thesis
    using evictIfNeeded_inv [OF assms(1)] assms e by (auto simp: spares_def split: if_splits)
qed

lemma entry_of_notify [simp]: "entry_of key (notify k s) = entry_of key s" "store_keys (notify k s) = store_keys s"
  by (simp_all add: entry_of_def store_keys_def)

lemma spares_notify [simp]: "spares key K s (notify k t) = spares key K s t"
  by (simp add: spares_def)

lemma spares_updated:
  assumes pre: "upd_pre k status err stale t" and "status \<noteq> Missing" and cap: "within_capacity t"
    and "maxResources t = maxResources s" and "store_keys t \<subseteq> K \<union> store_keys s"
    and "entry_of key t = entry_of key s" and "k \<noteq> key" and "k \<in> K" and "finite K"
  shows "spares key K s (snd (updateStateSnapshot k status err stale t))"
proof (rule updateStateSnapshot_cases [OF pre])
  assume "upd_unchanged k status err stale t" and "updateStateSnapshot k status err stale t = (False, t)"
  then show ?thesis using upd_unchanged_ok [OF pre] cap assms(4-6) by (auto simp: spares_def store_inv_def)
next
  assume eq: "updateStateSnapshot k status err stale t = (True, evictIfNeeded (upd_written k status err stale t))"
  have "spares key K s (evictIfNeeded (upd_written k status err stale t))"
    by (rule spares_evict [OF upd_written_ok [OF pre assms(2)]])
      (use assms in \<open>auto simp: entry_of_def store_keys_def jmap_simps\<close>)
  then show ?thesis by (simp add: eq)
qed (use assms(2) in simp)

lemma mark_status_spares:
  assumes "k \<noteq> key" and "k \<in> K" and "finite K" and "status \<noteq> Missing" and "status \<noteq> Ready"
    and "status = Error \<longleftrightarrow> err \<noteq> None"
  shows "spares key K s (mark_status status err k s)"
proof (cases "store_inv s")
  case True
  let ?w = "with_stale_mark k s"
  have pre: "upd_pre k status err (jm_has (records s) k) ?w"
    by (rule mark_status_pre) (use True assms in \<open>auto simp: store_inv_def\<close>)
  have "spares key K s (snd (updateStateSnapshot k status err (jm_has (records s) k) ?w))"
    by (rule spares_updated [OF pre assms(4)])
      (use True assms in \<open>auto simp: store_inv_def within_capacity_def entry_of_def store_keys_def\<close>)
  then show ?thesis by (simp add: mark_status_eq Let_def)
qed (simp add: spares_def)

lemma setResourceError_spares:
  "k \<noteq> key \<Longrightarrow> k \<in> K \<Longrightarrow> finite K \<Longrightarrow> spares key K s (setResourceError k err s)"
  by (simp add: setResourceError_def mark_status_spares)

lemma invalidate_spares: "k \<noteq> key \<Longrightarrow> spares key K s (invalidate k s)"
  by (auto simp: spares_def store_inv_invalidate entry_of_def store_keys_def jmap_simps)

lemma touch_spares:
  "jm_has (records s) k \<or> jm_has (stateSnapshots s) k \<Longrightarrow> spares key K s (touchLru k s)"
  by (rule spares_same) (simp_all add: store_inv_def store_ok_touchLru)

lemma read_spares:
  "spares key K s (snd (getRecord k s))" "spares key K s (snd (getStateSnapshot k s))"
  by (rule spares_same, simp_all add: store_inv_getRecord store_inv_getStateSnapshot)+

lemma store_set_spares:
  assumes "k \<noteq> key" and "k \<in> K" and "finite K"
  shows "spares key K s (snd (store_set now k version val s))"
proof (cases "set_skips k version s")
  case True
  then have "jm_has (records s) k" by (auto simp: set_skips_def jm_has_iff)
  then have "spares key K s (touchLru k (snd (getStateSnapshot k s)))"
    by (intro spares_trans [OF read_spares(2) touch_spares assms(3)]) simp
  with True show ?thesis by (simp add: store_set_eq)
next
  case False
  show ?thesis
  proof (cases "store_inv s")
    case True
    let ?w = "set_written now k version val s"
    let ?u = "snd (updateStateSnapshot k Ready None False ?w)"
    have pre: "upd_pre k Ready None False ?w" by (rule set_written_pre) (use True in \<open>simp add: store_inv_def\<close>)
    have w: "maxResources ?w = maxResources s" "store_keys ?w \<subseteq> K \<union> store_keys s" "entry_of key ?w = entry_of key s"
      using assms(1) by (auto simp: entry_of_def store_keys_def jmap_simps)
    have u: "spares key K s ?u"
    proof (rule updateStateSnapshot_cases [OF pre])
      assume "upd_unchanged k Ready None False ?w" and eq: "updateStateSnapshot k Ready None False ?w = (False, ?w)"
      then have "jm_has (stateSnapshots s) k"
        by (auto simp: upd_unchanged_def snapshot_of_def MISSING_RESOURCE_STATE_def Let_def jm_has_iff
            split: option.splits)
      with \<open>upd_unchanged k Ready None False ?w\<close> have ok: "store_ok ?w" using upd_unchanged_ok [OF pre] by blast
      have "length (stateSnapshots ?w) \<le> maxResources ?w"
        using True by (simp add: store_inv_def within_capacity_def)
      with length_records_le [OF ok] have "within_capacity ?w" by (simp add: within_capacity_def)
      with ok w eq show ?thesis by (auto simp: spares_def store_inv_def)
    next
      assume eq: "updateStateSnapshot k Ready None False ?w = (True, evictIfNeeded (upd_written k Ready None False ?w))"
      have "spares key K s (evictIfNeeded (upd_written k Ready None False ?w))"
        by (rule spares_evict [OF upd_written_ok [OF pre]])
          (use assms w in \<open>auto simp: entry_of_def store_keys_def jmap_simps\<close>)
      then show ?thesis by (simp add: eq)
    qed simp
    have "jm_get (records ?u) k \<noteq> None" using updateStateSnapshot_key(1) [OF pre] by (simp add: jmap_simps)
    then have touched: "spares key K ?u (touchLru k ?u)" by (intro touch_spares) (auto simp: jm_has_iff)
    have "store_inv ?u" using u True by (simp add: spares_def)
    then have "store_inv (touchLru k ?u)" using touched by (simp add: spares_def)
    then have "evictIfNeeded (touchLru k ?u) = touchLru k ?u" by (simp add: evictIfNeeded_idle store_inv_def)
    with spares_trans [OF u touched assms(3)] False show ?thesis by (simp add: store_set_eq)
  qed (simp add: spares_def)
qed

lemma settle_keys_spares: "spares key (set ks) s (snd (settle_keys entry keys versions pending s))"
proof (induction keys arbitrary: s versions pending)
  case (Cons k keys)
  have read: "spares key (set ks) s (snd (getRecord k (snd (getStateSnapshot k s))))"
    by (rule spares_trans [OF read_spares(2) read_spares(1)]) simp
  note step = spares_trans [OF read _ finite_set]
  show ?case using Cons read step by (auto simp: Let_def split_beta)
qed (simp add: spares_refl)

lemma settleResources_spares: "spares key (set ks) s (snd (settleResources url keys c s))"
  using settle_keys_spares [of key ks s _ keys]
  by (auto simp: settleResources_def Let_def spares_refl split: option.split prod.split) (metis snd_conv)+

text \<open>A later state of the router has spared a key from the start of the load.\<close>

definition spared :: "rkey \<Rightarrow> rkey list \<Rightarrow> router \<Rightarrow> router \<Rightarrow> bool" where
  "spared key ks st0 st \<longleftrightarrow>
     spares key (set ks) (rt_store st0) (rt_store st) \<and> epoch_of st key = epoch_of st0 key"

definition listeners_spare :: "rkey \<Rightarrow> rkey list \<Rightarrow> router_env \<Rightarrow> bool" where
  "listeners_spare key ks env \<longleftrightarrow> (\<forall>cb n st. spared key ks st (re_listen env cb n st))"

definition sparing :: "rkey \<Rightarrow> rkey list \<Rightarrow> router_env \<Rightarrow> router_env" where
  "sparing key ks env =
     env\<lparr>re_listen := \<lambda>cb n st. if spared key ks st (re_listen env cb n st) then re_listen env cb n st else st\<rparr>"

lemma spared_refl [simp]: "spared key ks st st"
  by (simp add: spared_def spares_refl)

lemma spared_trans: "spared key ks st0 st \<Longrightarrow> spared key ks st st' \<Longrightarrow> spared key ks st0 st'"
  using spares_trans by (fastforce simp: spared_def)

lemma spared_store:
  assumes "spared key ks st0 st" and "spares key (set ks) (rt_store st) s"
  shows "spared key ks st0 (st\<lparr>rt_store := s\<rparr>)"
  using assms spares_trans [OF _ assms(2)] by (simp add: spared_def epoch_of_def)

lemma sparing_same: "listeners_spare key ks env \<Longrightarrow> sparing key ks env = env"
  by (simp add: sparing_def listeners_spare_def)

interpretation spare: router_frame "sparing key ks env" "spared key ks st0" for key ks env st0
proof
  show "spared key ks st0 (re_listen (sparing key ks env) cb n st)" if "spared key ks st0 st" for cb n st
    using that by (simp add: sparing_def spared_trans)
  show "spared key ks st0 st'" if "spared key ks st0 st" "core st' = core st" for st st'
    using that by (simp add: spared_def core_def epoch_of_def)
qed

lemma spared_on_store:
  assumes "spared key ks st0 st" and "spares key (set ks) (rt_store st) (snd (f (rt_store st)))"
  shows "spared key ks st0 (snd (on_store (sparing key ks env) f st))"
  by (rule spare.on_store_frame) (rule spared_store [OF assms])

lemma spared_upd_store:
  assumes "spared key ks st0 st" and "spares key (set ks) (rt_store st) (f (rt_store st))"
  shows "spared key ks st0 (upd_store (sparing key ks env) f st)"
  by (rule spare.upd_store_frame) (rule spared_store [OF assms])

lemmas spared_rules = spared_on_store spared_upd_store invalidate_spares setResourceError_spares
  store_set_spares read_spares finite_set

lemma write_resource_spares:
  "spared key ks st0 st \<Longrightarrow> k \<noteq> key \<Longrightarrow> k \<in> set ks \<Longrightarrow>
   spared key ks st0 (snd (write_resource (sparing key ks env) lk k version val st))"
  unfolding write_resource_def
  by (rule spare.binding_rules spared_rules spare.announce_update_keeps | assumption)+

lemma settle_key_spares:
  "spared key ks st0 st \<Longrightarrow> k \<noteq> key \<Longrightarrow> k \<in> set ks \<Longrightarrow>
   spared key ks st0 (snd (settle_key (sparing key ks env) lk envelope k st))"
  unfolding settle_key_def
  by (rule spare.binding_rules spared_rules write_resource_spares spare.announce_error_keeps
      spare.diagnostic_keeps | assumption)+

lemma settle_loaded_spares:
  assumes "epoch_of st0 key \<noteq> jm_get (lk_captured lk) key" and "spared key ks st0 st" and "set keys \<subseteq> set ks"
  shows "spared key ks st0 (snd (settle_loaded (sparing key ks env) lk envelope keys acc st))"
  using assms(2,3)
proof (induction keys arbitrary: st acc)
  case (Cons k keys)
  have "spared key ks st0 (snd (settle_key (sparing key ks env) lk envelope k st))"
    if "epoch_of st k = jm_get (lk_captured lk) k"
  proof (rule settle_key_spares [OF Cons.prems(1)])
    show "k \<noteq> key" using that assms(1) Cons.prems by (auto simp: spared_def)
    show "k \<in> set ks" using Cons.prems(2) by simp
  qed
  with Cons show ?case by (auto split: prod.split bool.split)
qed simp

lemma settle_cache_spares: "spared key ks st0 st \<Longrightarrow> spared key ks st0 (settle_cache url keys st)"
proof -
  assume s: "spared key ks st0 st"
  have "spares key (set ks) (rt_store st) (snd (settleResources url keys (rt_cache st) (rt_store st)))"
    by (rule settleResources_spares)
  from spares_trans [OF _ this finite_set] s show ?thesis
    by (simp add: settle_cache_def split_beta spared_def epoch_of_def)
qed

lemma load_answer_spares:
  assumes "epoch_of st key \<noteq> jm_get (lk_captured lk) key"
  shows "spared key (le_keys (lk_event lk)) st (load_answer (sparing key (le_keys (lk_event lk)) env) lk envelope st)"
proof -
  note s = settle_loaded_spares [OF assms spared_refl subset_refl]
  show ?thesis unfolding load_answer_def
    by (subst Let_def) (rule spare.binding_rules spare.settle_keeps spare.load_finally_keeps s spared_refl
      spare.diagnostic_keeps spare.emit_keeps settle_cache_spares | assumption)+
qed

lemma fail_keys_spares:
  assumes "epoch_of st0 key \<noteq> jm_get (lk_captured lk) key" and "spared key ks st0 st" and "set keys \<subseteq> set ks"
  shows "spared key ks st0 (snd (fail_keys (sparing key ks env) lk wasAborted err keys acc st))"
  using assms(2,3)
proof (induction keys arbitrary: st acc)
  case (Cons k keys)
  have ks: "k \<in> set ks" and rest: "set keys \<subseteq> set ks" using Cons.prems(2) by auto
  show ?case
  proof (cases "epoch_of st k = jm_get (lk_captured lk) k")
    case True
    then have k: "k \<noteq> key" using assms(1) Cons.prems by (auto simp: spared_def)
    show ?thesis unfolding fail_keys.simps
      by (rule spare.binding_rules Cons.IH [OF _ rest] spared_rules k ks spare.announce_error_keeps Cons.prems(1)
          | assumption)+
  qed (use Cons rest in simp)
qed simp

lemma load_failure_spares:
  assumes "epoch_of st key \<noteq> jm_get (lk_captured lk) key"
  shows "spared key (le_keys (lk_event lk)) st (load_failure (sparing key (le_keys (lk_event lk)) env) lk err st)"
proof -
  note s = fail_keys_spares [OF assms spared_refl subset_refl]
  show ?thesis unfolding load_failure_def
    by (subst Let_def) (rule spare.binding_rules spare.settle_keeps spare.load_finally_keeps s spared_refl
      spare.diagnostic_keeps spare.emit_keeps settle_cache_spares | assumption)+
qed

text \<open>
  C5: a load never writes a key for which newer work was begun. When the epoch of a key is no longer
  the one the load captured (a mutation, a live event, a newer load or a navigation claimed it), neither
  the answer of the load nor its failure changes the key's epoch or anything the store holds of the key:
  its record, its loading state or error, and its stale mark stay as they are. Only when the store has
  no room for the keys of the load beside its own can the key be evicted, and then all of it goes.
  Listeners may do anything but write that key or bring in keys that neither the store nor the load has.
\<close>
theorem stale_load_leaves_key:
  assumes "listeners_spare key (le_keys (lk_event lk)) env" and "store_inv (rt_store st)"
    and "epoch_of st key \<noteq> jm_get (lk_captured lk) key"
    and "st' = load_answer env lk envelope st \<or> st' = load_failure env lk err st"
  shows "epoch_of st' key = epoch_of st key \<and>
    (if card (set (le_keys (lk_event lk)) \<union> store_keys (rt_store st)) \<le> maxResources (rt_store st)
     then entry_of key (rt_store st') = entry_of key (rt_store st)
     else entry_of key (rt_store st') \<in> {entry_of key (rt_store st), (None, None, False)})"
proof -
  have "spared key (le_keys (lk_event lk)) st st'"
    using load_answer_spares [OF assms(3), of env] load_failure_spares [OF assms(3), of env] assms(4)
    by (auto simp: sparing_same [OF assms(1)])
  then show ?thesis using assms(2) by (auto simp: spared_def spares_def roomy_def absent_def)
qed

lemma sample_spares: "listeners_spare key ks sample_env"
  by (simp add: listeners_spare_def sample_env_def)

lemma sample_leaves: "listeners_leave key sample_env"
  by (simp add: listeners_leave_def sample_env_def)

lemma sample_inv:
  assumes "new_router sample_env (js ''me'') sample_options = Inr st"
  shows "router_inv st"
proof -
  have ok: "options_ok sample_options" by (simp add: options_ok_def sample_options_def)
  show ?thesis
    by (rule router_keeps.new_router_keeps [OF keeps_inv [OF sample_quiet] router_parts_inv [OF ok] assms])
qed

theorem stale_load_leaves_key_witness:
  "\<exists>st. new_router sample_env (js ''me'') sample_options = Inr st \<and>
     entry_of (js ''a'') (rt_store (load_failure sample_env sample_load (thrown_of TypeError)
         (bump (js ''a'') (bump (js ''a'') st)))) =
       entry_of (js ''a'') (rt_store (bump (js ''a'') (bump (js ''a'') st)))"
proof -
  obtain st where st: "new_router sample_env (js ''me'') sample_options = Inr st"
    using sample_router by blast
  let ?st = "bump (js ''a'') (bump (js ''a'') st)"
  have inv: "router_inv st" using st by (rule sample_inv)
  note inv = kept.bump_keeps [OF this, of "js ''a''"] kept.bump_keeps [OF kept.bump_keeps [OF this], of "js ''a''" "js ''a''"]
  then have "epoch_get (js ''a'') (resourceEpochs ?st) = Some
      \<lparr>re_epoch = resourceEpochCounter st + 2, re_authoritativeEpoch = resourceEpochCounter st + 2,
       re_conservative = False\<rparr>"
    by (simp add: bump_def bumpResourceEpoch_def Let_def router_inv_def epoch_get_set)
  then have e: "epoch_of ?st (js ''a'') \<noteq> jm_get (lk_captured sample_load) (js ''a'')"
    by (simp add: epoch_of_def sample_load_def jm_get_def)
  have "(case new_router sample_env (js ''me'') sample_options of Inl _ \<Rightarrow> False
     | Inr s \<Rightarrow> stateSnapshots (rt_store s) = [] \<and> maxResources (rt_store s) = 128)" by code_simp
  then have "store_keys (rt_store ?st) = {}" "maxResources (rt_store ?st) = 128"
    using st by (simp_all add: store_keys_def bump_def)
  moreover have "card (set (le_keys (lk_event sample_load))) \<le> 128" by (simp add: sample_load_def)
  ultimately show ?thesis
    using stale_load_leaves_key [OF sample_spares _ e, of "load_failure sample_env sample_load (thrown_of TypeError) ?st"]
      inv(2) st by (auto simp: router_inv_def)
qed

section \<open>Navigations\<close>

lemma fold_bump_store [simp]: "rt_store (fold bump keys st) = rt_store st"
  by (induction keys arbitrary: st) (simp_all add: bump_def)

lemma apply_resources_leaves:
  "left_alone key st0 st \<Longrightarrow> key \<notin> fst ` set es \<Longrightarrow>
   left_alone key st0 (snd (apply_resources (leaving key env) ap es st))"
proof (induction es arbitrary: st)
  case (Cons e es)
  obtain k rec where e: "e = (k, rec)" by (cases e)
  have k: "k \<noteq> key" and es: "key \<notin> fst ` set es" using Cons.prems(2) by (auto simp: e)
  show ?case unfolding e apply_resources.simps
    by (rule leave.binding_rules Cons.IH [OF _ es] left_alone_rules k leave.announce_update_keeps Cons.prems
        | assumption)+
qed simp

lemma apply_errors_leaves:
  "left_alone key st0 st \<Longrightarrow> left_alone key st0 (snd (apply_errors (leaving key env) ap eligible es st))"
proof (induction es arbitrary: st)
  case (Cons e es)
  obtain k err where e: "e = (k, err)" by (cases e)
  show ?case unfolding e apply_errors.simps
    by (rule leave.binding_rules Cons.IH left_alone_rules Cons.prems | assumption)+
qed simp

lemma apply_deferred_leaves:
  "left_alone key st0 st \<Longrightarrow> left_alone key st0 (snd (apply_deferred (leaving key env) ap keys st))"
proof (induction keys arbitrary: st)
  case (Cons k keys)
  show ?case unfolding apply_deferred.simps
    by (rule leave.binding_rules Cons.IH left_alone_rules Cons.prems | assumption)+
qed simp

lemma cachePageEnvelope_leaves:
  assumes "left_alone key st0 st"
  shows "left_alone key st0 (cachePageEnvelope (leaving key env) envelope i st)"
proof -
  have "left_alone key st0 (st\<lparr>rt_cache := c\<rparr>)" for c
    using assms by (simp add: left_alone_def epoch_of_def)
  then show ?thesis by (auto simp: cachePageEnvelope_def Let_def split: option.split)
qed

lemma left_alone_page: "left_alone key st0 st \<Longrightarrow> left_alone key st0 (st\<lparr>rt_page := p\<rparr>)"
  by (simp add: left_alone_def epoch_of_def)

lemma apply_shell_leaves:
  "left_alone key st0 st \<Longrightarrow> left_alone key st0 (snd (apply_shell (leaving key env) ap envelope applied st))"
  unfolding apply_shell_def
  by (rule leave.binding_rules leave.upd_page_frame left_alone_page leave.update_manifest_keeps leave.connect_if_started_keeps
      cachePageEnvelope_leaves | assumption)+

lemma applyPageEnvelope_leaves:
  assumes "key \<notin> set (eligible_keys envelope startedAt st)"
  shows "only_forgets key (rt_store st) (rt_store (snd (applyPageEnvelope (leaving key env) envelope startedAt st)))"
proof -
  let ?e = "eligible_keys envelope startedAt st"
  let ?st1 = "fold bump ?e st"
  have res: "left_alone key ?st1 (snd (apply_resources (leaving key env) ap
      (env_resources (restrict_envelope ?e envelope)) ?st1))" for ap
    by (rule apply_resources_leaves) (use assms in \<open>auto simp: restrict_envelope_def\<close>)
  have "left_alone key ?st1 (snd (applyPageEnvelope (leaving key env) envelope startedAt st))"
    unfolding applyPageEnvelope_def Let_def
    by (rule leave.binding_rules res apply_errors_leaves apply_deferred_leaves apply_shell_leaves | assumption)+
  then show ?thesis by (simp add: left_alone_def)
qed



section \<open>Prefetches\<close>

text \<open>No key, remembered or forgotten, has an authority beyond \<open>e\<close>.\<close>

definition authorities_at_most :: "nat \<Rightarrow> router \<Rightarrow> bool" where
  "authorities_at_most e st \<longleftrightarrow>
     (\<forall>(k, v)\<in>set (em_entries (resourceEpochs st)). re_authoritativeEpoch v \<le> e) \<and>
     evictedAuthoritativeEpoch (resourceEpochs st) \<le> e"

lemma authorities_within: "authorities_at_most e st \<longleftrightarrow> (\<exists>a. epochs_within a e (resourceEpochs st))"
proof
  assume A: "authorities_at_most e st"
  let ?f = "\<lambda>xs. sum_list (map (\<lambda>(k, v). re_epoch v) xs)"
  have "re_epoch v \<le> ?f xs" if "(k, v) \<in> set xs" for k v xs
    using that by (induction xs) auto
  then have "epochs_within (?f (em_entries (resourceEpochs st)) + evictedEpoch (resourceEpochs st)) e (resourceEpochs st)"
    using A by (fastforce simp: epochs_within_def authorities_at_most_def intro: trans_le_add1)
  then show "\<exists>a. epochs_within a e (resourceEpochs st)" ..
qed (auto simp: epochs_within_def authorities_at_most_def)

lemma authority_of_at_most: "authorities_at_most e st \<Longrightarrow> authority_of st key \<le> e"
  using epoch_get_within(2) by (fastforce simp: authorities_within authority_of_def split: option.split)

lemma speculative_authorities:
  assumes "authorities_at_most e st"
  shows "authorities_at_most e (snd (bumpResourceEpoch key True st))"
proof -
  obtain a where "epochs_within a e (resourceEpochs st)" using assms authorities_within by blast
  then have "epochs_within (max a (resourceEpochCounter st + 1)) e (resourceEpochs st)"
    by (rule epochs_within_mono) simp_all
  then have "epochs_within (max a (resourceEpochCounter st + 1)) e
      (resourceEpochs (snd (bumpResourceEpoch key True st)))"
    by (rule bump_within) simp_all
  then show ?thesis using authorities_within by blast
qed

interpretation speculate: router_frame "guarded (authorities_at_most e) env" "authorities_at_most e" for e env
proof
  show "authorities_at_most e (re_listen (guarded (authorities_at_most e) env) cb n st)"
    if "authorities_at_most e st" for cb n st
    using that by (rule guarded_keeps)
  show "authorities_at_most e st'" if "authorities_at_most e st" "core st' = core st" for st st'
    using that by (simp add: authorities_at_most_def core_def)
qed

lemma speculate_fields:
  "authorities_at_most e st \<Longrightarrow> authorities_at_most e (st\<lparr>rt_store := s\<rparr>)"
  "authorities_at_most e st \<Longrightarrow> authorities_at_most e (st\<lparr>rt_cache := c\<rparr>)"
  "authorities_at_most e st \<Longrightarrow> authorities_at_most e (st\<lparr>rt_prefetch := p\<rparr>)"
  by (simp_all add: authorities_at_most_def)

lemma prefetch_writes_speculate:
  "authorities_at_most e st \<Longrightarrow>
   authorities_at_most e (snd (prefetch_writes (guarded (authorities_at_most e) env) pt es st))"
proof (induction es arbitrary: st)
  case (Cons x es)
  obtain k rec where x: "x = (k, rec)" by (cases x)
  show ?case unfolding x prefetch_writes.simps
    by (rule speculate.binding_rules Cons.IH speculate.on_store_frame speculate_fields
        speculate.announce_update_keeps Cons.prems | assumption)+
qed simp

lemma cachePageEnvelope_speculates:
  "authorities_at_most e st \<Longrightarrow>
   authorities_at_most e (cachePageEnvelope (guarded (authorities_at_most e) env) envelope i st)"
  by (auto simp: cachePageEnvelope_def Let_def intro!: speculate.diagnostic_keeps speculate_fields split: option.split)

lemma fold_speculative:
  "authorities_at_most e st \<Longrightarrow>
   authorities_at_most e (fold (\<lambda>(key, _) s. snd (bumpResourceEpoch key True s)) es st)"
  by (induction es arbitrary: st) (auto intro: speculative_authorities)

lemma prefetch_arrived_speculates:
  "authorities_at_most e st \<Longrightarrow>
   authorities_at_most e (prefetch_arrived (guarded (authorities_at_most e) env) pt envelope st)"
  unfolding prefetch_arrived_def
  by (rule speculate.binding_rules fold_speculative prefetch_writes_speculate cachePageEnvelope_speculates
      speculate_fields speculate.emit_keeps speculate.prefetch_note_keeps | assumption)+

text \<open>
  C9: a prefetch is speculative and cannot veto a navigation to which everything is open. When no key
  in the epoch table, and neither the watermark of the keys evicted from it, has an authority later than
  the epoch \<open>e\<close> at which a visit started, then this is still so after any prefetch has delivered its page
  (writing resources, bumping their epochs and evicting others from the bounded table), so the visit's
  answer may write every key it names. Without that hypothesis the bumps of a prefetch can evict another
  key's newer authority into the watermark, which then refuses keys the table does not name. Listeners
  give no key a later authority.
\<close>
theorem prefetch_never_vetoes:
  assumes "listeners_keep (authorities_at_most e) env" and "authorities_at_most e st"
  shows "eligible_keys page e (prefetch_arrived env pt envelope st) = envelope_keys page"
proof -
  have "authorities_at_most e (prefetch_arrived env pt envelope st)"
    using prefetch_arrived_speculates [OF assms(2), of env] by (simp add: guarded_same [OF assms(1)])
  then show ?thesis by (simp add: eligible_keys_def authority_of_at_most)
qed

theorem prefetch_never_vetoes_witness:
  "\<exists>st. router_parts (js ''me'') sample_options = Inr st \<and>
     eligible_keys sample_page 0 (prefetch_arrived sample_env sample_prefetch sample_page st) =
       envelope_keys sample_page"
proof -
  obtain st where st: "router_parts (js ''me'') sample_options = Inr st"
    using sample_router by (auto simp: new_router_def)
  then have "authorities_at_most 0 st"
    by (auto simp: router_parts_def Let_def authorities_at_most_def new_epoch_map_def)
  from prefetch_never_vetoes [OF sample_quiet this] st show ?thesis by blast
qed

end
