(* ===== verification/Router_Navigation.thy ===== *)
theory Router_Navigation
  imports Router_Updates
begin

text \<open>
  The order of navigations, mutations and live events: which visit may still change the page, when a
  mutation may redirect, which live events are acted upon, and how they are batched.
\<close>

section \<open>Visit identifiers\<close>

lemma stamped_inj:
  assumes "stamped env prefix n = stamped env' prefix m"
  shows "n = m"
proof -
  have cut: "takeWhile (\<lambda>c. c \<noteq> 0x5F) (nat_digits k @ js ''_'' @ r) = nat_digits k" for k r
  proof -
    have "c \<noteq> 0x5F" if "c \<in> set (nat_digits k)" for c
      using nat_digits_range [OF that] by auto
    then show ?thesis by (simp add: takeWhile_append2 js_def)
  qed
  from assms have "nat_digits n @ js ''_'' @ base36 (re_now env) = nat_digits m @ js ''_'' @ base36 (re_now env')"
    by (simp add: stamped_def)
  then have "nat_digits n = nat_digits m" using cut by metis
  then show ?thesis using nat_of_digits_nat_digits by metis
qed

section \<open>Listeners that do not look away\<close>

definition listeners_ignore :: "(router \<Rightarrow> 'a) \<Rightarrow> router_env \<Rightarrow> bool" where
  "listeners_ignore f env \<longleftrightarrow> (\<forall>cb n st. f (re_listen env cb n st) = f st)"

lemma listeners_ignore_keep: "listeners_ignore f env \<Longrightarrow> listeners_keep (\<lambda>s. f s = x) env"
  by (simp add: listeners_ignore_def listeners_keep_def)

lemma sample_ignores: "listeners_ignore f sample_env"
  by (simp add: listeners_ignore_def sample_env_def)

interpretation still: router_frame "guarded (\<lambda>s. shown s = x) env" "\<lambda>s. shown s = x" for x env
proof
  show "shown (re_listen (guarded (\<lambda>s. shown s = x) env) cb n st) = x" if "shown st = x" for cb n st
    using that by (rule guarded_keeps)
  show "shown st' = x" if "shown st = x" "core st' = core st" for st st'
    using that by (simp add: shown_def core_def)
qed

definition course where
  "course st = (currentVisitId st, visitCounter st, rt_navigations st)"

interpretation steady: router_writes "guarded (\<lambda>s. course s = x) env" "\<lambda>s. course s = x" for x env
proof
  show "course (re_listen (guarded (\<lambda>s. course s = x) env) cb n st) = x" if "course st = x" for cb n st
    using that by (rule guarded_keeps)
qed (auto simp: course_def core_def bumpResourceEpoch_def Let_def)

section \<open>Superseded visits\<close>

lemma superseded_arrival:
  assumes "listeners_ignore shown env" and "currentVisitId st \<noteq> Some (vt_id vt)"
  shows "shown (visit_answer env vt answer st) = shown st" and "shown (visit_arrived env vt envelope st) = shown st"
proof -
  have env: "guarded (\<lambda>s. shown s = shown st) env = env"
    using guarded_same [OF listeners_ignore_keep [OF assms(1)]] by blast
  note failed = still.visit_failed_keeps [of st "shown st" env, OF refl, unfolded env]
  note cancelled = still.visit_cancelled_keeps [of st "shown st" env, OF refl, unfolded env]
  show "shown (visit_answer env vt answer st) = shown st"
    using assms(2) failed cancelled by (simp add: visit_answer_def visit_arrived_def split: sum.split)
  show "shown (visit_arrived env vt envelope st) = shown st"
    using assms(2) cancelled by (simp add: visit_arrived_def)
qed

context router_keeps
begin

lemma visit_until:
  assumes "P (st\<lparr>visitCounter := visitCounter st + 1\<rparr>)"
    and "abortActiveDeferred env (st\<lparr>visitCounter := visitCounter st + 1\<rparr>) = (b, st1)"
  shows "P (cancelPendingLiveRefresh (interrupt_live env (abortActiveVisit st1)))"
proof -
  have "P (snd (abortActiveDeferred env (st\<lparr>visitCounter := visitCounter st + 1\<rparr>)))" using assms(1) by blast
  then show ?thesis unfolding assms(2) snd_conv by blast
qed

lemma visit_after:
  assumes "abortActiveDeferred env (st\<lparr>visitCounter := visitCounter st + 1\<rparr>) = (False, st1)"
    and "P ((cancelPendingLiveRefresh (interrupt_live env (abortActiveVisit st1)))
      \<lparr>currentVisitId := Some (stamped env ''visit'' (visitCounter st + 1))\<rparr>)"
  shows "P (visit env url options w st)"
  unfolding visit_def Let_def assms(1) unfolding split_beta fst_conv snd_conv bool.case
  by (intro visit_lookup_keeps diagnostic_keeps emit_keeps control_fields new_controller_keeps assms(2))

lemmas noted_lookup = page_cache_note_keeps

end

lemma superseded_pending:
  assumes "listeners_ignore shown env" and "router_keeps env (superseded n (vt_id vt))"
    and "superseded n (vt_id vt) st"
  shows "shown (visit_pending env vt answer st) = shown st"
proof (cases answer)
  have env: "guarded (\<lambda>s. shown s = shown st) env = env"
    using guarded_same [OF listeners_ignore_keep [OF assms(1)]] by blast
  {
    case (Inl err)
    then show ?thesis using still.visit_failed_keeps [of st "shown st" env, OF refl, unfolded env]
      by (simp add: visit_pending_def)
  next
    case (Inr found)
    let ?st = "page_cache_note env ''hit'' ''navigation-pending-prefetch'' (vt_url vt) (Some (vt_id vt)) st"
    have "superseded n (vt_id vt) ?st" using assms(2,3) by (rule router_keeps.noted_lookup)
    then have "currentVisitId ?st \<noteq> Some (vt_id vt)" by (simp add: superseded_def)
    note arrived = superseded_arrival(2) [OF assms(1) this]
    note noted = still.page_cache_note_keeps [of st "shown st" env, OF refl, unfolded env]
    note asked = still.visit_ask_keeps [of st "shown st" env, OF refl, unfolded env]
    show ?thesis using arrived noted asked by (simp add: Inr visit_pending_def split: option.split)
  }
qed

lemma visit_number_stamped:
  assumes "m \<le> n"
  shows "visit_number n (stamped env ''visit'' m)"
  unfolding visit_number_def
proof (intro allI impI notI)
  fix e k
  assume "n < k" and "stamped e ''visit'' k = stamped env ''visit'' m"
  with stamped_inj [of e "''visit''" k env m] assms show False by simp
qed

text \<open>A visit that begins supersedes every visit with an older number.\<close>

lemma visit_supersedes:
  assumes "router_reentrant env" and "visit_number (visitCounter st) i"
    and "fst (abortActiveDeferred env (st\<lparr>visitCounter := visitCounter st + 1\<rparr>)) = False"
  shows "superseded (visitCounter st) i (visit env url options w st)"
proof -
  have grows: "router_keeps env (grown 0 (visitCounter st + 1))"
    using assms(1) keeps_grown by (rule router_reentrant_keeps)
  have keeps: "router_keeps env (superseded (visitCounter st) i)"
    using assms(1) keeps_superseded by (rule router_reentrant_keeps)
  let ?st0 = "st\<lparr>visitCounter := visitCounter st + 1\<rparr>"
  obtain st1 where ab: "abortActiveDeferred env ?st0 = (False, st1)"
    using assms(3) by (cases "abortActiveDeferred env ?st0") auto
  have "grown 0 (visitCounter st + 1) ?st0" by (simp add: grown_def)
  note began = router_keeps.visit_until [OF grows this ab]
  show ?thesis
    by (rule router_keeps.visit_after [OF keeps ab])
      (use began assms(2) in \<open>simp add: superseded_def grown_def visit_number_def\<close>)
qed


definition sample_visit :: visit_task where
  "sample_visit = \<lparr>vt_id = stamped sample_env ''visit'' 0, vt_url = js ''/old'', vt_options = default_visit,
     vt_startedAtEpoch = 0, vt_controller = 0, vt_known = [], vt_waiter = WNone\<rparr>"

lemma sample_parts: "\<exists>st. router_parts (js ''me'') sample_options = Inr st"
  using sample_router by (auto simp: new_router_def)

lemma sample_no_deferred:
  "router_parts (js ''me'') sample_options = Inr st \<Longrightarrow> activeDeferredController st = None"
  by (auto simp: router_parts_def Let_def)


section \<open>Mutations\<close>

lemma mutation_follow_course:
  assumes "listeners_ignore course env" and "mu_visitCounter mu \<noteq> visitCounter st"
  shows "course (mutation_follow env mu payload active st) = course st"
proof -
  have env: "guarded (\<lambda>s. course s = course st) env = env"
    using guarded_same [OF listeners_ignore_keep [OF assms(1)]] by blast
  show ?thesis
    using assms(2) steady.loadResources_keeps [of st "course st" env, OF refl, unfolded env]
      steady.mutation_success_keeps [of st "course st" env, OF refl, unfolded env]
    by (simp add: mutation_follow_def Let_def)
qed

text \<open>
  C7: a mutation redirects only while no newer navigation has begun. When the visit counter moved on
  since the mutation was sent (the user clicked a link or went back), its answer starts no visit and
  no hard navigation, even if it asks for a redirect; its patches and invalidations are still applied.
\<close>
theorem late_mutation_does_not_redirect:
  assumes "listeners_ignore course env" and "mu_visitCounter mu \<noteq> visitCounter st"
  shows "course (mutation_answer env mu answer st) = course st"
proof (cases answer)
  have env: "guarded (\<lambda>s. course s = course st) env = env"
    using guarded_same [OF listeners_ignore_keep [OF assms(1)]] by blast
  {
    case (Inl err)
    then show ?thesis
      using steady.mutation_failed_keeps [of st "course st" env, OF refl, unfolded env]
      by (simp add: mutation_answer_def)
  next
    case (Inr payload)
    let ?p = "mutation_patches env mu (absent_list (mp_patches payload)) st"
    let ?i = "mutation_invalidations env mu (absent_list (mp_invalidate payload)) (snd ?p)"
    have p: "course (snd ?p) = course st"
      by (rule steady.mutation_patches_keeps [of st "course st" env, unfolded env]) simp
    have i: "course (snd ?i) = course st"
      by (rule steady.mutation_invalidations_keeps [of _ "course st" env, unfolded env, OF p])
    then have "mu_visitCounter mu \<noteq> visitCounter (snd ?i)" using assms(2) by (simp add: course_def)
    note follow = mutation_follow_course [OF assms(1) this]
    note failed = steady.mutation_failed_keeps [of "snd ?p" "course st" env, OF p, unfolded env]
    show ?thesis
      using p i follow failed
      by (simp add: Inr mutation_answer_def mutation_applied_def split_beta Let_def split: bool.split)
  }
qed

definition sample_redirect :: mutation_payload where
  "sample_redirect = \<lparr>mp_patches = None, mp_invalidate = Some [js ''a''], mp_redirect = Some (js ''/next''),
     mp_externalRedirect = None\<rparr>"

theorem late_mutation_does_not_redirect_witness:
  "\<exists>st. router_parts (js ''me'') sample_options = Inr st \<and>
     course (mutation_answer sample_env sample_mutation (Inr sample_redirect) (st\<lparr>visitCounter := 1\<rparr>)) =
     course (st\<lparr>visitCounter := 1\<rparr>)"
proof -
  obtain st where st: "router_parts (js ''me'') sample_options = Inr st" using sample_parts by blast
  have "course (mutation_answer sample_env sample_mutation (Inr sample_redirect) (st\<lparr>visitCounter := 1\<rparr>)) =
     course (st\<lparr>visitCounter := 1\<rparr>)"
    by (rule late_mutation_does_not_redirect [OF sample_ignores]) (simp add: sample_mutation_def)
  with st show ?thesis by blast
qed

section \<open>Live events\<close>

text \<open>What listeners that change nothing leave of the calls that announce.\<close>

definition quiet :: "router_env \<Rightarrow> bool" where
  "quiet env \<longleftrightarrow> (\<forall>cb n st. re_listen env cb n st = st)"

lemma quiet_calls:
  assumes "quiet env"
  shows "emit env ev st = st"
    and "\<exists>n h. rt_emitDiagnostic env type data i st = st\<lparr>diagnosticEventCounter := n, rt_hub := h\<rparr>"
    and "on_store env f st = (fst (f (rt_store st)), st\<lparr>rt_store := snd (f (rt_store st))\<rparr>)"
    and "upd_store env g st = st\<lparr>rt_store := g (rt_store st)\<rparr>"
proof -
  have fold: "fold (\<lambda>cb. re_listen env cb n) cbs s = s" for n cbs s
    using assms by (induction cbs) (simp_all add: quiet_def)
  show "emit env ev st = st" by (simp add: emit_def fold)
  have "rt_emitDiagnostic env type data i st = st\<lparr>diagnosticEventCounter := diagnosticEventCounter st, rt_hub := rt_hub st\<rparr>"
    if "\<not> diagnosing st"
    using that by (simp add: rt_emitDiagnostic_def)
  moreover have "\<exists>n h. rt_emitDiagnostic env type data i st = st\<lparr>diagnosticEventCounter := n, rt_hub := h\<rparr>"
    if "diagnosing st"
    using that by (auto simp: rt_emitDiagnostic_def Let_def fold)
  ultimately show "\<exists>n h. rt_emitDiagnostic env type data i st = st\<lparr>diagnosticEventCounter := n, rt_hub := h\<rparr>"
    by blast
  show on: "on_store env f st = (fst (f (rt_store st)), st\<lparr>rt_store := snd (f (rt_store st))\<rparr>)" for f :: "store \<Rightarrow> 'a \<times> store"
    by (simp add: on_store_def fold split_beta Let_def)
  show "upd_store env g st = st\<lparr>rt_store := g (rt_store st)\<rparr>"
    by (simp add: upd_store_def on_store_def fold Let_def)
qed

text \<open>Only the counters and the hub of the diagnostics differ.\<close>

definition diagnostics_aside :: "router \<Rightarrow> router \<Rightarrow> bool" where
  "diagnostics_aside st st' \<longleftrightarrow>
     st'\<lparr>diagnosticOperationCounter := diagnosticOperationCounter st,
         diagnosticEventCounter := diagnosticEventCounter st, rt_hub := rt_hub st\<rparr> = st"

lemma aside_refl: "diagnostics_aside st st"
  by (simp add: diagnostics_aside_def)

lemma aside_trans: "diagnostics_aside st st' \<Longrightarrow> diagnostics_aside st' st'' \<Longrightarrow> diagnostics_aside st st''"
  by (cases st, cases st', cases st'') (simp add: diagnostics_aside_def)

lemma aside_diagnostic:
  assumes "quiet env"
  shows "diagnostics_aside st (rt_emitDiagnostic env type data i st)"
  using quiet_calls(2) [OF assms, of type data i st] by (auto simp: diagnostics_aside_def)

lemma aside_operation_id: "diagnostics_aside st (snd (nextDiagnosticOperationId env prefix st))"
  by (simp add: nextDiagnosticOperationId_def Let_def diagnostics_aside_def)

lemma aside_announce_live: "quiet env \<Longrightarrow> diagnostics_aside st (announce_live env event i st)"
  by (auto simp: announce_live_def live_note_of_def Let_def quiet_calls(1) aside_diagnostic aside_refl
      split: live_event.split)

lemma aside_live: "diagnostics_aside st st' \<Longrightarrow> rt_live st' = rt_live st"
  by (cases st, cases st') (simp add: diagnostics_aside_def)

text \<open>
  The client does not react to its own changes. A live event that carries this client's identity
  is announced, and changes nothing else: no resource, no epoch, no pending refresh, no timer and no
  task. A \<open>ready\<close> event is treated in the same way. No patch loop runs, so nothing is thrown.
\<close>
lemma own_live_events_are_ignored:
  assumes "quiet env" and "event_origin event = Some (lm_clientId (rt_live st)) \<or> (\<exists>keys. event = LiveReady keys)"
  shows "fst (handleLiveEvent env event st) = False \<and> diagnostics_aside st (snd (handleLiveEvent env event st))"
proof -
  let ?i = "fst (nextDiagnosticOperationId env ''live'' st)"
  let ?st2 = "announce_live env event ?i (snd (nextDiagnosticOperationId env ''live'' st))"
  have aside: "diagnostics_aside st ?st2"
    using aside_operation_id aside_announce_live [OF assms(1)] by (rule aside_trans)
  then have "self_originated event ?st2 \<or> (\<exists>keys. event = LiveReady keys)"
    using assms(2) by (simp add: self_originated_def aside_live)
  with aside show ?thesis by (auto simp: handleLiveEvent_def Let_def split_beta)
qed

section \<open>Batches of live events\<close>

fun event_keys :: "live_event \<Rightarrow> rkey list" where
  "event_keys (LiveInvalidate keys _) = keys"
| "event_keys (LiveResync keys _) = keys"
| "event_keys _ = []"

fun is_patch :: "live_event \<Rightarrow> bool" where
  "is_patch (LivePatch _ _) = True"
| "is_patch _ = False"

text \<open>The keys an event makes the router refresh.\<close>

definition claims :: "router \<Rightarrow> live_event \<Rightarrow> rkey set" where
  "claims st event =
     (if self_originated event st then {} else {key \<in> set (event_keys event). key \<in> set (live_keys_of st)})"

definition batch where
  "batch st = (rt_live st, rt_tasks st, liveStarted st, set (pendingLiveRefreshKeys st), liveRefreshTimer st)"

lemma batch_aside: "diagnostics_aside st st' \<Longrightarrow> batch st' = batch st"
  by (cases st, cases st') (simp add: diagnostics_aside_def batch_def)

lemma batch_live_stale: "quiet env \<Longrightarrow> batch (live_stale env source i key st) = batch st"
  using batch_aside [OF aside_diagnostic]
  by (simp add: live_stale_def invalidate_note_def quiet_calls(1,4) batch_def bump_def bumpResourceEpoch_def Let_def)

lemma batch_fold_stale: "quiet env \<Longrightarrow> batch (fold (live_stale env source i) keys st) = batch st"
  by (induction keys arbitrary: st) (simp_all add: batch_live_stale)

lemma add_correlation_fields [simp]:
  "rt_live (add_correlation i st) = rt_live st" "rt_tasks (add_correlation i st) = rt_tasks st"
  "liveStarted (add_correlation i st) = liveStarted st"
  "pendingLiveRefreshKeys (add_correlation i st) = pendingLiveRefreshKeys st"
  "liveRefreshTimer (add_correlation i st) = liveRefreshTimer st" "rt_next (add_correlation i st) = rt_next st"
  by (simp_all add: add_correlation_def split: option.split)

text \<open>One event: it adds its claims to the batch and starts a timer if none runs.\<close>

definition batched :: "router \<Rightarrow> rkey set \<Rightarrow> router \<Rightarrow> bool" where
  "batched st keys st' \<longleftrightarrow>
     rt_live st' = rt_live st \<and> rt_tasks st' = rt_tasks st \<and> liveStarted st' = liveStarted st \<and>
     set (pendingLiveRefreshKeys st') = set (pendingLiveRefreshKeys st) \<union> keys \<and>
     (liveRefreshTimer st' = None \<longleftrightarrow> liveRefreshTimer st = None \<and> keys = {}) \<and>
     (\<forall>t. liveRefreshTimer st = Some t \<longrightarrow> liveRefreshTimer st' = Some t)"

lemma batched_none: "batch st' = batch st \<Longrightarrow> batched st {} st'"
  by (auto simp: batched_def batch_def)

lemma queue_batched:
  "batch st0 = batch st \<Longrightarrow> keys \<noteq> [] \<Longrightarrow> batched st (set keys) (queueLiveRefresh keys reason i st0)"
  by (auto simp: queueLiveRefresh_def Let_def batched_def batch_def set_fold_jset_add)

lemma live_invalidate_batched:
  assumes "quiet env" and "batch st0 = batch st"
  shows "batched st {key \<in> set eventKeys. key \<in> set (live_keys_of st)} (live_invalidate env eventKeys ty reason i st0)"
proof -
  have live: "live_keys_of st0 = live_keys_of st" using assms(2) by (simp add: live_keys_of_def batch_def)
  show ?thesis
  proof (cases "filter (\<lambda>key. key \<in> set (live_keys_of st)) eventKeys = []")
    case True
    then have none: "{key \<in> set eventKeys. key \<in> set (live_keys_of st)} = {}" by (auto simp: filter_empty_conv)
    show ?thesis unfolding none
      using True assms(2) by (simp add: live_invalidate_def live batched_none)
  next
    case False
    let ?keys = "filter (\<lambda>key. key \<in> set (live_keys_of st)) eventKeys"
    have "batched st (set ?keys) (queueLiveRefresh ?keys reason i
        (fold (live_stale env (live_event_text ty) i) ?keys st0))"
      using False assms by (intro queue_batched) (simp_all add: batch_fold_stale)
    with False show ?thesis by (simp add: live_invalidate_def live Let_def)
  qed
qed

lemma live_event_batched:
  assumes "quiet env" and "\<not> is_patch event"
  shows "batched st (claims st event) (snd (handleLiveEvent env event st))"
proof -
  let ?i = "fst (nextDiagnosticOperationId env ''live'' st)"
  let ?st2 = "announce_live env event ?i (snd (nextDiagnosticOperationId env ''live'' st))"
  have aside: "diagnostics_aside st ?st2"
    using aside_operation_id aside_announce_live [OF assms(1)] by (rule aside_trans)
  then have b: "batch ?st2 = batch st" and self: "self_originated event ?st2 = self_originated event st"
    by (simp_all add: batch_aside self_originated_def aside_live)
  show ?thesis
    using assms(2) b self live_invalidate_batched [OF assms(1) b] batched_none [OF b]
    by (cases event) (auto simp: handleLiveEvent_def Let_def split_beta claims_def)
qed

lemma burst_batched:
  assumes "quiet env" and "\<forall>e\<in>set events. \<not> is_patch e"
  shows "batched st (\<Union>e\<in>set events. claims st e) (fold (\<lambda>e s. snd (handleLiveEvent env e s)) events st)"
  using assms(2)
proof (induction events arbitrary: st)
  case Nil
  show ?case by (simp add: batched_none)
next
  case (Cons e events)
  let ?st = "snd (handleLiveEvent env e st)"
  have one: "batched st (claims st e) ?st" using Cons.prems by (intro live_event_batched [OF assms(1)]) simp
  then have "claims ?st = claims st"
    by (simp add: batched_def fun_eq_iff claims_def self_originated_def live_keys_of_def)
  with Cons.IH [of ?st] Cons.prems have "batched ?st (\<Union>e\<in>set events. claims st e) (fold (\<lambda>e s. snd (handleLiveEvent env e s)) events ?st)"
    by simp
  with one show ?case by (auto simp: batched_def)
qed

text \<open>A load that nothing interrupts becomes one task.\<close>

lemma capture_epochs_fields [simp]:
  "lifecycleGeneration (snd (capture_epochs keys m st)) = lifecycleGeneration st"
  "rt_tasks (snd (capture_epochs keys m st)) = rt_tasks st"
  by (induction keys arbitrary: m st) (simp_all add: split_beta Let_def bumpResourceEpoch_def)

lemma mark_loading_quiet:
  assumes "quiet env" and "gen = lifecycleGeneration st"
  shows "\<exists>s. mark_loading_keys env gen keys st = (False, st\<lparr>rt_store := s\<rparr>)"
  using assms(2)
proof (induction keys arbitrary: st)
  case Nil
  then show ?case by (auto intro: exI [of _ "rt_store st"])
next
  case (Cons key keys)
  then have "\<exists>s. mark_loading_keys env gen keys (st\<lparr>rt_store := markLoading [key] (rt_store st)\<rparr>) =
      (False, st\<lparr>rt_store := s\<rparr>)"
    using Cons.IH [of "st\<lparr>rt_store := markLoading [key] (rt_store st)\<rparr>"] by simp
  with Cons.prems show ?case by (simp add: quiet_calls(4) [OF assms(1)])
qed

lemma aside_fields:
  assumes "diagnostics_aside st st'"
  shows "lifecycleGeneration st' = lifecycleGeneration st" "rt_tasks st' = rt_tasks st"
    "liveRefreshTimer st' = liveRefreshTimer st"
  using assms by (cases st, cases st', simp add: diagnostics_aside_def)+

lemma loadResources_quiet:
  assumes "quiet env" and "filter (\<lambda>key. key \<noteq> []) keys \<noteq> []"
  shows "\<exists>lk. rt_tasks (loadResources env keys (Some url) reason signal correlation WNone st) = rt_tasks st @ [TLoad lk] \<and>
    le_keys (lk_event lk) = jset_of (filter (\<lambda>key. key \<noteq> []) keys) \<and> le_url (lk_event lk) = url"
proof -
  let ?keys = "jset_of (filter (\<lambda>key. key \<noteq> []) keys)"
  have ne: "?keys \<noteq> []" using assms(2) by (metis list.set(1) set_empty set_jset_of)
  define gen where "gen = lifecycleGeneration st"
  define a where "a = (case correlation of Some i \<Rightarrow> (i, st)
     | None \<Rightarrow> (js ''resource_'' @ stamped env (reason_text reason) (resourceLoadCounter st + 1),
               st\<lparr>resourceLoadCounter := resourceLoadCounter st + 1\<rparr>))"
  define b where "b = capture_epochs ?keys [] (snd a)"
  define st3 where "st3 = (if reason = ReasonLive \<or> reason = ReasonLiveReconnect
     then (snd b)\<lparr>activeLiveLoadEpochs := jm_set (fst a) (fst b) (activeLiveLoadEpochs (snd b))\<rparr> else snd b)"
  have f3: "lifecycleGeneration st3 = gen" "rt_tasks st3 = rt_tasks st"
    by (auto simp: st3_def b_def a_def gen_def split: option.split)
  obtain s where m: "mark_loading_keys env gen ?keys st3 = (False, st3\<lparr>rt_store := s\<rparr>)"
    using mark_loading_quiet [OF assms(1)] f3(1) by metis
  define ev where "ev = \<lparr>le_url = url, le_keys = ?keys, le_reason = reason\<rparr>"
  define st6 where "st6 = rt_emitDiagnostic env DtResourceLoad
     ([(''phase'', str ''start''), (''url'', diagnosticUrl env url), (''reason'', str (reason_text reason))] @
      diagnosticKeys ?keys) (Some (fst a)) (st3\<lparr>rt_store := s\<rparr>)"
  have f6: "lifecycleGeneration st6 = gen" "rt_tasks st6 = rt_tasks st"
    using aside_fields [OF aside_diagnostic [OF assms(1)]] f3 by (simp_all add: st6_def)
  have "loadResources env keys (Some url) reason signal correlation WNone st =
      add_task (TLoad \<lparr>lk_id = fst a, lk_event = ev, lk_known = exportKnown (rt_store st), lk_captured = fst b,
        lk_generation = gen, lk_signal = signal, lk_waiter = WNone\<rparr>) st6"
    unfolding loadResources_def Let_def split_beta option.case gen_def [symmetric]
    unfolding a_def [symmetric] unfolding b_def [symmetric] unfolding st3_def [symmetric]
    unfolding m fst_conv snd_conv quiet_calls(1) [OF assms(1)] ev_def [symmetric] st6_def [symmetric]
    using ne f3(1) f6(1) by simp
  then show ?thesis using f6(2) by (auto simp: add_task_def ev_def)
qed


definition sample_live :: "router \<Rightarrow> router" where
  "sample_live st = st\<lparr>liveStarted := True, rt_live := (rt_live st)\<lparr>lm_manifest :=
     Some \<lparr>mf_ref = 1, mf_url = js ''/p'', mf_keys = [js ''a'', js ''b'']\<rparr>\<rparr>\<rparr>"

definition sample_burst :: "live_event list" where
  "sample_burst = [LiveInvalidate [js ''a'', js ''c''] None, LiveResync [js ''b'', js ''a''] Overflow]"


section \<open>Navigating while a batch is aborted\<close>

text \<open>A page with one deferred resource, whose load is under way and which a component subscribes to.\<close>

definition made :: "(error_class, router) result \<Rightarrow> router" where
  "made r = (case r of Inr st \<Rightarrow> st | Inl _ \<Rightarrow> undefined)"

definition deferred_router :: router where
  "deferred_router =
     (let st = made (initial_envelope sample_env
                 (sample_page\<lparr>env_deferred := Some [js ''a''], env_resources := []\<rparr>)
                 (made (router_parts (js ''me'') sample_options)))
      in snd (startInitialDeferred sample_env (upd_store sample_env (store_subscribe (js ''a'') 5) st)))"

text \<open>The component navigates away when its resource changes.\<close>

definition leave_page :: "callback \<Rightarrow> router_note \<Rightarrow> router \<Rightarrow> router" where
  "leave_page cb n st =
     (case n of RnStore \<Rightarrow> visit sample_env (js ''/other'') default_visit WNone st | _ \<Rightarrow> st)"

definition leaving_component :: router_env where
  "leaving_component = sample_env\<lparr>re_listen := leave_page\<rparr>"

text \<open>
  Aborting the deferred batch is not safe against a listener that navigates. While the router
  aborts a batch it forgets the key under work, and the store notifies the component that shows it; if
  the component then navigates, the inner visit aborts the same batch and clears the controller, and
  the outer call reads it as \<open>null\<close> after its loop: it throws a \<open>TypeError\<close>, and the visit the user asked
  for is lost (the component's visit, begun second, stays the current one).
\<close>
lemma navigating_listener_breaks_abort:
  "fst (abortActiveDeferred leaving_component deferred_router) = True \<and>
   currentVisitId (visit leaving_component (js ''/new'') default_visit WNone deferred_router) =
     Some (stamped sample_env ''visit'' 2)"
  by code_simp

end
