(* ===== verification/Server.thy ===== *)
theory Server
  imports Fetch_Transport
begin

text \<open>
  Server rendering support (\<open>packages/core/src/server\<close>): the header boundaries, the fetch of the
  initial page with its redirect loop, and the transport proxy.

  A \<open>Headers\<close> object is the list of its fields with lower-case names. The URL parser, \<open>fetch\<close>, the
  text decoder, the JSON parser and \<open>decodeURIComponent\<close> are parameters.
\<close>

section \<open>Platform objects\<close>

type_synonym web_headers = "(jstring \<times> jstring) list"

definition lower_name :: "jstring \<Rightarrow> jstring" where
  "lower_name name = map lower name"

definition headers_get :: "jstring \<Rightarrow> web_headers \<Rightarrow> jstring option" where
  "headers_get name hs =
     (let vs = map snd (filter (\<lambda>(n, _). n = lower_name name) hs)
      in if vs = [] then None else Some (join_with (js '', '') vs))"

definition headers_delete :: "jstring \<Rightarrow> web_headers \<Rightarrow> web_headers" where
  "headers_delete name hs = filter (\<lambda>(n, _). n \<noteq> lower_name name) hs"

text \<open>\<open>set\<close> gives the first field of the name the value and removes the others.\<close>

fun set_first :: "jstring \<Rightarrow> jstring \<Rightarrow> web_headers \<Rightarrow> web_headers" where
  "set_first k v [] = [(k, v)]"
| "set_first k v ((n, x) # hs) =
     (if n = k then (k, v) # filter (\<lambda>(m, _). m \<noteq> k) hs else (n, x) # set_first k v hs)"

definition headers_set :: "jstring \<Rightarrow> jstring \<Rightarrow> web_headers \<Rightarrow> web_headers" where
  "headers_set name v hs = set_first (lower_name name) v hs"

record url =
  u_protocol :: jstring
  u_username :: jstring
  u_password :: jstring
  u_search :: jstring
  u_hash :: jstring
  u_origin :: jstring
  u_pathname :: jstring
  u_href :: jstring

section \<open>Headers\<close>

definition HOP_BY_HOP_HEADERS :: "jstring list" where
  "HOP_BY_HOP_HEADERS = map js
     [''connection'', ''content-length'', ''host'', ''keep-alive'', ''proxy-authenticate'',
      ''proxy-authorization'', ''te'', ''trailer'', ''transfer-encoding'', ''upgrade'']"

definition DEFAULT_FORWARDED_HEADERS :: "jstring list" where
  "DEFAULT_FORWARDED_HEADERS = map js [''cookie'', ''authorization'', ''accept-language'', ''user-agent'']"

definition header_char :: "16 word \<Rightarrow> bool" where
  "header_char c \<longleftrightarrow> (48 \<le> c \<and> c \<le> 57) \<or> (97 \<le> lower c \<and> lower c \<le> 122) \<or>
     c \<in> set [0x21, 0x23, 0x24, 0x25, 0x26, 0x27, 0x2A, 0x2B, 0x2E, 0x5E, 0x5F, 0x60, 0x7C, 0x7E, 0x2D]"

definition HEADER_NAME :: "jstring \<Rightarrow> bool" where
  "HEADER_NAME s \<longleftrightarrow> s \<noteq> [] \<and> list_all header_char s"

text \<open>The names that the \<open>Connection\<close> field nominates.\<close>

definition nominated :: "web_headers \<Rightarrow> jstring list" where
  "nominated headers =
     filter HEADER_NAME (map js_trim (split_on 0x2C (case headers_get (js ''connection'') headers of None \<Rightarrow> [] | Some v \<Rightarrow> v)))"

text \<open>\<open>None\<close> is an input from which no \<open>Headers\<close> object can be made.\<close>

definition removeFluxHopByHopHeaders :: "web_headers option \<Rightarrow> (error_class, web_headers) result" where
  "removeFluxHopByHopHeaders input =
     (case input of
        None \<Rightarrow> Inl TypeError
      | Some headers \<Rightarrow> Inr (fold headers_delete HOP_BY_HOP_HEADERS (fold headers_delete (nominated headers) headers)))"

definition selectFluxForwardHeaders :: "web_headers option \<Rightarrow> jstring list \<Rightarrow> (error_class, web_headers) result" where
  "selectFluxForwardHeaders input additionalHeaders =
     andThen (removeFluxHopByHopHeaders input) (\<lambda>source.
       Inr (fold (\<lambda>name selected.
           if \<not> HEADER_NAME name then selected
           else (case headers_get name source of None \<Rightarrow> selected | Some v \<Rightarrow> headers_set name v selected))
         (DEFAULT_FORWARDED_HEADERS @ additionalHeaders) []))"

section \<open>Redirects\<close>

definition DEFAULT_MAX_INITIAL_REDIRECTS :: nat where
  "DEFAULT_MAX_INITIAL_REDIRECTS = 20"

definition isFluxRedirectStatus :: "nat \<Rightarrow> bool" where
  "isFluxRedirectStatus status \<longleftrightarrow> status \<in> set [301, 302, 303, 307, 308]"

text \<open>\<open>resolve location base\<close> is \<open>new URL(location, base)\<close>, \<open>None\<close> when it throws.\<close>

definition resolveFluxRedirect ::
  "(jstring \<Rightarrow> jstring \<Rightarrow> url option) \<Rightarrow> jstring \<Rightarrow> jstring \<Rightarrow> jstring \<Rightarrow> nat \<Rightarrow> (error_class, url) result" where
  "resolveFluxRedirect resolve location requestUrl backendOrigin status =
     (case resolve location requestUrl of
        None \<Rightarrow> Inl (TransportError (Some status))
      | Some destination \<Rightarrow>
          if u_origin destination \<noteq> backendOrigin \<or> u_username destination \<noteq> [] \<or> u_password destination \<noteq> []
          then Inl (TransportError (Some status)) else Inr destination)"

section \<open>The initial page\<close>

definition MAX_INITIAL_ERROR_BYTES :: nat where
  "MAX_INITIAL_ERROR_BYTES = 1024 * 1024"

record web_platform =
  wp_parse :: "jstring \<Rightarrow> url option"
  wp_resolve :: "jstring \<Rightarrow> jstring \<Rightarrow> url option"
  wp_decode :: "nat list list \<Rightarrow> jstring"
  wp_json :: "jstring \<Rightarrow> jsval option"
  wp_decodeURIComponent :: "jstring \<Rightarrow> jstring option"
  wp_now :: nat

definition unsafe_path_char :: "16 word \<Rightarrow> bool" where
  "unsafe_path_char c \<longleftrightarrow> c = 0x5C \<or> c \<le> 0x20 \<or> c = 0x7F"

definition origin_relative :: "jstring \<Rightarrow> bool" where
  "origin_relative path \<longleftrightarrow>
     take 1 path = js ''/'' \<and> take 2 path \<noteq> js ''//'' \<and> \<not> list_ex unsafe_path_char path"

definition plain_backend :: "url \<Rightarrow> bool" where
  "plain_backend backend \<longleftrightarrow>
     u_protocol backend \<in> set [js ''http:'', js ''https:''] \<and> u_username backend = [] \<and> u_password backend = [] \<and>
     u_search backend = [] \<and> u_hash backend = []"

definition strip_slash :: "jstring \<Rightarrow> jstring" where
  "strip_slash s = (if s \<noteq> [] \<and> last s = 0x2F then butlast s else s)"

text \<open>\<open>new URL\<close> of the joined text is outside the \<open>try\<close>: it throws its own \<open>TypeError\<close>.\<close>

definition initialTarget :: "web_platform \<Rightarrow> jstring \<Rightarrow> jstring \<Rightarrow> (error_class, jstring \<times> jstring) result" where
  "initialTarget wp backendUrl path =
     (if \<not> origin_relative path then Inl TypeError
      else
        (case wp_parse wp backendUrl of
           None \<Rightarrow> Inl TypeError
         | Some backend \<Rightarrow>
             if \<not> plain_backend backend then Inl TypeError
             else
               let fullUrl = strip_slash backendUrl @ path
               in (case wp_parse wp fullUrl of
                     None \<Rightarrow> Inl TypeError
                   | Some u \<Rightarrow>
                       if u_origin u \<noteq> u_origin backend then Inl TypeError
                       else Inr (fullUrl, u_origin backend))))"

record initial_response =
  ir_ok :: bool
  ir_status :: nat
  ir_headers :: web_headers
  ir_json :: "jsval option"
  ir_chunks :: "nat list list option"

text \<open>The loop over the chunks of an error body: it stops as soon as the limit is passed.\<close>

fun read_chunks :: "nat \<Rightarrow> nat list list \<Rightarrow> nat list list \<Rightarrow> nat list list option" where
  "read_chunks bytes got [] = Some got"
| "read_chunks bytes got (chunk # chunks) =
     (if bytes + length chunk > MAX_INITIAL_ERROR_BYTES then None
      else read_chunks (bytes + length chunk) (got @ [chunk]) chunks)"

text \<open>\<open>OtherError\<close> is the \<open>SyntaxError\<close> of the parser.\<close>

definition readErrorJson :: "web_platform \<Rightarrow> initial_response \<Rightarrow> (error_class, jsval) result" where
  "readErrorJson wp response =
     (let parse = (\<lambda>text. case wp_json wp text of None \<Rightarrow> Inl OtherError | Some d \<Rightarrow> Inr d) in
      case ir_chunks response of
        None \<Rightarrow> parse []
      | Some chunks \<Rightarrow>
          (case read_chunks 0 [] chunks of
             None \<Rightarrow> Inl (TransportError (Some (ir_status response)))
           | Some got \<Rightarrow> parse (wp_decode wp got)))"

definition initial_headers :: "web_platform \<Rightarrow> bool \<Rightarrow> web_headers \<Rightarrow> web_headers" where
  "initial_headers wp diagnostics hs =
     (let h1 = fold (\<lambda>(k, v). headers_set k v)
                 [(js ''Accept'', PROTOCOL_MEDIA_TYPE), (js ''X-FluxFast'', js ''1''),
                  (js ''X-FluxFast-Protocol'', js ''1''),
                  (js ''X-FluxFast-Visit'', js ''ssr_'' @ base36 (wp_now wp)),
                  (HEADER_CAPABILITIES, serializeCapabilities)] hs;
          h2 = headers_delete HEADER_DEVTOOLS h1
      in if diagnostics then headers_set HEADER_DEVTOOLS (js ''1'') h2 else h2)"

text \<open>
  The redirect loop. \<open>answer i url\<close> is what the \<open>i\<close>-th call of \<open>fetch\<close> gives for a URL; the result
  carries the URLs that were requested.
\<close>

function follow ::
  "web_platform \<Rightarrow> (nat \<Rightarrow> jstring \<Rightarrow> (error_class, initial_response) result) \<Rightarrow> jstring \<Rightarrow> nat \<Rightarrow> nat \<Rightarrow> jstring \<Rightarrow>
   jstring list \<times> (error_class, initial_response) result" where
  "follow wp answer origin maxRedirects redirects requestUrl =
     (case answer redirects requestUrl of
        Inl e \<Rightarrow> ([requestUrl], Inl e)
      | Inr response \<Rightarrow>
          (case headers_get (js ''location'') (ir_headers response) of
             None \<Rightarrow> ([requestUrl], Inr response)
           | Some location \<Rightarrow>
               if \<not> isFluxRedirectStatus (ir_status response) then ([requestUrl], Inr response)
               else if redirects \<ge> maxRedirects then ([requestUrl], Inl (TransportError (Some (ir_status response))))
               else
                 (case resolveFluxRedirect (wp_resolve wp) location requestUrl origin (ir_status response) of
                    Inl e \<Rightarrow> ([requestUrl], Inl e)
                  | Inr destination \<Rightarrow>
                      let (urls, result) = follow wp answer origin maxRedirects (redirects + 1) (u_href destination)
                      in (requestUrl # urls, result))))"
  by pat_completeness auto
termination
  by (relation "measure (\<lambda>(_, _, _, m, r, _). m - r)") auto

declare follow.simps [simp del]

datatype initial_result = InitialNotFound | InitialPage jsval "(jstring \<times> jsval) option"

definition initial_path :: "web_platform \<Rightarrow> jstring \<Rightarrow> (error_class, jstring) result" where
  "initial_path wp path =
     (case wp_resolve wp path (js ''http://fluxfast.local'') of
        None \<Rightarrow> Inl TypeError
      | Some u \<Rightarrow> let p = take 2048 (u_pathname u) in Inr (if p = [] then js ''/'' else p))"

text \<open>What follows the loop. The message of the error is not modelled, its details are.\<close>

definition initial_outcome :: "web_platform \<Rightarrow> bool \<Rightarrow> jstring \<Rightarrow> initial_response \<Rightarrow> (error_class, initial_result) result" where
  "initial_outcome wp diagnostics path response =
     (let status = ir_status response;
          body = (if ir_ok response then (case ir_json response of None \<Rightarrow> Inl OtherError | Some d \<Rightarrow> Inr d)
                  else readErrorJson wp response)
      in (case body of
            Inl _ \<Rightarrow> Inl (TransportError (Some status))
          | Inr data \<Rightarrow>
              if status = 404 then Inr InitialNotFound
              else if \<not> ir_ok response then Inl (TransportError (Some status))
              else
                andThen (assertPageEnvelope data) (\<lambda>_.
                  case (if diagnostics
                        then decodeServerDiagnosticTrace (wp_json wp) (headers_get HEADER_DEVTOOLS_TRACE (ir_headers response))
                        else None) of
                    None \<Rightarrow> Inr (InitialPage data None)
                  | Some trace \<Rightarrow>
                      andThen (initial_path wp path) (\<lambda>p. Inr (InitialPage data (Some (p, trace)))))))"

text \<open>\<open>maxRedirects\<close> is \<open>None\<close> when it is not a non-negative safe integer.\<close>

definition fetchFluxInitialPage ::
  "web_platform \<Rightarrow> (nat \<Rightarrow> jstring \<Rightarrow> web_headers \<Rightarrow> (error_class, initial_response) result) \<Rightarrow>
   jstring \<Rightarrow> jstring \<Rightarrow> web_headers option \<Rightarrow> bool \<Rightarrow> nat option \<Rightarrow>
   (jstring \<times> web_headers) list \<times> (error_class, initial_result) result" where
  "fetchFluxInitialPage wp fetch backendUrl path headers diagnostics maxRedirects =
     (case initialTarget wp backendUrl path of
        Inl e \<Rightarrow> ([], Inl e)
      | Inr (fullUrl, origin) \<Rightarrow>
          (case maxRedirects of
             None \<Rightarrow> ([], Inl TypeError)
           | Some limit \<Rightarrow>
               (case removeFluxHopByHopHeaders headers of
                  Inl e \<Rightarrow> ([], Inl e)
                | Inr hs \<Rightarrow>
                    let requestHeaders = initial_headers wp diagnostics hs;
                        (urls, result) = follow wp (\<lambda>i u. fetch i u requestHeaders) origin limit 0 fullUrl
                    in (map (\<lambda>u. (u, requestHeaders)) urls,
                        andThen result (initial_outcome wp diagnostics path)))))"

section \<open>The transport proxy\<close>

text \<open>\<open>px_body\<close> is what reading the body of the request gives: its bytes, or the error it is rejected with.\<close>

record proxy_request =
  px_method :: jstring
  px_headers :: web_headers
  px_url :: jstring
  px_body :: "(error_class, nat list) result"

datatype proxy_body = NoBody | JsonError string string | StreamBody nat

record proxy_response =
  pr_status :: nat
  pr_statusText :: jstring
  pr_headers :: web_headers
  pr_body :: proxy_body

definition jsonError :: "nat \<Rightarrow> string \<Rightarrow> string \<Rightarrow> proxy_response" where
  "jsonError status code msg =
     \<lparr>pr_status = status, pr_statusText = [],
      pr_headers = [(js ''cache-control'', js ''no-store''), (js ''content-type'', js ''application/json; charset=utf-8'')],
      pr_body = JsonError code msg\<rparr>"

definition safePathname :: "web_platform \<Rightarrow> jstring \<Rightarrow> bool" where
  "safePathname wp path \<longleftrightarrow>
     take 1 path = js ''/'' \<and> take 2 path \<noteq> js ''//'' \<and>
     \<not> list_ex (\<lambda>c. unsafe_path_char c \<or> c = 0x3F \<or> c = 0x23) path \<and>
     list_all (\<lambda>segment.
       case wp_decodeURIComponent wp segment of
         None \<Rightarrow> False
       | Some decoded \<Rightarrow> decoded \<noteq> js ''.'' \<and> decoded \<noteq> js ''..'') (split_on 0x2F path)"

definition targetUrl :: "web_platform \<Rightarrow> jstring \<Rightarrow> jstring \<Rightarrow> jstring \<Rightarrow> (error_class, jstring) result" where
  "targetUrl wp backendUrl pathname search =
     (case wp_parse wp backendUrl of
        None \<Rightarrow> Inl TypeError
      | Some backend \<Rightarrow>
          if \<not> plain_backend backend then Inl TypeError
          else
            let target = strip_slash backendUrl @ pathname @ search
            in (case wp_parse wp target of
                  None \<Rightarrow> Inl TypeError
                | Some u \<Rightarrow> if u_origin u \<noteq> u_origin backend then Inl TypeError else Inr target))"

definition upper :: "16 word \<Rightarrow> 16 word" where
  "upper c = (if 97 \<le> c \<and> c \<le> 122 then c - 32 else c)"

record upstream_request =
  up_url :: jstring
  up_method :: jstring
  up_headers :: web_headers
  up_body :: "nat list option"

definition unavailable :: proxy_response where
  "unavailable = jsonError 503 ''transport_unavailable'' ''FluxFast backend is unavailable''"

definition no_transport :: proxy_response where
  "no_transport =
     \<lparr>pr_status = 404, pr_statusText = [], pr_headers = [(js ''cache-control'', js ''no-store'')], pr_body = NoBody\<rparr>"

definition proxy_body_of :: "proxy_request \<Rightarrow> (error_class, nat list option) result" where
  "proxy_body_of request =
     (let verb = map upper (px_method request)
      in if verb = js ''GET'' \<or> verb = js ''HEAD'' then Inr None else andThen (px_body request) (\<lambda>b. Inr (Some b)))"

text \<open>The request that is sent on, if one is.\<close>

definition proxy_upstream ::
  "web_platform \<Rightarrow> jstring \<Rightarrow> proxy_request \<Rightarrow> jstring \<Rightarrow> nat list option \<Rightarrow> (error_class, upstream_request) result" where
  "proxy_upstream wp backendUrl request path body =
     (case wp_parse wp (px_url request) of
        None \<Rightarrow> Inl TypeError
      | Some u \<Rightarrow>
          andThen (targetUrl wp backendUrl path (u_search u)) (\<lambda>target.
          andThen (removeFluxHopByHopHeaders (Some (px_headers request))) (\<lambda>hs.
            Inr \<lparr>up_url = target, up_method = map upper (px_method request),
                 up_headers = headers_delete (js ''accept-encoding'') hs, up_body = body\<rparr>)))"

text \<open>
  The platform refuses to construct a response with a status outside 200 to 599, or one with a body
  under a status that has none; the \<open>catch\<close> turns that into the 503 answer.
\<close>

definition constructible :: "proxy_response \<Rightarrow> bool" where
  "constructible r \<longleftrightarrow>
     200 \<le> pr_status r \<and> pr_status r \<le> 599 \<and> (pr_status r \<in> set [204, 205, 304] \<longrightarrow> pr_body r = NoBody)"

definition proxy_answer :: "(error_class, proxy_response) result \<Rightarrow> proxy_response" where
  "proxy_answer upstream =
     (case andThen upstream (\<lambda>r.
             andThen (removeFluxHopByHopHeaders (Some (pr_headers r))) (\<lambda>hs.
               if constructible r then Inr (r\<lparr>pr_headers := hs\<rparr>) else Inl TypeError)) of
        Inl _ \<Rightarrow> unavailable
      | Inr r \<Rightarrow> r)"

text \<open>The result carries the requests that were sent to the backend.\<close>

definition fluxTransportProxy ::
  "web_platform \<Rightarrow> (upstream_request \<Rightarrow> (error_class, proxy_response) result) \<Rightarrow> jstring \<Rightarrow> proxy_request \<Rightarrow> jstring \<Rightarrow>
   upstream_request list \<times> (error_class, proxy_response) result" where
  "fluxTransportProxy wp fetch backendUrl request path =
     (if headers_get (js ''x-fluxfast'') (px_headers request) \<noteq> Some (js ''1'') then ([], Inr no_transport)
      else if \<not> safePathname wp path
      then ([], Inr (jsonError 400 ''invalid_transport_path'' ''Invalid FluxFast path''))
      else
        (case proxy_body_of request of
           Inl e \<Rightarrow> ([], Inl e)
         | Inr body \<Rightarrow>
             (case proxy_upstream wp backendUrl request path body of
                Inl _ \<Rightarrow> ([], Inr unavailable)
              | Inr upstream \<Rightarrow> ([upstream], Inr (proxy_answer (fetch upstream))))))"

end
