(* ===== verification/Server_Theorems.thy ===== *)
theory Server_Theorems
  imports Server
begin

text \<open>
  What the server support promises: which headers cross a hop, that the initial page is fetched from
  the configured backend only and in a bounded number of requests, and what the proxy sends and
  answers.
\<close>

section \<open>Headers\<close>

lemma fold_headers_delete:
  "fold headers_delete names hs = filter (\<lambda>(n, _). n \<notin> lower_name ` set names) hs"
  by (induction names arbitrary: hs) (auto simp: headers_delete_def intro!: filter_cong)

lemma lower_name_hop [simp]: "lower_name ` set HOP_BY_HOP_HEADERS = set HOP_BY_HOP_HEADERS"
proof -
  have "map lower_name HOP_BY_HOP_HEADERS = HOP_BY_HOP_HEADERS" by code_simp
  then show ?thesis by (metis list.set_map)
qed

definition crosses_hop :: "web_headers \<Rightarrow> jstring \<Rightarrow> bool" where
  "crosses_hop hs n \<longleftrightarrow> n \<notin> set HOP_BY_HOP_HEADERS \<and> n \<notin> lower_name ` set (nominated hs)"

lemma hop_filter: "removeFluxHopByHopHeaders (Some hs) = Inr (filter (\<lambda>(n, _). crosses_hop hs n) hs)"
  by (auto simp: removeFluxHopByHopHeaders_def fold_headers_delete crosses_hop_def conj_commute intro!: filter_cong)

text \<open>
  The fields that end at a hop, as the standards name them, and the fields that the \<open>Connection\<close> field
  of a message nominates; all others are end-to-end.
\<close>

definition per_hop :: "jstring \<Rightarrow> bool" where
  "per_hop n \<longleftrightarrow> (\<exists>f\<in>set [''connection'', ''content-length'', ''host'', ''keep-alive'', ''proxy-authenticate'',
     ''proxy-authorization'', ''te'', ''trailer'', ''transfer-encoding'', ''upgrade'']. n = js f)"

definition nominates :: "web_headers \<Rightarrow> jstring \<Rightarrow> bool" where
  "nominates hs n \<longleftrightarrow> (\<exists>v part. headers_get (js ''connection'') hs = Some v \<and> part \<in> set (split_on 0x2C v) \<and>
     HEADER_NAME (js_trim part) \<and> n = lower_name (js_trim part))"

definition end_to_end :: "web_headers \<Rightarrow> jstring \<Rightarrow> bool" where
  "end_to_end hs n \<longleftrightarrow> \<not> per_hop n \<and> \<not> nominates hs n"

lemma crosses_end_to_end: "crosses_hop hs n \<longleftrightarrow> end_to_end hs n"
proof -
  have "\<not> HEADER_NAME (js_trim part)" if "part \<in> set (split_on 0x2C [])" for part
    using that by (simp add: HEADER_NAME_def js_trim_def)
  then show ?thesis
    by (fastforce simp: crosses_hop_def end_to_end_def per_hop_def HOP_BY_HOP_HEADERS_def nominates_def nominated_def
        split: option.splits)
qed

lemma headers_get_filter:
  "headers_get n (filter (\<lambda>(m, _). keep m) hs) = (if keep (lower_name n) then headers_get n hs else None)"
proof -
  have "filter (\<lambda>(m, _). m = lower_name n) (filter (\<lambda>(m, _). keep m) hs) =
      (if keep (lower_name n) then filter (\<lambda>(m, _). m = lower_name n) hs else [])"
    by (induction hs) auto
  then show ?thesis by (simp add: headers_get_def Let_def)
qed

lemma headers_get_delete [simp]:
  "headers_get n (headers_delete m h) = (if lower_name n = lower_name m then None else headers_get n h)"
  unfolding headers_delete_def by (subst headers_get_filter) auto

lemma headers_get_set [simp]:
  "headers_get n (headers_set m v h) = (if lower_name n = lower_name m then Some v else headers_get n h)"
proof -
  have "filter (\<lambda>(a, _). a = lower_name n) (set_first k v h) =
      (if lower_name n = k then [(k, v)] else filter (\<lambda>(a, _). a = lower_name n) h)" for k
  proof (induction h)
    case (Cons e h)
    have "filter (\<lambda>(a, _). a = lower_name n) (filter (\<lambda>(m, _). m \<noteq> k) h) =
        (if lower_name n = k then [] else filter (\<lambda>(a, _). a = lower_name n) h)"
      by (induction h) auto
    with Cons show ?case by (cases e) (auto simp del: filter_filter)
  qed simp
  then show ?thesis by (simp add: headers_get_def headers_set_def Let_def)
qed

text \<open>
  Exactly the end-to-end header fields cross a hop. \<open>removeFluxHopByHopHeaders\<close> drops the standard
  per-hop fields and every field that the \<open>Connection\<close> field nominates, keeps all others in their
  order with their values (repeated \<open>Set-Cookie\<close> fields included), and throws only when the input is no
  valid set of headers. A second pass changes nothing.
\<close>
lemma hop_by_hop_exact:
  "removeFluxHopByHopHeaders input =
     (case input of
        None \<Rightarrow> Inl TypeError
      | Some hs \<Rightarrow>
          Inr (filter (\<lambda>(n, _). n \<notin> set HOP_BY_HOP_HEADERS \<and> n \<notin> lower_name ` set (nominated hs)) hs)) \<and>
   andThen (removeFluxHopByHopHeaders input) (\<lambda>out. removeFluxHopByHopHeaders (Some out)) =
     removeFluxHopByHopHeaders input"
proof (cases input)
  case (Some hs)
  let ?out = "filter (\<lambda>(n, _). crosses_hop hs n) hs"
  have "js ''connection'' \<in> set HOP_BY_HOP_HEADERS" by code_simp
  then have "headers_get (js ''connection'') ?out = None"
  proof -
    have "lower_name (js ''connection'') = js ''connection''" by code_simp
    with \<open>js ''connection'' \<in> _\<close> show ?thesis
      by (auto simp: headers_get_def crosses_hop_def filter_empty_conv Let_def)
  qed
  then have "nominated ?out = []"
    by (simp add: nominated_def split_on.simps HEADER_NAME_def js_trim_def)
  then have "removeFluxHopByHopHeaders (Some ?out) = Inr ?out"
    by (auto simp: hop_filter crosses_hop_def intro!: filter_cong)
  then show ?thesis
    by (auto simp: Some hop_filter) (auto simp: crosses_hop_def)
qed (simp add: removeFluxHopByHopHeaders_def)

section \<open>Redirects\<close>

text \<open>The parser's documented behaviour: parsing what a parsed URL serialises to keeps its origin.\<close>

definition href_faithful :: "web_platform \<Rightarrow> bool" where
  "href_faithful wp \<longleftrightarrow>
     (\<forall>l b u. wp_resolve wp l b = Some u \<longrightarrow>
        (\<exists>p. wp_parse wp (u_href u) = Some p \<and> u_origin p = u_origin u))"

definition at_origin :: "web_platform \<Rightarrow> jstring \<Rightarrow> jstring \<Rightarrow> bool" where
  "at_origin wp origin u \<longleftrightarrow> (\<exists>p. wp_parse wp u = Some p \<and> u_origin p = origin)"

lemma resolveFluxRedirect_Inr:
  "resolveFluxRedirect resolve l b origin status = Inr u \<longleftrightarrow>
     resolve l b = Some u \<and> u_origin u = origin \<and> u_username u = [] \<and> u_password u = []"
  by (auto simp: resolveFluxRedirect_def split: option.splits if_splits)

lemma follow_bounded:
  "length (fst (follow wp answer origin limit redirects url)) \<le> Suc (limit - redirects)"
proof (induction wp answer origin limit redirects url rule: follow.induct)
  case (1 wp answer origin limit redirects url)
  show ?case
  proof (cases "\<exists>response location destination. answer redirects url = Inr response \<and>
      headers_get (js ''location'') (ir_headers response) = Some location \<and>
      isFluxRedirectStatus (ir_status response) \<and> \<not> redirects \<ge> limit \<and>
      resolveFluxRedirect (wp_resolve wp) location url origin (ir_status response) = Inr destination")
    case True
    then obtain response location destination where r: "answer redirects url = Inr response"
      "headers_get (js ''location'') (ir_headers response) = Some location"
      "isFluxRedirectStatus (ir_status response)" "\<not> redirects \<ge> limit"
      "resolveFluxRedirect (wp_resolve wp) location url origin (ir_status response) = Inr destination"
      by blast
    have "length (fst (follow wp answer origin limit (redirects + 1) (u_href destination))) \<le> Suc (limit - (redirects + 1))"
      using "1.IH" r by blast
    with r show ?thesis by (subst follow.simps) (simp add: split_beta)
  qed (subst follow.simps, auto simp: split_beta split: sum.split option.split)
qed

lemma follow_at_origin:
  assumes "href_faithful wp" and "at_origin wp origin url"
  shows "\<forall>u\<in>set (fst (follow wp answer origin limit redirects url)). at_origin wp origin u"
  using assms
proof (induction wp answer origin limit redirects url rule: follow.induct)
  case (1 wp answer origin limit redirects url)
  have dest: "at_origin wp origin (u_href destination)"
    if "resolveFluxRedirect (wp_resolve wp) l b origin status = Inr destination" for l b status destination
    using that "1.prems"(1) by (auto simp: resolveFluxRedirect_Inr href_faithful_def at_origin_def)
  show ?case
    using "1.IH" "1.prems" dest
    by (subst follow.simps) (auto simp: split_beta split: sum.split option.split)
qed

lemma follow_answered:
  "snd (follow wp answer origin limit redirects url) = Inr r \<Longrightarrow>
     headers_get (js ''location'') (ir_headers r) = None \<or> \<not> isFluxRedirectStatus (ir_status r)"
proof (induction wp answer origin limit redirects url rule: follow.induct)
  case (1 wp answer origin limit redirects url)
  show ?case
    using "1.IH" "1.prems" [unfolded follow.simps [of wp answer origin limit redirects url]]
    by (auto simp: split_beta split: sum.splits option.splits if_splits)
qed

definition redirect_to_follow :: "initial_response \<Rightarrow> bool" where
  "redirect_to_follow r \<longleftrightarrow> isFluxRedirectStatus (ir_status r) \<and> headers_get (js ''location'') (ir_headers r) \<noteq> None"

text \<open>
  C36: following redirects ends. Whatever the backend answers, even redirects to itself for ever, the
  loop makes at most one request more than the limit on redirects, and it ends with an error or with a
  response that is not a redirect to follow.
\<close>
theorem redirect_loop_bounded:
  "length (fst (follow wp answer origin maxRedirects 0 url)) \<le> maxRedirects + 1 \<and>
   (case snd (follow wp answer origin maxRedirects 0 url) of
      Inl _ \<Rightarrow> True
    | Inr r \<Rightarrow> \<not> redirect_to_follow r)"
  using follow_bounded [of wp answer origin maxRedirects 0 url] follow_answered [of wp answer origin maxRedirects 0 url]
  by (auto simp: redirect_to_follow_def split: sum.split)

lemma initialTarget_Inr:
  assumes "initialTarget wp backendUrl path = Inr (fullUrl, origin)"
  shows "\<exists>backend. wp_parse wp backendUrl = Some backend \<and> plain_backend backend \<and> u_origin backend = origin \<and>
    at_origin wp origin fullUrl \<and> fullUrl = strip_slash backendUrl @ path"
  using assms by (auto simp: initialTarget_def Let_def at_origin_def split: option.splits if_splits)

definition plain_url :: "url \<Rightarrow> bool" where
  "plain_url u \<longleftrightarrow> (u_protocol u = js ''http:'' \<or> u_protocol u = js ''https:'') \<and>
     u_username u = [] \<and> u_password u = [] \<and> u_search u = [] \<and> u_hash u = []"

lemma plain_backend_url: "plain_backend u \<longleftrightarrow> plain_url u"
  by (auto simp: plain_backend_def plain_url_def)

text \<open>What a request for the initial page carries beside the caller's fields.\<close>

definition initial_fields :: "web_platform \<Rightarrow> (jstring \<times> jstring) list" where
  "initial_fields wp =
     [(js ''Accept'', js ''application/vnd.fluxfast+json''), (js ''X-FluxFast'', js ''1''),
      (js ''X-FluxFast-Protocol'', js ''1''), (js ''X-FluxFast-Visit'', js ''ssr_'' @ base36 (wp_now wp)),
      (js ''X-FluxFast-Capabilities'', js ''deferred-resources,live-resources'')]"

lemma initial_names_distinct:
  "distinct (map lower_name [js ''Accept'', js ''X-FluxFast'', js ''X-FluxFast-Protocol'', js ''X-FluxFast-Visit'',
     js ''X-FluxFast-Capabilities'', js ''X-FluxFast-DevTools''])"
  by code_simp

lemma initial_constants:
  "PROTOCOL_MEDIA_TYPE = js ''application/vnd.fluxfast+json''"
  "HEADER_CAPABILITIES = js ''X-FluxFast-Capabilities''"
  "serializeCapabilities = js ''deferred-resources,live-resources''"
  "HEADER_DEVTOOLS = js ''X-FluxFast-DevTools''"
  by code_simp+

lemma initial_headers_get:
  "headers_get n (initial_headers wp diagnostics hs) =
     (if lower_name n = lower_name (js ''X-FluxFast-DevTools'') then if diagnostics then Some (js ''1'') else None
      else if lower_name n = lower_name (js ''X-FluxFast-Capabilities'') then Some (js ''deferred-resources,live-resources'')
      else if lower_name n = lower_name (js ''X-FluxFast-Visit'') then Some (js ''ssr_'' @ base36 (wp_now wp))
      else if lower_name n = lower_name (js ''X-FluxFast-Protocol'') then Some (js ''1'')
      else if lower_name n = lower_name (js ''X-FluxFast'') then Some (js ''1'')
      else if lower_name n = lower_name (js ''Accept'') then Some (js ''application/vnd.fluxfast+json'')
      else headers_get n hs)"
  by (simp add: initial_headers_def initial_constants Let_def)

lemma initial_headers_fields:
  "(n, v) \<in> set (initial_fields wp) \<Longrightarrow> headers_get n (initial_headers wp diagnostics hs) = Some v"
  using initial_names_distinct by (auto simp: initial_headers_get initial_fields_def)

lemma initial_headers_others:
  "\<forall>(m, _)\<in>set (initial_fields wp). lower_name n \<noteq> lower_name m \<Longrightarrow>
   lower_name n \<noteq> lower_name (js ''X-FluxFast-DevTools'') \<Longrightarrow>
   headers_get n (initial_headers wp diagnostics hs) = headers_get n hs"
  by (simp add: initial_headers_get initial_fields_def)

text \<open>
  C35: the initial page is fetched from the configured backend only, with exactly the headers meant
  for it. Every request the redirect loop makes goes to a URL of the backend's origin, where the backend
  URL has the HTTP or HTTPS scheme and no credentials, query or fragment; the first is the backend's URL
  followed by the path, and at most one request more than the limit is made. Each request carries the
  five protocol fields with their values, the development field exactly when diagnostics were asked for,
  and of the caller's other fields exactly the end-to-end ones: no per-hop field and none that the
  \<open>Connection\<close> field nominates. So cookies and tokens never leave for another origin. The URL parser's
  documented behaviour that serialising and parsing again keeps the origin is assumed.
\<close>
theorem initial_requests_stay_home:
  assumes "href_faithful wp"
    and "fetchFluxInitialPage wp fetch backendUrl path headers diagnostics (Some limit) = (sent, result)"
    and "sent \<noteq> []"
  shows "\<exists>backend caller. wp_parse wp backendUrl = Some backend \<and> plain_url backend \<and> headers = Some caller \<and>
    fst (hd sent) = strip_slash backendUrl @ path \<and> length sent \<le> limit + 1 \<and>
    (\<forall>(u, hs)\<in>set sent. at_origin wp (u_origin backend) u \<and>
       (\<forall>(n, v)\<in>set (initial_fields wp). headers_get n hs = Some v) \<and>
       headers_get (js ''X-FluxFast-DevTools'') hs = (if diagnostics then Some (js ''1'') else None) \<and>
       (\<forall>n. lower_name n \<noteq> lower_name (js ''X-FluxFast-DevTools'') \<and>
            (\<forall>(m, _)\<in>set (initial_fields wp). lower_name n \<noteq> lower_name m) \<longrightarrow>
          headers_get n hs = (if end_to_end caller (lower_name n) then headers_get n caller else None)))"
proof -
  obtain fullUrl origin hs where target: "initialTarget wp backendUrl path = Inr (fullUrl, origin)"
    and hs: "removeFluxHopByHopHeaders headers = Inr hs"
    using assms(2,3) by (auto simp: fetchFluxInitialPage_def split: sum.splits prod.splits option.splits)
  obtain caller where caller: "headers = Some caller"
    using hs by (cases headers) (simp_all add: removeFluxHopByHopHeaders_def)
  then have kept: "hs = filter (\<lambda>(n, _). end_to_end caller n) caller"
    using hs by (simp add: hop_filter crosses_end_to_end)
  let ?h = "initial_headers wp diagnostics hs"
  let ?f = "follow wp (\<lambda>i u. fetch i u ?h) origin limit 0 fullUrl"
  have sent: "sent = map (\<lambda>u. (u, ?h)) (fst ?f)"
    using assms(2) target hs by (auto simp: fetchFluxInitialPage_def Let_def split_beta)
  obtain backend where b: "wp_parse wp backendUrl = Some backend" "plain_backend backend" "u_origin backend = origin"
    "at_origin wp origin fullUrl" "fullUrl = strip_slash backendUrl @ path"
    using initialTarget_Inr [OF target] by blast
  have "hd (fst ?f) = fullUrl"
    by (subst follow.simps) (auto simp: split_beta split: sum.split option.split)
  then have first: "fst (hd sent) = fullUrl" using assms(3) by (simp add: sent hd_map)
  have len: "length sent \<le> limit + 1" using follow_bounded by (simp add: sent) (metis diff_zero)
  have "\<forall>u\<in>set (fst ?f). at_origin wp origin u" by (rule follow_at_origin [OF assms(1) b(4)])
  then have "at_origin wp (u_origin backend) u \<and> h = ?h" if "(u, h) \<in> set sent" for u h
    using that b(3) by (auto simp: sent)
  moreover have "headers_get (js ''X-FluxFast-DevTools'') ?h = (if diagnostics then Some (js ''1'') else None)"
    by (simp add: initial_headers_get)
  moreover have "headers_get n ?h = (if end_to_end caller (lower_name n) then headers_get n caller else None)"
    if "lower_name n \<noteq> lower_name (js ''X-FluxFast-DevTools'')"
      "\<forall>(m, _)\<in>set (initial_fields wp). lower_name n \<noteq> lower_name m" for n
    using that by (simp add: initial_headers_others kept headers_get_filter)
  moreover have "\<forall>(n, v)\<in>set (initial_fields wp). headers_get n ?h = Some v"
    using initial_headers_fields by blast
  ultimately have "\<forall>(u, hs)\<in>set sent. at_origin wp (u_origin backend) u \<and>
       (\<forall>(n, v)\<in>set (initial_fields wp). headers_get n hs = Some v) \<and>
       headers_get (js ''X-FluxFast-DevTools'') hs = (if diagnostics then Some (js ''1'') else None) \<and>
       (\<forall>n. lower_name n \<noteq> lower_name (js ''X-FluxFast-DevTools'') \<and>
            (\<forall>(m, _)\<in>set (initial_fields wp). lower_name n \<noteq> lower_name m) \<longrightarrow>
          headers_get n hs = (if end_to_end caller (lower_name n) then headers_get n caller else None))"
    by blast
  then show ?thesis using b caller first len by (auto simp: plain_backend_url)
qed

text \<open>A parser for one backend: only its own URLs parse, all of one origin.\<close>

definition sample_url :: "jstring \<Rightarrow> url" where
  "sample_url s = \<lparr>u_protocol = js ''https:'', u_username = [], u_password = [], u_search = [], u_hash = [],
     u_origin = js ''https://b'', u_pathname = js ''/'', u_href = s\<rparr>"

definition sample_platform :: web_platform where
  "sample_platform = \<lparr>wp_parse = (\<lambda>s. if take 9 s = js ''https://b'' then Some (sample_url s) else None),
     wp_resolve = (\<lambda>l b. Some (sample_url (js ''https://b'' @ l))), wp_decode = (\<lambda>_. []), wp_json = (\<lambda>_. None),
     wp_decodeURIComponent = Some, wp_now = 7\<rparr>"

definition moved :: "nat \<Rightarrow> jstring \<Rightarrow> web_headers \<Rightarrow> (error_class, initial_response) result" where
  "moved i u hs = Inr \<lparr>ir_ok = False, ir_status = 302, ir_headers = [(js ''location'', js ''/next'')], ir_json = None,
     ir_chunks = None\<rparr>"

lemma sample_faithful: "href_faithful sample_platform"
  by (auto simp: href_faithful_def sample_platform_def sample_url_def js_def)

theorem initial_requests_stay_home_witness:
  "\<exists>backend. wp_parse sample_platform (js ''https://b'') = Some backend \<and> plain_url backend \<and>
     (\<forall>(u, hs)\<in>set (fst (fetchFluxInitialPage sample_platform moved (js ''https://b'') (js ''/a'') (Some []) True (Some 2))).
        at_origin sample_platform (u_origin backend) u)"
proof -
  let ?r = "fetchFluxInitialPage sample_platform moved (js ''https://b'') (js ''/a'') (Some []) True (Some 2)"
  have "length (fst ?r) = 3" by code_simp
  then have "fst ?r \<noteq> []" by auto
  from initial_requests_stay_home [OF sample_faithful prod.collapse [symmetric] this]
  show ?thesis by fast
qed

section \<open>The proxy\<close>

text \<open>A path that stays below the backend's URL: see C37.\<close>

definition stays_below :: "web_platform \<Rightarrow> jstring \<Rightarrow> bool" where
  "stays_below wp path \<longleftrightarrow>
     take 1 path = js ''/'' \<and> take 2 path \<noteq> js ''//'' \<and>
     (\<forall>c\<in>set path. 0x20 < c \<and> c \<noteq> 0x7F \<and> c \<noteq> 0x5C \<and> c \<noteq> 0x3F \<and> c \<noteq> 0x23) \<and>
     (\<forall>segment\<in>set (split_on 0x2F path). \<exists>decoded. wp_decodeURIComponent wp segment = Some decoded \<and>
        decoded \<noteq> js ''.'' \<and> decoded \<noteq> js ''..'')"

lemma safePathname_iff: "safePathname wp path \<longleftrightarrow> stays_below wp path"
  by (fastforce simp: safePathname_def stays_below_def unsafe_path_char_def list_ex_iff list_all_iff not_le
      split: option.splits)

lemma targetUrl_Inr:
  assumes "targetUrl wp backendUrl path search = Inr target"
  shows "\<exists>backend. wp_parse wp backendUrl = Some backend \<and> plain_url backend \<and>
    target = strip_slash backendUrl @ path @ search \<and> at_origin wp (u_origin backend) target"
  using assms
  by (auto simp: targetUrl_def at_origin_def plain_backend_url Let_def split: option.splits if_splits)

definition upstream_ok :: "web_platform \<Rightarrow> jstring \<Rightarrow> proxy_request \<Rightarrow> jstring \<Rightarrow> upstream_request \<Rightarrow> bool" where
  "upstream_ok wp backendUrl request path up \<longleftrightarrow>
     (\<exists>backend own. wp_parse wp backendUrl = Some backend \<and> plain_url backend \<and>
        wp_parse wp (px_url request) = Some own \<and>
        up_url up = strip_slash backendUrl @ path @ u_search own \<and> at_origin wp (u_origin backend) (up_url up)) \<and>
     up_method up = map upper (px_method request) \<and>
     (if up_method up \<in> {js ''GET'', js ''HEAD''} then up_body up = None
      else \<exists>b. px_body request = Inr b \<and> up_body up = Some b) \<and>
     (\<forall>n. headers_get n (up_headers up) =
        (if end_to_end (px_headers request) (lower_name n) \<and> lower_name n \<noteq> js ''accept-encoding''
         then headers_get n (px_headers request) else None))"

lemma proxy_upstream_Inr:
  assumes "proxy_upstream wp backendUrl request path body = Inr up" and "proxy_body_of request = Inr body"
  shows "upstream_ok wp backendUrl request path up"
proof -
  have ae: "lower_name (js ''accept-encoding'') = js ''accept-encoding''" by code_simp
  obtain own target where own: "wp_parse wp (px_url request) = Some own"
    and target: "targetUrl wp backendUrl path (u_search own) = Inr target"
    and up: "up = \<lparr>up_url = target, up_method = map upper (px_method request),
       up_headers = headers_delete (js ''accept-encoding'')
         (filter (\<lambda>(n, _). end_to_end (px_headers request) n) (px_headers request)), up_body = body\<rparr>"
    using assms(1) by (auto simp: proxy_upstream_def hop_filter crosses_end_to_end split: option.splits)
  have "if map upper (px_method request) \<in> {js ''GET'', js ''HEAD''} then body = None
      else \<exists>b. px_body request = Inr b \<and> body = Some b"
    using assms(2) by (auto simp: proxy_body_of_def Let_def split: if_splits)
  then show ?thesis
    using own targetUrl_Inr [OF target]
    by (auto simp: upstream_ok_def up ae headers_get_filter)
qed

lemma proxy_answer_cases:
  "proxy_answer answer = unavailable \<or>
   (\<exists>r. answer = Inr r \<and> constructible r \<and>
      proxy_answer answer = r\<lparr>pr_headers := filter (\<lambda>(n, _). crosses_hop (pr_headers r) n) (pr_headers r)\<rparr>)"
  by (cases answer) (auto simp: proxy_answer_def hop_filter)

text \<open>
  C37: the proxy forwards only what it should. It makes at most one upstream request, and only for a
  request marked as FluxFast's own whose path starts with exactly one slash, has no backslash, blank,
  control character, question mark or hash, and no segment that is or decodes to a dot segment or does
  not decode. That request goes to the backend's URL followed by the path and by the query of the
  request's own URL; the backend URL has the HTTP or HTTPS scheme and no credentials, query or fragment,
  and the whole URL parses to the backend's origin. It has the request's method and, unless that is GET
  or HEAD, its body, and of the request's header fields the end-to-end ones except \<open>accept-encoding\<close>. The
  answer is one of three fixed errors (404, 400, 503), which reveal nothing about the backend, or the
  upstream's answer with the per-hop fields left out; the only error that is thrown is that of reading
  the request's own body, before anything was sent.
\<close>
theorem proxy_forwards_safely:
  "case fluxTransportProxy wp fetch backendUrl request path of (sent, outcome) \<Rightarrow>
     (sent = [] \<or>
      (\<exists>up. sent = [up] \<and> headers_get (js ''x-fluxfast'') (px_headers request) = Some (js ''1'') \<and>
         stays_below wp path \<and> upstream_ok wp backendUrl request path up)) \<and>
     (case outcome of
        Inl e \<Rightarrow> sent = [] \<and> px_body request = Inl e
      | Inr response \<Rightarrow>
          response \<in> {no_transport, jsonError 400 ''invalid_transport_path'' ''Invalid FluxFast path'', unavailable} \<or>
          (\<exists>up a. sent = [up] \<and> fetch up = Inr a \<and>
             response = a\<lparr>pr_headers := filter (\<lambda>(n, _). end_to_end (pr_headers a) n) (pr_headers a)\<rparr>))"
proof (cases "headers_get (js ''x-fluxfast'') (px_headers request) = Some (js ''1'') \<and> safePathname wp path")
  case ok: True
  show ?thesis
  proof (cases "proxy_body_of request")
    case (Inl e)
    then have "px_body request = Inl e"
      by (auto simp: proxy_body_of_def Let_def andThen_def split: if_splits sum.splits)
    with ok Inl show ?thesis by (simp add: fluxTransportProxy_def)
  next
    case body: (Inr body)
    show ?thesis
    proof (cases "proxy_upstream wp backendUrl request path body")
      case (Inr up)
      with ok body proxy_upstream_Inr [OF Inr body] proxy_answer_cases [of "fetch up"] show ?thesis
        by (auto simp: fluxTransportProxy_def safePathname_iff crosses_end_to_end)
    qed (simp add: ok body fluxTransportProxy_def)
  qed
qed (auto simp: fluxTransportProxy_def)

text \<open>An error body is read up to the limit and no further.\<close>

lemma read_chunks_exact:
  "read_chunks bytes got chunks =
     (if chunks = [] \<or> bytes + sum_list (map length chunks) \<le> MAX_INITIAL_ERROR_BYTES then Some (got @ chunks) else None)"
proof (induction bytes got chunks rule: read_chunks.induct)
  case (2 bytes got chunk chunks)
  then show ?case by (auto simp: ac_simps)
qed simp

end
