(* ===== verification/Live_Connection.thy ===== *)
theory Live_Connection
  imports Fetch_Transport Live_Sse
begin

text \<open>
  The connection of a live stream (\<open>FetchSseLiveConnection\<close> and \<open>FetchSseLiveTransport\<close> in
  \<open>packages/core/src/live/transport.ts\<close>). The asynchronous iterator is split where it waits: at the
  call of \<open>fetch\<close> and at each read of the body; its events come from the parser of the stream.
\<close>

definition HEADER_LIVE :: jstring where
  "HEADER_LIVE = js ''X-FluxFast-Live''"

definition HEADER_LIVE_KEYS :: jstring where
  "HEADER_LIVE_KEYS = js ''X-FluxFast-Live-Keys''"

record live_connection_options =
  lco_url :: jstring
  lco_keys :: "rkey list"
  lco_clientId :: "jstring option"
  lco_signalAborted :: "bool option"
  lco_headers :: "headers option"

text \<open>\<open>lc_listening\<close> says that the external signal is observed, \<open>lc_cancelled\<close> that the reader was told to stop.\<close>

record live_connection =
  lc_url :: jstring
  lc_headers :: headers
  lc_aborted :: bool
  lc_listening :: bool
  lc_reader :: bool
  lc_cancelled :: bool
  lc_started :: bool

definition new_connection :: "jstring \<Rightarrow> headers \<Rightarrow> bool option \<Rightarrow> live_connection" where
  "new_connection url headers signal =
     \<lparr>lc_url = url, lc_headers = headers, lc_aborted = (signal = Some True), lc_listening = (signal = Some False),
      lc_reader = False, lc_cancelled = False, lc_started = False\<rparr>"

definition lc_close :: "live_connection \<Rightarrow> live_connection" where
  "lc_close c =
     c\<lparr>lc_listening := False, lc_aborted := True, lc_cancelled := (lc_cancelled c \<or> lc_reader c)\<rparr>"

text \<open>The external signal aborts: its listener runs once, if it is still registered.\<close>

definition external_abort :: "live_connection \<Rightarrow> live_connection" where
  "external_abort c = (if lc_listening c then lc_close c else c)"

datatype iterator_start = IterThrows error_class | IterEnds | IterFetches

definition lc_iterate :: "live_connection \<Rightarrow> iterator_start \<times> live_connection" where
  "lc_iterate c =
     (if lc_started c then (IterThrows ProtocolError, c)
      else
        let c1 = c\<lparr>lc_started := True\<rparr>
        in if lc_aborted c1 then (IterEnds, c1) else (IterFetches, c1))"

record live_response =
  lr_ok :: bool
  lr_status :: nat
  lr_contentType :: "jstring option"
  lr_hasBody :: bool

definition stream_content :: "live_response \<Rightarrow> bool" where
  "stream_content r \<longleftrightarrow>
     includes_text (js ''text/event-stream'') (map lower (case lr_contentType r of None \<Rightarrow> [] | Some t \<Rightarrow> t))"

definition lc_finally :: "live_connection \<Rightarrow> live_connection" where
  "lc_finally c =
     (let c1 = c\<lparr>lc_reader := False, lc_cancelled := (lc_cancelled c \<or> lc_reader c)\<rparr> in lc_close c1)"

text \<open>The answer of \<open>fetch\<close>: the error that is thrown, or the reader.\<close>

definition lc_response :: "(error_class, live_response) result \<Rightarrow> live_connection \<Rightarrow> error_class option \<times> live_connection" where
  "lc_response answer c =
     (case answer of
        Inl e \<Rightarrow> (Some e, lc_finally c)
      | Inr r \<Rightarrow>
          if \<not> lr_ok r then (Some (TransportError (Some (lr_status r))), lc_finally c)
          else if \<not> stream_content r then (Some ProtocolError, lc_finally c)
          else if \<not> lr_hasBody r then (Some ProtocolError, lc_finally c)
          else (None, c\<lparr>lc_reader := True\<rparr>))"

text \<open>
  The reading loop: the chunks up to the end of the body (\<open>None\<close>) or a failing read. The events
  yielded, the error thrown, and the connection after the \<open>finally\<close> block.
\<close>

fun sse_pushes ::
  "'d text_decoder \<Rightarrow> json_parse \<Rightarrow> 8 word list list \<Rightarrow> 'd sse_parser \<Rightarrow>
   live_event list \<times> error_class option" where
  "sse_pushes decode parse [] p = ([], None)"
| "sse_pushes decode parse (chunk # chunks) p =
     (case sse_push decode parse chunk p of
        (Inl e, _) \<Rightarrow> ([], Some e)
      | (Inr events, p') \<Rightarrow>
          (case sse_pushes decode parse chunks p' of (evs, err) \<Rightarrow> (events @ evs, err)))"

definition lc_stream ::
  "'d text_decoder \<Rightarrow> json_parse \<Rightarrow> 'd \<Rightarrow> 8 word list list \<Rightarrow> error_class option \<Rightarrow> live_connection \<Rightarrow>
   live_event list \<times> error_class option \<times> live_connection" where
  "lc_stream decode parse d chunks readError c =
     (let p = \<lparr>sp_decoder = d, sp_buffer = []\<rparr>;
          (events, err) =
            (case readError of
               None \<Rightarrow> sse_run decode parse chunks p
             | Some e \<Rightarrow>
                 (case sse_pushes decode parse chunks p of
                    (events, Some e') \<Rightarrow> (events, Some e') | (events, None) \<Rightarrow> (events, Some e)))
      in (events, err, lc_finally c))"

section \<open>The transport\<close>

definition resolve_live_url :: "jstring \<Rightarrow> jstring \<Rightarrow> jstring" where
  "resolve_live_url baseUrl path =
     (if absolute_url path then path
      else baseUrl @ (if take 1 path = js ''/'' then [] else js ''/'') @ path)"

definition live_base_url :: "jstring \<Rightarrow> jstring" where
  "live_base_url baseUrl = (if baseUrl \<noteq> [] \<and> last baseUrl = 0x2F then butlast baseUrl else baseUrl)"

definition connect :: "jstring \<Rightarrow> live_connection_options \<Rightarrow> (error_class, live_connection) result" where
  "connect baseUrl options =
     andThen (serializeLiveKeys (lco_keys options)) (\<lambda>keys.
     andThen (assertClientId (lco_clientId options)) (\<lambda>_.
       let h1 = fold (\<lambda>(k, v). header_set k v)
                  [(js ''Accept'', js ''text/event-stream''), (js ''X-FluxFast'', js ''1''),
                   (js ''X-FluxFast-Protocol'', js ''1''), (HEADER_LIVE, js ''1''), (HEADER_LIVE_KEYS, keys),
                   (HEADER_CAPABILITIES, serializeCapabilities)]
                  (case lco_headers options of None \<Rightarrow> [] | Some hs \<Rightarrow> hs);
           h2 = (case lco_clientId options of
                   Some c \<Rightarrow> if c \<noteq> [] then header_set HEADER_CLIENT_ID c h1 else h1 | None \<Rightarrow> h1)
       in Inr (new_connection (resolve_live_url baseUrl (lco_url options)) h2 (lco_signalAborted options))))"

section \<open>The life of a connection\<close>

datatype lc_phase = LcIdle | LcFetching | LcReading | LcFinished

text \<open>
  Everything that may happen to one connection, in any order: iterators are asked for, the answer of
  \<open>fetch\<close> arrives, the body is read to its end or to an error, \<open>close\<close> is called and the external
  signal aborts. The number counts the calls of \<open>fetch\<close>.
\<close>

inductive lc_reach :: "'d text_decoder \<Rightarrow> json_parse \<Rightarrow> 'd \<Rightarrow> live_connection \<Rightarrow> lc_phase \<Rightarrow> nat \<Rightarrow> live_connection \<Rightarrow> bool"
  for decode parse d c0 where
  lc_new: "lc_reach decode parse d c0 LcIdle 0 c0"
| lc_closed: "lc_reach decode parse d c0 ph n c \<Longrightarrow> lc_reach decode parse d c0 ph n (lc_close c)"
| lc_signalled: "lc_reach decode parse d c0 ph n c \<Longrightarrow> lc_reach decode parse d c0 ph n (external_abort c)"
| lc_refused: "lc_reach decode parse d c0 ph n c \<Longrightarrow> lc_iterate c = (IterThrows e, c') \<Longrightarrow> lc_reach decode parse d c0 ph n c'"
| lc_empty: "lc_reach decode parse d c0 ph n c \<Longrightarrow> lc_iterate c = (IterEnds, c') \<Longrightarrow> lc_reach decode parse d c0 LcFinished n c'"
| lc_fetch: "lc_reach decode parse d c0 ph n c \<Longrightarrow> lc_iterate c = (IterFetches, c') \<Longrightarrow> lc_reach decode parse d c0 LcFetching (Suc n) c'"
| lc_failed: "lc_reach decode parse d c0 LcFetching n c \<Longrightarrow> lc_response answer c = (Some e, c') \<Longrightarrow> lc_reach decode parse d c0 LcFinished n c'"
| lc_opened: "lc_reach decode parse d c0 LcFetching n c \<Longrightarrow> lc_response answer c = (None, c') \<Longrightarrow> lc_reach decode parse d c0 LcReading n c'"
| lc_streamed: "lc_reach decode parse d c0 LcReading n c \<Longrightarrow>
    lc_stream decode parse d chunks readError c = (events, err, c') \<Longrightarrow> lc_reach decode parse d c0 LcFinished n c'"

definition lc_inv :: "lc_phase \<Rightarrow> nat \<Rightarrow> live_connection \<Rightarrow> bool" where
  "lc_inv ph n c \<longleftrightarrow>
     (lc_started c \<longleftrightarrow> ph \<noteq> LcIdle) \<and> n \<le> 1 \<and> (ph = LcIdle \<longrightarrow> n = 0) \<and>
     (lc_reader c \<longleftrightarrow> ph = LcReading) \<and> (lc_listening c \<longrightarrow> \<not> lc_aborted c) \<and>
     (ph = LcFinished \<longrightarrow> lc_aborted c)"

lemmas lc_defs = lc_inv_def lc_close_def external_abort_def lc_iterate_def lc_finally_def Let_def

lemma lc_response_cases:
  assumes "lc_response answer c = (failure, c')"
  shows "case failure of Some e \<Rightarrow> c' = lc_finally c | None \<Rightarrow> c' = c\<lparr>lc_reader := True\<rparr>"
  using assms by (auto simp: lc_response_def split: sum.splits if_splits)

lemma lc_reach_inv: "lc_reach decode parse d (new_connection url headers signal) ph n c \<Longrightarrow> lc_inv ph n c"
proof (induction rule: lc_reach.induct)
  case lc_new
  show ?case by (auto simp: lc_defs new_connection_def)
next
  case (lc_failed n c answer e c')
  with lc_response_cases [of answer c "Some e" c'] show ?case by (auto simp: lc_defs)
next
  case (lc_opened n c answer c')
  with lc_response_cases [of answer c None c'] show ?case by (auto simp: lc_defs)
next
  case (lc_streamed n c chunks readError events err c')
  then have "c' = lc_finally c" by (auto simp: lc_stream_def split_beta Let_def)
  with lc_streamed.IH show ?case by (auto simp: lc_defs)
qed (auto simp: lc_defs split: if_splits)

text \<open>
  C38: a live connection is used once and leaves nothing behind. In every state it reaches it has
  called \<open>fetch\<close> at most once; once it was iterated every further iterator is refused with a protocol
  error; and when its iterator is done - at the end of the stream, after a bad answer, a failed read
  or \<open>close\<close> - its signal is aborted, the external signal is no longer observed and no reader is held.
  A reader that was open is cancelled.
\<close>
theorem live_connection_released:
  assumes "connect baseUrl options = Inr c0" "lc_reach decode parse d c0 ph n c"
  shows "n \<le> 1 \<and>
    (ph \<noteq> LcIdle \<longrightarrow> lc_iterate c = (IterThrows ProtocolError, c)) \<and>
    (ph = LcFinished \<longrightarrow> lc_aborted c \<and> \<not> lc_listening c \<and> \<not> lc_reader c) \<and>
    (ph = LcReading \<longrightarrow> lc_cancelled (snd (snd (lc_stream decode parse d chunks readError c))))"
proof -
  obtain headers where "c0 = new_connection (resolve_live_url baseUrl (lco_url options)) headers (lco_signalAborted options)"
    using assms(1) by (auto simp: connect_def andThen_def Let_def split: sum.splits)
  with assms(2) have "lc_inv ph n c" by (auto intro: lc_reach_inv)
  then show ?thesis by (auto simp: lc_defs lc_stream_def split_beta)
qed

definition sample_live_options :: live_connection_options where
  "sample_live_options =
     \<lparr>lco_url = js ''/live'', lco_keys = [js ''a''], lco_clientId = None, lco_signalAborted = Some False,
      lco_headers = None\<rparr>"

theorem live_connection_released_witness:
  "\<exists>c. lc_reach (\<lambda>d _. ([], d)) (\<lambda>_. None) () (projr (connect [] sample_live_options)) LcFinished 1 c \<and>
     lc_iterate c = (IterThrows ProtocolError, c) \<and> lc_aborted c \<and> \<not> lc_listening c"
proof -
  let ?reach = "lc_reach (\<lambda>d _. ([], d)) (\<lambda>_. None) ()"
  define c0 where "c0 = projr (connect [] sample_live_options)"
  have c0: "connect [] sample_live_options = Inr c0" unfolding c0_def by code_simp
  define c1 where "c1 = c0\<lparr>lc_started := True\<rparr>"
  have "lc_iterate c0 = (IterFetches, c1)" unfolding c1_def c0_def by code_simp
  from lc_fetch [OF lc_new this, of "\<lambda>d _. ([], d)" "\<lambda>_. None" "()"] have "?reach c0 LcFetching 1 c1" by simp
  from lc_failed [OF this, of "Inl TypeError" TypeError "lc_finally c1"]
  have r: "?reach c0 LcFinished 1 (lc_finally c1)" by (simp add: lc_response_def)
  with live_connection_released [OF c0 r] show ?thesis unfolding c0_def [symmetric] by blast
qed

end
