(* ===== verification/Validation_Formats.thy ===== *)
theory Validation_Formats
  imports Fetch_Transport
begin

text \<open>
  The string formats and the pattern guard of client-side validation
  (\<open>packages/core/src/validation/formats.ts\<close>). Each regular expression of the file is written as
  the recogniser it denotes; all of them are deterministic, so a left-to-right reading of the text
  decides the match and its captures. \<open>new URL\<close> is a parameter.
\<close>

section \<open>Reading text\<close>

definition index_from :: "('a list \<Rightarrow> bool) \<Rightarrow> 'a list \<Rightarrow> nat option" where
  "index_from p s = find (\<lambda>i. p (drop i s)) [0..<Suc (length s)]"

text \<open>\<open>s.indexOf(part)\<close> and \<open>s.lastIndexOf(part)\<close>; \<open>None\<close> stands for \<open>-1\<close>.\<close>

definition index_of :: "'a list \<Rightarrow> 'a list \<Rightarrow> nat option" where
  "index_of part s = index_from (starts_with part) s"

definition last_index_of :: "'a list \<Rightarrow> 'a list \<Rightarrow> nat option" where
  "last_index_of part s = find (\<lambda>i. starts_with part (drop i s)) (rev [0..<Suc (length s)])"

text \<open>An unanchored regular expression matches when the text does from some position on.\<close>

definition found :: "('a list \<Rightarrow> bool) \<Rightarrow> 'a list \<Rightarrow> bool" where
  "found p s \<longleftrightarrow> index_from p s \<noteq> None"

text \<open>\<open>\d{n}\<close> at the front: the digits and the rest.\<close>

definition read_digits :: "nat \<Rightarrow> jstring \<Rightarrow> (jstring \<times> jstring) option" where
  "read_digits n s =
     (if length (take n s) = n \<and> list_all is_digit (take n s) then Some (take n s, drop n s) else None)"

definition read_unit :: "16 word list \<Rightarrow> jstring \<Rightarrow> jstring option" where
  "read_unit choices s = (case s of [] \<Rightarrow> None | c # r \<Rightarrow> if c \<in> set choices then Some r else None)"

definition is_hex :: "16 word \<Rightarrow> bool" where
  "is_hex c \<longleftrightarrow> is_digit c \<or> (97 \<le> lower c \<and> lower c \<le> 102)"

definition is_letter :: "16 word \<Rightarrow> bool" where
  "is_letter c \<longleftrightarrow> (97 \<le> c \<and> c \<le> 122) \<or> (65 \<le> c \<and> c \<le> 90)"

definition is_alnum :: "16 word \<Rightarrow> bool" where
  "is_alnum c \<longleftrightarrow> is_letter c \<or> is_digit c"

section \<open>Dates and times\<close>

definition isLeapYear :: "nat \<Rightarrow> bool" where
  "isLeapYear year \<longleftrightarrow> year mod 4 = 0 \<and> (year mod 100 \<noteq> 0 \<or> year mod 400 = 0)"

definition daysInMonth :: "nat \<Rightarrow> nat \<Rightarrow> nat" where
  "daysInMonth year month =
     (if month = 2 then (if isLeapYear year then 29 else 28)
      else if month \<in> set [4, 6, 9, 11] then 30 else 31)"

text \<open>The texts are digits, so \<open>Number\<close> of each is a natural number.\<close>

definition isValidDateParts :: "jstring \<Rightarrow> jstring \<Rightarrow> jstring \<Rightarrow> bool" where
  "isValidDateParts yearText monthText dayText =
     (let year = nat_of_digits yearText; month = nat_of_digits monthText; day = nat_of_digits dayText
      in 1 \<le> year \<and> year \<le> 9999 \<and> 1 \<le> month \<and> month \<le> 12 \<and> 1 \<le> day \<and> day \<le> daysInMonth year month)"

text \<open>\<open>(\d{4})-(\d{2})-(\d{2})\<close>: the captures and the rest of the text.\<close>

definition read_date :: "jstring \<Rightarrow> (jstring \<times> jstring \<times> jstring \<times> jstring) option" where
  "read_date s =
     Option.bind (read_digits 4 s) (\<lambda>(y, s1).
     Option.bind (read_unit [0x2D] s1) (\<lambda>s2.
     Option.bind (read_digits 2 s2) (\<lambda>(m, s3).
     Option.bind (read_unit [0x2D] s3) (\<lambda>s4.
     Option.bind (read_digits 2 s4) (\<lambda>(d, s5).
       Some (y, m, d, s5))))))"

text \<open>
  \<open>(?::(\d{2})(?:\.\d+)?)?\<close>: neither the zone nor the end of the text starts with a colon or a dot,
  so a group that is entered has to match.
\<close>

definition read_fraction :: "jstring \<Rightarrow> jstring option" where
  "read_fraction s =
     (case read_unit [0x2E] s of
        None \<Rightarrow> Some s
      | Some r \<Rightarrow> if takeWhile is_digit r = [] then None else Some (dropWhile is_digit r))"

definition read_seconds :: "jstring \<Rightarrow> (jstring option \<times> jstring) option" where
  "read_seconds s =
     (case read_unit [0x3A] s of
        None \<Rightarrow> Some (None, s)
      | Some r \<Rightarrow>
          Option.bind (read_digits 2 r) (\<lambda>(sec, s1). Option.bind (read_fraction s1) (\<lambda>s2. Some (Some sec, s2))))"

text \<open>\<open>([Zz]|[+-]\d{2}:\d{2})?$\<close>.\<close>

definition read_zone :: "jstring \<Rightarrow> jstring option option" where
  "read_zone s =
     (if s = [] then Some None
      else if s = js ''Z'' \<or> s = js ''z'' then Some (Some s)
      else
        Option.bind (read_unit [0x2B, 0x2D] s) (\<lambda>s1.
        Option.bind (read_digits 2 s1) (\<lambda>(_, s2).
        Option.bind (read_unit [0x3A] s2) (\<lambda>s3.
        Option.bind (read_digits 2 s3) (\<lambda>(_, s4).
          if s4 = [] then Some (Some s) else None)))))"

record clock_match =
  cm_hours :: jstring
  cm_minutes :: jstring
  cm_seconds :: "jstring option"
  cm_zone :: "jstring option"

definition TIME_PATTERN :: "jstring \<Rightarrow> clock_match option" where
  "TIME_PATTERN s =
     Option.bind (read_digits 2 s) (\<lambda>(h, s1).
     Option.bind (read_unit [0x3A] s1) (\<lambda>s2.
     Option.bind (read_digits 2 s2) (\<lambda>(m, s3).
     Option.bind (read_seconds s3) (\<lambda>(sec, s4).
     Option.bind (read_zone s4) (\<lambda>zone.
       Some \<lparr>cm_hours = h, cm_minutes = m, cm_seconds = sec, cm_zone = zone\<rparr>)))))"

definition DATE_PATTERN :: "jstring \<Rightarrow> (jstring \<times> jstring \<times> jstring) option" where
  "DATE_PATTERN s = Option.bind (read_date s) (\<lambda>(y, m, d, r). if r = [] then Some (y, m, d) else None)"

definition DATE_TIME_PATTERN :: "jstring \<Rightarrow> (jstring \<times> jstring \<times> jstring \<times> clock_match) option" where
  "DATE_TIME_PATTERN s =
     Option.bind (read_date s) (\<lambda>(y, m, d, s1).
     Option.bind (read_unit [0x54, 0x74, 0x20] s1) (\<lambda>s2.
     Option.bind (TIME_PATTERN s2) (\<lambda>clock.
       Some (y, m, d, clock))))"

definition isValidTime :: "jstring \<Rightarrow> bool \<Rightarrow> bool" where
  "isValidTime s requireZone =
     (case TIME_PATTERN s of
        None \<Rightarrow> False
      | Some m \<Rightarrow>
          let seconds = (case cm_seconds m of None \<Rightarrow> js ''00'' | Some t \<Rightarrow> t);
              validClock = (nat_of_digits (cm_hours m) \<le> 23 \<and> nat_of_digits (cm_minutes m) \<le> 59 \<and>
                            nat_of_digits seconds \<le> 59)
          in if \<not> validClock then False
             else
               (case cm_zone m of
                  None \<Rightarrow> \<not> requireZone
                | Some zone \<Rightarrow>
                    if zone = js ''Z'' \<or> zone = js ''z'' then True
                    else
                      let offsetHours = nat_of_digits (take 2 (drop 1 zone));
                          offsetMinutes = nat_of_digits (take 2 (drop 4 zone))
                      in offsetHours \<le> 23 \<and> offsetMinutes \<le> 59))"

definition isValidDate :: "jstring \<Rightarrow> bool" where
  "isValidDate s = (case DATE_PATTERN s of None \<Rightarrow> False | Some (y, m, d) \<Rightarrow> isValidDateParts y m d)"

definition isValidDateTime :: "jstring \<Rightarrow> bool" where
  "isValidDateTime s =
     (case DATE_TIME_PATTERN s of
        None \<Rightarrow> False
      | Some (y, m, d, clock) \<Rightarrow>
          isValidDateParts y m d \<and>
          isValidTime
            (cm_hours clock @ js '':'' @ cm_minutes clock @
             (case cm_seconds clock of None \<Rightarrow> [] | Some sec \<Rightarrow> js '':'' @ sec) @
             (case cm_zone clock of None \<Rightarrow> [] | Some zone \<Rightarrow> zone)) False)"

section \<open>Addresses\<close>

definition email_label :: "jstring \<Rightarrow> bool" where
  "email_label label \<longleftrightarrow>
     length label > 0 \<and> length label \<le> 63 \<and> is_alnum (hd label) \<and> is_alnum (last label) \<and>
     list_all (\<lambda>c. is_alnum c \<or> c = 0x2D) label"

definition isValidEmail :: "jstring \<Rightarrow> bool" where
  "isValidEmail s =
     (if length s = 0 \<or> length s > 254 \<or> list_ex is_js_space s then False
      else
        (case last_index_of (js ''@'') s of
           None \<Rightarrow> False
         | Some pos \<Rightarrow>
             if pos = 0 \<or> Some pos \<noteq> index_of (js ''@'') s \<or> pos = length s - 1 then False
             else
               let local = take pos s; domain = drop (pos + 1) s
               in if length local > 64 \<or> take 1 local = js ''.'' \<or> last local = 0x2E then False
                  else if includes_text (js ''..'') local \<or> take 1 domain = js ''.'' \<or> last domain = 0x2E then False
                  else
                    let labels = split_on 0x2E domain
                    in length labels \<ge> 2 \<and> list_all email_label labels))"

text \<open>\<open>protocol s\<close> is \<open>new URL(s).protocol\<close>, \<open>None\<close> when the parser throws.\<close>

definition isValidUri :: "(jstring \<Rightarrow> jstring option) \<Rightarrow> jstring \<Rightarrow> bool" where
  "isValidUri protocol s =
     (if length s = 0 \<or> list_ex (\<lambda>c. c \<le> 0x20) s then False
      else (case protocol s of None \<Rightarrow> False | Some p \<Rightarrow> length p > 1))"

definition isValidUuid :: "jstring \<Rightarrow> bool" where
  "isValidUuid s \<longleftrightarrow>
     map length (split_on 0x2D s) = [8, 4, 4, 4, 12] \<and> list_all (list_all is_hex) (split_on 0x2D s)"

definition ipv4_part :: "jstring \<Rightarrow> bool" where
  "ipv4_part part =
     (if \<not> (1 \<le> length part \<and> length part \<le> 3 \<and> list_all is_digit part) then False
      else if length part > 1 \<and> take 1 part = js ''0'' then False
      else nat_of_digits part \<le> 255)"

definition isValidIpv4 :: "jstring \<Rightarrow> bool" where
  "isValidIpv4 s = (let parts = split_on 0x2E s in length parts = 4 \<and> list_all ipv4_part parts)"

definition isValidHextet :: "jstring \<Rightarrow> bool" where
  "isValidHextet s \<longleftrightarrow> 1 \<le> length s \<and> length s \<le> 4 \<and> list_all is_hex s"

text \<open>The address with its dotted tail replaced by two zero groups, \<open>None\<close> for a bad tail.\<close>

definition ipv6_address :: "jstring \<Rightarrow> jstring option" where
  "ipv6_address s =
     (if includes_text (js ''.'') s then
        (case last_index_of (js '':'') s of
           None \<Rightarrow> None
         | Some separator \<Rightarrow>
             if \<not> isValidIpv4 (drop (separator + 1) s) then None
             else Some (take (separator + 1) s @ js ''0:0''))
      else Some s)"

definition isValidIpv6 :: "jstring \<Rightarrow> bool" where
  "isValidIpv6 s =
     (if length s = 0 \<or> includes_text (js ''%'') s then False
      else
        (case ipv6_address s of
           None \<Rightarrow> False
         | Some address \<Rightarrow>
             (case index_of (js ''::'') address of
                None \<Rightarrow>
                  let segments = split_on 0x3A address
                  in length segments = 8 \<and> list_all isValidHextet segments
              | Some compression \<Rightarrow>
                  if last_index_of (js ''::'') address \<noteq> Some compression then False
                  else
                    let left = filter (\<lambda>g. g \<noteq> []) (split_on 0x3A (take compression address));
                        right = filter (\<lambda>g. g \<noteq> []) (split_on 0x3A (drop (compression + 2) address))
                    in if list_ex (\<lambda>g. \<not> isValidHextet g) left \<or> list_ex (\<lambda>g. \<not> isValidHextet g) right then False
                       else length left + length right < 8)))"

section \<open>The formats\<close>

definition VALIDATION_FORMATS :: "jstring list" where
  "VALIDATION_FORMATS =
     map js [''date'', ''date-time'', ''email'', ''ipv4'', ''ipv6'', ''time'', ''uri'', ''uuid'']"

definition isSupportedValidationFormat :: "jstring \<Rightarrow> bool" where
  "isSupportedValidationFormat format \<longleftrightarrow> format \<in> set VALIDATION_FORMATS"

definition validateValidationFormat :: "(jstring \<Rightarrow> jstring option) \<Rightarrow> jstring \<Rightarrow> jstring \<Rightarrow> bool" where
  "validateValidationFormat protocol s format =
     (if format = js ''date'' then isValidDate s
      else if format = js ''date-time'' then isValidDateTime s
      else if format = js ''email'' then isValidEmail s
      else if format = js ''ipv4'' then isValidIpv4 s
      else if format = js ''ipv6'' then isValidIpv6 s
      else if format = js ''time'' then isValidTime s False
      else if format = js ''uri'' then isValidUri protocol s
      else if format = js ''uuid'' then isValidUuid s
      else False)"

section \<open>The pattern guard\<close>

definition VALIDATION_PATTERN_MAX_LENGTH :: nat where
  "VALIDATION_PATTERN_MAX_LENGTH = 8192"

definition VALIDATION_PATTERN_MAX_REPETITION :: nat where
  "VALIDATION_PATTERN_MAX_REPETITION = 10000"

text \<open>One constructor per diagnostic of \<open>validationPatternError\<close>.\<close>

datatype pattern_error =
    PatternTooLong | EscapeNotPortable | PropertyEscape | LookaroundOrFlags | NamedGroup
  | QuantifiedGroup | RepetitionTooLarge | ManyQuantifiers | Alternation | NotAnchored

text \<open>\<open>\\(?:[0-9]|k<|[wWdDsSpPbBAZ])\<close> and the other searches, at one position.\<close>

definition escape_at :: "jstring \<Rightarrow> bool" where
  "escape_at s =
     (case s of
        b # c # r \<Rightarrow>
          b = 0x5C \<and> (is_digit c \<or> (c = 0x6B \<and> take 1 r = js ''<'') \<or> c \<in> set (js ''wWdDsSpPbBAZ''))
      | _ \<Rightarrow> False)"

definition property_at :: "jstring \<Rightarrow> bool" where
  "property_at s = starts_with ([0x5C] @ js ''p{'') s"

definition flag_unit :: "16 word \<Rightarrow> bool" where
  "flag_unit c \<longleftrightarrow> is_letter c \<or> c = 0x2D"

definition lookaround_at :: "jstring \<Rightarrow> bool" where
  "lookaround_at s \<longleftrightarrow>
     starts_with (js ''(?'') s \<and>
     (let r = drop 2 s
      in read_unit (js ''=!'') r \<noteq> None \<or>
         (take 1 r = js ''<'' \<and> read_unit (js ''=!'') (drop 1 r) \<noteq> None) \<or>
         (takeWhile flag_unit r \<noteq> [] \<and> read_unit (js ''):=!'') (dropWhile flag_unit r) \<noteq> None))"

definition named_at :: "jstring \<Rightarrow> bool" where
  "named_at s \<longleftrightarrow>
     starts_with (js ''(?P<'') s \<or>
     (starts_with (js ''(?<'') s \<and> drop 3 s \<noteq> [] \<and> hd (drop 3 s) \<notin> set (js ''=!''))"

text \<open>
  \<open>\{(\d+)(?:,(\d*))?\}\<close> at the front: the first capture, the second (\<open>None\<close> without a comma), and
  the rest.
\<close>

definition read_braces :: "jstring \<Rightarrow> (jstring \<times> jstring option \<times> jstring) option" where
  "read_braces s =
     Option.bind (read_unit (js ''{'') s) (\<lambda>s1.
       let low = takeWhile is_digit s1; s2 = dropWhile is_digit s1
       in if low = [] then None
          else
            (case read_unit (js '','') s2 of
               None \<Rightarrow> Option.bind (read_unit (js ''}'') s2) (\<lambda>r. Some (low, None, r))
             | Some s3 \<Rightarrow>
                 Option.bind (read_unit (js ''}'') (dropWhile is_digit s3)) (\<lambda>r.
                   Some (low, Some (takeWhile is_digit s3), r))))"

definition quantified_group_at :: "jstring \<Rightarrow> bool" where
  "quantified_group_at s \<longleftrightarrow>
     take 1 s = js '')'' \<and>
     (read_unit (js ''*+?'') (drop 1 s) \<noteq> None \<or> read_braces (drop 1 s) \<noteq> None)"

record scan_state =
  sc_quantifiers :: nat
  sc_class :: bool
  sc_escaped :: bool
  sc_alternation :: bool

text \<open>
  The loop over the pattern; \<open>prev\<close> is the code unit before the position. After a quantifier in
  braces the position is the one behind it, and the code unit before that is the closing brace.
\<close>

lemma read_braces_shorter: "read_braces s = Some (low, high, r) \<Longrightarrow> length r < length s"
proof -
  have unit: "length b < length a" if "read_unit cs a = Some b" for cs a b
    using that by (auto simp: read_unit_def split: list.splits if_splits)
  have drops: "length (dropWhile is_digit a) \<le> length a" for a :: jstring
    by (rule length_dropWhile_le)
  assume "read_braces s = Some (low, high, r)"
  then obtain s1 s2 where "read_unit (js ''{'') s = Some s1" "read_unit (js ''}'') s2 = Some r"
    and "s2 = dropWhile is_digit s1 \<or>
      (\<exists>s3. read_unit (js '','') (dropWhile is_digit s1) = Some s3 \<and> s2 = dropWhile is_digit s3)"
    by (auto simp: read_braces_def Let_def bind_eq_Some_conv split: if_splits option.splits)
  moreover have "length s2 \<le> length s1"
    using calculation(3) drops [of s1] drops unit
    by (meson le_trans less_imp_le)
  ultimately show "length r < length s" using unit by (meson le_less_trans less_trans)
qed

function scan_pattern ::
  "16 word option \<Rightarrow> jstring \<Rightarrow> scan_state \<Rightarrow> (pattern_error, scan_state) result" where
  "scan_pattern prev [] sc = Inr sc"
| "scan_pattern prev (c # s) sc =
     (if sc_escaped sc then scan_pattern (Some c) s (sc\<lparr>sc_escaped := False\<rparr>)
      else if c = 0x5C then scan_pattern (Some c) s (sc\<lparr>sc_escaped := True\<rparr>)
      else if c = 0x5B then scan_pattern (Some c) s (sc\<lparr>sc_class := True\<rparr>)
      else if c = 0x5D then scan_pattern (Some c) s (sc\<lparr>sc_class := False\<rparr>)
      else if sc_class sc then scan_pattern (Some c) s sc
      else if c = 0x7C then scan_pattern (Some c) s (sc\<lparr>sc_alternation := True\<rparr>)
      else if c = 0x3F \<and> prev = Some 0x28 then scan_pattern (Some c) s sc
      else if c \<in> set (js ''*+?'') then scan_pattern (Some c) s (sc\<lparr>sc_quantifiers := sc_quantifiers sc + 1\<rparr>)
      else if c = 0x7B then
        (case read_braces (c # s) of
           None \<Rightarrow> scan_pattern (Some c) s sc
         | Some (low, high, r) \<Rightarrow>
             let minimum = nat_of_digits low;
                 maximum = (case high of Some h \<Rightarrow> if h \<noteq> [] then nat_of_digits h else minimum | None \<Rightarrow> minimum)
             in if minimum > VALIDATION_PATTERN_MAX_REPETITION \<or> maximum > VALIDATION_PATTERN_MAX_REPETITION
                then Inl RepetitionTooLarge
                else scan_pattern (Some 0x7D) r (sc\<lparr>sc_quantifiers := sc_quantifiers sc + 1\<rparr>))
      else scan_pattern (Some c) s sc)"
  by pat_completeness auto
termination
  by (relation "measure (\<lambda>(_, s, _). length s)") (auto dest: read_braces_shorter)

declare scan_pattern.simps [simp del]

definition validationPatternError :: "jstring \<Rightarrow> pattern_error option" where
  "validationPatternError pattern =
     (if length pattern > VALIDATION_PATTERN_MAX_LENGTH then Some PatternTooLong
      else if found escape_at pattern then Some EscapeNotPortable
      else if found property_at pattern then Some PropertyEscape
      else if found lookaround_at pattern then Some LookaroundOrFlags
      else if found named_at pattern then Some NamedGroup
      else if found quantified_group_at pattern then Some QuantifiedGroup
      else
        (case scan_pattern None pattern
                \<lparr>sc_quantifiers = 0, sc_class = False, sc_escaped = False, sc_alternation = False\<rparr> of
           Inl e \<Rightarrow> Some e
         | Inr sc \<Rightarrow>
             if sc_quantifiers sc > 1 then Some ManyQuantifiers
             else if sc_alternation sc then Some Alternation
             else if sc_quantifiers sc > 0 \<and> take 1 pattern \<noteq> js ''^'' then Some NotAnchored
             else None))"

end
