(* ===== verification/Validation_Formats_Theorems.thy ===== *)
theory Validation_Formats_Theorems
  imports Validation_Formats
begin

text \<open>
  What the formats accept: the dotted quads and the calendar dates exactly, a date-time exactly when
  its date and its time are accepted, and the texts beyond the formats that the checks let through.
\<close>

section \<open>Digits\<close>

lemma is_digit_unat: "is_digit c \<longleftrightarrow> 48 \<le> unat c \<and> unat c \<le> 57"
  by (simp add: is_digit_def word_le_nat_alt)

lemma nat_of_digits_snoc: "nat_of_digits (s @ [c]) = 10 * nat_of_digits s + (unat c - 48)"
  by (simp add: nat_of_digits_def)

lemma digit_unit: "is_digit c \<Longrightarrow> of_nat (48 + (unat c - 48)) = c"
  by (simp add: is_digit_unat del: of_nat_add)

lemma nat_digits_snoc: "0 < n \<Longrightarrow> d < 10 \<Longrightarrow> nat_digits (10 * n + d) = nat_digits n @ [of_nat (48 + d)]"
  by (subst nat_digits.simps) simp

lemma unat_48: "unat (c :: 16 word) = 48 \<longleftrightarrow> c = 48"
  by (simp add: word_unat_eq_iff)

lemma nat_of_digits_pos: "list_all is_digit s \<Longrightarrow> s \<noteq> [] \<Longrightarrow> hd s \<noteq> 48 \<Longrightarrow> 0 < nat_of_digits s"
proof (induction s rule: rev_induct)
  case (snoc c s)
  then show ?case
    by (cases "s = []") (auto simp: nat_of_digits_snoc is_digit_unat unat_48 nat_of_digits_def le_less)
qed simp

text \<open>A text of digits without superfluous zeros is the one its number is printed as.\<close>

lemma digits_canonical:
  "list_all is_digit s \<Longrightarrow> s \<noteq> [] \<Longrightarrow> length s = 1 \<or> hd s \<noteq> 48 \<Longrightarrow> nat_digits (nat_of_digits s) = s"
proof (induction s rule: rev_induct)
  case (snoc c s)
  show ?case
  proof (cases "s = []")
    case True
    with snoc.prems show ?thesis
      by (subst nat_digits.simps) (auto simp: nat_of_digits_def is_digit_unat digit_unit simp del: of_nat_add)
  next
    case False
    with snoc.prems have hd: "hd s \<noteq> 48" and c: "is_digit c" and s: "list_all is_digit s" by auto
    have "nat_digits (10 * nat_of_digits s + (unat c - 48)) = nat_digits (nat_of_digits s) @ [of_nat (48 + (unat c - 48))]"
      using nat_of_digits_pos [OF s False hd] c by (intro nat_digits_snoc) (auto simp: is_digit_unat)
    with snoc.IH [OF s False] hd c show ?thesis by (simp add: nat_of_digits_snoc digit_unit del: of_nat_add)
  qed
qed simp

lemma nat_digits_digits: "list_all is_digit (nat_digits n)"
  using nat_digits_range by (auto simp: list_all_iff is_digit_unat)

lemma nat_digits_hd: "0 < n \<Longrightarrow> hd (nat_digits n) \<noteq> 48"
proof (induction n rule: nat_digits.induct)
  case (1 n)
  show ?case
  proof (cases "n < 10")
    case True
    have "unat (of_nat (48 + n) :: 16 word) \<noteq> 48" using unat_digit [OF True] "1.prems" by simp
    then show ?thesis using True by (subst nat_digits.simps) (auto simp: unat_48 simp del: of_nat_add)
  next
    case False
    have "nat_digits (n div 10) \<noteq> []" by (subst nat_digits.simps) simp
    with 1 False show ?thesis by (subst nat_digits.simps) auto
  qed
qed

lemma length_nat_digits_255: "n \<le> 255 \<Longrightarrow> 1 \<le> length (nat_digits n) \<and> length (nat_digits n) \<le> 3"
  by (simp add: nat_digits.simps [of n] nat_digits.simps [of "n div 10"] nat_digits.simps [of "n div 10 div 10"])

text \<open>Fixed-width decimals.\<close>

fun padded :: "nat \<Rightarrow> nat \<Rightarrow> jstring" where
  "padded 0 k = []"
| "padded (Suc w) k = padded w (k div 10) @ [of_nat (48 + k mod 10)]"

lemma padded_value: "list_all is_digit s \<Longrightarrow> padded (length s) (nat_of_digits s) = s"
proof (induction s rule: rev_induct)
  case (snoc c s)
  then have "unat c - 48 < 10" by (auto simp: is_digit_unat)
  then have "(10 * nat_of_digits s + (unat c - 48)) mod 10 = unat c - 48"
    "(10 * nat_of_digits s + (unat c - 48)) div 10 = nat_of_digits s" by simp_all
  with snoc show ?case by (simp add: nat_of_digits_snoc digit_unit del: of_nat_add)
qed simp

lemma length_padded [simp]: "length (padded w k) = w"
  by (induction w k rule: padded.induct) auto

lemma padded_digits: "list_all is_digit (padded w k)"
  by (induction w k rule: padded.induct) (auto simp: is_digit_unat unat_digit simp del: of_nat_add)

lemma value_padded: "nat_of_digits (padded w k) = k mod 10 ^ w"
proof (induction w k rule: padded.induct)
  case (2 w k)
  have "10 * (k div 10 mod 10 ^ w) + k mod 10 = k mod 10 ^ Suc w"
    using mod_mult2_eq [of k 10 "10 ^ w"] by simp
  with 2 show ?case by (simp add: nat_of_digits_snoc unat_digit del: of_nat_add)
qed (simp add: nat_of_digits_def)

lemma nat_of_digits_less: "list_all is_digit s \<Longrightarrow> nat_of_digits s < 10 ^ length s"
  using value_padded [of "length s" "nat_of_digits s"] padded_value [of s]
  by (metis mod_less_divisor pos2 zero_less_numeral zero_less_power)

section \<open>Dotted quads\<close>

lemma ipv4_part_iff: "ipv4_part s \<longleftrightarrow> (\<exists>n\<le>255. s = nat_digits n)"
proof
  assume s: "ipv4_part s"
  then have d: "list_all is_digit s" "s \<noteq> []" "nat_of_digits s \<le> 255"
    by (auto simp: ipv4_part_def split: if_splits)
  have "length s = 1 \<or> hd s \<noteq> 48"
    using s by (cases s) (auto simp: ipv4_part_def js_def split: if_splits)
  then have "s = nat_digits (nat_of_digits s)" using digits_canonical [OF d(1,2)] by simp
  with d(3) show "\<exists>n\<le>255. s = nat_digits n" by blast
next
  assume "\<exists>n\<le>255. s = nat_digits n"
  then obtain n where n: "n \<le> 255" "s = nat_digits n" by blast
  have "take 1 s \<noteq> js ''0''" if "length s > 1"
  proof -
    have "n \<noteq> 0" using that n by (cases "n = 0") (simp_all add: nat_digits.simps [of 0])
    then have "hd s \<noteq> 48" using n nat_digits_hd by simp
    with that show ?thesis by (cases s) (auto simp: js_def)
  qed
  with n length_nat_digits_255 [OF n(1)] nat_digits_digits [of n] show "ipv4_part s"
    by (simp add: ipv4_part_def nat_of_digits_nat_digits)
qed

lemma join_split: "join_with [sep] (split_on sep s) = s"
proof (induction s)
  case (Cons c s)
  then show ?case
    using split_on_nonempty [of sep s] by (cases "split_on sep s" rule: list.exhaust; cases "tl (split_on sep s)") auto
qed simp

text \<open>
  the address check accepts exactly the dotted quads. A text passes \<open>isValidIpv4\<close> if and only if
  it is four numbers up to 255, each written in decimal without leading zeros, joined by dots.
\<close>
lemma ipv4_exact:
  "isValidIpv4 s \<longleftrightarrow>
     (\<exists>a b c d. a \<le> 255 \<and> b \<le> 255 \<and> c \<le> 255 \<and> d \<le> 255 \<and>
        s = nat_digits a @ js ''.'' @ nat_digits b @ js ''.'' @ nat_digits c @ js ''.'' @ nat_digits d)"
proof
  assume "isValidIpv4 s"
  then have parts: "length (split_on 0x2E s) = 4" "\<forall>p\<in>set (split_on 0x2E s). \<exists>n\<le>255. p = nat_digits n"
    by (auto simp: isValidIpv4_def Let_def list_all_iff ipv4_part_iff)
  then obtain p q r t where sp: "split_on 0x2E s = [p, q, r, t]"
    by (auto simp: length_Suc_conv numeral_eq_Suc)
  with parts(2) obtain a b c d where "a \<le> 255" "p = nat_digits a" "b \<le> 255" "q = nat_digits b"
    "c \<le> 255" "r = nat_digits c" "d \<le> 255" "t = nat_digits d" by auto
  with join_split [of "0x2E" s] sp show "\<exists>a b c d. a \<le> 255 \<and> b \<le> 255 \<and> c \<le> 255 \<and> d \<le> 255 \<and>
      s = nat_digits a @ js ''.'' @ nat_digits b @ js ''.'' @ nat_digits c @ js ''.'' @ nat_digits d"
    by (intro exI [of _ a] exI [of _ b] exI [of _ c] exI [of _ d]) (auto simp: js_def)
next
  have no_dot: "0x2E \<notin> set (nat_digits n)" for n
    using nat_digits_range [of "0x2E" n] by auto
  assume "\<exists>a b c d. a \<le> 255 \<and> b \<le> 255 \<and> c \<le> 255 \<and> d \<le> 255 \<and>
      s = nat_digits a @ js ''.'' @ nat_digits b @ js ''.'' @ nat_digits c @ js ''.'' @ nat_digits d"
  then show "isValidIpv4 s"
    by (auto simp: isValidIpv4_def ipv4_part_iff split_on_append_sep split_on_no_sep no_dot js_def)
qed

section \<open>Dates\<close>

lemma read_digits_Some:
  "read_digits n s = Some (t, r) \<longleftrightarrow> s = t @ r \<and> length t = n \<and> list_all is_digit t"
  by (auto simp: read_digits_def)

lemma read_unit_Some: "read_unit cs s = Some r \<longleftrightarrow> (\<exists>c\<in>set cs. s = c # r)"
  by (auto simp: read_unit_def split: list.split)

lemma read_date_Some:
  "read_date s = Some (y, m, d, r) \<longleftrightarrow>
     s = y @ 0x2D # m @ 0x2D # d @ r \<and> length y = 4 \<and> length m = 2 \<and> length d = 2 \<and>
     list_all is_digit y \<and> list_all is_digit m \<and> list_all is_digit d"
  by (auto simp: read_date_def bind_eq_Some_conv read_digits_Some read_unit_Some)

lemma isValidDate_iff:
  "isValidDate s \<longleftrightarrow> (\<exists>y m d. read_date s = Some (y, m, d, []) \<and> isValidDateParts y m d)"
  by (auto simp: isValidDate_def DATE_PATTERN_def split: option.splits bind_splits prod.splits if_splits)

text \<open>
  the date check accepts exactly the days of the calendar. A text passes \<open>isValidDate\<close> if and
  only if it is a year from 1 to 9999 in four digits, a month from 1 to 12 and a day of that month
  (29 days in February of leap years only) in two digits each, joined by hyphens.
\<close>
lemma date_exact:
  "isValidDate s \<longleftrightarrow>
     (\<exists>y m d. 1 \<le> y \<and> y \<le> 9999 \<and> 1 \<le> m \<and> m \<le> 12 \<and> 1 \<le> d \<and> d \<le> daysInMonth y m \<and>
        s = padded 4 y @ js ''-'' @ padded 2 m @ js ''-'' @ padded 2 d)"
proof
  assume "isValidDate s"
  then obtain y m d where r: "read_date s = Some (y, m, d, [])" and v: "isValidDateParts y m d"
    by (auto simp: isValidDate_iff)
  then have "y = padded 4 (nat_of_digits y)" "m = padded 2 (nat_of_digits m)" "d = padded 2 (nat_of_digits d)"
    using padded_value by (auto simp: read_date_Some) (metis numeral_2_eq_2)+
  with r v show "\<exists>y m d. 1 \<le> y \<and> y \<le> 9999 \<and> 1 \<le> m \<and> m \<le> 12 \<and> 1 \<le> d \<and> d \<le> daysInMonth y m \<and>
      s = padded 4 y @ js ''-'' @ padded 2 m @ js ''-'' @ padded 2 d"
    by (auto simp: isValidDateParts_def Let_def read_date_Some js_def)
next
  assume "\<exists>y m d. 1 \<le> y \<and> y \<le> 9999 \<and> 1 \<le> m \<and> m \<le> 12 \<and> 1 \<le> d \<and> d \<le> daysInMonth y m \<and>
      s = padded 4 y @ js ''-'' @ padded 2 m @ js ''-'' @ padded 2 d"
  then obtain y m d where v: "1 \<le> y" "y \<le> 9999" "1 \<le> m" "m \<le> 12" "1 \<le> d" "d \<le> daysInMonth y m"
    and s: "s = padded 4 y @ js ''-'' @ padded 2 m @ js ''-'' @ padded 2 d" by blast
  have "daysInMonth y m \<le> 31" by (simp add: daysInMonth_def)
  with v have "isValidDateParts (padded 4 y) (padded 2 m) (padded 2 d)"
    by (simp add: isValidDateParts_def value_padded)
  moreover have "read_date s = Some (padded 4 y, padded 2 m, padded 2 d, [])"
    using s by (simp add: read_date_Some padded_digits js_def)
  ultimately show "isValidDate s" by (auto simp: isValidDate_iff)
qed

section \<open>Dates with times\<close>

lemma read_seconds_Some:
  assumes "read_seconds s = Some (sec, r)" "read_zone r = Some zone"
  shows "read_seconds ((case sec of None \<Rightarrow> [] | Some t \<Rightarrow> 0x3A # t) @ (case zone of None \<Rightarrow> [] | Some z \<Rightarrow> z)) = Some (sec, r)"
    (is ?again)
    and "(case zone of None \<Rightarrow> [] | Some z \<Rightarrow> z) = r"
proof -
  show zone: "(case zone of None \<Rightarrow> [] | Some z \<Rightarrow> z) = r"
    using assms(2) by (auto simp: read_zone_def bind_eq_Some_conv split: if_splits prod.splits)
  have no_unit: "read_unit [0x3A] r = None \<and> read_unit [0x2E] r = None"
    using assms(2)
    by (auto simp: read_zone_def read_unit_def js_def bind_eq_Some_conv split: if_splits list.splits)
  show ?again
  proof (cases sec)
    case None
    then show ?thesis using zone no_unit by (simp add: read_seconds_def)
  next
    case (Some t)
    with assms(1) have "length t = 2" "list_all is_digit t"
      by (auto simp: read_seconds_def bind_eq_Some_conv read_digits_Some split: option.splits)
    then have "read_digits 2 (t @ r) = Some (t, r)" by (simp add: read_digits_Some)
    with Some zone no_unit show ?thesis
      by (simp add: read_seconds_def read_unit_def [of _ "_ # _"] read_fraction_def)
  qed
qed

lemma TIME_PATTERN_Some:
  "TIME_PATTERN s = Some m \<longleftrightarrow>
     (\<exists>s3 s4. s = cm_hours m @ 0x3A # cm_minutes m @ s3 \<and> length (cm_hours m) = 2 \<and> length (cm_minutes m) = 2 \<and>
        list_all is_digit (cm_hours m) \<and> list_all is_digit (cm_minutes m) \<and>
        read_seconds s3 = Some (cm_seconds m, s4) \<and> read_zone s4 = Some (cm_zone m))"
    (is "?match \<longleftrightarrow> ?parts")
proof
  assume ?match
  then show ?parts by (auto simp: TIME_PATTERN_def bind_eq_Some_conv read_digits_Some read_unit_Some)
next
  assume ?parts
  then show ?match
    by (cases m) (auto simp: TIME_PATTERN_def read_digits_def read_unit_def)
qed

text \<open>The text \<open>isValidDateTime\<close> rebuilds has the same captures: only the fraction is left out.\<close>

definition rebuilt :: "clock_match \<Rightarrow> jstring" where
  "rebuilt m = cm_hours m @ js '':'' @ cm_minutes m @
     (case cm_seconds m of None \<Rightarrow> [] | Some sec \<Rightarrow> js '':'' @ sec) @
     (case cm_zone m of None \<Rightarrow> [] | Some zone \<Rightarrow> zone)"

lemma TIME_PATTERN_rebuilt:
  assumes "TIME_PATTERN s = Some m"
  shows "TIME_PATTERN (rebuilt m) = Some m"
proof -
  obtain s3 s4 where s: "length (cm_hours m) = 2" "length (cm_minutes m) = 2"
      "list_all is_digit (cm_hours m)" "list_all is_digit (cm_minutes m)"
      "read_seconds s3 = Some (cm_seconds m, s4)" "read_zone s4 = Some (cm_zone m)"
    using assms by (auto simp: TIME_PATTERN_Some)
  have colon: "js '':'' = [0x3A]" by (simp add: js_def)
  show ?thesis
    unfolding TIME_PATTERN_Some rebuilt_def
    by (rule exI [of _ "(case cm_seconds m of None \<Rightarrow> [] | Some sec \<Rightarrow> js '':'' @ sec) @
           (case cm_zone m of None \<Rightarrow> [] | Some zone \<Rightarrow> zone)"], rule exI [of _ s4])
      (use s read_seconds_Some [OF s(5,6)] in \<open>simp add: colon cong: option.case_cong\<close>)
qed

text \<open>
  A date-time is a date and a time. A text is accepted by \<open>isValidDateTime\<close> if and only if its
  first ten characters are a valid date, the next is \<open>T\<close>, \<open>t\<close> or a space, and the rest is a valid
  time; leaving out the fraction of the second when the time is checked changes nothing.
\<close>
lemma date_time_splits:
  "isValidDateTime s \<longleftrightarrow>
     (\<exists>date sep time. s = date @ sep # time \<and> sep \<in> set (js ''Tt '') \<and> isValidDate date \<and> isValidTime time False)"
proof -
  have seps: "set (js ''Tt '') = set [0x54, 0x74, 0x20]" by (simp add: js_def)
  have same: "isValidTime (rebuilt m) False = isValidTime t False" if "TIME_PATTERN t = Some m" for t m
    using TIME_PATTERN_rebuilt [OF that] that by (simp add: isValidTime_def)
  have "isValidDateTime s \<longleftrightarrow>
      (\<exists>y m d sep t clock. read_date s = Some (y, m, d, sep # t) \<and> sep \<in> set (js ''Tt '') \<and>
         TIME_PATTERN t = Some clock \<and> isValidDateParts y m d \<and> isValidTime t False)" (is "_ \<longleftrightarrow> ?read")
    unfolding isValidDateTime_def rebuilt_def [symmetric] seps
    by (auto simp: DATE_TIME_PATTERN_def bind_eq_Some_conv read_unit_Some read_unit_def [of _ "_ # _"] same
        split: option.splits)
  also have "?read \<longleftrightarrow> (\<exists>y m d sep t. read_date s = Some (y, m, d, sep # t) \<and> sep \<in> set (js ''Tt '') \<and>
         isValidDateParts y m d \<and> isValidTime t False)"
    by (auto simp: isValidTime_def split: option.splits)
  also have "\<dots> \<longleftrightarrow> (\<exists>date sep time. s = date @ sep # time \<and> sep \<in> set (js ''Tt '') \<and> isValidDate date \<and>
        isValidTime time False)"
    by (auto simp: isValidDate_iff read_date_Some)
      (metis append.assoc append_Cons append_Nil)+
  finally show ?thesis .
qed

section \<open>Texts beyond the formats\<close>

text \<open>
  Addresses with a stray colon pass. \<open>isValidIpv6\<close> drops the empty groups on both sides of the
  compression before it checks them, so a single colon before or after the groups goes unnoticed,
  although no IPv6 address begins or ends with one.
\<close>
lemma ipv6_accepts_stray_colon:
  "isValidIpv6 (js '':1::2'') \<and> isValidIpv6 (js ''1::2:'') \<and> \<not> isValidIpv6 (js '':1:2:3:4:5:6:7:8'')"
  by code_simp

text \<open>
  An escaped parenthesis hides a quantifier. The guard takes any question mark behind an opening
  parenthesis for the beginning of a special group, even when the parenthesis is escaped and the
  question mark makes it optional; so patterns with many quantifiers pass, although the guard means to
  reject more than one.
\<close>
lemma escaped_parenthesis_hides_quantifiers:
  "validationPatternError (js ''^'' @ concat (replicate 3 ([0x5C] @ js ''(?'')) @ js ''a+$'') = None \<and>
   validationPatternError (js ''^x?x?$'') = Some ManyQuantifiers"
  by code_simp

end
