(* ===== verification/Js_Heap.thy ===== *)
theory Js_Heap
  imports Fetch_Transport
begin

text \<open>
  Values as the validation code meets them: any value of the language at all. Objects live in a heap
  and are named by their address, so they may be shared and cyclic, and \<open>===\<close> compares addresses; a
  property may be an accessor that throws; an array may be a proxy that reports any length; an object
  may be the instance of a class, a proxy whose traps throw, or a revoked proxy. The heap does not
  change while the code runs, and reading a property twice gives the same answer: the code runs no
  application code except the accessors themselves. Own properties are enumerable and have string
  names.
\<close>

section \<open>The heap\<close>

text \<open>\<open>HOther\<close> is a function, symbol or bigint, with its \<open>typeof\<close> and its identity.\<close>

datatype hval =
    HUndef
  | HNull
  | HBool bool
  | HNum jnum
  | HStr jstring
  | HRef nat
  | HOther string nat

text \<open>What reading a property gives.\<close>

datatype hprop = Reads hval | Throws

text \<open>Plain means that the prototype is \<open>Object.prototype\<close> or \<open>null\<close>.\<close>

datatype hproto = PlainProto | ForeignProto | ThrowingProto

datatype hobj =
    HArr hprop "hprop list"
  | HObj hproto "(jstring \<times> hprop) list"
  | HTrap
  | HRevoked

type_synonym heap = "hobj list"

definition heap_obj :: "heap \<Rightarrow> nat \<Rightarrow> hobj" where
  "heap_obj h a = (if a < length h then h ! a else HRevoked)"

fun obj_of :: "heap \<Rightarrow> hval \<Rightarrow> hobj option" where
  "obj_of h (HRef a) = Some (heap_obj h a)"
| "obj_of h _ = None"

section \<open>Operations of the language\<close>

fun is_ref :: "hval \<Rightarrow> bool" where
  "is_ref (HRef _) = True"
| "is_ref _ = False"

fun is_bool :: "hval \<Rightarrow> bool" where
  "is_bool (HBool _) = True"
| "is_bool _ = False"

fun ref_addr :: "hval \<Rightarrow> nat" where
  "ref_addr (HRef a) = a"
| "ref_addr _ = 0"

text \<open>\<open>Array.isArray(v)\<close>, which throws for a revoked proxy.\<close>

definition js_isArray :: "heap \<Rightarrow> hval \<Rightarrow> bool option" where
  "js_isArray h v =
     (case obj_of h v of Some (HArr _ _) \<Rightarrow> Some True | Some HRevoked \<Rightarrow> None | _ \<Rightarrow> Some False)"

text \<open>\<open>Object.getPrototypeOf(v)\<close> is \<open>Object.prototype\<close> or \<open>null\<close>; \<open>None\<close> when it throws.\<close>

definition plain_proto :: "heap \<Rightarrow> hval \<Rightarrow> bool option" where
  "plain_proto h v =
     (case obj_of h v of
        Some (HObj PlainProto _) \<Rightarrow> Some True
      | Some HTrap \<Rightarrow> Some True
      | Some (HObj ThrowingProto _) \<Rightarrow> None
      | Some HRevoked \<Rightarrow> None
      | _ \<Rightarrow> Some False)"

text \<open>
  \<open>v[k]\<close> for a name no object inherits, \<open>Object.keys(v)\<close> and \<open>hasOwnProperty\<close>; \<open>None\<close> and
  \<open>Throws\<close> when the operation throws. \<open>keys\<close> come in enumeration order.
\<close>

definition obj_prop :: "heap \<Rightarrow> hval \<Rightarrow> jstring \<Rightarrow> hprop" where
  "obj_prop h v k =
     (case obj_of h v of
        Some (HObj _ fs) \<Rightarrow> (case map_of fs k of None \<Rightarrow> Reads HUndef | Some p \<Rightarrow> p)
      | Some HTrap \<Rightarrow> Throws
      | Some HRevoked \<Rightarrow> Throws
      | _ \<Rightarrow> Reads HUndef)"

definition own_keys :: "heap \<Rightarrow> hval \<Rightarrow> jstring list option" where
  "own_keys h v =
     (case obj_of h v of
        Some (HObj _ fs) \<Rightarrow> Some (map fst fs)
      | Some HTrap \<Rightarrow> None
      | Some HRevoked \<Rightarrow> None
      | _ \<Rightarrow> Some [])"

definition has_own :: "heap \<Rightarrow> hval \<Rightarrow> jstring \<Rightarrow> bool option" where
  "has_own h v k = map_option (\<lambda>ks. k \<in> set ks) (own_keys h v)"

text \<open>\<open>v.length\<close> and \<open>v[i]\<close> of an array.\<close>

definition arr_length :: "heap \<Rightarrow> hval \<Rightarrow> hprop" where
  "arr_length h v = (case obj_of h v of Some (HArr n _) \<Rightarrow> n | _ \<Rightarrow> Throws)"

definition arr_item :: "heap \<Rightarrow> hval \<Rightarrow> nat \<Rightarrow> hprop" where
  "arr_item h v i =
     (case obj_of h v of
        Some (HArr _ xs) \<Rightarrow> if i < length xs then xs ! i else Reads HUndef
      | _ \<Rightarrow> Throws)"

definition length_value :: "nat \<Rightarrow> hprop" where
  "length_value n = Reads (HNum (num_of_int (int n)))"

text \<open>A length that is a safe integer and not negative.\<close>

definition safe_length :: "hprop \<Rightarrow> nat option" where
  "safe_length p =
     (case p of
        Reads (HNum n) \<Rightarrow>
          if num_is_safe_integer n \<and> 0 \<le> num_val n then Some (nat \<lfloor>num_val n\<rfloor>) else None
      | _ \<Rightarrow> None)"

text \<open>\<open>typeof v\<close>, \<open>a === b\<close> and \<open>Object.is(a, b)\<close>.\<close>

fun js_typeof :: "hval \<Rightarrow> string" where
  "js_typeof HUndef = ''undefined''"
| "js_typeof HNull = ''object''"
| "js_typeof (HBool _) = ''boolean''"
| "js_typeof (HNum _) = ''number''"
| "js_typeof (HStr _) = ''string''"
| "js_typeof (HRef _) = ''object''"
| "js_typeof (HOther t _) = t"

fun h_strict_eq :: "hval \<Rightarrow> hval \<Rightarrow> bool" where
  "h_strict_eq (HNum a) (HNum b) = num_strict_eq a b"
| "h_strict_eq a b = (a = b)"

fun object_is :: "hval \<Rightarrow> hval \<Rightarrow> bool" where
  "object_is (HNum a) (HNum b) = (a = b \<or> (num_strict_eq a b \<and> a \<noteq> NegZero \<and> b \<noteq> NegZero))"
| "object_is a b = (a = b)"

fun h_truthy :: "hval \<Rightarrow> bool" where
  "h_truthy (HBool b) = b"
| "h_truthy HUndef = False"
| "h_truthy HNull = False"
| "h_truthy (HNum n) = (n \<noteq> NaN \<and> \<not> (num_finite n \<and> num_val n = 0))"
| "h_truthy (HStr s) = (s \<noteq> [])"
| "h_truthy _ = True"

definition h_nullish :: "hval \<Rightarrow> bool" where
  "h_nullish v \<longleftrightarrow> v = HUndef \<or> v = HNull"

lemma object_is_refl [simp]: "object_is v v"
  by (cases v) auto

lemma object_is_refs [simp]: "object_is (HRef a) v \<longleftrightarrow> v = HRef a" "object_is v (HRef a) \<longleftrightarrow> v = HRef a"
  by (cases v; auto)+

lemma h_strict_eq_refs [simp]: "h_strict_eq (HRef a) v \<longleftrightarrow> v = HRef a" "h_strict_eq v (HRef a) \<longleftrightarrow> v = HRef a"
  by (cases v; auto)+

section \<open>Doubles\<close>

text \<open>
  Arithmetic rounds to the nearest double, ties to even: \<open>to_double\<close> is the rounding of an exact
  result, \<open>None\<close> when it overflows to an infinity.
\<close>

fun bit_length :: "nat \<Rightarrow> nat" where
  "bit_length n = (if n = 0 then 0 else Suc (bit_length (n div 2)))"

declare bit_length.simps [simp del]

definition pow2 :: "int \<Rightarrow> rat" where
  "pow2 e = (if 0 \<le> e then 2 ^ nat e else 1 / 2 ^ nat (- e))"

text \<open>The exponent of a positive number: \<open>pow2 e \<le> x < pow2 (e + 1)\<close>.\<close>

definition exponent2 :: "rat \<Rightarrow> int" where
  "exponent2 x =
     (let (p, q) = quotient_of x; e = int (bit_length (nat p)) - int (bit_length (nat q))
      in if x < pow2 e then e - 1 else e)"

definition round_half_even :: "rat \<Rightarrow> int" where
  "round_half_even x =
     (let r = \<lfloor>x\<rfloor>; f = x - of_int r
      in if f < 1 / 2 then r else if f > 1 / 2 then r + 1 else if even r then r else r + 1)"

definition to_double :: "rat \<Rightarrow> rat option" where
  "to_double x =
     (if x = 0 then Some 0
      else
        let e = max (exponent2 \<bar>x\<bar> - 52) (- 1074);
            r = of_int (round_half_even (x / pow2 e)) * pow2 e
        in if \<bar>r\<bar> \<ge> pow2 1024 then None else Some r)"

text \<open>The value of a finite number as a double: its decimal form, rounded.\<close>

definition double_of :: "jnum \<Rightarrow> rat option" where
  "double_of n = to_double (num_val n)"

end
