(* ===== verification/Validation_Plan.thy ===== *)
theory Validation_Plan
  imports Js_Heap Validation_Formats
begin

text \<open>
  The compiler of validation plans (\<open>packages/core/src/validation/plan.ts\<close>, the part up to
  \<open>compileValidationPlan\<close>): the bounds on a plan, the check of each node, and the two worklists that
  reach every node. A plan is any value of the heap. A thrown \<open>TypeError\<close> is that error; what an
  accessor throws is \<open>OtherError\<close>. Paths only appear in error messages and are left out; the
  constructor of regular expressions is a parameter.
\<close>

section \<open>Limits and compiled plans\<close>

definition DEFAULT_VALIDATION_MAX_DEPTH :: nat where "DEFAULT_VALIDATION_MAX_DEPTH = 64"
definition DEFAULT_VALIDATION_MAX_ISSUES :: nat where "DEFAULT_VALIDATION_MAX_ISSUES = 100"
definition DEFAULT_VALIDATION_MAX_OPERATIONS :: nat where "DEFAULT_VALIDATION_MAX_OPERATIONS = 100000"
definition DEFAULT_VALIDATION_MAX_PROPERTIES :: nat where "DEFAULT_VALIDATION_MAX_PROPERTIES = 10000"

record limits =
  maxDepth :: nat
  maxIssues :: nat
  maxOperations :: nat
  maxProperties :: nat

text \<open>\<open>ValidationOptions\<close>: each limit may be given directly and in the group \<open>limits\<close>.\<close>

record limit_values =
  lv_maxDepth :: hval
  lv_maxIssues :: hval
  lv_maxOperations :: hval
  lv_maxProperties :: hval

record validation_options =
  vo_direct :: limit_values
  vo_limits :: limit_values

definition no_limit_values :: limit_values where
  "no_limit_values = \<lparr>lv_maxDepth = HUndef, lv_maxIssues = HUndef, lv_maxOperations = HUndef, lv_maxProperties = HUndef\<rparr>"

definition default_options :: validation_options where
  "default_options = \<lparr>vo_direct = no_limit_values, vo_limits = no_limit_values\<rparr>"

text \<open>\<open>a ?? b ?? d\<close>, then the check of a safe integer not below a bound.\<close>

definition pick_limit :: "hval \<Rightarrow> hval \<Rightarrow> nat \<Rightarrow> hval" where
  "pick_limit a b d =
     (if \<not> h_nullish a then a else if \<not> h_nullish b then b else HNum (num_of_int (int d)))"

definition checked_limit :: "nat \<Rightarrow> hval \<Rightarrow> (error_class, nat) result" where
  "checked_limit least v =
     (case safe_length (Reads v) of
        None \<Rightarrow> Inl TypeError
      | Some n \<Rightarrow> if n < least then Inl TypeError else Inr n)"

definition validateLimits :: "validation_options \<Rightarrow> (error_class, limits) result" where
  "validateLimits options =
     (let d = vo_direct options; g = vo_limits options
      in andThen (checked_limit 0 (pick_limit (lv_maxDepth d) (lv_maxDepth g) DEFAULT_VALIDATION_MAX_DEPTH)) (\<lambda>depth.
         andThen (checked_limit 1 (pick_limit (lv_maxIssues d) (lv_maxIssues g) DEFAULT_VALIDATION_MAX_ISSUES)) (\<lambda>issues.
         andThen (checked_limit 1 (pick_limit (lv_maxOperations d) (lv_maxOperations g) DEFAULT_VALIDATION_MAX_OPERATIONS)) (\<lambda>ops.
         andThen (checked_limit 1 (pick_limit (lv_maxProperties d) (lv_maxProperties g) DEFAULT_VALIDATION_MAX_PROPERTIES)) (\<lambda>props.
           Inr \<lparr>maxDepth = depth, maxIssues = issues, maxOperations = ops, maxProperties = props\<rparr>)))))"

text \<open>
  \<open>patterns\<close> holds the source of the regular expression compiled for a plan object, by its address.
\<close>

record compiled_plan =
  vc_root :: hval
  vc_definitions :: "(jstring, hval) jmap"
  vc_patterns :: "(nat, jstring) jmap"
  vc_limits :: limits

section \<open>Requirements\<close>

text \<open>\<open>Array.isArray\<close> inside a \<open>try\<close>, as in \<open>safeIsArray\<close>.\<close>

definition safeIsArray :: "heap \<Rightarrow> hval \<Rightarrow> bool" where
  "safeIsArray h v \<longleftrightarrow> js_isArray h v = Some True"

definition isRecord :: "heap \<Rightarrow> hval \<Rightarrow> bool" where
  "isRecord h v \<longleftrightarrow> is_ref v \<and> js_isArray h v = Some False \<and> plain_proto h v = Some True"

definition require :: "bool \<Rightarrow> (error_class, unit) result" where
  "require ok = throw_if (\<not> ok) TypeError"

definition requireRecord :: "heap \<Rightarrow> hval \<Rightarrow> (error_class, unit) result" where
  "requireRecord h v = require (isRecord h v)"

definition requireBoolean :: "hval \<Rightarrow> (error_class, unit) result" where
  "requireBoolean v = require (is_bool v)"

definition requireString :: "hval \<Rightarrow> (error_class, jstring) result" where
  "requireString v = (case v of HStr s \<Rightarrow> Inr s | _ \<Rightarrow> Inl TypeError)"

definition requireNonEmptyString :: "hval \<Rightarrow> (error_class, jstring) result" where
  "requireNonEmptyString v = andThen (requireString v) (\<lambda>s. if length s = 0 then Inl TypeError else Inr s)"

definition requireNonNegativeInteger :: "hval \<Rightarrow> (error_class, unit) result" where
  "requireNonNegativeInteger v = require (safe_length (Reads v) \<noteq> None)"

definition requireFiniteNumber :: "hval \<Rightarrow> (error_class, unit) result" where
  "requireFiniteNumber v = require (case v of HNum n \<Rightarrow> num_finite n | _ \<Rightarrow> False)"

definition requireArray :: "heap \<Rightarrow> hval \<Rightarrow> (error_class, unit) result" where
  "requireArray h v = require (js_isArray h v = Some True)"

text \<open>Reading a property where the code has no \<open>try\<close>.\<close>

definition read :: "hprop \<Rightarrow> (error_class, hval) result" where
  "read p = (case p of Throws \<Rightarrow> Inl OtherError | Reads v \<Rightarrow> Inr v)"

definition get_field :: "heap \<Rightarrow> hval \<Rightarrow> string \<Rightarrow> (error_class, hval) result" where
  "get_field h v name = read (obj_prop h v (js name))"

text \<open>The elements a loop over an array visits.\<close>

fun read_all :: "hprop list \<Rightarrow> (error_class, hval list) result" where
  "read_all [] = Inr []"
| "read_all (p # ps) = andThen (read p) (\<lambda>v. andThen (read_all ps) (\<lambda>vs. Inr (v # vs)))"

definition arr_elements :: "heap \<Rightarrow> hval \<Rightarrow> (error_class, hval list) result" where
  "arr_elements h v =
     (case safe_length (arr_length h v) of
        None \<Rightarrow> Inl OtherError
      | Some n \<Rightarrow> read_all (map (arr_item h v) [0..<n]))"

section \<open>The bounds of a plan\<close>

definition MAX_VALIDATION_PLAN_VALUES :: nat where "MAX_VALIDATION_PLAN_VALUES = 100000"
definition MAX_VALIDATION_PLAN_DEPTH :: nat where "MAX_VALIDATION_PLAN_DEPTH = 64"
definition MAX_VALIDATION_PLAN_CHILDREN :: nat where "MAX_VALIDATION_PLAN_CHILDREN = 10000"
definition MAX_VALIDATION_PLAN_STRING_LENGTH :: nat where "MAX_VALIDATION_PLAN_STRING_LENGTH = 65536"

datatype bounds_frame = BoundsValue hval nat | BoundsExit nat

text \<open>
  The children of an object, in the order in which they will be taken from the stack. They are read
  inside a \<open>try\<close>, so an accessor that throws gives a \<open>TypeError\<close>.
\<close>

fun read_children :: "hprop list \<Rightarrow> (error_class, hval list) result" where
  "read_children [] = Inr []"
| "read_children (Throws # ps) = Inl TypeError"
| "read_children (Reads v # ps) = andThen (read_children ps) (\<lambda>vs. Inr (v # vs))"

definition plan_children :: "heap \<Rightarrow> hval \<Rightarrow> (error_class, hval list) result" where
  "plan_children h item =
     (if safeIsArray h item then
        (case safe_length (arr_length h item) of
           None \<Rightarrow> Inl TypeError
         | Some n \<Rightarrow>
             if n > MAX_VALIDATION_PLAN_CHILDREN then Inl TypeError
             else read_children (map (arr_item h item) [0..<n]))
      else
        andThen (requireRecord h item) (\<lambda>_.
          case own_keys h item of
            None \<Rightarrow> Inl TypeError
          | Some keys \<Rightarrow>
              if length keys > MAX_VALIDATION_PLAN_CHILDREN then Inl TypeError
              else read_children (map (obj_prop h item) keys)))"

function plan_bounds ::
  "heap \<Rightarrow> bounds_frame list \<Rightarrow> nat list \<Rightarrow> nat list \<Rightarrow> nat \<Rightarrow> (error_class, unit) result" where
  "plan_bounds h [] active visited values = Inr ()"
| "plan_bounds h (BoundsExit a # pending) active visited values =
     plan_bounds h pending (jset_delete a active) visited values"
| "plan_bounds h (BoundsValue item depth # pending) active visited values =
     (let values = values + 1 in
      if values > MAX_VALIDATION_PLAN_VALUES then Inl TypeError
      else
        (case item of
           HNull \<Rightarrow> plan_bounds h pending active visited values
         | HBool _ \<Rightarrow> plan_bounds h pending active visited values
         | HStr s \<Rightarrow>
             if length s > MAX_VALIDATION_PLAN_STRING_LENGTH then Inl TypeError
             else plan_bounds h pending active visited values
         | HNum n \<Rightarrow> if \<not> num_finite n then Inl TypeError else plan_bounds h pending active visited values
         | HRef a \<Rightarrow>
             if depth > MAX_VALIDATION_PLAN_DEPTH then Inl TypeError
             else if a \<in> set active then Inl TypeError
             else if a \<in> set visited then plan_bounds h pending active visited values
             else
               (case plan_children h item of
                  Inl e \<Rightarrow> Inl e
                | Inr children \<Rightarrow>
                    plan_bounds h
                      (map (\<lambda>child. BoundsValue child (depth + 1)) children @ BoundsExit a # pending)
                      (jset_add a active) (jset_add a visited) values)
         | _ \<Rightarrow> Inl TypeError))"
  by pat_completeness auto
termination
  by (relation "measures [\<lambda>(_, _, _, _, values). Suc MAX_VALIDATION_PLAN_VALUES - values, \<lambda>(_, pending, _). length pending]")
    auto

declare plan_bounds.simps [simp del]

definition assertPlanBounds :: "heap \<Rightarrow> hval \<Rightarrow> hval \<Rightarrow> (error_class, unit) result" where
  "assertPlanBounds h plan documentDefinitions =
     plan_bounds h
       ((if documentDefinitions \<noteq> HUndef then [BoundsValue documentDefinitions 0] else []) @ [BoundsValue plan 0])
       [] [] 0"

section \<open>The check of a node\<close>

definition common_keys :: "string list" where
  "common_keys = [''kind'', ''nullable'', ''optional'', ''definitions'', ''title'', ''description'', ''examples'']"

definition allowedKeys :: "jstring \<Rightarrow> string list" where
  "allowedKeys kind =
     (if kind = js ''ref'' then common_keys @ [''name'', ''ref'']
      else if kind = js ''string'' then common_keys @ [''minLength'', ''maxLength'', ''pattern'', ''format'']
      else if kind = js ''number'' \<or> kind = js ''integer'' then
        common_keys @ [''minimum'', ''maximum'', ''exclusiveMinimum'', ''exclusiveMaximum'', ''multipleOf'']
      else if kind = js ''literal'' then common_keys @ [''value'']
      else if kind = js ''enum'' then common_keys @ [''values'']
      else if kind = js ''array'' then common_keys @ [''items'', ''prefixItems'', ''minItems'', ''maxItems'']
      else if kind = js ''tuple'' then common_keys @ [''items'', ''rest'']
      else if kind = js ''object'' then common_keys @ [''properties'', ''required'', ''additionalProperties'']
      else if kind = js ''union'' then common_keys @ [''anyOf'', ''oneOf'']
      else if kind = js ''oneOf'' then common_keys @ [''anyOf'']
      else if kind = js ''intersection'' then common_keys @ [''allOf'']
      else common_keys)"

text \<open>\<open>plan.kind\<close> has been required to be a string.\<close>

definition assertKnownKeys :: "heap \<Rightarrow> hval \<Rightarrow> jstring \<Rightarrow> (error_class, unit) result" where
  "assertKnownKeys h plan kind =
     (case own_keys h plan of
        None \<Rightarrow> Inl OtherError
      | Some keys \<Rightarrow> for_each (\<lambda>key. require (key \<in> set (map js (allowedKeys kind)))) keys)"

text \<open>\<open>if (plan[name] !== undefined) check(plan[name])\<close>.\<close>

definition optional_field ::
  "heap \<Rightarrow> hval \<Rightarrow> string \<Rightarrow> (hval \<Rightarrow> (error_class, unit) result) \<Rightarrow> (error_class, unit) result" where
  "optional_field h plan name test =
     andThen (get_field h plan name) (\<lambda>v. if v = HUndef then Inr () else test v)"

definition validateCommonFields :: "heap \<Rightarrow> hval \<Rightarrow> (error_class, unit) result" where
  "validateCommonFields h plan =
     andThen (optional_field h plan ''nullable'' requireBoolean) (\<lambda>_.
     andThen (optional_field h plan ''optional'' requireBoolean) (\<lambda>_.
     andThen (optional_field h plan ''definitions'' (requireRecord h)) (\<lambda>_.
     andThen (optional_field h plan ''title'' (\<lambda>v. andThen (requireString v) (\<lambda>_. Inr ()))) (\<lambda>_.
     andThen (optional_field h plan ''description'' (\<lambda>v. andThen (requireString v) (\<lambda>_. Inr ()))) (\<lambda>_.
       optional_field h plan ''examples'' (requireArray h))))))"

definition positive_number :: "hval \<Rightarrow> bool" where
  "positive_number v = (case v of HNum n \<Rightarrow> num_less (Dec 0 0) n | _ \<Rightarrow> False)"

definition validateNumberFields :: "heap \<Rightarrow> hval \<Rightarrow> (error_class, unit) result" where
  "validateNumberFields h plan =
     andThen (for_each (\<lambda>name. optional_field h plan name requireFiniteNumber)
                [''minimum'', ''maximum'', ''exclusiveMinimum'', ''exclusiveMaximum'']) (\<lambda>_.
       optional_field h plan ''multipleOf'' (\<lambda>v.
         andThen (requireFiniteNumber v) (\<lambda>_. require (positive_number v))))"

text \<open>Two optional counts, the first of which may not exceed the second.\<close>

definition ordered_counts :: "heap \<Rightarrow> hval \<Rightarrow> string \<Rightarrow> string \<Rightarrow> (error_class, unit) result" where
  "ordered_counts h plan low high =
     andThen (for_each (\<lambda>name. optional_field h plan name requireNonNegativeInteger) [low, high]) (\<lambda>_.
     andThen (get_field h plan low) (\<lambda>l.
     andThen (get_field h plan high) (\<lambda>u.
       case (l, u) of
         (HNum a, HNum b) \<Rightarrow> require (\<not> num_less b a)
       | _ \<Rightarrow> Inr ())))"

text \<open>\<open>validateNestedPlan\<close>: the plans handed to \<open>visit\<close>.\<close>

definition validateNestedPlan :: "hval \<Rightarrow> hval list" where
  "validateNestedPlan v = (if is_bool v then [] else [v])"

definition optional_nested :: "heap \<Rightarrow> hval \<Rightarrow> string \<Rightarrow> (error_class, hval list) result" where
  "optional_nested h plan name =
     andThen (get_field h plan name) (\<lambda>v. Inr (if v = HUndef then [] else validateNestedPlan v))"

definition nested_items :: "heap \<Rightarrow> hval \<Rightarrow> (error_class, hval list) result" where
  "nested_items h v =
     andThen (requireArray h v) (\<lambda>_.
     andThen (arr_elements h v) (\<lambda>items. Inr (concat (map validateNestedPlan items))))"

text \<open>The loop over the sorted names of a record of plans.\<close>

definition nested_fields :: "heap \<Rightarrow> hval \<Rightarrow> (error_class, hval list) result" where
  "nested_fields h v =
     andThen (requireRecord h v) (\<lambda>_.
       case own_keys h v of
         None \<Rightarrow> Inl OtherError
       | Some keys \<Rightarrow>
           andThen (read_all (map (obj_prop h v) (sort keys))) (\<lambda>vs. Inr (concat (map validateNestedPlan vs))))"

definition required_names :: "heap \<Rightarrow> hval \<Rightarrow> (error_class, unit) result" where
  "required_names h v =
     andThen (requireArray h v) (\<lambda>_.
     andThen (arr_elements h v) (\<lambda>items.
     andThen (for_each (\<lambda>item. andThen (requireString item) (\<lambda>_. Inr ())) items) (\<lambda>_.
       require (distinct items))))"

text \<open>\<open>regex s\<close> is \<open>new RegExp(s, ''u'')\<close>: its \<open>test\<close>, or \<open>None\<close> when the constructor throws.\<close>

record validation_platform =
  vp_regex :: "jstring \<Rightarrow> (jstring \<Rightarrow> bool) option"
  vp_protocol :: "jstring \<Rightarrow> jstring option"
  vp_decode :: "jstring \<Rightarrow> jstring option"

definition string_node :: "validation_platform \<Rightarrow> heap \<Rightarrow> hval \<Rightarrow> (error_class, jstring option) result" where
  "string_node vp h plan =
     andThen (ordered_counts h plan ''minLength'' ''maxLength'') (\<lambda>_.
     andThen (get_field h plan ''pattern'') (\<lambda>p.
     andThen (if p = HUndef then Inr None
              else
                andThen (requireString p) (\<lambda>s.
                andThen (require (validationPatternError s = None)) (\<lambda>_.
                andThen (require (vp_regex vp s \<noteq> None)) (\<lambda>_. Inr (Some s))))) (\<lambda>pattern.
     andThen (optional_field h plan ''format'' (\<lambda>v.
                andThen (requireNonEmptyString v) (\<lambda>s. require (isSupportedValidationFormat s)))) (\<lambda>_.
       Inr pattern))))"

definition object_node :: "heap \<Rightarrow> hval \<Rightarrow> (error_class, hval list) result" where
  "object_node h plan =
     andThen (get_field h plan ''properties'') (\<lambda>p.
     andThen (if p = HUndef then Inr [] else nested_fields h p) (\<lambda>props.
     andThen (optional_field h plan ''required'' (required_names h)) (\<lambda>_.
     andThen (optional_nested h plan ''additionalProperties'') (\<lambda>extra.
       Inr (props @ extra)))))"

definition array_node :: "heap \<Rightarrow> hval \<Rightarrow> (error_class, hval list) result" where
  "array_node h plan =
     andThen (optional_nested h plan ''items'') (\<lambda>items.
     andThen (get_field h plan ''prefixItems'') (\<lambda>p.
     andThen (if p = HUndef then Inr [] else nested_items h p) (\<lambda>prefixes.
     andThen (ordered_counts h plan ''minItems'' ''maxItems'') (\<lambda>_.
       Inr (items @ prefixes)))))"

definition tuple_node :: "heap \<Rightarrow> hval \<Rightarrow> (error_class, hval list) result" where
  "tuple_node h plan =
     andThen (get_field h plan ''items'') (\<lambda>v.
     andThen (nested_items h v) (\<lambda>items.
     andThen (optional_nested h plan ''rest'') (\<lambda>rest.
       Inr (items @ rest))))"

definition union_node :: "heap \<Rightarrow> hval \<Rightarrow> jstring \<Rightarrow> (error_class, hval list) result" where
  "union_node h plan kind =
     andThen (get_field h plan ''anyOf'') (\<lambda>v.
     andThen (requireArray h v) (\<lambda>_.
     andThen (arr_elements h v) (\<lambda>branches.
     andThen (require (branches \<noteq> [])) (\<lambda>_.
     andThen (if kind = js ''union'' then optional_field h plan ''oneOf'' requireBoolean else Inr ()) (\<lambda>_.
       Inr (concat (map validateNestedPlan branches)))))))"

definition ref_node :: "heap \<Rightarrow> hval \<Rightarrow> (error_class, unit) result" where
  "ref_node h plan =
     andThen (get_field h plan ''name'') (\<lambda>name.
     andThen (get_field h plan ''ref'') (\<lambda>ref.
     andThen (require ((name \<noteq> HUndef) \<noteq> (ref \<noteq> HUndef))) (\<lambda>_.
     andThen (requireNonEmptyString (if name \<noteq> HUndef then name else ref)) (\<lambda>_. Inr ()))))"

text \<open>The \<open>switch\<close> of \<open>validateNode\<close>: the plans to visit and the pattern compiled for the node.\<close>

definition kind_node ::
  "validation_platform \<Rightarrow> heap \<Rightarrow> hval \<Rightarrow> jstring \<Rightarrow> (error_class, hval list \<times> jstring option) result" where
  "kind_node vp h plan kind =
     (let nested = (\<lambda>r. andThen r (\<lambda>vs. Inr (vs, None))); plain = (\<lambda>r. andThen r (\<lambda>_. Inr ([], None)))
      in if kind \<in> set (map js [''any'', ''never'', ''null'', ''boolean'']) then Inr ([], None)
         else if kind = js ''string'' then andThen (string_node vp h plan) (\<lambda>pattern. Inr ([], pattern))
         else if kind = js ''number'' \<or> kind = js ''integer'' then plain (validateNumberFields h plan)
         else if kind = js ''literal'' then
           plain (case has_own h plan (js ''value'') of None \<Rightarrow> Inl OtherError | Some b \<Rightarrow> require b)
         else if kind = js ''enum'' then
           plain (andThen (get_field h plan ''values'') (\<lambda>v.
                  andThen (requireArray h v) (\<lambda>_.
                  andThen (arr_elements h v) (\<lambda>vs. require (vs \<noteq> [])))))
         else if kind = js ''array'' then nested (array_node h plan)
         else if kind = js ''tuple'' then nested (tuple_node h plan)
         else if kind = js ''object'' then nested (object_node h plan)
         else if kind = js ''union'' \<or> kind = js ''oneOf'' then nested (union_node h plan kind)
         else if kind = js ''intersection'' then nested (andThen (get_field h plan ''allOf'') (nested_items h))
         else if kind = js ''ref'' then plain (ref_node h plan)
         else Inl TypeError)"

definition definitions_node :: "heap \<Rightarrow> hval \<Rightarrow> (error_class, hval list) result" where
  "definitions_node h plan =
     andThen (get_field h plan ''definitions'') (\<lambda>d.
       if d = HUndef then Inr []
       else
         andThen (requireRecord h d) (\<lambda>_.
           case own_keys h d of
             None \<Rightarrow> Inl OtherError
           | Some names \<Rightarrow> andThen (require ([] \<notin> set names)) (\<lambda>_. nested_fields h d)))"

text \<open>The plans to visit are listed in the order in which the code pushes them.\<close>

definition validateNode ::
  "validation_platform \<Rightarrow> heap \<Rightarrow> hval \<Rightarrow> (error_class, hval list \<times> jstring option) result" where
  "validateNode vp h plan =
     andThen (requireRecord h plan) (\<lambda>_.
     andThen (get_field h plan ''kind'') (\<lambda>k.
     andThen (requireNonEmptyString k) (\<lambda>kind.
     andThen (assertKnownKeys h plan kind) (\<lambda>_.
     andThen (validateCommonFields h plan) (\<lambda>_.
     andThen (kind_node vp h plan kind) (\<lambda>(children, pattern).
     andThen (definitions_node h plan) (\<lambda>defs.
       Inr (children @ defs, pattern))))))))"

section \<open>The worklists\<close>

fun register_names ::
  "heap \<Rightarrow> hval \<Rightarrow> jstring list \<Rightarrow> (jstring, hval) jmap \<Rightarrow> (error_class, (jstring, hval) jmap) result" where
  "register_names h v [] target = Inr target"
| "register_names h v (name # names) target =
     andThen (read (obj_prop h v name)) (\<lambda>definition.
       if (case jm_get target name of None \<Rightarrow> False | Some old \<Rightarrow> \<not> h_strict_eq old definition) then Inl TypeError
       else register_names h v names (jm_set name definition target))"

definition registerDefinitions ::
  "heap \<Rightarrow> (jstring, hval) jmap \<Rightarrow> hval \<Rightarrow> (error_class, (jstring, hval) jmap) result" where
  "registerDefinitions h target v =
     andThen (requireRecord h v) (\<lambda>_.
       case own_keys h v of
         None \<Rightarrow> Inl OtherError
       | Some names \<Rightarrow> register_names h v (sort names) target)"

datatype work_item = WorkPlan hval | WorkExit nat

record worklist =
  wl_definitions :: "(jstring, hval) jmap"
  wl_patterns :: "(nat, jstring) jmap"
  wl_visited :: "nat list"
  wl_visiting :: "nat list"

text \<open>One plan object taken from the stack: the new state and the items pushed, top first.\<close>

definition visit_plan ::
  "validation_platform \<Rightarrow> heap \<Rightarrow> nat \<Rightarrow> worklist \<Rightarrow> (error_class, work_item list \<times> worklist) result" where
  "visit_plan vp h a w =
     andThen (get_field h (HRef a) ''definitions'') (\<lambda>d.
     andThen (if d = HUndef then Inr (wl_definitions w) else registerDefinitions h (wl_definitions w) d) (\<lambda>definitions.
     andThen (validateNode vp h (HRef a)) (\<lambda>(children, pattern).
       Inr (map WorkPlan (rev children) @ [WorkExit a],
            w\<lparr>wl_visiting := jset_add a (wl_visiting w),
              wl_definitions := definitions,
              wl_patterns := (case pattern of None \<Rightarrow> wl_patterns w | Some s \<Rightarrow> jm_set a s (wl_patterns w))\<rparr>))))"

definition leave_plan :: "nat \<Rightarrow> worklist \<Rightarrow> worklist" where
  "leave_plan a w = w\<lparr>wl_visiting := jset_delete a (wl_visiting w), wl_visited := jset_add a (wl_visited w)\<rparr>"

text \<open>The addresses of the heap no worklist has reached; this number bounds the loop.\<close>

definition unreached :: "heap \<Rightarrow> worklist \<Rightarrow> nat set" where
  "unreached h w = {..<length h} - (set (wl_visited w) \<union> set (wl_visiting w))"

lemma finite_unreached [simp]: "finite (unreached h w)"
  by (simp add: unreached_def)

lemma isRecord_address: "isRecord h v \<Longrightarrow> ref_addr v < length h"
  by (cases v) (auto simp: isRecord_def js_isArray_def heap_obj_def split: if_splits)

lemma visit_plan_unreached:
  assumes "visit_plan vp h a w = Inr (items, w')"
  shows "unreached h w' = unreached h w - {a}"
  using assms by (auto simp: visit_plan_def unreached_def)

lemma leave_plan_unreached: "unreached h (leave_plan a w) \<subseteq> unreached h w"
  by (auto simp: unreached_def leave_plan_def)

lemma isRecord_ref: "isRecord h v \<Longrightarrow> v = HRef (ref_addr v)"
  by (cases v) (auto simp: isRecord_def)

lemma visit_plan_less:
  assumes "isRecord h v" "ref_addr v \<notin> set (wl_visiting w)" "ref_addr v \<notin> set (wl_visited w)"
    "visit_plan vp h (ref_addr v) w = Inr (items, w')"
  shows "card (unreached h w') < card (unreached h w)"
proof -
  have "ref_addr v \<in> unreached h w"
    using assms(2,3) isRecord_address [OF assms(1)] by (simp add: unreached_def)
  then show ?thesis
    unfolding visit_plan_unreached [OF assms(4)] by (rule card_Diff1_less [OF finite_unreached])
qed

function drain_plans ::
  "validation_platform \<Rightarrow> heap \<Rightarrow> work_item list \<Rightarrow> worklist \<Rightarrow> (error_class, worklist) result" where
  "drain_plans vp h [] w = Inr w"
| "drain_plans vp h (WorkExit a # pending) w = drain_plans vp h pending (leave_plan a w)"
| "drain_plans vp h (WorkPlan v # pending) w =
     (if is_bool v then drain_plans vp h pending w
      else if \<not> isRecord h v then Inl TypeError
      else
        let a = ref_addr v in
        if a \<in> set (wl_visiting w) then Inl TypeError
        else if a \<in> set (wl_visited w) then drain_plans vp h pending w
        else
          (case visit_plan vp h a w of
             Inl e \<Rightarrow> Inl e
           | Inr (items, w') \<Rightarrow> drain_plans vp h (items @ pending) w'))"
  by pat_completeness auto
termination
proof (relation "measures [\<lambda>(_, h, _, w). card (unreached h w), \<lambda>(_, _, pending, _). length pending]", goal_cases)
  case (2 vp h a pending w)
  have "card (unreached h (leave_plan a w)) \<le> card (unreached h w)"
    by (intro card_mono leave_plan_unreached) simp
  then show ?case by auto
qed (auto simp: visit_plan_less)

declare drain_plans.simps [simp del]

lemma drain_progress:
  "drain_plans vp h pending w = Inr w' \<Longrightarrow>
     card (unreached h w') < card (unreached h w) \<or>
     (card (unreached h w') \<le> card (unreached h w) \<and> wl_definitions w' = wl_definitions w)"
proof (induction vp h pending w rule: drain_plans.induct)
  case (2 vp h a pending w)
  have "card (unreached h (leave_plan a w)) \<le> card (unreached h w)"
    by (intro card_mono leave_plan_unreached) simp
  with 2 show ?case by (auto simp: drain_plans.simps leave_plan_def)
next
  case (3 vp h v pending w)
  show ?case
  proof (cases "is_bool v \<or> ref_addr v \<in> set (wl_visited w)")
    case True
    with 3 show ?thesis by (auto simp: drain_plans.simps Let_def split: if_splits)
  next
    case False
    with "3.prems" obtain items w1 where *: "isRecord h v" "ref_addr v \<notin> set (wl_visiting w)"
      "visit_plan vp h (ref_addr v) w = Inr (items, w1)" "drain_plans vp h (items @ pending) w1 = Inr w'"
      by (auto simp: drain_plans.simps Let_def split: if_splits sum.splits)
    with False "3.IH" have "card (unreached h w') \<le> card (unreached h w1)" by fastforce
    with visit_plan_less [OF *(1,2) _ *(3)] False show ?thesis by simp
  qed
qed (simp add: drain_plans.simps)

text \<open>
  The definitions that no round has scheduled yet, in the order of their names; the last one is on top
  of the stack.
\<close>

definition due_definitions :: "jstring list \<Rightarrow> worklist \<Rightarrow> (jstring \<times> hval) list" where
  "due_definitions scheduled w =
     filter (\<lambda>(name, _). name \<notin> set scheduled) (sort_key fst (wl_definitions w))"

lemma due_definitions_done:
  "wl_definitions w' = wl_definitions w \<Longrightarrow>
     due_definitions (scheduled @ map fst (due_definitions scheduled w)) w' = []"
  by (force simp: due_definitions_def filter_empty_conv)

function schedule_definitions ::
  "validation_platform \<Rightarrow> heap \<Rightarrow> jstring list \<Rightarrow> worklist \<Rightarrow> (error_class, worklist) result" where
  "schedule_definitions vp h scheduled w =
     (let due = due_definitions scheduled w in
      if due = [] then Inr w
      else
        (case drain_plans vp h (map (WorkPlan \<circ> snd) (rev due)) w of
           Inl e \<Rightarrow> Inl e
         | Inr w' \<Rightarrow> schedule_definitions vp h (scheduled @ map fst due) w'))"
  by pat_completeness auto
termination
proof (relation "measures [\<lambda>(_, h, _, w). card (unreached h w), \<lambda>(_, _, scheduled, w). length (due_definitions scheduled w)]", goal_cases)
  case (2 vp h scheduled w due w')
  then show ?case
    using drain_progress [of vp h "map (WorkPlan \<circ> snd) (rev due)" w w']
      due_definitions_done [of w' w scheduled]
    by auto
qed simp

declare schedule_definitions.simps [simp del]

definition empty_worklist :: "(jstring, hval) jmap \<Rightarrow> worklist" where
  "empty_worklist definitions =
     \<lparr>wl_definitions = definitions, wl_patterns = [], wl_visited = [], wl_visiting = []\<rparr>"

definition collectAndValidate ::
  "validation_platform \<Rightarrow> heap \<Rightarrow> hval \<Rightarrow> hval \<Rightarrow> (error_class, worklist) result" where
  "collectAndValidate vp h plan documentDefinitions =
     andThen (assertPlanBounds h plan documentDefinitions) (\<lambda>_.
     andThen (if documentDefinitions \<noteq> HUndef then registerDefinitions h [] documentDefinitions else Inr []) (\<lambda>definitions.
     andThen (drain_plans vp h [WorkPlan plan] (empty_worklist definitions)) (\<lambda>w.
       schedule_definitions vp h [] w)))"

section \<open>Compilation\<close>

text \<open>\<open>isValidationPlanDocument\<close>; \<open>Array.isArray\<close> and \<open>in\<close> may throw.\<close>

definition isValidationPlanDocument :: "heap \<Rightarrow> hval \<Rightarrow> (error_class, bool) result" where
  "isValidationPlanDocument h v =
     (if \<not> is_ref v then Inr False
      else
        (case js_isArray h v of
           None \<Rightarrow> Inl TypeError
         | Some True \<Rightarrow> Inr False
         | Some False \<Rightarrow> (case has_own h v (js ''root'') of None \<Rightarrow> Inl OtherError | Some b \<Rightarrow> Inr b)))"

definition compileValidationPlan ::
  "validation_platform \<Rightarrow> heap \<Rightarrow> hval \<Rightarrow> validation_options \<Rightarrow> (error_class, compiled_plan) result" where
  "compileValidationPlan vp h input options =
     andThen (isValidationPlanDocument h input) (\<lambda>document.
     andThen (if document then get_field h input ''root'' else Inr input) (\<lambda>plan.
     andThen (if document then get_field h input ''definitions'' else Inr HUndef) (\<lambda>documentDefinitions.
     andThen (collectAndValidate vp h plan documentDefinitions) (\<lambda>w.
     andThen (validateLimits options) (\<lambda>l.
       Inr \<lparr>vc_root = plan, vc_definitions = wl_definitions w, vc_patterns = wl_patterns w, vc_limits = l\<rparr>)))))"

end
