(* ===== verification/Validation_Issues.thy ===== *)
theory Validation_Issues
  imports Validation_Plan
begin

text \<open>
  Issues and their collection (\<open>packages/core/src/validation/issues.ts\<close>, and the evaluation state of
  \<open>plan.ts\<close>): paths and their text form, the bounded collector, the count of operations, and the
  comparison of values with literals.
\<close>

section \<open>Paths and issues\<close>

text \<open>An index the evaluator writes is a natural number; a refinement may give any number.\<close>

datatype segment = PKey jstring | PIndex nat | PNumber jnum

record issue =
  is_path :: "segment list"
  is_code :: jstring
  is_message :: jstring

definition IDENTIFIER :: "jstring \<Rightarrow> bool" where
  "IDENTIFIER s \<longleftrightarrow>
     s \<noteq> [] \<and> \<not> is_digit (hd s) \<and> list_all (\<lambda>c. is_alnum c \<or> c = 0x5F \<or> c = 0x24) s"

definition bracketed :: "jstring \<Rightarrow> jstring" where
  "bracketed s = js ''['' @ s @ js '']''"

definition segment_text :: "nat \<Rightarrow> segment \<Rightarrow> jstring" where
  "segment_text index segment =
     (case segment of
        PIndex n \<Rightarrow> bracketed (nat_digits n)
      | PNumber n \<Rightarrow> bracketed (num_string n)
      | PKey k \<Rightarrow>
          if IDENTIFIER k \<and> \<not> (index = 0 \<and> k = js ''$'') then (if index = 0 then k else js ''.'' @ k)
          else bracketed (json_quote k))"

definition formatValidationPath :: "segment list \<Rightarrow> jstring" where
  "formatValidationPath path =
     (if path = [] then js ''$''
      else concat (map (\<lambda>(index, segment). segment_text index segment) (zip [0..<length path] path)))"

definition createValidationIssue :: "segment list \<Rightarrow> jstring \<Rightarrow> jstring \<Rightarrow> issue" where
  "createValidationIssue path code msg = \<lparr>is_path = path, is_code = code, is_message = msg\<rparr>"

definition displayValidationKey :: "jstring \<Rightarrow> jstring" where
  "displayValidationKey s = json_quote (if length s > 80 then take 77 s @ js ''...'' else s)"

section \<open>The state of an evaluation\<close>

text \<open>\<open>IssueCollector.add\<close>.\<close>

definition collect_issue :: "nat \<Rightarrow> issue \<Rightarrow> issue list \<Rightarrow> issue list" where
  "collect_issue bound i issues = (if length issues \<ge> bound then issues else issues @ [i])"

text \<open>
  The collector in use is the primary one when \<open>vs_branch\<close> is \<open>None\<close>, and otherwise the one of the
  union branch that is being tried, which holds one issue. \<open>vs_active\<close> are the objects being
  validated, \<open>vs_refs\<close> the references being followed.
\<close>

record vstate =
  vs_primary :: "issue list"
  vs_branch :: "issue list option"
  vs_active :: "nat list"
  vs_refs :: "(jstring \<times> hval) list"
  vs_operations :: nat
  vs_limitReported :: bool

type_synonym step = "vstate \<Rightarrow> bool \<times> vstate"

definition add_issue_at :: "compiled_plan \<Rightarrow> segment list \<Rightarrow> string \<Rightarrow> jstring \<Rightarrow> vstate \<Rightarrow> vstate" where
  "add_issue_at c path code msg st =
     (let i = createValidationIssue path (js code) msg
      in case vs_branch st of
           None \<Rightarrow> st\<lparr>vs_primary := collect_issue (maxIssues (vc_limits c)) i (vs_primary st)\<rparr>
         | Some issues \<Rightarrow> st\<lparr>vs_branch := Some (collect_issue 1 i issues)\<rparr>)"

definition withCollector :: "step \<Rightarrow> step" where
  "withCollector body st =
     (let (b, st') = body (st\<lparr>vs_branch := Some []\<rparr>) in (b, st'\<lparr>vs_branch := vs_branch st\<rparr>))"

definition consumeOperation :: "compiled_plan \<Rightarrow> segment list \<Rightarrow> step" where
  "consumeOperation c path st =
     (if vs_operations st \<ge> maxOperations (vc_limits c) then
        (False,
         if vs_limitReported st then st
         else st\<lparr>vs_limitReported := True,
                 vs_primary := collect_issue (maxIssues (vc_limits c))
                   (createValidationIssue path (js ''maxOperations'') (js ''Validation operation limit exceeded.''))
                   (vs_primary st)\<rparr>)
      else (True, st\<lparr>vs_operations := vs_operations st + 1\<rparr>))"

definition expectedType :: "heap \<Rightarrow> hval \<Rightarrow> string" where
  "expectedType h v = (if v = HNull then ''null'' else if safeIsArray h v then ''array'' else js_typeof v)"

definition addTypeIssue :: "compiled_plan \<Rightarrow> heap \<Rightarrow> segment list \<Rightarrow> string \<Rightarrow> hval \<Rightarrow> vstate \<Rightarrow> vstate" where
  "addTypeIssue c h path expected v =
     add_issue_at c path ''type''
       (js ''Expected '' @ js expected @ js ''; received '' @ js (expectedType h v) @ js ''.'')"

text \<open>A \<open>return false\<close> after an issue was added.\<close>

definition fail_with :: "compiled_plan \<Rightarrow> segment list \<Rightarrow> string \<Rightarrow> jstring \<Rightarrow> step" where
  "fail_with c path code msg st = (False, add_issue_at c path code msg st)"

text \<open>\<open>enterValue\<close>, the body, and the \<open>finally\<close> block that forgets the value.\<close>

definition within_value :: "compiled_plan \<Rightarrow> hval \<Rightarrow> segment list \<Rightarrow> step \<Rightarrow> step" where
  "within_value c v path body st =
     (let a = ref_addr v in
      if a \<in> set (vs_active st)
      then fail_with c path ''cycle'' (js ''Cyclic value encountered during validation.'') st
      else
        let (b, st') = body (st\<lparr>vs_active := jset_add a (vs_active st)\<rparr>)
        in (b, st'\<lparr>vs_active := jset_delete a (vs_active st')\<rparr>))"

text \<open>
  A loop that collects whether everything was valid. The body gives \<open>None\<close> for \<open>valid = false; break\<close>,
  and otherwise whether this element was valid.
\<close>

fun each :: "('a \<Rightarrow> vstate \<Rightarrow> bool option \<times> vstate) \<Rightarrow> 'a list \<Rightarrow> step" where
  "each body [] st = (True, st)"
| "each body (x # xs) st =
     (case body x st of
        (None, st') \<Rightarrow> (False, st')
      | (Some b, st') \<Rightarrow> (case each body xs st' of (b', st'') \<Rightarrow> (b \<and> b', st'')))"

text \<open>\<open>if (!consumeOperation(...)) { valid = false; break; }\<close>, and the two ways to go on.\<close>

definition counted ::
  "compiled_plan \<Rightarrow> segment list \<Rightarrow> (vstate \<Rightarrow> bool option \<times> vstate) \<Rightarrow> vstate \<Rightarrow> bool option \<times> vstate" where
  "counted c path body st =
     (case consumeOperation c path st of (False, st') \<Rightarrow> (None, st') | (True, st') \<Rightarrow> body st')"

definition result_of :: "step \<Rightarrow> vstate \<Rightarrow> bool option \<times> vstate" where
  "result_of body st = (let (b, st') = body st in (Some b, st'))"

section \<open>Reading objects\<close>

definition isPlainObject :: "heap \<Rightarrow> hval \<Rightarrow> bool" where
  "isPlainObject h v \<longleftrightarrow> is_ref v \<and> \<not> safeIsArray h v \<and> plain_proto h v = Some True"

datatype own_value = NotFound | Threw | Found hval

definition readOwnValue :: "heap \<Rightarrow> hval \<Rightarrow> jstring \<Rightarrow> own_value" where
  "readOwnValue h v key =
     (case has_own h v key of
        None \<Rightarrow> Threw
      | Some False \<Rightarrow> NotFound
      | Some True \<Rightarrow> (case obj_prop h v key of Throws \<Rightarrow> Threw | Reads x \<Rightarrow> Found x))"

text \<open>The length of an array; otherwise an issue is added.\<close>

definition readArrayLength :: "compiled_plan \<Rightarrow> heap \<Rightarrow> hval \<Rightarrow> segment list \<Rightarrow> vstate \<Rightarrow> nat option \<times> vstate" where
  "readArrayLength c h v path st =
     (case safe_length (arr_length h v) of
        None \<Rightarrow> (None, add_issue_at c path ''read'' (js ''Array length could not be read.'') st)
      | Some n \<Rightarrow> (Some n, st))"

datatype keys_error = KeysRead | KeysMaxProperties | KeysMaxOperations

fun read_keys_loop ::
  "compiled_plan \<Rightarrow> segment list \<Rightarrow> jstring list \<Rightarrow> jstring list \<Rightarrow> vstate \<Rightarrow>
   (keys_error, jstring list) result \<times> vstate" where
  "read_keys_loop c path [] keys st = (Inr (sort keys), st)"
| "read_keys_loop c path (key # rest) keys st =
     (case consumeOperation c (path @ [PKey key]) st of
        (False, st') \<Rightarrow> (Inl KeysMaxOperations, st')
      | (True, st') \<Rightarrow>
          if length keys + 1 > maxProperties (vc_limits c) then
            (Inl KeysMaxProperties,
             add_issue_at c path ''maxProperties''
               (js ''Object contains more than '' @ nat_digits (maxProperties (vc_limits c)) @ js '' properties.'') st')
          else read_keys_loop c path rest (keys @ [key]) st')"

definition readKeys ::
  "compiled_plan \<Rightarrow> heap \<Rightarrow> hval \<Rightarrow> segment list \<Rightarrow> vstate \<Rightarrow> (keys_error, jstring list) result \<times> vstate" where
  "readKeys c h v path st =
     (case consumeOperation c path st of
        (False, st') \<Rightarrow> (Inl KeysMaxOperations, st')
      | (True, st') \<Rightarrow>
          (case own_keys h v of
             None \<Rightarrow> (Inl KeysRead, st')
           | Some keys \<Rightarrow> read_keys_loop c path keys [] st'))"

section \<open>Comparing with literals\<close>

type_synonym equal_pair = "hval \<times> hval \<times> segment list"

text \<open>
  The loop that pushes the pairs of two arrays or two objects: one operation each, the last first, so
  that the first ends on top. \<open>None\<close> is \<open>return false\<close>.
\<close>

fun push_pairs ::
  "compiled_plan \<Rightarrow> (segment list \<times> (hval \<times> hval) option) list \<Rightarrow> equal_pair list \<Rightarrow> vstate \<Rightarrow>
   equal_pair list option \<times> vstate" where
  "push_pairs c [] pairs st = (Some pairs, st)"
| "push_pairs c ((path, values) # rest) pairs st =
     (case consumeOperation c path st of
        (False, st') \<Rightarrow> (None, st')
      | (True, st') \<Rightarrow>
          (case values of
             None \<Rightarrow> (None, st')
           | Some (l, r) \<Rightarrow> push_pairs c rest ((l, r, path) # pairs) st'))"

definition both_read :: "hprop \<Rightarrow> hprop \<Rightarrow> (hval \<times> hval) option" where
  "both_read p q = (case (p, q) of (Reads l, Reads r) \<Rightarrow> Some (l, r) | _ \<Rightarrow> None)"

definition both_found :: "own_value \<Rightarrow> own_value \<Rightarrow> (hval \<times> hval) option" where
  "both_found p q = (case (p, q) of (Found l, Found r) \<Rightarrow> Some (l, r) | _ \<Rightarrow> None)"

text \<open>Comparing two arrays and two objects: the pairs to compare next, or \<open>None\<close> for \<open>false\<close>.\<close>

definition array_pairs ::
  "compiled_plan \<Rightarrow> heap \<Rightarrow> hval \<Rightarrow> hval \<Rightarrow> segment list \<Rightarrow> vstate \<Rightarrow> equal_pair list option \<times> vstate" where
  "array_pairs c h l r path st =
     (case consumeOperation c path st of
        (False, st') \<Rightarrow> (None, st')
      | (True, st') \<Rightarrow>
          (case (safe_length (arr_length h l), safe_length (arr_length h r)) of
             (Some m, Some n) \<Rightarrow>
               if m > maxProperties (vc_limits c) \<or> n > maxProperties (vc_limits c) then
                 (None,
                  add_issue_at c path ''maxProperties''
                    (js ''Collection contains more than '' @ nat_digits (maxProperties (vc_limits c)) @ js '' items.'') st')
               else if m \<noteq> n then (None, st')
               else
                 push_pairs c
                   (map (\<lambda>i. (path @ [PIndex i], both_read (arr_item h l i) (arr_item h r i))) (rev [0..<m])) [] st'
           | _ \<Rightarrow> (None, st')))"

text \<open>The names are compared in the same loop, before the operation is counted.\<close>

fun agreeing_names :: "jstring list \<Rightarrow> jstring list \<Rightarrow> jstring list" where
  "agreeing_names (k # ks) (k' # ks') = (if k = k' then k # agreeing_names ks ks' else [])"
| "agreeing_names _ _ = []"

definition object_pairs ::
  "compiled_plan \<Rightarrow> heap \<Rightarrow> hval \<Rightarrow> hval \<Rightarrow> segment list \<Rightarrow> vstate \<Rightarrow> equal_pair list option \<times> vstate" where
  "object_pairs c h l r path st =
     (if \<not> isPlainObject h l \<or> \<not> isPlainObject h r then (None, st)
      else
        (case readKeys c h l path st of
           (leftKeys, st1) \<Rightarrow>
             (case readKeys c h r path st1 of
                (rightKeys, st2) \<Rightarrow>
                  (case (leftKeys, rightKeys) of
                     (Inr lks, Inr rks) \<Rightarrow>
                       if length lks \<noteq> length rks then (None, st2)
                       else
                         let agreeing = agreeing_names (rev lks) (rev rks) in
                         (case push_pairs c
                                 (map (\<lambda>k. (path @ [PKey k], both_found (readOwnValue h l k) (readOwnValue h r k))) agreeing)
                                 [] st2 of
                            (pushed, st3) \<Rightarrow> (if agreeing = rev lks then pushed else None, st3))
                   | _ \<Rightarrow> (None, st2)))))"

end
