(* ===== verification/Validation_Eval.thy ===== *)
theory Validation_Eval
  imports Validation_Issues
begin

text \<open>
  The evaluator of compiled plans (\<open>evaluateValidationPlan\<close> of
  \<open>packages/core/src/validation/plan.ts\<close>). \<open>evaluate\<close> recurses one level deeper for every nested
  plan and stops above \<open>maxDepth\<close>; the functions for the kinds of plans take the evaluator of the next
  level as an argument.
\<close>

section \<open>Equality with a literal\<close>

lemma consume_operations:
  "vs_operations (snd (consumeOperation c path st)) =
     (if fst (consumeOperation c path st) then vs_operations st + 1 else vs_operations st)"
  "fst (consumeOperation c path st) \<Longrightarrow> vs_operations st < maxOperations (vc_limits c)"
  by (auto simp: consumeOperation_def split: if_splits)

lemma consume_Pair:
  "consumeOperation c path st = (b, st') \<Longrightarrow> vs_operations st \<le> vs_operations st' \<and>
     (b \<longrightarrow> vs_operations st' = vs_operations st + 1 \<and> vs_operations st < maxOperations (vc_limits c))"
  using consume_operations [of c path st] by auto

lemma add_issue_operations [simp]: "vs_operations (add_issue_at c path code msg st) = vs_operations st"
  by (simp add: add_issue_at_def Let_def split: option.split)

lemma read_keys_loop_operations: "vs_operations st \<le> vs_operations (snd (read_keys_loop c path ks keys st))"
proof (induction ks arbitrary: keys st)
  case (Cons k ks)
  obtain b st' where "consumeOperation c (path @ [PKey k]) st = (b, st')" by (cases "consumeOperation c (path @ [PKey k]) st")
  with consume_Pair [OF this] Cons.IH [of st' "keys @ [k]"] show ?case by (cases b) auto
qed simp

lemma readKeys_operations: "vs_operations st \<le> vs_operations (snd (readKeys c h v path st))"
proof -
  obtain b st' where st': "consumeOperation c path st = (b, st')" by (cases "consumeOperation c path st")
  have "vs_operations st' \<le> vs_operations (snd (read_keys_loop c path ks [] st'))" for ks
    by (rule read_keys_loop_operations)
  with consume_Pair [OF st'] show ?thesis
    by (auto simp: readKeys_def st' intro: order_trans split: option.split bool.split)
qed

lemma push_pairs_operations: "vs_operations st \<le> vs_operations (snd (push_pairs c items pairs st))"
proof (induction c items pairs st rule: push_pairs.induct)
  case (2 c path vals rest pairs st)
  obtain b st' where st': "consumeOperation c path st = (b, st')" by (cases "consumeOperation c path st")
  with consume_Pair [OF st'] 2 show ?case
    by (cases b) (auto split: option.split intro: order_trans)
qed simp

lemma pairs_operations:
  "vs_operations st \<le> vs_operations (snd (array_pairs c h l r path st))"
  "vs_operations st \<le> vs_operations (snd (object_pairs c h l r path st))"
proof -
  obtain b st' where st': "consumeOperation c path st = (b, st')" by (cases "consumeOperation c path st")
  have "vs_operations st' \<le> vs_operations (snd (push_pairs c items [] st'))" for items
    by (rule push_pairs_operations)
  with consume_Pair [OF st'] show "vs_operations st \<le> vs_operations (snd (array_pairs c h l r path st))"
    by (auto simp: array_pairs_def st' intro: order_trans split: option.split bool.split)
  obtain lk st1 where lk: "readKeys c h l path st = (lk, st1)" by (cases "readKeys c h l path st")
  obtain rk st2 where rk: "readKeys c h r path st1 = (rk, st2)" by (cases "readKeys c h r path st1")
  have "vs_operations st \<le> vs_operations st2"
    using readKeys_operations [of st c h l path] readKeys_operations [of st1 c h r path] lk rk by simp
  moreover have "vs_operations st2 \<le> vs_operations (snd (push_pairs c items [] st2))" for items
    by (rule push_pairs_operations)
  ultimately show "vs_operations st \<le> vs_operations (snd (object_pairs c h l r path st))"
    by (auto simp: object_pairs_def lk rk Let_def split_beta intro: order_trans split: sum.split)
qed

definition next_pairs ::
  "compiled_plan \<Rightarrow> heap \<Rightarrow> hval \<Rightarrow> hval \<Rightarrow> segment list \<Rightarrow> vstate \<Rightarrow> equal_pair list option \<times> vstate" where
  "next_pairs c h l r path st =
     (if safeIsArray h l then array_pairs c h l r path st else object_pairs c h l r path st)"

lemma next_pairs_operations: "next_pairs c h l r path st = (p, st') \<Longrightarrow> vs_operations st \<le> vs_operations st'"
  using pairs_operations [of st c h l r path] by (auto simp: next_pairs_def split: if_splits)

text \<open>
  Every turn of the loop counts an operation, so it ends. \<open>seen\<close> maps the objects on the left to those
  they were compared with.
\<close>

function deep_loop ::
  "compiled_plan \<Rightarrow> heap \<Rightarrow> (hval, hval) jmap \<Rightarrow> equal_pair list \<Rightarrow> step" where
  "deep_loop c h seen [] st = (True, st)"
| "deep_loop c h seen ((l, r, path) # pending) st =
     (case consumeOperation c path st of
        (False, st1) \<Rightarrow> (False, st1)
      | (True, st1) \<Rightarrow>
          if object_is l r then deep_loop c h seen pending st1
          else if \<not> is_ref l \<or> \<not> is_ref r then (False, st1)
          else if safeIsArray h l \<noteq> safeIsArray h r then (False, st1)
          else
            (case jm_get seen l of
               Some previous \<Rightarrow>
                 if \<not> h_strict_eq previous r then (False, st1) else deep_loop c h seen pending st1
             | None \<Rightarrow>
                 (case next_pairs c h l r path st1 of
                    (None, st2) \<Rightarrow> (False, st2)
                  | (Some pairs, st2) \<Rightarrow> deep_loop c h (jm_set l r seen) (pairs @ pending) st2)))"
  by pat_completeness auto
termination
  by (relation "measure (\<lambda>(c, _, _, _, st). maxOperations (vc_limits c) - vs_operations st)")
    (auto dest!: consume_Pair [OF sym] next_pairs_operations [OF sym])

declare deep_loop.simps [simp del]

definition deepEqual :: "compiled_plan \<Rightarrow> heap \<Rightarrow> hval \<Rightarrow> hval \<Rightarrow> segment list \<Rightarrow> step" where
  "deepEqual c h l r path = deep_loop c h [] [(l, r, path)]"


section \<open>Plan nodes\<close>

text \<open>
  The nodes of a plan by their kind (\<open>ValidationNode\<close> in \<open>validation/types.ts\<close>) with the fields the
  evaluator reads; nested plans are values of the heap. \<open>node_of\<close> reads a plan object. For a plan the
  compiler has accepted every field it reads has the type the node needs; for others the reading falls
  back on an absent field, which is no claim about the code.
\<close>

datatype vnode =
    AnyPlan | NeverPlan | NullPlan | BooleanPlan
  | StringPlan "nat option" "nat option" bool "jstring option"
  | NumberPlan bool "jnum option" "jnum option" "jnum option" "jnum option" "jnum option"
  | LiteralPlan hval
  | EnumPlan "hval list"
  | ArrayPlan "hval option" "hval list" "nat option" "nat option"
  | TuplePlan "hval list" "hval option"
  | ObjectPlan "(jstring \<times> hval) list" "jstring list" "hval option"
  | UnionPlan "hval list" bool
  | IntersectionPlan "hval list"
  | RefPlan jstring
  | UnsupportedPlan

definition value_at :: "heap \<Rightarrow> hval \<Rightarrow> string \<Rightarrow> hval" where
  "value_at h v name = (case obj_prop h v (js name) of Reads x \<Rightarrow> x | Throws \<Rightarrow> HUndef)"

definition opt_value :: "hval \<Rightarrow> hval option" where
  "opt_value v = (if v = HUndef then None else Some v)"

definition opt_count :: "hval \<Rightarrow> nat option" where
  "opt_count v = safe_length (Reads v)"

definition opt_number :: "hval \<Rightarrow> jnum option" where
  "opt_number v = (case v of HNum n \<Rightarrow> Some n | _ \<Rightarrow> None)"

definition opt_string :: "hval \<Rightarrow> jstring option" where
  "opt_string v = (case v of HStr s \<Rightarrow> Some s | _ \<Rightarrow> None)"

definition elements_of :: "heap \<Rightarrow> hval \<Rightarrow> hval list" where
  "elements_of h v = (case arr_elements h v of Inr vs \<Rightarrow> vs | Inl _ \<Rightarrow> [])"

definition fields_of :: "heap \<Rightarrow> hval \<Rightarrow> (jstring \<times> hval) list" where
  "fields_of h v =
     (case own_keys h v of
        None \<Rightarrow> []
      | Some ks \<Rightarrow> map (\<lambda>k. (k, case obj_prop h v k of Reads x \<Rightarrow> x | Throws \<Rightarrow> HUndef)) ks)"

definition node_of :: "heap \<Rightarrow> hval \<Rightarrow> vnode" where
  "node_of h plan =
     (let get = value_at h plan in
      case get ''kind'' of
        HStr kind \<Rightarrow>
          if kind = js ''any'' then AnyPlan
          else if kind = js ''never'' then NeverPlan
          else if kind = js ''null'' then NullPlan
          else if kind = js ''boolean'' then BooleanPlan
          else if kind = js ''string'' then
            StringPlan (opt_count (get ''minLength'')) (opt_count (get ''maxLength''))
              (get ''pattern'' \<noteq> HUndef) (opt_string (get ''format''))
          else if kind = js ''number'' \<or> kind = js ''integer'' then
            NumberPlan (kind = js ''integer'') (opt_number (get ''minimum'')) (opt_number (get ''maximum''))
              (opt_number (get ''exclusiveMinimum'')) (opt_number (get ''exclusiveMaximum''))
              (opt_number (get ''multipleOf''))
          else if kind = js ''literal'' then LiteralPlan (get ''value'')
          else if kind = js ''enum'' then EnumPlan (elements_of h (get ''values''))
          else if kind = js ''array'' then
            ArrayPlan (opt_value (get ''items'')) (elements_of h (get ''prefixItems''))
              (opt_count (get ''minItems'')) (opt_count (get ''maxItems''))
          else if kind = js ''tuple'' then
            TuplePlan (elements_of h (get ''items''))
              (if get ''rest'' = HBool False then None else opt_value (get ''rest''))
          else if kind = js ''object'' then
            ObjectPlan (fields_of h (get ''properties''))
              (concat (map (\<lambda>v. case v of HStr s \<Rightarrow> [s] | _ \<Rightarrow> []) (elements_of h (get ''required''))))
              (opt_value (get ''additionalProperties''))
          else if kind = js ''union'' then UnionPlan (elements_of h (get ''anyOf'')) (get ''oneOf'' = HBool True)
          else if kind = js ''oneOf'' then UnionPlan (elements_of h (get ''anyOf'')) True
          else if kind = js ''intersection'' then IntersectionPlan (elements_of h (get ''allOf''))
          else if kind = js ''ref'' then
            (case get (if \<not> h_nullish (get ''name'') then ''name'' else ''ref'') of
               HStr s \<Rightarrow> RefPlan s | _ \<Rightarrow> UnsupportedPlan)
          else UnsupportedPlan
      | _ \<Rightarrow> UnsupportedPlan)"

section \<open>Numbers and strings\<close>

text \<open>A decimal text as BigInt coefficient and power of ten.\<close>

definition signed_digits :: "jstring \<Rightarrow> int" where
  "signed_digits s =
     (if take 1 s = js ''-'' then - int (nat_of_digits (drop 1 s))
      else if take 1 s = js ''+'' then int (nat_of_digits (drop 1 s))
      else int (nat_of_digits s))"

definition decimalParts :: "jnum \<Rightarrow> int \<times> int" where
  "decimalParts n =
     (let source = num_string n;
          mantissa = takeWhile (\<lambda>c. c \<noteq> 0x65) source;
          exponentText = drop 1 (dropWhile (\<lambda>c. c \<noteq> 0x65) source);
          exponent = (if exponentText = [] then 0 else signed_digits exponentText);
          negative = (take 1 mantissa = js ''-'');
          unsigned = (if negative \<or> take 1 mantissa = js ''+'' then drop 1 mantissa else mantissa);
          whole = takeWhile (\<lambda>c. c \<noteq> 0x2E) unsigned;
          fraction = drop 1 (dropWhile (\<lambda>c. c \<noteq> 0x2E) unsigned);
          coefficient = int (nat_of_digits (whole @ fraction))
      in (if negative then - coefficient else coefficient, exponent - int (length fraction)))"

text \<open>The quotient is compared with the nearest integer in doubles; an infinite one is refused.\<close>

definition near_integer :: "jnum \<Rightarrow> jnum \<Rightarrow> bool" where
  "near_integer value multipleOf =
     (case (double_of value, double_of multipleOf) of
        (Some v, Some m) \<Rightarrow>
          (case (if m = 0 then None else to_double (v / m)) of
             None \<Rightarrow> False
           | Some quot \<Rightarrow>
               let nearest = of_int \<lfloor>quot + 1 / 2\<rfloor>
               in (case (to_double \<bar>quot - nearest\<bar>, to_double (1 / 10 ^ 7)) of
                     (Some difference, Some bound) \<Rightarrow> difference \<le> min bound (pow2 (- 52) * max 1 \<bar>quot\<bar> * 8)
                   | _ \<Rightarrow> False))
      | _ \<Rightarrow> False)"

definition isMultipleOf :: "jnum \<Rightarrow> jnum \<Rightarrow> bool" where
  "isMultipleOf value multipleOf =
     (if num_is_safe_integer value \<and> num_is_safe_integer multipleOf
      then \<lfloor>num_val value\<rfloor> mod \<lfloor>num_val multipleOf\<rfloor> = 0
      else
        let (lc, lp) = decimalParts value; (rc, rp) = decimalParts multipleOf; difference = lp - rp;
            numerator = (if 0 \<le> difference then lc * 10 ^ nat difference else lc);
            denominator = (if 0 \<le> difference then rc else rc * 10 ^ nat (- difference))
        in if denominator = 0 then False
           else if numerator mod denominator = 0 then True
           else near_integer value multipleOf)"

text \<open>An optional bound: its check in order, so that issues come in the order of the code.\<close>

definition bound_check ::
  "compiled_plan \<Rightarrow> segment list \<Rightarrow> 'a option \<Rightarrow> ('a \<Rightarrow> bool) \<Rightarrow> string \<Rightarrow> ('a \<Rightarrow> jstring) \<Rightarrow> step" where
  "bound_check c path limit violated code msg st =
     (case limit of
        None \<Rightarrow> (True, st)
      | Some l \<Rightarrow> if violated l then fail_with c path code (msg l) st else (True, st))"

text \<open>Both checks run; the result says whether both passed.\<close>

definition both :: "step \<Rightarrow> step \<Rightarrow> step" where
  "both f g st = (let (a, st1) = f st; (b, st2) = g st1 in (a \<and> b, st2))"

definition evaluateNumber ::
  "compiled_plan \<Rightarrow> heap \<Rightarrow> bool \<Rightarrow> jnum option \<Rightarrow> jnum option \<Rightarrow> jnum option \<Rightarrow> jnum option \<Rightarrow> jnum option \<Rightarrow>
   hval \<Rightarrow> segment list \<Rightarrow> step" where
  "evaluateNumber c h integer minimum maximum exMinimum exMaximum multipleOf v path st =
     (case (case v of HNum n \<Rightarrow> if num_finite n \<and> (integer \<longrightarrow> num_is_integer n) then Some n else None | _ \<Rightarrow> None) of
        None \<Rightarrow> (False, addTypeIssue c h path (if integer then ''integer'' else ''number'') v st)
      | Some n \<Rightarrow>
          both (bound_check c path minimum (num_less n) ''minimum''
                  (\<lambda>m. js ''Value must be at least '' @ num_string m @ js ''.''))
         (both (bound_check c path maximum (\<lambda>m. num_less m n) ''maximum''
                  (\<lambda>m. js ''Value must be at most '' @ num_string m @ js ''.''))
         (both (bound_check c path exMinimum (\<lambda>m. \<not> num_less m n) ''exclusiveMinimum''
                  (\<lambda>m. js ''Value must be greater than '' @ num_string m @ js ''.''))
         (both (bound_check c path exMaximum (\<lambda>m. \<not> num_less n m) ''exclusiveMaximum''
                  (\<lambda>m. js ''Value must be less than '' @ num_string m @ js ''.''))
               (bound_check c path multipleOf (\<lambda>m. \<not> isMultipleOf n m) ''multipleOf''
                  (\<lambda>m. js ''Value must be a multiple of '' @ num_string m @ js ''.''))))) st)"

text \<open>One operation per code point; \<open>None\<close> when the operations run out.\<close>

fun count_points :: "compiled_plan \<Rightarrow> segment list \<Rightarrow> nat list \<Rightarrow> step" where
  "count_points c path [] st = (True, st)"
| "count_points c path (_ # points) st =
     (case consumeOperation c path st of
        (False, st') \<Rightarrow> (False, st')
      | (True, st') \<Rightarrow> count_points c path points st')"

definition pattern_check ::
  "validation_platform \<Rightarrow> compiled_plan \<Rightarrow> hval \<Rightarrow> bool \<Rightarrow> jstring \<Rightarrow> segment list \<Rightarrow> step" where
  "pattern_check vp c plan present s path st =
     (if \<not> present then (True, st)
      else
        (case Option.bind (jm_get (vc_patterns c) (ref_addr plan)) (vp_regex vp) of
           None \<Rightarrow> fail_with c path ''pattern'' (js ''Pattern could not be evaluated.'') st
         | Some test \<Rightarrow>
             if test s then (True, st)
             else fail_with c path ''pattern'' (js ''String does not match the required pattern.'') st))"

definition evaluateString ::
  "validation_platform \<Rightarrow> compiled_plan \<Rightarrow> heap \<Rightarrow> hval \<Rightarrow> nat option \<Rightarrow> nat option \<Rightarrow> bool \<Rightarrow> jstring option \<Rightarrow>
   hval \<Rightarrow> segment list \<Rightarrow> step" where
  "evaluateString vp c h plan minLength maxLength hasPattern format v path st =
     (case v of
        HStr s \<Rightarrow>
          (let points = code_points s; n = length points in
           case count_points c path points st of
             (False, st') \<Rightarrow> (False, st')
           | (True, st') \<Rightarrow>
               both (bound_check c path minLength (\<lambda>m. n < m) ''minLength''
                       (\<lambda>m. js ''String must contain at least '' @ nat_digits m @ js '' characters.''))
              (both (bound_check c path maxLength (\<lambda>m. m < n) ''maxLength''
                       (\<lambda>m. js ''String must contain at most '' @ nat_digits m @ js '' characters.''))
              (both (pattern_check vp c plan hasPattern s path)
                    (bound_check c path format (\<lambda>f. \<not> validateValidationFormat (vp_protocol vp) s f) ''format''
                       (\<lambda>f. js ''String does not match the '' @ f @ js '' format.'')))) st')
      | _ \<Rightarrow> (False, addTypeIssue c h path ''string'' v st))"

end
