(* ===== verification/Validation_Evaluate.thy ===== *)
theory Validation_Evaluate
  imports Validation_Eval
begin

text \<open>
  The compound plans, references, and \<open>evaluate\<close> itself (the rest of
  \<open>packages/core/src/validation/plan.ts\<close>), with the validators built on it
  (\<open>packages/core/src/validation/validator.ts\<close>). \<open>ev\<close> is \<open>evaluate\<close> one level deeper.
\<close>

type_synonym evaluator = "hval \<Rightarrow> hval \<Rightarrow> segment list \<Rightarrow> step"

section \<open>Objects\<close>

definition required_step :: "compiled_plan \<Rightarrow> heap \<Rightarrow> hval \<Rightarrow> segment list \<Rightarrow> jstring \<Rightarrow> vstate \<Rightarrow> bool option \<times> vstate" where
  "required_step c h v path key =
     counted c (path @ [PKey key])
       (\<lambda>st. case has_own h v key of
               None \<Rightarrow> result_of (fail_with c (path @ [PKey key]) ''read'' (js ''Property could not be inspected.'')) st
             | Some True \<Rightarrow> (Some True, st)
             | Some False \<Rightarrow>
                 result_of (fail_with c (path @ [PKey key]) ''required''
                   (js ''Required property '' @ displayValidationKey key @ js '' is missing.'')) st)"

definition property_step ::
  "compiled_plan \<Rightarrow> heap \<Rightarrow> evaluator \<Rightarrow> hval \<Rightarrow> segment list \<Rightarrow> jstring \<times> hval \<Rightarrow> vstate \<Rightarrow> bool option \<times> vstate" where
  "property_step c h ev v path = (\<lambda>(key, plan).
     counted c (path @ [PKey key])
       (\<lambda>st. case readOwnValue h v key of
               NotFound \<Rightarrow> (Some True, st)
             | Threw \<Rightarrow> result_of (fail_with c (path @ [PKey key]) ''read'' (js ''Property could not be read.'')) st
             | Found x \<Rightarrow> result_of (ev plan x (path @ [PKey key])) st))"

definition additional_step ::
  "compiled_plan \<Rightarrow> heap \<Rightarrow> evaluator \<Rightarrow> hval \<Rightarrow> hval \<Rightarrow> segment list \<Rightarrow> jstring \<Rightarrow> vstate \<Rightarrow> bool option \<times> vstate" where
  "additional_step c h ev additional v path key =
     result_of
       (if additional = HBool False then
          fail_with c (path @ [PKey key]) ''additionalProperties''
            (js ''Additional property '' @ displayValidationKey key @ js '' is not allowed.'')
        else
          (case readOwnValue h v key of
             Found x \<Rightarrow> ev additional x (path @ [PKey key])
           | _ \<Rightarrow> fail_with c (path @ [PKey key]) ''read'' (js ''Property could not be read.'')))"

definition additional_properties ::
  "compiled_plan \<Rightarrow> heap \<Rightarrow> evaluator \<Rightarrow> jstring list \<Rightarrow> hval option \<Rightarrow> hval \<Rightarrow> segment list \<Rightarrow> step" where
  "additional_properties c h ev propertyNames additional v path st =
     (case additional of
        None \<Rightarrow> (True, st)
      | Some extra \<Rightarrow>
          if extra = HBool True then (True, st)
          else
            (case readKeys c h v path st of
               (Inl KeysRead, st1) \<Rightarrow> fail_with c path ''read'' (js ''Object properties could not be enumerated.'') st1
             | (Inl _, st1) \<Rightarrow> (False, st1)
             | (Inr keys, st1) \<Rightarrow>
                 each (additional_step c h ev extra v path) (filter (\<lambda>key. key \<notin> set propertyNames) keys) st1))"

definition evaluateObject ::
  "compiled_plan \<Rightarrow> heap \<Rightarrow> evaluator \<Rightarrow> (jstring \<times> hval) list \<Rightarrow> jstring list \<Rightarrow> hval option \<Rightarrow> hval \<Rightarrow> segment list \<Rightarrow> step" where
  "evaluateObject c h ev properties required additional v path st =
     (if \<not> isPlainObject h v then (False, addTypeIssue c h path ''object'' v st)
      else
        within_value c v path
          (both (each (required_step c h v path) (sort required))
          (both (each (property_step c h ev v path) (sort_key fst properties))
                (additional_properties c h ev (map fst properties) additional v path))) st)"

section \<open>Arrays and tuples\<close>

text \<open>One item of an array: counted, read, and evaluated.\<close>

definition item_step ::
  "compiled_plan \<Rightarrow> heap \<Rightarrow> evaluator \<Rightarrow> hval \<Rightarrow> segment list \<Rightarrow> nat \<times> hval \<Rightarrow> vstate \<Rightarrow> bool option \<times> vstate" where
  "item_step c h ev v path = (\<lambda>(index, plan).
     counted c (path @ [PIndex index])
       (result_of
          (case arr_item h v index of
             Throws \<Rightarrow> fail_with c (path @ [PIndex index]) ''read'' (js ''Array item could not be read.'')
           | Reads x \<Rightarrow> ev plan x (path @ [PIndex index]))))"

definition rest_step ::
  "compiled_plan \<Rightarrow> heap \<Rightarrow> evaluator \<Rightarrow> hval option \<Rightarrow> hval \<Rightarrow> segment list \<Rightarrow> nat \<Rightarrow> vstate \<Rightarrow> bool option \<times> vstate" where
  "rest_step c h ev items v path index =
     (case items of
        None \<Rightarrow> counted c (path @ [PIndex index]) (\<lambda>st. (Some True, st))
      | Some plan \<Rightarrow>
          if plan = HBool False then
            counted c (path @ [PIndex index])
              (result_of (fail_with c (path @ [PIndex index]) ''items'' (js ''Additional array items are not allowed.'')))
          else if plan = HBool True then counted c (path @ [PIndex index]) (\<lambda>st. (Some True, st))
          else item_step c h ev v path (index, plan))"

definition with_length :: "compiled_plan \<Rightarrow> heap \<Rightarrow> hval \<Rightarrow> segment list \<Rightarrow> (nat \<Rightarrow> step) \<Rightarrow> step" where
  "with_length c h v path body st =
     (case readArrayLength c h v path st of (None, st') \<Rightarrow> (False, st') | (Some n, st') \<Rightarrow> body n st')"

definition evaluateArray ::
  "compiled_plan \<Rightarrow> heap \<Rightarrow> evaluator \<Rightarrow> hval option \<Rightarrow> hval list \<Rightarrow> nat option \<Rightarrow> nat option \<Rightarrow> hval \<Rightarrow> segment list \<Rightarrow> step" where
  "evaluateArray c h ev items prefixItems minItems maxItems v path st =
     (if \<not> safeIsArray h v then (False, addTypeIssue c h path ''array'' v st)
      else
        within_value c v path
          (with_length c h v path (\<lambda>n.
             both (bound_check c path minItems (\<lambda>m. n < m) ''minItems''
                     (\<lambda>m. js ''Array must contain at least '' @ nat_digits m @ js '' items.''))
            (both (bound_check c path maxItems (\<lambda>m. m < n) ''maxItems''
                     (\<lambda>m. js ''Array must contain at most '' @ nat_digits m @ js '' items.''))
            (both (each (item_step c h ev v path) (take n (zip [0..<length prefixItems] prefixItems)))
                  (each (rest_step c h ev items v path) [length prefixItems..<n]))))) st)"

definition tuple_step ::
  "compiled_plan \<Rightarrow> heap \<Rightarrow> evaluator \<Rightarrow> nat \<Rightarrow> hval \<Rightarrow> segment list \<Rightarrow> nat \<times> hval \<Rightarrow> vstate \<Rightarrow> bool option \<times> vstate" where
  "tuple_step c h ev n v path = (\<lambda>(index, plan).
     if index \<ge> n then
       counted c (path @ [PIndex index])
         (result_of (fail_with c (path @ [PIndex index]) ''required'' (js ''Tuple item is missing.'')))
     else item_step c h ev v path (index, plan))"

definition evaluateTuple ::
  "compiled_plan \<Rightarrow> heap \<Rightarrow> evaluator \<Rightarrow> hval list \<Rightarrow> hval option \<Rightarrow> hval \<Rightarrow> segment list \<Rightarrow> step" where
  "evaluateTuple c h ev items rest v path st =
     (if \<not> safeIsArray h v then (False, addTypeIssue c h path ''array'' v st)
      else
        within_value c v path
          (with_length c h v path (\<lambda>n.
             both (each (tuple_step c h ev n v path) (zip [0..<length items] items))
               (\<lambda>st.
                  if n \<le> length items then (True, st)
                  else
                    (case rest of
                       None \<Rightarrow>
                         fail_with c (path @ [PIndex (length items)]) ''tuple''
                           (js ''Tuple contains more items than expected.'') st
                     | Some plan \<Rightarrow>
                         each (\<lambda>index. item_step c h ev v path (index, plan)) [length items..<n] st)))) st)"

section \<open>Unions, intersections and references\<close>

text \<open>The number of branches that match; the loop stops when the operations run out.\<close>

fun count_matches ::
  "compiled_plan \<Rightarrow> evaluator \<Rightarrow> hval \<Rightarrow> segment list \<Rightarrow> hval list \<Rightarrow> nat \<Rightarrow> vstate \<Rightarrow> nat \<times> vstate" where
  "count_matches c ev v path [] matches st = (matches, st)"
| "count_matches c ev v path (branch # branches) matches st =
     (case consumeOperation c path st of
        (False, st1) \<Rightarrow> (matches, st1)
      | (True, st1) \<Rightarrow>
          (case withCollector (ev branch v path) st1 of
             (branchValid, st2) \<Rightarrow>
               count_matches c ev v path branches (if branchValid then matches + 1 else matches) st2))"

definition evaluateUnion ::
  "compiled_plan \<Rightarrow> evaluator \<Rightarrow> hval list \<Rightarrow> bool \<Rightarrow> hval \<Rightarrow> segment list \<Rightarrow> step" where
  "evaluateUnion c ev anyOf oneOf v path st =
     (case count_matches c ev v path anyOf 0 st of
        (matches, st1) \<Rightarrow>
          if (\<not> oneOf \<and> matches > 0) \<or> (oneOf \<and> matches = 1) then (True, st1)
          else
            fail_with c path (if oneOf then ''oneOf'' else ''union'')
              (if oneOf then
                 (if matches = 0 then js ''Value must match exactly one schema.''
                  else js ''Value matches more than one schema.'')
               else js ''Value must match at least one schema.'') st1)"

definition evaluateIntersection ::
  "compiled_plan \<Rightarrow> evaluator \<Rightarrow> hval list \<Rightarrow> hval \<Rightarrow> segment list \<Rightarrow> step" where
  "evaluateIntersection c ev allOf v path =
     each (\<lambda>branch. counted c path (result_of (ev branch v path))) allOf"

text \<open>Every occurrence of a text of two units is replaced, from left to right.\<close>

fun replace2 :: "16 word \<Rightarrow> 16 word \<Rightarrow> 16 word \<Rightarrow> jstring \<Rightarrow> jstring" where
  "replace2 a b r (x # y # s) = (if x = a \<and> y = b then r # replace2 a b r s else x # replace2 a b r (y # s))"
| "replace2 a b r s = s"

definition normalizeReference :: "validation_platform \<Rightarrow> jstring \<Rightarrow> jstring" where
  "normalizeReference vp reference =
     (case find (\<lambda>p. starts_with p reference) [js ''#/$defs/'', js ''#/definitions/''] of
        None \<Rightarrow> reference
      | Some p \<Rightarrow>
          (case vp_decode vp (drop (length p) reference) of
             None \<Rightarrow> reference
           | Some s \<Rightarrow> replace2 0x7E 0x30 0x7E (replace2 0x7E 0x31 0x2F s)))"

definition sameReferenceValue :: "hval \<Rightarrow> hval \<Rightarrow> bool" where
  "sameReferenceValue l r = (if is_ref l \<or> is_ref r then l = r else object_is l r)"

definition ref_target :: "compiled_plan \<Rightarrow> jstring \<Rightarrow> hval option" where
  "ref_target c reference =
     (if reference = js ''#'' then Some (vc_root c) else jm_get (vc_definitions c) reference)"

definition within_ref :: "jstring \<Rightarrow> hval \<Rightarrow> step \<Rightarrow> step" where
  "within_ref reference v body st =
     (let (b, st') = body (st\<lparr>vs_refs := vs_refs st @ [(reference, v)]\<rparr>)
      in (b, st'\<lparr>vs_refs := butlast (vs_refs st')\<rparr>))"

definition evaluateReference ::
  "validation_platform \<Rightarrow> compiled_plan \<Rightarrow> evaluator \<Rightarrow> jstring \<Rightarrow> hval \<Rightarrow> segment list \<Rightarrow> step" where
  "evaluateReference vp c ev name v path st =
     (case consumeOperation c path st of
        (False, st1) \<Rightarrow> (False, st1)
      | (True, st1) \<Rightarrow>
          let reference = normalizeReference vp name in
          (case ref_target c reference of
             None \<Rightarrow>
               fail_with c path ''ref'' (js ''Unknown validation reference '' @ json_quote reference @ js ''.'') st1
           | Some target \<Rightarrow>
               if list_ex (\<lambda>(n, x). n = reference \<and> sameReferenceValue x v) (vs_refs st1) then
                 if is_ref v \<and> ref_addr v \<in> set (vs_active st1)
                 then fail_with c path ''cycle'' (js ''Cyclic value encountered during validation.'') st1
                 else fail_with c path ''refCycle'' (js ''Validation reference cycle did not consume a nested value.'') st1
               else within_ref reference v (ev target v path) st1))"

section \<open>The evaluator\<close>

fun enum_loop :: "compiled_plan \<Rightarrow> heap \<Rightarrow> hval \<Rightarrow> segment list \<Rightarrow> hval list \<Rightarrow> step" where
  "enum_loop c h v path [] st = fail_with c path ''enum'' (js ''Value is not one of the allowed values.'') st"
| "enum_loop c h v path (candidate # candidates) st =
     (case consumeOperation c path st of
        (False, st1) \<Rightarrow> (False, st1)
      | (True, st1) \<Rightarrow>
          (case deepEqual c h candidate v path st1 of
             (True, st2) \<Rightarrow> (True, st2)
           | (False, st2) \<Rightarrow> enum_loop c h v path candidates st2))"

definition evaluateLiteral :: "compiled_plan \<Rightarrow> heap \<Rightarrow> hval \<Rightarrow> hval \<Rightarrow> segment list \<Rightarrow> step" where
  "evaluateLiteral c h literal v path st =
     (case deepEqual c h literal v path st of
        (True, st') \<Rightarrow> (True, st')
      | (False, st') \<Rightarrow> fail_with c path ''const'' (js ''Value does not equal the required literal.'') st')"

text \<open>The \<open>switch\<close> of \<open>evaluate\<close>.\<close>

definition evaluate_kind ::
  "validation_platform \<Rightarrow> heap \<Rightarrow> compiled_plan \<Rightarrow> evaluator \<Rightarrow> evaluator" where
  "evaluate_kind vp h c ev plan v path =
     (case node_of h plan of
        AnyPlan \<Rightarrow> Pair True
      | NeverPlan \<Rightarrow> fail_with c path ''never'' (js ''Value is not allowed.'')
      | NullPlan \<Rightarrow> (\<lambda>st. if v = HNull then (True, st) else (False, addTypeIssue c h path ''null'' v st))
      | BooleanPlan \<Rightarrow> (\<lambda>st. if is_bool v then (True, st) else (False, addTypeIssue c h path ''boolean'' v st))
      | StringPlan lo hi hasPattern format \<Rightarrow> evaluateString vp c h plan lo hi hasPattern format v path
      | NumberPlan integer lo hi elo ehi mul \<Rightarrow> evaluateNumber c h integer lo hi elo ehi mul v path
      | LiteralPlan literal \<Rightarrow> evaluateLiteral c h literal v path
      | EnumPlan candidates \<Rightarrow> enum_loop c h v path candidates
      | ArrayPlan items prefixItems lo hi \<Rightarrow> evaluateArray c h ev items prefixItems lo hi v path
      | TuplePlan items rest \<Rightarrow> evaluateTuple c h ev items rest v path
      | ObjectPlan properties required additional \<Rightarrow> evaluateObject c h ev properties required additional v path
      | UnionPlan branches oneOf \<Rightarrow> evaluateUnion c ev branches oneOf v path
      | IntersectionPlan branches \<Rightarrow> evaluateIntersection c ev branches v path
      | RefPlan name \<Rightarrow> evaluateReference vp c ev name v path
      | UnsupportedPlan \<Rightarrow> fail_with c path ''plan'' (js ''Unsupported validation plan kind.''))"

function evaluate ::
  "validation_platform \<Rightarrow> heap \<Rightarrow> compiled_plan \<Rightarrow> nat \<Rightarrow> hval \<Rightarrow> hval \<Rightarrow> segment list \<Rightarrow> vstate \<Rightarrow> bool \<times> vstate" where
  "evaluate vp h c depth plan v path st =
     (case consumeOperation c path st of
        (False, st1) \<Rightarrow> (False, st1)
      | (True, st1) \<Rightarrow>
          if is_bool plan then
            (if plan = HBool True then (True, st1)
             else fail_with c path ''never'' (js ''Value is not allowed.'') st1)
          else if h_truthy (value_at h plan ''optional'') \<and> v = HUndef then (True, st1)
          else if h_truthy (value_at h plan ''nullable'') \<and> v = HNull then (True, st1)
          else if depth > maxDepth (vc_limits c) then
            fail_with c path ''maxDepth'' (js ''Validation depth limit exceeded.'') st1
          else evaluate_kind vp h c (\<lambda>p x pa s. evaluate vp h c (Suc depth) p x pa s) plan v path st1)"
  by pat_completeness auto
termination
  by (relation "measure (\<lambda>(_, _, c, depth, _). Suc (maxDepth (vc_limits c)) - depth)") auto

declare evaluate.simps [simp del]

datatype validation_result = Valid hval | Invalid "issue list"

definition initial_state :: vstate where
  "initial_state = \<lparr>vs_primary = [], vs_branch = None, vs_active = [], vs_refs = [], vs_operations = 0,
     vs_limitReported = False\<rparr>"

definition evaluateValidationPlan ::
  "validation_platform \<Rightarrow> heap \<Rightarrow> compiled_plan \<Rightarrow> hval \<Rightarrow> validation_result" where
  "evaluateValidationPlan vp h c v =
     (case evaluate vp h c 0 (vc_root c) v [] initial_state of
        (True, st) \<Rightarrow> Valid v
      | (False, st) \<Rightarrow> Invalid (vs_primary st))"

definition validateWithPlan ::
  "validation_platform \<Rightarrow> heap \<Rightarrow> hval \<Rightarrow> hval \<Rightarrow> validation_options \<Rightarrow> (error_class, validation_result) result" where
  "validateWithPlan vp h plan v options =
     andThen (compileValidationPlan vp h plan options) (\<lambda>c. Inr (evaluateValidationPlan vp h c v))"

section \<open>Validators\<close>

text \<open>The three methods of a validator follow from what \<open>validate\<close> answers.\<close>

record flux_validator =
  fv_validate :: "hval \<Rightarrow> (error_class, validation_result) result"
  fv_is :: "hval \<Rightarrow> (error_class, bool) result"
  fv_assert :: "hval \<Rightarrow> (error_class \<times> issue list, hval) result"

definition is_valid :: "validation_result \<Rightarrow> bool" where
  "is_valid r = (case r of Valid _ \<Rightarrow> True | Invalid _ \<Rightarrow> False)"

definition assert_result ::
  "(error_class, validation_result) result \<Rightarrow> (error_class \<times> issue list, hval) result" where
  "assert_result r =
     (case r of
        Inl e \<Rightarrow> Inl (e, [])
      | Inr (Invalid issues) \<Rightarrow> Inl (ValidationError, issues)
      | Inr (Valid v) \<Rightarrow> Inr v)"

definition validator_of :: "(hval \<Rightarrow> (error_class, validation_result) result) \<Rightarrow> flux_validator" where
  "validator_of validate =
     \<lparr>fv_validate = validate,
      fv_is = (\<lambda>v. andThen (validate v) (\<lambda>r. Inr (is_valid r))),
      fv_assert = (\<lambda>v. assert_result (validate v))\<rparr>"

definition createValidator ::
  "validation_platform \<Rightarrow> heap \<Rightarrow> hval \<Rightarrow> validation_options \<Rightarrow> (error_class, flux_validator) result" where
  "createValidator vp h plan options =
     andThen (compileValidationPlan vp h plan options) (\<lambda>c.
       Inr (validator_of (\<lambda>v. Inr (evaluateValidationPlan vp h c v))))"

definition segment_of :: "hval \<Rightarrow> segment option" where
  "segment_of v = (case v of HStr s \<Rightarrow> Some (PKey s) | HNum n \<Rightarrow> Some (PNumber n) | _ \<Rightarrow> None)"

text \<open>\<open>Array.isArray\<close> throws for a revoked proxy, and reading the elements may throw.\<close>

definition isValidationPath :: "heap \<Rightarrow> hval \<Rightarrow> (error_class, segment list option) result" where
  "isValidationPath h v =
     (case js_isArray h v of
        None \<Rightarrow> Inl TypeError
      | Some False \<Rightarrow> Inr None
      | Some True \<Rightarrow> andThen (arr_elements h v) (\<lambda>vs. Inr (collect_options (map segment_of vs))))"

definition normalizeRefinementIssue :: "heap \<Rightarrow> hval \<Rightarrow> (error_class, issue) result" where
  "normalizeRefinementIssue h v =
     andThen (require (is_ref v)) (\<lambda>_.
     andThen (get_field h v ''path'') (\<lambda>path.
     andThen (isValidationPath h path) (\<lambda>segments.
     andThen (require (segments \<noteq> None)) (\<lambda>_.
     andThen (andThen (get_field h v ''code'') requireString) (\<lambda>code.
     andThen (andThen (get_field h v ''message'') requireString) (\<lambda>msg.
       Inr (createValidationIssue (the segments) code msg)))))))"

text \<open>A refinement is application code: it answers a value or throws.\<close>

definition refineValidator ::
  "heap \<Rightarrow> flux_validator \<Rightarrow> (hval \<Rightarrow> (error_class, hval) result) \<Rightarrow> flux_validator" where
  "refineValidator h validator refinement =
     validator_of (\<lambda>v.
       andThen (fv_validate validator v) (\<lambda>r.
         case r of
           Invalid issues \<Rightarrow> Inr (Invalid issues)
         | Valid x \<Rightarrow>
             andThen (refinement x) (\<lambda>issue.
               if h_nullish issue then Inr r
               else andThen (normalizeRefinementIssue h issue) (\<lambda>i. Inr (Invalid [i])))))"

definition prepareValidationPlan ::
  "validation_platform \<Rightarrow> heap \<Rightarrow> hval \<Rightarrow> validation_options \<Rightarrow> (error_class, compiled_plan) result" where
  "prepareValidationPlan vp h plan options = compileValidationPlan vp h plan options"

end
