(* ===== verification/Validation_Sound.thy ===== *)
theory Validation_Sound
  imports Validation_Evaluate
begin

text \<open>
  How an evaluation may change its state, whatever the value is: what a plan's evaluation leaves as it
  found it, that the counters and collectors only grow and stay within their bounds, and that a
  negative answer comes with an issue. The facts are proved once for any set of plans that is closed
  under nested plans and reference targets.
\<close>

section \<open>Plans that the evaluator supports\<close>

fun subplans :: "vnode \<Rightarrow> hval list" where
  "subplans (ArrayPlan items prefixItems _ _) = (case items of None \<Rightarrow> [] | Some p \<Rightarrow> [p]) @ prefixItems"
| "subplans (TuplePlan items rest) = items @ (case rest of None \<Rightarrow> [] | Some p \<Rightarrow> [p])"
| "subplans (ObjectPlan properties _ additional) =
     map snd properties @ (case additional of None \<Rightarrow> [] | Some p \<Rightarrow> [p])"
| "subplans (UnionPlan branches _) = branches"
| "subplans (IntersectionPlan branches) = branches"
| "subplans _ = []"

definition target_plans :: "validation_platform \<Rightarrow> compiled_plan \<Rightarrow> vnode \<Rightarrow> hval option" where
  "target_plans vp c node = (case node of RefPlan name \<Rightarrow> ref_target c (normalizeReference vp name) | _ \<Rightarrow> None)"

section \<open>The change of the state\<close>

definition growing :: "string set \<Rightarrow> issue list \<Rightarrow> issue list \<Rightarrow> bool" where
  "growing codes xs ys \<longleftrightarrow> (\<exists>zs. ys = xs @ zs \<and> is_code ` set zs \<subseteq> js ` codes)"

lemma growing_refl [simp]: "growing codes xs xs"
  by (simp add: growing_def)

lemma growing_trans: "growing codes xs ys \<Longrightarrow> growing codes ys zs \<Longrightarrow> growing codes xs zs"
  by (force simp: growing_def)

lemma growing_nonempty: "growing codes xs ys \<Longrightarrow> xs \<noteq> [] \<Longrightarrow> ys \<noteq> []"
  by (auto simp: growing_def)

lemma growing_collect: "is_code i \<in> js ` codes \<Longrightarrow> growing codes xs (collect_issue n i xs)"
  by (auto simp: growing_def collect_issue_def)

definition evolves :: "string set \<Rightarrow> compiled_plan \<Rightarrow> vstate \<Rightarrow> vstate \<Rightarrow> bool" where
  "evolves codes c st st' \<longleftrightarrow>
     vs_active st' = vs_active st \<and> vs_refs st' = vs_refs st \<and>
     growing codes (vs_primary st) (vs_primary st') \<and>
     (case vs_branch st of None \<Rightarrow> vs_branch st' = None
      | Some xs \<Rightarrow> (\<exists>ys. vs_branch st' = Some ys \<and> growing codes xs ys)) \<and>
     (length (vs_primary st) \<le> maxIssues (vc_limits c) \<longrightarrow> length (vs_primary st') \<le> maxIssues (vc_limits c)) \<and>
     vs_operations st \<le> vs_operations st' \<and>
     (vs_operations st \<le> maxOperations (vc_limits c) \<longrightarrow> vs_operations st' \<le> maxOperations (vc_limits c)) \<and>
     (vs_limitReported st \<longrightarrow> vs_limitReported st') \<and>
     (0 < maxIssues (vc_limits c) \<longrightarrow> (vs_limitReported st \<longrightarrow> vs_primary st \<noteq> []) \<longrightarrow>
        vs_limitReported st' \<longrightarrow> vs_primary st' \<noteq> [])"

lemma evolves_refl [simp]: "evolves codes c st st"
  by (auto simp: evolves_def split: option.split)

lemma evolves_trans [trans]: "evolves codes c st st1 \<Longrightarrow> evolves codes c st1 st2 \<Longrightarrow> evolves codes c st st2"
proof -
  assume *: "evolves codes c st st1" "evolves codes c st1 st2"
  have "case vs_branch st of None \<Rightarrow> vs_branch st2 = None
      | Some xs \<Rightarrow> (\<exists>ys. vs_branch st2 = Some ys \<and> growing codes xs ys)"
    using * [unfolded evolves_def, THEN conjunct2, THEN conjunct2, THEN conjunct2, THEN conjunct1]
    by (cases "vs_branch st") (auto split: option.splits dest: growing_trans)
  moreover have "growing codes (vs_primary st) (vs_primary st2)"
    using * [unfolded evolves_def, THEN conjunct2, THEN conjunct2, THEN conjunct1] by (blast intro: growing_trans)
  ultimately show "evolves codes c st st2"
    using * unfolding evolves_def by simp
qed

lemma length_collect: "length xs \<le> n \<Longrightarrow> length (collect_issue n i xs) \<le> n"
  by (simp add: collect_issue_def)

lemma collect_nonempty: "0 < n \<Longrightarrow> collect_issue n i xs \<noteq> []"
  by (auto simp: collect_issue_def)

lemma evolves_add: "code \<in> codes \<Longrightarrow> evolves codes c st (add_issue_at c path code msg st)"
  by (auto simp: evolves_def add_issue_at_def Let_def createValidationIssue_def length_collect collect_nonempty
      intro!: growing_collect split: option.split)

lemma evolves_then_add:
  "evolves codes c st st' \<Longrightarrow> code \<in> codes \<Longrightarrow> evolves codes c st (add_issue_at c path code msg st')"
  by (rule evolves_trans [OF _ evolves_add])

lemma evolves_consume: "''maxOperations'' \<in> codes \<Longrightarrow> evolves codes c st (snd (consumeOperation c path st))"
  by (auto simp: evolves_def consumeOperation_def createValidationIssue_def length_collect collect_nonempty
      intro!: growing_collect split: option.split)

lemma evolves_value:
  "evolves codes c (st\<lparr>vs_active := jset_add a (vs_active st)\<rparr>) st' \<Longrightarrow> a \<notin> set (vs_active st) \<Longrightarrow>
     evolves codes c st (st'\<lparr>vs_active := jset_delete a (vs_active st')\<rparr>)"
  by (auto simp: evolves_def jset_add_def jset_delete_def intro: filter_True split: option.splits)

lemma evolves_ref:
  "evolves codes c (st\<lparr>vs_refs := vs_refs st @ [f]\<rparr>) st' \<Longrightarrow> evolves codes c st (st'\<lparr>vs_refs := butlast (vs_refs st')\<rparr>)"
  by (auto simp: evolves_def split: option.splits)

lemma evolves_branch:
  "evolves codes c (st\<lparr>vs_branch := Some []\<rparr>) st' \<Longrightarrow> evolves codes c st (st'\<lparr>vs_branch := vs_branch st\<rparr>)"
  by (auto simp: evolves_def split: option.splits)

text \<open>A negative answer is explained by an issue of the collector in use, or by the limit on operations.\<close>

definition collected :: "vstate \<Rightarrow> issue list" where
  "collected st = (case vs_branch st of None \<Rightarrow> vs_primary st | Some xs \<Rightarrow> xs)"

definition explained :: "compiled_plan \<Rightarrow> vstate \<Rightarrow> bool" where
  "explained c st \<longleftrightarrow> (0 < maxIssues (vc_limits c) \<longrightarrow> collected st \<noteq> [] \<or> vs_limitReported st)"

lemma explained_evolves: "explained c st \<Longrightarrow> evolves codes c st st' \<Longrightarrow> explained c st'"
  by (auto simp: explained_def evolves_def collected_def dest: growing_nonempty split: option.splits)

lemma explained_fields [simp]:
  "explained c (st\<lparr>vs_active := a\<rparr>) = explained c st" "explained c (st\<lparr>vs_refs := r\<rparr>) = explained c st"
  by (auto simp: explained_def collected_def split: option.split)

lemma explained_add: "explained c (add_issue_at c path code msg st)"
  by (auto simp: explained_def collected_def add_issue_at_def Let_def collect_nonempty split: option.split)

lemma explained_consume: "\<not> fst (consumeOperation c path st) \<Longrightarrow> explained c (snd (consumeOperation c path st))"
  by (auto simp: explained_def consumeOperation_def split: if_splits)


section \<open>Good steps\<close>

definition good :: "string set \<Rightarrow> compiled_plan \<Rightarrow> step \<Rightarrow> bool" where
  "good codes c f \<longleftrightarrow> (\<forall>st. evolves codes c st (snd (f st)) \<and> (\<not> fst (f st) \<longrightarrow> explained c (snd (f st))))"

definition good_body :: "string set \<Rightarrow> compiled_plan \<Rightarrow> (vstate \<Rightarrow> bool option \<times> vstate) \<Rightarrow> bool" where
  "good_body codes c f \<longleftrightarrow>
     (\<forall>st. evolves codes c st (snd (f st)) \<and> (fst (f st) \<noteq> Some True \<longrightarrow> explained c (snd (f st))))"

lemma goodI:
  "(\<And>st b st'. f st = (b, st') \<Longrightarrow> evolves codes c st st' \<and> (\<not> b \<longrightarrow> explained c st')) \<Longrightarrow> good codes c f"
  by (auto simp: good_def) (metis prod.collapse)+

lemma goodD: "good codes c f \<Longrightarrow> f st = (b, st') \<Longrightarrow> evolves codes c st st' \<and> (\<not> b \<longrightarrow> explained c st')"
  by (auto simp: good_def dest: spec [of _ st])

lemma good_bodyI:
  "(\<And>st b st'. f st = (b, st') \<Longrightarrow> evolves codes c st st' \<and> (b \<noteq> Some True \<longrightarrow> explained c st')) \<Longrightarrow> good_body codes c f"
  by (auto simp: good_body_def) (metis prod.collapse)+

lemma good_bodyD: "good_body codes c f \<Longrightarrow> f st = (b, st') \<Longrightarrow> evolves codes c st st' \<and> (b \<noteq> Some True \<longrightarrow> explained c st')"
  by (auto simp: good_body_def dest: spec [of _ st])

lemma good_True: "good codes c (Pair True)"
  by (rule goodI) auto

lemma good_result: "good codes c f \<Longrightarrow> good_body codes c (result_of f)"
  by (rule good_bodyI) (auto simp: result_of_def split: prod.splits dest: goodD)

lemma good_body_True: "good_body codes c (Pair (Some True))"
  by (rule good_bodyI) auto

lemma good_both: "good codes c f \<Longrightarrow> good codes c g \<Longrightarrow> good codes c (both f g)"
  by (rule goodI) (auto simp: both_def split: prod.splits dest!: goodD intro: evolves_trans explained_evolves)

lemma good_each: "(\<And>x. x \<in> set xs \<Longrightarrow> good_body codes c (body x)) \<Longrightarrow> good codes c (each body xs)"
proof (induction xs)
  case (Cons x xs)
  then have rest: "good codes c (each body xs)" and x: "good_body codes c (body x)" by auto
  show ?case
  proof (rule goodI)
    fix st b st'
    assume step: "each body (x # xs) st = (b, st')"
    obtain o1 st1 where o: "body x st = (o1, st1)" by (cases "body x st")
    show "evolves codes c st st' \<and> (\<not> b \<longrightarrow> explained c st')"
      using step o good_bodyD [OF x o] goodD [OF rest, of st1]
      by (auto split: option.splits prod.splits intro: evolves_trans explained_evolves)
  qed
qed (auto intro: goodI)

lemma good_value: "good codes c body \<Longrightarrow> ''cycle'' \<in> codes \<Longrightarrow> good codes c (within_value c v path body)"
  by (rule goodI)
    (auto simp: within_value_def fail_with_def Let_def evolves_add explained_add
      split: prod.splits if_splits dest!: goodD intro: evolves_value)

lemma good_ref: "good codes c body \<Longrightarrow> good codes c (within_ref reference v body)"
  by (rule goodI)
    (auto simp: within_ref_def split: prod.splits dest!: goodD intro: evolves_ref)

lemma good_fail: "code \<in> codes \<Longrightarrow> good codes c (fail_with c path code msg)"
  by (rule goodI) (auto simp: fail_with_def evolves_add explained_add)

lemma good_type: "''type'' \<in> codes \<Longrightarrow> good codes c (\<lambda>st. (False, addTypeIssue c h path expected v st))"
  by (rule goodI) (auto simp: addTypeIssue_def evolves_add explained_add)

lemma good_bound: "code \<in> codes \<Longrightarrow> good codes c (bound_check c path limit violated code msg)"
  by (rule goodI) (auto simp: bound_check_def split: option.splits if_splits dest!: goodD [OF good_fail])

lemma good_if: "(b \<Longrightarrow> good codes c f) \<Longrightarrow> (\<not> b \<Longrightarrow> good codes c g) \<Longrightarrow> good codes c (\<lambda>st. if b then f st else g st)"
  by (cases b) auto

lemma good_consume: "''maxOperations'' \<in> codes \<Longrightarrow> good codes c (consumeOperation c path)"
  using evolves_consume explained_consume by (auto simp: good_def)

text \<open>A step that goes on after an operation was counted.\<close>

lemma good_after_consume:
  assumes "''maxOperations'' \<in> codes" and "good codes c f"
  shows "good codes c (\<lambda>st. case consumeOperation c path st of (False, st') \<Rightarrow> (False, st') | (True, st') \<Rightarrow> f st')"
proof (rule goodI)
  fix st b st'
  assume step: "(case consumeOperation c path st of (False, st') \<Rightarrow> (False, st') | (True, st') \<Rightarrow> f st') = (b, st')"
  obtain b1 st1 where "consumeOperation c path st = (b1, st1)" by (cases "consumeOperation c path st")
  with step goodD [OF good_consume [OF assms(1)] this] goodD [OF assms(2), of st1]
  show "evolves codes c st st' \<and> (\<not> b \<longrightarrow> explained c st')"
    by (cases b1) (auto intro: evolves_trans)
qed

lemma good_counted:
  assumes "''maxOperations'' \<in> codes" and "good_body codes c f"
  shows "good_body codes c (counted c path f)"
proof (rule good_bodyI)
  fix st b st'
  assume step: "counted c path f st = (b, st')"
  obtain b1 st1 where "consumeOperation c path st = (b1, st1)" by (cases "consumeOperation c path st")
  with step goodD [OF good_consume [OF assms(1)] this] good_bodyD [OF assms(2), of st1]
  show "evolves codes c st st' \<and> (b \<noteq> Some True \<longrightarrow> explained c st')"
    by (cases b1) (auto simp: counted_def intro: evolves_trans)
qed

section \<open>A family of plans\<close>

locale plan_family =
  fixes vp :: validation_platform and h :: heap and c :: compiled_plan and codes :: "string set" and S :: "hval set"
  assumes all_codes: "code \<noteq> ''plan'' \<Longrightarrow> code \<in> codes"
    and supported: "p \<in> S \<Longrightarrow> \<not> is_bool p \<Longrightarrow> node_of h p = UnsupportedPlan \<Longrightarrow> ''plan'' \<in> codes"
    and nested: "p \<in> S \<Longrightarrow> \<not> is_bool p \<Longrightarrow> q \<in> set (subplans (node_of h p)) \<Longrightarrow> q \<in> S"
    and targets: "p \<in> S \<Longrightarrow> \<not> is_bool p \<Longrightarrow> target_plans vp c (node_of h p) = Some q \<Longrightarrow> q \<in> S"

context plan_family
begin

lemmas good_intros = good_both good_each good_value good_ref good_fail good_type good_bound good_True
  good_result good_body_True good_counted good_after_consume all_codes

lemma evolves_keys:
  "readKeys c h v path st = (r, st') \<Longrightarrow>
     evolves codes c st st' \<and> (r = Inl KeysMaxOperations \<or> r = Inl KeysMaxProperties \<longrightarrow> explained c st')"
proof -
  have loop: "read_keys_loop c path ks keys st = (r, st') \<Longrightarrow>
      evolves codes c st st' \<and> (r = Inl KeysMaxOperations \<or> r = Inl KeysMaxProperties \<longrightarrow> explained c st')"
    for ks keys st st'
  proof (induction ks arbitrary: keys st)
    case (Cons k ks)
    obtain b st1 where s: "consumeOperation c (path @ [PKey k]) st = (b, st1)"
      by (cases "consumeOperation c (path @ [PKey k]) st")
    have "evolves codes c st st1 \<and> (\<not> b \<longrightarrow> explained c st1)"
      using goodD [OF good_consume s, where codes = codes] all_codes by simp
    with s Cons show ?case
      by (auto split: bool.splits if_splits intro: evolves_then_add explained_add all_codes)
        (meson evolves_trans)+
  qed auto
  assume "readKeys c h v path st = (r, st')"
  moreover obtain b st1 where s: "consumeOperation c path st = (b, st1)" by (cases "consumeOperation c path st")
  moreover have "evolves codes c st st1 \<and> (\<not> b \<longrightarrow> explained c st1)"
    using goodD [OF good_consume s, where codes = codes] all_codes by simp
  ultimately show ?thesis
    using loop [of _ _ st1] by (auto simp: readKeys_def split: bool.splits option.splits intro: evolves_trans)
qed

lemma consume_step:
  "consumeOperation c path st = (b, st') \<Longrightarrow> evolves codes c st st' \<and> (\<not> b \<longrightarrow> explained c st')"
  using goodD [OF good_consume, where codes = codes] all_codes by simp

lemma evolves_push: "push_pairs c items pairs st = (r, st') \<Longrightarrow> evolves codes c st st'"
proof (induction items arbitrary: pairs st)
  case (Cons item items)
  obtain path vals where item: "item = (path, vals)" by (cases item)
  obtain b st1 where s: "consumeOperation c path st = (b, st1)" by (cases "consumeOperation c path st")
  have "evolves codes c st st1" using consume_step [OF s] by simp
  with s item Cons show ?case
    by (auto split: bool.splits option.splits prod.splits) (meson evolves_trans)
qed simp

lemma evolves_array_pairs: "array_pairs c h l r path st = (q, st') \<Longrightarrow> evolves codes c st st'"
proof -
  assume q: "array_pairs c h l r path st = (q, st')"
  obtain b st1 where s: "consumeOperation c path st = (b, st1)" by (cases "consumeOperation c path st")
  have "evolves codes c st st1" using consume_step [OF s] by simp
  with q s show ?thesis
    by (auto simp: array_pairs_def split: bool.splits option.splits if_splits
        dest!: evolves_push intro: evolves_then_add all_codes evolves_trans)
qed

lemma evolves_object_pairs: "object_pairs c h l r path st = (q, st') \<Longrightarrow> evolves codes c st st'"
  by (auto simp: object_pairs_def Let_def split: prod.splits sum.splits if_splits
      dest!: evolves_push evolves_keys intro: evolves_trans)

lemma evolves_next: "next_pairs c h l r path st = (q, st') \<Longrightarrow> evolves codes c st st'"
  by (auto simp: next_pairs_def split: if_splits dest: evolves_array_pairs evolves_object_pairs)

lemma evolves_deep_loop: "deep_loop c' h' seen pending st = (b, st') \<Longrightarrow> c' = c \<Longrightarrow> h' = h \<Longrightarrow> evolves codes c st st'"
proof (induction c' h' seen pending st rule: deep_loop.induct)
  case (1 c' h' seen st)
  then show ?case by (simp add: deep_loop.simps)
next
  case (2 c' h' seen l r path pending st)
  obtain b1 st1 where s: "consumeOperation c path st = (b1, st1)" by (cases "consumeOperation c path st")
  have step: "evolves codes c st st1" using consume_step [OF s] by simp
  have *: "evolves codes c st1 st'" if b1: "b1"
  proof (cases "object_is l r")
    case True
    with "2.prems" s b1 "2.IH"(1) show ?thesis by (simp add: deep_loop.simps)
  next
    case False
    show ?thesis
    proof (cases "is_ref l \<and> is_ref r \<and> safeIsArray h l = safeIsArray h r")
      case refs: True
      show ?thesis
      proof (cases "jm_get seen l")
        case None
        obtain q st2 where q: "next_pairs c h l r path st1 = (q, st2)" by (cases "next_pairs c h l r path st1")
        have "evolves codes c st2 st'"
          using "2.prems" s b1 False refs None q "2.IH"(2) by (cases q) (auto simp: deep_loop.simps)
        with evolves_next [OF q] show ?thesis by (rule evolves_trans)
      next
        case (Some previous)
        with "2.prems" s b1 False refs "2.IH"(3) show ?thesis
          by (auto simp: deep_loop.simps split: if_splits)
      qed
    qed (use "2.prems" s b1 False in \<open>auto simp: deep_loop.simps split: if_splits\<close>)
  qed
  show ?case
  proof (cases b1)
    case True
    with step * show ?thesis by (blast intro: evolves_trans)
  qed (use "2.prems" s step in \<open>auto simp: deep_loop.simps\<close>)
qed

lemma evolves_deepEqual: "deepEqual c h l r path st = (b, st') \<Longrightarrow> evolves codes c st st'"
  by (auto simp: deepEqual_def intro: evolves_deep_loop)

section \<open>The kinds of plans\<close>

lemma good_literal: "good codes c (evaluateLiteral c h literal v path)"
  by (rule goodI)
    (auto simp: evaluateLiteral_def fail_with_def explained_add split: prod.splits bool.splits
      dest!: evolves_deepEqual intro: evolves_then_add all_codes)

lemma good_enum: "good codes c (enum_loop c h v path candidates)"
proof (induction candidates)
  case Nil
  show ?case using good_fail [OF all_codes] by (simp add: good_def)
next
  case (Cons x xs)
  let ?next = "\<lambda>st1. case deepEqual c h x v path st1 of
    (True, st2) \<Rightarrow> (True, st2) | (False, st2) \<Rightarrow> enum_loop c h v path xs st2"
  have "good codes c ?next"
  proof (rule goodI)
    fix st b st'
    assume step: "?next st = (b, st')"
    obtain b1 st1 where d: "deepEqual c h x v path st = (b1, st1)" by (cases "deepEqual c h x v path st")
    show "evolves codes c st st' \<and> (\<not> b \<longrightarrow> explained c st')"
      using step d evolves_deepEqual [OF d] goodD [OF Cons, of st1 b st']
      by (cases b1) (auto intro: evolves_trans)
  qed
  from good_after_consume [OF _ this] show ?case by (simp add: good_def all_codes)
qed

lemma good_count_points: "good codes c (count_points c path points)"
proof (induction points)
  case (Cons p ps)
  from good_after_consume [OF _ Cons] show ?case by (simp add: good_def all_codes)
qed (auto intro: goodI)

lemma good_pattern: "good codes c (pattern_check vp c plan present s path)"
  by (rule goodI)
    (auto simp: pattern_check_def split: option.splits if_splits dest!: goodD [OF good_fail [OF all_codes], rotated])

lemma good_then: "good codes c f \<Longrightarrow> good codes c g \<Longrightarrow>
    good codes c (\<lambda>st. case f st of (False, st') \<Rightarrow> (False, st') | (True, st') \<Rightarrow> g st')"
  by (rule goodI) (auto split: prod.splits bool.splits dest!: goodD intro: evolves_trans)

lemma good_number: "good codes c (evaluateNumber c h integer lo hi elo ehi mul v path)"
  unfolding evaluateNumber_def by (cases v) (auto intro!: good_intros simp: good_if split: option.split)

lemma good_string: "good codes c (evaluateString vp c h plan lo hi hasPattern format v path)"
  unfolding evaluateString_def Let_def
  by (cases v) (auto intro!: good_intros good_then good_count_points good_pattern)

text \<open>The compound plans, for an evaluator that is good on the plans of the family.\<close>

definition good_ev :: "evaluator \<Rightarrow> bool" where
  "good_ev ev \<longleftrightarrow> (\<forall>p\<in>S. \<forall>v path. good codes c (ev p v path))"

lemma good_evD: "good_ev ev \<Longrightarrow> p \<in> S \<Longrightarrow> good codes c (ev p v path)"
  by (simp add: good_ev_def)

lemma good_required: "good_body codes c (required_step c h v path key)"
  unfolding required_step_def
  by (cases "has_own h v key"; cases "the (has_own h v key)") (auto intro!: good_intros)

lemma good_property: "good_ev ev \<Longrightarrow> snd kp \<in> S \<Longrightarrow> good_body codes c (property_step c h ev v path kp)"
  unfolding property_step_def
  by (cases kp; cases "readOwnValue h v (fst kp)") (auto intro!: good_intros good_evD)

lemma good_additional_step: "good_ev ev \<Longrightarrow> extra \<in> S \<Longrightarrow> good_body codes c (additional_step c h ev extra v path key)"
  unfolding additional_step_def
  by (cases "readOwnValue h v key") (auto intro!: good_intros good_evD)

lemma good_additional:
  assumes "good_ev ev" "case additional of None \<Rightarrow> True | Some p \<Rightarrow> p \<in> S"
  shows "good codes c (additional_properties c h ev names additional v path)"
proof (cases additional)
  case (Some extra)
  show ?thesis
  proof (rule goodI)
    fix st b st'
    assume step: "additional_properties c h ev names additional v path st = (b, st')"
    obtain r st1 where k: "readKeys c h v path st = (r, st1)" by (cases "readKeys c h v path st")
    have e: "good codes c (each (additional_step c h ev extra v path) xs)" for xs
      using assms Some by (auto intro!: good_each good_additional_step)
    show "evolves codes c st st' \<and> (\<not> b \<longrightarrow> explained c st')"
      using step k evolves_keys [OF k] goodD [OF e, of _ st1]
      by (auto simp: additional_properties_def Some fail_with_def explained_add split: if_splits sum.splits keys_error.splits
          intro: evolves_then_add all_codes evolves_trans)
  qed
qed (auto simp: additional_properties_def intro: goodI)

lemma good_object:
  assumes "good_ev ev" "\<forall>p\<in>set (subplans (ObjectPlan properties required additional)). p \<in> S"
  shows "good codes c (evaluateObject c h ev properties required additional v path)"
  using assms unfolding evaluateObject_def
  by (intro good_if good_type good_value good_both good_each good_required good_property good_additional all_codes)
    (auto split: option.splits)

lemma good_item: "good_ev ev \<Longrightarrow> snd ip \<in> S \<Longrightarrow> good_body codes c (item_step c h ev v path ip)"
  unfolding item_step_def
  by (cases ip; cases "arr_item h v (fst ip)") (auto intro!: good_intros good_evD)

lemma good_rest_step:
  "good_ev ev \<Longrightarrow> (case items of None \<Rightarrow> True | Some p \<Rightarrow> p \<in> S) \<Longrightarrow> good_body codes c (rest_step c h ev items v path index)"
  unfolding rest_step_def
  using good_item [of ev "(index, the items)"]
  by (cases items) (auto intro!: good_intros good_body_True [unfolded])

lemma good_length: "(\<And>n. good codes c (body n)) \<Longrightarrow> good codes c (with_length c h v path body)"
  by (rule goodI)
    (auto simp: with_length_def readArrayLength_def explained_add evolves_add all_codes split: option.splits dest: goodD)

lemma good_array:
  assumes "good_ev ev" "\<forall>p\<in>set (subplans (ArrayPlan items prefixItems lo hi)). p \<in> S"
  shows "good codes c (evaluateArray c h ev items prefixItems lo hi v path)"
  using assms unfolding evaluateArray_def
  by (intro good_if good_type good_value good_length good_both good_each good_bound good_item good_rest_step all_codes)
    (auto split: option.splits dest!: in_set_takeD dest: set_zip_rightD)

lemma good_tuple:
  assumes "good_ev ev" "\<forall>p\<in>set (subplans (TuplePlan items rest)). p \<in> S"
  shows "good codes c (evaluateTuple c h ev items rest v path)"
proof -
  have step: "good_body codes c (tuple_step c h ev n v path ip)" if "snd ip \<in> S" for n ip
    using that assms(1) good_item [of ev ip] unfolding tuple_step_def by (cases ip) (auto intro!: good_intros)
  have rest: "good codes c (\<lambda>st. if n \<le> length items then (True, st)
      else (case rest of
              None \<Rightarrow> fail_with c pa code msg st
            | Some plan \<Rightarrow> each (\<lambda>index. item_step c h ev v path (index, plan)) [length items..<n] st))"
    if "code \<in> codes" for n pa code msg
    using assms that by (cases rest) (auto intro!: good_if good_each good_item good_fail good_True [unfolded])
  show ?thesis
    using assms unfolding evaluateTuple_def
    by (intro good_if good_type good_value good_length good_both good_each step rest all_codes)
      (auto dest: set_zip_rightD)
qed

lemma evolves_matches:
  assumes "good_ev ev" "set branches \<subseteq> S" "count_matches c ev v path branches n st = (m, st')"
  shows "evolves codes c st st'"
  using assms(2,3)
proof (induction branches arbitrary: n st)
  case (Cons p ps)
  obtain b st1 where s: "consumeOperation c path st = (b, st1)" by (cases "consumeOperation c path st")
  obtain b2 st2 where w: "withCollector (ev p v path) st1 = (b2, st2)" by (cases "withCollector (ev p v path) st1")
  have "evolves codes c st1 st2"
    using w good_evD [OF assms(1), of p v path] Cons.prems(1)
    by (auto simp: withCollector_def Let_def split: prod.splits dest!: goodD intro: evolves_branch)
  moreover have "evolves codes c st st1" using consume_step [OF s] by simp
  ultimately have "evolves codes c st st2" by (rule evolves_trans [rotated])
  with s w Cons \<open>evolves codes c st st1\<close> show ?case
    by (auto split: bool.splits intro: evolves_trans)
qed simp

lemma good_union:
  "good_ev ev \<Longrightarrow> set branches \<subseteq> S \<Longrightarrow> good codes c (evaluateUnion c ev branches oneOf v path)"
  by (rule goodI)
    (auto simp: evaluateUnion_def fail_with_def explained_add split: prod.splits if_splits
      dest!: evolves_matches intro: evolves_then_add all_codes)

lemma good_intersection:
  "good_ev ev \<Longrightarrow> set branches \<subseteq> S \<Longrightarrow> good codes c (evaluateIntersection c ev branches v path)"
  unfolding evaluateIntersection_def by (auto intro!: good_intros good_evD)

lemma good_reference:
  assumes "good_ev ev" "\<And>p. ref_target c (normalizeReference vp name) = Some p \<Longrightarrow> p \<in> S"
  shows "good codes c (evaluateReference vp c ev name v path)"
proof -
  have "good codes c (\<lambda>st1.
      let reference = normalizeReference vp name in
      (case ref_target c reference of
         None \<Rightarrow> fail_with c path ''ref'' (js ''Unknown validation reference '' @ json_quote reference @ js ''.'') st1
       | Some target \<Rightarrow>
           if list_ex (\<lambda>(n, x). n = reference \<and> sameReferenceValue x v) (vs_refs st1) then
             if is_ref v \<and> ref_addr v \<in> set (vs_active st1)
             then fail_with c path ''cycle'' (js ''Cyclic value encountered during validation.'') st1
             else fail_with c path ''refCycle'' (js ''Validation reference cycle did not consume a nested value.'') st1
           else within_ref reference v (ev target v path) st1))" (is "good codes c ?f")
  proof (rule goodI)
    fix st b st'
    assume "?f st = (b, st')"
    then show "evolves codes c st st' \<and> (\<not> b \<longrightarrow> explained c st')"
      using assms good_evD [OF assms(1)]
      by (auto simp: Let_def fail_with_def explained_add evolves_add all_codes split: option.splits if_splits
          dest!: goodD [OF good_ref, rotated])
  qed
  then show ?thesis
    unfolding evaluateReference_def Let_def by (intro good_after_consume all_codes) simp_all
qed

lemma good_kind:
  assumes "good_ev ev" "plan \<in> S" "\<not> is_bool plan"
  shows "good codes c (evaluate_kind vp h c ev plan v path)"
proof -
  note sub = nested [OF assms(2,3)] and target = targets [OF assms(2,3)]
  show ?thesis
    unfolding evaluate_kind_def
    using assms(1) sub target supported [OF assms(2,3)]
    by (cases "node_of h plan")
      (auto simp: target_plans_def good_number good_string good_literal good_enum
        intro!: good_intros good_if good_array good_tuple good_object good_union good_intersection good_reference)
qed

lemma evaluate_good: "plan \<in> S \<Longrightarrow> good codes c (evaluate vp h c depth plan v path)"
proof (induction "Suc (maxDepth (vc_limits c)) - depth" arbitrary: depth plan v path rule: less_induct)
  case less
  have ev: "good_ev (\<lambda>p x pa s. evaluate vp h c (Suc depth) p x pa s)" if "\<not> depth > maxDepth (vc_limits c)"
    using that less.hyps by (auto simp: good_ev_def)
  have "good codes c (\<lambda>st1.
      if is_bool plan then
        (if plan = HBool True then (True, st1)
         else fail_with c path ''never'' (js ''Value is not allowed.'') st1)
      else if h_truthy (value_at h plan ''optional'') \<and> v = HUndef then (True, st1)
      else if h_truthy (value_at h plan ''nullable'') \<and> v = HNull then (True, st1)
      else if depth > maxDepth (vc_limits c) then
        fail_with c path ''maxDepth'' (js ''Validation depth limit exceeded.'') st1
      else evaluate_kind vp h c (\<lambda>p x pa s. evaluate vp h c (Suc depth) p x pa s) plan v path st1)"
    by (intro good_if good_fail good_kind ev less.prems all_codes) (auto intro: goodI)
  from good_after_consume [OF _ this] show ?case
    by (subst evaluate.simps [abs_def]) (simp add: all_codes)
qed

end

end
