(* ===== verification/Validation_Checked.thy ===== *)
theory Validation_Checked
  imports Validation_Sound
begin

text \<open>
  What the compiler establishes: every plan that is reachable from a compiled one through nested plans
  and references was checked, so the evaluator supports it.
\<close>

section \<open>Well-formed plans\<close>

text \<open>Plans may refer to themselves, so the judgement is coinductive.\<close>

coinductive wf_plan :: "validation_platform \<Rightarrow> heap \<Rightarrow> compiled_plan \<Rightarrow> hval \<Rightarrow> bool"
  for vp h c where
  wf_bool: "is_bool p \<Longrightarrow> wf_plan vp h c p"
| wf_node: "\<lbrakk>validateNode vp h p = Inr r; node_of h p \<noteq> UnsupportedPlan;
    \<And>q. q \<in> set (subplans (node_of h p)) \<Longrightarrow> wf_plan vp h c q;
    \<And>q. target_plans vp c (node_of h p) = Some q \<Longrightarrow> wf_plan vp h c q\<rbrakk> \<Longrightarrow> wf_plan vp h c p"

lemma wf_planD:
  assumes "wf_plan vp h c p" "\<not> is_bool p"
  shows "node_of h p \<noteq> UnsupportedPlan" "q \<in> set (subplans (node_of h p)) \<Longrightarrow> wf_plan vp h c q"
    "target_plans vp c (node_of h p) = Some q \<Longrightarrow> wf_plan vp h c q"
  using assms by (auto elim: wf_plan.cases)

interpretation wf: plan_family vp h c "- {''plan''}" "Collect (wf_plan vp h c)" for vp h c
  by unfold_locales (auto dest: wf_planD)

interpretation any: plan_family vp h c UNIV UNIV for vp h c
  by unfold_locales auto

section \<open>A checked node is supported\<close>

lemma read_all_Inr: "read_all ps = Inr vs \<longleftrightarrow> ps = map Reads vs"
proof (induction ps arbitrary: vs)
  case (Cons p ps)
  then show ?case by (cases p; cases vs) (auto simp: read_def)
qed auto

lemma require_Inr [simp]: "require b = Inr u \<longleftrightarrow> b"
  by (simp add: require_def)

lemma read_Inr [simp]: "read p = Inr v \<longleftrightarrow> p = Reads v"
  by (cases p) (auto simp: read_def)

lemma requireString_Inr [simp]: "requireString v = Inr s \<longleftrightarrow> v = HStr s"
  by (cases v) (auto simp: requireString_def)

lemma requireNonEmptyString_Inr [simp]: "requireNonEmptyString v = Inr s \<longleftrightarrow> v = HStr s \<and> s \<noteq> []"
  by (auto simp: requireNonEmptyString_def split: if_splits)

lemma field_value: "get_field h p name = Inr v \<Longrightarrow> value_at h p name = v"
  by (simp add: get_field_def value_at_def)

lemma elements_Inr: "arr_elements h v = Inr vs \<Longrightarrow> elements_of h v = vs"
  by (simp add: elements_of_def)

definition includes_plans :: "hval list \<Rightarrow> hval list \<Rightarrow> bool" where
  "includes_plans children plans \<longleftrightarrow> (\<forall>q\<in>set plans. is_bool q \<or> q \<in> set children)"

lemma covers_simps [simp]:
  "includes_plans ch []" "includes_plans ch (p # ps) \<longleftrightarrow> (is_bool p \<or> p \<in> set ch) \<and> includes_plans ch ps"
  "includes_plans ch (ps @ qs) \<longleftrightarrow> includes_plans ch ps \<and> includes_plans ch qs"
  by (auto simp: includes_plans_def)

lemma covers_nested: "set (concat (map validateNestedPlan vs)) \<subseteq> set ch \<Longrightarrow> includes_plans ch vs"
  by (auto simp: includes_plans_def validateNestedPlan_def split: if_splits)

lemma nested_items_covers: "nested_items h v = Inr cs \<Longrightarrow> set cs \<subseteq> set ch \<Longrightarrow> includes_plans ch (elements_of h v)"
  by (auto simp: nested_items_def intro!: covers_nested dest: elements_Inr)

lemma nested_fields_covers:
  assumes "nested_fields h v = Inr cs" "set cs \<subseteq> set ch"
  shows "includes_plans ch (map snd (fields_of h v))"
proof -
  obtain keys vs where k: "own_keys h v = Some keys" "map (obj_prop h v) (sort keys) = map Reads vs"
    "cs = concat (map validateNestedPlan vs)"
    using assms(1) by (auto simp: nested_fields_def read_all_Inr split: option.splits)
  have "snd ` set (fields_of h v) \<subseteq> set vs"
  proof -
    have "\<exists>x\<in>set vs. obj_prop h v key = Reads x" if "key \<in> set keys" for key
      using arg_cong [OF k(2), of set] that by auto
    then show ?thesis by (force simp: fields_of_def k(1))
  qed
  moreover have "includes_plans ch vs" using k(3) assms(2) by (intro covers_nested) simp
  ultimately show ?thesis by (auto simp: includes_plans_def)
qed

lemma optional_nested_covers:
  assumes "optional_nested h p name = Inr cs" "set cs \<subseteq> set ch"
  shows "includes_plans ch (case opt_value (value_at h p name) of None \<Rightarrow> [] | Some q \<Rightarrow> [q])"
  using assms by (auto simp: optional_nested_def opt_value_def validateNestedPlan_def dest!: field_value split: if_splits)

lemma fields_of_undefined [simp]: "fields_of h HUndef = []"
  by (simp add: fields_of_def own_keys_def)

lemma elements_of_undefined [simp]: "elements_of h HUndef = []"
  by (simp add: elements_of_def arr_elements_def arr_length_def safe_length_def)

lemma supported_node:
  assumes "validateNode vp h p = Inr (children, pattern)"
  shows "node_of h p \<noteq> UnsupportedPlan \<and> includes_plans children (subplans (node_of h p))"
proof -
  obtain kind cs where kind: "value_at h p ''kind'' = HStr kind" and cs: "kind_node vp h p kind = Inr (cs, pattern)"
    and sub: "set cs \<subseteq> set children"
    using assms
    by (auto simp: validateNode_def dest!: field_value)
  note [simp] = node_of_def Let_def kind
  show ?thesis
  proof (cases "kind = js ''array''")
    case True
    then show ?thesis
      using cs sub nested_items_covers [of h "value_at h p ''prefixItems''" _ children]
        optional_nested_covers [of h p "''items''" _ children]
      by (auto simp: kind_node_def array_node_def dest!: field_value split: if_splits)
  next
    case False
    note not_array = this
    show ?thesis
    proof (cases "kind = js ''tuple''")
      case True
      then show ?thesis
        using cs sub nested_items_covers [of h "value_at h p ''items''" _ children]
          optional_nested_covers [of h p "''rest''" _ children]
        by (auto simp: kind_node_def tuple_node_def dest!: field_value split: if_splits)
    next
      case False
      note not_tuple = this
      show ?thesis
      proof (cases "kind = js ''object''")
        case True
        then show ?thesis
          using cs sub nested_fields_covers [of h "value_at h p ''properties''" _ children]
            optional_nested_covers [of h p "''additionalProperties''" _ children]
          by (auto simp: kind_node_def object_node_def dest!: field_value split: if_splits)
      next
        case not_object: False
        show ?thesis
        proof (cases "kind = js ''union'' \<or> kind = js ''oneOf'' \<or> kind = js ''intersection''")
          case True
          then have "includes_plans children (elements_of h (value_at h p (if kind = js ''intersection'' then ''allOf'' else ''anyOf'')))"
            using cs sub covers_nested [of _ children] nested_items_covers [of h _ _ children]
            by (auto simp: kind_node_def union_node_def dest!: field_value elements_Inr)
          with True show ?thesis by auto
        next
          case False
          show ?thesis
          proof (cases "kind = js ''ref''")
            case True
            then show ?thesis
              using cs by (auto simp: kind_node_def ref_node_def h_nullish_def dest!: field_value split: if_splits)
          next
            case no_ref: False
            have "kind \<in> set (map js [''any'', ''never'', ''null'', ''boolean'', ''string'', ''number'', ''integer'', ''literal'', ''enum''])"
              using cs not_array not_tuple not_object False no_ref
              by (simp add: kind_node_def split: if_splits) blast+
            then show ?thesis by auto
          qed
        qed
      qed
    qed
  qed
qed


section \<open>The worklists reach every plan\<close>

definition reached :: "worklist \<Rightarrow> nat set" where
  "reached w = set (wl_visited w) \<union> set (wl_visiting w)"

definition settled_plan :: "worklist \<Rightarrow> hval \<Rightarrow> bool" where
  "settled_plan w q \<longleftrightarrow> is_bool q \<or> (\<exists>a\<in>reached w. q = HRef a)"

text \<open>
  Every object the worklist has reached was checked, and each of its plans is reached or waits on the
  stack.
\<close>

definition worklist_inv :: "validation_platform \<Rightarrow> heap \<Rightarrow> work_item list \<Rightarrow> worklist \<Rightarrow> bool" where
  "worklist_inv vp h pending w \<longleftrightarrow>
     (\<forall>a. WorkExit a \<in> set pending \<longrightarrow> a \<in> reached w) \<and>
     (\<forall>a\<in>reached w. \<exists>children pattern. validateNode vp h (HRef a) = Inr (children, pattern) \<and>
        (\<forall>q\<in>set children. settled_plan w q \<or> WorkPlan q \<in> set pending))"

lemma settled_mono: "reached w \<subseteq> reached w' \<Longrightarrow> settled_plan w q \<Longrightarrow> settled_plan w' q"
  by (auto simp: settled_plan_def)

lemma h_strict_eq_settled: "settled_plan w q \<Longrightarrow> h_strict_eq q r \<longleftrightarrow> r = q"
  by (cases q; cases r) (auto simp: settled_plan_def)

lemma register_names_keeps:
  "register_names h v names target = Inr target' \<Longrightarrow> jm_get target name = Some q \<Longrightarrow> settled_plan w q \<Longrightarrow>
     jm_get target' name = Some q"
proof (induction names arbitrary: target)
  case (Cons n ns)
  then obtain d where "\<not> (case jm_get target n of None \<Rightarrow> False | Some old \<Rightarrow> \<not> h_strict_eq old d)"
    and next_names: "register_names h v ns (jm_set n d target) = Inr target'"
    by (auto split: if_splits)
  with Cons.prems(2,3) have "jm_get (jm_set n d target) name = Some q"
    by (auto simp: jmap_simps h_strict_eq_settled)
  from Cons.IH [OF next_names this Cons.prems(3)] show ?case .
qed simp

lemma registerDefinitions_keeps:
  "registerDefinitions h target v = Inr target' \<Longrightarrow> jm_get target name = Some q \<Longrightarrow> settled_plan w q \<Longrightarrow>
     jm_get target' name = Some q"
  by (auto simp: registerDefinitions_def split: option.splits intro: register_names_keeps)

lemma visit_plan_effect:
  assumes "visit_plan vp h a w = Inr (items, w')" "a \<notin> reached w"
  shows "reached w' = insert a (reached w)"
    and "worklist_inv vp h (WorkPlan (HRef a) # pending) w \<Longrightarrow> worklist_inv vp h (items @ pending) w'"
    and "jm_get (wl_definitions w) name = Some q \<Longrightarrow> settled_plan u q \<Longrightarrow> jm_get (wl_definitions w') name = Some q"
proof -
  obtain children pattern where node: "validateNode vp h (HRef a) = Inr (children, pattern)"
    and items: "items = map WorkPlan (rev children) @ [WorkExit a]"
    and visiting: "wl_visiting w' = jset_add a (wl_visiting w)" "wl_visited w' = wl_visited w"
    using assms(1) by (auto simp: visit_plan_def)
  show reached: "reached w' = insert a (reached w)"
    using visiting by (auto simp: reached_def)
  show "worklist_inv vp h (items @ pending) w'" if "worklist_inv vp h (WorkPlan (HRef a) # pending) w"
    using that node unfolding worklist_inv_def reached items
    by (auto simp: settled_plan_def reached) blast+
  show "jm_get (wl_definitions w') name = Some q" if "jm_get (wl_definitions w) name = Some q" "settled_plan u q"
    using assms(1) that by (auto simp: visit_plan_def split: if_splits intro: registerDefinitions_keeps)
qed

lemma worklist_inv_settled:
  "worklist_inv vp h (WorkPlan v # pending) w \<Longrightarrow> settled_plan w v \<Longrightarrow> worklist_inv vp h pending w"
  by (simp add: worklist_inv_def) metis

lemma leave_plan_reached: "a \<in> reached w \<Longrightarrow> reached (leave_plan a w) = reached w"
  by (auto simp: reached_def leave_plan_def)

lemma drain_plans_effect:
  "drain_plans vp h pending w = Inr w' \<Longrightarrow> worklist_inv vp h pending w \<Longrightarrow>
     worklist_inv vp h [] w' \<and> reached w \<subseteq> reached w' \<and>
     (\<forall>q. WorkPlan q \<in> set pending \<longrightarrow> settled_plan w' q) \<and>
     (\<forall>name q u. jm_get (wl_definitions w) name = Some q \<longrightarrow> settled_plan u q \<longrightarrow>
        jm_get (wl_definitions w') name = Some q)"
proof (induction vp h pending w rule: drain_plans.induct)
  case (1 vp h w)
  then show ?case by (simp add: drain_plans.simps)
next
  case (2 vp h a pending w)
  then have a: "a \<in> reached w" by (simp add: worklist_inv_def)
  have "worklist_inv vp h pending (leave_plan a w)"
    using "2.prems"(2) unfolding worklist_inv_def leave_plan_reached [OF a]
    by (auto simp: settled_plan_def leave_plan_reached [OF a])
  with 2 a show ?case
    by (simp add: drain_plans.simps leave_plan_reached) (simp add: leave_plan_def)
next
  case (3 vp h v pending w)
  show ?case
  proof (cases "is_bool v \<or> isRecord h v \<and> ref_addr v \<in> set (wl_visited w)")
    case True
    then have v: "settled_plan w v" using isRecord_ref [of h v] by (auto simp: settled_plan_def reached_def)
    have "worklist_inv vp h pending w"
      using "3.prems"(2) v by (rule worklist_inv_settled)
    moreover have "drain_plans vp h pending w = Inr w'"
      using "3.prems"(1) True by (auto simp: drain_plans.simps Let_def split: if_splits)
    ultimately show ?thesis
      using True "3.IH" "3.prems"(1) v settled_mono by (auto simp: drain_plans.simps Let_def split: if_splits)
  next
    case False
    with "3.prems"(1) obtain items w1 where *: "\<not> is_bool v" "isRecord h v" "ref_addr v \<notin> set (wl_visiting w)"
      "ref_addr v \<notin> set (wl_visited w)"
      "visit_plan vp h (ref_addr v) w = Inr (items, w1)" "drain_plans vp h (items @ pending) w1 = Inr w'"
      by (auto simp: drain_plans.simps Let_def split: if_splits sum.splits)
    have v: "v = HRef (ref_addr v)" by (rule isRecord_ref [OF *(2)])
    have fresh: "ref_addr v \<notin> reached w" using * by (simp add: reached_def)
    have inv: "worklist_inv vp h (items @ pending) w1"
      using visit_plan_effect(2) [OF *(5) fresh, of pending] "3.prems"(2) v by simp
    have IH: "worklist_inv vp h [] w' \<and> reached w1 \<subseteq> reached w' \<and>
       (\<forall>q. WorkPlan q \<in> set (items @ pending) \<longrightarrow> settled_plan w' q) \<and>
       (\<forall>name q u. jm_get (wl_definitions w1) name = Some q \<longrightarrow> settled_plan u q \<longrightarrow>
          jm_get (wl_definitions w') name = Some q)"
      using "3.IH"(3) [OF *(1) _ refl *(3,4,5) refl] * inv by simp
    have "settled_plan w' v"
      using IH v visit_plan_effect(1) [OF *(5) fresh] by (auto simp: settled_plan_def)
    moreover have "reached w \<subseteq> reached w'"
      using IH visit_plan_effect(1) [OF *(5) fresh] by auto
    ultimately show ?thesis
      using IH visit_plan_effect(3) [OF *(5) fresh] by (simp add: all_conj_distrib) blast
  qed
qed


lemma set_due_definitions: "set (due_definitions scheduled w) = {(n, d) \<in> set (wl_definitions w). n \<notin> set scheduled}"
  by (auto simp: due_definitions_def)

text \<open>When no definition is due, the definitions are all reached.\<close>

lemma schedule_effect:
  "schedule_definitions vp h scheduled w = Inr w' \<Longrightarrow> worklist_inv vp h [] w \<Longrightarrow>
     \<forall>n\<in>set scheduled. \<exists>d. jm_get (wl_definitions w) n = Some d \<and> settled_plan w d \<Longrightarrow>
     worklist_inv vp h [] w' \<and> reached w \<subseteq> reached w' \<and>
     (\<forall>n d. jm_get (wl_definitions w') n = Some d \<longrightarrow> settled_plan w' d)"
proof (induction vp h scheduled w rule: schedule_definitions.induct)
  case (1 vp h scheduled w)
  let ?due = "due_definitions scheduled w"
  show ?case
  proof (cases "?due = []")
    case True
    then have "n \<in> set scheduled" if "jm_get (wl_definitions w) n = Some d" for n d
      using that map_of_SomeD [of "wl_definitions w" n d] set_due_definitions [of scheduled w]
      by (auto simp: jm_get_def)
    with 1 True show ?thesis by (fastforce simp: schedule_definitions.simps Let_def)
  next
    case False
    then obtain w1 where d: "drain_plans vp h (map (WorkPlan \<circ> snd) (rev ?due)) w = Inr w1"
      and s: "schedule_definitions vp h (scheduled @ map fst ?due) w1 = Inr w'"
      using "1.prems"(1) by (auto simp: schedule_definitions.simps [of _ _ scheduled] Let_def split: sum.splits)
    have "worklist_inv vp h (map (WorkPlan \<circ> snd) (rev ?due)) w"
      using "1.prems"(2) by (auto simp: worklist_inv_def)
    note effect = drain_plans_effect [OF d this]
    have "\<exists>d. jm_get (wl_definitions w1) n = Some d \<and> settled_plan w1 d" if "n \<in> set (scheduled @ map fst ?due)" for n
    proof (cases "n \<in> set scheduled")
      case True
      then obtain q where "jm_get (wl_definitions w) n = Some q" "settled_plan w q" using "1.prems"(3) by blast
      with effect show ?thesis by (blast intro: settled_mono)
    next
      case False
      with that have "n \<in> fst ` set ?due" by auto
      then have "jm_has (wl_definitions w) n" by (force simp: set_due_definitions jm_has_def)
      then obtain q where q: "jm_get (wl_definitions w) n = Some q" by (auto simp: jm_has_iff)
      then have "(n, q) \<in> set ?due"
        using False map_of_SomeD by (fastforce simp: set_due_definitions jm_get_def)
      then have "WorkPlan q \<in> set (map (WorkPlan \<circ> snd) (rev ?due))" by force
      with effect q show ?thesis by blast
    qed
    then have "worklist_inv vp h [] w' \<and> reached w1 \<subseteq> reached w' \<and>
        (\<forall>n d. jm_get (wl_definitions w') n = Some d \<longrightarrow> settled_plan w' d)"
      using "1.IH" [OF refl False d s] effect by blast
    with effect show ?thesis by blast
  qed
qed

lemma collectAndValidate_effect:
  assumes "collectAndValidate vp h plan defs = Inr w"
  shows "worklist_inv vp h [] w \<and> settled_plan w plan \<and>
    (\<forall>n d. jm_get (wl_definitions w) n = Some d \<longrightarrow> settled_plan w d)"
proof -
  obtain d0 w0 where d: "drain_plans vp h [WorkPlan plan] (empty_worklist d0) = Inr w0"
    and s: "schedule_definitions vp h [] w0 = Inr w"
    using assms by (auto simp: collectAndValidate_def)
  have "worklist_inv vp h [WorkPlan plan] (empty_worklist d0)"
    by (simp add: worklist_inv_def reached_def empty_worklist_def)
  note effect = drain_plans_effect [OF d this]
  then show ?thesis using schedule_effect [OF s] settled_mono by auto
qed

lemma settled_wf:
  assumes inv: "worklist_inv vp h [] w" and root: "settled_plan w (vc_root c)"
    and defs: "\<And>n d. jm_get (vc_definitions c) n = Some d \<Longrightarrow> settled_plan w d"
    and p: "settled_plan w p"
  shows "wf_plan vp h c p"
  using p
proof (coinduction arbitrary: p)
  case wf_plan
  show ?case
  proof (cases "is_bool p")
    case False
    with wf_plan obtain a where a: "a \<in> reached w" "p = HRef a" by (auto simp: settled_plan_def)
    then obtain children pattern where node: "validateNode vp h p = Inr (children, pattern)"
      and ch: "\<forall>q\<in>set children. settled_plan w q"
      using inv by (auto simp: worklist_inv_def)
    have "settled_plan w q" if "q \<in> set (subplans (node_of h p))" for q
      using that supported_node [OF node] ch by (auto simp: includes_plans_def settled_plan_def)
    moreover have "settled_plan w q" if "target_plans vp c (node_of h p) = Some q" for q
      using that root defs by (auto simp: target_plans_def ref_target_def split: vnode.splits if_splits)
    ultimately show ?thesis using node supported_node [OF node] by blast
  qed simp
qed

lemma compiled_wf: "compileValidationPlan vp h plan options = Inr c \<Longrightarrow> wf_plan vp h c (vc_root c)"
  by (auto simp: compileValidationPlan_def dest!: collectAndValidate_effect intro!: settled_wf)

end
