(* ===== verification/Validation_Reference.thy ===== *)
theory Validation_Reference
  imports Validation_Checked
begin

text \<open>
  What a plan means, without the state of an evaluation: no collectors, no count of operations, no
  paths. \<open>conforms\<close> says which values a plan admits at a depth, below the objects \<open>A\<close> that are being
  validated and the references \<open>F\<close> that are being followed; \<open>literal_equal\<close> is equality with a literal.
\<close>

section \<open>Equality of values\<close>

definition known_keys :: "heap \<Rightarrow> nat \<Rightarrow> hval \<Rightarrow> jstring list option" where
  "known_keys h bound v =
     (case own_keys h v of None \<Rightarrow> None | Some ks \<Rightarrow> if length ks > bound then None else Some (sort ks))"

definition child_pairs :: "heap \<Rightarrow> nat \<Rightarrow> hval \<Rightarrow> hval \<Rightarrow> (hval \<times> hval) list option" where
  "child_pairs h bound l r =
     (if safeIsArray h l then
        (case (safe_length (arr_length h l), safe_length (arr_length h r)) of
           (Some m, Some n) \<Rightarrow>
             if m \<noteq> n \<or> n > bound then None
             else collect_options (map (\<lambda>i. both_read (arr_item h l i) (arr_item h r i)) [0..<n])
         | _ \<Rightarrow> None)
      else if isPlainObject h l \<and> isPlainObject h r then
        (case (known_keys h bound l, known_keys h bound r) of
           (Some lks, Some rks) \<Rightarrow>
             if lks \<noteq> rks then None
             else collect_options (map (\<lambda>k. both_found (readOwnValue h l k) (readOwnValue h r k)) lks)
         | _ \<Rightarrow> None)
      else None)"

text \<open>The objects of the heap that have not been compared yet.\<close>

definition unseen :: "heap \<Rightarrow> (hval, hval) jmap \<Rightarrow> nat set" where
  "unseen h seen = {a. a < length h \<and> jm_get seen (HRef a) = None}"

lemma child_pairs_address: "child_pairs h bound l r = Some pairs \<Longrightarrow> \<exists>a. l = HRef a \<and> a < length h"
  by (cases l)
    (auto simp: child_pairs_def safeIsArray_def js_isArray_def isPlainObject_def plain_proto_def heap_obj_def
      split: if_splits)

lemma unseen_less:
  assumes "child_pairs h bound l r = Some pairs" "jm_get seen l = None"
  shows "card (unseen h (jm_set l r seen)) < card (unseen h seen)"
proof -
  obtain a where a: "l = HRef a" "a < length h" using child_pairs_address [OF assms(1)] by blast
  have "unseen h (jm_set l r seen) = unseen h seen - {a}" by (auto simp: unseen_def jm_get_set a(1) split: if_splits)
  moreover have "a \<in> unseen h seen" using a assms(2) by (simp add: unseen_def)
  moreover have "finite (unseen h seen)" by (simp add: unseen_def)
  ultimately show ?thesis by (metis card_Diff1_less)
qed

function same_loop :: "heap \<Rightarrow> nat \<Rightarrow> (hval, hval) jmap \<Rightarrow> (hval \<times> hval) list \<Rightarrow> bool" where
  "same_loop h bound seen [] = True"
| "same_loop h bound seen ((l, r) # pending) =
     (if object_is l r then same_loop h bound seen pending
      else if \<not> is_ref l \<or> \<not> is_ref r \<or> safeIsArray h l \<noteq> safeIsArray h r then False
      else
        (case jm_get seen l of
           Some previous \<Rightarrow> h_strict_eq previous r \<and> same_loop h bound seen pending
         | None \<Rightarrow>
             (case child_pairs h bound l r of
                None \<Rightarrow> False
              | Some pairs \<Rightarrow> same_loop h bound (jm_set l r seen) (pairs @ pending))))"
  by pat_completeness auto
termination
  by (relation "measures [\<lambda>(h, _, seen, _). card (unseen h seen), \<lambda>(_, _, _, pending). length pending]")
    (auto simp: unseen_less)

declare same_loop.simps [simp del]

definition literal_equal :: "heap \<Rightarrow> nat \<Rightarrow> hval \<Rightarrow> hval \<Rightarrow> bool" where
  "literal_equal h bound l r = same_loop h bound [] [(l, r)]"

section \<open>The kinds of plans\<close>

definition meets :: "'a option \<Rightarrow> ('a \<Rightarrow> bool) \<Rightarrow> bool" where
  "meets limit P = (case limit of None \<Rightarrow> True | Some l \<Rightarrow> P l)"

definition conforms_number ::
  "bool \<Rightarrow> jnum option \<Rightarrow> jnum option \<Rightarrow> jnum option \<Rightarrow> jnum option \<Rightarrow> jnum option \<Rightarrow> hval \<Rightarrow> bool" where
  "conforms_number integer lo hi elo ehi mul v =
     (case v of
        HNum n \<Rightarrow>
          num_finite n \<and> (integer \<longrightarrow> num_is_integer n) \<and> meets lo (\<lambda>m. \<not> num_less n m) \<and> meets hi (\<lambda>m. \<not> num_less m n) \<and>
          meets elo (\<lambda>m. num_less m n) \<and> meets ehi (\<lambda>m. num_less n m) \<and> meets mul (isMultipleOf n)
      | _ \<Rightarrow> False)"

definition conforms_string ::
  "validation_platform \<Rightarrow> compiled_plan \<Rightarrow> hval \<Rightarrow> nat option \<Rightarrow> nat option \<Rightarrow> bool \<Rightarrow> jstring option \<Rightarrow> hval \<Rightarrow> bool" where
  "conforms_string vp c plan lo hi hasPattern format v =
     (case v of
        HStr s \<Rightarrow>
          meets lo (\<lambda>m. m \<le> length (code_points s)) \<and> meets hi (\<lambda>m. length (code_points s) \<le> m) \<and>
          (hasPattern \<longrightarrow>
             (case Option.bind (jm_get (vc_patterns c) (ref_addr plan)) (vp_regex vp) of None \<Rightarrow> False | Some test \<Rightarrow> test s)) \<and>
          meets format (validateValidationFormat (vp_protocol vp) s)
      | _ \<Rightarrow> False)"

definition item_ok :: "heap \<Rightarrow> (hval \<Rightarrow> hval \<Rightarrow> bool) \<Rightarrow> hval \<Rightarrow> nat \<times> hval \<Rightarrow> bool" where
  "item_ok h ok v = (\<lambda>(i, p). case arr_item h v i of Reads x \<Rightarrow> ok p x | Throws \<Rightarrow> False)"

definition rest_ok :: "heap \<Rightarrow> (hval \<Rightarrow> hval \<Rightarrow> bool) \<Rightarrow> hval \<Rightarrow> hval \<Rightarrow> nat \<Rightarrow> bool" where
  "rest_ok h ok v p i = (p = HBool True \<or> (p \<noteq> HBool False \<and> item_ok h ok v (i, p)))"

definition conforms_array ::
  "heap \<Rightarrow> (hval \<Rightarrow> hval \<Rightarrow> bool) \<Rightarrow> hval option \<Rightarrow> hval list \<Rightarrow> nat option \<Rightarrow> nat option \<Rightarrow> hval \<Rightarrow> bool" where
  "conforms_array h ok items prefixItems lo hi v =
     (case safe_length (arr_length h v) of
        None \<Rightarrow> False
      | Some n \<Rightarrow>
          meets lo (\<lambda>m. m \<le> n) \<and> meets hi (\<lambda>m. n \<le> m) \<and>
          list_all (item_ok h ok v) (take n (zip [0..<length prefixItems] prefixItems)) \<and>
          meets items (\<lambda>p. list_all (rest_ok h ok v p) [length prefixItems..<n]))"

definition conforms_tuple :: "heap \<Rightarrow> (hval \<Rightarrow> hval \<Rightarrow> bool) \<Rightarrow> hval list \<Rightarrow> hval option \<Rightarrow> hval \<Rightarrow> bool" where
  "conforms_tuple h ok items rest v =
     (case safe_length (arr_length h v) of
        None \<Rightarrow> False
      | Some n \<Rightarrow>
          length items \<le> n \<and> list_all (item_ok h ok v) (zip [0..<length items] items) \<and>
          (case rest of
             None \<Rightarrow> n = length items
           | Some p \<Rightarrow> list_all (\<lambda>i. item_ok h ok v (i, p)) [length items..<n]))"

definition property_ok :: "heap \<Rightarrow> (hval \<Rightarrow> hval \<Rightarrow> bool) \<Rightarrow> hval \<Rightarrow> jstring \<times> hval \<Rightarrow> bool" where
  "property_ok h ok v = (\<lambda>(key, p). case readOwnValue h v key of NotFound \<Rightarrow> True | Threw \<Rightarrow> False | Found x \<Rightarrow> ok p x)"

definition additional_ok :: "heap \<Rightarrow> nat \<Rightarrow> (hval \<Rightarrow> hval \<Rightarrow> bool) \<Rightarrow> jstring list \<Rightarrow> hval \<Rightarrow> hval \<Rightarrow> bool" where
  "additional_ok h bound ok names v p =
     (p = HBool True \<or>
      (case known_keys h bound v of
         None \<Rightarrow> False
       | Some keys \<Rightarrow>
           list_all (\<lambda>key. p \<noteq> HBool False \<and> (case readOwnValue h v key of Found x \<Rightarrow> ok p x | _ \<Rightarrow> False))
             (filter (\<lambda>key. key \<notin> set names) keys)))"

definition conforms_object ::
  "heap \<Rightarrow> nat \<Rightarrow> (hval \<Rightarrow> hval \<Rightarrow> bool) \<Rightarrow> (jstring \<times> hval) list \<Rightarrow> jstring list \<Rightarrow> hval option \<Rightarrow> hval \<Rightarrow> bool" where
  "conforms_object h bound ok properties required additional v =
     (list_all (\<lambda>key. has_own h v key = Some True) required \<and> list_all (property_ok h ok v) properties \<and>
      meets additional (additional_ok h bound ok (map fst properties) v))"

section \<open>Plans\<close>

type_synonym ref_stack = "(jstring \<times> hval) list"

definition conforms_kind ::
  "validation_platform \<Rightarrow> heap \<Rightarrow> compiled_plan \<Rightarrow> (nat list \<Rightarrow> ref_stack \<Rightarrow> hval \<Rightarrow> hval \<Rightarrow> bool) \<Rightarrow>
   nat list \<Rightarrow> ref_stack \<Rightarrow> hval \<Rightarrow> hval \<Rightarrow> bool" where
  "conforms_kind vp h c ok A F plan v =
     (let bound = maxProperties (vc_limits c); inner = ok (jset_add (ref_addr v) A) F in
      case node_of h plan of
        AnyPlan \<Rightarrow> True
      | NeverPlan \<Rightarrow> False
      | NullPlan \<Rightarrow> v = HNull
      | BooleanPlan \<Rightarrow> is_bool v
      | StringPlan lo hi hasPattern format \<Rightarrow> conforms_string vp c plan lo hi hasPattern format v
      | NumberPlan integer lo hi elo ehi mul \<Rightarrow> conforms_number integer lo hi elo ehi mul v
      | LiteralPlan literal \<Rightarrow> literal_equal h bound literal v
      | EnumPlan candidates \<Rightarrow> list_ex (\<lambda>x. literal_equal h bound x v) candidates
      | ArrayPlan items prefixItems lo hi \<Rightarrow>
          safeIsArray h v \<and> ref_addr v \<notin> set A \<and> conforms_array h inner items prefixItems lo hi v
      | TuplePlan items rest \<Rightarrow> safeIsArray h v \<and> ref_addr v \<notin> set A \<and> conforms_tuple h inner items rest v
      | ObjectPlan properties required additional \<Rightarrow>
          isPlainObject h v \<and> ref_addr v \<notin> set A \<and> conforms_object h bound inner properties required additional v
      | UnionPlan branches oneOf \<Rightarrow>
          (let matching = length (filter (\<lambda>p. ok A F p v) branches) in if oneOf then matching = 1 else 0 < matching)
      | IntersectionPlan branches \<Rightarrow> list_all (\<lambda>p. ok A F p v) branches
      | RefPlan name \<Rightarrow>
          (let reference = normalizeReference vp name in
           case ref_target c reference of
             None \<Rightarrow> False
           | Some target \<Rightarrow>
               \<not> list_ex (\<lambda>(n, x). n = reference \<and> sameReferenceValue x v) F \<and> ok A (F @ [(reference, v)]) target v)
      | UnsupportedPlan \<Rightarrow> False)"

function conforms ::
  "validation_platform \<Rightarrow> heap \<Rightarrow> compiled_plan \<Rightarrow> nat \<Rightarrow> nat list \<Rightarrow> ref_stack \<Rightarrow> hval \<Rightarrow> hval \<Rightarrow> bool" where
  "conforms vp h c depth A F plan v =
     (if is_bool plan then plan = HBool True
      else if h_truthy (value_at h plan ''optional'') \<and> v = HUndef then True
      else if h_truthy (value_at h plan ''nullable'') \<and> v = HNull then True
      else if depth > maxDepth (vc_limits c) then False
      else conforms_kind vp h c (\<lambda>A' F' p x. conforms vp h c (Suc depth) A' F' p x) A F plan v)"
  by pat_completeness auto
termination
  by (relation "measure (\<lambda>(_, _, c, depth, _). Suc (maxDepth (vc_limits c)) - depth)") auto

declare conforms.simps [simp del]

end
