(* ===== verification/Validation_Refines.thy ===== *)
theory Validation_Refines
  imports Validation_Reference
begin

text \<open>
  The evaluator implements the reference: unless the operations run out, the verdict of every step is
  the one the reference gives, whatever collectors, counters and paths it carries. The facts follow
  the structure of the steps.
\<close>

section \<open>Steps that decide\<close>

definition decides :: "compiled_plan \<Rightarrow> nat list \<Rightarrow> ref_stack \<Rightarrow> bool \<Rightarrow> step \<Rightarrow> bool" where
  "decides c A F P f \<longleftrightarrow>
     (\<forall>st. evolves UNIV c st (snd (f st)) \<and>
        (vs_active st = A \<longrightarrow> vs_refs st = F \<longrightarrow> \<not> vs_limitReported (snd (f st)) \<longrightarrow> fst (f st) = P))"

definition decides_body :: "compiled_plan \<Rightarrow> nat list \<Rightarrow> ref_stack \<Rightarrow> bool \<Rightarrow> (vstate \<Rightarrow> bool option \<times> vstate) \<Rightarrow> bool" where
  "decides_body c A F P f \<longleftrightarrow>
     (\<forall>st. evolves UNIV c st (snd (f st)) \<and>
        (vs_active st = A \<longrightarrow> vs_refs st = F \<longrightarrow> \<not> vs_limitReported (snd (f st)) \<longrightarrow> fst (f st) = Some P))"

lemma decidesI:
  "(\<And>st b st'. f st = (b, st') \<Longrightarrow> evolves UNIV c st st' \<and>
      (vs_active st = A \<longrightarrow> vs_refs st = F \<longrightarrow> \<not> vs_limitReported st' \<longrightarrow> b = P)) \<Longrightarrow> decides c A F P f"
  unfolding decides_def by (metis prod.collapse)

lemma decidesD:
  "decides c A F P f \<Longrightarrow> f st = (b, st') \<Longrightarrow> evolves UNIV c st st' \<and>
      (vs_active st = A \<longrightarrow> vs_refs st = F \<longrightarrow> \<not> vs_limitReported st' \<longrightarrow> b = P)"
  by (auto simp: decides_def dest: spec [of _ st])

lemma decides_bodyI:
  "(\<And>st b st'. f st = (b, st') \<Longrightarrow> evolves UNIV c st st' \<and>
      (vs_active st = A \<longrightarrow> vs_refs st = F \<longrightarrow> \<not> vs_limitReported st' \<longrightarrow> b = Some P)) \<Longrightarrow> decides_body c A F P f"
  unfolding decides_body_def by (metis prod.collapse)

lemma decides_bodyD:
  "decides_body c A F P f \<Longrightarrow> f st = (b, st') \<Longrightarrow> evolves UNIV c st st' \<and>
      (vs_active st = A \<longrightarrow> vs_refs st = F \<longrightarrow> \<not> vs_limitReported st' \<longrightarrow> b = Some P)"
  by (auto simp: decides_body_def dest: spec [of _ st])

text \<open>What an evaluation leaves as it was, and the limit that stays reported.\<close>

lemma evolves_frame:
  "evolves codes c st st' \<Longrightarrow> vs_active st' = vs_active st \<and> vs_refs st' = vs_refs st \<and>
     (\<not> vs_limitReported st' \<longrightarrow> \<not> vs_limitReported st)"
  by (auto simp: evolves_def)

lemma add_issue_limit [simp]: "vs_limitReported (add_issue_at c path code msg st) = vs_limitReported st"
  by (simp add: add_issue_at_def Let_def split: option.split)

lemma decides_const: "good UNIV c f \<Longrightarrow> (\<And>st. fst (f st) = P) \<Longrightarrow> decides c A F P f"
  by (simp add: decides_def good_def)

lemma decides_True: "decides c A F True (Pair True)"
  by (rule decides_const [OF good_True]) simp

lemma decides_fail: "decides c A F False (fail_with c path code msg)"
  by (rule decides_const [OF good_fail]) (simp_all add: fail_with_def)

lemma decides_type: "decides c A F False (\<lambda>st. (False, addTypeIssue c h path expected v st))"
  by (rule decides_const [OF good_type]) simp_all

lemma decides_bound: "decides c A F (meets limit (\<lambda>l. \<not> violated l)) (bound_check c path limit violated code msg)"
  by (rule decides_const [OF good_bound]) (auto simp: bound_check_def meets_def fail_with_def split: option.split)

lemma decides_result: "decides c A F P f \<Longrightarrow> decides_body c A F P (result_of f)"
  by (rule decides_bodyI) (auto simp: result_of_def split: prod.splits dest: decidesD)

lemma decides_body_True: "decides_body c A F True (Pair (Some True))"
  by (rule decides_bodyI) auto

lemma decides_both:
  assumes "decides c A F P f" "decides c A F Q g"
  shows "decides c A F (P \<and> Q) (both f g)"
proof (rule decidesI)
  fix st b st'
  assume step: "both f g st = (b, st')"
  obtain b1 st1 where f: "f st = (b1, st1)" by (cases "f st")
  obtain b2 st2 where g: "g st1 = (b2, st2)" by (cases "g st1")
  from decidesD [OF assms(1) f] decidesD [OF assms(2) g] step f g
  show "evolves UNIV c st st' \<and> (vs_active st = A \<longrightarrow> vs_refs st = F \<longrightarrow> \<not> vs_limitReported st' \<longrightarrow> b = (P \<and> Q))"
    by (auto simp: both_def dest: evolves_frame intro: evolves_trans)
qed

lemma decides_each:
  "(\<And>x. x \<in> set xs \<Longrightarrow> decides_body c A F (P x) (body x)) \<Longrightarrow> decides c A F (list_all P xs) (each body xs)"
proof (induction xs)
  case (Cons x xs)
  then have rest: "decides c A F (list_all P xs) (each body xs)" and x: "decides_body c A F (P x) (body x)" by auto
  show ?case
  proof (rule decidesI)
    fix st b st'
    assume step: "each body (x # xs) st = (b, st')"
    obtain o1 st1 where o: "body x st = (o1, st1)" by (cases "body x st")
    from decides_bodyD [OF x o] decidesD [OF rest, of st1] step o
    show "evolves UNIV c st st' \<and> (vs_active st = A \<longrightarrow> vs_refs st = F \<longrightarrow> \<not> vs_limitReported st' \<longrightarrow> b = list_all P (x # xs))"
      by (auto split: option.splits prod.splits dest: evolves_frame intro: evolves_trans)
  qed
qed (auto intro: decides_True simp: decides_def)

lemma decides_value:
  assumes "decides c (jset_add (ref_addr v) A) F P body"
  shows "decides c A F (ref_addr v \<notin> set A \<and> P) (within_value c v path body)"
  by (rule decidesI)
    (auto simp: within_value_def fail_with_def Let_def evolves_add split: prod.splits if_splits
      dest!: decidesD [OF assms] intro: evolves_value)

lemma decides_ref:
  assumes "decides c A (F @ [(reference, v)]) P body"
  shows "decides c A F P (within_ref reference v body)"
  by (rule decidesI)
    (auto simp: within_ref_def split: prod.splits dest!: decidesD [OF assms] intro: evolves_ref)

lemma consume_cases:
  assumes "consumeOperation c path st = (b, st')"
  shows "evolves UNIV c st st'" "\<not> b \<Longrightarrow> vs_limitReported st'"
  using assms any.consume_step [OF assms] by (auto simp: consumeOperation_def split: if_splits)

lemma decides_after_consume:
  assumes "decides c A F P f"
  shows "decides c A F P (\<lambda>st. case consumeOperation c path st of (False, st') \<Rightarrow> (False, st') | (True, st') \<Rightarrow> f st')"
proof (rule decidesI)
  fix st b st'
  assume step: "(case consumeOperation c path st of (False, st') \<Rightarrow> (False, st') | (True, st') \<Rightarrow> f st') = (b, st')"
  obtain b1 st1 where s: "consumeOperation c path st = (b1, st1)" by (cases "consumeOperation c path st")
  from step s consume_cases [OF s] decidesD [OF assms, of st1]
  show "evolves UNIV c st st' \<and> (vs_active st = A \<longrightarrow> vs_refs st = F \<longrightarrow> \<not> vs_limitReported st' \<longrightarrow> b = P)"
    by (cases b1) (auto dest: evolves_frame intro: evolves_trans)
qed

lemma decides_counted:
  assumes "decides_body c A F P f"
  shows "decides_body c A F P (counted c path f)"
proof (rule decides_bodyI)
  fix st b st'
  assume step: "counted c path f st = (b, st')"
  obtain b1 st1 where s: "consumeOperation c path st = (b1, st1)" by (cases "consumeOperation c path st")
  from step s consume_cases [OF s] decides_bodyD [OF assms, of st1]
  show "evolves UNIV c st st' \<and> (vs_active st = A \<longrightarrow> vs_refs st = F \<longrightarrow> \<not> vs_limitReported st' \<longrightarrow> b = Some P)"
    by (cases b1) (auto simp: counted_def dest: evolves_frame intro: evolves_trans)
qed

text \<open>A guard that adds an issue, and a guard that goes on.\<close>

lemma decides_unless:
  "decides c A F False f \<Longrightarrow> decides c A F P g \<Longrightarrow> decides c A F (\<not> b \<and> P) (\<lambda>st. if b then f st else g st)"
  by (cases b) simp_all

lemma decides_cong: "decides c A F Q f \<Longrightarrow> Q = P \<Longrightarrow> decides c A F P f"
  by simp

section \<open>Literals\<close>

lemma read_keys_loop_known:
  "read_keys_loop c path ks keys st = (r, st') \<Longrightarrow> \<not> vs_limitReported st' \<Longrightarrow> length keys \<le> maxProperties (vc_limits c) \<Longrightarrow>
     r = (if length keys + length ks > maxProperties (vc_limits c) then Inl KeysMaxProperties else Inr (sort (keys @ ks)))"
proof (induction ks arbitrary: keys st)
  case (Cons k ks)
  obtain b st1 where s: "consumeOperation c (path @ [PKey k]) st = (b, st1)"
    by (cases "consumeOperation c (path @ [PKey k]) st")
  with Cons.prems consume_cases [OF s] Cons.IH [of "keys @ [k]" st1] show ?case
    by (cases b) (auto split: if_splits)
qed simp

lemma readKeys_known:
  assumes "readKeys c h v path st = (r, st')" "\<not> vs_limitReported st'"
  shows "known_keys h (maxProperties (vc_limits c)) v = (case r of Inr ks \<Rightarrow> Some ks | Inl _ \<Rightarrow> None)"
proof -
  obtain b st1 where s: "consumeOperation c path st = (b, st1)" by (cases "consumeOperation c path st")
  with assms consume_cases [OF s] show ?thesis
    by (cases b) (auto simp: readKeys_def known_keys_def split: option.splits dest!: read_keys_loop_known)
qed

definition strip :: "equal_pair list \<Rightarrow> (hval \<times> hval) list" where
  "strip = map (\<lambda>(l, r, _). (l, r))"

lemma strip_simps [simp]: "strip [] = []" "strip ((l, r, path) # ps) = (l, r) # strip ps" "strip (ps @ qs) = strip ps @ strip qs"
  by (simp_all add: strip_def)

lemma collect_options_append:
  "collect_options (xs @ ys) =
     (case collect_options xs of None \<Rightarrow> None | Some us \<Rightarrow> map_option ((@) us) (collect_options ys))"
  by (cases "collect_options ys"; induction xs rule: collect_options.induct) (auto split: option.splits)

lemma collect_options_rev: "collect_options (rev xs) = map_option rev (collect_options xs)"
  by (induction xs rule: collect_options.induct) (auto simp: collect_options_append split: option.splits)

lemma push_pairs_known:
  "push_pairs c items pairs st = (r, st') \<Longrightarrow> \<not> vs_limitReported st' \<Longrightarrow>
     map_option strip r = map_option (\<lambda>vs. rev vs @ strip pairs) (collect_options (map snd items))"
proof (induction items arbitrary: pairs st)
  case (Cons item items)
  obtain path vals where item: "item = (path, vals)" by (cases item)
  obtain b st1 where s: "consumeOperation c path st = (b, st1)" by (cases "consumeOperation c path st")
  with item Cons.prems consume_cases [OF s] Cons.IH [of _ st1] show ?case
    by (cases b; cases vals) (auto simp: option.map_comp comp_def split: prod.splits)
qed auto

lemma agreeing_all: "length ks = length ks' \<Longrightarrow> agreeing_names ks ks' = ks \<longleftrightarrow> ks = ks'"
  by (induction ks ks' rule: list_induct2) auto

lemma agreeing_self [simp]: "agreeing_names ks ks = ks"
  by (induction ks) auto

lemma push_all_known:
  "push_pairs c (map (\<lambda>x. (path x, f x)) (rev xs)) [] st = (q, st') \<Longrightarrow> \<not> vs_limitReported st' \<Longrightarrow>
     map_option strip q = collect_options (map f xs)"
  by (cases "collect_options (map f xs)")
    (auto simp: comp_def collect_options_rev simp flip: rev_map dest!: push_pairs_known)

lemma array_pairs_known:
  assumes "array_pairs c h l r path st = (q, st')" "\<not> vs_limitReported st'" "safeIsArray h l"
  shows "map_option strip q = child_pairs h (maxProperties (vc_limits c)) l r"
proof -
  obtain b st1 where s: "consumeOperation c path st = (b, st1)" by (cases "consumeOperation c path st")
  with assms consume_cases [OF s] show ?thesis
    by (cases b)
      (auto simp: array_pairs_def child_pairs_def split: option.splits if_splits dest!: push_all_known)
qed

lemma object_pairs_known:
  assumes "object_pairs c h l r path st = (q, st')" "\<not> vs_limitReported st'" "\<not> safeIsArray h l"
  shows "map_option strip q = child_pairs h (maxProperties (vc_limits c)) l r"
proof -
  obtain lk st1 where lk: "readKeys c h l path st = (lk, st1)" by (cases "readKeys c h l path st")
  obtain rk st2 where rk: "readKeys c h r path st1 = (rk, st2)" by (cases "readKeys c h r path st1")
  show ?thesis
  proof (cases "isPlainObject h l \<and> isPlainObject h r")
    case True
    have "evolves UNIV c st2 st'" using assms(1) True lk rk
      by (auto simp: object_pairs_def Let_def split: sum.splits prod.splits if_splits dest: any.evolves_push)
    moreover have "evolves UNIV c st1 st2" using any.evolves_keys [OF rk] by simp
    ultimately have l: "\<not> vs_limitReported st2" "\<not> vs_limitReported st1"
      using assms(2) by (auto dest: evolves_frame)
    show ?thesis
      using assms True lk rk readKeys_known [OF lk l(2)] readKeys_known [OF rk l(1)]
      by (auto simp: object_pairs_def child_pairs_def Let_def agreeing_all
          split: sum.splits prod.splits if_splits dest!: push_all_known)
  qed (use assms in \<open>auto simp: object_pairs_def child_pairs_def\<close>)
qed

lemma next_pairs_known:
  "next_pairs c h l r path st = (q, st') \<Longrightarrow> \<not> vs_limitReported st' \<Longrightarrow>
     map_option strip q = child_pairs h (maxProperties (vc_limits c)) l r"
  by (auto simp: next_pairs_def split: if_splits dest: array_pairs_known object_pairs_known)


lemma deep_loop_known:
  "deep_loop c h seen pending st = (b, st') \<Longrightarrow> \<not> vs_limitReported st' \<Longrightarrow>
     b = same_loop h (maxProperties (vc_limits c)) seen (strip pending)"
proof (induction c h seen pending st rule: deep_loop.induct)
  case (2 c h seen l r path pending st)
  obtain b1 st1 where s: "consumeOperation c path st = (b1, st1)" by (cases "consumeOperation c path st")
  have b1: "b1"
    using s "2.prems" consume_cases [OF s] by (cases b1) (auto simp: deep_loop.simps)
  show ?case
  proof (cases "object_is l r")
    case True
    with "2.prems" s b1 "2.IH"(1) show ?thesis by (simp add: deep_loop.simps same_loop.simps)
  next
    case False
    show ?thesis
    proof (cases "is_ref l \<and> is_ref r \<and> safeIsArray h l = safeIsArray h r")
      case refs: True
      show ?thesis
      proof (cases "jm_get seen l")
        case None
        obtain q st2 where q: "next_pairs c h l r path st1 = (q, st2)" by (cases "next_pairs c h l r path st1")
        have run: "(case q of None \<Rightarrow> (False, st2) | Some pairs \<Rightarrow> deep_loop c h (jm_set l r seen) (pairs @ pending) st2) = (b, st')"
          using "2.prems" s b1 False refs None q by (simp add: deep_loop.simps split: option.splits)
        have "\<not> vs_limitReported st2"
          using run "2.prems"(2) any.evolves_deep_loop [of c h _ _ st2 b st' c h]
          by (auto split: option.splits dest: evolves_frame)
        with next_pairs_known [OF q] have "child_pairs h (maxProperties (vc_limits c)) l r = map_option strip q" by simp
        with run "2.prems" s b1 False refs None q "2.IH"(2) show ?thesis
          by (cases q) (auto simp: same_loop.simps)
      next
        case (Some previous)
        with "2.prems" s b1 False refs "2.IH"(3) show ?thesis
          by (auto simp: deep_loop.simps same_loop.simps split: if_splits)
      qed
    qed (use "2.prems" s b1 False in \<open>auto simp: deep_loop.simps same_loop.simps split: if_splits\<close>)
  qed
qed (simp add: deep_loop.simps same_loop.simps)

lemma deepEqual_known:
  "deepEqual c h l r path st = (b, st') \<Longrightarrow> evolves UNIV c st st' \<and>
     (\<not> vs_limitReported st' \<longrightarrow> b = literal_equal h (maxProperties (vc_limits c)) l r)"
  by (auto simp: any.evolves_deepEqual deepEqual_def literal_equal_def dest: deep_loop_known)

section \<open>The kinds of plans\<close>

lemma decides_literal:
  "decides c A F (literal_equal h (maxProperties (vc_limits c)) literal v) (evaluateLiteral c h literal v path)"
  by (rule decidesI)
    (auto simp: evaluateLiteral_def fail_with_def split: prod.splits bool.splits
      dest!: deepEqual_known intro: evolves_then_add)

lemma decides_enum:
  "decides c A F (list_ex (\<lambda>x. literal_equal h (maxProperties (vc_limits c)) x v) candidates) (enum_loop c h v path candidates)"
proof (induction candidates)
  case Nil
  show ?case using decides_fail by (simp add: decides_def)
next
  case (Cons x xs)
  let ?next = "\<lambda>st1. case deepEqual c h x v path st1 of
    (True, st2) \<Rightarrow> (True, st2) | (False, st2) \<Rightarrow> enum_loop c h v path xs st2"
  have "decides c A F (list_ex (\<lambda>x. literal_equal h (maxProperties (vc_limits c)) x v) (x # xs)) ?next"
  proof (rule decidesI)
    fix st b st'
    assume step: "?next st = (b, st')"
    obtain b1 st1 where d: "deepEqual c h x v path st = (b1, st1)" by (cases "deepEqual c h x v path st")
    show "evolves UNIV c st st' \<and> (vs_active st = A \<longrightarrow> vs_refs st = F \<longrightarrow> \<not> vs_limitReported st' \<longrightarrow>
        b = list_ex (\<lambda>x. literal_equal h (maxProperties (vc_limits c)) x v) (x # xs))"
      using step d deepEqual_known [OF d] decidesD [OF Cons, of st1 b st']
      by (cases b1) (auto intro: evolves_trans dest: evolves_frame)
  qed
  from decides_after_consume [OF this] show ?case by (simp add: decides_def)
qed

lemma decides_points: "decides c A F True (count_points c path points)"
proof (induction points)
  case (Cons p ps)
  from decides_after_consume [OF Cons] show ?case by (simp add: decides_def)
qed (auto intro: decidesI)

lemma decides_pattern:
  "decides c A F
     (present \<longrightarrow> (case Option.bind (jm_get (vc_patterns c) (ref_addr plan)) (vp_regex vp) of None \<Rightarrow> False | Some test \<Rightarrow> test s))
     (pattern_check vp c plan present s path)"
  by (rule decides_const [OF any.good_pattern]) (auto simp: pattern_check_def fail_with_def split: option.split)

lemma decides_then:
  assumes "decides c A F P f" "decides c A F Q g"
  shows "decides c A F (P \<and> Q) (\<lambda>st. case f st of (False, st') \<Rightarrow> (False, st') | (True, st') \<Rightarrow> g st')"
proof (rule decidesI)
  fix st b st'
  assume step: "(case f st of (False, st') \<Rightarrow> (False, st') | (True, st') \<Rightarrow> g st') = (b, st')"
  obtain b1 st1 where f: "f st = (b1, st1)" by (cases "f st")
  from decidesD [OF assms(1) f] decidesD [OF assms(2), of st1 b st'] step f
  show "evolves UNIV c st st' \<and> (vs_active st = A \<longrightarrow> vs_refs st = F \<longrightarrow> \<not> vs_limitReported st' \<longrightarrow> b = (P \<and> Q))"
    by (cases b1) (auto dest: evolves_frame intro: evolves_trans)
qed


lemma decides_number:
  "decides c A F (conforms_number integer lo hi elo ehi mul v) (evaluateNumber c h integer lo hi elo ehi mul v path)"
proof (cases "\<exists>n. v = HNum n \<and> num_finite n \<and> (integer \<longrightarrow> num_is_integer n)")
  case True
  then obtain n where n: "v = HNum n" "num_finite n" "integer \<longrightarrow> num_is_integer n" by blast
  have eq: "evaluateNumber c h integer lo hi elo ehi mul v path =
      both (bound_check c path lo (num_less n) ''minimum'' (\<lambda>m. js ''Value must be at least '' @ num_string m @ js ''.''))
     (both (bound_check c path hi (\<lambda>m. num_less m n) ''maximum'' (\<lambda>m. js ''Value must be at most '' @ num_string m @ js ''.''))
     (both (bound_check c path elo (\<lambda>m. \<not> num_less m n) ''exclusiveMinimum''
              (\<lambda>m. js ''Value must be greater than '' @ num_string m @ js ''.''))
     (both (bound_check c path ehi (\<lambda>m. \<not> num_less n m) ''exclusiveMaximum''
              (\<lambda>m. js ''Value must be less than '' @ num_string m @ js ''.''))
           (bound_check c path mul (\<lambda>m. \<not> isMultipleOf n m) ''multipleOf''
              (\<lambda>m. js ''Value must be a multiple of '' @ num_string m @ js ''.'')))))"
    using n by (auto simp: evaluateNumber_def)
  show ?thesis
    unfolding eq by (rule decides_cong, (rule decides_both decides_bound)+) (use n in \<open>simp add: conforms_number_def\<close>)
next
  case False
  then have "evaluateNumber c h integer lo hi elo ehi mul v path =
      (\<lambda>st. (False, addTypeIssue c h path (if integer then ''integer'' else ''number'') v st))"
    by (cases v) (auto simp: evaluateNumber_def)
  moreover have "\<not> conforms_number integer lo hi elo ehi mul v"
    using False by (cases v) (auto simp: conforms_number_def)
  ultimately show ?thesis using decides_type by simp
qed

lemma decides_string:
  "decides c A F (conforms_string vp c plan lo hi hasPattern format v)
     (evaluateString vp c h plan lo hi hasPattern format v path)"
proof (cases "\<exists>s. v = HStr s")
  case True
  then obtain s where s: "v = HStr s" by blast
  show ?thesis
    unfolding evaluateString_def Let_def s hval.case
    by (rule decides_cong, (rule decides_then decides_points decides_both decides_bound decides_pattern)+)
      (simp add: conforms_string_def not_less)
next
  case False
  then have "evaluateString vp c h plan lo hi hasPattern format v path = (\<lambda>st. (False, addTypeIssue c h path ''string'' v st))"
    by (cases v) (auto simp: evaluateString_def)
  moreover have "\<not> conforms_string vp c plan lo hi hasPattern format v"
    using False by (cases v) (auto simp: conforms_string_def)
  ultimately show ?thesis using decides_type by simp
qed

section \<open>Compound plans\<close>

text \<open>An evaluator that decides \<open>ok\<close> below the values \<open>A\<close> and the references \<open>F\<close>.\<close>

definition decides_ev ::
  "compiled_plan \<Rightarrow> (nat list \<Rightarrow> ref_stack \<Rightarrow> hval \<Rightarrow> hval \<Rightarrow> bool) \<Rightarrow> evaluator \<Rightarrow> bool" where
  "decides_ev c ok ev \<longleftrightarrow> (\<forall>A F p v path. decides c A F (ok A F p v) (ev p v path))"

lemma decides_evD: "decides_ev c ok ev \<Longrightarrow> decides c A F (ok A F p v) (ev p v path)"
  by (simp add: decides_ev_def)

lemma decides_item:
  "decides_ev c ok ev \<Longrightarrow> decides_body c A F (item_ok h (ok A F) v ip) (item_step c h ev v path ip)"
  unfolding item_step_def item_ok_def
  by (cases ip; cases "arr_item h v (fst ip)")
    (auto intro!: decides_counted decides_result decides_fail decides_evD)

lemma decides_rest_step:
  "decides_ev c ok ev \<Longrightarrow>
     decides_body c A F (meets items (\<lambda>p. rest_ok h (ok A F) v p index)) (rest_step c h ev items v path index)"
  unfolding rest_step_def rest_ok_def meets_def
  using decides_item [of c ok ev A F h v "(index, the items)" path]
  by (cases items)
    (auto intro!: decides_counted decides_result decides_fail decides_body_True)

lemma decides_required: "decides_body c A F (has_own h v key = Some True) (required_step c h v path key)"
  unfolding required_step_def
  by (cases "has_own h v key"; cases "the (has_own h v key)")
    (auto intro!: decides_counted decides_result decides_fail decides_body_True)

lemma decides_property:
  "decides_ev c ok ev \<Longrightarrow> decides_body c A F (property_ok h (ok A F) v kp) (property_step c h ev v path kp)"
  unfolding property_step_def property_ok_def
  by (cases kp; cases "readOwnValue h v (fst kp)")
    (auto intro!: decides_counted decides_result decides_fail decides_body_True decides_evD)

lemma decides_additional_step:
  "decides_ev c ok ev \<Longrightarrow>
     decides_body c A F (extra \<noteq> HBool False \<and> (case readOwnValue h v key of Found x \<Rightarrow> ok A F extra x | _ \<Rightarrow> False))
       (additional_step c h ev extra v path key)"
  unfolding additional_step_def
  by (cases "readOwnValue h v key") (auto intro!: decides_result decides_fail decides_evD)

lemma decides_additional:
  assumes "decides_ev c ok ev"
  shows "decides c A F (meets additional (additional_ok h (maxProperties (vc_limits c)) (ok A F) names v))
    (additional_properties c h ev names additional v path)"
proof (cases additional)
  case None
  then show ?thesis by (auto simp: additional_properties_def meets_def intro: decidesI)
next
  case (Some extra)
  show ?thesis
  proof (rule decidesI)
    fix st b st'
    assume step: "additional_properties c h ev names additional v path st = (b, st')"
    obtain r st1 where k: "readKeys c h v path st = (r, st1)" by (cases "readKeys c h v path st")
    have e: "decides c A F
        (list_all (\<lambda>key. extra \<noteq> HBool False \<and> (case readOwnValue h v key of Found x \<Rightarrow> ok A F extra x | _ \<Rightarrow> False)) xs)
        (each (additional_step c h ev extra v path) xs)" for xs
      by (intro decides_each decides_additional_step assms)
    have keys: "evolves UNIV c st st1" using any.evolves_keys [OF k] by simp
    show "evolves UNIV c st st' \<and> (vs_active st = A \<longrightarrow> vs_refs st = F \<longrightarrow> \<not> vs_limitReported st' \<longrightarrow>
        b = meets additional (additional_ok h (maxProperties (vc_limits c)) (ok A F) names v))"
    proof (cases "extra = HBool True")
      case True
      with step show ?thesis by (auto simp: additional_properties_def Some meets_def additional_ok_def)
    next
      case False
      show ?thesis
      proof (cases r)
        case (Inl error)
        with False step k keys readKeys_known [OF k] show ?thesis
          by (cases error) (auto simp: additional_properties_def Some meets_def additional_ok_def fail_with_def
              intro: evolves_then_add)
      next
        case (Inr ks)
        with False step k have run: "each (additional_step c h ev extra v path) (filter (\<lambda>key. key \<notin> set names) ks) st1 = (b, st')"
          by (simp add: additional_properties_def Some)
        from decidesD [OF e this] keys readKeys_known [OF k] Inr False show ?thesis
          by (auto simp: Some meets_def additional_ok_def dest: evolves_frame intro: evolves_trans)
      qed
    qed
  qed
qed


lemma decides_length:
  assumes "\<And>n. safe_length (arr_length h v) = Some n \<Longrightarrow> decides c A F (P n) (body n)"
  shows "decides c A F (case safe_length (arr_length h v) of None \<Rightarrow> False | Some n \<Rightarrow> P n) (with_length c h v path body)"
  by (rule decidesI)
    (auto simp: with_length_def readArrayLength_def evolves_add split: option.splits dest: decidesD [OF assms])

lemma decides_array:
  assumes "decides_ev c ok ev"
  shows "decides c A F
    (safeIsArray h v \<and> ref_addr v \<notin> set A \<and> conforms_array h (ok (jset_add (ref_addr v) A) F) items prefixItems lo hi v)
    (evaluateArray c h ev items prefixItems lo hi v path)"
proof -
  have rest: "list_all (\<lambda>i. meets items (\<lambda>p. rest_ok h ok' v p i)) is = meets items (\<lambda>p. list_all (rest_ok h ok' v p) is)"
    for ok' "is" by (cases items) (auto simp: meets_def list_all_iff)
  show ?thesis
    unfolding evaluateArray_def conforms_array_def
    by (rule decides_cong,
        rule decides_unless [OF decides_type decides_value [OF decides_length]],
        (rule decides_both decides_bound decides_each decides_item [OF assms] decides_rest_step [OF assms])+)
      (simp add: not_less rest split: option.split)
qed

lemma decides_tuple:
  assumes "decides_ev c ok ev"
  shows "decides c A F
    (safeIsArray h v \<and> ref_addr v \<notin> set A \<and> conforms_tuple h (ok (jset_add (ref_addr v) A) F) items rest v)
    (evaluateTuple c h ev items rest v path)"
proof -
  have step: "decides_body c A' F (fst ip < n \<and> item_ok h (ok A' F) v ip) (tuple_step c h ev n v path ip)" for A' n ip
    using decides_item [OF assms, of A' F h v ip path] unfolding tuple_step_def
    by (cases ip) (auto intro!: decides_counted decides_result decides_fail)
  have more: "decides c A' F
      (n \<le> length items \<or> (case rest of None \<Rightarrow> False | Some p \<Rightarrow> list_all (\<lambda>i. item_ok h (ok A' F) v (i, p)) [length items..<n]))
      (\<lambda>st. if n \<le> length items then (True, st)
        else (case rest of
                None \<Rightarrow> fail_with c pa code msg st
              | Some plan \<Rightarrow> each (\<lambda>index. item_step c h ev v path (index, plan)) [length items..<n] st))"
    for A' n pa code msg
    using decides_True decides_fail
    by (cases "n \<le> length items"; cases rest) (auto intro!: decides_each decides_item assms)
  have all: "list_all (\<lambda>ip. fst ip < n \<and> Q ip) (zip [0..<length items] items) \<longleftrightarrow>
      length items \<le> n \<and> list_all Q (zip [0..<length items] items)" for Q n
  proof -
    have "list_all (\<lambda>ip. fst ip < n) (zip [0..<length items] items) = list_all (\<lambda>i. i < n) (map fst (zip [0..<length items] items))"
      by (simp only: list.pred_map comp_def)
    also have "map fst (zip [0..<length items] items) = [0..<length items]" by simp
    also have "list_all (\<lambda>i. i < n) [0..<length items] \<longleftrightarrow> length items \<le> n"
      by (auto simp: list_all_iff not_less dest: spec [of _ n] intro: leI)
    finally show ?thesis by (auto simp: list_all_iff)
  qed
  show ?thesis
    unfolding evaluateTuple_def conforms_tuple_def
    by (rule decides_cong,
        rule decides_unless [OF decides_type decides_value [OF decides_length]],
        (rule decides_both decides_each step more)+)
      (auto simp: all split: option.split)
qed

lemma decides_object:
  assumes "decides_ev c ok ev"
  shows "decides c A F
    (isPlainObject h v \<and> ref_addr v \<notin> set A \<and>
       conforms_object h (maxProperties (vc_limits c)) (ok (jset_add (ref_addr v) A) F) properties required additional v)
    (evaluateObject c h ev properties required additional v path)"
  unfolding evaluateObject_def conforms_object_def
  by (rule decides_cong,
      rule decides_unless [OF decides_type decides_value],
      (rule decides_both decides_each decides_required decides_property [OF assms] decides_additional [OF assms])+)
    (auto simp: list_all_iff)

lemma decides_matches:
  assumes "decides_ev c ok ev"
  shows "count_matches c ev v path branches n st = (m, st') \<Longrightarrow> evolves UNIV c st st' \<and>
    (\<not> vs_limitReported st' \<longrightarrow> m = n + length (filter (\<lambda>p. ok (vs_active st) (vs_refs st) p v) branches))"
proof (induction branches arbitrary: n st)
  case (Cons p ps)
  obtain b1 st1 where s: "consumeOperation c path st = (b1, st1)" by (cases "consumeOperation c path st")
  obtain b2 st2 where w: "withCollector (ev p v path) st1 = (b2, st2)" by (cases "withCollector (ev p v path) st1")
  from w obtain st3 where e: "ev p v path (st1\<lparr>vs_branch := Some []\<rparr>) = (b2, st3)" "st2 = st3\<lparr>vs_branch := vs_branch st1\<rparr>"
    by (auto simp: withCollector_def Let_def split: prod.splits)
  from decidesD [OF decides_evD [OF assms] e(1)]
  have step: "evolves UNIV c st1 st2 \<and> (\<not> vs_limitReported st2 \<longrightarrow> b2 = ok (vs_active st1) (vs_refs st1) p v)"
    using e(2) by (auto intro: evolves_branch)
  show ?case
  proof (cases b1)
    case True
    with s w Cons.prems have run:
      "count_matches c ev v path ps (if b2 then n + 1 else n) st2 = (m, st')" by simp
    have frame: "evolves UNIV c st st2" using step consume_cases(1) [OF s] by (blast intro: evolves_trans)
    from evolves_frame [OF frame] evolves_frame [OF consume_cases(1) [OF s]] Cons.IH [OF run] step frame show ?thesis
      by (auto dest: evolves_frame intro: evolves_trans)
  qed (use s consume_cases [OF s] Cons.prems in auto)
qed simp

lemma decides_union:
  assumes "decides_ev c ok ev"
  shows "decides c A F
    (let matching = length (filter (\<lambda>p. ok A F p v) branches) in if oneOf then matching = 1 else 0 < matching)
    (evaluateUnion c ev branches oneOf v path)"
  by (rule decidesI)
    (auto simp: evaluateUnion_def fail_with_def Let_def split: prod.splits if_splits
      dest!: decides_matches [OF assms] intro: evolves_then_add)

lemma decides_intersection:
  "decides_ev c ok ev \<Longrightarrow> decides c A F (list_all (\<lambda>p. ok A F p v) branches) (evaluateIntersection c ev branches v path)"
  unfolding evaluateIntersection_def by (intro decides_each decides_counted decides_result decides_evD)

lemma decides_reference:
  assumes "decides_ev c ok ev"
  shows "decides c A F
    (let reference = normalizeReference vp name in
     case ref_target c reference of
       None \<Rightarrow> False
     | Some target \<Rightarrow>
         \<not> list_ex (\<lambda>(n, x). n = reference \<and> sameReferenceValue x v) F \<and> ok A (F @ [(reference, v)]) target v)
    (evaluateReference vp c ev name v path)"
proof -
  let ?reference = "normalizeReference vp name"
  have inner: "decides c A F (ok A (F @ [(?reference, v)]) target v) (within_ref ?reference v (ev target v path))" for target
    by (rule decides_ref, rule decides_evD [OF assms])
  have "decides c A F
     (case ref_target c ?reference of
       None \<Rightarrow> False
     | Some target \<Rightarrow>
         \<not> list_ex (\<lambda>(n, x). n = ?reference \<and> sameReferenceValue x v) F \<and> ok A (F @ [(?reference, v)]) target v)
    (\<lambda>st1. case ref_target c ?reference of
         None \<Rightarrow> fail_with c path ''ref'' (js ''Unknown validation reference '' @ json_quote ?reference @ js ''.'') st1
       | Some target \<Rightarrow>
           if list_ex (\<lambda>(n, x). n = ?reference \<and> sameReferenceValue x v) (vs_refs st1) then
             if is_ref v \<and> ref_addr v \<in> set (vs_active st1)
             then fail_with c path ''cycle'' (js ''Cyclic value encountered during validation.'') st1
             else fail_with c path ''refCycle'' (js ''Validation reference cycle did not consume a nested value.'') st1
           else within_ref ?reference v (ev target v path) st1)"
    by (rule decidesI)
      (auto simp: fail_with_def evolves_add split: option.splits if_splits
        dest: decidesD [OF decides_ref [OF decides_evD [OF assms]]])
  from decides_after_consume [OF this] show ?thesis
    unfolding evaluateReference_def Let_def by simp
qed

lemma decides_kind:
  assumes "decides_ev c ok ev"
  shows "decides c A F (conforms_kind vp h c ok A F plan v) (evaluate_kind vp h c ev plan v path)"
proof (cases "node_of h plan")
  case NullPlan
  then show ?thesis
    using decides_True decides_type by (cases "v = HNull") (simp_all add: evaluate_kind_def conforms_kind_def Let_def)
next
  case BooleanPlan
  then show ?thesis
    using decides_True decides_type by (cases "is_bool v") (simp_all add: evaluate_kind_def conforms_kind_def Let_def)
qed (simp_all add: evaluate_kind_def conforms_kind_def decides_True decides_fail decides_number decides_string
  decides_literal decides_enum decides_array [OF assms] decides_tuple [OF assms] decides_object [OF assms]
  decides_union [OF assms, unfolded Let_def] decides_intersection [OF assms] decides_reference [OF assms, unfolded Let_def]
  Let_def)

section \<open>Evaluation\<close>

lemma evaluate_decides: "decides c A F (conforms vp h c depth A F plan v) (evaluate vp h c depth plan v path)"
proof (induction "Suc (maxDepth (vc_limits c)) - depth" arbitrary: depth A F plan v path rule: less_induct)
  case less
  have ev: "decides_ev c (\<lambda>A' F' p x. conforms vp h c (Suc depth) A' F' p x) (\<lambda>p x pa s. evaluate vp h c (Suc depth) p x pa s)"
    if "\<not> depth > maxDepth (vc_limits c)"
    using that less.hyps by (auto simp: decides_ev_def)
  have "decides c A F (conforms vp h c depth A F plan v) (\<lambda>st1.
      if is_bool plan then
        (if plan = HBool True then (True, st1)
         else fail_with c path ''never'' (js ''Value is not allowed.'') st1)
      else if h_truthy (value_at h plan ''optional'') \<and> v = HUndef then (True, st1)
      else if h_truthy (value_at h plan ''nullable'') \<and> v = HNull then (True, st1)
      else if depth > maxDepth (vc_limits c) then
        fail_with c path ''maxDepth'' (js ''Validation depth limit exceeded.'') st1
      else evaluate_kind vp h c (\<lambda>p x pa s. evaluate vp h c (Suc depth) p x pa s) plan v path st1)"
  proof -
    consider "is_bool plan" | "\<not> is_bool plan" "h_truthy (value_at h plan ''optional'') \<and> v = HUndef"
      | "\<not> is_bool plan" "\<not> (h_truthy (value_at h plan ''optional'') \<and> v = HUndef)"
        "h_truthy (value_at h plan ''nullable'') \<and> v = HNull"
      | "\<not> is_bool plan" "\<not> (h_truthy (value_at h plan ''optional'') \<and> v = HUndef)"
        "\<not> (h_truthy (value_at h plan ''nullable'') \<and> v = HNull)" "depth > maxDepth (vc_limits c)"
      | "\<not> is_bool plan" "\<not> (h_truthy (value_at h plan ''optional'') \<and> v = HUndef)"
        "\<not> (h_truthy (value_at h plan ''nullable'') \<and> v = HNull)" "\<not> depth > maxDepth (vc_limits c)"
      by blast
    then show ?thesis
    proof cases
      case 1
      then show ?thesis
        using decides_True decides_fail by (cases "plan = HBool True") (simp_all add: conforms.simps)
    next
      case 4
      show ?thesis
        unfolding conforms.simps [of _ _ _ _ _ _ plan] if_not_P [OF 4(1)] if_not_P [OF 4(2)] if_not_P [OF 4(3)] if_P [OF 4(4)]
        by (rule decides_fail)
    next
      case 5
      show ?thesis
        unfolding conforms.simps [of _ _ _ _ _ _ plan] if_not_P [OF 5(1)] if_not_P [OF 5(2)] if_not_P [OF 5(3)] if_not_P [OF 5(4)]
        by (rule decides_kind [OF ev [OF 5(4)]])
    qed (simp_all add: conforms.simps decides_True decides_fail)
  qed
  from decides_after_consume [OF this] show ?case
    by (subst evaluate.simps [abs_def])
qed

end
