(* ===== verification/Validation_Theorems.thy ===== *)
theory Validation_Theorems
  imports Validation_Refines
begin

text \<open>
  What client-side validation promises: it ends within its limits on any value and explains every
  refusal; compiled plans never surprise the evaluator; how refinements compose; and where the limits
  and the comparison of literals let the wrong verdict through.
\<close>

section \<open>Samples\<close>

definition sample_vp :: validation_platform where
  "sample_vp = \<lparr>vp_regex = (\<lambda>_. None), vp_protocol = (\<lambda>_. None), vp_decode = Some\<rparr>"

definition node :: "(string \<times> hval) list \<Rightarrow> hobj" where
  "node fs = HObj PlainProto (map (\<lambda>(k, v). (js k, Reads v)) fs)"

definition array :: "hval list \<Rightarrow> hobj" where
  "array vs = HArr (length_value (length vs)) (map Reads vs)"

definition str :: "string \<Rightarrow> hval" where
  "str s = HStr (js s)"

definition with_operations :: "nat \<Rightarrow> validation_options" where
  "with_operations n = default_options\<lparr>vo_direct := no_limit_values\<lparr>lv_maxOperations := HNum (num_of_int (int n))\<rparr>\<rparr>"

text \<open>A plan whose two alternatives accept everything, and a plan that refers to itself.\<close>

definition overlap_heap :: heap where
  "overlap_heap = [node [(''kind'', str ''oneOf''), (''anyOf'', HRef 1)], array [HRef 2, HRef 3],
     node [(''kind'', str ''any'')], node [(''kind'', str ''any'')]]"

definition recursive_heap :: heap where
  "recursive_heap = [node [(''kind'', str ''array''), (''items'', HRef 1)], node [(''kind'', str ''ref''), (''ref'', str ''#'')],
     array [HRef 2]]"


lemmas heap_simps = heap_obj_def obj_prop_def own_keys_def has_own_def js_isArray_def plain_proto_def arr_length_def
  arr_item_def length_value_def safe_length_def safeIsArray_def isRecord_def isPlainObject_def

lemmas plan_simps = value_at_def node_of_def opt_value_def opt_count_def opt_number_def opt_string_def elements_of_def
  fields_of_def arr_elements_def read_def get_field_def andThen_def require_def requireRecord_def throw_if_def

lemma num_of_nat [simp]:
  "num_is_safe_integer (num_of_int i) \<longleftrightarrow> \<bar>i\<bar> \<le> 9007199254740991" "num_val (num_of_int i) = of_int i"
  "num_finite (num_of_int i)"
  by (auto simp: num_is_safe_integer_def num_of_int_def num_val_def rat_of_dec_def num_finite_def num_is_integer_def)

lemmas check_simps = requireNonEmptyString_def requireString_def requireBoolean_def requireArray_def optional_field_def
  assertKnownKeys_def validateCommonFields_def allowedKeys_def common_keys_def validateNestedPlan_def
  kind_node_def union_node_def definitions_node_def

lemma overlap_node: "node_of overlap_heap (HRef 0) = UnionPlan [HRef 2, HRef 3] True"
  by (simp add: overlap_heap_def node_def array_def str_def heap_simps plan_simps upt_rec)

lemma overlap_any: "node_of overlap_heap (HRef 2) = AnyPlan" "node_of overlap_heap (HRef 3) = AnyPlan"
  by (simp_all add: overlap_heap_def node_def array_def str_def heap_simps plan_simps)

lemma overlap_check_any: "validateNode sample_vp overlap_heap (HRef 2) = Inr ([], None)"
  by (simp add: validateNode_def check_simps overlap_heap_def node_def array_def str_def heap_simps plan_simps)

lemma overlap_check: "validateNode sample_vp overlap_heap (HRef 0) = Inr ([HRef 2, HRef 3], None)"
  by (simp add: validateNode_def check_simps overlap_heap_def node_def array_def str_def heap_simps plan_simps upt_rec)

lemmas bounds_simps = assertPlanBounds_def plan_bounds.simps plan_children_def MAX_VALIDATION_PLAN_VALUES_def
  MAX_VALIDATION_PLAN_DEPTH_def MAX_VALIDATION_PLAN_CHILDREN_def MAX_VALIDATION_PLAN_STRING_LENGTH_def

lemmas limit_simps = validateLimits_def default_options_def no_limit_values_def with_operations_def checked_limit_def
  pick_limit_def h_nullish_def DEFAULT_VALIDATION_MAX_DEPTH_def DEFAULT_VALIDATION_MAX_ISSUES_def
  DEFAULT_VALIDATION_MAX_OPERATIONS_def DEFAULT_VALIDATION_MAX_PROPERTIES_def

lemma overlap_bounds: "assertPlanBounds overlap_heap (HRef 0) HUndef = Inr ()"
  by (simp add: bounds_simps overlap_heap_def node_def array_def str_def heap_simps plan_simps upt_rec jset_add_def jset_delete_def)

definition overlap_plan :: "nat \<Rightarrow> compiled_plan" where
  "overlap_plan n =
     \<lparr>vc_root = HRef 0, vc_definitions = [], vc_patterns = [],
      vc_limits = \<lparr>maxDepth = 64, maxIssues = 100, maxOperations = n, maxProperties = 10000\<rparr>\<rparr>"

lemma overlap_record: "isRecord overlap_heap (HRef 0)" "isRecord overlap_heap (HRef 2)" "isRecord overlap_heap (HRef 3)"
  by (simp_all add: overlap_heap_def node_def array_def heap_simps)

lemma overlap_compiles:
  assumes "0 < n" "n < 100000"
  shows "compileValidationPlan sample_vp overlap_heap (HRef 0) (with_operations n) = Inr (overlap_plan n)"
proof -
  have any: "validateNode sample_vp overlap_heap (HRef 3) = Inr ([], None)"
    by (simp add: validateNode_def check_simps overlap_heap_def node_def array_def str_def heap_simps plan_simps)
  have d: "obj_prop overlap_heap (HRef a) (js ''definitions'') = Reads HUndef" if "a \<in> {0, 2, 3}" for a
    using that by (auto simp: overlap_heap_def node_def array_def str_def heap_simps)
  have "visit_plan sample_vp overlap_heap a w =
      Inr (map WorkPlan (if a = 0 then [HRef 3, HRef 2] else []) @ [WorkExit a], w\<lparr>wl_visiting := jset_add a (wl_visiting w)\<rparr>)"
    if "a \<in> {0, 2, 3}" for a w
    using that d by (auto simp: visit_plan_def get_field_def read_def overlap_check overlap_check_any any)
  then have "collectAndValidate sample_vp overlap_heap (HRef 0) HUndef =
      Inr \<lparr>wl_definitions = [], wl_patterns = [], wl_visited = [3, 2, 0], wl_visiting = []\<rparr>"
    by (simp add: collectAndValidate_def overlap_bounds empty_worklist_def drain_plans.simps overlap_record
        schedule_definitions.simps due_definitions_def leave_plan_def jset_add_def jset_delete_def)
  moreover have "isValidationPlanDocument overlap_heap (HRef 0) = Inr False"
    by (simp add: isValidationPlanDocument_def overlap_heap_def node_def array_def heap_simps)
  moreover have "validateLimits (with_operations n) =
      Inr \<lparr>maxDepth = 64, maxIssues = 100, maxOperations = n, maxProperties = 10000\<rparr>"
    using assms by (simp add: limit_simps heap_simps)
  ultimately show ?thesis
    by (simp add: compileValidationPlan_def overlap_plan_def)
qed


section \<open>Bounds\<close>

lemma compiled_limits:
  assumes "compileValidationPlan vp h plan options = Inr c"
  shows "1 \<le> maxIssues (vc_limits c)" "1 \<le> maxOperations (vc_limits c)" "1 \<le> maxProperties (vc_limits c)"
  using assms
  by (auto simp: compileValidationPlan_def validateLimits_def Let_def checked_limit_def split: option.splits if_splits)

text \<open>
  C21: Validation is bounded on any value, cyclic ones, proxies and throwing accessors included. Under a
  compiled plan the evaluation counts at most maxOperations operations, a refused value has at least
  one issue and at most maxIssues, and an accepted value is returned as it is.
\<close>

theorem validation_bounded:
  assumes "compileValidationPlan vp h plan options = Inr c"
  shows "vs_operations (snd (evaluate vp h c 0 (vc_root c) v [] initial_state)) \<le> maxOperations (vc_limits c) \<and>
    (case evaluateValidationPlan vp h c v of
       Valid w \<Rightarrow> w = v
     | Invalid issues \<Rightarrow> issues \<noteq> [] \<and> length issues \<le> maxIssues (vc_limits c))"
proof -
  obtain b st where e: "evaluate vp h c 0 (vc_root c) v [] initial_state = (b, st)"
    by (cases "evaluate vp h c 0 (vc_root c) v [] initial_state")
  from goodD [OF any.evaluate_good [OF UNIV_I] e] have "evolves UNIV c initial_state st" "\<not> b \<longrightarrow> explained c st"
    by auto
  with compiled_limits [OF assms] e show ?thesis
    by (auto simp: evaluateValidationPlan_def evolves_def explained_def collected_def initial_state_def split: bool.split)
qed

theorem validation_bounded_witness:
  "case evaluateValidationPlan sample_vp overlap_heap (overlap_plan 5) HNull of
     Valid w \<Rightarrow> w = HNull
   | Invalid issues \<Rightarrow> issues \<noteq> [] \<and> length issues \<le> 100"
  using validation_bounded [OF overlap_compiles, of 5 HNull]
  by (simp add: overlap_plan_def split: validation_result.splits)

text \<open>
  C20: A compiled plan is well typed: every plan object the evaluation can reach, through nested plans
  and references, passed the check of its kind, so on no value does the evaluator meet an unsupported
  plan.
\<close>

theorem compiled_plans_well_typed:
  assumes "compileValidationPlan vp h plan options = Inr c"
  shows "wf_plan vp h c (vc_root c) \<and>
    (case evaluateValidationPlan vp h c v of
       Valid _ \<Rightarrow> True | Invalid issues \<Rightarrow> js ''plan'' \<notin> set (map is_code issues))"
proof -
  obtain b st where e: "evaluate vp h c 0 (vc_root c) v [] initial_state = (b, st)"
    by (cases "evaluate vp h c 0 (vc_root c) v [] initial_state")
  have wf: "vc_root c \<in> Collect (wf_plan vp h c)" using compiled_wf [OF assms] by simp
  from goodD [OF wf.evaluate_good [OF wf] e] have "evolves (- {''plan''}) c initial_state st" by simp
  then have "is_code ` set (vs_primary st) \<subseteq> js ` (- {''plan''})"
    by (auto simp: evolves_def growing_def initial_state_def)
  with wf e show ?thesis
    by (auto simp: evaluateValidationPlan_def split: bool.split)
qed

theorem compiled_plans_well_typed_witness:
  "wf_plan sample_vp overlap_heap (overlap_plan 5) (HRef 0)"
  using compiled_plans_well_typed [OF overlap_compiles, of 5 HNull] by (simp add: overlap_plan_def)


section \<open>The verdict\<close>

text \<open>
  C15: Unless the operations run out, the verdict of an evaluation is what the plan means. Collectors,
  limits on issues, paths and the order of the checks do not matter: the answer is the one of the
  state-free reference, with the same objects being validated and the same references being followed.
\<close>

theorem evaluation_refines_reference:
  assumes "\<not> vs_limitReported (snd (evaluate vp h c depth plan v path st))"
  shows "fst (evaluate vp h c depth plan v path st) = conforms vp h c depth (vs_active st) (vs_refs st) plan v"
  using evaluate_decides [of c "vs_active st" "vs_refs st" vp h depth plan v path] assms
  by (auto simp: decides_def)

lemma evaluate_any:
  assumes "node_of h plan = AnyPlan" "\<not> is_bool plan" "vs_operations st < maxOperations (vc_limits c)"
    "depth \<le> maxDepth (vc_limits c)"
  shows "evaluate vp h c depth plan v path st = (True, st\<lparr>vs_operations := Suc (vs_operations st)\<rparr>)"
  using assms by (auto simp: evaluate.simps [of _ _ _ depth] consumeOperation_def evaluate_kind_def)

lemma evaluate_exhausted:
  assumes "vs_operations st \<ge> maxOperations (vc_limits c)"
  shows "\<not> fst (evaluate vp h c depth plan v path st)"
  using assms by (simp add: evaluate.simps [of _ _ _ depth] consumeOperation_def)

lemma overlap_flags:
  "value_at overlap_heap (HRef 0) ''optional'' = HUndef" "value_at overlap_heap (HRef 0) ''nullable'' = HUndef"
  by (simp_all add: overlap_heap_def node_def array_def str_def heap_simps plan_simps)

lemma overlap_any_flags:
  "value_at overlap_heap (HRef 2) ''optional'' = HUndef" "value_at overlap_heap (HRef 2) ''nullable'' = HUndef"
  "value_at overlap_heap (HRef 3) ''optional'' = HUndef" "value_at overlap_heap (HRef 3) ''nullable'' = HUndef"
  by (simp_all add: overlap_heap_def node_def array_def str_def heap_simps plan_simps)

lemma overlap_result:
  assumes "5 \<le> n"
  shows "evaluate sample_vp overlap_heap (overlap_plan n) 0 (HRef 0) HNull [] initial_state =
    (False, initial_state\<lparr>vs_operations := 5,
       vs_primary := [createValidationIssue [] (js ''oneOf'') (js ''Value matches more than one schema.'')]\<rparr>)"
  using assms
  by (simp add: evaluate.simps [of _ _ _ 0] consumeOperation_def overlap_plan_def initial_state_def overlap_flags
      evaluate_kind_def overlap_node evaluateUnion_def withCollector_def evaluate_any overlap_any fail_with_def
      add_issue_at_def collect_issue_def)

theorem evaluation_refines_reference_witness:
  "\<not> conforms sample_vp overlap_heap (overlap_plan 5) 0 [] [] (HRef 0) HNull"
  using evaluation_refines_reference [of sample_vp overlap_heap "overlap_plan 5" 0 "HRef 0" HNull "[]" initial_state]
  unfolding overlap_result [OF order_refl] by (simp add: initial_state_def)

lemma evaluateValidationPlan_cases:
  "evaluateValidationPlan vp h c v =
     (if fst (evaluate vp h c 0 (vc_root c) v [] initial_state) then Valid v
      else Invalid (vs_primary (snd (evaluate vp h c 0 (vc_root c) v [] initial_state))))"
  by (simp add: evaluateValidationPlan_def split: prod.split bool.split)

lemma overlap_root [simp]: "vc_root (overlap_plan n) = HRef 0"
  by (simp add: overlap_plan_def)

text \<open>
  An example: a oneOf plan fails open when the operations run out. Two alternatives accept the value, so it
  must be refused, and is refused under the limits by default; when the limit is reached after the
  first alternative has matched, the others count as not matching and the value is accepted.
\<close>

lemma oneOf_fails_open:
  "validateWithPlan sample_vp overlap_heap (HRef 0) HNull (with_operations 5) =
     Inr (Invalid [createValidationIssue [] (js ''oneOf'') (js ''Value matches more than one schema.'')]) \<and>
   validateWithPlan sample_vp overlap_heap (HRef 0) HNull (with_operations 3) = Inr (Valid HNull) \<and>
   validateWithPlan sample_vp overlap_heap (HRef 0) HNull (with_operations 4) = Inr (Valid HNull)"
proof -
  have "validateWithPlan sample_vp overlap_heap (HRef 0) HNull (with_operations n) =
      Inr (evaluateValidationPlan sample_vp overlap_heap (overlap_plan n) HNull)" if "n \<in> {3, 4, 5}" for n
    using that overlap_compiles [of n] by (auto simp: validateWithPlan_def)
  moreover have "fst (evaluate sample_vp overlap_heap (overlap_plan 3) 0 (HRef 0) HNull [] initial_state)"
    by (simp add: evaluate.simps [of _ _ _ 0] consumeOperation_def overlap_plan_def initial_state_def overlap_flags
        evaluate_kind_def overlap_node evaluateUnion_def withCollector_def evaluate_any overlap_any)
  moreover have "fst (evaluate sample_vp overlap_heap (overlap_plan 4) 0 (HRef 0) HNull [] initial_state)"
    using evaluate_exhausted [of "overlap_plan 4"]
    by (simp add: evaluate.simps [of _ _ _ 0] consumeOperation_def overlap_plan_def initial_state_def overlap_flags
        evaluate_kind_def overlap_node evaluateUnion_def withCollector_def evaluate_any overlap_any split_beta)
  ultimately show ?thesis
    by (simp add: evaluateValidationPlan_cases overlap_root overlap_result)
qed

text \<open>
  A refined validator accepts exactly the values the validator accepts and the refinement has no
  objection to; the refinement is asked about nothing else. Its is and assert agree with its validate.
\<close>

lemma refinement_exact:
  "(fv_validate (refineValidator h w refinement) v = Inr (Valid x) \<longleftrightarrow>
      fv_validate w v = Inr (Valid x) \<and> (\<exists>i. refinement x = Inr i \<and> h_nullish i)) \<and>
   (fv_is (refineValidator h w refinement) v = Inr True \<longleftrightarrow>
      (\<exists>y. fv_validate (refineValidator h w refinement) v = Inr (Valid y))) \<and>
   (fv_assert (refineValidator h w refinement) v = Inr x \<longleftrightarrow>
      fv_validate (refineValidator h w refinement) v = Inr (Valid x))"
  by (auto simp: refineValidator_def validator_of_def is_valid_def assert_result_def andThen_def
      split: sum.splits validation_result.splits if_splits)


section \<open>Literals with shared parts\<close>

text \<open>Two literals with the same content, in one of which an object occurs twice, and a value.\<close>

definition literal_heap :: heap where
  "literal_heap =
     [node [(''kind'', str ''literal''), (''value'', HRef 1)], node [(''a'', HRef 2), (''b'', HRef 2)], node [],
      node [(''kind'', str ''literal''), (''value'', HRef 4)], node [(''a'', HRef 5), (''b'', HRef 6)], node [], node [],
      node [(''a'', HRef 8), (''b'', HRef 9)], node [], node []]"

definition literal_plan :: "nat \<Rightarrow> compiled_plan" where
  "literal_plan a =
     \<lparr>vc_root = HRef a, vc_definitions = [], vc_patterns = [],
      vc_limits = \<lparr>maxDepth = 64, maxIssues = 100, maxOperations = 100000, maxProperties = 10000\<rparr>\<rparr>"

lemma literal_limits: "validateLimits default_options = Inr (vc_limits (literal_plan a))"
  by (simp add: limit_simps heap_simps literal_plan_def)

lemma literal_bounds:
  "assertPlanBounds literal_heap (HRef 0) HUndef = Inr ()" "assertPlanBounds literal_heap (HRef 3) HUndef = Inr ()"
  by (simp_all add: bounds_simps literal_heap_def node_def str_def heap_simps plan_simps jset_add_def jset_delete_def)

lemma literal_check:
  "a \<in> {0, 3} \<Longrightarrow> validateNode sample_vp literal_heap (HRef a) = Inr ([], None)"
  "a \<in> {0, 3} \<Longrightarrow> obj_prop literal_heap (HRef a) (js ''definitions'') = Reads HUndef"
  "a \<in> {0, 3} \<Longrightarrow> isRecord literal_heap (HRef a)"
  "a \<in> {0, 3} \<Longrightarrow> isValidationPlanDocument literal_heap (HRef a) = Inr False"
  by (auto simp: validateNode_def check_simps literal_heap_def node_def str_def heap_simps plan_simps isValidationPlanDocument_def)

lemma literal_compiles:
  "a \<in> {0, 3} \<Longrightarrow> compileValidationPlan sample_vp literal_heap (HRef a) default_options = Inr (literal_plan a)"
  using literal_bounds literal_check [of a] literal_limits [of a]
  by (auto simp: compileValidationPlan_def collectAndValidate_def empty_worklist_def drain_plans.simps visit_plan_def get_field_def
      read_def schedule_definitions.simps due_definitions_def leave_plan_def jset_add_def jset_delete_def literal_plan_def)

lemma literal_nodes:
  "node_of literal_heap (HRef 0) = LiteralPlan (HRef 1)" "node_of literal_heap (HRef 3) = LiteralPlan (HRef 4)"
  "value_at literal_heap (HRef 0) ''optional'' = HUndef" "value_at literal_heap (HRef 3) ''optional'' = HUndef"
  "value_at literal_heap (HRef 0) ''nullable'' = HUndef" "value_at literal_heap (HRef 3) ''nullable'' = HUndef"
  by (simp_all add: literal_heap_def node_def str_def heap_simps plan_simps)

lemma js_a_less_b: "sort [js ''a'', js ''b''] = [js ''a'', js ''b'']"
  by code_simp

lemma literal_keys:
  "own_keys literal_heap (HRef (Suc 0)) = Some [js ''a'', js ''b'']" "own_keys literal_heap (HRef 4) = Some [js ''a'', js ''b'']"
  "own_keys literal_heap (HRef 7) = Some [js ''a'', js ''b'']"
  "a \<in> {2, 5, 6, 8, 9} \<Longrightarrow> own_keys literal_heap (HRef a) = Some []"
  by (auto simp: literal_heap_def node_def str_def heap_simps)

lemma literal_plain: "a < 10 \<Longrightarrow> isPlainObject literal_heap (HRef a) \<and> \<not> safeIsArray literal_heap (HRef a)"
  by (simp add: less_Suc_eq numeral_nat)
    (auto simp: literal_heap_def node_def str_def heap_simps)

lemma literal_fields:
  "readOwnValue literal_heap (HRef (Suc 0)) (js ''a'') = Found (HRef 2)" "readOwnValue literal_heap (HRef (Suc 0)) (js ''b'') = Found (HRef 2)"
  "readOwnValue literal_heap (HRef 4) (js ''a'') = Found (HRef 5)" "readOwnValue literal_heap (HRef 4) (js ''b'') = Found (HRef 6)"
  "readOwnValue literal_heap (HRef 7) (js ''a'') = Found (HRef 8)" "readOwnValue literal_heap (HRef 7) (js ''b'') = Found (HRef 9)"
  by (auto simp: readOwnValue_def literal_heap_def node_def str_def heap_simps)

text \<open>
  A literal in which one object occurs twice refuses values with the same content. The comparison
  remembers with which object it compared an object of the literal and demands the same object the
  second time, while the content of the two objects of the value is never looked at. The same literal
  without the sharing accepts the value.
\<close>

lemma shared_literal_refuses_equal_value:
  "validateWithPlan sample_vp literal_heap (HRef 0) (HRef 7) default_options =
     Inr (Invalid [createValidationIssue [] (js ''const'') (js ''Value does not equal the required literal.'')]) \<and>
   validateWithPlan sample_vp literal_heap (HRef 3) (HRef 7) default_options = Inr (Valid (HRef 7))"
  using literal_compiles [of 0] literal_compiles [of 3]
  by (simp add: validateWithPlan_def evaluateValidationPlan_def literal_plan_def evaluate.simps [of _ _ _ 0] consumeOperation_def
      initial_state_def literal_nodes evaluate_kind_def evaluateLiteral_def deepEqual_def deep_loop.simps literal_plain
      next_pairs_def object_pairs_def readKeys_def literal_keys js_a_less_b literal_fields both_found_def Let_def
      fail_with_def add_issue_at_def collect_issue_def jm_get_def)


section \<open>The limit on depth\<close>

text \<open>
  The depth counts nested plans, not nested values: under a depth limit of zero a union refuses the
  root value itself, because its branches are one level deeper.
\<close>

lemma depth_counts_plans:
  "evaluateValidationPlan sample_vp overlap_heap
     (overlap_plan 5\<lparr>vc_limits := \<lparr>maxDepth = 0, maxIssues = 100, maxOperations = 5, maxProperties = 10000\<rparr>\<rparr>) HNull =
   Invalid [createValidationIssue [] (js ''oneOf'') (js ''Value must match exactly one schema.'')]"
  by (simp add: evaluateValidationPlan_def evaluate.simps consumeOperation_def overlap_plan_def initial_state_def overlap_flags
      overlap_any_flags evaluate_kind_def overlap_node evaluateUnion_def withCollector_def fail_with_def add_issue_at_def
      collect_issue_def)

end
