(* ===== verification/Codegen_Schema.thy ===== *)
theory Codegen_Schema
  imports Validation_Evaluate
begin

text \<open>
  The compiler from JSON Schemas to validation plans, first part
  (\<open>packages/codegen/src/validator-compiler.ts\<close>): bounds, supported keywords, references and
  definitions. A schema is JSON data, a tree: every object of it is met once, so the sets of visited
  objects, which only matter for shared and cyclic objects, are left out. Errors keep their path,
  message and keyword.
\<close>

section \<open>Errors and paths\<close>

record compile_error =
  ce_path :: jstring
  ce_message :: jstring
  ce_keyword :: "jstring option"
  ce_unsupported :: bool

type_synonym 'a compiled = "(compile_error, 'a) result"

definition ValidatorCompilationError :: "jstring \<Rightarrow> jstring \<Rightarrow> jstring option \<Rightarrow> bool \<Rightarrow> compile_error" where
  "ValidatorCompilationError path reason keyword isUnsupported =
     \<lparr>ce_path = path, ce_message = js ''[fluxfast] Could not compile schema at '' @ path @ js '': '' @ reason,
      ce_keyword = keyword, ce_unsupported = isUnsupported\<rparr>"

definition fail :: "jstring \<Rightarrow> jstring \<Rightarrow> 'a compiled" where
  "fail path reason = Inl (ValidatorCompilationError path reason None False)"

definition fail_keyword :: "jstring \<Rightarrow> jstring \<Rightarrow> string \<Rightarrow> 'a compiled" where
  "fail_keyword path reason keyword = Inl (ValidatorCompilationError path reason (Some (js keyword)) False)"

definition unsupported :: "jstring \<Rightarrow> jstring \<Rightarrow> jstring \<Rightarrow> 'a compiled" where
  "unsupported path reason keyword = Inl (ValidatorCompilationError path reason (Some keyword) True)"

definition childPath :: "jstring \<Rightarrow> jstring \<Rightarrow> jstring" where
  "childPath path key = (if IDENTIFIER key then path @ js ''.'' @ key else path @ bracketed (json_quote key))"

definition indexPath :: "jstring \<Rightarrow> nat \<Rightarrow> jstring" where
  "indexPath path index = path @ bracketed (nat_digits index)"

definition dotted :: "jstring \<Rightarrow> string \<Rightarrow> jstring" where
  "dotted path name = path @ js ''.'' @ js name"

section \<open>Reading schemas\<close>

text \<open>JSON data has plain objects only.\<close>

fun is_record :: "jsval \<Rightarrow> bool" where
  "is_record (JObj _ _) = True"
| "is_record _ = False"

text \<open>A \<open>map\<close> or \<open>forEach\<close> with the index, whose callback may throw.\<close>

fun traverse :: "('a \<Rightarrow> ('e, 'b) result) \<Rightarrow> 'a list \<Rightarrow> ('e, 'b list) result" where
  "traverse f [] = Inr []"
| "traverse f (x # xs) = andThen (f x) (\<lambda>y. andThen (traverse f xs) (\<lambda>ys. Inr (y # ys)))"

lemma traverse_cong [fundef_cong]:
  "xs = ys \<Longrightarrow> (\<And>x. x \<in> set ys \<Longrightarrow> f x = g x) \<Longrightarrow> traverse f xs = traverse g ys"
proof (induction ys arbitrary: xs)
  case (Cons y ys)
  then show ?case by simp
qed simp

lemma andThen_cong [fundef_cong]:
  "r = r' \<Longrightarrow> (\<And>a. r' = Inr a \<Longrightarrow> f a = g a) \<Longrightarrow> andThen r f = andThen r' g"
  by (cases r') auto

lemma traverse_Inr: "traverse f xs = Inr ys \<longleftrightarrow> list_all2 (\<lambda>x y. f x = Inr y) xs ys"
  by (induction xs arbitrary: ys) (auto simp: list_all2_Cons1)

definition indexed :: "'a list \<Rightarrow> (nat \<times> 'a) list" where
  "indexed xs = zip [0..<length xs] xs"

definition schemaRecord :: "jsval \<Rightarrow> jstring \<Rightarrow> jsval compiled" where
  "schemaRecord v path = (if is_record v then Inr v else fail path (js ''expected a JSON Schema object''))"

definition schema_item :: "jsval \<Rightarrow> jstring \<Rightarrow> jsval compiled" where
  "schema_item v path = (if is_boolean v then Inr v else schemaRecord v path)"

definition schemaMap :: "jsval \<Rightarrow> jstring \<Rightarrow> jsval jobj compiled" where
  "schemaMap v path =
     andThen (schemaRecord v path) (\<lambda>r.
       traverse (\<lambda>(key, item). andThen (schema_item item (childPath path key)) (\<lambda>x. Inr (key, x))) (obj_fields r))"

definition schemaArray :: "jsval \<Rightarrow> jstring \<Rightarrow> jsval list compiled" where
  "schemaArray v path =
     (if \<not> is_array v then fail path (js ''expected an array of JSON Schemas'')
      else traverse (\<lambda>(index, item). schema_item item (indexPath path index)) (indexed (arr_items v)))"

text \<open>Writing the properties one after the other to an object without prototype.\<close>

definition build_object :: "jsval jobj \<Rightarrow> jsval jobj" where
  "build_object kvs = foldl (\<lambda>ob (k, v). obj_insert k v ob) [] kvs"

section \<open>Keywords and limits\<close>

definition SUPPORTED_KEYWORDS :: "string list" where
  "SUPPORTED_KEYWORDS =
     [''$defs'', ''$ref'', ''$schema'', ''$id'', ''$anchor'', ''$comment'', ''additionalProperties'', ''allOf'',
      ''anyOf'', ''const'', ''default'', ''definitions'', ''deprecated'', ''description'', ''discriminator'',
      ''enum'', ''examples'', ''exclusiveMaximum'', ''exclusiveMinimum'', ''format'', ''items'', ''maxItems'',
      ''maxLength'', ''maximum'', ''minItems'', ''minLength'', ''minimum'', ''multipleOf'', ''oneOf'', ''pattern'',
      ''prefixItems'', ''properties'', ''readOnly'', ''required'', ''title'', ''type'', ''writeOnly'', ''nullable'']"

definition map_keywords :: "string list" where
  "map_keywords = [''$defs'', ''definitions'', ''properties'']"

definition array_keywords :: "string list" where
  "array_keywords = [''allOf'', ''anyOf'', ''oneOf'', ''prefixItems'']"

definition SUBSCHEMA_KEYS :: "string list" where
  "SUBSCHEMA_KEYS = map_keywords @ array_keywords @ [''additionalProperties'', ''items'']"

definition in_words :: "jstring \<Rightarrow> string list \<Rightarrow> bool" where
  "in_words s ws \<longleftrightarrow> s \<in> set (map js ws)"

definition MAX_SCHEMA_NODES :: nat where "MAX_SCHEMA_NODES = 10000"
definition MAX_SCHEMA_VALUES :: nat where "MAX_SCHEMA_VALUES = 100000"
definition MAX_SCHEMA_DEPTH :: nat where "MAX_SCHEMA_DEPTH = 64"
definition MAX_ROOT_CONTRACTS :: nat where "MAX_ROOT_CONTRACTS = 10000"
definition MAX_SCHEMA_STRING_LENGTH :: nat where "MAX_SCHEMA_STRING_LENGTH = 65536"

record bounds_state =
  bs_nodes :: nat
  bs_values :: nat

text \<open>\<open>state.values += 1\<close> and \<open>state.nodes += 1\<close> with their limits.\<close>

definition count_value :: "jstring \<Rightarrow> bounds_state \<Rightarrow> bounds_state compiled" where
  "count_value path st =
     (let n = bs_values st + 1 in
      if n > MAX_SCHEMA_VALUES
      then fail path (js ''schema contains more than '' @ nat_digits MAX_SCHEMA_VALUES @ js '' JSON values'')
      else Inr (st\<lparr>bs_values := n\<rparr>))"

definition count_node :: "jstring \<Rightarrow> bounds_state \<Rightarrow> bounds_state compiled" where
  "count_node path st =
     (let n = bs_nodes st + 1 in
      if n > MAX_SCHEMA_NODES
      then fail path (js ''schema contains more than '' @ nat_digits MAX_SCHEMA_NODES @ js '' nodes'')
      else Inr (st\<lparr>bs_nodes := n\<rparr>))"

definition check_length :: "jstring \<Rightarrow> jstring \<Rightarrow> unit compiled" where
  "check_length path s =
     (if length s > MAX_SCHEMA_STRING_LENGTH
      then fail path (js ''schema values contain strings longer than '' @ nat_digits MAX_SCHEMA_STRING_LENGTH @
                      js '' characters'')
      else Inr ())"

definition check_count :: "jstring \<Rightarrow> nat \<Rightarrow> string \<Rightarrow> string \<Rightarrow> unit compiled" where
  "check_count path n what unit =
     (if n > MAX_SCHEMA_NODES
      then fail path (js what @ js '' contains more than '' @ nat_digits MAX_SCHEMA_NODES @ js '' '' @ js unit)
      else Inr ())"

type_synonym bounds_item = "jsval \<times> jstring \<times> nat"

text \<open>The entries of a container, in the order in which they are taken from the stack.\<close>

definition value_children :: "jsval \<Rightarrow> jstring \<Rightarrow> nat \<Rightarrow> bounds_item list compiled" where
  "value_children item path depth =
     (if is_array item then
        andThen (check_count path (length (arr_items item)) ''schema value array'' ''entries'') (\<lambda>_.
          Inr (map (\<lambda>(index, x). (x, indexPath path index, depth + 1)) (indexed (arr_items item))))
      else
        andThen (check_count path (length (obj_fields item)) ''schema value'' ''properties'') (\<lambda>_.
        andThen (for_each (\<lambda>(key, x). check_length (childPath path key) key) (rev (obj_fields item))) (\<lambda>_.
          Inr (map (\<lambda>(key, x). (x, childPath path key, depth + 1)) (obj_fields item)))))"

definition pending_size :: "bounds_item list \<Rightarrow> nat" where
  "pending_size items = sum_list (map (\<lambda>(v, _). Suc (size v)) items)"

lemma pending_size_simps [simp]:
  "pending_size [] = 0" "pending_size ((v, pd) # items) = Suc (size v) + pending_size items"
  "pending_size (xs @ ys) = pending_size xs + pending_size ys"
  by (simp_all add: pending_size_def)

lemma items_size: "sum_list (map (\<lambda>x. Suc (size x)) (arr_items v)) < Suc (size v)"
  by (cases v) (simp_all add: size_list_conv_sum_list sum_list_Suc comp_def)

lemma fields_size: "sum_list (map (\<lambda>kv. Suc (size (snd kv))) (obj_fields v)) < Suc (size v)"
proof (cases v)
  case (JObj i fs)
  have "sum_list (map (\<lambda>kv. Suc (size (snd kv))) fs) \<le> size_list (\<lambda>kv. Suc (size (snd kv))) fs"
    by (induction fs) auto
  then show ?thesis using JObj by (simp add: size_prod_simp)
qed simp_all

lemma sum_indexed: "sum_list (map (\<lambda>x. g (snd x)) (indexed xs)) = sum_list (map g xs)"
proof -
  have "map (\<lambda>x. g (snd x)) (indexed xs) = map g (map snd (indexed xs))" by simp
  also have "map snd (indexed xs) = xs" by (simp add: indexed_def)
  finally show ?thesis by simp
qed

lemma value_children_size: "value_children item path depth = Inr children \<Longrightarrow> pending_size children < Suc (size item)"
  using items_size [of item] fields_size [of item]
  by (auto simp: value_children_def pending_size_def comp_def case_prod_unfold
      sum_indexed [of "\<lambda>x. Suc (size x)"] split: if_splits)

section \<open>Bounds\<close>

definition small_string :: "jsval \<Rightarrow> jstring \<Rightarrow> unit compiled" where
  "small_string v path = (case v of JStr s \<Rightarrow> check_length path s | _ \<Rightarrow> Inr ())"

definition too_deep :: "jstring \<Rightarrow> string \<Rightarrow> nat \<Rightarrow> unit compiled" where
  "too_deep path what depth =
     (if depth > MAX_SCHEMA_DEPTH
      then fail path (js what @ js '' exceeds the maximum of '' @ nat_digits MAX_SCHEMA_DEPTH)
      else Inr ())"

text \<open>\<open>assertJsonValueBounds\<close>, from the items that are pending.\<close>

function value_bounds :: "bounds_item list \<Rightarrow> bounds_state \<Rightarrow> bounds_state compiled" where
  "value_bounds [] st = Inr st"
| "value_bounds ((item, path, depth) # pending) st =
     andThen (count_value path st) (\<lambda>st.
       if \<not> is_object_like item \<and> item \<noteq> JUndef then andThen (small_string item path) (\<lambda>_. value_bounds pending st)
       else
         andThen (too_deep path ''schema value nesting'' depth) (\<lambda>_.
         andThen (if item = JUndef then fail path (js ''schema values must be JSON-compatible'') else Inr ()) (\<lambda>_.
         andThen (count_node path st) (\<lambda>st.
         case value_children item path depth of
           Inl e \<Rightarrow> Inl e
         | Inr children \<Rightarrow> value_bounds (children @ pending) st))))"
  by pat_completeness auto
termination
  by (relation "measure (\<lambda>(pending, _). pending_size pending)") (auto dest: value_children_size)

declare value_bounds.simps [simp del]

text \<open>One keyword of a schema: its value is measured, or its schemas are queued.\<close>

definition keyword_items ::
  "jstring \<Rightarrow> nat \<Rightarrow> jstring \<times> jsval \<Rightarrow> bounds_state \<Rightarrow> (bounds_item list \<times> bounds_state) compiled" where
  "keyword_items path depth = (\<lambda>(key, child) st.
     let sub = path @ js ''.'' @ key in
     andThen (check_length (childPath path key) key) (\<lambda>_.
       if \<not> in_words key SUBSCHEMA_KEYS then
         andThen (value_bounds [(child, childPath path key, depth + 1)] st) (\<lambda>st. Inr ([], st))
       else if in_words key map_keywords then
         andThen (schemaRecord child sub) (\<lambda>record.
         andThen (check_count sub (length (obj_fields record)) ''schema map'' ''entries'') (\<lambda>_.
         andThen (traverse (\<lambda>(name, item).
             andThen (schema_item item (sub @ js ''.'' @ name)) (\<lambda>x. Inr (x, sub @ js ''.'' @ name, depth + 1)))
             (obj_fields record)) (\<lambda>items. Inr (items, st))))
       else if in_words key array_keywords then
         andThen (if is_array child then Inr () else fail sub (js ''expected an array of JSON Schemas'')) (\<lambda>_.
         andThen (check_count sub (length (arr_items child)) ''schema branch list'' ''entries'') (\<lambda>_.
         andThen (traverse (\<lambda>(index, item).
             andThen (schema_item item (indexPath sub index)) (\<lambda>x. Inr (x, indexPath sub index, depth + 1)))
             (indexed (arr_items child))) (\<lambda>items. Inr (items, st))))
       else if is_boolean child then Inr ([], st)
       else andThen (schemaRecord child sub) (\<lambda>x. Inr ([(x, sub, depth + 1)], st))))"

text \<open>The loop over the keywords collects what it pushes.\<close>

fun keywords_items ::
  "jstring \<Rightarrow> nat \<Rightarrow> jsval jobj \<Rightarrow> bounds_item list \<Rightarrow> bounds_state \<Rightarrow> (bounds_item list \<times> bounds_state) compiled" where
  "keywords_items path depth [] pushed st = Inr (pushed, st)"
| "keywords_items path depth (kv # kvs) pushed st =
     andThen (keyword_items path depth kv st) (\<lambda>(items, st). keywords_items path depth kvs (pushed @ items) st)"

lemma schema_item_Inr: "schema_item v path = Inr x \<Longrightarrow> x = v"
  by (auto simp: schema_item_def schemaRecord_def fail_def split: if_splits)

lemma sum_traverse:
  assumes "traverse f xs = Inr ys" "\<And>x y. x \<in> set xs \<Longrightarrow> f x = Inr y \<Longrightarrow> g y \<le> (h x :: nat)"
  shows "sum_list (map g ys) \<le> sum_list (map h xs)"
  using assms
proof (induction xs arbitrary: ys)
  case (Cons x xs)
  then obtain y ys' where *: "ys = y # ys'" "f x = Inr y" "traverse f xs = Inr ys'" by auto
  have "sum_list (map g ys') \<le> sum_list (map h xs)" using Cons.IH [OF *(3)] Cons.prems(2) by simp
  with * Cons.prems(2) [of x y] show ?case by simp
qed simp

lemma keyword_items_size:
  assumes "keyword_items path depth (key, child) st = Inr (items, st')"
  shows "pending_size items \<le> Suc (size child)"
proof -
  have map: "pending_size items \<le> Suc (size child)"
    if "traverse f (obj_fields child) = Inr items" "\<And>kv y. f kv = Inr y \<Longrightarrow> fst y = snd kv" for f
  proof -
    have "pending_size items \<le> sum_list (map (\<lambda>kv. Suc (size (snd kv))) (obj_fields child))"
      unfolding pending_size_def by (rule sum_traverse [OF that(1)]) (use that(2) in \<open>auto simp: case_prod_unfold\<close>)
    with fields_size [of child] show ?thesis by simp
  qed
  have arr: "pending_size items \<le> Suc (size child)"
    if "traverse f (indexed (arr_items child)) = Inr items" "\<And>kv y. f kv = Inr y \<Longrightarrow> fst y = snd kv" for f
  proof -
    have "pending_size items \<le> sum_list (map (\<lambda>kv. Suc (size (snd kv))) (indexed (arr_items child)))"
      unfolding pending_size_def by (rule sum_traverse [OF that(1)]) (use that(2) in \<open>auto simp: case_prod_unfold\<close>)
    with items_size [of child] show ?thesis by (simp add: sum_indexed [of "\<lambda>x. Suc (size x)"])
  qed
  show ?thesis
    using assms
    by (auto simp: keyword_items_def Let_def schemaRecord_def fail_def split: if_splits
        intro: map arr dest!: schema_item_Inr)
qed

lemma keywords_items_size:
  "keywords_items path depth kvs pushed st = Inr (items, st') \<Longrightarrow>
     pending_size items \<le> pending_size pushed + sum_list (map (\<lambda>kv. Suc (size (snd kv))) kvs)"
proof (induction kvs arbitrary: pushed st)
  case (Cons kv kvs)
  then obtain its st1 where *: "keyword_items path depth kv st = Inr (its, st1)"
    "keywords_items path depth kvs (pushed @ its) st1 = Inr (items, st')" by auto
  from Cons.IH [OF *(2)] keyword_items_size [of path depth "fst kv" "snd kv" st its st1] *(1)
  show ?case by simp
qed simp

text \<open>\<open>assertSchemaBounds\<close>, from the schemas that are pending.\<close>

function schema_bounds :: "bounds_item list \<Rightarrow> bounds_state \<Rightarrow> bounds_state compiled" where
  "schema_bounds [] st = Inr st"
| "schema_bounds ((schema, path, depth) # pending) st =
     andThen (count_value path st) (\<lambda>st.
     andThen (too_deep path ''schema nesting'' depth) (\<lambda>_.
       if is_boolean schema then schema_bounds pending st
       else
         andThen (schemaRecord schema path) (\<lambda>_.
         andThen (count_node path st) (\<lambda>st.
         andThen (check_count path (length (obj_fields schema)) ''schema'' ''keywords'') (\<lambda>_.
         case keywords_items path depth (obj_fields schema) [] st of
           Inl e \<Rightarrow> Inl e
         | Inr (items, st) \<Rightarrow> schema_bounds (rev items @ pending) st)))))"
  by pat_completeness auto
termination
proof (relation "measure (\<lambda>(pending, _). pending_size pending)", goal_cases)
  case (3 schema path depth pending st a x b c d y items st')
  have "pending_size (rev items) = pending_size items"
    by (simp add: pending_size_def rev_map flip: rev_map)
  with keywords_items_size [of path depth "obj_fields schema" "[]" c items st'] fields_size [of schema] 3
  show ?case by simp
qed auto

declare schema_bounds.simps [simp del]

definition assertSchemaBounds :: "jsval \<Rightarrow> jstring \<Rightarrow> bounds_state \<Rightarrow> bounds_state compiled" where
  "assertSchemaBounds schema path = schema_bounds [(schema, path, 0)]"

section \<open>Supported keywords\<close>

text \<open>The formats of the validators; the compiler has its own list of them.\<close>

definition COMPILER_FORMATS :: "string list" where
  "COMPILER_FORMATS = [''date'', ''date-time'', ''email'', ''ipv4'', ''ipv6'', ''time'', ''uri'', ''uuid'']"

definition check_keyword :: "jstring \<Rightarrow> jstring \<times> jsval \<Rightarrow> unit compiled" where
  "check_keyword path = (\<lambda>(key, v).
     if \<not> in_words key SUPPORTED_KEYWORDS then
       unsupported (childPath path key) (js ''unsupported validation keyword '' @ json_quote key) key
     else if key = js ''format'' \<and> is_string v \<and> \<not> in_words (str_val v) COMPILER_FORMATS then
       unsupported (childPath path key) (js ''unsupported validation format '' @ json_quote (str_val v)) key
     else Inr ())"

text \<open>The schemas under a keyword, with their paths.\<close>

definition keyword_schemas :: "jstring \<Rightarrow> jstring \<times> jsval \<Rightarrow> (jsval \<times> jstring) list compiled" where
  "keyword_schemas path = (\<lambda>(key, v).
     let sub = childPath path key in
     if \<not> in_words key SUBSCHEMA_KEYS then Inr []
     else if in_words key map_keywords then
       andThen (schemaMap v sub) (\<lambda>entries. Inr (map (\<lambda>(k, x). (x, childPath sub k)) (sort_key fst entries)))
     else if in_words key array_keywords then
       andThen (schemaArray v sub) (\<lambda>entries. Inr (map (\<lambda>(i, x). (x, indexPath sub i)) (indexed entries)))
     else if is_boolean v then Inr []
     else Inr [(v, sub)])"

lemma schemaMap_Inr: "schemaMap v path = Inr entries \<Longrightarrow> entries = obj_fields v"
proof -
  have "traverse f fs = Inr es \<Longrightarrow> (\<And>kv y. f kv = Inr y \<Longrightarrow> y = kv) \<Longrightarrow> es = fs" for f fs and es :: "jsval jobj"
    by (induction fs arbitrary: es) auto
  then show "schemaMap v path = Inr entries \<Longrightarrow> entries = obj_fields v"
    by (fastforce simp: schemaMap_def schemaRecord_def fail_def split: if_splits dest: schema_item_Inr)
qed

lemma schemaArray_Inr: "schemaArray v path = Inr entries \<Longrightarrow> entries = arr_items v"
proof -
  have "traverse f xs = Inr es \<Longrightarrow> (\<And>ix y. f ix = Inr y \<Longrightarrow> y = snd ix) \<Longrightarrow> es = map snd xs" for f xs and es :: "jsval list"
    by (induction xs arbitrary: es) auto
  then show "schemaArray v path = Inr entries \<Longrightarrow> entries = arr_items v"
    by (fastforce simp: schemaArray_def fail_def indexed_def split: if_splits dest: schema_item_Inr)
qed

lemma size_item: "x \<in> set (arr_items v) \<Longrightarrow> size x < size v"
proof (cases v)
  case (JArr i xs)
  moreover assume "x \<in> set (arr_items v)"
  ultimately have "size x \<le> size_list size xs" using size_list_estimation' [of x xs "size x" size] by simp
  then show ?thesis using JArr by simp
qed simp_all

lemma size_field: "kx \<in> set (obj_fields v) \<Longrightarrow> size (snd kx) < size v"
proof (cases v)
  case (JObj i fs)
  moreover assume "kx \<in> set (obj_fields v)"
  ultimately have "Suc (size (snd kx)) \<le> size_list (\<lambda>kv. Suc (size (snd kv))) fs"
    using size_list_estimation' [of kx fs "Suc (size (snd kx))" "\<lambda>kv. Suc (size (snd kv))"] by simp
  then show ?thesis using JObj by (simp add: size_prod_simp)
qed simp_all

lemma indexed_member: "ix \<in> set (indexed xs) \<Longrightarrow> snd ix \<in> set xs"
  by (cases ix) (auto simp: indexed_def dest: set_zip_rightD)

lemma keyword_schemas_size:
  assumes "keyword_schemas path (key, v) = Inr entries" "xp \<in> set entries"
  shows "size (fst xp) \<le> size v"
proof -
  consider fs where "schemaMap v (childPath path key) = Inr fs"
      "entries = map (\<lambda>(k, x). (x, childPath (childPath path key) k)) (sort_key fst fs)"
    | xs where "schemaArray v (childPath path key) = Inr xs"
      "entries = map (\<lambda>(i, x). (x, indexPath (childPath path key) i)) (indexed xs)"
    | "entries = []" | "entries = [(v, childPath path key)]"
    using assms(1) by (auto simp: keyword_schemas_def Let_def split: if_splits)
  then show ?thesis
  proof cases
    case 1
    with assms(2) schemaMap_Inr [OF 1(1)] obtain kx where "kx \<in> set (obj_fields v)" "fst xp = snd kx" by auto
    with size_field [of kx v] show ?thesis by simp
  next
    case 2
    with assms(2) schemaArray_Inr [OF 2(1)] obtain ix where "ix \<in> set (indexed (arr_items v))" "fst xp = snd ix" by auto
    with size_item [OF indexed_member [OF this(1)]] show ?thesis by simp
  qed (use assms(2) in auto)
qed

lemma for_each_cong [fundef_cong]:
  "xs = ys \<Longrightarrow> (\<And>x. x \<in> set ys \<Longrightarrow> f x = g x) \<Longrightarrow> for_each f xs = for_each g ys"
proof (induction ys arbitrary: xs)
  case (Cons y ys)
  then show ?case by simp
qed simp

function assertSupportedKeywords :: "jsval \<Rightarrow> jstring \<Rightarrow> unit compiled" where
  "assertSupportedKeywords schema path =
     (if is_boolean schema then Inr ()
      else if \<not> is_record schema then fail path (js ''expected a JSON Schema object'')
      else
        for_each (\<lambda>kv.
          andThen (check_keyword path kv) (\<lambda>_.
          andThen (keyword_schemas path kv) (\<lambda>entries.
            for_each (\<lambda>sp. assertSupportedKeywords (fst sp) (snd sp)) entries)))
          (sort_key fst (obj_fields schema)))"
  by pat_completeness auto
termination
  by (relation "measure (\<lambda>(schema, _). size schema)")
    (auto dest!: keyword_schemas_size dest: size_field)

declare assertSupportedKeywords.simps [simp del]

section \<open>References\<close>

text \<open>The search \<open>~(?:[^01]|$)\<close>.\<close>

fun bad_tilde :: "jstring \<Rightarrow> bool" where
  "bad_tilde [] = False"
| "bad_tilde (c # s) = ((c = 0x7E \<and> (s = [] \<or> hd s \<notin> {0x30, 0x31})) \<or> bad_tilde s)"

definition not_direct :: "jstring \<Rightarrow> jstring \<Rightarrow> jstring compiled" where
  "not_direct path reference =
     fail_keyword path (js ''must point directly to a local definition; received '' @ json_quote reference) ''$ref''"

text \<open>\<open>decode\<close> is \<open>decodeURIComponent\<close>.\<close>

definition decodeReference :: "(jstring \<Rightarrow> jstring option) \<Rightarrow> jstring \<Rightarrow> jstring \<Rightarrow> jstring compiled" where
  "decodeReference decode reference path =
     (if reference = js ''#'' then Inr reference
      else
        (case find (\<lambda>p. starts_with p reference) [js ''#/$defs/'', js ''#/definitions/''] of
           None \<Rightarrow>
             fail_keyword path (js ''only local $defs references are supported; received '' @ json_quote reference) ''$ref''
         | Some p \<Rightarrow>
             let encoded = drop (length p) reference in
             if encoded = [] \<or> 0x2F \<in> set encoded then not_direct path reference
             else
               (case decode encoded of
                  None \<Rightarrow> fail_keyword path (js ''contains invalid URI escaping: '' @ json_quote reference) ''$ref''
                | Some decoded \<Rightarrow>
                    if 0x2F \<in> set decoded then not_direct path reference
                    else if bad_tilde decoded then
                      fail_keyword path (js ''contains invalid JSON Pointer escaping: '' @ json_quote reference) ''$ref''
                    else Inr (replace2 0x7E 0x30 0x7E (replace2 0x7E 0x31 0x2F decoded)))))"

section \<open>Definitions\<close>

fun canonicalJson :: "jsval \<Rightarrow> jstring" where
  "canonicalJson (JArr _ xs) = js ''['' @ join_with (js '','') (map canonicalJson xs) @ js '']''"
| "canonicalJson (JObj _ fs) =
     js ''{'' @ join_with (js '','')
       (map (\<lambda>(k, t). json_quote k @ js '':'' @ t) (sort_key fst (map (\<lambda>(k, v). (k, canonicalJson v)) fs))) @ js ''}''"
| "canonicalJson v = (case json_text v of Some t \<Rightarrow> t | None \<Rightarrow> js ''undefined'')"

record definition_entry =
  de_schema :: jsval
  de_path :: jstring

type_synonym definition_map = "(jstring, definition_entry) jmap"

text \<open>A loop that changes a state and may throw.\<close>

fun fold_result :: "('a \<Rightarrow> 's \<Rightarrow> ('e, 's) result) \<Rightarrow> 'a list \<Rightarrow> 's \<Rightarrow> ('e, 's) result" where
  "fold_result f [] s = Inr s"
| "fold_result f (x # xs) s = andThen (f x s) (fold_result f xs)"

lemma fold_result_cong [fundef_cong]:
  "xs = ys \<Longrightarrow> s = t \<Longrightarrow> (\<And>x u. x \<in> set ys \<Longrightarrow> f x u = g x u) \<Longrightarrow> fold_result f xs s = fold_result g ys t"
proof (induction ys arbitrary: xs s t)
  case (Cons y ys)
  then show ?case by (auto intro!: andThen_cong)
qed simp

definition register_definition ::
  "jstring \<Rightarrow> jstring \<Rightarrow> jsval \<Rightarrow> definition_map \<Rightarrow> definition_map compiled" where
  "register_definition path key schema defs =
     (case jm_get defs key of
        None \<Rightarrow> Inr (jm_set key \<lparr>de_schema = schema, de_path = path\<rparr> defs)
      | Some existing \<Rightarrow>
          if canonicalJson (de_schema existing) \<noteq> canonicalJson schema then
            fail path (js ''definition '' @ json_quote key @
              js '' collides with an incompatible definition at '' @ de_path existing)
          else Inr defs)"

text \<open>The entries of a map keyword in the order of their names, and the schemas below the other keywords.\<close>

definition map_entries :: "jsval \<Rightarrow> jstring \<Rightarrow> string \<Rightarrow> (jstring \<times> jsval) list compiled" where
  "map_entries schema path keyword =
     (if field schema keyword = JUndef then Inr []
      else andThen (schemaMap (field schema keyword) (dotted path keyword)) (\<lambda>fs. Inr (sort_key fst fs)))"

definition child_entries :: "jsval \<Rightarrow> jstring \<Rightarrow> string \<Rightarrow> (jsval \<times> jstring) list compiled" where
  "child_entries schema path keyword =
     (if keyword = ''properties'' then
        andThen (map_entries schema path keyword) (\<lambda>fs. Inr (map (\<lambda>(k, x). (x, childPath (dotted path keyword) k)) fs))
      else if field schema keyword = JUndef then Inr []
      else if keyword \<in> {''additionalProperties'', ''items''} then
        Inr (if is_boolean (field schema keyword) then [] else [(field schema keyword, dotted path keyword)])
      else
        andThen (schemaArray (field schema keyword) (dotted path keyword)) (\<lambda>xs.
          Inr (map (\<lambda>(i, x). (x, indexPath (dotted path keyword) i)) (indexed xs))))"

lemma field_member: "field v k \<noteq> JUndef \<Longrightarrow> (js k, field v k) \<in> set (obj_fields v)"
  by (auto simp: field_def split: option.splits dest: map_of_SomeD)

lemma size_field_of: "field v k \<noteq> JUndef \<Longrightarrow> size (field v k) < size v"
  using size_field [OF field_member] by simp

lemma map_entries_size: "map_entries schema path keyword = Inr fs \<Longrightarrow> kx \<in> set fs \<Longrightarrow> size (snd kx) < size schema"
  by (auto simp: map_entries_def split: if_splits dest!: schemaMap_Inr size_field size_field_of)

lemma child_entries_size:
  assumes "child_entries schema path keyword = Inr entries" "xp \<in> set entries"
  shows "size (fst xp) < size schema"
proof -
  consider fs where "map_entries schema path keyword = Inr fs"
      "entries = map (\<lambda>(k, x). (x, childPath (dotted path keyword) k)) fs"
    | "entries = []" | "field schema keyword \<noteq> JUndef" "entries = [(field schema keyword, dotted path keyword)]"
    | xs where "field schema keyword \<noteq> JUndef" "schemaArray (field schema keyword) (dotted path keyword) = Inr xs"
      "entries = map (\<lambda>(i, x). (x, indexPath (dotted path keyword) i)) (indexed xs)"
    using assms(1) by (auto simp: child_entries_def split: if_splits)
  then show ?thesis
  proof cases
    case 1
    with assms(2) map_entries_size [OF 1(1)] show ?thesis by fastforce
  next
    case 3
    with assms(2) size_field_of [OF 3(1)] show ?thesis by simp
  next
    case 4
    with assms(2) schemaArray_Inr [OF 4(2)] obtain ix where "ix \<in> set (indexed (arr_items (field schema keyword)))"
      "fst xp = snd ix" by auto
    with size_item [OF indexed_member [OF this(1)]] size_field_of [OF 4(1)] show ?thesis by simp
  qed (use assms(2) in auto)
qed

function collectDefinitions :: "jsval \<Rightarrow> jstring \<Rightarrow> definition_map \<Rightarrow> definition_map compiled" where
  "collectDefinitions schema path defs =
     (if \<not> is_record schema then Inr defs
      else
        andThen
          (fold_result (\<lambda>keyword defs.
             andThen (map_entries schema path keyword) (\<lambda>entries.
               fold_result (\<lambda>kx defs.
                 let entryPath = childPath (dotted path keyword) (fst kx) in
                 andThen (register_definition entryPath (fst kx) (snd kx) defs) (\<lambda>defs.
                   collectDefinitions (snd kx) entryPath defs)) entries defs)) [''$defs'', ''definitions''] defs)
          (\<lambda>defs.
           fold_result (\<lambda>keyword defs.
             andThen (child_entries schema path keyword) (\<lambda>entries.
               fold_result (\<lambda>xp defs. collectDefinitions (fst xp) (snd xp) defs) entries defs))
             [''properties'', ''additionalProperties'', ''items'', ''allOf'', ''anyOf'', ''oneOf'', ''prefixItems''] defs))"
  by pat_completeness auto
termination
  by (relation "measure (\<lambda>(schema, _). size schema)")
    (auto dest: map_entries_size child_entries_size)

declare collectDefinitions.simps [simp del]

end
