(* ===== verification/Codegen_Manifest.thy ===== *)
theory Codegen_Manifest
  imports Codegen_Schema
begin

text \<open>
  The validation of schema manifests (\<open>packages/codegen/src/schema-manifest.ts\<close>). What is validated may
  be any value of the language: its objects live in a heap, may be shared and cyclic, and each operation
  the code performs on them may throw. The snapshot that is taken of it is JSON data, a tree.
\<close>

section \<open>Errors and texts\<close>

record manifest_error =
  me_path :: jstring
  me_message :: jstring

type_synonym 'a manifest_result = "(manifest_error, 'a) result"

definition invalid :: "jstring \<Rightarrow> jstring \<Rightarrow> 'a manifest_result" where
  "invalid path reason =
     Inl \<lparr>me_path = path, me_message = js ''[fluxfast] Invalid schema manifest at '' @ path @ js '': '' @ reason\<rparr>"

definition expect :: "bool \<Rightarrow> jstring \<Rightarrow> jstring \<Rightarrow> unit manifest_result" where
  "expect ok path reason = (if ok then Inr () else invalid path reason)"

definition manifestChildPath :: "jstring \<Rightarrow> jstring \<Rightarrow> jstring" where
  "manifestChildPath path key = childPath path (if length key > 128 then take 125 key @ js ''...'' else key)"

section \<open>Input\<close>

text \<open>\<open>ROther\<close> is \<open>undefined\<close>, a function, a symbol or a bigint.\<close>

datatype raw =
    RNull
  | RBool bool
  | RNum jnum
  | RStr jstring
  | RRef nat
  | ROther

text \<open>What \<open>Object.getOwnPropertyDescriptor\<close> gives; \<open>DData\<close> tells whether the property is enumerable.\<close>

datatype descriptor = DMissing | DThrows | DAccessor | DData raw bool

text \<open>
  What the operations on an object give: \<open>Array.isArray\<close>, whether the prototype is plain, and
  \<open>Reflect.ownKeys\<close>, each \<open>None\<close> when it throws; a key that is \<open>None\<close> is a symbol.
\<close>

record raw_object =
  ro_array :: "bool option"
  ro_plain :: "bool option"
  ro_keys :: "jstring option list option"
  ro_descriptors :: "(jstring \<times> descriptor) list"

type_synonym raw_heap = "raw_object list"

definition object_at :: "raw_heap \<Rightarrow> nat \<Rightarrow> raw_object" where
  "object_at h a =
     (if a < length h then h ! a else \<lparr>ro_array = None, ro_plain = None, ro_keys = None, ro_descriptors = []\<rparr>)"

section \<open>The snapshot\<close>

definition MAX_MANIFEST_SOURCE_LENGTH :: nat where "MAX_MANIFEST_SOURCE_LENGTH = 8 * 1024 * 1024"
definition MAX_MANIFEST_VALUE_COUNT :: nat where "MAX_MANIFEST_VALUE_COUNT = 100000"
definition MAX_MANIFEST_CHILDREN :: nat where "MAX_MANIFEST_CHILDREN = 10000"
definition MAX_MANIFEST_DEPTH :: nat where "MAX_MANIFEST_DEPTH = 64"
definition MAX_MANIFEST_STRING_LENGTH :: nat where "MAX_MANIFEST_STRING_LENGTH = 65536"
definition MAX_MANIFEST_TOTAL_STRING_LENGTH :: nat where "MAX_MANIFEST_TOTAL_STRING_LENGTH = 8 * 1024 * 1024"

record manifest_budget =
  mb_values :: nat
  mb_strings :: nat

definition not_more :: "string \<Rightarrow> nat \<Rightarrow> string \<Rightarrow> jstring" where
  "not_more what n unit = js what @ nat_digits n @ js '' '' @ js unit"

definition readDataDescriptor :: "raw_object \<Rightarrow> jstring \<Rightarrow> jstring \<Rightarrow> (raw \<times> bool) manifest_result" where
  "readDataDescriptor ob key path =
     (case map_of (ro_descriptors ob) key of
        Some DThrows \<Rightarrow> invalid path (js ''could not be inspected'')
      | Some DAccessor \<Rightarrow> invalid path (js ''must not use an accessor property'')
      | Some (DData v enumerable) \<Rightarrow> Inr (v, enumerable)
      | _ \<Rightarrow> invalid path (js ''must be present as an own property''))"

text \<open>The own keys of an object, which must be strings.\<close>

definition own_string_keys :: "raw_object \<Rightarrow> jstring \<Rightarrow> jstring list manifest_result" where
  "own_string_keys ob path =
     (case ro_keys ob of
        None \<Rightarrow> invalid path (js ''properties could not be enumerated'')
      | Some keys \<Rightarrow>
          if None \<in> set keys then invalid path (js ''must not contain symbol properties'')
          else Inr (map the keys))"

definition count_strings :: "nat \<Rightarrow> jstring \<Rightarrow> manifest_budget \<Rightarrow> manifest_budget manifest_result" where
  "count_strings n path b =
     (let total = mb_strings b + n in
      andThen (expect (total \<le> MAX_MANIFEST_TOTAL_STRING_LENGTH) path
          (not_more ''must not contain more than '' MAX_MANIFEST_TOTAL_STRING_LENGTH ''total string characters''))
        (\<lambda>_. Inr (b\<lparr>mb_strings := total\<rparr>)))"

definition count_manifest_value :: "jstring \<Rightarrow> manifest_budget \<Rightarrow> manifest_budget manifest_result" where
  "count_manifest_value path b =
     (let n = mb_values b + 1 in
      andThen (expect (n \<le> MAX_MANIFEST_VALUE_COUNT) path
          (not_more ''must not contain more than '' MAX_MANIFEST_VALUE_COUNT ''JSON values''))
        (\<lambda>_. Inr (b\<lparr>mb_values := n\<rparr>)))"

definition snapshot_string :: "jstring \<Rightarrow> jstring \<Rightarrow> manifest_budget \<Rightarrow> (jsval \<times> manifest_budget) manifest_result" where
  "snapshot_string s path b =
     andThen (expect (length s \<le> MAX_MANIFEST_STRING_LENGTH) path
         (not_more ''must not contain strings longer than '' MAX_MANIFEST_STRING_LENGTH ''characters'')) (\<lambda>_.
     andThen (count_strings (length s) path b) (\<lambda>b. Inr (JStr s, b)))"

definition snapshot_number :: "jnum \<Rightarrow> jstring \<Rightarrow> manifest_budget \<Rightarrow> (jsval \<times> manifest_budget) manifest_result" where
  "snapshot_number n path b =
     andThen (expect (num_finite n) path (js ''must not contain a non-finite number'')) (\<lambda>_.
     andThen (expect (num_is_integer n \<longrightarrow> num_is_safe_integer n) path
         (js ''must not contain an integer outside the JavaScript safe integer range'')) (\<lambda>_.
       Inr (JNum n, b)))"

type_synonym raw_entry = "jstring \<times> jstring \<times> raw"

text \<open>The items of an array: their indices as keys, their paths, their values.\<close>

definition array_length :: "raw_object \<Rightarrow> jstring \<Rightarrow> nat manifest_result" where
  "array_length ob path =
     andThen (readDataDescriptor ob (js ''length'') (dotted path ''length'')) (\<lambda>(v, _).
       case v of
         RNum n \<Rightarrow>
           if num_is_safe_integer n \<and> 0 \<le> num_val n then
             andThen (expect (nat \<lfloor>num_val n\<rfloor> \<le> MAX_MANIFEST_CHILDREN) path
                 (not_more ''must not contain arrays with more than '' MAX_MANIFEST_CHILDREN ''entries''))
               (\<lambda>_. Inr (nat \<lfloor>num_val n\<rfloor>))
           else invalid (dotted path ''length'') (js ''must be a non-negative safe integer'')
       | _ \<Rightarrow> invalid (dotted path ''length'') (js ''must be a non-negative safe integer''))"

definition array_item_entry :: "raw_object \<Rightarrow> jstring \<Rightarrow> nat \<Rightarrow> raw_entry manifest_result" where
  "array_item_entry ob path index =
     andThen (readDataDescriptor ob (nat_digits index) (indexPath path index)) (\<lambda>(v, enumerable).
     andThen (expect enumerable (indexPath path index) (js ''must be an enumerable JSON array item'')) (\<lambda>_.
       Inr (nat_digits index, indexPath path index, v)))"

definition array_entries :: "raw_object \<Rightarrow> jstring \<Rightarrow> raw_entry list manifest_result" where
  "array_entries ob path =
     andThen (array_length ob path) (\<lambda>n.
     andThen (own_string_keys ob path) (\<lambda>keys.
     andThen (for_each (\<lambda>key.
         expect (key \<in> set (js ''length'' # map nat_digits [0..<n])) (manifestChildPath path key)
           (js ''is not a JSON array index'')) keys) (\<lambda>_.
     andThen (traverse (array_item_entry ob path) (rev [0..<n])) (\<lambda>entries. Inr (rev entries)))))"

text \<open>The properties of an object, read from the last to the first.\<close>

definition object_entry :: "raw_object \<Rightarrow> jstring \<Rightarrow> jstring \<Rightarrow> raw_entry list \<times> manifest_budget \<Rightarrow> (raw_entry list \<times> manifest_budget) manifest_result" where
  "object_entry ob path key = (\<lambda>(entries, b).
     let itemPath = manifestChildPath path key in
     andThen (expect (length key \<le> MAX_MANIFEST_STRING_LENGTH) itemPath
         (not_more ''must not contain keys longer than '' MAX_MANIFEST_STRING_LENGTH ''characters'')) (\<lambda>_.
     andThen (count_strings (length key) itemPath b) (\<lambda>b.
     andThen (readDataDescriptor ob key itemPath) (\<lambda>(v, enumerable).
     andThen (expect enumerable itemPath (js ''must be an enumerable JSON property'')) (\<lambda>_.
       Inr ((key, itemPath, v) # entries, b))))))"

definition object_entries_of :: "raw_object \<Rightarrow> jstring \<Rightarrow> manifest_budget \<Rightarrow> (raw_entry list \<times> manifest_budget) manifest_result" where
  "object_entries_of ob path b =
     andThen
       (case ro_plain ob of
          None \<Rightarrow> invalid path (js ''must be a readable plain JSON object'')
        | Some ok \<Rightarrow> expect ok path (js ''must be a plain JSON object'')) (\<lambda>_.
     andThen (own_string_keys ob path) (\<lambda>keys.
     andThen (expect (length keys \<le> MAX_MANIFEST_CHILDREN) path
         (not_more ''must not contain objects with more than '' MAX_MANIFEST_CHILDREN ''properties'')) (\<lambda>_.
       fold_result (object_entry ob path) (rev keys) ([], b))))"

text \<open>A \<open>map\<close> that changes a state and may throw.\<close>

fun walk :: "('a \<Rightarrow> 's \<Rightarrow> ('e, 'b \<times> 's) result) \<Rightarrow> 'a list \<Rightarrow> 's \<Rightarrow> ('e, 'b list \<times> 's) result" where
  "walk f [] s = Inr ([], s)"
| "walk f (x # xs) s = andThen (f x s) (\<lambda>(y, s). andThen (walk f xs s) (\<lambda>(ys, s). Inr (y # ys, s)))"

lemma walk_cong [fundef_cong]:
  "xs = ys \<Longrightarrow> s = t \<Longrightarrow> (\<And>x u. x \<in> set ys \<Longrightarrow> f x u = g x u) \<Longrightarrow> walk f xs s = walk g ys t"
proof (induction ys arbitrary: xs s t)
  case (Cons y ys)
  then show ?case by (auto intro!: andThen_cong)
qed simp

text \<open>
  The worklist of the code visits a value before its children and the children in order. An object is
  active while its children are visited.
\<close>

function snapshot_value ::
  "raw_heap \<Rightarrow> nat list \<Rightarrow> nat \<Rightarrow> jstring \<Rightarrow> raw \<Rightarrow> manifest_budget \<Rightarrow> (jsval \<times> manifest_budget) manifest_result" where
  "snapshot_value h active depth path v b =
     andThen (count_manifest_value path b) (\<lambda>b.
       if depth > MAX_MANIFEST_DEPTH then
         invalid path (js ''must not exceed a nesting depth of '' @ nat_digits MAX_MANIFEST_DEPTH)
       else
         (case v of
            RStr s \<Rightarrow> snapshot_string s path b
          | RNull \<Rightarrow> Inr (JNull, b)
          | RBool x \<Rightarrow> Inr (JBool x, b)
          | RNum n \<Rightarrow> snapshot_number n path b
          | ROther \<Rightarrow> invalid path (js ''must contain only JSON-compatible values'')
          | RRef a \<Rightarrow>
              if a \<in> set active then invalid path (js ''must not contain circular object references'')
              else
                (case ro_array (object_at h a) of
                   None \<Rightarrow> invalid path (js ''could not be inspected as JSON'')
                 | Some True \<Rightarrow>
                     andThen (array_entries (object_at h a) path) (\<lambda>entries.
                     andThen (walk (\<lambda>e. snapshot_value h (a # active) (depth + 1) (fst (snd e)) (snd (snd e))) entries b)
                       (\<lambda>(xs, b). Inr (JArr 0 xs, b)))
                 | Some False \<Rightarrow>
                     andThen (object_entries_of (object_at h a) path b) (\<lambda>(entries, b).
                     andThen (walk (\<lambda>e. snapshot_value h (a # active) (depth + 1) (fst (snd e)) (snd (snd e))) entries b)
                       (\<lambda>(xs, b). Inr (JObj 0 (build_object (zip (map fst entries) xs)), b))))))"
  by pat_completeness auto
termination
  by (relation "measure (\<lambda>(_, _, depth, _). Suc MAX_MANIFEST_DEPTH - depth)") auto

declare snapshot_value.simps [simp del]

definition createManifestSnapshot :: "raw_heap \<Rightarrow> raw \<Rightarrow> jsval manifest_result" where
  "createManifestSnapshot h v =
     andThen (snapshot_value h [] 0 (js ''$'') v \<lparr>mb_values = 0, mb_strings = 0\<rparr>) (\<lambda>(m, _). Inr m)"

section \<open>Fields\<close>

definition valueDescription :: "jsval \<Rightarrow> jstring" where
  "valueDescription v =
     (case v of
        JNull \<Rightarrow> js ''null''
      | JArr _ _ \<Rightarrow> js ''an array''
      | JStr s \<Rightarrow> json_quote s
      | JUndef \<Rightarrow> js ''undefined''
      | JBool _ \<Rightarrow> js ''boolean''
      | JNum _ \<Rightarrow> js ''number''
      | JObj _ _ \<Rightarrow> js ''object'')"

definition assertRecord :: "jsval \<Rightarrow> jstring \<Rightarrow> unit manifest_result" where
  "assertRecord v path = expect (is_record v) path (js ''must be an object; received '' @ valueDescription v)"

definition assertExactKeys :: "jsval \<Rightarrow> jstring \<Rightarrow> string list \<Rightarrow> string list \<Rightarrow> unit manifest_result" where
  "assertExactKeys v path required optional =
     andThen (for_each (\<lambda>key. expect (in_words key (required @ optional)) (manifestChildPath path key)
                                (js ''is not a supported field'')) (map fst (obj_fields v))) (\<lambda>_.
       for_each (\<lambda>key. expect (has_field v key) (manifestChildPath path (js key)) (js ''is required'')) required)"

definition assertString :: "jsval \<Rightarrow> jstring \<Rightarrow> unit manifest_result" where
  "assertString v path = expect (is_string v) path (js ''must be a string; received '' @ valueDescription v)"

definition assertMetadataName :: "jsval \<Rightarrow> jstring \<Rightarrow> unit manifest_result" where
  "assertMetadataName v path =
     andThen (assertString v path) (\<lambda>_.
     andThen (expect (js_trim (str_val v) \<noteq> [] \<and> length (str_val v) \<le> 128) path
         (js ''must be non-empty and at most 128 characters'')) (\<lambda>_.
       expect (\<not> has_control (str_val v)) path (js ''must not contain control characters'')))"

definition assertRoutePath :: "jsval \<Rightarrow> jstring \<Rightarrow> unit manifest_result" where
  "assertRoutePath v path =
     andThen (assertString v path) (\<lambda>_.
     andThen (expect (starts_with (js ''/'') (str_val v) \<and> length (str_val v) \<le> 2048) path
         (js ''must start with '' @ [0x27, 0x2F, 0x27] @ js '' and be at most 2048 characters'')) (\<lambda>_.
       expect (\<not> has_control (str_val v)) path (js ''must not contain control characters'')))"

definition assertResourceKey :: "jstring \<Rightarrow> jstring \<Rightarrow> unit manifest_result" where
  "assertResourceKey key path =
     andThen (expect (js_trim key \<noteq> [] \<and> length key \<le> 128) path
         (js ''must be non-empty and at most 128 characters'')) (\<lambda>_.
       expect (\<not> (0x2C \<in> set key \<or> has_control key)) path (js ''must not contain commas or control characters''))"

section \<open>Schemas\<close>

definition MAX_SCHEMA_VALUE_COUNT :: nat where "MAX_SCHEMA_VALUE_COUNT = 100000"
definition MAX_SCHEMA_VALUE_CONTAINERS :: nat where "MAX_SCHEMA_VALUE_CONTAINERS = 10000"
definition MAX_SCHEMA_VALUE_CHILDREN :: nat where "MAX_SCHEMA_VALUE_CHILDREN = 10000"
definition MAX_SCHEMA_VALUE_DEPTH :: nat where "MAX_SCHEMA_VALUE_DEPTH = 64"
definition MAX_SCHEMA_VALUE_STRING_LENGTH :: nat where "MAX_SCHEMA_VALUE_STRING_LENGTH = 65536"

record schema_budget =
  sb_values :: nat
  sb_containers :: nat

definition count_schema_value :: "jstring \<Rightarrow> schema_budget \<Rightarrow> schema_budget manifest_result" where
  "count_schema_value path b =
     (let n = sb_values b + 1 in
      andThen (expect (n \<le> MAX_SCHEMA_VALUE_COUNT) path
          (not_more ''schemas must not contain more than '' MAX_SCHEMA_VALUE_COUNT ''JSON values''))
        (\<lambda>_. Inr (b\<lparr>sb_values := n\<rparr>)))"

definition count_container :: "jstring \<Rightarrow> schema_budget \<Rightarrow> schema_budget manifest_result" where
  "count_container path b =
     (let n = sb_containers b + 1 in
      andThen (expect (n \<le> MAX_SCHEMA_VALUE_CONTAINERS) path
          (not_more ''schemas must not contain more than '' MAX_SCHEMA_VALUE_CONTAINERS ''JSON containers''))
        (\<lambda>_. Inr (b\<lparr>sb_containers := n\<rparr>)))"

definition schema_text_length :: "jstring \<Rightarrow> jstring \<Rightarrow> unit manifest_result" where
  "schema_text_length s path =
     expect (length s \<le> MAX_SCHEMA_VALUE_STRING_LENGTH) path
       (not_more ''must not contain strings longer than '' MAX_SCHEMA_VALUE_STRING_LENGTH ''characters'')"

text \<open>The values of a container, in the order in which they are taken from the stack.\<close>

definition schema_children :: "jsval \<Rightarrow> jstring \<Rightarrow> (jsval \<times> jstring) list manifest_result" where
  "schema_children item path =
     (if is_array item then
        andThen (expect (length (arr_items item) \<le> MAX_SCHEMA_VALUE_CHILDREN) path
            (not_more ''must not contain arrays with more than '' MAX_SCHEMA_VALUE_CHILDREN ''entries'')) (\<lambda>_.
          Inr (map (\<lambda>(index, x). (x, indexPath path index)) (indexed (arr_items item))))
      else
        andThen (assertRecord item path) (\<lambda>_.
        andThen (expect (length (obj_fields item) \<le> MAX_SCHEMA_VALUE_CHILDREN) path
            (not_more ''must not contain objects with more than '' MAX_SCHEMA_VALUE_CHILDREN ''properties'')) (\<lambda>_.
        andThen (for_each (\<lambda>(key, x). schema_text_length key (manifestChildPath path key)) (obj_fields item)) (\<lambda>_.
          Inr (rev (map (\<lambda>(key, x). (x, manifestChildPath path key)) (obj_fields item)))))))"

lemma schema_children_size:
  assumes "schema_children item path = Inr children" "xp \<in> set children"
  shows "size (fst xp) < size item"
  using assms
  by (fastforce simp: schema_children_def split: if_splits dest: indexed_member size_item size_field)

text \<open>The worklist visits a value before its children.\<close>

function schema_values :: "jsval \<Rightarrow> jstring \<Rightarrow> nat \<Rightarrow> schema_budget \<Rightarrow> schema_budget manifest_result" where
  "schema_values item path depth b =
     andThen (count_schema_value path b) (\<lambda>b.
       case item of
         JNull \<Rightarrow> Inr b
       | JBool _ \<Rightarrow> Inr b
       | JStr s \<Rightarrow> andThen (schema_text_length s path) (\<lambda>_. Inr b)
       | _ \<Rightarrow>
           andThen (expect (depth \<le> MAX_SCHEMA_VALUE_DEPTH) path
               (js ''schema value nesting exceeds the maximum of '' @ nat_digits MAX_SCHEMA_VALUE_DEPTH)) (\<lambda>_.
             case item of
               JNum n \<Rightarrow> andThen (expect (num_finite n) path (js ''must not contain a non-finite number'')) (\<lambda>_. Inr b)
             | JUndef \<Rightarrow> invalid path (js ''must contain only JSON values; received '' @ valueDescription item)
             | _ \<Rightarrow>
                 andThen (count_container path b) (\<lambda>b.
                 andThen (schema_children item path) (\<lambda>children.
                   fold_result (\<lambda>xp b. schema_values (fst xp) (snd xp) (depth + 1) b) children b))))"
  by pat_completeness auto
termination
  by (relation "measure (\<lambda>(item, _). size item)") (auto dest: schema_children_size)

declare schema_values.simps [simp del]

definition JSON_SCHEMA_TYPES :: "string list" where
  "JSON_SCHEMA_TYPES = [''array'', ''boolean'', ''integer'', ''null'', ''number'', ''object'', ''string'']"

fun schema_type_loop :: "jstring \<Rightarrow> bool \<Rightarrow> (nat \<times> jsval) list \<Rightarrow> jstring list \<Rightarrow> unit manifest_result" where
  "schema_type_loop path listed [] seen = Inr ()"
| "schema_type_loop path listed ((index, type) # rest) seen =
     (let typePath = (if listed then indexPath path index else path) in
      andThen (expect (is_string type \<and> in_words (str_val type) JSON_SCHEMA_TYPES) typePath
          (js ''must be a valid JSON Schema type'')) (\<lambda>_.
      andThen (expect (str_val type \<notin> set seen) typePath
          (js ''duplicates the JSON Schema type '' @ json_quote (str_val type))) (\<lambda>_.
        schema_type_loop path listed rest (str_val type # seen))))"

definition validateSchemaType :: "jsval \<Rightarrow> jstring \<Rightarrow> unit manifest_result" where
  "validateSchemaType v path =
     (let types = (if is_array v then arr_items v else [v]) in
      andThen (expect (types \<noteq> []) path (js ''must contain at least one JSON Schema type'')) (\<lambda>_.
        schema_type_loop path (is_array v) (indexed types) []))"

fun string_array_loop :: "jstring \<Rightarrow> (nat \<times> jsval) list \<Rightarrow> jstring list \<Rightarrow> unit manifest_result" where
  "string_array_loop path [] seen = Inr ()"
| "string_array_loop path ((index, item) # rest) seen =
     andThen (expect (is_string item) (indexPath path index) (js ''must be a string'')) (\<lambda>_.
     andThen (expect (str_val item \<notin> set seen) (indexPath path index) (js ''duplicates '' @ json_quote (str_val item))) (\<lambda>_.
       string_array_loop path rest (str_val item # seen)))"

definition validateStringArray :: "jsval \<Rightarrow> jstring \<Rightarrow> unit manifest_result" where
  "validateStringArray v path =
     andThen (expect (is_array v) path (js ''must be an array of strings'')) (\<lambda>_.
       string_array_loop path (indexed (arr_items v)) [])"

text \<open>What the functions \<open>queueSubschema\<close>, \<open>queueSubschemaMap\<close> and \<open>queueSubschemaArray\<close> push.\<close>

definition queueSubschema :: "jsval \<Rightarrow> jstring \<Rightarrow> (jsval \<times> jstring) list manifest_result" where
  "queueSubschema v path =
     (if is_boolean v then Inr [] else andThen (assertRecord v path) (\<lambda>_. Inr [(v, path)]))"

definition queueSubschemaMap :: "jsval \<Rightarrow> jstring \<Rightarrow> (jsval \<times> jstring) list manifest_result" where
  "queueSubschemaMap v path =
     andThen (assertRecord v path) (\<lambda>_.
     andThen (traverse (\<lambda>(key, x). queueSubschema x (manifestChildPath path key)) (obj_fields v)) (\<lambda>pushed.
       Inr (concat pushed)))"

definition queueSubschemaArray :: "jsval \<Rightarrow> jstring \<Rightarrow> bool \<Rightarrow> (jsval \<times> jstring) list manifest_result" where
  "queueSubschemaArray v path allowEmpty =
     andThen (expect (is_array v \<and> (allowEmpty \<or> arr_items v \<noteq> [])) path
         (if allowEmpty then js ''must be an array of schemas'' else js ''must be a non-empty array of schemas'')) (\<lambda>_.
     andThen (traverse (\<lambda>(index, x). queueSubschema x (indexPath path index)) (indexed (arr_items v))) (\<lambda>pushed.
       Inr (concat pushed)))"

definition schema_map_words :: "string list" where
  "schema_map_words = [''$defs'', ''definitions'', ''properties'', ''patternProperties'', ''dependentSchemas'']"

definition schema_single_words :: "string list" where
  "schema_single_words =
     [''additionalProperties'', ''contains'', ''contentSchema'', ''else'', ''if'', ''items'', ''not'',
      ''propertyNames'', ''then'', ''unevaluatedItems'', ''unevaluatedProperties'']"

definition schema_list_words :: "string list" where
  "schema_list_words = [''allOf'', ''anyOf'', ''oneOf'', ''prefixItems'']"

definition queue_keyword :: "jsval \<Rightarrow> jstring \<Rightarrow> string \<Rightarrow> (jsval \<times> jstring) list manifest_result" where
  "queue_keyword schema path keyword =
     (let v = field schema keyword in
      if v = JUndef then Inr []
      else if keyword \<in> set schema_map_words then queueSubschemaMap v (dotted path keyword)
      else if keyword \<in> set schema_list_words then
        queueSubschemaArray v (dotted path keyword) (keyword = ''prefixItems'')
      else queueSubschema v (manifestChildPath path (js keyword)))"

definition schema_queue :: "jsval \<Rightarrow> jstring \<Rightarrow> (jsval \<times> jstring) list manifest_result" where
  "schema_queue schema path =
     andThen (traverse (queue_keyword schema path) (schema_map_words @ schema_single_words @ schema_list_words))
       (\<lambda>pushed. Inr (concat pushed))"

definition keyword_values :: "jsval \<Rightarrow> jstring \<Rightarrow> unit manifest_result" where
  "keyword_values schema path =
     andThen (expect (field schema ''$ref'' = JUndef \<or> is_string (field schema ''$ref'')) (dotted path ''$ref'')
         (js ''must be a string'')) (\<lambda>_.
     andThen (if field schema ''type'' = JUndef then Inr ()
              else validateSchemaType (field schema ''type'') (dotted path ''type'')) (\<lambda>_.
     andThen (if field schema ''required'' = JUndef then Inr ()
              else validateStringArray (field schema ''required'') (dotted path ''required'')) (\<lambda>_.
       expect (field schema ''enum'' = JUndef \<or> (is_array (field schema ''enum'') \<and> arr_items (field schema ''enum'') \<noteq> []))
         (dotted path ''enum'') (js ''must be a non-empty array''))))"

lemma queueSubschema_member:
  "queueSubschema v path = Inr xs \<Longrightarrow> xp \<in> set xs \<Longrightarrow> fst xp = v"
  by (auto simp: queueSubschema_def split: if_splits)

lemma traverse_member:
  "traverse f xs = Inr ys \<Longrightarrow> y \<in> set ys \<Longrightarrow> \<exists>x\<in>set xs. f x = Inr y"
  by (induction xs arbitrary: ys) auto

lemma queue_keyword_size:
  assumes "queue_keyword schema path keyword = Inr xs" "xp \<in> set xs"
  shows "size (fst xp) < size schema"
proof -
  let ?v = "field schema keyword"
  have v: "?v \<noteq> JUndef" using assms by (auto simp: queue_keyword_def Let_def)
  consider "queueSubschemaMap ?v (dotted path keyword) = Inr xs"
    | e where "queueSubschemaArray ?v (dotted path keyword) e = Inr xs"
    | p where "queueSubschema ?v p = Inr xs"
    using assms(1) v by (auto simp: queue_keyword_def Let_def split: if_splits)
  then have "size (fst xp) \<le> size ?v"
  proof cases
    case 1
    then obtain pushed where "traverse (\<lambda>(key, x). queueSubschema x (manifestChildPath (dotted path keyword) key))
        (obj_fields ?v) = Inr pushed" "xs = concat pushed" by (auto simp: queueSubschemaMap_def)
    with assms(2) obtain kx where "kx \<in> set (obj_fields ?v)" "fst xp = snd kx"
      by (fastforce dest: traverse_member queueSubschema_member)
    with size_field [of kx ?v] show ?thesis by simp
  next
    case 2
    then obtain pushed where "traverse (\<lambda>(index, x). queueSubschema x (indexPath (dotted path keyword) index))
        (indexed (arr_items ?v)) = Inr pushed" "xs = concat pushed" by (auto simp: queueSubschemaArray_def)
    with assms(2) obtain ix where "ix \<in> set (indexed (arr_items ?v))" "fst xp = snd ix"
      by (fastforce dest: traverse_member queueSubschema_member)
    with size_item [OF indexed_member [OF this(1)]] show ?thesis by simp
  next
    case 3
    with assms(2) show ?thesis by (simp add: queueSubschema_member)
  qed
  with size_field_of [OF v] show ?thesis by simp
qed

lemma schema_queue_size: "schema_queue schema path = Inr xs \<Longrightarrow> xp \<in> set xs \<Longrightarrow> size (fst xp) < size schema"
  unfolding schema_queue_def by (clarsimp, drule (1) traverse_member, clarsimp, erule (1) queue_keyword_size)

text \<open>The schema pushed last is the next one to be taken.\<close>

function validateJsonSchemaKeywords :: "jsval \<Rightarrow> jstring \<Rightarrow> unit manifest_result" where
  "validateJsonSchemaKeywords schema path =
     andThen (keyword_values schema path) (\<lambda>_.
     andThen (schema_queue schema path) (\<lambda>pushed.
       for_each (\<lambda>sp. validateJsonSchemaKeywords (fst sp) (snd sp)) (rev pushed)))"
  by pat_completeness auto
termination
  by (relation "measure (\<lambda>(schema, _). size schema)") (auto dest: schema_queue_size)

declare validateJsonSchemaKeywords.simps [simp del]

definition assertJsonSchema :: "jsval \<Rightarrow> jstring \<Rightarrow> schema_budget \<Rightarrow> schema_budget manifest_result" where
  "assertJsonSchema v path b =
     andThen (assertRecord v path) (\<lambda>_.
     andThen (schema_values v path 0 b) (\<lambda>b.
     andThen (validateJsonSchemaKeywords v path) (\<lambda>_. Inr b)))"

section \<open>The parts of a manifest\<close>

definition validateParameter :: "jsval \<Rightarrow> jstring \<Rightarrow> schema_budget \<Rightarrow> schema_budget manifest_result" where
  "validateParameter v path b =
     andThen (assertRecord v path) (\<lambda>_.
     andThen (assertExactKeys v path [''name'', ''location'', ''required'', ''schema''] []) (\<lambda>_.
     andThen (assertMetadataName (field v ''name'') (dotted path ''name'')) (\<lambda>_.
     andThen (expect (field v ''location'' \<in> {JStr (js ''path''), JStr (js ''query'')}) (dotted path ''location'')
         (js ''must be either \"path\" or \"query\"'')) (\<lambda>_.
     andThen (expect (is_boolean (field v ''required'')) (dotted path ''required'') (js ''must be a boolean'')) (\<lambda>_.
     andThen (expect (\<not> (field v ''location'' = JStr (js ''path'') \<and> field v ''required'' = JBool False))
         (dotted path ''required'') (js ''must be true for path parameters'')) (\<lambda>_.
       assertJsonSchema (field v ''schema'') (dotted path ''schema'') b))))))"

definition parameter_identity :: "jsval \<Rightarrow> jstring" where
  "parameter_identity v = str_val (field v ''location'') @ [0] @ str_val (field v ''name'')"

definition parameter_step ::
  "jstring \<Rightarrow> nat \<times> jsval \<Rightarrow> jstring list \<times> schema_budget \<Rightarrow> (jstring list \<times> schema_budget) manifest_result" where
  "parameter_step path = (\<lambda>(index, v) (identities, b).
     let parameterPath = indexPath path index in
     andThen (validateParameter v parameterPath b) (\<lambda>b.
     andThen (expect (parameter_identity v \<notin> set identities) parameterPath
         (js ''duplicates the '' @ str_val (field v ''location'') @ js '' parameter '' @ json_quote (str_val (field v ''name'')))) (\<lambda>_.
       Inr (parameter_identity v # identities, b))))"

definition assertArray :: "jsval \<Rightarrow> jstring \<Rightarrow> unit manifest_result" where
  "assertArray v path = expect (is_array v) path (js ''must be an array; received '' @ valueDescription v)"

definition validateParameters :: "jsval \<Rightarrow> jstring \<Rightarrow> schema_budget \<Rightarrow> schema_budget manifest_result" where
  "validateParameters v path b =
     andThen (assertArray v path) (\<lambda>_.
     andThen (fold_result (parameter_step path) (indexed (arr_items v)) ([], b)) (\<lambda>(_, b). Inr b))"

definition validateResource :: "jstring \<Rightarrow> jstring \<times> jsval \<Rightarrow> schema_budget \<Rightarrow> schema_budget manifest_result" where
  "validateResource path = (\<lambda>(key, entry) b.
     let resourcePath = manifestChildPath path key in
     andThen (assertResourceKey key resourcePath) (\<lambda>_.
     andThen (assertRecord entry resourcePath) (\<lambda>_.
     andThen (assertExactKeys entry resourcePath [''schema''] []) (\<lambda>_.
       assertJsonSchema (field entry ''schema'') (dotted resourcePath ''schema'') b))))"

definition validateResources :: "jsval \<Rightarrow> jstring \<Rightarrow> schema_budget \<Rightarrow> schema_budget manifest_result" where
  "validateResources v path b =
     andThen (assertRecord v path) (\<lambda>_. fold_result (validateResource path) (obj_fields v) b)"

definition validateType :: "jstring \<Rightarrow> jstring \<times> jsval \<Rightarrow> schema_budget \<Rightarrow> schema_budget manifest_result" where
  "validateType path = (\<lambda>(key, entry) b.
     let typePath = manifestChildPath path key in
     andThen (assertMetadataName (JStr key) typePath) (\<lambda>_.
     andThen (assertRecord entry typePath) (\<lambda>_.
     andThen (assertExactKeys entry typePath [''mode'', ''schema''] []) (\<lambda>_.
     andThen (expect (field entry ''mode'' \<in> {JStr (js ''serialization''), JStr (js ''validation'')}) (dotted typePath ''mode'')
         (js ''must be either \"serialization\" or \"validation\"'')) (\<lambda>_.
       assertJsonSchema (field entry ''schema'') (dotted typePath ''schema'') b)))))"

definition validateTypes :: "jsval \<Rightarrow> jstring \<Rightarrow> schema_budget \<Rightarrow> schema_budget manifest_result" where
  "validateTypes v path b =
     andThen (assertRecord v path) (\<lambda>_. fold_result (validateType path) (obj_fields v) b)"

definition validatePage :: "jstring \<Rightarrow> nat \<times> jsval \<Rightarrow> schema_budget \<Rightarrow> schema_budget manifest_result" where
  "validatePage path = (\<lambda>(index, page) b.
     let pagePath = indexPath path index in
     andThen (assertRecord page pagePath) (\<lambda>_.
     andThen (assertExactKeys page pagePath [''name'', ''path'', ''parameters''] []) (\<lambda>_.
     andThen (assertMetadataName (field page ''name'') (dotted pagePath ''name'')) (\<lambda>_.
     andThen (assertRoutePath (field page ''path'') (dotted pagePath ''path'')) (\<lambda>_.
       validateParameters (field page ''parameters'') (dotted pagePath ''parameters'') b)))))"

definition validatePages :: "jsval \<Rightarrow> jstring \<Rightarrow> schema_budget \<Rightarrow> schema_budget manifest_result" where
  "validatePages v path b =
     andThen (assertArray v path) (\<lambda>_. fold_result (validatePage path) (indexed (arr_items v)) b)"

definition MUTATION_METHODS :: "string list" where
  "MUTATION_METHODS = [''DELETE'', ''PATCH'', ''POST'', ''PUT'']"

definition validateMutation :: "jstring \<Rightarrow> nat \<times> jsval \<Rightarrow> schema_budget \<Rightarrow> schema_budget manifest_result" where
  "validateMutation path = (\<lambda>(index, mutation) b.
     let mutationPath = indexPath path index in
     andThen (assertRecord mutation mutationPath) (\<lambda>_.
     andThen (assertExactKeys mutation mutationPath [''name'', ''path'', ''method'', ''parameters''] [''body'']) (\<lambda>_.
     andThen (assertMetadataName (field mutation ''name'') (dotted mutationPath ''name'')) (\<lambda>_.
     andThen (assertRoutePath (field mutation ''path'') (dotted mutationPath ''path'')) (\<lambda>_.
     andThen (expect (is_string (field mutation ''method'') \<and> in_words (str_val (field mutation ''method'')) MUTATION_METHODS)
         (dotted mutationPath ''method'') (js ''must be one of \"DELETE\", \"PATCH\", \"POST\", or \"PUT\"'')) (\<lambda>_.
     andThen (validateParameters (field mutation ''parameters'') (dotted mutationPath ''parameters'') b) (\<lambda>b.
       if field mutation ''body'' \<in> {JUndef, JNull} then Inr b
       else assertJsonSchema (field mutation ''body'') (dotted mutationPath ''body'') b)))))))"

definition validateMutations :: "jsval \<Rightarrow> jstring \<Rightarrow> schema_budget \<Rightarrow> schema_budget manifest_result" where
  "validateMutations v path b =
     andThen (assertArray v path) (\<lambda>_. fold_result (validateMutation path) (indexed (arr_items v)) b)"

section \<open>Manifests\<close>

text \<open>\<open>/^(0|[1-9][0-9]*)\.(0|[1-9][0-9]*)\.(0|[1-9][0-9]*)(?:-ids)?(?:\+ids)?$/\<close> with dotted identifiers.\<close>

definition version_number :: "jstring \<Rightarrow> jstring option" where
  "version_number s =
     (let digits = takeWhile is_digit s in
      if digits = [] \<or> (hd digits = 0x30 \<and> length digits > 1) then None else Some (dropWhile is_digit s))"

definition version_identifiers :: "jstring \<Rightarrow> bool" where
  "version_identifiers s \<longleftrightarrow>
     list_all (\<lambda>part. part \<noteq> [] \<and> list_all (\<lambda>c. is_alnum c \<or> c = 0x2D) part) (split_on 0x2E s)"

definition version_build :: "jstring \<Rightarrow> bool" where
  "version_build s \<longleftrightarrow> (case s of [] \<Rightarrow> True | c # r \<Rightarrow> c = 0x2B \<and> version_identifiers r)"

definition version_suffix :: "jstring \<Rightarrow> bool" where
  "version_suffix s \<longleftrightarrow>
     (case s of
        [] \<Rightarrow> True
      | c # r \<Rightarrow>
          if c = 0x2D then
            version_identifiers (takeWhile (\<lambda>c. c \<noteq> 0x2B) r) \<and> version_build (dropWhile (\<lambda>c. c \<noteq> 0x2B) r)
          else version_build s)"

definition SEMVER_PATTERN :: "jstring \<Rightarrow> bool" where
  "SEMVER_PATTERN s \<longleftrightarrow>
     (case Option.bind (version_number s) (read_unit [0x2E]) of
        None \<Rightarrow> False
      | Some s \<Rightarrow>
          (case Option.bind (version_number s) (read_unit [0x2E]) of
             None \<Rightarrow> False
           | Some s \<Rightarrow> (case version_number s of None \<Rightarrow> False | Some s \<Rightarrow> version_suffix s)))"

definition FINGERPRINT_PATTERN :: "jstring \<Rightarrow> bool" where
  "FINGERPRINT_PATTERN s \<longleftrightarrow> length s = 64 \<and> list_all (\<lambda>c. is_digit c \<or> (0x61 \<le> c \<and> c \<le> 0x66)) s"

definition FLUXFAST_SCHEMA_MANIFEST_V1 :: jsval where
  "FLUXFAST_SCHEMA_MANIFEST_V1 = JStr (js ''fluxfast-schema/1'')"

definition FLUXFAST_SCHEMA_MANIFEST_V2 :: jsval where
  "FLUXFAST_SCHEMA_MANIFEST_V2 = JStr (js ''fluxfast-schema/2'')"

text \<open>The texts of JSON data; the first field of the manifest may be any of it.\<close>

definition json_data_text :: "jsval \<Rightarrow> jstring" where
  "json_data_text v = (case json_text v of Some t \<Rightarrow> t | None \<Rightarrow> js ''undefined'')"

definition validate_manifest_fields :: "jsval \<Rightarrow> unit manifest_result" where
  "validate_manifest_fields m =
     andThen (assertRecord m (js ''$'')) (\<lambda>_.
     andThen (assertExactKeys m (js ''$'') [''schema'', ''producer'', ''fingerprint'', ''resources'', ''pages'', ''mutations'']
         [''types'']) (\<lambda>_.
     andThen (expect (field m ''schema'' \<in> {FLUXFAST_SCHEMA_MANIFEST_V1, FLUXFAST_SCHEMA_MANIFEST_V2}) (js ''$.schema'')
         (js ''unsupported version '' @ json_data_text (field m ''schema'') @ js ''; expected '' @
          json_data_text FLUXFAST_SCHEMA_MANIFEST_V1 @ js '' or '' @ json_data_text FLUXFAST_SCHEMA_MANIFEST_V2)) (\<lambda>_.
     andThen (if field m ''schema'' = FLUXFAST_SCHEMA_MANIFEST_V1
              then expect (field m ''types'' = JUndef) (js ''$.types'')
                     (js ''fluxfast-schema/1 cannot contain explicit type contracts'')
              else expect (field m ''types'' \<noteq> JUndef) (js ''$.types'') (js ''is required for fluxfast-schema/2'')) (\<lambda>_.
     andThen (assertString (field m ''producer'') (js ''$.producer'')) (\<lambda>_.
     andThen (expect (SEMVER_PATTERN (str_val (field m ''producer''))) (js ''$.producer'')
         (js ''must use semantic version format'')) (\<lambda>_.
     andThen (assertString (field m ''fingerprint'') (js ''$.fingerprint'')) (\<lambda>_.
       expect (FINGERPRINT_PATTERN (str_val (field m ''fingerprint''))) (js ''$.fingerprint'')
         (js ''must be a lowercase SHA-256 digest''))))))))"

definition validate_manifest_contracts :: "jsval \<Rightarrow> schema_budget manifest_result" where
  "validate_manifest_contracts m =
     andThen (if field m ''schema'' = FLUXFAST_SCHEMA_MANIFEST_V2
              then validateTypes (field m ''types'') (js ''$.types'') \<lparr>sb_values = 0, sb_containers = 0\<rparr>
              else Inr \<lparr>sb_values = 0, sb_containers = 0\<rparr>) (\<lambda>b.
     andThen (validateResources (field m ''resources'') (js ''$.resources'') b) (\<lambda>b.
     andThen (validatePages (field m ''pages'') (js ''$.pages'') b) (\<lambda>b.
       validateMutations (field m ''mutations'') (js ''$.mutations'') b)))"

definition validateFluxFastSchemaManifest :: "raw_heap \<Rightarrow> raw \<Rightarrow> jsval manifest_result" where
  "validateFluxFastSchemaManifest h v =
     andThen (createManifestSnapshot h v) (\<lambda>m.
     andThen (validate_manifest_fields m) (\<lambda>_.
     andThen (validate_manifest_contracts m) (\<lambda>_. Inr m)))"

text \<open>\<open>parse\<close> is \<open>JSON.parse\<close>: what it returns, or the message of what it throws.\<close>

definition parseFluxFastSchemaManifest ::
  "(jstring \<Rightarrow> (jstring, raw_heap \<times> raw) result) \<Rightarrow> jstring \<Rightarrow> jsval manifest_result" where
  "parseFluxFastSchemaManifest parse source =
     andThen (expect (length source \<le> MAX_MANIFEST_SOURCE_LENGTH) (js ''$'')
         (not_more ''source must not exceed '' MAX_MANIFEST_SOURCE_LENGTH ''characters'')) (\<lambda>_.
       case parse source of
         Inl reason \<Rightarrow> invalid (js ''$'') (js ''must be valid JSON ('' @ reason @ js '')'')
       | Inr (h, v) \<Rightarrow> validateFluxFastSchemaManifest h v)"

end
