(* ===== verification/Codegen_Snapshot.thy ===== *)
theory Codegen_Snapshot
  imports Codegen_Manifest
begin

text \<open>
  What the snapshot of a manifest guarantees for any value of the language: a tree of JSON data within
  the limits, and an error for everything else.
\<close>

section \<open>Measures of JSON data\<close>

fun json_values :: "jsval \<Rightarrow> nat" where
  "json_values (JArr _ xs) = Suc (sum_list (map json_values xs))"
| "json_values (JObj _ fs) = Suc (sum_list (map (\<lambda>(_, x). json_values x) fs))"
| "json_values _ = 1"

fun json_chars :: "jsval \<Rightarrow> nat" where
  "json_chars (JStr s) = length s"
| "json_chars (JArr _ xs) = sum_list (map json_chars xs)"
| "json_chars (JObj _ fs) = sum_list (map (\<lambda>(k, x). length k + json_chars x) fs)"
| "json_chars _ = 0"

text \<open>\<open>d\<close> levels may lie below a value.\<close>

fun json_within :: "nat \<Rightarrow> jsval \<Rightarrow> bool" where
  "json_within d JUndef = False"
| "json_within d (JNum n) = (num_finite n \<and> (num_is_integer n \<longrightarrow> num_is_safe_integer n))"
| "json_within d (JStr s) = (length s \<le> MAX_MANIFEST_STRING_LENGTH)"
| "json_within d (JArr _ xs) =
     (length xs \<le> MAX_MANIFEST_CHILDREN \<and> (xs = [] \<or> 0 < d) \<and> (\<forall>x\<in>set xs. json_within (d - 1) x))"
| "json_within d (JObj _ fs) =
     (length fs \<le> MAX_MANIFEST_CHILDREN \<and> (fs = [] \<or> 0 < d) \<and>
      (\<forall>(k, x)\<in>set fs. length k \<le> MAX_MANIFEST_STRING_LENGTH \<and> json_within (d - 1) x))"
| "json_within d _ = True"

section \<open>Entries\<close>

lemma expect_Inr [simp]: "expect ok path reason = Inr u \<longleftrightarrow> ok"
  by (simp add: expect_def invalid_def)

lemma invalid_Inr [simp]: "invalid path reason \<noteq> Inr x"
  by (simp add: invalid_def)

lemma count_strings_Inr:
  "count_strings n path b = Inr b' \<longleftrightarrow>
     mb_strings b + n \<le> MAX_MANIFEST_TOTAL_STRING_LENGTH \<and> b' = b\<lparr>mb_strings := mb_strings b + n\<rparr>"
  by (auto simp: count_strings_def Let_def)

lemma count_manifest_value_Inr:
  "count_manifest_value path b = Inr b' \<longleftrightarrow>
     mb_values b + 1 \<le> MAX_MANIFEST_VALUE_COUNT \<and> b' = b\<lparr>mb_values := mb_values b + 1\<rparr>"
  by (auto simp: count_manifest_value_def Let_def)

lemma array_entries_length:
  assumes "array_entries ob path = Inr entries"
  shows "length entries \<le> MAX_MANIFEST_CHILDREN"
proof -
  obtain n es where "array_length ob path = Inr n" "traverse (array_item_entry ob path) (rev [0..<n]) = Inr es"
    "entries = rev es"
    using assms by (auto simp: array_entries_def)
  moreover from this(1) have "n \<le> MAX_MANIFEST_CHILDREN"
    unfolding array_length_def andThen_Inr_iff by (fastforce split: raw.split_asm if_split_asm)
  ultimately show ?thesis by (auto simp: traverse_Inr dest!: list_all2_lengthD)
qed

definition entry_chars :: "raw_entry list \<Rightarrow> nat" where
  "entry_chars entries = sum_list (map (\<lambda>e. length (fst e)) entries)"

lemma object_entry_Inr:
  assumes "object_entry ob path key (entries, b) = Inr r"
  shows "\<exists>v. length key \<le> MAX_MANIFEST_STRING_LENGTH \<and>
    mb_strings b + length key \<le> MAX_MANIFEST_TOTAL_STRING_LENGTH \<and>
    r = ((key, manifestChildPath path key, v) # entries, b\<lparr>mb_strings := mb_strings b + length key\<rparr>)"
  using assms by (auto simp: object_entry_def Let_def count_strings_Inr)

lemma object_entry_fold:
  assumes "fold_result (object_entry ob path) keys (entries, b) = Inr (entries', b')"
    "list_all (\<lambda>e. length (fst e) \<le> MAX_MANIFEST_STRING_LENGTH) entries"
  shows "length entries' = length keys + length entries \<and>
    list_all (\<lambda>e. length (fst e) \<le> MAX_MANIFEST_STRING_LENGTH) entries' \<and> mb_values b' = mb_values b \<and>
    mb_strings b' + entry_chars entries = mb_strings b + entry_chars entries' \<and>
    (mb_strings b \<le> MAX_MANIFEST_TOTAL_STRING_LENGTH \<longrightarrow> mb_strings b' \<le> MAX_MANIFEST_TOTAL_STRING_LENGTH)"
  using assms
proof (induction keys arbitrary: entries b)
  case (Cons key keys)
  from Cons.prems(1) obtain v where step: "length key \<le> MAX_MANIFEST_STRING_LENGTH"
      "mb_strings b + length key \<le> MAX_MANIFEST_TOTAL_STRING_LENGTH"
      "fold_result (object_entry ob path) keys
         ((key, manifestChildPath path key, v) # entries, b\<lparr>mb_strings := mb_strings b + length key\<rparr>) = Inr (entries', b')"
    by (auto dest!: object_entry_Inr)
  from Cons.IH [OF step(3)] step(1,2) Cons.prems(2) show ?case by (simp add: entry_chars_def)
qed simp

lemma object_entries_bounds:
  assumes "object_entries_of ob path b = Inr (entries, b')"
  shows "length entries \<le> MAX_MANIFEST_CHILDREN \<and>
    list_all (\<lambda>e. length (fst e) \<le> MAX_MANIFEST_STRING_LENGTH) entries \<and> mb_values b' = mb_values b \<and>
    mb_strings b' = mb_strings b + entry_chars entries \<and>
    (mb_strings b \<le> MAX_MANIFEST_TOTAL_STRING_LENGTH \<longrightarrow> mb_strings b' \<le> MAX_MANIFEST_TOTAL_STRING_LENGTH)"
proof -
  obtain keys where "length keys \<le> MAX_MANIFEST_CHILDREN"
      "fold_result (object_entry ob path) (rev keys) ([], b) = Inr (entries, b')"
    using assms by (auto simp: object_entries_of_def split: option.splits)
  with object_entry_fold [OF this(2)] show ?thesis by (auto simp: entry_chars_def)
qed

section \<open>Values\<close>

lemma walk_collects:
  assumes "walk f es s = Inr (ys, s')" "J s"
    "\<And>e t y t'. e \<in> set es \<Longrightarrow> f e t = Inr (y, t') \<Longrightarrow> J t \<Longrightarrow> P y \<and> J t' \<and> g t' = g t + (w y :: nat) \<and> l t' = l t + (u y :: nat)"
  shows "length ys = length es \<and> (\<forall>y\<in>set ys. P y) \<and> J s' \<and> g s' = g s + sum_list (map w ys) \<and> l s' = l s + sum_list (map u ys)"
  using assms
proof (induction es arbitrary: s ys)
  case (Cons e es)
  from Cons.prems(1) obtain y t zs where step: "f e s = Inr (y, t)" "walk f es t = Inr (zs, s')" "ys = y # zs" by auto
  have y: "P y \<and> J t \<and> g t = g s + w y \<and> l t = l s + u y" using Cons.prems(3) [OF _ step(1)] Cons.prems(2) by simp
  from Cons.IH [OF step(2)] y Cons.prems(3) have "length zs = length es \<and> (\<forall>y\<in>set zs. P y) \<and> J s' \<and>
      g s' = g t + sum_list (map w zs) \<and> l s' = l t + sum_list (map u zs)" by (metis list.set_intros(2))
  with y step(3) show ?case by simp
qed simp

lemma mset_build_object: "mset (build_object kvs) = mset kvs"
proof -
  have "mset (obj_insert k v ob) = add_mset (k, v) (mset ob)" for k v and ob :: "jsval jobj"
    by (induction k v ob rule: obj_insert.induct) (auto split: option.split)
  then have "mset (foldl (\<lambda>ob (k, v). obj_insert k v ob) ob kvs) = mset ob + mset kvs" for ob
    by (induction kvs arbitrary: ob) auto
  then show ?thesis by (simp add: build_object_def)
qed

lemma sum_build_object: "sum_list (map f (build_object kvs)) = (sum_list (map f kvs) :: nat)"
  by (metis mset_build_object mset_map sum_mset_sum_list)

lemma snapshot_value_bounds:
  assumes "snapshot_value h active depth path v b = Inr (m, b')" "mb_strings b \<le> MAX_MANIFEST_TOTAL_STRING_LENGTH"
  shows "depth \<le> MAX_MANIFEST_DEPTH \<and> json_within (MAX_MANIFEST_DEPTH - depth) m \<and>
    mb_values b' \<le> MAX_MANIFEST_VALUE_COUNT \<and> mb_values b' = mb_values b + json_values m \<and>
    mb_strings b' \<le> MAX_MANIFEST_TOTAL_STRING_LENGTH \<and> mb_strings b' = mb_strings b + json_chars m"
  using assms
proof (induction h active depth path v b arbitrary: m b' rule: snapshot_value.induct)
  case (1 h active depth path v b)
  let ?b = "b\<lparr>mb_values := mb_values b + 1\<rparr>"
  let ?J = "\<lambda>b. mb_values b \<le> MAX_MANIFEST_VALUE_COUNT \<and> mb_strings b \<le> MAX_MANIFEST_TOTAL_STRING_LENGTH"
  have count: "count_manifest_value path b = Inr ?b" "?J ?b" and depth: "depth \<le> MAX_MANIFEST_DEPTH"
    using 1(3,4) by (subst (asm) snapshot_value.simps, auto simp: count_manifest_value_Inr split: if_splits)+
  note run = 1(3) [unfolded snapshot_value.simps [of h active depth path v b] count(1) andThen_simps]
  show ?case
  proof (cases v)
    case (RRef a)
    have fresh: "a \<notin> set active" using run RRef depth by (auto split: if_splits)
    obtain isArr where isArr: "ro_array (object_at h a) = Some isArr"
      using run RRef depth fresh by (auto split: option.splits)
    let ?f = "\<lambda>e. snapshot_value h (a # active) (depth + 1) (fst (snd e)) (snd (snd e))"
    let ?P = "\<lambda>m. depth < MAX_MANIFEST_DEPTH \<and> json_within (MAX_MANIFEST_DEPTH - depth - 1) m"
    show ?thesis
    proof (cases isArr)
      case True
      then obtain entries xs where *: "array_entries (object_at h a) path = Inr entries"
          "walk ?f entries ?b = Inr (xs, b')" "m = JArr 0 xs"
        using run RRef depth fresh isArr by auto
      have "length xs = length entries \<and> (\<forall>y\<in>set xs. ?P y) \<and> ?J b' \<and>
          mb_values b' = mb_values ?b + sum_list (map json_values xs) \<and>
          mb_strings b' = mb_strings ?b + sum_list (map json_chars xs)"
        by (rule walk_collects [where J = ?J and P = ?P and g = mb_values and l = mb_strings and w = json_values and
              u = json_chars, OF *(2) count(2)])
          (use 1(1) [OF count(1) _ RRef fresh] isArr True *(1) depth in fastforce)
      with array_entries_length [OF *(1)] depth *(3) show ?thesis by (cases xs) auto
    next
      case False
      then obtain entries b1 xs where *: "object_entries_of (object_at h a) path ?b = Inr (entries, b1)"
          "walk ?f entries b1 = Inr (xs, b')" "m = JObj 0 (build_object (zip (map fst entries) xs))"
        using run RRef depth fresh isArr by auto
      note entries = object_entries_bounds [OF *(1)]
      have ih: "depth + 1 \<le> MAX_MANIFEST_DEPTH \<and> json_within (MAX_MANIFEST_DEPTH - (depth + 1)) y \<and>
          mb_values t' \<le> MAX_MANIFEST_VALUE_COUNT \<and> mb_values t' = mb_values t + json_values y \<and>
          mb_strings t' \<le> MAX_MANIFEST_TOTAL_STRING_LENGTH \<and> mb_strings t' = mb_strings t + json_chars y"
        if "e \<in> set entries" "?f e t = Inr (y, t')" "?J t" for e t y t'
        by (rule 1(2) [OF count(1) _ RRef fresh isArr _ *(1) refl that(1,2)]) (use depth False that(3) in simp_all)
      have xs: "length xs = length entries \<and> (\<forall>y\<in>set xs. ?P y) \<and> ?J b' \<and>
          mb_values b' = mb_values b1 + sum_list (map json_values xs) \<and>
          mb_strings b' = mb_strings b1 + sum_list (map json_chars xs)"
        by (rule walk_collects [where J = ?J and P = ?P and g = mb_values and l = mb_strings and w = json_values and
              u = json_chars, OF *(2)], use entries count(2) in simp, use ih in fastforce)
      have fields: "mset (build_object (zip (map fst entries) xs)) = mset (zip (map fst entries) xs)"
        by (rule mset_build_object)
      have sums: "sum_list (map (\<lambda>(k, x). length k + json_chars x) (zip (map fst entries) xs)) =
          entry_chars entries + sum_list (map json_chars xs)"
        "sum_list (map (\<lambda>(k, x). json_values x) (zip (map fst entries) xs)) = sum_list (map json_values xs)"
        unfolding entry_chars_def using conjunct1 [OF xs]
        by (induction xs entries rule: list_induct2) simp_all
      have "length (build_object (zip (map fst entries) xs)) = length xs"
        using fields xs by (metis length_map length_zip min.idem size_mset)
      moreover have "length k \<le> MAX_MANIFEST_STRING_LENGTH \<and> ?P x" if "(k, x) \<in> set (build_object (zip (map fst entries) xs))" for k x
      proof -
        have "(k, x) \<in> set (zip (map fst entries) xs)" using that fields by (metis set_mset_mset)
        then have "k \<in> set (map fst entries)" "x \<in> set xs" by (auto dest: set_zip_leftD set_zip_rightD)
        with entries xs show ?thesis by (auto simp: list_all_iff)
      qed
      ultimately show ?thesis
        using xs entries sums depth by (cases xs) (auto simp: *(3) sum_build_object)
    qed
  qed (use run depth count(2) in \<open>auto simp: snapshot_string_def snapshot_number_def count_strings_Inr\<close>)
qed

section \<open>The snapshot\<close>

text \<open>
  C16: Whatever value is passed as a manifest - with cycles, shared objects, accessors, symbols,
  hostile prototypes or functions - what validation keeps of it is a tree of JSON data within the limits:
  numbers are finite and integers safe, strings and keys at most 65,536 characters, arrays and objects
  at most 10,000 entries, the nesting at most 64 levels, and in total at most 100,000 values and
  8,388,608 characters.
\<close>

theorem manifest_snapshot_bounded:
  assumes "createManifestSnapshot h v = Inr m"
  shows "json_within MAX_MANIFEST_DEPTH m \<and> json_values m \<le> MAX_MANIFEST_VALUE_COUNT \<and>
    json_chars m \<le> MAX_MANIFEST_TOTAL_STRING_LENGTH"
  using assms snapshot_value_bounds [of h "[]" 0 "js ''$''" v "\<lparr>mb_values = 0, mb_strings = 0\<rparr>" m]
  by (auto simp: createManifestSnapshot_def)

definition sample_heap :: raw_heap where
  "sample_heap =
     [\<lparr>ro_array = Some False, ro_plain = Some True, ro_keys = Some [Some (js ''a''), Some (js ''b'')],
       ro_descriptors = [(js ''a'', DData (RRef 1) True), (js ''b'', DData (RRef 1) True)]\<rparr>,
      \<lparr>ro_array = Some True, ro_plain = Some True, ro_keys = Some [Some (js ''0''), Some (js ''length'')],
       ro_descriptors = [(js ''length'', DData (RNum (Dec 1 0)) False), (js ''0'', DData (RBool True) True)]\<rparr>]"

lemmas snapshot_simps = snapshot_value.simps [of _ _ _ _ "RRef a" for a] snapshot_value.simps [of _ _ _ _ "RBool x" for x]
  count_manifest_value_def count_strings_def expect_def object_entries_of_def object_entry_def own_string_keys_def
  readDataDescriptor_def array_entries_def array_length_def array_item_entry_def object_at_def Let_def

lemmas limits = MAX_MANIFEST_VALUE_COUNT_def MAX_MANIFEST_CHILDREN_def MAX_MANIFEST_DEPTH_def
  MAX_MANIFEST_STRING_LENGTH_def MAX_MANIFEST_TOTAL_STRING_LENGTH_def

lemma sample_keys:
  "nat_digits 0 = js ''0''" "array_index (js ''a'') = None" "array_index (js ''b'') = None"
  "num_is_safe_integer (Dec 1 0)" "num_val (Dec 1 0) = 1"
  by code_simp+

lemma sample_snapshot:
  "createManifestSnapshot sample_heap (RRef 0) =
     Inr (JObj 0 [(js ''a'', JArr 0 [JBool True]), (js ''b'', JArr 0 [JBool True])])"
  by (simp add: createManifestSnapshot_def sample_heap_def snapshot_simps limits sample_keys build_object_def
      del: andThen_Inr_iff)

theorem manifest_snapshot_bounded_witness:
  "json_within MAX_MANIFEST_DEPTH (JObj 0 [(js ''a'', JArr 0 [JBool True]), (js ''b'', JArr 0 [JBool True])])"
  using manifest_snapshot_bounded [OF sample_snapshot] by simp

end
