(* ===== verification/Codegen_Compile.thy ===== *)
theory Codegen_Compile
  imports Codegen_Schema
begin

text \<open>
  The compiler from JSON Schemas to validation plans, second part: \<open>JsonSchemaPlanCompiler\<close> of
  \<open>packages/codegen/src/validator-compiler.ts\<close>. A plan is JSON data that the generated code hands to
  \<open>createValidator\<close>. \<open>rec\<close> is \<open>compileNode\<close> on the schemas inside the one at hand.
\<close>

section \<open>Parts of plans\<close>

text \<open>\<open>cg_regexp s\<close> is the message of what \<open>new RegExp(s, ''u'')\<close> throws, or \<open>None\<close>.\<close>

record codegen_platform =
  cg_decode :: "jstring \<Rightarrow> jstring option"
  cg_regexp :: "jstring \<Rightarrow> jstring option"

type_synonym node_compiler = "jsval \<Rightarrow> jstring \<Rightarrow> jsval compiled"

type_synonym plan_fields = "(string \<times> jsval) list"

definition plan_obj :: "plan_fields \<Rightarrow> jsval" where
  "plan_obj fs = JObj 0 (map (\<lambda>(k, v). (js k, v)) fs)"

definition jstr :: "string \<Rightarrow> jsval" where
  "jstr s = JStr (js s)"

definition commonFields :: "jsval \<Rightarrow> plan_fields" where
  "commonFields schema = (if field schema ''nullable'' = JBool True then [(''nullable'', JBool True)] else [])"

definition optional :: "string \<Rightarrow> jsval option \<Rightarrow> plan_fields" where
  "optional name v = (case v of None \<Rightarrow> [] | Some x \<Rightarrow> [(name, x)])"

definition numberValue :: "jsval \<Rightarrow> jstring \<Rightarrow> jsval option compiled" where
  "numberValue v path =
     (case v of
        JUndef \<Rightarrow> Inr None
      | JNum n \<Rightarrow> if num_finite n then Inr (Some v) else fail path (js ''must be a finite number'')
      | _ \<Rightarrow> fail path (js ''must be a finite number''))"

definition integerValue :: "jsval \<Rightarrow> jstring \<Rightarrow> jsval option compiled" where
  "integerValue v path =
     (case v of
        JUndef \<Rightarrow> Inr None
      | JNum n \<Rightarrow>
          if num_is_safe_integer n \<and> 0 \<le> num_val n then Inr (Some v)
          else fail path (js ''must be a non-negative integer'')
      | _ \<Rightarrow> fail path (js ''must be a non-negative integer''))"

definition stringValue :: "jsval \<Rightarrow> jstring \<Rightarrow> jstring option compiled" where
  "stringValue v path =
     (case v of JUndef \<Rightarrow> Inr None | JStr s \<Rightarrow> Inr (Some s) | _ \<Rightarrow> fail path (js ''must be a string''))"

definition exceeds :: "jsval option \<Rightarrow> jsval option \<Rightarrow> bool" where
  "exceeds low high = (case (low, high) of (Some (JNum a), Some (JNum b)) \<Rightarrow> num_less b a | _ \<Rightarrow> False)"

text \<open>The compiler's copy of the pattern guard of \<open>formats.ts\<close>, statement for statement, with its texts.\<close>

definition pattern_error_text :: "pattern_error \<Rightarrow> string" where
  "pattern_error_text e =
     (case e of
        PatternTooLong \<Rightarrow> ''pattern is too long (maximum 8192 characters)''
      | EscapeNotPortable \<Rightarrow> ''pattern uses a regex escape whose semantics are not portable to the native validator''
      | PropertyEscape \<Rightarrow> ''Unicode property escapes are not supported by the native validator''
      | LookaroundOrFlags \<Rightarrow> ''lookaround or inline regex flags are not supported by the native validator''
      | NamedGroup \<Rightarrow> ''named capture groups are not supported by the native validator''
      | QuantifiedGroup \<Rightarrow> ''quantified groups are rejected to keep validation traversal bounded''
      | RepetitionTooLarge \<Rightarrow> ''pattern repetition exceeds the maximum of 10000''
      | ManyQuantifiers \<Rightarrow> ''patterns with multiple quantifiers are rejected to keep validation linear''
      | Alternation \<Rightarrow> ''patterns with alternation are rejected to keep validation linear''
      | NotAnchored \<Rightarrow> ''quantified patterns must be anchored at the start to keep validation linear'')"

definition compilerPatternError :: "jstring \<Rightarrow> jstring option" where
  "compilerPatternError pattern = map_option (js \<circ> pattern_error_text) (validationPatternError pattern)"

definition check_pattern :: "codegen_platform \<Rightarrow> jstring \<Rightarrow> jstring option \<Rightarrow> unit compiled" where
  "check_pattern cg path pattern =
     (case pattern of
        None \<Rightarrow> Inr ()
      | Some p \<Rightarrow>
          (case compilerPatternError p of
             Some e \<Rightarrow> unsupported path e (js ''pattern'')
           | None \<Rightarrow>
               (case cg_regexp cg p of
                  Some msg \<Rightarrow>
                    unsupported path
                      (js ''is not a regular expression supported by the native validator ('' @ msg @ js '')'')
                      (js ''pattern'')
                | None \<Rightarrow> Inr ())))"

definition check_format :: "jstring \<Rightarrow> jstring option \<Rightarrow> unit compiled" where
  "check_format path format =
     (case format of
        None \<Rightarrow> Inr ()
      | Some f \<Rightarrow>
          if in_words f COMPILER_FORMATS then Inr ()
          else unsupported path (js ''unsupported validation format '' @ json_quote f) (js ''format''))"

section \<open>Simple types\<close>

definition compileString :: "codegen_platform \<Rightarrow> node_compiler" where
  "compileString cg schema path =
     andThen (integerValue (field schema ''minLength'') (dotted path ''minLength'')) (\<lambda>lo.
     andThen (integerValue (field schema ''maxLength'') (dotted path ''maxLength'')) (\<lambda>hi.
     andThen (if exceeds lo hi then fail_keyword path (js ''minLength cannot exceed maxLength'') ''minLength'' else Inr ()) (\<lambda>_.
     andThen (stringValue (field schema ''pattern'') (dotted path ''pattern'')) (\<lambda>pattern.
     andThen (check_pattern cg (dotted path ''pattern'') pattern) (\<lambda>_.
     andThen (stringValue (field schema ''format'') (dotted path ''format'')) (\<lambda>format.
     andThen (check_format (dotted path ''format'') format) (\<lambda>_.
       Inr (plan_obj ([(''kind'', jstr ''string'')] @ commonFields schema @ optional ''minLength'' lo @ optional ''maxLength'' hi @
              optional ''pattern'' (map_option JStr pattern) @ optional ''format'' (map_option JStr format))))))))))"

definition number_keywords :: "string list" where
  "number_keywords = [''minimum'', ''maximum'', ''exclusiveMinimum'', ''exclusiveMaximum'', ''multipleOf'']"

definition number_field :: "jsval \<Rightarrow> jstring \<Rightarrow> string \<Rightarrow> plan_fields compiled" where
  "number_field schema path keyword =
     andThen (numberValue (field schema keyword) (dotted path keyword)) (\<lambda>v. Inr (optional keyword v))"

definition compileNumber :: "string \<Rightarrow> node_compiler" where
  "compileNumber kind schema path =
     andThen (traverse (number_field schema path) number_keywords) (\<lambda>fields.
     andThen
       (case field schema ''multipleOf'' of
          JNum m \<Rightarrow>
            if num_less (Dec 0 0) m then Inr ()
            else fail_keyword (dotted path ''multipleOf'') (js ''must be greater than zero'') ''multipleOf''
        | _ \<Rightarrow> Inr ()) (\<lambda>_.
       Inr (plan_obj ([(''kind'', jstr kind)] @ commonFields schema @ concat fields))))"

section \<open>Arrays and objects\<close>

definition compile_list :: "(jsval \<Rightarrow> jstring \<Rightarrow> 'a compiled) \<Rightarrow> jsval \<Rightarrow> jstring \<Rightarrow> 'a list compiled" where
  "compile_list rec v path =
     andThen (schemaArray v path) (\<lambda>entries.
       traverse (\<lambda>ix. rec (snd ix) (indexPath path (fst ix))) (indexed entries))"

definition compile_single :: "node_compiler \<Rightarrow> jsval \<Rightarrow> jstring \<Rightarrow> string \<Rightarrow> plan_fields compiled" where
  "compile_single rec schema path keyword =
     (let v = field schema keyword in
      if v = JUndef then Inr []
      else if is_boolean v then Inr [(keyword, v)]
      else andThen (rec v (dotted path keyword)) (\<lambda>plan. Inr [(keyword, plan)]))"

definition compileArray :: "node_compiler \<Rightarrow> node_compiler" where
  "compileArray rec schema path =
     andThen (compile_single rec schema path ''items'') (\<lambda>items.
     andThen (if field schema ''prefixItems'' = JUndef then Inr []
              else andThen (compile_list rec (field schema ''prefixItems'') (dotted path ''prefixItems'')) (\<lambda>plans.
                     Inr [(''prefixItems'', JArr 0 plans)])) (\<lambda>prefixes.
     andThen (integerValue (field schema ''minItems'') (dotted path ''minItems'')) (\<lambda>lo.
     andThen (integerValue (field schema ''maxItems'') (dotted path ''maxItems'')) (\<lambda>hi.
     andThen (if exceeds lo hi then fail_keyword path (js ''minItems cannot exceed maxItems'') ''minItems'' else Inr ()) (\<lambda>_.
       Inr (plan_obj ([(''kind'', jstr ''array'')] @ commonFields schema @ items @ prefixes @
              optional ''minItems'' lo @ optional ''maxItems'' hi)))))))"

definition compile_properties :: "node_compiler \<Rightarrow> jsval \<Rightarrow> jstring \<Rightarrow> plan_fields compiled" where
  "compile_properties rec schema path =
     (if field schema ''properties'' = JUndef then Inr []
      else
        andThen (map_entries schema path ''properties'') (\<lambda>entries.
        andThen (traverse (\<lambda>kx. andThen (rec (snd kx) (childPath (dotted path ''properties'') (fst kx)))
                                  (\<lambda>plan. Inr (fst kx, plan))) entries) (\<lambda>plans.
          Inr [(''properties'', JObj 0 (build_object plans))])))"

fun required_loop :: "jstring \<Rightarrow> (nat \<times> jsval) list \<Rightarrow> jstring list \<Rightarrow> jstring list compiled" where
  "required_loop path [] seen = Inr seen"
| "required_loop path ((index, item) # rest) seen =
     (case item of
        JStr s \<Rightarrow>
          if s \<in> set seen then fail_keyword (indexPath path index) (js ''duplicates '' @ json_quote s) ''required''
          else required_loop path rest (seen @ [s])
      | _ \<Rightarrow> fail_keyword (indexPath path index) (js ''must be a string'') ''required'')"

definition compile_required :: "jsval \<Rightarrow> jstring \<Rightarrow> plan_fields compiled" where
  "compile_required schema path =
     (let v = field schema ''required'' in
      if v = JUndef then Inr []
      else if \<not> is_array v then fail_keyword (dotted path ''required'') (js ''must be an array'') ''required''
      else
        andThen (required_loop (dotted path ''required'') (indexed (arr_items v)) []) (\<lambda>names.
          Inr [(''required'', JArr 0 (map JStr (sort names)))]))"

definition compileObject :: "node_compiler \<Rightarrow> node_compiler" where
  "compileObject rec schema path =
     andThen (compile_properties rec schema path) (\<lambda>properties.
     andThen (compile_required schema path) (\<lambda>required.
     andThen (compile_single rec schema path ''additionalProperties'') (\<lambda>additional.
       Inr (plan_obj ([(''kind'', jstr ''object'')] @ commonFields schema @ properties @ required @ additional)))))"

definition compileExplicitType :: "codegen_platform \<Rightarrow> node_compiler \<Rightarrow> jstring \<Rightarrow> node_compiler" where
  "compileExplicitType cg rec type schema path =
     (if type = js ''null'' then Inr (plan_obj ([(''kind'', jstr ''null'')] @ commonFields schema))
      else if type = js ''boolean'' then Inr (plan_obj ([(''kind'', jstr ''boolean'')] @ commonFields schema))
      else if type = js ''string'' then compileString cg schema path
      else if type = js ''number'' then compileNumber ''number'' schema path
      else if type = js ''integer'' then compileNumber ''integer'' schema path
      else if type = js ''array'' then compileArray rec schema path
      else if type = js ''object'' then compileObject rec schema path
      else
        fail_keyword (dotted path ''type'') (js ''unsupported JSON Schema type '' @ json_quote type) ''type'')"

section \<open>Nodes\<close>

definition ref_part :: "codegen_platform \<Rightarrow> definition_map \<Rightarrow> jsval \<Rightarrow> jstring \<Rightarrow> jsval list compiled" where
  "ref_part cg defs schema path =
     (case field schema ''$ref'' of
        JUndef \<Rightarrow> Inr []
      | JStr s \<Rightarrow>
          andThen (decodeReference (cg_decode cg) s (dotted path ''$ref'')) (\<lambda>reference.
            if reference \<noteq> js ''#'' \<and> \<not> jm_has defs reference then
              fail_keyword (dotted path ''$ref'') (js ''references unknown definition '' @ json_quote reference) ''$ref''
            else Inr [plan_obj [(''kind'', jstr ''ref''), (''ref'', JStr s)]])
      | _ \<Rightarrow> fail_keyword (dotted path ''$ref'') (js ''must be a string'') ''$ref'')"

definition const_part :: "jsval \<Rightarrow> jsval list" where
  "const_part schema =
     (if field schema ''const'' = JUndef then []
      else [plan_obj [(''kind'', jstr ''literal''), (''value'', field schema ''const'')]])"

definition enum_part :: "jsval \<Rightarrow> jstring \<Rightarrow> jsval list compiled" where
  "enum_part schema path =
     (let v = field schema ''enum'' in
      if v = JUndef then Inr []
      else if \<not> is_array v \<or> arr_items v = [] then
        fail_keyword (dotted path ''enum'') (js ''must be a non-empty array'') ''enum''
      else Inr [plan_obj [(''kind'', jstr ''enum''), (''values'', v)]])"

definition branch_part :: "node_compiler \<Rightarrow> jsval \<Rightarrow> jstring \<Rightarrow> string \<Rightarrow> string \<Rightarrow> string \<Rightarrow> jsval list compiled" where
  "branch_part rec schema path keyword kind member =
     (if field schema keyword = JUndef then Inr []
      else
        andThen (schemaArray (field schema keyword) (dotted path keyword)) (\<lambda>entries.
          if entries = [] then fail_keyword (dotted path keyword) (js ''must not be empty'') keyword
          else
            andThen (compile_list rec (field schema keyword) (dotted path keyword)) (\<lambda>plans.
              Inr [plan_obj [(''kind'', jstr kind), (member, JArr 0 plans)]])))"

definition typed_keywords :: "string list" where
  "typed_keywords =
     [''additionalProperties'', ''exclusiveMaximum'', ''exclusiveMinimum'', ''format'', ''items'', ''maxItems'',
      ''maxLength'', ''maximum'', ''minItems'', ''minLength'', ''minimum'', ''multipleOf'', ''pattern'',
      ''prefixItems'', ''properties'', ''required'']"

definition schema_types :: "jsval \<Rightarrow> jsval list" where
  "schema_types schema =
     (let t = field schema ''type'' in if t = JUndef then [] else if is_array t then arr_items t else [t])"

definition type_plan :: "codegen_platform \<Rightarrow> node_compiler \<Rightarrow> jsval \<Rightarrow> jstring \<Rightarrow> nat \<times> jsval \<Rightarrow> jsval compiled" where
  "type_plan cg rec schema path = (\<lambda>(index, t).
     let listed = is_array (field schema ''type'') in
     case t of
       JStr name \<Rightarrow>
         compileExplicitType cg rec name schema (if listed then indexPath (dotted path ''type'') index else path)
     | _ \<Rightarrow>
         fail_keyword (if listed then indexPath (dotted path ''type'') index else dotted path ''type'')
           (js ''must be a valid JSON Schema type'') ''type'')"

text \<open>
  Without a type every keyword that needs one is refused, so the branches of the code that would infer
  an object or an array from such a keyword are never taken.
\<close>

definition type_part :: "codegen_platform \<Rightarrow> node_compiler \<Rightarrow> jsval \<Rightarrow> jstring \<Rightarrow> jsval list compiled" where
  "type_part cg rec schema path =
     (let types = schema_types schema in
      if types = [] then
        (case find (\<lambda>keyword. field schema keyword \<noteq> JUndef) typed_keywords of
           Some keyword \<Rightarrow>
             unsupported (dotted path keyword)
               (js ''validation keyword '' @ json_quote (js keyword) @
                js '' requires an explicit JSON Schema type; refusing to drop its semantics'') (js keyword)
         | None \<Rightarrow> Inr [])
      else
        andThen (traverse (type_plan cg rec schema path) (indexed types)) (\<lambda>plans.
          Inr [case plans of [plan] \<Rightarrow> plan
               | _ \<Rightarrow> plan_obj [(''kind'', jstr ''union''), (''anyOf'', JArr 0 plans)]]))"

definition combinePlans :: "jsval list \<Rightarrow> jsval" where
  "combinePlans plans =
     (case plans of
        [] \<Rightarrow> plan_obj [(''kind'', jstr ''any'')]
      | [plan] \<Rightarrow> plan
      | _ \<Rightarrow> plan_obj [(''kind'', jstr ''intersection''), (''allOf'', JArr 0 plans)])"

definition set_nullable :: "jsval \<Rightarrow> jsval \<Rightarrow> jsval" where
  "set_nullable schema plan =
     (case plan of
        JObj i fs \<Rightarrow> if field schema ''nullable'' = JBool True then JObj i (jm_set (js ''nullable'') (JBool True) fs) else plan
      | _ \<Rightarrow> plan)"

definition node_parts :: "codegen_platform \<Rightarrow> definition_map \<Rightarrow> node_compiler \<Rightarrow> jsval \<Rightarrow> jstring \<Rightarrow> jsval list compiled" where
  "node_parts cg defs rec schema path =
     andThen (ref_part cg defs schema path) (\<lambda>refs.
     andThen (enum_part schema path) (\<lambda>enums.
     andThen (branch_part rec schema path ''anyOf'' ''union'' ''anyOf'') (\<lambda>anys.
     andThen (branch_part rec schema path ''oneOf'' ''oneOf'' ''anyOf'') (\<lambda>ones.
     andThen (branch_part rec schema path ''allOf'' ''intersection'' ''allOf'') (\<lambda>alls.
     andThen (type_part cg rec schema path) (\<lambda>types.
       Inr (refs @ const_part schema @ enums @ anys @ ones @ alls @ types)))))))"

text \<open>The compiler of a node is only used on the schemas inside it.\<close>

lemma compile_list_cong [fundef_cong]:
  assumes "v = v'" "path = path'" "\<And>x p. x \<in> set (arr_items v') \<Longrightarrow> rec x p = rec' x p"
  shows "compile_list rec v path = compile_list rec' v' path'"
  unfolding compile_list_def assms(1,2)
  by (intro andThen_cong traverse_cong refl) (auto dest!: schemaArray_Inr indexed_member simp: assms(3))

lemma compile_single_cong [fundef_cong]:
  assumes "schema = schema'" "path = path'" "keyword = keyword'" "\<And>x p. size x < size schema' \<Longrightarrow> rec x p = rec' x p"
  shows "compile_single rec schema path keyword = compile_single rec' schema' path' keyword'"
  using assms(4) size_field_of [of schema' keyword'] by (simp add: compile_single_def Let_def assms(1-3))

lemma compile_field_list_cong:
  assumes "\<And>x p. size x < size schema \<Longrightarrow> rec x p = rec' x p"
  shows "compile_list rec (field schema keyword) path = compile_list rec' (field schema keyword) path"
proof (rule compile_list_cong [OF refl refl])
  fix x p
  assume x: "x \<in> set (arr_items (field schema keyword))"
  then have "field schema keyword \<noteq> JUndef" by auto
  from size_item [OF x] size_field_of [OF this] show "rec x p = rec' x p" by (intro assms) simp
qed

lemma compileArray_cong [fundef_cong]:
  assumes "schema = schema'" "path = path'" "\<And>x p. size x < size schema' \<Longrightarrow> rec x p = rec' x p"
  shows "compileArray rec schema path = compileArray rec' schema' path'"
  using compile_single_cong [OF refl refl refl assms(3)] compile_field_list_cong [OF assms(3)]
  by (simp add: compileArray_def assms(1,2))

lemma compile_properties_cong [fundef_cong]:
  assumes "schema = schema'" "path = path'" "\<And>x p. size x < size schema' \<Longrightarrow> rec x p = rec' x p"
  shows "compile_properties rec schema path = compile_properties rec' schema' path'"
proof -
  have "andThen (map_entries schema' path' ''properties'') (\<lambda>entries.
        andThen (traverse (\<lambda>kx. andThen (rec (snd kx) (childPath (dotted path' ''properties'') (fst kx)))
                                  (\<lambda>plan. Inr (fst kx, plan))) entries) (\<lambda>plans.
          Inr [(''properties'', JObj 0 (build_object plans))])) =
      andThen (map_entries schema' path' ''properties'') (\<lambda>entries.
        andThen (traverse (\<lambda>kx. andThen (rec' (snd kx) (childPath (dotted path' ''properties'') (fst kx)))
                                  (\<lambda>plan. Inr (fst kx, plan))) entries) (\<lambda>plans.
          Inr [(''properties'', JObj 0 (build_object plans))]))"
    by (intro andThen_cong traverse_cong refl) (auto dest!: map_entries_size simp: assms(3))
  then show ?thesis by (simp only: compile_properties_def assms(1,2))
qed

lemma compileObject_cong [fundef_cong]:
  assumes "schema = schema'" "path = path'" "\<And>x p. size x < size schema' \<Longrightarrow> rec x p = rec' x p"
  shows "compileObject rec schema path = compileObject rec' schema' path'"
  using compile_single_cong [OF refl refl refl assms(3)] compile_properties_cong [OF refl refl assms(3)]
  by (simp add: compileObject_def assms(1,2))

lemma compileExplicitType_cong [fundef_cong]:
  assumes "schema = schema'" "path = path'" "type = type'" "\<And>x p. size x < size schema' \<Longrightarrow> rec x p = rec' x p"
  shows "compileExplicitType cg rec type schema path = compileExplicitType cg rec' type' schema' path'"
  using compileArray_cong [OF refl refl assms(4)] compileObject_cong [OF refl refl assms(4)]
  by (simp add: compileExplicitType_def assms(1-3))

lemma branch_part_cong [fundef_cong]:
  assumes "schema = schema'" "path = path'" "keyword = keyword'" "\<And>x p. size x < size schema' \<Longrightarrow> rec x p = rec' x p"
  shows "branch_part rec schema path keyword kind member = branch_part rec' schema' path' keyword' kind member"
  using compile_field_list_cong [of schema' rec rec' keyword' "dotted path' keyword'", OF assms(4)]
  by (simp add: branch_part_def assms(1-3) cong: if_cong)

lemma type_part_cong [fundef_cong]:
  assumes "schema = schema'" "path = path'" "\<And>x p. size x < size schema' \<Longrightarrow> rec x p = rec' x p"
  shows "type_part cg rec schema path = type_part cg rec' schema' path'"
proof -
  have "type_plan cg rec schema' path' = type_plan cg rec' schema' path'"
    using compileExplicitType_cong [OF refl refl refl assms(3)]
    by (auto simp: type_plan_def Let_def fun_eq_iff split: jsval.split)
  then show ?thesis by (simp add: type_part_def Let_def assms(1,2) cong: if_cong)
qed

lemma node_parts_cong [fundef_cong]:
  assumes "schema = schema'" "path = path'" "\<And>x p. size x < size schema' \<Longrightarrow> rec x p = rec' x p"
  shows "node_parts cg defs rec schema path = node_parts cg defs rec' schema' path'"
  using branch_part_cong [OF refl refl refl assms(3)] type_part_cong [OF refl refl assms(3)]
  by (simp add: node_parts_def assms(1,2))

function compileNode :: "codegen_platform \<Rightarrow> definition_map \<Rightarrow> jsval \<Rightarrow> jstring \<Rightarrow> jsval compiled" where
  "compileNode cg defs schema path =
     (if is_boolean schema then Inr schema
      else if \<not> is_record schema then fail path (js ''expected a JSON Schema object'')
      else
        andThen (node_parts cg defs (\<lambda>s p. compileNode cg defs s p) schema path) (\<lambda>parts.
          Inr (set_nullable schema (combinePlans parts))))"
  by pat_completeness auto
termination
  by (relation "measure (\<lambda>(_, _, schema, _). size schema)") auto

declare compileNode.simps [simp del]

text \<open>\<open>compile\<close>: the root, then every definition in the order of the names.\<close>

definition compileDefinition :: "codegen_platform \<Rightarrow> definition_map \<Rightarrow> jstring \<times> definition_entry \<Rightarrow> (jstring \<times> jsval) compiled" where
  "compileDefinition cg defs = (\<lambda>(name, d).
     andThen (compileNode cg defs (de_schema d) (de_path d)) (\<lambda>plan. Inr (name, plan)))"

definition plan_document :: "jsval \<Rightarrow> jsval jobj \<Rightarrow> jsval" where
  "plan_document rootPlan definitions =
     plan_obj ([(''root'', rootPlan)] @ (if definitions = [] then [] else [(''definitions'', JObj 0 (build_object definitions))]))"

definition compileJsonSchemaToValidationPlan :: "codegen_platform \<Rightarrow> jsval \<Rightarrow> jstring \<Rightarrow> jsval compiled" where
  "compileJsonSchemaToValidationPlan cg schema path =
     andThen (assertSchemaBounds schema path \<lparr>bs_nodes = 0, bs_values = 0\<rparr>) (\<lambda>_.
     andThen (assertSupportedKeywords schema path) (\<lambda>_.
     andThen (collectDefinitions schema path []) (\<lambda>defs.
     andThen (compileNode cg defs schema path) (\<lambda>rootPlan.
     andThen (traverse (compileDefinition cg defs) (sort_key fst defs)) (\<lambda>definitions.
       Inr (plan_document rootPlan definitions))))))"

end
