(* ===== verification/Codegen_Contracts.thy ===== *)
theory Codegen_Contracts
  imports Codegen_Compile Codegen_Manifest
begin

text \<open>
  From a manifest to the source of the generated validators: the names of the contracts
  (\<open>pascalIdentifier\<close> and its companions in \<open>packages/codegen/src/schema-compiler.ts\<close>), the collection
  and compilation of the contracts, and the rendering (\<open>packages/codegen/src/validator-compiler.ts\<close>). A
  manifest is JSON data that \<open>validateFluxFastSchemaManifest\<close> accepted.
\<close>

section \<open>Names\<close>

definition is_upper :: "16 word \<Rightarrow> bool" where
  "is_upper c \<longleftrightarrow> 0x41 \<le> c \<and> c \<le> 0x5A"

definition is_lower :: "16 word \<Rightarrow> bool" where
  "is_lower c \<longleftrightarrow> 0x61 \<le> c \<and> c \<le> 0x7A"

text \<open>\<open>replace(/([a-z0-9])([A-Z])/g, "$1 $2")\<close>.\<close>

fun split_camel :: "jstring \<Rightarrow> jstring" where
  "split_camel (x # y # s) =
     (if (is_lower x \<or> is_digit x) \<and> is_upper y then x # 0x20 # split_camel (y # s) else x # split_camel (y # s))"
| "split_camel s = s"

text \<open>\<open>match(/[A-Za-z0-9]+/g)\<close>.\<close>

function words :: "jstring \<Rightarrow> jstring list" where
  "words s =
     (case dropWhile (Not \<circ> is_alnum) s of
        [] \<Rightarrow> []
      | t \<Rightarrow> takeWhile is_alnum t # words (dropWhile is_alnum t))"
  by pat_completeness auto
termination
proof (relation "measure length", goal_cases)
  case (2 s c t)
  from \<open>dropWhile (Not \<circ> is_alnum) s = c # t\<close> have "is_alnum c"
    by (metis comp_apply dropWhile_eq_Cons_conv)
  then have "length (dropWhile is_alnum (c # t)) \<le> length t" by (simp add: length_dropWhile_le)
  moreover have "length (c # t) \<le> length s"
    using 2 length_dropWhile_le [of "Not \<circ> is_alnum" s] by simp
  ultimately show ?case by simp
qed simp

declare words.simps [simp del]

definition upper_first :: "jstring \<Rightarrow> jstring" where
  "upper_first s = (case s of [] \<Rightarrow> [] | c # t \<Rightarrow> (if is_lower c then c - 0x20 else c) # t)"

definition lower_first :: "jstring \<Rightarrow> jstring" where
  "lower_first s = (case s of [] \<Rightarrow> [] | c # t \<Rightarrow> (if is_upper c then c + 0x20 else c) # t)"

text \<open>The hash is kept in 32 bits: \<open>Math.imul\<close> multiplies modulo \<open>2^32\<close>.\<close>

definition hash_step :: "32 word \<Rightarrow> nat \<Rightarrow> 32 word" where
  "hash_step hash point = Bit_Operations.xor hash (of_nat point) * 16777619"

text \<open>\<open>codePointAt\<close> of the characters of a string; an unpaired surrogate is its own code point.\<close>

fun string_points :: "jstring \<Rightarrow> nat list" where
  "string_points [] = []"
| "string_points [c] = [unat c]"
| "string_points (c # d # s) =
     (if high_surrogate c \<and> low_surrogate d then pair_value c d # string_points s
      else unat c # string_points (d # s))"

definition shortFingerprint :: "jstring \<Rightarrow> jstring" where
  "shortFingerprint v =
     (let hash = foldl hash_step 2166136261 (string_points v) in hex4 (ucast (drop_bit 16 hash)) @ hex4 (ucast hash))"

definition pascalIdentifier :: "jstring \<Rightarrow> string \<Rightarrow> jstring" where
  "pascalIdentifier v fallback =
     (let joined = concat (map upper_first (words (split_camel v)));
          identifier = (if joined = [] then js fallback @ shortFingerprint v else joined)
      in if is_digit (hd identifier) then js ''Type'' @ identifier else identifier)"

definition camelIdentifier :: "jstring \<Rightarrow> jstring" where
  "camelIdentifier v = lower_first (pascalIdentifier v ''ResourceKey'')"

definition ascii_lower :: "jstring \<Rightarrow> jstring" where
  "ascii_lower = map (\<lambda>c. if is_upper c then c + 0x20 else c)"

text \<open>The method is one of the four words of the manifest, so lower case is that of ASCII.\<close>

definition mutationOperationIdentifier :: "jstring \<Rightarrow> jstring \<Rightarrow> nat \<Rightarrow> jstring" where
  "mutationOperationIdentifier name method groupSize =
     (if groupSize > 1 then camelIdentifier (name @ js ''_'' @ ascii_lower method) else camelIdentifier name)"

definition mutationBodyTypeName :: "jstring \<Rightarrow> jstring \<Rightarrow> nat \<Rightarrow> jstring" where
  "mutationBodyTypeName name method groupSize =
     pascalIdentifier (mutationOperationIdentifier name method groupSize) ''Mutation'' @ js ''Body''"

definition resourceTypeName :: "jstring \<Rightarrow> jstring" where
  "resourceTypeName key = pascalIdentifier key ''Resource'' @ js ''Resource''"

section \<open>Contracts\<close>

record root_contract =
  rc_name :: jstring
  rc_schema :: jsval
  rc_path :: jstring

text \<open>The entries of \<open>types\<close> and \<open>resources\<close>, by name.\<close>

definition schema_contracts :: "(jstring \<Rightarrow> jstring) \<Rightarrow> jsval \<Rightarrow> string \<Rightarrow> root_contract list" where
  "schema_contracts name_of manifest member =
     map (\<lambda>(key, entry). \<lparr>rc_name = name_of key, rc_schema = field entry ''schema'',
            rc_path = dotted (childPath (js ''$.'' @ js member) key) ''schema''\<rparr>)
       (sort_key fst (obj_fields (field manifest member)))"

text \<open>The comparison of mutations: by name, then path, then method.\<close>

definition mutation_le :: "nat \<times> jsval \<Rightarrow> nat \<times> jsval \<Rightarrow> bool" where
  "mutation_le = (\<lambda>(i, a) (j, b).
     let key = (\<lambda>m k. str_val (field m k)) in
     if key a ''name'' \<noteq> key b ''name'' then key a ''name'' < key b ''name''
     else if key a ''path'' \<noteq> key b ''path'' then key a ''path'' < key b ''path''
     else key a ''method'' \<le> key b ''method'')"

definition body_mutations :: "jsval \<Rightarrow> (nat \<times> jsval) list" where
  "body_mutations manifest =
     sort_by mutation_le
       (filter (\<lambda>(i, m). field m ''body'' \<noteq> JUndef \<and> field m ''body'' \<noteq> JNull)
          (indexed (arr_items (field manifest ''mutations''))))"

definition mutation_group :: "jsval \<Rightarrow> jstring" where
  "mutation_group m = str_val (field m ''name'') @ [0] @ str_val (field m ''path'')"

definition mutation_contract :: "(nat \<times> jsval) list \<Rightarrow> nat \<times> jsval \<Rightarrow> root_contract" where
  "mutation_contract mutations = (\<lambda>(i, m).
     \<lparr>rc_name = mutationBodyTypeName (str_val (field m ''name'')) (str_val (field m ''method''))
                  (length (filter (\<lambda>(_, n). mutation_group n = mutation_group m) mutations)),
      rc_schema = field m ''body'', rc_path = dotted (indexPath (js ''$.mutations'') i) ''body''\<rparr>)"

definition collectRootContracts :: "jsval \<Rightarrow> root_contract list" where
  "collectRootContracts manifest =
     schema_contracts (\<lambda>key. pascalIdentifier key ''Type'') manifest ''types'' @
     schema_contracts resourceTypeName manifest ''resources'' @
     (let mutations = body_mutations manifest in map (mutation_contract mutations) mutations)"

record compiled_contract =
  cc_name :: jstring
  cc_document :: jsval

record diagnostic =
  vd_contract :: jstring
  vd_path :: jstring
  vd_keyword :: "jstring option"
  vd_message :: jstring

text \<open>One contract is added to the table, under the bounds that all contracts share.\<close>

definition add_contract ::
  "root_contract \<Rightarrow> (jstring, root_contract) jmap \<times> bounds_state \<Rightarrow>
   ((jstring, root_contract) jmap \<times> bounds_state) compiled" where
  "add_contract contract = (\<lambda>(contracts, bounds).
     andThen (assertSchemaBounds (rc_schema contract) (rc_path contract) bounds) (\<lambda>bounds.
       case jm_get contracts (rc_name contract) of
         None \<Rightarrow> Inr (jm_set (rc_name contract) contract contracts, bounds)
       | Some existing \<Rightarrow>
           if canonicalJson (rc_schema existing) \<noteq> canonicalJson (rc_schema contract) then
             fail (rc_path contract)
               (js ''validator contract '' @ rc_name contract @ js '' collides with an incompatible definition at '' @
                rc_path existing)
           else Inr (contracts, bounds)))"

text \<open>A contract is compiled; one that is not supported may be reported instead.\<close>

definition compile_contract ::
  "codegen_platform \<Rightarrow> bool \<Rightarrow> root_contract \<Rightarrow> compiled_contract list \<times> diagnostic list \<Rightarrow>
   (compiled_contract list \<times> diagnostic list) compiled" where
  "compile_contract cg reportUnsupported contract = (\<lambda>(compiled, diagnostics).
     case compileJsonSchemaToValidationPlan cg (rc_schema contract) (rc_path contract) of
       Inr document \<Rightarrow> Inr (compiled @ [\<lparr>cc_name = rc_name contract, cc_document = document\<rparr>], diagnostics)
     | Inl e \<Rightarrow>
         if reportUnsupported \<and> ce_unsupported e then
           Inr (compiled, diagnostics @ [\<lparr>vd_contract = rc_name contract, vd_path = ce_path e,
                                          vd_keyword = ce_keyword e, vd_message = ce_message e\<rparr>])
         else Inl e)"

definition diagnostic_le :: "diagnostic \<Rightarrow> diagnostic \<Rightarrow> bool" where
  "diagnostic_le a b =
     (let keyword = (\<lambda>d. case vd_keyword d of None \<Rightarrow> [] | Some k \<Rightarrow> k) in
      if vd_contract a \<noteq> vd_contract b then vd_contract a < vd_contract b
      else if vd_path a \<noteq> vd_path b then vd_path a < vd_path b
      else if keyword a \<noteq> keyword b then keyword a < keyword b
      else vd_message a \<le> vd_message b)"

definition compileContracts ::
  "codegen_platform \<Rightarrow> jsval \<Rightarrow> bool \<Rightarrow> (compiled_contract list \<times> diagnostic list) compiled" where
  "compileContracts cg manifest reportUnsupported =
     (let roots = collectRootContracts manifest in
      if length roots > MAX_ROOT_CONTRACTS then
        fail (js ''$'') (js ''manifest contains more than '' @ nat_digits MAX_ROOT_CONTRACTS @ js '' validator contracts'')
      else
        andThen (fold_result add_contract roots ([], \<lparr>bs_nodes = 0, bs_values = 0\<rparr>)) (\<lambda>(contracts, _).
        andThen (fold_result (compile_contract cg reportUnsupported) (sort_key rc_name (jm_values contracts)) ([], []))
          (\<lambda>(compiled, diagnostics). Inr (compiled, sort_by diagnostic_le diagnostics))))"

section \<open>Rendering\<close>

definition newline :: jstring where
  "newline = [0x0A]"

definition spaces :: "nat \<Rightarrow> jstring" where
  "spaces n = replicate n 0x20"

definition hasUnsafeKey :: "jstring \<Rightarrow> bool" where
  "hasUnsafeKey key \<longleftrightarrow> in_words key [''__proto__'', ''constructor'', ''prototype'']"

fun renderPlanValue :: "jsval \<Rightarrow> nat \<Rightarrow> jstring compiled" where
  "renderPlanValue JUndef indent = fail (js ''$'') (js ''generated validation plan contains a non-JSON value'')"
| "renderPlanValue (JArr i xs) indent =
     (if xs = [] then Inr (js ''[]'')
      else
        andThen (traverse (\<lambda>x. renderPlanValue x (indent + 2)) xs) (\<lambda>texts.
          Inr (js ''['' @ join_with (js '','') (map (\<lambda>t. newline @ spaces (indent + 2) @ t) texts) @ newline @ spaces indent @
               js '']'')))"
| "renderPlanValue (JObj i fs) indent =
     (if fs = [] then Inr (js ''{}'')
      else
        andThen (traverse (\<lambda>kv. renderPlanValue (snd kv) (indent + 2)) fs) (\<lambda>texts.
          let entries = zip (map (json_quote \<circ> fst) fs) texts in
          if list_ex (hasUnsafeKey \<circ> fst) fs then
            Inr (js ''Object.fromEntries(['' @ newline @
                 join_with (js '','' @ newline)
                   (map (\<lambda>(k, t). spaces (indent + 2) @ js ''['' @ k @ js '', '' @ t @ js '']'') entries) @
                 newline @ spaces indent @ js ''])'')
          else
            Inr (js ''{'' @ newline @
                 join_with (js '','' @ newline) (map (\<lambda>(k, t). spaces (indent + 2) @ k @ js '': '' @ t) entries) @
                 newline @ spaces indent @ js ''}'')))"
| "renderPlanValue v indent = (case json_text v of Some t \<Rightarrow> Inr t | None \<Rightarrow> Inr (js ''undefined''))"

definition diagnostic_object :: "diagnostic \<Rightarrow> jsval" where
  "diagnostic_object d =
     plan_obj ([(''contract'', JStr (vd_contract d)), (''path'', JStr (vd_path d)), (''message'', JStr (vd_message d))] @
       optional ''keyword'' (map_option JStr (vd_keyword d)))"

definition renderDiagnostics :: "diagnostic list \<Rightarrow> jstring compiled" where
  "renderDiagnostics diagnostics =
     (if diagnostics = [] then Inr (js ''export const validatorDiagnostics = [] as const;'')
      else
        andThen (traverse (\<lambda>d. andThen (renderPlanValue (diagnostic_object d) 2) (\<lambda>t. Inr (spaces 2 @ t))) diagnostics)
          (\<lambda>entries.
            Inr (js ''export const validatorDiagnostics = ['' @ newline @ join_with (js '','' @ newline) entries @
                 newline @ js ''] as const;'')))"

definition source_header :: "jsval \<Rightarrow> jstring" where
  "source_header manifest =
     join_with newline
       [js ''// AUTO-GENERATED BY FLUXFAST.'', js ''// DO NOT EDIT MANUALLY.'',
        js ''// Schema: '' @ str_val (field manifest ''schema''),
        js ''// Producer: '' @ str_val (field manifest ''producer''),
        js ''// Fingerprint: '' @ str_val (field manifest ''fingerprint'')]"

definition render_contract :: "compiled_contract \<Rightarrow> jstring compiled" where
  "render_contract c =
     andThen (renderPlanValue (cc_document c) 2) (\<lambda>plan.
       Inr (js ''export const '' @ cc_name c @ js ''Validator: FluxValidator<'' @ cc_name c @
            js ''> = /* @__PURE__ */ createValidator<'' @ cc_name c @ js ''>('' @ newline @ plan @ newline @ js '');''))"

definition source_imports :: "compiled_contract list \<Rightarrow> jstring" where
  "source_imports contracts =
     join_with newline
       ([js ''import { createValidator } from \"@fluxfast/core\";'',
         js ''import type { FluxValidator } from \"@fluxfast/core\";'', js ''import type {''] @
        map (\<lambda>c. spaces 2 @ cc_name c @ js '','') contracts @ [js ''} from \"./types.generated\";''])"

definition renderValidatorSource ::
  "jsval \<Rightarrow> compiled_contract list \<Rightarrow> diagnostic list \<Rightarrow> bool \<Rightarrow> jstring compiled" where
  "renderValidatorSource manifest contracts diagnostics includeDiagnostics =
     andThen (if includeDiagnostics then andThen (renderDiagnostics diagnostics) (\<lambda>t. Inr (t @ newline @ newline)) else Inr [])
       (\<lambda>reports.
       if contracts = [] then
         Inr (source_header manifest @ newline @ newline @ reports @ js ''export const validators = {} as const;'' @ newline)
       else
         andThen (traverse render_contract contracts) (\<lambda>declarations.
           Inr (source_header manifest @ newline @ newline @ source_imports contracts @ newline @ newline @ reports @
                join_with (newline @ newline) declarations @ newline @ newline @ js ''export const validators = {'' @ newline @
                join_with newline (map (\<lambda>c. spaces 2 @ cc_name c @ js '': '' @ cc_name c @ js ''Validator,'') contracts) @
                newline @ js ''} as const;'' @ newline)))"

section \<open>Entry points\<close>

datatype codegen_error = InvalidManifest manifest_error | InvalidSchema compile_error

type_synonym 'a generated = "(codegen_error, 'a) result"

definition validated :: "raw_heap \<Rightarrow> raw \<Rightarrow> (jsval \<Rightarrow> 'a compiled) \<Rightarrow> 'a generated" where
  "validated h v generate =
     (case validateFluxFastSchemaManifest h v of
        Inl e \<Rightarrow> Inl (InvalidManifest e)
      | Inr manifest \<Rightarrow> (case generate manifest of Inl e \<Rightarrow> Inl (InvalidSchema e) | Inr r \<Rightarrow> Inr r))"

record validators_result =
  vr_content :: jstring
  vr_contracts :: "jstring list"
  vr_diagnostics :: "diagnostic list"

definition validators_with_diagnostics :: "codegen_platform \<Rightarrow> jsval \<Rightarrow> validators_result compiled" where
  "validators_with_diagnostics cg manifest =
     andThen (compileContracts cg manifest True) (\<lambda>(contracts, diagnostics).
     andThen (renderValidatorSource manifest contracts diagnostics True) (\<lambda>content.
       Inr \<lparr>vr_content = content, vr_contracts = map cc_name contracts, vr_diagnostics = diagnostics\<rparr>))"

definition compileFluxFastValidatorsWithDiagnostics ::
  "codegen_platform \<Rightarrow> raw_heap \<Rightarrow> raw \<Rightarrow> validators_result generated" where
  "compileFluxFastValidatorsWithDiagnostics cg h v = validated h v (validators_with_diagnostics cg)"

text \<open>\<open>report\<close> is the option \<open>unsupported: "report"\<close>.\<close>

definition compileFluxFastValidators :: "codegen_platform \<Rightarrow> raw_heap \<Rightarrow> raw \<Rightarrow> bool \<Rightarrow> jstring generated" where
  "compileFluxFastValidators cg h v report =
     (if report then andThen (compileFluxFastValidatorsWithDiagnostics cg h v) (\<lambda>r. Inr (vr_content r))
      else
        validated h v (\<lambda>manifest.
          andThen (compileContracts cg manifest False) (\<lambda>(contracts, _).
            renderValidatorSource manifest contracts [] False)))"

end
