(* ===== verification/Codegen_Types.thy ===== *)
theory Codegen_Types
  imports Codegen_Contracts
begin

text \<open>
  The compiler from JSON Schemas to TypeScript types (\<open>packages/codegen/src/schema-compiler.ts\<close>, the
  functions that do not use the collected contracts). Schemas are read with \<open>schemaRecord\<close>,
  \<open>schemaMap\<close> and \<open>schemaArray\<close> of the validator compiler, of which the file has equal copies. \<open>decode\<close> is
  \<open>decodeURIComponent\<close>.
\<close>

section \<open>Contexts and references\<close>

record type_context =
  cx_references :: "(jstring, jstring) jmap"
  cx_alias :: jstring
  cx_key :: jstring
  cx_root :: "jstring option"

type_synonym uri_decoder = "jstring \<Rightarrow> jstring option"

type_synonym type_compiler = "jsval \<Rightarrow> jstring \<Rightarrow> jstring compiled"

definition propertyName :: "jstring \<Rightarrow> jstring" where
  "propertyName s = (if IDENTIFIER s then s else json_quote s)"

definition decodeReferenceSegment :: "(jstring \<Rightarrow> jstring option) \<Rightarrow> jstring \<Rightarrow> jstring \<Rightarrow> jstring compiled" where
  "decodeReferenceSegment decode s path =
     (case decode s of
        None \<Rightarrow> fail path (js ''contains invalid URI escaping: '' @ json_quote s)
      | Some decoded \<Rightarrow>
          if 0x2F \<in> set decoded then
            fail path (js ''must point directly to a local definition; received '' @ json_quote s)
          else if bad_tilde decoded then fail path (js ''contains invalid JSON Pointer escaping: '' @ json_quote s)
          else Inr (replace2 0x7E 0x30 0x7E (replace2 0x7E 0x31 0x2F decoded)))"

definition reference_prefix :: "jstring \<Rightarrow> jstring option" where
  "reference_prefix reference = find (\<lambda>p. starts_with p reference) [js ''#/$defs/'', js ''#/definitions/'']"

definition decodeReferenceKey :: "(jstring \<Rightarrow> jstring option) \<Rightarrow> jstring \<Rightarrow> jstring" where
  "decodeReferenceKey decode reference =
     (case reference_prefix reference of
        None \<Rightarrow> reference
      | Some p \<Rightarrow>
          (case decode (drop (length p) reference) of
             None \<Rightarrow> drop (length p) reference
           | Some s \<Rightarrow> replace2 0x7E 0x30 0x7E (replace2 0x7E 0x31 0x2F s)))"

text \<open>An empty name counts as absent.\<close>

definition present :: "(jstring, jstring) jmap \<Rightarrow> jstring \<Rightarrow> jstring option" where
  "present m k = (case jm_get m k of Some s \<Rightarrow> if s = [] then None else Some s | None \<Rightarrow> None)"

definition resolveReference :: "(jstring \<Rightarrow> jstring option) \<Rightarrow> jstring \<Rightarrow> type_context \<Rightarrow> jstring \<Rightarrow> jstring compiled" where
  "resolveReference decode reference ctx path =
     (if reference = js ''#'' then Inr (case cx_root ctx of Some t \<Rightarrow> t | None \<Rightarrow> cx_alias ctx)
      else
        (case reference_prefix reference of
           None \<Rightarrow> fail path (js ''only local $defs references are supported; received '' @ json_quote reference)
         | Some p \<Rightarrow>
             let remainder = drop (length p) reference in
             if remainder = [] \<or> 0x2F \<in> set remainder then
               fail path (js ''must point directly to a local definition; received '' @ json_quote reference)
             else
               andThen (decodeReferenceSegment decode remainder path) (\<lambda>key.
                 case present (cx_references ctx) key of
                   None \<Rightarrow> fail path (js ''references unknown definition '' @ json_quote key)
                 | Some name \<Rightarrow> Inr name)))"

text \<open>The references anywhere in a schema; the order is that of the properties, not of the worklist.\<close>

fun ref_values :: "jsval \<Rightarrow> jstring list" where
  "ref_values (JArr _ xs) = concat (map ref_values xs)"
| "ref_values (JObj _ fs) =
     (case map_of fs (js ''$ref'') of Some (JStr s) \<Rightarrow> [s] | _ \<Rightarrow> []) @ concat (map (\<lambda>(_, v). ref_values v) fs)"
| "ref_values _ = []"

definition referencedTypeSignature :: "(jstring \<Rightarrow> jstring option) \<Rightarrow> jsval \<Rightarrow> type_context \<Rightarrow> jstring" where
  "referencedTypeSignature decode schema ctx =
     (if is_boolean schema then canonicalJson schema
      else
        canonicalJson schema @ js ''|'' @
        join_with (js ''|'')
          (sort (map (\<lambda>r. r @ js '':'' @
             (case jm_get (cx_references ctx) (decodeReferenceKey decode r) of None \<Rightarrow> js ''?'' | Some name \<Rightarrow> name))
             (ref_values schema))))"

section \<open>Types\<close>

definition union_type :: "jstring list \<Rightarrow> jstring" where
  "union_type types =
     (let values = filter (\<lambda>t. t \<noteq> js ''never'') (jset_of types) in
      if js ''unknown'' \<in> set values \<or> values = [] then js ''unknown'' else join_with (js '' | '') values)"

definition intersection_type :: "jstring list \<Rightarrow> jstring" where
  "intersection_type types =
     (if js ''never'' \<in> set types then js ''never''
      else
        (case filter (\<lambda>t. t \<noteq> js ''unknown'') (jset_of types) of
           [] \<Rightarrow> js ''unknown''
         | [t] \<Rightarrow> t
         | values \<Rightarrow>
             join_with (js '' & '')
               (map (\<lambda>t. if includes_text (js '' | '') t then js ''('' @ t @ js '')'' else t) values)))"

definition arrayElement :: "jstring \<Rightarrow> jstring" where
  "arrayElement t =
     (if includes_text (js '' | '') t \<or> includes_text (js '' & '') t then js ''('' @ t @ js '')'' else t)"

text \<open>JSON data has no \<open>undefined\<close>.\<close>

fun literalType :: "jsval \<Rightarrow> jstring" where
  "literalType JNull = js ''null''"
| "literalType (JStr s) = json_quote s"
| "literalType (JNum n) = num_string n"
| "literalType (JBool b) = (if b then js ''true'' else js ''false'')"
| "literalType (JArr _ xs) = js ''['' @ join_with (js '', '') (map literalType xs) @ js '']''"
| "literalType (JObj _ fs) =
     js ''{ '' @ join_with (js ''; '')
       (map (\<lambda>(k, t). propertyName k @ js '': '' @ t) (sort_key fst (map (\<lambda>(k, v). (k, literalType v)) fs))) @ js '' }''"
| "literalType JUndef = js ''undefined''"

definition required_strings :: "jsval \<Rightarrow> jstring list" where
  "required_strings schema = map str_val (filter is_string (arr_items (field schema ''required'')))"

definition property_lines :: "type_compiler \<Rightarrow> jsval \<Rightarrow> jstring \<Rightarrow> jstring list compiled" where
  "property_lines rec schema path =
     andThen (map_entries schema path ''properties'') (\<lambda>entries.
       traverse (\<lambda>kx.
         andThen (rec (snd kx) (childPath (dotted path ''properties'') (fst kx))) (\<lambda>t.
           Inr (propertyName (fst kx) @ (if fst kx \<in> set (required_strings schema) then [] else js ''?'') @ js '': '' @ t @
                js '';''))) entries)"

text \<open>The type of the index signature, if there is one.\<close>

definition index_type :: "type_compiler \<Rightarrow> jsval \<Rightarrow> jstring \<Rightarrow> bool \<Rightarrow> jstring option compiled" where
  "index_type rec schema path hasProperties =
     (let additional = field schema ''additionalProperties'' in
      if additional = JBool True then Inr (Some (js ''unknown''))
      else if is_record additional then
        andThen (rec additional (dotted path ''additionalProperties'')) (\<lambda>t.
          Inr (Some (if hasProperties then js ''unknown'' else t)))
      else Inr None)"

definition compileObjectType :: "type_compiler \<Rightarrow> bool \<Rightarrow> type_compiler" where
  "compileObjectType rec multiline schema path =
     andThen (property_lines rec schema path) (\<lambda>lines.
     andThen (index_type rec schema path (lines \<noteq> [])) (\<lambda>index.
       let indexed_lines = lines @ (case index of Some t \<Rightarrow> if t = [] then [] else [js ''[key: string]: '' @ t @ js '';''] | None \<Rightarrow> []);
           entries = (if indexed_lines = [] then [js ''[key: string]: never;''] else indexed_lines)
       in if multiline then
            Inr (js ''{'' @ newline @ join_with newline (map (\<lambda>e. spaces 2 @ e) entries) @ newline @ js ''}'')
          else Inr (js ''{ '' @ join_with (js '' '') entries @ js '' }'')))"

definition items_type :: "type_compiler \<Rightarrow> type_compiler" where
  "items_type rec schema path =
     andThen (schemaRecord (field schema ''items'') (dotted path ''items'')) (\<lambda>s. rec s (dotted path ''items''))"

definition compileArrayType :: "type_compiler \<Rightarrow> type_compiler" where
  "compileArrayType rec schema path =
     (let items = field schema ''items'' in
      if field schema ''prefixItems'' \<noteq> JUndef then
        andThen (compile_list rec (field schema ''prefixItems'') (dotted path ''prefixItems'')) (\<lambda>members.
          if items = JBool False \<or> items = JUndef then Inr (bracketed (join_with (js '', '') members))
          else
            andThen (if items = JBool True then Inr (js ''unknown'') else items_type rec schema path) (\<lambda>rest.
              Inr (js ''['' @ join_with (js '', '') members @ (if members \<noteq> [] then js '', '' else []) @ js ''...'' @
                   arrayElement rest @ js ''[]]'')))
      else if items = JBool False then Inr (js ''[]'')
      else if items = JUndef \<or> items = JBool True then Inr (js ''unknown[]'')
      else andThen (items_type rec schema path) (\<lambda>item. Inr (arrayElement item @ js ''[]'')))"

definition compileTypeName :: "type_compiler \<Rightarrow> jstring \<Rightarrow> type_compiler" where
  "compileTypeName rec type schema path =
     (if type = js ''null'' then Inr (js ''null'')
      else if type = js ''boolean'' then Inr (js ''boolean'')
      else if type = js ''integer'' \<or> type = js ''number'' then Inr (js ''number'')
      else if type = js ''string'' then Inr (js ''string'')
      else if type = js ''array'' then compileArrayType rec schema path
      else if type = js ''object'' then compileObjectType rec False schema path
      else Inr (js ''unknown''))"

definition explicit_types :: "jsval \<Rightarrow> jstring list" where
  "explicit_types schema =
     (case field schema ''type'' of
        JArr _ xs \<Rightarrow> map str_val (filter is_string xs)
      | JStr s \<Rightarrow> [s]
      | _ \<Rightarrow> [])"

section \<open>Schemas\<close>

definition reference_types :: "(jstring \<Rightarrow> jstring option) \<Rightarrow> type_context \<Rightarrow> jsval \<Rightarrow> jstring \<Rightarrow> jstring list compiled" where
  "reference_types decode ctx schema path =
     (case field schema ''$ref'' of
        JStr s \<Rightarrow> andThen (resolveReference decode s ctx (dotted path ''$ref'')) (\<lambda>t. Inr [t])
      | _ \<Rightarrow> Inr [])"

definition literal_types :: "jsval \<Rightarrow> jstring list" where
  "literal_types schema =
     (if field schema ''const'' \<noteq> JUndef then [literalType (field schema ''const'')]
      else if is_array (field schema ''enum'') then [union_type (map literalType (arr_items (field schema ''enum'')))]
      else [])"

definition branch_types :: "type_compiler \<Rightarrow> jsval \<Rightarrow> jstring \<Rightarrow> string \<Rightarrow> (jstring list \<Rightarrow> jstring) \<Rightarrow> jstring list compiled" where
  "branch_types rec schema path keyword combine =
     (if field schema keyword = JUndef then Inr []
      else andThen (compile_list rec (field schema keyword) (dotted path keyword)) (\<lambda>types. Inr [combine types]))"

definition shape_types :: "type_compiler \<Rightarrow> jsval \<Rightarrow> jstring \<Rightarrow> jstring list compiled" where
  "shape_types rec schema path =
     (if field schema ''const'' \<noteq> JUndef \<or> field schema ''enum'' \<noteq> JUndef then Inr []
      else if explicit_types schema \<noteq> [] then
        andThen (traverse (\<lambda>type. compileTypeName rec type schema path) (explicit_types schema)) (\<lambda>types.
          Inr [union_type types])
      else if field schema ''properties'' \<noteq> JUndef \<or> field schema ''additionalProperties'' \<noteq> JUndef then
        andThen (compileObjectType rec False schema path) (\<lambda>t. Inr [t])
      else if field schema ''items'' \<noteq> JUndef \<or> field schema ''prefixItems'' \<noteq> JUndef then
        andThen (compileArrayType rec schema path) (\<lambda>t. Inr [t])
      else Inr [])"

definition schema_parts :: "(jstring \<Rightarrow> jstring option) \<Rightarrow> type_context \<Rightarrow> type_compiler \<Rightarrow> jsval \<Rightarrow> jstring \<Rightarrow> jstring list compiled" where
  "schema_parts decode ctx rec schema path =
     andThen (reference_types decode ctx schema path) (\<lambda>refs.
     andThen (branch_types rec schema path ''anyOf'' union_type) (\<lambda>anys.
     andThen (branch_types rec schema path ''oneOf'' union_type) (\<lambda>ones.
     andThen (branch_types rec schema path ''allOf'' intersection_type) (\<lambda>alls.
     andThen (shape_types rec schema path) (\<lambda>shapes.
       Inr (refs @ literal_types schema @ anys @ ones @ alls @ shapes))))))"

lemma property_lines_cong [fundef_cong]:
  assumes "schema = schema'" "path = path'" "\<And>x p. size x < size schema' \<Longrightarrow> rec x p = rec' x p"
  shows "property_lines rec schema path = property_lines rec' schema' path'"
  unfolding property_lines_def assms(1,2)
  by (intro andThen_cong traverse_cong refl) (auto dest!: map_entries_size simp: assms(3))

lemma size_record_field: "is_record (field schema keyword) \<Longrightarrow> size (field schema keyword) < size schema"
  by (rule size_field_of) auto

lemma index_type_cong [fundef_cong]:
  assumes "schema = schema'" "path = path'" "b = b'" "\<And>x p. size x < size schema' \<Longrightarrow> rec x p = rec' x p"
  shows "index_type rec schema path b = index_type rec' schema' path' b'"
  using size_record_field [of schema' "''additionalProperties''"] assms(4)
  by (simp add: index_type_def Let_def assms(1-3))

lemma compileObjectType_cong [fundef_cong]:
  assumes "schema = schema'" "path = path'" "m = m'" "\<And>x p. size x < size schema' \<Longrightarrow> rec x p = rec' x p"
  shows "compileObjectType rec m schema path = compileObjectType rec' m' schema' path'"
  using property_lines_cong [OF refl refl assms(4)] index_type_cong [OF refl refl refl assms(4)]
  by (simp add: compileObjectType_def assms(1-3))

lemma items_type_cong [fundef_cong]:
  assumes "schema = schema'" "path = path'" "\<And>x p. size x < size schema' \<Longrightarrow> rec x p = rec' x p"
  shows "items_type rec schema path = items_type rec' schema' path'"
  unfolding items_type_def assms(1,2)
  by (intro andThen_cong refl assms(3)) (auto simp: schemaRecord_def fail_def split: if_splits intro: size_record_field)

lemma compileArrayType_cong [fundef_cong]:
  assumes "schema = schema'" "path = path'" "\<And>x p. size x < size schema' \<Longrightarrow> rec x p = rec' x p"
  shows "compileArrayType rec schema path = compileArrayType rec' schema' path'"
  using items_type_cong [OF refl refl assms(3)] compile_field_list_cong [OF assms(3)]
  by (simp add: compileArrayType_def Let_def assms(1,2) cong: if_cong)

lemma compileTypeName_cong [fundef_cong]:
  assumes "schema = schema'" "path = path'" "type = type'" "\<And>x p. size x < size schema' \<Longrightarrow> rec x p = rec' x p"
  shows "compileTypeName rec type schema path = compileTypeName rec' type' schema' path'"
  using compileArrayType_cong [OF refl refl assms(4)] compileObjectType_cong [OF refl refl refl assms(4)]
  by (simp add: compileTypeName_def assms(1-3))

lemma branch_types_cong [fundef_cong]:
  assumes "schema = schema'" "path = path'" "keyword = keyword'" "combine = combine'"
    "\<And>x p. size x < size schema' \<Longrightarrow> rec x p = rec' x p"
  shows "branch_types rec schema path keyword combine = branch_types rec' schema' path' keyword' combine'"
  using compile_field_list_cong [OF assms(5)]
  by (simp add: branch_types_def assms(1-4) cong: if_cong)

lemma shape_types_cong [fundef_cong]:
  assumes "schema = schema'" "path = path'" "\<And>x p. size x < size schema' \<Longrightarrow> rec x p = rec' x p"
  shows "shape_types rec schema path = shape_types rec' schema' path'"
  using compileTypeName_cong [OF refl refl refl assms(3)] compileArrayType_cong [OF refl refl assms(3)]
    compileObjectType_cong [OF refl refl refl assms(3)]
  by (simp add: shape_types_def assms(1,2) cong: if_cong)

lemma schema_parts_cong [fundef_cong]:
  assumes "schema = schema'" "path = path'" "\<And>x p. size x < size schema' \<Longrightarrow> rec x p = rec' x p"
  shows "schema_parts decode ctx rec schema path = schema_parts decode ctx rec' schema' path'"
  using branch_types_cong [OF refl refl refl refl assms(3)] shape_types_cong [OF refl refl assms(3)]
  by (simp add: schema_parts_def assms(1,2))

text \<open>A schema is a Boolean or an object.\<close>

function compileSchema :: "(jstring \<Rightarrow> jstring option) \<Rightarrow> type_context \<Rightarrow> jsval \<Rightarrow> jstring \<Rightarrow> jstring compiled" where
  "compileSchema decode ctx schema path =
     (if schema = JBool True then Inr (js ''unknown'')
      else if schema = JBool False then Inr (js ''never'')
      else
        andThen (schema_parts decode ctx (\<lambda>s p. compileSchema decode ctx s p) schema path) (\<lambda>parts.
          if field schema ''nullable'' = JBool True then Inr (union_type [intersection_type parts, js ''null''])
          else Inr (intersection_type parts)))"
  by pat_completeness auto
termination
  by (relation "measure (\<lambda>(_, _, schema, _). size schema)") auto

declare compileSchema.simps [simp del]

section \<open>Types of parameters\<close>

definition declare_inline ::
  "jstring \<Rightarrow> jstring \<times> jsval \<Rightarrow> definition_map \<Rightarrow> definition_map compiled" where
  "declare_inline base = (\<lambda>(key, definition) defs.
     let definitionPath = childPath base key in
     case jm_get defs key of
       Some existing \<Rightarrow>
         if canonicalJson (de_schema existing) \<noteq> canonicalJson definition then
           fail definitionPath (js ''definition '' @ json_quote key @ js '' is declared more than once'')
         else Inr (jm_set key \<lparr>de_schema = definition, de_path = definitionPath\<rparr> defs)
     | None \<Rightarrow> Inr (jm_set key \<lparr>de_schema = definition, de_path = definitionPath\<rparr> defs))"

definition local_definitions :: "jsval \<Rightarrow> jstring \<Rightarrow> definition_map compiled" where
  "local_definitions schema path =
     fold_result (\<lambda>keyword defs.
       andThen (map_entries schema path keyword) (\<lambda>entries.
         fold_result (declare_inline (dotted path keyword)) entries defs)) [''$defs'', ''definitions''] []"

definition referencedDefinitions :: "(jstring \<Rightarrow> jstring option) \<Rightarrow> definition_map \<Rightarrow> jsval \<Rightarrow> jstring list" where
  "referencedDefinitions decode defs v =
     (if is_boolean v then [] else sort (jset_of (filter (jm_has defs) (map (decodeReferenceKey decode) (ref_values v)))))"

definition inline_context :: "(jstring, jstring) jmap \<Rightarrow> type_context" where
  "inline_context references =
     \<lparr>cx_references = references, cx_alias = js ''unknown'', cx_key = js ''inline'', cx_root = None\<rparr>"

function resolveDefinition ::
  "(jstring \<Rightarrow> jstring option) \<Rightarrow> definition_map \<Rightarrow> jstring list \<Rightarrow> jstring \<Rightarrow> (jstring, jstring) jmap \<Rightarrow>
   (jstring, jstring) jmap compiled" where
  "resolveDefinition decode defs visiting key references =
     (if jm_has references key then Inr references
      else
        (case jm_get defs key of
           None \<Rightarrow> Inr references
         | Some d \<Rightarrow>
             if key \<in> set visiting then
               fail (de_path d)
                 (js ''recursive definition '' @ json_quote key @ js '' cannot be used as an inline route parameter'')
             else
               andThen
                 (fold_result (\<lambda>dependency references. resolveDefinition decode defs (key # visiting) dependency references)
                   (referencedDefinitions decode defs (de_schema d)) references) (\<lambda>references.
               andThen (compileSchema decode (inline_context references) (de_schema d) (de_path d)) (\<lambda>t.
                 Inr (jm_set key t references)))))"
  by pat_completeness auto
termination
proof (relation "measure (\<lambda>(_, defs, visiting, _). card (set (jm_keys defs) - set visiting))", goal_cases)
  case (2 decode defs visiting key references d dependency u)
  from \<open>jm_get defs key = Some d\<close> have "jm_has defs key" unfolding jm_has_iff by blast
  with \<open>key \<notin> set visiting\<close> have "key \<in> set (jm_keys defs) - set visiting" by simp
  then have "set (jm_keys defs) - set (key # visiting) \<subset> set (jm_keys defs) - set visiting"
    unfolding list.set by blast
  then have "card (set (jm_keys defs) - set (key # visiting)) < card (set (jm_keys defs) - set visiting)"
    by (rule psubset_card_mono [OF finite_Diff [OF finite_set]])
  then show ?case by (simp only: in_measure prod.case)
qed simp

declare resolveDefinition.simps [simp del]

definition compileInlineJsonSchemaType :: "(jstring \<Rightarrow> jstring option) \<Rightarrow> jsval \<Rightarrow> jstring \<Rightarrow> jstring compiled" where
  "compileInlineJsonSchemaType decode schema path =
     andThen (local_definitions schema path) (\<lambda>defs.
     andThen (fold_result (resolveDefinition decode defs []) (sort (jm_keys defs)) []) (\<lambda>references.
       compileSchema decode (inline_context references) schema path))"

end
