(* ===== verification/Codegen_Routes.thy ===== *)
theory Codegen_Routes
  imports Codegen_Types
begin

text \<open>
  The generators of typed URL builders and mutation helpers (\<open>packages/codegen/src/route-compiler.ts\<close>,
  \<open>mutation-compiler.ts\<close>) and of the page registry (\<open>pages-registry.ts\<close>). The two compilers share the
  definitions of their equal parts. Parameters and routes carry their position in the manifest, which the
  code finds again with \<open>indexOf\<close>.
\<close>

section \<open>Placeholders and parameters\<close>

record placeholder =
  ph_name :: jstring
  ph_token :: jstring

definition in_braces :: "16 word \<Rightarrow> bool" where
  "in_braces c \<longleftrightarrow> c \<noteq> 0x7B \<and> c \<noteq> 0x7D"

text \<open>What follows an opening brace, by \<open>([^{}:]+)(?::[^{}]+)?\}\<close>: the name and the rest of the text.\<close>

definition placeholder_body :: "jstring \<Rightarrow> (jstring \<times> jstring) option" where
  "placeholder_body s =
     (let name_unit = (\<lambda>c. in_braces c \<and> c \<noteq> 0x3A); name = takeWhile name_unit s; r = dropWhile name_unit s in
      if name = [] then None
      else
        (case r of
           [] \<Rightarrow> None
         | c # r' \<Rightarrow>
             if c = 0x7D then Some (name, r')
             else if c = 0x3A \<and> takeWhile in_braces r' \<noteq> [] then
               (case dropWhile in_braces r' of d # r'' \<Rightarrow> if d = 0x7D then Some (name, r'') else None | [] \<Rightarrow> None)
             else None))"

lemma placeholder_body_length: "placeholder_body s = Some (name, r) \<Longrightarrow> length r < length s"
  using length_dropWhile_le [of "\<lambda>c. in_braces c \<and> c \<noteq> 0x3A" s]
  by (auto simp: placeholder_body_def Let_def split: list.splits if_splits dest!: arg_cong [where f = length])
    (metis (no_types, lifting) Suc_le_lessD add_leD2 le_trans length_Cons length_dropWhile_le less_Suc_eq_le plus_1_eq_Suc)+

function placeholders :: "jstring \<Rightarrow> placeholder list" where
  "placeholders [] = []"
| "placeholders (c # s) =
     (case if c = 0x7B then placeholder_body s else None of
        Some (name, r) \<Rightarrow> \<lparr>ph_name = name, ph_token = take (length (c # s) - length r) (c # s)\<rparr> # placeholders r
      | None \<Rightarrow> placeholders s)"
  by pat_completeness auto
termination
  by (relation "measure length") (auto split: if_splits dest: placeholder_body_length)

definition parameter_le :: "nat \<times> jsval \<Rightarrow> nat \<times> jsval \<Rightarrow> bool" where
  "parameter_le = (\<lambda>(_, a) (_, b).
     let text = (\<lambda>p key. str_val (field p key)) in
     if text a ''location'' \<noteq> text b ''location'' then text a ''location'' < text b ''location''
     else text a ''name'' \<le> text b ''name'')"

definition parameters_of :: "jsval \<Rightarrow> (nat \<times> jsval) list" where
  "parameters_of route = indexed (arr_items (field route ''parameters''))"

definition sortParameters :: "(nat \<times> jsval) list \<Rightarrow> (nat \<times> jsval) list" where
  "sortParameters = sort_by parameter_le"

definition parameter_name :: "jsval \<Rightarrow> jstring" where
  "parameter_name p = str_val (field p ''name'')"

definition located :: "string \<Rightarrow> (nat \<times> jsval) list \<Rightarrow> (nat \<times> jsval) list" where
  "located location = filter (\<lambda>(_, p). field p ''location'' = jstr location)"

definition is_required :: "jsval \<Rightarrow> bool" where
  "is_required p \<longleftrightarrow> truthy (field p ''required'')"

text \<open>Placeholders and path parameters must be in bijection.\<close>

definition check_placeholders :: "jsval \<Rightarrow> jstring \<Rightarrow> string \<Rightarrow> unit compiled" where
  "check_placeholders route path what =
     (let names = map (parameter_name \<circ> snd) (located ''path'' (parameters_of route));
          holes = map ph_name (placeholders (str_val (field route ''path''))) in
      andThen (for_each (\<lambda>hole.
          if length (filter (\<lambda>n. n = hole) names) \<noteq> 1 then
            fail (dotted path ''path'') (js ''placeholder '' @ json_quote hole @ js '' must have exactly one path parameter'')
          else Inr ()) holes) (\<lambda>_.
        for_each (\<lambda>name.
          if length (filter (\<lambda>h. h = name) holes) \<noteq> 1 then
            fail (dotted path ''parameters'')
              (js ''path parameter '' @ json_quote name @ js '' must appear exactly once in the '' @ js what @ js '' path'')
          else Inr ()) names))"

section \<open>Rendering\<close>

text \<open>The function that the generated file uses to append query parameters.\<close>

definition query_helper :: "string \<Rightarrow> jstring" where
  "query_helper name =
     join_with newline
       [js ''function '' @ js name @ js ''('', js ''  search: URLSearchParams,'', js ''  key: string,'', js ''  value: unknown'',
        js ''): void {'', js ''  if (value === undefined || value === null) return;'',
        js ''  if (Array.isArray(value)) {'', js ''    for (const item of value) '' @ js name @ js ''(search, key, item);'',
        js ''    return;'', js ''  }'', js ''  search.append(key, String(value));'', js ''}'']"

definition parameter_type :: "uri_decoder \<Rightarrow> jstring \<Rightarrow> nat \<times> jsval \<Rightarrow> jstring compiled" where
  "parameter_type decode routePath = (\<lambda>(index, p).
     compileInlineJsonSchemaType decode (field p ''schema'') (dotted (indexPath (dotted routePath ''parameters'') index) ''schema''))"

definition parameter_line :: "uri_decoder \<Rightarrow> jstring \<Rightarrow> nat \<Rightarrow> bool \<Rightarrow> nat \<times> jsval \<Rightarrow> jstring compiled" where
  "parameter_line decode routePath indent marked ip =
     andThen (parameter_type decode routePath ip) (\<lambda>t.
       Inr (spaces indent @ propertyName (parameter_name (snd ip)) @
            (if marked \<and> \<not> is_required (snd ip) then js ''?'' else []) @ js '': '' @ t @ js '';''))"

definition query_entry :: "uri_decoder \<Rightarrow> jstring \<Rightarrow> (nat \<times> jsval) list \<Rightarrow> jstring list compiled" where
  "query_entry decode routePath queries =
     (if queries = [] then Inr []
      else
        andThen (traverse (parameter_line decode routePath 4 True) queries) (\<lambda>entries.
          Inr [js ''  query'' @ (if list_ex (is_required \<circ> snd) queries then [] else js ''?'') @ js '': {'' @ newline @
               join_with newline entries @ newline @ js ''  };'']))"

definition replace_line :: "jstring \<Rightarrow> placeholder list \<Rightarrow> nat \<times> jsval \<Rightarrow> jstring" where
  "replace_line source holes = (\<lambda>(_, p).
     let token = (case find (\<lambda>h. ph_name h = parameter_name p) holes of Some h \<Rightarrow> ph_token h | None \<Rightarrow> []) in
     js ''    path = path.replace('' @ json_quote token @ js '', encodeURIComponent(String('' @ source @
     bracketed (json_quote (parameter_name p)) @ js '')));'')"

definition query_line :: "string \<Rightarrow> nat \<times> jsval \<Rightarrow> jstring" where
  "query_line helper = (\<lambda>(_, p).
     js ''    '' @ js helper @ js ''(search, '' @ json_quote (parameter_name p) @ js '', input.query?.'' @
     bracketed (json_quote (parameter_name p)) @ js '');'')"

section \<open>Page routes\<close>

definition route_le :: "nat \<times> jsval \<Rightarrow> nat \<times> jsval \<Rightarrow> bool" where
  "route_le = (\<lambda>(_, a) (_, b).
     let text = (\<lambda>p key. str_val (field p key)) in
     if text a ''name'' \<noteq> text b ''name'' then text a ''name'' < text b ''name'' else text a ''path'' \<le> text b ''path'')"

definition page_path :: "nat \<Rightarrow> jstring" where
  "page_path index = indexPath (js ''$.pages'') index"

definition validate_route :: "nat \<times> jsval \<Rightarrow> (jstring, jstring) jmap \<Rightarrow> (jstring, jstring) jmap compiled" where
  "validate_route = (\<lambda>(index, page) routeNames.
     let name = parameter_name page; identifier = camelIdentifier name in
     case jm_get routeNames identifier of
       Some existing \<Rightarrow>
         fail (dotted (page_path index) ''name'')
           (js ''page route '' @ json_quote name @ js '' collides with '' @ json_quote existing @
            js '' as TypeScript identifier routes.'' @ identifier @
            js ''. Give the FluxFast page route an explicit unique name.'')
     | None \<Rightarrow>
         andThen (check_placeholders page (page_path index) ''route'') (\<lambda>_. Inr (jm_set identifier name routeNames)))"

definition validateRoutes :: "(nat \<times> jsval) list \<Rightarrow> (jstring, jstring) jmap compiled" where
  "validateRoutes pages = fold_result validate_route pages []"

definition route_input_type :: "uri_decoder \<Rightarrow> (nat \<times> jsval) list \<Rightarrow> (nat \<times> jsval) list \<Rightarrow> jstring \<Rightarrow> jstring compiled" where
  "route_input_type decode paths queries pagePath =
     andThen (traverse (parameter_line decode pagePath 2 False) paths) (\<lambda>entries.
     andThen (query_entry decode pagePath queries) (\<lambda>query.
       Inr (js ''{'' @ newline @ join_with newline (entries @ query) @ newline @ js ''}'')))"

definition renderRoute :: "uri_decoder \<Rightarrow> nat \<times> jsval \<Rightarrow> jstring compiled" where
  "renderRoute decode = (\<lambda>(index, page).
     let parameters = sortParameters (parameters_of page); paths = located ''path'' parameters;
         queries = located ''query'' parameters; route = str_val (field page ''path'') in
     andThen (route_input_type decode paths queries (page_path index)) (\<lambda>inputType.
       let signature =
             (if paths = [] \<and> queries = [] then js ''()''
              else if paths \<noteq> [] \<or> list_ex (is_required \<circ> snd) queries then js ''(input: '' @ inputType @ js '')''
              else js ''(input: '' @ inputType @ js '' = {})'');
           body = [js ''    let path = '' @ json_quote route @ js '';''] @
             map (replace_line (js ''input'') (placeholders route)) paths @
             (if queries = [] then [js ''    return path;'']
              else [js ''    const search = new URLSearchParams();''] @ map (query_line ''appendFluxRouteQuery'') queries @
                [js ''    const query = search.toString();'', js ''    return query ? `${path}?${query}` : path;''])
       in Inr (spaces 2 @ camelIdentifier (parameter_name page) @ js '': '' @ signature @ js '': string => {'' @ newline @
               join_with newline body @ newline @ js ''  },'')))"

definition compile_page_routes :: "uri_decoder \<Rightarrow> jsval \<Rightarrow> jstring compiled" where
  "compile_page_routes decode manifest =
     (let pages = sort_by route_le (indexed (arr_items (field manifest ''pages''))) in
      andThen (validateRoutes pages) (\<lambda>_.
        if pages = [] then
          Inr (source_header manifest @ newline @ newline @ js ''export const routes = {} as const;'' @ newline)
        else
          andThen (traverse (renderRoute decode) pages) (\<lambda>entries.
            Inr (source_header manifest @ newline @ newline @ query_helper ''appendFluxRouteQuery'' @ newline @ newline @
                 js ''export const routes = {'' @ newline @ join_with newline entries @ newline @ js ''} as const;'' @ newline))))"

definition compileFluxFastPageRoutes :: "uri_decoder \<Rightarrow> raw_heap \<Rightarrow> raw \<Rightarrow> jstring generated" where
  "compileFluxFastPageRoutes decode h v = validated h v (compile_page_routes decode)"

section \<open>Mutations\<close>

record mutation_operation =
  mo_bodyTypeName :: jstring
  mo_identifier :: jstring
  mo_mutation :: jsval
  mo_index :: nat

definition mutation_path :: "nat \<Rightarrow> jstring" where
  "mutation_path index = indexPath (js ''$.mutations'') index"

definition mutation_text :: "jsval \<Rightarrow> jstring" where
  "mutation_text m = js '' ('' @ str_val (field m ''method'') @ js '' '' @ str_val (field m ''path'') @ js '')''"

definition mutation_group_size :: "(nat \<times> jsval) list \<Rightarrow> jsval \<Rightarrow> nat" where
  "mutation_group_size mutations m = length (filter (\<lambda>(_, n). mutation_group n = mutation_group m) mutations)"

definition collect_operation ::
  "(nat \<times> jsval) list \<Rightarrow> nat \<times> jsval \<Rightarrow> (jstring, jsval) jmap \<Rightarrow>
   (mutation_operation \<times> (jstring, jsval) jmap) compiled" where
  "collect_operation mutations = (\<lambda>(index, m) identifiers.
     let name = parameter_name m; method = str_val (field m ''method'');
         groupSize = mutation_group_size mutations m;
         identifier = mutationOperationIdentifier name method groupSize in
     case jm_get identifiers identifier of
       Some existing \<Rightarrow>
         fail (dotted (mutation_path index) ''name'')
           (js ''mutation '' @ json_quote name @ mutation_text m @ js '' collides with '' @
            json_quote (parameter_name existing) @ mutation_text existing @ js '' as TypeScript identifier mutations.'' @ identifier @
            js ''. Give the FluxFast mutation route an explicit unique name.'')
     | None \<Rightarrow>
         andThen (check_placeholders m (mutation_path index) ''mutation'') (\<lambda>_.
           Inr (\<lparr>mo_bodyTypeName = mutationBodyTypeName name method groupSize, mo_identifier = identifier,
                 mo_mutation = m, mo_index = index\<rparr>, jm_set identifier m identifiers)))"

definition collectOperations :: "jsval \<Rightarrow> mutation_operation list compiled" where
  "collectOperations manifest =
     (let mutations = body_mutations manifest in
      andThen (walk (collect_operation mutations) mutations []) (\<lambda>(operations, _). Inr operations))"

definition mutation_input_type ::
  "uri_decoder \<Rightarrow> (nat \<times> jsval) list \<Rightarrow> (nat \<times> jsval) list \<Rightarrow> jstring \<Rightarrow> jstring \<Rightarrow> jstring compiled" where
  "mutation_input_type decode paths queries mutationPath bodyTypeName =
     andThen
       (if paths = [] then Inr []
        else
          andThen (traverse (parameter_line decode mutationPath 4 False) paths) (\<lambda>entries.
            Inr [js ''  params: {'' @ newline @ join_with newline entries @ newline @ js ''  };''])) (\<lambda>params.
     andThen (query_entry decode mutationPath queries) (\<lambda>query.
       Inr (js ''{'' @ newline @ join_with newline (params @ query @ [js ''  body: '' @ bodyTypeName @ js '';'']) @ newline @
            js ''}'')))"

definition renderOperation :: "uri_decoder \<Rightarrow> mutation_operation \<Rightarrow> jstring compiled" where
  "renderOperation decode op =
     (let m = mo_mutation op; parameters = sortParameters (parameters_of m); paths = located ''path'' parameters;
          queries = located ''query'' parameters; route = str_val (field m ''path'') in
      andThen (mutation_input_type decode paths queries (mutation_path (mo_index op)) (mo_bodyTypeName op)) (\<lambda>inputType.
        let body = [js ''    let path = '' @ json_quote route @ js '';''] @
              map (replace_line (js ''input.params'') (placeholders route)) paths @
              (if queries = [] then []
               else [js ''    const search = new URLSearchParams();''] @ map (query_line ''appendFluxMutationQuery'') queries @
                 [js ''    const query = search.toString();'', js ''    if (query) path = `${path}?${query}`;'']) @
              [js ''    return router.mutate(path, input.body, { method: '' @ json_quote (str_val (field m ''method'')) @ js '' });'']
        in Inr (spaces 2 @ mo_identifier op @ js '': ('' @ newline @ js ''    router: FluxRouter,'' @ newline @
                js ''    input: '' @ inputType @ newline @ js ''  ): Promise<MutationEnvelope> => {'' @ newline @
                join_with newline body @ newline @ js ''  },'')))"

definition compile_mutations :: "uri_decoder \<Rightarrow> jsval \<Rightarrow> jstring compiled" where
  "compile_mutations decode manifest =
     andThen (collectOperations manifest) (\<lambda>operations.
       if operations = [] then
         Inr (source_header manifest @ newline @ newline @ js ''export const mutations = {} as const;'' @ newline)
       else
         andThen (traverse (renderOperation decode) operations) (\<lambda>entries.
           let bodyTypes = sort (jset_of (map mo_bodyTypeName operations));
               imports = join_with newline
                 [js ''import type { FluxRouter, MutationEnvelope } from \"@fluxfast/core\";'',
                  js ''import type { '' @ join_with (js '', '') bodyTypes @ js '' } from \"./types.generated\";'']
           in Inr (source_header manifest @ newline @ newline @ imports @ newline @ newline @
                   query_helper ''appendFluxMutationQuery'' @ newline @ newline @ js ''export const mutations = {'' @ newline @
                   join_with newline entries @ newline @ js ''} as const;'' @ newline)))"

definition compileFluxFastMutations :: "uri_decoder \<Rightarrow> raw_heap \<Rightarrow> raw \<Rightarrow> jstring generated" where
  "compileFluxFastMutations decode h v = validated h v (compile_mutations decode)"

section \<open>The page registry\<close>

text \<open>What \<open>readdirSync\<close> finds, in its order; \<open>OtherEntry\<close> is neither a file nor a directory.\<close>

datatype dir_entry =
    FileEntry jstring
  | DirEntry jstring "dir_entry list"
  | OtherEntry jstring

definition ends_with :: "jstring \<Rightarrow> jstring \<Rightarrow> bool" where
  "ends_with suffix s \<longleftrightarrow> length suffix \<le> length s \<and> drop (length s - length suffix) s = suffix"

definition page_extensions :: "jstring list" where
  "page_extensions = [js ''.tsx'', js ''.jsx'']"

definition PAGE_EXTENSION :: "jstring \<Rightarrow> bool" where
  "PAGE_EXTENSION name \<longleftrightarrow> list_ex (\<lambda>e. ends_with e name) page_extensions"

definition IGNORED_PAGE :: "jstring \<Rightarrow> bool" where
  "IGNORED_PAGE name \<longleftrightarrow>
     list_ex (\<lambda>kind. list_ex (\<lambda>e. ends_with (kind @ e) name) page_extensions) [js ''.test'', js ''.spec'', js ''.stories'']"

text \<open>\<open>file.replace(PAGE_EXTENSION, "")\<close>.\<close>

definition strip_extension :: "jstring \<Rightarrow> jstring" where
  "strip_extension file = (if PAGE_EXTENSION file then take (length file - 4) file else file)"

definition safe_page_unit :: "16 word \<Rightarrow> bool" where
  "safe_page_unit c \<longleftrightarrow> is_alnum c \<or> c \<in> set (js ''_.@()[]-'')"

definition SAFE_PAGE_FILE :: "jstring \<Rightarrow> bool" where
  "SAFE_PAGE_FILE file \<longleftrightarrow>
     PAGE_EXTENSION file \<and>
     list_all (\<lambda>segment. segment \<noteq> [] \<and> list_all safe_page_unit segment) (split_on 0x2F (strip_extension file))"

definition assertSafePageFile :: "jstring \<Rightarrow> (jstring, unit) result" where
  "assertSafePageFile file =
     (if \<not> SAFE_PAGE_FILE file \<or> list_ex (\<lambda>segment. segment \<in> {js ''.'', js ''..''}) (split_on 0x2F file) then
        Inl (js ''[fluxfast] Page path contains unsupported characters: '' @ json_quote file)
      else Inr ())"

definition relative_name :: "jstring \<Rightarrow> jstring \<Rightarrow> jstring" where
  "relative_name base name = (if base = [] then name else base @ js ''/'' @ name)"

fun scanDir :: "jstring \<Rightarrow> dir_entry list \<Rightarrow> (jstring, jstring list) result" where
  "scanDir base [] = Inr []"
| "scanDir base (DirEntry name children # rest) =
     andThen (scanDir (relative_name base name) children) (\<lambda>found.
     andThen (scanDir base rest) (\<lambda>more. Inr (found @ more)))"
| "scanDir base (FileEntry name # rest) =
     (if PAGE_EXTENSION name \<and> \<not> IGNORED_PAGE name \<and> \<not> starts_with (js ''_'') name then
        andThen (assertSafePageFile (relative_name base name)) (\<lambda>_.
        andThen (scanDir base rest) (\<lambda>more. Inr (relative_name base name # more)))
      else scanDir base rest)"
| "scanDir base (OtherEntry name # rest) = scanDir base rest"

text \<open>JSON quoting, with \<open><\<close>, \<open>>\<close> and the Unicode line separators escaped.\<close>

definition escape_source_unit :: "16 word \<Rightarrow> jstring" where
  "escape_source_unit c = (if c \<in> set [0x3C, 0x3E, 0x2028, 0x2029] then [0x5C, 0x75] @ hex4 c else [c])"

definition sourceStringLiteral :: "jstring \<Rightarrow> jstring" where
  "sourceStringLiteral s = concat (map escape_source_unit (json_quote s))"

definition target_error :: "string \<Rightarrow> (jstring, 'a) result" where
  "target_error reason = Inl (js ''[fluxfast] Invalid page registry target'' @ js reason)"

definition is_identifier_value :: "jsval \<Rightarrow> bool" where
  "is_identifier_value v \<longleftrightarrow> is_string v \<and> IDENTIFIER (str_val v)"

definition validateRegistryTarget :: "jsval \<Rightarrow> (jstring, unit) result" where
  "validateRegistryTarget target =
     (if \<not> is_record target then target_error '': an explicit runtime target is required''
      else if \<not> is_string (field target ''runtimeImport'') \<or> js_trim (str_val (field target ''runtimeImport'')) = [] \<or>
         list_ex (\<lambda>c. c \<le> 0x1F \<or> c = 0x7F) (str_val (field target ''runtimeImport'')) then
        target_error '' runtimeImport: use a non-empty module specifier without control characters''
      else if \<not> is_identifier_value (field target ''rootExport'') then
        target_error '' rootExport: use a JavaScript export identifier''
      else if \<not> is_identifier_value (field target ''applicationPropsExport'') then
        target_error '' applicationPropsExport: use a JavaScript export identifier''
      else if field target ''clientDirective'' \<noteq> JUndef \<and> \<not> is_boolean (field target ''clientDirective'') then
        target_error '' clientDirective: use a boolean''
      else Inr ())"

definition identifier_step :: "jstring \<Rightarrow> (jstring, jstring) jmap \<Rightarrow> (jstring, (jstring, jstring) jmap) result" where
  "identifier_step file seen =
     (let identifier = strip_extension file in
      case present seen identifier of
        Some previous \<Rightarrow>
          Inl (js ''[fluxfast] Duplicate FluxFast page identifier '' @ json_quote identifier @ js '' from '' @
               json_quote previous @ js '' and '' @ json_quote file)
      | None \<Rightarrow> Inr (jm_set identifier file seen))"

text \<open>\<open>relative file\<close> is \<open>path.relative(path.dirname(outputFile), path.join(pagesDir, file))\<close>.\<close>

definition registry_entry :: "(jstring \<Rightarrow> jstring) \<Rightarrow> jstring \<Rightarrow> jstring" where
  "registry_entry relative file =
     (let relativeImport = map (\<lambda>c. if c = 0x5C then 0x2F else c) (strip_extension (relative file));
          importPath = (if starts_with (js ''.'') relativeImport then relativeImport else js ''./'' @ relativeImport)
      in spaces 2 @ sourceStringLiteral (strip_extension file) @ js '': { load: () => import('' @
         sourceStringLiteral importPath @ js '') },'')"

definition export_as :: "jstring \<Rightarrow> string \<Rightarrow> jstring" where
  "export_as name local = (if name = js local then js local else name @ js '' as '' @ js local)"

definition registry_content :: "jsval \<Rightarrow> jstring list \<Rightarrow> jstring" where
  "registry_content target entries =
     (let runtimeImport = sourceStringLiteral (str_val (field target ''runtimeImport'')) in
      join_with newline
        [js ''// AUTO-GENERATED BY FLUXFAST.'', js ''// DO NOT EDIT MANUALLY.'',
         (if field target ''clientDirective'' = JBool True then js ''\"use client\";'' @ newline else []),
         js ''import React from \"react\";'',
         js ''import { '' @ export_as (str_val (field target ''rootExport'')) ''FluxRoot'' @ js '' } from '' @ runtimeImport @ js '';'',
         js ''import type { ComponentRegistry, '' @
           export_as (str_val (field target ''applicationPropsExport'')) ''FluxApplicationProps'' @ js '' } from '' @
           runtimeImport @ js '';'',
         [], js ''export const fluxPages: ComponentRegistry = {'', join_with newline entries, js ''};'', [],
         js ''export function FluxApplication(props: FluxApplicationProps) {'',
         js ''  return React.createElement(FluxRoot, { ...props, registry: fluxPages });'', js ''}'', [],
         js ''export default fluxPages;'', []])"

record registry_snapshot =
  rg_content :: jstring
  rg_files :: "jstring list"
  rg_identifiers :: "jstring list"

text \<open>\<open>pages\<close> is the content of the pages directory, empty when it does not exist.\<close>

definition createPagesRegistrySnapshot ::
  "(jstring \<Rightarrow> jstring) \<Rightarrow> jsval \<Rightarrow> dir_entry list \<Rightarrow> (jstring, registry_snapshot) result" where
  "createPagesRegistrySnapshot relative target pages =
     andThen (validateRegistryTarget target) (\<lambda>_.
     andThen (scanDir [] pages) (\<lambda>found.
       let files = sort found in
       andThen (fold_result identifier_step files []) (\<lambda>_.
         Inr \<lparr>rg_content = registry_content target (map (registry_entry relative) files), rg_files = files,
              rg_identifiers = map strip_extension files\<rparr>)))"

end
