(* ===== verification/Codegen_Names.thy ===== *)
theory Codegen_Names
  imports Codegen_Routes
begin

text \<open>
  The names and placeholders of what is generated from an accepted manifest: no two routes, mutations
  or pages share an identifier, and every placeholder of a path is filled by exactly one parameter.
\<close>

section \<open>Placeholders\<close>

lemma same_multiset:
  assumes "\<forall>x\<in>set xs. length (filter (\<lambda>y. y = x) ys) = 1" "\<forall>y\<in>set ys. length (filter (\<lambda>x. x = y) xs) = 1"
  shows "mset xs = mset ys \<and> distinct xs \<and> distinct ys"
proof -
  have count: "count (mset zs) a = length (filter (\<lambda>z. z = a) zs)" for zs :: "'a list" and a
    by (induction zs) auto
  have member: "x \<in> set ys \<longleftrightarrow> x \<in> set xs" for x
    using assms by (metis (mono_tags, lifting) filter_empty_conv length_0_conv zero_neq_one)
  have xs: "count (mset xs) a = (if a \<in> set xs then 1 else 0)" for a
    using assms(2) member [of a] by (auto simp: count filter_empty_conv)
  have ys: "count (mset ys) a = (if a \<in> set ys then 1 else 0)" for a
    using assms(1) member [of a] by (auto simp: count filter_empty_conv)
  have "mset xs = mset ys" by (rule multiset_eqI) (simp add: xs ys member)
  then show ?thesis using xs ys by (simp add: distinct_count_atmost_1)
qed

definition hole_names :: "jsval \<Rightarrow> jstring list" where
  "hole_names route = map ph_name (placeholders (str_val (field route ''path'')))"

definition path_parameter_names :: "jsval \<Rightarrow> jstring list" where
  "path_parameter_names route = map (parameter_name \<circ> snd) (located ''path'' (parameters_of route))"

text \<open>Every placeholder has its own path parameter, and every path parameter its own placeholder.\<close>

definition filled :: "jsval \<Rightarrow> bool" where
  "filled route \<longleftrightarrow> mset (hole_names route) = mset (path_parameter_names route) \<and> distinct (hole_names route)"

lemma check_placeholders_filled: "check_placeholders route path what = Inr () \<Longrightarrow> filled route"
  using same_multiset [of "hole_names route" "path_parameter_names route"]
  by (simp add: check_placeholders_def Let_def fail_def filled_def hole_names_def path_parameter_names_def split: if_splits)

section \<open>Identifiers\<close>

text \<open>A loop that refuses an identifier it has seen sees every identifier once.\<close>

lemma fold_distinct:
  assumes "fold_result f xs seen = Inr seen'"
    "\<And>x m m'. x \<in> set xs \<Longrightarrow> f x m = Inr m' \<Longrightarrow> \<not> jm_has m (name x) \<and> P x \<and> (\<exists>v. m' = jm_set (name x) v m)"
  shows "distinct (map name xs) \<and> (\<forall>x\<in>set xs. P x \<and> \<not> jm_has seen (name x))"
  using assms
proof (induction xs arbitrary: seen)
  case (Cons x xs)
  from Cons.prems(1) obtain m where step: "f x seen = Inr m" "fold_result f xs m = Inr seen'" by auto
  from Cons.prems(2) [OF _ step(1)] obtain v where m: "\<not> jm_has seen (name x)" "P x" "m = jm_set (name x) v seen" by auto
  from Cons.IH [OF step(2)] Cons.prems(2) m show ?case by (auto simp: jm_has_set)
qed simp

definition route_identifier :: "jsval \<Rightarrow> jstring" where
  "route_identifier page = camelIdentifier (parameter_name page)"

lemma validate_route_step:
  "validate_route x m = Inr m' \<Longrightarrow>
     \<not> jm_has m (route_identifier (snd x)) \<and> filled (snd x) \<and> (\<exists>v. m' = jm_set (route_identifier (snd x)) v m)"
  by (cases x)
    (auto simp: validate_route_def Let_def fail_def route_identifier_def jm_get_None_iff
      split: option.splits dest!: check_placeholders_filled)

lemma snd_indexed: "map snd (indexed xs) = xs"
  by (simp add: indexed_def)

lemma distinct_sorted_pages:
  "distinct (map (f \<circ> snd) (sort_by le (indexed xs))) \<longleftrightarrow> distinct (map f xs)"
proof -
  have "mset (map (f \<circ> snd) (sort_by le (indexed xs))) = mset (map f (map snd (indexed xs)))" by simp
  then show ?thesis unfolding snd_indexed by (rule mset_eq_imp_distinct_iff)
qed

text \<open>
  C17: When URL builders are generated, the builder names of the pages are pairwise distinct, so no
  page shadows another, and the path of every page has exactly its path parameters as placeholders,
  each once: no placeholder stays in a URL and no path parameter is dropped.
\<close>

theorem generated_routes_complete:
  assumes "compile_page_routes decode manifest = Inr source"
  shows "distinct (map route_identifier (arr_items (field manifest ''pages''))) \<and>
    (\<forall>page\<in>set (arr_items (field manifest ''pages'')). filled page)"
proof -
  let ?pages = "arr_items (field manifest ''pages'')"
  obtain names where names: "fold_result validate_route (sort_by route_le (indexed ?pages)) [] = Inr names"
    using assms by (auto simp: compile_page_routes_def validateRoutes_def Let_def)
  have *: "distinct (map (route_identifier \<circ> snd) (sort_by route_le (indexed ?pages))) \<and>
      (\<forall>x\<in>set (sort_by route_le (indexed ?pages)). filled (snd x))"
    using fold_distinct [where P = "\<lambda>x. filled (snd x)" and name = "route_identifier \<circ> snd", OF names]
      validate_route_step by simp
  moreover have "filled page" if "page \<in> set ?pages" for page
  proof -
    have "page \<in> set (map snd (indexed ?pages))" using that by (simp only: snd_indexed)
    with * show ?thesis by auto
  qed
  ultimately show ?thesis by (auto simp: distinct_sorted_pages)
qed

definition sample_route :: jsval where
  "sample_route =
     JObj 0 [(js ''name'', JStr (js ''item'')), (js ''path'', JStr (js ''/i/{id}'')), (js ''method'', JStr (js ''POST'')),
       (js ''body'', JObj 0 []),
       (js ''parameters'', JArr 0
          [JObj 0 [(js ''name'', JStr (js ''id'')), (js ''location'', JStr (js ''path'')),
                   (js ''required'', JBool True), (js ''schema'', JObj 0 [])]])]"

lemma sample_placeholders: "placeholders (js ''/i/{id}'') = [\<lparr>ph_name = js ''id'', ph_token = js ''{id}''\<rparr>]"
  by code_simp

lemma sample_parameter_type: "compileInlineJsonSchemaType decode (JObj 0 []) path = Inr (js ''unknown'')"
  by (simp add: compileInlineJsonSchemaType_def local_definitions_def map_entries_def field_def compileSchema.simps
      schema_parts_def reference_types_def branch_types_def shape_types_def literal_types_def explicit_types_def
      intersection_type_def jset_of_def jm_keys_def)

lemmas route_simps = field_def jstr_def check_placeholders_def located_def parameters_of_def indexed_def parameter_name_def
  sample_placeholders parameter_line_def parameter_type_def sample_parameter_type sortParameters_def sort_by_def
  query_entry_def Let_def

lemma sample_routes: "\<exists>source. compile_page_routes decode (JObj 0 [(js ''pages'', JArr 0 [sample_route])]) = Inr source"
  by (simp add: compile_page_routes_def sample_route_def validateRoutes_def validate_route_def renderRoute_def
      route_input_type_def route_simps)

theorem generated_routes_complete_witness: "filled sample_route"
proof -
  from sample_routes [of Some] obtain source where
    "compile_page_routes Some (JObj 0 [(js ''pages'', JArr 0 [sample_route])]) = Inr source" by blast
  from generated_routes_complete [OF this] show ?thesis by (simp add: field_def)
qed

section \<open>Mutations\<close>

lemma walk_distinct:
  assumes "walk f xs seen = Inr (ys, seen')"
    "\<And>x m y m'. x \<in> set xs \<Longrightarrow> f x m = Inr (y, m') \<Longrightarrow> \<not> jm_has m (name y) \<and> P x y \<and> (\<exists>v. m' = jm_set (name y) v m)"
  shows "distinct (map name ys) \<and> list_all2 P xs ys \<and> (\<forall>y\<in>set ys. \<not> jm_has seen (name y))"
  using assms
proof (induction xs arbitrary: seen ys)
  case (Cons x xs)
  from Cons.prems(1) obtain y m zs where step: "f x seen = Inr (y, m)" "walk f xs m = Inr (zs, seen')" "ys = y # zs" by auto
  from Cons.prems(2) [OF _ step(1)] obtain v where m: "\<not> jm_has seen (name y)" "P x y" "m = jm_set (name y) v seen" by auto
  have "distinct (map name zs) \<and> list_all2 P xs zs \<and> (\<forall>z\<in>set zs. \<not> jm_has m (name z))"
    by (rule Cons.IH [OF step(2)]) (rule Cons.prems(2), simp_all)
  with m step(3) show ?case by (auto simp: jm_has_set)
qed simp

lemma collect_operation_step:
  "collect_operation ms x m = Inr (y, m') \<Longrightarrow>
     \<not> jm_has m (mo_identifier y) \<and> (mo_mutation y = snd x \<and> filled (snd x)) \<and> (\<exists>v. m' = jm_set (mo_identifier y) v m)"
  by (cases x)
    (auto simp: collect_operation_def Let_def fail_def jm_get_None_iff split: option.splits dest!: check_placeholders_filled)

text \<open>
  When mutation helpers are generated, every mutation with a body gets exactly one helper, no two
  helpers share a name, and the path of each mutation has exactly its path parameters as placeholders.
\<close>

lemma generated_mutations_complete:
  assumes "compile_mutations decode manifest = Inr source"
  shows "\<exists>operations. collectOperations manifest = Inr operations \<and> distinct (map mo_identifier operations) \<and>
    mset (map mo_mutation operations) =
      mset (filter (\<lambda>m. field m ''body'' \<noteq> JUndef \<and> field m ''body'' \<noteq> JNull) (arr_items (field manifest ''mutations''))) \<and>
    (\<forall>operation\<in>set operations. filled (mo_mutation operation))"
proof -
  obtain operations where ops: "collectOperations manifest = Inr operations"
    using assms by (auto simp: compile_mutations_def)
  then obtain seen where walk: "walk (collect_operation (body_mutations manifest)) (body_mutations manifest) [] = Inr (operations, seen)"
    by (auto simp: collectOperations_def Let_def)
  have *: "distinct (map mo_identifier operations) \<and>
      list_all2 (\<lambda>x y. mo_mutation y = snd x \<and> filled (snd x)) (body_mutations manifest) operations"
    using walk_distinct [where P = "\<lambda>x y. mo_mutation y = snd x \<and> filled (snd x)" and name = mo_identifier, OF walk]
      collect_operation_step [of "body_mutations manifest"] by simp
  then have all2: "list_all2 (\<lambda>x y. mo_mutation y = snd x \<and> filled (snd x)) (body_mutations manifest) operations" by blast
  then have "map mo_mutation operations = map snd (body_mutations manifest)"
    by (induction rule: list_all2_induct) auto
  moreover have "mset (map snd (body_mutations manifest)) =
      mset (filter (\<lambda>m. field m ''body'' \<noteq> JUndef \<and> field m ''body'' \<noteq> JNull) (map snd (indexed (arr_items (field manifest ''mutations'')))))"
    by (simp add: body_mutations_def filter_map comp_def case_prod_unfold)
  moreover have "\<forall>operation\<in>set operations. filled (mo_mutation operation)"
    using all2 by (induction rule: list_all2_induct) auto
  ultimately show ?thesis using ops * by (simp add: snd_indexed del: mset_map mset_filter)
qed

lemma sample_mutations: "\<exists>source. compile_mutations decode (JObj 0 [(js ''mutations'', JArr 0 [sample_route])]) = Inr source"
  by (simp add: compile_mutations_def collectOperations_def body_mutations_def sample_route_def collect_operation_def
      renderOperation_def mutation_input_type_def route_simps)

section \<open>Page files\<close>

text \<open>A path that names a page: of safe characters and slashes, without segments \<open>.\<close> and \<open>..\<close>.\<close>

definition page_file :: "jstring \<Rightarrow> bool" where
  "page_file f \<longleftrightarrow>
     PAGE_EXTENSION f \<and> (\<forall>c\<in>set f. safe_page_unit c \<or> c = 0x2F) \<and>
     (\<forall>segment\<in>set (split_on 0x2F f). segment \<notin> {js ''.'', js ''..''})"

lemma scanDir_safe: "scanDir base entries = Inr files \<Longrightarrow> f \<in> set files \<Longrightarrow> assertSafePageFile f = Inr ()"
  by (induction base entries arbitrary: files rule: scanDir.induct) (auto split: if_splits)

lemma identifier_step_fresh:
  "identifier_step f seen = Inr seen' \<Longrightarrow> (\<forall>k v. jm_get seen k = Some v \<longrightarrow> v \<noteq> []) \<Longrightarrow>
     \<not> jm_has seen (strip_extension f) \<and> seen' = jm_set (strip_extension f) f seen"
  by (auto simp: identifier_step_def Let_def present_def jm_has_iff split: option.splits if_splits)

lemma files_distinct:
  assumes "fold_result identifier_step files seen = Inr seen'" "\<forall>f\<in>set files. f \<noteq> []"
    "\<forall>k v. jm_get seen k = Some v \<longrightarrow> v \<noteq> []"
  shows "distinct (map strip_extension files) \<and> (\<forall>f\<in>set files. \<not> jm_has seen (strip_extension f))"
  using assms
proof (induction files arbitrary: seen)
  case (Cons f files)
  from Cons.prems(1) obtain m where step: "identifier_step f seen = Inr m" "fold_result identifier_step files m = Inr seen'"
    by auto
  note m = identifier_step_fresh [OF step(1) Cons.prems(3)]
  have "distinct (map strip_extension files) \<and> (\<forall>f\<in>set files. \<not> jm_has m (strip_extension f))"
    by (rule Cons.IH [OF step(2)]) (use Cons.prems(2,3) m in \<open>auto simp: jm_get_set\<close>)
  with m show ?case by (auto simp: jm_has_set)
qed simp

lemma safe_page_unit_plain:
  assumes "safe_page_unit c \<or> c = 0x2F"
  shows "json_escape c = [c] \<and> \<not> high_surrogate c \<and> escape_source_unit c = [c]"
proof -
  have "c \<in> set [0x5F, 0x2E, 0x40, 0x28, 0x29, 0x5B, 0x5D, 0x2D, 0x2F] \<or> (97 \<le> c \<and> c \<le> 122) \<or> (65 \<le> c \<and> c \<le> 90) \<or>
      (48 \<le> c \<and> c \<le> 57)"
    using assms by (auto simp: safe_page_unit_def is_alnum_def is_letter_def is_digit_def js_def)
  then show ?thesis
    by (auto simp: json_escape_def high_surrogate_def low_surrogate_def escape_source_unit_def word_le_nat_alt word_less_nat_alt)
qed

lemma json_escapes_plain: "\<forall>c\<in>set s. json_escape c = [c] \<and> \<not> high_surrogate c \<Longrightarrow> json_escapes s = s"
  by (induction s rule: json_escapes.induct) auto

lemma quoted_plain:
  assumes "\<forall>c\<in>set s. safe_page_unit c \<or> c = 0x2F"
  shows "sourceStringLiteral s = [0x22] @ s @ [0x22]"
proof -
  have "concat (map escape_source_unit s) = s"
    using assms safe_page_unit_plain by (induction s) auto
  moreover have "json_escapes s = s" using assms safe_page_unit_plain by (intro json_escapes_plain) blast
  ultimately show ?thesis
    by (simp add: sourceStringLiteral_def json_quote_def escape_source_unit_def)
qed

lemma split_on_members: "c \<in> set s \<Longrightarrow> c = sep \<or> (\<exists>segment\<in>set (split_on sep s). c \<in> set segment)"
  by (induction s) (auto split: list.splits if_splits)

lemma page_extension_cases:
  assumes "PAGE_EXTENSION f"
  obtains e where "e \<in> {js ''.tsx'', js ''.jsx''}" "f = strip_extension f @ e"
proof -
  from assms obtain e where e: "e \<in> {js ''.tsx'', js ''.jsx''}" "ends_with e f"
    by (auto simp: PAGE_EXTENSION_def page_extensions_def)
  then have "drop (length f - 4) f = e" by (auto simp: ends_with_def eval_nat_numeral)
  with e(1) assms that show thesis by (metis append_take_drop_id strip_extension_def)
qed

lemma extension_units: "e \<in> {js ''.tsx'', js ''.jsx''} \<Longrightarrow> c \<in> set e \<Longrightarrow> safe_page_unit c"
proof -
  have "list_all (list_all safe_page_unit) [js ''.tsx'', js ''.jsx'']" by code_simp
  then show "e \<in> {js ''.tsx'', js ''.jsx''} \<Longrightarrow> c \<in> set e \<Longrightarrow> safe_page_unit c" by (auto simp: list_all_iff)
qed

lemma safe_page_file:
  assumes "assertSafePageFile f = Inr ()"
  shows "page_file f"
proof -
  have f: "PAGE_EXTENSION f" "\<forall>segment\<in>set (split_on 0x2F (strip_extension f)). list_all safe_page_unit segment"
    "\<forall>segment\<in>set (split_on 0x2F f). segment \<notin> {js ''.'', js ''..''}"
    using assms by (auto simp: assertSafePageFile_def SAFE_PAGE_FILE_def list_all_iff list_ex_iff split: if_splits)
  obtain e where e: "e \<in> {js ''.tsx'', js ''.jsx''}" "f = strip_extension f @ e" using page_extension_cases [OF f(1)] .
  have "safe_page_unit c \<or> c = 0x2F" if "c \<in> set f" for c
  proof -
    have "c \<in> set (strip_extension f) \<or> c \<in> set e" using that e(2) by (metis Un_iff set_append)
    then show ?thesis using split_on_members f(2) extension_units [OF e(1)] by (fastforce simp: list_all_iff)
  qed
  with f show ?thesis by (simp add: page_file_def)
qed

text \<open>A string literal read back: the text between its quotes, and nothing after them.\<close>

definition reads_as :: "jstring \<Rightarrow> jstring \<Rightarrow> bool" where
  "reads_as literal s \<longleftrightarrow> take 1 literal = [0x22] \<and> json_unescape (length literal) (drop 1 literal) = Some (s, [])"

abbreviation source_escapes :: "jstring \<Rightarrow> jstring" where
  "source_escapes s \<equiv> concat (map escape_source_unit s)"

lemma source_hex: "source_escapes (hex4 c) = hex4 c"
proof -
  have digit: "escape_source_unit (hex_digit n) = [hex_digit n]" if "n < 16" for n
  proof -
    have "\<forall>n\<in>set [0..<16]. escape_source_unit (hex_digit n) = [hex_digit n]" by code_simp
    then show ?thesis using that by simp
  qed
  have "unat c div 4096 < 16" using unat_unit [of c] by (simp add: less_mult_imp_div_less)
  then show ?thesis by (simp add: hex4_def Let_def digit)
qed

lemma source_escape_short:
  "d \<in> set [0x22, 0x5C, 0x62, 0x66, 0x6E, 0x72, 0x74, 0x75] \<Longrightarrow> escape_source_unit d = [d]"
  by (auto simp: escape_source_unit_def)

lemma json_read1_source: "json_read1 (source_escapes (json_escape c) @ s) = Some (c, s)"
proof -
  obtain w x y z where h: "hex4 c = [w, x, y, z]" by (simp add: hex4_def Let_def)
  from unhex_hex4 [of c] have c: "of_nat (4096 * unhex w + 256 * unhex x + 16 * unhex y + unhex z) = c"
    by (simp add: h)
  have hex: "source_escapes [w, x, y, z] = [w, x, y, z]" using source_hex [of c] by (simp only: h)
  then have "json_read1 (source_escapes ([0x5C, 0x75] @ hex4 c) @ s) = Some (c, s)"
    using c source_escape_short [of "0x5C"] source_escape_short [of "0x75"] by (simp add: h)
  moreover have "json_read1 (source_escapes [c] @ s) = Some (c, s)" if "c \<noteq> 0x22" "c \<noteq> 0x5C"
    using that c by (simp add: escape_source_unit_def h)
  moreover have "json_read1 (source_escapes [0x5C, d] @ s) = json_read1 (0x5C # d # s)"
    if "d \<in> set [0x22, 0x5C, 0x62, 0x66, 0x6E, 0x72, 0x74, 0x75]" for d
    using source_escape_short [of "0x5C"] source_escape_short [OF that] by simp
  ultimately show ?thesis unfolding json_escape_def by simp
qed

lemma source_surrogate: "high_surrogate c \<or> low_surrogate c \<Longrightarrow> escape_source_unit c = [c]"
  by (auto simp: escape_source_unit_def high_surrogate_def low_surrogate_def)

lemma json_unescape_source:
  "length s < n \<Longrightarrow> json_unescape n (source_escapes (json_escapes s) @ 0x22 # rest) = Some (s, rest)"
proof (induction s arbitrary: n rule: json_escapes.induct)
  case 1
  then show ?case by (cases n) auto
next
  case (2 c)
  then obtain m where n: "n = Suc (Suc m)" by (cases n; cases "n - 1") auto
  show ?case
    unfolding n using json_unescape_step [OF json_read1_source, of "Suc m" c "0x22 # rest"] by simp
next
  case (3 c d s)
  from "3.prems" obtain m where n: "n = Suc m" and m: "length (d # s) < m" by (cases n) auto
  show ?case
  proof (cases "high_surrogate c \<and> low_surrogate d")
    case True
    from m obtain l where m': "m = Suc l" and l: "length s < l" by (cases m) auto
    have "json_unescape (Suc (Suc l)) (c # d # source_escapes (json_escapes s) @ 0x22 # rest) = Some (c # d # s, rest)"
      using json_unescape_step [OF json_read1_plain [of c], of "Suc l" "d # source_escapes (json_escapes s) @ 0x22 # rest"]
        json_unescape_step [OF json_read1_plain [of d], of l "source_escapes (json_escapes s) @ 0x22 # rest"]
        True "3.IH"(1) [OF True l] by simp
    with True source_surrogate [of c] source_surrogate [of d] show ?thesis
      by (simp add: n m' del: json_unescape.simps json_read1.simps)
  next
    case False
    have "json_unescape n (source_escapes (json_escape c) @ source_escapes (json_escapes (d # s)) @ 0x22 # rest) =
        Some (c # d # s, rest)"
      unfolding n json_unescape_step [OF json_read1_source] using "3.IH"(2) [OF False m] by simp
    moreover have "json_escapes (c # d # s) = json_escape c @ json_escapes (d # s)"
      unfolding json_escapes.simps(3) if_not_P [OF False] ..
    ultimately show ?thesis by simp
  qed
qed

lemma length_source_escape: "1 \<le> length (source_escapes (json_escape c))"
  using json_read1_source [of c "[]"] by (cases "source_escapes (json_escape c)") auto

lemma length_source_escapes: "length s \<le> length (source_escapes (json_escapes s))"
proof (induction s rule: json_escapes.induct)
  case (2 c)
  show ?case using length_source_escape [of c] by simp
next
  case (3 c d s)
  then show ?case using length_source_escape [of c] source_surrogate [of c] source_surrogate [of d]
    by (cases "high_surrogate c \<and> low_surrogate d") auto
qed simp

lemma source_literal_reads: "reads_as (sourceStringLiteral s) s"
proof -
  have lit: "sourceStringLiteral s = 0x22 # source_escapes (json_escapes s) @ [0x22]"
    using source_escape_short [of "0x22"] by (simp add: sourceStringLiteral_def json_quote_def)
  have "json_unescape (length (sourceStringLiteral s)) (source_escapes (json_escapes s) @ 0x22 # []) = Some (s, [])"
    by (rule json_unescape_source) (use length_source_escapes [of s] in \<open>simp add: lit\<close>)
  then show ?thesis by (simp add: reads_as_def lit)
qed

text \<open>What the module of a page is imported as.\<close>

definition page_import :: "(jstring \<Rightarrow> jstring) \<Rightarrow> jstring \<Rightarrow> jstring" where
  "page_import relative f =
     (let path = map (\<lambda>c. if c = 0x5C then 0x2F else c) (strip_extension (relative f))
      in if take 1 path = js ''.'' then path else js ''./'' @ path)"

definition registry_line :: "(jstring \<Rightarrow> jstring) \<Rightarrow> jstring \<Rightarrow> jstring" where
  "registry_line relative f =
     js ''  \"'' @ strip_extension f @ js ''\": { load: () => import('' @
     sourceStringLiteral (page_import relative f) @ js '') },''"

lemma starts_with_dot: "starts_with (js ''.'') s \<longleftrightarrow> take 1 s = js ''.''"
  by (cases s) (auto simp: js_def)

lemma registry_entry_line:
  assumes "sourceStringLiteral (strip_extension f) = [0x22] @ strip_extension f @ [0x22]"
  shows "registry_entry relative f = registry_line relative f"
proof -
  have "spaces 2 @ [0x22] = js ''  \"''" "[0x22] @ js '': { load: () => import('' = js ''\": { load: () => import(''"
    by code_simp+
  then show ?thesis
    by (simp add: registry_entry_def registry_line_def page_import_def assms Let_def starts_with_dot)
qed

lemma registry_parts:
  assumes "createPagesRegistrySnapshot relative target pages = Inr registry"
  shows "sorted (rg_files registry) \<and> distinct (rg_identifiers registry) \<and>
    rg_identifiers registry = map strip_extension (rg_files registry)"
    and "rg_content registry = registry_content target (map (registry_entry relative) (rg_files registry))"
    and "\<forall>f\<in>set (rg_files registry). page_file f"
    and "\<forall>f\<in>set (rg_files registry). sourceStringLiteral (strip_extension f) = [0x22] @ strip_extension f @ [0x22]"
proof -
  obtain found seen where found: "scanDir [] pages = Inr found" and
    seen: "fold_result identifier_step (sort found) [] = Inr seen" and
    registry: "rg_files registry = sort found" "rg_identifiers registry = map strip_extension (sort found)"
    and content: "rg_content registry = registry_content target (map (registry_entry relative) (sort found))"
    using assms by (auto simp: createPagesRegistrySnapshot_def Let_def)
  have files: "page_file f" if "f \<in> set found" for f using safe_page_file [OF scanDir_safe [OF found that]] .
  have "f \<noteq> []" if "f \<in> set found" for f
    using files [OF that] by (auto simp: page_file_def PAGE_EXTENSION_def page_extensions_def ends_with_def)
  then have "distinct (map strip_extension (sort found))" using files_distinct [OF seen] by simp
  then show "sorted (rg_files registry) \<and> distinct (rg_identifiers registry) \<and>
    rg_identifiers registry = map strip_extension (rg_files registry)" using registry by simp
  show "rg_content registry = registry_content target (map (registry_entry relative) (rg_files registry))"
    using content registry by simp
  show pf: "\<forall>f\<in>set (rg_files registry). page_file f" using files registry by simp
  show "\<forall>f\<in>set (rg_files registry). sourceStringLiteral (strip_extension f) = [0x22] @ strip_extension f @ [0x22]"
  proof
    fix f
    assume f: "f \<in> set (rg_files registry)"
    have "set (strip_extension f) \<subseteq> set f" by (simp add: strip_extension_def set_take_subset)
    with pf f show "sourceStringLiteral (strip_extension f) = [0x22] @ strip_extension f @ [0x22]"
      by (intro quoted_plain) (auto simp: page_file_def)
  qed
qed

lemma join_with_Cons: "xs \<noteq> [] \<Longrightarrow> join_with sep (x # xs) = x @ sep @ join_with sep xs"
  by (cases xs) simp_all

lemma registry_content_shape:
  "\<exists>before after. \<forall>lines. registry_content target lines =
      before @ js ''export const fluxPages: ComponentRegistry = {'' @ newline @ join_with newline lines @ newline @ js ''};'' @
      newline @ after"
  unfolding registry_content_def Let_def by (simp add: join_with_Cons) (metis append.assoc)

text \<open>
  C19: a generated page registry imports exactly the page files. Its source is a fixed text, which
  depends on the target and not on the files, around one line per page file in sorted order: the line
  maps the page's identifier, the file without its extension, to an import whose string literal reads
  back as the path of that file from the output directory, without extension, with slashes, and
  relative. The files lie in the pages directory: their relative paths have page extensions, safe
  characters only and no segment that leaves the directory. The identifiers are distinct, and quoted
  they are their own text. So no file name can change the rest of the generated program.
\<close>

theorem page_registry_safe:
  "\<exists>before after. \<forall>relative pages registry.
     createPagesRegistrySnapshot relative target pages = Inr registry \<longrightarrow>
     rg_content registry =
       before @ js ''export const fluxPages: ComponentRegistry = {'' @ newline @
       join_with newline (map (registry_line relative) (rg_files registry)) @ newline @ js ''};'' @ newline @ after \<and>
     (\<forall>f\<in>set (rg_files registry). page_file f \<and>
        reads_as (js ''\"'' @ strip_extension f @ js ''\"'') (strip_extension f) \<and>
        reads_as (sourceStringLiteral (page_import relative f)) (page_import relative f)) \<and>
     sorted (rg_files registry) \<and> distinct (rg_identifiers registry) \<and>
     rg_identifiers registry = map strip_extension (rg_files registry)"
proof -
  obtain before after where shape: "\<And>lines. registry_content target lines =
      before @ js ''export const fluxPages: ComponentRegistry = {'' @ newline @ join_with newline lines @ newline @ js ''};'' @
      newline @ after"
    using registry_content_shape by blast
  have "rg_content registry =
       before @ js ''export const fluxPages: ComponentRegistry = {'' @ newline @
       join_with newline (map (registry_line relative) (rg_files registry)) @ newline @ js ''};'' @ newline @ after \<and>
     (\<forall>f\<in>set (rg_files registry). page_file f \<and>
        reads_as (js ''\"'' @ strip_extension f @ js ''\"'') (strip_extension f) \<and>
        reads_as (sourceStringLiteral (page_import relative f)) (page_import relative f)) \<and>
     sorted (rg_files registry) \<and> distinct (rg_identifiers registry) \<and>
     rg_identifiers registry = map strip_extension (rg_files registry)"
    if created: "createPagesRegistrySnapshot relative target pages = Inr registry" for relative pages registry
  proof -
    note parts = registry_parts [OF created]
    have quoted: "sourceStringLiteral (strip_extension f) = js ''\"'' @ strip_extension f @ js ''\"''"
      if "f \<in> set (rg_files registry)" for f
      using parts(4) that by (simp add: js_def)
    have "map (registry_entry relative) (rg_files registry) = map (registry_line relative) (rg_files registry)"
      using registry_entry_line quoted by (simp add: js_def)
    then show ?thesis
      using parts shape quoted source_literal_reads by metis
  qed
  then show ?thesis by blast
qed

definition sample_target :: jsval where
  "sample_target =
     JObj 0 [(js ''runtimeImport'', JStr (js ''r'')), (js ''rootExport'', JStr (js ''R'')),
       (js ''applicationPropsExport'', JStr (js ''P''))]"

lemma sample_registry:
  "case createPagesRegistrySnapshot id sample_target [DirEntry (js ''a'') [FileEntry (js ''b.tsx'')], FileEntry (js ''_c.tsx'')] of
     Inl _ \<Rightarrow> False | Inr registry \<Rightarrow> rg_files registry = [js ''a/b.tsx'']"
  by code_simp

theorem page_registry_safe_witness: "page_file (js ''a/b.tsx'')"
proof -
  obtain registry where "createPagesRegistrySnapshot id sample_target
      [DirEntry (js ''a'') [FileEntry (js ''b.tsx'')], FileEntry (js ''_c.tsx'')] = Inr registry"
    "rg_files registry = [js ''a/b.tsx'']"
    using sample_registry by (auto split: sum.splits)
  with page_registry_safe [of sample_target] show ?thesis by fastforce
qed

end
