(* ===== verification/Codegen_Resources.thy ===== *)
theory Codegen_Resources
  imports Codegen_Types
begin

text \<open>
  \<open>ResourceTypeCompiler\<close> of \<open>packages/codegen/src/schema-compiler.ts\<close>: it collects the contracts of a
  manifest, refuses names that collide, renders their TypeScript types, and finds the contracts whose
  types contain \<open>unknown\<close>. A context is complete before anything reads it, so it is a value here.
\<close>

section \<open>State\<close>

record named_definition =
  nd_context :: type_context
  nd_name :: jstring
  nd_path :: jstring
  nd_schema :: jsval
  nd_signature :: jstring

record resource_alias =
  ra_context :: type_context
  ra_name :: jstring
  ra_path :: jstring
  ra_schema :: jsval

record type_state =
  ts_definitions :: "(jstring, named_definition) jmap"
  ts_explicitContracts :: "resource_alias list"
  ts_explicitTypeNames :: "(jstring, jstring) jmap"
  ts_mutationContracts :: "resource_alias list"
  ts_resourceKeyNames :: "(jstring, jstring) jmap"
  ts_resourceNames :: "(jstring, jstring) jmap"
  ts_resources :: "resource_alias list"

definition new_type_state :: type_state where
  "new_type_state =
     \<lparr>ts_definitions = [], ts_explicitContracts = [], ts_explicitTypeNames = [], ts_mutationContracts = [],
      ts_resourceKeyNames = [], ts_resourceNames = [], ts_resources = []\<rparr>"

section \<open>Collecting\<close>

definition registerDefinition ::
  "uri_decoder \<Rightarrow> jstring \<Rightarrow> jsval \<Rightarrow> type_context \<Rightarrow> jstring \<Rightarrow> type_state \<Rightarrow> type_state compiled" where
  "registerDefinition decode name schema ctx path st =
     (case present (ts_resourceNames st) name of
        Some resource \<Rightarrow>
          fail path (js ''model name '' @ name @ js '' collides with generated resource type for '' @ json_quote resource)
      | None \<Rightarrow>
          let signature = referencedTypeSignature decode schema ctx in
          case jm_get (ts_definitions st) name of
            Some existing \<Rightarrow>
              if nd_signature existing \<noteq> signature then
                fail path (js ''model name '' @ name @ js '' collides with an incompatible definition at '' @ nd_path existing)
              else Inr st
          | None \<Rightarrow>
              Inr (st\<lparr>ts_definitions := jm_set name
                \<lparr>nd_context = ctx, nd_name = name, nd_path = path, nd_schema = schema, nd_signature = signature\<rparr>
                (ts_definitions st)\<rparr>))"

definition schema_title :: "jsval \<Rightarrow> jstring option" where
  "schema_title schema =
     (case field schema ''title'' of JStr s \<Rightarrow> if js_trim s \<noteq> [] then Some s else None | _ \<Rightarrow> None)"

definition definition_name :: "jstring \<times> definition_entry \<Rightarrow> jstring" where
  "definition_name = (\<lambda>(key, d).
     pascalIdentifier (case schema_title (de_schema d) of Some t \<Rightarrow> t | None \<Rightarrow> key) ''Model'')"

text \<open>The context that the definitions of a schema share.\<close>

definition definition_references :: "definition_map \<Rightarrow> (jstring, jstring) jmap" where
  "definition_references defs = map (\<lambda>kd. (fst kd, definition_name kd)) defs"

definition collectNamedDefinitions ::
  "uri_decoder \<Rightarrow> jsval \<Rightarrow> type_context \<Rightarrow> jstring \<Rightarrow> type_state \<Rightarrow> (type_context \<times> type_state) compiled" where
  "collectNamedDefinitions decode schema ctx path st =
     andThen (local_definitions schema path) (\<lambda>defs.
       let ctx = ctx\<lparr>cx_references := definition_references defs\<rparr> in
       andThen
         (fold_result (\<lambda>kd st. registerDefinition decode (definition_name kd) (de_schema (snd kd)) ctx (de_path (snd kd)) st)
           defs st) (\<lambda>st. Inr (ctx, st)))"

definition resource_name_checks :: "jstring \<Rightarrow> type_state \<Rightarrow> unit compiled" where
  "resource_name_checks resourceKey st =
     (let resourcePath = childPath (js ''$.resources'') resourceKey;
          keyName = camelIdentifier resourceKey; alias = resourceTypeName resourceKey in
      case jm_get (ts_resourceKeyNames st) keyName of
        Some existing \<Rightarrow>
          fail resourcePath (js ''resource key '' @ json_quote resourceKey @ js '' collides with '' @ json_quote existing @
            js '' as TypeScript constant resourceKeys.'' @ keyName)
      | None \<Rightarrow>
          (case present (ts_resourceNames st) alias of
             Some existing \<Rightarrow>
               fail resourcePath (js ''resource key '' @ json_quote resourceKey @ js '' collides with '' @ json_quote existing @
                 js '' as TypeScript name '' @ alias)
           | None \<Rightarrow>
               (case jm_get (ts_definitions st) alias of
                  Some existing \<Rightarrow>
                    fail resourcePath
                      (js ''generated resource type '' @ alias @ js '' collides with model at '' @ nd_path existing)
                | None \<Rightarrow> Inr ())))"

definition collectResource :: "uri_decoder \<Rightarrow> jstring \<times> jsval \<Rightarrow> type_state \<Rightarrow> type_state compiled" where
  "collectResource decode = (\<lambda>(resourceKey, entry) st.
     let path = dotted (childPath (js ''$.resources'') resourceKey) ''schema'';
         schema = field entry ''schema''; alias = resourceTypeName resourceKey;
         rootType = map_option (\<lambda>title. pascalIdentifier title ''Model'') (schema_title schema);
         ctx = \<lparr>cx_references = [], cx_alias = alias, cx_key = resourceKey, cx_root = rootType\<rparr> in
     andThen (resource_name_checks resourceKey st) (\<lambda>_.
     andThen (collectNamedDefinitions decode schema ctx path
         (st\<lparr>ts_resourceKeyNames := jm_set (camelIdentifier resourceKey) resourceKey (ts_resourceKeyNames st),
             ts_resourceNames := jm_set alias resourceKey (ts_resourceNames st)\<rparr>)) (\<lambda>(ctx, st).
     andThen (case rootType of None \<Rightarrow> Inr st | Some t \<Rightarrow> registerDefinition decode t schema ctx path st) (\<lambda>st.
       Inr (st\<lparr>ts_resources := ts_resources st @ [\<lparr>ra_context = ctx, ra_name = alias, ra_path = path, ra_schema = schema\<rparr>]\<rparr>)))))"

definition collectResources :: "uri_decoder \<Rightarrow> jsval \<Rightarrow> type_state \<Rightarrow> type_state compiled" where
  "collectResources decode manifest =
     fold_result (collectResource decode) (sort_key fst (obj_fields (field manifest ''resources'')))"

text \<open>A contract whose root type is its own name.\<close>

definition collect_contract ::
  "uri_decoder \<Rightarrow> jstring \<Rightarrow> jstring \<Rightarrow> jsval \<Rightarrow> jstring \<Rightarrow> type_state \<Rightarrow> (resource_alias \<times> type_state) compiled" where
  "collect_contract decode name key schema path st =
     andThen (collectNamedDefinitions decode schema
         \<lparr>cx_references = [], cx_alias = name, cx_key = key, cx_root = Some name\<rparr> path st) (\<lambda>(ctx, st).
     andThen (registerDefinition decode name schema ctx path st) (\<lambda>st.
       Inr (\<lparr>ra_context = ctx, ra_name = name, ra_path = path, ra_schema = schema\<rparr>, st)))"

definition collectMutationBody ::
  "uri_decoder \<Rightarrow> (nat \<times> jsval) list \<Rightarrow> nat \<times> jsval \<Rightarrow> (jstring, jstring) jmap \<times> type_state \<Rightarrow>
   ((jstring, jstring) jmap \<times> type_state) compiled" where
  "collectMutationBody decode mutations = (\<lambda>im (bodyNames, st).
     let contract = mutation_contract mutations im; bodyName = rc_name contract; name = str_val (field (snd im) ''name'') in
     case present bodyNames bodyName of
       Some existing \<Rightarrow>
         fail (rc_path contract) (js ''mutation body '' @ json_quote name @ js '' collides with '' @ json_quote existing @
           js '' as TypeScript name '' @ bodyName)
     | None \<Rightarrow>
         andThen (collect_contract decode bodyName name (rc_schema contract) (rc_path contract) st) (\<lambda>(alias, st).
           Inr (jm_set bodyName name bodyNames, st\<lparr>ts_mutationContracts := ts_mutationContracts st @ [alias]\<rparr>)))"

definition collectMutationBodies :: "uri_decoder \<Rightarrow> jsval \<Rightarrow> type_state \<Rightarrow> type_state compiled" where
  "collectMutationBodies decode manifest st =
     (let mutations = body_mutations manifest in
      andThen (fold_result (collectMutationBody decode mutations) mutations ([], st)) (\<lambda>(_, st). Inr st))"

definition collectExplicitType :: "uri_decoder \<Rightarrow> jstring \<times> jsval \<Rightarrow> type_state \<Rightarrow> type_state compiled" where
  "collectExplicitType decode = (\<lambda>(typeName, entry) st.
     let typePath = childPath (js ''$.types'') typeName; generatedName = pascalIdentifier typeName ''Type'' in
     case jm_get (ts_explicitTypeNames st) generatedName of
       Some existing \<Rightarrow>
         fail typePath (js ''type contract '' @ json_quote typeName @ js '' collides with '' @ json_quote existing @
           js '' as TypeScript name '' @ generatedName)
     | None \<Rightarrow>
         andThen (collect_contract decode generatedName typeName (field entry ''schema'') (dotted typePath ''schema'')
             (st\<lparr>ts_explicitTypeNames := jm_set generatedName typeName (ts_explicitTypeNames st)\<rparr>)) (\<lambda>(alias, st).
           Inr (st\<lparr>ts_explicitContracts := ts_explicitContracts st @ [alias]\<rparr>)))"

definition collectExplicitTypes :: "uri_decoder \<Rightarrow> jsval \<Rightarrow> type_state \<Rightarrow> type_state compiled" where
  "collectExplicitTypes decode manifest =
     fold_result (collectExplicitType decode) (sort_key fst (obj_fields (field manifest ''types'')))"

definition collect_manifest :: "uri_decoder \<Rightarrow> jsval \<Rightarrow> type_state compiled" where
  "collect_manifest decode manifest =
     andThen (collectExplicitTypes decode manifest new_type_state) (\<lambda>st.
     andThen (collectResources decode manifest st) (collectMutationBodies decode manifest))"

section \<open>Rendering\<close>

definition canRenderInterface :: "jsval \<Rightarrow> bool" where
  "canRenderInterface schema \<longleftrightarrow>
     (field schema ''type'' = JStr (js ''object'') \<or>
      (field schema ''type'' = JUndef \<and> field schema ''properties'' \<noteq> JUndef)) \<and>
     list_all (\<lambda>keyword. field schema keyword = JUndef) [''$ref'', ''const'', ''enum'', ''anyOf'', ''oneOf'', ''allOf''] \<and>
     field schema ''nullable'' \<noteq> JBool True"

definition renderDefinition :: "uri_decoder \<Rightarrow> named_definition \<Rightarrow> jstring compiled" where
  "renderDefinition decode d =
     (if \<not> is_boolean (nd_schema d) \<and> canRenderInterface (nd_schema d) then
        andThen (compileObjectType (compileSchema decode (nd_context d)) True (nd_schema d) (nd_path d)) (\<lambda>t.
          Inr (js ''export interface '' @ nd_name d @ js '' '' @ t))
      else
        andThen (compileSchema decode (nd_context d) (nd_schema d) (nd_path d)) (\<lambda>t.
          Inr (js ''export type '' @ nd_name d @ js '' = '' @ t @ js '';'')))"

definition renderResourceKeys :: "resource_alias list \<Rightarrow> jstring" where
  "renderResourceKeys resources =
     (if resources = [] then js ''export const resourceKeys = {} as const;''
      else
        js ''export const resourceKeys = {'' @ newline @
        join_with newline
          (map (\<lambda>r. spaces 2 @ camelIdentifier (cx_key (ra_context r)) @ js '': '' @ json_quote (cx_key (ra_context r)) @ js '','')
            resources) @
        newline @ js ''} as const;'')"

definition resource_entry :: "nat \<Rightarrow> resource_alias \<Rightarrow> jstring" where
  "resource_entry indent r = spaces indent @ propertyName (cx_key (ra_context r)) @ js '': '' @ ra_name r @ js '';''"

definition renderResourceMap :: "resource_alias list \<Rightarrow> jstring" where
  "renderResourceMap resources =
     (if resources = [] then js ''export interface GeneratedFluxResourceMap {}''
      else
        js ''export interface GeneratedFluxResourceMap {'' @ newline @ join_with newline (map (resource_entry 2) resources) @
        newline @ js ''}'')"

definition renderResourceMapAugmentation :: "resource_alias list \<Rightarrow> jstring" where
  "renderResourceMapAugmentation resources =
     js ''declare module \"@fluxfast/core\" {'' @ newline @
     (if resources = [] then js ''  interface FluxResourceMap {}''
      else
        js ''  interface FluxResourceMap {'' @ newline @ join_with newline (map (resource_entry 4) resources) @ newline @
        js ''  }'') @ newline @ js ''}''"

definition render_resource :: "uri_decoder \<Rightarrow> resource_alias \<Rightarrow> jstring compiled" where
  "render_resource decode r =
     andThen (case cx_root (ra_context r) of
                Some t \<Rightarrow> Inr t
              | None \<Rightarrow> compileSchema decode (ra_context r) (ra_schema r) (ra_path r)) (\<lambda>t.
       Inr (js ''export type '' @ ra_name r @ js '' = '' @ t @ js '';''))"

definition sorted_resources :: "type_state \<Rightarrow> resource_alias list" where
  "sorted_resources st = sort_key (\<lambda>r. cx_key (ra_context r)) (ts_resources st)"

definition compile_types :: "uri_decoder \<Rightarrow> jsval \<Rightarrow> jstring compiled" where
  "compile_types decode manifest =
     andThen (collect_manifest decode manifest) (\<lambda>st.
       let resources = sorted_resources st in
       andThen (traverse (renderDefinition decode) (sort_key nd_name (jm_values (ts_definitions st)))) (\<lambda>definitions.
       andThen (traverse (render_resource decode) resources) (\<lambda>types.
         Inr (source_header manifest @ newline @ newline @ js ''import type {} from \"@fluxfast/core\";'' @ newline @ newline @
              join_with (newline @ newline)
                ([renderResourceKeys resources] @ definitions @ types @
                 [renderResourceMap resources, renderResourceMapAugmentation resources]) @ newline))))"

section \<open>Unknown types\<close>

datatype analysis_kind = KNever | KOther | KUnknown

record unknown_analysis =
  ua_unknown :: bool
  ua_kind :: analysis_kind
  ua_references :: "jstring list"

definition NEVER_ANALYSIS :: unknown_analysis where
  "NEVER_ANALYSIS = \<lparr>ua_unknown = False, ua_kind = KNever, ua_references = []\<rparr>"

definition OTHER_ANALYSIS :: unknown_analysis where
  "OTHER_ANALYSIS = \<lparr>ua_unknown = False, ua_kind = KOther, ua_references = []\<rparr>"

definition UNKNOWN_ANALYSIS :: unknown_analysis where
  "UNKNOWN_ANALYSIS = \<lparr>ua_unknown = True, ua_kind = KUnknown, ua_references = []\<rparr>"

definition mergeReferences :: "unknown_analysis list \<Rightarrow> jstring list" where
  "mergeReferences analyses = jset_of (concat (map ua_references analyses))"

definition otherUnknownAnalysis :: "unknown_analysis list \<Rightarrow> unknown_analysis" where
  "otherUnknownAnalysis analyses =
     (let containsUnknown = list_ex ua_unknown analyses; references = mergeReferences analyses in
      if \<not> containsUnknown \<and> references = [] then OTHER_ANALYSIS
      else \<lparr>ua_unknown = containsUnknown, ua_kind = KOther, ua_references = references\<rparr>)"

definition unionUnknownAnalysis :: "unknown_analysis list \<Rightarrow> unknown_analysis" where
  "unionUnknownAnalysis analyses =
     (let members = filter (\<lambda>a. ua_kind a \<noteq> KNever) analyses in
      if members = [] \<or> list_ex (\<lambda>a. ua_kind a = KUnknown) members then UNKNOWN_ANALYSIS
      else otherUnknownAnalysis members)"

definition intersectionUnknownAnalysis :: "unknown_analysis list \<Rightarrow> unknown_analysis" where
  "intersectionUnknownAnalysis analyses =
     (if list_ex (\<lambda>a. ua_kind a = KNever) analyses then NEVER_ANALYSIS
      else
        let members = filter (\<lambda>a. ua_kind a \<noteq> KUnknown) analyses in
        if members = [] then UNKNOWN_ANALYSIS else otherUnknownAnalysis members)"

type_synonym analyzer = "jsval \<Rightarrow> jstring \<Rightarrow> unknown_analysis compiled"

definition additional_analysis :: "analyzer \<Rightarrow> jsval \<Rightarrow> jstring \<Rightarrow> bool \<Rightarrow> unknown_analysis list compiled" where
  "additional_analysis rec schema path hasProperties =
     (let additional = field schema ''additionalProperties'' in
      if additional = JBool True then Inr [UNKNOWN_ANALYSIS]
      else if is_record additional then
        andThen (rec additional (dotted path ''additionalProperties'')) (\<lambda>a.
          Inr [if hasProperties then UNKNOWN_ANALYSIS else a])
      else Inr [])"

definition analyzeObjectUnknown :: "analyzer \<Rightarrow> analyzer" where
  "analyzeObjectUnknown rec schema path =
     andThen (map_entries schema path ''properties'') (\<lambda>entries.
     andThen (traverse (\<lambda>kx. rec (snd kx) (childPath (dotted path ''properties'') (fst kx))) entries) (\<lambda>analyses.
     andThen (additional_analysis rec schema path (analyses \<noteq> [])) (\<lambda>additional.
       Inr (otherUnknownAnalysis (analyses @ additional)))))"

definition items_analysis :: "analyzer \<Rightarrow> jsval \<Rightarrow> jstring \<Rightarrow> unknown_analysis list compiled" where
  "items_analysis rec schema path =
     (let items = field schema ''items'' in
      if items = JBool True then Inr [UNKNOWN_ANALYSIS]
      else if is_record items then andThen (rec items (dotted path ''items'')) (\<lambda>a. Inr [a])
      else Inr [])"

definition analyzeArrayUnknown :: "analyzer \<Rightarrow> analyzer" where
  "analyzeArrayUnknown rec schema path =
     (if field schema ''prefixItems'' \<noteq> JUndef then
        andThen (compile_list rec (field schema ''prefixItems'') (dotted path ''prefixItems'')) (\<lambda>members.
        andThen (items_analysis rec schema path) (\<lambda>rest. Inr (otherUnknownAnalysis (members @ rest))))
      else if field schema ''items'' = JUndef then Inr (otherUnknownAnalysis [UNKNOWN_ANALYSIS])
      else andThen (items_analysis rec schema path) (\<lambda>analyses. Inr (otherUnknownAnalysis analyses)))"

definition analyzeExplicitTypeUnknown :: "analyzer \<Rightarrow> jstring \<Rightarrow> analyzer" where
  "analyzeExplicitTypeUnknown rec type schema path =
     (if type = js ''array'' then analyzeArrayUnknown rec schema path
      else if type = js ''object'' then analyzeObjectUnknown rec schema path
      else if in_words type [''null'', ''boolean'', ''integer'', ''number'', ''string''] then Inr OTHER_ANALYSIS
      else Inr UNKNOWN_ANALYSIS)"

definition reference_analyses :: "uri_decoder \<Rightarrow> type_context \<Rightarrow> jsval \<Rightarrow> jstring \<Rightarrow> unknown_analysis list compiled" where
  "reference_analyses decode ctx schema path =
     andThen (reference_types decode ctx schema path) (\<lambda>names.
       Inr (map (\<lambda>name. \<lparr>ua_unknown = False, ua_kind = KOther, ua_references = [name]\<rparr>) names))"

definition literal_analyses :: "jsval \<Rightarrow> unknown_analysis list" where
  "literal_analyses schema =
     (if field schema ''const'' \<noteq> JUndef then [OTHER_ANALYSIS]
      else if is_array (field schema ''enum'') then
        [unionUnknownAnalysis (map (\<lambda>_. OTHER_ANALYSIS) (arr_items (field schema ''enum'')))]
      else [])"

definition branch_analyses ::
  "analyzer \<Rightarrow> jsval \<Rightarrow> jstring \<Rightarrow> string \<Rightarrow> (unknown_analysis list \<Rightarrow> unknown_analysis) \<Rightarrow> unknown_analysis list compiled" where
  "branch_analyses rec schema path keyword combine =
     (if field schema keyword = JUndef then Inr []
      else andThen (compile_list rec (field schema keyword) (dotted path keyword)) (\<lambda>analyses. Inr [combine analyses]))"

definition shape_analyses :: "analyzer \<Rightarrow> jsval \<Rightarrow> jstring \<Rightarrow> unknown_analysis list compiled" where
  "shape_analyses rec schema path =
     (if field schema ''const'' \<noteq> JUndef \<or> field schema ''enum'' \<noteq> JUndef then Inr []
      else if explicit_types schema \<noteq> [] then
        andThen (traverse (\<lambda>type. analyzeExplicitTypeUnknown rec type schema path) (explicit_types schema)) (\<lambda>analyses.
          Inr [unionUnknownAnalysis analyses])
      else if field schema ''properties'' \<noteq> JUndef \<or> field schema ''additionalProperties'' \<noteq> JUndef then
        andThen (analyzeObjectUnknown rec schema path) (\<lambda>a. Inr [a])
      else if field schema ''items'' \<noteq> JUndef \<or> field schema ''prefixItems'' \<noteq> JUndef then
        andThen (analyzeArrayUnknown rec schema path) (\<lambda>a. Inr [a])
      else Inr [])"

definition analysis_parts :: "uri_decoder \<Rightarrow> type_context \<Rightarrow> analyzer \<Rightarrow> jsval \<Rightarrow> jstring \<Rightarrow> unknown_analysis list compiled" where
  "analysis_parts decode ctx rec schema path =
     andThen (reference_analyses decode ctx schema path) (\<lambda>refs.
     andThen (branch_analyses rec schema path ''anyOf'' unionUnknownAnalysis) (\<lambda>anys.
     andThen (branch_analyses rec schema path ''oneOf'' unionUnknownAnalysis) (\<lambda>ones.
     andThen (branch_analyses rec schema path ''allOf'' intersectionUnknownAnalysis) (\<lambda>alls.
     andThen (shape_analyses rec schema path) (\<lambda>shapes.
       Inr (refs @ literal_analyses schema @ anys @ ones @ alls @ shapes))))))"

lemma analyzeObjectUnknown_cong [fundef_cong]:
  assumes "schema = schema'" "path = path'" "\<And>x p. size x < size schema' \<Longrightarrow> rec x p = rec' x p"
  shows "analyzeObjectUnknown rec schema path = analyzeObjectUnknown rec' schema' path'"
proof -
  have "additional_analysis rec schema' path' b = additional_analysis rec' schema' path' b" for b
    using size_record_field [of schema' "''additionalProperties''"] assms(3) by (simp add: additional_analysis_def Let_def)
  then show ?thesis
    unfolding analyzeObjectUnknown_def assms(1,2)
    by (intro andThen_cong traverse_cong refl) (auto dest!: map_entries_size simp: assms(3))
qed

lemma analyzeArrayUnknown_cong [fundef_cong]:
  assumes "schema = schema'" "path = path'" "\<And>x p. size x < size schema' \<Longrightarrow> rec x p = rec' x p"
  shows "analyzeArrayUnknown rec schema path = analyzeArrayUnknown rec' schema' path'"
proof -
  have "items_analysis rec schema' path' = items_analysis rec' schema' path'"
    using size_record_field [of schema' "''items''"] assms(3) by (simp add: items_analysis_def Let_def)
  with compile_field_list_cong [OF assms(3)] show ?thesis by (simp add: analyzeArrayUnknown_def assms(1,2) cong: if_cong)
qed

lemma analysis_parts_cong [fundef_cong]:
  assumes "schema = schema'" "path = path'" "\<And>x p. size x < size schema' \<Longrightarrow> rec x p = rec' x p"
  shows "analysis_parts decode ctx rec schema path = analysis_parts decode ctx rec' schema' path'"
proof -
  have "branch_analyses rec schema' path' keyword combine = branch_analyses rec' schema' path' keyword combine"
    for keyword combine
    using compile_field_list_cong [OF assms(3)] by (simp add: branch_analyses_def cong: if_cong)
  moreover have "analyzeExplicitTypeUnknown rec type schema' path' = analyzeExplicitTypeUnknown rec' type schema' path'" for type
    using analyzeObjectUnknown_cong [OF refl refl assms(3)] analyzeArrayUnknown_cong [OF refl refl assms(3)]
    by (simp add: analyzeExplicitTypeUnknown_def)
  ultimately show ?thesis
    using analyzeObjectUnknown_cong [OF refl refl assms(3)] analyzeArrayUnknown_cong [OF refl refl assms(3)]
    by (simp add: analysis_parts_def shape_analyses_def assms(1,2) cong: if_cong)
qed

function analyzeUnknown :: "uri_decoder \<Rightarrow> type_context \<Rightarrow> jsval \<Rightarrow> jstring \<Rightarrow> unknown_analysis compiled" where
  "analyzeUnknown decode ctx schema path =
     (if schema = JBool True then Inr UNKNOWN_ANALYSIS
      else if schema = JBool False then Inr NEVER_ANALYSIS
      else
        andThen (analysis_parts decode ctx (\<lambda>s p. analyzeUnknown decode ctx s p) schema path) (\<lambda>parts.
          let r = intersectionUnknownAnalysis parts in
          Inr (if field schema ''nullable'' = JBool True then unionUnknownAnalysis [r, OTHER_ANALYSIS] else r)))"
  by pat_completeness auto
termination
  by (relation "measure (\<lambda>(_, _, schema, _). size schema)") auto

declare analyzeUnknown.simps [simp del]

text \<open>The definitions that reach an unknown type through references: a worklist over the dependents.\<close>

definition dependents_of :: "(jstring \<times> unknown_analysis) list \<Rightarrow> jstring \<Rightarrow> jstring list" where
  "dependents_of analyses dependency =
     (if dependency \<in> fst ` set analyses
      then map fst (filter (\<lambda>(_, a). dependency \<in> set (ua_references a)) analyses) else [])"

function unknown_closure :: "(jstring \<times> unknown_analysis) list \<Rightarrow> jstring list \<Rightarrow> jstring list \<Rightarrow> jstring list" where
  "unknown_closure analyses [] unknown = unknown"
| "unknown_closure analyses (name # pending) unknown =
     (let fresh = filter (\<lambda>d. d \<notin> set unknown) (jset_of (dependents_of analyses name)) in
      unknown_closure analyses (pending @ fresh) (unknown @ fresh))"
  by pat_completeness auto
termination
proof (relation "measures [\<lambda>(analyses, _, unknown). card (fst ` set analyses - set unknown), \<lambda>(_, pending, _). length pending]", goal_cases)
  case (2 analyses name pending unknown fresh)
  have sub: "set fresh \<subseteq> fst ` set analyses - set unknown"
    using 2 by (auto simp: dependents_of_def split: if_splits)
  show ?case
  proof (cases "fresh = []")
    case True
    then show ?thesis by simp
  next
    case False
    have "card (fst ` set analyses - set (unknown @ fresh)) < card (fst ` set analyses - set unknown)"
      by (rule psubset_card_mono) (use sub False in \<open>auto simp: neq_Nil_conv\<close>)
    then show ?thesis by simp
  qed
qed simp

definition analyze_definition :: "uri_decoder \<Rightarrow> named_definition \<Rightarrow> (jstring \<times> unknown_analysis) compiled" where
  "analyze_definition decode d =
     andThen (analyzeUnknown decode (nd_context d) (nd_schema d) (nd_path d)) (\<lambda>a. Inr (nd_name d, a))"

definition findUnknownDefinitions :: "uri_decoder \<Rightarrow> type_state \<Rightarrow> jstring list compiled" where
  "findUnknownDefinitions decode st =
     andThen (traverse (analyze_definition decode) (jm_values (ts_definitions st))) (\<lambda>analyses.
       let unknown = map fst (filter (\<lambda>(_, a). ua_unknown a) analyses) in
       Inr (unknown_closure analyses unknown unknown))"

definition schemaContainsUnknown :: "uri_decoder \<Rightarrow> type_state \<Rightarrow> resource_alias \<Rightarrow> bool compiled" where
  "schemaContainsUnknown decode st r =
     andThen (analyzeUnknown decode (ra_context r) (ra_schema r) (ra_path r)) (\<lambda>a.
       if ua_unknown a then Inr True
       else
         andThen (findUnknownDefinitions decode st) (\<lambda>unknown.
           Inr (list_ex (\<lambda>name. name \<in> set unknown) (ua_references a))))"

definition filter_unknown :: "uri_decoder \<Rightarrow> type_state \<Rightarrow> resource_alias list \<Rightarrow> resource_alias list compiled" where
  "filter_unknown decode st resources =
     andThen (traverse (\<lambda>r. andThen (schemaContainsUnknown decode st r) (\<lambda>b. Inr (b, r))) resources) (\<lambda>marked.
       Inr (map snd (filter fst marked)))"

definition resourcesWithUnknownTypes :: "uri_decoder \<Rightarrow> jsval \<Rightarrow> jstring list compiled" where
  "resourcesWithUnknownTypes decode manifest =
     andThen (collectResources decode manifest new_type_state) (\<lambda>st.
     andThen (filter_unknown decode st (sorted_resources st)) (\<lambda>rs. Inr (map (\<lambda>r. cx_key (ra_context r)) rs)))"

definition alias_le :: "resource_alias \<Rightarrow> resource_alias \<Rightarrow> bool" where
  "alias_le a b \<longleftrightarrow> (if ra_name a \<noteq> ra_name b then ra_name a < ra_name b else ra_path a \<le> ra_path b)"

text \<open>The first contract of each name.\<close>

definition first_by_name :: "resource_alias list \<Rightarrow> resource_alias list" where
  "first_by_name contracts =
     jm_values (foldl (\<lambda>m c. if jm_has m (ra_name c) then m else jm_set (ra_name c) c m) [] contracts)"

definition contractsWithUnknownTypes :: "uri_decoder \<Rightarrow> jsval \<Rightarrow> jstring list compiled" where
  "contractsWithUnknownTypes decode manifest =
     andThen (collect_manifest decode manifest) (\<lambda>st.
     andThen (filter_unknown decode st
         (sort_by alias_le (first_by_name (ts_explicitContracts st @ ts_resources st @ ts_mutationContracts st))))
       (\<lambda>rs. Inr (map ra_name rs)))"

section \<open>Entry points\<close>

definition compileFluxFastTypes :: "uri_decoder \<Rightarrow> raw_heap \<Rightarrow> raw \<Rightarrow> jstring generated" where
  "compileFluxFastTypes decode h v = validated h v (compile_types decode)"

definition findFluxFastResourceKeysWithUnknownTypes :: "uri_decoder \<Rightarrow> raw_heap \<Rightarrow> raw \<Rightarrow> jstring list generated" where
  "findFluxFastResourceKeysWithUnknownTypes decode h v = validated h v (resourcesWithUnknownTypes decode)"

definition findFluxFastContractsWithUnknownTypes :: "uri_decoder \<Rightarrow> raw_heap \<Rightarrow> raw \<Rightarrow> jstring list generated" where
  "findFluxFastContractsWithUnknownTypes decode h v = validated h v (contractsWithUnknownTypes decode)"

text \<open>The names generated so far, with the mode and the name they stand for.\<close>

definition mode_step ::
  "(jstring, jsval \<times> jstring) jmap \<times> jstring list \<Rightarrow> jstring \<times> jsval \<Rightarrow> (jstring, jsval \<times> jstring) jmap \<times> jstring list" where
  "mode_step = (\<lambda>(names, conflicts) (sourceName, entry).
     let generatedName = pascalIdentifier sourceName ''Type''; mode = field entry ''mode'' in
     case jm_get names generatedName of
       Some (previousMode, previousName) \<Rightarrow>
         if previousMode \<noteq> mode then
           (names, conflicts @ [json_quote previousName @ js '' ('' @ str_val previousMode @ js '') and '' @ json_quote sourceName @
              js '' ('' @ str_val mode @ js '') both generate '' @ generatedName])
         else (names, conflicts)
     | None \<Rightarrow> (jm_set generatedName (mode, sourceName) names, conflicts))"

definition findFluxFastSchemaModeConflicts :: "raw_heap \<Rightarrow> raw \<Rightarrow> jstring list generated" where
  "findFluxFastSchemaModeConflicts h v =
     validated h v (\<lambda>manifest. Inr (snd (foldl mode_step ([], []) (sort_key fst (obj_fields (field manifest ''types''))))))"

end
