(* ===== verification/Codegen_Meaning.thy ===== *)
theory Codegen_Meaning
  imports Codegen_Compile Validation_Reference
begin

text \<open>
  What JSON Schemas and generated plans mean, on JSON data. \<open>schema_admits\<close> is the meaning of the
  supported keywords, each on its own and only for values of the type it is about; \<open>plan_admits\<close> is the
  meaning of a plan, by its kind. References may be recursive, so both count how many references they
  may follow; everything else is structural.
\<close>

section \<open>Equality of JSON data\<close>

function (sequential) json_same :: "jsval \<Rightarrow> jsval \<Rightarrow> bool" where
  "json_same (JNum a) v = (case v of JNum b \<Rightarrow> object_is (HNum a) (HNum b) | _ \<Rightarrow> False)"
| "json_same (JArr _ xs) v =
     (case v of JArr _ ys \<Rightarrow> length xs = length ys \<and> list_all (\<lambda>(x, y). json_same x y) (zip xs ys) | _ \<Rightarrow> False)"
| "json_same (JObj _ fs) v =
     (case v of
        JObj _ gs \<Rightarrow>
          sort (map fst fs) = sort (map fst gs) \<and>
          list_all (\<lambda>(k, x). case map_of gs k of None \<Rightarrow> False | Some y \<Rightarrow> json_same x y) fs
      | _ \<Rightarrow> False)"
| "json_same u v = (u = v)"
  by pat_completeness auto
termination
proof (relation "measure (\<lambda>(u, _). size u)", goal_cases)
  case (2 i xs v j ys z x y)
  then have "x \<in> set (arr_items (JArr i xs))" by (auto dest: set_zip_leftD)
  from size_item [OF this] show ?case by simp
next
  case (3 i fs v j gs kx k x y)
  then have "(k, x) \<in> set (obj_fields (JObj i fs))" by simp
  from size_field [OF this] show ?case by simp
qed simp

section \<open>Keywords\<close>

definition count_of :: "jsval \<Rightarrow> nat option" where
  "count_of v = (case v of JNum n \<Rightarrow> Some (nat \<lfloor>num_val n\<rfloor>) | _ \<Rightarrow> None)"

definition number_of :: "jsval \<Rightarrow> jnum option" where
  "number_of v = (case v of JNum n \<Rightarrow> Some n | _ \<Rightarrow> None)"

definition string_meets :: "validation_platform \<Rightarrow> jsval \<Rightarrow> jstring \<Rightarrow> bool" where
  "string_meets vp x s \<longleftrightarrow>
     meets (count_of (field x ''minLength'')) (\<lambda>m. m \<le> length (code_points s)) \<and>
     meets (count_of (field x ''maxLength'')) (\<lambda>m. length (code_points s) \<le> m) \<and>
     (case field x ''pattern'' of JStr p \<Rightarrow> (case vp_regex vp p of None \<Rightarrow> False | Some test \<Rightarrow> test s) | _ \<Rightarrow> True) \<and>
     (case field x ''format'' of JStr f \<Rightarrow> validateValidationFormat (vp_protocol vp) s f | _ \<Rightarrow> True)"

definition number_meets :: "jsval \<Rightarrow> jnum \<Rightarrow> bool" where
  "number_meets x n \<longleftrightarrow>
     meets (number_of (field x ''minimum'')) (\<lambda>m. \<not> num_less n m) \<and>
     meets (number_of (field x ''maximum'')) (\<lambda>m. \<not> num_less m n) \<and>
     meets (number_of (field x ''exclusiveMinimum'')) (\<lambda>m. num_less m n) \<and>
     meets (number_of (field x ''exclusiveMaximum'')) (\<lambda>m. num_less n m) \<and>
     meets (number_of (field x ''multipleOf'')) (isMultipleOf n)"

type_synonym admits = "jsval \<Rightarrow> jsval \<Rightarrow> bool"

definition array_meets :: "admits \<Rightarrow> jsval \<Rightarrow> jsval list \<Rightarrow> bool" where
  "array_meets ok x ys \<longleftrightarrow>
     meets (count_of (field x ''minItems'')) (\<lambda>m. m \<le> length ys) \<and>
     meets (count_of (field x ''maxItems'')) (\<lambda>m. length ys \<le> m) \<and>
     list_all (\<lambda>(p, y). ok p y) (zip (arr_items (field x ''prefixItems'')) ys) \<and>
     (field x ''items'' = JUndef \<or>
      list_all (ok (field x ''items'')) (drop (length (arr_items (field x ''prefixItems''))) ys))"

definition object_meets :: "admits \<Rightarrow> jsval \<Rightarrow> jsval jobj \<Rightarrow> bool" where
  "object_meets ok x fs \<longleftrightarrow>
     list_all (\<lambda>r. str_val r \<in> fst ` set fs) (arr_items (field x ''required'')) \<and>
     list_all (\<lambda>(k, p). case map_of fs k of None \<Rightarrow> True | Some y \<Rightarrow> ok p y) (obj_fields (field x ''properties'')) \<and>
     (field x ''additionalProperties'' = JUndef \<or>
      list_all (\<lambda>(k, y). k \<in> fst ` set (obj_fields (field x ''properties'')) \<or> ok (field x ''additionalProperties'') y) fs)"

text \<open>The keywords about the type of a value hold of every value of another type.\<close>

definition keywords_meet :: "validation_platform \<Rightarrow> admits \<Rightarrow> jsval \<Rightarrow> jsval \<Rightarrow> bool" where
  "keywords_meet vp ok x v =
     (case v of
        JStr s \<Rightarrow> string_meets vp x s
      | JNum n \<Rightarrow> number_meets x n
      | JArr _ ys \<Rightarrow> array_meets ok x ys
      | JObj _ fs \<Rightarrow> object_meets ok x fs
      | _ \<Rightarrow> True)"

definition has_type :: "jsval \<Rightarrow> jsval \<Rightarrow> bool" where
  "has_type v t =
     (case v of
        JUndef \<Rightarrow> False
      | JNull \<Rightarrow> t = jstr ''null''
      | JBool _ \<Rightarrow> t = jstr ''boolean''
      | JNum n \<Rightarrow> num_finite n \<and> (t = jstr ''number'' \<or> (t = jstr ''integer'' \<and> num_is_integer n))
      | JStr _ \<Rightarrow> t = jstr ''string''
      | JArr _ _ \<Rightarrow> t = jstr ''array''
      | JObj _ _ \<Rightarrow> t = jstr ''object'')"

definition nulled :: "jsval \<Rightarrow> jsval \<Rightarrow> bool" where
  "nulled x v \<longleftrightarrow> field x ''nullable'' = JBool True \<and> v = JNull"

definition some_branch :: "admits \<Rightarrow> jsval list \<Rightarrow> jsval \<Rightarrow> bool" where
  "some_branch ok ps v = list_ex (\<lambda>p. ok p v) ps"

definition one_branch :: "admits \<Rightarrow> jsval list \<Rightarrow> jsval \<Rightarrow> bool" where
  "one_branch ok ps v \<longleftrightarrow> length (filter (\<lambda>p. ok p v) ps) = 1"

definition every_branch :: "admits \<Rightarrow> jsval list \<Rightarrow> jsval \<Rightarrow> bool" where
  "every_branch ok ps v = list_all (\<lambda>p. ok p v) ps"

section \<open>Schemas\<close>

definition schema_meaning :: "validation_platform \<Rightarrow> (jstring \<Rightarrow> jsval \<Rightarrow> bool) \<Rightarrow> admits \<Rightarrow> jsval \<Rightarrow> jsval \<Rightarrow> bool" where
  "schema_meaning vp follow ok x v \<longleftrightarrow>
     nulled x v \<or>
     ((field x ''$ref'' = JUndef \<or> follow (str_val (field x ''$ref'')) v) \<and>
      (field x ''const'' = JUndef \<or> json_same (field x ''const'') v) \<and>
      (field x ''enum'' = JUndef \<or> some_branch json_same (arr_items (field x ''enum'')) v) \<and>
      (field x ''anyOf'' = JUndef \<or> some_branch ok (arr_items (field x ''anyOf'')) v) \<and>
      (field x ''oneOf'' = JUndef \<or> one_branch ok (arr_items (field x ''oneOf'')) v) \<and>
      (field x ''allOf'' = JUndef \<or> every_branch ok (arr_items (field x ''allOf'')) v) \<and>
      (schema_types x = [] \<or> list_ex (has_type v) (schema_types x)) \<and>
      keywords_meet vp ok x v)"

definition schema_target :: "jsval \<Rightarrow> definition_map \<Rightarrow> jstring \<Rightarrow> jsval option" where
  "schema_target whole defs name = (if name = js ''#'' then Some whole else map_option de_schema (jm_get defs name))"

lemma array_meets_cong:
  assumes "\<And>p y. size p < size x \<Longrightarrow> ok p y = ok' p y"
  shows "array_meets ok x ys = array_meets ok' x ys"
proof -
  have "list_all (\<lambda>(p, y). ok p y) (zip ps zs) = list_all (\<lambda>(p, y). ok' p y) (zip ps zs)"
    if "\<And>p. p \<in> set ps \<Longrightarrow> size p < size x" for ps zs
  proof (rule list_all_cong [OF refl])
    fix py
    assume "py \<in> set (zip ps zs)"
    then have "fst py \<in> set ps" using set_zip_leftD [of "fst py" "snd py" ps zs] by simp
    then show "(case py of (p, y) \<Rightarrow> ok p y) = (case py of (p, y) \<Rightarrow> ok' p y)"
      using that assms by (simp add: case_prod_unfold)
  qed
  moreover have "size p < size x" if p: "p \<in> set (arr_items (field x ''prefixItems''))" for p
  proof -
    from p have "field x ''prefixItems'' \<noteq> JUndef" by auto
    from size_item [OF p] size_field_of [OF this] show ?thesis by simp
  qed
  moreover have "field x ''items'' \<noteq> JUndef \<Longrightarrow> ok (field x ''items'') = ok' (field x ''items'')"
    using size_field_of assms by (auto simp: fun_eq_iff)
  ultimately show ?thesis unfolding array_meets_def by (cases "field x ''items'' = JUndef") simp_all
qed

lemma object_meets_cong:
  assumes "\<And>p y. size p < size x \<Longrightarrow> ok p y = ok' p y"
  shows "object_meets ok x fs = object_meets ok' x fs"
proof -
  have "size p < size x" if p: "(k, p) \<in> set (obj_fields (field x ''properties''))" for k p
  proof -
    from p have "field x ''properties'' \<noteq> JUndef" by auto
    from size_field [OF p] size_field_of [OF this] show ?thesis by simp
  qed
  then have "list_all (\<lambda>(k, p). case map_of fs k of None \<Rightarrow> True | Some y \<Rightarrow> ok p y) (obj_fields (field x ''properties'')) =
      list_all (\<lambda>(k, p). case map_of fs k of None \<Rightarrow> True | Some y \<Rightarrow> ok' p y) (obj_fields (field x ''properties''))"
    by (intro list_all_cong refl) (auto simp: assms split: option.split)
  moreover have "field x ''additionalProperties'' \<noteq> JUndef \<Longrightarrow> ok (field x ''additionalProperties'') = ok' (field x ''additionalProperties'')"
    using size_field_of assms by (auto simp: fun_eq_iff)
  ultimately show ?thesis
    unfolding object_meets_def by (cases "field x ''additionalProperties'' = JUndef") simp_all
qed

lemma branches_cong:
  assumes "\<And>p y. size p < size x \<Longrightarrow> ok p y = ok' p y"
  shows "some_branch ok (arr_items (field x keyword)) v = some_branch ok' (arr_items (field x keyword)) v"
    "one_branch ok (arr_items (field x keyword)) v = one_branch ok' (arr_items (field x keyword)) v"
    "every_branch ok (arr_items (field x keyword)) v = every_branch ok' (arr_items (field x keyword)) v"
proof -
  have *: "ok p v = ok' p v" if p: "p \<in> set (arr_items (field x keyword))" for p
  proof -
    from p have "field x keyword \<noteq> JUndef" by auto
    from size_item [OF p] size_field_of [OF this] show ?thesis by (intro assms) simp
  qed
  show "some_branch ok (arr_items (field x keyword)) v = some_branch ok' (arr_items (field x keyword)) v"
    using * by (auto simp: some_branch_def list_ex_iff)
  show "one_branch ok (arr_items (field x keyword)) v = one_branch ok' (arr_items (field x keyword)) v"
    using * by (simp add: one_branch_def cong: filter_cong)
  show "every_branch ok (arr_items (field x keyword)) v = every_branch ok' (arr_items (field x keyword)) v"
    using * by (auto simp: every_branch_def list_all_iff)
qed

lemma keywords_meet_cong:
  assumes "\<And>p y. size p < size x \<Longrightarrow> ok p y = ok' p y"
  shows "keywords_meet vp ok x v = keywords_meet vp ok' x v"
  using array_meets_cong [of x ok ok'] object_meets_cong [of x ok ok'] assms
  by (simp add: keywords_meet_def split: jsval.split)

lemma schema_meaning_cong [fundef_cong]:
  assumes "x = x'" "v = v'" "\<And>s w. follow s w = follow' s w" "\<And>p y. size p < size x' \<Longrightarrow> ok p y = ok' p y"
  shows "schema_meaning vp follow ok x v = schema_meaning vp follow' ok' x' v'"
proof -
  have "follow = follow'" using assms(3) by (simp add: fun_eq_iff)
  then show ?thesis
    using branches_cong [of x' ok ok', OF assms(4)] keywords_meet_cong [of x' ok ok', OF assms(4)]
    by (simp add: schema_meaning_def assms(1,2))
qed

function schema_admits ::
  "validation_platform \<Rightarrow> (jstring \<Rightarrow> jstring option) \<Rightarrow> jsval \<Rightarrow> definition_map \<Rightarrow> nat \<Rightarrow> admits" where
  "schema_admits vp decode whole defs k x v =
     (if is_boolean x then x = JBool True
      else
        schema_meaning vp
          (\<lambda>reference w.
             case k of
               0 \<Rightarrow> False
             | Suc k' \<Rightarrow>
                 (case decodeReference decode reference [] of
                    Inl _ \<Rightarrow> False
                  | Inr name \<Rightarrow>
                      (case schema_target whole defs name of
                         None \<Rightarrow> False
                       | Some y \<Rightarrow> schema_admits vp decode whole defs k' y w)))
          (\<lambda>p y. schema_admits vp decode whole defs k p y) x v)"
  by pat_completeness auto
termination
  by (relation "measures [\<lambda>(_, _, _, _, k, _, _). k, \<lambda>(_, _, _, _, _, x, _). size x]") auto

declare schema_admits.simps [simp del]

section \<open>Plans\<close>

definition kind_meaning :: "validation_platform \<Rightarrow> (jstring \<Rightarrow> jsval \<Rightarrow> bool) \<Rightarrow> admits \<Rightarrow> jsval \<Rightarrow> jsval \<Rightarrow> bool" where
  "kind_meaning vp follow ok x v =
     (let kind = field x ''kind'' in
      if kind = jstr ''any'' then True
      else if kind = jstr ''null'' then v = JNull
      else if kind = jstr ''boolean'' then is_boolean v
      else if kind = jstr ''string'' then (case v of JStr s \<Rightarrow> string_meets vp x s | _ \<Rightarrow> False)
      else if kind = jstr ''number'' then (case v of JNum n \<Rightarrow> num_finite n \<and> number_meets x n | _ \<Rightarrow> False)
      else if kind = jstr ''integer'' then
        (case v of JNum n \<Rightarrow> num_finite n \<and> num_is_integer n \<and> number_meets x n | _ \<Rightarrow> False)
      else if kind = jstr ''literal'' then json_same (field x ''value'') v
      else if kind = jstr ''enum'' then some_branch json_same (arr_items (field x ''values'')) v
      else if kind = jstr ''array'' then (case v of JArr _ ys \<Rightarrow> array_meets ok x ys | _ \<Rightarrow> False)
      else if kind = jstr ''object'' then (case v of JObj _ fs \<Rightarrow> object_meets ok x fs | _ \<Rightarrow> False)
      else if kind = jstr ''union'' then some_branch ok (arr_items (field x ''anyOf'')) v
      else if kind = jstr ''oneOf'' then one_branch ok (arr_items (field x ''anyOf'')) v
      else if kind = jstr ''intersection'' then every_branch ok (arr_items (field x ''allOf'')) v
      else if kind = jstr ''ref'' then follow (str_val (field x ''ref'')) v
      else False)"

definition plan_target :: "jsval \<Rightarrow> (jstring, jsval) jmap \<Rightarrow> jstring \<Rightarrow> jsval option" where
  "plan_target whole plans name = (if name = js ''#'' then Some whole else jm_get plans name)"

lemma kind_meaning_cong:
  assumes "\<And>s w. follow s w = follow' s w" "\<And>p y. size p < size x \<Longrightarrow> ok p y = ok' p y"
  shows "kind_meaning vp follow ok x v = kind_meaning vp follow' ok' x v"
  using array_meets_cong [of x ok ok'] object_meets_cong [of x ok ok'] branches_cong [of x ok ok'] assms
  by (simp add: kind_meaning_def Let_def split: jsval.split)

definition plan_meaning :: "validation_platform \<Rightarrow> (jstring \<Rightarrow> jsval \<Rightarrow> bool) \<Rightarrow> admits \<Rightarrow> jsval \<Rightarrow> jsval \<Rightarrow> bool" where
  "plan_meaning vp follow ok x v \<longleftrightarrow> nulled x v \<or> kind_meaning vp follow ok x v"

lemma plan_meaning_cong [fundef_cong]:
  assumes "x = x'" "v = v'" "\<And>s w. follow s w = follow' s w" "\<And>p y. size p < size x' \<Longrightarrow> ok p y = ok' p y"
  shows "plan_meaning vp follow ok x v = plan_meaning vp follow' ok' x' v'"
  using kind_meaning_cong [of follow follow' x' ok ok', OF assms(3,4)] by (simp add: plan_meaning_def assms(1,2))

function plan_admits :: "validation_platform \<Rightarrow> jsval \<Rightarrow> (jstring, jsval) jmap \<Rightarrow> nat \<Rightarrow> admits" where
  "plan_admits vp whole plans k x v =
     (if is_boolean x then x = JBool True
      else
        plan_meaning vp
          (\<lambda>reference w.
             case k of
               0 \<Rightarrow> False
             | Suc k' \<Rightarrow>
                 (case plan_target whole plans (normalizeReference vp reference) of
                    None \<Rightarrow> False
                  | Some y \<Rightarrow> plan_admits vp whole plans k' y w))
          (\<lambda>p y. plan_admits vp whole plans k p y) x v)"
  by pat_completeness auto
termination
  by (relation "measures [\<lambda>(_, _, _, k, _, _). k, \<lambda>(_, _, _, _, x, _). size x]") auto

declare plan_admits.simps [simp del]

end
