(* ===== verification/Codegen_Preserves.thy ===== *)
theory Codegen_Preserves
  imports Codegen_Meaning
begin

text \<open>
  The compiler from schemas to plans preserves the meaning of what it accepts: \<open>compileNode_preserves\<close>.
  \<open>agrees\<close> is the induction hypothesis that the lemmas about the parts of a node share.
\<close>

named_theorems plan_fields \<open>fields of generated plan objects\<close>

section \<open>Fields of generated plans\<close>

lemma map_of_js: "map_of (map (\<lambda>(k, v). (js k, v)) fs) (js n) = map_of fs n"
  by (induction fs) auto

definition opt_field :: "jsval option \<Rightarrow> jsval" where
  "opt_field o' = (case o' of None \<Rightarrow> JUndef | Some x \<Rightarrow> x)"

lemma opt_field_simps [simp, plan_fields]: "opt_field None = JUndef" "opt_field (Some x) = x"
  by (simp_all add: opt_field_def)

lemma field_plan_obj [plan_fields]: "field (plan_obj fs) n = opt_field (map_of fs n)"
  by (simp add: field_def plan_obj_def map_of_js opt_field_def split: option.split)

lemma map_of_optional [plan_fields]: "map_of (optional name v) n = (if n = name then v else None)"
  by (auto simp: optional_def split: option.split)

lemma map_of_commonFields [plan_fields]:
  "map_of (commonFields schema) n =
     (if n = ''nullable'' \<and> field schema ''nullable'' = JBool True then Some (JBool True) else None)"
  by (auto simp: commonFields_def)

declare map_add_def [plan_fields]

lemma is_record_plan_obj [simp]: "is_record (plan_obj fs)"
  by (simp add: plan_obj_def)

lemma integerValue_field: "integerValue v path = Inr r \<Longrightarrow> opt_field r = v"
  by (auto simp: integerValue_def fail_def split: jsval.splits if_splits)

lemma numberValue_field: "numberValue v path = Inr r \<Longrightarrow> opt_field r = v"
  by (auto simp: numberValue_def fail_def split: jsval.splits if_splits)

lemma stringValue_field: "stringValue v path = Inr r \<Longrightarrow> opt_field (map_option JStr r) = v"
  by (auto simp: stringValue_def fail_def split: jsval.splits)

lemma jstr_eq [simp]: "jstr a = jstr b \<longleftrightarrow> a = b" "JStr s = jstr b \<longleftrightarrow> s = js b" "jstr b = JStr s \<longleftrightarrow> s = js b"
  by (auto simp: jstr_def)

section \<open>Simple types\<close>

lemma meets_same_fields:
  assumes "field x ''minLength'' = field y ''minLength''" "field x ''maxLength'' = field y ''maxLength''"
    "field x ''pattern'' = field y ''pattern''" "field x ''format'' = field y ''format''"
  shows "string_meets vp x s = string_meets vp y s"
  by (simp add: string_meets_def assms)

lemma optional_field_back: "opt_field r = v \<Longrightarrow> opt_field (case r of None \<Rightarrow> None | Some x \<Rightarrow> Some x) = v"
  by (cases r) auto

lemma compileString_fields:
  assumes "compileString cg schema path = Inr plan"
  shows "is_record plan" "field plan ''kind'' = jstr ''string''"
    "string_meets vp plan s = string_meets vp schema s" "nulled plan v = nulled schema v"
proof -
  obtain lo hi p f where *: "integerValue (field schema ''minLength'') (dotted path ''minLength'') = Inr lo"
    "integerValue (field schema ''maxLength'') (dotted path ''maxLength'') = Inr hi"
    "stringValue (field schema ''pattern'') (dotted path ''pattern'') = Inr p"
    "stringValue (field schema ''format'') (dotted path ''format'') = Inr f"
    "plan = plan_obj ([(''kind'', jstr ''string'')] @ commonFields schema @ optional ''minLength'' lo @ optional ''maxLength'' hi @
              optional ''pattern'' (map_option JStr p) @ optional ''format'' (map_option JStr f))"
    using assms by (auto simp: compileString_def)
  show "is_record plan" "field plan ''kind'' = jstr ''string''" by (simp_all add: *(5) plan_fields)
  show "nulled plan v = nulled schema v" by (auto simp: nulled_def *(5) plan_fields split: option.split)
  show "string_meets vp plan s = string_meets vp schema s"
    by (rule meets_same_fields)
      (use integerValue_field [OF *(1)] integerValue_field [OF *(2)] stringValue_field [OF *(3)] stringValue_field [OF *(4)]
        in \<open>auto simp: *(5) plan_fields split: option.splits\<close>)
qed

lemma compileNumber_fields:
  assumes "compileNumber kind schema path = Inr plan"
  shows "is_record plan" "field plan ''kind'' = jstr kind"
    "number_meets plan n = number_meets schema n" "nulled plan v = nulled schema v"
proof -
  let ?field = "\<lambda>keyword. numberValue (field schema keyword) (dotted path keyword)"
  obtain a b c d e where *: "?field ''minimum'' = Inr a" "?field ''maximum'' = Inr b" "?field ''exclusiveMinimum'' = Inr c"
    "?field ''exclusiveMaximum'' = Inr d" "?field ''multipleOf'' = Inr e"
    "plan = plan_obj ([(''kind'', jstr kind)] @ commonFields schema @ optional ''minimum'' a @ optional ''maximum'' b @
       optional ''exclusiveMinimum'' c @ optional ''exclusiveMaximum'' d @ optional ''multipleOf'' e)"
    using assms by (auto simp: compileNumber_def number_keywords_def number_field_def)
  show "is_record plan" "field plan ''kind'' = jstr kind" by (simp_all add: *(6) plan_fields)
  show "nulled plan v = nulled schema v" by (auto simp: nulled_def *(6) plan_fields split: option.split)
  have "field plan ''minimum'' = field schema ''minimum''"
    using numberValue_field [OF *(1)] by (cases a) (simp_all add: *(6) plan_fields)
  moreover have "field plan ''maximum'' = field schema ''maximum''"
    using numberValue_field [OF *(2)] by (cases b) (simp_all add: *(6) plan_fields)
  moreover have "field plan ''exclusiveMinimum'' = field schema ''exclusiveMinimum''"
    using numberValue_field [OF *(3)] by (cases c) (simp_all add: *(6) plan_fields)
  moreover have "field plan ''exclusiveMaximum'' = field schema ''exclusiveMaximum''"
    using numberValue_field [OF *(4)] by (cases d) (simp_all add: *(6) plan_fields)
  moreover have "field plan ''multipleOf'' = field schema ''multipleOf''"
    using numberValue_field [OF *(5)] by (cases e) (simp_all add: *(6) plan_fields)
  ultimately show "number_meets plan n = number_meets schema n" by (simp add: number_meets_def)
qed

section \<open>Arrays and objects\<close>

definition agrees :: "admits \<Rightarrow> admits \<Rightarrow> node_compiler \<Rightarrow> jsval \<Rightarrow> bool" where
  "agrees padm sadm rec schema \<longleftrightarrow>
     (\<forall>b v. padm (JBool b) v = sadm (JBool b) v) \<and> (\<forall>s p. rec s p \<noteq> Inr JUndef) \<and>
     (\<forall>s p plan v. size s < size schema \<longrightarrow> rec s p = Inr plan \<longrightarrow> padm plan v = sadm s v)"

definition same_meaning :: "admits \<Rightarrow> admits \<Rightarrow> jsval \<Rightarrow> jsval \<Rightarrow> bool" where
  "same_meaning padm sadm schema plan \<longleftrightarrow> (\<forall>v. padm plan v = sadm schema v)"

lemma agreesD: "agrees padm sadm rec schema \<Longrightarrow> size s < size schema \<Longrightarrow> rec s p = Inr plan \<Longrightarrow> same_meaning padm sadm s plan"
  by (simp add: agrees_def same_meaning_def)

lemma compile_list_agrees:
  assumes "agrees padm sadm rec schema" "compile_list rec (field schema keyword) path = Inr plans"
  shows "list_all2 (same_meaning padm sadm) (arr_items (field schema keyword)) plans"
proof -
  obtain entries where entries: "schemaArray (field schema keyword) path = Inr entries"
    "list_all2 (\<lambda>ix plan. rec (snd ix) (indexPath path (fst ix)) = Inr plan) (indexed entries) plans"
    using assms(2) by (auto simp: compile_list_def traverse_Inr)
  have "length plans = length entries" using list_all2_lengthD [OF entries(2)] by (simp add: indexed_def)
  moreover have "same_meaning padm sadm (entries ! i) (plans ! i)" if "i < length entries" for i
  proof (rule agreesD [OF assms(1)])
    show "rec (entries ! i) (indexPath path i) = Inr (plans ! i)"
      using list_all2_nthD [OF entries(2), of i] that by (simp add: indexed_def)
    have i: "entries ! i \<in> set (arr_items (field schema keyword))" using that schemaArray_Inr [OF entries(1)] by simp
    then have "field schema keyword \<noteq> JUndef" by auto
    from size_item [OF i] size_field_of [OF this] show "size (entries ! i) < size schema" by simp
  qed
  ultimately show ?thesis using schemaArray_Inr [OF entries(1)] by (auto simp: list_all2_conv_all_nth)
qed

lemma compile_single_agrees:
  assumes "agrees padm sadm rec schema" "compile_single rec schema path keyword = Inr out"
  shows "field schema keyword = JUndef \<and> out = [] \<or>
    field schema keyword \<noteq> JUndef \<and>
    (\<exists>plan. out = [(keyword, plan)] \<and> plan \<noteq> JUndef \<and> same_meaning padm sadm (field schema keyword) plan)"
proof (cases "field schema keyword = JUndef")
  case False
  show ?thesis
  proof (cases "is_boolean (field schema keyword)")
    case True
    then obtain b where "field schema keyword = JBool b" by (cases "field schema keyword") auto
    with assms show ?thesis by (auto simp: compile_single_def agrees_def same_meaning_def)
  next
    case nb: False
    with False assms(2) obtain plan where plan: "rec (field schema keyword) (dotted path keyword) = Inr plan"
      "out = [(keyword, plan)]" by (auto simp: compile_single_def)
    have "same_meaning padm sadm (field schema keyword) plan" by (rule agreesD [OF assms(1) size_field_of [OF False] plan(1)])
    moreover have "plan \<noteq> JUndef" using assms(1) plan(1) by (auto simp: agrees_def)
    ultimately show ?thesis using False plan(2) by simp
  qed
qed (use assms(2) in \<open>simp add: compile_single_def\<close>)

lemma zip_same_meaning:
  "list_all2 (same_meaning padm sadm) ss ps \<Longrightarrow>
     list_all (\<lambda>(p, y). padm p y) (zip ps ys) = list_all (\<lambda>(s, y). sadm s y) (zip ss ys)"
proof (induction ss ps arbitrary: ys rule: list_all2_induct)
  case (Cons s ss p ps)
  then show ?case by (cases ys) (auto simp: same_meaning_def)
qed simp

lemma compileArray_fields:
  assumes "agrees padm sadm rec schema" "compileArray rec schema path = Inr plan"
  shows "is_record plan" "field plan ''kind'' = jstr ''array''"
    "array_meets padm plan ys = array_meets sadm schema ys" "nulled plan v = nulled schema v"
proof -
  obtain items prefixes lo hi where *: "compile_single rec schema path ''items'' = Inr items"
    "(if field schema ''prefixItems'' = JUndef then Inr []
              else andThen (compile_list rec (field schema ''prefixItems'') (dotted path ''prefixItems'')) (\<lambda>plans.
                     Inr [(''prefixItems'', JArr 0 plans)])) = Inr prefixes"
    "integerValue (field schema ''minItems'') (dotted path ''minItems'') = Inr lo"
    "integerValue (field schema ''maxItems'') (dotted path ''maxItems'') = Inr hi"
    "plan = plan_obj ([(''kind'', jstr ''array'')] @ commonFields schema @ items @ prefixes @
              optional ''minItems'' lo @ optional ''maxItems'' hi)"
    using assms(2) by (auto simp: compileArray_def)
  obtain plans where plans: "list_all2 (same_meaning padm sadm) (arr_items (field schema ''prefixItems'')) plans"
    "arr_items (opt_field (map_of prefixes ''prefixItems'')) = plans" "\<forall>n. n \<noteq> ''prefixItems'' \<longrightarrow> map_of prefixes n = None"
  proof (cases "field schema ''prefixItems'' = JUndef")
    case True
    then show ?thesis using *(2) that [of "[]"] by simp
  next
    case False
    then obtain plans where "compile_list rec (field schema ''prefixItems'') (dotted path ''prefixItems'') = Inr plans"
      "prefixes = [(''prefixItems'', JArr 0 plans)]" using *(2) by auto
    with compile_list_agrees [OF assms(1) this(1)] that [of plans] show ?thesis by simp
  qed
  have items: "\<forall>n. n \<noteq> ''items'' \<longrightarrow> map_of items n = None"
    "(opt_field (map_of items ''items'') = JUndef) = (field schema ''items'' = JUndef)"
    "field schema ''items'' \<noteq> JUndef \<Longrightarrow> padm (opt_field (map_of items ''items'')) = sadm (field schema ''items'')"
    using compile_single_agrees [OF assms(1) *(1)] by (auto simp: same_meaning_def)
  show "is_record plan" "field plan ''kind'' = jstr ''array''" by (simp_all add: *(5) plan_fields)
  show "nulled plan v = nulled schema v" using plans(3) items(1) by (auto simp: nulled_def *(5) plan_fields split: option.split)
  have "field plan ''items'' = opt_field (map_of items ''items'')"
    using plans(3) by (simp add: *(5) plan_fields split: option.split)
  moreover have "field plan ''prefixItems'' = opt_field (map_of prefixes ''prefixItems'')"
    using items(1) by (simp add: *(5) plan_fields split: option.split)
  moreover have "field plan ''minItems'' = field schema ''minItems''" "field plan ''maxItems'' = field schema ''maxItems''"
    using items(1) plans(3) integerValue_field [OF *(3)] integerValue_field [OF *(4)]
    by (auto simp: *(5) plan_fields split: option.splits)
  ultimately show "array_meets padm plan ys = array_meets sadm schema ys"
    using zip_same_meaning [OF plans(1), of ys] list_all2_lengthD [OF plans(1)] items(2,3) plans(2)
    by (cases "field schema ''items'' = JUndef") (simp_all add: array_meets_def)
qed

lemma in_obj_insert: "set (obj_insert k v ob) = insert (k, v) (set ob)"
  by (induction k v ob rule: obj_insert.induct) (auto split: option.split)

lemma set_build_object: "set (build_object kvs) = set kvs"
proof -
  have "set (foldl (\<lambda>ob (k, v). obj_insert k v ob) ob kvs) = set ob \<union> set kvs" for ob
    by (induction kvs arbitrary: ob) (auto simp: in_obj_insert)
  from this [of "[]"] show ?thesis by (simp add: build_object_def)
qed

lemma required_loop_Inr:
  "required_loop path items seen = Inr names \<Longrightarrow> names = seen @ map (str_val \<circ> snd) items"
proof (induction path items seen rule: required_loop.induct)
  case (2 path index item rest seen)
  then show ?case by (auto simp: fail_keyword_def split: jsval.splits if_splits)
qed simp

definition related_fields :: "admits \<Rightarrow> admits \<Rightarrow> jsval jobj \<Rightarrow> jsval jobj \<Rightarrow> bool" where
  "related_fields padm sadm ss ps \<longleftrightarrow>
     (\<forall>(k, s)\<in>set ss. \<exists>p. (k, p) \<in> set ps \<and> same_meaning padm sadm s p) \<and>
     (\<forall>(k, p)\<in>set ps. \<exists>s. (k, s) \<in> set ss \<and> same_meaning padm sadm s p)"

lemma related_names: "related_fields padm sadm ss ps \<Longrightarrow> fst ` set ps = fst ` set ss"
  by (force simp: related_fields_def)

lemma related_forall:
  assumes "related_fields padm sadm ss ps"
  shows "list_all (\<lambda>(k, p). case map_of fs k of None \<Rightarrow> True | Some y \<Rightarrow> padm p y) ps =
    list_all (\<lambda>(k, s). case map_of fs k of None \<Rightarrow> True | Some y \<Rightarrow> sadm s y) ss"
  using assms unfolding related_fields_def same_meaning_def list_all_iff by (fastforce split: option.splits)

lemma related_fields_all2:
  "list_all2 (\<lambda>kx kp. fst kp = fst kx \<and> same_meaning padm sadm (snd kx) (snd kp)) ss ps \<Longrightarrow> related_fields padm sadm ss ps"
proof (induction rule: list_all2_induct)
  case (Cons kx ss kp ps)
  then show ?case unfolding related_fields_def by (cases kx; cases kp) auto
qed (simp add: related_fields_def)

lemma compile_properties_agrees:
  assumes "agrees padm sadm rec schema" "compile_properties rec schema path = Inr out"
  shows "related_fields padm sadm (obj_fields (field schema ''properties'')) (obj_fields (opt_field (map_of out ''properties'')))"
    "\<forall>n. n \<noteq> ''properties'' \<longrightarrow> map_of out n = None"
proof -
  have "related_fields padm sadm (obj_fields (field schema ''properties'')) (obj_fields (opt_field (map_of out ''properties''))) \<and>
    (\<forall>n. n \<noteq> ''properties'' \<longrightarrow> map_of out n = None)"
  proof (cases "field schema ''properties'' = JUndef")
    case True
    then show ?thesis using assms(2) by (simp add: compile_properties_def related_fields_def)
  next
    case False
    then obtain entries plans where *: "map_entries schema path ''properties'' = Inr entries"
      "traverse (\<lambda>kx. andThen (rec (snd kx) (childPath (dotted path ''properties'') (fst kx)))
                                  (\<lambda>plan. Inr (fst kx, plan))) entries = Inr plans"
      "out = [(''properties'', JObj 0 (build_object plans))]"
      using assms(2) by (auto simp: compile_properties_def)
    have entries: "set entries = set (obj_fields (field schema ''properties''))"
      using *(1) False by (auto simp: map_entries_def dest: schemaMap_Inr)
    have "list_all2 (\<lambda>kx kp. fst kp = fst kx \<and> same_meaning padm sadm (snd kx) (snd kp)) entries plans"
      using *(2) unfolding traverse_Inr
    proof (rule list.rel_mono_strong)
      fix kx kp
      assume "kx \<in> set entries"
        "andThen (rec (snd kx) (childPath (dotted path ''properties'') (fst kx))) (\<lambda>plan. Inr (fst kx, plan)) = Inr kp"
      with agreesD [OF assms(1) map_entries_size [OF *(1) this(1)]]
      show "fst kp = fst kx \<and> same_meaning padm sadm (snd kx) (snd kp)" by auto
    qed
    then have "related_fields padm sadm entries plans" by (rule related_fields_all2)
    then show ?thesis using *(3) entries by (simp add: related_fields_def set_build_object)
  qed
  then show "related_fields padm sadm (obj_fields (field schema ''properties'')) (obj_fields (opt_field (map_of out ''properties'')))"
    "\<forall>n. n \<noteq> ''properties'' \<longrightarrow> map_of out n = None" by blast+
qed

lemma compile_required_fields:
  assumes "compile_required schema path = Inr out"
  shows "str_val ` set (arr_items (opt_field (map_of out ''required''))) = str_val ` set (arr_items (field schema ''required''))"
    "\<forall>n. n \<noteq> ''required'' \<longrightarrow> map_of out n = None"
proof -
  have "str_val ` set (arr_items (opt_field (map_of out ''required''))) = str_val ` set (arr_items (field schema ''required'')) \<and>
    (\<forall>n. n \<noteq> ''required'' \<longrightarrow> map_of out n = None)"
  proof (cases "field schema ''required'' = JUndef")
    case False
    then obtain names where names: "required_loop (dotted path ''required'') (indexed (arr_items (field schema ''required''))) [] = Inr names"
      "out = [(''required'', JArr 0 (map JStr (sort names)))]"
      using assms by (auto simp: compile_required_def Let_def fail_keyword_def split: if_splits)
    have "map snd (indexed (arr_items (field schema ''required''))) = arr_items (field schema ''required'')"
      by (simp add: indexed_def)
    moreover have "names = map str_val (map snd (indexed (arr_items (field schema ''required''))))"
      using required_loop_Inr [OF names(1)] by simp
    ultimately have "set names = str_val ` set (arr_items (field schema ''required''))" by simp
    then show ?thesis by (simp add: names(2) image_image)
  qed (use assms in \<open>simp add: compile_required_def\<close>)
  then show "str_val ` set (arr_items (opt_field (map_of out ''required''))) = str_val ` set (arr_items (field schema ''required''))"
    "\<forall>n. n \<noteq> ''required'' \<longrightarrow> map_of out n = None" by blast+
qed

lemma list_all_names: "list_all (\<lambda>r. str_val r \<in> A) xs = (str_val ` set xs \<subseteq> A)"
  by (auto simp: list_all_iff)

lemma compileObject_fields:
  assumes "agrees padm sadm rec schema" "compileObject rec schema path = Inr plan"
  shows "is_record plan" "field plan ''kind'' = jstr ''object''"
    "object_meets padm plan fs = object_meets sadm schema fs" "nulled plan v = nulled schema v"
proof -
  obtain properties required additional where *: "compile_properties rec schema path = Inr properties"
    "compile_required schema path = Inr required"
    "compile_single rec schema path ''additionalProperties'' = Inr additional"
    "plan = plan_obj ([(''kind'', jstr ''object'')] @ commonFields schema @ properties @ required @ additional)"
    using assms(2) by (auto simp: compileObject_def)
  note p = compile_properties_agrees [OF assms(1) *(1)] and r = compile_required_fields [OF *(2)]
  have a: "\<forall>n. n \<noteq> ''additionalProperties'' \<longrightarrow> map_of additional n = None"
    "(opt_field (map_of additional ''additionalProperties'') = JUndef) = (field schema ''additionalProperties'' = JUndef)"
    "field schema ''additionalProperties'' \<noteq> JUndef \<Longrightarrow>
       padm (opt_field (map_of additional ''additionalProperties'')) = sadm (field schema ''additionalProperties'')"
    using compile_single_agrees [OF assms(1) *(3)] by (auto simp: same_meaning_def)
  show "is_record plan" "field plan ''kind'' = jstr ''object''" by (simp_all add: *(4) plan_fields)
  show "nulled plan v = nulled schema v"
    using p(2) r(2) a(1) by (auto simp: nulled_def *(4) plan_fields split: option.split)
  have fp: "field plan ''properties'' = opt_field (map_of properties ''properties'')"
    using r(2) a(1) by (simp add: *(4) plan_fields split: option.split)
  have fr: "field plan ''required'' = opt_field (map_of required ''required'')"
    using p(2) a(1) by (simp add: *(4) plan_fields split: option.split)
  have fa: "field plan ''additionalProperties'' = opt_field (map_of additional ''additionalProperties'')"
    using p(2) r(2) by (simp add: *(4) plan_fields split: option.split)
  have "list_all (\<lambda>r. str_val r \<in> fst ` set fs) (arr_items (field plan ''required'')) =
      list_all (\<lambda>r. str_val r \<in> fst ` set fs) (arr_items (field schema ''required''))"
    using r(1) by (simp only: fr list_all_names)
  then show "object_meets padm plan fs = object_meets sadm schema fs"
    using a(2,3) related_forall [OF p(1), of fs] related_names [OF p(1)]
    by (cases "field schema ''additionalProperties'' = JUndef") (simp_all add: object_meets_def fp fa)
qed

section \<open>Nodes\<close>

text \<open>\<open>follow\<close> is what following a reference means, the same for schemas and plans.\<close>

lemma compileExplicitType_meaning:
  assumes "agrees padm sadm rec schema" "compileExplicitType cg rec t schema path = Inr plan"
  shows "is_record plan" "nulled plan v = nulled schema v"
    "kind_meaning vp follow padm plan v = (has_type v (JStr t) \<and> keywords_meet vp sadm schema v)"
proof -
  consider "t = js ''null''" "plan = plan_obj ([(''kind'', jstr ''null'')] @ commonFields schema)"
    | "t = js ''boolean''" "plan = plan_obj ([(''kind'', jstr ''boolean'')] @ commonFields schema)"
    | "t = js ''string''" "compileString cg schema path = Inr plan"
    | "t = js ''number''" "compileNumber ''number'' schema path = Inr plan"
    | "t = js ''integer''" "compileNumber ''integer'' schema path = Inr plan"
    | "t = js ''array''" "compileArray rec schema path = Inr plan"
    | "t = js ''object''" "compileObject rec schema path = Inr plan"
    using assms(2) by (auto simp: compileExplicitType_def fail_keyword_def split: if_splits)
  then have "is_record plan \<and> nulled plan v = nulled schema v \<and>
    kind_meaning vp follow padm plan v = (has_type v (JStr t) \<and> keywords_meet vp sadm schema v)"
  proof cases
    case 1
    then show ?thesis
      by (auto simp: plan_fields nulled_def kind_meaning_def has_type_def keywords_meet_def split: jsval.splits)
  next
    case 2
    then show ?thesis
      by (auto simp: plan_fields nulled_def kind_meaning_def has_type_def keywords_meet_def split: jsval.splits)
  next
    case 3
    with compileString_fields [OF 3(2)] show ?thesis
      by (simp add: kind_meaning_def has_type_def keywords_meet_def split: jsval.split)
  next
    case 4
    with compileNumber_fields [OF 4(2)] show ?thesis
      by (simp add: kind_meaning_def has_type_def keywords_meet_def split: jsval.split)
  next
    case 5
    with compileNumber_fields [OF 5(2)] show ?thesis
      by (simp add: kind_meaning_def has_type_def keywords_meet_def split: jsval.split)
  next
    case 6
    with compileArray_fields [OF assms(1) 6(2)] show ?thesis
      by (simp add: kind_meaning_def has_type_def keywords_meet_def split: jsval.split)
  next
    case 7
    with compileObject_fields [OF assms(1) 7(2)] show ?thesis
      by (simp add: kind_meaning_def has_type_def keywords_meet_def split: jsval.split)
  qed
  then show "is_record plan" "nulled plan v = nulled schema v"
    "kind_meaning vp follow padm plan v = (has_type v (JStr t) \<and> keywords_meet vp sadm schema v)" by blast+
qed

text \<open>How the meaning of plan objects unfolds.\<close>

definition admits_plans :: "validation_platform \<Rightarrow> (jstring \<Rightarrow> jsval \<Rightarrow> bool) \<Rightarrow> admits \<Rightarrow> bool" where
  "admits_plans vp follow padm \<longleftrightarrow>
     (\<forall>plan v. is_record plan \<longrightarrow> padm plan v = (nulled plan v \<or> kind_meaning vp follow padm plan v))"

lemma admits_plansD:
  "admits_plans vp follow padm \<Longrightarrow> is_record plan \<Longrightarrow> padm plan v = (nulled plan v \<or> kind_meaning vp follow padm plan v)"
  by (simp add: admits_plans_def)

definition parts_ok :: "admits \<Rightarrow> jsval list \<Rightarrow> jsval \<Rightarrow> bool" where
  "parts_ok padm parts v \<longleftrightarrow> (\<forall>p\<in>set parts. padm p v)"

lemma parts_ok_simps [simp]:
  "parts_ok padm [] v" "parts_ok padm [p] v = padm p v" "parts_ok padm (ps @ qs) v = (parts_ok padm ps v \<and> parts_ok padm qs v)"
  by (auto simp: parts_ok_def)

lemma schema_types_cases: "schema_types schema = [] \<or> (\<exists>t ts. schema_types schema = t # ts)"
  by (cases "schema_types schema") auto

lemma type_plan_meaning:
  assumes "agrees padm sadm rec schema" "type_plan cg rec schema path (i, t) = Inr plan"
  shows "is_record plan" "nulled plan v = nulled schema v"
    "kind_meaning vp follow padm plan v = (has_type v t \<and> keywords_meet vp sadm schema v)"
proof -
  obtain name p where "t = JStr name" "compileExplicitType cg rec name schema p = Inr plan"
    using assms(2) by (auto simp: type_plan_def Let_def fail_keyword_def split: jsval.splits)
  with compileExplicitType_meaning [OF assms(1) this(2)]
  show "is_record plan" "nulled plan v = nulled schema v"
    "kind_meaning vp follow padm plan v = (has_type v t \<and> keywords_meet vp sadm schema v)" by simp_all
qed

lemma type_plans_meaning:
  assumes "agrees padm sadm rec schema" "admits_plans vp follow padm" "\<not> nulled schema v"
    "traverse (type_plan cg rec schema path) its = Inr plans"
  shows "list_ex (\<lambda>p. padm p v) plans = (list_ex (has_type v) (map snd its) \<and> keywords_meet vp sadm schema v)"
    "\<forall>p\<in>set plans. is_record p"
proof -
  have "list_ex (\<lambda>p. padm p v) plans = (list_ex (has_type v) (map snd its) \<and> keywords_meet vp sadm schema v) \<and>
    (\<forall>p\<in>set plans. is_record p)"
    using assms(4)
  proof (induction its arbitrary: plans)
    case (Cons it its)
    then obtain p ps where *: "plans = p # ps" "type_plan cg rec schema path it = Inr p"
      "traverse (type_plan cg rec schema path) its = Inr ps" by auto
    obtain i t where it: "it = (i, t)" by (cases it)
    note m = type_plan_meaning [OF assms(1) *(2) [unfolded it]]
    show ?case
      using Cons.IH [OF *(3)] admits_plansD [OF assms(2) m(1), of v] m(2) [of v] m(3) [of vp follow v] m(1) assms(3)
      by (auto simp: *(1) it)
  qed simp
  then show "list_ex (\<lambda>p. padm p v) plans = (list_ex (has_type v) (map snd its) \<and> keywords_meet vp sadm schema v)"
    "\<forall>p\<in>set plans. is_record p" by blast+
qed

lemma no_typed_keywords:
  assumes "find (\<lambda>keyword. field schema keyword \<noteq> JUndef) typed_keywords = None"
  shows "keywords_meet vp ok schema v"
proof -
  have "field schema keyword = JUndef" if "keyword \<in> set typed_keywords" for keyword
    using assms that by (auto simp: find_None_iff)
  then show ?thesis
    by (simp add: typed_keywords_def keywords_meet_def string_meets_def number_meets_def array_meets_def object_meets_def
        count_of_def number_of_def meets_def split: jsval.split)
qed

lemma type_part_meaning:
  assumes "agrees padm sadm rec schema" "admits_plans vp follow padm" "\<not> nulled schema v"
    "type_part cg rec schema path = Inr parts"
  shows "parts_ok padm parts v =
      ((schema_types schema = [] \<or> list_ex (has_type v) (schema_types schema)) \<and> keywords_meet vp sadm schema v)"
    "\<forall>p\<in>set parts. is_record p"
proof -
  have "parts_ok padm parts v =
      ((schema_types schema = [] \<or> list_ex (has_type v) (schema_types schema)) \<and> keywords_meet vp sadm schema v) \<and>
    (\<forall>p\<in>set parts. is_record p)"
  proof (cases "schema_types schema = []")
    case True
    then have "find (\<lambda>keyword. field schema keyword \<noteq> JUndef) typed_keywords = None" "parts = []"
      using assms(4) by (auto simp: type_part_def unsupported_def split: option.splits)
    with no_typed_keywords [OF this(1)] True show ?thesis by simp
  next
    case False
    then obtain plans where plans: "traverse (type_plan cg rec schema path) (indexed (schema_types schema)) = Inr plans"
      "parts = [case plans of [plan] \<Rightarrow> plan | _ \<Rightarrow> plan_obj [(''kind'', jstr ''union''), (''anyOf'', JArr 0 plans)]]"
      using assms(4) by (auto simp: type_part_def Let_def)
    note m = type_plans_meaning [OF assms(1-3) plans(1)]
    have types: "map snd (indexed (schema_types schema)) = schema_types schema" by (simp add: indexed_def)
    show ?thesis
    proof (cases "\<exists>plan. plans = [plan]")
      case True
      with m False show ?thesis by (auto simp: plans(2) types)
    next
      case nsingle: False
      let ?union = "plan_obj [(''kind'', jstr ''union''), (''anyOf'', JArr 0 plans)]"
      have "parts = [?union]" using nsingle by (auto simp: plans(2) split: list.splits)
      moreover have "padm ?union v = list_ex (\<lambda>p. padm p v) plans"
        by (subst admits_plansD [OF assms(2)]) (simp_all add: plan_fields nulled_def kind_meaning_def some_branch_def)
      ultimately show ?thesis using m(1) False by (simp add: types)
    qed
  qed
  then show "parts_ok padm parts v =
      ((schema_types schema = [] \<or> list_ex (has_type v) (schema_types schema)) \<and> keywords_meet vp sadm schema v)"
    "\<forall>p\<in>set parts. is_record p" by blast+
qed

lemma same_count:
  "list_all2 (same_meaning padm sadm) ss ps \<Longrightarrow> length (filter (\<lambda>p. padm p v) ps) = length (filter (\<lambda>s. sadm s v) ss)"
  by (induction rule: list_all2_induct) (simp_all add: same_meaning_def)

lemma branch_part_meaning:
  assumes "agrees padm sadm rec schema" "admits_plans vp follow padm"
    "branch_part rec schema path keyword kind member = Inr parts"
    "(kind, member) \<in> {(''union'', ''anyOf''), (''oneOf'', ''anyOf''), (''intersection'', ''allOf'')}"
  shows "parts_ok padm parts v =
      (field schema keyword = JUndef \<or>
       (if kind = ''union'' then some_branch else if kind = ''oneOf'' then one_branch else every_branch)
         sadm (arr_items (field schema keyword)) v)"
    "\<forall>p\<in>set parts. is_record p"
proof -
  have "parts_ok padm parts v =
      (field schema keyword = JUndef \<or>
       (if kind = ''union'' then some_branch else if kind = ''oneOf'' then one_branch else every_branch)
         sadm (arr_items (field schema keyword)) v) \<and> (\<forall>p\<in>set parts. is_record p)"
  proof (cases "field schema keyword = JUndef")
    case False
    then obtain plans where plans: "compile_list rec (field schema keyword) (dotted path keyword) = Inr plans"
      "parts = [plan_obj [(''kind'', jstr kind), (member, JArr 0 plans)]]"
      using assms(3) by (auto simp: branch_part_def fail_keyword_def split: if_splits)
    have same: "list_all2 (same_meaning padm sadm) (arr_items (field schema keyword)) plans"
      by (rule compile_list_agrees [OF assms(1) plans(1)])
    have same_branches: "some_branch padm plans v = some_branch sadm (arr_items (field schema keyword)) v"
      "every_branch padm plans v = every_branch sadm (arr_items (field schema keyword)) v"
      "one_branch padm plans v = one_branch sadm (arr_items (field schema keyword)) v"
      using same_count [OF same] same
      by (auto simp: some_branch_def every_branch_def one_branch_def same_meaning_def list_all_length list_ex_length
          list_all2_conv_all_nth)
    let ?plan = "plan_obj [(''kind'', jstr kind), (member, JArr 0 plans)]"
    from assms(4) consider "kind = ''union''" "member = ''anyOf''" | "kind = ''oneOf''" "member = ''anyOf''"
      | "kind = ''intersection''" "member = ''allOf''" by blast
    then have "padm ?plan v =
        (if kind = ''union'' then some_branch else if kind = ''oneOf'' then one_branch else every_branch) padm plans v"
      by cases (simp_all add: admits_plansD [OF assms(2)] plan_fields nulled_def kind_meaning_def)
    then show ?thesis using False same_branches by (simp add: plans(2))
  qed (use assms(3) in \<open>simp add: branch_part_def\<close>)
  then show "parts_ok padm parts v =
      (field schema keyword = JUndef \<or>
       (if kind = ''union'' then some_branch else if kind = ''oneOf'' then one_branch else every_branch)
         sadm (arr_items (field schema keyword)) v)"
    "\<forall>p\<in>set parts. is_record p" by blast+
qed

lemma const_part_meaning:
  assumes "admits_plans vp follow padm"
  shows "parts_ok padm (const_part schema) v = (field schema ''const'' = JUndef \<or> json_same (field schema ''const'') v)"
    "\<forall>p\<in>set (const_part schema). is_record p"
  by (auto simp: const_part_def admits_plansD [OF assms] plan_fields nulled_def kind_meaning_def)

lemma enum_part_meaning:
  assumes "admits_plans vp follow padm" "enum_part schema path = Inr parts"
  shows "parts_ok padm parts v = (field schema ''enum'' = JUndef \<or> some_branch json_same (arr_items (field schema ''enum'')) v)"
    "\<forall>p\<in>set parts. is_record p"
  using assms(2)
  by (auto simp: enum_part_def Let_def fail_keyword_def admits_plansD [OF assms(1)] plan_fields nulled_def kind_meaning_def
      split: if_splits)

lemma ref_part_meaning:
  assumes "admits_plans vp follow padm" "ref_part cg defs schema path = Inr parts"
  shows "parts_ok padm parts v = (field schema ''$ref'' = JUndef \<or> follow (str_val (field schema ''$ref'')) v)"
    "\<forall>p\<in>set parts. is_record p"
  using assms(2)
  by (auto simp: ref_part_def fail_keyword_def admits_plansD [OF assms(1)] plan_fields nulled_def kind_meaning_def
      split: jsval.splits if_splits)

lemma node_parts_meaning:
  assumes "agrees padm sadm rec schema" "admits_plans vp follow padm" "node_parts cg defs rec schema path = Inr parts"
  shows "\<not> nulled schema v \<Longrightarrow> parts_ok padm parts v = schema_meaning vp follow sadm schema v"
    "\<forall>p\<in>set parts. is_record p"
proof -
  obtain refs enums anys ones alls types where *: "ref_part cg defs schema path = Inr refs" "enum_part schema path = Inr enums"
    "branch_part rec schema path ''anyOf'' ''union'' ''anyOf'' = Inr anys"
    "branch_part rec schema path ''oneOf'' ''oneOf'' ''anyOf'' = Inr ones"
    "branch_part rec schema path ''allOf'' ''intersection'' ''allOf'' = Inr alls"
    "type_part cg rec schema path = Inr types" "parts = refs @ const_part schema @ enums @ anys @ ones @ alls @ types"
    using assms(3) by (auto simp: node_parts_def)
  note b = branch_part_meaning [OF assms(1,2)]
  show "parts_ok padm parts v = schema_meaning vp follow sadm schema v" if "\<not> nulled schema v"
    using that ref_part_meaning(1) [OF assms(2) *(1), of v] const_part_meaning(1) [OF assms(2), of schema v]
      enum_part_meaning(1) [OF assms(2) *(2), of v] b(1) [OF *(3), of v] b(1) [OF *(4), of v] b(1) [OF *(5), of v]
      type_part_meaning(1) [OF assms(1,2) that *(6)]
    by (simp add: *(7) schema_meaning_def)
  have "\<forall>p\<in>set types. is_record p"
    using type_part_meaning(2) [OF assms(1,2) _ *(6), of JUndef] by (simp add: nulled_def)
  then show "\<forall>p\<in>set parts. is_record p"
    using ref_part_meaning(2) [OF assms(2) *(1)] const_part_meaning(2) [OF assms(2), of schema]
      enum_part_meaning(2) [OF assms(2) *(2)] b(2) [OF *(3)] b(2) [OF *(4)] b(2) [OF *(5)]
    by (auto simp: *(7))
qed

lemma combinePlans_meaning:
  assumes "admits_plans vp follow padm" "\<forall>p\<in>set parts. is_record p"
  shows "is_record (combinePlans parts)" "padm (combinePlans parts) v = parts_ok padm parts v"
proof -
  have "is_record (combinePlans parts) \<and> padm (combinePlans parts) v = parts_ok padm parts v"
  proof (cases "length parts \<le> 1")
    case True
    then consider "parts = []" | p where "parts = [p]" by (cases parts) (auto simp: le_Suc_eq)
    then show ?thesis
    proof cases
      case 1
      then show ?thesis
        by (simp add: combinePlans_def admits_plansD [OF assms(1)] plan_fields nulled_def kind_meaning_def)
    next
      case 2
      then show ?thesis using assms(2) by (simp add: combinePlans_def)
    qed
  next
    case False
    then have "combinePlans parts = plan_obj [(''kind'', jstr ''intersection''), (''allOf'', JArr 0 parts)]"
      by (auto simp: combinePlans_def split: list.splits)
    then show ?thesis
      by (simp add: admits_plansD [OF assms(1)] plan_fields nulled_def kind_meaning_def every_branch_def parts_ok_def list_all_iff)
  qed
  then show "is_record (combinePlans parts)" "padm (combinePlans parts) v = parts_ok padm parts v" by blast+
qed

lemma field_jm_set: "field (JObj i (jm_set (js k) x fs)) n = (if n = k then x else field (JObj i fs) n)"
  by (simp add: field_def map_of_jm_set)

lemma kind_meaning_same_fields:
  assumes "\<And>n. n \<noteq> ''nullable'' \<Longrightarrow> field x n = field y n"
  shows "kind_meaning vp follow ok x v = kind_meaning vp follow ok y v"
proof -
  have "string_meets vp x s = string_meets vp y s" for s by (rule meets_same_fields) (simp_all add: assms)
  moreover have "number_meets x n = number_meets y n" for n by (simp add: number_meets_def assms)
  moreover have "array_meets ok x ys = array_meets ok y ys" for ys by (simp add: array_meets_def assms)
  moreover have "object_meets ok x fs = object_meets ok y fs" for fs by (simp add: object_meets_def assms)
  moreover have "field x ''kind'' = field y ''kind''" "field x ''value'' = field y ''value''"
    "field x ''values'' = field y ''values''" "field x ''anyOf'' = field y ''anyOf''" "field x ''allOf'' = field y ''allOf''"
    "field x ''ref'' = field y ''ref''" by (simp_all add: assms)
  ultimately show ?thesis by (simp only: kind_meaning_def)
qed

lemma set_nullable_meaning:
  assumes "admits_plans vp follow padm" "is_record plan"
  shows "is_record (set_nullable schema plan)"
    "nulled schema v \<Longrightarrow> padm (set_nullable schema plan) v"
    "\<not> nulled schema v \<Longrightarrow> padm (set_nullable schema plan) v = padm plan v"
proof -
  obtain i fs where plan: "plan = JObj i fs" using assms(2) by (cases plan) auto
  let ?p = "JObj i (jm_set (js ''nullable'') (JBool True) fs)"
  show "is_record (set_nullable schema plan)" by (simp add: set_nullable_def plan)
  show "padm (set_nullable schema plan) v" if "nulled schema v"
  proof -
    have "set_nullable schema plan = ?p" using that by (simp add: set_nullable_def plan nulled_def)
    then show ?thesis using that by (simp add: admits_plansD [OF assms(1)] nulled_def field_jm_set)
  qed
  show "padm (set_nullable schema plan) v = padm plan v" if "\<not> nulled schema v"
  proof (cases "field schema ''nullable'' = JBool True")
    case True
    then have "v \<noteq> JNull" "set_nullable schema plan = ?p" using that by (simp_all add: set_nullable_def plan nulled_def)
    moreover have "kind_meaning vp follow padm ?p v = kind_meaning vp follow padm plan v"
      by (rule kind_meaning_same_fields) (simp add: plan field_jm_set)
    ultimately show ?thesis by (simp add: admits_plansD [OF assms(1)] plan nulled_def)
  qed (simp add: set_nullable_def plan)
qed

section \<open>References\<close>

lemma decodeReference_normalizes:
  assumes "decodeReference (vp_decode vp) reference path = Inr name"
  shows "normalizeReference vp reference = name"
proof (cases "reference = js ''#''")
  case True
  then show ?thesis using assms by (auto simp: decodeReference_def normalizeReference_def js_def)
next
  case False
  then show ?thesis
    using assms
    by (auto simp: decodeReference_def normalizeReference_def fail_keyword_def not_direct_def Let_def
        split: option.splits if_splits)
qed

lemma decodeReference_path: "decodeReference decode reference path = Inr name \<Longrightarrow> decodeReference decode reference [] = Inr name"
  by (auto simp: decodeReference_def fail_keyword_def not_direct_def Let_def split: option.splits if_splits)

definition follow_plan ::
  "validation_platform \<Rightarrow> jsval \<Rightarrow> (jstring, jsval) jmap \<Rightarrow> nat \<Rightarrow> jstring \<Rightarrow> jsval \<Rightarrow> bool" where
  "follow_plan vp whole plans k reference w =
     (case k of
        0 \<Rightarrow> False
      | Suc k' \<Rightarrow>
          (case plan_target whole plans (normalizeReference vp reference) of
             None \<Rightarrow> False
           | Some y \<Rightarrow> plan_admits vp whole plans k' y w))"

definition follow_schema ::
  "validation_platform \<Rightarrow> (jstring \<Rightarrow> jstring option) \<Rightarrow> jsval \<Rightarrow> definition_map \<Rightarrow> nat \<Rightarrow> jstring \<Rightarrow> jsval \<Rightarrow> bool" where
  "follow_schema vp decode whole defs k reference w =
     (case k of
        0 \<Rightarrow> False
      | Suc k' \<Rightarrow>
          (case decodeReference decode reference [] of
             Inl _ \<Rightarrow> False
           | Inr name \<Rightarrow>
               (case schema_target whole defs name of
                  None \<Rightarrow> False
                | Some y \<Rightarrow> schema_admits vp decode whole defs k' y w)))"

lemma admits_plans_plan_admits: "admits_plans vp (follow_plan vp whole plans k) (plan_admits vp whole plans k)"
  unfolding admits_plans_def
proof (intro allI impI)
  fix plan v
  assume "is_record plan"
  then have "\<not> is_boolean plan" by (cases plan) auto
  then show "plan_admits vp whole plans k plan v =
      (nulled plan v \<or> kind_meaning vp (follow_plan vp whole plans k) (plan_admits vp whole plans k) plan v)"
    by (subst plan_admits.simps) (simp add: plan_meaning_def follow_plan_def [abs_def])
qed

lemma schema_admits_record:
  "is_record schema \<Longrightarrow> schema_admits vp decode whole defs k schema v =
     schema_meaning vp (follow_schema vp decode whole defs k) (schema_admits vp decode whole defs k) schema v"
  by (subst schema_admits.simps) (cases schema; simp add: follow_schema_def [abs_def])

lemma schema_meaning_follow:
  assumes "field schema ''$ref'' \<noteq> JUndef \<Longrightarrow> follow (str_val (field schema ''$ref'')) v = follow' (str_val (field schema ''$ref'')) v"
  shows "schema_meaning vp follow ok schema v = schema_meaning vp follow' ok schema v"
  using assms by (cases "field schema ''$ref'' = JUndef") (simp_all add: schema_meaning_def)

definition tables_agree :: "codegen_platform \<Rightarrow> jsval \<Rightarrow> definition_map \<Rightarrow> jsval \<Rightarrow> (jstring, jsval) jmap \<Rightarrow> bool" where
  "tables_agree cg schema defs plan plans \<longleftrightarrow>
     (\<forall>name y. schema_target schema defs name = Some y \<longrightarrow>
        (\<exists>p path. plan_target plan plans name = Some p \<and> compileNode cg defs y path = Inr p))"

lemma ref_follow:
  assumes "tables_agree cg whole defs whole_plan plans" "cg_decode cg = vp_decode vp"
    "ref_part cg defs schema path = Inr parts" "field schema ''$ref'' \<noteq> JUndef"
    "\<And>k' y path p w. k = Suc k' \<Longrightarrow> compileNode cg defs y path = Inr p \<Longrightarrow>
       plan_admits vp whole_plan plans k' p w = schema_admits vp (vp_decode vp) whole defs k' y w"
  shows "follow_plan vp whole_plan plans k (str_val (field schema ''$ref'')) v =
    follow_schema vp (vp_decode vp) whole defs k (str_val (field schema ''$ref'')) v"
proof (cases k)
  case (Suc k')
  obtain s name where s: "field schema ''$ref'' = JStr s" "decodeReference (vp_decode vp) s (dotted path ''$ref'') = Inr name"
    "name = js ''#'' \<or> jm_has defs name"
    using assms(2-4) by (auto simp: ref_part_def fail_keyword_def split: jsval.splits if_splits)
  obtain y where y: "schema_target whole defs name = Some y"
    using s(3) that by (cases "name = js ''#''") (auto simp: schema_target_def jm_has_iff)
  then obtain p path' where p: "plan_target whole_plan plans name = Some p" "compileNode cg defs y path' = Inr p"
    using assms(1) unfolding tables_agree_def by blast
  show ?thesis
    using assms(5) [OF Suc p(2)] y p(1) decodeReference_path [OF s(2)] decodeReference_normalizes [OF s(2)]
    by (simp add: follow_plan_def follow_schema_def Suc s(1))
qed (simp add: follow_plan_def follow_schema_def)

lemma compileExplicitType_record: "compileExplicitType cg rec t schema path = Inr plan \<Longrightarrow> is_record plan"
  by (auto simp: compileExplicitType_def compileString_def compileNumber_def compileArray_def compileObject_def
      fail_keyword_def split: if_splits)

lemma type_plan_record: "type_plan cg rec schema path it = Inr plan \<Longrightarrow> is_record plan"
  by (cases it) (auto simp: type_plan_def Let_def fail_keyword_def split: jsval.splits dest: compileExplicitType_record)

lemma type_part_records:
  assumes "type_part cg rec schema path = Inr parts" "p \<in> set parts"
  shows "is_record p"
proof -
  have "schema_types schema \<noteq> []"
    using assms by (auto simp: type_part_def unsupported_def split: option.splits)
  then obtain plans where plans: "traverse (type_plan cg rec schema path) (indexed (schema_types schema)) = Inr plans"
    "parts = [case plans of [plan] \<Rightarrow> plan | _ \<Rightarrow> plan_obj [(''kind'', jstr ''union''), (''anyOf'', JArr 0 plans)]]"
    using assms(1) by (auto simp: type_part_def Let_def)
  show ?thesis
  proof (cases "\<exists>plan. plans = [plan]")
    case True
    with plans assms(2) show ?thesis by (auto simp: traverse_Inr list_all2_Cons2 dest: type_plan_record)
  next
    case False
    then have "parts = [plan_obj [(''kind'', jstr ''union''), (''anyOf'', JArr 0 plans)]]"
      by (auto simp: plans(2) split: list.splits)
    with assms(2) show ?thesis by simp
  qed
qed

lemma other_part_records:
  "ref_part cg defs schema path = Inr parts \<Longrightarrow> p \<in> set parts \<Longrightarrow> is_record p"
  "enum_part schema path = Inr parts \<Longrightarrow> p \<in> set parts \<Longrightarrow> is_record p"
  "branch_part rec schema path keyword kind member = Inr parts \<Longrightarrow> p \<in> set parts \<Longrightarrow> is_record p"
  "p \<in> set (const_part schema) \<Longrightarrow> is_record p"
  by (auto simp: ref_part_def const_part_def enum_part_def branch_part_def fail_keyword_def Let_def
      split: if_splits jsval.splits)

lemma node_parts_records:
  assumes "node_parts cg defs rec schema path = Inr parts" "p \<in> set parts"
  shows "is_record p"
proof -
  obtain refs enums anys ones alls types where *: "ref_part cg defs schema path = Inr refs" "enum_part schema path = Inr enums"
    "branch_part rec schema path ''anyOf'' ''union'' ''anyOf'' = Inr anys"
    "branch_part rec schema path ''oneOf'' ''oneOf'' ''anyOf'' = Inr ones"
    "branch_part rec schema path ''allOf'' ''intersection'' ''allOf'' = Inr alls"
    "type_part cg rec schema path = Inr types" "parts = refs @ const_part schema @ enums @ anys @ ones @ alls @ types"
    using assms(1) by (auto simp: node_parts_def)
  from assms(2) show ?thesis
    unfolding *(7) set_append Un_iff
    by (elim disjE) (fact other_part_records(1) [OF *(1)] other_part_records(4) other_part_records(2) [OF *(2)]
        other_part_records(3) [OF *(3)] other_part_records(3) [OF *(4)] other_part_records(3) [OF *(5)]
        type_part_records [OF *(6)])+
qed

lemma compileNode_shape:
  assumes "compileNode cg defs s p = Inr plan"
  shows "is_boolean s \<and> plan = s \<or> is_record s \<and> is_record plan"
proof (cases "is_boolean s")
  case True
  then show ?thesis using assms by (subst (asm) compileNode.simps) simp
next
  case False
  then obtain parts where parts: "is_record s" "node_parts cg defs (compileNode cg defs) s p = Inr parts"
    "plan = set_nullable s (combinePlans parts)"
    using assms by (subst (asm) compileNode.simps) (auto simp: fail_def split: if_splits)
  have "is_record (combinePlans parts)"
    using node_parts_records [OF parts(2)] by (auto simp: combinePlans_def split: list.split)
  then show ?thesis using parts(1,3) by (cases "combinePlans parts") (simp_all add: set_nullable_def)
qed

lemma compileNode_preserves:
  assumes "tables_agree cg whole defs whole_plan plans" "cg_decode cg = vp_decode vp" "compileNode cg defs schema path = Inr plan"
  shows "plan_admits vp whole_plan plans k plan v = schema_admits vp (vp_decode vp) whole defs k schema v"
  using assms(3)
proof (induction k arbitrary: schema path plan v rule: less_induct)
  case (less k)
  let ?padm = "plan_admits vp whole_plan plans k" and ?sadm = "schema_admits vp (vp_decode vp) whole defs k"
  from less.prems show ?case
  proof (induction "size schema" arbitrary: schema path plan v rule: less_induct)
    case inner: less
    show ?case
    proof (cases "is_boolean schema")
      case True
      then have "plan = schema" using compileNode_shape [OF inner.prems] by (cases schema) auto
      with True show ?thesis by (simp add: plan_admits.simps schema_admits.simps)
    next
      case False
      then have schema: "is_record schema" using compileNode_shape [OF inner.prems] by blast
      obtain parts where parts: "node_parts cg defs (compileNode cg defs) schema path = Inr parts"
        "plan = set_nullable schema (combinePlans parts)"
        using inner.prems False schema by (subst (asm) compileNode.simps) auto
      have agr: "agrees ?padm ?sadm (compileNode cg defs) schema"
        unfolding agrees_def
      proof (intro conjI allI impI)
        show "?padm (JBool b) v = ?sadm (JBool b) v" for b v by (simp add: plan_admits.simps schema_admits.simps)
        show "compileNode cg defs s p \<noteq> Inr JUndef" for s p
          using compileNode_shape [of cg defs s p JUndef] by (cases s) auto
      qed (rule inner.hyps)
      note plans = admits_plans_plan_admits [of vp whole_plan plans k]
      note m = node_parts_meaning [OF agr plans parts(1)]
      note c = combinePlans_meaning [OF plans m(2)]
      note n = set_nullable_meaning [OF plans c(1)]
      obtain refs where refs: "ref_part cg defs schema path = Inr refs" using parts(1) by (auto simp: node_parts_def)
      have follow: "schema_meaning vp (follow_plan vp whole_plan plans k) ?sadm schema v =
          schema_meaning vp (follow_schema vp (vp_decode vp) whole defs k) ?sadm schema v"
      proof (rule schema_meaning_follow, rule ref_follow [OF assms(1,2) refs])
        show "plan_admits vp whole_plan plans k' p w = schema_admits vp (vp_decode vp) whole defs k' y w"
          if "k = Suc k'" "compileNode cg defs y path = Inr p" for k' y path p w
          by (rule less.IH [OF _ that(2)]) (simp add: that(1))
      qed
      show ?thesis
      proof (cases "nulled schema v")
        case True
        then show ?thesis using n(2) [OF True] by (simp add: parts(2) schema_admits_record [OF schema] schema_meaning_def)
      next
        case nn: False
        then show ?thesis
          using n(3) [OF nn] c(2) [of v] m(1) [OF nn] follow by (simp add: parts(2) schema_admits_record [OF schema])
      qed
    qed
  qed
qed

section \<open>Documents\<close>

lemma fold_result_invariant:
  assumes "fold_result f xs s = Inr t" "P s" "\<And>x s t. x \<in> set xs \<Longrightarrow> f x s = Inr t \<Longrightarrow> P s \<Longrightarrow> P t"
  shows "P t"
  using assms by (induction xs arbitrary: s) auto

lemma register_definition_wf: "register_definition path key schema defs = Inr defs' \<Longrightarrow> jm_wf defs \<Longrightarrow> jm_wf defs'"
  by (auto simp: register_definition_def fail_def split: option.splits if_splits)

lemma collectDefinitions_wf: "collectDefinitions schema path defs = Inr defs' \<Longrightarrow> jm_wf defs \<Longrightarrow> jm_wf defs'"
proof (induction "size schema" arbitrary: schema path defs defs' rule: less_induct)
  case less
  show ?case
  proof (cases "is_record schema")
    case True
    let ?own = "\<lambda>keyword defs. andThen (map_entries schema path keyword) (\<lambda>entries.
               fold_result (\<lambda>kx defs.
                 let entryPath = childPath (dotted path keyword) (fst kx) in
                 andThen (register_definition entryPath (fst kx) (snd kx) defs) (\<lambda>defs.
                   collectDefinitions (snd kx) entryPath defs)) entries defs)"
    let ?below = "\<lambda>keyword defs. andThen (child_entries schema path keyword) (\<lambda>entries.
               fold_result (\<lambda>xp defs. collectDefinitions (fst xp) (snd xp) defs) entries defs)"
    obtain defs1 where *: "fold_result ?own [''$defs'', ''definitions''] defs = Inr defs1"
      "fold_result ?below
         [''properties'', ''additionalProperties'', ''items'', ''allOf'', ''anyOf'', ''oneOf'', ''prefixItems''] defs1 = Inr defs'"
      using less.prems(1) True by (subst (asm) collectDefinitions.simps) (auto simp only: simp_thms if_False andThen_Inr_iff)
    have own: "jm_wf ds'" if "?own keyword ds = Inr ds'" "jm_wf ds" for keyword ds ds'
    proof -
      from that(1) obtain entries where e: "map_entries schema path keyword = Inr entries"
        "fold_result (\<lambda>kx defs.
                 let entryPath = childPath (dotted path keyword) (fst kx) in
                 andThen (register_definition entryPath (fst kx) (snd kx) defs) (\<lambda>defs.
                   collectDefinitions (snd kx) entryPath defs)) entries ds = Inr ds'" by auto
      show ?thesis
        by (rule fold_result_invariant [where P = jm_wf, OF e(2) that(2)])
          (auto simp: Let_def dest: register_definition_wf intro: less.hyps [OF map_entries_size [OF e(1)]])
    qed
    have below: "jm_wf ds'" if "?below keyword ds = Inr ds'" "jm_wf ds" for keyword ds ds'
    proof -
      from that(1) obtain entries where e: "child_entries schema path keyword = Inr entries"
        "fold_result (\<lambda>xp defs. collectDefinitions (fst xp) (snd xp) defs) entries ds = Inr ds'" by auto
      show ?thesis
        by (rule fold_result_invariant [where P = jm_wf, OF e(2) that(2)]) (rule less.hyps [OF child_entries_size [OF e(1)]])
    qed
    have "jm_wf defs1" by (rule fold_result_invariant [where P = jm_wf, OF *(1) less.prems(2)]) (rule own)
    then show ?thesis by (rule fold_result_invariant [where P = jm_wf, OF *(2)]) (rule below)
  next
    case False
    then show ?thesis using less.prems by (subst (asm) collectDefinitions.simps) simp
  qed
qed

lemma map_of_build_object: "distinct (map fst kvs) \<Longrightarrow> map_of (build_object kvs) k = map_of kvs k"
proof -
  have "map_of (foldl (\<lambda>ob (k, v). obj_insert k v ob) ob kvs) k = (case map_of kvs k of None \<Rightarrow> map_of ob k | Some v \<Rightarrow> Some v)"
    if "distinct (map fst kvs)" "fst ` set ob \<inter> fst ` set kvs = {}" for ob
    using that
  proof (induction kvs arbitrary: ob)
    case (Cons kv kvs)
    obtain k' v where kv: "kv = (k', v)" by (cases kv)
    have new: "k' \<notin> fst ` set ob" using Cons.prems(2) kv by auto
    moreover have "fst ` set (obj_insert k' v ob) \<inter> fst ` set kvs = {}"
      using Cons.prems kv by (auto simp: in_obj_insert)
    ultimately have "map_of (foldl (\<lambda>ob (k, v). obj_insert k v ob) ob (kv # kvs)) k =
        (case map_of kvs k of None \<Rightarrow> if k = k' then Some v else map_of ob k | Some v \<Rightarrow> Some v)"
      using Cons.IH [of "obj_insert k' v ob"] Cons.prems(1) kv
      by (simp add: map_of_obj_insert [OF new] split: option.split)
    moreover have "map_of kvs k' = None" using Cons.prems(1) kv by (simp add: map_of_eq_None_iff)
    ultimately show ?case by (simp add: kv)
  qed simp
  from this [of "[]"] show "distinct (map fst kvs) \<Longrightarrow> map_of (build_object kvs) k = map_of kvs k"
    by (simp add: build_object_def split: option.split)
qed

definition document_root :: "jsval \<Rightarrow> jsval" where
  "document_root document = field document ''root''"

definition document_definitions :: "jsval \<Rightarrow> jsval jobj" where
  "document_definitions document = obj_fields (field document ''definitions'')"

lemma plan_document_parts [simp]:
  "document_root (plan_document p ds) = p" "document_definitions (plan_document p ds) = build_object ds"
  by (simp_all add: document_root_def document_definitions_def plan_document_def plan_fields build_object_def)

lemma list_all2_member: "list_all2 R xs ys \<Longrightarrow> x \<in> set xs \<Longrightarrow> \<exists>y\<in>set ys. R x y"
  by (induction rule: list_all2_induct) auto

lemma document_preserves:
  assumes "compileJsonSchemaToValidationPlan cg schema path = Inr document" "cg_decode cg = vp_decode vp"
    "collectDefinitions schema path [] = Inr defs"
  shows "plan_admits vp (document_root document) (document_definitions document) k (document_root document) v =
    schema_admits vp (vp_decode vp) schema defs k schema v"
proof -
  obtain plan ds where *: "compileNode cg defs schema path = Inr plan"
    "traverse (compileDefinition cg defs) (sort_key fst defs) = Inr ds" "document = plan_document plan ds"
    using assms(1,3) by (auto simp: compileJsonSchemaToValidationPlan_def)
  have all2: "list_all2 (\<lambda>nd np. fst np = fst nd \<and> compileNode cg defs (de_schema (snd nd)) (de_path (snd nd)) = Inr (snd np))
      (sort_key fst defs) ds"
    using *(2) unfolding traverse_Inr by (rule list.rel_mono_strong) (auto simp: compileDefinition_def)
  have wf: "distinct (map fst defs)" using collectDefinitions_wf [OF assms(3)] by (simp add: jm_wf_def)
  have names: "map fst ds = map fst (sort_key fst defs)"
    using all2 by (induction rule: list_all2_induct) auto
  then have dist: "distinct (map fst ds)" using wf by (simp add: distinct_map)
  have lookup: "\<exists>p. jm_get (build_object ds) name = Some p \<and> compileNode cg defs (de_schema d) (de_path d) = Inr p"
    if "jm_get defs name = Some d" for name d
  proof -
    have "(name, d) \<in> set (sort_key fst defs)" using that by (auto simp: jm_get_def dest: map_of_SomeD)
    then obtain p where "(name, p) \<in> set ds" "compileNode cg defs (de_schema d) (de_path d) = Inr p"
      using list_all2_member [OF all2] by fastforce
    then show ?thesis using dist by (auto simp: jm_get_def map_of_build_object)
  qed
  have "tables_agree cg schema defs plan (build_object ds)"
    unfolding tables_agree_def
  proof (intro allI impI)
    fix name y
    assume y: "schema_target schema defs name = Some y"
    show "\<exists>p path. plan_target plan (build_object ds) name = Some p \<and> compileNode cg defs y path = Inr p"
    proof (cases "name = js ''#''")
      case True
      with y *(1) show ?thesis by (auto simp: schema_target_def plan_target_def)
    next
      case False
      then obtain d where "jm_get defs name = Some d" "y = de_schema d" using y by (auto simp: schema_target_def)
      with lookup [OF this(1)] False show ?thesis unfolding plan_target_def by auto
    qed
  qed
  from compileNode_preserves [OF this assms(2) *(1)] show ?thesis by (simp add: *(3))
qed

end
