(* ===== verification/Codegen_Theorems.thy ===== *)
theory Codegen_Theorems
  imports Codegen_Preserves Codegen_Types
begin

text \<open>
  The properties of the compiler from schemas to validation plans, with a schema on which they are used.
\<close>

section \<open>A schema\<close>

definition sample_schema :: jsval where
  "sample_schema =
     plan_obj
       [(''type'', jstr ''object''),
        (''properties'', plan_obj [(''next'', plan_obj [(''$ref'', jstr ''#'')]),
                                   (''id'', plan_obj [(''type'', jstr ''integer''), (''minimum'', JNum (Dec 1 0))])]),
        (''required'', JArr 0 [jstr ''id''])]"

definition sample_cg :: codegen_platform where
  "sample_cg = \<lparr>cg_decode = Some, cg_regexp = (\<lambda>_. None)\<rparr>"

definition sample_platform :: validation_platform where
  "sample_platform = \<lparr>vp_regex = (\<lambda>_. None), vp_protocol = (\<lambda>_. None), vp_decode = Some\<rparr>"

lemma js_Cons_le [simp]:
  "js (c # s) \<le> js (d # t) \<longleftrightarrow> (of_char c :: 16 word) < of_char d \<or> (c = d \<and> js s \<le> js t)"
  by (auto simp: js_def Cons_le_Cons)

lemmas compile_simps = sort_key_def schemaMap_def schemaRecord_def schema_item_def schemaArray_def indexed_def
  plan_obj_def jstr_def check_length_def check_count_def count_node_def count_value_def small_string_def
  too_deep_def Let_def MAX_SCHEMA_NODES_def MAX_SCHEMA_VALUES_def MAX_SCHEMA_DEPTH_def MAX_SCHEMA_STRING_LENGTH_def
  in_words_def SUPPORTED_KEYWORDS_def SUBSCHEMA_KEYS_def map_keywords_def array_keywords_def

lemma sample_bounds:
  "assertSchemaBounds sample_schema path \<lparr>bs_nodes = 0, bs_values = 0\<rparr> = Inr \<lparr>bs_nodes = 4, bs_values = 9\<rparr>"
  by (simp add: sample_schema_def assertSchemaBounds_def schema_bounds.simps value_bounds.simps keyword_items_def
      value_children_def compile_simps)

lemma on_objects:
  "assertSupportedKeywords (JObj i fs) path =
     for_each (\<lambda>kv.
       andThen (check_keyword path kv) (\<lambda>_.
       andThen (keyword_schemas path kv) (\<lambda>entries.
         for_each (\<lambda>sp. assertSupportedKeywords (fst sp) (snd sp)) entries))) (sort_key fst fs)"
  "compileNode cg defs (JObj i fs) path =
     andThen (node_parts cg defs (\<lambda>s p. compileNode cg defs s p) (JObj i fs) path) (\<lambda>parts.
       Inr (set_nullable (JObj i fs) (combinePlans parts)))"
  by (simp_all add: assertSupportedKeywords.simps [of "JObj i fs"] compileNode.simps [of _ _ "JObj i fs"])

lemma sample_supported: "assertSupportedKeywords sample_schema path = Inr ()"
  by (simp add: sample_schema_def on_objects check_keyword_def keyword_schemas_def compile_simps)

lemmas node_simps = field_def map_entries_def child_entries_def ref_part_def const_part_def enum_part_def branch_part_def
  type_part_def type_plan_def schema_types_def node_parts_def combinePlans_def set_nullable_def compileExplicitType_def
  compileNumber_def compileObject_def compileArray_def compile_single_def compile_list_def compile_properties_def
  compile_required_def commonFields_def number_field_def numberValue_def number_keywords_def optional_def
  typed_keywords_def build_object_def plan_document_def decodeReference_def sample_cg_def num_less_def

lemma sample_definitions: "collectDefinitions sample_schema path [] = Inr []"
  unfolding sample_schema_def plan_obj_def
  by (subst collectDefinitions.simps, simp add: compile_simps node_simps)+

definition sample_node :: jsval where
  "sample_node =
     plan_obj
       [(''kind'', jstr ''object''),
        (''properties'', plan_obj [(''id'', plan_obj [(''kind'', jstr ''integer''), (''minimum'', JNum (Dec 1 0))]),
                                   (''next'', plan_obj [(''kind'', jstr ''ref''), (''ref'', jstr ''#'')])]),
        (''required'', JArr 0 [jstr ''id''])]"

lemma sample_names [simp]: "array_index (js ''id'') = None" "array_index (js ''next'') = None"
  by code_simp+

lemma sample_numbers [simp]:
  "num_finite (Dec 0 0)" "num_finite (Dec 1 0)" "num_is_integer (Dec 0 0)" "num_val (Dec 0 0) = 0" "num_val (Dec 1 0) = 1"
  by code_simp+

lemma sample_compiles_node: "compileNode sample_cg [] sample_schema path = Inr sample_node"
  by (simp add: sample_schema_def sample_node_def on_objects compile_simps node_simps)

lemma sample_compiles: "compileJsonSchemaToValidationPlan sample_cg sample_schema path = Inr (plan_obj [(''root'', sample_node)])"
  by (simp add: compileJsonSchemaToValidationPlan_def sample_bounds sample_supported sample_definitions sample_compiles_node
      sort_key_def plan_document_def)

section \<open>The meaning of generated plans\<close>

text \<open>
  C4: The plan that is generated from a schema accepts exactly the values that the schema accepts: no
  keyword of the root schema, of its definitions or of a schema inside them is dropped, narrowed or
  widened, whatever the names, the nesting and the (recursive) references, for every number of
  references that may be followed.
\<close>

theorem compiled_plan_means_schema:
  assumes "compileJsonSchemaToValidationPlan cg schema path = Inr document" "cg_decode cg = vp_decode vp"
  shows "\<exists>defs. collectDefinitions schema path [] = Inr defs \<and>
    (\<forall>k v. plan_admits vp (document_root document) (document_definitions document) k (document_root document) v =
           schema_admits vp (vp_decode vp) schema defs k schema v)"
proof -
  obtain defs where defs: "collectDefinitions schema path [] = Inr defs"
    using assms(1) by (auto simp: compileJsonSchemaToValidationPlan_def)
  with document_preserves [OF assms] show ?thesis by blast
qed

lemma schema_admits_object:
  "schema_admits vp decode whole defs k (JObj i fs) v =
     schema_meaning vp
       (\<lambda>reference w.
          case k of
            0 \<Rightarrow> False
          | Suc k' \<Rightarrow>
              (case decodeReference decode reference [] of
                 Inl _ \<Rightarrow> False
               | Inr name \<Rightarrow>
                   (case schema_target whole defs name of
                      None \<Rightarrow> False
                    | Some y \<Rightarrow> schema_admits vp decode whole defs k' y w)))
       (schema_admits vp decode whole defs k) (JObj i fs) v"
  by (subst schema_admits.simps) simp

lemmas meaning_simps = schema_meaning_def nulled_def field_def keywords_meet_def object_meets_def number_meets_def
  number_of_def some_branch_def every_branch_def one_branch_def schema_types_def has_type_def meets_def

lemma sample_item: "\<not> schema_admits sample_platform Some whole [] 0 sample_schema (JObj 0 [(js ''id'', JNum (Dec 0 0))])"
  unfolding sample_schema_def plan_obj_def
  by (simp add: schema_admits_object meaning_simps jstr_def num_less_def)

theorem compiled_plan_means_schema_witness:
  "\<not> plan_admits sample_platform sample_node [] 1 sample_node
       (JObj 0 [(js ''id'', JNum (Dec 1 0)), (js ''next'', JObj 0 [(js ''id'', JNum (Dec 0 0))])])"
proof -
  have "\<not> schema_admits sample_platform Some whole [] 1 sample_schema
       (JObj 0 [(js ''id'', JNum (Dec 1 0)), (js ''next'', JObj 0 [(js ''id'', JNum (Dec 0 0))])])"
    if "whole = sample_schema" for whole
    unfolding sample_schema_def plan_obj_def
    by (simp add: schema_admits_object meaning_simps jstr_def num_less_def decodeReference_def
        schema_target_def sample_item that)
  then show ?thesis
    using compiled_plan_means_schema [OF sample_compiles, of sample_platform]
    by (simp add: sample_definitions plan_fields document_root_def document_definitions_def sample_platform_def sample_cg_def)
qed

section \<open>Keywords\<close>

text \<open>The schemas inside a schema, wherever a keyword may hold one.\<close>

inductive subschema :: "jsval \<Rightarrow> jsval \<Rightarrow> bool" for whole where
  subschema_root: "subschema whole whole"
| subschema_entry:
    "subschema whole x \<Longrightarrow> keyword \<in> set map_keywords \<Longrightarrow> (name, y) \<in> set (obj_fields (field x keyword)) \<Longrightarrow> subschema whole y"
| subschema_branch:
    "subschema whole x \<Longrightarrow> keyword \<in> set array_keywords \<Longrightarrow> y \<in> set (arr_items (field x keyword)) \<Longrightarrow> subschema whole y"
| subschema_single:
    "subschema whole x \<Longrightarrow> keyword \<in> {''additionalProperties'', ''items''} \<Longrightarrow> field x keyword \<noteq> JUndef \<Longrightarrow>
     subschema whole (field x keyword)"

lemma field_of_record: "field x keyword \<noteq> JUndef \<Longrightarrow> is_record x"
  by (cases x) (auto simp: field_def)

lemma keyword_supported:
  assumes "assertSupportedKeywords x path = Inr ()" "field x keyword \<noteq> JUndef"
  obtains entries where "keyword_schemas path (js keyword, field x keyword) = Inr entries"
    "\<forall>sp\<in>set entries. assertSupportedKeywords (fst sp) (snd sp) = Inr ()"
proof -
  have "(js keyword, field x keyword) \<in> set (sort_key fst (obj_fields x))" using field_member [OF assms(2)] by simp
  moreover have "is_record x" using field_of_record assms(2) .
  ultimately show ?thesis
    using assms(1) that by (subst (asm) assertSupportedKeywords.simps) (cases x; force)
qed

lemma in_words_js: "in_words (js k) ws \<longleftrightarrow> k \<in> set ws"
  by (auto simp: in_words_def)

lemma subschema_supported:
  assumes "subschema whole x" "assertSupportedKeywords whole path = Inr ()"
  shows "\<exists>path. assertSupportedKeywords x path = Inr ()"
  using assms
proof (induction rule: subschema.induct)
  case subschema_root
  then show ?case by blast
next
  case (subschema_entry x keyword name y)
  then obtain path where "assertSupportedKeywords x path = Inr ()" by blast
  moreover have "field x keyword \<noteq> JUndef" using subschema_entry.hyps(3) by auto
  ultimately obtain entries where *: "keyword_schemas path (js keyword, field x keyword) = Inr entries"
    "\<forall>sp\<in>set entries. assertSupportedKeywords (fst sp) (snd sp) = Inr ()" by (rule keyword_supported)
  then have "\<exists>p. (y, p) \<in> set entries"
    using subschema_entry.hyps(2,3)
    by (force simp: keyword_schemas_def Let_def in_words_js SUBSCHEMA_KEYS_def dest!: schemaMap_Inr)
  with *(2) show ?case by force
next
  case (subschema_branch x keyword y)
  then obtain path where "assertSupportedKeywords x path = Inr ()" by blast
  moreover have "field x keyword \<noteq> JUndef" using subschema_branch.hyps(3) by auto
  ultimately obtain entries where *: "keyword_schemas path (js keyword, field x keyword) = Inr entries"
    "\<forall>sp\<in>set entries. assertSupportedKeywords (fst sp) (snd sp) = Inr ()" by (rule keyword_supported)
  have "keyword \<notin> set map_keywords" using subschema_branch.hyps(2) by (auto simp: map_keywords_def array_keywords_def)
  moreover obtain i where "(i, y) \<in> set (indexed (arr_items (field x keyword)))"
    using subschema_branch.hyps(3) unfolding indexed_def
    by (metis add.left_neutral in_set_conv_nth in_set_zip length_upt minus_nat.diff_0 nth_upt prod.sel)
  ultimately have "\<exists>p. (y, p) \<in> set entries"
    using *(1) subschema_branch.hyps(2)
    by (force simp: keyword_schemas_def Let_def in_words_js SUBSCHEMA_KEYS_def dest!: schemaArray_Inr)
  with *(2) show ?case by force
next
  case (subschema_single x keyword)
  then obtain path where "assertSupportedKeywords x path = Inr ()" by blast
  then obtain entries where *: "keyword_schemas path (js keyword, field x keyword) = Inr entries"
    "\<forall>sp\<in>set entries. assertSupportedKeywords (fst sp) (snd sp) = Inr ()"
    using subschema_single.hyps(3) by (rule keyword_supported)
  show ?case
  proof (cases "is_boolean (field x keyword)")
    case True
    then show ?thesis by (subst assertSupportedKeywords.simps) simp
  next
    case False
    then have "(field x keyword, childPath path (js keyword)) \<in> set entries"
      using *(1) subschema_single.hyps(2)
      by (auto simp: keyword_schemas_def Let_def in_words_js SUBSCHEMA_KEYS_def map_keywords_def array_keywords_def)
    with *(2) show ?thesis by force
  qed
qed

text \<open>
  C18: The compiler never ignores a keyword it does not know: in a schema it accepts, every schema
  inside it, at any depth and also in definitions, is a boolean or an object all of whose keywords are
  supported and whose format is one that the validator checks.
\<close>

theorem compiled_keywords_supported:
  assumes "compileJsonSchemaToValidationPlan cg schema path = Inr document" "subschema schema x"
  shows "is_boolean x \<or>
    (is_record x \<and>
     (\<forall>(key, v)\<in>set (obj_fields x). in_words key SUPPORTED_KEYWORDS \<and>
        (key = js ''format'' \<and> is_string v \<longrightarrow> in_words (str_val v) COMPILER_FORMATS)))"
proof -
  have "assertSupportedKeywords schema path = Inr ()"
    using assms(1) by (auto simp: compileJsonSchemaToValidationPlan_def)
  from subschema_supported [OF assms(2) this] obtain p where "assertSupportedKeywords x p = Inr ()" by blast
  then show ?thesis
    by (subst (asm) assertSupportedKeywords.simps)
      (fastforce simp: check_keyword_def unsupported_def fail_def split: if_splits)
qed

theorem compiled_keywords_supported_witness:
  "is_record (plan_obj [(''$ref'', jstr ''#'')])"
proof -
  have "subschema sample_schema (plan_obj [(''$ref'', jstr ''#'')])"
    by (rule subschema_entry [OF subschema_root, where keyword = "''properties''" and name = "js ''next''"])
      (simp_all add: map_keywords_def sample_schema_def plan_fields plan_obj_def field_def)
  from compiled_keywords_supported [OF sample_compiles this] show ?thesis by (simp add: plan_obj_def)
qed

section \<open>Where the compilers disagree with JSON Schema\<close>

text \<open>A reference to a definition that is named \<open>#\<close> is a reference to the whole schema.\<close>

lemma hash_definition_is_root:
  assumes "decode (js ''%23'') = Some (js ''#'')"
  shows "decodeReference decode (js ''#/$defs/%23'') path = Inr (js ''#'')" "schema_target whole defs (js ''#'') = Some whole"
proof -
  have "find (\<lambda>p. starts_with p (js ''#/$defs/%23'')) [js ''#/$defs/'', js ''#/definitions/''] = Some (js ''#/$defs/'')"
    "drop (length (js ''#/$defs/'')) (js ''#/$defs/%23'') = js ''%23''" "0x2F \<notin> set (js ''%23'')" "0x2F \<notin> set (js ''#'')"
    "\<not> bad_tilde (js ''#'')" "replace2 0x7E 0x30 0x7E (replace2 0x7E 0x31 0x2F (js ''#'')) = js ''#''"
    by code_simp+
  with assms show "decodeReference decode (js ''#/$defs/%23'') path = Inr (js ''#'')"
    unfolding decodeReference_def Let_def by simp
qed (simp add: schema_target_def)

text \<open>The constant \<open>0\<close> refuses the JSON number \<open>-0\<close>, which is equal to it.\<close>

lemma zero_refuses_minus_zero: "\<not> json_same (JNum (Dec 0 0)) (JNum NegZero)" "num_strict_eq (Dec 0 0) NegZero"
  by (simp_all add: num_strict_eq_def num_val_def) code_simp+

text \<open>The type of a schema with \<open>prefixItems\<close> is a tuple, but the schema and its plan accept shorter and longer arrays.\<close>

definition prefix_schema :: jsval where
  "prefix_schema = JObj 0 [(js ''type'', jstr ''array''), (js ''prefixItems'', JArr 0 [JObj 0 [(js ''type'', jstr ''null'')]])]"

lemma compileSchema_object:
  "compileSchema decode ctx (JObj i fs) path =
     andThen (schema_parts decode ctx (compileSchema decode ctx) (JObj i fs) path) (\<lambda>parts.
       if field (JObj i fs) ''nullable'' = JBool True then Inr (union_type [intersection_type parts, js ''null''])
       else Inr (intersection_type parts))"
  by (subst compileSchema.simps) simp

lemma prefix_type_is_tuple: "compileSchema decode ctx prefix_schema path = Inr (js ''[null]'')"
  by (simp add: prefix_schema_def compileSchema_object schema_parts_def reference_types_def branch_types_def literal_types_def
        shape_types_def explicit_types_def compileTypeName_def compileArrayType_def compile_list_def compile_simps field_def
        union_type_def intersection_type_def jset_of_def jset_add_def bracketed_def
      flip: js_append del: andThen_Inr_iff)

lemma prefix_accepts_any_length: "schema_admits vp decode whole defs k prefix_schema (JArr 0 [])"
  "schema_admits vp decode whole defs k prefix_schema (JArr 0 [JNull, JNull])"
  by (simp_all add: prefix_schema_def schema_admits_object meaning_simps jstr_def array_meets_def count_of_def)

end
