(* ===== verification/Codegen_Generate.thy ===== *)
theory Codegen_Generate
  imports Codegen_Resources Codegen_Routes
begin

text \<open>
  Generation and checking of a project (\<open>packages/codegen/src/generate.ts\<close>): all artifacts are compiled
  in memory, then written one by one, each through a temporary file. The file system is a map from
  resolved paths to entries; \<open>node:path\<close>, \<open>mkdirSync\<close> and the random part of the temporary names are
  parameters, and every write may fail.
\<close>

section \<open>The file system\<close>

text \<open>
  A link has the text that is read through it. The operations on a denied entry throw, as they do on a
  path that leads through a file. Writing a text as UTF-8 and reading it again replaces the surrogates
  that are not paired.
\<close>

datatype fs_entry = FsFile jstring | FsDir | FsLink "jstring option" | FsDenied

fun stored_text :: "jstring \<Rightarrow> jstring" where
  "stored_text [] = []"
| "stored_text [c] = [if high_surrogate c \<or> low_surrogate c then 0xFFFD else c]"
| "stored_text (c # d # s) =
     (if high_surrogate c \<and> low_surrogate d then c # d # stored_text s
      else (if high_surrogate c \<or> low_surrogate c then 0xFFFD else c) # stored_text (d # s))"

type_synonym node_fs = "jstring \<Rightarrow> fs_entry option"

record node_path =
  np_resolve :: "jstring \<Rightarrow> jstring"
  np_relative :: "jstring \<Rightarrow> jstring \<Rightarrow> jstring"
  np_dirname :: "jstring \<Rightarrow> jstring"
  np_basename :: "jstring \<Rightarrow> jstring"
  np_join :: "jstring \<Rightarrow> jstring \<Rightarrow> jstring"
  np_isAbsolute :: "jstring \<Rightarrow> bool"
  np_sep :: "16 word"

definition entry_at :: "node_path \<Rightarrow> node_fs \<Rightarrow> jstring \<Rightarrow> fs_entry option" where
  "entry_at np fs p = fs (np_resolve np p)"

definition read_file :: "node_path \<Rightarrow> node_fs \<Rightarrow> jstring \<Rightarrow> jstring option" where
  "read_file np fs p =
     (case entry_at np fs p of Some (FsFile t) \<Rightarrow> Some t | Some (FsLink t) \<Rightarrow> t | _ \<Rightarrow> None)"

definition file_exists :: "node_path \<Rightarrow> node_fs \<Rightarrow> jstring \<Rightarrow> bool" where
  "file_exists np fs p =
     (case entry_at np fs p of
        None \<Rightarrow> False | Some (FsLink t) \<Rightarrow> t \<noteq> None | Some FsDenied \<Rightarrow> False | _ \<Rightarrow> True)"

datatype generate_error = CompileFailed codegen_error | PathRefused | FileFailed

section \<open>Output paths\<close>

definition up_segment :: "node_path \<Rightarrow> jstring" where
  "up_segment np = js ''..'' @ [np_sep np]"

definition isWithin :: "node_path \<Rightarrow> jstring \<Rightarrow> jstring \<Rightarrow> bool" where
  "isWithin np parent child \<longleftrightarrow>
     (let r = np_relative np parent child in
      r = [] \<or> (\<not> starts_with (up_segment np) r \<and> r \<noteq> js ''..'' \<and> \<not> np_isAbsolute np r))"

text \<open>The loop goes up; a directory has at most as many parents as its path has characters.\<close>

fun common_loop :: "node_path \<Rightarrow> nat \<Rightarrow> jstring \<Rightarrow> jstring \<Rightarrow> jstring" where
  "common_loop np 0 right current = current"
| "common_loop np (Suc n) right current =
     (if isWithin np current right then current
      else
        let parent = np_dirname np current in
        if parent = current then current else common_loop np n right parent)"

definition commonDirectory :: "node_path \<Rightarrow> jstring \<Rightarrow> jstring \<Rightarrow> jstring" where
  "commonDirectory np left right =
     (let start = np_resolve np left in common_loop np (length start) (np_resolve np right) start)"

text \<open>The two walks that refuse symbolic links; the first ends at a directory that is missing.\<close>

fun link_walk :: "node_path \<Rightarrow> node_fs \<Rightarrow> bool \<Rightarrow> jstring \<Rightarrow> jstring list \<Rightarrow> (generate_error, unit) result" where
  "link_walk np fs stops current [] = Inr ()"
| "link_walk np fs stops current (segment # segments) =
     (let current = np_join np current segment in
      case entry_at np fs current of
        Some (FsLink _) \<Rightarrow> Inl PathRefused
      | Some FsDenied \<Rightarrow> Inl FileFailed
      | None \<Rightarrow> if stops then Inr () else link_walk np fs stops current segments
      | _ \<Rightarrow> link_walk np fs stops current segments)"

definition assertGeneratedOutputPath ::
  "node_path \<Rightarrow> node_fs \<Rightarrow> jstring \<Rightarrow> jstring \<Rightarrow> jstring \<Rightarrow> (generate_error, unit) result" where
  "assertGeneratedOutputPath np fs generatedDir outputPath trustedRoot =
     (let r = np_relative np generatedDir outputPath in
      if r = [] \<or> r = js ''..'' \<or> starts_with (up_segment np) r \<or> np_isAbsolute np r then Inl PathRefused
      else
        let dir = np_resolve np generatedDir;
            top = np_resolve np trustedRoot;
            top = (if top = dir then np_dirname np top else top) in
        if \<not> isWithin np top dir then Inl PathRefused
        else
          andThen (link_walk np fs True top ([] # filter (\<lambda>s. s \<noteq> []) (split_on (np_sep np) (np_relative np top dir)))) (\<lambda>_.
            link_walk np fs False dir (split_on (np_sep np) r)))"

section \<open>The compiled project\<close>

text \<open>The frozen objects of a manifest, laid out from the address \<open>base\<close>, and their number.\<close>

fun lay_out :: "jsval \<Rightarrow> nat \<Rightarrow> raw \<times> raw_object list"
  and lay_items :: "jsval list \<Rightarrow> nat \<Rightarrow> raw list \<times> raw_object list"
  and lay_fields :: "(jstring \<times> jsval) list \<Rightarrow> nat \<Rightarrow> raw list \<times> raw_object list" where
  "lay_out JUndef base = (ROther, [])"
| "lay_out JNull base = (RNull, [])"
| "lay_out (JBool b) base = (RBool b, [])"
| "lay_out (JNum n) base = (RNum n, [])"
| "lay_out (JStr s) base = (RStr s, [])"
| "lay_out (JArr i xs) base =
     (let (rs, obs) = lay_items xs (Suc base); names = map nat_digits [0..<length rs] in
      (RRef base,
       \<lparr>ro_array = Some True, ro_plain = Some False, ro_keys = Some (map Some (names @ [js ''length''])),
        ro_descriptors = zip names (map (\<lambda>r. DData r True) rs) @
          [(js ''length'', DData (RNum (num_of_int (int (length rs)))) False)]\<rparr> # obs))"
| "lay_out (JObj i fs) base =
     (let (rs, obs) = lay_fields fs (Suc base) in
      (RRef base,
       \<lparr>ro_array = Some False, ro_plain = Some True, ro_keys = Some (map (\<lambda>kv. Some (fst kv)) fs),
        ro_descriptors = zip (map fst fs) (map (\<lambda>r. DData r True) rs)\<rparr> # obs))"
| "lay_items [] base = ([], [])"
| "lay_items (x # xs) base =
     (let (r, obs) = lay_out x base; (rs, more) = lay_items xs (base + length obs) in (r # rs, obs @ more))"
| "lay_fields [] base = ([], [])"
| "lay_fields (kv # fs) base =
     (let (r, obs) = lay_out (snd kv) base; (rs, more) = lay_fields fs (base + length obs) in (r # rs, obs @ more))"

record artifact =
  ga_path :: jstring
  ga_content :: jstring

record generation_options =
  go_registryContent :: jstring
  go_registryFile :: jstring
  go_pagesDir :: jstring
  go_generatedDir :: "jstring option"
  go_schemaContent :: "jstring option"
  go_schemaFile :: "jstring option"

record project_snapshot =
  ps_artifacts :: "artifact list"
  ps_validators :: "jstring list"
  ps_schemaContent :: "jstring option"
  ps_schemaFile :: "jstring option"
  ps_diagnostics :: "diagnostic list"

record node_platform =
  nf_path :: node_path
  nf_codegen :: codegen_platform
  nf_parse :: "jstring \<Rightarrow> (jstring, raw_heap \<times> raw) result"

definition compile_failed :: "'a generated \<Rightarrow> (generate_error, 'a) result" where
  "compile_failed r = (case r of Inl e \<Rightarrow> Inl (CompileFailed e) | Inr x \<Rightarrow> Inr x)"

definition schema_artifacts ::
  "node_platform \<Rightarrow> jstring \<Rightarrow> jstring \<Rightarrow> (generate_error, artifact list \<times> validators_result) result" where
  "schema_artifacts nd generatedDir content =
     (let np = nf_path nd; decode = cg_decode (nf_codegen nd);
          file = (\<lambda>name text. \<lparr>ga_path = np_join np generatedDir (js name), ga_content = text\<rparr>) in
      case parseFluxFastSchemaManifest (nf_parse nd) content of
        Inl e \<Rightarrow> Inl (CompileFailed (InvalidManifest e))
      | Inr manifest \<Rightarrow>
          let (v, h) = lay_out manifest 0 in
          andThen (compile_failed (compileFluxFastValidatorsWithDiagnostics (nf_codegen nd) h v)) (\<lambda>validators.
          andThen (compile_failed (compileFluxFastTypes decode h v)) (\<lambda>types.
          andThen (compile_failed (compileFluxFastPageRoutes decode h v)) (\<lambda>routes.
          andThen (compile_failed (compileFluxFastMutations decode h v)) (\<lambda>mutations.
            Inr ([file ''types.generated.ts'' types, file ''validators.generated.ts'' (vr_content validators),
                  file ''routes.generated.ts'' routes, file ''mutations.generated.ts'' mutations], validators))))))"

definition resolved_dir :: "node_path \<Rightarrow> generation_options \<Rightarrow> jstring" where
  "resolved_dir np options =
     np_resolve np (case go_generatedDir options of None \<Rightarrow> np_dirname np (go_registryFile options) | Some d \<Rightarrow> d)"

definition candidate_schema :: "node_path \<Rightarrow> generation_options \<Rightarrow> jstring" where
  "candidate_schema np options =
     np_resolve np
       (case go_schemaFile options of
          None \<Rightarrow> np_join np (resolved_dir np options) (js ''schema.generated.json'') | Some f \<Rightarrow> f)"

text \<open>\<open>readFileSync\<close> of a file that exists and cannot be read throws.\<close>

definition schema_content :: "node_path \<Rightarrow> node_fs \<Rightarrow> generation_options \<Rightarrow> (generate_error, jstring option) result" where
  "schema_content np fs options =
     (case go_schemaContent options of
        Some t \<Rightarrow> Inr (Some t)
      | None \<Rightarrow>
          if \<not> file_exists np fs (candidate_schema np options) then Inr None
          else (case read_file np fs (candidate_schema np options) of None \<Rightarrow> Inl FileFailed | Some t \<Rightarrow> Inr (Some t)))"

definition createFluxFastProjectSnapshot ::
  "node_platform \<Rightarrow> node_fs \<Rightarrow> generation_options \<Rightarrow> (generate_error, project_snapshot) result" where
  "createFluxFastProjectSnapshot nd fs options =
     (let np = nf_path nd; dir = resolved_dir np options;
          boundary = np_dirname np (commonDirectory np (go_pagesDir options) dir);
          safe = (\<lambda>p. assertGeneratedOutputPath np fs dir p boundary);
          candidate = candidate_schema np options;
          registry = \<lparr>ga_path = go_registryFile options, ga_content = go_registryContent options\<rparr>;
          snapshot = (\<lambda>artifacts validators file diagnostics.
            \<lparr>ps_artifacts = registry # artifacts, ps_validators = validators, ps_schemaContent = go_schemaContent options,
             ps_schemaFile = file, ps_diagnostics = diagnostics\<rparr>) in
      andThen (safe (go_registryFile options)) (\<lambda>_.
      andThen (if go_schemaContent options = None then Inr () else safe candidate) (\<lambda>_.
      andThen (schema_content np fs options) (\<lambda>content.
        case content of
          None \<Rightarrow> Inr (snapshot [] [] None [])
        | Some text \<Rightarrow>
            andThen (schema_artifacts nd dir text) (\<lambda>(artifacts, validators).
            andThen (for_each (\<lambda>a. safe (ga_path a)) artifacts) (\<lambda>_.
              Inr (snapshot artifacts (vr_contracts validators) (Some candidate) (vr_diagnostics validators))))))))"

section \<open>Writing\<close>

text \<open>
  How a write ends; \<open>Some t\<close> is what stays in the temporary file when it cannot be removed after a
  failure of \<open>writeFileSync\<close>, \<open>fsyncSync\<close>, \<open>closeSync\<close> or \<open>renameSync\<close>.
\<close>

datatype write_outcome = WriteDone | OpenFails | WriteFails "jstring option"

record write_env =
  we_mkdir :: "jstring \<Rightarrow> node_fs \<Rightarrow> node_fs \<times> bool"
  we_token :: "nat \<Rightarrow> jstring"
  we_outcome :: "nat \<Rightarrow> write_outcome"

definition temporary_path :: "node_path \<Rightarrow> jstring \<Rightarrow> jstring \<Rightarrow> jstring" where
  "temporary_path np token p =
     np_join np (np_dirname np p) (js ''.'' @ np_basename np p @ js ''.'' @ token @ js ''.tmp'')"

text \<open>
  The flag \<open>wx\<close> refuses a temporary name that is taken; a rename cannot replace a directory. The
  temporary file exists only while the function runs, unless it cannot be removed.
\<close>

definition writeGeneratedArtifact ::
  "node_path \<Rightarrow> jstring \<Rightarrow> write_outcome \<Rightarrow> artifact \<Rightarrow> node_fs \<Rightarrow> node_fs \<times> (generate_error, unit) result" where
  "writeGeneratedArtifact np token outcome a fs =
     (let temporary = np_resolve np (temporary_path np token (ga_path a)) in
      if fs temporary \<noteq> None then (fs, Inl FileFailed)
      else
        (case outcome of
           OpenFails \<Rightarrow> (fs, Inl FileFailed)
         | WriteFails left \<Rightarrow> (fs(temporary := map_option FsFile left), Inl FileFailed)
         | WriteDone \<Rightarrow>
             if entry_at np fs (ga_path a) = Some FsDir then (fs, Inl FileFailed)
             else (fs(np_resolve np (ga_path a) := Some (FsFile (stored_text (ga_content a)))), Inr ())))"

fun write_all :: "node_path \<Rightarrow> write_env \<Rightarrow> nat \<Rightarrow> artifact list \<Rightarrow> node_fs \<Rightarrow> node_fs \<times> (generate_error, unit) result" where
  "write_all np env i [] fs = (fs, Inr ())"
| "write_all np env i (a # artifacts) fs =
     (let (fs, made) = we_mkdir env (np_dirname np (ga_path a)) fs in
      if \<not> made then (fs, Inl FileFailed)
      else
        (case writeGeneratedArtifact np (we_token env i) (we_outcome env i) a fs of
           (fs, Inl e) \<Rightarrow> (fs, Inl e)
         | (fs, Inr _) \<Rightarrow> write_all np env (Suc i) artifacts fs))"

definition schema_file :: "project_snapshot \<Rightarrow> artifact list" where
  "schema_file snapshot =
     (case (ps_schemaContent snapshot, ps_schemaFile snapshot) of
        (Some content, Some file) \<Rightarrow> if file = [] then [] else [\<lparr>ga_path = file, ga_content = content\<rparr>]
      | _ \<Rightarrow> [])"

definition project_writes :: "project_snapshot \<Rightarrow> artifact list" where
  "project_writes snapshot = schema_file snapshot @ ps_artifacts snapshot"

definition generatePagesRegistry ::
  "node_path \<Rightarrow> write_env \<Rightarrow> generation_options \<Rightarrow> node_fs \<Rightarrow> node_fs \<times> (generate_error, unit) result" where
  "generatePagesRegistry np env options fs =
     (let file = go_registryFile options; dir = np_dirname np file in
      case assertGeneratedOutputPath np fs dir file (np_dirname np (commonDirectory np (go_pagesDir options) dir)) of
        Inl e \<Rightarrow> (fs, Inl e)
      | Inr _ \<Rightarrow>
          let (fs, made) = we_mkdir env (go_pagesDir options) fs in
          if \<not> made then (fs, Inl FileFailed)
          else write_all np env 0 [\<lparr>ga_path = file, ga_content = go_registryContent options\<rparr>] fs)"

record generation_result =
  gr_generatedFiles :: "jstring list"
  gr_generatedValidators :: "jstring list"
  gr_registryPath :: jstring
  gr_schemaFile :: "jstring option"
  gr_diagnostics :: "diagnostic list"

definition generateFluxFastProject ::
  "node_platform \<Rightarrow> write_env \<Rightarrow> generation_options \<Rightarrow> node_fs \<Rightarrow> node_fs \<times> (generate_error, generation_result) result" where
  "generateFluxFastProject nd env options fs =
     (case createFluxFastProjectSnapshot nd fs options of
        Inl e \<Rightarrow> (fs, Inl e)
      | Inr snapshot \<Rightarrow>
          let (fs, made) = we_mkdir env (go_pagesDir options) fs in
          if \<not> made then (fs, Inl FileFailed)
          else
            (case write_all (nf_path nd) env 0 (project_writes snapshot) fs of
               (fs, Inl e) \<Rightarrow> (fs, Inl e)
             | (fs, Inr _) \<Rightarrow>
                 (fs, Inr \<lparr>gr_generatedFiles = map ga_path (ps_artifacts snapshot), gr_generatedValidators = ps_validators snapshot,
                          gr_registryPath = go_registryFile options, gr_schemaFile = ps_schemaFile snapshot,
                          gr_diagnostics = ps_diagnostics snapshot\<rparr>)))"

section \<open>Checking\<close>

record check_result =
  ck_checkedFiles :: "jstring list"
  ck_current :: bool
  ck_generatedValidators :: "jstring list"
  ck_registryPath :: jstring
  ck_schemaFile :: "jstring option"
  ck_staleFiles :: "jstring list"
  ck_diagnostics :: "diagnostic list"

definition stale :: "node_path \<Rightarrow> node_fs \<Rightarrow> artifact \<Rightarrow> bool" where
  "stale np fs a \<longleftrightarrow> read_file np fs (ga_path a) \<noteq> Some (ga_content a)"

text \<open>The schema file, if it is given, comes first in both lists.\<close>

definition checkFluxFastProject :: "node_platform \<Rightarrow> node_fs \<Rightarrow> generation_options \<Rightarrow> (generate_error, check_result) result" where
  "checkFluxFastProject nd fs options =
     andThen (createFluxFastProjectSnapshot nd fs options) (\<lambda>snapshot.
       let files = project_writes snapshot; staleFiles = map ga_path (filter (stale (nf_path nd) fs) files) in
       Inr \<lparr>ck_checkedFiles = map ga_path files, ck_current = (staleFiles = []),
            ck_generatedValidators = ps_validators snapshot, ck_registryPath = go_registryFile options,
            ck_schemaFile = ps_schemaFile snapshot, ck_staleFiles = staleFiles, ck_diagnostics = ps_diagnostics snapshot\<rparr>)"

end
