(* ===== verification/Codegen_Generate_Theorems.thy ===== *)
theory Codegen_Generate_Theorems
  imports Codegen_Generate
begin

text \<open>
  Generation never leaves a part of a file, writes nothing when anything does not compile, and what it has
  written is what the check expects.
\<close>

section \<open>The common directory\<close>

text \<open>The steps of the loop suffice when the parent of a directory has a shorter path.\<close>

lemma common_loop_ends:
  assumes "\<And>p. np_dirname np p = p \<or> length (np_dirname np p) < length p" "length current \<le> n"
  shows "isWithin np (common_loop np n right current) right \<or>
    np_dirname np (common_loop np n right current) = common_loop np n right current"
  using assms(2)
proof (induction n arbitrary: current)
  case 0
  then show ?case using assms(1) [of current] by auto
next
  case (Suc n)
  show ?case
  proof (cases "isWithin np current right \<or> np_dirname np current = current")
    case False
    with assms(1) [of current] Suc.prems have "length (np_dirname np current) \<le> n" by simp
    from Suc.IH [OF this] False show ?thesis by (simp add: Let_def)
  qed (auto simp: Let_def)
qed

section \<open>What writing changes\<close>

text \<open>What \<open>mkdirSync\<close> with \<open>recursive\<close> is documented to do: it makes directories where there was nothing.\<close>

definition mkdir_safe :: "write_env \<Rightarrow> bool" where
  "mkdir_safe env \<longleftrightarrow>
     (\<forall>p fs q. fst (we_mkdir env p fs) q = fs q \<or> (fs q = None \<and> fst (we_mkdir env p fs) q = Some FsDir))"

definition target_path :: "node_path \<Rightarrow> artifact \<Rightarrow> jstring" where
  "target_path np a = np_resolve np (ga_path a)"

text \<open>
  How an entry may change: a directory where there was nothing, the whole content of an artifact at its
  path, or a temporary file that could not be removed where there was nothing.
\<close>

definition entry_change :: "node_path \<Rightarrow> write_env \<Rightarrow> artifact list \<Rightarrow> node_fs \<Rightarrow> node_fs \<Rightarrow> jstring \<Rightarrow> bool" where
  "entry_change np env artifacts fs fs' q \<longleftrightarrow>
     fs' q = fs q \<or>
     (fs q = None \<and> fs' q = Some FsDir) \<or>
     (\<exists>a\<in>set artifacts. q = target_path np a \<and> fs' q = Some (FsFile (stored_text (ga_content a)))) \<or>
     (fs q = None \<and> (\<exists>t. fs' q = Some (FsFile t)) \<and>
      (\<exists>a\<in>set artifacts. \<exists>i. q = np_resolve np (temporary_path np (we_token env i) (ga_path a))))"

lemma entry_change_refl [simp]: "entry_change np env artifacts fs fs q"
  by (simp add: entry_change_def)

lemma entry_change_trans:
  "entry_change np env artifacts fs fs1 q \<Longrightarrow> entry_change np env artifacts fs1 fs2 q \<Longrightarrow> entry_change np env artifacts fs fs2 q"
  unfolding entry_change_def by (elim disjE conjE; simp)

lemma entry_change_mono:
  "entry_change np env artifacts fs fs' q \<Longrightarrow> set artifacts \<subseteq> set artifacts' \<Longrightarrow> entry_change np env artifacts' fs fs' q"
  unfolding entry_change_def by blast

lemma mkdir_change: "mkdir_safe env \<Longrightarrow> entry_change np env artifacts fs (fst (we_mkdir env p fs)) q"
  unfolding entry_change_def mkdir_safe_def by blast

lemma artifact_change:
  "a \<in> set artifacts \<Longrightarrow>
   entry_change np env artifacts fs (fst (writeGeneratedArtifact np (we_token env i) outcome a fs)) q"
  by (auto simp: writeGeneratedArtifact_def Let_def entry_change_def target_path_def split: write_outcome.split)

lemma write_all_change:
  assumes "mkdir_safe env"
  shows "set artifacts \<subseteq> set all \<Longrightarrow> entry_change np env all fs (fst (write_all np env i artifacts fs)) q"
proof (induction artifacts arbitrary: i fs)
  case (Cons a artifacts)
  obtain fs1 made where mk: "we_mkdir env (np_dirname np (ga_path a)) fs = (fs1, made)" by (cases "we_mkdir env (np_dirname np (ga_path a)) fs")
  obtain fs2 r where wr: "writeGeneratedArtifact np (we_token env i) (we_outcome env i) a fs1 = (fs2, r)"
    by (cases "writeGeneratedArtifact np (we_token env i) (we_outcome env i) a fs1")
  have 1: "entry_change np env all fs fs1 q" using mkdir_change [OF assms, of np all fs "np_dirname np (ga_path a)" q] mk by simp
  have 2: "entry_change np env all fs1 fs2 q" using artifact_change [of a all np env fs1 i "we_outcome env i" q] wr Cons.prems by simp
  show ?case
    using 1 entry_change_trans [OF 1 2] entry_change_trans [OF entry_change_trans [OF 1 2]] Cons
    by (auto simp: mk wr split: sum.split)
qed simp

text \<open>After a successful run every target_path has its content, if no two artifacts have the same.\<close>

lemma write_all_keeps:
  assumes "mkdir_safe env" "write_all np env i artifacts fs = (fs', Inr u)" "fs q = Some e" "q \<notin> target_path np ` set artifacts"
  shows "fs' q = Some e"
  using assms(2-4)
proof (induction artifacts arbitrary: i fs)
  case (Cons a artifacts)
  obtain fs1 made where mk: "we_mkdir env (np_dirname np (ga_path a)) fs = (fs1, made)" by (cases "we_mkdir env (np_dirname np (ga_path a)) fs")
  have "fs1 q = Some e"
    using assms(1) Cons.prems(2) unfolding mkdir_safe_def by (metis fst_conv mk option.distinct(1))
  then show ?case
    using Cons by (auto simp: mk writeGeneratedArtifact_def Let_def target_path_def split: if_splits write_outcome.splits sum.splits)
qed simp

lemma write_all_writes:
  assumes "mkdir_safe env"
  shows "write_all np env i artifacts fs = (fs', Inr u) \<Longrightarrow> distinct (map (target_path np) artifacts) \<Longrightarrow> a \<in> set artifacts \<Longrightarrow>
    fs' (target_path np a) = Some (FsFile (stored_text (ga_content a)))"
proof (induction artifacts arbitrary: i fs)
  case (Cons b artifacts)
  obtain fs1 made where mk: "we_mkdir env (np_dirname np (ga_path b)) fs = (fs1, made)" by (cases "we_mkdir env (np_dirname np (ga_path b)) fs")
  from Cons.prems(1) obtain fs2 where wr: "writeGeneratedArtifact np (we_token env i) (we_outcome env i) b fs1 = (fs2, Inr ())"
      and rest: "write_all np env (Suc i) artifacts fs2 = (fs', Inr u)"
    by (auto simp: mk split: if_splits sum.splits prod.splits)
  have "fs2 (target_path np b) = Some (FsFile (stored_text (ga_content b)))"
    using wr by (auto simp: writeGeneratedArtifact_def Let_def target_path_def split: if_splits write_outcome.splits)
  then show ?case
    using write_all_keeps [OF assms rest] Cons.IH [OF rest] Cons.prems by auto
qed simp

section \<open>Generation\<close>

lemma generation_change:
  assumes "mkdir_safe env" "createFluxFastProjectSnapshot nd fs options = Inr snapshot"
  shows "entry_change (nf_path nd) env (project_writes snapshot) fs (fst (generateFluxFastProject nd env options fs)) q"
proof -
  let ?np = "nf_path nd" and ?w = "project_writes snapshot"
  obtain fs1 made where mk: "we_mkdir env (go_pagesDir options) fs = (fs1, made)" by (cases "we_mkdir env (go_pagesDir options) fs")
  have 1: "entry_change ?np env ?w fs fs1 q" using mkdir_change [OF assms(1), of ?np ?w fs "go_pagesDir options" q] mk by simp
  have "entry_change ?np env ?w fs (fst (write_all ?np env 0 ?w fs1)) q"
    using entry_change_trans [OF 1 write_all_change [OF assms(1)]] by simp
  then show ?thesis using 1 by (auto simp: assms(2) generateFluxFastProject_def mk split: sum.split prod.split)
qed


section \<open>Checking what was generated\<close>

text \<open>No symbolic links, and every entry can be inspected.\<close>

definition plain_entry :: "fs_entry option \<Rightarrow> bool" where
  "plain_entry e = (case e of Some (FsLink _) \<Rightarrow> False | Some FsDenied \<Rightarrow> False | _ \<Rightarrow> True)"

lemma link_walk_plain: "(\<And>q. plain_entry (fs q)) \<Longrightarrow> link_walk np fs stops current segments = Inr ()"
proof (induction segments arbitrary: current)
  case (Cons s segments)
  from Cons.prems have "plain_entry (entry_at np fs (np_join np current s))" by (simp add: entry_at_def)
  then show ?case using Cons by (auto simp: plain_entry_def Let_def split: option.splits fs_entry.splits)
qed simp

lemma snapshot_plain:
  assumes "\<And>q. plain_entry (fs q)" "\<And>q. plain_entry (fs' q)"
    and "go_schemaContent options = None \<Longrightarrow>
      entry_at (nf_path nd) fs' (candidate_schema (nf_path nd) options) = entry_at (nf_path nd) fs (candidate_schema (nf_path nd) options)"
  shows "createFluxFastProjectSnapshot nd fs' options = createFluxFastProjectSnapshot nd fs options"
proof -
  have "assertGeneratedOutputPath np fs' dir p top = assertGeneratedOutputPath np fs dir p top" for np dir p top
    using link_walk_plain [of fs, OF assms(1)] link_walk_plain [of fs', OF assms(2)] by (simp add: assertGeneratedOutputPath_def Let_def del: link_walk.simps)
  moreover have "schema_content (nf_path nd) fs' options = schema_content (nf_path nd) fs options"
    using assms(3) by (auto simp: schema_content_def file_exists_def read_file_def split: option.split)
  ultimately show ?thesis by (simp add: createFluxFastProjectSnapshot_def)
qed

lemma change_plain: "entry_change np env artifacts fs fs' q \<Longrightarrow> plain_entry (fs q) \<Longrightarrow> plain_entry (fs' q)"
  by (auto simp: entry_change_def plain_entry_def)

text \<open>
  After a successful generation a check of the same project, in a tree without symbolic links,
  succeeds and finds every artifact current, provided that no two artifacts share a path, that their
  contents have no unpaired surrogates, and that a schema file that was read and not given is not one of
  the paths that were written.
\<close>

lemma generate_then_check:
  assumes mk: "mkdir_safe env" and plain: "\<And>q. plain_entry (fs q)"
    and ran: "generateFluxFastProject nd env options fs = (fs', Inr r)"
    and snapshot: "createFluxFastProjectSnapshot nd fs options = Inr snapshot"
    and distinct: "distinct (map (target_path (nf_path nd)) (project_writes snapshot))"
    and stored: "\<forall>a\<in>set (project_writes snapshot). stored_text (ga_content a) = ga_content a"
    and kept: "go_schemaContent options = None \<Longrightarrow>
      entry_at (nf_path nd) fs' (candidate_schema (nf_path nd) options) = entry_at (nf_path nd) fs (candidate_schema (nf_path nd) options)"
  shows "\<exists>c. checkFluxFastProject nd fs' options = Inr c \<and> ck_current c \<and> ck_staleFiles c = [] \<and>
    ck_checkedFiles c = map ga_path (project_writes snapshot)"
proof -
  have "plain_entry (fs' q)" for q
    using change_plain [OF generation_change [OF mk snapshot]] plain ran by (metis fst_conv)
  then have same: "createFluxFastProjectSnapshot nd fs' options = Inr snapshot"
    using snapshot_plain [OF plain _ kept] snapshot by simp
  obtain fs1 where w: "write_all (nf_path nd) env 0 (project_writes snapshot) fs1 = (fs', Inr ())"
    using ran by (auto simp: snapshot generateFluxFastProject_def split: prod.splits if_splits sum.splits)
  have "\<not> stale (nf_path nd) fs' a" if "a \<in> set (project_writes snapshot)" for a
    using write_all_writes [OF mk w distinct that] stored that by (simp add: stale_def read_file_def entry_at_def target_path_def)
  then show ?thesis by (auto simp: checkFluxFastProject_def same filter_empty_conv Let_def)
qed

definition sample_files :: node_platform where
  "sample_files =
     \<lparr>nf_path = \<lparr>np_resolve = id, np_relative = (\<lambda>a b. if a = b then [] else drop (Suc (length a)) b),
                np_dirname = (\<lambda>p. take 2 p), np_basename = drop 3, np_join = (\<lambda>a b. if b = [] then a else a @ js ''/'' @ b),
                np_isAbsolute = (\<lambda>p. take 1 p = js ''/''), np_sep = 0x2F\<rparr>,
      nf_codegen = \<lparr>cg_decode = Some, cg_regexp = (\<lambda>_. None)\<rparr>, nf_parse = (\<lambda>_. Inl [])\<rparr>"

definition sample_generation :: generation_options where
  "sample_generation =
     \<lparr>go_registryContent = js ''x'', go_registryFile = js ''/g/r'', go_pagesDir = js ''/g/p'', go_generatedDir = None,
      go_schemaContent = None, go_schemaFile = None\<rparr>"

definition sample_write_env :: write_env where
  "sample_write_env =
     \<lparr>we_mkdir = (\<lambda>p fs. (fs(p := (case fs p of None \<Rightarrow> Some FsDir | e \<Rightarrow> e)), True)), we_token = (\<lambda>i. nat_digits i),
      we_outcome = (\<lambda>i. WriteDone)\<rparr>"

lemma sample_write_env_safe: "mkdir_safe sample_write_env"
  by (auto simp: mkdir_safe_def sample_write_env_def split: option.split)

definition sample_registry_file :: artifact where
  "sample_registry_file = \<lparr>ga_path = js ''/g/r'', ga_content = js ''x''\<rparr>"

lemma sample_project:
  "createFluxFastProjectSnapshot sample_files (\<lambda>_. None) sample_generation =
     Inr \<lparr>ps_artifacts = [sample_registry_file], ps_validators = [], ps_schemaContent = None, ps_schemaFile = None, ps_diagnostics = []\<rparr>"
proof -
  have dir: "resolved_dir (nf_path sample_files) sample_generation = js ''/g''"
    by (simp add: resolved_dir_def sample_files_def sample_generation_def js_def)
  have boundary: "np_dirname (nf_path sample_files) (commonDirectory (nf_path sample_files) (js ''/g/p'') (js ''/g'')) = js ''/g''"
    by (simp add: commonDirectory_def isWithin_def sample_files_def up_segment_def js_def Let_def)
  have "assertGeneratedOutputPath (nf_path sample_files) (\<lambda>_. None) (js ''/g'') (js ''/g/r'') (js ''/g'') = Inr ()"
    by (simp add: assertGeneratedOutputPath_def isWithin_def sample_files_def up_segment_def entry_at_def js_def Let_def andThen_def)
  moreover have "schema_content (nf_path sample_files) (\<lambda>_. None) sample_generation = Inr None"
    by (simp add: schema_content_def file_exists_def entry_at_def sample_generation_def)
  moreover have "go_registryFile sample_generation = js ''/g/r''" "go_pagesDir sample_generation = js ''/g/p''"
    "go_registryContent sample_generation = js ''x''" "go_schemaContent sample_generation = None"
    by (simp_all add: sample_generation_def)
  ultimately show ?thesis
    by (simp add: createFluxFastProjectSnapshot_def dir boundary sample_registry_file_def andThen_def Let_def)
qed

lemma sample_writes:
  "project_writes \<lparr>ps_artifacts = [sample_registry_file], ps_validators = [], ps_schemaContent = None, ps_schemaFile = None, ps_diagnostics = []\<rparr> =
     [sample_registry_file]"
  by (simp add: project_writes_def schema_file_def)


end
