(* ===== verification/Devtools_Timeline.thy ===== *)
theory Devtools_Timeline
  imports Diagnostics Js_Heap
begin

text \<open>
  The display model of the development tools (\<open>packages/devtools/src/timeline.ts\<close>): diagnostic events
  are expanded into a bounded list of items that can be filtered. What an event carries is JSON data of
  any form; every field is read through a check. \<open>new URL\<close> and the conversions that depend on the
  locale are parameters. The readers are also used by the other projections.
\<close>

section \<open>Events and their fields\<close>

text \<open>
  \<open>dv_pathname s\<close> is \<open>new URL(s, "http://fluxfast.local").pathname\<close>, \<open>None\<close> when it throws.
\<close>

record devtools_platform =
  dv_pathname :: "jstring \<Rightarrow> jstring option"
  dv_localeLower :: "jstring \<Rightarrow> jstring"
  dv_localeUpper :: "jstring \<Rightarrow> jstring"

record devtools_event =
  ev_id :: jstring
  ev_timestamp :: jnum
  ev_type :: diag_type
  ev_correlationId :: jsval
  ev_data :: jsval

definition is_data :: "jsval \<Rightarrow> bool" where
  "is_data v = (case v of JObj _ _ \<Rightarrow> True | _ \<Rightarrow> False)"

definition is_text :: "jsval \<Rightarrow> string \<Rightarrow> bool" where
  "is_text v s \<longleftrightarrow> v = JStr (js s)"

definition safe_text :: "nat \<Rightarrow> jsval \<Rightarrow> jstring option" where
  "safe_text maximum v = (case v of JStr s \<Rightarrow> if 0 < length s \<and> length s \<le> maximum then Some s else None | _ \<Rightarrow> None)"

definition DEFAULT_TEXT :: nat where "DEFAULT_TEXT = 2048"

definition safe_number :: "jsval \<Rightarrow> jnum option" where
  "safe_number v = (case v of JNum n \<Rightarrow> if num_finite n \<and> 0 \<le> num_val n then Some n else None | _ \<Rightarrow> None)"

definition safe_integer :: "jsval \<Rightarrow> nat option" where
  "safe_integer v =
     (case v of JNum n \<Rightarrow> if num_is_safe_integer n \<and> 0 \<le> num_val n then Some (nat \<lfloor>num_val n\<rfloor>) else None | _ \<Rightarrow> None)"

definition safe_timestamp :: "jnum \<Rightarrow> jnum" where
  "safe_timestamp n = (if num_finite n \<and> 0 \<le> num_val n then n else Dec 0 0)"

definition or_slash :: "jstring \<Rightarrow> jstring" where
  "or_slash s = (if s = [] then js ''/'' else s)"

text \<open>The part before \<open>?\<close> and \<open>#\<close>.\<close>

definition before_query :: "jstring \<Rightarrow> jstring" where
  "before_query s = takeWhile (\<lambda>c. c \<noteq> 0x3F \<and> c \<noteq> 0x23) s"

definition safe_path :: "devtools_platform \<Rightarrow> jsval \<Rightarrow> jstring option" where
  "safe_path p v =
     map_option (\<lambda>candidate. or_slash (case dv_pathname p candidate of Some u \<Rightarrow> u | None \<Rightarrow> before_query candidate))
       (safe_text DEFAULT_TEXT v)"

definition first_of :: "'a option \<Rightarrow> 'a option \<Rightarrow> 'a option" where
  "first_of a b = (case a of None \<Rightarrow> b | Some x \<Rightarrow> Some x)"

definition safe_correlation :: "devtools_event \<Rightarrow> jstring option" where
  "safe_correlation e = safe_text 128 (ev_correlationId e)"

text \<open>Numbers of a summary are given as text.\<close>

definition middle_dot :: jstring where "middle_dot = [0x20, 0xB7, 0x20]"

definition dot_words :: "jstring option list \<Rightarrow> jstring" where
  "dot_words values = join_with middle_dot (filter (\<lambda>s. s \<noteq> []) (List.map_filter id values))"

definition is_word :: "jstring option \<Rightarrow> string \<Rightarrow> bool" where
  "is_word o' s \<longleftrightarrow> o' = Some (js s)"

definition word_starts :: "string \<Rightarrow> jstring option \<Rightarrow> bool" where
  "word_starts prefix o' = (case o' of None \<Rightarrow> False | Some s \<Rightarrow> starts_with (js prefix) s)"

definition word_includes :: "string \<Rightarrow> jstring option \<Rightarrow> bool" where
  "word_includes part o' = (case o' of None \<Rightarrow> False | Some s \<Rightarrow> includes_text (js part) s)"

definition word_ends :: "string \<Rightarrow> jstring option \<Rightarrow> bool" where
  "word_ends suffix o' = (case o' of None \<Rightarrow> False | Some s \<Rightarrow> starts_with (rev (js suffix)) (rev s))"

definition keySummary :: "jsval \<Rightarrow> jstring option" where
  "keySummary data =
     (case safe_text DEFAULT_TEXT (field data ''key'') of
        Some key \<Rightarrow> Some key
      | None \<Rightarrow>
          let keys = List.map_filter (safe_text DEFAULT_TEXT) (take 100 (arr_items (field data ''keys''))) in
          if keys \<noteq> [] then
            let visible = join_with (js '', '') (take 3 keys) in
            Some (if length keys > 3 then visible @ js '' +'' @ nat_digits (length keys - 3) else visible)
          else map_option (\<lambda>n. nat_digits n @ js '' resources'') (safe_integer (field data ''keyCount'')))"

section \<open>Items\<close>

datatype timeline_category = TcNavigation | TcResource | TcMutation | TcCache | TcDeferred | TcLive | TcError

definition category_text :: "timeline_category \<Rightarrow> jstring" where
  "category_text c =
     js (case c of
           TcNavigation \<Rightarrow> ''navigation'' | TcResource \<Rightarrow> ''resource'' | TcMutation \<Rightarrow> ''mutation'' | TcCache \<Rightarrow> ''cache''
         | TcDeferred \<Rightarrow> ''deferred'' | TcLive \<Rightarrow> ''live'' | TcError \<Rightarrow> ''error'')"

definition MAX_TIMELINE_ITEMS :: nat where "MAX_TIMELINE_ITEMS = 5000"
definition MAX_TRACE_RESOURCES :: nat where "MAX_TRACE_RESOURCES = 100"

text \<open>Offsets are values of doubles; \<open>None\<close> is an overflow to infinity.\<close>

record waterfall_phase =
  wp_label :: jstring
  wp_durationMs :: jnum
  wp_offsetMs :: "rat option"

record timeline_item =
  ti_id :: jstring
  ti_sourceEventId :: jstring
  ti_timestamp :: jnum
  ti_primaryCategory :: timeline_category
  ti_categories :: "timeline_category list"
  ti_label :: jstring
  ti_summary :: jstring
  ti_detail :: "jstring option"
  ti_correlationId :: "jstring option"
  ti_durationMs :: "jnum option"
  ti_waterfall :: "waterfall_phase list"
  ti_searchText :: jstring

record item_options =
  io_id :: "jstring option"
  io_primary :: timeline_category
  io_categories :: "timeline_category list"
  io_label :: jstring
  io_summary :: jstring
  io_detail :: "jstring option"
  io_durationMs :: "jnum option"
  io_waterfall :: "waterfall_phase list"

definition item_of :: "timeline_category \<Rightarrow> timeline_category list \<Rightarrow> jstring \<Rightarrow> jstring \<Rightarrow> item_options" where
  "item_of primary categories label summary =
     \<lparr>io_id = None, io_primary = primary, io_categories = categories, io_label = label, io_summary = summary,
      io_detail = None, io_durationMs = None, io_waterfall = []\<rparr>"

definition uniqueCategories :: "timeline_category \<Rightarrow> timeline_category list \<Rightarrow> timeline_category list" where
  "uniqueCategories primary additional = jset_of (primary # additional)"

definition or_empty :: "jstring option \<Rightarrow> jstring" where
  "or_empty o' = (case o' of None \<Rightarrow> [] | Some s \<Rightarrow> s)"

definition makeItem :: "devtools_platform \<Rightarrow> devtools_event \<Rightarrow> item_options \<Rightarrow> timeline_item" where
  "makeItem p e options =
     (let categories = uniqueCategories (io_primary options) (io_categories options); correlationId = safe_correlation e in
      \<lparr>ti_id = (case io_id options of None \<Rightarrow> ev_id e | Some i \<Rightarrow> i), ti_sourceEventId = ev_id e,
       ti_timestamp = safe_timestamp (ev_timestamp e), ti_primaryCategory = io_primary options, ti_categories = categories,
       ti_label = io_label options, ti_summary = io_summary options, ti_detail = io_detail options,
       ti_correlationId = correlationId, ti_durationMs = io_durationMs options, ti_waterfall = io_waterfall options,
       ti_searchText = dv_localeLower p (join_with (js '' '')
         (filter (\<lambda>s. s \<noteq> [])
           ([io_label options, io_summary options, or_empty (io_detail options), or_empty correlationId] @
            map category_text categories)))\<rparr>)"

definition isErrorData :: "jsval \<Rightarrow> bool" where
  "isErrorData data \<longleftrightarrow>
     (let phase = safe_text 64 (field data ''phase'') in
      is_word phase ''error'' \<or> word_ends '':error'' phase \<or> is_text (field data ''state'') ''error'')"

definition categoriesFromSource :: "jsval \<Rightarrow> timeline_category list" where
  "categoriesFromSource data =
     (let source = safe_text 128 (field data ''source'') in
      if word_starts ''live'' source \<or> is_word source ''invalidate'' \<or> is_word source ''resync'' then [TcLive]
      else if word_starts ''mutation'' source then [TcMutation]
      else if word_includes ''deferred'' source then [TcDeferred]
      else [])"

text \<open>\<open>toFixed(1)\<close> of a number that is not negative; very large numbers are printed as they are.\<close>

definition to_fixed1 :: "jnum \<Rightarrow> jstring" where
  "to_fixed1 n =
     (case double_of n of
        None \<Rightarrow> num_string n
      | Some x \<Rightarrow>
          if 10 ^ 21 \<le> x then num_string n
          else
            let tenths = nat \<lfloor>x * 10 + 1 / 2\<rfloor> in nat_digits (tenths div 10) @ js ''.'' @ nat_digits (tenths mod 10))"

definition milliseconds :: "jnum \<Rightarrow> jstring" where
  "milliseconds n = to_fixed1 n @ js '' ms''"

section \<open>Server waterfalls\<close>

definition waterfall_part :: "jstring \<Rightarrow> jnum option \<Rightarrow> rat option \<Rightarrow> waterfall_phase option" where
  "waterfall_part label durationMs offsetMs =
     map_option (\<lambda>d. \<lparr>wp_label = label, wp_durationMs = d, wp_offsetMs = offsetMs\<rparr>) durationMs"

text \<open>\<open>x ?? 0\<close> and the sum of two such numbers, as doubles.\<close>

definition double_or_zero :: "jnum option \<Rightarrow> rat" where
  "double_or_zero o' = (case Option.bind o' double_of of None \<Rightarrow> 0 | Some x \<Rightarrow> x)"

definition double_sum :: "jnum option \<Rightarrow> jnum option \<Rightarrow> rat option" where
  "double_sum a b = to_double (double_or_zero a + double_or_zero b)"

definition resource_phase :: "jnum option \<Rightarrow> jsval \<Rightarrow> waterfall_phase option" where
  "resource_phase pageMs v =
     (if \<not> is_data v then None
      else
        (case safe_text DEFAULT_TEXT (field v ''key'') of
           None \<Rightarrow> None
         | Some key \<Rightarrow> waterfall_part key (safe_number (field v ''durationMs'')) (Some (double_or_zero pageMs))))"

definition serverWaterfall :: "jsval \<Rightarrow> waterfall_phase list" where
  "serverWaterfall data =
     (let num = (\<lambda>name. safe_number (field data name)) in
      List.map_filter id
        (if is_text (field data ''type'') ''page'' then
           [waterfall_part (js ''Page handler'') (num ''pageMs'') (Some 0)] @
           map (resource_phase (num ''pageMs'')) (take MAX_TRACE_RESOURCES (arr_items (field data ''resources''))) @
           [waterfall_part (js ''Serialize'') (num ''serializeMs'') (double_sum (num ''pageMs'') (num ''resourcesMs''))]
         else if is_text (field data ''type'') ''mutation'' then
           [waterfall_part (js ''Handler'') (num ''handlerMs'') (Some 0),
            waterfall_part (js ''Invalidation'') (num ''invalidationMs'') (Some (double_or_zero (num ''handlerMs''))),
            waterfall_part (js ''Serialize'') (num ''serializeMs'') (double_sum (num ''handlerMs'') (num ''invalidationMs''))]
         else []))"

section \<open>The items of an event\<close>

definition error_categories :: "jsval \<Rightarrow> timeline_category list" where
  "error_categories data = (if isErrorData data then [TcError] else [])"

definition load_categories :: "jstring option \<Rightarrow> timeline_category list" where
  "load_categories reason =
     (if word_includes ''deferred'' reason then [TcDeferred]
      else if word_starts ''live'' reason then [TcLive]
      else if is_word reason ''mutation'' then [TcMutation]
      else [])"

definition first_some :: "jstring option list \<Rightarrow> jstring option" where
  "first_some xs = foldr first_of xs None"

definition fixed_words :: "string \<Rightarrow> jstring option" where
  "fixed_words s = Some (js s)"

definition baseEventItem :: "devtools_platform \<Rightarrow> devtools_event \<Rightarrow> timeline_item" where
  "baseEventItem p e =
     (let data = (if is_data (ev_data e) then ev_data e else JObj 0 []);
          txt = (\<lambda>n name. safe_text n (field data name));
          phase = txt 64 ''phase'';
          errors = error_categories data;
          url = first_of (safe_path p (field data ''url'')) (safe_path p (field data ''path''));
          keys = keySummary data;
          resource_label = dot_words [fixed_words ''RESOURCE'', txt DEFAULT_TEXT ''key''] in
      makeItem p e
        (case ev_type e of
           DtNavigation \<Rightarrow>
             (item_of TcNavigation errors (js ''NAVIGATION'') (dot_words [phase, url]))\<lparr>io_detail := txt DEFAULT_TEXT ''component''\<rparr>
         | DtResourceLoad \<Rightarrow>
             (let reason = txt 64 ''reason''; related = load_categories reason; deferred = TcDeferred \<in> set related in
              (item_of (if deferred then TcDeferred else TcResource) ([TcResource] @ related @ errors)
                 (if deferred then js ''DEFERRED'' else js ''RESOURCE LOAD'') (dot_words [phase, reason, keys]))\<lparr>io_detail := url\<rparr>)
         | DtResourceUpdate \<Rightarrow>
             (item_of TcResource (categoriesFromSource data @ errors) resource_label
                (dot_words [fixed_words (if is_text (field data ''state'') ''error'' then ''error'' else ''updated''), txt 128 ''source'']))
                \<lparr>io_detail := txt 128 ''errorType''\<rparr>
         | DtResourceInvalidate \<Rightarrow>
             item_of TcResource (categoriesFromSource data) resource_label (dot_words [fixed_words ''invalidated'', txt 128 ''source''])
         | DtPageCache \<Rightarrow> item_of TcCache [] (js ''PAGE CACHE'') (dot_words [txt 64 ''action'', txt 128 ''source'', url])
         | DtPrefetch \<Rightarrow> item_of TcCache errors (js ''PREFETCH'') (dot_words [phase, url])
         | DtMutation \<Rightarrow>
             (item_of TcMutation errors (js ''MUTATION'') (dot_words [txt 32 ''method'', url, phase]))\<lparr>io_detail := txt 128 ''errorType''\<rparr>
         | DtDeferred \<Rightarrow> (item_of TcDeferred ([TcResource] @ errors) (js ''DEFERRED'') (dot_words [phase, keys]))\<lparr>io_detail := url\<rparr>
         | DtLive \<Rightarrow>
             (item_of TcLive errors (js ''LIVE'') (dot_words [phase, txt 64 ''eventType'', keys]))
                \<lparr>io_detail := first_of (txt 128 ''reason'') (txt 128 ''errorType'')\<rparr>
         | DtTransport \<Rightarrow>
             (let requestType = (if is_text (field data ''requestType'') ''mutation'' then TcMutation else TcNavigation);
                  durationMs = safe_number (field data ''durationMs''); starts = is_word phase ''start'' in
              (item_of requestType errors (js (if starts then ''REQUEST'' else ''RESPONSE''))
                 (if starts then dot_words [txt 32 ''method'', url]
                  else dot_words [map_option nat_digits (safe_integer (field data ''status'')), url, map_option milliseconds durationMs]))
                \<lparr>io_detail := txt 128 ''errorType'', io_durationMs := durationMs\<rparr>)
         | DtServerTrace \<Rightarrow>
             (let mutation = is_text (field data ''type'') ''mutation''; durationMs = safe_number (field data ''durationMs'') in
              (item_of (if mutation then TcMutation else TcNavigation) [] (js ''SERVER'')
                 (dot_words [fixed_words (if mutation then ''mutation trace'' else ''navigation trace''), map_option milliseconds durationMs]))
                \<lparr>io_detail := (if field data ''truncated'' = JBool True then fixed_words ''trace truncated'' else None),
                 io_durationMs := durationMs, io_waterfall := serverWaterfall data\<rparr>)
         | DtLifecycle \<Rightarrow>
             item_of (if word_starts ''live-'' phase then TcLive else TcNavigation) [] (js ''RUNTIME'')
               (case phase of None \<Rightarrow> js ''lifecycle'' | Some s \<Rightarrow> s)))"

definition trace_item_id :: "devtools_event \<Rightarrow> string \<Rightarrow> nat \<Rightarrow> jstring option" where
  "trace_item_id e part index = Some (ev_id e @ js part @ nat_digits index)"

definition resource_item :: "devtools_platform \<Rightarrow> devtools_event \<Rightarrow> nat \<times> jsval \<Rightarrow> timeline_item option" where
  "resource_item p e = (\<lambda>(index, v).
     let txt = (\<lambda>n name. safe_text n (field v name)); cacheResult = txt 64 ''cacheResult'' in
     if \<not> is_data v then None
     else
       (case (txt DEFAULT_TEXT ''key'', txt 64 ''result'', safe_number (field v ''durationMs'')) of
          (Some key, Some result, Some durationMs) \<Rightarrow>
            let categories =
                  (if is_word cacheResult ''hit'' \<or> is_word cacheResult ''miss'' then [TcCache] else []) @
                  (if field v ''deferred'' = JBool True \<or> result = js ''deferred'' then [TcDeferred] else []) @
                  (if result = js ''error'' then [TcError] else [])
            in Some (makeItem p e
                 ((item_of TcResource categories (js ''RESOURCE '' @ key) result)
                    \<lparr>io_id := trace_item_id e '':resource:'' index,
                     io_detail := Some (dot_words [txt 64 ''cacheBackend'', cacheResult, txt 64 ''scope'']),
                     io_durationMs := Some durationMs\<rparr>))
        | _ \<Rightarrow> None))"

definition numbered :: "'a list \<Rightarrow> (nat \<times> 'a) list" where
  "numbered xs = zip [0..<length xs] xs"

definition trace_rows :: "jsval \<Rightarrow> string \<Rightarrow> (nat \<times> jsval) list" where
  "trace_rows data name = numbered (take MAX_TRACE_RESOURCES (arr_items (field data name)))"

definition resourceTraceItems :: "devtools_platform \<Rightarrow> devtools_event \<Rightarrow> jsval \<Rightarrow> timeline_item list" where
  "resourceTraceItems p e data =
     (if is_text (field data ''type'') ''page'' then List.map_filter (resource_item p e) (trace_rows data ''resources'') else [])"

definition operation_text :: "jstring \<times> jsval \<Rightarrow> jstring option" where
  "operation_text = (\<lambda>(operation, count).
     map_option (\<lambda>n. operation @ [0x20, 0xD7] @ nat_digits n) (safe_integer count))"

definition patch_item :: "devtools_platform \<Rightarrow> devtools_event \<Rightarrow> nat \<times> jsval \<Rightarrow> timeline_item option" where
  "patch_item p e = (\<lambda>(index, v).
     if \<not> is_data v \<or> \<not> is_data (field v ''operations'') then None
     else
       map_option (\<lambda>key.
         let operations = List.map_filter operation_text (take 5 (obj_fields (field v ''operations'')));
             summary = join_with (js '', '') operations in
         makeItem p e
           ((item_of TcMutation [TcResource] (js ''PATCH '' @ key) (if summary = [] then js ''resource patch'' else summary))
              \<lparr>io_id := trace_item_id e '':patch:'' index\<rparr>))
         (safe_text DEFAULT_TEXT (field v ''key'')))"

definition invalidation_item :: "devtools_platform \<Rightarrow> devtools_event \<Rightarrow> nat \<times> jsval \<Rightarrow> timeline_item option" where
  "invalidation_item p e = (\<lambda>(index, v).
     map_option (\<lambda>key.
       makeItem p e
         ((item_of TcMutation [TcResource] (js ''INVALIDATE '' @ key) (js ''server invalidation''))
            \<lparr>io_id := trace_item_id e '':invalidate:'' index\<rparr>))
       (safe_text DEFAULT_TEXT v))"

definition signal_items :: "devtools_platform \<Rightarrow> devtools_event \<Rightarrow> jsval \<Rightarrow> timeline_item list" where
  "signal_items p e data =
     (case safe_integer (field data ''liveSignals'') of
        Some n \<Rightarrow>
          if 0 < n then
            [makeItem p e
               ((item_of TcLive [TcMutation] (js ''LIVE SIGNAL'') (nat_digits n @ js '' emitted''))
                  \<lparr>io_id := Some (ev_id e @ js '':live-signals'')\<rparr>)]
          else []
      | None \<Rightarrow> [])"

definition mutationTraceItems :: "devtools_platform \<Rightarrow> devtools_event \<Rightarrow> jsval \<Rightarrow> timeline_item list" where
  "mutationTraceItems p e data =
     (if is_text (field data ''type'') ''mutation'' then
        List.map_filter (patch_item p e) (trace_rows data ''patches'') @
        List.map_filter (invalidation_item p e) (trace_rows data ''invalidated'') @
        signal_items p e data
      else [])"

definition eventItems :: "devtools_platform \<Rightarrow> devtools_event \<Rightarrow> timeline_item list" where
  "eventItems p e =
     [baseEventItem p e] @
     (if ev_type e = DtServerTrace \<and> is_data (ev_data e)
      then resourceTraceItems p e (ev_data e) @ mutationTraceItems p e (ev_data e) else [])"

section \<open>The timeline\<close>

text \<open>The loop from the newest event to the oldest; what it has collected stays behind.\<close>

fun timeline_groups :: "devtools_platform \<Rightarrow> nat \<Rightarrow> devtools_event list \<Rightarrow> timeline_item list list" where
  "timeline_groups p remaining [] = []"
| "timeline_groups p remaining (e # older) =
     (if remaining = 0 then []
      else
        let group = eventItems p e in
        timeline_groups p (remaining - min (length group) remaining) older @ [take remaining group])"

definition deriveTimeline :: "devtools_platform \<Rightarrow> devtools_event list \<Rightarrow> timeline_item list" where
  "deriveTimeline p events = concat (timeline_groups p MAX_TIMELINE_ITEMS (rev events))"

definition filterTimeline ::
  "devtools_platform \<Rightarrow> timeline_item list \<Rightarrow> timeline_category list \<Rightarrow> jstring \<Rightarrow> timeline_item list" where
  "filterTimeline p items categories query =
     (let needle = take 256 (dv_localeLower p (js_trim query)) in
      filter (\<lambda>item.
        (categories = [] \<or> list_ex (\<lambda>c. c \<in> set categories) (ti_categories item)) \<and>
        (needle = [] \<or> includes_text needle (ti_searchText item))) items)"

end
