(* ===== verification/Devtools_Insights.thy ===== *)
theory Devtools_Insights
  imports Devtools_Timeline Resource_Store
begin

text \<open>
  The projections of the development tools: resources and cache observations
  (\<open>packages/devtools/src/insights.ts\<close>, \<open>cache-mutations.ts\<close>) and the history of mutations.
\<close>

section \<open>Resources\<close>

text \<open>Unlike \<open>safe_text\<close> this keeps the empty string; where the code tests truth it is refused.\<close>

definition safeString :: "nat \<Rightarrow> jsval \<Rightarrow> jstring option" where
  "safeString maximum v = (case v of JStr s \<Rightarrow> if length s \<le> maximum then Some s else None | _ \<Rightarrow> None)"

record resource_trace =
  rt_key :: jstring
  rt_result :: jstring
  rt_durationMs :: jnum
  rt_scope :: jstring
  rt_ttl :: jnum
  rt_deferred :: bool
  rt_live :: bool
  rt_cacheBackend :: jstring
  rt_cacheResult :: jstring
  rt_cacheMs :: "jnum option"
  rt_loaderMs :: "jnum option"
  rt_errorType :: "jstring option"

definition safeTraceResource :: "jsval \<Rightarrow> resource_trace option" where
  "safeTraceResource v =
     (if \<not> is_data v then None
      else
        (case (safeString DEFAULT_TEXT (field v ''key''), safeString 64 (field v ''result''), safe_number (field v ''durationMs''),
               safeString 64 (field v ''scope''), safe_number (field v ''ttl''), field v ''deferred'', field v ''live'',
               safeString 64 (field v ''cacheBackend''), safeString 64 (field v ''cacheResult'')) of
           (Some key, Some result, Some durationMs, Some scope, Some ttl, JBool deferred, JBool live, Some backend, Some cacheResult) \<Rightarrow>
             if key = [] \<or> result = [] \<or> scope = [] \<or> backend = [] \<or> cacheResult = [] then None
             else
               Some \<lparr>rt_key = key, rt_result = result, rt_durationMs = durationMs, rt_scope = scope, rt_ttl = ttl,
                     rt_deferred = deferred, rt_live = live, rt_cacheBackend = backend, rt_cacheResult = cacheResult,
                     rt_cacheMs = safe_number (field v ''cacheMs''), rt_loaderMs = safe_number (field v ''loaderMs''),
                     rt_errorType = safeString 128 (field v ''errorType'')\<rparr>
         | _ \<Rightarrow> None))"

definition serverTrace :: "devtools_event \<Rightarrow> jsval option" where
  "serverTrace e = (if ev_type e = DtServerTrace \<and> is_data (ev_data e) then Some (ev_data e) else None)"

text \<open>A search from the newest event, and the first answer it finds.\<close>

fun newest_event :: "(devtools_event \<Rightarrow> 'a option) \<Rightarrow> devtools_event list \<Rightarrow> 'a option" where
  "newest_event f [] = None"
| "newest_event f (e # later) = first_of (newest_event f later) (f e)"

definition latestServerDuration :: "devtools_event list \<Rightarrow> jnum option" where
  "latestServerDuration events =
     newest_event (\<lambda>e. Option.bind (serverTrace e) (\<lambda>trace. safe_number (field trace ''durationMs''))) events"

definition page_trace_resources :: "devtools_event \<Rightarrow> resource_trace list option" where
  "page_trace_resources e =
     Option.bind (serverTrace e) (\<lambda>trace.
       if is_text (field trace ''type'') ''page'' \<and> is_array (field trace ''resources'')
       then Some (List.map_filter safeTraceResource (arr_items (field trace ''resources''))) else None)"

definition latestPageResources :: "devtools_event list \<Rightarrow> resource_trace list" where
  "latestPageResources events = (case newest_event page_trace_resources events of None \<Rightarrow> [] | Some rs \<Rightarrow> rs)"

definition update_reason :: "devtools_event \<Rightarrow> (jstring \<times> jstring) option" where
  "update_reason e =
     (if ev_type e \<in> {DtResourceUpdate, DtResourceInvalidate} \<and> is_data (ev_data e) then
        (case (safeString DEFAULT_TEXT (field (ev_data e) ''key''), safeString 128 (field (ev_data e) ''source'')) of
           (Some key, Some source) \<Rightarrow> if key = [] \<or> source = [] then None else Some (key, source)
         | _ \<Rightarrow> None)
      else None)"

definition lastUpdateReasons :: "devtools_event list \<Rightarrow> (jstring, jstring) jmap" where
  "lastUpdateReasons events =
     fold (\<lambda>e reasons.
       case update_reason e of
         None \<Rightarrow> reasons
       | Some (key, source) \<Rightarrow> if jm_has reasons key then reasons else jm_set key source reasons) (rev events) []"

definition resourceSource :: "resource_trace option \<Rightarrow> jstring" where
  "resourceSource trace =
     (case trace of
        None \<Rightarrow> js ''runtime''
      | Some t \<Rightarrow>
          if rt_result t = js ''cache-hit'' then js ''cache''
          else if rt_result t = js ''cache-miss'' then js ''cache miss''
          else if rt_result t = js ''omitted-known'' then js ''known version''
          else rt_result t)"

definition isErrorEvent :: "devtools_event \<Rightarrow> bool" where
  "isErrorEvent e \<longleftrightarrow>
     is_data (ev_data e) \<and> (is_text (field (ev_data e) ''phase'') ''error'' \<or> is_text (field (ev_data e) ''state'') ''error'')"

record resource_insight =
  ri_metadata :: metadata_snapshot
  ri_source :: jstring
  ri_trace :: "resource_trace option"
  ri_deferred :: bool
  ri_live :: bool
  ri_lastUpdateReason :: "jstring option"

text \<open>The fields that are \<open>null\<close> without a trace are those of \<open>ri_trace\<close>.\<close>

record devtools_overview =
  ov_latestRequestMs :: "jnum option"
  ov_totalResources :: nat
  ov_readyResources :: nat
  ov_staleResources :: nat
  ov_pendingResources :: nat
  ov_errorResources :: nat
  ov_cacheHits :: nat
  ov_cacheMisses :: nat
  ov_deferredResources :: nat
  ov_liveResources :: nat
  ov_errorCount :: nat

definition number_of_items :: "('a \<Rightarrow> bool) \<Rightarrow> 'a list \<Rightarrow> nat" where
  "number_of_items P xs = length (filter P xs)"

definition resource_view :: "(jstring, resource_trace) jmap \<Rightarrow> (jstring, jstring) jmap \<Rightarrow> metadata_snapshot \<Rightarrow> resource_insight" where
  "resource_view traceByKey reasons resource =
     (let trace = jm_get traceByKey (m_key resource) in
      \<lparr>ri_metadata = resource, ri_source = resourceSource trace, ri_trace = trace,
       ri_deferred = (case trace of None \<Rightarrow> False | Some t \<Rightarrow> rt_deferred t),
       ri_live = (case trace of None \<Rightarrow> False | Some t \<Rightarrow> rt_live t),
       ri_lastUpdateReason = jm_get reasons (m_key resource)\<rparr>)"

definition deriveDevtoolsInsights ::
  "devtools_event list \<Rightarrow> metadata_snapshot list \<Rightarrow> nat \<Rightarrow> devtools_overview \<times> resource_insight list" where
  "deriveDevtoolsInsights events resources liveResourceCount =
     (let pageResources = latestPageResources events;
          traceByKey = foldl (\<lambda>m t. jm_set (rt_key t) t m) [] pageResources;
          reasons = lastUpdateReasons events;
          errorResources = number_of_items (\<lambda>r. m_status r = Error) resources;
          nonResourceErrors = number_of_items (\<lambda>e. ev_type e \<noteq> DtResourceUpdate \<and> isErrorEvent e) events in
      (\<lparr>ov_latestRequestMs = latestServerDuration events,
        ov_totalResources = length resources,
        ov_readyResources = number_of_items (\<lambda>r. m_status r = Ready) resources,
        ov_staleResources = number_of_items m_stale resources,
        ov_pendingResources = number_of_items (\<lambda>r. m_status r = Pending \<or> m_status r = Loading) resources,
        ov_errorResources = errorResources,
        ov_cacheHits = number_of_items (\<lambda>t. rt_cacheResult t = js ''hit'') pageResources,
        ov_cacheMisses = number_of_items (\<lambda>t. rt_cacheResult t = js ''miss'') pageResources,
        ov_deferredResources = number_of_items rt_deferred pageResources,
        ov_liveResources = max liveResourceCount (number_of_items rt_live pageResources),
        ov_errorCount = errorResources + nonResourceErrors\<rparr>,
       map (resource_view traceByKey reasons) resources))"

section \<open>Texts\<close>

definition formatDuration :: "jnum option \<Rightarrow> jstring" where
  "formatDuration v =
     (case v of
        None \<Rightarrow> [0x2014]
      | Some n \<Rightarrow>
          if num_less n (Dec 1 0) then milliseconds n
          else nat_digits (nat \<lfloor>double_or_zero (Some n) + 1 / 2\<rfloor>) @ js '' ms'')"

definition formatAge :: "nat option \<Rightarrow> int \<Rightarrow> jstring" where
  "formatAge updatedAt now =
     (case updatedAt of
        None \<Rightarrow> [0x2014]
      | Some t \<Rightarrow>
          let seconds = nat (max 0 ((now - int t) div 1000)); minutes = seconds div 60; hours = minutes div 60 in
          if seconds < 2 then js ''now''
          else if seconds < 60 then nat_digits seconds @ js ''s''
          else if minutes < 60 then nat_digits minutes @ js ''m''
          else if hours < 24 then nat_digits hours @ js ''h''
          else nat_digits (hours div 24) @ js ''d'')"

section \<open>Cache observations\<close>

definition MAX_CACHE_OBSERVATIONS :: nat where "MAX_CACHE_OBSERVATIONS = 100"
definition MAX_MUTATION_HISTORY :: nat where "MAX_MUTATION_HISTORY = 100"
definition MAX_TRACE_ROWS :: nat where "MAX_TRACE_ROWS = 100"

datatype cache_action = CacheHit | CacheMiss | CacheWrite

record browser_observation =
  bo_id :: jstring
  bo_timestamp :: jnum
  bo_action :: cache_action
  bo_source :: jstring
  bo_path :: jstring
  bo_correlationId :: "jstring option"

definition cache_action_of :: "jsval \<Rightarrow> cache_action option" where
  "cache_action_of v =
     (if is_text v ''hit'' then Some CacheHit else if is_text v ''miss'' then Some CacheMiss
      else if is_text v ''write'' then Some CacheWrite else None)"

definition browser_observation_of :: "devtools_platform \<Rightarrow> devtools_event \<Rightarrow> browser_observation option" where
  "browser_observation_of p e =
     (if ev_type e \<noteq> DtPageCache \<or> \<not> is_data (ev_data e) then None
      else
        map_option (\<lambda>action.
          \<lparr>bo_id = ev_id e, bo_timestamp = safe_timestamp (ev_timestamp e), bo_action = action,
           bo_source = (case safe_text 128 (field (ev_data e) ''source'') of None \<Rightarrow> js ''page cache'' | Some s \<Rightarrow> s),
           bo_path = (case safe_path p (field (ev_data e) ''url'') of None \<Rightarrow> js ''/'' | Some s \<Rightarrow> s),
           bo_correlationId = safe_correlation e\<rparr>)
          (cache_action_of (field (ev_data e) ''action'')))"

record browser_cache =
  bc_hits :: nat
  bc_misses :: nat
  bc_writes :: nat
  bc_observations :: "browser_observation list"

definition browserCacheInsights :: "devtools_platform \<Rightarrow> devtools_event list \<Rightarrow> browser_cache" where
  "browserCacheInsights p events =
     (let observations = take MAX_CACHE_OBSERVATIONS (List.map_filter (browser_observation_of p) (rev events)) in
      \<lparr>bc_hits = number_of_items (\<lambda>o'. bo_action o' = CacheHit) observations,
       bc_misses = number_of_items (\<lambda>o'. bo_action o' = CacheMiss) observations,
       bc_writes = number_of_items (\<lambda>o'. bo_action o' = CacheWrite) observations,
       bc_observations = observations\<rparr>)"

datatype lookup_result = LookupHit | LookupMiss | LookupBypass
datatype cache_backend = MemoryBackend | RedisBackend | CustomBackend

record server_observation =
  so_key :: jstring
  so_result :: jstring
  so_cacheResult :: lookup_result
  so_backend :: cache_backend
  so_durationMs :: jnum
  so_cacheMs :: "jnum option"
  so_loaderMs :: "jnum option"
  so_knownVersion :: bool
  so_sent :: bool

definition lookup_result_of :: "jsval \<Rightarrow> lookup_result option" where
  "lookup_result_of v =
     (if is_text v ''hit'' then Some LookupHit else if is_text v ''miss'' then Some LookupMiss
      else if is_text v ''bypass'' then Some LookupBypass else None)"

definition cache_backend_of :: "jsval \<Rightarrow> cache_backend option" where
  "cache_backend_of v =
     (if is_text v ''memory'' then Some MemoryBackend else if is_text v ''redis'' then Some RedisBackend
      else if is_text v ''custom'' then Some CustomBackend else None)"

definition safeServerResource :: "jsval \<Rightarrow> server_observation option" where
  "safeServerResource v =
     (if \<not> is_data v then None
      else
        (case (safe_text 128 (field v ''key''), safe_text 64 (field v ''result''), safe_number (field v ''durationMs''),
               lookup_result_of (field v ''cacheResult''), cache_backend_of (field v ''cacheBackend'')) of
           (Some key, Some result, Some durationMs, Some cacheResult, Some backend) \<Rightarrow>
             Some \<lparr>so_key = key, so_result = result, so_cacheResult = cacheResult, so_backend = backend,
                   so_durationMs = durationMs, so_cacheMs = safe_number (field v ''cacheMs''),
                   so_loaderMs = safe_number (field v ''loaderMs''), so_knownVersion = (field v ''knownVersion'' = JBool True),
                   so_sent = (field v ''sent'' \<noteq> JBool False)\<rparr>
         | _ \<Rightarrow> None))"

text \<open>The newest path of an event with the correlation.\<close>

definition correlatedPath :: "devtools_platform \<Rightarrow> devtools_event list \<Rightarrow> jstring option \<Rightarrow> jstring" where
  "correlatedPath p events correlationId =
     (if correlationId = None then js ''/''
      else
        (case newest_event (\<lambda>e.
             if safe_correlation e \<noteq> correlationId \<or> \<not> is_data (ev_data e) then None
             else first_of (safe_path p (field (ev_data e) ''path'')) (safe_path p (field (ev_data e) ''url''))) events of
           None \<Rightarrow> js ''/''
         | Some path \<Rightarrow> path))"

record server_request =
  sr_eventId :: jstring
  sr_timestamp :: jnum
  sr_correlationId :: "jstring option"
  sr_path :: jstring
  sr_durationMs :: jnum
  sr_hitCount :: nat
  sr_lookupCount :: nat
  sr_redisActive :: bool
  sr_knownVersionOmissions :: nat
  sr_truncated :: bool
  sr_resources :: "server_observation list"

definition server_request_of :: "devtools_platform \<Rightarrow> devtools_event list \<Rightarrow> devtools_event \<Rightarrow> server_request option" where
  "server_request_of p events e =
     (let data = ev_data e in
      if ev_type e \<noteq> DtServerTrace \<or> \<not> is_data data \<or> \<not> is_text (field data ''type'') ''page'' \<or>
         \<not> is_array (field data ''resources'') then None
      else
        let resources = List.map_filter safeServerResource (take MAX_TRACE_ROWS (arr_items (field data ''resources''))) in
        Some
          \<lparr>sr_eventId = ev_id e, sr_timestamp = safe_timestamp (ev_timestamp e), sr_correlationId = safe_correlation e,
           sr_path = correlatedPath p events (safe_correlation e),
           sr_durationMs = (case safe_number (field data ''durationMs'') of None \<Rightarrow> Dec 0 0 | Some n \<Rightarrow> n),
           sr_hitCount = number_of_items (\<lambda>r. so_cacheResult r = LookupHit) resources,
           sr_lookupCount = number_of_items (\<lambda>r. so_cacheResult r \<noteq> LookupBypass) resources,
           sr_redisActive = list_ex (\<lambda>r. so_backend r = RedisBackend) resources,
           sr_knownVersionOmissions =
             number_of_items (\<lambda>r. so_result r = js ''omitted-known'' \<or> (so_knownVersion r \<and> \<not> so_sent r)) resources,
           sr_truncated = (field data ''truncated'' = JBool True), sr_resources = resources\<rparr>)"

definition latestServerCacheRequest :: "devtools_platform \<Rightarrow> devtools_event list \<Rightarrow> server_request option" where
  "latestServerCacheRequest p events = newest_event (server_request_of p events) events"

definition deriveCacheInsights :: "devtools_platform \<Rightarrow> devtools_event list \<Rightarrow> browser_cache \<times> server_request option" where
  "deriveCacheInsights p events = (browserCacheInsights p events, latestServerCacheRequest p events)"

end
