(* ===== verification/Devtools_Mutations.thy ===== *)
theory Devtools_Mutations
  imports Devtools_Insights
begin

text \<open>
  The history of mutations of the development tools (\<open>packages/devtools/src/cache-mutations.ts\<close>): the
  events about one mutation are joined by their correlation into one entry.
\<close>

datatype mutation_result = ResultPending | ResultSuccess | ResultError

datatype redirect_kind = RedirectNone | RedirectInternal | RedirectExternal

record patch_insight =
  pi_key :: jstring
  pi_operations :: "(jstring \<times> nat) list"

text \<open>
  \<open>MutableMutation\<close>, whose fields other than \<open>updatedAt\<close> and \<open>startedAt\<close> are those of \<open>MutationInsight\<close>.
  \<open>durationMs\<close> may be computed, so it is the value of a double.
\<close>

record mutable_mutation =
  mm_id :: jstring
  mm_correlationId :: "jstring option"
  mm_timestamp :: jnum
  mm_updatedAt :: jnum
  mm_method :: jstring
  mm_path :: jstring
  mm_result :: mutation_result
  mm_errorType :: "jstring option"
  mm_durationMs :: "rat option"
  mm_handlerMs :: "jnum option"
  mm_invalidationMs :: "jnum option"
  mm_serializeMs :: "jnum option"
  mm_patches :: "patch_insight list"
  mm_invalidated :: "jstring list"
  mm_invalidationCount :: nat
  mm_liveSignals :: nat
  mm_redirect :: redirect_kind
  mm_truncated :: bool
  mm_startedAt :: "jnum option"

definition PATCH_OPERATIONS :: "string list" where
  "PATCH_OPERATIONS = [''replace-resource'', ''merge-object'', ''replace-item'', ''remove-item'', ''append-item'']"

definition safe_operation :: "jstring \<times> jsval \<Rightarrow> (jstring \<times> nat) option" where
  "safe_operation = (\<lambda>(name, count).
     case safe_integer count of
       Some n \<Rightarrow> if name \<in> set (map js PATCH_OPERATIONS) \<and> 0 < n then Some (name, n) else None
     | None \<Rightarrow> None)"

definition safePatch :: "jsval \<Rightarrow> patch_insight option" where
  "safePatch v =
     (if \<not> is_data v \<or> \<not> is_data (field v ''operations'') then None
      else
        map_option (\<lambda>key.
          \<lparr>pi_key = key, pi_operations = List.map_filter safe_operation (take 5 (obj_fields (field v ''operations'')))\<rparr>)
          (safe_text 128 (field v ''key'')))"

definition mutationIdentity :: "devtools_event \<Rightarrow> jstring" where
  "mutationIdentity e = (case safe_correlation e of None \<Rightarrow> js ''event:'' @ take 128 (ev_id e) | Some c \<Rightarrow> c)"

definition new_mutation :: "devtools_event \<Rightarrow> mutable_mutation" where
  "new_mutation e =
     (let timestamp = safe_timestamp (ev_timestamp e) in
      \<lparr>mm_id = mutationIdentity e, mm_correlationId = safe_correlation e, mm_timestamp = timestamp, mm_updatedAt = timestamp,
       mm_method = js ''POST'', mm_path = js ''/'', mm_result = ResultPending, mm_errorType = None, mm_durationMs = None,
       mm_handlerMs = None, mm_invalidationMs = None, mm_serializeMs = None, mm_patches = [], mm_invalidated = [],
       mm_invalidationCount = 0, mm_liveSignals = 0, mm_redirect = RedirectNone, mm_truncated = False, mm_startedAt = None\<rparr>)"

definition mutationFor :: "(jstring, mutable_mutation) jmap \<Rightarrow> devtools_event \<Rightarrow> mutable_mutation" where
  "mutationFor mutations e = (case jm_get mutations (mutationIdentity e) of None \<Rightarrow> new_mutation e | Some m \<Rightarrow> m)"

definition or_else :: "'a option \<Rightarrow> 'a \<Rightarrow> 'a" where
  "or_else o' d = (case o' of None \<Rightarrow> d | Some x \<Rightarrow> x)"

definition error_type_of :: "jsval \<Rightarrow> jstring" where
  "error_type_of data = or_else (safe_text 128 (field data ''errorType'')) (js ''Error'')"

definition observeMutationLifecycle :: "devtools_platform \<Rightarrow> devtools_event \<Rightarrow> jsval \<Rightarrow> mutable_mutation \<Rightarrow> mutable_mutation" where
  "observeMutationLifecycle p e data m =
     (let m = m\<lparr>mm_method := or_else (safe_text 32 (field data ''method'')) (mm_method m),
                mm_path := or_else (safe_path p (field data ''url'')) (mm_path m)\<rparr>;
          phase = safe_text 64 (field data ''phase'') in
      if is_word phase ''start'' then
        m\<lparr>mm_startedAt := Some (safe_timestamp (ev_timestamp e)), mm_timestamp := safe_timestamp (ev_timestamp e)\<rparr>
      else if is_word phase ''success'' then m\<lparr>mm_result := ResultSuccess\<rparr>
      else if is_word phase ''error'' then m\<lparr>mm_result := ResultError, mm_errorType := Some (error_type_of data)\<rparr>
      else m)"

definition double_value :: "jnum \<Rightarrow> rat" where
  "double_value n = double_or_zero (Some n)"

definition observeMutationTransport :: "devtools_platform \<Rightarrow> jsval \<Rightarrow> mutable_mutation \<Rightarrow> mutable_mutation" where
  "observeMutationTransport p data m =
     (let m = m\<lparr>mm_method := or_else (safe_text 32 (field data ''method'')) (mm_method m),
                mm_path := or_else (safe_path p (field data ''path'')) (mm_path m),
                mm_durationMs := first_of (map_option double_value (safe_number (field data ''durationMs''))) (mm_durationMs m)\<rparr> in
      if is_text (field data ''phase'') ''success'' \<and> mm_result m \<noteq> ResultError then m\<lparr>mm_result := ResultSuccess\<rparr>
      else if is_text (field data ''phase'') ''error'' then m\<lparr>mm_result := ResultError, mm_errorType := Some (error_type_of data)\<rparr>
      else m)"

definition redirect_of :: "jsval \<Rightarrow> redirect_kind option" where
  "redirect_of v =
     (if is_text v ''none'' then Some RedirectNone else if is_text v ''internal'' then Some RedirectInternal
      else if is_text v ''external'' then Some RedirectExternal else None)"

definition observeMutationTrace :: "jsval \<Rightarrow> mutable_mutation \<Rightarrow> mutable_mutation" where
  "observeMutationTrace data m =
     (let invalidated = List.map_filter (safe_text 128) (take MAX_TRACE_ROWS (arr_items (field data ''invalidated''))) in
      m\<lparr>mm_durationMs := first_of (map_option double_value (safe_number (field data ''durationMs''))) (mm_durationMs m),
        mm_handlerMs := safe_number (field data ''handlerMs''),
        mm_invalidationMs := safe_number (field data ''invalidationMs''),
        mm_serializeMs := safe_number (field data ''serializeMs''),
        mm_patches := List.map_filter safePatch (take MAX_TRACE_ROWS (arr_items (field data ''patches''))),
        mm_invalidated := invalidated,
        mm_invalidationCount := or_else (safe_integer (field data ''invalidationCount'')) (length invalidated),
        mm_liveSignals := or_else (safe_integer (field data ''liveSignals'')) 0,
        mm_redirect := or_else (redirect_of (field data ''redirect'')) (mm_redirect m),
        mm_truncated := (field data ''truncated'' = JBool True)\<rparr>)"

text \<open>The duration that is computed when none was reported.\<close>

definition complete_duration :: "mutable_mutation \<Rightarrow> mutable_mutation" where
  "complete_duration m =
     (case (mm_durationMs m, mm_startedAt m) of
        (None, Some startedAt) \<Rightarrow>
          if mm_result m = ResultPending then m
          else m\<lparr>mm_durationMs := map_option (max 0) (to_double (double_value (mm_updatedAt m) - double_value startedAt))\<rparr>
      | _ \<Rightarrow> m)"

definition later :: "jnum \<Rightarrow> jnum \<Rightarrow> jnum" where
  "later a b = (if num_less a b then b else a)"

text \<open>An event is about a mutation by its lifecycle, its transport or its server trace.\<close>

definition about_mutation :: "devtools_event \<Rightarrow> bool" where
  "about_mutation e \<longleftrightarrow>
     is_data (ev_data e) \<and>
     (ev_type e = DtMutation \<or> (ev_type e = DtTransport \<and> is_text (field (ev_data e) ''requestType'') ''mutation'') \<or>
      (ev_type e = DtServerTrace \<and> is_text (field (ev_data e) ''type'') ''mutation''))"

definition observe_mutation :: "devtools_platform \<Rightarrow> devtools_event \<Rightarrow> mutable_mutation \<Rightarrow> mutable_mutation" where
  "observe_mutation p e m =
     (let data = ev_data e;
          m = m\<lparr>mm_updatedAt := later (mm_updatedAt m) (safe_timestamp (ev_timestamp e))\<rparr>;
          m = (if ev_type e = DtMutation then observeMutationLifecycle p e data m
               else if ev_type e = DtTransport then observeMutationTransport p data m
               else observeMutationTrace data m)
      in complete_duration m)"

definition history_step ::
  "devtools_platform \<Rightarrow> devtools_event \<Rightarrow> (jstring, mutable_mutation) jmap \<Rightarrow> (jstring, mutable_mutation) jmap" where
  "history_step p e mutations =
     (if \<not> about_mutation e then mutations
      else jm_set (mutationIdentity e) (observe_mutation p e (mutationFor mutations e)) mutations)"

definition newer_first :: "mutable_mutation \<Rightarrow> mutable_mutation \<Rightarrow> bool" where
  "newer_first a b \<longleftrightarrow> \<not> num_less (mm_updatedAt a) (mm_updatedAt b)"

text \<open>The code leaves \<open>updatedAt\<close> and \<open>startedAt\<close> out of the entries it returns.\<close>

definition deriveMutationHistory :: "devtools_platform \<Rightarrow> devtools_event list \<Rightarrow> mutable_mutation list" where
  "deriveMutationHistory p events =
     take MAX_MUTATION_HISTORY (sort_by newer_first (map snd (fold (history_step p) events [])))"

definition serverCacheResultLabel :: "devtools_platform \<Rightarrow> server_observation \<Rightarrow> jstring" where
  "serverCacheResultLabel p r =
     (if so_result r = js ''omitted-known'' then js ''KNOWN''
      else if so_cacheResult r = LookupHit then js ''HIT''
      else if so_cacheResult r = LookupMiss then js ''MISS''
      else if so_result r = js ''loader'' then js ''LOADER''
      else dv_localeUpper p (map (\<lambda>c. if c = 0x2D then 0x20 else c) (so_result r)))"

definition mutationResultLabel :: "mutable_mutation \<Rightarrow> jstring" where
  "mutationResultLabel m =
     (case mm_result m of
        ResultPending \<Rightarrow> js ''pending''
      | ResultSuccess \<Rightarrow> js ''success''
      | ResultError \<Rightarrow> if mm_errorType m = Some (js ''ValidationError'') then js ''validation error'' else js ''error'')"

end
