(* ===== verification/Devtools_Protocol.thy ===== *)
theory Devtools_Protocol
  imports Devtools_Mutations
begin

text \<open>
  The projections of the development tools about the live connection and about the latest request
  (\<open>packages/devtools/src/live-protocol.ts\<close>).
\<close>

section \<open>Live observations\<close>

definition MAX_LIVE_OBSERVATIONS :: nat where "MAX_LIVE_OBSERVATIONS = 100"
definition MAX_PROTOCOL_ITEMS :: nat where "MAX_PROTOCOL_ITEMS = 100"

record live_observation =
  lo_id :: jstring
  lo_timestamp :: jnum
  lo_label :: jstring
  lo_detail :: jstring
  lo_keyCount :: "nat option"
  lo_reconnectAttempt :: "nat option"
  lo_correlationId :: "jstring option"
  lo_error :: bool

definition live_label :: "devtools_platform \<Rightarrow> jstring \<Rightarrow> jstring option \<Rightarrow> jstring option \<Rightarrow> jstring" where
  "live_label p phase eventType reason =
     (if phase = js ''connect:start'' then js ''CONNECTING''
      else if phase = js ''connect:open'' then js ''CONNECTED''
      else if phase = js ''connect:close'' then if is_word reason ''offline'' then js ''OFFLINE'' else js ''DISCONNECTED''
      else if phase = js ''connect:error'' then js ''CONNECTION ERROR''
      else if phase = js ''reconnect'' then js ''RECONNECT''
      else if phase = js ''event'' \<and> eventType \<noteq> None then dv_localeUpper p (the eventType)
      else dv_localeUpper p phase)"

definition liveObservation :: "devtools_platform \<Rightarrow> devtools_event \<Rightarrow> live_observation option" where
  "liveObservation p e =
     (let data = ev_data e; reason = safe_text 64 (field data ''reason'') in
      if \<not> is_data data then None
      else if ev_type e = DtResourceLoad then
        (if \<not> is_word reason ''live'' \<and> \<not> is_word reason ''live-reconnect'' then None
         else
           let phase = or_else (safe_text 64 (field data ''phase'')) (js ''refresh'') in
           Some \<lparr>lo_id = ev_id e, lo_timestamp = safe_timestamp (ev_timestamp e), lo_label = js ''CANONICAL REFRESH'',
                 lo_detail = (if is_word reason ''live-reconnect'' then js ''resync'' else js ''live'') @ middle_dot @ phase,
                 lo_keyCount = safe_integer (field data ''keyCount''), lo_reconnectAttempt = None,
                 lo_correlationId = safe_correlation e, lo_error = (phase = js ''error'')\<rparr>)
      else if ev_type e \<noteq> DtLive then None
      else
        let phase = or_else (safe_text 64 (field data ''phase'')) (js ''event'');
            eventType = safe_text 64 (field data ''eventType'');
            reason = safe_text 128 (field data ''reason'');
            detail = List.map_filter id
              [reason,
               if field data ''selfOriginated'' = JBool True then Some (js ''self-originated'') else None,
               if field data ''willReconnect'' = JBool True then Some (js ''will reconnect'') else None]
        in Some \<lparr>lo_id = ev_id e, lo_timestamp = safe_timestamp (ev_timestamp e), lo_label = live_label p phase eventType reason,
                 lo_detail = join_with middle_dot detail, lo_keyCount = safe_integer (field data ''keyCount''),
                 lo_reconnectAttempt = safe_integer (field data ''reconnectAttempt''), lo_correlationId = safe_correlation e,
                 lo_error = (phase = js ''connect:error'' \<or> safe_text 128 (field data ''errorType'') \<noteq> None)\<rparr>)"

record live_insights =
  li_reconnectCount :: nat
  li_resyncCount :: nat
  li_queueOverflowCount :: nat
  li_lastEvent :: "live_observation option"
  li_observations :: "live_observation list"

definition live_phase :: "devtools_event \<Rightarrow> string \<Rightarrow> bool" where
  "live_phase e phase \<longleftrightarrow> ev_type e = DtLive \<and> is_data (ev_data e) \<and> is_text (field (ev_data e) ''phase'') phase"

definition live_resync :: "devtools_event \<Rightarrow> bool" where
  "live_resync e \<longleftrightarrow> live_phase e ''event'' \<and> is_text (field (ev_data e) ''eventType'') ''resync''"

definition live_insight_step :: "devtools_platform \<Rightarrow> devtools_event \<Rightarrow> live_insights \<Rightarrow> live_insights" where
  "live_insight_step p e s =
     (let s = s\<lparr>li_reconnectCount := li_reconnectCount s + (if live_phase e ''reconnect'' then 1 else 0),
                li_resyncCount := li_resyncCount s + (if live_resync e then 1 else 0),
                li_queueOverflowCount := li_queueOverflowCount s +
                  (if live_resync e \<and> is_text (field (ev_data e) ''reason'') ''overflow'' then 1 else 0)\<rparr> in
      case liveObservation p e of
        None \<Rightarrow> s
      | Some observation \<Rightarrow>
          s\<lparr>li_lastEvent := (if live_phase e ''event'' then Some observation else li_lastEvent s),
            li_observations := li_observations s @ [observation]\<rparr>)"

definition last_items :: "nat \<Rightarrow> 'a list \<Rightarrow> 'a list" where
  "last_items n xs = drop (length xs - n) xs"

definition deriveLiveInsights :: "devtools_platform \<Rightarrow> devtools_event list \<Rightarrow> live_insights" where
  "deriveLiveInsights p events =
     (let s = fold (live_insight_step p) events
            \<lparr>li_reconnectCount = 0, li_resyncCount = 0, li_queueOverflowCount = 0, li_lastEvent = None, li_observations = []\<rparr>
      in s\<lparr>li_observations := last_items MAX_LIVE_OBSERVATIONS (li_observations s)\<rparr>)"

section \<open>The latest request\<close>

definition stringList :: "jsval \<Rightarrow> jstring list" where
  "stringList v = List.map_filter (safe_text 128) (take MAX_PROTOCOL_ITEMS (arr_items v))"

definition known_version :: "jsval \<Rightarrow> (jstring \<times> jstring) option" where
  "known_version v =
     (if \<not> is_data v then None
      else
        (case (safe_text 128 (field v ''key''), safe_text 128 (field v ''version'')) of
           (Some key, Some version) \<Rightarrow> Some (key, version)
         | _ \<Rightarrow> None))"

definition knownVersionList :: "jsval \<Rightarrow> (jstring \<times> jstring) list" where
  "knownVersionList v = List.map_filter known_version (take MAX_PROTOCOL_ITEMS (arr_items v))"

definition transport_phase :: "devtools_event \<Rightarrow> string \<Rightarrow> bool" where
  "transport_phase e phase \<longleftrightarrow> ev_type e = DtTransport \<and> is_data (ev_data e) \<and> is_text (field (ev_data e) ''phase'') phase"

definition requestAnchor :: "devtools_event list \<Rightarrow> devtools_event option" where
  "requestAnchor events =
     newest_event (\<lambda>e. if is_data (ev_data e) \<and> (ev_type e = DtServerTrace \<or> transport_phase e ''start'') then Some e else None) events"

definition sameRequest :: "devtools_event \<Rightarrow> devtools_event \<Rightarrow> bool" where
  "sameRequest e anchor \<longleftrightarrow>
     (if safe_correlation anchor = None then ev_id e = ev_id anchor else safe_correlation e = safe_correlation anchor)"

record response_summary =
  rs_resourceObservations :: nat
  rs_resourcesSent :: nat
  rs_resourcesOmitted :: nat
  rs_deferred :: nat
  rs_errors :: nat
  rs_patchResources :: nat
  rs_invalidations :: nat
  rs_liveSignals :: nat

definition emptyResponse :: response_summary where
  "emptyResponse =
     \<lparr>rs_resourceObservations = 0, rs_resourcesSent = 0, rs_resourcesOmitted = 0, rs_deferred = 0, rs_errors = 0,
      rs_patchResources = 0, rs_invalidations = 0, rs_liveSignals = 0\<rparr>"

definition pageResponse :: "jsval \<Rightarrow> response_summary" where
  "pageResponse data =
     (let resources = filter is_data (take 256 (arr_items (field data ''resources'')));
          has = (\<lambda>name b r. field r name = JBool b); result = (\<lambda>s r. is_text (field r ''result'') s) in
      emptyResponse
        \<lparr>rs_resourceObservations := length resources,
         rs_resourcesSent := number_of_items (has ''sent'' True) resources,
         rs_resourcesOmitted := number_of_items (\<lambda>r. result ''omitted-known'' r \<or> (has ''knownVersion'' True r \<and> has ''sent'' False r)) resources,
         rs_deferred := number_of_items (\<lambda>r. result ''deferred'' r \<or> has ''deferred'' True r) resources,
         rs_errors := number_of_items (result ''error'') resources\<rparr>)"

definition mutationResponse :: "jsval \<Rightarrow> response_summary" where
  "mutationResponse data =
     emptyResponse
       \<lparr>rs_patchResources := min (length (arr_items (field data ''patches''))) MAX_PROTOCOL_ITEMS,
        rs_invalidations := or_else (safe_integer (field data ''invalidationCount'')) 0,
        rs_liveSignals := or_else (safe_integer (field data ''liveSignals'')) 0\<rparr>"

datatype server_trace_status = TracePending | TraceMissing | TraceValid | TraceInvalid | TraceUnsupported

record protocol_request =
  pr_id :: jstring
  pr_correlationId :: "jstring option"
  pr_timestamp :: jnum
  pr_mutation :: bool
  pr_method :: jstring
  pr_path :: jstring
  pr_status :: mutation_result
  pr_httpStatus :: "nat option"
  pr_durationMs :: "jnum option"
  pr_protocol :: jstring
  pr_diagnosticProtocol :: "jstring option"
  pr_capabilities :: "jstring list"
  pr_knownVersions :: "(jstring \<times> jstring) list"
  pr_only :: "jstring list"
  pr_serverTrace :: server_trace_status
  pr_response :: response_summary
  pr_truncated :: bool
  pr_ssr :: bool

definition data_of :: "devtools_event option \<Rightarrow> jsval" where
  "data_of e = (case e of Some e \<Rightarrow> if is_data (ev_data e) then ev_data e else JObj 0 [] | None \<Rightarrow> JObj 0 [])"

definition trace_status_of :: "jstring option \<Rightarrow> bool \<Rightarrow> server_trace_status" where
  "trace_status_of s traced =
     (if is_word s ''missing'' then TraceMissing
      else if is_word s ''valid'' then TraceValid
      else if is_word s ''invalid'' then TraceInvalid
      else if is_word s ''unsupported'' then TraceUnsupported
      else if traced then TraceValid else TracePending)"

definition deriveProtocolRequest :: "devtools_platform \<Rightarrow> devtools_event list \<Rightarrow> protocol_request option" where
  "deriveProtocolRequest p events =
     map_option (\<lambda>anchor.
       let related = filter (\<lambda>e. sameRequest e anchor) events;
           start = find (\<lambda>e. transport_phase e ''start'') related;
           finish = find (\<lambda>e. transport_phase e ''success'' \<or> transport_phase e ''error'') (rev related);
           trace = find (\<lambda>e. ev_type e = DtServerTrace) (rev related);
           startData = data_of start; finishData = data_of finish; traceData = data_of trace;
           mutation = is_text (field startData ''requestType'') ''mutation'' \<or> is_text (field traceData ''type'') ''mutation'';
           finishPhase = safe_text 64 (field finishData ''phase'');
           ssr = is_text (field traceData ''source'') ''ssr'' in
       \<lparr>pr_id = or_else (safe_correlation anchor) (ev_id anchor),
        pr_correlationId = safe_correlation anchor,
        pr_timestamp = safe_timestamp (ev_timestamp (or_else (first_of start trace) anchor)),
        pr_mutation = mutation,
        pr_method = or_else (safe_text 32 (field startData ''method'')) (if mutation then js ''POST'' else js ''GET''),
        pr_path = or_else (first_of (safe_path p (field startData ''path'')) (safe_path p (field traceData ''path''))) (js ''/''),
        pr_status = (if is_word finishPhase ''success'' then ResultSuccess else if is_word finishPhase ''error'' then ResultError
                     else if ssr then ResultSuccess else ResultPending),
        pr_httpStatus = safe_integer (field finishData ''status''),
        pr_durationMs = first_of (safe_number (field finishData ''durationMs'')) (safe_number (field traceData ''durationMs'')),
        pr_protocol = or_else (safe_text 64 (field startData ''protocol'')) (js ''fluxfast/1''),
        pr_diagnosticProtocol =
          first_of (safe_text 64 (field traceData ''protocol'')) (safe_text 64 (field finishData ''serverTraceProtocol'')),
        pr_capabilities = stringList (field startData ''capabilities''),
        pr_knownVersions = knownVersionList (field startData ''knownVersions''),
        pr_only = stringList (field startData ''only''),
        pr_serverTrace = trace_status_of (safe_text 32 (field finishData ''serverTrace'')) (trace \<noteq> None),
        pr_response =
          (if is_text (field traceData ''type'') ''mutation'' then mutationResponse traceData
           else if is_text (field traceData ''type'') ''page'' then pageResponse traceData
           else emptyResponse),
        pr_truncated = (field traceData ''truncated'' = JBool True), pr_ssr = ssr\<rparr>)
       (requestAnchor events)"

definition abbreviatedVersion :: "jstring \<Rightarrow> jstring" where
  "abbreviatedVersion version = (if length version \<le> 14 then version else take 11 version @ [0x2026])"

end
