(* ===== verification/Devtools_Store.thy ===== *)
theory Devtools_Store
  imports Devtools_Protocol Live_Manager
begin

text \<open>
  The store of the development tools (\<open>packages/devtools/src/store.ts\<close>), which keeps a bounded list of
  diagnostic events beside what it last read from the router, and the preferences of the panel
  (\<open>ui-preferences.ts\<close>).
\<close>

section \<open>The store\<close>

definition DEFAULT_MAX_EVENTS :: nat where "DEFAULT_MAX_EVENTS = 500"
definition HARD_MAX_EVENTS :: nat where "HARD_MAX_EVENTS = 5000"

text \<open>What the store reads from the router; \<open>rv_liveKeys\<close> is the number of keys of its live manifest.\<close>

record router_view =
  rv_resources :: "metadata_snapshot list"
  rv_component :: jstring
  rv_url :: jstring
  rv_live :: live_snapshot
  rv_liveKeys :: nat
  rv_clientId :: jstring

record page_view =
  pv_component :: jstring
  pv_url :: jstring

record devtools_snapshot =
  sn_events :: "devtools_event list"
  sn_resources :: "metadata_snapshot list"
  sn_page :: page_view
  sn_live :: live_snapshot
  sn_liveResourceCount :: nat
  sn_clientId :: jstring
  sn_selectedEventId :: "jstring option"

text \<open>
  The four subscriptions are made and ended together, so they are one flag. \<open>ds_calls\<close> logs the
  listeners that were called (the panel's, which only read the snapshot), \<open>ds_microtasks\<close> counts the
  tasks that are queued.
\<close>

record devtools_store =
  ds_maxEvents :: nat
  ds_listeners :: "callback list"
  ds_events :: "devtools_event list"
  ds_resources :: "metadata_snapshot list"
  ds_page :: page_view
  ds_live :: live_snapshot
  ds_liveResourceCount :: nat
  ds_selectedEventId :: "jstring option"
  ds_snapshot :: devtools_snapshot
  ds_started :: bool
  ds_microtasks :: nat
  ds_calls :: "callback list"

definition EMPTY_PAGE :: page_view where
  "EMPTY_PAGE = \<lparr>pv_component = [], pv_url = js ''/''\<rparr>"

definition EMPTY_LIVE :: live_snapshot where
  "EMPTY_LIVE = \<lparr>ls_status = LsIdle, ls_connected = False, ls_reconnectAttempt = 0, ls_lastEventAt = None\<rparr>"

definition page_safePath :: "devtools_platform \<Rightarrow> jstring \<Rightarrow> jstring" where
  "page_safePath p s =
     or_slash (take 2048 (case dv_pathname p s of Some u \<Rightarrow> u | None \<Rightarrow> before_query s))"

definition pageSnapshot :: "devtools_platform \<Rightarrow> router_view \<Rightarrow> page_view" where
  "pageSnapshot p v = \<lparr>pv_component = take 2048 (rv_component v), pv_url = page_safePath p (or_slash (rv_url v))\<rparr>"

definition validateMaximum :: "jnum \<Rightarrow> nat option" where
  "validateMaximum n =
     (if num_is_integer n \<and> 1 \<le> num_val n \<and> num_val n \<le> of_nat HARD_MAX_EVENTS then Some (nat \<lfloor>num_val n\<rfloor>) else None)"

text \<open>The constructor; \<open>None\<close> is a \<open>RangeError\<close>.\<close>

definition new_devtools_store :: "jnum \<Rightarrow> devtools_store option" where
  "new_devtools_store maxEvents =
     map_option (\<lambda>n.
       \<lparr>ds_maxEvents = n, ds_listeners = [], ds_events = [], ds_resources = [], ds_page = EMPTY_PAGE, ds_live = EMPTY_LIVE,
        ds_liveResourceCount = 0, ds_selectedEventId = None,
        ds_snapshot = \<lparr>sn_events = [], sn_resources = [], sn_page = EMPTY_PAGE, sn_live = EMPTY_LIVE, sn_liveResourceCount = 0,
                       sn_clientId = [], sn_selectedEventId = None\<rparr>,
        ds_started = False, ds_microtasks = 0, ds_calls = []\<rparr>) (validateMaximum maxEvents)"

definition ds_subscribe :: "callback \<Rightarrow> devtools_store \<Rightarrow> devtools_store" where
  "ds_subscribe listener s = s\<lparr>ds_listeners := jset_add listener (ds_listeners s)\<rparr>"

definition ds_unsubscribe :: "callback \<Rightarrow> devtools_store \<Rightarrow> devtools_store" where
  "ds_unsubscribe listener s = s\<lparr>ds_listeners := jset_delete listener (ds_listeners s)\<rparr>"

definition publish :: "router_view \<Rightarrow> devtools_store \<Rightarrow> devtools_store" where
  "publish v s =
     s\<lparr>ds_snapshot :=
         \<lparr>sn_events = ds_events s, sn_resources = ds_resources s, sn_page = ds_page s, sn_live = ds_live s,
          sn_liveResourceCount = ds_liveResourceCount s, sn_clientId = take 128 (rv_clientId v),
          sn_selectedEventId = ds_selectedEventId s\<rparr>,
       ds_calls := ds_calls s @ ds_listeners s\<rparr>"

definition has_event :: "devtools_event list \<Rightarrow> jstring \<Rightarrow> bool" where
  "has_event events i \<longleftrightarrow> i \<in> set (map ev_id events)"

text \<open>The callbacks of the four subscriptions.\<close>

definition on_diagnostic :: "router_view \<Rightarrow> devtools_event \<Rightarrow> devtools_store \<Rightarrow> devtools_store" where
  "on_diagnostic v e s =
     (let events = drop (length (ds_events s) + 1 - ds_maxEvents s) (ds_events s) @ [e] in
      publish v
        (s\<lparr>ds_events := events,
           ds_selectedEventId :=
             (case ds_selectedEventId s of None \<Rightarrow> None | Some i \<Rightarrow> if has_event events i then Some i else None)\<rparr>))"

definition on_resources :: "router_view \<Rightarrow> devtools_store \<Rightarrow> devtools_store" where
  "on_resources v s = publish v (s\<lparr>ds_resources := rv_resources v\<rparr>)"

definition on_page :: "devtools_platform \<Rightarrow> router_view \<Rightarrow> devtools_store \<Rightarrow> devtools_store" where
  "on_page p v s =
     (let s = publish v (s\<lparr>ds_page := pageSnapshot p v, ds_liveResourceCount := rv_liveKeys v\<rparr>)
      in s\<lparr>ds_microtasks := ds_microtasks s + 1\<rparr>)"

definition on_microtask :: "router_view \<Rightarrow> devtools_store \<Rightarrow> devtools_store" where
  "on_microtask v s =
     (let s = s\<lparr>ds_microtasks := ds_microtasks s - 1\<rparr> in
      if \<not> ds_started s \<or> rv_liveKeys v = ds_liveResourceCount s then s
      else publish v (s\<lparr>ds_liveResourceCount := rv_liveKeys v\<rparr>))"

definition on_live :: "router_view \<Rightarrow> devtools_store \<Rightarrow> devtools_store" where
  "on_live v s = publish v (s\<lparr>ds_live := rv_live v, ds_liveResourceCount := rv_liveKeys v\<rparr>)"

text \<open>
  \<open>bootstrap\<close> are the events that the hub kept for its first subscriber; it delivers them while
  \<open>subscribe\<close> runs.
\<close>

definition ds_start :: "devtools_platform \<Rightarrow> router_view \<Rightarrow> devtools_event list \<Rightarrow> devtools_store \<Rightarrow> devtools_store" where
  "ds_start p v bootstrap s =
     (if ds_started s then s
      else
        let s = s\<lparr>ds_resources := rv_resources v, ds_page := pageSnapshot p v, ds_live := rv_live v,
                  ds_liveResourceCount := rv_liveKeys v\<rparr>;
            s = fold (on_diagnostic v) bootstrap s
        in publish v (s\<lparr>ds_started := True\<rparr>))"

definition ds_stop :: "devtools_store \<Rightarrow> devtools_store" where
  "ds_stop s = s\<lparr>ds_started := False\<rparr>"

definition clearTimeline :: "router_view \<Rightarrow> devtools_store \<Rightarrow> devtools_store" where
  "clearTimeline v s =
     (if ds_events s = [] \<and> ds_selectedEventId s = None then s
      else publish v (s\<lparr>ds_events := [], ds_selectedEventId := None\<rparr>))"

definition selectEvent :: "router_view \<Rightarrow> jstring option \<Rightarrow> devtools_store \<Rightarrow> devtools_store" where
  "selectEvent v i s =
     (let next = (case i of None \<Rightarrow> None | Some i \<Rightarrow> if has_event (ds_events s) i then Some i else None) in
      if next = ds_selectedEventId s then s else publish v (s\<lparr>ds_selectedEventId := next\<rparr>))"

text \<open>Everything that can happen to the store, each with what the router holds at that moment.\<close>

datatype devtools_operation =
    DsSubscribe callback
  | DsUnsubscribe callback
  | DsStart router_view "devtools_event list"
  | DsStop
  | DsDiagnostic router_view devtools_event
  | DsResources router_view
  | DsPage router_view
  | DsMicrotask router_view
  | DsLive router_view
  | DsClear router_view
  | DsSelect router_view "jstring option"

fun devtools_step :: "devtools_platform \<Rightarrow> devtools_operation \<Rightarrow> devtools_store \<Rightarrow> devtools_store" where
  "devtools_step p (DsSubscribe l) s = ds_subscribe l s"
| "devtools_step p (DsUnsubscribe l) s = ds_unsubscribe l s"
| "devtools_step p (DsStart v bootstrap) s = ds_start p v bootstrap s"
| "devtools_step p DsStop s = ds_stop s"
| "devtools_step p (DsDiagnostic v e) s = (if ds_started s then on_diagnostic v e s else s)"
| "devtools_step p (DsResources v) s = (if ds_started s then on_resources v s else s)"
| "devtools_step p (DsPage v) s = (if ds_started s then on_page p v s else s)"
| "devtools_step p (DsMicrotask v) s = (if 0 < ds_microtasks s then on_microtask v s else s)"
| "devtools_step p (DsLive v) s = (if ds_started s then on_live v s else s)"
| "devtools_step p (DsClear v) s = clearTimeline v s"
| "devtools_step p (DsSelect v i) s = selectEvent v i s"

section \<open>Preferences of the panel\<close>

datatype devtools_panel = PnOverview | PnResources | PnTimeline | PnCache | PnMutations | PnLive | PnProtocol
datatype devtools_theme = ThSystem | ThLight | ThDark
datatype devtools_position = PsBottom | PsRight

definition MIN_PANEL_HEIGHT :: int where "MIN_PANEL_HEIGHT = 240"
definition DEFAULT_PANEL_HEIGHT :: int where "DEFAULT_PANEL_HEIGHT = 420"

record ui_preferences =
  up_open :: bool
  up_panel :: devtools_panel
  up_panelHeight :: int
  up_theme :: devtools_theme
  up_position :: devtools_position

definition assoc_text :: "(string \<times> 'a) list \<Rightarrow> jsval \<Rightarrow> 'a option" where
  "assoc_text table v = (case v of JStr s \<Rightarrow> map_of (map (\<lambda>(k, x). (js k, x)) table) s | _ \<Rightarrow> None)"

definition isPanel :: "jsval \<Rightarrow> devtools_panel option" where
  "isPanel = assoc_text
     [(''overview'', PnOverview), (''resources'', PnResources), (''timeline'', PnTimeline), (''cache'', PnCache),
      (''mutations'', PnMutations), (''live'', PnLive), (''protocol'', PnProtocol)]"

definition isTheme :: "jsval \<Rightarrow> devtools_theme option" where
  "isTheme = assoc_text [(''system'', ThSystem), (''light'', ThLight), (''dark'', ThDark)]"

definition isPosition :: "jsval \<Rightarrow> devtools_position option" where
  "isPosition = assoc_text [(''bottom'', PsBottom), (''right'', PsRight)]"

text \<open>\<open>viewport\<close> is \<open>window.innerHeight\<close>, \<open>900\<close> without a window; \<open>0.8\<close> is a double.\<close>

definition maximumPanelHeight :: "jnum \<Rightarrow> int" where
  "maximumPanelHeight viewport =
     (let height = (if num_finite viewport \<and> 0 < num_val viewport then viewport else Dec 900 0) in
      max MIN_PANEL_HEIGHT
        (case to_double (double_value height * double_value (Dec 8 (- 1))) of None \<Rightarrow> MIN_PANEL_HEIGHT | Some x \<Rightarrow> \<lfloor>x\<rfloor>))"

definition clampPanelHeight :: "jnum \<Rightarrow> jnum \<Rightarrow> int" where
  "clampPanelHeight viewport n =
     (let maximum = maximumPanelHeight viewport in
      if \<not> num_finite n then min DEFAULT_PANEL_HEIGHT maximum
      else min maximum (max MIN_PANEL_HEIGHT \<lfloor>double_value n + 1 / 2\<rfloor>))"

definition defaultUiPreferences :: "jnum \<Rightarrow> bool \<Rightarrow> jsval \<Rightarrow> jsval \<Rightarrow> ui_preferences" where
  "defaultUiPreferences viewport op theme position =
     \<lparr>up_open = op, up_panel = PnOverview, up_panelHeight = clampPanelHeight viewport (num_of_int DEFAULT_PANEL_HEIGHT),
      up_theme = or_else (isTheme theme) ThSystem, up_position = or_else (isPosition position) PsBottom\<rparr>"

text \<open>
  \<open>stored\<close> is what the storage gives: \<open>None\<close> when there is no storage, it throws, or it holds nothing;
  \<open>parse\<close> is \<open>JSON.parse\<close>, \<open>None\<close> when it throws.
\<close>

definition readUiPreferences ::
  "(jstring \<Rightarrow> jsval option) \<Rightarrow> jnum \<Rightarrow> ui_preferences \<Rightarrow> jstring option \<Rightarrow> ui_preferences" where
  "readUiPreferences parse viewport defaults stored =
     (case Option.bind stored parse of
        None \<Rightarrow> defaults
      | Some parsed \<Rightarrow>
          if \<not> is_data parsed then defaults
          else
            \<lparr>up_open = (case field parsed ''open'' of JBool b \<Rightarrow> b | _ \<Rightarrow> up_open defaults),
             up_panel = or_else (isPanel (field parsed ''panel'')) (up_panel defaults),
             up_panelHeight =
               (case field parsed ''panelHeight'' of JNum n \<Rightarrow> clampPanelHeight viewport n | _ \<Rightarrow> up_panelHeight defaults),
             up_theme = or_else (isTheme (field parsed ''theme'')) (up_theme defaults),
             up_position = or_else (isPosition (field parsed ''position'')) (up_position defaults)\<rparr>)"

text \<open>
  The object that \<open>writeUiPreferences\<close> gives to \<open>JSON.stringify\<close>; a failure of the storage is ignored.
\<close>

fun panel_name :: "devtools_panel \<Rightarrow> string" where
  "panel_name PnOverview = ''overview''"
| "panel_name PnResources = ''resources''"
| "panel_name PnTimeline = ''timeline''"
| "panel_name PnCache = ''cache''"
| "panel_name PnMutations = ''mutations''"
| "panel_name PnLive = ''live''"
| "panel_name PnProtocol = ''protocol''"

fun theme_name :: "devtools_theme \<Rightarrow> string" where
  "theme_name ThSystem = ''system''"
| "theme_name ThLight = ''light''"
| "theme_name ThDark = ''dark''"

fun position_name :: "devtools_position \<Rightarrow> string" where
  "position_name PsBottom = ''bottom''"
| "position_name PsRight = ''right''"

definition writtenPreferences :: "jnum \<Rightarrow> ui_preferences \<Rightarrow> jsval" where
  "writtenPreferences viewport preferences =
     JObj 0
       [(js ''open'', JBool (up_open preferences)),
        (js ''panel'', JStr (js (panel_name (up_panel preferences)))),
        (js ''panelHeight'', JNum (num_of_int (clampPanelHeight viewport (num_of_int (up_panelHeight preferences))))),
        (js ''theme'', JStr (js (theme_name (up_theme preferences)))),
        (js ''position'', JStr (js (position_name (up_position preferences))))]"

record devtools_shortcut =
  sc_key :: jstring
  sc_alt :: bool
  sc_control :: bool
  sc_meta :: bool
  sc_shift :: bool

definition modifier_names :: "jstring list" where
  "modifier_names = map js [''alt'', ''control'', ''ctrl'', ''meta'', ''shift'']"

text \<open>\<open>lowercase\<close> is \<open>toLowerCase\<close>; \<open>None\<close> is the value \<open>false\<close> and no shortcut.\<close>

definition parseShortcut :: "(jstring \<Rightarrow> jstring) \<Rightarrow> jstring option \<Rightarrow> devtools_shortcut option" where
  "parseShortcut lowercase v =
     (case v of
        None \<Rightarrow> None
      | Some s \<Rightarrow>
          if s = [] \<or> 64 < length s then None
          else
            let parts = filter (\<lambda>part. part \<noteq> []) (map js_trim (split_on 0x2B s)) in
            if length parts < 2 then None
            else
              let keyPart = last parts; modifiers = jset_of (map lowercase (butlast parts)) in
              if 24 < length keyPart \<or> \<not> list_all (\<lambda>m. m \<in> set modifier_names) modifiers \<or>
                 modifiers = [] \<or> lowercase keyPart \<in> set modifier_names then None
              else
                Some \<lparr>sc_key = lowercase keyPart, sc_alt = (js ''alt'' \<in> set modifiers),
                      sc_control = (js ''control'' \<in> set modifiers \<or> js ''ctrl'' \<in> set modifiers),
                      sc_meta = (js ''meta'' \<in> set modifiers), sc_shift = (js ''shift'' \<in> set modifiers)\<rparr>)"

definition matchesShortcut :: "(jstring \<Rightarrow> jstring) \<Rightarrow> devtools_shortcut \<Rightarrow> devtools_shortcut \<Rightarrow> bool" where
  "matchesShortcut lowercase event shortcut \<longleftrightarrow>
     lowercase (sc_key event) = sc_key shortcut \<and> sc_alt event = sc_alt shortcut \<and> sc_control event = sc_control shortcut \<and>
     sc_meta event = sc_meta shortcut \<and> sc_shift event = sc_shift shortcut"

end
