(* ===== verification/Devtools_Theorems.thy ===== *)
theory Devtools_Theorems
  imports Devtools_Store
begin

text \<open>
  What the development tools keep and show: the store is bounded and its snapshot is never out of date,
  the timeline shows the newest events in full, and the history has one entry for each mutation.
\<close>

section \<open>The store\<close>

text \<open>The bounds of the store, and the snapshot agrees with its state.\<close>

definition ds_ok :: "devtools_store \<Rightarrow> bool" where
  "ds_ok s \<longleftrightarrow>
     1 \<le> ds_maxEvents s \<and> ds_maxEvents s \<le> HARD_MAX_EVENTS \<and> length (ds_events s) \<le> ds_maxEvents s \<and>
     set_option (ds_selectedEventId s) \<subseteq> ev_id ` set (ds_events s) \<and>
     length (pv_component (ds_page s)) \<le> 2048 \<and> length (pv_url (ds_page s)) \<le> 2048 \<and>
     sn_events (ds_snapshot s) = ds_events s \<and> sn_resources (ds_snapshot s) = ds_resources s \<and>
     sn_page (ds_snapshot s) = ds_page s \<and> sn_live (ds_snapshot s) = ds_live s \<and>
     sn_liveResourceCount (ds_snapshot s) = ds_liveResourceCount s \<and> length (sn_clientId (ds_snapshot s)) \<le> 128 \<and>
     sn_selectedEventId (ds_snapshot s) = ds_selectedEventId s"

text \<open>What is left of it between a change and its publication.\<close>

definition ds_bounded :: "devtools_store \<Rightarrow> bool" where
  "ds_bounded s \<longleftrightarrow>
     1 \<le> ds_maxEvents s \<and> ds_maxEvents s \<le> HARD_MAX_EVENTS \<and> length (ds_events s) \<le> ds_maxEvents s \<and>
     set_option (ds_selectedEventId s) \<subseteq> ev_id ` set (ds_events s) \<and>
     length (pv_component (ds_page s)) \<le> 2048 \<and> length (pv_url (ds_page s)) \<le> 2048"

lemma publish_ok: "ds_bounded s \<Longrightarrow> ds_ok (publish v s)"
  by (simp add: ds_bounded_def ds_ok_def publish_def)

lemma ds_ok_bounded: "ds_ok s \<Longrightarrow> ds_bounded s"
  by (simp add: ds_bounded_def ds_ok_def)

lemma pageSnapshot_bounded: "length (pv_component (pageSnapshot p v)) \<le> 2048" "length (pv_url (pageSnapshot p v)) \<le> 2048"
  by (simp_all add: pageSnapshot_def page_safePath_def or_slash_def)

lemma on_diagnostic_ok: "ds_bounded s \<Longrightarrow> ds_ok (on_diagnostic v e s)"
  unfolding on_diagnostic_def Let_def by (rule publish_ok) (auto simp: ds_bounded_def has_event_def split: option.split)

lemma on_diagnostics_bounded: "ds_bounded s \<Longrightarrow> ds_bounded (fold (on_diagnostic v) events s)"
  by (induction events arbitrary: s) (auto intro: ds_ok_bounded on_diagnostic_ok)

lemma ds_start_ok: "ds_ok s \<Longrightarrow> ds_ok (ds_start p v bootstrap s)"
proof (cases "ds_started s")
  case False
  assume ok: "ds_ok s"
  let ?s = "s\<lparr>ds_resources := rv_resources v, ds_page := pageSnapshot p v, ds_live := rv_live v,
                ds_liveResourceCount := rv_liveKeys v\<rparr>"
  have "ds_bounded ?s" using ds_ok_bounded [OF ok] by (simp add: ds_bounded_def pageSnapshot_bounded)
  from on_diagnostics_bounded [OF this, of v bootstrap] False show ?thesis
    by (auto simp: ds_start_def Let_def intro!: publish_ok simp: ds_bounded_def)
qed (simp add: ds_start_def)

lemma devtools_step_ok: "ds_ok s \<Longrightarrow> ds_ok (devtools_step p opr s)"
proof (cases opr)
  case (DsStart v bootstrap)
  then show "ds_ok s \<Longrightarrow> ?thesis" by (simp add: ds_start_ok)
next
  case (DsDiagnostic v e)
  then show "ds_ok s \<Longrightarrow> ?thesis" by (simp add: on_diagnostic_ok ds_ok_bounded)
qed (auto simp: ds_subscribe_def ds_unsubscribe_def ds_stop_def on_resources_def on_page_def on_microtask_def on_live_def
      clearTimeline_def selectEvent_def has_event_def Let_def ds_ok_def publish_def pageSnapshot_bounded split: option.splits)

lemma new_devtools_store_ok: "new_devtools_store n = Some s \<Longrightarrow> ds_ok s"
  by (auto simp: new_devtools_store_def validateMaximum_def ds_ok_def HARD_MAX_EVENTS_def EMPTY_PAGE_def le_nat_iff nat_le_iff
      le_floor_iff floor_le_iff split: if_splits)

interpretation devtools: invariant_system "\<lambda>s. \<exists>n. new_devtools_store n = Some s" "devtools_step p" ds_ok for p
  by unfold_locales (auto intro: new_devtools_store_ok devtools_step_ok)

lemma last_items_again: "last_items n (last_items n xs @ ys) = last_items n (xs @ ys)"
proof (cases "length xs \<le> n")
  case False
  then have "length xs + length ys - n = length ys + (length xs - n)" by simp
  with False show ?thesis by (simp add: last_items_def)
qed (simp add: last_items_def)

lemma on_diagnostic_events:
  "ds_events (on_diagnostic v e s) = (if ds_maxEvents s = 0 then ds_events (on_diagnostic v e s) else last_items (ds_maxEvents s) (ds_events s @ [e]))"
  "ds_maxEvents (on_diagnostic v e s) = ds_maxEvents s" "ds_started (on_diagnostic v e s) = ds_started s"
  by (auto simp: on_diagnostic_def Let_def publish_def last_items_def)

definition receive :: "devtools_platform \<Rightarrow> (router_view \<times> devtools_event) list \<Rightarrow> devtools_store \<Rightarrow> devtools_store" where
  "receive p events = fold (\<lambda>(v, e). devtools_step p (DsDiagnostic v e)) events"

lemma receive_events:
  assumes "ds_started s" "0 < ds_maxEvents s" "length (ds_events s) \<le> ds_maxEvents s"
  shows "ds_events (receive p events s) = last_items (ds_maxEvents s) (ds_events s @ map snd events)"
  using assms
proof (induction events arbitrary: s)
  case Nil
  then show ?case by (simp add: receive_def last_items_def)
next
  case (Cons ve events)
  obtain v e where ve: "ve = (v, e)" by (cases ve)
  let ?s = "on_diagnostic v e s"
  have s: "ds_events ?s = last_items (ds_maxEvents s) (ds_events s @ [e])" "ds_maxEvents ?s = ds_maxEvents s" "ds_started ?s"
    using Cons.prems by (simp_all add: on_diagnostic_events)
  have "ds_events (receive p events ?s) = last_items (ds_maxEvents s) (ds_events ?s @ map snd events)"
    using Cons.IH [of ?s] s Cons.prems by (simp add: last_items_def)
  also have "\<dots> = last_items (ds_maxEvents s) (ds_events s @ e # map snd events)"
    unfolding s(1) by (simp add: last_items_again)
  finally show ?case using Cons.prems(1) by (simp add: receive_def ve)
qed

text \<open>
  C32: In every state the store of the development tools reaches, by any sequence of events, changes of
  the router, microtasks and calls, it holds at most its maximum of events (at most 5,000), a selected
  event is one of them, and the snapshot it last published agrees with its state. While it is started
  it keeps exactly the newest of the events it held and of those that arrive.
\<close>

theorem devtools_store_bounded:
  assumes "new_devtools_store n = Some s0" "s = fold (devtools_step p) ops s0"
  shows "ds_ok s \<and> (\<not> ds_started s \<or>
    ds_events (receive p events s) = last_items (ds_maxEvents s) (ds_events s @ map snd events))"
proof -
  have ok: "ds_ok s" unfolding assms(2) using assms(1) by (intro devtools.reachable_inv) blast
  then have "0 < ds_maxEvents s" "length (ds_events s) \<le> ds_maxEvents s" by (auto simp: ds_ok_def)
  from receive_events [OF _ this] ok show ?thesis by blast
qed

definition sample_event :: "string \<Rightarrow> devtools_event" where
  "sample_event i = \<lparr>ev_id = js i, ev_timestamp = Dec 1 0, ev_type = DtLive, ev_correlationId = JUndef, ev_data = JObj 0 []\<rparr>"

definition sample_view :: router_view where
  "sample_view = \<lparr>rv_resources = [], rv_component = [], rv_url = [], rv_live = EMPTY_LIVE, rv_liveKeys = 0, rv_clientId = []\<rparr>"

definition sample_devtools :: devtools_platform where
  "sample_devtools = \<lparr>dv_pathname = (\<lambda>_. None), dv_localeLower = id, dv_localeUpper = id\<rparr>"

theorem devtools_store_bounded_witness:
  "\<exists>s0. new_devtools_store (Dec 2 0) = Some s0 \<and>
     ds_events (receive sample_devtools (map (\<lambda>i. (sample_view, sample_event i)) [''a'', ''b'', ''c''])
       (fold (devtools_step sample_devtools) [DsStart sample_view []] s0)) = [sample_event ''b'', sample_event ''c'']"
proof -
  obtain s0 where s0: "new_devtools_store (Dec 2 0) = Some s0" "ds_maxEvents s0 = 2" "ds_events s0 = []" "\<not> ds_started s0"
    by (auto simp: new_devtools_store_def validateMaximum_def num_is_integer_def num_finite_def num_val_def rat_of_dec_def
        HARD_MAX_EVENTS_def)
  let ?s = "ds_start sample_devtools sample_view [] s0"
  have s: "ds_started ?s" "ds_maxEvents ?s = 2" "ds_events ?s = []"
    using s0(2-4) by (simp_all add: ds_start_def Let_def publish_def)
  from devtools_store_bounded [OF s0(1), of ?s sample_devtools "[DsStart sample_view []]"
      "map (\<lambda>i. (sample_view, sample_event i)) [''a'', ''b'', ''c'']"] s
  show ?thesis using s0(1) by (simp add: last_items_def)
qed

section \<open>The timeline\<close>

definition item_total :: "devtools_platform \<Rightarrow> devtools_event list \<Rightarrow> nat" where
  "item_total p events = length (concat (map (eventItems p) events))"

lemma eventItems_nonempty: "eventItems p e \<noteq> []"
  by (simp add: eventItems_def)

lemma timeline_groups_length:
  "length (concat (timeline_groups p remaining events)) = min remaining (item_total p events)"
  by (induction p remaining events rule: timeline_groups.induct) (auto simp: item_total_def Let_def min_def)

lemma timeline_groups_newest:
  "item_total p newer \<le> remaining \<Longrightarrow>
     \<exists>shown. concat (timeline_groups p remaining (newer @ older)) = shown @ concat (map (eventItems p) (rev newer))"
proof (induction newer arbitrary: remaining)
  case (Cons e newer)
  have le: "length (eventItems p e) \<le> remaining" "item_total p newer \<le> remaining - length (eventItems p e)"
    using Cons.prems by (simp_all add: item_total_def)
  have "0 < remaining" using le(1) eventItems_nonempty [of p e] by (cases "eventItems p e") auto
  moreover obtain shown where
    "concat (timeline_groups p (remaining - length (eventItems p e)) (newer @ older)) = shown @ concat (map (eventItems p) (rev newer))"
    using Cons.IH [OF le(2)] by blast
  ultimately show ?case using le(1) by (auto simp: Let_def min_def)
qed simp

text \<open>
  C33: The timeline has at most 5,000 items and as many as there are up to that; the items of any number
  of newest events that fit are its last items, complete and in the order of the events.
\<close>

theorem timeline_shows_newest:
  "length (deriveTimeline p events) = min MAX_TIMELINE_ITEMS (item_total p events) \<and>
   (events = older @ newer \<and> item_total p newer \<le> MAX_TIMELINE_ITEMS \<longrightarrow>
      (\<exists>shown. deriveTimeline p events = shown @ concat (map (eventItems p) newer)))"
proof -
  have total: "item_total p (rev es) = item_total p es" for es
    by (simp add: item_total_def length_concat rev_map flip: rev_map)
  show ?thesis
    using timeline_groups_newest [of p "rev newer" MAX_TIMELINE_ITEMS "rev older"]
    by (auto simp: deriveTimeline_def timeline_groups_length total)
qed

theorem timeline_shows_newest_witness:
  "\<exists>shown. deriveTimeline sample_devtools [sample_event ''a'', sample_event ''b''] =
     shown @ eventItems sample_devtools (sample_event ''b'')"
  using timeline_shows_newest [of sample_devtools "[sample_event ''a'', sample_event ''b'']" "[sample_event ''a'']" "[sample_event ''b'']"]
  by (simp add: item_total_def eventItems_def sample_event_def MAX_TIMELINE_ITEMS_def)

section \<open>The history of mutations\<close>

lemma in_jm_set: "kx \<in> set (jm_set k v m) \<Longrightarrow> jm_wf m \<Longrightarrow> kx = (k, v) \<or> (kx \<in> set m \<and> fst kx \<noteq> k)"
  by (induction k v m rule: jm_set.induct) (auto simp: jm_wf_def image_iff split: if_splits)

lemma sort_by_key_sorted:
  assumes "\<And>x y. x \<in> set xs \<Longrightarrow> y \<in> set xs \<Longrightarrow> le x y \<longleftrightarrow> (k y :: 'k :: linorder) \<le> k x"
  shows "sorted_wrt (\<lambda>x y. k y \<le> k x) (sort_by le xs)"
proof -
  have insert: "sorted_wrt (\<lambda>x y. k y \<le> k x) (insert_by le x ys)"
    if "sorted_wrt (\<lambda>x y. k y \<le> k x) ys" "\<And>y. y \<in> set ys \<Longrightarrow> le x y \<longleftrightarrow> k y \<le> k x" for x ys
    using that
  proof (induction ys)
    case (Cons y ys)
    have set: "set (insert_by le x ys) = insert x (set ys)" by (metis mset_insert_by set_mset_add_mset_insert set_mset_mset)
    show ?case using Cons by (auto simp: set)
  qed simp
  from assms show ?thesis
  proof (induction xs)
    case (Cons x xs)
    have set: "set (foldr (insert_by le) xs []) = set xs" using set_sort_by [of le xs] by (simp add: sort_by_def)
    show ?case using Cons insert [of "sort_by le xs" x] by (simp add: sort_by_def set)
  qed (simp add: sort_by_def)
qed

text \<open>The time of the newest event about a mutation.\<close>

definition mutation_events :: "devtools_event list \<Rightarrow> jstring \<Rightarrow> devtools_event list" where
  "mutation_events events i = filter (\<lambda>e. about_mutation e \<and> mutationIdentity e = i) events"

definition event_time :: "devtools_event \<Rightarrow> rat" where
  "event_time e = num_val (safe_timestamp (ev_timestamp e))"

definition last_observed :: "devtools_event list \<Rightarrow> jstring \<Rightarrow> rat" where
  "last_observed events i = Max (set (map event_time (mutation_events events i)))"

definition mutation_identities :: "devtools_event list \<Rightarrow> jstring set" where
  "mutation_identities events = set (map mutationIdentity (filter about_mutation events))"

lemma observe_mutation_id: "mm_id (observe_mutation p e m) = mm_id m"
  by (simp add: observe_mutation_def Let_def complete_duration_def observeMutationLifecycle_def observeMutationTransport_def
      observeMutationTrace_def split: option.split)

lemma observe_mutation_updated:
  "mm_updatedAt (observe_mutation p e m) = later (mm_updatedAt m) (safe_timestamp (ev_timestamp e))"
  by (simp add: observe_mutation_def Let_def complete_duration_def observeMutationLifecycle_def observeMutationTransport_def
      observeMutationTrace_def split: option.split)

lemma safe_timestamp_finite [simp]: "num_finite (safe_timestamp n)"
  by (simp add: safe_timestamp_def num_finite_def)

lemma num_less_finite: "num_finite a \<Longrightarrow> num_finite b \<Longrightarrow> num_less a b \<longleftrightarrow> num_val a < num_val b"
  by (cases a; cases b) (simp_all add: num_finite_def num_less_def)

lemma later_finite:
  "num_finite a \<Longrightarrow> num_finite b \<Longrightarrow> num_finite (later a b) \<and> num_val (later a b) = max (num_val a) (num_val b)"
  by (auto simp: later_def num_less_finite)

definition entry_ok :: "devtools_event list \<Rightarrow> jstring \<times> mutable_mutation \<Rightarrow> bool" where
  "entry_ok events = (\<lambda>(k, x). mm_id x = k \<and> num_finite (mm_updatedAt x) \<and> num_val (mm_updatedAt x) = last_observed events k)"

definition mutation_map_ok :: "devtools_event list \<Rightarrow> (jstring, mutable_mutation) jmap \<Rightarrow> bool" where
  "mutation_map_ok events m \<longleftrightarrow> jm_wf m \<and> fst ` set m = mutation_identities events \<and> list_all (entry_ok events) m"

lemma mutation_events_snoc:
  "mutation_events (events @ [e]) i =
     mutation_events events i @ (if about_mutation e \<and> mutationIdentity e = i then [e] else [])"
  by (simp add: mutation_events_def)

lemma last_observed_same: "\<not> (about_mutation e \<and> mutationIdentity e = i) \<Longrightarrow> last_observed (events @ [e]) i = last_observed events i"
  by (auto simp: last_observed_def mutation_events_snoc)

lemma last_observed_new:
  assumes "about_mutation e"
  shows "last_observed (events @ [e]) (mutationIdentity e) =
    (if mutationIdentity e \<in> mutation_identities events then max (last_observed events (mutationIdentity e)) (event_time e)
     else event_time e)"
proof -
  have iff: "mutation_events events i = [] \<longleftrightarrow> i \<notin> mutation_identities events" for i
    by (auto simp: mutation_events_def mutation_identities_def filter_empty_conv)
  show ?thesis
    using assms iff [of "mutationIdentity e"] by (auto simp: last_observed_def mutation_events_snoc max.commute)
qed

lemma entry_ok_step:
  assumes ok: "mutation_map_ok events m" and about: "about_mutation e"
  shows "entry_ok (events @ [e]) (mutationIdentity e, observe_mutation p e (mutationFor m e))"
proof (cases "jm_get m (mutationIdentity e)")
  case None
  then have "mutationIdentity e \<notin> mutation_identities events"
    using ok by (auto simp: mutation_map_ok_def jm_get_None_iff jm_has_def)
  then show ?thesis
    using None about by (simp add: entry_ok_def mutationFor_def observe_mutation_id observe_mutation_updated new_mutation_def
        last_observed_new later_finite event_time_def Let_def)
next
  case (Some x)
  then have "(mutationIdentity e, x) \<in> set m" unfolding jm_get_def by (rule map_of_SomeD)
  moreover from this have "mutationIdentity e \<in> mutation_identities events"
    using ok by (force simp: mutation_map_ok_def)
  ultimately show ?thesis
    using Some about ok by (auto simp: entry_ok_def mutationFor_def observe_mutation_id observe_mutation_updated
        last_observed_new later_finite event_time_def mutation_map_ok_def list_all_iff)
qed

lemma history_step_ok:
  assumes ok: "mutation_map_ok events m"
  shows "mutation_map_ok (events @ [e]) (history_step p e m)"
proof (cases "about_mutation e")
  case False
  then show ?thesis
    using ok by (auto simp: mutation_map_ok_def history_step_def mutation_identities_def list_all_iff entry_ok_def last_observed_same)
next
  case True
  let ?i = "mutationIdentity e" and ?x = "observe_mutation p e (mutationFor m e)"
  have "fst ` set (jm_set ?i ?x m) = insert ?i (fst ` set m)"
    using jm_has_set [of ?i ?x m] by (auto simp: jm_has_def set_eq_iff)
  moreover have "list_all (entry_ok (events @ [e])) (jm_set ?i ?x m)"
    using entry_ok_step [OF ok True] ok
    by (auto simp: list_all_iff mutation_map_ok_def entry_ok_def last_observed_same dest!: in_jm_set)
  ultimately show ?thesis
    using ok True by (simp add: mutation_map_ok_def history_step_def mutation_identities_def)
qed

lemma history_fold_ok: "mutation_map_ok events m \<Longrightarrow> mutation_map_ok (events @ newer) (fold (history_step p) newer m)"
proof (induction newer arbitrary: events m)
  case (Cons e newer)
  then show ?case using Cons.IH [OF history_step_ok [OF Cons.prems, of e p]] by simp
qed simp

definition whole_history :: "devtools_platform \<Rightarrow> devtools_event list \<Rightarrow> mutable_mutation list" where
  "whole_history p events = sort_by newer_first (map snd (fold (history_step p) events []))"

lemma whole_history_entry:
  "m \<in> set (whole_history p events) \<Longrightarrow> entry_ok events (mm_id m, m)"
  using history_fold_ok [of "[]" "[]" events p]
  by (auto simp: whole_history_def mutation_map_ok_def mutation_identities_def list_all_iff entry_ok_def)

lemma whole_history_ids:
  "set (map mm_id (whole_history p events)) = mutation_identities events \<and> distinct (map mm_id (whole_history p events))"
proof -
  let ?m = "fold (history_step p) events []"
  have ok: "mutation_map_ok events ?m" using history_fold_ok [of "[]" "[]" events p] by (simp add: mutation_map_ok_def mutation_identities_def)
  then have ids: "map mm_id (map snd ?m) = map fst ?m" by (auto simp: mutation_map_ok_def list_all_iff entry_ok_def)
  have "mset (map mm_id (whole_history p events)) = mset (map fst ?m)"
    unfolding whole_history_def ids [symmetric] by (simp add: multiset.map_comp)
  then have "set (map mm_id (whole_history p events)) = set (map fst ?m)"
    and "distinct (map mm_id (whole_history p events)) \<longleftrightarrow> distinct (map fst ?m)"
    by (metis set_mset_mset, metis mset_eq_imp_distinct_iff)
  with ok show ?thesis by (simp add: mutation_map_ok_def jm_wf_def)
qed

lemma whole_history_sorted:
  "sorted_wrt (\<lambda>x y. num_val (mm_updatedAt y) \<le> num_val (mm_updatedAt x)) (whole_history p events)"
  unfolding whole_history_def
proof (rule sort_by_key_sorted)
  let ?xs = "map snd (fold (history_step p) events [])"
  fix x y assume xy: "x \<in> set ?xs" "y \<in> set ?xs"
  have "num_finite (mm_updatedAt z)" if "z \<in> set ?xs" for z
    using whole_history_entry [of z p events] that by (simp add: whole_history_def entry_ok_def)
  with xy show "newer_first x y \<longleftrightarrow> num_val (mm_updatedAt y) \<le> num_val (mm_updatedAt x)"
    by (simp add: newer_first_def num_less_finite not_less)
qed

text \<open>
  C34: The mutation history has at most 100 entries, one for each correlation (or event without one)
  that the events about mutations carry, newest first by the time of the last event about it; when
  there are more than 100, those that are left out were last observed no later than any that is shown.
\<close>

theorem mutation_history_exact:
  "let history = deriveMutationHistory p events in
     length history = min MAX_MUTATION_HISTORY (card (mutation_identities events)) \<and>
     distinct (map mm_id history) \<and> set (map mm_id history) \<subseteq> mutation_identities events \<and>
     map (num_val \<circ> mm_updatedAt) history = map (last_observed events \<circ> mm_id) history \<and>
     sorted_wrt (\<ge>) (map (last_observed events \<circ> mm_id) history) \<and>
     (\<forall>i\<in>mutation_identities events. \<forall>m\<in>set history.
        i \<in> set (map mm_id history) \<or> last_observed events i \<le> last_observed events (mm_id m))"
proof -
  let ?w = "whole_history p events" and ?f = "last_observed events \<circ> mm_id"
  have h: "deriveMutationHistory p events = take MAX_MUTATION_HISTORY ?w"
    by (simp add: deriveMutationHistory_def whole_history_def)
  have val: "num_val (mm_updatedAt m) = last_observed events (mm_id m)" if "m \<in> set ?w" for m
    using whole_history_entry [OF that] by (simp add: entry_ok_def)
  have sorted: "sorted_wrt (\<lambda>x y. ?f y \<le> ?f x) ?w"
    using whole_history_sorted [of p events] by (rule sorted_wrt_mono_rel [rotated]) (simp add: val)
  have ids: "set (map mm_id ?w) = mutation_identities events" "distinct (map mm_id ?w)"
    using whole_history_ids by blast+
  have "length ?w = card (mutation_identities events)" using distinct_card [OF ids(2)] ids(1) by simp
  then have 1: "length (take MAX_MUTATION_HISTORY ?w) = min MAX_MUTATION_HISTORY (card (mutation_identities events))" by simp
  have 2: "distinct (map mm_id (take MAX_MUTATION_HISTORY ?w))" using ids(2) by (simp add: distinct_take flip: take_map)
  have 3: "set (map mm_id (take MAX_MUTATION_HISTORY ?w)) \<subseteq> mutation_identities events"
    using ids(1) by (auto dest: in_set_takeD)
  have 4: "map (num_val \<circ> mm_updatedAt) (take MAX_MUTATION_HISTORY ?w) = map ?f (take MAX_MUTATION_HISTORY ?w)"
    by (auto simp: val dest: in_set_takeD)
  have 5: "sorted_wrt (\<ge>) (map ?f (take MAX_MUTATION_HISTORY ?w))"
    unfolding sorted_wrt_map by (rule sorted_wrt_take) (rule sorted)
  have 6: "i \<in> set (map mm_id (take MAX_MUTATION_HISTORY ?w)) \<or> last_observed events i \<le> last_observed events (mm_id m)"
    if i: "i \<in> mutation_identities events" and m: "m \<in> set (take MAX_MUTATION_HISTORY ?w)" for i m
  proof -
    obtain x where x: "x \<in> set ?w" "mm_id x = i" using i ids(1) by force
    then consider "x \<in> set (take MAX_MUTATION_HISTORY ?w)" | "x \<in> set (drop MAX_MUTATION_HISTORY ?w)"
      by (metis Un_iff append_take_drop_id set_append)
    then show ?thesis
    proof cases
      case 2
      moreover have "sorted_wrt (\<lambda>x y. ?f y \<le> ?f x) (take MAX_MUTATION_HISTORY ?w @ drop MAX_MUTATION_HISTORY ?w)"
        using sorted by simp
      ultimately have "?f x \<le> ?f m" using m unfolding sorted_wrt_append by blast
      with x show ?thesis by simp
    qed (use x in force)
  qed
  show ?thesis unfolding Let_def h using 1 2 3 4 5 6 by blast
qed

definition sample_mutation_event :: "string \<Rightarrow> string \<Rightarrow> int \<Rightarrow> devtools_event" where
  "sample_mutation_event c phase time =
     \<lparr>ev_id = js ''e'', ev_timestamp = Dec time 0, ev_type = DtMutation, ev_correlationId = JStr (js c),
      ev_data = JObj 0 [(js ''phase'', JStr (js phase))]\<rparr>"

theorem mutation_history_exact_witness:
  "let history = deriveMutationHistory sample_devtools
         [sample_mutation_event ''a'' ''start'' 1, sample_mutation_event ''b'' ''start'' 2, sample_mutation_event ''a'' ''error'' 3] in
     length history = 2 \<and> map mm_id history = [js ''a'', js ''b'']"
proof -
  let ?e = "[sample_mutation_event ''a'' ''start'' 1, sample_mutation_event ''b'' ''start'' 2, sample_mutation_event ''a'' ''error'' 3]"
  have about: "about_mutation (sample_mutation_event c phase t)" for c phase t
    by (simp add: about_mutation_def sample_mutation_event_def is_data_def)
  have i: "mutationIdentity (sample_mutation_event ''a'' phase t) = js ''a''" "mutationIdentity (sample_mutation_event ''b'' phase t) = js ''b''" for phase t
    by (simp_all add: mutationIdentity_def sample_mutation_event_def safe_correlation_def safe_text_def)
  have ids: "mutation_identities ?e = {js ''a'', js ''b''}" by (auto simp: mutation_identities_def about i)
  have ab: "js ''a'' \<noteq> js ''b''" by simp
  have time: "event_time (sample_mutation_event c phase t) = of_int t" if "0 \<le> t" for c phase t
    using that by (simp add: event_time_def safe_timestamp_def sample_mutation_event_def num_finite_def num_val_def rat_of_dec_def)
  have last: "last_observed ?e (js ''a'') = 3" "last_observed ?e (js ''b'') = 2"
    using ab by (simp_all add: last_observed_def mutation_events_def about i time)
  from mutation_history_exact [of sample_devtools ?e] ids ab last show ?thesis
    by (auto simp: Let_def MAX_MUTATION_HISTORY_def numeral_2_eq_2 length_Suc_conv)
qed

section \<open>Preferences\<close>

lemma bit_length_bounds: "0 < n \<Longrightarrow> 2 ^ (bit_length n - 1) \<le> n \<and> n < 2 ^ bit_length n \<and> 0 < bit_length n"
proof (induction n rule: bit_length.induct)
  case (1 n)
  show ?case
  proof (cases "n div 2 = 0")
    case True
    with 1(2) have "n = 1" by auto
    then show ?thesis by (simp add: bit_length.simps)
  next
    case False
    then have ih: "2 ^ (bit_length (n div 2) - 1) \<le> n div 2" "n div 2 < 2 ^ bit_length (n div 2)" "0 < bit_length (n div 2)"
      using 1 by auto
    have b: "bit_length n = Suc (bit_length (n div 2))" using 1(2) by (simp add: bit_length.simps [of n])
    obtain k where k: "bit_length (n div 2) = Suc k" using ih(3) by (cases "bit_length (n div 2)") auto
    show ?thesis using ih unfolding b k by auto
  qed
qed

lemma round_half_even_int: "round_half_even (of_int i) = i"
  by (simp add: round_half_even_def)

text \<open>Whole numbers below \<open>2 ^ 53\<close> are doubles.\<close>

lemma to_double_nat:
  assumes "n < 2 ^ 53"
  shows "to_double (of_nat n) = Some (of_nat n)"
proof (cases "n = 0")
  case False
  let ?b = "bit_length n"
  have b: "2 ^ (?b - 1) \<le> n" "n < 2 ^ ?b" "0 < ?b" using bit_length_bounds [of n] False by auto
  have "?b - 1 < 53" using b(1) assms by (metis le_less_trans nat_power_less_imp_less zero_less_numeral)
  with b(3) have le: "?b \<le> 53" by simp
  have q: "quotient_of (of_nat n) = (int n, 1)" using quotient_of_int [of "int n"] by simp
  have one: "bit_length (Suc 0) = 1" by (simp add: bit_length.simps)
  have "(2 :: rat) ^ (?b - 1) \<le> of_nat n" using b(1) by (metis of_nat_le_iff of_nat_numeral of_nat_power)
  then have "pow2 (int ?b - 1) \<le> of_nat n" using b(3) by (simp add: pow2_def nat_diff_distrib')
  then have e: "exponent2 (of_nat n) = int ?b - 1" by (simp add: exponent2_def q one Let_def)
  let ?e = "int ?b - 53"
  have m: "max (exponent2 \<bar>of_nat n\<bar> - 52) (- 1074) = ?e" using b(3) by (simp add: e)
  have p: "pow2 ?e = 1 / 2 ^ (53 - ?b)" using le by (auto simp: pow2_def nat_diff_distrib')
  have r: "round_half_even (of_nat n / pow2 ?e) = int n * 2 ^ (53 - ?b)"
    using round_half_even_int [of "int n * 2 ^ (53 - ?b)"] by (simp add: p)
  have "(of_nat n :: rat) < 2 ^ 53" using assms by (metis of_nat_less_iff of_nat_numeral of_nat_power)
  then have "(of_nat n :: rat) < pow2 1024" by (simp add: pow2_def)
  then show ?thesis using False unfolding to_double_def Let_def m r by (simp add: p)
qed (simp add: to_double_def)

lemma double_value_int: "0 \<le> i \<Longrightarrow> i < 2 ^ 53 \<Longrightarrow> double_value (num_of_int i) = of_int i"
  using to_double_nat [of "nat i"]
  by (simp add: double_value_def double_or_zero_def double_of_def num_of_int_def num_val_def rat_of_dec_def nat_less_iff)

lemma half_floor: "\<lfloor>1 / 2 :: rat\<rfloor> = 0"
  by (simp add: floor_eq_iff)

lemma finite_int: "num_finite (num_of_int i)"
  by (simp add: num_of_int_def num_finite_def)

lemma clampPanelHeight_int:
  "0 \<le> i \<Longrightarrow> i < 2 ^ 53 \<Longrightarrow> clampPanelHeight viewport (num_of_int i) = min (maximumPanelHeight viewport) (max MIN_PANEL_HEIGHT i)"
  by (simp add: clampPanelHeight_def double_value_int finite_int Let_def
      half_floor)

lemma names_read_back:
  "isPanel (JStr (js (panel_name panel))) = Some panel" "isTheme (JStr (js (theme_name theme))) = Some theme"
  "isPosition (JStr (js (position_name position))) = Some position"
    apply (cases panel; simp add: isPanel_def assoc_text_def)
   apply (cases theme; simp add: isTheme_def assoc_text_def)
  by (cases position; simp add: isPosition_def assoc_text_def)

text \<open>What was written is read back, with the height of the panel brought within the window.\<close>

lemma preferences_read_back:
  assumes "parse text = Some (writtenPreferences viewport preferences)" "0 \<le> up_panelHeight preferences" "up_panelHeight preferences < 2 ^ 53"
  shows "readUiPreferences parse viewport defaults (Some text) =
    preferences\<lparr>up_panelHeight := min (maximumPanelHeight viewport) (max MIN_PANEL_HEIGHT (up_panelHeight preferences))\<rparr>"
proof -
  let ?h = "min (maximumPanelHeight viewport) (max MIN_PANEL_HEIGHT (up_panelHeight preferences))"
  have "MIN_PANEL_HEIGHT \<le> maximumPanelHeight viewport" by (simp add: maximumPanelHeight_def Let_def)
  then have h: "0 \<le> ?h" "?h < 2 ^ 53" "MIN_PANEL_HEIGHT \<le> ?h" using assms(3) by (auto simp: MIN_PANEL_HEIGHT_def min_def max_def)
  then show ?thesis
    using assms by (simp add: readUiPreferences_def writtenPreferences_def field_def is_data_def clampPanelHeight_int names_read_back or_else_def)
qed

end
