(* ===== verification/Store_Reentry.thy ===== *)
theory Store_Reentry
  imports Store_Properties
begin

text \<open>
  The resource store with subscribers that use it while they are being notified
  (\<open>packages/core/src/store.ts\<close>, \<open>notify\<close> and every method that calls it). \<open>Resource_Store\<close> gives each
  method as one function, which is what it computes when the subscribers leave the store alone. Here
  the methods are cut where they call out: a configuration is the store and the stack of what is still
  to be executed, and whenever a subscriber is running it may begin any public operation, to any
  depth, also in the middle of an eviction.
\<close>

section \<open>Frames\<close>

datatype store_frame =
    Evict
  | Touch rkey
  | Notify rkey
  | NotifyAll
  | Call callback
  | Inside callback
  | SetNext nat "(rkey \<times> jstring \<times> jsval) list"
  | MarkNext resource_status "rkey list"
  | ClearNext "rkey list"

type_synonym store_config = "store \<times> store_frame list"

text \<open>\<open>updateStateSnapshot\<close> up to its call of \<open>evictIfNeeded\<close>.\<close>

definition snapshot_segment ::
  "rkey \<Rightarrow> resource_status \<Rightarrow> error_detail option \<Rightarrow> bool \<Rightarrow> store \<Rightarrow> bool \<times> store_config" where
  "snapshot_segment key status err stale s =
     (let data = value_of key s;
          current = snapshot_of key s;
          sameError = same_error (s_error current) err
      in if strict_eq (s_data current) data \<and> s_status current = status \<and> sameError \<and>
            s_stale current = stale
         then (False, s, [])
         else if status = Missing \<and> data = JUndef \<and> err = None \<and> \<not> stale then
           let s1 = s\<lparr>stateSnapshots := jm_delete key (stateSnapshots s)\<rparr>
           in (True, if \<not> jm_has (records s1) key then removeFromLru key s1 else s1, [])
         else
           let frozenError =
                 (if err = None then None
                  else if sameError \<and> s_error current \<noteq> None then s_error current
                  else err);
               s1 = s\<lparr>stateSnapshots := jm_set key
                        \<lparr>s_data = data, s_status = status, s_error = frozenError, s_stale = stale\<rparr>
                        (stateSnapshots s)\<rparr>
           in (True, touchLru key s1, [Evict]))"

text \<open>\<open>invalidate\<close> up to its \<open>notify\<close>.\<close>

definition invalidate_segment :: "rkey \<Rightarrow> store \<Rightarrow> store_config" where
  "invalidate_segment key s =
     (let hadState = jm_has (stateSnapshots s) key;
          hadRecord = jm_has (records s) key;
          s1 = s\<lparr>records := jm_delete key (records s)\<rparr>;
          wasStale = (key \<in> set (staleKeys s1));
          s2 = s1\<lparr>staleKeys := jset_delete key (staleKeys s1)\<rparr>
      in if \<not> hadState \<and> \<not> hadRecord \<and> \<not> wasStale then (s2, [])
         else (removeFromLru key (s2\<lparr>stateSnapshots := jm_delete key (stateSnapshots s2)\<rparr>), [Notify key]))"

definition set_segment :: "nat \<Rightarrow> rkey \<Rightarrow> jstring \<Rightarrow> jsval \<Rightarrow> store \<Rightarrow> store_config" where
  "set_segment now key version val s =
     (let existing = jm_get (records s) key;
          (currentState, s1) = getStateSnapshot key s
      in if (case existing of None \<Rightarrow> False | Some r \<Rightarrow> r_version r = version) \<and>
            key \<notin> set (staleKeys s1) \<and>
            s_status currentState = Ready \<and> s_error currentState = None
         then (touchLru key s1, [])
         else
           let s2 = s1\<lparr>records := jm_set key
                         \<lparr>r_key = key, r_version = version, r_value = val, r_updatedAt = now\<rparr>
                         (records s1)\<rparr>;
               s3 = s2\<lparr>staleKeys := jset_delete key (staleKeys s2)\<rparr>;
               (_, s4, fs) = snapshot_segment key Ready None False s3
           in (s4, fs @ [Touch key, Evict, Notify key]))"

definition mark_segment :: "resource_status \<Rightarrow> error_detail option \<Rightarrow> rkey \<Rightarrow> store \<Rightarrow> store_config" where
  "mark_segment status err key s =
     (let hasData = jm_has (records s) key;
          s1 = (if hasData then s\<lparr>staleKeys := jset_add key (staleKeys s)\<rparr> else s);
          (changed, s2, fs) = snapshot_segment key status err hasData s1
      in (s2, fs @ (if changed then [Notify key] else [])))"

definition clearError_segment :: "rkey \<Rightarrow> store \<Rightarrow> store_config" where
  "clearError_segment key s =
     (let (current, s1) = getStateSnapshot key s
      in if s_error current = None then (s1, [])
         else
           let hasData = jm_has (records s1) key;
               status = (if hasData then Ready else Missing);
               (changed, s2, fs) =
                 snapshot_segment key status None (hasData \<and> key \<in> set (staleKeys s1)) s1
           in (s2, fs @ (if changed then [Notify key] else [])))"

definition patch_segment ::
  "nat \<Rightarrow> jstring \<Rightarrow> nat \<Rightarrow> rkey \<Rightarrow> patch list \<Rightarrow> store \<Rightarrow> store_config" where
  "patch_segment now stamp ref key patches s =
     (case jm_get (records s) key of
        None \<Rightarrow> (s, [])
      | Some existing \<Rightarrow>
          (case apply_patches ref (r_value existing) patches of
             None \<Rightarrow> (s, [])
           | Some val \<Rightarrow>
               let s1 = s\<lparr>records := jm_set key
                          \<lparr>r_key = key, r_version = r_version existing @ js ''_p'' @ stamp,
                           r_value = val, r_updatedAt = now\<rparr> (records s)\<rparr>;
                   s2 = s1\<lparr>staleKeys := jset_add key (staleKeys s1)\<rparr>;
                   (_, s3, fs) = snapshot_segment key Ready None True s2
               in (s3, fs @ [Touch key, Notify key])))"

definition markStale_segment :: "rkey \<Rightarrow> store \<Rightarrow> store_config" where
  "markStale_segment key s =
     (if \<not> jm_has (records s) key \<or> key \<in> set (staleKeys s) then (s, [])
      else
        let s1 = s\<lparr>staleKeys := jset_add key (staleKeys s)\<rparr>;
            (current, s2) = getStateSnapshot key s1;
            (_, s3, fs) = snapshot_segment key (s_status current) (s_error current) True s2
        in (s3, fs @ [Notify key]))"

definition clear_segment :: "store \<Rightarrow> store_config" where
  "clear_segment s =
     (let allKeys = jset_of (jm_keys (records s) @ jm_keys (stateSnapshots s) @ staleKeys s)
      in (s\<lparr>records := [], staleKeys := [], stateSnapshots := [], lruOrder := []\<rparr>, [ClearNext allKeys]))"

text \<open>A public operation is begun.\<close>

fun begin_op :: "store_op \<Rightarrow> store \<Rightarrow> store_config" where
  "begin_op (OpSet now k version val) s = set_segment now k version val s"
| "begin_op (OpSetMany now es) s = (s, [SetNext now es])"
| "begin_op (OpMarkPending ks) s = (s, [MarkNext Pending ks])"
| "begin_op (OpMarkLoading ks) s = (s, [MarkNext Loading ks])"
| "begin_op (OpSetResourceError k err) s = mark_segment Error (Some err) k s"
| "begin_op (OpClearResourceError k) s = clearError_segment k s"
| "begin_op (OpPatch now stamp ref k ps) s = patch_segment now stamp ref k ps s"
| "begin_op (OpInvalidate k) s = invalidate_segment k s"
| "begin_op (OpMarkStale k) s = markStale_segment k s"
| "begin_op OpClear s = clear_segment s"
| "begin_op (OpGetSnapshot k) s = (snd (getSnapshot k s), [])"
| "begin_op (OpGetStateSnapshot k) s = (snd (getStateSnapshot k s), [])"
| "begin_op (OpGetRecord k) s = (snd (getRecord k s), [])"
| "begin_op (OpSubscribe k cb) s = (store_subscribe k cb s, [])"
| "begin_op (OpUnsubscribe k cb) s = (store_unsubscribe k cb s, [])"
| "begin_op (OpSubscribeAll cb) s = (store_subscribeAll cb s, [])"
| "begin_op (OpUnsubscribeAll cb) s = (store_unsubscribeAll cb s, [])"

text \<open>
  What the topmost frame does, and the frames that take its place. \<open>notify\<close> copies the subscribers of
  the key when it starts and the global ones when the former have run.
\<close>

fun run_frame :: "store_frame \<Rightarrow> store \<Rightarrow> store_config" where
  "run_frame Evict s =
     (if length (records s) > maxResources s \<or> length (stateSnapshots s) > maxResources s
      then
        (case lruOrder s of
           [] \<Rightarrow> (s, [])
         | oldestKey # rest \<Rightarrow>
             let (s1, fs) = invalidate_segment oldestKey (s\<lparr>lruOrder := rest\<rparr>) in (s1, fs @ [Evict]))
      else (s, []))"
| "run_frame (Touch k) s = (touchLru k s, [])"
| "run_frame (Notify k) s =
     (s, map Call (case jm_get (subscribers s) k of None \<Rightarrow> [] | Some keySubs \<Rightarrow> keySubs) @ [NotifyAll])"
| "run_frame NotifyAll s = (s, map Call (globalSubscribers s))"
| "run_frame (Call cb) s = (s\<lparr>calls := calls s @ [cb]\<rparr>, [Inside cb])"
| "run_frame (Inside cb) s = (s, [])"
| "run_frame (SetNext now []) s = (s, [])"
| "run_frame (SetNext now ((k, version, val) # es)) s =
     (let (s1, fs) = set_segment now k version val s in (s1, fs @ [SetNext now es]))"
| "run_frame (MarkNext status []) s = (s, [])"
| "run_frame (MarkNext status (k # ks)) s =
     (let (s1, fs) = mark_segment status None k s in (s1, fs @ [MarkNext status ks]))"
| "run_frame (ClearNext []) s = (s, [])"
| "run_frame (ClearNext (k # ks)) s = (s, [Notify k, ClearNext ks])"

text \<open>
  The frame on top runs; a subscriber that is running begins an operation; or, with nothing left to
  execute, the application begins one.
\<close>

inductive frame_step :: "store_config \<Rightarrow> store_config \<Rightarrow> bool" where
  frame_stepI: "run_frame f s = (s', gs) \<Longrightarrow> frame_step (s, f # fs) (s', gs @ fs)"

inductive store_step :: "store_config \<Rightarrow> store_config \<Rightarrow> bool" where
  step_frame: "frame_step c c' \<Longrightarrow> store_step c c'"
| step_reenter: "begin_op opr s = (s', gs) \<Longrightarrow>
     store_step (s, Inside cb # fs) (s', gs @ Inside cb # fs)"
| step_begin: "begin_op opr s = (s', gs) \<Longrightarrow> store_step (s, []) (s', gs)"

inductive_cases frame_stepE: "frame_step (s, f # fs) c"
inductive_simps frame_step_Cons: "frame_step (s, f # fs) c"
inductive_simps frame_step_Nil [simp]: "frame_step (s, []) c"

abbreviation frame_steps :: "store_config \<Rightarrow> store_config \<Rightarrow> bool" where
  "frame_steps \<equiv> frame_step\<^sup>*\<^sup>*"

abbreviation store_steps :: "store_config \<Rightarrow> store_config \<Rightarrow> bool" where
  "store_steps \<equiv> store_step\<^sup>*\<^sup>*"

section \<open>Subscribers that leave the store alone\<close>

text \<open>\<open>finishes fs s t\<close>: the frames \<open>fs\<close> run in the store \<open>s\<close> leave the store \<open>t\<close>.\<close>

definition finishes :: "store_frame list \<Rightarrow> store \<Rightarrow> store \<Rightarrow> bool" where
  "finishes fs s t \<longleftrightarrow> (\<forall>rest. frame_steps (s, fs @ rest) (t, rest))"

lemma finishes_Nil [simp]: "finishes [] s s"
  by (simp add: finishes_def)

lemma finishes_append: "finishes fs s t \<Longrightarrow> finishes gs t u \<Longrightarrow> finishes (fs @ gs) s u"
  unfolding finishes_def by (metis append_assoc rtranclp_trans)

lemma finishes_Cons:
  assumes "run_frame f s = (s', gs)" and "finishes gs s' t" and "finishes fs t u"
  shows "finishes (f # fs) s u"
  unfolding finishes_def
proof
  fix rest
  have "frame_step (s, (f # fs) @ rest) (s', gs @ fs @ rest)"
    using frame_stepI [OF assms(1)] by simp
  moreover have "frame_steps (s', gs @ fs @ rest) (u, rest)"
    using finishes_append [OF assms(2,3)] by (simp add: finishes_def)
  ultimately show "frame_steps (s, (f # fs) @ rest) (u, rest)"
    by (rule converse_rtranclp_into_rtranclp)
qed

lemma finishes_one: "run_frame f s = (s', gs) \<Longrightarrow> finishes gs s' t \<Longrightarrow> finishes [f] s t"
  by (rule finishes_Cons [OF _ _ finishes_Nil])

lemma finishes_done: "run_frame f s = (t, []) \<Longrightarrow> finishes [f] s t"
  by (rule finishes_one [OF _ finishes_Nil])

lemma finishes_two: "finishes [f] s t \<Longrightarrow> finishes fs t u \<Longrightarrow> finishes (f # fs) s u"
  using finishes_append [of "[f]"] by simp

lemma finishes_calls: "finishes (map Call cbs) s (s\<lparr>calls := calls s @ cbs\<rparr>)"
proof (induction cbs arbitrary: s)
  case (Cons cb cbs)
  have "finishes [Inside cb] t t" for t by (rule finishes_done) simp
  then have "finishes [Call cb] s (s\<lparr>calls := calls s @ [cb]\<rparr>)" by (rule finishes_one [rotated]) simp
  from finishes_two [OF this Cons] show ?case by simp
qed simp

lemma finishes_notify: "finishes [Notify k] s (notify k s)"
proof -
  let ?cbs = "case jm_get (subscribers s) k of None \<Rightarrow> [] | Some keySubs \<Rightarrow> keySubs"
  let ?t = "s\<lparr>calls := calls s @ ?cbs\<rparr>"
  have "finishes [NotifyAll] ?t (?t\<lparr>calls := calls ?t @ globalSubscribers ?t\<rparr>)"
    by (rule finishes_one [OF _ finishes_calls]) simp
  then have "finishes [NotifyAll] ?t (notify k s)" by (simp add: notify_def)
  from finishes_append [OF finishes_calls this] show ?thesis by (rule finishes_one [rotated]) simp
qed

lemma finishes_touch: "finishes [Touch k] s (touchLru k s)"
  by (rule finishes_done) simp

lemma finishes_invalidate:
  "invalidate_segment k s = (s', fs) \<Longrightarrow> finishes fs s' (invalidate k s)"
  by (auto simp: invalidate_segment_def invalidate_def Let_def intro: finishes_notify split: if_splits)

lemma finishes_evict: "finishes [Evict] s (evictIfNeeded s)"
proof (induction s rule: evictIfNeeded.induct)
  case (1 s)
  show ?case
  proof (cases "length (records s) > maxResources s \<or> length (stateSnapshots s) > maxResources s")
    case over: True
    show ?thesis
    proof (cases "lruOrder s")
      case Nil
      with over show ?thesis by (intro finishes_done) (simp add: evictIfNeeded.simps [of s])
    next
      case (Cons oldest rest)
      obtain s' fs where seg: "invalidate_segment oldest (s\<lparr>lruOrder := rest\<rparr>) = (s', fs)" by fastforce
      have "finishes (fs @ [Evict]) s' (evictIfNeeded s)"
        using finishes_append [OF finishes_invalidate [OF seg] "1.IH" [OF over Cons]] over Cons
        by (simp add: evictIfNeeded.simps [of s])
      then show ?thesis by (rule finishes_one [rotated]) (use over Cons seg in simp)
    qed
  next
    case False
    then show ?thesis by (intro finishes_done) (simp add: evictIfNeeded.simps [of s])
  qed
qed

lemma finishes_snapshot:
  assumes "snapshot_segment k status err stale s = (changed, s', fs)"
  shows "fst (updateStateSnapshot k status err stale s) = changed"
    and "finishes fs s' (snd (updateStateSnapshot k status err stale s))"
  using assms finishes_evict
  by (auto simp: snapshot_segment_def updateStateSnapshot_def Let_def split: if_splits)

text \<open>The rest of a method whose loading state was updated.\<close>

lemma finishes_updated:
  assumes "snapshot_segment k status err stale s = (changed, s', fs)"
  shows "finishes (fs @ (if changed then [Notify k] else [])) s'
    (let u = updateStateSnapshot k status err stale s in if fst u then notify k (snd u) else snd u)"
  using finishes_snapshot [OF assms] finishes_append [OF finishes_snapshot(2) [OF assms] finishes_notify]
  by (simp add: Let_def)

lemma set_segment_eq:
  "set_segment now k version val s =
     (if set_skips k version s then (touchLru k (snd (getStateSnapshot k s)), [])
      else let u = snapshot_segment k Ready None False (set_written now k version val s)
        in (fst (snd u), snd (snd u) @ [Touch k, Evict, Notify k]))"
  by (auto simp: set_segment_def set_skips_def set_written_def Let_def split_beta split: option.splits)

lemma finishes_set:
  assumes "set_segment now k version val s = (s', fs)"
  shows "finishes fs s' (snd (store_set now k version val s))"
proof (cases "set_skips k version s")
  case True
  with assms show ?thesis by (auto simp: set_segment_eq store_set_eq)
next
  case False
  obtain changed t gs where seg: "snapshot_segment k Ready None False (set_written now k version val s) =
    (changed, t, gs)" by (metis prod_cases3)
  have "finishes (gs @ [Touch k, Evict, Notify k]) t
      (notify k (evictIfNeeded (touchLru k (snd (updateStateSnapshot k Ready None False
        (set_written now k version val s))))))"
    by (intro finishes_append [OF finishes_snapshot(2) [OF seg]] finishes_two [OF finishes_touch]
        finishes_two [OF finishes_evict] finishes_notify)
  with assms False seg show ?thesis by (auto simp: set_segment_eq store_set_eq)
qed

lemma mark_segment_eq:
  "mark_segment status err k s =
     (let u = snapshot_segment k status err (jm_has (records s) k) (with_stale_mark k s)
      in (fst (snd u), snd (snd u) @ (if fst u then [Notify k] else [])))"
  by (simp add: mark_segment_def with_stale_mark_def Let_def split_beta)

lemma finishes_mark:
  assumes "mark_segment status err k s = (s', fs)"
  shows "finishes fs s' (mark_status status err k s)"
proof -
  obtain changed t gs where seg: "snapshot_segment k status err (jm_has (records s) k) (with_stale_mark k s) =
    (changed, t, gs)" by (metis prod_cases3)
  with assms finishes_updated [OF seg] show ?thesis by (auto simp: mark_segment_eq mark_status_eq Let_def)
qed

lemma clearError_segment_eq:
  "clearError_segment k s =
     (if s_error (snapshot_of k s) = None then (snd (getStateSnapshot k s), [])
      else let u = snapshot_segment k (if jm_has (records s) k then Ready else Missing) None
          (jm_has (records s) k \<and> k \<in> set (staleKeys s)) (snd (getStateSnapshot k s))
        in (fst (snd u), snd (snd u) @ (if fst u then [Notify k] else [])))"
  by (simp add: clearError_segment_def Let_def split_beta)

lemma clearResourceError_eq:
  "clearResourceError k s =
     (if s_error (snapshot_of k s) = None then snd (getStateSnapshot k s)
      else let u = updateStateSnapshot k (if jm_has (records s) k then Ready else Missing) None
          (jm_has (records s) k \<and> k \<in> set (staleKeys s)) (snd (getStateSnapshot k s))
        in if fst u then notify k (snd u) else snd u)"
  by (simp add: clearResourceError_def Let_def split_beta)

lemma finishes_clearError:
  assumes "clearError_segment k s = (s', fs)"
  shows "finishes fs s' (clearResourceError k s)"
proof -
  obtain changed t gs where seg: "snapshot_segment k (if jm_has (records s) k then Ready else Missing) None
      (jm_has (records s) k \<and> k \<in> set (staleKeys s)) (snd (getStateSnapshot k s)) = (changed, t, gs)"
    by (metis prod_cases3)
  with assms finishes_updated [OF seg] show ?thesis
    by (auto simp: clearError_segment_eq clearResourceError_eq Let_def split: if_splits)
qed

lemma patch_segment_eq:
  "patch_segment now stamp ref k ps s =
     (case jm_get (records s) k of None \<Rightarrow> (s, [])
      | Some old \<Rightarrow> (case apply_patches ref (r_value old) ps of None \<Rightarrow> (s, [])
         | Some val \<Rightarrow>
             let u = snapshot_segment k Ready None True (patch_written now stamp k old val s)
             in (fst (snd u), snd (snd u) @ [Touch k, Notify k])))"
  by (simp add: patch_segment_def patch_written_def Let_def split_beta split: option.split)

lemma finishes_patch:
  assumes "patch_segment now stamp ref k ps s = (s', fs)"
  shows "finishes fs s' (run_store_op (OpPatch now stamp ref k ps) s)"
proof -
  have "finishes (snd (snd (snapshot_segment k Ready None True u)) @ [Touch k, Notify k])
      (fst (snd (snapshot_segment k Ready None True u)))
      (notify k (touchLru k (snd (updateStateSnapshot k Ready None True u))))" for u
  proof -
    obtain changed t gs where seg: "snapshot_segment k Ready None True u = (changed, t, gs)"
      by (metis prod_cases3)
    show ?thesis unfolding seg fst_conv snd_conv
      by (intro finishes_append [OF finishes_snapshot(2) [OF seg]] finishes_two [OF finishes_touch] finishes_notify)
  qed
  with assms show ?thesis
    by (auto simp: patch_segment_eq store_patch_eq Let_def split: option.splits)
qed

lemma markStale_segment_eq:
  "markStale_segment k s =
     (if \<not> jm_has (records s) k \<or> k \<in> set (staleKeys s) then (s, [])
      else let u = snapshot_segment k (s_status (snapshot_of k s)) (s_error (snapshot_of k s)) True (stale_marked k s)
        in (fst (snd u), snd (snd u) @ [Notify k]))"
  by (simp add: markStale_segment_def stale_marked_def Let_def split_beta snapshot_of_def)

lemma finishes_markStale:
  assumes "markStale_segment k s = (s', fs)"
  shows "finishes fs s' (markStale k s)"
proof -
  obtain changed t gs where seg: "snapshot_segment k (s_status (snapshot_of k s)) (s_error (snapshot_of k s)) True
      (stale_marked k s) = (changed, t, gs)" by (metis prod_cases3)
  from finishes_append [OF finishes_snapshot(2) [OF seg] finishes_notify] assms seg show ?thesis
    by (auto simp: markStale_segment_eq markStale_eq Let_def split: if_splits)
qed

lemma finishes_sets: "finishes [SetNext now es] s (snd (setMany now es s))"
proof (induction es arbitrary: s)
  case (Cons e es)
  obtain k version val where e: "e = (k, version, val)" by (metis prod_cases3)
  obtain s' fs where seg: "set_segment now k version val s = (s', fs)" by fastforce
  from finishes_append [OF finishes_set [OF seg] Cons] show ?case
    by (intro finishes_one) (simp_all add: e seg split_beta Let_def)
qed (simp add: finishes_done)

lemma finishes_marks: "finishes [MarkNext status ks] s (fold (mark_status status None) ks s)"
proof (induction ks arbitrary: s)
  case (Cons k ks)
  obtain s' fs where seg: "mark_segment status None k s = (s', fs)" by fastforce
  from finishes_append [OF finishes_mark [OF seg] Cons] show ?case
    by (intro finishes_one) (simp_all add: seg)
qed (simp add: finishes_done)

lemma finishes_clears: "finishes [ClearNext ks] s (fold notify ks s)"
proof (induction ks arbitrary: s)
  case (Cons k ks)
  from finishes_two [OF finishes_notify Cons] show ?case by (intro finishes_one) simp_all
qed (simp add: finishes_done)

lemma begin_finishes:
  assumes "begin_op opr s = (s', fs)"
  shows "finishes fs s' (run_store_op opr s)"
proof (cases opr)
  case OpClear
  with assms show ?thesis
    using finishes_clears by (auto simp: clear_segment_def store_clear_def Let_def)
qed (use assms finishes_set finishes_sets finishes_marks finishes_mark finishes_clearError finishes_patch
    finishes_invalidate finishes_markStale in
    \<open>auto simp: markPending_def markLoading_def setResourceError_def simp del: run_store_op.simps(7)\<close>)

lemma frame_step_fun: "frame_step c d \<Longrightarrow> frame_step c d' \<Longrightarrow> d = d'"
  by (auto elim!: frame_step.cases)

lemma frame_steps_end: "frame_steps c e \<Longrightarrow> frame_steps c e' \<Longrightarrow> snd e = [] \<Longrightarrow> snd e' = [] \<Longrightarrow> e = e'"
proof (induction rule: converse_rtranclp_induct)
  case base
  then show ?case by (cases e) (auto elim: converse_rtranclpE)
next
  case (step c d)
  from step.prems(1) show ?case
  proof (cases rule: converse_rtranclpE)
    case base
    with step.hyps(1) step.prems show ?thesis by (cases c) auto
  next
    case (step d')
    with step.hyps(1) frame_step_fun have "frame_steps d e'" by blast
    then show ?thesis using step.IH step.prems by blast
  qed
qed

section \<open>Soundness in the middle of an operation\<close>

text \<open>
  What holds of a key at every moment, whatever subscribers do: the record, the loading state and the
  stale mark agree, and a key that has any of them is in the recency list. The converse, that the list
  holds no other key, is lost when a subscriber removes a key the interrupted operation goes on to
  touch.
\<close>

definition key_sound :: "store \<Rightarrow> rkey \<Rightarrow> bool" where
  "key_sound s k \<longleftrightarrow>
     (jm_has (records s) k \<or> jm_has (stateSnapshots s) k \<longrightarrow> k \<in> set (lruOrder s)) \<and>
     (k \<in> set (staleKeys s) \<longrightarrow> jm_has (records s) k) \<and>
     (\<forall>r. jm_get (records s) k = Some r \<longrightarrow> r_key r = k \<and> jm_has (stateSnapshots s) k) \<and>
     (\<forall>st. jm_get (stateSnapshots s) k = Some st \<longrightarrow> snapshot_ok s k st)"

definition store_sound :: "store \<Rightarrow> bool" where
  "store_sound s \<longleftrightarrow> store_struct s \<and> (\<forall>k. key_sound s k)"

lemma store_ok_sound: "store_ok s \<Longrightarrow> store_sound s"
  by (auto simp: store_ok_def store_sound_def key_ok_def key_sound_def)

lemma store_soundD:
  assumes "store_sound s"
  shows "store_struct s" and "jm_has (records s) k \<or> jm_has (stateSnapshots s) k \<Longrightarrow> k \<in> set (lruOrder s)"
    and "k \<in> set (staleKeys s) \<Longrightarrow> jm_has (records s) k"
    and "jm_get (records s) k = Some r \<Longrightarrow> r_key r = k"
    and "jm_has (records s) k \<Longrightarrow> jm_has (stateSnapshots s) k"
    and "jm_get (stateSnapshots s) k = Some st \<Longrightarrow> snapshot_ok s k st"
  using assms by (auto simp: store_sound_def key_sound_def jm_has_iff)

text \<open>A change of one key that leaves the others alone.\<close>

lemma store_sound_change:
  assumes "store_sound s" and "store_struct t" and "key_sound t k"
    and "\<And>k'. k' \<noteq> k \<Longrightarrow> jm_get (records t) k' = jm_get (records s) k'"
    and "\<And>k'. k' \<noteq> k \<Longrightarrow> jm_get (stateSnapshots t) k' = jm_get (stateSnapshots s) k'"
    and "\<And>k'. k' \<noteq> k \<Longrightarrow> k' \<in> set (staleKeys t) \<longleftrightarrow> k' \<in> set (staleKeys s)"
    and "\<And>k'. k' \<noteq> k \<Longrightarrow> k' \<in> set (lruOrder s) \<Longrightarrow> k' \<in> set (lruOrder t)"
  shows "store_sound t"
proof -
  have "key_sound t k'" if "k' \<noteq> k" for k'
  proof -
    have "key_sound s k'" using assms(1) by (simp add: store_sound_def)
    moreover have "snapshot_ok t k' st = snapshot_ok s k' st" for st
      using that assms by (intro snapshot_ok_cong) simp_all
    ultimately show ?thesis
      using that assms(4-7) by (auto simp: key_sound_def jm_has_iff)
  qed
  with assms(2,3) show ?thesis unfolding store_sound_def by metis
qed

lemma store_sound_touchLru: "store_sound s \<Longrightarrow> store_sound (touchLru k s)"
  by (auto simp: store_sound_def store_struct_touchLru key_sound_def store_struct_def)

lemma store_sound_reads:
  "store_sound s \<Longrightarrow> store_sound (snd (getStateSnapshot k s))"
  "store_sound s \<Longrightarrow> store_sound (snd (getRecord k s))"
  "store_sound s \<Longrightarrow> store_sound (snd (getSnapshot k s))"
  by (auto simp: getStateSnapshot_def getRecord_def getSnapshot_def Let_def store_sound_touchLru split: option.split)

lemma store_sound_subscriptions:
  assumes "store_sound s" and "records t = records s" and "stateSnapshots t = stateSnapshots s"
    and "staleKeys t = staleKeys s" and "lruOrder t = lruOrder s" and "store_struct t"
  shows "store_sound t"
proof -
  have "snapshot_ok t k st = snapshot_ok s k st" for k st by (rule snapshot_ok_cong) (simp_all add: assms)
  with assms show ?thesis by (simp add: store_sound_def key_sound_def)
qed

text \<open>The situation in which \<open>updateStateSnapshot\<close> is called.\<close>

definition snap_pre :: "rkey \<Rightarrow> resource_status \<Rightarrow> error_detail option \<Rightarrow> bool \<Rightarrow> store \<Rightarrow> bool" where
  "snap_pre k status err stale s \<longleftrightarrow>
     store_struct s \<and> (\<forall>k'. k' \<noteq> k \<longrightarrow> key_sound s k') \<and>
     (k \<in> set (staleKeys s) \<longrightarrow> jm_has (records s) k) \<and>
     (\<forall>r. jm_get (records s) k = Some r \<longrightarrow> r_key r = k) \<and>
     (stale \<longleftrightarrow> k \<in> set (staleKeys s)) \<and>
     (status = Ready \<longrightarrow> jm_has (records s) k) \<and>
     (status = Error \<longleftrightarrow> err \<noteq> None) \<and>
     (status = Missing \<longrightarrow> \<not> jm_has (records s) k \<and> s_error (snapshot_of k s) \<noteq> None) \<and>
     (jm_has (stateSnapshots s) k \<longrightarrow> k \<in> set (lruOrder s))"

lemma snapshot_segment_eq:
  assumes "snap_pre k status err stale s"
  shows "snapshot_segment k status err stale s =
    (if upd_unchanged k status err stale s then (False, s, [])
     else if status = Missing then
       (True, removeFromLru k (s\<lparr>stateSnapshots := jm_delete k (stateSnapshots s)\<rparr>), [])
     else (True, upd_written k status err stale s, [Evict]))"
proof (cases "status = Missing")
  case True
  with assms have "\<not> jm_has (records s) k" "err = None" "\<not> stale" by (auto simp: snap_pre_def)
  moreover from this have "value_of k s = JUndef" by (simp add: value_of_def flip: jm_get_None_iff)
  ultimately show ?thesis
    using True by (simp add: snapshot_segment_def upd_unchanged_def Let_def)
next
  case False
  then show ?thesis
    by (simp add: snapshot_segment_def upd_unchanged_def upd_written_def new_snapshot_def Let_def)
qed

lemma snap_unchanged:
  assumes pre: "snap_pre k status err stale s" and same: "upd_unchanged k status err stale s"
  shows "store_sound s \<and> jm_has (stateSnapshots s) k"
proof -
  have st: "status \<noteq> Missing"
    using pre same by (auto simp: snap_pre_def upd_unchanged_def Let_def dest!: same_error_None)
  then obtain sn where sn: "jm_get (stateSnapshots s) k = Some sn"
    using same by (auto simp: upd_unchanged_def snapshot_of_def MISSING_RESOURCE_STATE_def Let_def
        split: option.splits)
  then have "snapshot_ok s k sn"
    using pre same st
    by (auto simp: upd_unchanged_def snap_pre_def snapshot_ok_def snapshot_of_def same_value_def
        Let_def dest: same_error_None)
  then have "key_sound s k" using pre sn by (auto simp: key_sound_def snap_pre_def jm_has_iff)
  then have "\<forall>k'. key_sound s k'" using pre unfolding snap_pre_def by metis
  with pre sn show ?thesis by (auto simp: store_sound_def snap_pre_def jm_has_iff)
qed

lemma snap_sound:
  assumes pre: "snap_pre k status err stale s"
  shows "store_sound (fst (snd (snapshot_segment k status err stale s)))"
proof -
  have others: "key_sound t k'" if "k' \<noteq> k" and
      "\<And>k'. k' \<noteq> k \<Longrightarrow> jm_get (stateSnapshots t) k' = jm_get (stateSnapshots s) k'"
      "records t = records s" "staleKeys t = staleKeys s"
      "\<And>k'. k' \<noteq> k \<Longrightarrow> k' \<in> set (lruOrder s) \<Longrightarrow> k' \<in> set (lruOrder t)" for k' t
  proof -
    have "key_sound s k'" using pre that(1) by (simp add: snap_pre_def)
    moreover have "snapshot_ok t k' st = snapshot_ok s k' st" for st
      using that by (intro snapshot_ok_cong) simp_all
    ultimately show ?thesis using that by (auto simp: key_sound_def jm_has_iff)
  qed
  let ?r = "removeFromLru k (s\<lparr>stateSnapshots := jm_delete k (stateSnapshots s)\<rparr>)"
  let ?w = "upd_written k status err stale s"
  have "store_struct ?r" and "store_struct ?w"
    using pre by (auto simp: snap_pre_def store_struct_def)
  have removed: "key_sound ?r k'" if "status = Missing" for k'
  proof (cases "k' = k")
    case True
    with pre that show ?thesis by (auto simp: key_sound_def snap_pre_def jmap_simps jm_has_iff)
  next
    case False
    then show ?thesis by (rule others) (auto simp: jmap_simps)
  qed
  have written: "key_sound ?w k'" if "status \<noteq> Missing" for k'
  proof (cases "k' = k")
    case True
    have "snapshot_ok ?w k st = snapshot_ok s k st" for st by (rule snapshot_ok_cong) simp_all
    moreover have "snapshot_ok s k (new_snapshot k status err stale s)"
      using pre that by (auto simp: snapshot_ok_def new_snapshot_def snap_pre_def)
    ultimately show ?thesis using pre True by (auto simp: key_sound_def snap_pre_def jmap_simps)
  next
    case False
    then show ?thesis by (rule others) (auto simp: jmap_simps)
  qed
  show ?thesis
    using snap_unchanged [OF pre] removed written \<open>store_struct ?r\<close> \<open>store_struct ?w\<close>
    by (auto simp: snapshot_segment_eq [OF pre] store_sound_def)
qed

lemma snap_capacity:
  assumes "snap_pre k status err stale s" and "within_capacity s"
    and "snapshot_segment k status err stale s = (changed, s', fs)"
  shows "within_capacity s' \<or> Evict \<in> set fs"
  using assms length_jm_delete_le [of k "stateSnapshots s"]
  by (auto simp: snapshot_segment_eq within_capacity_def split: if_splits)

section \<open>Every segment keeps the soundness\<close>

text \<open>A configuration is sound; over the capacity only while an eviction is still to be run.\<close>

definition config_sound :: "store_config \<Rightarrow> bool" where
  "config_sound c \<longleftrightarrow> store_sound (fst c) \<and> (within_capacity (fst c) \<or> Evict \<in> set (snd c))"

definition keeps_sound :: "store \<Rightarrow> store_config \<Rightarrow> bool" where
  "keeps_sound s c \<longleftrightarrow> store_sound (fst c) \<and> (within_capacity s \<longrightarrow> within_capacity (fst c) \<or> Evict \<in> set (snd c))"

lemma keeps_soundI:
  "store_sound s' \<Longrightarrow> (within_capacity s \<Longrightarrow> within_capacity s' \<or> Evict \<in> set fs) \<Longrightarrow> keeps_sound s (s', fs)"
  by (simp add: keeps_sound_def)

lemma snap_keeps:
  assumes "snap_pre k status err stale u" and "within_capacity s \<Longrightarrow> within_capacity u"
    and "snapshot_segment k status err stale u = (changed, s', fs)"
  shows "keeps_sound s (s', fs @ gs)"
  using snap_sound [OF assms(1)] snap_capacity [OF assms(1) assms(2) assms(3)] assms(3)
  by (auto simp: keeps_sound_def)

lemma set_keeps:
  assumes "store_sound s"
  shows "keeps_sound s (set_segment now k version val s)"
proof (cases "set_skips k version s")
  case True
  with assms show ?thesis
    by (simp add: set_segment_eq keeps_sound_def store_sound_touchLru store_sound_reads within_capacity_reads)
next
  case False
  let ?w = "set_written now k version val s"
  note D = store_soundD [OF store_sound_reads(1) [OF assms, of k]]
  have "store_sound (snd (getStateSnapshot k s))" by (rule store_sound_reads(1) [OF assms])
  then have "key_sound (snd (getStateSnapshot k s)) k'" for k' by (simp add: store_sound_def)
  moreover have "snapshot_ok ?w k' st = snapshot_ok (snd (getStateSnapshot k s)) k' st" if "k' \<noteq> k" for k' st
    using that by (intro snapshot_ok_cong) (auto simp: jmap_simps)
  ultimately have "key_sound ?w k'" if "k' \<noteq> k" for k'
    using that by (fastforce simp: key_sound_def jmap_simps)
  moreover have "store_struct ?w" using D(1) by (auto simp: store_struct_def)
  ultimately have pre: "snap_pre k Ready None False ?w"
    using D(2) [of k] by (auto simp: snap_pre_def jmap_simps)
  show ?thesis
    using False snap_sound [OF pre] by (simp add: set_segment_eq keeps_sound_def Let_def)
qed

lemma mark_keeps:
  assumes "store_sound s" and "status \<noteq> Missing" and "status \<noteq> Ready" and "status = Error \<longleftrightarrow> err \<noteq> None"
  shows "keeps_sound s (mark_segment status err k s)"
proof -
  let ?w = "with_stale_mark k s"
  note D = store_soundD [OF assms(1)]
  have "key_sound s k'" for k' using assms(1) by (simp add: store_sound_def)
  moreover have "snapshot_ok ?w k' st = snapshot_ok s k' st" if "k' \<noteq> k" for k' st
    using that by (intro snapshot_ok_cong) auto
  ultimately have "key_sound ?w k'" if "k' \<noteq> k" for k'
    using that by (fastforce simp: key_sound_def)
  moreover have "store_struct ?w" using D(1) by (simp add: store_struct_def with_stale_mark_def)
  ultimately have pre: "snap_pre k status err (jm_has (records s) k) ?w"
    using assms(2-4) D by (auto simp: snap_pre_def)
  obtain changed t gs where seg: "snapshot_segment k status err (jm_has (records s) k) ?w = (changed, t, gs)"
    by (metis prod_cases3)
  show ?thesis
    using snap_keeps [OF pre _ seg] by (simp add: mark_segment_eq seg within_capacity_def)
qed

lemma clearError_keeps:
  assumes "store_sound s"
  shows "keeps_sound s (clearError_segment k s)"
proof (cases "s_error (snapshot_of k s) = None")
  case True
  with assms show ?thesis
    by (simp add: clearError_segment_eq keeps_sound_def store_sound_reads within_capacity_reads)
next
  case False
  let ?g = "snd (getStateSnapshot k s)"
  let ?st = "if jm_has (records s) k then Ready else Missing"
  let ?stale = "jm_has (records s) k \<and> k \<in> set (staleKeys s)"
  have ok: "store_sound ?g" by (rule store_sound_reads(1) [OF assms])
  have "snapshot_of k ?g = snapshot_of k s" by (simp add: snapshot_of_def)
  then have pre: "snap_pre k ?st None ?stale ?g"
    using False ok store_soundD [OF ok] by (auto simp: snap_pre_def store_sound_def)
  obtain changed t gs where seg: "snapshot_segment k ?st None ?stale ?g = (changed, t, gs)" by (metis prod_cases3)
  show ?thesis
    unfolding clearError_segment_eq seg if_not_P [OF False] Let_def fst_conv snd_conv
    by (rule snap_keeps [OF pre _ seg]) (simp add: within_capacity_reads)
qed

lemma patch_keeps:
  assumes "store_sound s"
  shows "keeps_sound s (patch_segment now stamp ref k ps s)"
proof (cases "jm_get (records s) k")
  case None
  with assms show ?thesis by (simp add: patch_segment_eq keeps_sound_def)
next
  case (Some old)
  note D = store_soundD [OF assms]
  show ?thesis
  proof (cases "apply_patches ref (r_value old) ps")
    case None
    with Some assms show ?thesis by (simp add: patch_segment_eq keeps_sound_def)
  next
    case (Some val)
    let ?w = "patch_written now stamp k old val s"
    have "key_sound s k'" for k' using assms by (simp add: store_sound_def)
    moreover have "snapshot_ok ?w k' st = snapshot_ok s k' st" if "k' \<noteq> k" for k' st
      using that by (intro snapshot_ok_cong) (auto simp: jmap_simps patch_written_def)
    ultimately have "key_sound ?w k'" if "k' \<noteq> k" for k'
      using that by (fastforce simp: key_sound_def jmap_simps patch_written_def)
    moreover have "store_struct ?w" using D(1) by (auto simp: store_struct_def patch_written_def)
    ultimately have pre: "snap_pre k Ready None True ?w"
      using D(2) [of k] by (auto simp: snap_pre_def jmap_simps patch_written_def)
    have has: "jm_has (records s) k" using \<open>jm_get (records s) k = Some old\<close> by (simp add: jm_has_iff)
    obtain changed t gs where seg: "snapshot_segment k Ready None True ?w = (changed, t, gs)" by (metis prod_cases3)
    have "within_capacity s \<Longrightarrow> within_capacity ?w"
      using has by (simp add: within_capacity_def patch_written_def length_jm_set)
    from snap_keeps [OF pre this seg] show ?thesis
      using \<open>jm_get (records s) k = Some old\<close> Some by (simp add: patch_segment_eq seg)
  qed
qed

lemma markStale_keeps:
  assumes "store_sound s"
  shows "keeps_sound s (markStale_segment k s)"
proof (cases "\<not> jm_has (records s) k \<or> k \<in> set (staleKeys s)")
  case True
  with assms show ?thesis by (simp add: markStale_segment_eq keeps_sound_def)
next
  case False
  then have has: "jm_has (records s) k" and new: "k \<notin> set (staleKeys s)" by auto
  note D = store_soundD [OF assms]
  obtain st where st: "jm_get (stateSnapshots s) k = Some st"
    using D(5) [OF has] by (auto simp: jm_has_iff)
  have sn: "snapshot_ok s k st" by (rule D(6) [OF st])
  let ?w = "stale_marked k s"
  have lru: "k' \<in> set (lruOrder s) \<Longrightarrow> k' \<in> set (lruOrder ?w)" for k'
    using has D(1) by (auto simp: stale_marked_def getStateSnapshot_def Let_def store_struct_def)
  have "key_sound s k'" for k' using assms by (simp add: store_sound_def)
  moreover have "snapshot_ok ?w k' t = snapshot_ok s k' t" if "k' \<noteq> k" for k' t
    using that by (intro snapshot_ok_cong) auto
  ultimately have "key_sound ?w k'" if "k' \<noteq> k" for k'
    using that lru by (fastforce simp: key_sound_def)
  moreover have "store_struct ?w"
    using D(1) by (auto simp: store_struct_def stale_marked_def getStateSnapshot_def Let_def)
  ultimately have pre: "snap_pre k (s_status (snapshot_of k s)) (s_error (snapshot_of k s)) True ?w"
    using sn st has lru [of k] D(2) [of k] D(4) [of k]
    by (auto simp: snap_pre_def snapshot_of_def snapshot_ok_def)
  obtain changed t gs where seg: "snapshot_segment k (s_status (snapshot_of k s)) (s_error (snapshot_of k s)) True ?w =
    (changed, t, gs)" by (metis prod_cases3)
  show ?thesis
    using False snap_keeps [OF pre _ seg] by (simp add: markStale_segment_eq seg within_capacity_def)
qed

lemma invalidate_keeps:
  assumes "store_sound s" and "lruOrder s = keys \<or> lruOrder s = k # keys"
  shows "keeps_sound s (invalidate_segment k (s\<lparr>lruOrder := keys\<rparr>))"
proof -
  obtain t fs where seg: "invalidate_segment k (s\<lparr>lruOrder := keys\<rparr>) = (t, fs)" by fastforce
  note D = store_soundD [OF assms(1)]
  have t: "records t = jm_delete k (records s)" "staleKeys t = jset_delete k (staleKeys s)"
    "stateSnapshots t = jm_delete k (stateSnapshots s)" "maxResources t = maxResources s"
    "subscribers t = subscribers s" "globalSubscribers t = globalSubscribers s"
    using seg by (auto simp: invalidate_segment_def Let_def jm_delete_idle removeFromLru_def split: if_splits)
  have lru: "lruOrder t = keys \<or> lruOrder t = remove1 k keys"
    using seg by (auto simp: invalidate_segment_def Let_def removeFromLru_def split: if_splits)
  have d: "distinct keys" "set keys \<subseteq> set (lruOrder s)" "set (lruOrder s) \<subseteq> insert k (set keys)"
    using D(1) assms(2) by (auto simp: store_struct_def)
  have "store_sound t"
  proof (rule store_sound_change [OF assms(1)])
    show "store_struct t" using D(1) d lru t by (auto simp: store_struct_def)
    show "key_sound t k" by (simp add: key_sound_def t jmap_simps)
    show "k' \<in> set (lruOrder t)" if "k' \<noteq> k" and "k' \<in> set (lruOrder s)" for k'
      using that d lru by auto
  qed (auto simp: t jmap_simps)
  then show ?thesis
    using t length_jm_delete_le [of k "records s"] length_jm_delete_le [of k "stateSnapshots s"]
    by (auto simp: keeps_sound_def seg within_capacity_def)
qed

text \<open>A loop over announced or loading keys writes no other status.\<close>

primrec frame_ok :: "store_frame \<Rightarrow> bool" where
  "frame_ok Evict = True"
| "frame_ok (Touch k) = True"
| "frame_ok (Notify k) = True"
| "frame_ok NotifyAll = True"
| "frame_ok (Call cb) = True"
| "frame_ok (Inside cb) = True"
| "frame_ok (SetNext now es) = True"
| "frame_ok (MarkNext status ks) = (status = Pending \<or> status = Loading)"
| "frame_ok (ClearNext ks) = True"

lemma snapshot_frames: "snapshot_segment k status err stale s = (changed, s', fs) \<Longrightarrow> fs = [] \<or> fs = [Evict]"
  by (auto simp: snapshot_segment_def Let_def split: if_splits)

lemma segment_frames_ok:
  "f \<in> set (snd (set_segment now k version val s)) \<Longrightarrow> frame_ok f"
  "f \<in> set (snd (mark_segment status err k s)) \<Longrightarrow> frame_ok f"
  "f \<in> set (snd (clearError_segment k s)) \<Longrightarrow> frame_ok f"
  "f \<in> set (snd (patch_segment now stamp ref k ps s)) \<Longrightarrow> frame_ok f"
  "f \<in> set (snd (markStale_segment k s)) \<Longrightarrow> frame_ok f"
  "f \<in> set (snd (invalidate_segment k s)) \<Longrightarrow> frame_ok f"
proof -
  have *: "frame_ok f" if "f \<in> set (snd (snd (snapshot_segment k status err stale s)))" for k status err stale s
  proof -
    obtain changed t fs where seg: "snapshot_segment k status err stale s = (changed, t, fs)"
      by (metis prod_cases3)
    with that snapshot_frames [OF seg] show ?thesis by auto
  qed
  show "f \<in> set (snd (set_segment now k version val s)) \<Longrightarrow> frame_ok f"
    and "f \<in> set (snd (mark_segment status err k s)) \<Longrightarrow> frame_ok f"
    and "f \<in> set (snd (clearError_segment k s)) \<Longrightarrow> frame_ok f"
    and "f \<in> set (snd (patch_segment now stamp ref k ps s)) \<Longrightarrow> frame_ok f"
    and "f \<in> set (snd (markStale_segment k s)) \<Longrightarrow> frame_ok f"
    and "f \<in> set (snd (invalidate_segment k s)) \<Longrightarrow> frame_ok f"
    by (auto simp: set_segment_eq mark_segment_eq clearError_segment_eq patch_segment_eq markStale_segment_eq
        invalidate_segment_def Let_def dest: * split: if_splits option.splits)
qed

lemma store_clear_keeps: "store_sound s \<Longrightarrow> keeps_sound s (clear_segment s)"
  by (auto simp: clear_segment_def keeps_sound_def store_sound_def store_struct_def key_sound_def Let_def
      within_capacity_def)

lemma store_struct_subs:
  assumes "store_struct s"
  shows "store_struct (store_subscribe k cb s)" and "store_struct (store_unsubscribe k cb s)"
    and "store_struct (store_subscribeAll cb s)" and "store_struct (store_unsubscribeAll cb s)"
proof -
  have "jset_add cb cbs \<noteq> []" for cbs :: "callback list" by (auto simp: jset_add_def)
  then show "store_struct (store_subscribe k cb s)" and "store_struct (store_unsubscribe k cb s)"
    and "store_struct (store_subscribeAll cb s)" and "store_struct (store_unsubscribeAll cb s)"
    using assms
    by (auto simp: store_struct_def store_subscribe_def store_unsubscribe_def store_subscribeAll_def
        store_unsubscribeAll_def Let_def jmap_simps split: option.splits if_splits)
qed

lemma keeps_atomic: "store_sound t \<Longrightarrow> within_capacity t = within_capacity s \<Longrightarrow> keeps_sound s (t, [])"
  by (simp add: keeps_sound_def)

lemma subs_keep:
  assumes "store_sound s"
  shows "keeps_sound s (store_subscribe k cb s, [])" and "keeps_sound s (store_unsubscribe k cb s, [])"
    and "keeps_sound s (store_subscribeAll cb s, [])" and "keeps_sound s (store_unsubscribeAll cb s, [])"
proof -
  note S = store_struct_subs [OF store_soundD(1) [OF assms]]
  note D = within_capacity_def Let_def store_subscribe_def store_unsubscribe_def store_subscribeAll_def
    store_unsubscribeAll_def
  show "keeps_sound s (store_subscribe k cb s, [])"
    by (intro keeps_atomic store_sound_subscriptions [OF assms _ _ _ _ S(1)]) (simp_all add: D)
  show "keeps_sound s (store_unsubscribe k cb s, [])"
    by (intro keeps_atomic store_sound_subscriptions [OF assms _ _ _ _ S(2)]) (simp_all add: D split: option.split)
  show "keeps_sound s (store_subscribeAll cb s, [])"
    by (intro keeps_atomic store_sound_subscriptions [OF assms _ _ _ _ S(3)]) (simp_all add: D)
  show "keeps_sound s (store_unsubscribeAll cb s, [])"
    by (intro keeps_atomic store_sound_subscriptions [OF assms _ _ _ _ S(4)]) (simp_all add: D)
qed

lemma reads_keep:
  assumes "store_sound s"
  shows "keeps_sound s (snd (getSnapshot k s), [])" and "keeps_sound s (snd (getStateSnapshot k s), [])"
    and "keeps_sound s (snd (getRecord k s), [])"
proof -
  have "within_capacity (snd (getSnapshot k s)) = within_capacity s"
    by (simp add: getSnapshot_def split: option.split)
  then show "keeps_sound s (snd (getSnapshot k s), [])" and "keeps_sound s (snd (getStateSnapshot k s), [])"
    and "keeps_sound s (snd (getRecord k s), [])"
    using store_sound_reads [OF assms, of k] by (simp_all add: keeps_atomic)
qed

lemma keeps_frames: "store_sound s \<Longrightarrow> keeps_sound s (s, fs)"
  by (simp add: keeps_sound_def)

lemma begin_keeps: "store_sound s \<Longrightarrow> keeps_sound s (begin_op opr s)"
proof (cases opr)
  case (OpInvalidate k)
  assume "store_sound s"
  from invalidate_keeps [OF this, of "lruOrder s" k] OpInvalidate show ?thesis by simp
qed (simp_all add: set_keeps mark_keeps clearError_keeps patch_keeps markStale_keeps store_clear_keeps subs_keep
    reads_keep keeps_frames)

lemma begin_frames_ok: "f \<in> set (snd (begin_op opr s)) \<Longrightarrow> frame_ok f"
  by (cases opr) (auto simp: clear_segment_def Let_def dest: segment_frames_ok)

lemma run_keeps:
  assumes "store_sound s" and "frame_ok f" and "f \<noteq> Evict"
  shows "keeps_sound s (run_frame f s)"
proof (cases f)
  case (SetNext now es)
  show ?thesis
  proof (cases es)
    case (Cons e es')
    obtain k version val where "e = (k, version, val)" by (metis prod_cases3)
    with set_keeps [OF assms(1), of now k version val] SetNext Cons show ?thesis
      by (auto simp: split_beta keeps_sound_def)
  qed (use assms SetNext in \<open>simp add: keeps_frames\<close>)
next
  case (MarkNext status ks)
  show ?thesis
  proof (cases ks)
    case (Cons k ks')
    have "keeps_sound s (mark_segment status None k s)" by (rule mark_keeps) (use MarkNext assms in auto)
    with MarkNext Cons show ?thesis by (auto simp: split_beta keeps_sound_def)
  qed (use assms MarkNext in \<open>simp add: keeps_frames\<close>)
next
  case (ClearNext ks)
  with assms(1) show ?thesis by (cases ks) (simp_all add: keeps_frames)
next
  case (Call cb)
  have "store_sound (s\<lparr>calls := calls s @ [cb]\<rparr>)"
    by (rule store_sound_subscriptions [OF assms(1)]) (use store_soundD(1) [OF assms(1)] in \<open>simp_all add: store_struct_def\<close>)
  with Call show ?thesis by (simp add: keeps_atomic keeps_sound_def within_capacity_def)
qed (use assms in \<open>simp_all add: keeps_frames keeps_atomic store_sound_touchLru\<close>)

lemma evict_keeps:
  assumes "store_sound s"
  shows "store_sound (fst (run_frame Evict s)) \<and>
    (within_capacity (fst (run_frame Evict s)) \<or> Evict \<in> set (snd (run_frame Evict s)))"
proof (cases "within_capacity s")
  case True
  with assms show ?thesis by (simp add: within_capacity_def)
next
  case over: False
  show ?thesis
  proof (cases "lruOrder s")
    case Nil
    with store_soundD(2) [OF assms] have "records s = []" and "stateSnapshots s = []"
      by (auto intro: jm_no_keys)
    with over show ?thesis by (simp add: within_capacity_def)
  next
    case (Cons oldest rest)
    obtain t fs where seg: "invalidate_segment oldest (s\<lparr>lruOrder := rest\<rparr>) = (t, fs)" by fastforce
    have "keeps_sound s (t, fs)"
      using invalidate_keeps [OF assms, of rest oldest] Cons seg by simp
    moreover have "length (records s) > maxResources s \<or> length (stateSnapshots s) > maxResources s"
      using over by (auto simp: within_capacity_def)
    ultimately show ?thesis using Cons seg by (auto simp: keeps_sound_def)
  qed
qed

lemma run_frames_ok: "frame_ok f \<Longrightarrow> g \<in> set (snd (run_frame f s)) \<Longrightarrow> frame_ok g"
  by (cases "(f, s)" rule: run_frame.cases)
    (auto simp: split_beta Let_def split: if_splits list.splits dest: segment_frames_ok)

text \<open>The configurations that can be reached.\<close>

definition config_inv :: "store_config \<Rightarrow> bool" where
  "config_inv c \<longleftrightarrow> config_sound c \<and> (\<forall>f\<in>set (snd c). frame_ok f)"

lemma begin_inv:
  assumes "config_inv (s, fs)"
  shows "config_inv (fst (begin_op opr s), snd (begin_op opr s) @ fs)"
  using assms begin_keeps [of s opr] begin_frames_ok [of _ opr s]
  by (auto simp: config_inv_def config_sound_def keeps_sound_def)

lemma frame_inv:
  assumes "config_inv (s, f # fs)"
  shows "config_inv (fst (run_frame f s), snd (run_frame f s) @ fs)"
proof (cases "f = Evict")
  case True
  with assms evict_keeps [of s] run_frames_ok [of f _ s] show ?thesis
    by (auto simp: config_inv_def config_sound_def)
next
  case False
  with assms run_keeps [of s f] run_frames_ok [of f _ s] show ?thesis
    by (auto simp: config_inv_def config_sound_def keeps_sound_def)
qed

lemma store_step_inv: "store_step c c' \<Longrightarrow> config_inv c \<Longrightarrow> config_inv c'"
proof (induction rule: store_step.induct)
  case (step_frame c c')
  then show ?case
    by (auto elim!: frame_step.cases) (metis frame_inv fst_conv snd_conv)
next
  case (step_reenter opr s s' gs cb fs)
  with begin_inv [of s "Inside cb # fs" opr] show ?case by simp
next
  case (step_begin opr s s' gs)
  with begin_inv [of s "[]" opr] show ?case by simp
qed

lemma store_steps_inv: "store_steps c c' \<Longrightarrow> config_inv c \<Longrightarrow> config_inv c'"
  by (induction rule: rtranclp_induct) (auto intro: store_step_inv)

lemma start_inv: "store_inv s \<Longrightarrow> config_inv (s, [])"
  by (simp add: config_inv_def config_sound_def store_inv_def store_ok_sound)

end
