(* ===== verification/Store_Reentry_Theorems.thy ===== *)
theory Store_Reentry_Theorems
  imports Store_Reentry Store_Theorems
begin

text \<open>
  The resource store under re-entrant subscribers: what holds at every moment, that the methods compute
  what \<open>Resource_Store\<close> says when the subscribers leave the store alone, and what a subscriber can break.
\<close>

section \<open>Frames that call out and nothing else\<close>

fun silent :: "store_frame \<Rightarrow> bool" where
  "silent (Notify k) = True"
| "silent NotifyAll = True"
| "silent (Call cb) = True"
| "silent (ClearNext ks) = True"
| "silent _ = False"

lemma notify_only_calls: "\<exists>c. notify k s = s\<lparr>calls := c\<rparr>"
  by (auto simp: notify_def)

lemma fold_notify_only_calls: "\<exists>c. fold notify ks s = s\<lparr>calls := c\<rparr>"
proof (induction ks arbitrary: s)
  case Nil
  show ?case by (rule exI [of _ "calls s"]) simp
next
  case (Cons k ks)
  obtain c where "notify k s = s\<lparr>calls := c\<rparr>" using notify_only_calls by blast
  with Cons [of "notify k s"] show ?case by auto
qed

lemma finishes_silent: "silent f \<Longrightarrow> \<exists>c. finishes [f] s (s\<lparr>calls := c\<rparr>)"
proof (cases f)
  case (Notify k)
  with finishes_notify [of k s] notify_only_calls [of k s] show ?thesis by metis
next
  case NotifyAll
  have "finishes [NotifyAll] s (s\<lparr>calls := calls s @ globalSubscribers s\<rparr>)"
    by (rule finishes_one [OF _ finishes_calls]) simp
  with NotifyAll show ?thesis by blast
next
  case (Call cb)
  with finishes_calls [of "[cb]" s] show ?thesis by auto
next
  case (ClearNext ks)
  with finishes_clears [of ks s] fold_notify_only_calls [of ks s] show ?thesis by metis
qed simp_all

lemma finishes_all_silent: "\<forall>f\<in>set fs. silent f \<Longrightarrow> \<exists>c. finishes fs s (s\<lparr>calls := c\<rparr>)"
proof (induction fs arbitrary: s)
  case Nil
  have "finishes [] s (s\<lparr>calls := calls s\<rparr>)" by simp
  then show ?case by blast
next
  case (Cons f fs)
  then obtain c where "finishes [f] s (s\<lparr>calls := c\<rparr>)" using finishes_silent [of f s] Cons.prems by auto
  moreover obtain d where "finishes fs (s\<lparr>calls := c\<rparr>) (s\<lparr>calls := c\<rparr>\<lparr>calls := d\<rparr>)"
    using Cons.IH [of "s\<lparr>calls := c\<rparr>"] Cons.prems by auto
  ultimately have "finishes (f # fs) s (s\<lparr>calls := d\<rparr>)" using finishes_two by fastforce
  then show ?case by blast
qed

lemma frame_steps_store: "frame_steps c d \<Longrightarrow> store_steps c d"
  by (rule mono_rtranclp [rule_format]) (rule step_frame)

lemma finishes_steps: "finishes fs s t \<Longrightarrow> store_steps (s, fs @ rest) (t, rest)"
  by (auto simp: finishes_def intro: frame_steps_store)

lemma run_step: "run_frame f s = (s', gs) \<Longrightarrow> store_steps (s, f # fs) (s', gs @ fs)"
  by (blast intro: step_frame frame_stepI)

text \<open>A subscriber that calls \<open>clear\<close>.\<close>

definition emptied :: "store \<Rightarrow> callback list \<Rightarrow> store" where
  "emptied s c = s\<lparr>records := [], staleKeys := [], stateSnapshots := [], lruOrder := [], calls := c\<rparr>"

lemma emptied_fields [simp]:
  "records (emptied s c) = []" "staleKeys (emptied s c) = []" "stateSnapshots (emptied s c) = []"
  "lruOrder (emptied s c) = []" "maxResources (emptied s c) = maxResources s"
  "subscribers (emptied s c) = subscribers s" "globalSubscribers (emptied s c) = globalSubscribers s"
  "(emptied s c)\<lparr>calls := d\<rparr> = emptied s d"
  by (simp_all add: emptied_def)

lemma clearing_call: "\<exists>c. store_steps (s, Call cb # fs) (emptied s c, fs)"
proof -
  let ?s1 = "s\<lparr>calls := calls s @ [cb]\<rparr>"
  have "store_steps (s, Call cb # fs) (?s1, Inside cb # fs)"
    using run_step [of "Call cb" s ?s1 "[Inside cb]" fs] by simp
  also obtain ks where "begin_op OpClear ?s1 = (emptied ?s1 (calls ?s1), [ClearNext ks])"
    by (simp add: clear_segment_def emptied_def Let_def)
  from step_reenter [OF this, of cb fs]
  have "store_steps (?s1, Inside cb # fs) (emptied ?s1 (calls ?s1), [ClearNext ks] @ Inside cb # fs)" by blast
  also obtain c where "finishes [ClearNext ks] (emptied ?s1 (calls ?s1)) (emptied ?s1 c)"
    using finishes_silent [of "ClearNext ks" "emptied ?s1 (calls ?s1)"] by auto
  from finishes_steps [OF this]
  have "store_steps (emptied ?s1 (calls ?s1), [ClearNext ks] @ Inside cb # fs) (emptied ?s1 c, Inside cb # fs)" .
  also have "store_steps (emptied ?s1 c, Inside cb # fs) (emptied ?s1 c, fs)"
    using run_step [of "Inside cb" "emptied ?s1 c" "emptied ?s1 c" "[]" fs] by simp
  finally have "store_steps (s, Call cb # fs) (emptied ?s1 c, fs)" .
  then have "store_steps (s, Call cb # fs) (emptied s c, fs)" by (simp add: emptied_def)
  then show ?thesis ..
qed

lemma clearing_calls:
  assumes "cb \<in> set cbs" and "\<forall>f\<in>set gs. silent f"
  shows "\<exists>c. store_steps (s, map Call cbs @ gs @ fs) (emptied s c, fs)"
proof -
  obtain xs ys where cbs: "cbs = xs @ cb # ys" using assms(1) by (auto simp: in_set_conv_decomp)
  let ?s1 = "s\<lparr>calls := calls s @ xs\<rparr>"
  have "store_steps (s, map Call cbs @ gs @ fs) (?s1, Call cb # (map Call ys @ gs) @ fs)"
    using finishes_steps [OF finishes_calls] by (simp add: cbs)
  also obtain c where "store_steps (?s1, Call cb # (map Call ys @ gs) @ fs) (emptied ?s1 c, (map Call ys @ gs) @ fs)"
    using clearing_call by blast
  also have "\<forall>f\<in>set (map Call ys @ gs). silent f" using assms(2) by auto
  from finishes_all_silent [OF this] obtain d where
    "finishes (map Call ys @ gs) (emptied ?s1 c) ((emptied ?s1 c)\<lparr>calls := d\<rparr>)" by blast
  then have "finishes (map Call ys @ gs) (emptied ?s1 c) (emptied ?s1 d)" by simp
  from finishes_steps [OF this]
  have "store_steps (emptied ?s1 c, (map Call ys @ gs) @ fs) (emptied ?s1 d, fs)" .
  finally have "store_steps (s, map Call cbs @ gs @ fs) (emptied s d, fs)" by (simp add: emptied_def)
  then show ?thesis ..
qed

lemma clearing_notify:
  assumes "(\<exists>cbs. jm_get (subscribers s) k = Some cbs \<and> cb \<in> set cbs) \<or> cb \<in> set (globalSubscribers s)"
  shows "\<exists>c. store_steps (s, Notify k # fs) (emptied s c, fs)"
proof -
  define cbs where "cbs = (case jm_get (subscribers s) k of None \<Rightarrow> [] | Some keySubs \<Rightarrow> keySubs)"
  have start: "store_steps (s, Notify k # fs) (s, map Call cbs @ [NotifyAll] @ fs)"
    using run_step [of "Notify k" s s "map Call cbs @ [NotifyAll]" fs] by (simp add: cbs_def)
  show ?thesis
  proof (cases "cb \<in> set cbs")
    case True
    from clearing_calls [OF this, of "[NotifyAll]" s fs] start show ?thesis
      by (metis rtranclp_trans list.set_cases set_ConsD empty_iff empty_set silent.simps(2))
  next
    case False
    with assms have global: "cb \<in> set (globalSubscribers s)" by (auto simp: cbs_def)
    let ?s1 = "s\<lparr>calls := calls s @ cbs\<rparr>"
    note start
    also have "store_steps (s, map Call cbs @ [NotifyAll] @ fs) (?s1, NotifyAll # fs)"
      using finishes_steps [OF finishes_calls] by simp
    also have "store_steps (?s1, NotifyAll # fs) (?s1, map Call (globalSubscribers s) @ [] @ fs)"
      using run_step [of NotifyAll ?s1 ?s1 "map Call (globalSubscribers s)" fs] by simp
    also obtain c where "store_steps (?s1, map Call (globalSubscribers s) @ [] @ fs) (emptied ?s1 c, fs)"
      using clearing_calls [OF global, of "[]" ?s1 fs] by auto
    finally have "store_steps (s, Notify k # fs) (emptied s c, fs)" by (simp add: emptied_def)
    then show ?thesis ..
  qed
qed

section \<open>Theorems\<close>

text \<open>
  C23: whatever subscribers do with the store while they are being notified (any public operations, to
  any depth, also in the middle of an eviction), at every moment of every execution from a constructor
  call that did not throw the record map, the loading states and the subscriber sets are well formed,
  every key that has a record or a loading state is in the recency list, every record has a loading
  state with its value, a key is marked stale exactly when its loading state says so, and neither map
  holds more than \<open>maxResources\<close> entries unless the execution is inside an operation that still has its
  eviction loop to run.
\<close>

theorem store_reachable_inv:
  assumes "new_store m = Inr s0" and "store_steps (s0, []) (s, fs)"
  shows "store_struct s \<and> (\<forall>k. key_sound s k) \<and> (within_capacity s \<or> Evict \<in> set fs)"
proof -
  have "config_inv (s0, [])" by (rule start_inv) (rule new_store_inv [OF assms(1)])
  from store_steps_inv [OF assms(2) this] show ?thesis
    by (simp add: config_inv_def config_sound_def store_sound_def)
qed

theorem store_reachable_inv_witness:
  "store_struct sample_full \<and> (\<forall>k. key_sound sample_full k) \<and> (within_capacity sample_full \<or> Evict \<in> set [])"
proof -
  let ?op = "OpSetMany 7
     [(js ''a'', js ''v1'', JNum (Dec 1 0)), (js ''b'', js ''v2'', JStr (js ''x''))]"
  have "store_step (sample_store, []) (fst (begin_op ?op sample_store), snd (begin_op ?op sample_store))"
    by (rule step_begin [where opr = ?op]) simp
  moreover have "finishes (snd (begin_op ?op sample_store)) (fst (begin_op ?op sample_store)) sample_full"
    using begin_finishes [of ?op sample_store] by (simp add: sample_full_def)
  then have "store_steps (fst (begin_op ?op sample_store), snd (begin_op ?op sample_store)) (sample_full, [])"
    using finishes_steps [where rest = "[]"] by fastforce
  ultimately have "store_steps (sample_store, []) (sample_full, [])"
    by (rule converse_rtranclp_into_rtranclp)
  from store_reachable_inv [OF sample_store_new this] show ?thesis .
qed

text \<open>
  C22: with subscribers that leave the store alone, every public operation, run frame by frame as the
  code interleaves it with its notifications, ends, and ends in exactly the state the one-step definition
  of the operation computes, with the subscribers called in the recorded order; and those operations keep
  the full invariant, in which the recency list holds exactly the keys that have a record or a loading
  state.
\<close>

theorem store_operations_exact:
  "(frame_steps (begin_op opr s) (t, []) \<longleftrightarrow> t = run_store_op opr s) \<and>
   (store_inv s \<longrightarrow> store_inv (run_store_op opr s))"
proof -
  have "frame_steps (begin_op opr s) (run_store_op opr s, [])"
    using begin_finishes [of opr s] by (metis append_Nil2 finishes_def prod.collapse)
  then show ?thesis using frame_steps_end store_sys.step_inv by fastforce
qed

theorem store_operations_exact_witness:
  "store_inv (run_store_op (OpInvalidate (js ''a'')) sample_full)"
  using store_operations_exact [of "OpInvalidate (js ''a'')" sample_full] sample_full_inv by blast

text \<open>
  A subscriber that clears the store while \<open>set\<close> is evicting leaves the key being written in the
  recency list without a record or a loading state. In any full store, a \<open>set\<close> of a new key evicts the
  least recently used one; if a subscriber of that key, or a global one, answers the notification with
  \<open>clear\<close>, the operation goes on to touch its own key, so that it ends in a store whose recency list
  names a resource that is not there.
\<close>

lemma clear_during_eviction:
  assumes inv: "store_inv s" and full: "length (stateSnapshots s) = maxResources s"
    and new: "\<not> jm_has (stateSnapshots s) k" and lru: "lruOrder s = oldest # rest"
    and sub: "(\<exists>cbs. jm_get (subscribers s) oldest = Some cbs \<and> cb \<in> set cbs) \<or> cb \<in> set (globalSubscribers s)"
  shows "\<exists>t. store_steps (begin_op (OpSet now k version val) s) (t, []) \<and> lruOrder t = [k] \<and>
    fst (getRecord k t) = None \<and> stateSnapshots t = [] \<and> \<not> store_inv t"
proof -
  have ok: "store_ok s" using inv by (simp add: store_inv_def)
  note K = store_ok_key [OF ok]
  have norec: "jm_get (records s) k = None" and nosnap: "jm_get (stateSnapshots s) k = None"
    and nokey: "k \<notin> set (lruOrder s)"
    using new K(1) [of k] K(4) [of k] by (simp_all add: jm_get_None_iff) blast+
  have oldest: "jm_has (stateSnapshots s) oldest" using K(1,4) [of oldest] lru by auto
  have "k \<noteq> oldest" using nokey lru by auto
  let ?w = "set_written now k version val s"
  let ?u = "upd_written k Ready None False ?w"
  have same: "snd (getStateSnapshot k s) = s"
    using norec nosnap by (simp add: getStateSnapshot_def Let_def jm_has_iff)
  have "s_status (snapshot_of k ?w) = Missing"
    using nosnap by (simp add: snapshot_of_def MISSING_RESOURCE_STATE_def)
  then have "\<not> upd_unchanged k Ready None False ?w" by (simp add: upd_unchanged_def Let_def)
  then have "snapshot_segment k Ready None False ?w = (True, ?u, [Evict])"
    by (simp add: snapshot_segment_def upd_unchanged_def upd_written_def new_snapshot_def Let_def)
  moreover have "\<not> set_skips k version s" using norec by (simp add: set_skips_def)
  ultimately have begun: "begin_op (OpSet now k version val) s = (?u, [Evict, Touch k, Evict, Notify k])"
    by (simp add: set_segment_eq)
  have u: "lruOrder ?u = oldest # rest @ [k]" "length (stateSnapshots ?u) = Suc (maxResources ?u)"
    "jm_has (stateSnapshots ?u) oldest" "subscribers ?u = subscribers s" "globalSubscribers ?u = globalSubscribers s"
    using lru nokey full new oldest by (auto simp: same remove1_idem length_jm_set jmap_simps)
  obtain v where v: "invalidate_segment oldest (?u\<lparr>lruOrder := rest @ [k]\<rparr>) = (v, [Notify oldest])"
    and vsub: "subscribers v = subscribers s" "globalSubscribers v = globalSubscribers s"
      "maxResources v = maxResources s"
    using u by (auto simp: invalidate_segment_def Let_def removeFromLru_def)
  have "run_frame Evict ?u = (v, [Notify oldest, Evict])" using u(1,2) v by simp
  from run_step [OF this, of "[Touch k, Evict, Notify k]"]
  have "store_steps (begin_op (OpSet now k version val) s) (v, Notify oldest # [Evict, Touch k, Evict, Notify k])"
    by (simp only: begun append.simps)
  also obtain c where "store_steps (v, Notify oldest # [Evict, Touch k, Evict, Notify k])
      (emptied v c, [Evict, Touch k, Evict, Notify k])"
    using clearing_notify [of v oldest cb] sub vsub by metis
  also have "store_steps (emptied v c, [Evict, Touch k, Evict, Notify k]) (emptied v c, [Touch k, Evict, Notify k])"
    using run_step [of Evict "emptied v c" "emptied v c" "[]"] by simp
  also have "store_steps (emptied v c, [Touch k, Evict, Notify k]) (touchLru k (emptied v c), [Evict, Notify k])"
    using run_step [of "Touch k" "emptied v c" "touchLru k (emptied v c)" "[]"] by simp
  also have "store_steps (touchLru k (emptied v c), [Evict, Notify k]) (touchLru k (emptied v c), [Notify k])"
    using run_step [of Evict "touchLru k (emptied v c)" "touchLru k (emptied v c)" "[]"] by simp
  also have "store_steps (touchLru k (emptied v c), [Notify k]) (notify k (touchLru k (emptied v c)), [])"
    using finishes_steps [OF finishes_notify, where rest = "[]"] by simp
  finally have "store_steps (begin_op (OpSet now k version val) s) (notify k (touchLru k (emptied v c)), [])" .
  moreover have "\<not> key_ok (notify k (touchLru k (emptied v c))) k" by (simp add: key_ok_def jm_has_iff)
  ultimately show ?thesis
    by (intro exI [of _ "notify k (touchLru k (emptied v c))"]) (simp add: store_inv_def store_ok_def, blast)
qed

end
