(* ===== verification/React_Server.thy ===== *)
theory React_Server
  imports Server
begin

text \<open>
  The web handler of the React adapter (\<open>packages/react/src/server/handler.ts\<close>), with the validation of
  its configuration and of hydration data (\<open>render.ts\<close>, \<open>hydration.ts\<close>): it proxies transport requests,
  and answers page requests with a rendered document that carries the page as JSON.
\<close>

section \<open>Configuration\<close>

definition validateRenderTimeout :: "jnum \<Rightarrow> (error_class, unit) result" where
  "validateRenderTimeout v =
     (if num_is_safe_integer v \<and> 0 < num_val v \<and> num_val v \<le> 2147483647 then Inr () else Inl TypeError)"

definition own_limit :: "jsval \<Rightarrow> string \<Rightarrow> (error_class, (jstring \<times> jsval) list) result" where
  "own_limit v name =
     (case map_of (obj_fields v) (js name) of
        None \<Rightarrow> Inr []
      | Some (JNum n) \<Rightarrow> if num_is_safe_integer n \<and> 0 < num_val n then Inr [(js name, JNum n)] else Inl TypeError
      | Some _ \<Rightarrow> Inl TypeError)"

definition readFluxCacheConfig :: "jsval \<Rightarrow> (error_class, jsval) result" where
  "readFluxCacheConfig v =
     (case v of
        JObj _ _ \<Rightarrow>
          andThen (own_limit v ''maxResources'') (\<lambda>resources.
          andThen (own_limit v ''maxPages'') (\<lambda>pages.
            Inr (JObj 0 (resources @ pages))))
      | _ \<Rightarrow> Inl TypeError)"

text \<open>A value that \<open>JSON.stringify\<close> leaves out has no text; \<open>parse\<close> is \<open>JSON.parse\<close>.\<close>

definition readFluxDevelopmentMetadata :: "(jstring \<Rightarrow> jsval option) \<Rightarrow> jsval \<Rightarrow> (error_class, jsval) result" where
  "readFluxDevelopmentMetadata parse v =
     (case (v, field v ''initialPath'', json_text (field v ''initialServerTrace'')) of
        (JObj _ _, JStr path, Some text) \<Rightarrow>
          if \<not> starts_with (js ''/'') path \<or> 2048 < length path \<or> 16384 < length text then Inl TypeError
          else
            (case decodeServerDiagnosticTrace parse (Some (encodeBase64Url (utf8_encode text))) of
               None \<Rightarrow> Inl TypeError
             | Some trace \<Rightarrow> Inr (JObj 0 [(js ''initialPath'', JStr path), (js ''initialServerTrace'', trace)]))
      | _ \<Rightarrow> Inl TypeError)"

section \<open>The document\<close>

definition PAYLOAD_ID :: jstring where "PAYLOAD_ID = js ''fluxfast-page''"
definition SSR_MARKER :: jstring where "SSR_MARKER = js ''<!--fluxfast:ssr-->''"
definition PAYLOAD_MARKER :: jstring where "PAYLOAD_MARKER = js ''<!--fluxfast:payload-->''"

definition failureDocument :: "nat \<Rightarrow> jstring" where
  "failureDocument status =
     (let title = js (if status = 404 then ''Page not found'' else if status = 401 \<or> status = 403 then ''Access denied''
                      else ''Page unavailable'') in
      js ''<!doctype html><html><head><meta charset=\"utf-8\"><title>'' @ title @ js ''</title></head><body><h1>'' @ title @
      js ''</h1></body></html>'')"

text \<open>The characters that are escaped: \<open><\<close>, \<open>>\<close>, \<open>&\<close> and the two line separators.\<close>

definition markup_char :: "16 word \<Rightarrow> bool" where
  "markup_char c \<longleftrightarrow> c \<in> {0x3C, 0x3E, 0x26, 0x2028, 0x2029}"

definition escape_markup :: "16 word \<Rightarrow> jstring" where
  "escape_markup c = (if markup_char c then [0x5C, 0x75] @ hex4 c else [c])"

definition escape_payload :: "jstring \<Rightarrow> jstring" where
  "escape_payload s = concat (map escape_markup s)"

definition safePayload :: "jsval \<Rightarrow> jstring" where
  "safePayload props = escape_payload (case json_text props of None \<Rightarrow> [] | Some t \<Rightarrow> t)"

text \<open>\<open>s.split(separator)\<close> for a text that is not empty.\<close>

function split_text :: "jstring \<Rightarrow> jstring \<Rightarrow> jstring list" where
  "split_text separator s =
     (if s = [] \<or> separator = [] then [s]
      else if starts_with separator s then [] # split_text separator (drop (length separator) s)
      else case split_text separator (tl s) of [] \<Rightarrow> [] | part # parts \<Rightarrow> (hd s # part) # parts)"
  by pat_completeness auto
termination
  by (relation "measure (\<lambda>(_, s). length s)") auto

declare split_text.simps [simp del]

text \<open>The split of the template at both markers, which are kept; the text between is kept by character.\<close>

datatype template_part = PartChar "16 word" | PartSsr | PartPayload

function split_template :: "jstring \<Rightarrow> template_part list" where
  "split_template s =
     (if s = [] then []
      else if starts_with SSR_MARKER s then PartSsr # split_template (drop (length SSR_MARKER) s)
      else if starts_with PAYLOAD_MARKER s then PartPayload # split_template (drop (length PAYLOAD_MARKER) s)
      else PartChar (hd s) # split_template (tl s))"
  by pat_completeness auto
termination
  by (relation "measure length") (auto simp: SSR_MARKER_def PAYLOAD_MARKER_def)

declare split_template.simps [simp del]

fun part_text :: "jstring \<Rightarrow> jstring \<Rightarrow> template_part \<Rightarrow> jstring" where
  "part_text markup payload (PartChar c) = [c]"
| "part_text markup payload PartSsr = markup"
| "part_text markup payload PartPayload = payload"

definition payload_open :: jstring where
  "payload_open = js ''<script id=\"'' @ PAYLOAD_ID @ js ''\" type=\"application/json\">''"

definition payload_script :: "jsval \<Rightarrow> jstring" where
  "payload_script props = payload_open @ safePayload props @ js ''</script>''"

definition renderDocument :: "jstring \<Rightarrow> jstring \<Rightarrow> jsval \<Rightarrow> (error_class, jstring) result" where
  "renderDocument template markup props =
     (if length (split_text SSR_MARKER template) \<noteq> 2 \<or> length (split_text PAYLOAD_MARKER template) \<noteq> 2 then Inl TypeError
      else Inr (concat (map (part_text markup (payload_script props)) (split_template template))))"

section \<open>The handler\<close>

record handler_options =
  rh_backendUrl :: jstring
  rh_forwardHeaders :: "jstring list"
  rh_cache :: jsval
  rh_development :: bool
  rh_timeoutMs :: jnum

text \<open>What the factory checks; the cache configuration it keeps is \<open>JUndef\<close> when there is none.\<close>

definition createFluxReactHandler :: "web_platform \<Rightarrow> handler_options \<Rightarrow> (error_class, jsval) result" where
  "createFluxReactHandler wp options =
     andThen (validateRenderTimeout (rh_timeoutMs options)) (\<lambda>_.
     andThen (if rh_cache options = JUndef then Inr JUndef else readFluxCacheConfig (rh_cache options)) (\<lambda>cache.
       case wp_parse wp (rh_backendUrl options) of
         None \<Rightarrow> Inl TypeError
       | Some backend \<Rightarrow> if plain_backend backend then Inr cache else Inl TypeError))"

text \<open>
  The points where the handler looks at its signal or waits with it. \<open>he_aborted\<close> says at which of them
  the request or the timer has aborted it; a wait gives what is waited for unless it has.
\<close>

datatype template_source = FixedTemplate jstring | TemplateFunction "(error_class, jstring) result"

datatype abort_point = AtStart | AtFetch | AtTemplate | AtRender | AtEnd | AtFailure

record handler_env =
  he_production :: bool
  he_upstream :: "upstream_request \<Rightarrow> (error_class, proxy_response) result"
  he_fetch :: "nat \<Rightarrow> jstring \<Rightarrow> web_headers \<Rightarrow> (error_class, initial_response) result"
  he_template :: template_source
  he_render :: "jsval \<Rightarrow> (error_class, jstring) result"
  he_aborted :: "abort_point \<Rightarrow> bool"

datatype handler_body = EmptyBody | HtmlBody jstring | RelayedBody proxy_body

record handler_response =
  ha_status :: nat
  ha_statusText :: jstring
  ha_headers :: web_headers
  ha_body :: handler_body

definition htmlResponse :: "handler_body \<Rightarrow> nat \<Rightarrow> handler_response" where
  "htmlResponse body status =
     \<lparr>ha_status = status, ha_statusText = [],
      ha_headers = [(js ''cache-control'', js ''no-store''), (js ''content-type'', js ''text/html; charset=utf-8'')],
      ha_body = body\<rparr>"

definition untilAbort :: "handler_env \<Rightarrow> abort_point \<Rightarrow> (error_class, 'a) result \<Rightarrow> (error_class, 'a) result" where
  "untilAbort he point outcome = (if he_aborted he point then Inl OtherError else outcome)"

definition notAborted :: "handler_env \<Rightarrow> abort_point \<Rightarrow> (error_class, unit) result" where
  "notAborted he point = untilAbort he point (Inr ())"

text \<open>A fixed template is not waited for.\<close>

definition template_text :: "handler_env \<Rightarrow> (error_class, jstring) result" where
  "template_text he =
     (case he_template he of FixedTemplate t \<Rightarrow> Inr t | TemplateFunction r \<Rightarrow> untilAbort he AtTemplate r)"

definition relayed :: "proxy_response \<Rightarrow> handler_response" where
  "relayed r = \<lparr>ha_status = pr_status r, ha_statusText = pr_statusText r, ha_headers = pr_headers r, ha_body = RelayedBody (pr_body r)\<rparr>"

definition development_mode :: "handler_env \<Rightarrow> handler_options \<Rightarrow> bool" where
  "development_mode he options \<longleftrightarrow> rh_development options \<and> \<not> he_production he"

definition transport_answer ::
  "web_platform \<Rightarrow> handler_env \<Rightarrow> handler_options \<Rightarrow> proxy_request \<Rightarrow> jstring \<Rightarrow>
   upstream_request list \<times> (error_class, handler_response) result" where
  "transport_answer wp he options request path =
     (let development = development_mode he options;
          headers = (if development then px_headers request else headers_delete HEADER_DEVTOOLS (px_headers request));
          (sent, answer) = fluxTransportProxy wp (he_upstream he) (rh_backendUrl options) (request\<lparr>px_headers := headers\<rparr>) path in
      (sent,
       andThen answer (\<lambda>r.
         Inr (relayed (if development then r else r\<lparr>pr_headers := headers_delete HEADER_DEVTOOLS_TRACE (pr_headers r)\<rparr>)))))"

definition application_props :: "jsval \<Rightarrow> jsval \<Rightarrow> (jstring \<times> jsval) option \<Rightarrow> jsval" where
  "application_props envelope cache development =
     JObj 0
       ([(js ''initialEnvelope'', envelope)] @
        (if cache = JUndef then [] else [(js ''cache'', cache)]) @
        (case development of
           None \<Rightarrow> []
         | Some (path, trace) \<Rightarrow>
             [(js ''development'', JObj 0 [(js ''initialPath'', JStr path), (js ''initialServerTrace'', trace)])]))"

text \<open>The outcome of the block that may throw: \<open>None\<close> is a page that was not found.\<close>

definition page_outcome :: "handler_env \<Rightarrow> jsval \<Rightarrow> initial_result \<Rightarrow> (error_class, jstring option) result" where
  "page_outcome he cache initial =
     (case initial of
        InitialNotFound \<Rightarrow> Inr None
      | InitialPage envelope development \<Rightarrow>
          let props = application_props envelope cache development in
          andThen (template_text he) (\<lambda>template.
          andThen (untilAbort he AtRender (he_render he props)) (\<lambda>markup.
          andThen (notAborted he AtEnd) (\<lambda>_.
          andThen (renderDocument template markup props) (\<lambda>html. Inr (Some html))))))"

definition rendered_page ::
  "web_platform \<Rightarrow> handler_env \<Rightarrow> handler_options \<Rightarrow> jsval \<Rightarrow> proxy_request \<Rightarrow> url \<Rightarrow>
   (jstring \<times> web_headers) list \<times> (error_class, jstring option) result" where
  "rendered_page wp he options cache request u =
     (case andThen (notAborted he AtStart) (\<lambda>_. selectFluxForwardHeaders (Some (px_headers request)) (rh_forwardHeaders options)) of
        Inl e \<Rightarrow> ([], Inl e)
      | Inr headers \<Rightarrow>
          let (sent, fetched) = fetchFluxInitialPage wp (he_fetch he) (rh_backendUrl options) (u_pathname u @ u_search u)
                (Some headers) (development_mode he options) (Some DEFAULT_MAX_INITIAL_REDIRECTS) in
          (sent, andThen (untilAbort he AtFetch fetched) (page_outcome he cache)))"

definition failure_status :: "bool \<Rightarrow> error_class \<Rightarrow> nat" where
  "failure_status aborted e =
     (case e of
        TransportError (Some status) \<Rightarrow> if status = 401 \<or> status = 403 then status else if aborted then 503 else 500
      | _ \<Rightarrow> if aborted then 503 else 500)"

definition html_body :: "proxy_request \<Rightarrow> jstring \<Rightarrow> handler_body" where
  "html_body request html = (if px_method request = js ''HEAD'' then EmptyBody else HtmlBody html)"

text \<open>
  One request. The result carries what was asked of the backend, for the transport and for the page; a
  request whose own address is not a URL, or whose body cannot be read, throws.
\<close>

definition react_handler ::
  "web_platform \<Rightarrow> handler_env \<Rightarrow> handler_options \<Rightarrow> jsval \<Rightarrow> proxy_request \<Rightarrow>
   upstream_request list \<times> (jstring \<times> web_headers) list \<times> (error_class, handler_response) result" where
  "react_handler wp he options cache request =
     (case wp_parse wp (px_url request) of
        None \<Rightarrow> ([], [], Inl TypeError)
      | Some u \<Rightarrow>
          if headers_get (js ''x-fluxfast'') (px_headers request) = Some (js ''1'') then
            let (sent, answer) = transport_answer wp he options request (u_pathname u) in (sent, [], answer)
          else if px_method request \<noteq> js ''GET'' \<and> px_method request \<noteq> js ''HEAD'' then
            ([], [], Inr \<lparr>ha_status = 405, ha_statusText = [],
                       ha_headers = [(js ''allow'', js ''GET, HEAD''), (js ''cache-control'', js ''no-store'')], ha_body = EmptyBody\<rparr>)
          else
            let (sent, outcome) = rendered_page wp he options cache request u in
            ([], sent,
             Inr (case outcome of
                    Inr None \<Rightarrow> htmlResponse (html_body request (failureDocument 404)) 404
                  | Inr (Some html) \<Rightarrow> htmlResponse (html_body request html) 200
                  | Inl e \<Rightarrow>
                      let status = failure_status (he_aborted he AtFailure) e in
                      htmlResponse (html_body request (failureDocument status)) status)))"

end
