(* ===== verification/React_Server_Theorems.thy ===== *)
theory React_Server_Theorems
  imports React_Server Server_Theorems
begin

text \<open>
  The document of the React handler carries exactly the page that was fetched, in a form that cannot end
  its script element, and no answer to a page request says more of a failure than its status.
\<close>

section \<open>The text of the payload\<close>

lemma hex4_range: "c \<in> set (hex4 d) \<Longrightarrow> 48 \<le> unat c \<and> unat c \<le> 102 \<and> unat c \<noteq> 60 \<and> unat c \<noteq> 62"
proof -
  have digit: "48 \<le> unat (hex_digit n) \<and> unat (hex_digit n) \<le> 102 \<and> unat (hex_digit n) \<noteq> 60 \<and> unat (hex_digit n) \<noteq> 62"
    if "n < 16" for n
    using that by (auto simp: hex_digit_def unat_of_nat)
  have "unat d < 65536" using unsigned_less [of d, where 'a = nat] by simp
  then have "unat d div 4096 < 16" by (simp add: less_mult_imp_div_less)
  then show "c \<in> set (hex4 d) \<Longrightarrow> ?thesis" by (auto simp: hex4_def Let_def digit)
qed

lemma hex4_no_markup: "c \<in> set (hex4 d) \<Longrightarrow> \<not> markup_char c"
  by (drule hex4_range) (auto simp: markup_char_def)

lemma escape_payload_no_markup: "c \<in> set (escape_payload s) \<Longrightarrow> \<not> markup_char c"
  by (auto simp: escape_payload_def escape_markup_def markup_char_def dest: hex4_no_markup split: if_splits)

lemma escape_payload_simps [simp]:
  "escape_payload [] = []" "escape_payload (c # s) = escape_markup c @ escape_payload s"
  "escape_payload (s @ t) = escape_payload s @ escape_payload t"
  by (simp_all add: escape_payload_def)

lemma escape_payload_idle: "(\<And>c. c \<in> set s \<Longrightarrow> \<not> markup_char c) \<Longrightarrow> escape_payload s = s"
  by (induction s) (auto simp: escape_markup_def)

lemma length_escape_payload: "length s \<le> length (escape_payload s)"
  by (induction s) (auto simp: escape_markup_def)

text \<open>
  What a JSON parser sees of a text: the strings it holds, decoded, and the code units between them.
\<close>

datatype json_token = JtString jstring | JtUnit "16 word"

fun json_tokens :: "nat \<Rightarrow> jstring \<Rightarrow> json_token list option" where
  "json_tokens 0 s = None"
| "json_tokens (Suc n) [] = Some []"
| "json_tokens (Suc n) (c # s) =
     (if c = 0x22 then
        (case json_unescape (Suc (length s)) s of
           None \<Rightarrow> None
         | Some (t, rest) \<Rightarrow> map_option ((#) (JtString t)) (json_tokens n rest))
      else map_option ((#) (JtUnit c)) (json_tokens n s))"

definition tokens_of :: "jstring \<Rightarrow> json_token list option" where
  "tokens_of s = json_tokens (Suc (length s)) s"

definition plain_unit :: "16 word \<Rightarrow> bool" where
  "plain_unit c \<longleftrightarrow> c \<noteq> 0x22 \<and> \<not> markup_char c"

inductive json_lexed :: "jstring \<Rightarrow> json_token list \<Rightarrow> bool" where
  lexed_Nil: "json_lexed [] []"
| lexed_unit: "plain_unit c \<Longrightarrow> json_lexed t ts \<Longrightarrow> json_lexed (c # t) (JtUnit c # ts)"
| lexed_string: "json_lexed t ts \<Longrightarrow> json_lexed (json_quote s @ t) (JtString s # ts)"

lemma length_json_escapes: "length s \<le> length (json_escapes s)"
proof (induction s rule: json_escapes.induct)
  case (3 c d s)
  have "1 \<le> length (json_escape c)" by (simp add: json_escape_def)
  with 3 show ?case by auto
qed (simp_all add: json_escape_def)

lemma markup_not_escaped: "markup_char c \<Longrightarrow> json_escape c = [c]"
  by (auto simp: markup_char_def json_escape_def high_surrogate_def low_surrogate_def)

lemma json_read1_payload: "json_read1 (escape_payload (json_escape c) @ s) = Some (c, s)"
proof (cases "markup_char c")
  case True
  obtain w x y z where h: "hex4 c = [w, x, y, z]" by (simp add: hex4_def Let_def)
  with unhex_hex4 [of c] True show ?thesis by (auto simp: markup_not_escaped escape_markup_def)
next
  case False
  have "\<not> markup_char d" if "d \<in> set (json_escape c)" for d
    using that False by (auto simp: json_escape_def markup_char_def dest: hex4_no_markup split: if_splits)
  then have "escape_payload (json_escape c) = json_escape c" by (rule escape_payload_idle)
  then show ?thesis by (simp add: json_read1_escape)
qed

lemma surrogate_no_markup: "high_surrogate c \<or> low_surrogate c \<Longrightarrow> escape_markup c = [c]"
  by (auto simp: high_surrogate_def low_surrogate_def escape_markup_def markup_char_def)

lemma json_unescape_payload:
  "length s < n \<Longrightarrow> json_unescape n (escape_payload (json_escapes s) @ 0x22 # rest) = Some (s, rest)"
proof (induction s arbitrary: n rule: json_escapes.induct)
  case 1
  then show ?case by (cases n) auto
next
  case (2 c)
  then obtain m where n: "n = Suc (Suc m)" by (cases n; cases "n - 1") auto
  show ?case
    unfolding n using json_unescape_step [OF json_read1_payload, of "Suc m" c "0x22 # rest"] by simp
next
  case (3 c d s)
  from "3.prems" obtain m where n: "n = Suc m" and m: "length (d # s) < m" by (cases n) auto
  show ?case
  proof (cases "high_surrogate c \<and> low_surrogate d")
    case True
    from m obtain l where m': "m = Suc l" and l: "length s < l" by (cases m) auto
    have "json_unescape (Suc (Suc l)) (c # d # escape_payload (json_escapes s) @ 0x22 # rest) = Some (c # d # s, rest)"
      using json_unescape_step [OF json_read1_plain [of c], of "Suc l" "d # escape_payload (json_escapes s) @ 0x22 # rest"]
        json_unescape_step [OF json_read1_plain [of d], of l "escape_payload (json_escapes s) @ 0x22 # rest"]
        True "3.IH"(1) [OF True l] by simp
    with True show ?thesis by (simp add: n m' surrogate_no_markup del: json_unescape.simps json_read1.simps)
  next
    case False
    have "json_unescape n (escape_payload (json_escape c) @ escape_payload (json_escapes (d # s)) @ 0x22 # rest) = Some (c # d # s, rest)"
      unfolding n json_unescape_step [OF json_read1_payload] using "3.IH"(2) [OF False m] by simp
    with False show ?thesis by auto
  qed
qed

lemma lexed_tokens: "json_lexed t ts \<Longrightarrow> length t < n \<Longrightarrow> json_tokens n t = Some ts"
proof (induction arbitrary: n rule: json_lexed.induct)
  case lexed_Nil
  then show ?case by (cases n) auto
next
  case (lexed_unit c t ts)
  then show ?case by (cases n) (auto simp: plain_unit_def)
next
  case (lexed_string t ts s)
  then obtain m where n: "n = Suc m" by (cases n) auto
  have "json_unescape (Suc (length (json_escapes s @ 0x22 # t))) (json_escapes s @ 0x22 # t) = Some (s, t)"
    using length_json_escapes [of s] by (intro json_unescape_escapes) simp
  then show ?case using lexed_string by (simp add: n json_quote_def del: json_unescape.simps)
qed

lemma lexed_tokens_payload: "json_lexed t ts \<Longrightarrow> length (escape_payload t) < n \<Longrightarrow> json_tokens n (escape_payload t) = Some ts"
proof (induction arbitrary: n rule: json_lexed.induct)
  case lexed_Nil
  then show ?case by (cases n) auto
next
  case (lexed_unit c t ts)
  then show ?case by (cases n) (auto simp: plain_unit_def escape_markup_def)
next
  case (lexed_string t ts s)
  then obtain m where n: "n = Suc m" by (cases n) auto
  have quote: "escape_markup 0x22 = [0x22]" by (simp add: escape_markup_def markup_char_def)
  let ?e = "escape_payload (json_escapes s)" and ?t = "escape_payload t"
  have "json_unescape (Suc (length (?e @ 0x22 # ?t))) (?e @ 0x22 # ?t) = Some (s, ?t)"
    using length_json_escapes [of s] length_escape_payload [of "json_escapes s"] by (intro json_unescape_payload) simp
  then show ?case using lexed_string by (simp add: n json_quote_def quote del: json_unescape.simps)
qed

definition lexable :: "jstring \<Rightarrow> bool" where
  "lexable t \<longleftrightarrow> (\<exists>ts. json_lexed t ts)"

lemma lexed_append: "json_lexed a as \<Longrightarrow> json_lexed b bs \<Longrightarrow> json_lexed (a @ b) (as @ bs)"
  by (induction rule: json_lexed.induct) (auto intro: json_lexed.intros)

lemma lexable_append: "lexable a \<Longrightarrow> lexable b \<Longrightarrow> lexable (a @ b)"
  unfolding lexable_def using lexed_append by blast

lemma lexable_plain: "list_all plain_unit t \<Longrightarrow> lexable t"
  unfolding lexable_def by (induction t) (auto intro: json_lexed.intros)

lemma lexable_quote: "lexable (json_quote s)"
  unfolding lexable_def using lexed_string [OF lexed_Nil, of s] by auto

lemma lexable_join: "lexable sep \<Longrightarrow> (\<And>t. t \<in> set ts \<Longrightarrow> lexable t) \<Longrightarrow> lexable (join_with sep ts)"
  by (induction sep ts rule: join_with.induct) (auto intro!: lexable_append simp: lexable_plain)

lemma plain_range: "48 \<le> unat c \<and> unat c \<le> 57 \<Longrightarrow> plain_unit c"
  by (auto simp: plain_unit_def markup_char_def)

lemma plain_digits: "list_all plain_unit (nat_digits n)"
  by (auto simp: list_all_iff intro: plain_range dest: nat_digits_range)

lemma plain_words:
  "list_all plain_unit (js ''null'')" "list_all plain_unit (js ''true'')" "list_all plain_unit (js ''false'')"
  "list_all plain_unit (js ''['')" "list_all plain_unit (js '']'')" "list_all plain_unit (js ''{'')" "list_all plain_unit (js ''}'')"
  "list_all plain_unit (js '','')" "list_all plain_unit (js '':'')" "list_all plain_unit (js ''e'')" "list_all plain_unit (js ''+'')"
  "list_all plain_unit (js ''-'')" "list_all plain_unit (js ''.'')" "list_all plain_unit (js ''0.'')" "list_all plain_unit (js ''0'')"
  "plain_unit 48"
  by (simp_all add: js_def plain_unit_def markup_char_def)

lemmas lexable_words = plain_words(1-15) [THEN lexable_plain]

lemma plain_num_string: "num_finite n \<Longrightarrow> list_all plain_unit (num_string n)"
proof -
  have sub: "list_all plain_unit (take k (nat_digits m))" "list_all plain_unit (drop k (nat_digits m))" for k m
    using plain_digits [of m] by (auto simp: list_all_iff dest: in_set_takeD in_set_dropD)
  have rep: "list_all plain_unit (replicate k 48)" for k by (simp add: list_all_iff plain_words)
  have "list_all plain_unit (dec_string c p)" for c p
    by (simp add: dec_string_def Let_def plain_digits plain_words sub rep)
  then show "num_finite n \<Longrightarrow> ?thesis"
    by (auto simp: num_string_def num_finite_def plain_words split: jnum.splits)
qed

lemma json_text_lexable: "json_text v = Some t \<Longrightarrow> lexable t"
proof (induction v arbitrary: t rule: json_text.induct)
  case (6 i xs)
  let ?texts = "map (\<lambda>x. case json_text x of None \<Rightarrow> js ''null'' | Some t \<Rightarrow> t) xs"
  have "lexable t" if "t \<in> set ?texts" for t
    using 6(1) that by (auto simp: plain_words lexable_plain split: option.split)
  then have "lexable (join_with (js '','') ?texts)" by (rule lexable_join [OF lexable_plain [OF plain_words(8)]])
  with 6(2) show ?case by (auto simp: lexable_append lexable_words)
next
  case (7 i fs)
  let ?texts = "concat (map (\<lambda>(k, v). case json_text v of None \<Rightarrow> [] | Some t \<Rightarrow> [json_quote k @ js '':'' @ t]) fs)"
  have "lexable t" if t: "t \<in> set ?texts" for t
  proof -
    from t obtain k v s where kv: "(k, v) \<in> set fs" "json_text v = Some s" "t = json_quote k @ js '':'' @ s"
      by (auto split: option.splits) metis
    then have "lexable s" using 7(1) by blast
    then show ?thesis unfolding kv(3) by (simp add: lexable_append lexable_quote lexable_words)
  qed
  then have "lexable (join_with (js '','') ?texts)" by (rule lexable_join [OF lexable_plain [OF plain_words(8)]])
  with 7(2) show ?case by (auto simp: lexable_append lexable_words)
next
  case (3 b)
  then show ?case by (cases b) (auto intro!: lexable_plain plain_words)
next
  case (4 n)
  then show ?case by (cases "num_finite n") (auto intro!: lexable_plain plain_words plain_num_string)
qed (auto intro!: lexable_plain lexable_quote plain_words)

lemma payload_tokens: "json_text v = Some t \<Longrightarrow> tokens_of (escape_payload t) = tokens_of t \<and> tokens_of t \<noteq> None"
  using lexed_tokens lexed_tokens_payload json_text_lexable [of v t] by (auto simp: lexable_def tokens_of_def)

section \<open>The template\<close>

lemma starts_with_iff: "starts_with p s \<longleftrightarrow> (\<exists>r. s = p @ r)"
  by (induction p s rule: starts_with.induct) auto

lemma marker_shape: "hd SSR_MARKER = 0x3C" "hd PAYLOAD_MARKER = 0x3C" "0x3C \<notin> set (tl SSR_MARKER)" "0x3C \<notin> set (tl PAYLOAD_MARKER)"
  "SSR_MARKER \<noteq> []" "PAYLOAD_MARKER \<noteq> []"
  "\<not> starts_with SSR_MARKER (PAYLOAD_MARKER @ r)" "\<not> starts_with PAYLOAD_MARKER (SSR_MARKER @ r)"
  by (simp_all add: SSR_MARKER_def PAYLOAD_MARKER_def js_def)

lemma no_overlap:
  assumes "0x3C \<notin> set (tl m)" "hd m' = 0x3C" "m' \<noteq> []" "0 < i" "i < length m"
  shows "\<not> starts_with m' (drop i m @ r)"
proof
  assume "starts_with m' (drop i m @ r)"
  then have "hd (drop i m @ r) = 0x3C" using assms(2,3) by (auto simp: starts_with_iff)
  then have "m ! i = 0x3C" using assms(5) by (simp add: hd_drop_conv_nth hd_append)
  moreover have "m ! i \<in> set (tl m)" using assms(4,5) by (metis Suc_pred length_tl less_diff_conv nth_mem nth_tl add.commute plus_1_eq_Suc)
  ultimately show False using assms(1) by simp
qed

lemma split_text_ne: "split_text m s \<noteq> []"
  by (induction m s rule: split_text.induct) (subst split_text.simps, auto split: list.split)

lemma split_text_skip:
  "(\<And>i. i < length a \<Longrightarrow> \<not> starts_with m (drop i a @ r)) \<Longrightarrow> m \<noteq> [] \<Longrightarrow> length (split_text m (a @ r)) = length (split_text m r)"
proof (induction a)
  case (Cons c a)
  have "\<not> starts_with m (c # a @ r)" using Cons.prems(1) [of 0] by simp
  then have "length (split_text m (c # a @ r)) = length (split_text m (a @ r))"
    using Cons.prems(2) split_text_ne [of m "a @ r"] by (subst split_text.simps) (auto split: list.split)
  moreover have "\<not> starts_with m (drop i a @ r)" if "i < length a" for i using Cons.prems(1) [of "Suc i"] that by simp
  ultimately show ?case using Cons by simp
qed simp

lemma split_text_marker: "m \<noteq> [] \<Longrightarrow> length (split_text m (m @ r)) = Suc (length (split_text m r))"
  by (subst split_text.simps) (auto simp: starts_with_iff)

lemma marker_skip:
  "length (split_text PAYLOAD_MARKER (SSR_MARKER @ r)) = length (split_text PAYLOAD_MARKER r)"
  "length (split_text SSR_MARKER (PAYLOAD_MARKER @ r)) = length (split_text SSR_MARKER r)"
proof -
  have "\<not> starts_with PAYLOAD_MARKER (drop i SSR_MARKER @ r)" if "i < length SSR_MARKER" for i
    using no_overlap [OF marker_shape(3,2,6), of i r] that marker_shape(8) [of r] by (cases i) auto
  then show "length (split_text PAYLOAD_MARKER (SSR_MARKER @ r)) = length (split_text PAYLOAD_MARKER r)"
    by (rule split_text_skip) (simp_all add: marker_shape)
  have "\<not> starts_with SSR_MARKER (drop i PAYLOAD_MARKER @ r)" if "i < length PAYLOAD_MARKER" for i
    using no_overlap [OF marker_shape(4,1,5), of i r] that marker_shape(7) [of r] by (cases i) auto
  then show "length (split_text SSR_MARKER (PAYLOAD_MARKER @ r)) = length (split_text SSR_MARKER r)"
    by (rule split_text_skip) (simp_all add: marker_shape)
qed

lemma split_template_counts:
  "length (split_text SSR_MARKER s) = Suc (count_list (split_template s) PartSsr) \<and>
   length (split_text PAYLOAD_MARKER s) = Suc (count_list (split_template s) PartPayload) \<and>
   concat (map (part_text SSR_MARKER PAYLOAD_MARKER) (split_template s)) = s"
proof (induction s rule: split_template.induct)
  case (1 s)
  consider "s = []" | r where "s = SSR_MARKER @ r" | r where "s = PAYLOAD_MARKER @ r"
    | c r where "s = c # r" "\<not> starts_with SSR_MARKER s" "\<not> starts_with PAYLOAD_MARKER s"
    by (cases s) (auto simp: starts_with_iff)
  then show ?case
  proof cases
    case 1
    then show ?thesis by (simp add: split_template.simps split_text.simps)
  next
    case (2 r)
    then have s: "s \<noteq> []" "starts_with SSR_MARKER s" "drop (length SSR_MARKER) s = r" by (auto simp: marker_shape starts_with_iff)
    with "1.IH"(1) [OF s(1,2)] show ?thesis
      by (subst (1 2 3) split_template.simps) (simp add: 2 split_text_marker marker_skip marker_shape)
  next
    case (3 r)
    then have s: "s \<noteq> []" "\<not> starts_with SSR_MARKER s" "starts_with PAYLOAD_MARKER s" "drop (length PAYLOAD_MARKER) s = r"
      using marker_shape(6) marker_shape(7) [of r] by (simp_all add: starts_with_iff)
    with "1.IH"(2) [OF s(1,2,3)] show ?thesis
      by (subst (1 2 3) split_template.simps) (simp add: 3 split_text_marker marker_skip marker_shape)
  next
    case (4 c r)
    then have "length (split_text m s) = length (split_text m r)" if "m \<in> {SSR_MARKER, PAYLOAD_MARKER}" for m
      using split_text_skip [of "[c]" m r] that by (auto simp: marker_shape)
    with 4 "1.IH"(3) show ?thesis by (subst (1 2 3) split_template.simps) simp
  qed
qed

lemma parts_of_one:
  assumes "count_list ps PartSsr = 1" "count_list ps PartPayload = 1"
  shows "\<exists>xs ys zs. (ps = xs @ PartSsr # ys @ PartPayload # zs \<or> ps = xs @ PartPayload # ys @ PartSsr # zs) \<and>
    (\<forall>part\<in>set (xs @ ys @ zs). \<exists>c. part = PartChar c)"
proof -
  have none: "\<exists>c. part = PartChar c" if "count_list xs PartSsr = 0" "count_list xs PartPayload = 0" "part \<in> set xs" for xs part
    using that by (cases part) (auto simp: count_list_0_iff)
  obtain xs ys where ps: "ps = xs @ PartSsr # ys" using assms(1) by (metis count_list_0_iff split_list zero_neq_one)
  with assms have c: "count_list xs PartSsr = 0" "count_list ys PartSsr = 0" by simp_all
  show ?thesis
  proof (cases "PartPayload \<in> set xs")
    case True
    then obtain us vs where xs: "xs = us @ PartPayload # vs" by (meson split_list)
    with assms ps c have "count_list us PartPayload = 0" "count_list vs PartPayload = 0" "count_list ys PartPayload = 0"
      "count_list us PartSsr = 0" "count_list vs PartSsr = 0" by simp_all
    with c(2) none have "\<forall>part\<in>set (us @ vs @ ys). \<exists>c. part = PartChar c" by auto
    with ps xs show ?thesis by (intro exI [of _ us] exI [of _ vs] exI [of _ ys]) simp
  next
    case False
    then have "count_list ys PartPayload = 1" using assms(2) ps by (simp add: count_notin)
    then have "PartPayload \<in> set ys" using count_notin [of PartPayload ys] by fastforce
    then obtain us vs where ys: "ys = us @ PartPayload # vs" by (meson split_list)
    with assms ps c False have "count_list us PartPayload = 0" "count_list vs PartPayload = 0" "count_list xs PartPayload = 0"
      "count_list us PartSsr = 0" "count_list vs PartSsr = 0" by (simp_all add: count_list_0_iff)
    with c(1) none have "\<forall>part\<in>set (xs @ us @ vs). \<exists>c. part = PartChar c" by auto
    with ps ys show ?thesis by (intro exI [of _ xs] exI [of _ us] exI [of _ vs]) simp
  qed
qed

lemma char_parts: "\<forall>part\<in>set ps. \<exists>c. part = PartChar c \<Longrightarrow> map (part_text a b) ps = map (part_text a' b') ps"
  by (induction ps) auto

text \<open>
  C40: A document that is rendered is the template with its two markers replaced, one by the markup and
  one by the payload script, and nothing that is inserted is searched for markers. The text in the
  script holds none of the characters that could end it, and a JSON parser sees in it exactly the
  strings and symbols of the JSON text of the properties.
\<close>

theorem document_embeds_payload:
  assumes "renderDocument template markup props = Inr html" "json_text props = Some t"
  shows "(\<exists>a b c.
      (template = a @ SSR_MARKER @ b @ PAYLOAD_MARKER @ c \<and> html = a @ markup @ b @ payload_script props @ c) \<or>
      (template = a @ PAYLOAD_MARKER @ b @ SSR_MARKER @ c \<and> html = a @ payload_script props @ b @ markup @ c)) \<and>
    (\<forall>c\<in>set (safePayload props). \<not> markup_char c) \<and>
    tokens_of (safePayload props) = tokens_of t \<and> tokens_of t \<noteq> None"
proof -
  define P where "P = split_template template"
  let ?p = "payload_script props"
  have one: "count_list P PartSsr = 1" "count_list P PartPayload = 1"
    and html: "html = concat (map (part_text markup ?p) P)"
    using assms(1) split_template_counts [of template] by (auto simp: renderDocument_def P_def split: if_splits)
  have template: "template = concat (map (part_text SSR_MARKER PAYLOAD_MARKER) P)"
    using split_template_counts [of template] by (simp add: P_def)
  obtain xs ys zs where P: "P = xs @ PartSsr # ys @ PartPayload # zs \<or> P = xs @ PartPayload # ys @ PartSsr # zs"
    and chars: "\<forall>part\<in>set (xs @ ys @ zs). \<exists>c. part = PartChar c"
    using parts_of_one [OF one] by blast
  let ?t = "\<lambda>ps. concat (map (part_text [] []) ps)"
  have texts: "concat (map (part_text a b) xs) = ?t xs" "concat (map (part_text a b) ys) = ?t ys" "concat (map (part_text a b) zs) = ?t zs" for a b
    using chars char_parts [of xs a b "[]" "[]"] char_parts [of ys a b "[]" "[]"] char_parts [of zs a b "[]" "[]"]
    by (simp_all del: map_eq_conv)
  have "(template = ?t xs @ SSR_MARKER @ ?t ys @ PAYLOAD_MARKER @ ?t zs \<and> html = ?t xs @ markup @ ?t ys @ ?p @ ?t zs) \<or>
      (template = ?t xs @ PAYLOAD_MARKER @ ?t ys @ SSR_MARKER @ ?t zs \<and> html = ?t xs @ ?p @ ?t ys @ markup @ ?t zs)"
    using P
  proof
    assume "P = xs @ PartSsr # ys @ PartPayload # zs"
    then show ?thesis unfolding template html by (simp add: texts [of SSR_MARKER PAYLOAD_MARKER] texts [of markup ?p])
  next
    assume "P = xs @ PartPayload # ys @ PartSsr # zs"
    then show ?thesis unfolding template html by (simp add: texts [of SSR_MARKER PAYLOAD_MARKER] texts [of markup ?p])
  qed
  moreover have "safePayload props = escape_payload t" using assms(2) by (simp add: safePayload_def)
  ultimately show ?thesis
    using payload_tokens [OF assms(2)] escape_payload_no_markup [of _ t] by metis
qed

theorem document_embeds_payload_witness:
  "tokens_of (safePayload (JStr (js ''</script>''))) = tokens_of (json_quote (js ''</script>'')) \<and>
   0x3C \<notin> set (safePayload (JStr (js ''</script>'')))"
proof -
  have "length (split_text SSR_MARKER (SSR_MARKER @ PAYLOAD_MARKER)) = 2" "length (split_text PAYLOAD_MARKER (SSR_MARKER @ PAYLOAD_MARKER)) = 2"
    using marker_skip(1) [of PAYLOAD_MARKER] split_text_marker [of PAYLOAD_MARKER "[]"] marker_skip(2) [of "[]"]
      split_text_marker [of SSR_MARKER PAYLOAD_MARKER] marker_shape(5,6) split_text.simps [of PAYLOAD_MARKER "[]"] split_text.simps [of SSR_MARKER "[]"]
    by simp_all
  then obtain html where html: "renderDocument (SSR_MARKER @ PAYLOAD_MARKER) [] (JStr (js ''</script>'')) = Inr html"
    by (simp add: renderDocument_def)
  from document_embeds_payload [OF html] show ?thesis by (auto simp: markup_char_def)
qed

section \<open>Answers\<close>

lemma production_has_no_trace:
  "\<not> diagnostics \<Longrightarrow> initial_outcome wp diagnostics path response = Inr (InitialPage envelope development) \<Longrightarrow> development = None"
  by (auto simp: initial_outcome_def andThen_def Let_def split: if_splits sum.splits option.splits)

lemma initial_page_valid:
  "initial_outcome wp diagnostics path response = Inr (InitialPage envelope development) \<Longrightarrow> assertPageEnvelope envelope = Inr ()"
  by (auto simp: initial_outcome_def andThen_def Let_def split: if_splits sum.splits option.splits)

lemma fetched_page:
  assumes "fetchFluxInitialPage wp fetch backendUrl path headers diagnostics limit = (sent, Inr (InitialPage envelope development))"
  shows "assertPageEnvelope envelope = Inr () \<and> (\<not> diagnostics \<longrightarrow> development = None)"
  using assms initial_page_valid production_has_no_trace
  by (auto simp: fetchFluxInitialPage_def andThen_def Let_def split: sum.splits option.splits prod.splits)

lemma failure_status_cases: "failure_status aborted e \<in> {401, 403, 500, 503}"
  by (auto simp: failure_status_def split: error_class.split option.split)

definition page_answer :: "handler_env \<Rightarrow> handler_options \<Rightarrow> jsval \<Rightarrow> proxy_request \<Rightarrow> handler_response \<Rightarrow> bool" where
  "page_answer he options cache request r \<longleftrightarrow>
     (\<exists>envelope development template markup html.
        assertPageEnvelope envelope = Inr () \<and> (\<not> development_mode he options \<longrightarrow> development = None) \<and>
        template_text he = Inr template \<and> he_render he (application_props envelope cache development) = Inr markup \<and>
        renderDocument template markup (application_props envelope cache development) = Inr html \<and>
        ha_status r = 200 \<and> ha_body r = html_body request html)"

lemma rendered_page_Inr:
  assumes "rendered_page wp he options cache request u = (sent, Inr (Some html))"
  shows "page_answer he options cache request (htmlResponse (html_body request html) 200)"
proof -
  obtain headers fetched where f: "fetchFluxInitialPage wp (he_fetch he) (rh_backendUrl options) (u_pathname u @ u_search u)
      (Some headers) (development_mode he options) (Some DEFAULT_MAX_INITIAL_REDIRECTS) = (sent, fetched)"
    and rest: "andThen (untilAbort he AtFetch fetched) (page_outcome he cache) = Inr (Some html)"
    using assms by (auto simp: rendered_page_def Let_def split: sum.splits prod.splits)
  from rest obtain initial where "fetched = Inr initial" "page_outcome he cache initial = Inr (Some html)"
    by (auto simp: andThen_Inr_iff untilAbort_def split: if_splits)
  then obtain envelope development template markup where
    "fetched = Inr (InitialPage envelope development)" "template_text he = Inr template"
    "he_render he (application_props envelope cache development) = Inr markup"
    "renderDocument template markup (application_props envelope cache development) = Inr html"
    by (auto simp: page_outcome_def andThen_Inr_iff untilAbort_def Let_def split: initial_result.splits if_splits)
  then show ?thesis using fetched_page [of wp "he_fetch he"] f unfolding page_answer_def htmlResponse_def by fastforce
qed

lemma hop_headers_absent:
  "removeFluxHopByHopHeaders (Some hs) = Inr hs' \<Longrightarrow> headers_get n hs = None \<Longrightarrow> headers_get n hs' = None"
  by (auto simp: hop_filter headers_get_def filter_empty_conv split: if_splits)

lemma headers_deleted: "headers_get n (headers_delete n hs) = None"
  by (simp add: headers_get_def headers_delete_def filter_empty_conv split: prod.split)

lemma headers_delete_absent: "headers_get n hs = None \<Longrightarrow> headers_get n (headers_delete m hs) = None"
  by (auto simp: headers_get_def headers_delete_def filter_empty_conv split: if_splits)

lemma upstream_headers_absent:
  assumes "fluxTransportProxy wp fetch backendUrl request path = (sent, answer)" "headers_get n (px_headers request) = None" "up \<in> set sent"
  shows "headers_get n (up_headers up) = None"
  using assms hop_headers_absent headers_delete_absent
  by (fastforce simp: fluxTransportProxy_def proxy_upstream_def andThen_Inr_iff split: if_splits sum.splits option.splits)

text \<open>
  Every answer to a page request is never stored and is the empty 405 answer, a fixed document that
  depends on nothing but its status (401, 403, 404, 500 or 503), or the document of a page whose envelope
  is valid, with development data only in development. In production no transport request is passed on
  with the development header, and no transport answer shows a trace.
\<close>

lemma react_handler_safe:
  assumes "react_handler wp he options cache request = (relayed_requests, sent, Inr r)"
  shows "if headers_get (js ''x-fluxfast'') (px_headers request) = Some (js ''1'') then
      sent = [] \<and>
      (he_production he \<longrightarrow> headers_get HEADER_DEVTOOLS_TRACE (ha_headers r) = None \<and>
        (\<forall>up\<in>set relayed_requests. headers_get HEADER_DEVTOOLS (up_headers up) = None))
    else
      relayed_requests = [] \<and> headers_get (js ''cache-control'') (ha_headers r) = Some (js ''no-store'') \<and>
      ((ha_status r = 405 \<and> ha_body r = EmptyBody \<and> sent = []) \<or>
       (ha_status r \<in> {401, 403, 404, 500, 503} \<and> ha_body r = html_body request (failureDocument (ha_status r))) \<or>
       page_answer he options cache request r)"
proof -
  obtain u where u: "wp_parse wp (px_url request) = Some u" using assms by (auto simp: react_handler_def split: option.splits)
  show ?thesis
  proof (cases "headers_get (js ''x-fluxfast'') (px_headers request) = Some (js ''1'')")
    case True
    let ?request = "request\<lparr>px_headers := if development_mode he options then px_headers request
                                           else headers_delete HEADER_DEVTOOLS (px_headers request)\<rparr>"
    obtain asked answer where proxy:
      "fluxTransportProxy wp (he_upstream he) (rh_backendUrl options) ?request (u_pathname u) = (asked, answer)"
      by (cases "fluxTransportProxy wp (he_upstream he) (rh_backendUrl options) ?request (u_pathname u)")
    have "relayed_requests = asked" "sent = []" and
      r: "andThen answer (\<lambda>r. Inr (relayed (if development_mode he options then r
            else r\<lparr>pr_headers := headers_delete HEADER_DEVTOOLS_TRACE (pr_headers r)\<rparr>))) = Inr r"
      using assms by (auto simp: react_handler_def u True transport_answer_def proxy Let_def)
    moreover have "headers_get HEADER_DEVTOOLS (up_headers up) = None" if "he_production he" "up \<in> set asked" for up
      using upstream_headers_absent [OF proxy _ that(2), of HEADER_DEVTOOLS] that(1) by (simp add: development_mode_def headers_deleted)
    ultimately show ?thesis
      using True r by (auto simp: andThen_Inr_iff relayed_def development_mode_def headers_deleted)
  next
    case False
    show ?thesis
    proof (cases "px_method request \<noteq> js ''GET'' \<and> px_method request \<noteq> js ''HEAD''")
      case True
      then show ?thesis using assms False
        by (auto simp: react_handler_def u headers_get_def lower_name_def js_def lower_def)
    next
      case shown: False
      obtain asked outcome where page: "rendered_page wp he options cache request u = (asked, outcome)"
        by (cases "rendered_page wp he options cache request u")
      have r: "r = (case outcome of
                    Inr None \<Rightarrow> htmlResponse (html_body request (failureDocument 404)) 404
                  | Inr (Some html) \<Rightarrow> htmlResponse (html_body request html) 200
                  | Inl e \<Rightarrow> htmlResponse (html_body request (failureDocument (failure_status (he_aborted he AtFailure) e)))
                      (failure_status (he_aborted he AtFailure) e))"
        and none: "relayed_requests = []"
        using assms shown False by (auto simp: react_handler_def u page Let_def split: sum.splits option.splits)
      have "headers_get (js ''cache-control'') (ha_headers (htmlResponse b s)) = Some (js ''no-store'')" for b s
        by (simp add: htmlResponse_def headers_get_def lower_name_def js_def lower_def)
      then have store: "headers_get (js ''cache-control'') (ha_headers r) = Some (js ''no-store'')"
        unfolding r by (simp split: sum.split option.split)
      consider e where "outcome = Inl e" | "outcome = Inr None" | html where "outcome = Inr (Some html)"
        by (cases outcome) auto
      then show ?thesis
      proof cases
        case (1 e)
        then show ?thesis using False none store failure_status_cases [of "he_aborted he AtFailure" e]
          by (auto simp: r htmlResponse_def)
      next
        case 2
        then show ?thesis using False none store by (auto simp: r htmlResponse_def)
      next
        case (3 html)
        then show ?thesis using False none store rendered_page_Inr [of wp he options cache request u asked html] page by (auto simp: r)
      qed
    qed
  qed
qed

end
