(* ===== verification/Spec2Isabelle.thy ===== *)
theory Spec2Isabelle
  imports Store_Theorems Mutation_Theorems Cache_Theorems Resource_Epochs Prefetch_Theorems
    Live_Sse_Theorems Live_Manager_Theorems Trace_Theorems Router_Navigation Router_Theorems Server_Theorems
    Live_Connection Validation_Formats_Theorems Validation_Theorems Codegen_Snapshot
    Codegen_Names Codegen_Resources Codegen_Theorems Codegen_Generate_Theorems Devtools_Theorems
    Store_Reentry_Theorems React_Server_Theorems
begin

text \<open>
  A verification of the client runtime of FluxFast, \<open>packages/core/src\<close>, of its code generator,
  \<open>packages/codegen/src\<close>, of what its development tools compute, \<open>packages/devtools/src\<close>, and of the handler
  that renders the first page, \<open>packages/react/src/server\<close>. The runtime
  keeps the pages a server describes and the resources they are made of: it navigates, loads, mutates,
  prefetches and listens to live events, while React components, application code and the network
  interleave with it. The generator turns the manifest a server exports into types, validators, URL
  builders, mutation helpers and a page registry for one application. The development tools turn the
  diagnostic events of the runtime into the views of a panel.

  THE PROGRAM

  \<open>router.ts\<close> (\<open>FluxRouter\<close>) is the centre. It asks the transport (\<open>transport.ts\<close>) for pages, resources and
  mutations, writes the answers to the resource store and the page store (\<open>store.ts\<close>), applies mutation
  patches (\<open>mutation.ts\<close>), remembers pages (\<open>cache.ts\<close>), fetches pages ahead (\<open>prefetch.ts\<close>), remembers which
  work was begun last for a key (\<open>resource-epochs.ts\<close>), drives the live connection (\<open>live/\<close>), announces
  events (\<open>events.ts\<close>), and writes the browser history (\<open>history.ts\<close>). Development diagnostics observe all
  of it (\<open>diagnostics.ts\<close>, \<open>diagnostic-safety.ts\<close>). \<open>server/\<close> fetches the first page during server rendering
  and proxies the transport. \<open>validation/\<close> checks application data against plans generated from schemas;
  it is used by generated code and does not touch the router.

  In the generator, \<open>schema-manifest.ts\<close> checks a manifest and the JSON Schemas in it,
  \<open>validator-compiler.ts\<close> compiles the schemas to the plans that \<open>validation/\<close> evaluates,
  \<open>schema-compiler.ts\<close> compiles them to TypeScript types, \<open>route-compiler.ts\<close> and \<open>mutation-compiler.ts\<close> write
  the URL builders and helpers, and \<open>pages-registry.ts\<close> lists the page files; \<open>generate.ts\<close> compiles all of
  them in memory, checks where they go and writes them. In the React adapter, \<open>server/handler.ts\<close> answers
  requests: it proxies those of the transport and renders a document for the others.

  In the development tools, \<open>store.ts\<close> keeps a bounded list of events and what it last read from the router;
  \<open>timeline.ts\<close>, \<open>insights.ts\<close>, \<open>cache-mutations.ts\<close> and \<open>live-protocol.ts\<close> derive the views from it.

  THEORIES AND CODE

  \<open>Prelude\<close> has the strings (lists of 16-bit code units), insertion-ordered maps and sets, result types and
  general lemmas; its locales \<open>invariant_system\<close> (reachable states of a set of operations) and
  \<open>bounded_cache\<close> are interpreted by the store, the caches and the prefetch manager. \<open>Js_Value\<close> has the
  values \<open>JSON.parse\<close> gives, numbers as exact decimals with \<open>NaN\<close>, infinities and negative zero, and the
  equalities and conversions of the language; \<open>Json_Text\<close> what \<open>JSON.stringify\<close> writes; \<open>Text_Encoding\<close> UTF-8
  and base64url; \<open>Js_Heap\<close> arbitrary values of the language on a heap, with sharing, cycles, accessors
  that throw and proxies, and the rounding of doubles.

  \<open>Resource_Store\<close> models every method of \<open>ResourceStore\<close> and \<open>PageStore\<close> as functions on a record. The lemmas
  of \<open>Store_Invariant\<close>, \<open>Store_Operations\<close>, \<open>Store_Properties\<close> and \<open>Store_Theorems\<close> give its invariant, its
  eviction and what every method leaves readable. These functions are what a method computes when the
  subscribers it notifies leave the store alone. \<open>Store_Reentry\<close> models the same methods cut at every
  notification, as a stack machine whose configuration is the store and what is still to be executed:
  a subscriber that is called may begin any public operation, to any depth, also in the middle of an
  eviction. \<open>Store_Reentry_Theorems\<close> shows what holds at every moment then, that with quiet subscribers
  the machine computes what \<open>Resource_Store\<close> says, and what a subscriber can break
  (\<open>clear_during_eviction\<close>). \<open>Mutation\<close>, \<open>Page_Cache\<close>, \<open>Prefetch\<close>, \<open>Resource_Epochs\<close> and
  \<open>Runtime_Events\<close> model the files of these names, with their theorems beside them.

  \<open>Transport\<close>, \<open>Protocol\<close> and \<open>Fetch_Transport\<close> model the requests, the answers and their validation;
  \<open>Transport_Theorems\<close> shows what is sent and which answers get through, and \<open>Trace_Theorems\<close> treats the
  development traces of \<open>Diagnostics\<close>. \<open>Server\<close> and \<open>Server_Theorems\<close> treat \<open>server/\<close>, \<open>React_Server\<close> and
  \<open>React_Server_Theorems\<close> the request handler of the React adapter with its document and payload.

  \<open>Live_Protocol\<close>, \<open>Live_Sse\<close>, \<open>Live_Connection\<close> and \<open>Live_Manager\<close> model \<open>live/protocol.ts\<close>, the stream parser
  and the connection of \<open>live/transport.ts\<close>, and \<open>live/manager.ts\<close>. \<open>Live_Streams\<close> and \<open>Live_Manager_Theorems\<close>
  prove the absence of leaked streams against listeners that re-enter the manager; what such listeners
  may do is the locale \<open>live_listeners\<close>. A reconnect timer that is overwritten while it is scheduled keeps
  running in the browser; the model keeps it as a lost timer, which may fire like the current one. A
  \<open>live_event\<close> has no protocol field, since the code never reads it after the check; what was checked is
  stated of the wire value (\<open>wire_event_wf\<close>). The events of a stream are compared with those of its whole
  text (\<open>text_events\<close>), which has no chunks.

  \<open>Router\<close>, \<open>Router_Visit\<close> and \<open>Router_Ops\<close> model \<open>router.ts\<close> as functions on one record that contains the
  records of the parts. \<open>Router_Keeps\<close> states in the locales \<open>router_frame\<close>, \<open>router_writes\<close> and \<open>router_keeps\<close>
  which predicates every operation preserves, given that the parts preserve them, and the other
  \<open>Router_\<close> theories interpret these with different predicates: the composed invariant, what a key holds,
  which visit is current. Listeners of events, diagnostics and the page may run any router steps, to any
  finite depth (\<open>router_reentrant\<close>). Subscribers of the resource store are called after the store operation
  (\<open>on_store\<close>), which is exact for subscribers that leave the router as it is (\<open>store_quiet\<close>); what they can
  do to the store in the middle of an operation is the subject of \<open>Store_Reentry\<close>. \<open>Router_Steps\<close> makes a step relation of it: any call, answer or timer in any
  order.

  \<open>Validation_Formats\<close> models \<open>validation/formats.ts\<close>, with each regular expression written as a function.
  \<open>Validation_Plan\<close> models the compiler of plans in \<open>validation/plan.ts\<close>; \<open>Validation_Issues\<close>,
  \<open>Validation_Eval\<close> and \<open>Validation_Evaluate\<close> model the evaluator, \<open>issues.ts\<close> and \<open>validator.ts\<close>.
  \<open>Validation_Sound\<close> proves, in the locale \<open>plan_family\<close>, how an evaluation changes its state, for any set of
  plans closed under nesting and references; \<open>Validation_Checked\<close> interprets it with all plans and with the
  plans reachable from a compiled one. \<open>Validation_Reference\<close> gives the meaning of plans without state, and
  \<open>Validation_Refines\<close> proves the evaluator a refinement of it. \<open>Validation_Theorems\<close> and
  \<open>Validation_Formats_Theorems\<close> hold the results.

  \<open>Codegen_Manifest\<close> models \<open>schema-manifest.ts\<close> over a heap of arbitrary input objects, and
  \<open>Codegen_Snapshot\<close> shows what its snapshot guarantees. \<open>Codegen_Schema\<close> and \<open>Codegen_Compile\<close> model the
  compiler of \<open>validator-compiler.ts\<close> (bounds, keywords, references, definitions; then nodes), and
  \<open>Codegen_Contracts\<close> the contracts of a manifest and the text of the generated validators.
  \<open>Codegen_Meaning\<close> says what schemas and generated plans mean on JSON data (\<open>schema_admits\<close>, \<open>plan_admits\<close>),
  \<open>Codegen_Preserves\<close> proves that the compiler preserves it, and \<open>Codegen_Theorems\<close> holds the results.
  \<open>Codegen_Types\<close> and \<open>Codegen_Resources\<close> model \<open>schema-compiler.ts\<close>, \<open>Codegen_Routes\<close> the other generators,
  and \<open>Codegen_Names\<close> proves their names distinct and their placeholders filled. \<open>Codegen_Generate\<close> models
  \<open>generate.ts\<close> over a map from resolved paths to entries, in which every write may fail, and
  \<open>Codegen_Generate_Theorems\<close> shows that no file is ever written in part.

  \<open>Devtools_Timeline\<close>, \<open>Devtools_Insights\<close>, \<open>Devtools_Mutations\<close> and \<open>Devtools_Protocol\<close> model the projections of
  the development tools, \<open>Devtools_Store\<close> their store and preferences; \<open>Devtools_Theorems\<close> holds the results.

  CONVENTIONS

  Definitions keep the names of the code. Classes are records and methods functions that return the new
  record with the result. \<open>Date.now()\<close> and random numbers are arguments. Errors are values: \<open>Inl\<close> of an
  error class (messages for developers are left out) or the exception flag of the state. An asynchronous
  method is split at its awaits into the functions that run between them; a task under way is a record
  that holds what the closure captured, so that any interleaving is a sequence of steps. Callbacks are
  numbers, their invocations are logged or, where they may call back, are a function of the state that is
  an argument (the environment); the properties then say what they assume of it. Code from outside
  (\<open>fetch\<close>, \<open>JSON.parse\<close>, \<open>URL\<close>, \<open>TextDecoder\<close>, \<open>decodeURIComponent\<close>, \<open>new RegExp\<close>) is a parameter, and what a
  theorem needs to know of it is a named hypothesis.

  WHAT IS PROVED

  Router: the composed invariant of all parts in every reachable state; superseded visits, loads and work
  from before \<open>clear\<close> change nothing; navigations respect newer authority; live events are batched.
  Transport: headers, envelopes, redirects and traces. Store, caches, epochs, prefetch: invariants,
  also under re-entrant subscribers, eviction, exact lookup. Live: validated events, what chunking can
  and cannot change, no leaked or stuck connection. Server: requests stay with the backend with exactly
  the headers meant for it and are bounded; the payload of a document cannot end its script. Validation: bounded evaluation on any value,
  compiled plans never surprise the evaluator, the verdict is that of the reference semantics unless the
  operations run out, formats. Generator: the plan of a schema means what the schema means, no keyword is
  ignored, manifests are bounded whatever is passed, names do not collide, placeholders are filled, file
  names cannot change the registry, generation writes whole files or nothing. Development tools: the store is bounded and its snapshot current, the
  timeline shows the newest events in full, the history has one entry for each mutation. Where the code does something other than it means to, a theorem or lemma
  states it, mostly at a concrete input: a subscriber that clears the store during an eviction, a redirect
  that continues after \<open>clear\<close>, a listener that navigates during an abort, an issue located at an
  inherited name, an empty match that removes everything, a diagnostics listener that reconnects during
  \<open>clear\<close>, a oneOf plan that accepts two matches when the operations run out, a literal with a shared part,
  a stray colon in an address, an escaped parenthesis that hides quantifiers, a definition named \<open>#\<close>,
  a constant zero that refuses negative zero, a tuple type for arrays of any length.

  BOUNDS AND TERMINATION

  All functions are total. Loops end by structural recursion or by a measure that is proved: the
  operations left (\<open>deep_loop\<close>), the levels left (\<open>evaluate\<close>), the unreached objects of the heap
  (\<open>drain_plans\<close>, \<open>schedule_definitions\<close>), the redirects left (\<open>follow\<close>), the text left (the parsers), the size of
  the schema (the compilers of the generator), the levels left (\<open>snapshot_value\<close>), the definitions not being
  resolved (\<open>resolveDefinition\<close>). The only fuel in a model is in \<open>common_loop\<close> of the generator, where it is
  the length of the path, which has no more parents, and in the reader of quoted texts that the proofs
  about \<open>JSON.stringify\<close> use, where it is the length of the text. The meanings of schemas and plans take the
  number of references that may be followed; the preservation theorem holds for every such number.

  NOT MODELLED

  Messages of errors that only developers read; the identity of arrays and objects where the code never
  compares them (it is kept where it does, by object numbers or the heap); console output; the React
  components and hooks and the rendering of React to a stream, the Vite and Next.js adapters, the panel
  that renders the development tools, command line tools and release scripts, which are user interface
  and process handling around the runtime; the Python server.
\<close>

end
